(* ===== verification/Prelude.thy ===== *)
theory Prelude
  imports Main "HOL-Library.Word"
begin

text \<open>
  Shared vocabulary of the development: the outcome of a contract invocation, the part of the
  Soroban host environment that the contracts read, range-checked machine integers, big-endian
  byte encodings and weighted sums over finite maps.

  Soroban runs an invocation atomically. A handler that returns \<open>Err e\<close>, or that panics, leaves
  no trace in storage, so only a successful outcome carries a new state.
\<close>

named_theorems outcome_iff \<open>when a composed computation succeeds\<close>
named_theorems range_defs \<open>ranges of the machine integers\<close>

section \<open>Outcomes of an invocation\<close>

datatype ('e, 'a) outcome = Ok 'a | Err 'e | Panic

text \<open>The \<open>?\<close> operator of Rust: continue with the value, or return the failure.\<close>

fun and_then :: "('e, 'a) outcome \<Rightarrow> ('a \<Rightarrow> ('e, 'b) outcome) \<Rightarrow> ('e, 'b) outcome" where
  "and_then (Ok x) f = f x"
| "and_then (Err e) f = Err e"
| "and_then Panic f = Panic"

text \<open>\<open>Option::ok_or\<close>, and \<open>unwrap\<close> (which panics).\<close>

definition ok_or :: "'a option \<Rightarrow> 'e \<Rightarrow> ('e, 'a) outcome" where
  "ok_or m e = (case m of None \<Rightarrow> Err e | Some x \<Rightarrow> Ok x)"

definition unwrap :: "'a option \<Rightarrow> ('e, 'a) outcome" where
  "unwrap m = (case m of None \<Rightarrow> Panic | Some x \<Rightarrow> Ok x)"

definition unwrap_or :: "'a option \<Rightarrow> 'a \<Rightarrow> 'a" where
  "unwrap_or m d = (case m of None \<Rightarrow> d | Some x \<Rightarrow> x)"

text \<open>\<open>Result::map_err\<close>: the same value, or another error.\<close>

definition map_err :: "('e \<Rightarrow> 'd) \<Rightarrow> ('e, 'a) outcome \<Rightarrow> ('d, 'a) outcome" where
  "map_err f m = (case m of Ok x \<Rightarrow> Ok x | Err e \<Rightarrow> Err (f e) | Panic \<Rightarrow> Panic)"

definition is_ok :: "('e, 'a) outcome \<Rightarrow> bool" where
  "is_ok m = (case m of Ok _ \<Rightarrow> True | _ \<Rightarrow> False)"

lemma unwrap_or_simps [simp]:
  "unwrap_or None d = d" "unwrap_or (Some x) d = x"
  by (simp_all add: unwrap_or_def)

lemma is_ok_simps [simp]:
  "is_ok (Ok x)" "\<not> is_ok (Err e)" "\<not> is_ok Panic"
  by (simp_all add: is_ok_def)

lemma is_ok_iff: "is_ok m \<longleftrightarrow> (\<exists>x. m = Ok x)"
  by (cases m) simp_all

lemma and_then_Ok [outcome_iff]:
  "and_then m f = Ok y \<longleftrightarrow> (\<exists>x. m = Ok x \<and> f x = Ok y)"
  by (cases m) simp_all

lemma and_then_Err: "and_then m f = Err e \<longleftrightarrow> m = Err e \<or> (\<exists>x. m = Ok x \<and> f x = Err e)"
  by (cases m) simp_all

text \<open>A recursive call below \<open>?\<close> only happens on a value that was returned.\<close>

lemma and_then_cong [fundef_cong]:
  "m = m' \<Longrightarrow> (\<And>x. m' = Ok x \<Longrightarrow> f x = g x) \<Longrightarrow> and_then m f = and_then m' g"
  by (cases m') simp_all

lemma ok_or_simps [simp]:
  "ok_or (Some x) e = Ok x" "ok_or None e = Err e"
  by (simp_all add: ok_or_def)

lemma unwrap_simps [simp]:
  "unwrap (Some x) = Ok x" "unwrap None = Panic"
  by (simp_all add: unwrap_def)

lemma ok_or_Ok [outcome_iff]: "ok_or m e = Ok x \<longleftrightarrow> m = Some x"
  by (cases m) simp_all

lemma unwrap_Ok [outcome_iff]: "unwrap m = Ok x \<longleftrightarrow> m = Some x"
  by (cases m) simp_all

lemma map_err_Ok [outcome_iff]: "map_err f m = Ok x \<longleftrightarrow> m = Ok x"
  by (cases m) (simp_all add: map_err_def)

lemma map_err_simps [simp]: "map_err f (Ok x) = Ok x" "map_err f (Err e) = Err (f e)"
  by (simp_all add: map_err_def)

lemma if_reject_Ok [outcome_iff]:
  "(if b then Err e else m) = Ok y \<longleftrightarrow> \<not> b \<and> m = Ok y"
  "(if b then m else Err e) = Ok y \<longleftrightarrow> b \<and> m = Ok y"
  "(if b then Panic else m) = Ok y \<longleftrightarrow> \<not> b \<and> m = Ok y"
  "(if b then m else Panic) = Ok y \<longleftrightarrow> b \<and> m = Ok y"
  by simp_all

lemma case_option_Ok [outcome_iff]:
  "(case m of None \<Rightarrow> Err e | Some x \<Rightarrow> f x) = Ok y \<longleftrightarrow> (\<exists>x. m = Some x \<and> f x = Ok y)"
  "(case m of None \<Rightarrow> Panic | Some x \<Rightarrow> f x) = Ok y \<longleftrightarrow> (\<exists>x. m = Some x \<and> f x = Ok y)"
  by (cases m; simp)+

text \<open>The state after a call that returns a value beside it.\<close>

definition state_of :: "('e, 'a \<times> 's) outcome \<Rightarrow> ('e, 's) outcome" where
  "state_of m = and_then m (\<lambda>(_, s). Ok s)"

lemma state_of_Ok [outcome_iff]: "state_of m = Ok s \<longleftrightarrow> (\<exists>x. m = Ok (x, s))"
  by (auto simp: state_of_def outcome_iff)

text \<open>\<open>Vec::get\<close>: the element, or \<open>None\<close> out of range.\<close>

definition vec_get :: "'a list \<Rightarrow> nat \<Rightarrow> 'a option" where
  "vec_get xs i = (if i < length xs then Some (xs ! i) else None)"

lemma vec_get_simps [simp]:
  "i < length xs \<Longrightarrow> vec_get xs i = Some (xs ! i)"
  "vec_get xs i = Some x \<longleftrightarrow> i < length xs \<and> xs ! i = x"
  by (auto simp: vec_get_def)

section \<open>The host environment\<close>

type_synonym address = nat
type_synonym byte = "8 word"
type_synonym bytes = "byte list"
type_synonym hash32 = bytes

text \<open>
  What an invocation reads of its host: the ledger's close time and sequence number, the
  address of the running contract, and which addresses authorised the call.
\<close>

record env =
  timestamp :: nat
  ledger_sequence :: nat
  self :: address
  auth :: "address \<Rightarrow> bool"

definition require_auth :: "env \<Rightarrow> address \<Rightarrow> ('e, unit) outcome" where
  "require_auth env a = (if auth env a then Ok () else Panic)"

lemma require_auth_Ok [outcome_iff]: "require_auth env a = Ok u \<longleftrightarrow> auth env a"
  by (simp add: require_auth_def)

lemma require_auth_simps [simp]:
  "auth env a \<Longrightarrow> require_auth env a = Ok ()"
  "\<not> auth env a \<Longrightarrow> require_auth env a = Panic"
  by (simp_all add: require_auth_def)

text \<open>A sequence of calls, each with its own environment, up to the first failure.\<close>

fun run_calls ::
  "(env \<Rightarrow> 'c \<Rightarrow> 's \<Rightarrow> ('e, 's) outcome) \<Rightarrow> (env \<times> 'c) list \<Rightarrow> 's \<Rightarrow> ('e, 's) outcome" where
  "run_calls exec [] s = Ok s"
| "run_calls exec ((env, c) # cs) s = and_then (exec env c s) (run_calls exec cs)"

lemma run_calls_steps:
  assumes "run_calls exec cs s = Ok s'"
    and "\<And>env c s s'. (env, c) \<in> set cs \<Longrightarrow> exec env c s = Ok s' \<Longrightarrow> step s s'"
  shows "step\<^sup>*\<^sup>* s s'"
  using assms
proof (induction cs arbitrary: s)
  case Nil
  then show ?case by simp
next
  case (Cons ec cs)
  obtain env c where ec: "ec = (env, c)" by fastforce
  with Cons.prems(1) obtain s1 where "exec env c s = Ok s1" "run_calls exec cs s1 = Ok s'"
    by (auto simp: outcome_iff)
  with Cons ec show ?case
    by (metis converse_rtranclp_into_rtranclp list.set_intros)
qed

section \<open>Machine integers\<close>

text \<open>
  The release profile sets \<open>overflow-checks = true\<close>: a plain \<open>+\<close>, \<open>-\<close> or \<open>*\<close> that leaves the
  type's range panics, and \<open>checked_add\<close> and its kin return \<open>None\<close>. Neither wraps, so a value
  is its mathematical integer together with a range test at every operation.
\<close>

definition fits_i128 :: "int \<Rightarrow> bool" where
  [range_defs]: "fits_i128 x \<longleftrightarrow> - (2 ^ 127) \<le> x \<and> x < 2 ^ 127"

definition fits_u128 :: "int \<Rightarrow> bool" where
  [range_defs]: "fits_u128 x \<longleftrightarrow> 0 \<le> x \<and> x < 2 ^ 128"

definition fits_u64 :: "nat \<Rightarrow> bool" where
  [range_defs]: "fits_u64 x \<longleftrightarrow> x < 2 ^ 64"

definition fits_u32 :: "nat \<Rightarrow> bool" where
  [range_defs]: "fits_u32 x \<longleftrightarrow> x < 2 ^ 32"

definition i128_checked :: "int \<Rightarrow> int option" where
  "i128_checked x = (if fits_i128 x then Some x else None)"

definition u64_checked :: "nat \<Rightarrow> nat option" where
  "u64_checked x = (if fits_u64 x then Some x else None)"

definition u32_checked :: "nat \<Rightarrow> nat option" where
  "u32_checked x = (if fits_u32 x then Some x else None)"

definition fits_i64 :: "int \<Rightarrow> bool" where
  [range_defs]: "fits_i64 x \<longleftrightarrow> - (2 ^ 63) \<le> x \<and> x < 2 ^ 63"

definition i64_checked :: "int \<Rightarrow> int option" where
  "i64_checked x = (if fits_i64 x then Some x else None)"

text \<open>The cast \<open>as i64\<close> of a \<open>u64\<close>, which keeps the bits.\<close>

definition as_i64 :: "nat \<Rightarrow> int" where
  "as_i64 n = (if n < 2 ^ 63 then int n else int n - 2 ^ 64)"

text \<open>\<open>saturating_add\<close> on \<open>u32\<close>.\<close>

definition u32_saturating_add :: "nat \<Rightarrow> nat \<Rightarrow> nat" where
  "u32_saturating_add a b = min (a + b) (2 ^ 32 - 1)"

text \<open>A plain operator on \<open>i128\<close>, \<open>i64\<close>, \<open>u64\<close> or \<open>u32\<close>: the exact result, or a panic.\<close>

definition i128_op :: "int \<Rightarrow> ('e, int) outcome" where
  "i128_op x = unwrap (i128_checked x)"

definition i64_op :: "int \<Rightarrow> ('e, int) outcome" where
  "i64_op x = unwrap (i64_checked x)"

definition u64_op :: "nat \<Rightarrow> ('e, nat) outcome" where
  "u64_op x = unwrap (u64_checked x)"

definition u32_op :: "nat \<Rightarrow> ('e, nat) outcome" where
  "u32_op x = unwrap (u32_checked x)"

lemma checked_Some [simp]:
  "i128_checked x = Some y \<longleftrightarrow> y = x \<and> fits_i128 x"
  "i64_checked x = Some y \<longleftrightarrow> y = x \<and> fits_i64 x"
  "u64_checked m = Some n \<longleftrightarrow> n = m \<and> fits_u64 m"
  "u32_checked m = Some n \<longleftrightarrow> n = m \<and> fits_u32 m"
  by (auto simp: i128_checked_def i64_checked_def u64_checked_def u32_checked_def)

lemma op_Ok [outcome_iff]:
  "i128_op x = Ok y \<longleftrightarrow> y = x \<and> fits_i128 x"
  "i64_op x = Ok y \<longleftrightarrow> y = x \<and> fits_i64 x"
  "u64_op m = Ok n \<longleftrightarrow> n = m \<and> fits_u64 m"
  "u32_op m = Ok n \<longleftrightarrow> n = m \<and> fits_u32 m"
  by (simp_all add: i128_op_def i64_op_def u64_op_def u32_op_def outcome_iff)

lemma op_fits [simp]:
  "fits_i128 x \<Longrightarrow> i128_op x = Ok x"
  "fits_i64 x \<Longrightarrow> i64_op x = Ok x"
  "fits_u64 m \<Longrightarrow> u64_op m = Ok m"
  "fits_u32 m \<Longrightarrow> u32_op m = Ok m"
  by (simp_all add: outcome_iff)

text \<open>Rust's integer division truncates towards zero and its remainder takes the dividend's sign.\<close>

definition div_trunc :: "int \<Rightarrow> int \<Rightarrow> int" where
  "div_trunc a b = sgn a * sgn b * (\<bar>a\<bar> div \<bar>b\<bar>)"

definition rem_trunc :: "int \<Rightarrow> int \<Rightarrow> int" where
  "rem_trunc a b = a - b * div_trunc a b"

lemma div_trunc_nonneg: "0 \<le> a \<Longrightarrow> 0 < b \<Longrightarrow> div_trunc a b = a div b"
  by (cases "a = 0") (simp_all add: div_trunc_def)

lemma rem_trunc_nonneg: "0 \<le> a \<Longrightarrow> 0 < b \<Longrightarrow> rem_trunc a b = a mod b"
  by (simp add: rem_trunc_def div_trunc_nonneg minus_mult_div_eq_mod)

section \<open>Big-endian encodings\<close>

text \<open>\<open>to_be_bytes\<close> of an unsigned value on \<open>k\<close> bytes, and of an \<open>i128\<close> (two's complement).\<close>

fun be_bytes :: "nat \<Rightarrow> nat \<Rightarrow> bytes" where
  "be_bytes 0 x = []"
| "be_bytes (Suc k) x = be_bytes k (x div 256) @ [of_nat (x mod 256)]"

definition be_bytes_i128 :: "int \<Rightarrow> bytes" where
  "be_bytes_i128 x = be_bytes 16 (nat (x mod 2 ^ 128))"

lemma length_be_bytes [simp]: "length (be_bytes k x) = k"
  by (induction k arbitrary: x) simp_all

lemma length_be_bytes_i128 [simp]: "length (be_bytes_i128 x) = 16"
  by (simp add: be_bytes_i128_def)

lemma byte_of_nat_inject: "a < 256 \<Longrightarrow> b < 256 \<Longrightarrow> (of_nat a :: byte) = of_nat b \<Longrightarrow> a = b"
proof -
  assume lt: "a < 256" "b < 256" and eq: "(of_nat a :: byte) = of_nat b"
  from eq have "unat (of_nat a :: byte) = unat (of_nat b :: byte)" by simp
  with lt show "a = b" by (simp add: unat_of_nat)
qed

lemma be_bytes_inject:
  "x < 256 ^ k \<Longrightarrow> y < 256 ^ k \<Longrightarrow> be_bytes k x = be_bytes k y \<Longrightarrow> x = y"
proof (induction k arbitrary: x y)
  case 0
  then show ?case by simp
next
  case (Suc k)
  from Suc.prems have low: "(of_nat (x mod 256) :: byte) = of_nat (y mod 256)"
    and high: "be_bytes k (x div 256) = be_bytes k (y div 256)"
    by simp_all
  have "x div 256 = y div 256"
    using Suc.prems(1,2) high by (intro Suc.IH) (simp_all add: less_mult_imp_div_less mult.commute)
  moreover have "x mod 256 = y mod 256"
    using low by (intro byte_of_nat_inject) simp_all
  ultimately show ?case
    by (metis div_mult_mod_eq)
qed

lemma be_bytes_i128_inject:
  assumes "fits_i128 x" "fits_i128 y" "be_bytes_i128 x = be_bytes_i128 y"
  shows "x = y"
proof -
  have bound: "nat (z mod 2 ^ 128) < 256 ^ 16" for z :: int
    using pos_mod_bound [of "2 ^ 128" z] by simp
  have "nat (x mod 2 ^ 128) = nat (y mod 2 ^ 128)"
    using assms(3) bound be_bytes_inject unfolding be_bytes_i128_def by blast
  then have "x mod 2 ^ 128 = y mod 2 ^ 128"
    by (metis nat_eq_iff2 pos_mod_sign zero_less_numeral zero_less_power)
  then have "2 ^ 128 dvd x - y"
    by (simp add: mod_eq_dvd_iff)
  moreover have "\<bar>x - y\<bar> < 2 ^ 128"
    using assms(1,2) by (simp add: fits_i128_def abs_if)
  ultimately show ?thesis
    using dvd_imp_le_int [of "x - y" "2 ^ 128"] by auto
qed

text \<open>The bytes of an ASCII literal.\<close>

definition ascii :: "string \<Rightarrow> bytes" where
  "ascii cs = map (\<lambda>c. of_nat (of_char c)) cs"

lemma ascii_inj: "inj ascii"
proof (rule injI)
  fix x y assume "ascii x = ascii y"
  moreover have "inj (\<lambda>c. of_nat (of_char c) :: byte)"
  proof (rule injI)
    fix a b :: char assume "(of_nat (of_char a) :: byte) = of_nat (of_char b)"
    then have "(of_char a :: nat) = of_char b"
      by (intro byte_of_nat_inject) (simp_all add: nat_of_char_less_256)
    then show "a = b" by simp
  qed
  ultimately show "x = y" unfolding ascii_def by (simp add: inj_map_eq_map)
qed

section \<open>Weighted sums over finite maps\<close>

text \<open>
  A contract's liabilities are sums over a storage map: locked escrow amounts, balances, debts.
  \<open>msum f m\<close> adds the weight \<open>f v\<close> of every stored value \<open>v\<close>; one update changes one summand.
\<close>

definition msum :: "('v \<Rightarrow> int) \<Rightarrow> ('k \<rightharpoonup> 'v) \<Rightarrow> int" where
  "msum f m = (\<Sum>k\<in>dom m. f (the (m k)))"

lemma msum_empty [simp]: "msum f Map.empty = 0"
  by (simp add: msum_def)

lemma msum_insert: "finite (dom m) \<Longrightarrow> m k = None \<Longrightarrow> msum f (m(k \<mapsto> v)) = msum f m + f v"
proof -
  assume fin: "finite (dom m)" and new: "m k = None"
  have "(\<Sum>j\<in>dom m. f (the ((m(k \<mapsto> v)) j))) = (\<Sum>j\<in>dom m. f (the (m j)))"
    using new by (intro sum.cong) auto
  then show ?thesis
    using fin new by (simp add: msum_def domIff)
qed

lemma msum_remove: "finite (dom m) \<Longrightarrow> m k = Some u \<Longrightarrow> msum f (m(k := None)) = msum f m - f u"
proof -
  assume fin: "finite (dom m)" and old: "m k = Some u"
  have "(\<Sum>j\<in>dom m - {k}. f (the ((m(k := None)) j))) = (\<Sum>j\<in>dom m - {k}. f (the (m j)))"
    by (intro sum.cong) auto
  moreover have "k \<in> dom m"
    using old by auto
  ultimately show ?thesis
    using fin old by (simp add: msum_def sum_diff1)
qed

lemma msum_replace:
  assumes "finite (dom m)" and "m k = Some u"
  shows "msum f (m(k \<mapsto> v)) = msum f m - f u + f v"
proof -
  have "msum f ((m(k := None))(k \<mapsto> v)) = msum f (m(k := None)) + f v"
    using assms by (intro msum_insert) auto
  with assms show ?thesis
    by (simp add: msum_remove)
qed

text \<open>The common case: a map read with \<open>unwrap_or 0\<close> and written back.\<close>

lemma msum_update:
  "finite (dom m) \<Longrightarrow>
    msum f (m(k \<mapsto> v)) = msum f m - (case m k of None \<Rightarrow> 0 | Some u \<Rightarrow> f u) + f v"
  by (cases "m k") (simp_all add: msum_insert msum_replace)

lemma msum_nonneg: "(\<And>k v. m k = Some v \<Longrightarrow> 0 \<le> f v) \<Longrightarrow> 0 \<le> msum f m"
  unfolding msum_def by (intro sum_nonneg) auto

lemma msum_mem_le:
  assumes "finite (dom m)" "m k = Some u" "\<And>j v. m j = Some v \<Longrightarrow> 0 \<le> f v"
  shows "f u \<le> msum f m"
proof -
  have "0 \<le> msum f (m(k := None))"
    using assms(3) by (intro msum_nonneg) (simp split: if_splits)
  then show ?thesis
    using msum_remove [OF assms(1,2), of f] by simp
qed

lemma msum_zero: "(\<And>k v. m k = Some v \<Longrightarrow> f v = 0) \<Longrightarrow> msum f m = 0"
  unfolding msum_def by (intro sum.neutral) auto

text \<open>A sum of indicators counts.\<close>

lemma msum_count:
  assumes "finite (dom m)"
  shows "msum (\<lambda>v. of_bool (P v)) m = int (card {k. \<exists>v. m k = Some v \<and> P v})"
proof -
  have "{k. \<exists>v. m k = Some v \<and> P v} = dom m \<inter> {k. P (the (m k))}" by auto
  then show ?thesis using assms by (simp add: msum_def)
qed

lemmas msum_simps = msum_insert msum_replace msum_remove

end
