(* ===== verification/Transition_Systems.thy ===== *)
theory Transition_Systems
  imports Prelude
begin

text \<open>
  Runs of a contract. A contract's step relation is one successful call; every theorem about
  reachable states comes from a fact about one step. \<open>preserved\<close> is the contract of an invariant,
  \<open>evolving\<close> adds a relation between a state and its successors (what may still change, and how)
  that composes along a run. Each contract interprets them on its own step relation.
\<close>

locale preserved =
  fixes step :: "'s \<Rightarrow> 's \<Rightarrow> bool" and inv :: "'s \<Rightarrow> bool"
  assumes step_inv: "step s t \<Longrightarrow> inv s \<Longrightarrow> inv t"
begin

lemma run: "step\<^sup>*\<^sup>* s t \<Longrightarrow> inv s \<Longrightarrow> inv t"
  by (induction rule: rtranclp_induct) (auto intro: step_inv)

end

locale evolving = preserved step inv
  for step :: "'s \<Rightarrow> 's \<Rightarrow> bool" and inv :: "'s \<Rightarrow> bool" +
  fixes evolves :: "'s \<Rightarrow> 's \<Rightarrow> bool"
  assumes evolves_refl: "evolves s s"
    and evolves_trans: "inv s \<Longrightarrow> evolves s t \<Longrightarrow> evolves t u \<Longrightarrow> evolves s u"
    and step_evolves: "step s t \<Longrightarrow> inv s \<Longrightarrow> evolves s t"
begin

lemma run_evolves: "step\<^sup>*\<^sup>* s t \<Longrightarrow> inv s \<Longrightarrow> evolves s t"
proof (induction rule: rtranclp_induct)
  case base
  show ?case by (rule evolves_refl)
next
  case (step y z)
  then show ?case
    using run evolves_trans step_evolves by blast
qed

end

section \<open>Stored values over time\<close>

text \<open>A stored value is kept, up to a relation.\<close>

definition kept :: "('v \<Rightarrow> 'v \<Rightarrow> bool) \<Rightarrow> ('k \<rightharpoonup> 'v) \<Rightarrow> ('k \<rightharpoonup> 'v) \<Rightarrow> bool" where
  "kept R m m' \<longleftrightarrow> (\<forall>k v. m k = Some v \<longrightarrow> (\<exists>v'. m' k = Some v' \<and> R v v'))"

lemma kept_refl: "(\<And>v. R v v) \<Longrightarrow> kept R m m"
  by (simp add: kept_def)

lemma kept_update: "(\<And>v. R v v) \<Longrightarrow> (\<And>u. m k = Some u \<Longrightarrow> R u v) \<Longrightarrow> kept R m (m(k \<mapsto> v))"
  by (simp add: kept_def)

lemma kept_trans:
  assumes "\<And>u v w. R u v \<Longrightarrow> R v w \<Longrightarrow> R u w" "kept R m m'" "kept R m' m''"
  shows "kept R m m''"
  unfolding kept_def
proof (intro allI impI)
  fix k v
  assume "m k = Some v"
  with assms(2) obtain v' where "m' k = Some v'" "R v v'" unfolding kept_def by blast
  moreover from this(1) assms(3) obtain v'' where "m'' k = Some v''" "R v' v''" unfolding kept_def by blast
  ultimately show "\<exists>v'. m'' k = Some v' \<and> R v v'" using assms(1) by blast
qed

end
