(* ===== verification/Token_Interface.thy ===== *)
theory Token_Interface
  imports Transition_Systems
begin

text \<open>
  The interface between a contract that holds tokens and the token contract it calls.

  A contract calls \<open>token::Client::transfer(from, to, amount)\<close> on an arbitrary token address.
  The token world is an abstract type \<open>'w\<close>; \<open>xfer\<close> is the call (\<open>None\<close> when the token traps,
  which aborts the caller too) and \<open>bal\<close> reads a balance. The locale \<open>token_ledger\<close> states what
  callers rely on; \<open>CHV_Token\<close> interprets it on the model of the CHV token.

  On top of it, \<open>custody_move\<close> says what a custodian may do with its books and its tokens, and
  the locale \<open>custodian\<close> proves once that a contract whose every step is such a move stays
  solvent: it never owes more of a token than it holds.
\<close>

type_synonym 'w transfer_fn = "'w \<Rightarrow> address \<Rightarrow> address \<Rightarrow> address \<Rightarrow> int \<Rightarrow> 'w option"

section \<open>The token a contract relies on\<close>

locale token_ledger =
  fixes bal :: "'w \<Rightarrow> address \<Rightarrow> address \<Rightarrow> int"
    and xfer :: "'w transfer_fn"
  assumes xfer_effect:
    "xfer w t a b n = Some w' \<Longrightarrow>
      bal w' u c = bal w u c + (if u = t \<and> c = b then n else 0) - (if u = t \<and> c = a then n else 0)"
    and xfer_guard: "xfer w t a b n = Some w' \<Longrightarrow> 0 \<le> n \<and> n \<le> bal w t a"
begin

lemma xfer_out:
  "xfer w t me b n = Some w' \<Longrightarrow> b \<noteq> me \<Longrightarrow> bal w' t me = bal w t me - n"
  by (simp add: xfer_effect)

lemma xfer_in:
  "xfer w t a me n = Some w' \<Longrightarrow> a \<noteq> me \<Longrightarrow> bal w' t me = bal w t me + n"
  by (simp add: xfer_effect)

lemma xfer_total:
  assumes "xfer w t a b n = Some w'" "finite A" "a \<in> A" "b \<in> A"
  shows "(\<Sum>c\<in>A. bal w' u c) = (\<Sum>c\<in>A. bal w u c)"
  using assms by (cases "u = t") (simp_all add: xfer_effect sum_subtractf sum.distrib)

end

section \<open>Custody\<close>

text \<open>
  One move of a custodian \<open>me\<close> with liabilities \<open>l\<close> (per token): release a claim, take tokens in from
  a payer in \<open>P\<close> and owe at most what came in, or send tokens out and write off at least what left.
\<close>

inductive custody_move ::
  "'w transfer_fn \<Rightarrow> (address \<Rightarrow> bool) \<Rightarrow> address \<Rightarrow> (address \<Rightarrow> int) \<Rightarrow> 'w \<Rightarrow> (address \<Rightarrow> int) \<Rightarrow> 'w \<Rightarrow> bool"
  for xfer P me where
  stay: "(\<And>u. l' u \<le> l u) \<Longrightarrow> custody_move xfer P me l w l' w"
| pay_in: "xfer w t a me n = Some w' \<Longrightarrow> P a \<Longrightarrow> a \<noteq> me \<Longrightarrow>
    (\<And>u. l' u \<le> l u + (if u = t then n else 0)) \<Longrightarrow> custody_move xfer P me l w l' w'"
| pay_out: "xfer w t me b n = Some w' \<Longrightarrow>
    (\<And>u. l' u \<le> l u - (if u = t then n else 0)) \<Longrightarrow> custody_move xfer P me l w l' w'"
| seq: "custody_move xfer P me l w l1 w1 \<Longrightarrow> custody_move xfer P me l1 w1 l2 w2 \<Longrightarrow>
    custody_move xfer P me l w l2 w2"

lemma custody_move_mono:
  assumes "custody_move xfer P me l w l' w'" "\<And>a. P a \<Longrightarrow> Q a"
  shows "custody_move xfer Q me l w l' w'"
  using assms(1) by induction (auto intro: custody_move.intros assms(2))

definition solvent :: "('w \<Rightarrow> address \<Rightarrow> address \<Rightarrow> int) \<Rightarrow> address \<Rightarrow> (address \<Rightarrow> int) \<Rightarrow> 'w \<Rightarrow> bool" where
  "solvent bal me l w \<longleftrightarrow> (\<forall>t. l t \<le> bal w t me)"

context token_ledger
begin

lemma custody_move_solvent:
  "custody_move xfer P me l w l' w' \<Longrightarrow> solvent bal me l w \<Longrightarrow> solvent bal me l' w'"
proof (induction rule: custody_move.induct)
  case (stay l' l w)
  then show ?case unfolding solvent_def by (meson order_trans)
next
  case (pay_in w t a n w' l' l)
  show ?case unfolding solvent_def
  proof
    fix u
    have "l u \<le> bal w u me" using pay_in.prems by (simp add: solvent_def)
    with pay_in.hyps(4) [of u] show "l' u \<le> bal w' u me"
      using pay_in.hyps(3) by (simp add: xfer_effect [OF pay_in.hyps(1)] split: if_splits)
  qed
next
  case (pay_out w t b n w' l' l)
  show ?case unfolding solvent_def
  proof
    fix u
    have "l u \<le> bal w u me" using pay_out.prems by (simp add: solvent_def)
    moreover have "0 \<le> n" using xfer_guard [OF pay_out.hyps(1)] by simp
    ultimately show "l' u \<le> bal w' u me"
      using pay_out.hyps(2) [of u] by (auto simp: xfer_effect [OF pay_out.hyps(1)] split: if_splits)
  qed
next
  case (seq l w l1 w1 l2 w2)
  then show ?case by simp
qed

text \<open>A move takes tokens from nobody but the custodian and its payers.\<close>

lemma custody_move_frame:
  "custody_move xfer P me l w l' w' \<Longrightarrow> c \<noteq> me \<Longrightarrow> \<not> P c \<Longrightarrow> bal w u c \<le> bal w' u c"
proof (induction rule: custody_move.induct)
  case (pay_in w t a n w' l' l)
  then have "c \<noteq> a" by blast
  with pay_in show ?case by (simp add: xfer_effect)
next
  case (pay_out w t b n w' l' l)
  then show ?case using xfer_guard [OF pay_out.hyps(1)] by (simp add: xfer_effect)
qed simp_all

lemma custody_move_solvent_frame:
  "custody_move xfer P me l w l' w' \<Longrightarrow> c \<noteq> me \<Longrightarrow> \<not> P c \<Longrightarrow> solvent bal c k w \<Longrightarrow> solvent bal c k w'"
  unfolding solvent_def using custody_move_frame order_trans by blast

end

text \<open>Whatever every transfer preserves of the token world, a custody move preserves.\<close>

lemma custody_move_world:
  assumes "custody_move xfer P me l w l' w'" "Q w"
    and "\<And>w t a b n w'. xfer w t a b n = Some w' \<Longrightarrow> Q w \<Longrightarrow> Q w'"
  shows "Q w'"
  using assms(1,2) by (induction rule: custody_move.induct) (auto intro: assms(3))

text \<open>A contract whose steps are custody moves, with the book-keeping invariant they rest on.\<close>

locale custodian = token_ledger bal xfer
  for bal :: "'w \<Rightarrow> address \<Rightarrow> address \<Rightarrow> int" and xfer :: "'w transfer_fn" +
  fixes step :: "address \<Rightarrow> 's \<times> 'w \<Rightarrow> 's \<times> 'w \<Rightarrow> bool"
    and liab :: "'s \<Rightarrow> address \<Rightarrow> int"
    and wf :: "'s \<Rightarrow> bool"
  assumes step_wf: "step me (s, w) (s', w') \<Longrightarrow> wf s \<Longrightarrow> wf s'"
    and step_custody: "step me (s, w) (s', w') \<Longrightarrow> wf s \<Longrightarrow>
      custody_move xfer (\<lambda>_. True) me (liab s) w (liab s') w'"
begin

lemma run_wf:
  assumes "(step me)\<^sup>*\<^sup>* sw sw'" and "wf (fst sw)"
  shows "wf (fst sw')"
  using assms
proof (induction rule: rtranclp_induct)
  case base
  then show ?case .
next
  case (step y z)
  then show ?case using step_wf [of me "fst y" "snd y" "fst z" "snd z"] by simp
qed

lemma run_solvent:
  assumes "(step me)\<^sup>*\<^sup>* sw sw'" and "wf (fst sw)" and "solvent bal me (liab (fst sw)) (snd sw)"
  shows "solvent bal me (liab (fst sw')) (snd sw')"
  using assms
proof (induction rule: rtranclp_induct)
  case base
  then show ?case by simp
next
  case (step y z)
  have "wf (fst y)"
    using step.hyps(1) step.prems(1) by (rule run_wf)
  with step.hyps(2) have "custody_move xfer (\<lambda>_. True) me (liab (fst y)) (snd y) (liab (fst z)) (snd z)"
    using step_custody [of me "fst y" "snd y" "fst z" "snd z"] by simp
  with step.IH step.prems show ?case
    by (blast intro: custody_move_solvent)
qed

lemma run_world:
  assumes "(step me)\<^sup>*\<^sup>* sw sw'" and "wf (fst sw)" and "P (snd sw)"
    and "\<And>w t a b n w'. xfer w t a b n = Some w' \<Longrightarrow> P w \<Longrightarrow> P w'"
  shows "P (snd sw')"
  using assms(1-3)
proof (induction rule: rtranclp_induct)
  case base
  then show ?case by simp
next
  case (step y z)
  have "wf (fst y)"
    using step.hyps(1) step.prems(1) by (rule run_wf)
  with step.hyps(2) have "custody_move xfer (\<lambda>_. True) me (liab (fst y)) (snd y) (liab (fst z)) (snd z)"
    using step_custody [of me "fst y" "snd y" "fst z" "snd z"] by simp
  then show ?case
    using step.IH step.prems assms(4) by (blast intro: custody_move_world)
qed

end

end
