(* ===== verification/CHV_Token.thy ===== *)
theory CHV_Token
  imports Token_Interface
begin

text \<open>
  \<open>contracts/chv_token/src/lib.rs\<close>: the platform token. The state record has one field per storage
  key, and keeps the two storage buckets apart: \<open>initialize\<close> writes the treasury's balance to
  \<^emph>\<open>instance\<close> storage (\<open>inst_balance\<close>), every other function reads and writes balances in
  \<^emph>\<open>persistent\<close> storage (\<open>balances\<close>). The contract provides the \<open>token_ledger\<close> interface; the
  interpretation is at the end.
\<close>

section \<open>State and operations\<close>

datatype TokenError =
    AlreadyInitialized | NotInitialized | InvalidAmount | InsufficientBalance | Unauthorized
  | SelfTransfer | SupplyCapExceeded | NoPendingAdmin | AccountFrozen | InsufficientAllowance
  | UnsupportedStorageVersion | InvalidMigration | InvalidExpiry | AdminTransferExpired

definition DECIMALS :: nat where "DECIMALS = 7"
definition MAX_SUPPLY :: int where "MAX_SUPPLY = 1000000000 * 10 ^ DECIMALS"
definition CURRENT_STORAGE_VERSION :: nat where "CURRENT_STORAGE_VERSION = 1"

record Allowance =
  amount :: int
  expiration_ledger :: nat

record chv =
  Admin :: "address option"
  inst_balance :: "address \<rightharpoonup> int"
  balances :: "address \<rightharpoonup> int"
  Initialized :: bool
  TotalMinted :: "int option"
  CirculatingSupply :: "int option"
  StorageVersion :: "nat option"
  PendingAdmin :: "address option"
  PendingAdminExpiry :: "nat option"
  allowances :: "address \<times> address \<rightharpoonup> Allowance"
  Frozen :: "address \<rightharpoonup> bool"
  wasm_hash :: "hash32 option"

definition chv_init :: chv where
  "chv_init = \<lparr>Admin = None, inst_balance = Map.empty, balances = Map.empty, Initialized = False,
     TotalMinted = None, CirculatingSupply = None, StorageVersion = None, PendingAdmin = None,
     PendingAdminExpiry = None, allowances = Map.empty, Frozen = Map.empty, wasm_hash = None\<rparr>"

definition initial_supply :: int where "initial_supply = 100000000 * 10 ^ DECIMALS"

definition initialize :: "env \<Rightarrow> address \<Rightarrow> address \<Rightarrow> chv \<Rightarrow> (TokenError, chv) outcome" where
  "initialize env admin treasury s =
     (if Initialized s then Err AlreadyInitialized
      else and_then (require_auth env admin) (\<lambda>_.
      Ok (s\<lparr>Admin := Some admin, Initialized := True,
            inst_balance := (inst_balance s)(treasury \<mapsto> initial_supply),
            TotalMinted := Some initial_supply,
            CirculatingSupply := Some initial_supply,
            StorageVersion := Some CURRENT_STORAGE_VERSION\<rparr>)))"

definition balance :: "chv \<Rightarrow> address \<Rightarrow> int" where
  "balance s account = unwrap_or (balances s account) 0"

definition total_minted :: "chv \<Rightarrow> int" where
  "total_minted s = unwrap_or (TotalMinted s) 0"

definition circulating_supply :: "chv \<Rightarrow> int" where
  "circulating_supply s = unwrap_or (CirculatingSupply s) (total_minted s)"

definition storage_version :: "chv \<Rightarrow> nat" where
  "storage_version s = unwrap_or (StorageVersion s) 0"

definition is_frozen :: "chv \<Rightarrow> address \<Rightarrow> bool" where
  "is_frozen s account = unwrap_or (Frozen s account) False"

definition mint :: "env \<Rightarrow> address \<Rightarrow> int \<Rightarrow> chv \<Rightarrow> (TokenError, chv) outcome" where
  "mint env to amt s =
     (if amt \<le> 0 then Err InvalidAmount
      else and_then (ok_or (Admin s) NotInitialized) (\<lambda>admin.
      and_then (require_auth env admin) (\<lambda>_.
      let minted = total_minted s in
      if minted > MAX_SUPPLY then Err SupplyCapExceeded
      else and_then (i128_op (MAX_SUPPLY - minted)) (\<lambda>room.
      if amt > room then Err SupplyCapExceeded
      else
        let circulating = unwrap_or (CirculatingSupply s) minted in
        and_then (i128_op (balance s to + amt)) (\<lambda>b.
        and_then (i128_op (minted + amt)) (\<lambda>m.
        and_then (i128_op (circulating + amt)) (\<lambda>c.
        Ok (s\<lparr>balances := (balances s)(to \<mapsto> b), TotalMinted := Some m,
              CirculatingSupply := Some c\<rparr>))))))))"

definition transfer :: "env \<Rightarrow> address \<Rightarrow> address \<Rightarrow> int \<Rightarrow> chv \<Rightarrow> (TokenError, chv) outcome" where
  "transfer env src to amt s =
     (if src = to then Err SelfTransfer
      else if amt \<le> 0 then Err InvalidAmount
      else if is_frozen s src then Err AccountFrozen
      else if is_frozen s to then Err AccountFrozen
      else and_then (require_auth env src) (\<lambda>_.
      let from_bal = balance s src in
      if from_bal < amt then Err InsufficientBalance
      else
        let to_bal = balance s to in
        and_then (i128_op (from_bal - amt)) (\<lambda>fb.
        and_then (i128_op (to_bal + amt)) (\<lambda>tb.
        Ok (s\<lparr>balances := (balances s)(src \<mapsto> fb, to \<mapsto> tb)\<rparr>)))))"

definition approve ::
  "env \<Rightarrow> address \<Rightarrow> address \<Rightarrow> int \<Rightarrow> nat \<Rightarrow> chv \<Rightarrow> (TokenError, chv) outcome" where
  "approve env owner spender amt expiry s =
     (if amt < 0 then Err InvalidAmount
      else if is_frozen s owner \<or> is_frozen s spender then Err AccountFrozen
      else and_then (require_auth env owner) (\<lambda>_.
      Ok (s\<lparr>allowances := (allowances s)
            ((owner, spender) \<mapsto> \<lparr>amount = amt, expiration_ledger = expiry\<rparr>)\<rparr>)))"

definition allowance :: "env \<Rightarrow> chv \<Rightarrow> address \<Rightarrow> address \<Rightarrow> int" where
  "allowance env s owner spender =
     (case allowances s (owner, spender) of
        None \<Rightarrow> 0
      | Some a \<Rightarrow>
          if expiration_ledger a \<noteq> 0 \<and> ledger_sequence env > expiration_ledger a then 0
          else amount a)"

definition transfer_from ::
  "env \<Rightarrow> address \<Rightarrow> address \<Rightarrow> address \<Rightarrow> int \<Rightarrow> chv \<Rightarrow> (TokenError, chv) outcome" where
  "transfer_from env spender src to amt s =
     (if src = to then Err SelfTransfer
      else if amt \<le> 0 then Err InvalidAmount
      else if is_frozen s src then Err AccountFrozen
      else if is_frozen s to \<or> is_frozen s spender then Err AccountFrozen
      else and_then (require_auth env spender) (\<lambda>_.
      and_then (ok_or (allowances s (src, spender)) InsufficientAllowance) (\<lambda>allow.
      if expiration_ledger allow \<noteq> 0 \<and> ledger_sequence env > expiration_ledger allow
      then Err InsufficientAllowance
      else if amount allow < amt then Err InsufficientAllowance
      else and_then (i128_op (amount allow - amt)) (\<lambda>left.
      let al = (if left = 0 then (allowances s)((src, spender) := None)
                else (allowances s)((src, spender) \<mapsto> allow\<lparr>amount := left\<rparr>));
          from_bal = balance s src in
      if from_bal < amt then Err InsufficientBalance
      else
        let to_bal = balance s to in
        and_then (i128_op (from_bal - amt)) (\<lambda>fb.
        and_then (i128_op (to_bal + amt)) (\<lambda>tb.
        Ok (s\<lparr>allowances := al, balances := (balances s)(src \<mapsto> fb, to \<mapsto> tb)\<rparr>)))))))"

definition revoke_allowance :: "env \<Rightarrow> address \<Rightarrow> address \<Rightarrow> chv \<Rightarrow> (TokenError, chv) outcome" where
  "revoke_allowance env owner spender s =
     and_then (require_auth env owner) (\<lambda>_.
     Ok (s\<lparr>allowances := (allowances s)((owner, spender) := None)\<rparr>))"

definition freeze_account :: "env \<Rightarrow> address \<Rightarrow> chv \<Rightarrow> (TokenError, chv) outcome" where
  "freeze_account env account s =
     and_then (ok_or (Admin s) NotInitialized) (\<lambda>admin.
     and_then (require_auth env admin) (\<lambda>_.
     Ok (s\<lparr>Frozen := (Frozen s)(account \<mapsto> True)\<rparr>)))"

definition unfreeze_account :: "env \<Rightarrow> address \<Rightarrow> chv \<Rightarrow> (TokenError, chv) outcome" where
  "unfreeze_account env account s =
     and_then (ok_or (Admin s) NotInitialized) (\<lambda>admin.
     and_then (require_auth env admin) (\<lambda>_.
     Ok (s\<lparr>Frozen := (Frozen s)(account \<mapsto> False)\<rparr>)))"

definition burn :: "env \<Rightarrow> address \<Rightarrow> int \<Rightarrow> chv \<Rightarrow> (TokenError, chv) outcome" where
  "burn env src amt s =
     (if amt \<le> 0 then Err InvalidAmount
      else and_then (require_auth env src) (\<lambda>_.
      let bal = balance s src in
      if bal < amt then Err InsufficientBalance
      else
        let circulating = unwrap_or (CirculatingSupply s) (total_minted s) in
        and_then (i128_op (bal - amt)) (\<lambda>b.
        and_then (i128_op (circulating - amt)) (\<lambda>c.
        Ok (s\<lparr>balances := (balances s)(src \<mapsto> b), CirculatingSupply := Some c\<rparr>)))))"

definition migrate ::
  "env \<Rightarrow> address \<Rightarrow> nat \<Rightarrow> int \<Rightarrow> chv \<Rightarrow> (TokenError, chv) outcome" where
  "migrate env admin source_version circulating s =
     and_then (ok_or (Admin s) NotInitialized) (\<lambda>stored_admin.
     if stored_admin \<noteq> admin then Err Unauthorized
     else and_then (require_auth env admin) (\<lambda>_.
     let current_version = storage_version s in
     if source_version \<noteq> current_version then Err UnsupportedStorageVersion
     else if current_version = CURRENT_STORAGE_VERSION then
       (if circulating \<noteq> circulating_supply s then Err InvalidMigration else Ok s)
     else if circulating < 0 \<or> circulating > total_minted s then Err InvalidMigration
     else Ok (s\<lparr>CirculatingSupply := Some circulating,
                StorageVersion := Some CURRENT_STORAGE_VERSION\<rparr>)))"

definition propose_admin ::
  "env \<Rightarrow> address \<Rightarrow> address \<Rightarrow> nat \<Rightarrow> chv \<Rightarrow> (TokenError, chv) outcome" where
  "propose_admin env current_admin new_admin expires_at s =
     and_then (ok_or (Admin s) Unauthorized) (\<lambda>stored.
     if stored \<noteq> current_admin then Err Unauthorized
     else if expires_at \<le> timestamp env then Err InvalidExpiry
     else and_then (require_auth env current_admin) (\<lambda>_.
     Ok (s\<lparr>PendingAdmin := Some new_admin, PendingAdminExpiry := Some expires_at\<rparr>)))"

definition accept_admin :: "env \<Rightarrow> address \<Rightarrow> chv \<Rightarrow> (TokenError, chv) outcome" where
  "accept_admin env new_admin s =
     and_then (ok_or (PendingAdmin s) NoPendingAdmin) (\<lambda>pending.
     if pending \<noteq> new_admin then Err Unauthorized
     else and_then (ok_or (PendingAdminExpiry s) NoPendingAdmin) (\<lambda>expires_at.
     if timestamp env \<ge> expires_at then Err AdminTransferExpired
     else and_then (require_auth env new_admin) (\<lambda>_.
     Ok (s\<lparr>Admin := Some new_admin, PendingAdmin := None, PendingAdminExpiry := None\<rparr>))))"

definition cancel_admin :: "env \<Rightarrow> address \<Rightarrow> chv \<Rightarrow> (TokenError, chv) outcome" where
  "cancel_admin env current_admin s =
     and_then (ok_or (Admin s) Unauthorized) (\<lambda>stored.
     if stored \<noteq> current_admin then Err Unauthorized
     else and_then (require_auth env current_admin) (\<lambda>_.
     and_then (ok_or (PendingAdmin s) NoPendingAdmin) (\<lambda>pending.
     Ok (s\<lparr>PendingAdmin := None, PendingAdminExpiry := None\<rparr>))))"

definition upgrade :: "env \<Rightarrow> address \<Rightarrow> hash32 \<Rightarrow> chv \<Rightarrow> (TokenError, chv) outcome" where
  "upgrade env admin new_wasm s =
     and_then (ok_or (Admin s) NotInitialized) (\<lambda>stored_admin.
     if stored_admin \<noteq> admin then Err Unauthorized
     else and_then (require_auth env admin) (\<lambda>_.
     let source_version = storage_version s in
     if source_version \<noteq> 0 \<and> source_version \<noteq> CURRENT_STORAGE_VERSION
     then Err UnsupportedStorageVersion
     else Ok (s\<lparr>wasm_hash := Some new_wasm\<rparr>)))"

text \<open>Every state-changing entry point, and the reachable states of a fresh deployment.\<close>

datatype chv_call =
    Initialize address address | Mint address int | Transfer address address int
  | Approve address address int nat | TransferFrom address address address int
  | RevokeAllowance address address | FreezeAccount address | UnfreezeAccount address
  | Burn address int | Migrate address nat int | ProposeAdmin address address nat
  | AcceptAdmin address | CancelAdmin address | Upgrade address hash32

fun chv_exec :: "env \<Rightarrow> chv_call \<Rightarrow> chv \<Rightarrow> (TokenError, chv) outcome" where
  "chv_exec env (Initialize a t) s = initialize env a t s"
| "chv_exec env (Mint to n) s = mint env to n s"
| "chv_exec env (Transfer a b n) s = transfer env a b n s"
| "chv_exec env (Approve a b n e) s = approve env a b n e s"
| "chv_exec env (TransferFrom p a b n) s = transfer_from env p a b n s"
| "chv_exec env (RevokeAllowance a b) s = revoke_allowance env a b s"
| "chv_exec env (FreezeAccount a) s = freeze_account env a s"
| "chv_exec env (UnfreezeAccount a) s = unfreeze_account env a s"
| "chv_exec env (Burn a n) s = burn env a n s"
| "chv_exec env (Migrate a v n) s = migrate env a v n s"
| "chv_exec env (ProposeAdmin a b e) s = propose_admin env a b e s"
| "chv_exec env (AcceptAdmin a) s = accept_admin env a s"
| "chv_exec env (CancelAdmin a) s = cancel_admin env a s"
| "chv_exec env (Upgrade a h) s = upgrade env a h s"

inductive chv_step :: "chv \<Rightarrow> chv \<Rightarrow> bool" where
  call: "chv_exec env c s = Ok s' \<Longrightarrow> chv_step s s'"

inductive_cases chv_stepE: "chv_step s s'"

lemmas direct_ops = initialize_def mint_def transfer_def approve_def revoke_allowance_def
  freeze_account_def unfreeze_account_def burn_def migrate_def propose_admin_def accept_admin_def
  cancel_admin_def upgrade_def

lemmas chv_ops = direct_ops transfer_from_def

lemmas chv_views = balance_def total_minted_def circulating_supply_def storage_version_def

lemmas chv_consts = DECIMALS_def MAX_SUPPLY_def initial_supply_def CURRENT_STORAGE_VERSION_def

section \<open>Supply\<close>

definition chv_inv :: "chv \<Rightarrow> bool" where
  "chv_inv s \<longleftrightarrow>
     finite (dom (balances s)) \<and>
     (\<forall>a n. balances s a = Some n \<longrightarrow> 0 \<le> n) \<and>
     (if Initialized s then
        StorageVersion s = Some CURRENT_STORAGE_VERSION \<and>
        (\<exists>m c. TotalMinted s = Some m \<and> CirculatingSupply s = Some c \<and>
           c \<le> m \<and> m \<le> MAX_SUPPLY \<and> c = initial_supply + msum id (balances s))
      else
        Admin s = None \<and> PendingAdmin s = None \<and> balances s = Map.empty \<and>
        TotalMinted s = None \<and> CirculatingSupply s = None)"

text \<open>Moving an amount between two accounts keeps the sum of all balances.\<close>

lemma msum_move:
  assumes "finite (dom m)" "a \<noteq> b"
  shows "msum id (m(a \<mapsto> unwrap_or (m a) 0 - n, b \<mapsto> unwrap_or (m b) 0 + n)) = msum id m"
  using assms by (cases "m a"; cases "m b") (simp_all add: msum_update)

lemma chv_balance_nonneg: "chv_inv s \<Longrightarrow> 0 \<le> balance s a"
  by (cases "balances s a") (auto simp: chv_inv_def balance_def)

lemma chv_inv_move:
  assumes inv: "chv_inv s" and "a \<noteq> b" "0 < n" "n \<le> balance s a"
  shows "chv_inv (s\<lparr>balances := (balances s)(a \<mapsto> balance s a - n, b \<mapsto> balance s b + n)\<rparr>)"
proof -
  have "Initialized s"
    using assms by (auto simp: chv_inv_def balance_def split: if_splits)
  moreover have "0 \<le> balance s b" by (rule chv_balance_nonneg [OF inv])
  ultimately show ?thesis
    using assms msum_move [of "balances s" a b n]
    by (auto simp: chv_inv_def balance_def split: if_splits)
qed

lemma chv_inv_frame:
  "chv_inv s \<Longrightarrow> balances s' = balances s \<Longrightarrow> Initialized s' = Initialized s \<Longrightarrow>
   StorageVersion s' = StorageVersion s \<Longrightarrow> TotalMinted s' = TotalMinted s \<Longrightarrow>
   CirculatingSupply s' = CirculatingSupply s \<Longrightarrow>
   (\<not> Initialized s \<Longrightarrow> Admin s' = None \<and> PendingAdmin s' = None) \<Longrightarrow> chv_inv s'"
  by (auto simp: chv_inv_def)

lemma initialize_inv: "initialize env a t s = Ok s' \<Longrightarrow> chv_inv s \<Longrightarrow> chv_inv s'"
  by (auto simp: initialize_def outcome_iff chv_inv_def chv_consts)

lemma mint_inv: "mint env to n s = Ok s' \<Longrightarrow> chv_inv s \<Longrightarrow> chv_inv s'"
  by (cases "balances s to")
    (auto simp: mint_def outcome_iff Let_def chv_inv_def chv_views msum_update split: if_splits)

lemma burn_inv: "burn env a n s = Ok s' \<Longrightarrow> chv_inv s \<Longrightarrow> chv_inv s'"
  by (cases "balances s a")
    (auto simp: burn_def outcome_iff Let_def chv_inv_def chv_views msum_update split: if_splits)

lemma transfer_inv: "transfer env a b n s = Ok s' \<Longrightarrow> chv_inv s \<Longrightarrow> chv_inv s'"
  by (auto simp: transfer_def outcome_iff Let_def intro: chv_inv_move)

lemma transfer_from_inv:
  assumes ok: "transfer_from env p a b n s = Ok s'" and inv: "chv_inv s"
  shows "chv_inv s'"
proof (rule chv_inv_frame)
  have "a \<noteq> b" "0 < n" "n \<le> balance s a"
    using ok by (auto simp: transfer_from_def outcome_iff Let_def)
  then show "chv_inv (s\<lparr>balances := (balances s)(a \<mapsto> balance s a - n, b \<mapsto> balance s b + n)\<rparr>)"
    by (intro chv_inv_move inv)
qed (use ok inv in \<open>auto simp: transfer_from_def outcome_iff Let_def chv_inv_def\<close>)

lemma migrate_inv: "migrate env a v n s = Ok s' \<Longrightarrow> chv_inv s \<Longrightarrow> chv_inv s'"
  by (auto simp: migrate_def outcome_iff Let_def chv_inv_def chv_views split: if_splits)

lemma governance_inv:
  "approve env a b n e s = Ok s' \<Longrightarrow> chv_inv s \<Longrightarrow> chv_inv s'"
  "revoke_allowance env a b s = Ok s' \<Longrightarrow> chv_inv s \<Longrightarrow> chv_inv s'"
  "freeze_account env a s = Ok s' \<Longrightarrow> chv_inv s \<Longrightarrow> chv_inv s'"
  "unfreeze_account env a s = Ok s' \<Longrightarrow> chv_inv s \<Longrightarrow> chv_inv s'"
  "propose_admin env a b e s = Ok s' \<Longrightarrow> chv_inv s \<Longrightarrow> chv_inv s'"
  "accept_admin env a s = Ok s' \<Longrightarrow> chv_inv s \<Longrightarrow> chv_inv s'"
  "cancel_admin env a s = Ok s' \<Longrightarrow> chv_inv s \<Longrightarrow> chv_inv s'"
  "upgrade env a h s = Ok s' \<Longrightarrow> chv_inv s \<Longrightarrow> chv_inv s'"
  by (auto simp: chv_ops outcome_iff Let_def chv_inv_def)

lemma chv_exec_inv: "chv_exec env c s = Ok s' \<Longrightarrow> chv_inv s \<Longrightarrow> chv_inv s'"
  by (cases c)
    (auto intro: initialize_inv mint_inv burn_inv transfer_inv transfer_from_inv migrate_inv
      governance_inv)

lemma chv_init_inv: "chv_inv chv_init"
  by (simp add: chv_inv_def chv_init_def)

interpretation chv_runs: preserved chv_step chv_inv
  by unfold_locales (auto intro: chv_exec_inv elim: chv_stepE)

lemma chv_reachable_inv: "chv_step\<^sup>*\<^sup>* chv_init s \<Longrightarrow> chv_inv s"
  by (rule chv_runs.run [OF _ chv_init_inv])

section \<open>Who moves a balance\<close>

lemma transfer_from_Ok:
  assumes "transfer_from env p a b n s = Ok s'"
  obtains al where "auth env p" "a \<noteq> b" "0 < n" "allowances s (a, p) = Some al"
    "expiration_ledger al = 0 \<or> ledger_sequence env \<le> expiration_ledger al" "n \<le> amount al"
    "\<not> is_frozen s a" "\<not> is_frozen s b"
    "balances s' = (balances s)(a \<mapsto> balance s a - n, b \<mapsto> balance s b + n)"
    "allowances s' = (if amount al = n then (allowances s)((a, p) := None)
       else (allowances s)((a, p) \<mapsto> al\<lparr>amount := amount al - n\<rparr>))"
  using assms
  by (simp add: transfer_from_def outcome_iff Let_def not_less not_le) (elim exE conjE, hypsubst, simp)

lemma transfer_from_consumes_allowance:
  assumes "transfer_from env p a b n s = Ok s'"
  shows "n \<le> allowance env s a p" "allowance env s' a p = allowance env s a p - n"
  by (rule transfer_from_Ok [OF assms], auto simp: allowance_def)+

lemma direct_decrease_authorised:
  assumes "chv_exec env c s = Ok s'" and "balance s' a < balance s a"
    and "\<And>p to n. c \<noteq> TransferFrom p a to n"
  shows "auth env a"
proof (cases c)
  case (TransferFrom p x b n)
  with assms(1) have "transfer_from env p x b n s = Ok s'" by simp
  then show ?thesis
    using assms(2,3) TransferFrom by (elim transfer_from_Ok) (auto simp: balance_def split: if_splits)
qed (use assms in \<open>auto simp: direct_ops outcome_iff Let_def balance_def split: if_splits\<close>)

lemma initialized_balances_total:
  "chv_inv s \<Longrightarrow> Initialized s \<Longrightarrow> circulating_supply s = initial_supply + msum id (balances s)"
  by (auto simp: chv_inv_def chv_views)

lemma chv_stays_initialized: "chv_exec env c s = Ok s' \<Longrightarrow> Initialized s \<Longrightarrow> Initialized s'"
proof (cases c)
  case (TransferFrom p x b n)
  then show "chv_exec env c s = Ok s' \<Longrightarrow> Initialized s \<Longrightarrow> Initialized s'"
    by (auto simp: transfer_from_def outcome_iff Let_def)
qed (auto simp: direct_ops outcome_iff Let_def split: if_splits)

section \<open>Properties\<close>

abbreviation open_env :: env where
  "open_env \<equiv> \<lparr>timestamp = 10, ledger_sequence = 7, self = 99, auth = (\<lambda>_. True)\<rparr>"

text \<open>A small run used as a witness: initialise, mint 500 to account 2, move 200 to account 3.\<close>

definition chv_demo1 :: chv where
  "chv_demo1 = chv_init\<lparr>Admin := Some 1, Initialized := True,
     inst_balance := [9 \<mapsto> initial_supply], TotalMinted := Some initial_supply,
     CirculatingSupply := Some initial_supply, StorageVersion := Some 1\<rparr>"

definition chv_demo2 :: chv where
  "chv_demo2 = chv_demo1\<lparr>balances := [2 \<mapsto> 500], TotalMinted := Some (initial_supply + 500),
     CirculatingSupply := Some (initial_supply + 500)\<rparr>"

definition chv_demo :: chv where
  "chv_demo = chv_demo2\<lparr>balances := [2 \<mapsto> 300, 3 \<mapsto> 200]\<rparr>"

lemmas chv_demo_defs = chv_demo_def chv_demo2_def chv_demo1_def chv_init_def

lemma chv_demo_steps:
  "chv_exec open_env (Initialize 1 9) chv_init = Ok chv_demo1"
  "chv_exec open_env (Mint 2 500) chv_demo1 = Ok chv_demo2"
  "chv_exec open_env (Transfer 2 3 200) chv_demo2 = Ok chv_demo"
  by (simp_all add: chv_demo_defs chv_ops chv_views is_frozen_def chv_consts range_defs Let_def)

lemma chv_demo_reachable: "chv_step\<^sup>*\<^sup>* chv_init chv_demo"
  using chv_demo_steps [THEN chv_step.call]
  by (meson rtranclp.rtrancl_into_rtrancl rtranclp.rtrancl_refl)

text \<open>
  C2. Supply of the CHV token. In every state reachable from deployment no balance is negative, the
  balances add up to at most the circulating supply, that is at most what was minted, and minting
  never passes the hard cap. Once initialised, every successful call changes the circulating supply
  by exactly what it changes the sum of the balances: a mint and a burn change both by the amount, and
  no other call creates or destroys tokens.
\<close>

theorem chv_supply_bounds:
  assumes "chv_step\<^sup>*\<^sup>* chv_init s"
  shows "0 \<le> balance s a \<and> msum id (balances s) \<le> circulating_supply s \<and>
    circulating_supply s \<le> total_minted s \<and> total_minted s \<le> MAX_SUPPLY \<and>
    (\<forall>env c s'. Initialized s \<and> chv_exec env c s = Ok s' \<longrightarrow>
      circulating_supply s' - circulating_supply s = msum id (balances s') - msum id (balances s))"
proof -
  have inv: "chv_inv s" by (rule chv_reachable_inv [OF assms])
  then have "circulating_supply s \<le> total_minted s \<and> total_minted s \<le> MAX_SUPPLY \<and>
      msum id (balances s) \<le> circulating_supply s"
    by (auto simp: chv_inv_def chv_views chv_consts split: if_splits)
  moreover have "circulating_supply s' - circulating_supply s = msum id (balances s') - msum id (balances s)"
    if "Initialized s" "chv_exec env c s = Ok s'" for env c s'
    using initialized_balances_total [OF inv that(1)]
      initialized_balances_total [OF chv_exec_inv [OF that(2) inv] chv_stays_initialized [OF that(2,1)]]
    by simp
  ultimately show ?thesis using chv_balance_nonneg [OF inv] by blast
qed

theorem chv_supply_bounds_witness:
  "chv_step\<^sup>*\<^sup>* chv_init chv_demo1 \<and> msum id (balances chv_demo2) - msum id (balances chv_demo1) = 500"
proof -
  have run: "chv_step\<^sup>*\<^sup>* chv_init chv_demo1"
    using chv_demo_steps(1) [THEN chv_step.call] by simp
  have "circulating_supply chv_demo2 - circulating_supply chv_demo1 = 500" "Initialized chv_demo1"
    by (simp_all add: chv_demo_defs circulating_supply_def)
  with chv_supply_bounds [OF run, of 2] chv_demo_steps(2) run show ?thesis by metis
qed

text \<open>
  The initial supply is not spendable. \<open>initialize\<close> reports an initial circulating supply of
  100 million CHV, but books the treasury's balance in instance storage, which no other function
  reads: the treasury's balance is zero and every transfer or burn by the treasury is refused.
\<close>

theorem initial_supply_is_stranded:
  assumes "initialize env admin treasury chv_init = Ok s"
  shows "circulating_supply s = initial_supply \<and> inst_balance s treasury = Some initial_supply \<and>
    balance s treasury = 0 \<and>
    \<not> is_ok (transfer env' treasury to n s) \<and> \<not> is_ok (burn env' treasury n s)"
  using assms
  by (auto simp: initialize_def outcome_iff chv_init_def chv_views is_ok_iff transfer_def burn_def
      Let_def)

theorem initial_supply_is_stranded_witness:
  "initialize open_env 1 9 chv_init = Ok chv_demo1 \<and> \<not> is_ok (transfer open_env 9 3 1 chv_demo1)"
  using initial_supply_is_stranded [of open_env 1 9 chv_demo1 open_env 3 1] chv_demo_steps(1)
  by simp

text \<open>
  A frozen account is immobile: while an account is frozen, no call changes its balance other
  than a mint to it by the admin or a burn of its own tokens.
\<close>

theorem frozen_account_immobile:
  assumes call: "chv_exec env c s = Ok s'" and "is_frozen s a" and "balance s' a \<noteq> balance s a"
  shows "\<exists>n. c = Mint a n \<or> c = Burn a n"
proof (cases c)
  case (TransferFrom p x b n)
  with call have "transfer_from env p x b n s = Ok s'" by simp
  then show ?thesis
    using assms(2,3) by (elim transfer_from_Ok) (auto simp: balance_def split: if_splits)
qed (use assms in \<open>auto simp: direct_ops outcome_iff Let_def balance_def split: if_splits\<close>)

theorem frozen_account_immobile_witness:
  "is_frozen (chv_demo\<lparr>Frozen := [2 \<mapsto> True]\<rparr>) 2 \<and>
   (\<exists>n. Burn 2 100 = Mint 2 n \<or> Burn 2 100 = Burn 2 n)"
  using frozen_account_immobile [of open_env "Burn 2 100" "chv_demo\<lparr>Frozen := [2 \<mapsto> True]\<rparr>"
      "chv_demo\<lparr>Frozen := [2 \<mapsto> True], balances := [2 \<mapsto> 200, 3 \<mapsto> 200],
        CirculatingSupply := Some (initial_supply + 400)\<rparr>" 2]
  by (simp add: chv_demo_defs chv_ops chv_views is_frozen_def chv_consts range_defs Let_def)

lemma chv_demo_spend:
  "chv_exec (open_env\<lparr>auth := (\<lambda>x. x = 5)\<rparr>) (TransferFrom 5 2 3 40)
     (chv_demo\<lparr>allowances := [(2, 5) \<mapsto> \<lparr>amount = 100, expiration_ledger = 0\<rparr>]\<rparr>) =
   Ok (chv_demo\<lparr>allowances := [(2, 5) \<mapsto> \<lparr>amount = 60, expiration_ledger = 0\<rparr>],
         balances := [2 \<mapsto> 260, 3 \<mapsto> 240]\<rparr>)"
  by (simp add: chv_demo_defs transfer_from_def balance_def is_frozen_def range_defs Let_def)

text \<open>
  C3. Nobody loses tokens without consent. A call that lowers the balance of \<open>a\<close> is authorised by
  \<open>a\<close>, or is a \<open>transfer_from\<close> whose spender has a live allowance from \<open>a\<close> that covers the amount and
  is reduced by exactly that amount.
\<close>

theorem balance_decrease_authorised:
  assumes "chv_exec env c s = Ok s'" and "balance s' a < balance s a"
  shows "auth env a \<or>
    (\<exists>spender to n. c = TransferFrom spender a to n \<and> n \<le> allowance env s a spender \<and>
       allowance env s' a spender = allowance env s a spender - n \<and>
       balance s' a = balance s a - n)"
proof (cases "\<exists>p to n. c = TransferFrom p a to n")
  case True
  then obtain p to n where c: "c = TransferFrom p a to n" by blast
  with assms(1) have call: "transfer_from env p a to n s = Ok s'" by simp
  then have "balance s' a = balance s a - n" by (rule transfer_from_Ok) (simp add: balance_def)
  with c transfer_from_consumes_allowance [OF call] show ?thesis by blast
qed (use assms direct_decrease_authorised in blast)

theorem balance_decrease_authorised_witness:
  "\<not> auth (open_env\<lparr>auth := (\<lambda>x. x = 5)\<rparr>) 2 \<and>
    (\<exists>spender to n. TransferFrom 5 2 3 40 = TransferFrom spender 2 to n \<and> 260 = 300 - n)"
  using balance_decrease_authorised [OF chv_demo_spend, of 2]
  by (simp add: chv_demo_defs balance_def)

text \<open>
  The comment on \<open>transfer_from\<close> says that the spender does not need to authorise the call, so that
  contracts can move tokens on behalf of users. The function requires the spender's authorisation.
\<close>

lemma spender_must_authorise:
  "is_ok (transfer_from env spender a to n s) \<Longrightarrow> auth env spender"
  by (auto simp: is_ok_iff elim: transfer_from_Ok)

section \<open>The CHV token as a token ledger\<close>

text \<open>
  The token world of a deployment where every token address runs a CHV instance. A contract's
  \<open>token::Client::transfer\<close> runs with the authorisation of \<open>from\<close>: the calling contract itself, or
  a user whose authorisation the caller has already required.
\<close>

type_synonym chv_world = "address \<Rightarrow> chv"

definition chv_bal :: "chv_world \<Rightarrow> address \<Rightarrow> address \<Rightarrow> int" where
  "chv_bal w t a = balance (w t) a"

definition chv_xfer :: "chv_world transfer_fn" where
  "chv_xfer w t a b n =
     (case transfer \<lparr>timestamp = 0, ledger_sequence = 0, self = t, auth = (\<lambda>x. x = a)\<rparr> a b n (w t) of
        Ok s \<Rightarrow> Some (w(t := s))
      | _ \<Rightarrow> None)"

lemma chv_xfer_Some:
  "chv_xfer w t a b n = Some w' \<longleftrightarrow>
     a \<noteq> b \<and> 0 < n \<and> \<not> is_frozen (w t) a \<and> \<not> is_frozen (w t) b \<and> n \<le> balance (w t) a \<and>
     fits_i128 (balance (w t) a - n) \<and> fits_i128 (balance (w t) b + n) \<and>
     w' = w(t := (w t)\<lparr>balances := (balances (w t))
       (a \<mapsto> balance (w t) a - n, b \<mapsto> balance (w t) b + n)\<rparr>)"
  by (auto simp: chv_xfer_def transfer_def Let_def outcome_iff split: outcome.splits if_splits)

interpretation chv: token_ledger chv_bal chv_xfer
  by unfold_locales (auto simp: chv_xfer_Some chv_bal_def balance_def)

text \<open>Over CHV, a transfer between healthy accounts that is covered by the balance goes through.\<close>

lemma chv_xfer_inv: "chv_xfer w t a b n = Some w' \<Longrightarrow> \<forall>u. chv_inv (w u) \<Longrightarrow> \<forall>u. chv_inv (w' u)"
  by (auto simp: chv_xfer_Some intro: chv_inv_move)

lemma two_balances_le_supply:
  assumes "chv_inv s" "a \<noteq> b"
  shows "balance s a + balance s b \<le> MAX_SUPPLY"
proof (cases "Initialized s")
  case True
  have fin: "finite (dom (balances s))" and nonneg: "\<And>a n. balances s a = Some n \<Longrightarrow> 0 \<le> n"
    using assms(1) by (auto simp: chv_inv_def)
  have "0 \<le> msum id (balances s)" using nonneg by (intro msum_nonneg) simp
  moreover have "balance s a \<le> msum id (balances s)" "balance s b \<le> msum id (balances s)"
    using msum_mem_le [OF fin, of _ _ id] nonneg calculation
    by (auto simp: balance_def unwrap_or_def split: option.splits)
  moreover have "balance s a + balance s b \<le> msum id (balances s)"
    if "balances s a = Some x" "balances s b = Some y" for x y
  proof -
    have "0 \<le> v" if "((balances s)(a := None)) j = Some v" for j v
      using that nonneg by (simp split: if_splits)
    then have "y \<le> msum id ((balances s)(a := None))"
      using msum_mem_le [of "(balances s)(a := None)" b y id] that assms(2) fin by simp
    then show ?thesis
      using msum_remove [OF fin that(1), of id] that by (simp add: balance_def)
  qed
  ultimately have "balance s a + balance s b \<le> msum id (balances s)"
    by (cases "balances s a"; cases "balances s b") (auto simp: balance_def)
  moreover have "initial_supply + msum id (balances s) \<le> MAX_SUPPLY" "0 \<le> initial_supply"
    using assms(1) True by (auto simp: chv_inv_def chv_consts)
  ultimately show ?thesis by simp
qed (use assms in \<open>simp add: chv_inv_def balance_def chv_consts\<close>)

lemma chv_xfer_succeeds:
  assumes "chv_inv (w t)" "a \<noteq> b" "0 < n" "n \<le> chv_bal w t a"
    "\<not> is_frozen (w t) a" "\<not> is_frozen (w t) b"
  obtains w' where "chv_xfer w t a b n = Some w'" "chv_bal w' t b = chv_bal w t b + n"
proof -
  let ?w = "w(t := (w t)\<lparr>balances := (balances (w t))
       (a \<mapsto> balance (w t) a - n, b \<mapsto> balance (w t) b + n)\<rparr>)"
  have "0 \<le> balance (w t) a" "0 \<le> balance (w t) b" using assms(1) by (simp_all add: chv_balance_nonneg)
  then have "chv_xfer w t a b n = Some ?w"
    using two_balances_le_supply [OF assms(1,2)] assms
    by (simp add: chv_xfer_Some chv_bal_def range_defs chv_consts)
  then show thesis using assms(2) by (intro that) (auto simp: chv_bal_def balance_def)
qed

end
