(* ===== verification/Course_Payments.thy ===== *)
theory Course_Payments
  imports CHV_Token
begin

text \<open>
  \<open>contracts/payment/src\<close>: course payments. A student pays for a course into the contract, which keeps a
  protocol fee and credits the rest to an instructor; the admin may refund the student within a window;
  an instructor withdraws the credit.
\<close>

section \<open>State and operations\<close>

datatype PaymentError =
    AlreadyInitialized | NotAdmin | NotInitialized | InvalidFee | CourseNotFound | CourseInactive
  | AlreadyEnrolled | NotEnrolled | PaymentFailed | RefundWindowExpired | InsufficientBalance
  | TransferFailed | InvalidAmount | InvalidToken | UnauthorizedCaller

record Course =
  course_ident :: string
  instructor :: address
  price :: int
  is_active :: bool

definition register_course :: "Course \<Rightarrow> Course" where
  "register_course course = course"

definition deactivate_course :: "Course \<Rightarrow> Course" where
  "deactivate_course course = course\<lparr>is_active := False\<rparr>"

record PaymentRecord =
  student :: address
  course_id :: string
  amount :: int
  paid_at :: nat

record payment_state =
  Admin :: "address option"
  Token :: "address option"
  FeePercent :: "nat option"
  RefundWindowSeconds :: "nat option"
  Enrollment :: "address \<times> string \<rightharpoonup> bool"
  PaymentRecords :: "address \<times> string \<rightharpoonup> PaymentRecord"
  InstructorBalance :: "address \<rightharpoonup> int"

definition payment_init :: payment_state where
  "payment_init = \<lparr>Admin = None, Token = None, FeePercent = None, RefundWindowSeconds = None,
     Enrollment = Map.empty, PaymentRecords = Map.empty, InstructorBalance = Map.empty\<rparr>"

definition read_admin :: "payment_state \<Rightarrow> (PaymentError, address) outcome" where
  "read_admin s = ok_or (Admin s) NotInitialized"

definition write_admin :: "address \<Rightarrow> payment_state \<Rightarrow> payment_state" where
  "write_admin a s = s\<lparr>Admin := Some a\<rparr>"

text \<open>\<open>zero\<close> is the address of the contract with the all-zero identifier, the default of \<open>read_token\<close>.\<close>

definition read_token :: "address \<Rightarrow> payment_state \<Rightarrow> address" where
  "read_token zero s = unwrap_or (Token s) zero"

definition write_token :: "address \<Rightarrow> payment_state \<Rightarrow> payment_state" where
  "write_token t s = s\<lparr>Token := Some t\<rparr>"

definition read_fee_percent :: "payment_state \<Rightarrow> nat" where
  "read_fee_percent s = unwrap_or (FeePercent s) 0"

definition write_fee_percent :: "nat \<Rightarrow> payment_state \<Rightarrow> payment_state" where
  "write_fee_percent fee s = s\<lparr>FeePercent := Some fee\<rparr>"

definition read_refund_window_seconds :: "payment_state \<Rightarrow> nat" where
  "read_refund_window_seconds s = unwrap_or (RefundWindowSeconds s) 86400"

definition write_refund_window_seconds :: "nat \<Rightarrow> payment_state \<Rightarrow> payment_state" where
  "write_refund_window_seconds n s = s\<lparr>RefundWindowSeconds := Some n\<rparr>"

definition is_enrolled :: "payment_state \<Rightarrow> address \<Rightarrow> string \<Rightarrow> bool" where
  "is_enrolled s p c \<longleftrightarrow> Enrollment s (p, c) \<noteq> None"

definition set_enrollment :: "address \<Rightarrow> string \<Rightarrow> payment_state \<Rightarrow> payment_state" where
  "set_enrollment p c s = s\<lparr>Enrollment := (Enrollment s)((p, c) \<mapsto> True)\<rparr>"

definition remove_enrollment :: "address \<Rightarrow> string \<Rightarrow> payment_state \<Rightarrow> payment_state" where
  "remove_enrollment p c s = s\<lparr>Enrollment := (Enrollment s)((p, c) := None)\<rparr>"

definition read_payment_record :: "payment_state \<Rightarrow> address \<Rightarrow> string \<Rightarrow> (PaymentError, PaymentRecord) outcome" where
  "read_payment_record s p c = ok_or (PaymentRecords s (p, c)) PaymentFailed"

definition write_payment_record :: "PaymentRecord \<Rightarrow> payment_state \<Rightarrow> payment_state" where
  "write_payment_record r s = s\<lparr>PaymentRecords := (PaymentRecords s)((student r, course_id r) \<mapsto> r)\<rparr>"

definition read_instructor_balance :: "payment_state \<Rightarrow> address \<Rightarrow> int" where
  "read_instructor_balance s i = unwrap_or (InstructorBalance s i) 0"

definition write_instructor_balance :: "address \<Rightarrow> int \<Rightarrow> payment_state \<Rightarrow> payment_state" where
  "write_instructor_balance i n s = s\<lparr>InstructorBalance := (InstructorBalance s)(i \<mapsto> n)\<rparr>"

definition calculate_fee :: "int \<Rightarrow> nat \<Rightarrow> (PaymentError, int) outcome" where
  "calculate_fee n fee_percent =
     (if fee_percent > 2000 then Err InvalidFee
      else and_then (i128_op (n * int fee_percent)) (\<lambda>p. Ok (div_trunc p 10000)))"

definition calculate_instructor_amount :: "int \<Rightarrow> nat \<Rightarrow> (PaymentError, int) outcome" where
  "calculate_instructor_amount n fee_percent =
     and_then (calculate_fee n fee_percent) (\<lambda>fee. i128_op (n - fee))"

definition initialize ::
  "env \<Rightarrow> address \<Rightarrow> address \<Rightarrow> nat \<Rightarrow> nat \<Rightarrow> payment_state \<Rightarrow> (PaymentError, payment_state) outcome" where
  "initialize env admin tok fee_percent window s =
     and_then (require_auth env admin) (\<lambda>_.
     if Admin s \<noteq> None then Err AlreadyInitialized
     else if fee_percent > 2000 then Err InvalidFee
     else Ok (write_refund_window_seconds window
            (write_fee_percent fee_percent (write_token tok (write_admin admin s)))))"

definition set_fee :: "env \<Rightarrow> address \<Rightarrow> nat \<Rightarrow> payment_state \<Rightarrow> (PaymentError, payment_state) outcome" where
  "set_fee env caller fee_percent s =
     and_then (read_admin s) (\<lambda>admin.
     if caller \<noteq> admin then Err NotAdmin
     else and_then (require_auth env caller) (\<lambda>_.
     if fee_percent > 2000 then Err InvalidFee
     else Ok (write_fee_percent fee_percent s)))"

definition pay_for_course ::
  "'w transfer_fn \<Rightarrow> address \<Rightarrow> env \<Rightarrow> address \<Rightarrow> string \<Rightarrow> address \<Rightarrow> int \<Rightarrow> payment_state \<times> 'w \<Rightarrow>
   (PaymentError, payment_state \<times> 'w) outcome" where
  "pay_for_course xfer zero env p c i n = (\<lambda>(s, w).
     and_then (require_auth env p) (\<lambda>_.
     if n \<le> 0 then Err InvalidAmount
     else if is_enrolled s p c then Err AlreadyEnrolled
     else
       let tok = read_token zero s; fee_percent = read_fee_percent s in
       and_then (calculate_fee n fee_percent) (\<lambda>fee.
       and_then (i128_op (n - fee)) (\<lambda>instructor_amount.
       and_then (unwrap (xfer w tok p (self env) n)) (\<lambda>w.
       let s = set_enrollment p c s;
           record = \<lparr>student = p, course_id = c, amount = n, paid_at = timestamp env\<rparr>;
           s = write_payment_record record s;
           current_balance = read_instructor_balance s i
       in and_then (i128_op (current_balance + instructor_amount)) (\<lambda>new_balance.
          Ok (write_instructor_balance i new_balance s, w)))))))"

definition refund ::
  "'w transfer_fn \<Rightarrow> address \<Rightarrow> env \<Rightarrow> address \<Rightarrow> string \<Rightarrow> payment_state \<times> 'w \<Rightarrow>
   (PaymentError, payment_state \<times> 'w) outcome" where
  "refund xfer zero env p c = (\<lambda>(s, w).
     and_then (read_admin s) (\<lambda>admin.
     and_then (require_auth env admin) (\<lambda>_.
     if \<not> is_enrolled s p c then Err NotEnrolled
     else and_then (read_payment_record s p c) (\<lambda>payment.
     let refund_window = read_refund_window_seconds s in
     and_then (u64_op (paid_at payment + refund_window)) (\<lambda>deadline.
     if timestamp env > deadline then Err RefundWindowExpired
     else
       let s = remove_enrollment p c s; tok = read_token zero s in
       and_then (unwrap (xfer w tok (self env) p (amount payment))) (\<lambda>w. Ok (s, w)))))))"

definition withdraw_earnings ::
  "'w transfer_fn \<Rightarrow> address \<Rightarrow> env \<Rightarrow> address \<Rightarrow> payment_state \<times> 'w \<Rightarrow>
   (PaymentError, payment_state \<times> 'w) outcome" where
  "withdraw_earnings xfer zero env i = (\<lambda>(s, w).
     and_then (require_auth env i) (\<lambda>_.
     let balance = read_instructor_balance s i in
     if balance \<le> 0 then Err InsufficientBalance
     else
       let s = write_instructor_balance i 0 s; tok = read_token zero s in
       and_then (unwrap (xfer w tok (self env) i balance)) (\<lambda>w. Ok (s, w))))"

definition get_instructor_balance :: "payment_state \<Rightarrow> address \<Rightarrow> int" where
  "get_instructor_balance s i = read_instructor_balance s i"

definition get_payment_record :: "payment_state \<Rightarrow> address \<Rightarrow> string \<Rightarrow> (PaymentError, PaymentRecord) outcome" where
  "get_payment_record s p c = read_payment_record s p c"

definition get_fee_percent :: "payment_state \<Rightarrow> nat" where
  "get_fee_percent s = read_fee_percent s"

definition get_refund_window_seconds :: "payment_state \<Rightarrow> nat" where
  "get_refund_window_seconds s = read_refund_window_seconds s"

section \<open>Calls and steps\<close>

datatype payment_call =
    Initialize address address nat nat | SetFee address nat
  | PayForCourse address string address int | Refund address string | WithdrawEarnings address

fun payment_exec ::
  "'w transfer_fn \<Rightarrow> address \<Rightarrow> env \<Rightarrow> payment_call \<Rightarrow> payment_state \<times> 'w \<Rightarrow>
   (PaymentError, payment_state \<times> 'w) outcome" where
  "payment_exec xfer zero env (Initialize a t f n) (s, w) = and_then (initialize env a t f n s) (\<lambda>s. Ok (s, w))"
| "payment_exec xfer zero env (SetFee a f) (s, w) = and_then (set_fee env a f s) (\<lambda>s. Ok (s, w))"
| "payment_exec xfer zero env (PayForCourse p c i n) sw = pay_for_course xfer zero env p c i n sw"
| "payment_exec xfer zero env (Refund p c) sw = refund xfer zero env p c sw"
| "payment_exec xfer zero env (WithdrawEarnings i) sw = withdraw_earnings xfer zero env i sw"

text \<open>The calls of a run are drawn from \<open>allowed\<close>, so that runs without refunds can be told apart.\<close>

inductive payment_step ::
  "payment_call set \<Rightarrow> 'w transfer_fn \<Rightarrow> address \<Rightarrow> address \<Rightarrow> payment_state \<times> 'w \<Rightarrow> payment_state \<times> 'w \<Rightarrow> bool"
  for allowed xfer zero me where
  call: "c \<in> allowed \<Longrightarrow> self env = me \<Longrightarrow> \<not> auth env me \<Longrightarrow> payment_exec xfer zero env c sw = Ok sw' \<Longrightarrow>
    payment_step allowed xfer zero me sw sw'"

inductive_cases payment_stepE: "payment_step allowed xfer zero me sw sw'"

definition no_refunds :: "payment_call set" where
  "no_refunds = {c. \<forall>p k. c \<noteq> Refund p k}"

section \<open>What a successful call did\<close>

lemmas payment_storage = read_admin_def write_admin_def read_token_def write_token_def read_fee_percent_def
  write_fee_percent_def read_refund_window_seconds_def write_refund_window_seconds_def is_enrolled_def
  set_enrollment_def remove_enrollment_def read_payment_record_def write_payment_record_def
  read_instructor_balance_def write_instructor_balance_def

lemma pay_Ok:
  assumes "pay_for_course xfer zero env p c i n (s, w) = Ok (s', w')"
  obtains fee where "auth env p" "0 < n" "calculate_fee n (read_fee_percent s) = Ok fee"
    "xfer w (read_token zero s) p (self env) n = Some w'"
    "s' = s\<lparr>Enrollment := (Enrollment s)((p, c) \<mapsto> True),
       PaymentRecords := (PaymentRecords s)((p, c) \<mapsto>
         \<lparr>student = p, course_id = c, amount = n, paid_at = timestamp env\<rparr>),
       InstructorBalance := (InstructorBalance s)(i \<mapsto> read_instructor_balance s i + (n - fee))\<rparr>"
proof -
  from assms obtain fee where "calculate_fee n (read_fee_percent s) = Ok fee"
    by (auto simp: pay_for_course_def outcome_iff Let_def)
  with assms show thesis
    by (intro that [of fee]) (auto simp: pay_for_course_def payment_storage outcome_iff Let_def)
qed

lemma payment_refund_Ok:
  assumes "refund xfer zero env p c (s, w) = Ok (s', w')"
  obtains a r where "Admin s = Some a" "auth env a" "PaymentRecords s (p, c) = Some r"
    "timestamp env \<le> paid_at r + read_refund_window_seconds s"
    "xfer w (read_token zero s) (self env) p (amount r) = Some w'"
    "s' = s\<lparr>Enrollment := (Enrollment s)((p, c) := None)\<rparr>"
  using assms by (auto simp: refund_def payment_storage outcome_iff Let_def)

lemma withdraw_Ok:
  assumes "withdraw_earnings xfer zero env i (s, w) = Ok (s', w')"
  obtains n where "auth env i" "InstructorBalance s i = Some n" "0 < n"
    "xfer w (read_token zero s) (self env) i n = Some w'"
    "s' = s\<lparr>InstructorBalance := (InstructorBalance s)(i \<mapsto> 0)\<rparr>"
  using assms by (cases "InstructorBalance s i")
    (auto simp: withdraw_earnings_def payment_storage outcome_iff Let_def)

lemma calculate_fee_bounds: "calculate_fee n f = Ok fee \<Longrightarrow> 0 < n \<Longrightarrow> 0 \<le> fee \<and> fee \<le> n \<and> 5 * fee \<le> n"
proof -
  assume fee: "calculate_fee n f = Ok fee" and n: "0 < n"
  then have f: "f \<le> 2000" and val: "fee = n * int f div 10000"
    by (auto simp: calculate_fee_def outcome_iff div_trunc_nonneg not_less)
  have "n * int f \<le> n * 2000" "0 \<le> n * int f" using f n by simp_all
  moreover have "n * 2000 div 10000 = n div 5" using div_mult_mult2 [of 2000 n 5] by simp
  ultimately have "fee \<le> n div 5" "0 \<le> fee"
    using zdiv_mono1 [of "n * int f" "n * 2000" 10000] val by (simp_all add: pos_imp_zdiv_nonneg_iff)
  then show "0 \<le> fee \<and> fee \<le> n \<and> 5 * fee \<le> n" using n by linarith
qed

section \<open>The invariant, and custody without refunds\<close>

definition payment_wf :: "address \<Rightarrow> payment_state \<Rightarrow> bool" where
  "payment_wf zero s \<longleftrightarrow> finite (dom (InstructorBalance s)) \<and>
     (\<forall>i n. InstructorBalance s i = Some n \<longrightarrow> 0 \<le> n) \<and>
     (Admin s = None \<longleftrightarrow> Token s = None) \<and> (read_token zero s = zero \<longrightarrow> InstructorBalance s = Map.empty) \<and>
     read_fee_percent s \<le> 2000"

lemma read_token_frame [simp]:
  "read_token zero (s\<lparr>InstructorBalance := b\<rparr>) = read_token zero s"
  "read_token zero (s\<lparr>Enrollment := e\<rparr>) = read_token zero s"
  "read_token zero (s\<lparr>PaymentRecords := r\<rparr>) = read_token zero s"
  by (simp_all add: read_token_def)

definition payment_liab :: "payment_state \<Rightarrow> address \<Rightarrow> int" where
  "payment_liab s t = (if Token s = Some t then msum (\<lambda>n. n) (InstructorBalance s) else 0)"

lemma payment_init_wf: "payment_wf zero payment_init"
  by (simp add: payment_wf_def payment_init_def read_fee_percent_def)

text \<open>
  No token lives at the zero address: the host traps a call of a contract that does not exist.
\<close>

locale deployed_tokens = token_ledger bal xfer
  for bal :: "'w \<Rightarrow> address \<Rightarrow> address \<Rightarrow> int" and xfer :: "'w transfer_fn" +
  fixes zero :: address
  assumes no_zero_token: "xfer w zero a b n = None"
begin

lemma token_set: "xfer w (read_token zero s) a b n = Some w' \<Longrightarrow> Token s = Some (read_token zero s) \<and> read_token zero s \<noteq> zero"
  using no_zero_token by (cases "Token s") (auto simp: read_token_def)

lemma pay_wf:
  assumes "pay_for_course xfer zero env p c i n (s, w) = Ok (s', w')" "payment_wf zero s"
  shows "payment_wf zero s'"
  using assms(1)
proof (cases rule: pay_Ok)
  case (1 fee)
  have "0 \<le> read_instructor_balance s i"
    using assms(2) by (cases "InstructorBalance s i") (auto simp: payment_wf_def read_instructor_balance_def)
  then show ?thesis
    using assms(2) calculate_fee_bounds [OF 1(3,2)] token_set [OF 1(4)]
    by (auto simp: payment_wf_def 1(5) read_fee_percent_def)
qed

lemma payment_exec_wf:
  assumes "payment_exec xfer zero env c (s, w) = Ok (s', w')" "payment_wf zero s"
  shows "payment_wf zero s'"
proof (cases c)
  case (WithdrawEarnings i)
  with assms show ?thesis
    by (auto simp: payment_wf_def read_fee_percent_def elim!: withdraw_Ok dest!: token_set split: if_splits)
next
  case (Refund p k)
  with assms show ?thesis by (auto simp: payment_wf_def read_fee_percent_def elim!: payment_refund_Ok)
qed (use assms pay_wf in \<open>auto simp: outcome_iff initialize_def set_fee_def payment_wf_def payment_storage split: if_splits\<close>)

lemma pay_custody:
  assumes "pay_for_course xfer zero env p c i n (s, w) = Ok (s', w')" "payment_wf zero s" "\<not> auth env (self env)"
  shows "custody_move xfer (auth env) (self env) (payment_liab s) w (payment_liab s') w'"
  using assms(1)
proof (cases rule: pay_Ok)
  case (1 fee)
  let ?b = "(InstructorBalance s)(i \<mapsto> read_instructor_balance s i + (n - fee))"
  have "finite (dom (InstructorBalance s))" using assms(2) by (simp add: payment_wf_def)
  then have "msum (\<lambda>n. n) ?b = msum (\<lambda>n. n) (InstructorBalance s) + (n - fee)"
    by (cases "InstructorBalance s i") (simp_all add: msum_update read_instructor_balance_def)
  then show ?thesis
    using 1 token_set [OF 1(4)] calculate_fee_bounds [OF 1(3,2)] assms(3)
    by (intro custody_move.pay_in [where xfer = xfer, OF 1(4)]) (auto simp: payment_liab_def)
qed

lemma payment_withdraw_custody:
  assumes "withdraw_earnings xfer zero env i (s, w) = Ok (s', w')" "payment_wf zero s"
  shows "custody_move xfer (auth env) (self env) (payment_liab s) w (payment_liab s') w'"
  using assms(1)
proof (cases rule: withdraw_Ok)
  case (1 n)
  have "finite (dom (InstructorBalance s))" using assms(2) by (simp add: payment_wf_def)
  with 1 token_set [OF 1(4)] show ?thesis
    by (intro custody_move.pay_out [where xfer = xfer, OF 1(4)])
      (auto simp: payment_liab_def msum_replace)
qed

lemma payment_exec_custody:
  assumes "payment_exec xfer zero env c (s, w) = Ok (s', w')" "payment_wf zero s" "\<not> auth env (self env)"
    "c \<in> no_refunds"
  shows "custody_move xfer (auth env) (self env) (payment_liab s) w (payment_liab s') w'"
proof (cases c)
  case (Initialize a t f n)
  with assms(1,2) show ?thesis
    by (auto simp: outcome_iff initialize_def payment_liab_def payment_storage payment_wf_def
        intro!: custody_move.stay split: if_splits)
next
  case (SetFee a f)
  with assms(1) show ?thesis
    by (auto simp: outcome_iff set_fee_def payment_liab_def payment_storage intro!: custody_move.stay split: if_splits)
qed (use assms pay_custody payment_withdraw_custody in \<open>auto simp: no_refunds_def\<close>)

end

sublocale deployed_tokens \<subseteq> payments: custodian bal xfer "payment_step no_refunds xfer zero" payment_liab "payment_wf zero"
  by unfold_locales
    (auto elim!: payment_stepE intro: payment_exec_wf payment_exec_custody [THEN custody_move_mono])

sublocale deployed_tokens \<subseteq> payment_runs: preserved "payment_step allowed xfer zero me" "\<lambda>sw. payment_wf zero (fst sw)"
    for allowed me
  by unfold_locales (auto elim!: payment_stepE intro: payment_exec_wf)

text \<open>The CHV tokens of a deployment, with no token at the zero address.\<close>

definition chv_deployed :: "address \<Rightarrow> chv_world transfer_fn" where
  "chv_deployed zero w t a b n = (if t = zero then None else chv_xfer w t a b n)"

interpretation chv_payments: deployed_tokens chv_bal "chv_deployed zero" zero for zero
  by unfold_locales
    (auto simp: chv_deployed_def chv.xfer_effect dest: chv.xfer_guard split: if_splits)

lemma chv_deployed_inv:
  "chv_deployed zero w t a b n = Some w' \<Longrightarrow> \<forall>u. chv_inv (w u) \<Longrightarrow> \<forall>u. chv_inv (w' u)"
  using chv_xfer_inv by (simp add: chv_deployed_def split: if_splits)

section \<open>Properties\<close>

text \<open>
  A run used by the witnesses: admin 1 deploys over CHV token 50 with a fee of five percent, student 2 pays
  400 units for a course of instructor 3 into the contract at address 99, and the admin refunds the student.
\<close>

abbreviation pay_env :: env where
  "pay_env \<equiv> \<lparr>timestamp = 10, ledger_sequence = 7, self = 99, auth = (\<lambda>x. x < 90)\<rparr>"

definition demo_record :: PaymentRecord where
  "demo_record = \<lparr>student = 2, course_id = ''rust'', amount = 400, paid_at = 10\<rparr>"

definition demo_deployed :: payment_state where
  "demo_deployed = payment_init\<lparr>Admin := Some 1, Token := Some 50, FeePercent := Some 500,
     RefundWindowSeconds := Some 100\<rparr>"

definition demo_paid :: payment_state where
  "demo_paid = demo_deployed\<lparr>Enrollment := [(2, ''rust'') \<mapsto> True],
     PaymentRecords := [(2, ''rust'') \<mapsto> demo_record], InstructorBalance := [3 \<mapsto> 380]\<rparr>"

definition demo_refunded :: payment_state where
  "demo_refunded = demo_paid\<lparr>Enrollment := Map.empty\<rparr>"

definition demo_tokens :: chv_world where
  "demo_tokens = (\<lambda>_. chv_demo2)"

definition demo_tokens_paid :: chv_world where
  "demo_tokens_paid = demo_tokens(50 := chv_demo2\<lparr>balances := [2 \<mapsto> 100, 99 \<mapsto> 400]\<rparr>)"

definition demo_tokens_refunded :: chv_world where
  "demo_tokens_refunded = demo_tokens(50 := chv_demo2\<lparr>balances := [99 \<mapsto> 0, 2 \<mapsto> 500]\<rparr>)"

lemmas pay_demo_defs = demo_record_def demo_deployed_def demo_paid_def demo_refunded_def demo_tokens_def
  demo_tokens_paid_def demo_tokens_refunded_def payment_init_def chv_demo_defs

lemmas pay_ops = initialize_def pay_for_course_def refund_def withdraw_earnings_def payment_storage
  calculate_fee_def div_trunc_def chv_deployed_def chv_xfer_def transfer_def balance_def is_frozen_def

lemma demo_course_pay:
  "payment_exec (chv_deployed 0) 0 pay_env (Initialize 1 50 500 100) (payment_init, demo_tokens) =
     Ok (demo_deployed, demo_tokens)"
  "payment_exec (chv_deployed 0) 0 pay_env (PayForCourse 2 ''rust'' 3 400) (demo_deployed, demo_tokens) =
     Ok (demo_paid, demo_tokens_paid)"
  by (simp_all add: pay_demo_defs pay_ops range_defs Let_def)

lemma demo_refund:
  "payment_exec (chv_deployed 0) 0 pay_env (Refund 2 ''rust'') (demo_paid, demo_tokens_paid) =
     Ok (demo_refunded, demo_tokens_refunded)"
  by (simp add: pay_demo_defs pay_ops range_defs Let_def)

lemma demo_paid_reachable:
  assumes "no_refunds \<subseteq> A"
  shows "(payment_step A (chv_deployed 0) 0 99)\<^sup>*\<^sup>* (payment_init, demo_tokens) (demo_paid, demo_tokens_paid)"
proof -
  have "payment_step A (chv_deployed 0) 0 99 (payment_init, demo_tokens) (demo_deployed, demo_tokens)"
    by (rule payment_step.call [OF _ _ _ demo_course_pay(1)]) (use assms in \<open>auto simp: no_refunds_def\<close>)
  moreover have "payment_step A (chv_deployed 0) 0 99 (demo_deployed, demo_tokens) (demo_paid, demo_tokens_paid)"
    by (rule payment_step.call [OF _ _ _ demo_course_pay(2)]) (use assms in \<open>auto simp: no_refunds_def\<close>)
  ultimately show ?thesis by (meson rtranclp.rtrancl_into_rtrancl rtranclp.rtrancl_refl)
qed

text \<open>
  C38. Without refunds every instructor is paid. Over CHV tokens, in every state reached by calls other
  than \<open>refund\<close>, the contract holds the sum of all instructor credits, and an instructor with a positive
  credit who authorises the call withdraws exactly that credit and is left with none, as long as the token
  freezes neither the instructor nor the contract.
\<close>

theorem credit_withdrawable:
  assumes run: "(payment_step no_refunds (chv_deployed zero) zero (self env))\<^sup>*\<^sup>* (payment_init, w0) (s, w)"
    and tokens: "\<And>u. chv_step\<^sup>*\<^sup>* chv_init (w0 u)"
  shows "msum (\<lambda>n. n) (InstructorBalance s) \<le> chv_bal w (read_token zero s) (self env) \<and>
    (\<forall>i n. InstructorBalance s i = Some n \<and> 0 < n \<and> auth env i \<and> i \<noteq> self env \<and>
      \<not> is_frozen (w (read_token zero s)) (self env) \<and> \<not> is_frozen (w (read_token zero s)) i \<longrightarrow>
      (\<exists>w'. withdraw_earnings (chv_deployed zero) zero env i (s, w) =
          Ok (s\<lparr>InstructorBalance := (InstructorBalance s)(i \<mapsto> 0)\<rparr>, w') \<and>
        chv_bal w' (read_token zero s) i = chv_bal w (read_token zero s) i + n))"
proof (intro conjI allI impI)
  let ?t = "read_token zero s"
  have inv0: "\<forall>u. chv_inv (w0 u)" using tokens chv_reachable_inv by blast
  have wf: "payment_wf zero s" using chv_payments.payments.run_wf [OF run] payment_init_wf by simp
  have inv: "chv_inv (w ?t)"
    using chv_payments.payments.run_world [OF run, of "\<lambda>w. \<forall>u. chv_inv (w u)"] payment_init_wf inv0 chv_deployed_inv
    by auto
  have "solvent chv_bal (self env) (payment_liab payment_init) w0"
    using inv0 by (simp add: solvent_def payment_liab_def payment_init_def chv_bal_def chv_balance_nonneg)
  then have "payment_liab s ?t \<le> chv_bal w ?t (self env)"
    using chv_payments.payments.run_solvent [OF run] payment_init_wf by (simp add: solvent_def)
  then show covered: "msum (\<lambda>n. n) (InstructorBalance s) \<le> chv_bal w ?t (self env)"
    using wf inv
    by (cases "Token s") (auto simp: payment_liab_def read_token_def payment_wf_def chv_bal_def chv_balance_nonneg)
  fix i n
  assume *: "InstructorBalance s i = Some n \<and> 0 < n \<and> auth env i \<and> i \<noteq> self env \<and>
    \<not> is_frozen (w ?t) (self env) \<and> \<not> is_frozen (w ?t) i"
  then have "n \<le> msum (\<lambda>n. n) (InstructorBalance s)"
    using wf msum_mem_le [of "InstructorBalance s" i n "\<lambda>n. n"] by (simp add: payment_wf_def)
  with covered * obtain w' where "chv_xfer w ?t (self env) i n = Some w'"
    "chv_bal w' ?t i = chv_bal w ?t i + n"
    using chv_xfer_succeeds [of w ?t "self env" i n] inv by (metis order_trans)
  moreover have "?t \<noteq> zero"
    using wf * by (auto simp: payment_wf_def)
  ultimately show "\<exists>w'. withdraw_earnings (chv_deployed zero) zero env i (s, w) =
      Ok (s\<lparr>InstructorBalance := (InstructorBalance s)(i \<mapsto> 0)\<rparr>, w') \<and> chv_bal w' ?t i = chv_bal w ?t i + n"
    using * by (simp add: withdraw_earnings_def read_instructor_balance_def write_instructor_balance_def
        chv_deployed_def read_token_def Let_def)
qed

theorem credit_withdrawable_witness:
  "\<exists>w'. withdraw_earnings (chv_deployed 0) 0 pay_env 3 (demo_paid, demo_tokens_paid) =
      Ok (demo_paid\<lparr>InstructorBalance := [3 \<mapsto> 0]\<rparr>, w') \<and> chv_bal w' 50 3 = 380"
proof -
  have tokens: "chv_step\<^sup>*\<^sup>* chv_init (demo_tokens u)" for u
    using chv_demo_steps(1,2) [THEN chv_step.call] unfolding demo_tokens_def
    by (meson rtranclp.rtrancl_into_rtrancl rtranclp.rtrancl_refl)
  have run: "(payment_step no_refunds (chv_deployed 0) 0 (self pay_env))\<^sup>*\<^sup>* (payment_init, demo_tokens)
      (demo_paid, demo_tokens_paid)"
    using demo_paid_reachable [of no_refunds] by simp
  have credit: "InstructorBalance demo_paid 3 = Some 380" by (simp add: demo_paid_def)
  show ?thesis
    using conjunct2 [OF credit_withdrawable [OF run tokens], rule_format, of 3 380] credit
    by (simp add: pay_demo_defs is_frozen_def chv_bal_def balance_def read_token_def)
qed

text \<open>
  A refund makes the contract insolvent. The refund returns the whole payment to the student and
  removes the enrolment, but the instructor keeps the credit for it. In a state reachable from deployment by
  one payment and one refund, both by the rules, instructor 3 is still owed 380 units, the contract holds
  none, and the withdrawal traps.
\<close>

theorem refund_leaves_credit_unbacked:
  "(payment_step UNIV (chv_deployed 0) 0 99)\<^sup>*\<^sup>* (payment_init, demo_tokens) (demo_refunded, demo_tokens_refunded) \<and>
   get_instructor_balance demo_refunded 3 = 380 \<and> chv_bal demo_tokens_refunded 50 99 = 0 \<and>
   chv_bal demo_tokens_refunded 50 2 = 500 \<and>
   withdraw_earnings (chv_deployed 0) 0 pay_env 3 (demo_refunded, demo_tokens_refunded) = Panic"
proof (intro conjI)
  have "payment_step UNIV (chv_deployed 0) 0 99 (demo_paid, demo_tokens_paid) (demo_refunded, demo_tokens_refunded)"
    by (rule payment_step.call [OF _ _ _ demo_refund]) simp_all
  with demo_paid_reachable [of UNIV]
  show "(payment_step UNIV (chv_deployed 0) 0 99)\<^sup>*\<^sup>* (payment_init, demo_tokens)
      (demo_refunded, demo_tokens_refunded)"
    by (simp add: rtranclp.rtrancl_into_rtrancl)
  show "withdraw_earnings (chv_deployed 0) 0 pay_env 3 (demo_refunded, demo_tokens_refunded) = Panic"
    by (simp add: pay_demo_defs pay_ops range_defs Let_def)
qed (simp_all add: pay_demo_defs get_instructor_balance_def read_instructor_balance_def chv_bal_def balance_def)

end
