(* ===== verification/Scholarship_Reviews.thy ===== *)
theory Scholarship_Reviews
  imports Transition_Systems
begin

text \<open>
  \<open>contracts/scholarship-reviews/src/lib.rs\<close>: reviewers score applications against published rubrics; the
  reviews of an application are combined into one aggregate in basis points, and two applicants are compared
  by aggregate and, on a tie, by the time of the earliest review.
\<close>

section \<open>State\<close>

datatype ContractError =
    NotInitialized | AlreadyInitialized | NotAdmin | ProgramNotFound | ProgramAlreadyExists | ProgramInactive
  | InvalidReviewConfig | InvalidRubric | NoRubricPublished | RubricNotFound | ReviewAlreadyExists
  | ReviewerCapacityExceeded | InvalidScores | InsufficientReviews | ReviewNotFound | VersionOverflow
  | ArithmeticOverflow | MixedRubricVersions | VersionConflict

definition CONTRACT_VERSION :: nat where
  "CONTRACT_VERSION = 1"

definition BPS_DENOMINATOR :: nat where
  "BPS_DENOMINATOR = 10000"

definition MAX_CRITERIA :: nat where
  "MAX_CRITERIA = 12"

definition MAX_CRITERION_SCORE :: nat where
  "MAX_CRITERION_SCORE = 1000"

definition MAX_REVIEWERS :: nat where
  "MAX_REVIEWERS = 32"

record Criterion =
  weight_bps :: nat
  max_score :: nat

record Rubric =
  version :: nat
  criteria :: "Criterion list"
  published_at :: nat

record ProgramConfig =
  config_version :: nat
  active :: bool
  min_reviews :: nat
  max_reviews :: nat

record Review =
  program_id :: hash32
  applicant :: address
  reviewer :: address
  rubric_version :: nat
  scores :: "nat list"
  submitted_at :: nat

datatype CompareOutcome = ABetter | BBetter | Tie

record reviews_state =
  Admin :: "address option"
  ProgramConfigAt :: "hash32 \<rightharpoonup> ProgramConfig"
  RubricVersion :: "hash32 \<rightharpoonup> nat"
  RubricAt :: "hash32 \<times> nat \<rightharpoonup> Rubric"
  ReviewAt :: "hash32 \<times> address \<times> address \<rightharpoonup> Review"
  Reviewers :: "hash32 \<times> address \<rightharpoonup> address list"

definition reviews_init :: reviews_state where
  "reviews_init = \<lparr>Admin = None, ProgramConfigAt = Map.empty, RubricVersion = Map.empty, RubricAt = Map.empty,
     ReviewAt = Map.empty, Reviewers = Map.empty\<rparr>"

section \<open>Programs and rubrics\<close>

definition initialize :: "env \<Rightarrow> address \<Rightarrow> reviews_state \<Rightarrow> (ContractError, reviews_state) outcome" where
  "initialize env admin s =
     (if Admin s \<noteq> None then Err AlreadyInitialized
      else and_then (require_auth env admin) (\<lambda>_. Ok (s\<lparr>Admin := Some admin\<rparr>)))"

definition require_admin :: "env \<Rightarrow> reviews_state \<Rightarrow> address \<Rightarrow> (ContractError, unit) outcome" where
  "require_admin env s caller =
     and_then (ok_or (Admin s) NotInitialized) (\<lambda>admin.
     if caller \<noteq> admin then Err NotAdmin else require_auth env caller)"

definition register_program ::
  "env \<Rightarrow> address \<Rightarrow> hash32 \<Rightarrow> nat \<Rightarrow> nat \<Rightarrow> reviews_state \<Rightarrow> (ContractError, reviews_state) outcome" where
  "register_program env admin p lo hi s =
     and_then (require_admin env s admin) (\<lambda>_.
     if lo = 0 \<or> hi < lo \<or> hi > MAX_REVIEWERS then Err InvalidReviewConfig
     else if ProgramConfigAt s p \<noteq> None then Err ProgramAlreadyExists
     else
       let config = \<lparr>config_version = 1, active = True, min_reviews = lo, max_reviews = hi\<rparr>
       in Ok (s\<lparr>ProgramConfigAt := (ProgramConfigAt s)(p \<mapsto> config)\<rparr>))"

definition set_program_active ::
  "env \<Rightarrow> address \<Rightarrow> hash32 \<Rightarrow> nat \<Rightarrow> bool \<Rightarrow> reviews_state \<Rightarrow> (ContractError, nat \<times> reviews_state) outcome" where
  "set_program_active env admin p expected flag s =
     and_then (require_admin env s admin) (\<lambda>_.
     and_then (ok_or (ProgramConfigAt s p) ProgramNotFound) (\<lambda>config.
     if config_version config \<noteq> expected then Err VersionConflict
     else and_then (ok_or (u32_checked (config_version config + 1)) VersionOverflow) (\<lambda>v.
     let config = config\<lparr>config_version := v, active := flag\<rparr>
     in Ok (config_version config, s\<lparr>ProgramConfigAt := (ProgramConfigAt s)(p \<mapsto> config)\<rparr>))))"

definition get_program_config :: "reviews_state \<Rightarrow> hash32 \<Rightarrow> (ContractError, ProgramConfig) outcome" where
  "get_program_config s p = ok_or (ProgramConfigAt s p) ProgramNotFound"

text \<open>The loop of \<open>validate_rubric\<close> over the criteria that are left.\<close>

fun weights_loop :: "nat \<Rightarrow> Criterion list \<Rightarrow> (ContractError, nat) outcome" where
  "weights_loop total_weight [] = Ok total_weight"
| "weights_loop total_weight (criterion # rest) =
     (if max_score criterion = 0 \<or> max_score criterion > MAX_CRITERION_SCORE then Err InvalidRubric
      else and_then (ok_or (u64_checked (total_weight + weight_bps criterion)) ArithmeticOverflow)
        (\<lambda>total_weight. weights_loop total_weight rest))"

definition validate_rubric :: "Criterion list \<Rightarrow> (ContractError, unit) outcome" where
  "validate_rubric cs =
     (let count = length cs in
      if count = 0 \<or> count > MAX_CRITERIA then Err InvalidRubric
      else and_then (weights_loop 0 cs) (\<lambda>total_weight.
      if total_weight \<noteq> BPS_DENOMINATOR then Err InvalidRubric else Ok ()))"

definition publish_rubric ::
  "env \<Rightarrow> address \<Rightarrow> hash32 \<Rightarrow> nat \<Rightarrow> Criterion list \<Rightarrow> reviews_state \<Rightarrow>
   (ContractError, nat \<times> reviews_state) outcome" where
  "publish_rubric env admin p expected cs s =
     and_then (require_admin env s admin) (\<lambda>_.
     if ProgramConfigAt s p = None then Err ProgramNotFound
     else and_then (validate_rubric cs) (\<lambda>_.
     let current_version = unwrap_or (RubricVersion s p) 0 in
     if current_version \<noteq> expected then Err VersionConflict
     else and_then (ok_or (u32_checked (current_version + 1)) VersionOverflow) (\<lambda>v.
     let rubric = \<lparr>version = v, criteria = cs, published_at = timestamp env\<rparr>;
         s = s\<lparr>RubricAt := (RubricAt s)((p, v) \<mapsto> rubric)\<rparr>;
         s = s\<lparr>RubricVersion := (RubricVersion s)(p \<mapsto> v)\<rparr>
     in Ok (v, s))))"

definition get_latest_rubric_version :: "reviews_state \<Rightarrow> hash32 \<Rightarrow> (ContractError, nat) outcome" where
  "get_latest_rubric_version s p = ok_or (RubricVersion s p) NoRubricPublished"

definition get_rubric :: "reviews_state \<Rightarrow> hash32 \<Rightarrow> nat \<Rightarrow> (ContractError, Rubric) outcome" where
  "get_rubric s p v = ok_or (RubricAt s (p, v)) RubricNotFound"

definition latest_rubric :: "reviews_state \<Rightarrow> hash32 \<Rightarrow> (ContractError, Rubric) outcome" where
  "latest_rubric s p =
     and_then (ok_or (RubricVersion s p) NoRubricPublished) (\<lambda>v. ok_or (RubricAt s (p, v)) RubricNotFound)"

section \<open>Reviews\<close>

text \<open>The loop of \<open>weighted_total\<close> over the criteria and scores that are left.\<close>

fun weighted_loop :: "nat \<Rightarrow> Criterion list \<Rightarrow> nat list \<Rightarrow> (ContractError, nat) outcome" where
  "weighted_loop acc [] ss = Ok acc"
| "weighted_loop acc (criterion # cs) [] = Err InvalidScores"
| "weighted_loop acc (criterion # cs) (score # ss) =
     (if score > max_score criterion then Err InvalidScores
      else and_then (u64_op (score * BPS_DENOMINATOR)) (\<lambda>scaled.
        if max_score criterion = 0 then Panic
        else
          let normalized = scaled div max_score criterion in
          and_then (ok_or (u64_checked (normalized * weight_bps criterion)) ArithmeticOverflow) (\<lambda>weighted.
          and_then (ok_or (u64_checked (acc + weighted)) ArithmeticOverflow) (\<lambda>acc. weighted_loop acc cs ss))))"

text \<open>The cast to \<open>u32\<close> at the end keeps the low 32 bits.\<close>

definition weighted_total :: "Rubric \<Rightarrow> nat list \<Rightarrow> (ContractError, nat) outcome" where
  "weighted_total rubric ss =
     (let count = length (criteria rubric) in
      if length ss \<noteq> count then Err InvalidScores
      else and_then (weighted_loop 0 (criteria rubric) ss) (\<lambda>acc. Ok ((acc div BPS_DENOMINATOR) mod 2 ^ 32)))"

definition submit_review ::
  "env \<Rightarrow> address \<Rightarrow> hash32 \<Rightarrow> address \<Rightarrow> nat list \<Rightarrow> reviews_state \<Rightarrow>
   (ContractError, nat \<times> reviews_state) outcome" where
  "submit_review env r p a ss s =
     and_then (require_auth env r) (\<lambda>_.
     and_then (ok_or (ProgramConfigAt s p) ProgramNotFound) (\<lambda>config.
     if \<not> active config then Err ProgramInactive
     else and_then (latest_rubric s p) (\<lambda>rubric.
     if ReviewAt s (p, a, r) \<noteq> None then Err ReviewAlreadyExists
     else
       let reviewers = unwrap_or (Reviewers s (p, a)) [] in
       if length reviewers \<ge> max_reviews config then Err ReviewerCapacityExceeded
       else and_then (weighted_total rubric ss) (\<lambda>tot.
       let review = \<lparr>program_id = p, applicant = a, reviewer = r, rubric_version = version rubric, scores = ss,
             submitted_at = timestamp env\<rparr>;
           s = s\<lparr>ReviewAt := (ReviewAt s)((p, a, r) \<mapsto> review)\<rparr>;
           s = s\<lparr>Reviewers := (Reviewers s)((p, a) \<mapsto> reviewers @ [r])\<rparr>
       in Ok (tot, s)))))"

definition get_review :: "reviews_state \<Rightarrow> hash32 \<Rightarrow> address \<Rightarrow> address \<Rightarrow> (ContractError, Review) outcome" where
  "get_review s p a r = ok_or (ReviewAt s (p, a, r)) ReviewNotFound"

definition has_review :: "reviews_state \<Rightarrow> hash32 \<Rightarrow> address \<Rightarrow> address \<Rightarrow> bool" where
  "has_review s p a r = (ReviewAt s (p, a, r) \<noteq> None)"

definition get_reviewer_count :: "reviews_state \<Rightarrow> hash32 \<Rightarrow> address \<Rightarrow> nat" where
  "get_reviewer_count s p a = length (unwrap_or (Reviewers s (p, a)) [])"

section \<open>Aggregate and comparison\<close>

text \<open>The loop of \<open>aggregate_score\<close> over the reviewers that are left.\<close>

fun sum_loop ::
  "reviews_state \<Rightarrow> hash32 \<Rightarrow> address \<Rightarrow> nat \<Rightarrow> Rubric \<Rightarrow> nat \<Rightarrow> address list \<Rightarrow> (ContractError, nat) outcome" where
  "sum_loop s p a v rubric acc [] = Ok acc"
| "sum_loop s p a v rubric acc (r # rest) =
     and_then (ok_or (ReviewAt s (p, a, r)) ReviewNotFound) (\<lambda>review.
     if rubric_version review \<noteq> v then Err MixedRubricVersions
     else and_then (weighted_total rubric (scores review)) (\<lambda>tot.
     and_then (ok_or (u64_checked (acc + tot)) ArithmeticOverflow) (\<lambda>acc.
     sum_loop s p a v rubric acc rest)))"

definition aggregate_score :: "reviews_state \<Rightarrow> hash32 \<Rightarrow> address \<Rightarrow> (ContractError, nat) outcome" where
  "aggregate_score s p a =
     and_then (ok_or (ProgramConfigAt s p) ProgramNotFound) (\<lambda>config.
     let reviewers = unwrap_or (Reviewers s (p, a)) []; count = length reviewers in
     if count < min_reviews config then Err InsufficientReviews
     else and_then (ok_or (vec_get reviewers 0) ReviewNotFound) (\<lambda>first_reviewer.
     and_then (ok_or (ReviewAt s (p, a, first_reviewer)) ReviewNotFound) (\<lambda>first_review.
     let v = rubric_version first_review in
     and_then (ok_or (RubricAt s (p, v)) RubricNotFound) (\<lambda>rubric.
     and_then (sum_loop s p a v rubric 0 reviewers) (\<lambda>acc.
     if count = 0 then Panic else Ok ((acc div count) mod 2 ^ 32))))))"

fun earliest_loop ::
  "reviews_state \<Rightarrow> hash32 \<Rightarrow> address \<Rightarrow> nat option \<Rightarrow> address list \<Rightarrow> (ContractError, nat option) outcome" where
  "earliest_loop s p a earliest [] = Ok earliest"
| "earliest_loop s p a earliest (r # rest) =
     and_then (ok_or (ReviewAt s (p, a, r)) ReviewNotFound) (\<lambda>review.
     earliest_loop s p a
       (case earliest of
          None \<Rightarrow> Some (submitted_at review)
        | Some current \<Rightarrow> if submitted_at review < current then Some (submitted_at review) else earliest) rest)"

definition first_review_time :: "reviews_state \<Rightarrow> hash32 \<Rightarrow> address \<Rightarrow> (ContractError, nat) outcome" where
  "first_review_time s p a =
     (let reviewers = unwrap_or (Reviewers s (p, a)) [] in
      and_then (earliest_loop s p a None reviewers) (\<lambda>earliest. ok_or earliest InsufficientReviews))"

definition compare_applicants ::
  "reviews_state \<Rightarrow> hash32 \<Rightarrow> address \<Rightarrow> address \<Rightarrow> (ContractError, CompareOutcome) outcome" where
  "compare_applicants s p a b =
     and_then (aggregate_score s p a) (\<lambda>score_a. and_then (aggregate_score s p b) (\<lambda>score_b.
     if score_a > score_b then Ok ABetter
     else if score_b > score_a then Ok BBetter
     else
       and_then (first_review_time s p a) (\<lambda>time_a. and_then (first_review_time s p b) (\<lambda>time_b.
       if time_a < time_b then Ok ABetter else if time_b < time_a then Ok BBetter else Ok Tie))))"

definition contract_version :: nat where
  "contract_version = CONTRACT_VERSION"

section \<open>Calls and steps\<close>

datatype reviews_call =
    Initialize address | RegisterProgram address hash32 nat nat | SetProgramActive address hash32 nat bool
  | PublishRubric address hash32 nat "Criterion list" | SubmitReview address hash32 address "nat list"

fun reviews_exec :: "env \<Rightarrow> reviews_call \<Rightarrow> reviews_state \<Rightarrow> (ContractError, reviews_state) outcome" where
  "reviews_exec env (Initialize a) s = initialize env a s"
| "reviews_exec env (RegisterProgram a p lo hi) s = register_program env a p lo hi s"
| "reviews_exec env (SetProgramActive a p v b) s = state_of (set_program_active env a p v b s)"
| "reviews_exec env (PublishRubric a p v cs) s = state_of (publish_rubric env a p v cs s)"
| "reviews_exec env (SubmitReview r p a ss) s = state_of (submit_review env r p a ss s)"

inductive reviews_step :: "reviews_state \<Rightarrow> reviews_state \<Rightarrow> bool" where
  call: "reviews_exec env c s = Ok t \<Longrightarrow> reviews_step s t"

inductive_cases reviews_stepE: "reviews_step s t"

end
