(* ===== verification/Review_Comparison.thy ===== *)
theory Review_Comparison
  imports Review_Ranking
begin

text \<open>
  The properties of the review contract over its reachable states: exact weighted totals and aggregates, the
  errors of the aggregate, its reproducibility, and the ranking that the comparison of applicants computes.
  Two findings: a rubric published between two reviews of an application blocks its aggregate for ever, and an
  applicant can review the own application.
\<close>

section \<open>Sets of reviews\<close>

text \<open>When a review was recorded, and when the first one of an application was.\<close>

definition time_of :: "reviews_state \<Rightarrow> hash32 \<Rightarrow> address \<Rightarrow> address \<Rightarrow> nat" where
  "time_of s p a r = (case get_review s p a r of Ok x \<Rightarrow> submitted_at x | _ \<Rightarrow> 0)"

definition version_of :: "reviews_state \<Rightarrow> hash32 \<Rightarrow> address \<Rightarrow> address \<Rightarrow> nat" where
  "version_of s p a r = (case get_review s p a r of Ok x \<Rightarrow> rubric_version x | _ \<Rightarrow> 0)"

definition earliest :: "reviews_state \<Rightarrow> hash32 \<Rightarrow> address \<Rightarrow> nat" where
  "earliest s p a = Min (time_of s p a ` {r. has_review s p a r})"

lemma reviewers_set: "reviews_wf s \<Longrightarrow> set (reviewers_of s p a) = {r. has_review s p a r}"
  using reviews_wfD(5) [of s _ p a] by (auto simp: has_review_def)

lemma reviewers_count: "reviews_wf s \<Longrightarrow> length (reviewers_of s p a) = card {r. has_review s p a r}"
  using reviewers_set [of s p a] distinct_card [OF reviews_wfD(4), of s p a] by simp

lemma total_sum:
  "reviews_wf s \<Longrightarrow> sum_list (map (total_of s p a) (reviewers_of s p a)) = (\<Sum>r\<in>{r. has_review s p a r}. total_of s p a r)"
  using sum.distinct_set_conv_list [OF reviews_wfD(4), of s "total_of s p a" p a] by (simp add: reviewers_set)

lemma same_rubric_iff:
  assumes "reviews_wf s"
  shows "same_rubric s p a \<longleftrightarrow>
    (\<forall>r\<in>{r. has_review s p a r}. \<forall>r'\<in>{r. has_review s p a r}. version_of s p a r = version_of s p a r')"
proof -
  have "rubric_version (the (ReviewAt s (p, a, r))) = version_of s p a r" if "r \<in> {r. has_review s p a r}" for r
    using that by (auto simp: version_of_def get_review_def has_review_def)
  then show ?thesis unfolding same_rubric_def reviewers_set [OF assms] by simp
qed

lemma earliest_loop_eq:
  "\<forall>r\<in>set rs. ReviewAt s (p, a, r) \<noteq> None \<Longrightarrow>
   earliest_loop s p a (Some t) rs = Ok (Some (Min (insert t (time_of s p a ` set rs))))"
proof (induction rs arbitrary: t)
  case (Cons r rs)
  then obtain x where x: "ReviewAt s (p, a, r) = Some x" "time_of s p a r = submitted_at x"
    by (auto simp: time_of_def get_review_def)
  have first: "Some (if submitted_at x < t then submitted_at x else t) = Some (min t (time_of s p a r))"
    using x(2) by (simp add: min_def)
  have "Min (insert (min t (time_of s p a r)) (time_of s p a ` set rs)) =
      Min (insert t (time_of s p a ` set (r # rs)))"
    by (cases "rs = []") (simp_all add: min.assoc)
  moreover have "earliest_loop s p a (Some t) (r # rs) = earliest_loop s p a (Some (min t (time_of s p a r))) rs"
    using x first by simp
  ultimately show ?case using Cons by simp
qed simp

lemma first_review_time_eq:
  assumes "reviews_wf s" "reviewers_of s p a \<noteq> []"
  shows "first_review_time s p a = Ok (earliest s p a)"
proof -
  obtain r rs where rs: "reviewers_of s p a = r # rs" using assms(2) by (cases "reviewers_of s p a") auto
  have all: "\<forall>r'\<in>set (r # rs). ReviewAt s (p, a, r') \<noteq> None"
    using reviews_wfD(5) [OF assms(1), of _ p a] unfolding rs by simp
  then obtain x where x: "ReviewAt s (p, a, r) = Some x" "time_of s p a r = submitted_at x"
    by (auto simp: time_of_def get_review_def)
  have "earliest s p a = Min (insert (time_of s p a r) (time_of s p a ` set rs))"
    unfolding earliest_def using reviewers_set [OF assms(1), of p a] rs by (simp flip: image_insert)
  moreover have "earliest_loop s p a None (r # rs) = earliest_loop s p a (Some (time_of s p a r)) rs" using x by simp
  moreover have "earliest_loop s p a (Some (time_of s p a r)) rs = Ok (Some (Min (insert (time_of s p a r) (time_of s p a ` set rs))))"
    using all by (intro earliest_loop_eq) simp
  ultimately show ?thesis unfolding first_review_time_def Let_def rs by simp
qed

section \<open>Concrete runs\<close>

definition reviews_env :: "nat \<Rightarrow> env" where
  "reviews_env n = \<lparr>timestamp = n, ledger_sequence = 1, self = 9, auth = \<lambda>_. True\<rparr>"

definition demo_criteria :: "Criterion list" where
  "demo_criteria = [\<lparr>weight_bps = 6000, max_score = 3\<rparr>, \<lparr>weight_bps = 4000, max_score = 10\<rparr>]"

definition demo_review :: "address \<Rightarrow> address \<Rightarrow> nat \<Rightarrow> nat list \<Rightarrow> nat \<Rightarrow> Review" where
  "demo_review a r v ss n =
     \<lparr>program_id = [5], applicant = a, reviewer = r, rubric_version = v, scores = ss, submitted_at = n\<rparr>"

text \<open>Applicant 3 is reviewed by 2 and by the applicant, both against version 1.\<close>

definition demo_reviews :: reviews_state where
  "demo_reviews = \<lparr>Admin = Some 1,
     ProgramConfigAt = [[5] \<mapsto> \<lparr>config_version = 1, active = True, min_reviews = 1, max_reviews = 4\<rparr>],
     RubricVersion = [[5] \<mapsto> 1], RubricAt = [([5], 1) \<mapsto> \<lparr>version = 1, criteria = demo_criteria, published_at = 10\<rparr>],
     ReviewAt = [([5], 3, 2) \<mapsto> demo_review 3 2 1 [2, 5] 20, ([5], 3, 3) \<mapsto> demo_review 3 3 1 [3, 10] 30],
     Reviewers = [([5], 3) \<mapsto> [2, 3]]\<rparr>"

definition demo_start :: "(env \<times> reviews_call) list" where
  "demo_start = [(reviews_env 10, Initialize 1), (reviews_env 10, RegisterProgram 1 [5] 1 4),
     (reviews_env 10, PublishRubric 1 [5] 0 demo_criteria), (reviews_env 20, SubmitReview 2 [5] 3 [2, 5])]"

lemmas review_call_defs = initialize_def require_admin_def register_program_def publish_rubric_def validate_rubric_def
  submit_review_def latest_rubric_def weighted_total_def state_of_def u32_checked_def u64_checked_def u64_op_def
  range_defs MAX_REVIEWERS_def MAX_CRITERIA_def MAX_CRITERION_SCORE_def BPS_DENOMINATOR_def Let_def

lemmas demo_reviews_defs = demo_start_def demo_reviews_def demo_criteria_def demo_review_def reviews_env_def reviews_init_def

lemma demo_reviews_run: "run_calls reviews_exec (demo_start @ [(reviews_env 30, SubmitReview 3 [5] 3 [3, 10])]) reviews_init = Ok demo_reviews"
  by (simp add: review_call_defs demo_reviews_defs del: One_nat_def)

lemma demo_reviews_reachable: "reviews_step\<^sup>*\<^sup>* reviews_init demo_reviews"
  by (rule run_calls_steps [OF demo_reviews_run]) (rule reviews_step.call)

lemma demo_reviewed: "{r. has_review demo_reviews [5] 3 r} = {2, 3}"
  by (auto simp: has_review_def demo_reviews_def)

lemma demo_totals: "total_of demo_reviews [5] 3 2 = 5999" "total_of demo_reviews [5] 3 3 = 10000"
  by (simp_all add: total_of_def get_review_def get_rubric_def weighted_total_def review_call_defs demo_reviews_defs
      del: One_nat_def)

lemma demo_versions: "version_of demo_reviews [5] 3 2 = 1" "version_of demo_reviews [5] 3 3 = 1"
  "get_program_config demo_reviews [5] = Ok \<lparr>config_version = 1, active = True, min_reviews = 1, max_reviews = 4\<rparr>"
  by (simp_all add: version_of_def get_review_def get_program_config_def demo_reviews_def demo_review_def)

section \<open>Properties\<close>

text \<open>
  The total of a review is exact and within the scale. For every published rubric, the scores are accepted
  exactly when there is one within its maximum for each criterion; the total is the weighted sum of the shares
  in basis points, rounded down, at most 10000, and never smaller for scores that are pointwise at least as high.
\<close>

theorem weighted_total_exact:
  assumes "reviews_step\<^sup>*\<^sup>* reviews_init s" and "get_rubric s p v = Ok rub"
  shows "weighted_total rub ss =
      (if list_all2 (\<lambda>c x. x \<le> max_score c) (criteria rub) ss
       then Ok (weighted_sum (criteria rub) ss div BPS_DENOMINATOR) else Err InvalidScores) \<and>
    (\<forall>n. weighted_total rub ss = Ok n \<longrightarrow> n \<le> BPS_DENOMINATOR \<and>
      (\<forall>ss' n'. list_all2 (\<le>) ss ss' \<and> weighted_total rub ss' = Ok n' \<longrightarrow> n \<le> n'))"
proof -
  have valid: "valid_rubric (criteria rub)"
    using reviews_wfD(2) [OF reviews_run_wf [OF assms(1)], of p v rub] assms(2) by (simp add: get_rubric_def outcome_iff)
  have mono: "n \<le> n'"
    if "weighted_total rub ss = Ok n" "list_all2 (\<le>) ss ss'" "weighted_total rub ss' = Ok n'" for n n' ss'
  proof -
    have "within (criteria rub) ss" using that(1) by (simp add: weighted_total_eq [OF valid] split: if_splits)
    then have "weighted_sum (criteria rub) ss \<le> weighted_sum (criteria rub) ss'"
      by (intro weighted_sum_mono that(2)) (simp add: list_all2_lengthD)
    with that(1,3) show ?thesis
      by (auto simp: weighted_total_eq [OF valid] intro: div_le_mono split: if_splits)
  qed
  show ?thesis using weighted_total_eq [OF valid] weighted_total_bound [OF valid] mono by blast
qed

theorem weighted_total_exact_witness:
  "weighted_total \<lparr>version = 1, criteria = demo_criteria, published_at = 10\<rparr> [2, 5] =
     Ok ((2 * 10000 div 3 * 6000 + 5 * 10000 div 10 * 4000) div 10000)"
  using weighted_total_exact [OF demo_reviews_reachable, of "[5]" 1 "\<lparr>version = 1, criteria = demo_criteria, published_at = 10\<rparr>" "[2, 5]"]
  by (simp add: get_rubric_def demo_reviews_def demo_criteria_def points_def BPS_DENOMINATOR_def)

text \<open>
  C25. The aggregate of an application is the mean of its recorded reviews, rounded down, and it fails only for a
  documented reason. It is an error when the program is unknown, when fewer reviews than the minimum were
  recorded, or when the reviews were scored against different versions of the rubric; it never panics, overflows
  or misses a review.
\<close>

theorem aggregate_exact:
  assumes "reviews_step\<^sup>*\<^sup>* reviews_init s"
  shows "aggregate_score s p a =
    (let R = {r. has_review s p a r} in
     case get_program_config s p of
       Ok c \<Rightarrow> (if card R < min_reviews c then Err InsufficientReviews
                else if \<exists>r\<in>R. \<exists>r'\<in>R. version_of s p a r \<noteq> version_of s p a r' then Err MixedRubricVersions
                else Ok ((\<Sum>r\<in>R. total_of s p a r) div card R))
     | Err e \<Rightarrow> Err ProgramNotFound | Panic \<Rightarrow> Panic)"
proof (cases "ProgramConfigAt s p")
  case None
  then show ?thesis by (simp add: aggregate_score_def get_program_config_def)
next
  case (Some c)
  note wf = reviews_run_wf [OF assms]
  show ?thesis
  proof (cases "min_reviews c \<le> length (reviewers_of s p a)")
    case True
    have "aggregate_score s p a = (if same_rubric s p a
        then Ok ((\<Sum>r\<in>{r. has_review s p a r}. total_of s p a r) div card {r. has_review s p a r}) else Err MixedRubricVersions)"
      unfolding aggregate_eq(2) [OF wf Some True] total_sum [OF wf] reviewers_count [OF wf] by (rule refl)
    moreover have "\<not> card {r. has_review s p a r} < min_reviews c" using True by (simp add: reviewers_count [OF wf])
    moreover have "(\<exists>r\<in>{r. has_review s p a r}. \<exists>r'\<in>{r. has_review s p a r}. version_of s p a r \<noteq> version_of s p a r') \<longleftrightarrow>
        \<not> same_rubric s p a"
      unfolding same_rubric_iff [OF wf] by blast
    ultimately show ?thesis using Some by (simp add: get_program_config_def Let_def)
  next
    case False
    with Some show ?thesis
      by (simp add: aggregate_score_def get_program_config_def Let_def reviewers_count [OF wf])
  qed
qed

theorem aggregate_exact_witness: "aggregate_score demo_reviews [5] 3 = Ok ((5999 + 10000) div 2)"
  unfolding aggregate_exact [OF demo_reviews_reachable] demo_reviewed
  by (simp add: demo_totals demo_versions flip: numeral_2_eq_2)

definition ranks_ahead :: "nat \<times> nat \<Rightarrow> nat \<times> nat \<Rightarrow> bool" where
  "ranks_ahead x y \<longleftrightarrow> fst y < fst x \<or> fst x = fst y \<and> snd x < snd y"

lemma aggregate_reviewed:
  assumes "reviews_wf s" "aggregate_score s p a = Ok n"
  shows "first_review_time s p a = Ok (earliest s p a)" "\<exists>c. ProgramConfigAt s p = Some c \<and> min_reviews c \<le> length (reviewers_of s p a)"
proof -
  from assms(2) obtain c where c: "ProgramConfigAt s p = Some c" "min_reviews c \<le> length (reviewers_of s p a)"
    by (auto simp: aggregate_score_def outcome_iff Let_def)
  then show "\<exists>c. ProgramConfigAt s p = Some c \<and> min_reviews c \<le> length (reviewers_of s p a)" by blast
  show "first_review_time s p a = Ok (earliest s p a)"
    by (rule first_review_time_eq [OF assms(1) aggregate_eq(1) [OF assms(1) c]])
qed

text \<open>
  The comparison of two applicants is the ranking by aggregate and then by the time of the earliest review. It
  answers exactly when both have an aggregate, the one ahead is the one with the higher aggregate or, at equal
  aggregates, the earlier first review, and two applicants tie only when both are equal.
\<close>

theorem comparison_ranks:
  assumes "reviews_step\<^sup>*\<^sup>* reviews_init s"
  shows "compare_applicants s p a b = Ok out \<longleftrightarrow>
    (\<exists>x y. aggregate_score s p a = Ok x \<and> aggregate_score s p b = Ok y \<and>
      out = (if ranks_ahead (x, earliest s p a) (y, earliest s p b) then ABetter
             else if ranks_ahead (y, earliest s p b) (x, earliest s p a) then BBetter else Tie))"
proof (cases "aggregate_score s p a")
  case (Ok x)
  note wf = reviews_run_wf [OF assms]
  show ?thesis
  proof (cases "aggregate_score s p b")
    case b: (Ok y)
    show ?thesis
      using Ok b aggregate_reviewed(1) [OF wf Ok] aggregate_reviewed(1) [OF wf b]
      by (auto simp: compare_applicants_def ranks_ahead_def)
  qed (simp_all add: Ok compare_applicants_def)
qed (simp_all add: compare_applicants_def)

theorem comparison_ranks_witness: "compare_applicants demo_reviews [5] 3 3 = Ok Tie"
  using comparison_ranks [OF demo_reviews_reachable, of "[5]" 3 3 Tie]
  by (simp add: ranks_ahead_def aggregate_score_def demo_reviews_defs weighted_total_def review_call_defs del: One_nat_def)

text \<open>
  Aggregates are reproducible. In every later state in which no further review of the application has been
  recorded, its aggregate is the same, whatever rubrics were published and programs were activated or stopped.
\<close>

lemma later_reviews:
  assumes "reviews_wf s" "reviews_step\<^sup>*\<^sup>* s t" "r \<in> set (reviewers_of s p a)"
  shows "ReviewAt t (p, a, r) = ReviewAt s (p, a, r)" "total_of t p a r = total_of s p a r"
proof -
  note ev = reviews.run_evolves [OF assms(2,1)]
  from assms(3) reviews_wfD(5) [OF assms(1), of r p a] obtain x where x: "ReviewAt s (p, a, r) = Some x" by auto
  with ev have x': "ReviewAt t (p, a, r) = Some x" by (auto simp: reviews_evolves_def kept_def)
  with x show "ReviewAt t (p, a, r) = ReviewAt s (p, a, r)" by simp
  obtain rub where rub: "RubricAt s (p, rubric_version x) = Some rub" by (rule total_of_review [OF assms(1) x])
  with ev have "RubricAt t (p, rubric_version x) = Some rub" by (auto simp: reviews_evolves_def kept_def)
  with x x' rub show "total_of t p a r = total_of s p a r" by (simp add: total_of_def get_review_def get_rubric_def)
qed

theorem aggregate_stable:
  assumes "reviews_step\<^sup>*\<^sup>* reviews_init s" and "reviews_step\<^sup>*\<^sup>* s t"
    and "get_reviewer_count t p a = get_reviewer_count s p a" and "aggregate_score s p a = Ok n"
  shows "aggregate_score t p a = Ok n"
proof -
  note wf = reviews_run_wf [OF assms(1)]
  note ev = reviews.run_evolves [OF assms(2) wf]
  note wft = reviews.run [OF assms(2) wf]
  obtain c where c: "ProgramConfigAt s p = Some c" "min_reviews c \<le> length (reviewers_of s p a)"
    using aggregate_reviewed(2) [OF wf assms(4)] by blast
  from ev c(1) obtain d where d: "ProgramConfigAt t p = Some d" "min_reviews d = min_reviews c"
    unfolding reviews_evolves_def kept_def by blast
  from ev obtain rs where "reviewers_of t p a = reviewers_of s p a @ rs" unfolding reviews_evolves_def by blast
  with assms(3) have same: "reviewers_of t p a = reviewers_of s p a" by (simp add: get_reviewer_count_def)
  have "sum_list (map (total_of t p a) (reviewers_of s p a)) = sum_list (map (total_of s p a) (reviewers_of s p a))"
    using later_reviews(2) [OF wf assms(2)] by (intro arg_cong [where f = sum_list] map_cong refl)
  moreover have "same_rubric t p a \<longleftrightarrow> same_rubric s p a"
    unfolding same_rubric_def same using later_reviews(1) [OF wf assms(2)] by simp
  ultimately show ?thesis
    using aggregate_eq(2) [OF wft d(1)] aggregate_eq(2) [OF wf c] d(2) c(2) assms(4) by (simp add: same)
qed

theorem aggregate_stable_witness: "aggregate_score demo_reviews [5] 3 = Ok 7999"
  by (rule aggregate_stable [OF demo_reviews_reachable rtranclp.rtrancl_refl])
    (simp_all add: aggregate_score_def demo_reviews_defs weighted_total_def review_call_defs
      del: One_nat_def flip: numeral_2_eq_2)

section \<open>Findings\<close>

text \<open>
  A mixed application stays mixed. Once reviews of an application were scored against different versions of the
  rubric, its aggregate fails in every later state: reviews can be neither replaced nor withdrawn, so the
  advice to score it again against one version cannot be followed.
\<close>

theorem mixed_rubrics_final:
  assumes "reviews_step\<^sup>*\<^sup>* reviews_init s" and "reviews_step\<^sup>*\<^sup>* s t" and "aggregate_score s p a = Err MixedRubricVersions"
  shows "aggregate_score t p a = Err MixedRubricVersions"
proof -
  note wf = reviews_run_wf [OF assms(1)]
  note ev = reviews.run_evolves [OF assms(2) wf]
  note wft = reviews.run [OF assms(2) wf]
  from assms(3) obtain c where c: "ProgramConfigAt s p = Some c"
    by (cases "ProgramConfigAt s p") (auto simp: aggregate_score_def)
  with assms(3) have enough: "min_reviews c \<le> length (reviewers_of s p a)"
    by (auto simp: aggregate_score_def Let_def not_less split: if_splits)
  with assms(3) aggregate_eq(2) [OF wf c] have "\<not> same_rubric s p a" by (auto split: if_splits)
  then obtain r r' where r: "r \<in> set (reviewers_of s p a)" "r' \<in> set (reviewers_of s p a)"
    "rubric_version (the (ReviewAt s (p, a, r))) \<noteq> rubric_version (the (ReviewAt s (p, a, r')))"
    unfolding same_rubric_def by blast
  from ev c obtain d where d: "ProgramConfigAt t p = Some d" "min_reviews d = min_reviews c"
    unfolding reviews_evolves_def kept_def by blast
  from ev obtain rs where rs: "reviewers_of t p a = reviewers_of s p a @ rs" unfolding reviews_evolves_def by blast
  have "\<not> same_rubric t p a"
    using r later_reviews(1) [OF wf assms(2) r(1)] later_reviews(1) [OF wf assms(2) r(2)]
    unfolding same_rubric_def rs by (metis Un_iff set_append)
  then show ?thesis using aggregate_eq(2) [OF wft d(1)] d(2) enough rs by simp
qed

text \<open>Reviewer 2 scores before and reviewer 4 after version 2 of the rubric.\<close>

definition demo_mixed :: "(env \<times> reviews_call) list" where
  "demo_mixed = demo_start @ [(reviews_env 30, PublishRubric 1 [5] 1 demo_criteria), (reviews_env 40, SubmitReview 4 [5] 3 [2, 5])]"

theorem mixed_rubrics_final_witness:
  "\<exists>s. run_calls reviews_exec demo_mixed reviews_init = Ok s \<and> aggregate_score s [5] 3 = Err MixedRubricVersions"
proof -
  let ?s = "case run_calls reviews_exec demo_mixed reviews_init of Ok s \<Rightarrow> s | _ \<Rightarrow> reviews_init"
  have run: "run_calls reviews_exec demo_mixed reviews_init = Ok ?s"
    by (simp add: demo_mixed_def demo_reviews_defs review_call_defs del: One_nat_def)
  have mixed: "aggregate_score ?s [5] 3 = Err MixedRubricVersions"
    by (simp add: demo_mixed_def demo_reviews_defs review_call_defs aggregate_score_def weighted_total_def del: One_nat_def)
  have "reviews_step\<^sup>*\<^sup>* reviews_init ?s" by (rule run_calls_steps [OF run]) (rule reviews_step.call)
  from mixed_rubrics_final [OF this rtranclp.rtrancl_refl mixed] run show ?thesis by blast
qed

text \<open>
  Anyone can review, the applicant included. The review that applicant 3 submits for the own application counts in
  its aggregate: no role and no conflict of interest is checked.
\<close>

theorem self_review_counts:
  "\<exists>s t. run_calls reviews_exec demo_start reviews_init = Ok s \<and> aggregate_score s [5] 3 = Ok 5999 \<and>
    submit_review (reviews_env 30) 3 [5] 3 [3, 10] s = Ok (10000, t) \<and> aggregate_score t [5] 3 = Ok 7999"
  by (simp add: demo_reviews_defs review_call_defs aggregate_score_def weighted_total_def
      del: One_nat_def flip: numeral_2_eq_2)

end
