(* ===== verification/Mentorship_Contracts.thy ===== *)
theory Mentorship_Contracts
  imports Transition_Systems
begin

text \<open>
  \<open>contracts/mentorship-contracts/src/lib.rs\<close>: mentors and mentees publish versions of the terms of an
  agreement, and organizers run the seats of a program: offers that expire, confirmed seats and a first-in-first-out
  waitlist. Events and the extension of storage lifetimes are left out.
\<close>

section \<open>State\<close>

datatype ContractError =
    ContractNotFound | VersionNotFound | UnsupportedSchemaVersion | InvalidTerms | InvalidPage | InvalidCursor
  | VersionOverflow | VersionLimitExceeded | PartiesImmutable | ProgramNotFound | ProgramAlreadyExists
  | NotProgramOrganizer | InvalidCapacity | CapacityBelowCommitted | SeatAlreadyRequested | WaitlistFull
  | CapacityFull | OfferNotFound | OfferExpired | OfferNotExpired | SeatNotConfirmed | WaitlistEmpty
  | WaitlistCorrupt | InvalidWaitlistCursor

definition CONTRACT_VERSION :: nat where
  "CONTRACT_VERSION = 2"

definition SUPPORTED_SCHEMA_VERSION :: nat where
  "SUPPORTED_SCHEMA_VERSION = 1"

definition MAX_VERSIONS_PER_CONTRACT :: nat where
  "MAX_VERSIONS_PER_CONTRACT = 100"

definition MAX_PAGE_SIZE :: nat where
  "MAX_PAGE_SIZE = 50"

definition MAX_WAITLIST_SIZE :: nat where
  "MAX_WAITLIST_SIZE = 256"

datatype SeatState = Waitlisted | Offered | Confirmed

record ProgramCapacity =
  organizer :: address
  capacity :: nat
  reserved_seats :: nat
  confirmed_seats :: nat
  waitlist_head :: nat
  waitlist_tail :: nat
  offer_ttl_seconds :: nat
  automatic_promotion :: bool

record SeatRecord =
  state :: SeatState
  requested_at :: nat
  offer_expires_at :: "nat option"

record Money =
  asset :: address
  amount :: int

record DateRange =
  starts_at :: nat
  ends_at :: nat

record EvidenceReference =
  content_hash :: hash32
  reference_hash :: hash32

datatype ContractStatus = Published

record PublishMentorshipCommand =
  new_agreement_id :: hash32
  new_schema_version :: nat
  new_mentor :: address
  new_mentee :: address
  new_fee :: Money
  new_session_count :: nat
  new_period :: DateRange
  new_terms_hash :: hash32
  new_evidence :: "EvidenceReference option"

record MentorshipContractVersion =
  agreement_id :: hash32
  schema_version :: nat
  version :: nat
  mentor :: address
  mentee :: address
  fee :: Money
  session_count :: nat
  period :: DateRange
  terms_hash :: hash32
  evidence :: "EvidenceReference option"
  status :: ContractStatus
  published_at :: nat

text \<open>The pages of both listings: what they hold and the cursor of the next one.\<close>

record ContractVersionPage =
  versions :: "MentorshipContractVersion list"
  next_version :: "nat option"

record WaitlistPage =
  participants :: "address list"
  next_cursor :: "nat option"

record contracts_state =
  LatestVersion :: "hash32 \<rightharpoonup> nat"
  ContractVersion :: "hash32 \<times> nat \<rightharpoonup> MentorshipContractVersion"
  Programs :: "hash32 \<rightharpoonup> ProgramCapacity"
  Seat :: "hash32 \<times> address \<rightharpoonup> SeatRecord"
  WaitlistEntry :: "hash32 \<times> nat \<rightharpoonup> address"

definition contracts_init :: contracts_state where
  "contracts_init = \<lparr>LatestVersion = Map.empty, ContractVersion = Map.empty, Programs = Map.empty, Seat = Map.empty,
     WaitlistEntry = Map.empty\<rparr>"

section \<open>Versions of an agreement\<close>

definition publish ::
  "env \<Rightarrow> PublishMentorshipCommand \<Rightarrow> contracts_state \<Rightarrow> (ContractError, nat \<times> contracts_state) outcome" where
  "publish env command s =
     and_then (require_auth env (new_mentor command)) (\<lambda>_.
     and_then (require_auth env (new_mentee command)) (\<lambda>_.
     if new_schema_version command \<noteq> SUPPORTED_SCHEMA_VERSION then Err UnsupportedSchemaVersion
     else if new_mentor command = new_mentee command \<or> amount (new_fee command) \<le> 0 \<or> new_session_count command = 0 \<or>
       starts_at (new_period command) \<ge> ends_at (new_period command) then Err InvalidTerms
     else
       let previous_version = unwrap_or (LatestVersion s (new_agreement_id command)) 0 in
       and_then (ok_or (u32_checked (previous_version + 1)) VersionOverflow) (\<lambda>version.
       if version > MAX_VERSIONS_PER_CONTRACT then Err VersionLimitExceeded
       else and_then
         (if previous_version > 0
          then and_then (ok_or (ContractVersion s (new_agreement_id command, previous_version)) ContractNotFound) (\<lambda>previous.
            if mentor previous \<noteq> new_mentor command \<or> mentee previous \<noteq> new_mentee command then Err PartiesImmutable
            else Ok ())
          else Ok ()) (\<lambda>_.
         let record = \<lparr>agreement_id = new_agreement_id command, schema_version = new_schema_version command,
               version = version, mentor = new_mentor command, mentee = new_mentee command, fee = new_fee command,
               session_count = new_session_count command, period = new_period command,
               terms_hash = new_terms_hash command, evidence = new_evidence command, status = Published,
               published_at = timestamp env\<rparr>;
             s = s\<lparr>ContractVersion := (ContractVersion s)((new_agreement_id command, version) \<mapsto> record)\<rparr>
         in Ok (version, s\<lparr>LatestVersion := (LatestVersion s)(new_agreement_id command \<mapsto> version)\<rparr>)))))"

definition get_contract_version ::
  "contracts_state \<Rightarrow> hash32 \<Rightarrow> nat option \<Rightarrow> (ContractError, MentorshipContractVersion) outcome" where
  "get_contract_version s a query =
     and_then (case query of Some v \<Rightarrow> Ok v | None \<Rightarrow> ok_or (LatestVersion s a) ContractNotFound) (\<lambda>version.
     ok_or (ContractVersion s (a, version)) VersionNotFound)"

text \<open>The loop of \<open>list_contract_versions\<close>, which returns the versions and where it has stopped.\<close>

function list_loop ::
  "contracts_state \<Rightarrow> hash32 \<Rightarrow> nat \<Rightarrow> nat \<Rightarrow> nat \<Rightarrow> MentorshipContractVersion list \<Rightarrow>
   (ContractError, MentorshipContractVersion list \<times> nat) outcome" where
  "list_loop s a latest limit current vs =
     (if current < latest \<and> length vs < limit
      then and_then (ok_or (u32_checked (current + 1)) VersionOverflow) (\<lambda>current.
           and_then (ok_or (ContractVersion s (a, current)) VersionNotFound) (\<lambda>record.
           list_loop s a latest limit current (vs @ [record])))
      else Ok (vs, current))"
  by pat_completeness auto

termination list_loop
  by (relation "measure (\<lambda>(s, a, latest, limit, current, vs). latest - current)") (auto simp: outcome_iff)

definition list_contract_versions ::
  "contracts_state \<Rightarrow> hash32 \<Rightarrow> nat \<Rightarrow> nat \<Rightarrow> (ContractError, ContractVersionPage) outcome" where
  "list_contract_versions s a after_version limit =
     (if limit = 0 \<or> limit > MAX_PAGE_SIZE then Err InvalidPage
      else and_then (ok_or (LatestVersion s a) ContractNotFound) (\<lambda>latest.
      if after_version > latest then Err InvalidCursor
      else and_then (list_loop s a latest limit after_version []) (\<lambda>(vs, current).
      Ok \<lparr>versions = vs, next_version = if current < latest then Some current else None\<rparr>)))"

definition get_latest_version :: "contracts_state \<Rightarrow> hash32 \<Rightarrow> (ContractError, nat) outcome" where
  "get_latest_version s a = ok_or (LatestVersion s a) ContractNotFound"

section \<open>Helpers of programs\<close>

definition load_program_capacity :: "contracts_state \<Rightarrow> hash32 \<Rightarrow> (ContractError, ProgramCapacity) outcome" where
  "load_program_capacity s p = ok_or (Programs s p) ProgramNotFound"

definition require_organizer ::
  "env \<Rightarrow> address \<Rightarrow> hash32 \<Rightarrow> contracts_state \<Rightarrow> (ContractError, ProgramCapacity) outcome" where
  "require_organizer env a p s =
     and_then (load_program_capacity s p) (\<lambda>program.
     if organizer program \<noteq> a then Err NotProgramOrganizer
     else and_then (require_auth env a) (\<lambda>_. Ok program))"

definition store_program_capacity :: "hash32 \<Rightarrow> ProgramCapacity \<Rightarrow> contracts_state \<Rightarrow> contracts_state" where
  "store_program_capacity p program s = s\<lparr>Programs := (Programs s)(p \<mapsto> program)\<rparr>"

definition store_seat_record :: "hash32 \<Rightarrow> address \<Rightarrow> SeatRecord \<Rightarrow> contracts_state \<Rightarrow> contracts_state" where
  "store_seat_record p a record s = s\<lparr>Seat := (Seat s)((p, a) \<mapsto> record)\<rparr>"

text \<open>The program is passed by reference: it is returned beside the promoted participant.\<close>

definition promote_next_internal ::
  "env \<Rightarrow> hash32 \<Rightarrow> ProgramCapacity \<Rightarrow> contracts_state \<Rightarrow>
   (ContractError, address option \<times> ProgramCapacity \<times> contracts_state) outcome" where
  "promote_next_internal env p program s =
     and_then (ok_or (u32_checked (reserved_seats program + confirmed_seats program)) InvalidCapacity) (\<lambda>committed.
     if committed \<ge> capacity program then Err CapacityFull
     else if waitlist_head program \<ge> waitlist_tail program then Ok (None, program, s)
     else
       let sequence = waitlist_head program in
       and_then (ok_or (WaitlistEntry s (p, sequence)) WaitlistCorrupt) (\<lambda>participant.
       and_then (ok_or (u32_checked (waitlist_head program + 1)) WaitlistCorrupt) (\<lambda>head.
       let program = program\<lparr>waitlist_head := head\<rparr>;
           s = s\<lparr>WaitlistEntry := (WaitlistEntry s)((p, sequence) := None)\<rparr> in
       and_then (ok_or (u64_checked (timestamp env + offer_ttl_seconds program)) InvalidCapacity) (\<lambda>expires_at.
       and_then (ok_or (u32_checked (reserved_seats program + 1)) InvalidCapacity) (\<lambda>reserved.
       let program = program\<lparr>reserved_seats := reserved\<rparr> in
       and_then (ok_or (Seat s (p, participant)) WaitlistCorrupt) (\<lambda>record.
       if state record \<noteq> Waitlisted then Err WaitlistCorrupt
       else Ok (Some participant, program,
         store_seat_record p participant
           \<lparr>state = Offered, requested_at = requested_at record, offer_expires_at = Some expires_at\<rparr> s)))))))"

definition release_offer ::
  "env \<Rightarrow> address \<Rightarrow> hash32 \<Rightarrow> bool \<Rightarrow> contracts_state \<Rightarrow> (ContractError, contracts_state) outcome" where
  "release_offer env a p require_expired s =
     and_then (load_program_capacity s p) (\<lambda>program.
     and_then (ok_or (Seat s (p, a)) OfferNotFound) (\<lambda>record.
     if state record \<noteq> Offered then Err OfferNotFound
     else and_then (ok_or (offer_expires_at record) OfferNotFound) (\<lambda>expires_at.
     let is_expired = timestamp env \<ge> expires_at in
     if require_expired \<and> \<not> is_expired then Err OfferNotExpired
     else if \<not> require_expired \<and> is_expired then Err OfferExpired
     else if reserved_seats program = 0 then Err InvalidCapacity
     else
       let program = program\<lparr>reserved_seats := reserved_seats program - 1\<rparr>;
           s = s\<lparr>Seat := (Seat s)((p, a) := None)\<rparr> in
       and_then
         (if automatic_promotion program
          then and_then (promote_next_internal env p program s) (\<lambda>(_, program, s). Ok (program, s))
          else Ok (program, s)) (\<lambda>(program, s).
       Ok (store_program_capacity p program s)))))"

section \<open>Programs and seats\<close>

definition create_program ::
  "env \<Rightarrow> address \<Rightarrow> hash32 \<Rightarrow> nat \<Rightarrow> nat \<Rightarrow> bool \<Rightarrow> contracts_state \<Rightarrow> (ContractError, contracts_state) outcome" where
  "create_program env a p seats ttl automatic s =
     and_then (require_auth env a) (\<lambda>_.
     if seats = 0 \<or> ttl = 0 then Err InvalidCapacity
     else if Programs s p \<noteq> None then Err ProgramAlreadyExists
     else
       let program = \<lparr>organizer = a, capacity = seats, reserved_seats = 0, confirmed_seats = 0, waitlist_head = 0,
             waitlist_tail = 0, offer_ttl_seconds = ttl, automatic_promotion = automatic\<rparr>
       in Ok (store_program_capacity p program s))"

text \<open>The loop of \<open>configure_program\<close>.\<close>

lemma promote_shrinks:
  assumes "promote_next_internal env p program s = Ok (a, program', s')"
    and "waitlist_head program < waitlist_tail program"
  shows "waitlist_tail program' - waitlist_head program' < waitlist_tail program - waitlist_head program"
  using assms by (auto simp: promote_next_internal_def outcome_iff Let_def split: if_splits)

function promote_loop ::
  "env \<Rightarrow> hash32 \<Rightarrow> ProgramCapacity \<Rightarrow> contracts_state \<Rightarrow> (ContractError, ProgramCapacity \<times> contracts_state) outcome" where
  "promote_loop env p program s =
     (if waitlist_head program < waitlist_tail program
      then and_then (ok_or (u32_checked (reserved_seats program + confirmed_seats program)) InvalidCapacity) (\<lambda>committed.
           if committed < capacity program
           then and_then (promote_next_internal env p program s) (\<lambda>r.
                promote_loop env p (fst (snd r)) (snd (snd r)))
           else Ok (program, s))
      else Ok (program, s))"
  by pat_completeness auto

termination promote_loop
  by (relation "measure (\<lambda>(env, p, program, s). waitlist_tail program - waitlist_head program)")
    (auto dest: promote_shrinks)

definition configure_program ::
  "env \<Rightarrow> address \<Rightarrow> hash32 \<Rightarrow> nat \<Rightarrow> nat \<Rightarrow> bool \<Rightarrow> contracts_state \<Rightarrow> (ContractError, contracts_state) outcome" where
  "configure_program env a p seats ttl automatic s =
     and_then (require_organizer env a p s) (\<lambda>program.
     if seats = 0 \<or> ttl = 0 then Err InvalidCapacity
     else and_then (ok_or (u32_checked (reserved_seats program + confirmed_seats program)) InvalidCapacity) (\<lambda>committed.
     if seats < committed then Err CapacityBelowCommitted
     else
       let program = program\<lparr>capacity := seats, offer_ttl_seconds := ttl, automatic_promotion := automatic\<rparr> in
       and_then (if automatic then promote_loop env p program s else Ok (program, s)) (\<lambda>(program, s).
       Ok (store_program_capacity p program s))))"

definition get_program_capacity :: "contracts_state \<Rightarrow> hash32 \<Rightarrow> (ContractError, ProgramCapacity) outcome" where
  "get_program_capacity s p = ok_or (Programs s p) ProgramNotFound"

definition get_seat_record :: "contracts_state \<Rightarrow> hash32 \<Rightarrow> address \<Rightarrow> SeatRecord option" where
  "get_seat_record s p a = Seat s (p, a)"

text \<open>The loop of \<open>get_waitlist_page\<close>: the next sequence number, the page so far, its last number.\<close>

function waitlist_loop ::
  "contracts_state \<Rightarrow> hash32 \<Rightarrow> nat \<Rightarrow> nat \<Rightarrow> nat \<Rightarrow> address list \<Rightarrow> nat option \<Rightarrow>
   (ContractError, nat \<times> address list \<times> nat option) outcome" where
  "waitlist_loop s p tail limit sequence xs last_sequence =
     (if sequence < tail \<and> length xs < limit
      then and_then (ok_or (WaitlistEntry s (p, sequence)) WaitlistCorrupt) (\<lambda>participant.
           and_then (ok_or (u32_checked (sequence + 1)) InvalidWaitlistCursor) (\<lambda>next.
           waitlist_loop s p tail limit next (xs @ [participant]) (Some sequence)))
      else Ok (sequence, xs, last_sequence))"
  by pat_completeness auto

termination waitlist_loop
  by (relation "measure (\<lambda>(s, p, tail, limit, sequence, xs, last_sequence). tail - sequence)") (auto simp: outcome_iff)

definition get_waitlist_page ::
  "contracts_state \<Rightarrow> hash32 \<Rightarrow> nat option \<Rightarrow> nat \<Rightarrow> (ContractError, WaitlistPage) outcome" where
  "get_waitlist_page s p after_sequence limit =
     (if limit = 0 \<or> limit > MAX_PAGE_SIZE then Err InvalidPage
      else and_then (load_program_capacity s p) (\<lambda>program.
      and_then
        (case after_sequence of
           Some cursor \<Rightarrow>
             if cursor \<ge> waitlist_tail program then Err InvalidWaitlistCursor
             else and_then (ok_or (u32_checked (cursor + 1)) InvalidWaitlistCursor) (\<lambda>next.
               Ok (max next (waitlist_head program)))
         | None \<Rightarrow> Ok (waitlist_head program)) (\<lambda>sequence.
      and_then (waitlist_loop s p (waitlist_tail program) limit sequence [] None) (\<lambda>(sequence, xs, last_sequence).
      Ok \<lparr>participants = xs, next_cursor = if sequence < waitlist_tail program then last_sequence else None\<rparr>))))"

definition request_seat ::
  "env \<Rightarrow> address \<Rightarrow> hash32 \<Rightarrow> contracts_state \<Rightarrow> (ContractError, SeatState \<times> contracts_state) outcome" where
  "request_seat env a p s =
     and_then (require_auth env a) (\<lambda>_.
     and_then (load_program_capacity s p) (\<lambda>program.
     if Seat s (p, a) \<noteq> None then Err SeatAlreadyRequested
     else and_then (ok_or (u32_checked (reserved_seats program + confirmed_seats program)) InvalidCapacity) (\<lambda>committed.
     let has_waitlist = waitlist_head program < waitlist_tail program; now = timestamp env in
     if committed < capacity program \<and> \<not> has_waitlist
     then and_then (ok_or (u64_checked (now + offer_ttl_seconds program)) InvalidCapacity) (\<lambda>expires_at.
       and_then (ok_or (u32_checked (reserved_seats program + 1)) InvalidCapacity) (\<lambda>reserved.
       let program = program\<lparr>reserved_seats := reserved\<rparr>;
           s = store_seat_record p a \<lparr>state = Offered, requested_at = now, offer_expires_at = Some expires_at\<rparr> s
       in Ok (Offered, store_program_capacity p program s)))
     else if waitlist_tail program < waitlist_head program then Err WaitlistCorrupt
     else if waitlist_tail program - waitlist_head program \<ge> MAX_WAITLIST_SIZE then Err WaitlistFull
     else
       let sequence = waitlist_tail program in
       and_then (ok_or (u32_checked (waitlist_tail program + 1)) WaitlistFull) (\<lambda>tail.
       let program = program\<lparr>waitlist_tail := tail\<rparr>;
           s = s\<lparr>WaitlistEntry := (WaitlistEntry s)((p, sequence) \<mapsto> a)\<rparr>;
           s = store_seat_record p a \<lparr>state = Waitlisted, requested_at = now, offer_expires_at = None\<rparr> s
       in Ok (Waitlisted, store_program_capacity p program s)))))"

definition confirm_seat ::
  "env \<Rightarrow> address \<Rightarrow> hash32 \<Rightarrow> contracts_state \<Rightarrow> (ContractError, contracts_state) outcome" where
  "confirm_seat env a p s =
     and_then (require_auth env a) (\<lambda>_.
     and_then (load_program_capacity s p) (\<lambda>program.
     and_then (ok_or (Seat s (p, a)) OfferNotFound) (\<lambda>record.
     if state record \<noteq> Offered then Err OfferNotFound
     else and_then (ok_or (offer_expires_at record) OfferNotFound) (\<lambda>expires_at.
     if timestamp env \<ge> expires_at then Err OfferExpired
     else if reserved_seats program = 0 then Err InvalidCapacity
     else and_then (ok_or (u32_checked (confirmed_seats program + 1)) InvalidCapacity) (\<lambda>confirmed.
     let program = program\<lparr>reserved_seats := reserved_seats program - 1, confirmed_seats := confirmed\<rparr>;
         record = record\<lparr>state := Confirmed, offer_expires_at := None\<rparr>;
         s = store_seat_record p a record s
     in Ok (store_program_capacity p program s))))))"

definition decline_offer ::
  "env \<Rightarrow> address \<Rightarrow> hash32 \<Rightarrow> contracts_state \<Rightarrow> (ContractError, contracts_state) outcome" where
  "decline_offer env a p s = and_then (require_auth env a) (\<lambda>_. release_offer env a p False s)"

definition expire_offer ::
  "env \<Rightarrow> hash32 \<Rightarrow> address \<Rightarrow> contracts_state \<Rightarrow> (ContractError, contracts_state) outcome" where
  "expire_offer env p a s = release_offer env a p True s"

definition release_confirmed_seat ::
  "env \<Rightarrow> address \<Rightarrow> hash32 \<Rightarrow> contracts_state \<Rightarrow> (ContractError, contracts_state) outcome" where
  "release_confirmed_seat env a p s =
     and_then (require_auth env a) (\<lambda>_.
     and_then (load_program_capacity s p) (\<lambda>program.
     and_then (ok_or (Seat s (p, a)) SeatNotConfirmed) (\<lambda>record.
     if state record \<noteq> Confirmed then Err SeatNotConfirmed
     else if confirmed_seats program = 0 then Err InvalidCapacity
     else
       let program = program\<lparr>confirmed_seats := confirmed_seats program - 1\<rparr>;
           s = s\<lparr>Seat := (Seat s)((p, a) := None)\<rparr> in
       and_then
         (if automatic_promotion program
          then and_then (promote_next_internal env p program s) (\<lambda>(_, program, s). Ok (program, s))
          else Ok (program, s)) (\<lambda>(program, s).
       Ok (store_program_capacity p program s)))))"

definition promote_next ::
  "env \<Rightarrow> address \<Rightarrow> hash32 \<Rightarrow> contracts_state \<Rightarrow> (ContractError, address \<times> contracts_state) outcome" where
  "promote_next env a p s =
     and_then (require_organizer env a p s) (\<lambda>program.
     and_then (promote_next_internal env p program s) (\<lambda>(promoted, program, s).
     and_then (ok_or promoted WaitlistEmpty) (\<lambda>promoted.
     Ok (promoted, store_program_capacity p program s))))"

definition contract_version :: nat where
  "contract_version = CONTRACT_VERSION"

declare list_loop.simps [simp del] promote_loop.simps [simp del] waitlist_loop.simps [simp del]

section \<open>Calls and steps\<close>

datatype contracts_call =
    Publish PublishMentorshipCommand | CreateProgram address hash32 nat nat bool
  | ConfigureProgram address hash32 nat nat bool | RequestSeat address hash32 | ConfirmSeat address hash32
  | DeclineOffer address hash32 | ExpireOffer hash32 address | ReleaseConfirmedSeat address hash32
  | PromoteNext address hash32

fun contracts_exec :: "env \<Rightarrow> contracts_call \<Rightarrow> contracts_state \<Rightarrow> (ContractError, contracts_state) outcome" where
  "contracts_exec env (Publish c) s = state_of (publish env c s)"
| "contracts_exec env (CreateProgram a p n t b) s = create_program env a p n t b s"
| "contracts_exec env (ConfigureProgram a p n t b) s = configure_program env a p n t b s"
| "contracts_exec env (RequestSeat a p) s = state_of (request_seat env a p s)"
| "contracts_exec env (ConfirmSeat a p) s = confirm_seat env a p s"
| "contracts_exec env (DeclineOffer a p) s = decline_offer env a p s"
| "contracts_exec env (ExpireOffer p a) s = expire_offer env p a s"
| "contracts_exec env (ReleaseConfirmedSeat a p) s = release_confirmed_seat env a p s"
| "contracts_exec env (PromoteNext a p) s = state_of (promote_next env a p s)"

text \<open>The program that a call is about.\<close>

fun program_of :: "contracts_call \<Rightarrow> hash32 option" where
  "program_of (Publish c) = None"
| "program_of (CreateProgram a p n t b) = Some p"
| "program_of (ConfigureProgram a p n t b) = Some p"
| "program_of (RequestSeat a p) = Some p"
| "program_of (ConfirmSeat a p) = Some p"
| "program_of (DeclineOffer a p) = Some p"
| "program_of (ExpireOffer p a) = Some p"
| "program_of (ReleaseConfirmedSeat a p) = Some p"
| "program_of (PromoteNext a p) = Some p"

text \<open>Arguments of the width that the interface declares.\<close>

fun typed_call :: "contracts_call \<Rightarrow> bool" where
  "typed_call (CreateProgram a p n t b) \<longleftrightarrow> fits_u32 n"
| "typed_call (ConfigureProgram a p n t b) \<longleftrightarrow> fits_u32 n"
| "typed_call _ \<longleftrightarrow> True"

inductive contracts_step :: "contracts_state \<Rightarrow> contracts_state \<Rightarrow> bool" where
  call: "contracts_exec env c s = Ok t \<Longrightarrow> typed_call c \<Longrightarrow> contracts_step s t"

inductive_cases contracts_stepE: "contracts_step s t"

end
