(* ===== verification/Program_Rosters.thy ===== *)
theory Program_Rosters
  imports Mentorship_Contracts
begin

text \<open>
  What a program of the contracts registry promises, as a roster: the offers with their expiry, the members, and
  the queue in its order. The counters, the numbered waitlist entries and the seat records of the contract
  represent such a roster.
\<close>

section \<open>Rosters\<close>

record roster =
  lead :: address
  places :: nat
  offer_time :: nat
  fills :: bool
  offers :: "address \<rightharpoonup> nat"
  members :: "address set"
  queue :: "address list"
  tickets :: nat

definition taken :: "roster \<Rightarrow> nat" where
  "taken R = card (dom (offers R)) + card (members R)"

definition present :: "roster \<Rightarrow> address set" where
  "present R = dom (offers R) \<union> members R \<union> set (queue R)"

definition expiry :: "env \<Rightarrow> roster \<Rightarrow> (ContractError, nat) outcome" where
  "expiry env R = ok_or (u64_checked (timestamp env + offer_time R)) InvalidCapacity"

definition roster_promote :: "env \<Rightarrow> roster \<Rightarrow> (ContractError, address option \<times> roster) outcome" where
  "roster_promote env R =
     (if taken R \<ge> places R then Err CapacityFull
      else case queue R of
        [] \<Rightarrow> Ok (None, R)
      | a # q \<Rightarrow> and_then (expiry env R) (\<lambda>e. Ok (Some a, R\<lparr>offers := (offers R)(a \<mapsto> e), queue := q\<rparr>)))"

definition roster_settle :: "env \<Rightarrow> roster \<Rightarrow> (ContractError, roster) outcome" where
  "roster_settle env R = (if fills R then and_then (roster_promote env R) (\<lambda>(_, R). Ok R) else Ok R)"

text \<open>All free places go to the head of the queue at once.\<close>

definition roster_fill :: "env \<Rightarrow> roster \<Rightarrow> (ContractError, roster) outcome" where
  "roster_fill env R =
     (let n = min (length (queue R)) (places R - taken R)
      in if n = 0 then Ok R
         else and_then (expiry env R) (\<lambda>e.
           Ok (R\<lparr>offers := (\<lambda>a. if a \<in> set (take n (queue R)) then Some e else offers R a), queue := drop n (queue R)\<rparr>)))"

definition roster_configure ::
  "env \<Rightarrow> address \<Rightarrow> nat \<Rightarrow> nat \<Rightarrow> bool \<Rightarrow> roster \<Rightarrow> (ContractError, roster) outcome" where
  "roster_configure env a n t b R =
     (if lead R \<noteq> a then Err NotProgramOrganizer
      else and_then (require_auth env a) (\<lambda>_.
      if n = 0 \<or> t = 0 then Err InvalidCapacity
      else if n < taken R then Err CapacityBelowCommitted
      else
        let R = R\<lparr>places := n, offer_time := t, fills := b\<rparr>
        in if b then roster_fill env R else Ok R))"

definition roster_request :: "env \<Rightarrow> address \<Rightarrow> roster \<Rightarrow> (ContractError, SeatState \<times> roster) outcome" where
  "roster_request env a R =
     and_then (require_auth env a) (\<lambda>_.
     if a \<in> present R then Err SeatAlreadyRequested
     else if taken R < places R \<and> queue R = []
     then and_then (expiry env R) (\<lambda>e. Ok (Offered, R\<lparr>offers := (offers R)(a \<mapsto> e)\<rparr>))
     else if length (queue R) \<ge> MAX_WAITLIST_SIZE \<or> \<not> fits_u32 (tickets R + 1) then Err WaitlistFull
     else Ok (Waitlisted, R\<lparr>queue := queue R @ [a], tickets := tickets R + 1\<rparr>))"

definition roster_confirm :: "env \<Rightarrow> address \<Rightarrow> roster \<Rightarrow> (ContractError, roster) outcome" where
  "roster_confirm env a R =
     and_then (require_auth env a) (\<lambda>_.
     and_then (ok_or (offers R a) OfferNotFound) (\<lambda>e.
     if e \<le> timestamp env then Err OfferExpired
     else Ok (R\<lparr>offers := (offers R)(a := None), members := insert a (members R)\<rparr>)))"

definition roster_release_offer :: "env \<Rightarrow> address \<Rightarrow> bool \<Rightarrow> roster \<Rightarrow> (ContractError, roster) outcome" where
  "roster_release_offer env a expired R =
     and_then (ok_or (offers R a) OfferNotFound) (\<lambda>e.
     if expired \<and> timestamp env < e then Err OfferNotExpired
     else if \<not> expired \<and> e \<le> timestamp env then Err OfferExpired
     else roster_settle env (R\<lparr>offers := (offers R)(a := None)\<rparr>))"

definition roster_leave :: "env \<Rightarrow> address \<Rightarrow> roster \<Rightarrow> (ContractError, roster) outcome" where
  "roster_leave env a R =
     and_then (require_auth env a) (\<lambda>_.
     if a \<notin> members R then Err SeatNotConfirmed
     else roster_settle env (R\<lparr>members := members R - {a}\<rparr>))"

definition roster_promote_next :: "env \<Rightarrow> address \<Rightarrow> roster \<Rightarrow> (ContractError, address \<times> roster) outcome" where
  "roster_promote_next env a R =
     (if lead R \<noteq> a then Err NotProgramOrganizer
      else and_then (require_auth env a) (\<lambda>_.
      and_then (roster_promote env R) (\<lambda>(x, R).
      and_then (ok_or x WaitlistEmpty) (\<lambda>a. Ok (a, R)))))"

text \<open>A call on an existing program; a publication does not touch it.\<close>

fun roster_exec :: "env \<Rightarrow> contracts_call \<Rightarrow> roster \<Rightarrow> (ContractError, roster) outcome" where
  "roster_exec env (ConfigureProgram a p n t b) R = roster_configure env a n t b R"
| "roster_exec env (RequestSeat a p) R = state_of (roster_request env a R)"
| "roster_exec env (ConfirmSeat a p) R = roster_confirm env a R"
| "roster_exec env (DeclineOffer a p) R = and_then (require_auth env a) (\<lambda>_. roster_release_offer env a False R)"
| "roster_exec env (ExpireOffer p a) R = roster_release_offer env a True R"
| "roster_exec env (ReleaseConfirmedSeat a p) R = roster_leave env a R"
| "roster_exec env (PromoteNext a p) R = state_of (roster_promote_next env a R)"
| "roster_exec env (CreateProgram a p n t b) R =
     and_then (require_auth env a) (\<lambda>_. if n = 0 \<or> t = 0 then Err InvalidCapacity else Err ProgramAlreadyExists)"
| "roster_exec env (Publish c) R = Ok R"

section \<open>Representation\<close>

type_synonym seat_map = "address \<rightharpoonup> SeatRecord"
type_synonym entry_map = "nat \<rightharpoonup> address"

definition seats_in :: "seat_map \<Rightarrow> SeatState \<Rightarrow> address set" where
  "seats_in st k = {a. \<exists>r. st a = Some r \<and> state r = k}"

definition offers_of :: "seat_map \<Rightarrow> address \<rightharpoonup> nat" where
  "offers_of st a = Option.bind (st a) offer_expires_at"

definition queue_of :: "ProgramCapacity \<Rightarrow> entry_map \<Rightarrow> address list" where
  "queue_of P en = map (\<lambda>i. the (en i)) [waitlist_head P..<waitlist_tail P]"

definition roster_of :: "ProgramCapacity \<Rightarrow> seat_map \<Rightarrow> entry_map \<Rightarrow> roster" where
  "roster_of P st en = \<lparr>lead = organizer P, places = capacity P, offer_time = offer_ttl_seconds P,
     fills = automatic_promotion P, offers = offers_of st, members = seats_in st Confirmed,
     queue = queue_of P en, tickets = waitlist_tail P\<rparr>"

definition represents :: "ProgramCapacity \<Rightarrow> seat_map \<Rightarrow> entry_map \<Rightarrow> bool" where
  "represents P st en \<longleftrightarrow> finite (dom st) \<and>
     (\<forall>a r. st a = Some r \<longrightarrow> (offer_expires_at r \<noteq> None \<longleftrightarrow> state r = Offered)) \<and>
     reserved_seats P = card (seats_in st Offered) \<and> confirmed_seats P = card (seats_in st Confirmed) \<and>
     reserved_seats P + confirmed_seats P \<le> capacity P \<and> fits_u32 (capacity P) \<and>
     waitlist_head P \<le> waitlist_tail P \<and> fits_u32 (waitlist_tail P) \<and>
     waitlist_tail P - waitlist_head P \<le> MAX_WAITLIST_SIZE \<and>
     dom en = {waitlist_head P..<waitlist_tail P} \<and> distinct (queue_of P en) \<and>
     set (queue_of P en) = seats_in st Waitlisted"

lemma representsD:
  assumes "represents P st en"
  shows "finite (dom st)" "st a = Some r \<Longrightarrow> offer_expires_at r \<noteq> None \<longleftrightarrow> state r = Offered"
    "reserved_seats P = card (seats_in st Offered)" "confirmed_seats P = card (seats_in st Confirmed)"
    "reserved_seats P + confirmed_seats P \<le> capacity P" "fits_u32 (capacity P)"
    "waitlist_head P \<le> waitlist_tail P" "fits_u32 (waitlist_tail P)"
    "waitlist_tail P - waitlist_head P \<le> MAX_WAITLIST_SIZE" "dom en = {waitlist_head P..<waitlist_tail P}"
    "distinct (queue_of P en)" "set (queue_of P en) = seats_in st Waitlisted"
  using assms unfolding represents_def by blast+

lemma roster_of_simps [simp]:
  "lead (roster_of P st en) = organizer P" "places (roster_of P st en) = capacity P"
  "offer_time (roster_of P st en) = offer_ttl_seconds P" "fills (roster_of P st en) = automatic_promotion P"
  "offers (roster_of P st en) = offers_of st" "members (roster_of P st en) = seats_in st Confirmed"
  "queue (roster_of P st en) = queue_of P en" "tickets (roster_of P st en) = waitlist_tail P"
  by (simp_all add: roster_of_def)

lemma seats_in_update [simp]:
  "seats_in (st(a \<mapsto> r)) k = (if state r = k then insert a (seats_in st k) else seats_in st k - {a})"
  "seats_in (st(a := None)) k = seats_in st k - {a}"
  by (auto simp: seats_in_def)

lemma seats_in_finite: "finite (dom st) \<Longrightarrow> finite (seats_in st k)"
  by (rule finite_subset [of _ "dom st"]) (auto simp: seats_in_def)

lemma seats_in_iff: "st a = Some r \<Longrightarrow> a \<in> seats_in st k \<longleftrightarrow> state r = k" "st a = None \<Longrightarrow> a \<notin> seats_in st k"
  by (auto simp: seats_in_def)

lemma offers_of_update [simp]:
  "offers_of (st(a \<mapsto> r)) = (offers_of st)(a := offer_expires_at r)" "offers_of (st(a := None)) = (offers_of st)(a := None)"
  by (auto simp: offers_of_def fun_eq_iff)

lemma dom_offers: "represents P st en \<Longrightarrow> dom (offers_of st) = seats_in st Offered"
proof -
  assume rep: "represents P st en"
  show ?thesis
  proof (rule set_eqI)
    fix a
    show "a \<in> dom (offers_of st) \<longleftrightarrow> a \<in> seats_in st Offered"
      using representsD(2) [OF rep, of a] by (cases "st a") (auto simp: offers_of_def seats_in_def)
  qed
qed

lemma offers_Some:
  "represents P st en \<Longrightarrow> offers_of st a = Some e \<longleftrightarrow> (\<exists>r. st a = Some r \<and> state r = Offered \<and> offer_expires_at r = Some e)"
  using representsD(2) [of P st en a] by (cases "st a") (auto simp: offers_of_def)

lemma taken_represented: "represents P st en \<Longrightarrow> taken (roster_of P st en) = reserved_seats P + confirmed_seats P"
  by (simp add: taken_def dom_offers representsD(3,4))

lemma dom_seats: "dom st = seats_in st Offered \<union> seats_in st Confirmed \<union> seats_in st Waitlisted"
proof -
  have "a \<in> seats_in st Offered \<union> seats_in st Confirmed \<union> seats_in st Waitlisted" if "st a = Some r" for a r
    using that by (cases "state r") (auto simp: seats_in_def)
  then have "dom st \<subseteq> seats_in st Offered \<union> seats_in st Confirmed \<union> seats_in st Waitlisted" by blast
  then show ?thesis by (auto simp: seats_in_def)
qed

lemma present_represented: "represents P st en \<Longrightarrow> present (roster_of P st en) = dom st"
  unfolding dom_seats by (simp add: present_def dom_offers representsD(12))

lemma length_queue: "length (queue_of P en) = waitlist_tail P - waitlist_head P"
  by (simp add: queue_of_def)

lemma queue_empty: "queue_of P en = [] \<longleftrightarrow> waitlist_tail P \<le> waitlist_head P"
  by (auto simp: queue_of_def)

lemma queue_Cons:
  "waitlist_head P < waitlist_tail P \<Longrightarrow>
   queue_of P en = the (en (waitlist_head P)) # queue_of (P\<lparr>waitlist_head := waitlist_head P + 1\<rparr>) en"
  by (simp add: queue_of_def upt_conv_Cons)

lemma queue_cong:
  "waitlist_head P' = waitlist_head P \<Longrightarrow> waitlist_tail P' = waitlist_tail P \<Longrightarrow> queue_of P' en = queue_of P en"
  by (simp add: queue_of_def)

lemma queue_clear: "i < waitlist_head P \<Longrightarrow> queue_of P (en(i := None)) = queue_of P en"
  by (simp add: queue_of_def)

lemma queue_append:
  "waitlist_head P \<le> waitlist_tail P \<Longrightarrow>
   queue_of (P\<lparr>waitlist_tail := waitlist_tail P + 1\<rparr>) (en(waitlist_tail P \<mapsto> a)) = queue_of P en @ [a]"
  by (simp add: queue_of_def)

section \<open>The changes of a roster\<close>

text \<open>A change of the seats that leaves the waitlist alone.\<close>

lemma represents_seat:
  assumes "represents P st en" "finite (dom st')"
    and "\<And>a r. st' a = Some r \<Longrightarrow> offer_expires_at r \<noteq> None \<longleftrightarrow> state r = Offered"
    and "waitlist_head P' = waitlist_head P" "waitlist_tail P' = waitlist_tail P" "fits_u32 (capacity P')"
    and "reserved_seats P' = card (seats_in st' Offered)" "confirmed_seats P' = card (seats_in st' Confirmed)"
    and "reserved_seats P' + confirmed_seats P' \<le> capacity P'" "seats_in st' Waitlisted = seats_in st Waitlisted"
  shows "represents P' st' en"
proof -
  have "queue_of P' en = queue_of P en" using assms(4,5) by (rule queue_cong)
  then show ?thesis using representsD(7-12) [OF assms(1)] assms by (simp add: represents_def)
qed

lemma offer_new:
  assumes "represents P st en" "st a = None" "reserved_seats P + confirmed_seats P < capacity P"
  shows "represents (P\<lparr>reserved_seats := reserved_seats P + 1\<rparr>) (st(a \<mapsto> \<lparr>state = Offered, requested_at = t, offer_expires_at = Some e\<rparr>)) en"
proof (rule represents_seat [OF assms(1)])
  have "a \<notin> seats_in st k" for k using assms(2) by (rule seats_in_iff)
  then show "reserved_seats (P\<lparr>reserved_seats := reserved_seats P + 1\<rparr>) =
      card (seats_in (st(a \<mapsto> \<lparr>state = Offered, requested_at = t, offer_expires_at = Some e\<rparr>)) Offered)"
    "confirmed_seats (P\<lparr>reserved_seats := reserved_seats P + 1\<rparr>) =
      card (seats_in (st(a \<mapsto> \<lparr>state = Offered, requested_at = t, offer_expires_at = Some e\<rparr>)) Confirmed)"
    "seats_in (st(a \<mapsto> \<lparr>state = Offered, requested_at = t, offer_expires_at = Some e\<rparr>)) Waitlisted = seats_in st Waitlisted"
    using representsD [OF assms(1)] by (simp_all add: seats_in_finite)
qed (use representsD [OF assms(1)] assms(3) in \<open>auto split: if_splits\<close>)

lemma seat_confirmed:
  assumes "represents P st en" "st a = Some r" "state r = Offered"
  shows "represents (P\<lparr>reserved_seats := reserved_seats P - 1, confirmed_seats := confirmed_seats P + 1\<rparr>)
    (st(a \<mapsto> r\<lparr>state := Confirmed, offer_expires_at := None\<rparr>)) en" "0 < reserved_seats P"
proof -
  note rep = representsD [OF assms(1)]
  have in_iff: "a \<in> seats_in st k \<longleftrightarrow> k = Offered" for k using seats_in_iff(1) [of st a r k] assms(2,3) by auto
  show pos: "0 < reserved_seats P" using rep(1,3) in_iff seats_in_finite by (auto simp: card_gt_0_iff)
  show "represents (P\<lparr>reserved_seats := reserved_seats P - 1, confirmed_seats := confirmed_seats P + 1\<rparr>)
    (st(a \<mapsto> r\<lparr>state := Confirmed, offer_expires_at := None\<rparr>)) en"
    by (rule represents_seat [OF assms(1)])
      (use rep in_iff pos in \<open>auto simp: seats_in_finite split: if_splits\<close>)
qed

lemma offer_dropped:
  assumes "represents P st en" "st a = Some r" "state r = Offered"
  shows "represents (P\<lparr>reserved_seats := reserved_seats P - 1\<rparr>) (st(a := None)) en"
proof -
  note rep = representsD [OF assms(1)]
  have in_iff: "a \<in> seats_in st k \<longleftrightarrow> k = Offered" for k using seats_in_iff(1) [of st a r k] assms(2,3) by auto
  show ?thesis
    by (rule represents_seat [OF assms(1)]) (use rep in_iff in \<open>auto simp: seats_in_finite split: if_splits\<close>)
qed

lemma member_left:
  assumes "represents P st en" "st a = Some r" "state r = Confirmed"
  shows "represents (P\<lparr>confirmed_seats := confirmed_seats P - 1\<rparr>) (st(a := None)) en" "0 < confirmed_seats P"
proof -
  note rep = representsD [OF assms(1)]
  have in_iff: "a \<in> seats_in st k \<longleftrightarrow> k = Confirmed" for k using seats_in_iff(1) [of st a r k] assms(2,3) by auto
  show "0 < confirmed_seats P" using rep(1,4) in_iff seats_in_finite by (auto simp: card_gt_0_iff)
  show "represents (P\<lparr>confirmed_seats := confirmed_seats P - 1\<rparr>) (st(a := None)) en"
    by (rule represents_seat [OF assms(1)]) (use rep in_iff in \<open>auto simp: seats_in_finite split: if_splits\<close>)
qed

lemma waitlisted_new:
  assumes "represents P st en" "st a = None" "waitlist_tail P - waitlist_head P < MAX_WAITLIST_SIZE" "fits_u32 (waitlist_tail P + 1)"
  shows "represents (P\<lparr>waitlist_tail := waitlist_tail P + 1\<rparr>)
    (st(a \<mapsto> \<lparr>state = Waitlisted, requested_at = t, offer_expires_at = None\<rparr>)) (en(waitlist_tail P \<mapsto> a))"
proof -
  note rep = representsD [OF assms(1)]
  have fresh: "a \<notin> seats_in st k" for k using assms(2) by (rule seats_in_iff)
  have "distinct (queue_of P en @ [a])" "set (queue_of P en @ [a]) = insert a (seats_in st Waitlisted)"
    using rep(11,12) fresh by simp_all
  then show ?thesis
    using rep assms fresh queue_append [OF rep(7)] by (auto simp: represents_def split: if_splits)
qed

lemma head_waitlisted:
  assumes "represents P st en" "waitlist_head P < waitlist_tail P"
  obtains a r where "en (waitlist_head P) = Some a" "st a = Some r" "state r = Waitlisted"
    "queue_of P en = a # queue_of (P\<lparr>waitlist_head := waitlist_head P + 1\<rparr>) en"
proof -
  have "waitlist_head P \<in> dom en" using assms by (simp add: representsD(10))
  then obtain a where a: "en (waitlist_head P) = Some a" by auto
  then have queue: "queue_of P en = a # queue_of (P\<lparr>waitlist_head := waitlist_head P + 1\<rparr>) en"
    using queue_Cons [OF assms(2), of en] by simp
  then have "a \<in> seats_in st Waitlisted" using representsD(12) [OF assms(1)] by (metis list.set_intros(1))
  with a queue that show thesis by (auto simp: seats_in_def)
qed

lemma head_promoted:
  assumes "represents P st en" "waitlist_head P < waitlist_tail P" "reserved_seats P + confirmed_seats P < capacity P"
    and "en (waitlist_head P) = Some a" "st a = Some r" "state r = Waitlisted"
  shows "represents (P\<lparr>waitlist_head := waitlist_head P + 1, reserved_seats := reserved_seats P + 1\<rparr>)
      (st(a \<mapsto> \<lparr>state = Offered, requested_at = t, offer_expires_at = Some e\<rparr>)) (en(waitlist_head P := None))"
    "queue_of (P\<lparr>waitlist_head := waitlist_head P + 1, reserved_seats := reserved_seats P + 1\<rparr>) (en(waitlist_head P := None)) =
      tl (queue_of P en)"
proof -
  note rep = representsD [OF assms(1)]
  let ?P = "P\<lparr>waitlist_head := waitlist_head P + 1, reserved_seats := reserved_seats P + 1\<rparr>"
  have queue: "queue_of P en = a # queue_of (P\<lparr>waitlist_head := waitlist_head P + 1\<rparr>) en"
    using queue_Cons [OF assms(2), of en] assms(4) by simp
  have "queue_of ?P (en(waitlist_head P := None)) = queue_of ?P en" by (rule queue_clear) simp
  also have "\<dots> = queue_of (P\<lparr>waitlist_head := waitlist_head P + 1\<rparr>) en" by (rule queue_cong) simp_all
  finally show tl: "queue_of ?P (en(waitlist_head P := None)) = tl (queue_of P en)" using queue by simp
  have in_iff: "a \<in> seats_in st k \<longleftrightarrow> k = Waitlisted" for k using seats_in_iff(1) [of st a r k] assms(5,6) by auto
  have "distinct (queue_of ?P (en(waitlist_head P := None)))"
    "set (queue_of ?P (en(waitlist_head P := None))) = seats_in st Waitlisted - {a}"
    unfolding tl using rep(11,12) by (cases "queue_of P en"; use queue in auto)+
  moreover have "dom (en(waitlist_head P := None)) = {waitlist_head P + 1..<waitlist_tail P}"
    using rep(10) by auto
  ultimately show "represents ?P (st(a \<mapsto> \<lparr>state = Offered, requested_at = t, offer_expires_at = Some e\<rparr>)) (en(waitlist_head P := None))"
    using rep assms in_iff by (auto simp: represents_def seats_in_finite split: if_splits)
qed

section \<open>Programs of a state\<close>

definition seats :: "contracts_state \<Rightarrow> hash32 \<Rightarrow> seat_map" where
  "seats s p a = Seat s (p, a)"

definition entries :: "contracts_state \<Rightarrow> hash32 \<Rightarrow> entry_map" where
  "entries s p i = WaitlistEntry s (p, i)"

definition roster :: "contracts_state \<Rightarrow> hash32 \<Rightarrow> ProgramCapacity \<Rightarrow> roster" where
  "roster s p P = roster_of P (seats s p) (entries s p)"

lemma roster_simps [simp]:
  "lead (roster s p P) = organizer P" "places (roster s p P) = capacity P"
  "offer_time (roster s p P) = offer_ttl_seconds P" "fills (roster s p P) = automatic_promotion P"
  "offers (roster s p P) = offers_of (seats s p)" "members (roster s p P) = seats_in (seats s p) Confirmed"
  "queue (roster s p P) = queue_of P (entries s p)" "tickets (roster s p P) = waitlist_tail P"
  by (simp_all add: roster_def)

text \<open>What a call on a program leaves alone, the record of the program aside.\<close>

definition untouched :: "hash32 \<Rightarrow> contracts_state \<Rightarrow> contracts_state \<Rightarrow> bool" where
  "untouched p s t \<longleftrightarrow> LatestVersion t = LatestVersion s \<and> ContractVersion t = ContractVersion s \<and>
     (\<forall>q. q \<noteq> p \<longrightarrow> Programs t q = Programs s q \<and> seats t q = seats s q \<and> entries t q = entries s q)"

lemma untouched_refl [simp]: "untouched p s s"
  by (simp add: untouched_def)

lemma untouched_trans: "untouched p s t \<Longrightarrow> untouched p t u \<Longrightarrow> untouched p s u"
  by (simp add: untouched_def)

lemma view_simps [simp]:
  "seats (store_seat_record p a r s) p = (seats s p)(a \<mapsto> r)"
  "seats (s\<lparr>Seat := (Seat s)((p, a) := None)\<rparr>) p = (seats s p)(a := None)"
  "seats (s\<lparr>WaitlistEntry := w\<rparr>) q = seats s q"
  "seats (store_program_capacity p P s) q = seats s q"
  "entries (store_seat_record p a r s) q = entries s q"
  "entries (s\<lparr>Seat := m\<rparr>) q = entries s q"
  "entries (s\<lparr>WaitlistEntry := (WaitlistEntry s)((p, i) := x)\<rparr>) p = (entries s p)(i := x)"
  "entries (store_program_capacity p P s) q = entries s q"
  "Programs (store_program_capacity p P s) = (Programs s)(p \<mapsto> P)"
  "Programs (store_seat_record p a r s) = Programs s"
  by (auto simp: seats_def entries_def store_seat_record_def store_program_capacity_def fun_eq_iff)

lemma untouched_simps [simp]:
  "untouched p s (store_seat_record p a r t) \<longleftrightarrow> untouched p s t"
  "untouched p s (store_program_capacity p P t) \<longleftrightarrow> untouched p s t"
  "untouched p s (t\<lparr>Seat := (Seat t)((p, a) := x)\<rparr>) \<longleftrightarrow> untouched p s t"
  "untouched p s (t\<lparr>WaitlistEntry := (WaitlistEntry t)((p, i) := y)\<rparr>) \<longleftrightarrow> untouched p s t"
  by (auto simp: untouched_def seats_def entries_def store_seat_record_def store_program_capacity_def fun_eq_iff)

section \<open>Equal outcomes\<close>

text \<open>Two computations that fail alike, or succeed with related results.\<close>

lemma and_then_rel:
  assumes "rel_outcome (=) Q m n" "\<And>x y. m = Ok x \<Longrightarrow> Q x y \<Longrightarrow> rel_outcome (=) Q' (f x) (g y)"
  shows "rel_outcome (=) Q' (and_then m f) (and_then n g)"
  using assms by (cases m; cases n) auto

lemma and_then_rel_eq:
  "(\<And>x. m = Ok x \<Longrightarrow> rel_outcome (=) Q (f x) (g x)) \<Longrightarrow> rel_outcome (=) Q (and_then m f) (and_then m g)"
  by (cases m) auto

lemma state_of_rel:
  "rel_outcome (=) (\<lambda>(x, s) (y, t). x = y \<and> Q s t) m n \<Longrightarrow> rel_outcome (=) Q (state_of m) (state_of n)"
  by (cases m; cases n) (auto simp: state_of_def)

text \<open>The program and the state that a call has reached, and the roster they stand for.\<close>

definition stands_for :: "hash32 \<Rightarrow> contracts_state \<Rightarrow> ProgramCapacity \<times> contracts_state \<Rightarrow> roster \<Rightarrow> bool" where
  "stands_for p s = (\<lambda>(P, t) R. represents P (seats t p) (entries t p) \<and> R = roster t p P \<and> untouched p s t)"

lemma checked_fits:
  "fits_u32 n \<Longrightarrow> ok_or (u32_checked n) e = Ok n" "\<not> fits_u32 n \<Longrightarrow> ok_or (u32_checked n) e = Err e"
  by (simp_all add: u32_checked_def ok_or_def)

lemma fits_smaller: "fits_u32 n \<Longrightarrow> m \<le> n \<Longrightarrow> fits_u32 m"
  by (simp add: fits_u32_def)

lemma promote_refines:
  assumes "represents P (seats t p) (entries t p)" "untouched p s t"
  shows "rel_outcome (=) (\<lambda>(x, P', t') (y, R). x = y \<and> stands_for p s (P', t') R)
    (promote_next_internal env p P t) (roster_promote env (roster t p P))"
proof -
  note rep = representsD [OF assms(1)]
  have fits: "fits_u32 (reserved_seats P + confirmed_seats P)" using rep(5,6) by (auto intro: fits_smaller)
  note start = checked_fits(1) [OF fits] and sum = taken_represented [OF assms(1)]
  consider (full) "capacity P \<le> reserved_seats P + confirmed_seats P"
    | (none) "reserved_seats P + confirmed_seats P < capacity P" "waitlist_tail P \<le> waitlist_head P"
    | (head) "reserved_seats P + confirmed_seats P < capacity P" "waitlist_head P < waitlist_tail P" by linarith
  then show ?thesis
  proof cases
    case full
    then show ?thesis using sum by (simp add: start promote_next_internal_def roster_promote_def roster_def)
  next
    case none
    then have "queue_of P (entries t p) = []" by (simp add: queue_empty)
    with none sum assms show ?thesis
      by (simp add: start promote_next_internal_def roster_promote_def roster_def stands_for_def)
  next
    case head
    obtain a r where a: "entries t p (waitlist_head P) = Some a" "seats t p a = Some r" "state r = Waitlisted"
      "queue_of P (entries t p) = a # queue_of (P\<lparr>waitlist_head := waitlist_head P + 1\<rparr>) (entries t p)"
      using head_waitlisted [OF assms(1) head(2)] by metis
    have bounds: "fits_u32 (waitlist_head P + 1)" "fits_u32 (reserved_seats P + 1)"
      using rep(5,6,8) head by (auto intro: fits_smaller)
    have refl: "rel_outcome (=) (=) m m" for m :: "(ContractError, nat) outcome" by (cases m) simp_all
    have other: "a \<notin> seats_in (seats t p) Confirmed" using a(2,3) by (simp add: seats_in_iff)
    note promoted = head_promoted [OF assms(1) head(2,1) a(1-3)]
    show ?thesis
      using head sum assms(2) a promoted other
      by (auto simp: start promote_next_internal_def roster_promote_def roster_def stands_for_def expiry_def Let_def
          checked_fits(1) [OF bounds(1)] checked_fits(1) [OF bounds(2)]
          entries_def [of t p "waitlist_head P", symmetric] seats_def [of _ p a, symmetric] roster_of_def
          simp del: One_nat_def intro!: and_then_rel [OF refl])
  qed
qed

end
