(* ===== verification/Program_Seats.thy ===== *)
theory Program_Seats
  imports Program_Rosters
begin

text \<open>
  Every call on a program of the contracts registry has exactly the outcome that its roster has, errors included.
\<close>

lemma rel_same: "rel_outcome (=) (=) m m"
  by (cases m) simp_all

lemmas checked_exact = checked_fits(1) checked_fits(2)

lemma seat_at: "Seat s (p, a) = seats s p a"
  by (simp add: seats_def)

section \<open>Promotions\<close>

lemma settle_refines:
  assumes "represents P (seats t p) (entries t p)" "untouched p s t"
  shows "rel_outcome (=) (stands_for p s)
    (if automatic_promotion P then and_then (promote_next_internal env p P t) (\<lambda>(_, P, s). Ok (P, s)) else Ok (P, t))
    (roster_settle env (roster t p P))"
proof (cases "automatic_promotion P")
  case True
  then show ?thesis
    by (auto simp: roster_settle_def roster_def intro!: and_then_rel [OF promote_refines [OF assms, unfolded roster_def]])
next
  case False
  then show ?thesis using assms by (simp add: roster_settle_def roster_def stands_for_def)
qed

lemma fill_step:
  assumes "taken R < places R" "queue R = a # q" "expiry env R = Ok e" "a \<notin> dom (offers R)" "finite (dom (offers R))"
  shows "roster_fill env R = roster_fill env (R\<lparr>offers := (offers R)(a \<mapsto> e), queue := q\<rparr>)"
proof -
  let ?R = "R\<lparr>offers := (offers R)(a \<mapsto> e), queue := q\<rparr>"
  have taken: "taken ?R = taken R + 1" using assms(4,5) by (simp add: taken_def)
  define n where "n = min (length q) (places R - taken R - 1)"
  have size: "min (length (queue R)) (places R - taken R) = n + 1" "min (length (queue ?R)) (places ?R - taken ?R) = n"
    using assms(1,2) by (simp_all add: n_def taken)
  have again: "expiry env ?R = Ok e" using assms(3) by (simp add: expiry_def)
  have offers: "(\<lambda>x. if x = a \<or> x \<in> set (take n q) then Some e else offers R x) =
      (\<lambda>x. if x \<in> set (take n q) then Some e else ((offers R)(a \<mapsto> e)) x)" by auto
  have "roster_fill env R = Ok (R\<lparr>offers := (\<lambda>x. if x = a \<or> x \<in> set (take n q) then Some e else offers R x), queue := drop n q\<rparr>)"
    using size(1) assms(2,3) by (simp add: roster_fill_def)
  also have "\<dots> = roster_fill env ?R"
    unfolding offers roster_fill_def size(2) Let_def again by (cases n) (auto simp: fun_eq_iff cong: if_cong)
  finally show ?thesis .
qed

lemma fill_blocked: "taken R < places R \<Longrightarrow> queue R = a # q \<Longrightarrow> expiry env R = Err x \<Longrightarrow> roster_fill env R = Err x"
  by (simp add: roster_fill_def Let_def)

lemma fill_done: "places R \<le> taken R \<or> queue R = [] \<Longrightarrow> roster_fill env R = Ok R"
  by (auto simp: roster_fill_def Let_def)

lemma fill_refines:
  "represents P (seats t p) (entries t p) \<Longrightarrow> untouched p s t \<Longrightarrow>
   rel_outcome (=) (stands_for p s) (promote_loop env p P t) (roster_fill env (roster t p P))"
proof (induction env p P t rule: promote_loop.induct)
  case (1 env p P t)
  note rep = representsD [OF "1.prems"(1)]
  have fits: "fits_u32 (reserved_seats P + confirmed_seats P)" using rep(5,6) by (auto intro: fits_smaller)
  note start = checked_fits(1) [OF fits] and sum = taken_represented [OF "1.prems"(1)]
  let ?R = "roster t p P"
  show ?case
  proof (cases "waitlist_head P < waitlist_tail P \<and> reserved_seats P + confirmed_seats P < capacity P")
    case False
    then have "promote_loop env p P t = Ok (P, t)" by (subst promote_loop.simps) (simp add: start)
    moreover have "roster_fill env ?R = Ok ?R"
      using False sum by (intro fill_done) (auto simp: roster_def queue_empty)
    ultimately show ?thesis using "1.prems" by (simp add: stands_for_def)
  next
    case True
    then have loop: "promote_loop env p P t =
        and_then (promote_next_internal env p P t) (\<lambda>r. promote_loop env p (fst (snd r)) (snd (snd r)))"
      by (subst promote_loop.simps) (simp add: start)
    obtain a r where a: "seats t p a = Some r" "state r = Waitlisted" "queue ?R = a # queue_of (P\<lparr>waitlist_head := waitlist_head P + 1\<rparr>) (entries t p)"
      using head_waitlisted [OF "1.prems"(1), of thesis] True by (auto simp: roster_def)
    have free: "taken ?R < places ?R" using True sum by (simp add: roster_def)
    have "a \<notin> dom (offers ?R)" "finite (dom (offers ?R))"
      using a rep(1) by (auto simp: roster_def dom_offers [OF "1.prems"(1)] seats_in_iff seats_in_finite)
    note step = fill_step [OF free a(3) _ this]
    show ?thesis
    proof (cases "expiry env ?R")
      case (Ok e)
      let ?R' = "?R\<lparr>offers := (offers ?R)(a \<mapsto> e), queue := queue_of (P\<lparr>waitlist_head := waitlist_head P + 1\<rparr>) (entries t p)\<rparr>"
      have "roster_promote env ?R = Ok (Some a, ?R')" using free a(3) Ok by (simp add: roster_promote_def)
      then obtain P' t' where promoted: "promote_next_internal env p P t = Ok (Some a, P', t')" "stands_for p s (P', t') ?R'"
        using promote_refines [OF "1.prems", of env] by (cases "promote_next_internal env p P t") auto
      then have "rel_outcome (=) (stands_for p s) (promote_loop env p P' t') (roster_fill env (roster t' p P'))"
        using "1.IH" [of "reserved_seats P + confirmed_seats P" "(Some a, P', t')"] True start [of InvalidCapacity] by (auto simp: stands_for_def)
      moreover have "roster t' p P' = ?R'" using promoted(2) by (simp add: stands_for_def)
      ultimately show ?thesis using step [OF Ok] by (simp add: loop promoted(1))
    next
      case (Err x)
      have "roster_promote env ?R = Err x" using free a(3) Err by (simp add: roster_promote_def)
      then have "promote_next_internal env p P t = Err x"
        using promote_refines [OF "1.prems", of env] by (cases "promote_next_internal env p P t") auto
      moreover have "roster_fill env ?R = Err x" by (rule fill_blocked [OF free a(3) Err])
      ultimately show ?thesis by (simp add: loop)
    next
      case Panic
      then show ?thesis by (simp add: expiry_def u64_checked_def ok_or_def split: if_splits)
    qed
  qed
qed

section \<open>Calls\<close>

text \<open>The state after a call, and the roster it carries.\<close>

definition carries :: "hash32 \<Rightarrow> contracts_state \<Rightarrow> contracts_state \<Rightarrow> roster \<Rightarrow> bool" where
  "carries p s t R \<longleftrightarrow>
     (\<exists>P. Programs t p = Some P \<and> represents P (seats t p) (entries t p) \<and> R = roster t p P) \<and> untouched p s t"

lemma roster_store [simp]: "roster (store_program_capacity p P t) q Q = roster t q Q"
  by (simp add: roster_def)

lemma carries_stored: "stands_for p s (P, t) R \<Longrightarrow> carries p s (store_program_capacity p P t) R"
  by (auto simp: carries_def stands_for_def)

lemma store_rel:
  "rel_outcome (=) (stands_for p s) m n \<Longrightarrow>
   rel_outcome (=) (carries p s) (and_then m (\<lambda>(P, t). Ok (store_program_capacity p P t))) n"
  by (cases m; cases n) (auto dest: carries_stored)

definition at_program :: "contracts_state \<Rightarrow> hash32 \<Rightarrow> ProgramCapacity \<Rightarrow> bool" where
  "at_program s p P \<longleftrightarrow> Programs s p = Some P \<and> represents P (seats s p) (entries s p)"

lemma at_programD:
  assumes "at_program s p P"
  shows "Programs s p = Some P" "represents P (seats s p) (entries s p)" "load_program_capacity s p = Ok P"
    "ok_or (u32_checked (reserved_seats P + confirmed_seats P)) e = Ok (reserved_seats P + confirmed_seats P)"
    "taken (roster s p P) = reserved_seats P + confirmed_seats P"
    "present (roster s p P) = dom (seats s p)"
proof -
  show rep: "represents P (seats s p) (entries s p)" and "Programs s p = Some P" using assms by (simp_all add: at_program_def)
  then show "load_program_capacity s p = Ok P" by (simp add: load_program_capacity_def)
  have "fits_u32 (reserved_seats P + confirmed_seats P)" using representsD(5,6) [OF rep] by (auto intro: fits_smaller)
  then show "ok_or (u32_checked (reserved_seats P + confirmed_seats P)) e = Ok (reserved_seats P + confirmed_seats P)"
    by (rule checked_fits)
qed (use assms in \<open>simp_all add: at_program_def roster_def taken_represented present_represented\<close>)

lemma carries_offered:
  assumes "at_program s p P" "seats s p a = None" "reserved_seats P + confirmed_seats P < capacity P"
  shows "carries p s (store_program_capacity p (P\<lparr>reserved_seats := reserved_seats P + 1\<rparr>)
      (store_seat_record p a \<lparr>state = Offered, requested_at = n, offer_expires_at = Some e\<rparr> s))
    ((roster s p P)\<lparr>offers := (offers (roster s p P))(a \<mapsto> e)\<rparr>)"
proof (rule carries_stored)
  note new = offer_new [OF at_programD(2) [OF assms(1)] assms(2,3)]
  have "a \<notin> seats_in (seats s p) Confirmed" using assms(2) by (rule seats_in_iff)
  with new show "stands_for p s (P\<lparr>reserved_seats := reserved_seats P + 1\<rparr>,
      store_seat_record p a \<lparr>state = Offered, requested_at = n, offer_expires_at = Some e\<rparr> s)
    ((roster s p P)\<lparr>offers := (offers (roster s p P))(a \<mapsto> e)\<rparr>)"
    by (simp add: stands_for_def roster_def roster_of_def queue_of_def)
qed

lemma carries_queued:
  assumes "at_program s p P" "seats s p a = None" "waitlist_tail P - waitlist_head P < MAX_WAITLIST_SIZE"
    and "fits_u32 (waitlist_tail P + 1)"
  shows "carries p s (store_program_capacity p (P\<lparr>waitlist_tail := waitlist_tail P + 1\<rparr>)
      (store_seat_record p a \<lparr>state = Waitlisted, requested_at = n, offer_expires_at = None\<rparr>
        (s\<lparr>WaitlistEntry := (WaitlistEntry s)((p, waitlist_tail P) \<mapsto> a)\<rparr>)))
    ((roster s p P)\<lparr>queue := queue (roster s p P) @ [a], tickets := tickets (roster s p P) + 1\<rparr>)"
proof (rule carries_stored)
  note rep = at_programD(2) [OF assms(1)]
  note new = waitlisted_new [OF rep assms(2-4)]
  have "a \<notin> seats_in (seats s p) Confirmed" "offers_of (seats s p) a = None"
    using assms(2) by (simp_all add: seats_in_iff offers_of_def)
  moreover note queue_append [OF representsD(7) [OF rep], of "entries s p" a]
  ultimately show "stands_for p s (P\<lparr>waitlist_tail := waitlist_tail P + 1\<rparr>,
      store_seat_record p a \<lparr>state = Waitlisted, requested_at = n, offer_expires_at = None\<rparr>
        (s\<lparr>WaitlistEntry := (WaitlistEntry s)((p, waitlist_tail P) \<mapsto> a)\<rparr>))
    ((roster s p P)\<lparr>queue := queue (roster s p P) @ [a], tickets := tickets (roster s p P) + 1\<rparr>)"
    using new by (simp add: stands_for_def roster_def roster_of_def fun_upd_idem)
qed

lemma request_refines:
  assumes "at_program s p P"
  shows "rel_outcome (=) (\<lambda>(x, t) (y, R). x = y \<and> carries p s t R) (request_seat env a p s) (roster_request env a (roster s p P))"
proof (cases "auth env a \<and> seats s p a = None")
  case False
  then show ?thesis
    by (auto simp: request_seat_def roster_request_def at_programD [OF assms] seat_at require_auth_def)
next
  case True
  note rep = representsD [OF at_programD(2) [OF assms]]
  have absent: "a \<notin> dom (seats s p)" using True by auto
  consider (offer) "reserved_seats P + confirmed_seats P < capacity P" "waitlist_tail P \<le> waitlist_head P"
    | (full) "\<not> (reserved_seats P + confirmed_seats P < capacity P \<and> waitlist_tail P \<le> waitlist_head P)"
      "waitlist_tail P - waitlist_head P \<ge> MAX_WAITLIST_SIZE"
    | (last) "\<not> (reserved_seats P + confirmed_seats P < capacity P \<and> waitlist_tail P \<le> waitlist_head P)"
      "waitlist_tail P - waitlist_head P < MAX_WAITLIST_SIZE" "\<not> fits_u32 (waitlist_tail P + 1)"
    | (wait) "\<not> (reserved_seats P + confirmed_seats P < capacity P \<and> waitlist_tail P \<le> waitlist_head P)"
      "waitlist_tail P - waitlist_head P < MAX_WAITLIST_SIZE" "fits_u32 (waitlist_tail P + 1)"
    by linarith
  then show ?thesis
  proof cases
    case offer
    have "fits_u32 (reserved_seats P + 1)" using offer rep(6) by (auto intro: fits_smaller)
    note bound = checked_fits(1) [OF this]
    have "queue (roster s p P) = []" using offer by (simp add: queue_empty)
    with offer True absent show ?thesis
      by (auto simp: request_seat_def roster_request_def at_programD [OF assms] seat_at bound expiry_def Let_def
          simp del: One_nat_def intro!: and_then_rel [OF rel_same] carries_offered [OF assms, simplified])
  next
    case full
    with True absent rep(7) show ?thesis
      by (auto simp: request_seat_def roster_request_def at_programD [OF assms] seat_at queue_empty length_queue Let_def)
  next
    case last
    with True absent rep(7) show ?thesis
      by (auto simp: request_seat_def roster_request_def at_programD [OF assms] seat_at queue_empty length_queue Let_def
          checked_fits(2) [OF last(3)] simp del: One_nat_def)
  next
    case wait
    with True absent rep(7) show ?thesis
      by (auto simp: request_seat_def roster_request_def at_programD [OF assms] seat_at queue_empty length_queue Let_def
          checked_fits(1) [OF wait(3)] simp del: One_nat_def intro!: carries_queued [OF assms, simplified])
  qed
qed

lemma offer_lookup:
  assumes "at_program s p P"
  obtains (none) "offers_of (seats s p) a = None" "\<And>r. seats s p a = Some r \<Longrightarrow> state r \<noteq> Offered"
  | (offered) r e where "seats s p a = Some r" "state r = Offered" "offer_expires_at r = Some e" "offers_of (seats s p) a = Some e"
      "a \<notin> seats_in (seats s p) Confirmed"
proof (cases "offers_of (seats s p) a")
  case None
  then show thesis using at_programD(2) [OF assms] by (intro none) (auto simp: offers_of_def dest: representsD(2))
next
  case (Some e)
  with offers_Some [OF at_programD(2) [OF assms]] show thesis by (auto simp: seats_in_iff intro: offered)
qed

lemma confirm_refines:
  assumes "at_program s p P"
  shows "rel_outcome (=) (carries p s) (confirm_seat env a p s) (roster_confirm env a (roster s p P))"
proof (cases "auth env a")
  case False
  then show ?thesis by (simp add: confirm_seat_def roster_confirm_def)
next
  case True
  from assms show ?thesis
  proof (cases rule: offer_lookup [where a = a])
    case none
    with True show ?thesis
      by (cases "seats s p a") (auto simp: confirm_seat_def roster_confirm_def at_programD [OF assms] seat_at)
  next
    case (offered r e)
    note rep = representsD [OF at_programD(2) [OF assms]]
    note new = seat_confirmed [OF at_programD(2) [OF assms] offered(1,2)]
    have "fits_u32 (confirmed_seats P + 1)" using rep(5,6) new(2) by (auto intro: fits_smaller)
    note bound = checked_fits(1) [OF this]
    have "stands_for p s (P\<lparr>reserved_seats := reserved_seats P - 1, confirmed_seats := confirmed_seats P + 1\<rparr>,
        store_seat_record p a (r\<lparr>state := Confirmed, offer_expires_at := None\<rparr>) s)
      ((roster s p P)\<lparr>offers := (offers_of (seats s p))(a := None), members := insert a (seats_in (seats s p) Confirmed)\<rparr>)"
      using new by (simp add: stands_for_def roster_def roster_of_def queue_of_def)
    from carries_stored [OF this] True offered new(2) show ?thesis
      by (auto simp: confirm_seat_def roster_confirm_def at_programD [OF assms] seat_at bound Let_def simp del: One_nat_def)
  qed
qed

lemma stands_dropped:
  assumes "at_program s p P" "seats s p a = Some r" "state r = Offered"
  shows "represents (P\<lparr>reserved_seats := reserved_seats P - 1\<rparr>) (seats (s\<lparr>Seat := (Seat s)((p, a) := None)\<rparr>) p)
      (entries (s\<lparr>Seat := (Seat s)((p, a) := None)\<rparr>) p)"
    "roster (s\<lparr>Seat := (Seat s)((p, a) := None)\<rparr>) p (P\<lparr>reserved_seats := reserved_seats P - 1\<rparr>) =
      (roster s p P)\<lparr>offers := (offers_of (seats s p))(a := None)\<rparr>"
  using offer_dropped [OF at_programD(2) [OF assms(1)] assms(2,3)] assms(2,3)
  by (simp_all add: roster_def roster_of_def queue_of_def seats_in_iff)

lemma stands_left:
  assumes "at_program s p P" "seats s p a = Some r" "state r = Confirmed"
  shows "represents (P\<lparr>confirmed_seats := confirmed_seats P - 1\<rparr>) (seats (s\<lparr>Seat := (Seat s)((p, a) := None)\<rparr>) p)
      (entries (s\<lparr>Seat := (Seat s)((p, a) := None)\<rparr>) p)"
    "roster (s\<lparr>Seat := (Seat s)((p, a) := None)\<rparr>) p (P\<lparr>confirmed_seats := confirmed_seats P - 1\<rparr>) =
      (roster s p P)\<lparr>members := seats_in (seats s p) Confirmed - {a}\<rparr>"
proof -
  note rep = at_programD(2) [OF assms(1)]
  have "offers_of (seats s p) a = None" using assms(2,3) representsD(2) [OF rep assms(2)] by (simp add: offers_of_def)
  then show "roster (s\<lparr>Seat := (Seat s)((p, a) := None)\<rparr>) p (P\<lparr>confirmed_seats := confirmed_seats P - 1\<rparr>) =
      (roster s p P)\<lparr>members := seats_in (seats s p) Confirmed - {a}\<rparr>"
    by (simp add: roster_def roster_of_def queue_of_def fun_upd_idem)
qed (use member_left [OF at_programD(2) [OF assms(1)] assms(2,3)] in simp)

lemma release_offer_refines:
  assumes "at_program s p P"
  shows "rel_outcome (=) (carries p s) (release_offer env a p expired s) (roster_release_offer env a expired (roster s p P))"
  using assms
proof (cases rule: offer_lookup [where a = a])
  case none
  then show ?thesis
    by (cases "seats s p a") (auto simp: release_offer_def roster_release_offer_def at_programD [OF assms] seat_at)
next
  case (offered r e)
  note rep = at_programD(2) [OF assms]
  have kept: "untouched p s (s\<lparr>Seat := (Seat s)((p, a) := None)\<rparr>)" by simp
  have "0 < reserved_seats P" by (rule seat_confirmed(2) [OF rep offered(1,2)])
  moreover note store_rel [OF settle_refines [OF stands_dropped(1) [OF assms offered(1,2)] kept, of env], unfolded stands_dropped(2) [OF assms offered(1,2)]]
  ultimately show ?thesis using offered
    by (cases "automatic_promotion P") (auto simp: release_offer_def roster_release_offer_def at_programD [OF assms] seat_at Let_def)
qed

lemma leave_refines:
  assumes "at_program s p P"
  shows "rel_outcome (=) (carries p s) (release_confirmed_seat env a p s) (roster_leave env a (roster s p P))"
proof (cases "auth env a \<and> (\<exists>r. seats s p a = Some r \<and> state r = Confirmed)")
  case False
  then show ?thesis
    by (cases "seats s p a")
      (auto simp: release_confirmed_seat_def roster_leave_def at_programD [OF assms] seat_at require_auth_def seats_in_iff)
next
  case True
  then obtain r where r: "auth env a" "seats s p a = Some r" "state r = Confirmed" by auto
  note rep = at_programD(2) [OF assms]
  have kept: "untouched p s (s\<lparr>Seat := (Seat s)((p, a) := None)\<rparr>)" by simp
  have "0 < confirmed_seats P" by (rule member_left(2) [OF rep r(2,3)])
  moreover note store_rel [OF settle_refines [OF stands_left(1) [OF assms r(2,3)] kept, of env], unfolded stands_left(2) [OF assms r(2,3)]]
  ultimately show ?thesis using r
    by (cases "automatic_promotion P") (simp_all add: release_confirmed_seat_def roster_leave_def at_programD [OF assms] seat_at Let_def seats_in_iff)
qed

lemma promote_next_refines:
  assumes "at_program s p P"
  shows "rel_outcome (=) (\<lambda>(x, t) (y, R). x = y \<and> carries p s t R) (promote_next env a p s) (roster_promote_next env a (roster s p P))"
proof (cases "organizer P = a \<and> auth env a")
  case False
  then show ?thesis
    by (auto simp: promote_next_def roster_promote_next_def require_organizer_def at_programD [OF assms] require_auth_def)
next
  case True
  then show ?thesis
    by (auto simp: promote_next_def roster_promote_next_def require_organizer_def at_programD [OF assms] carries_stored
        intro!: and_then_rel [OF promote_refines [OF at_programD(2) [OF assms] untouched_refl]] and_then_rel [OF rel_same])
qed

lemma configure_refines:
  assumes "at_program s p P" "fits_u32 n"
  shows "rel_outcome (=) (carries p s) (configure_program env a p n t b s) (roster_configure env a n t b (roster s p P))"
proof (cases "organizer P = a \<and> auth env a \<and> n \<noteq> 0 \<and> t \<noteq> 0 \<and> reserved_seats P + confirmed_seats P \<le> n")
  case False
  then show ?thesis
    by (auto simp: configure_program_def roster_configure_def require_organizer_def at_programD [OF assms(1)] require_auth_def)
next
  case True
  let ?P = "P\<lparr>capacity := n, offer_ttl_seconds := t, automatic_promotion := b\<rparr>"
  have rep: "represents ?P (seats s p) (entries s p)"
    by (rule represents_seat [OF at_programD(2) [OF assms(1)]])
      (use representsD [OF at_programD(2) [OF assms(1)]] True assms(2) in auto)
  have roster: "roster s p ?P = (roster s p P)\<lparr>places := n, offer_time := t, fills := b\<rparr>"
    by (simp add: roster_def roster_of_def queue_of_def)
  have "rel_outcome (=) (stands_for p s) (if b then promote_loop env p ?P s else Ok (?P, s))
      (if b then roster_fill env (roster s p ?P) else Ok (roster s p ?P))"
    using fill_refines [OF rep untouched_refl, of env] rep by (auto simp: stands_for_def)
  from store_rel [OF this, unfolded roster] True show ?thesis
    by (cases b) (auto simp: configure_program_def roster_configure_def require_organizer_def at_programD [OF assms(1)] Let_def)
qed

lemma seats_exec_refines:
  assumes "at_program s p P" "program_of c = Some p" "typed_call c"
  shows "rel_outcome (=) (carries p s) (contracts_exec env c s) (roster_exec env c (roster s p P))"
proof (cases c)
  case (CreateProgram a q n t b)
  then show ?thesis using assms(2) at_programD(1) [OF assms(1)]
    by (auto simp: create_program_def require_auth_def)
qed (use assms in \<open>auto simp: configure_refines confirm_refines release_offer_refines leave_refines decline_offer_def
    expire_offer_def intro!: state_of_rel request_refines promote_next_refines and_then_rel_eq\<close>)

end
