(* ===== verification/Program_Invariants.thy ===== *)
theory Program_Invariants
  imports Program_Seats
begin

text \<open>
  The invariant of the programs of the contracts registry: the stored data of every program represent a roster, and
  a program that promotes automatically has no idle place.
\<close>

section \<open>Rosters\<close>

definition sound_roster :: "roster \<Rightarrow> bool" where
  "sound_roster R \<longleftrightarrow> finite (dom (offers R)) \<and> finite (members R) \<and> distinct (queue R) \<and> dom (offers R) \<inter> members R = {} \<and>
     set (queue R) \<inter> dom (offers R) = {} \<and> set (queue R) \<inter> members R = {} \<and> taken R \<le> places R \<and>
     length (queue R) \<le> MAX_WAITLIST_SIZE"

definition settled :: "roster \<Rightarrow> bool" where
  "settled R \<longleftrightarrow> (fills R \<longrightarrow> queue R = [] \<or> taken R = places R)"

lemma sound_represented: "represents P st en \<Longrightarrow> sound_roster (roster_of P st en)"
proof -
  assume rep: "represents P st en"
  have "seats_in st j \<inter> seats_in st k = {}" if "j \<noteq> k" for j k using that by (auto simp: seats_in_def)
  then show ?thesis
    using representsD [OF rep] taken_represented [OF rep]
    by (simp add: sound_roster_def dom_offers [OF rep] seats_in_finite length_queue)
qed

lemma sound_at: "at_program s p P \<Longrightarrow> sound_roster (roster s p P)"
  by (simp add: at_program_def roster_def sound_represented)

text \<open>
  How one call changes a roster: the first \<open>n\<close> of the queue get an offer and nobody else does unless the queue is
  empty, at most one participant joins, and nobody loses a seat or an offer that has not expired without having
  authorised it.
\<close>

definition advances :: "env \<Rightarrow> roster \<Rightarrow> roster \<Rightarrow> bool" where
  "advances env R R' \<longleftrightarrow> lead R' = lead R \<and>
     (\<exists>n xs. queue R' = drop n (queue R) @ xs \<and> length xs \<le> 1 \<and> (\<forall>a\<in>set xs. auth env a \<and> a \<notin> present R) \<and>
       (\<forall>a\<in>set (take n (queue R)). offers R' a = Some (timestamp env + offer_time R')) \<and>
       (\<forall>a\<in>dom (offers R') - dom (offers R). a \<in> set (take n (queue R)) \<or> auth env a \<and> queue R = [])) \<and>
     (\<forall>a e. offers R a = Some e \<longrightarrow> timestamp env < e \<longrightarrow> offers R' a = Some e \<or> auth env a) \<and>
     (\<forall>a\<in>members R' - members R. auth env a \<and> (\<exists>e. offers R a = Some e \<and> timestamp env < e)) \<and>
     (\<forall>a\<in>members R - members R'. auth env a)"

lemma expiry_Ok [outcome_iff]: "expiry env R = Ok e \<longleftrightarrow> e = timestamp env + offer_time R \<and> fits_u64 e"
  by (auto simp: expiry_def outcome_iff)

text \<open>A promotion is the case of one place.\<close>

lemma settle_cases:
  assumes "roster_settle env R = Ok R'"
  obtains (same) "R' = R" "fills R \<Longrightarrow> queue R = []"
  | (promoted) a q where "queue R = a # q" "taken R < places R"
      "R' = R\<lparr>offers := (offers R)(a \<mapsto> timestamp env + offer_time R), queue := q\<rparr>"
proof (cases "fills R \<and> queue R \<noteq> []")
  case True
  then obtain a q where "queue R = a # q" by (cases "queue R") auto
  with True assms show thesis
    by (intro promoted [of a q]) (auto simp: roster_settle_def roster_promote_def and_then_Ok expiry_Ok split: if_splits)
next
  case False
  with assms show thesis
    by (intro same) (auto simp: roster_settle_def roster_promote_def and_then_Ok split: if_splits)
qed

lemma taken_offered: "a \<notin> dom (offers R) \<Longrightarrow> finite (dom (offers R)) \<Longrightarrow> taken (R\<lparr>offers := (offers R)(a \<mapsto> e), queue := q\<rparr>) = taken R + 1"
  by (simp add: taken_def)

text \<open>Dropping one offer or one member, and settling.\<close>

lemma settle_settled:
  assumes "roster_settle env R = Ok R'" "finite (dom (offers R))" "set (queue R) \<inter> dom (offers R) = {}"
    and "fills R \<Longrightarrow> queue R = [] \<or> places R \<le> taken R + 1"
  shows "settled R'"
  using assms(1)
proof (cases rule: settle_cases)
  case same
  then show ?thesis by (auto simp: settled_def)
next
  case (promoted a q)
  then have "taken R' = taken R + 1" using assms(2,3) taken_offered [of a R] by auto
  with promoted assms(4) show ?thesis by (auto simp: settled_def)
qed

lemma taken_dropped:
  assumes "sound_roster R" "settled R"
  shows "offers R a = Some e \<Longrightarrow> fills R \<Longrightarrow> queue R = [] \<or> places R \<le> taken (R\<lparr>offers := (offers R)(a := None)\<rparr>) + 1"
    "a \<in> members R \<Longrightarrow> fills R \<Longrightarrow> queue R = [] \<or> places R \<le> taken (R\<lparr>members := members R - {a}\<rparr>) + 1"
  using assms by (auto simp: sound_roster_def settled_def taken_def card_Diff_singleton_if domI)

lemma fill_cases:
  assumes "roster_fill env R = Ok R'" "sound_roster R"
  obtains n where "n = min (length (queue R)) (places R - taken R)" "taken R' = taken R + n"
    "R' = R\<lparr>offers := (\<lambda>a. if a \<in> set (take n (queue R)) then Some (timestamp env + offer_time R) else offers R a),
       queue := drop n (queue R)\<rparr>"
proof -
  let ?n = "min (length (queue R)) (places R - taken R)"
  let ?R = "R\<lparr>offers := (\<lambda>a. if a \<in> set (take ?n (queue R)) then Some (timestamp env + offer_time R) else offers R a),
       queue := drop ?n (queue R)\<rparr>"
  have eq: "R' = ?R" using assms(1) by (auto simp: roster_fill_def Let_def outcome_iff split: if_splits)
  have "dom (offers ?R) = dom (offers R) \<union> set (take ?n (queue R))" by auto
  moreover have "dom (offers R) \<inter> set (take ?n (queue R)) = {}"
    using assms(2) set_take_subset [of ?n "queue R"] by (auto simp: sound_roster_def)
  moreover have "card (set (take ?n (queue R))) = ?n"
    using assms(2) by (simp add: sound_roster_def distinct_card)
  ultimately have "taken ?R = taken R + ?n" using assms(2) by (simp add: taken_def sound_roster_def card_Un_disjoint)
  with eq that [OF refl] show thesis by simp
qed

section \<open>Moves\<close>

inductive roster_move :: "env \<Rightarrow> roster \<Rightarrow> roster \<Rightarrow> bool" for env :: env where
  offered: "roster_move env R (R\<lparr>offers := (offers R)(a \<mapsto> timestamp env + offer_time R)\<rparr>)"
    if "auth env a" "a \<notin> present R" "queue R = []" "taken R < places R"
| joined: "roster_move env R (R\<lparr>queue := queue R @ [a], tickets := tickets R + 1\<rparr>)"
    if "auth env a" "a \<notin> present R" "queue R = [] \<Longrightarrow> places R \<le> taken R"
| confirmed: "roster_move env R (R\<lparr>offers := (offers R)(a := None), members := insert a (members R)\<rparr>)"
    if "auth env a" "offers R a = Some e" "timestamp env < e"
| dropped: "roster_move env R R'"
    if "offers R a = Some e" "e \<le> timestamp env \<or> auth env a" "roster_settle env (R\<lparr>offers := (offers R)(a := None)\<rparr>) = Ok R'"
| left: "roster_move env R R'"
    if "auth env a" "a \<in> members R" "roster_settle env (R\<lparr>members := members R - {a}\<rparr>) = Ok R'"
| promoted: "roster_move env R (R\<lparr>offers := (offers R)(a \<mapsto> timestamp env + offer_time R), queue := q\<rparr>)"
    if "auth env (lead R)" "queue R = a # q" "taken R < places R"
| configured: "roster_move env R (R\<lparr>places := n, offer_time := t, fills := False\<rparr>)"
    if "auth env (lead R)" "taken R \<le> n"
| filled: "roster_move env R R'"
    if "auth env (lead R)" "taken R \<le> n" "roster_fill env (R\<lparr>places := n, offer_time := t, fills := True\<rparr>) = Ok R'"

lemma roster_exec_moves:
  assumes "roster_exec env c R = Ok R'" "program_of c = Some p"
  shows "roster_move env R R'"
proof (cases c)
  case (ConfigureProgram a q n t b)
  with assms show ?thesis
    by (cases b) (auto simp: roster_configure_def and_then_Ok require_auth_Ok Let_def not_less split: if_splits
        intro: configured filled [where n = n and t = t])
next
  case (RequestSeat a q)
  with assms show ?thesis
    by (auto simp: roster_request_def and_then_Ok require_auth_Ok state_of_Ok expiry_Ok split: if_splits intro: offered joined [simplified])
next
  case (ConfirmSeat a q)
  with assms show ?thesis
    by (auto simp: roster_confirm_def and_then_Ok require_auth_Ok ok_or_Ok split: if_splits intro: confirmed)
next
  case (DeclineOffer a q)
  with assms show ?thesis
    by (auto simp: roster_release_offer_def and_then_Ok require_auth_Ok ok_or_Ok split: if_splits intro: dropped)
next
  case (ExpireOffer q a)
  with assms show ?thesis
    by (auto simp: roster_release_offer_def and_then_Ok require_auth_Ok ok_or_Ok split: if_splits intro: dropped)
next
  case (ReleaseConfirmedSeat a q)
  with assms show ?thesis
    by (auto simp: roster_leave_def and_then_Ok require_auth_Ok split: if_splits intro: left)
next
  case (PromoteNext a q)
  with assms show ?thesis
    by (auto simp: roster_promote_next_def roster_promote_def and_then_Ok require_auth_Ok state_of_Ok expiry_Ok ok_or_Ok
        split: if_splits list.splits intro: promoted)
qed (use assms in \<open>auto simp: and_then_Ok split: if_splits\<close>)

lemma moves_settled:
  assumes "roster_move env R R'" "sound_roster R" "settled R"
  shows "settled R'"
  using assms(1)
proof cases
  case (confirmed a e)
  have "a \<in> dom (offers R)" using confirmed(3) by auto
  then have "0 < card (dom (offers R))" "a \<notin> members R" using assms(2) by (auto simp: sound_roster_def card_gt_0_iff)
  then have "taken R' = taken R" using confirmed(1,3) assms(2) by (auto simp: taken_def sound_roster_def card_Diff_singleton_if)
  with confirmed(1) assms(3) show ?thesis by (simp add: settled_def)
next
  case (dropped a e)
  show ?thesis
    by (rule settle_settled [OF dropped(3)])
      (use assms(2) taken_dropped(1) [OF assms(2,3) dropped(1)] in \<open>auto simp: sound_roster_def\<close>)
next
  case (left a)
  show ?thesis
    by (rule settle_settled [OF left(3)])
      (use assms(2) taken_dropped(2) [OF assms(2,3) left(2)] in \<open>auto simp: sound_roster_def\<close>)
next
  case (filled n t)
  let ?R = "R\<lparr>places := n, offer_time := t, fills := True\<rparr>"
  have "sound_roster ?R" using assms(2) filled(2) by (simp add: sound_roster_def taken_def)
  with filled(3) obtain k where "k = min (length (queue ?R)) (places ?R - taken ?R)" "taken R' = taken ?R + k"
    "queue R' = drop k (queue ?R)" "places R' = places ?R"
    by (rule fill_cases) simp
  with filled(2) show ?thesis by (auto simp: settled_def taken_def)
qed (use assms(2,3) in \<open>auto simp: settled_def sound_roster_def taken_def card_insert_if card_Diff_singleton_if domI\<close>)

lemma advances_here:
  assumes "lead R' = lead R" "queue R' = drop n (queue R) @ xs" "length xs \<le> 1" "\<forall>a\<in>set xs. auth env a \<and> a \<notin> present R"
    and "\<forall>a\<in>set (take n (queue R)). offers R' a = Some (timestamp env + offer_time R')"
    and "\<forall>a\<in>dom (offers R') - dom (offers R). a \<in> set (take n (queue R)) \<or> auth env a \<and> queue R = []"
    and "\<forall>a e. offers R a = Some e \<longrightarrow> timestamp env < e \<longrightarrow> offers R' a = Some e \<or> auth env a"
    and "\<forall>a\<in>members R' - members R. auth env a \<and> (\<exists>e. offers R a = Some e \<and> timestamp env < e)"
    and "\<forall>a\<in>members R - members R'. auth env a"
  shows "advances env R R'"
  unfolding advances_def using assms by blast

lemma moves_advance:
  assumes "roster_move env R R'" "sound_roster R"
  shows "advances env R R'"
  using assms(1)
proof cases
  case (offered a)
  then show ?thesis by (intro advances_here [where n = 0 and xs = "[]"]) (auto simp: present_def)
next
  case (joined a)
  then show ?thesis by (intro advances_here [where n = 0 and xs = "[a]"]) auto
next
  case (confirmed a e)
  then show ?thesis by (intro advances_here [where n = 0 and xs = "[]"]) auto
next
  case (dropped a e)
  from dropped(3) show ?thesis
  proof (cases rule: settle_cases)
    case same
    with dropped show ?thesis by (intro advances_here [where n = 0 and xs = "[]"]) auto
  next
    case (promoted b q)
    have "b \<notin> dom (offers R)" using promoted(1) assms(2) by (auto simp: sound_roster_def)
    with promoted dropped show ?thesis by (intro advances_here [where n = 1 and xs = "[]"]) auto
  qed
next
  case (left a)
  from left(3) show ?thesis
  proof (cases rule: settle_cases)
    case same
    with left show ?thesis by (intro advances_here [where n = 0 and xs = "[]"]) auto
  next
    case (promoted b q)
    have "b \<notin> dom (offers R)" using promoted(1) assms(2) by (auto simp: sound_roster_def)
    with promoted left show ?thesis by (intro advances_here [where n = 1 and xs = "[]"]) auto
  qed
next
  case (promoted b q)
  have "b \<notin> dom (offers R)" using promoted(3) assms(2) by (auto simp: sound_roster_def)
  with promoted show ?thesis by (intro advances_here [where n = 1 and xs = "[]"]) auto
next
  case (configured n t)
  then show ?thesis by (intro advances_here [where n = 0 and xs = "[]"]) auto
next
  case (filled n t)
  let ?R = "R\<lparr>places := n, offer_time := t, fills := True\<rparr>"
  have "sound_roster ?R" using assms(2) filled(2) by (simp add: sound_roster_def taken_def)
  with filled(3) obtain k where k: "R' = ?R\<lparr>offers := (\<lambda>a. if a \<in> set (take k (queue ?R)) then Some (timestamp env + offer_time ?R)
      else offers ?R a), queue := drop k (queue ?R)\<rparr>"
    by (rule fill_cases)
  have "set (take k (queue R)) \<inter> dom (offers R) = {}" using assms(2) set_take_subset [of k "queue R"] by (auto simp: sound_roster_def)
  with k show ?thesis by (intro advances_here [where n = k and xs = "[]"]) (auto simp: domIff)
qed

end
