(* ===== verification/Program_Waitlist.thy ===== *)
theory Program_Waitlist
  imports Program_Invariants
begin

text \<open>
  Reachable states of the contracts registry: every call on a program does what its roster says, and places go to
  the waitlist in its order.
\<close>

section \<open>Calls on programs\<close>

definition programs_wf :: "contracts_state \<Rightarrow> bool" where
  "programs_wf s \<longleftrightarrow> (\<forall>p. Programs s p = None \<longrightarrow> seats s p = Map.empty \<and> entries s p = Map.empty) \<and>
     (\<forall>p P. Programs s p = Some P \<longrightarrow> at_program s p P \<and> settled (roster s p P))"

lemma programs_wfD:
  assumes "programs_wf s"
  shows "Programs s p = None \<Longrightarrow> seats s p = Map.empty" "Programs s p = None \<Longrightarrow> entries s p = Map.empty"
    "Programs s p = Some P \<Longrightarrow> at_program s p P" "Programs s p = Some P \<Longrightarrow> settled (roster s p P)"
  using assms unfolding programs_wf_def by blast+

definition new_program :: "address \<Rightarrow> nat \<Rightarrow> nat \<Rightarrow> bool \<Rightarrow> ProgramCapacity" where
  "new_program a n t b = \<lparr>organizer = a, capacity = n, reserved_seats = 0, confirmed_seats = 0, waitlist_head = 0,
     waitlist_tail = 0, offer_ttl_seconds = t, automatic_promotion = b\<rparr>"

lemma create_program_Ok:
  "create_program env a p n t b s = Ok s' \<longleftrightarrow> auth env a \<and> 0 < n \<and> 0 < t \<and> Programs s p = None \<and>
     s' = store_program_capacity p (new_program a n t b) s"
  by (auto simp: create_program_def new_program_def and_then_Ok require_auth_Ok)

lemma missing_program:
  assumes "contracts_exec env c s = Ok t" "program_of c = Some p" "Programs s p = None"
  obtains a n ttl b where "c = CreateProgram a p n ttl b"
proof (cases c)
  case (CreateProgram a q n ttl b)
  with assms(2) that show thesis by simp
qed (use assms in \<open>auto simp: configure_program_def request_seat_def confirm_seat_def release_offer_def decline_offer_def
    expire_offer_def release_confirmed_seat_def promote_next_def require_organizer_def load_program_capacity_def
    state_of_Ok and_then_Ok require_auth_Ok\<close>)

lemma publish_programs:
  "publish env c s = Ok (v, t) \<Longrightarrow> Programs t = Programs s \<and> Seat t = Seat s \<and> WaitlistEntry t = WaitlistEntry s"
  by (auto simp: publish_def and_then_Ok Let_def split: if_splits)

lemma call_cases:
  assumes "contracts_exec env c s = Ok t" "typed_call c" "programs_wf s"
  obtains (published) v command where "c = Publish command" "publish env command s = Ok (v, t)"
  | (created) a p n ttl b where "Programs s p = None" "0 < n" "0 < ttl" "fits_u32 n" "auth env a" "c = CreateProgram a p n ttl b"
      "t = store_program_capacity p (new_program a n ttl b) s"
  | (changed) p P P' where "program_of c = Some p" "at_program s p P" "settled (roster s p P)" "at_program t p P'"
      "untouched p s t" "roster_exec env c (roster s p P) = Ok (roster t p P')"
proof (cases "program_of c")
  case None
  then obtain command where "c = Publish command" by (cases c) auto
  with assms(1) published show thesis by (auto simp: state_of_Ok)
next
  case (Some p)
  show thesis
  proof (cases "Programs s p")
    case None
    with assms(1) Some obtain a n ttl b where "c = CreateProgram a p n ttl b" using missing_program by metis
    with assms(1,2) None created [of p n ttl a b] show thesis by (auto simp: create_program_Ok)
  next
    case (Some P)
    note at = programs_wfD(3) [OF assms(3) Some]
    from seats_exec_refines [OF at \<open>program_of c = Some p\<close> assms(2), of env] assms(1)
    obtain R where R: "roster_exec env c (roster s p P) = Ok R" "carries p s t R"
      by (cases "roster_exec env c (roster s p P)") auto
    then obtain P' where "at_program t p P'" "R = roster t p P'" "untouched p s t" by (auto simp: carries_def at_program_def)
    with R changed [OF \<open>program_of c = Some p\<close> at programs_wfD(4) [OF assms(3) Some]] show thesis by simp
  qed
qed

lemma programs_init_wf: "programs_wf contracts_init"
  by (auto simp: programs_wf_def contracts_init_def seats_def entries_def)

lemma new_program_at:
  assumes "programs_wf s" "Programs s p = None" "fits_u32 n"
  shows "at_program (store_program_capacity p (new_program a n ttl b) s) p (new_program a n ttl b)"
    "settled (roster (store_program_capacity p (new_program a n ttl b) s) p (new_program a n ttl b))"
  using assms(3) programs_wfD(1,2) [OF assms(1,2)]
  by (simp_all add: at_program_def represents_def new_program_def queue_of_def seats_in_def settled_def roster_def
      fits_u32_def)

lemma programs_step_wf:
  assumes "contracts_exec env c s = Ok t" "typed_call c" "programs_wf s"
  shows "programs_wf t"
  using assms
proof (cases rule: call_cases)
  case (published v command)
  then have "Programs t = Programs s" "seats t = seats s" "entries t = entries s"
    using publish_programs by (auto simp: seats_def entries_def fun_eq_iff)
  with assms(3) show ?thesis by (simp add: programs_wf_def at_program_def roster_def)
next
  case (created a p n ttl b)
  with assms(3) show ?thesis
    using new_program_at [OF assms(3) created(1) created(4), of a ttl b] programs_wfD [OF assms(3)]
    by (auto simp: programs_wf_def at_program_def)
next
  case (changed p P P')
  have "roster_move env (roster s p P) (roster t p P')" by (rule roster_exec_moves [OF changed(6,1)])
  then have "settled (roster t p P')" using sound_at [OF changed(2)] changed(3) by (rule moves_settled)
  with changed have here: "Programs t p = Some P'" "at_program t p P' \<and> settled (roster t p P')" by (simp_all add: at_program_def)
  have "at_program t q Q \<and> settled (roster t q Q)" if "Programs t q = Some Q" for q Q
  proof (cases "q = p")
    case True
    with here that show ?thesis by simp
  next
    case False
    with changed(5) have "Programs t q = Programs s q" "seats t q = seats s q" "entries t q = entries s q"
      by (simp_all add: untouched_def)
    then have "at_program t q Q = at_program s q Q" "roster t q Q = roster s q Q" "Programs s q = Some Q"
      using that by (simp_all add: at_program_def roster_def)
    then show ?thesis using programs_wfD(3,4) [OF assms(3)] by metis
  qed
  moreover have "seats t q = Map.empty \<and> entries t q = Map.empty" if "Programs t q = None" for q
    using that here(1) changed(5) programs_wfD(1,2) [OF assms(3), of q] by (cases "q = p") (auto simp: untouched_def)
  ultimately show ?thesis by (auto simp: programs_wf_def)
qed

section \<open>Order\<close>

text \<open>What becomes of a program: its organizer stays, and the waitlist is served from its head.\<close>

definition queue_advances :: "address list \<Rightarrow> address list \<Rightarrow> bool" where
  "queue_advances q q' \<longleftrightarrow> (\<exists>n xs. q' = drop n q @ xs)"

definition programs_evolve :: "contracts_state \<Rightarrow> contracts_state \<Rightarrow> bool" where
  "programs_evolve s t \<longleftrightarrow> (\<forall>p P. Programs s p = Some P \<longrightarrow>
     (\<exists>P'. Programs t p = Some P' \<and> organizer P' = organizer P \<and>
       queue_advances (queue (roster s p P)) (queue (roster t p P'))))"

lemma queue_advances_refl: "queue_advances q q"
proof -
  have "q = drop 0 q @ []" by simp
  then show ?thesis unfolding queue_advances_def by blast
qed

lemma queue_advances_trans:
  assumes "queue_advances q q'" "queue_advances q' q''"
  shows "queue_advances q q''"
proof -
  from assms obtain n xs m ys where "q' = drop n q @ xs" "q'' = drop m q' @ ys" by (auto simp: queue_advances_def)
  then have "q'' = drop (m + n) q @ (drop (m - length (drop n q)) xs @ ys)" by simp
  then show ?thesis unfolding queue_advances_def by blast
qed

lemma programs_evolve_refl: "programs_evolve s s"
  by (simp add: programs_evolve_def queue_advances_refl)

lemma programs_evolve_trans: "programs_evolve s t \<Longrightarrow> programs_evolve t u \<Longrightarrow> programs_evolve s u"
proof -
  assume st: "programs_evolve s t" and tu: "programs_evolve t u"
  show ?thesis unfolding programs_evolve_def
  proof (intro allI impI)
    fix p P
    assume "Programs s p = Some P"
    with st obtain P' where P': "Programs t p = Some P'" "organizer P' = organizer P"
      "queue_advances (queue (roster s p P)) (queue (roster t p P'))" unfolding programs_evolve_def by blast
    with tu obtain P'' where "Programs u p = Some P''" "organizer P'' = organizer P'"
      "queue_advances (queue (roster t p P')) (queue (roster u p P''))" unfolding programs_evolve_def by blast
    with P' queue_advances_trans show "\<exists>P'. Programs u p = Some P' \<and> organizer P' = organizer P \<and>
        queue_advances (queue (roster s p P)) (queue (roster u p P'))" by metis
  qed
qed

lemma changed_advances:
  assumes "at_program s p P" "roster_exec env c (roster s p P) = Ok (roster t p P')" "program_of c = Some p"
  shows "advances env (roster s p P) (roster t p P')"
  using moves_advance [OF roster_exec_moves [OF assms(2,3)] sound_at [OF assms(1)]] .

lemma advances_queue: "advances env R R' \<Longrightarrow> lead R' = lead R \<and> queue_advances (queue R) (queue R')"
  by (auto simp: advances_def queue_advances_def)

lemma programs_step_evolve:
  assumes "contracts_exec env c s = Ok t" "typed_call c" "programs_wf s"
  shows "programs_evolve s t"
  using assms
proof (cases rule: call_cases)
  case (published v command)
  then have "Programs t = Programs s" "entries t = entries s"
    using publish_programs by (auto simp: entries_def fun_eq_iff)
  then show ?thesis by (simp add: programs_evolve_def queue_advances_refl)
next
  case (created a p n ttl b)
  then show ?thesis by (simp add: programs_evolve_def queue_advances_refl)
next
  case (changed p P P')
  from changed_advances [OF changed(2,6,1)] have adv: "organizer P' = organizer P"
    "queue_advances (queue (roster s p P)) (queue (roster t p P'))" by (auto dest: advances_queue)
  show ?thesis unfolding programs_evolve_def
  proof (intro allI impI)
    fix q Q
    assume Q: "Programs s q = Some Q"
    show "\<exists>Q'. Programs t q = Some Q' \<and> organizer Q' = organizer Q \<and> queue_advances (queue (roster s q Q)) (queue (roster t q Q'))"
    proof (cases "q = p")
      case True
      with Q changed(2,4) adv show ?thesis by (auto simp: at_program_def)
    next
      case False
      with changed(5) Q show ?thesis by (simp add: untouched_def queue_advances_refl)
    qed
  qed
qed

end
