(* ===== verification/Contract_Versions.thy ===== *)
theory Contract_Versions
  imports Program_Waitlist
begin

text \<open>
  The published versions of an agreement form a history that is only ever extended by both of its parties, and the
  pages of the listings are slices of it.
\<close>

section \<open>Histories\<close>

definition latest :: "contracts_state \<Rightarrow> hash32 \<Rightarrow> nat" where
  "latest s a = unwrap_or (LatestVersion s a) 0"

definition history :: "contracts_state \<Rightarrow> hash32 \<Rightarrow> MentorshipContractVersion list" where
  "history s a = map (\<lambda>v. the (ContractVersion s (a, v))) [1..<latest s a + 1]"

definition version_ok :: "hash32 \<Rightarrow> nat \<Rightarrow> MentorshipContractVersion \<Rightarrow> bool" where
  "version_ok a v r \<longleftrightarrow> agreement_id r = a \<and> version r = v \<and> schema_version r = SUPPORTED_SCHEMA_VERSION \<and>
     mentor r \<noteq> mentee r \<and> 0 < amount (fee r) \<and> 0 < session_count r \<and> starts_at (period r) < ends_at (period r)"

definition versions_ok :: "contracts_state \<Rightarrow> hash32 \<Rightarrow> bool" where
  "versions_ok s a \<longleftrightarrow> LatestVersion s a \<noteq> Some 0 \<and> latest s a \<le> MAX_VERSIONS_PER_CONTRACT \<and>
     (\<forall>v. ContractVersion s (a, v) \<noteq> None \<longleftrightarrow> 0 < v \<and> v \<le> latest s a) \<and>
     (\<forall>v r. ContractVersion s (a, v) = Some r \<longrightarrow> version_ok a v r) \<and>
     (\<forall>v w r q. ContractVersion s (a, v) = Some r \<longrightarrow> ContractVersion s (a, w) = Some q \<longrightarrow>
       mentor r = mentor q \<and> mentee r = mentee q)"

definition versions_wf :: "contracts_state \<Rightarrow> bool" where
  "versions_wf s \<longleftrightarrow> (\<forall>a. versions_ok s a)"

lemma versions_wfD:
  assumes "versions_wf s"
  shows "LatestVersion s a \<noteq> Some 0" "latest s a \<le> MAX_VERSIONS_PER_CONTRACT"
    "ContractVersion s (a, v) \<noteq> None \<longleftrightarrow> 0 < v \<and> v \<le> latest s a"
    "ContractVersion s (a, v) = Some r \<Longrightarrow> version_ok a v r"
    "ContractVersion s (a, v) = Some r \<Longrightarrow> ContractVersion s (a, w) = Some q \<Longrightarrow> mentor r = mentor q \<and> mentee r = mentee q"
proof -
  have "versions_ok s a" using assms by (simp add: versions_wf_def)
  then show "LatestVersion s a \<noteq> Some 0" "latest s a \<le> MAX_VERSIONS_PER_CONTRACT"
    "ContractVersion s (a, v) \<noteq> None \<longleftrightarrow> 0 < v \<and> v \<le> latest s a"
    "ContractVersion s (a, v) = Some r \<Longrightarrow> version_ok a v r"
    "ContractVersion s (a, v) = Some r \<Longrightarrow> ContractVersion s (a, w) = Some q \<Longrightarrow> mentor r = mentor q \<and> mentee r = mentee q"
    unfolding versions_ok_def by blast+
qed

lemma length_history [simp]: "length (history s a) = latest s a"
  by (simp add: history_def)

lemma history_nth: "i < latest s a \<Longrightarrow> history s a ! i = the (ContractVersion s (a, i + 1))"
  by (simp add: history_def del: upt_Suc)

lemma history_cong: "LatestVersion t a = LatestVersion s a \<Longrightarrow> (\<And>v. ContractVersion t (a, v) = ContractVersion s (a, v)) \<Longrightarrow>
    history t a = history s a"
  unfolding history_def latest_def by simp

lemma versions_ok_cong: "LatestVersion t a = LatestVersion s a \<Longrightarrow> (\<And>v. ContractVersion t (a, v) = ContractVersion s (a, v)) \<Longrightarrow>
    versions_ok t a \<longleftrightarrow> versions_ok s a"
  unfolding versions_ok_def latest_def by simp

section \<open>Publication\<close>

definition published_record :: "env \<Rightarrow> PublishMentorshipCommand \<Rightarrow> nat \<Rightarrow> MentorshipContractVersion" where
  "published_record env c v = \<lparr>agreement_id = new_agreement_id c, schema_version = new_schema_version c, version = v,
     mentor = new_mentor c, mentee = new_mentee c, fee = new_fee c, session_count = new_session_count c,
     period = new_period c, terms_hash = new_terms_hash c, evidence = new_evidence c, status = Published,
     published_at = timestamp env\<rparr>"

lemma version_publish_Ok:
  assumes "publish env c s = Ok (v, t)" "versions_wf s"
  shows "auth env (new_mentor c)" "auth env (new_mentee c)" "v = latest s (new_agreement_id c) + 1"
    "v \<le> MAX_VERSIONS_PER_CONTRACT" "version_ok (new_agreement_id c) v (published_record env c v)"
    "ContractVersion s (new_agreement_id c, w) = Some r \<Longrightarrow> mentor r = new_mentor c \<and> mentee r = new_mentee c"
    "t = s\<lparr>ContractVersion := (ContractVersion s)((new_agreement_id c, v) \<mapsto> published_record env c v),
        LatestVersion := (LatestVersion s)(new_agreement_id c \<mapsto> v)\<rparr>"
proof -
  let ?a = "new_agreement_id c"
  from assms(1) show "auth env (new_mentor c)" "auth env (new_mentee c)" and v: "v = latest s ?a + 1"
    and "v \<le> MAX_VERSIONS_PER_CONTRACT" and "version_ok ?a v (published_record env c v)"
    and "t = s\<lparr>ContractVersion := (ContractVersion s)((?a, v) \<mapsto> published_record env c v),
        LatestVersion := (LatestVersion s)(?a \<mapsto> v)\<rparr>"
    by (auto simp: publish_def and_then_Ok require_auth_Ok ok_or_Ok Let_def latest_def version_ok_def published_record_def
        split: if_splits)
  assume r: "ContractVersion s (?a, w) = Some r"
  then have "0 < latest s ?a" using versions_wfD(3) [OF assms(2), of ?a w] by auto
  with assms(1) obtain q where "ContractVersion s (?a, latest s ?a) = Some q" "mentor q = new_mentor c" "mentee q = new_mentee c"
    by (auto simp: publish_def and_then_Ok ok_or_Ok Let_def latest_def split: if_splits)
  with versions_wfD(5) [OF assms(2) r this(1)] show "mentor r = new_mentor c \<and> mentee r = new_mentee c" by simp
qed

lemma history_publish:
  assumes "publish env c s = Ok (v, t)" "versions_wf s"
  shows "history t a = (if a = new_agreement_id c then history s a @ [published_record env c v] else history s a)"
proof (cases "a = new_agreement_id c")
  case True
  note pub = version_publish_Ok [OF assms]
  have "latest t a = latest s a + 1" using pub(3,7) True by (simp add: latest_def)
  then have "history t a = map (\<lambda>w. the (ContractVersion t (a, w))) [1..<latest s a + 1] @ [the (ContractVersion t (a, v))]"
    using pub(3) True by (simp add: history_def)
  also have "map (\<lambda>w. the (ContractVersion t (a, w))) [1..<latest s a + 1] = history s a"
    unfolding history_def using pub(3,7) True by (intro map_cong) auto
  finally show ?thesis using True by (simp add: pub(7))
next
  case False
  then have "history t a = history s a" by (intro history_cong) (simp_all add: version_publish_Ok(7) [OF assms])
  with False show ?thesis by simp
qed

lemma publish_versions_wf:
  assumes "publish env c s = Ok (v, t)" "versions_wf s"
  shows "versions_wf t"
  unfolding versions_wf_def
proof
  fix a
  note pub = version_publish_Ok [OF assms]
  have old: "versions_ok s a" using assms(2) by (simp add: versions_wf_def)
  show "versions_ok t a"
  proof (cases "a = new_agreement_id c")
    case False
    then have "LatestVersion t a = LatestVersion s a" "ContractVersion t (a, w) = ContractVersion s (a, w)" for w
      by (simp_all add: pub(7))
    with old show ?thesis using versions_ok_cong [of t a s] by simp
  next
    case True
    have rec: "mentor (published_record env c v) = new_mentor c" "mentee (published_record env c v) = new_mentee c"
      by (simp_all add: published_record_def)
    have latest: "latest t a = v" "LatestVersion t a = Some v" using True by (simp_all add: pub(7) latest_def)
    have versions: "ContractVersion t (a, w) = (if w = v then Some (published_record env c v) else ContractVersion s (a, w))" for w
      using True by (simp add: pub(7))
    have "0 < v" using pub(3) by simp
    moreover have "ContractVersion t (a, w) \<noteq> None \<longleftrightarrow> 0 < w \<and> w \<le> v" for w
      unfolding versions using versions_wfD(3) [OF assms(2), of a w] pub(3) True by (cases "w = v") auto
    moreover have "version_ok a w r" if "ContractVersion t (a, w) = Some r" for w r
      using that [unfolded versions] pub(5) True versions_wfD(4) [OF assms(2), of a w r] by (cases "w = v") auto
    moreover have "mentor r = new_mentor c \<and> mentee r = new_mentee c" if "ContractVersion t (a, w) = Some r" for w r
      using that [unfolded versions] pub(6) [of w r] True rec by (cases "w = v") auto
    ultimately show ?thesis using pub(4) latest unfolding versions_ok_def by fastforce
  qed
qed

section \<open>The registry\<close>

definition contracts_wf :: "contracts_state \<Rightarrow> bool" where
  "contracts_wf s \<longleftrightarrow> programs_wf s \<and> versions_wf s"

definition contracts_evolve :: "contracts_state \<Rightarrow> contracts_state \<Rightarrow> bool" where
  "contracts_evolve s t \<longleftrightarrow> programs_evolve s t \<and> (\<forall>a. \<exists>rs. history t a = history s a @ rs)"

lemma contracts_init_wf: "contracts_wf contracts_init"
  using programs_init_wf by (auto simp: contracts_wf_def versions_wf_def versions_ok_def contracts_init_def latest_def not_less)

lemma call_versions:
  assumes "contracts_exec env c s = Ok t" "typed_call c" "contracts_wf s"
  shows "versions_wf t \<and> (\<forall>a. \<exists>rs. history t a = history s a @ rs)"
proof -
  from assms(3) have wf: "programs_wf s" "versions_wf s" by (simp_all add: contracts_wf_def)
  have same: ?thesis if "LatestVersion t = LatestVersion s" "ContractVersion t = ContractVersion s"
  proof -
    from that have "versions_ok t a = versions_ok s a" "history t a = history s a" for a
      by (intro versions_ok_cong history_cong; simp)+
    with wf(2) show ?thesis by (simp add: versions_wf_def)
  qed
  from assms(1,2) wf(1) show ?thesis
  proof (cases rule: call_cases)
    case (published v command)
    then show ?thesis using publish_versions_wf [OF _ wf(2)] history_publish [OF _ wf(2)] by auto
  next
    case created
    then show ?thesis by (intro same) (simp_all add: store_program_capacity_def)
  next
    case changed
    then show ?thesis by (intro same) (simp_all add: untouched_def)
  qed
qed

lemma contracts_evolve_trans: "contracts_evolve s t \<Longrightarrow> contracts_evolve t u \<Longrightarrow> contracts_evolve s u"
proof -
  assume *: "contracts_evolve s t" "contracts_evolve t u"
  have "\<exists>rs. history u a = history s a @ rs" for a
  proof -
    from * obtain rs rs' where "history t a = history s a @ rs" "history u a = history t a @ rs'"
      unfolding contracts_evolve_def by metis
    then show ?thesis by simp
  qed
  with * programs_evolve_trans show ?thesis unfolding contracts_evolve_def by blast
qed

lemma contracts_step_ok:
  assumes "contracts_step s t" "contracts_wf s"
  shows "contracts_wf t \<and> contracts_evolve s t"
  using assms(1)
proof (rule contracts_stepE)
  fix env c
  assume call: "contracts_exec env c s = Ok t" "typed_call c"
  then show ?thesis
    using programs_step_wf [OF call] programs_step_evolve [OF call] call_versions [OF call assms(2)] assms(2)
    by (simp add: contracts_wf_def contracts_evolve_def)
qed

interpretation registry: evolving contracts_step contracts_wf contracts_evolve
proof
  show "contracts_evolve s s" for s using programs_evolve_refl by (simp add: contracts_evolve_def)
qed (use contracts_step_ok contracts_evolve_trans in blast)+

lemma contracts_reachable: "contracts_step\<^sup>*\<^sup>* contracts_init s \<Longrightarrow> contracts_wf s"
  by (rule registry.run [OF _ contracts_init_wf])

section \<open>Listings\<close>

lemma list_loop_slice:
  assumes "versions_wf s" "latest s a = n" "length vs \<le> limit" "i \<le> n"
  shows "list_loop s a n limit i vs = Ok (vs @ take (limit - length vs) (drop i (history s a)), min n (i + (limit - length vs)))"
  using assms
proof (induction s a n limit i vs rule: list_loop.induct)
  case (1 s a n limit i vs)
  show ?case
  proof (cases "i < n \<and> length vs < limit")
    case False
    then have "list_loop s a n limit i vs = Ok (vs, i)" by (subst list_loop.simps) auto
    with False "1.prems" show ?thesis by auto
  next
    case True
    have "n < 2 ^ 32" using versions_wfD(2) [OF "1.prems"(1), of a] "1.prems"(2) by (simp add: MAX_VERSIONS_PER_CONTRACT_def)
    with True have fits: "fits_u32 (i + 1)" by (simp add: fits_u32_def)
    obtain r where r: "ContractVersion s (a, i + 1) = Some r" using versions_wfD(3) [OF "1.prems"(1), of a "i + 1"] True "1.prems"(2) by auto
    then have drop: "drop i (history s a) = r # drop (i + 1) (history s a)"
      using True "1.prems"(2) history_nth [of i s a] by (simp add: Cons_nth_drop_Suc [symmetric])
    obtain k where k: "limit = length vs + Suc k" using True less_iff_Suc_add by auto
    have "list_loop s a n limit i vs = list_loop s a n limit (i + 1) (vs @ [r])"
      using True r by (subst list_loop.simps) (simp add: u32_checked_def fits [simplified])
    also have "\<dots> = Ok ((vs @ [r]) @ take (limit - length (vs @ [r])) (drop (i + 1) (history s a)), min n (i + 1 + (limit - length (vs @ [r]))))"
      by (rule "1.IH") (use True r fits "1.prems" in \<open>auto simp: u32_checked_def\<close>)
    finally show ?thesis using k True by (simp add: drop)
  qed
qed

lemma list_page:
  assumes "versions_wf s" "0 < limit" "limit \<le> MAX_PAGE_SIZE"
  shows "list_contract_versions s a i limit =
    (if LatestVersion s a = None then Err ContractNotFound
     else if latest s a < i then Err InvalidCursor
     else Ok \<lparr>versions = take limit (drop i (history s a)), next_version = if i + limit < latest s a then Some (i + limit) else None\<rparr>)"
proof (cases "LatestVersion s a")
  case (Some n)
  then have "latest s a = n" by (simp add: latest_def)
  with list_loop_slice [OF assms(1) this, of "[]" limit i] Some assms(2,3) show ?thesis
    by (auto simp: list_contract_versions_def)
qed (use assms in \<open>simp add: list_contract_versions_def\<close>)

lemma get_version:
  assumes "versions_wf s"
  shows "get_contract_version s a (Some v) =
    (if 0 < v \<and> v \<le> latest s a then Ok (history s a ! (v - 1)) else Err VersionNotFound)"
proof (cases "0 < v \<and> v \<le> latest s a")
  case True
  then obtain r where "ContractVersion s (a, v) = Some r" using versions_wfD(3) [OF assms, of a v] by auto
  moreover have "v - 1 < latest s a" using True by linarith
  ultimately show ?thesis using True by (simp add: get_contract_version_def history_nth)
next
  case False
  then have "ContractVersion s (a, v) = None" using versions_wfD(3) [OF assms, of a v] by blast
  with False show ?thesis by (auto simp: get_contract_version_def)
qed

lemma waitlist_loop_slice:
  assumes "at_program s p P" "waitlist_head P \<le> i" "i \<le> n" "length xs \<le> limit" "waitlist_tail P = n"
  shows "waitlist_loop s p n limit i xs l =
    (let m = min n (i + (limit - length xs))
     in Ok (m, xs @ take (limit - length xs) (drop (i - waitlist_head P) (queue (roster s p P))), if i < m then Some (m - 1) else l))"
  using assms
proof (induction s p n limit i xs l rule: waitlist_loop.induct)
  case (1 s p n limit i xs l)
  note rep = representsD [OF at_programD(2) [OF "1.prems"(1)]]
  let ?q = "queue (roster s p P)"
  show ?case
  proof (cases "i < n \<and> length xs < limit")
    case False
    then have "waitlist_loop s p n limit i xs l = Ok (i, xs, l)" by (subst waitlist_loop.simps) auto
    with False "1.prems" show ?thesis by (auto simp: length_queue Let_def)
  next
    case True
    have fits: "fits_u32 (i + 1)" using rep(8) True "1.prems"(5) by (auto intro: fits_smaller)
    have "i \<in> dom (entries s p)" using rep(10) True "1.prems"(2,5) by simp
    then obtain a where a: "entries s p i = Some a" by auto
    have j: "i - waitlist_head P < length ?q" "i + 1 - waitlist_head P = Suc (i - waitlist_head P)"
      using True "1.prems"(2,5) by (simp_all add: length_queue Suc_diff_le diff_less_mono)
    then have "?q ! (i - waitlist_head P) = a" using a "1.prems"(2) by (simp add: queue_of_def)
    then have drop: "drop (i - waitlist_head P) ?q = a # drop (i + 1 - waitlist_head P) ?q"
      unfolding j(2) using Cons_nth_drop_Suc [OF j(1)] by simp
    obtain k where k: "limit = length xs + Suc k" using True less_iff_Suc_add by auto
    have entry: "WaitlistEntry s (p, i) = Some a" using a by (simp add: entries_def)
    have "waitlist_loop s p n limit i xs l = waitlist_loop s p n limit (i + 1) (xs @ [a]) (Some i)"
      using True entry by (subst waitlist_loop.simps) (simp add: u32_checked_def fits [simplified])
    also have "\<dots> = (let m = min n (i + 1 + (limit - length (xs @ [a])))
       in Ok (m, (xs @ [a]) @ take (limit - length (xs @ [a])) (drop (i + 1 - waitlist_head P) ?q), if i + 1 < m then Some (m - 1) else Some i))"
      by (rule "1.IH") (use True entry fits "1.prems" in \<open>auto simp: u32_checked_def\<close>)
    finally show ?thesis unfolding drop using k True by (auto simp: Let_def)
  qed
qed

text \<open>A page of the waitlist from the sequence number \<open>j\<close>.\<close>

definition waitlist_slice :: "ProgramCapacity \<Rightarrow> address list \<Rightarrow> nat \<Rightarrow> nat \<Rightarrow> WaitlistPage" where
  "waitlist_slice P q j limit = \<lparr>participants = take limit (drop (j - waitlist_head P) q),
     next_cursor = if j + limit < waitlist_tail P then Some (j + limit - 1) else None\<rparr>"

lemma waitlist_page:
  assumes "at_program s p P" "0 < limit" "limit \<le> MAX_PAGE_SIZE"
  shows "get_waitlist_page s p None limit = Ok (waitlist_slice P (queue (roster s p P)) (waitlist_head P) limit)"
    "get_waitlist_page s p (Some c) limit =
      (if waitlist_tail P \<le> c then Err InvalidWaitlistCursor
       else Ok (waitlist_slice P (queue (roster s p P)) (max (c + 1) (waitlist_head P)) limit))"
proof -
  note rep = representsD [OF at_programD(2) [OF assms(1)]]
  have page: "(case waitlist_loop s p (waitlist_tail P) limit j [] None of Ok (sequence, xs, l) \<Rightarrow>
        Ok \<lparr>participants = xs, next_cursor = if sequence < waitlist_tail P then l else None\<rparr> | Err e \<Rightarrow> Err e | Panic \<Rightarrow> Panic) =
      Ok (waitlist_slice P (queue (roster s p P)) j limit)" if "waitlist_head P \<le> j" "j \<le> waitlist_tail P" for j
    using waitlist_loop_slice [OF assms(1) that, of "[]" limit None] assms(2)
    by (auto simp: waitlist_slice_def Let_def)
  show "get_waitlist_page s p None limit = Ok (waitlist_slice P (queue (roster s p P)) (waitlist_head P) limit)"
    using page [of "waitlist_head P"] rep(7) assms
    by (simp add: get_waitlist_page_def at_programD [OF assms(1)] split: outcome.splits)
  show "get_waitlist_page s p (Some c) limit =
      (if waitlist_tail P \<le> c then Err InvalidWaitlistCursor
       else Ok (waitlist_slice P (queue (roster s p P)) (max (c + 1) (waitlist_head P)) limit))"
  proof (cases "waitlist_tail P \<le> c")
    case True
    then show ?thesis using assms by (simp add: get_waitlist_page_def at_programD [OF assms(1)])
  next
    case False
    have fits: "fits_u32 (c + 1)" using rep(8) False by (auto intro: fits_smaller)
    show ?thesis
      using page [of "max (c + 1) (waitlist_head P)"] rep(7) assms(2,3) False
      by (simp add: get_waitlist_page_def at_programD [OF assms(1)] checked_fits(1) [OF fits, simplified] split: outcome.splits)
  qed
qed

end
