(* ===== verification/Contract_Properties.thy ===== *)
theory Contract_Properties
  imports Contract_Versions
begin

text \<open>
  What the contracts registry guarantees of its programs and agreements. One finding: an offer time of which the
  deadlines overflow keeps members and expired offers in their seats.
\<close>

section \<open>A run\<close>

definition contracts_env :: "nat \<Rightarrow> env" where
  "contracts_env now = \<lparr>timestamp = now, ledger_sequence = 0, self = 0, auth = (\<lambda>_. True)\<rparr>"

definition demo_command :: "nat \<Rightarrow> PublishMentorshipCommand" where
  "demo_command n = \<lparr>new_agreement_id = [1], new_schema_version = 1, new_mentor = 5, new_mentee = 6,
     new_fee = \<lparr>asset = 9, amount = 100\<rparr>, new_session_count = n, new_period = \<lparr>starts_at = 50, ends_at = 90\<rparr>,
     new_terms_hash = [7], new_evidence = None\<rparr>"

text \<open>One place, held by participant 1; participants 2 and 3 wait.\<close>

definition demo_program :: "nat \<Rightarrow> ProgramCapacity" where
  "demo_program t = \<lparr>organizer = 9, capacity = 1, reserved_seats = 0, confirmed_seats = 1, waitlist_head = 0,
     waitlist_tail = 2, offer_ttl_seconds = t, automatic_promotion = True\<rparr>"

definition demo_state :: contracts_state where
  "demo_state = \<lparr>LatestVersion = [[1] \<mapsto> 1], ContractVersion = [([1], 1) \<mapsto> published_record (contracts_env 10) (demo_command 4) 1],
     Programs = [[2] \<mapsto> demo_program 100],
     Seat = [([2], 1) \<mapsto> \<lparr>state = Confirmed, requested_at = 20, offer_expires_at = None\<rparr>,
       ([2], 2) \<mapsto> \<lparr>state = Waitlisted, requested_at = 40, offer_expires_at = None\<rparr>,
       ([2], 3) \<mapsto> \<lparr>state = Waitlisted, requested_at = 50, offer_expires_at = None\<rparr>],
     WaitlistEntry = [([2], 0) \<mapsto> 2, ([2], 1) \<mapsto> 3]\<rparr>"

definition demo_calls :: "(env \<times> contracts_call) list" where
  "demo_calls = [(contracts_env 10, Publish (demo_command 4)), (contracts_env 10, CreateProgram 9 [2] 1 100 True),
     (contracts_env 20, RequestSeat 1 [2]), (contracts_env 30, ConfirmSeat 1 [2]), (contracts_env 40, RequestSeat 2 [2]),
     (contracts_env 50, RequestSeat 3 [2])]"

lemmas contracts_call_defs = publish_def create_program_def configure_program_def request_seat_def confirm_seat_def
  decline_offer_def expire_offer_def release_offer_def release_confirmed_seat_def promote_next_def
  promote_next_internal_def require_organizer_def load_program_capacity_def store_program_capacity_def store_seat_record_def
  state_of_def ok_or_def u32_checked_def u64_checked_def fits_u32_def fits_u64_def MAX_WAITLIST_SIZE_def
  SUPPORTED_SCHEMA_VERSION_def MAX_VERSIONS_PER_CONTRACT_def Let_def require_auth_def

lemmas demo_contracts_defs = contracts_env_def demo_command_def demo_program_def demo_state_def contracts_init_def
  published_record_def

lemma contracts_demo_run: "run_calls contracts_exec demo_calls contracts_init = Ok demo_state"
  by (simp add: demo_calls_def contracts_call_defs demo_contracts_defs fun_upd_twist fun_upd_idem del: One_nat_def)

lemma contracts_demo_reachable: "contracts_step\<^sup>*\<^sup>* contracts_init demo_state"
proof (rule run_calls_steps [OF contracts_demo_run])
  fix env c s t
  assume "(env, c) \<in> set demo_calls" "contracts_exec env c s = Ok t"
  then show "contracts_step s t" by (intro contracts_step.call) (auto simp: demo_calls_def fits_u32_def)
qed

lemma demo_entries: "entries demo_state [2] = [0 \<mapsto> 2, 1 \<mapsto> 3]"
  by (auto simp: entries_def demo_state_def fun_eq_iff)

lemma demo_queue: "queue_of (demo_program 100) (entries demo_state [2]) = [2, 3]"
  by (simp add: demo_entries queue_of_def demo_program_def upt_rec)

section \<open>Programs\<close>

lemma reachable_program:
  assumes "contracts_step\<^sup>*\<^sup>* contracts_init s" "get_program_capacity s p = Ok P"
  shows "programs_wf s" "Programs s p = Some P" "at_program s p P" "settled (roster s p P)"
    "represents P (seats s p) (entries s p)"
proof -
  show "Programs s p = Some P" using assms(2) by (simp add: get_program_capacity_def ok_or_Ok)
  moreover show "programs_wf s" using contracts_reachable [OF assms(1)] by (simp add: contracts_wf_def)
  ultimately show "at_program s p P" "settled (roster s p P)" using programs_wfD(3,4) by blast+
  then show "represents P (seats s p) (entries s p)" by (simp add: at_program_def)
qed

text \<open>
  C33. Calls on a program do what its roster says. The roster of a program - its offers with their expiry, its
  members and its queue - is read off the stored counters, seat records and numbered entries. In every reachable
  state each call on an existing program succeeds exactly when it succeeds on the roster, and then leaves the roster
  that it leaves there and the rest of the registry untouched; otherwise it fails with the same error.
\<close>

theorem program_calls_exact:
  assumes "contracts_step\<^sup>*\<^sup>* contracts_init s" "get_program_capacity s p = Ok P" "program_of c = Some p" "typed_call c"
  shows "case contracts_exec env c s of
      Ok t \<Rightarrow> \<exists>P'. get_program_capacity t p = Ok P' \<and> roster_exec env c (roster s p P) = Ok (roster t p P') \<and> untouched p s t
    | Err e \<Rightarrow> roster_exec env c (roster s p P) = Err e
    | Panic \<Rightarrow> roster_exec env c (roster s p P) = Panic"
  using seats_exec_refines [OF reachable_program(3) [OF assms(1,2)] assms(3,4), of env]
  by (cases "contracts_exec env c s"; cases "roster_exec env c (roster s p P)")
    (auto simp: carries_def get_program_capacity_def)

lemma demo_program_found: "get_program_capacity demo_state [2] = Ok (demo_program 100)"
  by (simp add: get_program_capacity_def demo_state_def)

theorem program_calls_exact_witness:
  "roster_exec (contracts_env 60) (ConfirmSeat 2 [2]) (roster demo_state [2] (demo_program 100)) = Err OfferNotFound"
proof -
  have "contracts_exec (contracts_env 60) (ConfirmSeat 2 [2]) demo_state = Err OfferNotFound"
    by (simp add: contracts_call_defs demo_contracts_defs)
  with program_calls_exact [OF contracts_demo_reachable demo_program_found, of "ConfirmSeat 2 [2]" "contracts_env 60"]
  show ?thesis by simp
qed

text \<open>
  C34. Capacity is kept. In every reachable state the counters of a program count its offers and its members,
  together they do not exceed the capacity, the queue holds every waitlisted participant once and at most 256 of
  them, and a program that promotes automatically has a free place only if nobody waits.
\<close>

theorem program_capacity_kept:
  assumes "contracts_step\<^sup>*\<^sup>* contracts_init s" "get_program_capacity s p = Ok P"
  shows "reserved_seats P = card {a. \<exists>r. get_seat_record s p a = Some r \<and> state r = Offered} \<and>
    confirmed_seats P = card {a. \<exists>r. get_seat_record s p a = Some r \<and> state r = Confirmed} \<and>
    reserved_seats P + confirmed_seats P \<le> capacity P \<and>
    distinct (queue (roster s p P)) \<and> length (queue (roster s p P)) \<le> MAX_WAITLIST_SIZE \<and>
    set (queue (roster s p P)) = {a. \<exists>r. get_seat_record s p a = Some r \<and> state r = Waitlisted} \<and>
    (automatic_promotion P \<longrightarrow> queue (roster s p P) = [] \<or> reserved_seats P + confirmed_seats P = capacity P)"
proof -
  have seats: "{a. \<exists>r. get_seat_record s p a = Some r \<and> state r = k} = seats_in (seats s p) k" for k
    by (simp add: seats_in_def get_seat_record_def seats_def)
  note rep = representsD [OF reachable_program(5) [OF assms]]
  have "automatic_promotion P \<longrightarrow> queue (roster s p P) = [] \<or> reserved_seats P + confirmed_seats P = capacity P"
    using reachable_program(4) [OF assms] at_programD(5) [OF reachable_program(3) [OF assms]] by (auto simp: settled_def)
  then show ?thesis unfolding seats using rep(3-5,9,11,12) by (simp add: length_queue)
qed

theorem program_capacity_kept_witness: "reserved_seats (demo_program 100) + confirmed_seats (demo_program 100) = capacity (demo_program 100)"
  using program_capacity_kept [OF contracts_demo_reachable demo_program_found]
  by (simp add: demo_queue) (simp add: demo_program_def)

text \<open>
  C35. Places are given in order and are not taken away. When a call succeeds in a reachable state, a program
  keeps its organizer; some of the participants at the head of its queue have got an offer with a full deadline, and
  nobody else has got one unless nobody was waiting; at most one participant, who authorised the call, has joined at
  its end; an offer that has not expired and a
  confirmed seat are lost only by a participant who authorised the call, and only a participant who authorised the
  call with such an offer becomes a member.
\<close>

theorem program_calls_fair:
  assumes "contracts_step\<^sup>*\<^sup>* contracts_init s" "get_program_capacity s p = Ok P"
    "contracts_exec env c s = Ok t" "typed_call c"
  shows "\<exists>P'. get_program_capacity t p = Ok P' \<and> advances env (roster s p P) (roster t p P')"
proof -
  have still: "advances env R R" for R by (rule advances_here [where n = 0 and xs = "[]"]) simp_all
  note here = reachable_program [OF assms(1,2)]
  have same: ?thesis if "Programs t p = Programs s p" "seats t p = seats s p" "entries t p = entries s p"
    using that here(2) still [of "roster s p P"] by (simp add: get_program_capacity_def roster_def)
  from assms(3,4) here(1) show ?thesis
  proof (cases rule: call_cases)
    case (published v command)
    with publish_programs show ?thesis by (intro same) (auto simp: seats_def entries_def)
  next
    case (created a q n ttl b)
    with here(2) have "q \<noteq> p" by auto
    with created show ?thesis by (intro same) auto
  next
    case (changed q Q Q')
    show ?thesis
    proof (cases "q = p")
      case True
      with changed(2) here(2) have "Q = P" by (simp add: at_program_def)
      with True changed changed_advances [of s q Q env c t Q'] show ?thesis
        by (auto simp: at_program_def get_program_capacity_def)
    next
      case False
      with changed(5) show ?thesis by (intro same) (auto simp: untouched_def)
    qed
  qed
qed

definition demo_left :: contracts_state where
  "demo_left = \<lparr>LatestVersion = [[1] \<mapsto> 1], ContractVersion = [([1], 1) \<mapsto> published_record (contracts_env 10) (demo_command 4) 1],
     Programs = [[2] \<mapsto> (demo_program 100)\<lparr>reserved_seats := 1, confirmed_seats := 0, waitlist_head := 1\<rparr>],
     Seat = [([2], 2) \<mapsto> \<lparr>state = Offered, requested_at = 40, offer_expires_at = Some 160\<rparr>,
       ([2], 3) \<mapsto> \<lparr>state = Waitlisted, requested_at = 50, offer_expires_at = None\<rparr>],
     WaitlistEntry = [([2], 1) \<mapsto> 3]\<rparr>"

lemma demo_left_call: "contracts_exec (contracts_env 60) (ReleaseConfirmedSeat 1 [2]) demo_state = Ok demo_left"
  by (simp add: contracts_call_defs demo_contracts_defs demo_left_def fun_upd_def fun_eq_iff del: One_nat_def)

theorem program_calls_fair_witness:
  "\<exists>P. get_program_capacity demo_left [2] = Ok P \<and>
     advances (contracts_env 60) (roster demo_state [2] (demo_program 100)) (roster demo_left [2] P)"
  by (rule program_calls_fair [OF contracts_demo_reachable demo_program_found demo_left_call]) simp

text \<open>
  The waitlist is first in, first out over whole runs: in every later state the queue of a program is what is
  left of it after some participants at its head have gone, followed by later arrivals.
\<close>

theorem waitlist_in_order:
  assumes "contracts_step\<^sup>*\<^sup>* contracts_init s" "contracts_step\<^sup>*\<^sup>* s t" "get_program_capacity s p = Ok P"
  shows "\<exists>P' n xs. get_program_capacity t p = Ok P' \<and> organizer P' = organizer P \<and>
    queue (roster t p P') = drop n (queue (roster s p P)) @ xs"
proof -
  have "programs_evolve s t"
    using registry.run_evolves [OF assms(2) contracts_reachable [OF assms(1)]] by (simp add: contracts_evolve_def)
  then obtain P' where "Programs t p = Some P'" "organizer P' = organizer P"
    "queue_advances (queue (roster s p P)) (queue (roster t p P'))"
    using reachable_program(2) [OF assms(1,3)] unfolding programs_evolve_def by blast
  then show ?thesis by (auto simp: queue_advances_def get_program_capacity_def)
qed

lemma demo_left_step: "contracts_step demo_state demo_left"
  by (rule contracts_step.call [OF demo_left_call]) simp

theorem waitlist_in_order_witness:
  "\<exists>P n xs. get_program_capacity demo_left [2] = Ok P \<and> organizer P = organizer (demo_program 100) \<and>
     queue (roster demo_left [2] P) = drop n (queue (roster demo_state [2] (demo_program 100))) @ xs"
  using waitlist_in_order [OF contracts_demo_reachable _ demo_program_found] demo_left_step by blast

text \<open>
  Anybody can pass an expired offer on. In a reachable state of a program that promotes automatically, if the
  offer of a participant has expired and the new deadline fits in 64 bits, \<open>expire_offer\<close> succeeds without any
  authorisation: the seat record is removed and the head of the queue gets the place, with a full deadline.
\<close>

theorem expired_offer_passes_on:
  assumes "contracts_step\<^sup>*\<^sup>* contracts_init s" "get_program_capacity s p = Ok P" "automatic_promotion P"
    "get_seat_record s p a = Some r" "state r = Offered" "offer_expires_at r = Some e" "e \<le> timestamp env"
    "queue (roster s p P) = b # q" "fits_u64 (timestamp env + offer_ttl_seconds P)"
  shows "\<exists>t P' r'. expire_offer env p a s = Ok t \<and> get_program_capacity t p = Ok P' \<and> get_seat_record t p a = None \<and>
    get_seat_record t p b = Some r' \<and> state r' = Offered \<and> offer_expires_at r' = Some (timestamp env + offer_ttl_seconds P) \<and>
    queue (roster t p P') = q"
proof -
  note at = reachable_program(3) [OF assms(1,2)] and rep = reachable_program(5) [OF assms(1,2)]
  let ?R = "roster s p P"
  let ?R' = "?R\<lparr>offers := ((offers ?R)(a := None))(b \<mapsto> timestamp env + offer_ttl_seconds P), queue := q\<rparr>"
  have a: "offers ?R a = Some e" "seats s p a = Some r"
    using assms(4-6) by (auto simp: offers_of_def get_seat_record_def seats_def)
  have sound: "sound_roster ?R" by (rule sound_at [OF at])
  have b: "b \<noteq> a" using assms(8) a(1) sound by (auto simp: sound_roster_def simp del: roster_simps)
  have "0 < card (dom (offers ?R))" "taken ?R \<le> places ?R"
    using a(1) sound by (auto simp: sound_roster_def card_gt_0_iff simp del: roster_simps)
  then have "taken (?R\<lparr>offers := (offers ?R)(a := None)\<rparr>) < places ?R"
    using a(1) sound by (simp add: taken_def sound_roster_def card_Diff_singleton_if domI del: roster_simps)
  then have "roster_exec env (ExpireOffer p a) ?R = Ok ?R'"
    using a(1) assms(3,7,8,9)
    by (simp add: roster_release_offer_def roster_settle_def roster_promote_def expiry_def u64_checked_def)
  then obtain t where t: "expire_offer env p a s = Ok t" "carries p s t ?R'"
    using seats_exec_refines [OF at, of "ExpireOffer p a" env] by (cases "expire_offer env p a s") auto
  then obtain P' where P': "Programs t p = Some P'" "represents P' (seats t p) (entries t p)" "roster t p P' = ?R'"
    by (auto simp: carries_def)
  have "offers_of (seats t p) = offers ?R'" using arg_cong [OF P'(3), of offers] by simp
  moreover have "present (roster t p P') = dom (seats t p)"
    using present_represented [OF P'(2)] by (simp add: roster_def)
  moreover have "a \<notin> present ?R'" using a(1) b sound assms(8) by (auto simp: present_def sound_roster_def simp del: roster_simps)
  ultimately have "seats t p a = None" "offers_of (seats t p) b = Some (timestamp env + offer_ttl_seconds P)"
    by (auto simp: P'(3))
  moreover have "queue_of P' (entries t p) = q" using arg_cong [OF P'(3), of queue] by simp
  ultimately show ?thesis using offers_Some [OF P'(2), of b] t(1) P'(1)
    by (auto simp: get_seat_record_def seats_def get_program_capacity_def)
qed

theorem expired_offer_passes_on_witness:
  "\<exists>t P. expire_offer (contracts_env 200) [2] 2 demo_left = Ok t \<and> get_program_capacity t [2] = Ok P \<and> queue (roster t [2] P) = []"
proof -
  have left: "contracts_step\<^sup>*\<^sup>* contracts_init demo_left" using contracts_demo_reachable demo_left_step by (rule rtranclp.rtrancl_into_rtrancl)
  have "entries demo_left [2] = [1 \<mapsto> 3]" by (auto simp: entries_def demo_left_def fun_eq_iff)
  then have "queue (roster demo_left [2] ((demo_program 100)\<lparr>reserved_seats := 1, confirmed_seats := 0, waitlist_head := 1\<rparr>)) = [3]"
    by (simp add: queue_of_def demo_program_def upt_rec)
  from expired_offer_passes_on [OF left _ _ _ _ _ _ this, of 2 "\<lparr>state = Offered, requested_at = 40, offer_expires_at = Some 160\<rparr>" 160
      "contracts_env 200"]
  show ?thesis
    by (auto simp: get_program_capacity_def get_seat_record_def demo_left_def demo_program_def contracts_env_def fits_u64_def)
qed

text \<open>
  Reconfiguring a program ends, and admits as many as fit. Let the organizer set a positive capacity that
  covers the committed seats, and a positive offer time of which the deadline fits in 64 bits. With automatic
  promotion the loop of \<open>configure_program\<close> ends and the call succeeds; the first participants of the queue have
  got an offer, as many as there are free places or waiting participants, and the others wait on.
\<close>

theorem configure_admits:
  assumes "contracts_step\<^sup>*\<^sup>* contracts_init s" "get_program_capacity s p = Ok P" "auth env (organizer P)"
    "0 < n" "0 < ttl" "reserved_seats P + confirmed_seats P \<le> n" "fits_u32 n" "fits_u64 (timestamp env + ttl)"
  shows "\<exists>t P' k. configure_program env (organizer P) p n ttl True s = Ok t \<and> get_program_capacity t p = Ok P' \<and>
    k = min (length (queue (roster s p P))) (n - (reserved_seats P + confirmed_seats P)) \<and>
    queue (roster t p P') = drop k (queue (roster s p P)) \<and> reserved_seats P' = reserved_seats P + k \<and>
    confirmed_seats P' = confirmed_seats P"
proof -
  note at = reachable_program(3) [OF assms(1,2)]
  let ?R = "(roster s p P)\<lparr>places := n, offer_time := ttl, fills := True\<rparr>"
  have taken: "taken ?R = reserved_seats P + confirmed_seats P" using at_programD(5) [OF at] by (simp add: taken_def)
  have sound: "sound_roster ?R" using sound_at [OF at] assms(6) taken by (simp add: sound_roster_def)
  have "is_ok (roster_fill env ?R)" using assms(8) by (simp add: roster_fill_def Let_def expiry_def u64_checked_def)
  then obtain R' where R': "roster_fill env ?R = Ok R'" by (auto simp: is_ok_iff)
  then obtain k where k: "k = min (length (queue ?R)) (places ?R - taken ?R)" "taken R' = taken ?R + k"
    "queue R' = drop k (queue ?R)" "members R' = members ?R"
    using sound by (rule fill_cases) simp
  have "roster_exec env (ConfigureProgram (organizer P) p n ttl True) (roster s p P) = Ok R'"
    using assms(3-6) R' at_programD(5) [OF at] by (simp add: roster_configure_def)
  then obtain t where t: "configure_program env (organizer P) p n ttl True s = Ok t" "carries p s t R'"
    using seats_exec_refines [OF at, of "ConfigureProgram (organizer P) p n ttl True" env] assms(7)
    by (cases "configure_program env (organizer P) p n ttl True s") auto
  then obtain P' where P': "at_program t p P'" "R' = roster t p P'" by (auto simp: carries_def at_program_def)
  have "confirmed_seats P' = confirmed_seats P"
    using k(4) representsD(4) [OF at_programD(2) [OF at]] representsD(4) [OF at_programD(2) [OF P'(1)]] by (simp add: P'(2))
  moreover have "reserved_seats P' + confirmed_seats P' = reserved_seats P + confirmed_seats P + k"
    using k(2) taken at_programD(5) [OF P'(1)] by (simp add: P'(2))
  ultimately show ?thesis using t(1) k(1,3) taken at_programD(1) [OF P'(1)] by (auto simp: P'(2) get_program_capacity_def)
qed

theorem configure_admits_witness:
  "\<exists>t P. configure_program (contracts_env 60) 9 [2] 2 100 True demo_state = Ok t \<and> get_program_capacity t [2] = Ok P \<and>
     reserved_seats P = 1 \<and> queue (roster t [2] P) = [3]"
  using configure_admits [OF contracts_demo_reachable demo_program_found, of "contracts_env 60" 2 100]
  by (simp add: demo_queue) (auto simp: demo_program_def contracts_env_def fits_u32_def fits_u64_def)

section \<open>Agreements\<close>

lemma reachable_versions: "contracts_step\<^sup>*\<^sup>* contracts_init s \<Longrightarrow> versions_wf s"
  using contracts_reachable by (simp add: contracts_wf_def)

text \<open>
  A published version needs both parties and can always be read back. If a publication succeeds in a
  reachable state, both parties of the command have authorised it, and in every later state a query for the number
  it returned yields exactly the terms of the command; every version of the agreement names these parties.
\<close>

theorem published_version_kept:
  assumes "contracts_step\<^sup>*\<^sup>* contracts_init s" "publish env c s = Ok (v, t)" "contracts_step\<^sup>*\<^sup>* t u"
  shows "auth env (new_mentor c) \<and> auth env (new_mentee c) \<and>
    get_contract_version u (new_agreement_id c) (Some v) = Ok (published_record env c v) \<and>
    (\<forall>w r. get_contract_version u (new_agreement_id c) (Some w) = Ok r \<longrightarrow>
      mentor r = new_mentor c \<and> mentee r = new_mentee c \<and> version r = w)"
proof -
  let ?a = "new_agreement_id c"
  note pub = version_publish_Ok [OF assms(2) reachable_versions [OF assms(1)]]
  have t: "contracts_step\<^sup>*\<^sup>* contracts_init t"
    using assms(1,2) contracts_step.call [of env "Publish c" s t]
    by (auto simp: state_of_Ok intro: rtranclp.rtrancl_into_rtrancl)
  note wf = reachable_versions [OF rtranclp_trans [OF t assms(3)]]
  obtain rs where rs: "history u ?a = history t ?a @ rs"
    using registry.run_evolves [OF assms(3) contracts_reachable [OF t]] unfolding contracts_evolve_def by blast
  have "history t ?a = history s ?a @ [published_record env c v]"
    using history_publish [OF assms(2) reachable_versions [OF assms(1)]] by simp
  with rs have "history u ?a ! (v - 1) = published_record env c v" "v \<le> latest u ?a"
    using pub(3) length_history [of s ?a] length_history [of u ?a] by (simp_all add: nth_append del: length_history)
  then have read: "get_contract_version u ?a (Some v) = Ok (published_record env c v)"
    using get_version [OF wf, of ?a v] pub(3) by simp
  then have stored: "ContractVersion u (?a, v) = Some (published_record env c v)"
    by (simp add: get_contract_version_def ok_or_Ok)
  have "mentor r = new_mentor c \<and> mentee r = new_mentee c \<and> version r = w"
    if "get_contract_version u ?a (Some w) = Ok r" for w r
  proof -
    from that have "ContractVersion u (?a, w) = Some r" by (simp add: get_contract_version_def ok_or_Ok)
    with versions_wfD(5) [OF wf stored this] versions_wfD(4) [OF wf this] show ?thesis
      by (simp add: version_ok_def published_record_def)
  qed
  with pub(1,2) read show ?thesis by blast
qed

definition demo_published :: contracts_state where
  "demo_published = \<lparr>LatestVersion = [[1] \<mapsto> 1], ContractVersion = [([1], 1) \<mapsto> published_record (contracts_env 10) (demo_command 4) 1],
     Programs = Map.empty, Seat = Map.empty, WaitlistEntry = Map.empty\<rparr>"

theorem published_version_kept_witness:
  "get_contract_version demo_published [1] (Some 1) = Ok (published_record (contracts_env 10) (demo_command 4) 1)"
proof -
  have "publish (contracts_env 10) (demo_command 4) contracts_init = Ok (1, demo_published)"
    by (simp add: contracts_call_defs demo_contracts_defs demo_published_def)
  from published_version_kept [OF rtranclp.rtrancl_refl this rtranclp.rtrancl_refl] show ?thesis
    by (simp add: demo_command_def)
qed

text \<open>Reading all versions page by page, following the cursors, with fuel for the number of pages.\<close>

fun read_all ::
  "nat \<Rightarrow> contracts_state \<Rightarrow> hash32 \<Rightarrow> nat \<Rightarrow> nat \<Rightarrow> (ContractError, MentorshipContractVersion list) outcome option" where
  "read_all 0 s a limit cursor = None"
| "read_all (Suc fuel) s a limit cursor =
     (case list_contract_versions s a cursor limit of
        Ok page \<Rightarrow> (case next_version page of
            None \<Rightarrow> Some (Ok (versions page))
          | Some c \<Rightarrow> map_option (\<lambda>m. and_then m (\<lambda>rest. Ok (versions page @ rest))) (read_all fuel s a limit c))
      | Err e \<Rightarrow> Some (Err e)
      | Panic \<Rightarrow> Some Panic)"

lemma read_all_history:
  assumes "versions_wf s" "LatestVersion s a = Some n" "0 < limit" "limit \<le> MAX_PAGE_SIZE"
  shows "i < n \<Longrightarrow> n \<le> fuel + i \<Longrightarrow> read_all fuel s a limit i = Some (Ok (drop i (history s a)))"
proof (induction fuel arbitrary: i)
  case (Suc fuel)
  have latest: "latest s a = n" using assms(2) by (simp add: latest_def)
  have page: "list_contract_versions s a i limit =
      Ok \<lparr>versions = take limit (drop i (history s a)), next_version = if i + limit < n then Some (i + limit) else None\<rparr>"
    using list_page [OF assms(1,3,4), of a i] assms(2) latest Suc.prems(1) by simp
  show ?case
  proof (cases "i + limit < n")
    case True
    with Suc assms(3) have "read_all fuel s a limit (i + limit) = Some (Ok (drop (i + limit) (history s a)))" by simp
    moreover have "take limit (drop i (history s a)) @ drop (i + limit) (history s a) = drop i (history s a)"
      by (metis append_take_drop_id drop_drop add.commute)
    ultimately show ?thesis using True by (simp add: page)
  next
    case False
    then show ?thesis using latest by (simp add: page)
  qed
qed simp

text \<open>
  C36. Listing an agreement ends with its whole history. In a reachable state, reading the versions of a published
  agreement page by page, with any limit that is accepted and following the cursors, ends after at most 100 pages
  and yields every version exactly once, in the order of publication.
\<close>

theorem version_pages_complete:
  assumes "contracts_step\<^sup>*\<^sup>* contracts_init s" "get_latest_version s a = Ok n" "0 < limit" "limit \<le> MAX_PAGE_SIZE"
  shows "\<exists>rs. read_all MAX_VERSIONS_PER_CONTRACT s a limit 0 = Some (Ok rs) \<and> map version rs = [1..<n + 1] \<and>
    (\<forall>i<n. get_contract_version s a (Some (i + 1)) = Ok (rs ! i))"
proof -
  note wf = reachable_versions [OF assms(1)]
  have n: "LatestVersion s a = Some n" "latest s a = n" using assms(2) by (simp_all add: get_latest_version_def ok_or_Ok latest_def)
  have bounds: "0 < n" "n \<le> MAX_VERSIONS_PER_CONTRACT"
    using versions_wfD(1,2) [OF wf, of a] n by (cases n; simp)+
  have all: "read_all MAX_VERSIONS_PER_CONTRACT s a limit 0 = Some (Ok (history s a))"
    using read_all_history [OF wf n(1) assms(3,4), of 0 MAX_VERSIONS_PER_CONTRACT] bounds by simp
  have entry: "get_contract_version s a (Some (i + 1)) = Ok (history s a ! i)" if "i < n" for i
    using get_version [OF wf, of a "i + 1"] that n(2) by simp
  have "map version (history s a) ! i = [1..<n + 1] ! i" if "i < n" for i
  proof -
    have "ContractVersion s (a, i + 1) = Some (history s a ! i)"
      using entry [OF that] by (simp add: get_contract_version_def ok_or_Ok)
    with versions_wfD(4) [OF wf this] that n(2) show ?thesis by (simp add: version_ok_def nth_upt del: upt_Suc)
  qed
  then have "map version (history s a) = [1..<n + 1]" using n(2) by (intro nth_equalityI) simp_all
  with all entry show ?thesis by blast
qed

theorem version_pages_complete_witness:
  "\<exists>rs. read_all MAX_VERSIONS_PER_CONTRACT demo_state [1] 50 0 = Some (Ok rs) \<and> map version rs = [1]"
proof -
  have "get_latest_version demo_state [1] = Ok 1" by (simp add: get_latest_version_def demo_state_def)
  from version_pages_complete [OF contracts_demo_reachable this, of 50] show ?thesis by (auto simp: MAX_PAGE_SIZE_def)
qed

section \<open>Findings\<close>

text \<open>
  A program that promotes automatically never has anything to promote by hand: \<open>promote_next\<close> fails there in every
  reachable state.
\<close>

lemma automatic_never_promoted:
  assumes "contracts_step\<^sup>*\<^sup>* contracts_init s" "get_program_capacity s p = Ok P" "automatic_promotion P"
  shows "\<not> is_ok (promote_next env a p s)"
proof
  note here = reachable_program [OF assms(1,2)]
  assume "is_ok (promote_next env a p s)"
  then obtain x where "roster_promote_next env a (roster s p P) = Ok x"
    using promote_next_refines [OF here(3), of env a]
    by (cases "promote_next env a p s"; cases "roster_promote_next env a (roster s p P)") auto
  then obtain b q where "queue (roster s p P) = b # q" "taken (roster s p P) < places (roster s p P)"
    by (auto simp: roster_promote_next_def roster_promote_def and_then_Ok ok_or_Ok simp del: roster_simps split: if_splits list.splits)
  with here(4) assms(3) show False by (auto simp: settled_def)
qed

text \<open>
  The organizer can lock the seats of a program. \<open>configure_program\<close> accepts every positive offer time; when no
  place is free it does not compute a deadline. After that, as long as somebody waits, a member cannot give up the
  seat and an expired offer cannot be settled, because the promotion that follows overflows.
\<close>

theorem offer_time_locks_seats:
  "\<exists>t. configure_program (contracts_env 60) 9 [2] 1 (2 ^ 64 - 1) True demo_state = Ok t \<and>
     release_confirmed_seat (contracts_env 70) 1 [2] t = Err InvalidCapacity"
proof -
  let ?t = "demo_state\<lparr>Programs := [[2] \<mapsto> demo_program (2 ^ 64 - 1)]\<rparr>"
  have "configure_program (contracts_env 60) 9 [2] 1 (2 ^ 64 - 1) True demo_state = Ok ?t"
    by (simp add: contracts_call_defs demo_contracts_defs promote_loop.simps)
  moreover have "release_confirmed_seat (contracts_env 70) 1 [2] ?t = Err InvalidCapacity"
    by (simp add: contracts_call_defs demo_contracts_defs)
  ultimately show ?thesis by blast
qed

end
