(* ===== verification/Certificates.thy ===== *)
theory Certificates
  imports Transition_Systems
begin

text \<open>
  \<open>contracts/certificates/src/\<close>: course certificates that are bound to their holder, minted with a signature of the
  backend or by the minter, with two-step rotation of the admin, the backend key and the minter. The host's encodings
  and the signature scheme, which are not part of the repository, are a parameter.
\<close>

section \<open>State\<close>

datatype ContractError =
    AlreadyInitialized | NotInitialized | Unauthorized | ContractPaused | CertificateExists | InvalidProof
  | SoulboundTransferNotAllowed | CertificateNotFound | ProofExpired | NonceAlreadyConsumed | NoPendingTransfer
  | PendingAdminExpired | NotPendingAdmin | InvalidPublicKey | NoPendingKeyRotation | PendingKeyRotationExpired
  | NoPendingMinterRotation | PendingMinterRotationExpired

definition ADMIN_TRANSFER_TTL :: nat where
  "ADMIN_TRANSFER_TTL = 518400"

definition ROTATION_PROPOSAL_TTL :: nat where
  "ROTATION_PROPOSAL_TTL = 120960"

record Certificate =
  recipient :: address
  course_id :: hash32
  token_id :: nat
  soul_bound :: bool

record cert_state =
  Admin :: "address option"
  Paused :: "bool option"
  Certs :: "address \<times> hash32 \<rightharpoonup> Certificate"
  BackendPubKey :: "hash32 option"
  PendingBackendPubKey :: "hash32 option"
  PendingBackendPubKeyExpiry :: "nat option"
  NextTokenId :: "nat option"
  Minter :: "address option"
  PendingMinter :: "address option"
  PendingMinterExpiry :: "nat option"
  ConsumedNonce :: "hash32 \<rightharpoonup> bool"
  TokenIndex :: "nat \<rightharpoonup> address \<times> hash32"
  PendingAdmin :: "address option"
  PendingAdminExpiry :: "nat option"

definition cert_init :: cert_state where
  "cert_init = \<lparr>Admin = None, Paused = None, Certs = Map.empty, BackendPubKey = None, PendingBackendPubKey = None,
     PendingBackendPubKeyExpiry = None, NextTokenId = None, Minter = None, PendingMinter = None,
     PendingMinterExpiry = None, ConsumedNonce = Map.empty, TokenIndex = Map.empty, PendingAdmin = None,
     PendingAdminExpiry = None\<rparr>"

text \<open>
  The host: XDR encoding of addresses, the network's hash, and the signature scheme (whether 32 bytes are a key, and
  strict verification of a message).
\<close>

record proof_host =
  to_xdr :: "address \<Rightarrow> bytes"
  network_id :: hash32
  decodes_key :: "hash32 \<Rightarrow> bool"
  verify_strict :: "hash32 \<Rightarrow> bytes \<Rightarrow> bytes \<Rightarrow> bool"

section \<open>Storage\<close>

definition u64_saturating_add :: "nat \<Rightarrow> nat \<Rightarrow> nat" where
  "u64_saturating_add a b = min (a + b) (2 ^ 64 - 1)"

definition require_admin :: "env \<Rightarrow> address \<Rightarrow> cert_state \<Rightarrow> (ContractError, unit) outcome" where
  "require_admin env caller s =
     and_then (require_auth env caller) (\<lambda>_.
     case Admin s of
       Some admin \<Rightarrow> if admin = caller then Ok () else Err Unauthorized
     | None \<Rightarrow> Err NotInitialized)"

definition set_pending_admin :: "address \<Rightarrow> nat \<Rightarrow> cert_state \<Rightarrow> cert_state" where
  "set_pending_admin a expiry s = s\<lparr>PendingAdmin := Some a, PendingAdminExpiry := Some expiry\<rparr>"

definition clear_pending_admin :: "cert_state \<Rightarrow> cert_state" where
  "clear_pending_admin s = s\<lparr>PendingAdmin := None, PendingAdminExpiry := None\<rparr>"

definition set_pending_backend_pubkey :: "hash32 \<Rightarrow> nat \<Rightarrow> cert_state \<Rightarrow> cert_state" where
  "set_pending_backend_pubkey k expiry s = s\<lparr>PendingBackendPubKey := Some k, PendingBackendPubKeyExpiry := Some expiry\<rparr>"

definition clear_pending_backend_pubkey :: "cert_state \<Rightarrow> cert_state" where
  "clear_pending_backend_pubkey s = s\<lparr>PendingBackendPubKey := None, PendingBackendPubKeyExpiry := None\<rparr>"

definition set_pending_minter :: "address \<Rightarrow> nat \<Rightarrow> cert_state \<Rightarrow> cert_state" where
  "set_pending_minter a expiry s = s\<lparr>PendingMinter := Some a, PendingMinterExpiry := Some expiry\<rparr>"

definition clear_pending_minter :: "cert_state \<Rightarrow> cert_state" where
  "clear_pending_minter s = s\<lparr>PendingMinter := None, PendingMinterExpiry := None\<rparr>"

definition get_paused :: "cert_state \<Rightarrow> bool" where
  "get_paused s = unwrap_or (Paused s) False"

definition save_certificate :: "address \<times> hash32 \<Rightarrow> Certificate \<Rightarrow> cert_state \<Rightarrow> cert_state" where
  "save_certificate k c s = s\<lparr>Certs := (Certs s)(k \<mapsto> c)\<rparr>"

definition remove_certificate :: "address \<Rightarrow> hash32 \<Rightarrow> cert_state \<Rightarrow> cert_state" where
  "remove_certificate a i s = s\<lparr>Certs := (Certs s)((a, i) := None)\<rparr>"

definition nonce_consumed :: "cert_state \<Rightarrow> hash32 \<Rightarrow> bool" where
  "nonce_consumed s n \<longleftrightarrow> ConsumedNonce s n \<noteq> None"

definition consume_nonce :: "hash32 \<Rightarrow> cert_state \<Rightarrow> cert_state" where
  "consume_nonce n s = s\<lparr>ConsumedNonce := (ConsumedNonce s)(n \<mapsto> True)\<rparr>"

definition next_token_id :: "cert_state \<Rightarrow> (ContractError, nat \<times> cert_state) outcome" where
  "next_token_id s =
     (let i = unwrap_or (NextTokenId s) 0
      in and_then (u64_op (i + 1)) (\<lambda>next. Ok (i, s\<lparr>NextTokenId := Some next\<rparr>)))"

definition validate_pubkey :: "bytes \<Rightarrow> (ContractError, hash32) outcome" where
  "validate_pubkey raw = (if length raw \<noteq> 32 then Err InvalidPublicKey else Ok raw)"

text \<open>The reverse index, which no entry point uses.\<close>

definition set_token_index :: "nat \<Rightarrow> address \<Rightarrow> hash32 \<Rightarrow> cert_state \<Rightarrow> cert_state" where
  "set_token_index i wallet course s = s\<lparr>TokenIndex := (TokenIndex s)(i \<mapsto> (wallet, course))\<rparr>"

definition get_token_index :: "cert_state \<Rightarrow> nat \<Rightarrow> (address \<times> hash32) option" where
  "get_token_index s i = TokenIndex s i"

definition remove_token_index :: "nat \<Rightarrow> cert_state \<Rightarrow> cert_state" where
  "remove_token_index i s = s\<lparr>TokenIndex := (TokenIndex s)(i := None)\<rparr>"

section \<open>Proofs\<close>

definition DOMAIN_PREFIX :: bytes where
  "DOMAIN_PREFIX = ascii ''CHAINVERSE_CERT:''"

text \<open>The message of \<open>verify_backend_proof\<close>.\<close>

definition proof_message :: "proof_host \<Rightarrow> address \<Rightarrow> address \<Rightarrow> hash32 \<Rightarrow> hash32 \<Rightarrow> nat \<Rightarrow> bytes" where
  "proof_message host contract wallet course nonce expires_at =
     DOMAIN_PREFIX @ to_xdr host contract @ network_id host @ to_xdr host wallet @ course @ nonce @ be_bytes 8 expires_at"

definition verify_backend_proof ::
  "proof_host \<Rightarrow> env \<Rightarrow> hash32 \<Rightarrow> address \<Rightarrow> hash32 \<Rightarrow> hash32 \<Rightarrow> nat \<Rightarrow> bytes \<Rightarrow> (ContractError, unit) outcome" where
  "verify_backend_proof host env key wallet course nonce expires_at proof_bytes =
     (if length proof_bytes \<noteq> 64 then Err InvalidProof
      else if \<not> decodes_key host key then Err InvalidProof
      else
        let msg = proof_message host (self env) wallet course nonce expires_at in
        if length msg > 512 then Err InvalidProof
        else if verify_strict host key msg proof_bytes then Ok () else Err InvalidProof)"

section \<open>Entry points\<close>

definition init :: "env \<Rightarrow> address \<Rightarrow> bytes \<Rightarrow> address \<Rightarrow> cert_state \<Rightarrow> (ContractError, cert_state) outcome" where
  "init env admin key minter s =
     (if Admin s \<noteq> None then Err AlreadyInitialized
      else and_then (require_auth env admin) (\<lambda>_.
      and_then (validate_pubkey key) (\<lambda>key.
      Ok (s\<lparr>Admin := Some admin, BackendPubKey := Some key, Minter := Some minter, Paused := Some False\<rparr>))))"

definition toggle_pause :: "env \<Rightarrow> address \<Rightarrow> bool \<Rightarrow> cert_state \<Rightarrow> (ContractError, cert_state) outcome" where
  "toggle_pause env caller b s = and_then (require_admin env caller s) (\<lambda>_. Ok (s\<lparr>Paused := Some b\<rparr>))"

definition is_paused :: "cert_state \<Rightarrow> bool" where
  "is_paused s = get_paused s"

definition mint ::
  "proof_host \<Rightarrow> env \<Rightarrow> address \<Rightarrow> hash32 \<Rightarrow> hash32 \<Rightarrow> nat \<Rightarrow> bytes \<Rightarrow> cert_state \<Rightarrow>
   (ContractError, cert_state) outcome" where
  "mint host env wallet course nonce expires_at proof_bytes s =
     (if get_paused s then Err ContractPaused
      else if timestamp env \<ge> expires_at then Err ProofExpired
      else if nonce_consumed s nonce then Err NonceAlreadyConsumed
      else and_then (ok_or (BackendPubKey s) NotInitialized) (\<lambda>key.
      and_then (verify_backend_proof host env key wallet course nonce expires_at proof_bytes) (\<lambda>_.
      if Certs s (wallet, course) \<noteq> None then Err CertificateExists
      else
        let s = consume_nonce nonce s in
        and_then (next_token_id s) (\<lambda>(i, s).
        Ok (save_certificate (wallet, course) \<lparr>recipient = wallet, course_id = course, token_id = i, soul_bound = True\<rparr> s)))))"

definition mint_certificate :: "env \<Rightarrow> address \<Rightarrow> hash32 \<Rightarrow> bytes \<Rightarrow> cert_state \<Rightarrow> (ContractError, cert_state) outcome" where
  "mint_certificate env student course metadata_uri s =
     (if get_paused s then Err ContractPaused
      else and_then (ok_or (Minter s) NotInitialized) (\<lambda>minter.
      and_then (require_auth env minter) (\<lambda>_.
      if Certs s (student, course) \<noteq> None then Err CertificateExists
      else and_then (next_token_id s) (\<lambda>(i, s).
        Ok (save_certificate (student, course) \<lparr>recipient = student, course_id = course, token_id = i, soul_bound = True\<rparr> s)))))"

definition transfer :: "env \<Rightarrow> address \<Rightarrow> address \<Rightarrow> hash32 \<Rightarrow> cert_state \<Rightarrow> (ContractError, cert_state) outcome" where
  "transfer env from to course s =
     and_then (ok_or (Certs s (from, course)) CertificateNotFound) (\<lambda>cert.
     if soul_bound cert then Err SoulboundTransferNotAllowed
     else and_then (require_auth env from) (\<lambda>_.
       let s = remove_certificate from course s
       in Ok (save_certificate (to, course) (cert\<lparr>recipient := to\<rparr>) s)))"

definition revoke_impl :: "env \<Rightarrow> address \<Rightarrow> address \<Rightarrow> hash32 \<Rightarrow> bytes \<Rightarrow> cert_state \<Rightarrow> (ContractError, cert_state) outcome" where
  "revoke_impl env caller wallet course reason s =
     and_then (require_admin env caller s) (\<lambda>_. Ok (remove_certificate wallet course s))"

definition revoke :: "env \<Rightarrow> address \<Rightarrow> address \<Rightarrow> hash32 \<Rightarrow> cert_state \<Rightarrow> (ContractError, cert_state) outcome" where
  "revoke env caller wallet course s = revoke_impl env caller wallet course [] s"

definition revoke_with_reason ::
  "env \<Rightarrow> address \<Rightarrow> address \<Rightarrow> hash32 \<Rightarrow> bytes \<Rightarrow> cert_state \<Rightarrow> (ContractError, cert_state) outcome" where
  "revoke_with_reason env caller wallet course reason s = revoke_impl env caller wallet course reason s"

definition get_certificate :: "cert_state \<Rightarrow> address \<Rightarrow> hash32 \<Rightarrow> Certificate option" where
  "get_certificate s wallet course = Certs s (wallet, course)"

text \<open>The code of the contract is replaced, its state is not.\<close>

definition upgrade :: "env \<Rightarrow> address \<Rightarrow> hash32 \<Rightarrow> cert_state \<Rightarrow> (ContractError, cert_state) outcome" where
  "upgrade env caller wasm s = and_then (require_admin env caller s) (\<lambda>_. Ok s)"

definition propose_admin_transfer :: "env \<Rightarrow> address \<Rightarrow> address \<Rightarrow> cert_state \<Rightarrow> (ContractError, cert_state) outcome" where
  "propose_admin_transfer env caller new_admin s =
     and_then (require_admin env caller s) (\<lambda>_.
     if new_admin = caller then Err Unauthorized
     else Ok (set_pending_admin new_admin (u64_saturating_add (timestamp env) ADMIN_TRANSFER_TTL) s))"

definition accept_admin_transfer :: "env \<Rightarrow> cert_state \<Rightarrow> (ContractError, cert_state) outcome" where
  "accept_admin_transfer env s =
     and_then (ok_or (PendingAdmin s) NoPendingTransfer) (\<lambda>pending.
     and_then (require_auth env pending) (\<lambda>_.
     if timestamp env > unwrap_or (PendingAdminExpiry s) 0 then Err PendingAdminExpired
     else Ok (clear_pending_admin (s\<lparr>Admin := Some pending\<rparr>))))"

definition cancel_admin_transfer :: "env \<Rightarrow> address \<Rightarrow> cert_state \<Rightarrow> (ContractError, cert_state) outcome" where
  "cancel_admin_transfer env caller s =
     and_then (require_admin env caller s) (\<lambda>_.
     if PendingAdmin s = None then Err NoPendingTransfer else Ok (clear_pending_admin s))"

definition propose_key_rotation :: "env \<Rightarrow> address \<Rightarrow> bytes \<Rightarrow> cert_state \<Rightarrow> (ContractError, cert_state) outcome" where
  "propose_key_rotation env caller new_pubkey s =
     and_then (require_admin env caller s) (\<lambda>_.
     and_then (validate_pubkey new_pubkey) (\<lambda>key.
     Ok (set_pending_backend_pubkey key (u64_saturating_add (timestamp env) ROTATION_PROPOSAL_TTL) s)))"

definition activate_key_rotation :: "env \<Rightarrow> address \<Rightarrow> cert_state \<Rightarrow> (ContractError, cert_state) outcome" where
  "activate_key_rotation env caller s =
     and_then (require_admin env caller s) (\<lambda>_.
     and_then (ok_or (PendingBackendPubKey s) NoPendingKeyRotation) (\<lambda>key.
     if timestamp env > unwrap_or (PendingBackendPubKeyExpiry s) 0 then Err PendingKeyRotationExpired
     else Ok (clear_pending_backend_pubkey (s\<lparr>BackendPubKey := Some key\<rparr>))))"

definition cancel_key_rotation :: "env \<Rightarrow> address \<Rightarrow> cert_state \<Rightarrow> (ContractError, cert_state) outcome" where
  "cancel_key_rotation env caller s =
     and_then (require_admin env caller s) (\<lambda>_.
     if PendingBackendPubKey s = None then Err NoPendingKeyRotation else Ok (clear_pending_backend_pubkey s))"

definition propose_minter_rotation :: "env \<Rightarrow> address \<Rightarrow> address \<Rightarrow> cert_state \<Rightarrow> (ContractError, cert_state) outcome" where
  "propose_minter_rotation env caller new_minter s =
     and_then (require_admin env caller s) (\<lambda>_.
     Ok (set_pending_minter new_minter (u64_saturating_add (timestamp env) ROTATION_PROPOSAL_TTL) s))"

definition activate_minter_rotation :: "env \<Rightarrow> address \<Rightarrow> cert_state \<Rightarrow> (ContractError, cert_state) outcome" where
  "activate_minter_rotation env caller s =
     and_then (require_admin env caller s) (\<lambda>_.
     and_then (ok_or (PendingMinter s) NoPendingMinterRotation) (\<lambda>minter.
     if timestamp env > unwrap_or (PendingMinterExpiry s) 0 then Err PendingMinterRotationExpired
     else Ok (clear_pending_minter (s\<lparr>Minter := Some minter\<rparr>))))"

definition cancel_minter_rotation :: "env \<Rightarrow> address \<Rightarrow> cert_state \<Rightarrow> (ContractError, cert_state) outcome" where
  "cancel_minter_rotation env caller s =
     and_then (require_admin env caller s) (\<lambda>_.
     if PendingMinter s = None then Err NoPendingMinterRotation else Ok (clear_pending_minter s))"

section \<open>Calls and steps\<close>

datatype cert_call =
    Init address bytes address | TogglePause address bool | Mint address hash32 hash32 nat bytes
  | MintCertificate address hash32 bytes | Transfer address address hash32 | Revoke address address hash32
  | RevokeWithReason address address hash32 bytes | Upgrade address hash32 | ProposeAdmin address address | AcceptAdmin
  | CancelAdmin address | ProposeKey address bytes | ActivateKey address | CancelKey address
  | ProposeMinter address address | ActivateMinter address | CancelMinter address

fun cert_exec :: "proof_host \<Rightarrow> env \<Rightarrow> cert_call \<Rightarrow> cert_state \<Rightarrow> (ContractError, cert_state) outcome" where
  "cert_exec host env (Init a k m) s = init env a k m s"
| "cert_exec host env (TogglePause a b) s = toggle_pause env a b s"
| "cert_exec host env (Mint w i n e p) s = mint host env w i n e p s"
| "cert_exec host env (MintCertificate w i u) s = mint_certificate env w i u s"
| "cert_exec host env (Transfer a b i) s = transfer env a b i s"
| "cert_exec host env (Revoke a w i) s = revoke env a w i s"
| "cert_exec host env (RevokeWithReason a w i r) s = revoke_with_reason env a w i r s"
| "cert_exec host env (Upgrade a h) s = upgrade env a h s"
| "cert_exec host env (ProposeAdmin a b) s = propose_admin_transfer env a b s"
| "cert_exec host env AcceptAdmin s = accept_admin_transfer env s"
| "cert_exec host env (CancelAdmin a) s = cancel_admin_transfer env a s"
| "cert_exec host env (ProposeKey a k) s = propose_key_rotation env a k s"
| "cert_exec host env (ActivateKey a) s = activate_key_rotation env a s"
| "cert_exec host env (CancelKey a) s = cancel_key_rotation env a s"
| "cert_exec host env (ProposeMinter a m) s = propose_minter_rotation env a m s"
| "cert_exec host env (ActivateMinter a) s = activate_minter_rotation env a s"
| "cert_exec host env (CancelMinter a) s = cancel_minter_rotation env a s"

inductive cert_step :: "proof_host \<Rightarrow> cert_state \<Rightarrow> cert_state \<Rightarrow> bool" for host where
  call: "cert_exec host env c s = Ok t \<Longrightarrow> cert_step host s t"

inductive_cases cert_stepE: "cert_step host s t"

end
