(* ===== verification/Certificate_Properties.thy ===== *)
theory Certificate_Properties
  imports Certificates
begin

text \<open>
  What the certificate contract guarantees: certificates never move and their numbers are never used again, a proof
  of the backend mints one certificate on one contract and network, and the roles are in the hands of the admin. One
  finding: the lifetimes of proposals are counted in seconds although they were chosen in ledgers.
\<close>

section \<open>The invariant\<close>

definition next_id :: "cert_state \<Rightarrow> nat" where
  "next_id s = unwrap_or (NextTokenId s) 0"

definition certs_wf :: "cert_state \<Rightarrow> bool" where
  "certs_wf s \<longleftrightarrow>
     (\<forall>w i c. Certs s (w, i) = Some c \<longrightarrow> recipient c = w \<and> course_id c = i \<and> soul_bound c \<and> token_id c < next_id s) \<and>
     (\<forall>j k c d. Certs s j = Some c \<longrightarrow> Certs s k = Some d \<longrightarrow> token_id c = token_id d \<longrightarrow> j = k)"

lemma certs_wfD:
  assumes "certs_wf s"
  shows "Certs s (w, i) = Some c \<Longrightarrow> recipient c = w \<and> course_id c = i \<and> soul_bound c \<and> token_id c < next_id s"
    "Certs s j = Some c \<Longrightarrow> Certs s k = Some d \<Longrightarrow> token_id c = token_id d \<Longrightarrow> j = k"
  using assms unfolding certs_wf_def by blast+

definition certs_evolve :: "cert_state \<Rightarrow> cert_state \<Rightarrow> bool" where
  "certs_evolve s t \<longleftrightarrow> next_id s \<le> next_id t \<and> (\<forall>n. nonce_consumed s n \<longrightarrow> nonce_consumed t n) \<and>
     (\<forall>k c. Certs t k = Some c \<longrightarrow> Certs s k = Some c \<or> next_id s \<le> token_id c)"

definition new_certificate :: "address \<Rightarrow> hash32 \<Rightarrow> cert_state \<Rightarrow> Certificate" where
  "new_certificate w i s = \<lparr>recipient = w, course_id = i, token_id = next_id s, soul_bound = True\<rparr>"

lemma require_admin_Ok [outcome_iff]: "require_admin env a s = Ok u \<longleftrightarrow> auth env a \<and> Admin s = Some a"
  by (auto simp: require_admin_def outcome_iff split: option.splits)

lemma next_token_id_Ok [outcome_iff]:
  "next_token_id s = Ok r \<longleftrightarrow> r = (next_id s, s\<lparr>NextTokenId := Some (next_id s + 1)\<rparr>) \<and> fits_u64 (next_id s + 1)"
  by (auto simp: next_token_id_def next_id_def outcome_iff Let_def)

lemma proof_verified_Ok [outcome_iff]:
  "verify_backend_proof host env key w i n e p = Ok u \<longleftrightarrow> length p = 64 \<and> decodes_key host key \<and>
     length (proof_message host (self env) w i n e) \<le> 512 \<and> verify_strict host key (proof_message host (self env) w i n e) p"
  by (auto simp: verify_backend_proof_def Let_def)

lemma mint_Ok:
  assumes "mint host env w i n e p s = Ok t"
  obtains key where "\<not> get_paused s" "timestamp env < e" "\<not> nonce_consumed s n" "BackendPubKey s = Some key" "length p = 64"
    "verify_strict host key (proof_message host (self env) w i n e) p" "Certs s (w, i) = None"
    "t = s\<lparr>Certs := (Certs s)((w, i) \<mapsto> new_certificate w i s), NextTokenId := Some (next_id s + 1),
       ConsumedNonce := (ConsumedNonce s)(n \<mapsto> True)\<rparr>"
  using assms by (auto simp: mint_def outcome_iff Let_def consume_nonce_def save_certificate_def new_certificate_def next_id_def
      split: if_splits)

lemma mint_certificate_Ok:
  assumes "mint_certificate env w i u s = Ok t"
  obtains m where "\<not> get_paused s" "Minter s = Some m" "auth env m" "Certs s (w, i) = None"
    "t = s\<lparr>Certs := (Certs s)((w, i) \<mapsto> new_certificate w i s), NextTokenId := Some (next_id s + 1)\<rparr>"
  using assms by (auto simp: mint_certificate_def outcome_iff save_certificate_def new_certificate_def split: if_splits)

lemma transfer_fails: "certs_wf s \<Longrightarrow> \<not> is_ok (transfer env a b i s)"
  using certs_wfD(1) by (auto simp: is_ok_iff transfer_def outcome_iff)

lemmas role_call_defs = init_def toggle_pause_def upgrade_def propose_admin_transfer_def accept_admin_transfer_def
  cancel_admin_transfer_def propose_key_rotation_def activate_key_rotation_def cancel_key_rotation_def
  propose_minter_rotation_def activate_minter_rotation_def cancel_minter_rotation_def set_pending_admin_def
  clear_pending_admin_def set_pending_backend_pubkey_def clear_pending_backend_pubkey_def set_pending_minter_def
  clear_pending_minter_def

fun role_call :: "cert_call \<Rightarrow> bool" where
  "role_call (Mint w i n e p) \<longleftrightarrow> False"
| "role_call (MintCertificate w i u) \<longleftrightarrow> False"
| "role_call (Transfer a b i) \<longleftrightarrow> False"
| "role_call (Revoke a w i) \<longleftrightarrow> False"
| "role_call (RevokeWithReason a w i r) \<longleftrightarrow> False"
| "role_call _ \<longleftrightarrow> True"

lemma role_call_keeps:
  "cert_exec host env c s = Ok t \<Longrightarrow> role_call c \<Longrightarrow>
   Certs t = Certs s \<and> NextTokenId t = NextTokenId s \<and> ConsumedNonce t = ConsumedNonce s"
  by (cases c) (auto simp: role_call_defs outcome_iff split: if_splits)

lemma cert_call_cases:
  assumes "cert_exec host env c s = Ok t" "certs_wf s"
  obtains (proof_mint) w i n e p where "c = Mint w i n e p" "mint host env w i n e p s = Ok t"
  | (minter_mint) w i u where "c = MintCertificate w i u" "mint_certificate env w i u s = Ok t"
  | (revoked) a w i where "auth env a" "Admin s = Some a" "t = remove_certificate w i s"
  | (roles) "role_call c" "Certs t = Certs s" "NextTokenId t = NextTokenId s" "ConsumedNonce t = ConsumedNonce s"
proof (cases c)
  case (Mint w i n e p)
  with assms(1) proof_mint show thesis by simp
next
  case (MintCertificate w i u)
  with assms(1) minter_mint show thesis by simp
next
  case (Transfer a b i)
  with assms transfer_fails show thesis by (auto simp: is_ok_iff)
next
  case (Revoke a w i)
  with assms(1) revoked show thesis by (auto simp: revoke_def revoke_impl_def outcome_iff)
next
  case (RevokeWithReason a w i r)
  with assms(1) revoked show thesis by (auto simp: revoke_with_reason_def revoke_impl_def outcome_iff)
qed (use role_call_keeps [OF assms(1)] roles in simp_all)

lemma minted_ok:
  assumes "certs_wf s" "Certs s (w, i) = None" "Certs t = (Certs s)((w, i) \<mapsto> new_certificate w i s)"
    "NextTokenId t = Some (next_id s + 1)" "\<And>n. nonce_consumed s n \<Longrightarrow> nonce_consumed t n"
  shows "certs_wf t \<and> certs_evolve s t"
proof
  have step: "next_id t = next_id s + 1" using assms(4) by (simp add: next_id_def)
  have old: "token_id d < next_id s" if "Certs s k = Some d" for k d
    using certs_wfD(1) [OF assms(1), of "fst k" "snd k" d] that by simp
  show "certs_evolve s t"
    using assms(3,5) by (auto simp: certs_evolve_def step new_certificate_def)
  show "certs_wf t" unfolding certs_wf_def
  proof (intro conjI allI impI)
    fix v j c
    assume "Certs t (v, j) = Some c"
    then show "recipient c = v" "course_id c = j" "soul_bound c" "token_id c < next_id t"
      using certs_wfD(1) [OF assms(1), of v j c] by (auto simp: assms(3) step new_certificate_def split: if_splits)
  next
    fix j k c d
    assume "Certs t j = Some c" "Certs t k = Some d" "token_id c = token_id d"
    then show "j = k"
      using certs_wfD(2) [OF assms(1), of j c k d] old [of j c] old [of k d]
      by (auto simp: assms(3) new_certificate_def split: if_splits)
  qed
qed

lemma cert_step_ok:
  assumes "cert_step host s t" "certs_wf s"
  shows "certs_wf t \<and> certs_evolve s t"
  using assms(1)
proof (rule cert_stepE)
  fix env c
  assume "cert_exec host env c s = Ok t"
  then show ?thesis using assms(2)
  proof (cases rule: cert_call_cases)
    case (proof_mint w i n e p)
    show ?thesis
      by (rule mint_Ok [OF proof_mint(2)], rule minted_ok [OF assms(2)]) (auto simp: nonce_consumed_def)
  next
    case (minter_mint w i u)
    show ?thesis
      by (rule mint_certificate_Ok [OF minter_mint(2)], rule minted_ok [OF assms(2)]) (auto simp: nonce_consumed_def)
  next
    case (revoked a w i)
    then show ?thesis using certs_wfD [OF assms(2)]
      by (auto simp: certs_wf_def certs_evolve_def remove_certificate_def next_id_def nonce_consumed_def)
  next
    case roles
    then show ?thesis using assms(2) by (auto simp: certs_wf_def certs_evolve_def next_id_def nonce_consumed_def)
  qed
qed

lemma certs_evolve_trans: "certs_evolve s t \<Longrightarrow> certs_evolve t u \<Longrightarrow> certs_evolve s u"
  unfolding certs_evolve_def by (meson le_trans)

interpretation certs: evolving "cert_step host" certs_wf certs_evolve for host
proof
  show "certs_evolve s s" for s by (simp add: certs_evolve_def)
qed (use cert_step_ok certs_evolve_trans in blast)+

lemma certs_reachable: "(cert_step host)\<^sup>*\<^sup>* cert_init s \<Longrightarrow> certs_wf s"
  using certs.run [of host cert_init s] by (simp add: certs_wf_def cert_init_def)

section \<open>Messages\<close>

text \<open>
  What is assumed of the host: the XDR encoding of an address ends where its content says, so that no encoding is a
  prefix of another one.
\<close>

definition self_delimiting :: "(address \<Rightarrow> bytes) \<Rightarrow> bool" where
  "self_delimiting xdr \<longleftrightarrow> (\<forall>a b x y. xdr a @ x = xdr b @ y \<longrightarrow> a = b)"

lemma self_delimitingD: "self_delimiting xdr \<Longrightarrow> xdr a @ x = xdr b @ y \<Longrightarrow> a = b \<and> x = y"
  unfolding self_delimiting_def by (metis same_append_eq)

text \<open>
  A proof stands for one mint. Two messages that the backend signs are equal only if they name the same
  contract, network, wallet, course, nonce and expiry: a proof made for one contract or network is none for another.
\<close>

theorem proof_message_commits:
  assumes "self_delimiting (to_xdr h)" "to_xdr h' = to_xdr h" "length (network_id h) = 32" "length (network_id h') = 32"
    "length i = 32" "length i' = 32" "length n = 32" "length n' = 32" "fits_u64 e" "fits_u64 e'"
  shows "proof_message h a w i n e = proof_message h' a' w' i' n' e' \<longleftrightarrow>
    a = a' \<and> network_id h = network_id h' \<and> w = w' \<and> i = i' \<and> n = n' \<and> e = e'"
proof
  assume "proof_message h a w i n e = proof_message h' a' w' i' n' e'"
  then have "to_xdr h a @ (network_id h @ to_xdr h w @ i @ n @ be_bytes 8 e) =
      to_xdr h a' @ (network_id h' @ to_xdr h w' @ i' @ n' @ be_bytes 8 e')"
    using assms(2) by (simp add: proof_message_def)
  from self_delimitingD [OF assms(1) this] have "a = a'" "network_id h = network_id h'"
    "to_xdr h w @ (i @ n @ be_bytes 8 e) = to_xdr h w' @ (i' @ n' @ be_bytes 8 e')" using assms(3,4) by simp_all
  moreover from self_delimitingD [OF assms(1) this(3)] have "w = w'" "i = i'" "n = n'" "be_bytes 8 e = be_bytes 8 e'"
    using assms(5-8) by simp_all
  moreover from this(4) have "e = e'" using assms(9,10) be_bytes_inject [of e 8 e'] by (simp add: fits_u64_def)
  ultimately show "a = a' \<and> network_id h = network_id h' \<and> w = w' \<and> i = i' \<and> n = n' \<and> e = e'" by simp
qed (use assms(2) in \<open>simp add: proof_message_def\<close>)

text \<open>A stand-in for the host: an address is a count of ones that a zero ends, and the first byte of a proof names the nonce.\<close>

definition cert_host :: "byte \<Rightarrow> proof_host" where
  "cert_host x = \<lparr>to_xdr = (\<lambda>a. replicate a 1 @ [0]), network_id = replicate 32 x, decodes_key = (\<lambda>_. True),
     verify_strict = (\<lambda>k m p. k = replicate 32 1 \<and> length m = 125 \<and> hd p = m ! 92)\<rparr>"

lemma demo_delimited: "self_delimiting (to_xdr (cert_host x))"
proof -
  have "a = b" if "replicate a (1 :: byte) @ 0 # xs = replicate b 1 @ 0 # ys" for a b xs ys
    using that
  proof (induction a arbitrary: b)
    case 0
    then show ?case by (cases b) auto
  next
    case (Suc a)
    then show ?case by (cases b) auto
  qed
  note count = this
  show ?thesis unfolding self_delimiting_def
  proof (intro allI impI)
    fix a b xs ys
    assume "to_xdr (cert_host x) a @ xs = to_xdr (cert_host x) b @ ys"
    then have "replicate a (1 :: byte) @ 0 # xs = replicate b 1 @ 0 # ys" by (simp add: cert_host_def)
    then show "a = b" by (rule count)
  qed
qed

theorem proof_message_commits_witness:
  "proof_message (cert_host 5) 2 3 (replicate 32 7) (replicate 32 8) 900 \<noteq>
   proof_message (cert_host 6) 2 3 (replicate 32 7) (replicate 32 8) 900"
  using proof_message_commits [of "cert_host 5" "cert_host 6" "replicate 32 7" "replicate 32 7" "replicate 32 8"
      "replicate 32 8" 900 900 2 3 2 3] demo_delimited [of 5]
  by (simp add: cert_host_def fits_u64_def)

section \<open>Certificates\<close>


definition cert_env :: "nat \<Rightarrow> env" where
  "cert_env now = \<lparr>timestamp = now, ledger_sequence = 0, self = 0, auth = (\<lambda>_. True)\<rparr>"

definition demo_started :: cert_state where
  "demo_started = cert_init\<lparr>Admin := Some 1, Paused := Some False, BackendPubKey := Some (replicate 32 1), Minter := Some 2\<rparr>"

definition demo_minted :: cert_state where
  "demo_minted = demo_started\<lparr>Certs := [(3, replicate 32 7) \<mapsto> \<lparr>recipient = 3, course_id = replicate 32 7, token_id = 0, soul_bound = True\<rparr>],
     NextTokenId := Some 1, ConsumedNonce := [replicate 32 8 \<mapsto> True]\<rparr>"

lemma demo_init: "cert_exec (cert_host 5) (cert_env 10) (Init 1 (replicate 32 1) 2) cert_init = Ok demo_started"
  by (simp add: init_def validate_pubkey_def demo_started_def cert_init_def cert_env_def require_auth_def)

lemma demo_mint:
  "mint (cert_host 5) (cert_env 20) 3 (replicate 32 7) (replicate 32 8) 900 (8 # replicate 63 0) demo_started = Ok demo_minted"
proof -
  let ?start = "DOMAIN_PREFIX @ [0] @ replicate 32 5 @ replicate 3 1 @ [0] @ replicate 32 7"
  have start: "length ?start = 85" by (simp add: DOMAIN_PREFIX_def ascii_def)
  have msg: "proof_message (cert_host 5) 0 3 (replicate 32 7) (replicate 32 8) 900 = ?start @ (replicate 32 8 @ be_bytes 8 900)"
    by (simp add: proof_message_def cert_host_def)
  have "(?start @ (replicate 32 8 @ be_bytes 8 900)) ! 92 = (replicate 32 8 @ be_bytes 8 900) ! 7"
    using start by (subst nth_append) simp
  also have "\<dots> = 8" by (subst nth_append) simp
  finally have "verify_backend_proof (cert_host 5) (cert_env 20) (replicate 32 1) 3 (replicate 32 7) (replicate 32 8) 900
      (8 # replicate 63 0) = Ok ()"
    using start unfolding verify_backend_proof_def by (simp add: cert_env_def msg) (simp add: cert_host_def)
  then show ?thesis
    by (simp add: mint_def demo_started_def demo_minted_def cert_init_def get_paused_def cert_env_def nonce_consumed_def
        consume_nonce_def next_token_id_def save_certificate_def fits_u64_def)
qed

lemma demo_steps: "(cert_step (cert_host 5))\<^sup>*\<^sup>* cert_init demo_started" "cert_step (cert_host 5) demo_started demo_minted"
  using demo_init cert_step.call by (blast, use demo_mint in \<open>auto intro: cert_step.call [where c = "Mint 3 (replicate 32 7) (replicate 32 8) 900 (8 # replicate 63 0)"]\<close>)


text \<open>
  Certificates need the backend or the minter, and a proof counts once. When a call in a reachable state has
  stored a certificate that was not there, the contract is not paused, and the call is a mint with a signature that
  verifies under the current backend key for exactly this contract, wallet, course, nonce and a later expiry, or it is
  a mint that the current minter has authorised. In the first case no later mint with this nonce succeeds, whatever
  its other arguments.
\<close>

theorem certificates_need_proof:
  assumes "(cert_step host)\<^sup>*\<^sup>* cert_init s" "cert_exec host env call s = Ok t"
    "get_certificate s w i = None" "get_certificate t w i = Some c"
  shows "\<not> is_paused s \<and>
    ((\<exists>n e p key. call = Mint w i n e p \<and> timestamp env < e \<and> BackendPubKey s = Some key \<and>
        verify_strict host key (proof_message host (self env) w i n e) p \<and>
        (\<forall>u env' w' i' e' p'. (cert_step host)\<^sup>*\<^sup>* t u \<longrightarrow> \<not> is_ok (mint host env' w' i' n e' p' u))) \<or>
     (\<exists>uri m. call = MintCertificate w i uri \<and> Minter s = Some m \<and> auth env m))"
proof -
  have wf: "certs_wf s" by (rule certs_reachable [OF assms(1)])
  have t: "certs_wf t" using cert_step_ok [OF cert_step.call [OF assms(2)] wf] by simp
  have new: "Certs s (w, i) = None" "Certs t (w, i) = Some c" using assms(3,4) by (simp_all add: get_certificate_def)
  from assms(2) wf show ?thesis
  proof (cases rule: cert_call_cases)
    case (proof_mint w' i' n e p)
    from proof_mint(2) obtain key where key: "\<not> get_paused s" "timestamp env < e" "BackendPubKey s = Some key"
      "verify_strict host key (proof_message host (self env) w' i' n e) p" "nonce_consumed t n"
      "Certs t = (Certs s)((w', i') \<mapsto> new_certificate w' i' s)"
      by (rule mint_Ok) (simp add: nonce_consumed_def)
    have "\<not> is_ok (mint host env' w'' i'' n e' p' u)" if "(cert_step host)\<^sup>*\<^sup>* t u" for u env' w'' i'' e' p'
    proof -
      have "nonce_consumed u n" using certs.run_evolves [OF that t] key(5) unfolding certs_evolve_def by blast
      then show ?thesis by (simp add: mint_def)
    qed
    moreover have "w' = w" "i' = i" using new key(6) by (auto split: if_splits)
    ultimately show ?thesis using proof_mint(1) key(1-4) by (auto simp: is_paused_def)
  next
    case (minter_mint w' i' u)
    from minter_mint(2) obtain m where m: "\<not> get_paused s" "Minter s = Some m" "auth env m"
      "Certs t = (Certs s)((w', i') \<mapsto> new_certificate w' i' s)"
      by (rule mint_certificate_Ok) simp
    moreover have "w' = w" "i' = i" using new m(4) by (auto split: if_splits)
    ultimately show ?thesis using minter_mint(1) by (auto simp: is_paused_def)
  next
    case (revoked a v j)
    then show ?thesis using new by (auto simp: remove_certificate_def split: if_splits)
  next
    case roles
    then show ?thesis using new by simp
  qed
qed

theorem certificates_need_proof_witness:
  "\<not> is_ok (mint (cert_host 5) (cert_env 40) 4 (replicate 32 7) (replicate 32 8) 900 (8 # replicate 63 0) demo_minted)"
proof -
  have "cert_exec (cert_host 5) (cert_env 20) (Mint 3 (replicate 32 7) (replicate 32 8) 900 (8 # replicate 63 0)) demo_started = Ok demo_minted"
    "get_certificate demo_started 3 (replicate 32 7) = None"
    "get_certificate demo_minted 3 (replicate 32 7) = Some \<lparr>recipient = 3, course_id = replicate 32 7, token_id = 0, soul_bound = True\<rparr>"
    by (simp_all add: demo_mint) (simp_all add: get_certificate_def demo_started_def cert_init_def demo_minted_def)
  from certificates_need_proof [OF demo_steps(1) this] show ?thesis by blast
qed

section \<open>Roles\<close>

text \<open>
  The roles are in the hands of the admin. When a call succeeds after the initialisation and changes the pause,
  the backend key, the minter, one of the proposals for them or the admin, or removes a certificate, then the current
  admin has authorised it; the one exception is the nominated admin, who takes over within the lifetime of the
  nomination. A new backend key or minter is the one that was proposed, and still alive.
\<close>

theorem roles_change_by_admin:
  assumes "cert_exec host env call s = Ok t" "Admin s = Some a" "certs_wf s"
  shows "(Paused t \<noteq> Paused s \<or> BackendPubKey t \<noteq> BackendPubKey s \<or> PendingBackendPubKey t \<noteq> PendingBackendPubKey s \<or>
      Minter t \<noteq> Minter s \<or> PendingMinter t \<noteq> PendingMinter s \<or> (\<exists>k. Certs s k \<noteq> None \<and> Certs t k = None) \<longrightarrow> auth env a) \<and>
    (Admin t \<noteq> Admin s \<or> PendingAdmin t \<noteq> PendingAdmin s \<longrightarrow> auth env a \<and> Admin t = Admin s \<or>
      (\<exists>b. PendingAdmin s = Some b \<and> auth env b \<and> Admin t = Some b \<and> timestamp env \<le> unwrap_or (PendingAdminExpiry s) 0)) \<and>
    (BackendPubKey t \<noteq> BackendPubKey s \<longrightarrow> BackendPubKey t = PendingBackendPubKey s \<and>
      timestamp env \<le> unwrap_or (PendingBackendPubKeyExpiry s) 0) \<and>
    (Minter t \<noteq> Minter s \<longrightarrow> Minter t = PendingMinter s \<and> timestamp env \<le> unwrap_or (PendingMinterExpiry s) 0)"
  using assms(1,3)
proof (cases rule: cert_call_cases)
  case (proof_mint w i n e p)
  show ?thesis by (rule mint_Ok [OF proof_mint(2)]) (auto split: if_splits)
next
  case (minter_mint w i u)
  show ?thesis by (rule mint_certificate_Ok [OF minter_mint(2)]) (auto split: if_splits)
next
  case (revoked b w i)
  then show ?thesis using assms(2) by (simp add: remove_certificate_def)
next
  case roles
  then show ?thesis using assms(1,2)
    by (cases call) (auto simp: role_call_defs outcome_iff not_less split: if_splits)
qed

lemma demo_proposed:
  "cert_exec (cert_host 5) (cert_env 100) (ProposeKey 1 (replicate 32 2)) demo_started =
   Ok (demo_started\<lparr>PendingBackendPubKey := Some (replicate 32 2), PendingBackendPubKeyExpiry := Some 121060\<rparr>)"
  by (simp add: role_call_defs require_admin_def require_auth_def validate_pubkey_def demo_started_def cert_env_def
      u64_saturating_add_def ROTATION_PROPOSAL_TTL_def)

theorem roles_change_by_admin_witness:
  "auth (cert_env 200) 1 \<and> timestamp (cert_env 200) \<le> 121060"
proof -
  let ?s = "demo_started\<lparr>PendingBackendPubKey := Some (replicate 32 2), PendingBackendPubKeyExpiry := Some 121060\<rparr>"
  let ?t = "demo_started\<lparr>BackendPubKey := Some (replicate 32 2)\<rparr>"
  have call: "cert_exec (cert_host 5) (cert_env 200) (ActivateKey 1) ?s = Ok ?t"
    by (simp add: role_call_defs require_admin_def require_auth_def demo_started_def cert_init_def cert_env_def)
  have "certs_wf ?s" by (simp add: certs_wf_def demo_started_def cert_init_def)
  from roles_change_by_admin [OF call _ this, of 1] show ?thesis
    by (simp add: demo_started_def cert_init_def)
qed

section \<open>Findings\<close>

text \<open>
  The lifetimes of proposals are too short. The constants were chosen in ledgers of five seconds, 120960 ledgers for
  seven days and 518400 for thirty, but they are added to the timestamp, which counts seconds: a proposed key or
  minter is gone after 33.6 hours, and a nominated admin after six days.
\<close>

theorem proposals_expire_early:
  "\<exists>s. cert_exec (cert_host 5) (cert_env 100) (ProposeKey 1 (replicate 32 2)) demo_started = Ok s \<and>
     activate_key_rotation (cert_env (100 + 2 * 86400)) 1 s = Err PendingKeyRotationExpired \<and>
     ROTATION_PROPOSAL_TTL * 5 = 7 * 86400"
proof -
  have "activate_key_rotation (cert_env (100 + 2 * 86400)) 1
      (demo_started\<lparr>PendingBackendPubKey := Some (replicate 32 2), PendingBackendPubKeyExpiry := Some 121060\<rparr>) =
      Err PendingKeyRotationExpired"
    by (simp add: activate_key_rotation_def require_admin_def require_auth_def demo_started_def cert_init_def cert_env_def)
  with demo_proposed show ?thesis unfolding ROTATION_PROPOSAL_TTL_def by auto
qed

end
