(* ===== verification/Scholarship_Eligibility.thy ===== *)
theory Scholarship_Eligibility
  imports Transition_Systems
begin

text \<open>
  \<open>contracts/scholarship-eligibility/src/lib.rs\<close>: versioned eligibility rules, attestations of allowlisted issuers,
  and the evaluation of a subject against the latest rule, for scholarship programs (required attestation types)
  and for mentorship programs (typed criteria). The host's SHA-256 and the XDR encoding of a criterion are
  parameters.
\<close>

section \<open>State\<close>

datatype ContractError =
    NotInitialized | AlreadyInitialized | NotAdmin | NotAuthorizedIssuer | EmptyRule | RuleTooLarge | NoRulePublished
  | RuleNotFound | InvalidExpiry | AttestationNotFound | NotAttestationIssuer | VersionOverflow | EmptyMentorshipRule
  | MentorshipRuleTooLarge | InvalidCriterion | NoMentorshipRulePublished | MentorshipRuleNotFound | CriterionNotInRule
  | CriterionAttestationNotFound | NotCriterionAttestationIssuer

definition CONTRACT_VERSION :: nat where
  "CONTRACT_VERSION = 2"

definition MAX_RULE_REQUIREMENTS :: nat where
  "MAX_RULE_REQUIREMENTS = 10"

definition MAX_MENTORSHIP_CRITERIA :: nat where
  "MAX_MENTORSHIP_CRITERIA = 20"

definition global_scope :: hash32 where
  "global_scope = replicate 32 0"

record EligibilityRule =
  rule_version :: nat
  required_types :: "string list"
  rule_published_at :: nat

record Attestation =
  issuer :: address
  expiry :: nat
  issued_at :: nat
  revoked :: bool

datatype MentorshipCriterion =
    Role hash32 | Organization hash32 | CourseProgress hash32 nat | Skill hash32 nat | GeographyPolicy hash32
  | AgeGuardian nat bool | Prerequisite hash32

record MentorshipEligibilityRule =
  version :: nat
  all_of :: "MentorshipCriterion list"
  any_of :: "MentorshipCriterion list"
  published_at :: nat

record CriterionAttestation =
  criterion_issuer :: address
  evidence_hash :: hash32
  criterion_expiry :: nat
  criterion_issued_at :: nat
  criterion_revoked :: bool

record eligibility_state =
  Admin :: "address option"
  Issuer :: "address \<rightharpoonup> bool"
  RuleVersion :: "hash32 \<rightharpoonup> nat"
  Rule :: "hash32 \<times> nat \<rightharpoonup> EligibilityRule"
  AttestationAt :: "address \<times> hash32 \<times> string \<rightharpoonup> Attestation"
  MentorshipRuleVersion :: "hash32 \<rightharpoonup> nat"
  MentorshipRule :: "hash32 \<times> nat \<rightharpoonup> MentorshipEligibilityRule"
  CriterionAttestationAt :: "address \<times> hash32 \<times> hash32 \<rightharpoonup> CriterionAttestation"

definition eligibility_init :: eligibility_state where
  "eligibility_init = \<lparr>Admin = None, Issuer = Map.empty, RuleVersion = Map.empty, Rule = Map.empty,
     AttestationAt = Map.empty, MentorshipRuleVersion = Map.empty, MentorshipRule = Map.empty,
     CriterionAttestationAt = Map.empty\<rparr>"

section \<open>Admin and issuers\<close>

definition initialize :: "env \<Rightarrow> address \<Rightarrow> eligibility_state \<Rightarrow> (ContractError, eligibility_state) outcome" where
  "initialize env admin s =
     (if Admin s \<noteq> None then Err AlreadyInitialized
      else and_then (require_auth env admin) (\<lambda>_. Ok (s\<lparr>Admin := Some admin\<rparr>)))"

definition require_admin :: "env \<Rightarrow> eligibility_state \<Rightarrow> address \<Rightarrow> (ContractError, unit) outcome" where
  "require_admin env s caller =
     and_then (ok_or (Admin s) NotInitialized) (\<lambda>admin.
     if caller \<noteq> admin then Err NotAdmin else require_auth env caller)"

definition add_issuer :: "env \<Rightarrow> address \<Rightarrow> address \<Rightarrow> eligibility_state \<Rightarrow> (ContractError, eligibility_state) outcome" where
  "add_issuer env admin i s =
     and_then (require_admin env s admin) (\<lambda>_. Ok (s\<lparr>Issuer := (Issuer s)(i \<mapsto> True)\<rparr>))"

definition remove_issuer :: "env \<Rightarrow> address \<Rightarrow> address \<Rightarrow> eligibility_state \<Rightarrow> (ContractError, eligibility_state) outcome" where
  "remove_issuer env admin i s =
     and_then (require_admin env s admin) (\<lambda>_. Ok (s\<lparr>Issuer := (Issuer s)(i \<mapsto> False)\<rparr>))"

definition is_authorized_issuer :: "eligibility_state \<Rightarrow> address \<Rightarrow> bool" where
  "is_authorized_issuer s i = unwrap_or (Issuer s i) False"

section \<open>Rules by attestation type\<close>

definition publish_eligibility_rule ::
  "env \<Rightarrow> address \<Rightarrow> hash32 \<Rightarrow> string list \<Rightarrow> eligibility_state \<Rightarrow> (ContractError, nat \<times> eligibility_state) outcome" where
  "publish_eligibility_rule env admin p types s =
     and_then (require_admin env s admin) (\<lambda>_.
     if types = [] then Err EmptyRule
     else if length types > MAX_RULE_REQUIREMENTS then Err RuleTooLarge
     else and_then (ok_or (u32_checked (unwrap_or (RuleVersion s p) 0 + 1)) VersionOverflow) (\<lambda>next_version.
     let rule = \<lparr>rule_version = next_version, required_types = types, rule_published_at = timestamp env\<rparr>;
         s = s\<lparr>Rule := (Rule s)((p, next_version) \<mapsto> rule)\<rparr>;
         s = s\<lparr>RuleVersion := (RuleVersion s)(p \<mapsto> next_version)\<rparr>
     in Ok (next_version, s)))"

definition get_latest_rule_version :: "eligibility_state \<Rightarrow> hash32 \<Rightarrow> (ContractError, nat) outcome" where
  "get_latest_rule_version s p = ok_or (RuleVersion s p) NoRulePublished"

definition get_eligibility_rule :: "eligibility_state \<Rightarrow> hash32 \<Rightarrow> nat \<Rightarrow> (ContractError, EligibilityRule) outcome" where
  "get_eligibility_rule s p v = ok_or (Rule s (p, v)) RuleNotFound"

section \<open>Rules by criterion\<close>

fun is_valid_criterion :: "MentorshipCriterion \<Rightarrow> bool" where
  "is_valid_criterion (CourseProgress _ progress_bps) = (progress_bps > 0 \<and> progress_bps \<le> 10000)"
| "is_valid_criterion (Skill _ minimum_level) = (minimum_level > 0)"
| "is_valid_criterion (AgeGuardian minimum_age _) = (minimum_age \<le> 130)"
| "is_valid_criterion _ = True"

definition criterion_hash :: "(bytes \<Rightarrow> hash32) \<Rightarrow> (MentorshipCriterion \<Rightarrow> bytes) \<Rightarrow> MentorshipCriterion \<Rightarrow> hash32" where
  "criterion_hash sha xdr c = sha (ascii ''CHAINVERSE_MENTORSHIP_ELIGIBILITY_V1'' @ xdr c)"

text \<open>The two loops that look for a criterion with the hash of a later one, or of one in the other group.\<close>

fun repeated_loop ::
  "(bytes \<Rightarrow> hash32) \<Rightarrow> (MentorshipCriterion \<Rightarrow> bytes) \<Rightarrow> MentorshipCriterion list \<Rightarrow> MentorshipCriterion list \<Rightarrow> bool" where
  "repeated_loop sha xdr [] others = False"
| "repeated_loop sha xdr (c # cs) others =
     (if list_ex (\<lambda>other. criterion_hash sha xdr c = criterion_hash sha xdr other) (cs @ others) then True
      else repeated_loop sha xdr cs others)"

definition publish_mentorship_eligibility_rule ::
  "(bytes \<Rightarrow> hash32) \<Rightarrow> (MentorshipCriterion \<Rightarrow> bytes) \<Rightarrow> env \<Rightarrow> address \<Rightarrow> hash32 \<Rightarrow> MentorshipCriterion list \<Rightarrow>
   MentorshipCriterion list \<Rightarrow> eligibility_state \<Rightarrow> (ContractError, nat \<times> eligibility_state) outcome" where
  "publish_mentorship_eligibility_rule sha xdr env admin p alls anys s =
     and_then (require_admin env s admin) (\<lambda>_.
     and_then (ok_or (u32_checked (length alls + length anys)) MentorshipRuleTooLarge) (\<lambda>criterion_count.
     if criterion_count = 0 then Err EmptyMentorshipRule
     else if criterion_count > MAX_MENTORSHIP_CRITERIA then Err MentorshipRuleTooLarge
     else if list_ex (\<lambda>c. \<not> is_valid_criterion c) (alls @ anys) then Err InvalidCriterion
     else if repeated_loop sha xdr alls anys then Err InvalidCriterion
     else if repeated_loop sha xdr anys [] then Err InvalidCriterion
     else and_then (ok_or (u32_checked (unwrap_or (MentorshipRuleVersion s p) 0 + 1)) VersionOverflow) (\<lambda>next_version.
     let rule = \<lparr>version = next_version, all_of = alls, any_of = anys, published_at = timestamp env\<rparr>;
         s = s\<lparr>MentorshipRule := (MentorshipRule s)((p, next_version) \<mapsto> rule)\<rparr>;
         s = s\<lparr>MentorshipRuleVersion := (MentorshipRuleVersion s)(p \<mapsto> next_version)\<rparr>
     in Ok (next_version, s))))"

definition get_latest_mentorship_rule_version :: "eligibility_state \<Rightarrow> hash32 \<Rightarrow> (ContractError, nat) outcome" where
  "get_latest_mentorship_rule_version s p = ok_or (MentorshipRuleVersion s p) NoMentorshipRulePublished"

definition get_mentorship_eligibility_rule ::
  "eligibility_state \<Rightarrow> hash32 \<Rightarrow> nat \<Rightarrow> (ContractError, MentorshipEligibilityRule) outcome" where
  "get_mentorship_eligibility_rule s p v = ok_or (MentorshipRule s (p, v)) MentorshipRuleNotFound"

definition issue_criterion_attestation ::
  "(bytes \<Rightarrow> hash32) \<Rightarrow> (MentorshipCriterion \<Rightarrow> bytes) \<Rightarrow> env \<Rightarrow> address \<Rightarrow> address \<Rightarrow> hash32 \<Rightarrow> MentorshipCriterion \<Rightarrow>
   hash32 \<Rightarrow> nat \<Rightarrow> eligibility_state \<Rightarrow> (ContractError, eligibility_state) outcome" where
  "issue_criterion_attestation sha xdr env i subject p c evidence until s =
     and_then (require_auth env i) (\<lambda>_.
     if \<not> is_authorized_issuer s i then Err NotAuthorizedIssuer
     else if until \<le> timestamp env then Err InvalidExpiry
     else if \<not> is_valid_criterion c then Err InvalidCriterion
     else and_then (get_latest_mentorship_rule_version s p) (\<lambda>latest_version.
     and_then (get_mentorship_eligibility_rule s p latest_version) (\<lambda>rule.
     let h = criterion_hash sha xdr c in
     if \<not> list_ex (\<lambda>required. h = criterion_hash sha xdr required) (all_of rule @ any_of rule) then Err CriterionNotInRule
     else
       let record = \<lparr>criterion_issuer = i, evidence_hash = evidence, criterion_expiry = until,
             criterion_issued_at = timestamp env, criterion_revoked = False\<rparr>
       in Ok (s\<lparr>CriterionAttestationAt := (CriterionAttestationAt s)((subject, p, h) \<mapsto> record)\<rparr>))))"

definition get_criterion_attestation ::
  "(bytes \<Rightarrow> hash32) \<Rightarrow> (MentorshipCriterion \<Rightarrow> bytes) \<Rightarrow> eligibility_state \<Rightarrow> address \<Rightarrow> hash32 \<Rightarrow> MentorshipCriterion \<Rightarrow>
   (ContractError, CriterionAttestation) outcome" where
  "get_criterion_attestation sha xdr s subject p c =
     ok_or (CriterionAttestationAt s (subject, p, criterion_hash sha xdr c)) CriterionAttestationNotFound"

definition revoke_criterion_attestation ::
  "(bytes \<Rightarrow> hash32) \<Rightarrow> (MentorshipCriterion \<Rightarrow> bytes) \<Rightarrow> env \<Rightarrow> address \<Rightarrow> address \<Rightarrow> hash32 \<Rightarrow> MentorshipCriterion \<Rightarrow>
   eligibility_state \<Rightarrow> (ContractError, eligibility_state) outcome" where
  "revoke_criterion_attestation sha xdr env caller subject p c s =
     and_then (require_auth env caller) (\<lambda>_.
     let h = criterion_hash sha xdr c in
     and_then (ok_or (CriterionAttestationAt s (subject, p, h)) CriterionAttestationNotFound) (\<lambda>record.
     if caller \<noteq> criterion_issuer record \<and> Admin s \<noteq> Some caller then Err NotCriterionAttestationIssuer
     else Ok (s\<lparr>CriterionAttestationAt := (CriterionAttestationAt s)
            ((subject, p, h) \<mapsto> record\<lparr>criterion_revoked := True\<rparr>)\<rparr>)))"

definition has_valid_criterion_attestation ::
  "(bytes \<Rightarrow> hash32) \<Rightarrow> (MentorshipCriterion \<Rightarrow> bytes) \<Rightarrow> env \<Rightarrow> eligibility_state \<Rightarrow> address \<Rightarrow> hash32 \<Rightarrow>
   MentorshipCriterion \<Rightarrow> bool" where
  "has_valid_criterion_attestation sha xdr env s subject p c =
     (case CriterionAttestationAt s (subject, p, criterion_hash sha xdr c) of
        Some record \<Rightarrow> \<not> criterion_revoked record \<and> criterion_expiry record > timestamp env
      | None \<Rightarrow> False)"

text \<open>The loop of \<open>evaluate_mentorship_eligibility\<close> over the criteria that are all required.\<close>

fun all_of_loop ::
  "(bytes \<Rightarrow> hash32) \<Rightarrow> (MentorshipCriterion \<Rightarrow> bytes) \<Rightarrow> env \<Rightarrow> eligibility_state \<Rightarrow> address \<Rightarrow> hash32 \<Rightarrow>
   MentorshipCriterion list \<Rightarrow> bool" where
  "all_of_loop sha xdr env s subject p [] = True"
| "all_of_loop sha xdr env s subject p (c # cs) =
     (if \<not> has_valid_criterion_attestation sha xdr env s subject p c then False
      else all_of_loop sha xdr env s subject p cs)"

definition evaluate_mentorship_eligibility ::
  "(bytes \<Rightarrow> hash32) \<Rightarrow> (MentorshipCriterion \<Rightarrow> bytes) \<Rightarrow> env \<Rightarrow> hash32 \<Rightarrow> address \<Rightarrow> eligibility_state \<Rightarrow>
   (ContractError, bool) outcome" where
  "evaluate_mentorship_eligibility sha xdr env p subject s =
     and_then (get_latest_mentorship_rule_version s p) (\<lambda>latest_version.
     and_then (get_mentorship_eligibility_rule s p latest_version) (\<lambda>rule.
     if \<not> all_of_loop sha xdr env s subject p (all_of rule) then Ok False
     else if any_of rule \<noteq> [] \<and>
       \<not> list_ex (\<lambda>c. has_valid_criterion_attestation sha xdr env s subject p c) (any_of rule) then Ok False
     else Ok True))"

section \<open>Attestations by type\<close>

definition issue_attestation ::
  "env \<Rightarrow> address \<Rightarrow> address \<Rightarrow> hash32 \<Rightarrow> string \<Rightarrow> nat \<Rightarrow> eligibility_state \<Rightarrow> (ContractError, eligibility_state) outcome" where
  "issue_attestation env i subject scope ty until s =
     and_then (require_auth env i) (\<lambda>_.
     if \<not> is_authorized_issuer s i then Err NotAuthorizedIssuer
     else if until \<le> timestamp env then Err InvalidExpiry
     else
       let attestation = \<lparr>issuer = i, expiry = until, issued_at = timestamp env, revoked = False\<rparr>
       in Ok (s\<lparr>AttestationAt := (AttestationAt s)((subject, scope, ty) \<mapsto> attestation)\<rparr>))"

definition revoke_attestation ::
  "env \<Rightarrow> address \<Rightarrow> address \<Rightarrow> hash32 \<Rightarrow> string \<Rightarrow> eligibility_state \<Rightarrow> (ContractError, eligibility_state) outcome" where
  "revoke_attestation env caller subject scope ty s =
     and_then (require_auth env caller) (\<lambda>_.
     and_then (ok_or (AttestationAt s (subject, scope, ty)) AttestationNotFound) (\<lambda>attestation.
     let is_admin = (Admin s = Some caller) in
     if caller \<noteq> issuer attestation \<and> \<not> is_admin then Err NotAttestationIssuer
     else Ok (s\<lparr>AttestationAt := (AttestationAt s)((subject, scope, ty) \<mapsto> attestation\<lparr>revoked := True\<rparr>)\<rparr>)))"

definition get_attestation :: "eligibility_state \<Rightarrow> address \<Rightarrow> hash32 \<Rightarrow> string \<Rightarrow> (ContractError, Attestation) outcome" where
  "get_attestation s subject scope ty = ok_or (AttestationAt s (subject, scope, ty)) AttestationNotFound"

definition has_valid_attestation :: "env \<Rightarrow> eligibility_state \<Rightarrow> address \<Rightarrow> hash32 \<Rightarrow> string \<Rightarrow> bool" where
  "has_valid_attestation env s subject scope ty =
     (case AttestationAt s (subject, scope, ty) of
        Some a \<Rightarrow> \<not> revoked a \<and> expiry a > timestamp env
      | None \<Rightarrow> False)"

text \<open>The loop of \<open>evaluate_eligibility\<close> over the types that are left.\<close>

fun types_loop :: "env \<Rightarrow> eligibility_state \<Rightarrow> address \<Rightarrow> hash32 \<Rightarrow> string list \<Rightarrow> bool" where
  "types_loop env s subject p [] = True"
| "types_loop env s subject p (ty # tys) =
     (let satisfied = (has_valid_attestation env s subject p ty \<or> has_valid_attestation env s subject global_scope ty)
      in if \<not> satisfied then False else types_loop env s subject p tys)"

definition evaluate_eligibility ::
  "env \<Rightarrow> hash32 \<Rightarrow> address \<Rightarrow> eligibility_state \<Rightarrow> (ContractError, bool) outcome" where
  "evaluate_eligibility env p subject s =
     and_then (ok_or (RuleVersion s p) NoRulePublished) (\<lambda>latest_version.
     and_then (ok_or (Rule s (p, latest_version)) RuleNotFound) (\<lambda>rule.
     Ok (types_loop env s subject p (required_types rule))))"

definition contract_version :: nat where
  "contract_version = CONTRACT_VERSION"

section \<open>Calls and steps\<close>

datatype eligibility_call =
    Initialize address | AddIssuer address address | RemoveIssuer address address
  | PublishRule address hash32 "string list"
  | PublishMentorshipRule address hash32 "MentorshipCriterion list" "MentorshipCriterion list"
  | IssueCriterion address address hash32 MentorshipCriterion hash32 nat
  | RevokeCriterion address address hash32 MentorshipCriterion
  | Issue address address hash32 string nat | Revoke address address hash32 string

fun eligibility_exec ::
  "(bytes \<Rightarrow> hash32) \<Rightarrow> (MentorshipCriterion \<Rightarrow> bytes) \<Rightarrow> env \<Rightarrow> eligibility_call \<Rightarrow> eligibility_state \<Rightarrow>
   (ContractError, eligibility_state) outcome" where
  "eligibility_exec sha xdr env (Initialize a) s = initialize env a s"
| "eligibility_exec sha xdr env (AddIssuer a i) s = add_issuer env a i s"
| "eligibility_exec sha xdr env (RemoveIssuer a i) s = remove_issuer env a i s"
| "eligibility_exec sha xdr env (PublishRule a p tys) s = state_of (publish_eligibility_rule env a p tys s)"
| "eligibility_exec sha xdr env (PublishMentorshipRule a p cs ds) s =
     state_of (publish_mentorship_eligibility_rule sha xdr env a p cs ds s)"
| "eligibility_exec sha xdr env (IssueCriterion i u p c e x) s = issue_criterion_attestation sha xdr env i u p c e x s"
| "eligibility_exec sha xdr env (RevokeCriterion a u p c) s = revoke_criterion_attestation sha xdr env a u p c s"
| "eligibility_exec sha xdr env (Issue i u p ty x) s = issue_attestation env i u p ty x s"
| "eligibility_exec sha xdr env (Revoke a u p ty) s = revoke_attestation env a u p ty s"

inductive eligibility_step ::
  "(bytes \<Rightarrow> hash32) \<Rightarrow> (MentorshipCriterion \<Rightarrow> bytes) \<Rightarrow> eligibility_state \<Rightarrow> eligibility_state \<Rightarrow> bool"
  for sha xdr where
  call: "eligibility_exec sha xdr env c s = Ok t \<Longrightarrow> eligibility_step sha xdr s t"

inductive_cases eligibility_stepE: "eligibility_step sha xdr s t"

end
