(* ===== verification/Eligibility_Evaluation.thy ===== *)
theory Eligibility_Evaluation
  imports Scholarship_Eligibility
begin

text \<open>
  What the eligibility contract guarantees: evaluations against the latest rule are exact and never fail once a rule
  is published, rules are bounded, free of repetitions and immutable, and validity comes only from an allowlisted
  issuer. Two findings: attestations of removed issuers keep counting, and an issuer can take over the
  attestation of another one.
\<close>

section \<open>The loops\<close>

lemma types_loop_eq: "types_loop env s u p tys \<longleftrightarrow>
  (\<forall>ty\<in>set tys. has_valid_attestation env s u p ty \<or> has_valid_attestation env s u global_scope ty)"
  by (induction tys) (auto simp: Let_def)

lemma all_of_loop_eq: "all_of_loop sha xdr env s u p cs \<longleftrightarrow> (\<forall>c\<in>set cs. has_valid_criterion_attestation sha xdr env s u p c)"
  by (induction cs) auto

lemma repeated_loop_eq: "repeated_loop sha xdr cs ds \<longleftrightarrow>
  \<not> distinct (map (criterion_hash sha xdr) cs) \<or>
  (\<exists>c\<in>set cs. \<exists>d\<in>set ds. criterion_hash sha xdr c = criterion_hash sha xdr d)"
  by (induction cs) (auto simp: list_ex_iff image_iff)

lemma repeated_groups:
  "\<not> repeated_loop sha xdr cs ds \<and> \<not> repeated_loop sha xdr ds [] \<longleftrightarrow> distinct (map (criterion_hash sha xdr) (cs @ ds))"
  by (auto simp: repeated_loop_eq)

section \<open>Well-formed states\<close>

lemma eligibility_admin_Ok [outcome_iff]: "require_admin env s a = Ok u \<longleftrightarrow> Admin s = Some a \<and> auth env a"
  by (auto simp: require_admin_def outcome_iff)

definition rule_ok :: "nat \<Rightarrow> EligibilityRule \<Rightarrow> bool" where
  "rule_ok v r \<longleftrightarrow> rule_version r = v \<and> required_types r \<noteq> [] \<and> length (required_types r) \<le> MAX_RULE_REQUIREMENTS"

definition mentorship_rule_ok ::
  "(bytes \<Rightarrow> hash32) \<Rightarrow> (MentorshipCriterion \<Rightarrow> bytes) \<Rightarrow> nat \<Rightarrow> MentorshipEligibilityRule \<Rightarrow> bool" where
  "mentorship_rule_ok sha xdr v r \<longleftrightarrow> version r = v \<and> all_of r @ any_of r \<noteq> [] \<and>
     length (all_of r @ any_of r) \<le> MAX_MENTORSHIP_CRITERIA \<and> (\<forall>c\<in>set (all_of r @ any_of r). is_valid_criterion c) \<and>
     distinct (map (criterion_hash sha xdr) (all_of r @ any_of r))"

text \<open>Versions are numbered without gaps from 1, and every one of them is stored.\<close>

definition numbered :: "('k \<rightharpoonup> nat) \<Rightarrow> ('k \<times> nat \<rightharpoonup> 'r) \<Rightarrow> (nat \<Rightarrow> 'r \<Rightarrow> bool) \<Rightarrow> bool" where
  "numbered latest rules ok \<longleftrightarrow>
     (\<forall>p v. rules (p, v) \<noteq> None \<longleftrightarrow> 1 \<le> v \<and> v \<le> unwrap_or (latest p) 0) \<and>
     (\<forall>p v. latest p = Some v \<longrightarrow> 1 \<le> v) \<and> (\<forall>p v r. rules (p, v) = Some r \<longrightarrow> ok v r)"

lemma numberedD:
  assumes "numbered latest rules ok"
  shows "rules (p, v) \<noteq> None \<longleftrightarrow> 1 \<le> v \<and> v \<le> unwrap_or (latest p) 0" "latest p = Some v \<Longrightarrow> 1 \<le> v"
    "rules (p, v) = Some r \<Longrightarrow> ok v r"
  using assms unfolding numbered_def by blast+

lemma numbered_latest:
  assumes "numbered latest rules ok" "latest p = Some v"
  obtains r where "rules (p, v) = Some r" "ok v r"
proof -
  have "rules (p, v) \<noteq> None" using numberedD(1) [OF assms(1), of p v] numberedD(2) [OF assms] assms(2) by simp
  then obtain r where "rules (p, v) = Some r" by auto
  with numberedD(3) [OF assms(1)] that show thesis by blast
qed

lemma numbered_publish:
  assumes "numbered latest rules ok" "v = unwrap_or (latest p) 0 + 1" "ok v r"
  shows "numbered (latest(p \<mapsto> v)) (rules((p, v) \<mapsto> r)) ok" "rules (p, v) = None"
proof -
  note n = numberedD [OF assms(1)]
  show new: "rules (p, v) = None" using n(1) [of p v] assms(2) by simp
  have "(rules((p, v) \<mapsto> r)) (q, w) \<noteq> None \<longleftrightarrow> 1 \<le> w \<and> w \<le> unwrap_or ((latest(p \<mapsto> v)) q) 0" for q w
    using n(1) [of q w] assms(2) by auto
  moreover have "1 \<le> w" if "(latest(p \<mapsto> v)) q = Some w" for q w
    using that n(2) [of q w] assms(2) by (simp split: if_splits)
  moreover have "ok w x" if "(rules((p, v) \<mapsto> r)) (q, w) = Some x" for q w x
    using that n(3) [of q w x] assms(3) by (auto split: if_splits)
  ultimately show "numbered (latest(p \<mapsto> v)) (rules((p, v) \<mapsto> r)) ok" unfolding numbered_def by blast
qed

definition eligibility_wf :: "(bytes \<Rightarrow> hash32) \<Rightarrow> (MentorshipCriterion \<Rightarrow> bytes) \<Rightarrow> eligibility_state \<Rightarrow> bool" where
  "eligibility_wf sha xdr s \<longleftrightarrow> numbered (RuleVersion s) (Rule s) rule_ok \<and>
     numbered (MentorshipRuleVersion s) (MentorshipRule s) (mentorship_rule_ok sha xdr)"

lemma eligibility_init_wf: "eligibility_wf sha xdr eligibility_init"
  by (simp add: eligibility_wf_def numbered_def eligibility_init_def)

definition rules_kept :: "eligibility_state \<Rightarrow> eligibility_state \<Rightarrow> bool" where
  "rules_kept s t \<longleftrightarrow> kept (=) (Rule s) (Rule t) \<and> kept (=) (MentorshipRule s) (MentorshipRule t) \<and>
     kept (\<le>) (RuleVersion s) (RuleVersion t) \<and> kept (\<le>) (MentorshipRuleVersion s) (MentorshipRuleVersion t)"

text \<open>A call leaves the rules alone or publishes the next version of one.\<close>

lemma publish_rule_Ok:
  assumes "publish_eligibility_rule env a p tys s = Ok (v, t)"
  obtains r where "v = unwrap_or (RuleVersion s p) 0 + 1" "rule_ok v r" "required_types r = tys"
    "t = s\<lparr>Rule := (Rule s)((p, v) \<mapsto> r), RuleVersion := (RuleVersion s)(p \<mapsto> v)\<rparr>"
  using assms
  by (intro that [of "\<lparr>rule_version = v, required_types = tys, rule_published_at = timestamp env\<rparr>"])
    (auto simp: publish_eligibility_rule_def outcome_iff Let_def rule_ok_def)

lemma publish_mentorship_rule_Ok:
  assumes "publish_mentorship_eligibility_rule sha xdr env a p cs ds s = Ok (v, t)"
  obtains r where "v = unwrap_or (MentorshipRuleVersion s p) 0 + 1" "mentorship_rule_ok sha xdr v r"
    "all_of r = cs" "any_of r = ds"
    "t = s\<lparr>MentorshipRule := (MentorshipRule s)((p, v) \<mapsto> r), MentorshipRuleVersion := (MentorshipRuleVersion s)(p \<mapsto> v)\<rparr>"
proof -
  from assms have "\<not> repeated_loop sha xdr cs ds \<and> \<not> repeated_loop sha xdr ds []"
    by (auto simp: publish_mentorship_eligibility_rule_def outcome_iff)
  then have "distinct (map (criterion_hash sha xdr) (cs @ ds))" by (simp only: repeated_groups)
  with assms show thesis
    by (intro that [of "\<lparr>version = v, all_of = cs, any_of = ds, published_at = timestamp env\<rparr>"])
      (auto simp: publish_mentorship_eligibility_rule_def outcome_iff Let_def mentorship_rule_ok_def list_ex_iff)
qed

lemma exec_rules:
  assumes "eligibility_exec sha xdr env c s = Ok t"
  obtains (same) "Rule t = Rule s" "RuleVersion t = RuleVersion s" "MentorshipRule t = MentorshipRule s"
      "MentorshipRuleVersion t = MentorshipRuleVersion s"
  | (by_type) p v r where "v = unwrap_or (RuleVersion s p) 0 + 1" "rule_ok v r" "Rule t = (Rule s)((p, v) \<mapsto> r)"
      "RuleVersion t = (RuleVersion s)(p \<mapsto> v)" "MentorshipRule t = MentorshipRule s"
      "MentorshipRuleVersion t = MentorshipRuleVersion s"
  | (by_criterion) p v r where "v = unwrap_or (MentorshipRuleVersion s p) 0 + 1" "mentorship_rule_ok sha xdr v r"
      "MentorshipRule t = (MentorshipRule s)((p, v) \<mapsto> r)" "MentorshipRuleVersion t = (MentorshipRuleVersion s)(p \<mapsto> v)"
      "Rule t = Rule s" "RuleVersion t = RuleVersion s"
proof (cases c)
  case (PublishRule a p tys)
  with assms obtain v where "publish_eligibility_rule env a p tys s = Ok (v, t)" by (auto simp: outcome_iff)
  then show thesis by (rule publish_rule_Ok) (rule by_type, simp_all)
next
  case (PublishMentorshipRule a p cs ds)
  with assms obtain v where "publish_mentorship_eligibility_rule sha xdr env a p cs ds s = Ok (v, t)" by (auto simp: outcome_iff)
  then show thesis by (rule publish_mentorship_rule_Ok) (rule by_criterion, simp_all)
qed (rule same; use assms in \<open>auto simp: initialize_def add_issuer_def remove_issuer_def issue_criterion_attestation_def
    revoke_criterion_attestation_def issue_attestation_def revoke_attestation_def outcome_iff Let_def\<close>)+

lemma eligibility_exec_wf:
  assumes "eligibility_exec sha xdr env c s = Ok t" "eligibility_wf sha xdr s"
  shows "eligibility_wf sha xdr t \<and> rules_kept s t"
  using assms(1)
proof (cases rule: exec_rules)
  case (by_type p v r)
  have n: "numbered (RuleVersion s) (Rule s) rule_ok" using assms(2) by (simp add: eligibility_wf_def)
  note pub = numbered_publish [OF n by_type(1,2)]
  have "kept (\<le>) (RuleVersion s) (RuleVersion t)" "kept (=) (Rule s) (Rule t)"
    using pub(2) by (auto simp: by_type(1,3,4) kept_def)
  then show ?thesis using assms(2) pub(1) by (simp add: rules_kept_def eligibility_wf_def by_type(3-6) kept_refl)
next
  case (by_criterion p v r)
  have n: "numbered (MentorshipRuleVersion s) (MentorshipRule s) (mentorship_rule_ok sha xdr)"
    using assms(2) by (simp add: eligibility_wf_def)
  note pub = numbered_publish [OF n by_criterion(1,2)]
  have "kept (\<le>) (MentorshipRuleVersion s) (MentorshipRuleVersion t)" "kept (=) (MentorshipRule s) (MentorshipRule t)"
    using pub(2) by (auto simp: by_criterion(1,3,4) kept_def)
  then show ?thesis using assms(2) pub(1) by (simp add: rules_kept_def eligibility_wf_def by_criterion(3-6) kept_refl)
qed (use assms(2) in \<open>simp_all add: eligibility_wf_def rules_kept_def kept_refl\<close>)

lemma rules_kept_trans: "rules_kept s t \<Longrightarrow> rules_kept t u \<Longrightarrow> rules_kept s u"
  unfolding rules_kept_def by (blast intro: kept_trans [where R = "(=)"] kept_trans [where R = "(\<le>)"] order_trans trans)

interpretation eligibility: evolving "eligibility_step sha xdr" "eligibility_wf sha xdr" rules_kept for sha xdr
proof unfold_locales
  show "rules_kept s s" for s by (simp add: rules_kept_def kept_refl)
qed (auto dest: eligibility_exec_wf intro: rules_kept_trans elim!: eligibility_stepE)

lemmas eligibility_run_wf = eligibility.run [OF _ eligibility_init_wf]

end
