(* ===== verification/Eligibility_Attestations.thy ===== *)
theory Eligibility_Attestations
  imports Eligibility_Evaluation
begin

text \<open>
  The properties of the eligibility contract, and the findings.
\<close>

section \<open>Concrete runs\<close>

definition eligibility_env :: "nat \<Rightarrow> env" where
  "eligibility_env n = \<lparr>timestamp = n, ledger_sequence = 1, self = 9, auth = \<lambda>_. True\<rparr>"

text \<open>An injective encoding of criteria: a tag, numbers in unary, and the rest.\<close>

fun demo_criterion_xdr :: "MentorshipCriterion \<Rightarrow> bytes" where
  "demo_criterion_xdr (Role h) = 0 # h"
| "demo_criterion_xdr (Organization h) = 1 # h"
| "demo_criterion_xdr (CourseProgress h n) = 2 # replicate n 1 @ 0 # h"
| "demo_criterion_xdr (Skill h n) = 3 # replicate n 1 @ 0 # h"
| "demo_criterion_xdr (GeographyPolicy h) = 4 # h"
| "demo_criterion_xdr (AgeGuardian n b) = 5 # replicate n 1 @ [0, of_bool b]"
| "demo_criterion_xdr (Prerequisite h) = 6 # h"

lemma unary_inject: "replicate m (1 :: byte) @ 0 # h = replicate n 1 @ 0 # h' \<longleftrightarrow> m = n \<and> h = h'"
proof (induction m arbitrary: n)
  case 0
  show ?case by (cases n) auto
next
  case (Suc m)
  show ?case by (cases n) (simp_all add: Suc.IH)
qed

lemma demo_criterion_xdr_inj: "inj demo_criterion_xdr"
proof (rule injI)
  fix c d
  assume "demo_criterion_xdr c = demo_criterion_xdr d"
  then show "c = d" by (cases c; cases d) (auto simp: unary_inject split: if_splits)
qed

lemma demo_criterion_hash_inj: "inj (criterion_hash (\<lambda>x. x) demo_criterion_xdr)"
  using demo_criterion_xdr_inj by (auto simp: inj_def criterion_hash_def)

text \<open>
  Program 5 requires the type ''id''; its mentorship rule requires a role and one of two skills. Issuer 2 vouches for
  subject 3.
\<close>

definition demo_eligibility :: "(env \<times> eligibility_call) list" where
  "demo_eligibility = [(eligibility_env 10, Initialize 1), (eligibility_env 10, AddIssuer 1 2), (eligibility_env 10, AddIssuer 1 4),
     (eligibility_env 10, PublishRule 1 [5] [''id'']),
     (eligibility_env 10, PublishMentorshipRule 1 [5] [Role [1]] [Skill [2] 3, Skill [2] 4]),
     (eligibility_env 20, Issue 2 3 [5] ''id'' 100), (eligibility_env 20, IssueCriterion 2 3 [5] (Role [1]) [7] 100),
     (eligibility_env 20, IssueCriterion 2 3 [5] (Skill [2] 4) [7] 100)]"

definition demo_attested :: eligibility_state where
  "demo_attested =
     (let rule = \<lparr>rule_version = 1, required_types = [''id''], rule_published_at = 10\<rparr>;
          mentorship_rule = \<lparr>version = 1, all_of = [Role [1]], any_of = [Skill [2] 3, Skill [2] 4], published_at = 10\<rparr>;
          record = \<lparr>criterion_issuer = 2, evidence_hash = [7], criterion_expiry = 100, criterion_issued_at = 20,
            criterion_revoked = False\<rparr>;
          h = criterion_hash (\<lambda>x. x) demo_criterion_xdr
      in \<lparr>Admin = Some 1, Issuer = [2 \<mapsto> True, 4 \<mapsto> True], RuleVersion = [[5] \<mapsto> 1], Rule = [([5], 1) \<mapsto> rule],
        AttestationAt = [(3, [5], ''id'') \<mapsto> \<lparr>issuer = 2, expiry = 100, issued_at = 20, revoked = False\<rparr>],
        MentorshipRuleVersion = [[5] \<mapsto> 1], MentorshipRule = [([5], 1) \<mapsto> mentorship_rule],
        CriterionAttestationAt = [(3, [5], h (Role [1])) \<mapsto> record, (3, [5], h (Skill [2] 4)) \<mapsto> record]\<rparr>)"

lemmas eligibility_call_defs = initialize_def require_admin_def add_issuer_def remove_issuer_def is_authorized_issuer_def
  publish_eligibility_rule_def publish_mentorship_eligibility_rule_def issue_criterion_attestation_def
  get_latest_mentorship_rule_version_def get_mentorship_eligibility_rule_def issue_attestation_def
  revoke_attestation_def state_of_def u32_checked_def range_defs MAX_RULE_REQUIREMENTS_def MAX_MENTORSHIP_CRITERIA_def
  Let_def

lemma demo_hash_eq: "criterion_hash (\<lambda>x. x) demo_criterion_xdr c = criterion_hash (\<lambda>x. x) demo_criterion_xdr d \<longleftrightarrow> c = d"
  using demo_criterion_hash_inj by (rule inj_eq)

lemma demo_eligibility_run:
  "run_calls (eligibility_exec (\<lambda>x. x) demo_criterion_xdr) demo_eligibility eligibility_init = Ok demo_attested"
  by (simp add: demo_eligibility_def eligibility_init_def eligibility_env_def demo_attested_def eligibility_call_defs demo_hash_eq
      del: One_nat_def)

lemma demo_attested_reachable: "(eligibility_step (\<lambda>x. x) demo_criterion_xdr)\<^sup>*\<^sup>* eligibility_init demo_attested"
  by (rule run_calls_steps [OF demo_eligibility_run]) (rule eligibility_step.call)

section \<open>Properties\<close>

text \<open>
  The evaluation by attestation types is exact and total. In every reachable state, a program without a rule is
  reported as such; otherwise the latest rule is stored and bounded, and the answer is whether the subject has,
  for every required type, a valid attestation for the program or for all programs. It never fails.
\<close>

theorem eligibility_exact:
  assumes "(eligibility_step sha xdr)\<^sup>*\<^sup>* eligibility_init s"
  shows "(get_latest_rule_version s p = Err NoRulePublished \<and> evaluate_eligibility env p u s = Err NoRulePublished) \<or>
    (\<exists>v r. get_latest_rule_version s p = Ok v \<and> get_eligibility_rule s p v = Ok r \<and>
      1 \<le> length (required_types r) \<and> length (required_types r) \<le> MAX_RULE_REQUIREMENTS \<and>
      evaluate_eligibility env p u s = Ok (\<forall>ty\<in>set (required_types r).
        \<exists>scope a. (scope = p \<or> scope = global_scope) \<and> get_attestation s u scope ty = Ok a \<and>
          \<not> revoked a \<and> timestamp env < expiry a))"
proof (cases "RuleVersion s p")
  case None
  then show ?thesis by (simp add: get_latest_rule_version_def evaluate_eligibility_def)
next
  case (Some v)
  have "numbered (RuleVersion s) (Rule s) rule_ok"
    using eligibility_run_wf [OF assms] by (simp add: eligibility_wf_def)
  from this Some obtain r where r: "Rule s (p, v) = Some r" "rule_ok v r" by (rule numbered_latest)
  have valid: "has_valid_attestation env s u scope ty \<longleftrightarrow>
      (\<exists>a. get_attestation s u scope ty = Ok a \<and> \<not> revoked a \<and> timestamp env < expiry a)" for scope ty
    by (auto simp: has_valid_attestation_def get_attestation_def outcome_iff split: option.splits)
  have "evaluate_eligibility env p u s = Ok (\<forall>ty\<in>set (required_types r).
        \<exists>scope a. (scope = p \<or> scope = global_scope) \<and> get_attestation s u scope ty = Ok a \<and>
          \<not> revoked a \<and> timestamp env < expiry a)"
    using Some r(1) unfolding evaluate_eligibility_def types_loop_eq valid by (simp add: ex_disj_distrib conj_disj_distribR)
  moreover have "1 \<le> length (required_types r)" "length (required_types r) \<le> MAX_RULE_REQUIREMENTS"
    using r(2) by (simp_all add: rule_ok_def Suc_le_eq)
  ultimately show ?thesis using Some r(1) by (simp add: get_latest_rule_version_def get_eligibility_rule_def)
qed

theorem eligibility_exact_witness:
  "evaluate_eligibility (eligibility_env 50) [5] 3 demo_attested = Ok True \<and>
   evaluate_eligibility (eligibility_env 50) [6] 3 demo_attested = Err NoRulePublished"
proof
  note exact = eligibility_exact [OF demo_attested_reachable]
  have "get_latest_rule_version demo_attested [5] = Ok 1" "get_latest_rule_version demo_attested [6] = Err NoRulePublished"
    "get_eligibility_rule demo_attested [5] 1 = Ok \<lparr>rule_version = 1, required_types = [''id''], rule_published_at = 10\<rparr>"
    "get_attestation demo_attested 3 [5] ''id'' = Ok \<lparr>issuer = 2, expiry = 100, issued_at = 20, revoked = False\<rparr>"
    by (simp_all add: get_latest_rule_version_def get_eligibility_rule_def get_attestation_def demo_attested_def Let_def)
  then show "evaluate_eligibility (eligibility_env 50) [5] 3 demo_attested = Ok True"
    "evaluate_eligibility (eligibility_env 50) [6] 3 demo_attested = Err NoRulePublished"
    using exact [of "[5]" "eligibility_env 50" 3] exact [of "[6]" "eligibility_env 50" 3]
    by (auto simp: eligibility_env_def)
qed

text \<open>
  C31. The evaluation by criteria is exact and total. In every reachable state the latest mentorship rule of a program
  is stored, has between one and twenty criteria, all valid and none repeated, and the answer is whether the
  subject holds a valid attestation for each criterion of the first group and, if the second group is not empty,
  for one of it.
\<close>

theorem mentorship_eligibility_exact:
  assumes "(eligibility_step sha xdr)\<^sup>*\<^sup>* eligibility_init s" and "get_latest_mentorship_rule_version s p = Ok v"
  shows "\<exists>r. get_mentorship_eligibility_rule s p v = Ok r \<and> distinct (all_of r @ any_of r) \<and>
    1 \<le> length (all_of r @ any_of r) \<and> length (all_of r @ any_of r) \<le> MAX_MENTORSHIP_CRITERIA \<and>
    (\<forall>c\<in>set (all_of r @ any_of r). is_valid_criterion c) \<and>
    evaluate_mentorship_eligibility sha xdr env p u s =
      (let attested = (\<lambda>c. \<exists>a. get_criterion_attestation sha xdr s u p c = Ok a \<and> \<not> criterion_revoked a \<and>
             timestamp env < criterion_expiry a)
       in Ok ((\<forall>c\<in>set (all_of r). attested c) \<and> (any_of r = [] \<or> (\<exists>c\<in>set (any_of r). attested c))))"
proof -
  have v: "MentorshipRuleVersion s p = Some v"
    using assms(2) by (simp add: get_latest_mentorship_rule_version_def outcome_iff)
  have "numbered (MentorshipRuleVersion s) (MentorshipRule s) (mentorship_rule_ok sha xdr)"
    using eligibility_run_wf [OF assms(1)] by (simp add: eligibility_wf_def)
  from this v obtain r where r: "MentorshipRule s (p, v) = Some r" "mentorship_rule_ok sha xdr v r" by (rule numbered_latest)
  have attested: "has_valid_criterion_attestation sha xdr env s u p c \<longleftrightarrow>
      (\<exists>a. get_criterion_attestation sha xdr s u p c = Ok a \<and> \<not> criterion_revoked a \<and> timestamp env < criterion_expiry a)" for c
    by (auto simp: has_valid_criterion_attestation_def get_criterion_attestation_def outcome_iff split: option.splits)
  have "distinct (all_of r @ any_of r)"
    using r(2) unfolding mentorship_rule_ok_def by (simp only: distinct_map)
  moreover have "1 \<le> length (all_of r @ any_of r)"
    using r(2) unfolding mentorship_rule_ok_def by (cases "all_of r @ any_of r") simp_all
  moreover have "get_mentorship_eligibility_rule s p v = Ok r" using r(1) by (simp add: get_mentorship_eligibility_rule_def)
  moreover have "evaluate_mentorship_eligibility sha xdr env p u s =
      Ok ((\<forall>c\<in>set (all_of r). has_valid_criterion_attestation sha xdr env s u p c) \<and>
        (any_of r = [] \<or> (\<exists>c\<in>set (any_of r). has_valid_criterion_attestation sha xdr env s u p c)))"
    using v r(1)
    by (simp add: evaluate_mentorship_eligibility_def get_latest_mentorship_rule_version_def
        get_mentorship_eligibility_rule_def all_of_loop_eq list_ex_iff)
  ultimately show ?thesis
    using r(2) unfolding Let_def attested mentorship_rule_ok_def by blast
qed

theorem mentorship_eligibility_exact_witness:
  "evaluate_mentorship_eligibility (\<lambda>x. x) demo_criterion_xdr (eligibility_env 50) [5] 3 demo_attested = Ok True"
proof -
  let ?get = "get_criterion_attestation (\<lambda>x. x) demo_criterion_xdr demo_attested 3 [5]"
  have version: "get_latest_mentorship_rule_version demo_attested [5] = Ok 1"
    "get_mentorship_eligibility_rule demo_attested [5] 1 =
       Ok \<lparr>version = 1, all_of = [Role [1]], any_of = [Skill [2] 3, Skill [2] 4], published_at = 10\<rparr>"
    by (simp_all add: get_latest_mentorship_rule_version_def get_mentorship_eligibility_rule_def demo_attested_def Let_def)
  have "?get c = Ok \<lparr>criterion_issuer = 2, evidence_hash = [7], criterion_expiry = 100, criterion_issued_at = 20,
      criterion_revoked = False\<rparr>" if "c = Role [1] \<or> c = Skill [2] 4" for c
    using that by (auto simp: get_criterion_attestation_def demo_attested_def Let_def demo_hash_eq)
  with mentorship_eligibility_exact [OF demo_attested_reachable version(1), of "eligibility_env 50" 3] version(2)
  show ?thesis by (auto simp: eligibility_env_def Let_def)
qed

text \<open>
  C32. Only issuers make a subject eligible. If a call makes an attestation valid that was not, it is the call in
  which an allowlisted issuer, who authorised it, issues exactly this attestation with an expiry in the future; for
  a criterion also the latest rule must contain it. The hypothesis is that criteria have distinct hashes.
\<close>

theorem validity_needs_issuer:
  assumes "inj (criterion_hash sha xdr)" and "eligibility_exec sha xdr env c s = Ok t"
  shows "(has_valid_attestation env' t u scope ty \<and> \<not> has_valid_attestation env' s u scope ty \<longrightarrow>
      (\<exists>i x. c = Issue i u scope ty x \<and> auth env i \<and> is_authorized_issuer s i \<and> timestamp env < x)) \<and>
    (has_valid_criterion_attestation sha xdr env' t u p cr \<and> \<not> has_valid_criterion_attestation sha xdr env' s u p cr \<longrightarrow>
      (\<exists>i h x v r. c = IssueCriterion i u p cr h x \<and> auth env i \<and> is_authorized_issuer s i \<and> timestamp env < x \<and>
        get_latest_mentorship_rule_version s p = Ok v \<and> get_mentorship_eligibility_rule s p v = Ok r \<and>
        cr \<in> set (all_of r @ any_of r)))"
proof -
  have hash: "criterion_hash sha xdr a = criterion_hash sha xdr b \<longleftrightarrow> a = b" for a b using assms(1) by (rule inj_eq)
  show ?thesis
  proof (cases c)
    case (Issue i w q y x)
    with assms(2) have ok: "auth env i" "is_authorized_issuer s i" "timestamp env < x" and
      t: "t = s\<lparr>AttestationAt := (AttestationAt s)((w, q, y) \<mapsto>
        \<lparr>issuer = i, expiry = x, issued_at = timestamp env, revoked = False\<rparr>)\<rparr>"
      by (auto simp: issue_attestation_def outcome_iff Let_def)
    show ?thesis
      using ok Issue
      by (auto simp: t has_valid_attestation_def has_valid_criterion_attestation_def split: option.splits if_splits)
  next
    case (IssueCriterion i w q k h x)
    with assms(2) obtain v r where ok: "auth env i" "is_authorized_issuer s i" "timestamp env < x"
      "get_latest_mentorship_rule_version s q = Ok v" "get_mentorship_eligibility_rule s q v = Ok r"
      "list_ex (\<lambda>required. criterion_hash sha xdr k = criterion_hash sha xdr required) (all_of r @ any_of r)" and
      t: "t = s\<lparr>CriterionAttestationAt := (CriterionAttestationAt s)((w, q, criterion_hash sha xdr k) \<mapsto>
        \<lparr>criterion_issuer = i, evidence_hash = h, criterion_expiry = x, criterion_issued_at = timestamp env,
         criterion_revoked = False\<rparr>)\<rparr>"
      by (auto simp: issue_criterion_attestation_def outcome_iff Let_def)
    have "k \<in> set (all_of r @ any_of r)" using ok(6) by (auto simp: list_ex_iff hash)
    with ok IssueCriterion show ?thesis
      by (auto simp: t hash has_valid_attestation_def has_valid_criterion_attestation_def split: option.splits if_splits)
  next
    case (Revoke a w q y)
    with assms(2) obtain k where "AttestationAt s (w, q, y) = Some k"
      "t = s\<lparr>AttestationAt := (AttestationAt s)((w, q, y) \<mapsto> k\<lparr>revoked := True\<rparr>)\<rparr>"
      by (auto simp: revoke_attestation_def outcome_iff Let_def)
    then show ?thesis by (auto simp: has_valid_attestation_def has_valid_criterion_attestation_def split: option.splits if_splits)
  next
    case (RevokeCriterion a w q k)
    with assms(2) obtain b where "CriterionAttestationAt s (w, q, criterion_hash sha xdr k) = Some b"
      "t = s\<lparr>CriterionAttestationAt := (CriterionAttestationAt s)((w, q, criterion_hash sha xdr k) \<mapsto> b\<lparr>criterion_revoked := True\<rparr>)\<rparr>"
      by (auto simp: revoke_criterion_attestation_def outcome_iff Let_def)
    then show ?thesis by (auto simp: has_valid_attestation_def has_valid_criterion_attestation_def split: option.splits if_splits)
  next
    case (PublishRule a q tys)
    with assms(2) obtain v where "publish_eligibility_rule env a q tys s = Ok (v, t)" by (auto simp: outcome_iff)
    then show ?thesis
      by (rule publish_rule_Ok) (simp add: has_valid_attestation_def has_valid_criterion_attestation_def)
  next
    case (PublishMentorshipRule a q cs ds)
    with assms(2) obtain v where "publish_mentorship_eligibility_rule sha xdr env a q cs ds s = Ok (v, t)" by (auto simp: outcome_iff)
    then show ?thesis
      by (rule publish_mentorship_rule_Ok) (simp add: has_valid_attestation_def has_valid_criterion_attestation_def)
  qed (use assms(2) in \<open>auto simp: initialize_def add_issuer_def remove_issuer_def outcome_iff has_valid_attestation_def
      has_valid_criterion_attestation_def\<close>)
qed

theorem validity_needs_issuer_witness:
  "\<exists>t i x. eligibility_exec (\<lambda>x. x) demo_criterion_xdr (eligibility_env 50) (Issue 4 8 [5] ''id'' 90) demo_attested = Ok t \<and>
     Issue 4 8 [5] ''id'' 90 = Issue i 8 [5] ''id'' x \<and> is_authorized_issuer demo_attested i"
proof -
  obtain t where t: "eligibility_exec (\<lambda>x. x) demo_criterion_xdr (eligibility_env 50) (Issue 4 8 [5] ''id'' 90) demo_attested = Ok t"
    "has_valid_attestation (eligibility_env 60) t 8 [5] ''id''" "\<not> has_valid_attestation (eligibility_env 60) demo_attested 8 [5] ''id''"
    by (simp add: issue_attestation_def is_authorized_issuer_def demo_attested_def eligibility_env_def has_valid_attestation_def Let_def)
  with validity_needs_issuer [OF demo_criterion_hash_inj t(1), of "eligibility_env 60" 8 "[5]" "''id''"] show ?thesis by blast
qed

text \<open>
  Published rules are final: in every later state they are stored unchanged, and the latest version never goes back.
\<close>

theorem rules_immutable:
  assumes "(eligibility_step sha xdr)\<^sup>*\<^sup>* eligibility_init s" and "(eligibility_step sha xdr)\<^sup>*\<^sup>* s t"
  shows "(get_eligibility_rule s p v = Ok r \<longrightarrow> get_eligibility_rule t p v = Ok r) \<and>
    (get_mentorship_eligibility_rule s p v = Ok m \<longrightarrow> get_mentorship_eligibility_rule t p v = Ok m) \<and>
    (get_latest_rule_version s p = Ok n \<longrightarrow> (\<exists>n'. get_latest_rule_version t p = Ok n' \<and> n \<le> n'))"
proof -
  have "rules_kept s t" by (rule eligibility.run_evolves [OF assms(2) eligibility_run_wf [OF assms(1)]])
  then show ?thesis
    by (auto simp: rules_kept_def kept_def get_eligibility_rule_def get_mentorship_eligibility_rule_def
        get_latest_rule_version_def outcome_iff)
qed

theorem rules_immutable_witness: "\<exists>n'. get_latest_rule_version demo_attested [5] = Ok n' \<and> 1 \<le> n'"
  using rules_immutable [OF demo_attested_reachable rtranclp.rtrancl_refl, of "[5]" 1 _ _ 1]
  by (simp add: get_latest_rule_version_def demo_attested_def Let_def)

section \<open>Findings\<close>

text \<open>
  Removed issuers keep vouching. After the admin has removed issuer 2 from the allowlist, the attestation of that
  issuer still makes the subject eligible, although a rule asks for attestations from an authorised issuer.
\<close>

theorem removed_issuer_counts:
  "\<exists>t. remove_issuer (eligibility_env 30) 1 2 demo_attested = Ok t \<and> \<not> is_authorized_issuer t 2 \<and>
    evaluate_eligibility (eligibility_env 50) [5] 3 t = Ok True"
  by (simp add: eligibility_call_defs evaluate_eligibility_def has_valid_attestation_def demo_attested_def eligibility_env_def
      del: One_nat_def)

text \<open>
  An issuer can take over the attestation of another one. Issuer 4 replaces the attestation that issuer 2 gave, by
  one that expires earlier; issuer 2 can then no longer revoke, and the subject loses the eligibility that issuer 2
  vouched for.
\<close>

theorem attestation_taken_over:
  "\<exists>t. issue_attestation (eligibility_env 30) 4 3 [5] ''id'' 31 demo_attested = Ok t \<and>
    revoke_attestation (eligibility_env 40) 2 3 [5] ''id'' t = Err NotAttestationIssuer \<and>
    evaluate_eligibility (eligibility_env 50) [5] 3 demo_attested = Ok True \<and>
    evaluate_eligibility (eligibility_env 50) [5] 3 t = Ok False"
  by (simp add: eligibility_call_defs evaluate_eligibility_def has_valid_attestation_def demo_attested_def eligibility_env_def
      global_scope_def del: One_nat_def)

end
