(* ===== verification/Mentorship_Availability.thy ===== *)
theory Mentorship_Availability
  imports Transition_Systems
begin

text \<open>
  \<open>contracts/mentorship-availability/src/lib.rs\<close>: a participant's weekly availability in local time, with
  explicit changes of the UTC offset and dated exceptions, and its materialisation into UTC ranges. This
  theory holds the state and the operations; \<open>Availability_Windows\<close> and \<open>Availability_Ranges\<close> prove what
  they compute.

  Every \<open>i64\<close> and \<open>u64\<close> operation that could overflow is checked here, and panics; the products of a
  \<open>u32\<close> with a small constant cannot. Events and storage lifetimes are left out.
\<close>

section \<open>Data\<close>

datatype ContractError =
    ScheduleNotFound | InvalidWeeklyWindow | TooManyWindows | WindowsNotOrdered | InvalidEffectiveRange
  | InvalidLeadTime | InvalidBuffer | InvalidBookingHorizon | TooManyOffsetChanges | InvalidOffsetChange
  | InvalidOffset | TooManyExceptions | ExceptionAlreadyExists | ExceptionNotFound | InvalidExceptionRange
  | ExceptionSpanTooLarge | InvalidQueryRange | QuerySpanTooLarge | InvalidPage | VersionOverflow
  | InvalidTimezoneRef

definition CONTRACT_VERSION :: nat where
  "CONTRACT_VERSION = 1"

definition SECONDS_PER_DAY :: nat where
  "SECONDS_PER_DAY = 86400"

definition SECONDS_PER_MINUTE :: nat where
  "SECONDS_PER_MINUTE = 60"

definition MINUTES_PER_DAY :: nat where
  "MINUTES_PER_DAY = 1440"

definition MAX_WEEKLY_WINDOWS :: nat where
  "MAX_WEEKLY_WINDOWS = 28"

definition MAX_OFFSET_CHANGES :: nat where
  "MAX_OFFSET_CHANGES = 8"

definition MAX_EXCEPTIONS :: nat where
  "MAX_EXCEPTIONS = 64"

definition MAX_EXCEPTION_SPAN_SECONDS :: nat where
  "MAX_EXCEPTION_SPAN_SECONDS = 31 * SECONDS_PER_DAY"

definition MAX_LEAD_TIME_SECONDS :: nat where
  "MAX_LEAD_TIME_SECONDS = 30 * SECONDS_PER_DAY"

definition MAX_BUFFER_SECONDS :: nat where
  "MAX_BUFFER_SECONDS = SECONDS_PER_DAY"

definition MAX_BOOKING_HORIZON_DAYS :: nat where
  "MAX_BOOKING_HORIZON_DAYS = 365"

definition MAX_QUERY_SPAN_SECONDS :: nat where
  "MAX_QUERY_SPAN_SECONDS = 90 * SECONDS_PER_DAY"

definition MAX_PAGE_SIZE :: nat where
  "MAX_PAGE_SIZE = 64"

definition MAX_PAGE :: nat where
  "MAX_PAGE = 4096"

definition MIN_UTC_OFFSET_SECONDS :: int where
  "MIN_UTC_OFFSET_SECONDS = - 12 * 3600"

definition MAX_UTC_OFFSET_SECONDS :: int where
  "MAX_UTC_OFFSET_SECONDS = 14 * 3600"

definition EPOCH_WEEKDAY_OFFSET :: int where
  "EPOCH_WEEKDAY_OFFSET = 4"

lemmas time_consts = SECONDS_PER_DAY_def SECONDS_PER_MINUTE_def MINUTES_PER_DAY_def
  MIN_UTC_OFFSET_SECONDS_def MAX_UTC_OFFSET_SECONDS_def EPOCH_WEEKDAY_OFFSET_def

lemmas limit_consts = MAX_WEEKLY_WINDOWS_def MAX_OFFSET_CHANGES_def MAX_EXCEPTIONS_def
  MAX_EXCEPTION_SPAN_SECONDS_def MAX_LEAD_TIME_SECONDS_def MAX_BUFFER_SECONDS_def
  MAX_BOOKING_HORIZON_DAYS_def MAX_QUERY_SPAN_SECONDS_def MAX_PAGE_SIZE_def MAX_PAGE_def

record WeeklyWindow =
  weekday :: nat
  start_minute :: nat
  end_minute :: nat

record OffsetChange =
  change_from :: nat
  change_offset :: int

record ScheduleInput =
  in_timezone_hash :: hash32
  in_utc_offset_seconds :: int
  in_offset_changes :: "OffsetChange list"
  in_weekly :: "WeeklyWindow list"
  in_lead_time_seconds :: nat
  in_buffer_before_seconds :: nat
  in_buffer_after_seconds :: nat
  in_booking_horizon_days :: nat
  in_effective_from :: nat
  in_effective_until :: nat

record AvailabilitySchedule =
  participant :: address
  timezone_hash :: hash32
  utc_offset_seconds :: int
  offset_changes :: "OffsetChange list"
  weekly :: "WeeklyWindow list"
  lead_time_seconds :: nat
  buffer_before_seconds :: nat
  buffer_after_seconds :: nat
  booking_horizon_days :: nat
  effective_from :: nat
  effective_until :: nat
  enabled :: bool
  version :: nat
  updated_at :: nat

datatype ExceptionKind = Unavailable | Available

record ExceptionInput =
  inx_id :: hash32
  inx_kind :: ExceptionKind
  inx_from_ts :: nat
  inx_until_ts :: nat
  inx_reference_hash :: hash32

record AvailabilityException =
  exc_id :: hash32
  exc_kind :: ExceptionKind
  from_ts :: nat
  until_ts :: nat
  reference_hash :: hash32
  created_at :: nat

record AvailableRange =
  start_ts :: nat
  end_ts :: nat

record AvailabilitySummary =
  sum_participant :: address
  sum_enabled :: bool
  sum_version :: nat
  sum_lead_time_seconds :: nat
  sum_buffer_before_seconds :: nat
  sum_buffer_after_seconds :: nat
  sum_booking_horizon_days :: nat
  sum_effective_from :: nat
  sum_effective_until :: nat

record avail_state =
  Schedule :: "address \<rightharpoonup> AvailabilitySchedule"
  Exceptions :: "address \<rightharpoonup> hash32 list"
  Exception :: "address \<times> hash32 \<rightharpoonup> AvailabilityException"

definition avail_init :: avail_state where
  "avail_init = \<lparr>Schedule = Map.empty, Exceptions = Map.empty, Exception = Map.empty\<rparr>"

section \<open>Storage helpers\<close>

definition put_schedule :: "AvailabilitySchedule \<Rightarrow> avail_state \<Rightarrow> avail_state" where
  "put_schedule sch s = s\<lparr>Schedule := (Schedule s)(participant sch \<mapsto> sch)\<rparr>"

definition load_schedule :: "avail_state \<Rightarrow> address \<Rightarrow> (ContractError, AvailabilitySchedule) outcome" where
  "load_schedule s p = ok_or (Schedule s p) ScheduleNotFound"

definition load_exception_ids :: "avail_state \<Rightarrow> address \<Rightarrow> hash32 list" where
  "load_exception_ids s p = unwrap_or (Exceptions s p) []"

definition put_exception_ids :: "address \<Rightarrow> hash32 list \<Rightarrow> avail_state \<Rightarrow> avail_state" where
  "put_exception_ids p ids s = s\<lparr>Exceptions := (Exceptions s)(p \<mapsto> ids)\<rparr>"

fun exceptions_loop :: "avail_state \<Rightarrow> address \<Rightarrow> hash32 list \<Rightarrow> AvailabilityException list" where
  "exceptions_loop s p [] = []"
| "exceptions_loop s p (i # ids) =
     (case Exception s (p, i) of
        Some x \<Rightarrow> x # exceptions_loop s p ids
      | None \<Rightarrow> exceptions_loop s p ids)"

definition load_exceptions :: "avail_state \<Rightarrow> address \<Rightarrow> AvailabilityException list" where
  "load_exceptions s p = exceptions_loop s p (load_exception_ids s p)"

section \<open>Validation and normalisation\<close>

definition validate_offset :: "int \<Rightarrow> (ContractError, unit) outcome" where
  "validate_offset off =
     (if \<not> (MIN_UTC_OFFSET_SECONDS \<le> off \<and> off \<le> MAX_UTC_OFFSET_SECONDS) then Err InvalidOffset else Ok ())"

text \<open>One iteration's effect on the list of normalised windows: merge into the last one, or append.\<close>

definition merge_window :: "WeeklyWindow list \<Rightarrow> WeeklyWindow \<Rightarrow> WeeklyWindow list" where
  "merge_window normalized window =
     (if normalized \<noteq> [] \<and> weekday (last normalized) = weekday window \<and>
         start_minute window \<le> end_minute (last normalized)
      then butlast normalized @
        [\<lparr>weekday = weekday (last normalized), start_minute = start_minute (last normalized),
          end_minute = (if end_minute window > end_minute (last normalized) then end_minute window
                        else end_minute (last normalized))\<rparr>]
      else normalized @ [window])"

fun normalize_loop ::
  "WeeklyWindow option \<Rightarrow> WeeklyWindow list \<Rightarrow> WeeklyWindow list \<Rightarrow> (ContractError, WeeklyWindow list) outcome" where
  "normalize_loop previous normalized [] = Ok normalized"
| "normalize_loop previous normalized (window # rest) =
     (if weekday window > 6 \<or> start_minute window \<ge> end_minute window \<or>
         start_minute window \<ge> MINUTES_PER_DAY \<or> end_minute window > MINUTES_PER_DAY
      then Err InvalidWeeklyWindow
      else if (case previous of None \<Rightarrow> False
               | Some prev \<Rightarrow> weekday window < weekday prev \<or>
                   weekday window = weekday prev \<and> start_minute window < start_minute prev)
      then Err WindowsNotOrdered
      else normalize_loop (Some window) (merge_window normalized window) rest)"

definition normalize_windows :: "WeeklyWindow list \<Rightarrow> (ContractError, WeeklyWindow list) outcome" where
  "normalize_windows windows =
     (if length windows = 0 then Err InvalidWeeklyWindow
      else if length windows > MAX_WEEKLY_WINDOWS then Err TooManyWindows
      else normalize_loop None [] windows)"

fun changes_loop :: "nat \<Rightarrow> int \<Rightarrow> OffsetChange list \<Rightarrow> (ContractError, unit) outcome" where
  "changes_loop previous_from previous_offset [] = Ok ()"
| "changes_loop previous_from previous_offset (change # rest) =
     (if change_from change = 0 \<or> change_from change \<le> previous_from then Err InvalidOffsetChange
      else and_then (validate_offset (change_offset change)) (\<lambda>_.
      if change_offset change = previous_offset then Err InvalidOffsetChange
      else changes_loop (change_from change) (change_offset change) rest))"

section \<open>Schedules and exceptions\<close>

definition set_schedule ::
  "env \<Rightarrow> address \<Rightarrow> ScheduleInput \<Rightarrow> avail_state \<Rightarrow>
   (ContractError, AvailabilitySchedule \<times> avail_state) outcome" where
  "set_schedule env p input s =
     and_then (require_auth env p) (\<lambda>_.
     if in_timezone_hash input = replicate 32 0 then Err InvalidTimezoneRef
     else and_then (validate_offset (in_utc_offset_seconds input)) (\<lambda>_.
     if length (in_offset_changes input) > MAX_OFFSET_CHANGES then Err TooManyOffsetChanges
     else and_then (changes_loop 0 (in_utc_offset_seconds input) (in_offset_changes input)) (\<lambda>_.
     and_then (normalize_windows (in_weekly input)) (\<lambda>wk.
     if in_lead_time_seconds input > MAX_LEAD_TIME_SECONDS then Err InvalidLeadTime
     else if in_buffer_before_seconds input > MAX_BUFFER_SECONDS \<or>
             in_buffer_after_seconds input > MAX_BUFFER_SECONDS then Err InvalidBuffer
     else if in_booking_horizon_days input = 0 \<or> in_booking_horizon_days input > MAX_BOOKING_HORIZON_DAYS
     then Err InvalidBookingHorizon
     else if in_effective_from input = 0 \<or>
             in_effective_until input \<noteq> 0 \<and> in_effective_until input \<le> in_effective_from input
     then Err InvalidEffectiveRange
     else and_then
       (case Schedule s p of
          Some existing \<Rightarrow> ok_or (u32_checked (version existing + 1)) VersionOverflow
        | None \<Rightarrow> Ok 1) (\<lambda>v.
     let schedule = \<lparr>participant = p, timezone_hash = in_timezone_hash input,
           utc_offset_seconds = in_utc_offset_seconds input, offset_changes = in_offset_changes input,
           weekly = wk, lead_time_seconds = in_lead_time_seconds input,
           buffer_before_seconds = in_buffer_before_seconds input,
           buffer_after_seconds = in_buffer_after_seconds input,
           booking_horizon_days = in_booking_horizon_days input,
           effective_from = in_effective_from input, effective_until = in_effective_until input,
           enabled = True, version = v, updated_at = timestamp env\<rparr>
     in Ok (schedule, put_schedule schedule s))))))"

definition set_enabled :: "env \<Rightarrow> address \<Rightarrow> bool \<Rightarrow> avail_state \<Rightarrow> (ContractError, avail_state) outcome" where
  "set_enabled env p b s =
     and_then (require_auth env p) (\<lambda>_.
     and_then (load_schedule s p) (\<lambda>schedule.
     if enabled schedule = b then Ok s
     else and_then (ok_or (u32_checked (version schedule + 1)) VersionOverflow) (\<lambda>v.
     Ok (put_schedule (schedule\<lparr>enabled := b, version := v, updated_at := timestamp env\<rparr>) s))))"

definition get_schedule :: "avail_state \<Rightarrow> address \<Rightarrow> (ContractError, AvailabilitySchedule) outcome" where
  "get_schedule s p = load_schedule s p"

definition availability_summary :: "avail_state \<Rightarrow> address \<Rightarrow> (ContractError, AvailabilitySummary) outcome" where
  "availability_summary s p =
     and_then (load_schedule s p) (\<lambda>schedule.
     Ok \<lparr>sum_participant = participant schedule, sum_enabled = enabled schedule,
         sum_version = version schedule, sum_lead_time_seconds = lead_time_seconds schedule,
         sum_buffer_before_seconds = buffer_before_seconds schedule,
         sum_buffer_after_seconds = buffer_after_seconds schedule,
         sum_booking_horizon_days = booking_horizon_days schedule,
         sum_effective_from = effective_from schedule, sum_effective_until = effective_until schedule\<rparr>)"

definition add_exception ::
  "env \<Rightarrow> address \<Rightarrow> ExceptionInput \<Rightarrow> avail_state \<Rightarrow> (ContractError, avail_state) outcome" where
  "add_exception env p input s =
     and_then (require_auth env p) (\<lambda>_.
     if inx_from_ts input = 0 \<or> inx_from_ts input \<ge> inx_until_ts input then Err InvalidExceptionRange
     else if inx_until_ts input - inx_from_ts input > MAX_EXCEPTION_SPAN_SECONDS then Err ExceptionSpanTooLarge
     else if Exception s (p, inx_id input) \<noteq> None then Err ExceptionAlreadyExists
     else
       let ids = load_exception_ids s p in
       if length ids \<ge> MAX_EXCEPTIONS then Err TooManyExceptions
       else
         let x = \<lparr>exc_id = inx_id input, exc_kind = inx_kind input, from_ts = inx_from_ts input,
                  until_ts = inx_until_ts input, reference_hash = inx_reference_hash input,
                  created_at = timestamp env\<rparr>;
             s = s\<lparr>Exception := (Exception s)((p, inx_id input) \<mapsto> x)\<rparr>
         in Ok (put_exception_ids p (ids @ [inx_id input]) s))"

definition remove_exception :: "env \<Rightarrow> address \<Rightarrow> hash32 \<Rightarrow> avail_state \<Rightarrow> (ContractError, avail_state) outcome" where
  "remove_exception env p i s =
     and_then (require_auth env p) (\<lambda>_.
     if Exception s (p, i) = None then Err ExceptionNotFound
     else
       let s = s\<lparr>Exception := (Exception s)((p, i) := None)\<rparr>;
           remaining = filter (\<lambda>existing. existing \<noteq> i) (load_exception_ids s p)
       in Ok (put_exception_ids p remaining s))"

definition get_exception :: "avail_state \<Rightarrow> address \<Rightarrow> hash32 \<Rightarrow> (ContractError, AvailabilityException) outcome" where
  "get_exception s p i = ok_or (Exception s (p, i)) ExceptionNotFound"

definition exception_ids :: "avail_state \<Rightarrow> address \<Rightarrow> hash32 list" where
  "exception_ids s p = load_exception_ids s p"

section \<open>Local time to UTC\<close>

fun offset_loop :: "nat \<Rightarrow> OffsetChange list \<Rightarrow> int \<Rightarrow> int" where
  "offset_loop ts [] offset = offset"
| "offset_loop ts (change # rest) offset =
     (if change_from change \<le> ts then offset_loop ts rest (change_offset change) else offset)"

definition offset_at :: "AvailabilitySchedule \<Rightarrow> nat \<Rightarrow> int" where
  "offset_at schedule ts = offset_loop ts (offset_changes schedule) (utc_offset_seconds schedule)"

fun local_loop ::
  "AvailabilitySchedule \<Rightarrow> int \<Rightarrow> int list \<Rightarrow> nat option \<Rightarrow> (ContractError, nat option) outcome" where
  "local_loop schedule local_ts [] best = Ok best"
| "local_loop schedule local_ts (candidate # rest) best =
     and_then (i64_op (local_ts - candidate)) (\<lambda>utc.
     if utc < 0 then local_loop schedule local_ts rest best
     else
       let utc_ts = nat utc in
       if offset_at schedule utc_ts \<noteq> candidate then local_loop schedule local_ts rest best
       else local_loop schedule local_ts rest
         (case best of None \<Rightarrow> Some utc_ts
          | Some current \<Rightarrow> Some (if utc_ts < current then utc_ts else current)))"

definition local_to_utc :: "AvailabilitySchedule \<Rightarrow> int \<Rightarrow> (ContractError, nat option) outcome" where
  "local_to_utc schedule local_ts =
     (if local_ts < 0 then Ok None
      else local_loop schedule local_ts
        (utc_offset_seconds schedule # map change_offset (offset_changes schedule)) None)"

section \<open>Ranges\<close>

definition clip :: "nat \<Rightarrow> nat \<Rightarrow> nat \<Rightarrow> nat \<Rightarrow> AvailableRange option" where
  "clip start end_at lower upper =
     (let clipped_start = (if start > lower then start else lower);
          clipped_end = (if end_at < upper then end_at else upper)
      in if clipped_end \<le> clipped_start then None
         else Some \<lparr>start_ts = clipped_start, end_ts = clipped_end\<rparr>)"

text \<open>A range clipped to the day and then to the query, appended to the candidates if anything is left.\<close>

definition push_clipped ::
  "nat \<Rightarrow> nat \<Rightarrow> nat \<Rightarrow> nat \<Rightarrow> nat \<Rightarrow> nat \<Rightarrow> AvailableRange list \<Rightarrow> AvailableRange list" where
  "push_clipped a b day_start day_end start end_at candidates =
     (case clip a b day_start day_end of
        None \<Rightarrow> candidates
      | Some r \<Rightarrow>
          (case clip (start_ts r) (end_ts r) start end_at of
             None \<Rightarrow> candidates
           | Some r' \<Rightarrow> candidates @ [r']))"

text \<open>The weekly windows of one local day; \<open>wd\<close> is its weekday.\<close>

fun window_loop ::
  "AvailabilitySchedule \<Rightarrow> int \<Rightarrow> nat \<Rightarrow> nat \<Rightarrow> nat \<Rightarrow> nat \<Rightarrow> nat \<Rightarrow> WeeklyWindow list \<Rightarrow> AvailableRange list \<Rightarrow>
   (ContractError, AvailableRange list) outcome" where
  "window_loop schedule local_day wd day_start day_end start end_at [] candidates = Ok candidates"
| "window_loop schedule local_day wd day_start day_end start end_at (window # rest) candidates =
     (if weekday window \<noteq> wd
      then window_loop schedule local_day wd day_start day_end start end_at rest candidates
      else
        and_then (i64_op (local_day + int (start_minute window) * int SECONDS_PER_MINUTE)) (\<lambda>local_start.
        and_then (i64_op (local_day + int (end_minute window) * int SECONDS_PER_MINUTE)) (\<lambda>local_end.
        and_then (local_to_utc schedule local_start) (\<lambda>utc_start.
        case utc_start of
          None \<Rightarrow> window_loop schedule local_day wd day_start day_end start end_at rest candidates
        | Some utc_start \<Rightarrow>
            and_then (local_to_utc schedule local_end) (\<lambda>utc_end.
            case utc_end of
              None \<Rightarrow> window_loop schedule local_day wd day_start day_end start end_at rest candidates
            | Some utc_end \<Rightarrow>
                window_loop schedule local_day wd day_start day_end start end_at rest
                  (push_clipped utc_start utc_end day_start day_end start end_at candidates))))))"

text \<open>The weekday of a local day; the cast \<open>as u32\<close> keeps the low 32 bits.\<close>

definition weekday_of :: "int \<Rightarrow> nat" where
  "weekday_of local_day =
     nat (rem_trunc (local_day div int SECONDS_PER_DAY + EPOCH_WEEKDAY_OFFSET) 7 mod 2 ^ 32)"

function local_day_loop ::
  "AvailabilitySchedule \<Rightarrow> int \<Rightarrow> int \<Rightarrow> nat \<Rightarrow> nat \<Rightarrow> nat \<Rightarrow> nat \<Rightarrow> AvailableRange list \<Rightarrow>
   (ContractError, AvailableRange list) outcome" where
  "local_day_loop schedule local_day last_local_day day_start day_end start end_at candidates =
     (if local_day \<le> last_local_day then
        and_then (window_loop schedule local_day (weekday_of local_day) day_start day_end start end_at
                    (weekly schedule) candidates) (\<lambda>candidates.
        and_then (i64_op (local_day + int SECONDS_PER_DAY)) (\<lambda>next_day.
        local_day_loop schedule next_day last_local_day day_start day_end start end_at candidates))
      else Ok candidates)"
  by pat_completeness auto
termination
  by (relation "measure (\<lambda>(sch, d, l, _). nat (l + 1 - d))") (auto simp: time_consts outcome_iff)

declare local_day_loop.simps [simp del]

fun extra_loop ::
  "nat \<Rightarrow> nat \<Rightarrow> nat \<Rightarrow> nat \<Rightarrow> AvailabilityException list \<Rightarrow> AvailableRange list \<Rightarrow> AvailableRange list" where
  "extra_loop day_start day_end start end_at [] candidates = candidates"
| "extra_loop day_start day_end start end_at (x # rest) candidates =
     (if exc_kind x \<noteq> Available then extra_loop day_start day_end start end_at rest candidates
      else extra_loop day_start day_end start end_at rest
        (push_clipped (from_ts x) (until_ts x) day_start day_end start end_at candidates))"

text \<open>The selection sort: position \<open>i\<close> receives the first of the earliest remaining candidates.\<close>

fun min_index :: "AvailableRange list \<Rightarrow> nat list \<Rightarrow> nat \<Rightarrow> nat" where
  "min_index candidates [] m = m"
| "min_index candidates (j # js) m =
     (if start_ts (candidates ! j) < start_ts (candidates ! m) then min_index candidates js j
      else min_index candidates js m)"

definition select_swap :: "nat \<Rightarrow> AvailableRange list \<Rightarrow> AvailableRange list" where
  "select_swap i candidates =
     (let m = min_index candidates [Suc i..<length candidates] i
      in if m \<noteq> i then candidates[i := candidates ! m, m := candidates ! i] else candidates)"

fun sort_loop :: "nat list \<Rightarrow> AvailableRange list \<Rightarrow> AvailableRange list" where
  "sort_loop [] candidates = candidates"
| "sort_loop (i # is) candidates = sort_loop is (select_swap i candidates)"

definition selection_sort :: "AvailableRange list \<Rightarrow> AvailableRange list" where
  "selection_sort candidates = sort_loop [0..<length candidates] candidates"

definition fold_range :: "AvailableRange list \<Rightarrow> AvailableRange \<Rightarrow> AvailableRange list" where
  "fold_range merged candidate =
     (if merged \<noteq> [] \<and> start_ts candidate \<le> end_ts (last merged)
      then if end_ts candidate > end_ts (last merged)
           then butlast merged @ [\<lparr>start_ts = start_ts (last merged), end_ts = end_ts candidate\<rparr>]
           else merged
      else merged @ [candidate])"

function day_loop ::
  "AvailabilitySchedule \<Rightarrow> AvailabilityException list \<Rightarrow> nat \<Rightarrow> nat \<Rightarrow> nat \<Rightarrow> nat \<Rightarrow> AvailableRange list \<Rightarrow>
   (ContractError, AvailableRange list) outcome" where
  "day_loop schedule xs day last_day start end_at merged =
     (if day \<le> last_day then
        and_then (u64_op (day * SECONDS_PER_DAY)) (\<lambda>day_start.
        and_then (u64_op (day_start + SECONDS_PER_DAY)) (\<lambda>day_end.
        and_then (i64_op (as_i64 day_start + MIN_UTC_OFFSET_SECONDS)) (\<lambda>local_min.
        and_then (i64_op (as_i64 day_end + MAX_UTC_OFFSET_SECONDS)) (\<lambda>local_max.
        and_then (i64_op (local_min div int SECONDS_PER_DAY * int SECONDS_PER_DAY)) (\<lambda>first_local_day.
        and_then (i64_op ((local_max - 1) div int SECONDS_PER_DAY * int SECONDS_PER_DAY)) (\<lambda>last_local_day.
        and_then (local_day_loop schedule first_local_day last_local_day day_start day_end start end_at [])
          (\<lambda>candidates.
        let candidates = extra_loop day_start day_end start end_at xs candidates
        in day_loop schedule xs (day + 1) last_day start end_at
             (foldl fold_range merged (selection_sort candidates)))))))))
      else Ok merged)"
  by pat_completeness auto
termination
  by (relation "measure (\<lambda>(sch, xs, d, l, _). l + 1 - d)") auto

declare day_loop.simps [simp del]

text \<open>Cutting a blackout out of the segments left of a range.\<close>

fun cut_loop :: "AvailabilityException \<Rightarrow> AvailableRange list \<Rightarrow> AvailableRange list" where
  "cut_loop b [] = []"
| "cut_loop b (segment # rest) =
     (if until_ts b \<le> start_ts segment \<or> from_ts b \<ge> end_ts segment then segment # cut_loop b rest
      else
        (if from_ts b > start_ts segment then [\<lparr>start_ts = start_ts segment, end_ts = from_ts b\<rparr>] else []) @
        (if until_ts b < end_ts segment then [\<lparr>start_ts = until_ts b, end_ts = end_ts segment\<rparr>] else []) @
        cut_loop b rest)"

fun subtract_loop :: "AvailabilityException list \<Rightarrow> AvailableRange list \<Rightarrow> AvailableRange list" where
  "subtract_loop blocked [] = []"
| "subtract_loop blocked (r # rest) =
     foldl (\<lambda>segments b. cut_loop b segments) [r] blocked @ subtract_loop blocked rest"

definition compute_ranges ::
  "AvailabilitySchedule \<Rightarrow> AvailabilityException list \<Rightarrow> nat \<Rightarrow> nat \<Rightarrow>
   (ContractError, AvailableRange list) outcome" where
  "compute_ranges schedule xs start end_at =
     (if end_at < 1 then Panic
      else
        and_then (day_loop schedule xs (start div SECONDS_PER_DAY) ((end_at - 1) div SECONDS_PER_DAY)
                    start end_at []) (\<lambda>merged.
        let blocked = filter (\<lambda>x. exc_kind x = Unavailable) xs
        in if blocked = [] then Ok merged else Ok (subtract_loop blocked merged)))"

definition bookable_window ::
  "env \<Rightarrow> AvailabilitySchedule \<Rightarrow> nat \<Rightarrow> nat \<Rightarrow> (nat \<times> nat) option" where
  "bookable_window env schedule from until =
     (if \<not> enabled schedule then None
      else
        let now = timestamp env;
            earliest = unwrap_or (u64_checked (now + lead_time_seconds schedule)) (2 ^ 64 - 1);
            horizon_end = unwrap_or (u64_checked (now +
              unwrap_or (u64_checked (booking_horizon_days schedule * SECONDS_PER_DAY)) (2 ^ 64 - 1))) (2 ^ 64 - 1);
            start = (if from < effective_from schedule then effective_from schedule else from);
            start = (if start < earliest then earliest else start);
            end_at = (if until > horizon_end then horizon_end else until);
            end_at = (if effective_until schedule \<noteq> 0 \<and> end_at > effective_until schedule
                      then effective_until schedule else end_at)
        in if end_at \<le> start then None else Some (start, end_at))"

fun page_loop :: "nat \<Rightarrow> nat \<Rightarrow> nat \<Rightarrow> AvailableRange list \<Rightarrow> AvailableRange list \<Rightarrow> AvailableRange list" where
  "page_loop index skip limit [] out = out"
| "page_loop index skip limit (r # rest) out =
     (if index < skip then page_loop (index + 1) skip limit rest out
      else if length out \<ge> limit then out
      else page_loop (index + 1) skip limit rest (out @ [r]))"

definition available_ranges ::
  "env \<Rightarrow> avail_state \<Rightarrow> address \<Rightarrow> nat \<Rightarrow> nat \<Rightarrow> nat \<Rightarrow> nat \<Rightarrow> (ContractError, AvailableRange list) outcome" where
  "available_ranges env s p from until page limit =
     (if from \<ge> until then Err InvalidQueryRange
      else if until - from > MAX_QUERY_SPAN_SECONDS then Err QuerySpanTooLarge
      else if limit = 0 \<or> limit > MAX_PAGE_SIZE \<or> page > MAX_PAGE then Err InvalidPage
      else and_then (load_schedule s p) (\<lambda>schedule.
      case bookable_window env schedule from until of
        None \<Rightarrow> Ok []
      | Some (start, end_at) \<Rightarrow>
          and_then (compute_ranges schedule (load_exceptions s p) start end_at) (\<lambda>ranges.
          Ok (page_loop 0 (page * limit) limit ranges []))))"

definition is_available :: "env \<Rightarrow> avail_state \<Rightarrow> address \<Rightarrow> nat \<Rightarrow> nat \<Rightarrow> (ContractError, bool) outcome" where
  "is_available env s p from until =
     (if from \<ge> until then Err InvalidQueryRange
      else if until - from > MAX_QUERY_SPAN_SECONDS then Err QuerySpanTooLarge
      else and_then (load_schedule s p) (\<lambda>schedule.
      case bookable_window env schedule from until of
        None \<Rightarrow> Ok False
      | Some (start, end_at) \<Rightarrow>
          if start > from \<or> end_at < until then Ok False
          else and_then (compute_ranges schedule (load_exceptions s p) start end_at) (\<lambda>ranges.
          Ok (list_ex (\<lambda>r. start_ts r \<le> start \<and> end_ts r \<ge> end_at) ranges))))"

definition contract_version :: nat where
  "contract_version = CONTRACT_VERSION"

section \<open>Calls and steps\<close>

datatype avail_call =
    SetSchedule address ScheduleInput | SetEnabled address bool | AddException address ExceptionInput
  | RemoveException address hash32

fun avail_exec :: "env \<Rightarrow> avail_call \<Rightarrow> avail_state \<Rightarrow> (ContractError, avail_state) outcome" where
  "avail_exec env (SetSchedule p i) s = state_of (set_schedule env p i s)"
| "avail_exec env (SetEnabled p b) s = set_enabled env p b s"
| "avail_exec env (AddException p i) s = add_exception env p i s"
| "avail_exec env (RemoveException p i) s = remove_exception env p i s"

inductive avail_step :: "avail_state \<Rightarrow> avail_state \<Rightarrow> bool" where
  call: "avail_exec env c s = Ok t \<Longrightarrow> avail_step s t"

inductive_cases avail_stepE: "avail_step s t"

end
