(* ===== verification/Availability_Windows.thy ===== *)
theory Availability_Windows
  imports Mentorship_Availability
begin

text \<open>
  The two halves of a schedule: the weekly windows, which are normalised to a canonical form before they
  are stored, and the clock, which turns a local wall-clock reading into the earliest UTC instant that
  shows it.
\<close>

section \<open>Weekly windows\<close>

definition window_ok :: "WeeklyWindow \<Rightarrow> bool" where
  "window_ok w \<longleftrightarrow> weekday w \<le> 6 \<and> start_minute w < end_minute w \<and> end_minute w \<le> MINUTES_PER_DAY"

definition not_before :: "WeeklyWindow \<Rightarrow> WeeklyWindow \<Rightarrow> bool" where
  "not_before v w \<longleftrightarrow> weekday v < weekday w \<or> weekday v = weekday w \<and> start_minute v \<le> start_minute w"

definition apart :: "WeeklyWindow \<Rightarrow> WeeklyWindow \<Rightarrow> bool" where
  "apart v w \<longleftrightarrow> weekday v < weekday w \<or> weekday v = weekday w \<and> end_minute v < start_minute w"

text \<open>Canonical windows are valid, sorted, and leave a gap between any two on the same day.\<close>

definition canonical :: "WeeklyWindow list \<Rightarrow> bool" where
  "canonical ws \<longleftrightarrow> sorted_wrt apart ws \<and> (\<forall>w\<in>set ws. window_ok w)"

definition open_minute :: "WeeklyWindow list \<Rightarrow> nat \<Rightarrow> nat \<Rightarrow> bool" where
  "open_minute ws d m \<longleftrightarrow> (\<exists>w\<in>set ws. weekday w = d \<and> start_minute w \<le> m \<and> m < end_minute w)"

lemma canonical_simps [simp]:
  "canonical []"
  "canonical (w # ws) \<longleftrightarrow> window_ok w \<and> (\<forall>v\<in>set ws. apart w v) \<and> canonical ws"
  "canonical (vs @ ws) \<longleftrightarrow> canonical vs \<and> canonical ws \<and> (\<forall>v\<in>set vs. \<forall>w\<in>set ws. apart v w)"
  by (auto simp: canonical_def sorted_wrt_append)

lemma open_minute_simps [simp]:
  "\<not> open_minute [] d m"
  "open_minute (w # ws) d m \<longleftrightarrow> weekday w = d \<and> start_minute w \<le> m \<and> m < end_minute w \<or> open_minute ws d m"
  "open_minute (vs @ ws) d m \<longleftrightarrow> open_minute vs d m \<or> open_minute ws d m"
  by (auto simp: open_minute_def)

lemma not_before_trans: "not_before u v \<Longrightarrow> not_before v w \<Longrightarrow> not_before u w"
  by (auto simp: not_before_def)

lemma merge_window_canonical:
  assumes "canonical acc" "window_ok w" "acc \<noteq> [] \<Longrightarrow> not_before (last acc) w"
  shows "canonical (merge_window acc w) \<and> merge_window acc w \<noteq> [] \<and>
    not_before (last (merge_window acc w)) w \<and> weekday (last (merge_window acc w)) = weekday w \<and>
    length (merge_window acc w) \<le> length acc + 1 \<and>
    (open_minute (merge_window acc w) d m \<longleftrightarrow> open_minute acc d m \<or> open_minute [w] d m)"
proof (cases acc rule: rev_cases)
  case Nil
  with assms(2) show ?thesis by (simp add: merge_window_def not_before_def)
next
  case (snoc vs l)
  with assms(3) have nb: "not_before l w" by simp
  show ?thesis
  proof (cases "weekday l = weekday w \<and> start_minute w \<le> end_minute l")
    case True
    with snoc assms(1,2) nb show ?thesis
      by (auto simp: merge_window_def not_before_def window_ok_def apart_def)
  next
    case False
    then have gap: "apart l w" using nb by (auto simp: apart_def not_before_def)
    have "apart v w" if "v \<in> set vs" for v
      using that assms(1) gap by (fastforce simp: snoc apart_def window_ok_def)
    with False snoc assms(1,2) gap show ?thesis
      by (auto simp: merge_window_def not_before_def)
  qed
qed

text \<open>The loop accepts exactly valid windows in order.\<close>

lemma normalize_loop_Ok:
  assumes "normalize_loop prev acc ws = Ok ns" "canonical acc" "acc = [] \<longleftrightarrow> prev = None"
    "\<And>p. prev = Some p \<Longrightarrow> weekday p = weekday (last acc) \<and> not_before (last acc) p"
  shows "canonical ns \<and> length ns \<le> length acc + length ws \<and> (ns = [] \<longrightarrow> acc = [] \<and> ws = []) \<and>
    (open_minute ns d m \<longleftrightarrow> open_minute acc d m \<or> open_minute ws d m)"
  using assms
proof (induction prev acc ws rule: normalize_loop.induct)
  case (2 prev acc w ws)
  have w: "window_ok w" and loop: "normalize_loop (Some w) (merge_window acc w) ws = Ok ns"
    and order: "\<And>p. prev = Some p \<Longrightarrow> not_before p w"
    using "2.prems"(1) by (auto simp: window_ok_def not_before_def split: if_splits)
  have nb: "not_before (last acc) w" if "acc \<noteq> []"
    using that "2.prems"(3,4) order not_before_trans by blast
  note merge = merge_window_canonical [OF "2.prems"(2) w nb, of d m]
  then have last: "weekday (last (merge_window acc w)) = weekday w"
    "start_minute (last (merge_window acc w)) \<le> start_minute w"
    by (auto simp: not_before_def)
  have "canonical ns \<and> length ns \<le> length (merge_window acc w) + length ws \<and>
      (ns = [] \<longrightarrow> merge_window acc w = [] \<and> ws = []) \<and>
      (open_minute ns d m \<longleftrightarrow> open_minute (merge_window acc w) d m \<or> open_minute ws d m)"
  proof (rule "2.IH")
    show "\<not> (6 < weekday w \<or> end_minute w \<le> start_minute w \<or> MINUTES_PER_DAY \<le> start_minute w \<or>
        MINUTES_PER_DAY < end_minute w)" using w by (simp add: window_ok_def)
  qed (use loop merge last order in \<open>auto simp: not_before_def split: option.splits\<close>)
  with merge show ?case by fastforce
qed simp

lemma normalize_loop_is_ok:
  "is_ok (normalize_loop prev acc ws) \<longleftrightarrow>
     (\<forall>w\<in>set ws. window_ok w) \<and> sorted_wrt not_before (case prev of None \<Rightarrow> ws | Some p \<Rightarrow> p # ws)"
proof (induction prev acc ws rule: normalize_loop.induct)
  case (2 prev acc w ws)
  let ?bad = "6 < weekday w \<or> end_minute w \<le> start_minute w \<or> MINUTES_PER_DAY \<le> start_minute w \<or>
      MINUTES_PER_DAY < end_minute w"
  have ok: "window_ok w \<longleftrightarrow> \<not> ?bad" by (auto simp: window_ok_def)
  show ?case
  proof (cases "window_ok w \<and> (\<forall>p. prev = Some p \<longrightarrow> not_before p w)")
    case True
    then have "is_ok (normalize_loop prev acc (w # ws)) \<longleftrightarrow> is_ok (normalize_loop (Some w) (merge_window acc w) ws)"
      by (auto simp: ok not_before_def split: option.splits)
    also have "\<dots> \<longleftrightarrow> (\<forall>w\<in>set ws. window_ok w) \<and>
        sorted_wrt not_before (case Some w of None \<Rightarrow> ws | Some p \<Rightarrow> p # ws)"
      by (rule "2.IH") (use True in \<open>auto simp: ok not_before_def split: option.splits\<close>)
    also have "\<dots> \<longleftrightarrow> (\<forall>v\<in>set (w # ws). window_ok v) \<and>
        sorted_wrt not_before (case prev of None \<Rightarrow> w # ws | Some p \<Rightarrow> p # w # ws)"
      using True not_before_trans by (auto simp del: normalize_loop.simps split: option.splits)
    finally show ?thesis .
  next
    case False
    then show ?thesis by (auto simp: ok not_before_def split: option.splits)
  qed
qed (simp split: option.splits)

lemma canonical_order: "canonical ws \<Longrightarrow> sorted_wrt not_before ws"
  by (induction ws) (auto simp: apart_def not_before_def window_ok_def)

lemma normalize_loop_canonical:
  "canonical (acc @ ws) \<Longrightarrow> acc = [] \<longleftrightarrow> prev = None \<Longrightarrow>
   (\<And>p. prev = Some p \<Longrightarrow> p = last acc) \<Longrightarrow> normalize_loop prev acc ws = Ok (acc @ ws)"
proof (induction prev acc ws rule: normalize_loop.induct)
  case (2 prev acc w ws)
  have w: "window_ok w" using "2.prems"(1) by (simp add: canonical_def)
  have ap: "apart (last acc) w" if "acc \<noteq> []"
    using that "2.prems"(1) by (simp add: canonical_def sorted_wrt_append)
  have order: "not_before p w" if "prev = Some p" for p
  proof -
    from that "2.prems"(2,3) have p: "acc \<noteq> []" "p = last acc" by auto
    then have "window_ok p" using "2.prems"(1) by (simp add: canonical_def)
    with p ap show ?thesis by (auto simp: apart_def not_before_def window_ok_def)
  qed
  have "merge_window acc w = acc @ [w]" using ap by (auto simp: merge_window_def apart_def)
  moreover have "normalize_loop (Some w) (merge_window acc w) ws = Ok (merge_window acc w @ ws)"
    by (rule "2.IH")
      (use w order "2.prems"(1) calculation in \<open>auto simp: window_ok_def not_before_def split: option.splits\<close>)
  ultimately show ?case
    using w order by (auto simp: window_ok_def not_before_def split: option.splits)
qed simp

text \<open>A canonical list is determined by the minutes it opens.\<close>

lemma canonical_head:
  assumes "canonical (w # ws)" "open_minute (w # ws) d m"
  shows "weekday w < d \<or> weekday w = d \<and> start_minute w \<le> m"
  using assms by (auto simp: open_minute_def apart_def window_ok_def)

lemma canonical_first_gap:
  assumes "canonical (w # ws)"
  shows "\<not> open_minute (w # ws) (weekday w) (end_minute w)"
  using assms by (auto simp: open_minute_def apart_def)

lemma canonical_unique:
  "canonical vs \<Longrightarrow> canonical ws \<Longrightarrow> (\<And>d m. open_minute vs d m \<longleftrightarrow> open_minute ws d m) \<Longrightarrow> vs = ws"
proof (induction vs arbitrary: ws)
  case Nil
  show ?case
  proof (cases ws)
    case (Cons w ws')
    then have "open_minute ws (weekday w) (start_minute w)" using Nil by (simp add: window_ok_def)
    with Nil show ?thesis by simp
  qed simp
next
  case (Cons v vs)
  have open_v: "open_minute (v # vs) (weekday v) m" if "start_minute v \<le> m" "m < end_minute v" for m
    using that by simp
  obtain w ws' where ws: "ws = w # ws'"
    using Cons.prems open_v [of "start_minute v"] by (cases ws) (auto simp: window_ok_def)
  note cw = Cons.prems(2) [unfolded ws]
  have open_w: "open_minute (w # ws') (weekday w) m" if "start_minute w \<le> m" "m < end_minute w" for m
    using that by simp
  have eq: "open_minute (v # vs) d m \<longleftrightarrow> open_minute (w # ws') d m" for d m using Cons.prems(3) by (simp add: ws)
  have lt: "start_minute v < end_minute v" "start_minute w < end_minute w"
    using Cons.prems(1) cw by (simp_all add: window_ok_def)
  have "weekday w < weekday v \<or> weekday w = weekday v \<and> start_minute w \<le> start_minute v"
    by (rule canonical_head [OF cw]) (use eq open_v lt in blast)
  moreover have "weekday v < weekday w \<or> weekday v = weekday w \<and> start_minute v \<le> start_minute w"
    by (rule canonical_head [OF Cons.prems(1)]) (use eq open_w lt in blast)
  ultimately have same: "weekday v = weekday w" "start_minute v = start_minute w" by auto
  have "\<not> end_minute v < end_minute w"
  proof
    assume "end_minute v < end_minute w"
    then have "open_minute (w # ws') (weekday v) (end_minute v)"
      unfolding same by (intro open_w) (use same lt in simp_all)
    with eq canonical_first_gap [OF Cons.prems(1)] show False by blast
  qed
  moreover have "\<not> end_minute w < end_minute v"
  proof
    assume "end_minute w < end_minute v"
    then have "open_minute (v # vs) (weekday w) (end_minute w)"
      unfolding same [symmetric] by (intro open_v) (use same lt in simp_all)
    with eq canonical_first_gap [OF cw] show False by blast
  qed
  ultimately have vw: "v = w" using same by simp
  have rest: "\<not> (weekday v = d \<and> start_minute v \<le> m \<and> m < end_minute v)"
    if "open_minute us d m" "\<forall>u\<in>set us. apart v u" for us d m
    using that by (auto simp: open_minute_def apart_def)
  have "open_minute vs d m \<longleftrightarrow> open_minute ws' d m" for d m
    using eq [of d m] rest [of vs d m] rest [of ws' d m] Cons.prems(1) cw by (auto simp: vw)
  then have "vs = ws'" using Cons.IH Cons.prems(1) cw by auto
  with vw ws show ?case by simp
qed

section \<open>The local clock\<close>

text \<open>What the participant's wall clock shows at UTC instant \<open>u\<close>, in seconds since the epoch.\<close>

definition reading :: "AvailabilitySchedule \<Rightarrow> nat \<Rightarrow> int" where
  "reading sch u = int u + offset_at sch u"

definition known_offsets :: "AvailabilitySchedule \<Rightarrow> int list" where
  "known_offsets sch = utc_offset_seconds sch # map change_offset (offset_changes sch)"

definition offset_ok :: "int \<Rightarrow> bool" where
  "offset_ok c \<longleftrightarrow> MIN_UTC_OFFSET_SECONDS \<le> c \<and> c \<le> MAX_UTC_OFFSET_SECONDS"

lemma offset_loop_mem: "offset_loop u cs c \<in> insert c (change_offset ` set cs)"
  by (induction u cs c rule: offset_loop.induct) auto

lemma offset_at_known: "offset_at sch u \<in> set (known_offsets sch)"
  using offset_loop_mem [of u "offset_changes sch" "utc_offset_seconds sch"]
  by (simp add: offset_at_def known_offsets_def)

text \<open>\<open>r\<close> is the least element of \<open>U\<close>, or nothing if there is none.\<close>

definition is_least :: "nat option \<Rightarrow> nat set \<Rightarrow> bool" where
  "is_least r U \<longleftrightarrow> (case r of None \<Rightarrow> U = {} | Some u \<Rightarrow> u \<in> U \<and> (\<forall>v\<in>U. u \<le> v))"

lemma is_least_unique: "is_least r U \<Longrightarrow> is_least r' U \<Longrightarrow> r = r'"
  by (auto simp: is_least_def split: option.splits intro: antisym)

lemma is_least_insert:
  "is_least best U \<Longrightarrow>
   is_least (case best of None \<Rightarrow> Some u | Some v \<Rightarrow> Some (if u < v then u else v)) (insert u U)"
  by (auto simp: is_least_def split: option.splits)

lemma local_loop_least:
  assumes "\<And>c. c \<in> set cs \<Longrightarrow> fits_i64 (l - c)" "is_least best U"
  shows "\<exists>r. local_loop sch l cs best = Ok r \<and>
    is_least r (U \<union> {u. reading sch u = l \<and> offset_at sch u \<in> set cs})"
  using assms
proof (induction cs arbitrary: best U)
  case Nil
  then show ?case by simp
next
  case (Cons c cs)
  let ?new = "{u. reading sch u = l \<and> offset_at sch u = c}"
  have step: "\<exists>r. local_loop sch l cs b = Ok r \<and>
      is_least r (U' \<union> {u. reading sch u = l \<and> offset_at sch u \<in> set cs})" if "is_least b U'" for b U'
    using Cons that by simp
  have split: "U \<union> {u. reading sch u = l \<and> offset_at sch u \<in> set (c # cs)} =
      (U \<union> ?new) \<union> {u. reading sch u = l \<and> offset_at sch u \<in> set cs}"
    by auto
  show ?case
  proof (cases "0 \<le> l - c \<and> offset_at sch (nat (l - c)) = c")
    case True
    then have "?new = {nat (l - c)}" by (auto simp: reading_def)
    then show ?thesis
      unfolding split using step [OF is_least_insert [OF Cons.prems(2), of "nat (l - c)"]] True Cons.prems(1)
      by (simp add: Let_def insert_commute)
  next
    case False
    then have "?new = {}" by (auto simp: reading_def)
    then show ?thesis
      unfolding split \<open>?new = {}\<close> Un_empty_right
      using step [OF Cons.prems(2)] False Cons.prems(1) by (auto simp: Let_def)
  qed
qed

lemma local_to_utc_least:
  assumes "\<And>c. c \<in> set (known_offsets sch) \<Longrightarrow> offset_ok c" "0 \<le> l" "l < 2 ^ 62"
  shows "\<exists>r. local_to_utc sch l = Ok r \<and> is_least r {u. reading sch u = l}"
proof -
  have fits: "fits_i64 (l - c)" if "c \<in> set (known_offsets sch)" for c
    using assms(1) [OF that] assms(2,3) by (simp add: offset_ok_def time_consts range_defs)
  then have "\<exists>r. local_loop sch l (known_offsets sch) None = Ok r \<and>
      is_least r ({} \<union> {u. reading sch u = l \<and> offset_at sch u \<in> set (known_offsets sch)})"
    by (intro local_loop_least) (simp_all add: is_least_def)
  then show ?thesis
    using assms(2) by (simp add: local_to_utc_def known_offsets_def [symmetric] offset_at_known)
qed

lemma local_to_utc_negative: "l < 0 \<Longrightarrow> local_to_utc sch l = Ok None"
  by (simp add: local_to_utc_def)

end
