(* ===== verification/Availability_Ranges.thy ===== *)
theory Availability_Ranges
  imports Availability_Windows "HOL-Library.Multiset"
begin

text \<open>
  Materialisation: \<open>compute_ranges\<close> walks day buckets, sorts and merges candidates and cuts blackouts. Read as
  the set of instants it covers, its result is exactly what the schedule and the exceptions say, and as a
  list it is sorted with a gap between any two ranges.
\<close>

section \<open>Lists of ranges as sets of instants\<close>

definition within :: "AvailableRange \<Rightarrow> nat \<Rightarrow> bool" where
  "within r t \<longleftrightarrow> start_ts r \<le> t \<and> t < end_ts r"

definition covered :: "AvailableRange list \<Rightarrow> nat \<Rightarrow> bool" where
  "covered rs t \<longleftrightarrow> (\<exists>r\<in>set rs. within r t)"

definition nonempty :: "AvailableRange \<Rightarrow> bool" where
  "nonempty r \<longleftrightarrow> start_ts r < end_ts r"

definition inside :: "nat \<Rightarrow> nat \<Rightarrow> AvailableRange list \<Rightarrow> bool" where
  "inside a b rs \<longleftrightarrow> (\<forall>r\<in>set rs. nonempty r \<and> a \<le> start_ts r \<and> end_ts r \<le> b)"

text \<open>Sorted, non-empty, and no two ranges overlap or touch.\<close>

definition separated :: "AvailableRange list \<Rightarrow> bool" where
  "separated rs \<longleftrightarrow> sorted_wrt (\<lambda>r r'. end_ts r < start_ts r') rs \<and> (\<forall>r\<in>set rs. nonempty r)"

lemma covered_simps [simp]:
  "\<not> covered [] t" "covered (r # rs) t \<longleftrightarrow> within r t \<or> covered rs t"
  "covered (rs @ rs') t \<longleftrightarrow> covered rs t \<or> covered rs' t"
  by (auto simp: covered_def)

lemma inside_simps [simp]:
  "inside a b []" "inside a b (r # rs) \<longleftrightarrow> nonempty r \<and> a \<le> start_ts r \<and> end_ts r \<le> b \<and> inside a b rs"
  "inside a b (rs @ rs') \<longleftrightarrow> inside a b rs \<and> inside a b rs'"
  by (auto simp: inside_def)

lemma separated_simps [simp]:
  "separated []"
  "separated (r # rs) \<longleftrightarrow> nonempty r \<and> (\<forall>r'\<in>set rs. end_ts r < start_ts r') \<and> separated rs"
  "separated (rs @ rs') \<longleftrightarrow> separated rs \<and> separated rs' \<and> (\<forall>r\<in>set rs. \<forall>r'\<in>set rs'. end_ts r < start_ts r')"
  by (auto simp: separated_def sorted_wrt_append)

text \<open>An interval covered by a separated list lies in one of its ranges.\<close>

lemma separated_interval:
  assumes "separated rs" "a < b"
  shows "(\<forall>t. a \<le> t \<and> t < b \<longrightarrow> covered rs t) \<longleftrightarrow> (\<exists>r\<in>set rs. start_ts r \<le> a \<and> b \<le> end_ts r)"
proof
  assume "\<forall>t. a \<le> t \<and> t < b \<longrightarrow> covered rs t"
  then show "\<exists>r\<in>set rs. start_ts r \<le> a \<and> b \<le> end_ts r"
    using assms(1)
  proof (induction rs)
    case Nil
    then show ?case using assms(2) by auto
  next
    case (Cons r rs)
    show ?case
    proof (cases "start_ts r \<le> a \<and> a < end_ts r")
      case True
      have "b \<le> end_ts r"
      proof (rule ccontr)
        assume "\<not> b \<le> end_ts r"
        with Cons.prems(1) True have "covered (r # rs) (end_ts r)" by simp
        with Cons.prems(2) show False by (auto simp: within_def covered_def)
      qed
      with True show ?thesis by auto
    next
      case False
      have "covered rs t" if t: "a \<le> t" "t < b" for t
      proof (rule ccontr)
        assume n: "\<not> covered rs t"
        with Cons.prems(1) t have "within r t" by auto
        moreover have "covered rs a" using Cons.prems(1) False assms(2) by (auto simp: within_def)
        then obtain r' where "r' \<in> set rs" "within r' a" by (auto simp: covered_def)
        ultimately show False using Cons.prems(2) t by (fastforce simp: within_def)
      qed
      with Cons show ?thesis by auto
    qed
  qed
qed (force simp: covered_def within_def)

section \<open>The selection sort\<close>

definition sorted_upto :: "nat \<Rightarrow> AvailableRange list \<Rightarrow> bool" where
  "sorted_upto n cs \<longleftrightarrow> (\<forall>a b. a < n \<longrightarrow> a < b \<longrightarrow> b < length cs \<longrightarrow> start_ts (cs ! a) \<le> start_ts (cs ! b))"

lemma min_index_least:
  "min_index cs js m \<in> insert m (set js) \<and>
   (\<forall>k\<in>insert m (set js). start_ts (cs ! min_index cs js m) \<le> start_ts (cs ! k))"
  by (induction cs js m rule: min_index.induct) fastforce+

lemma select_swap_step:
  assumes "i < length cs" "sorted_upto i cs"
  shows "length (select_swap i cs) = length cs \<and> mset (select_swap i cs) = mset cs \<and>
    sorted_upto (Suc i) (select_swap i cs)"
proof -
  define m where "m = min_index cs [Suc i..<length cs] i"
  have m: "i \<le> m" "m < length cs" "\<And>k. i \<le> k \<Longrightarrow> k < length cs \<Longrightarrow> start_ts (cs ! m) \<le> start_ts (cs ! k)"
    using min_index_least [of cs "[Suc i..<length cs]" i] assms(1) unfolding m_def [symmetric]
    by (auto simp: Suc_le_eq order_le_less)
  have eq: "select_swap i cs = cs[i := cs ! m, m := cs ! i]"
    by (simp add: select_swap_def m_def Let_def)
  have nth: "cs[i := cs ! m, m := cs ! i] ! k = (if k = m then cs ! i else if k = i then cs ! m else cs ! k)"
    if "k < length cs" for k
    using that m assms(1) by (auto simp: nth_list_update)
  have "sorted_upto (Suc i) (cs[i := cs ! m, m := cs ! i])"
    unfolding sorted_upto_def
  proof (intro allI impI)
    fix a b assume ab: "a < Suc i" "a < b" "b < length (cs[i := cs ! m, m := cs ! i])"
    then have b: "b < length cs" by simp
    define b' where "b' = (if b = m then i else if b = i then m else b)"
    have *: "cs[i := cs ! m, m := cs ! i] ! b = cs ! b'" using nth [OF b] by (simp add: b'_def)
    show "start_ts (cs[i := cs ! m, m := cs ! i] ! a) \<le> start_ts (cs[i := cs ! m, m := cs ! i] ! b)"
    proof (cases "a = i")
      case True
      with ab m b have "i \<le> b'" "b' < length cs" by (auto simp: b'_def)
      moreover have "cs[i := cs ! m, m := cs ! i] ! a = cs ! m" using True nth [OF assms(1)] by simp
      ultimately show ?thesis using * m(3) by simp
    next
      case False
      with ab m b assms(1) have "a < i" "a < b'" "b' < length cs" by (auto simp: b'_def)
      moreover have "cs[i := cs ! m, m := cs ! i] ! a = cs ! a" using False ab b m nth [of a] by auto
      ultimately show ?thesis using * assms(2) by (simp add: sorted_upto_def)
    qed
  qed
  moreover have "mset (cs[i := cs ! m, m := cs ! i]) = mset cs" using assms(1) m(2) by (simp add: mset_swap)
  ultimately show ?thesis by (simp add: eq)
qed

lemma sort_loop_sorted:
  "n = length cs \<Longrightarrow> i \<le> n \<Longrightarrow> sorted_upto i cs \<Longrightarrow>
   mset (sort_loop [i..<n] cs) = mset cs \<and> sorted_upto n (sort_loop [i..<n] cs) \<and>
   length (sort_loop [i..<n] cs) = n"
proof (induction "n - i" arbitrary: i cs)
  case (Suc d)
  then have i: "i < n" "[i..<n] = i # [Suc i..<n]" by (simp_all add: upt_conv_Cons)
  have "length (select_swap i cs) = length cs \<and> mset (select_swap i cs) = mset cs \<and>
      sorted_upto (Suc i) (select_swap i cs)"
    using i Suc.prems by (intro select_swap_step) simp_all
  with Suc.hyps(1) [of "Suc i" "select_swap i cs"] Suc.hyps(2) Suc.prems i show ?case by simp
qed simp

lemma selection_sort_correct:
  "mset (selection_sort cs) = mset cs \<and> sorted_wrt (\<lambda>r r'. start_ts r \<le> start_ts r') (selection_sort cs)"
proof -
  have "mset (selection_sort cs) = mset cs \<and> sorted_upto (length cs) (selection_sort cs) \<and>
      length (selection_sort cs) = length cs"
    unfolding selection_sort_def by (rule sort_loop_sorted) (simp_all add: sorted_upto_def)
  then show ?thesis by (auto simp: sorted_upto_def sorted_wrt_iff_nth_less)
qed

lemma selection_sort_set: "set (selection_sort cs) = set cs"
  using selection_sort_correct by (metis mset_eq_setD)

section \<open>Merging\<close>

lemma fold_range_ok:
  assumes "separated m" "nonempty c" "m \<noteq> [] \<Longrightarrow> start_ts (last m) \<le> start_ts c"
  shows "separated (fold_range m c) \<and> fold_range m c \<noteq> [] \<and> start_ts (last (fold_range m c)) \<le> start_ts c \<and>
    (\<forall>t. covered (fold_range m c) t \<longleftrightarrow> covered m t \<or> within c t) \<and>
    (\<forall>b. (\<forall>r\<in>set m. end_ts r \<le> b) \<longrightarrow> end_ts c \<le> b \<longrightarrow> (\<forall>r\<in>set (fold_range m c). end_ts r \<le> b))"
proof (cases m rule: rev_cases)
  case Nil
  with assms(2) show ?thesis by (simp add: fold_range_def)
next
  case (snoc vs l)
  with assms show ?thesis
    by (auto simp: fold_range_def nonempty_def within_def)
qed

lemma fold_ranges_ok:
  assumes "separated m" "\<forall>r\<in>set m. start_ts r \<le> a" "inside a b cs"
    "sorted_wrt (\<lambda>r r'. start_ts r \<le> start_ts r') cs" "\<forall>r\<in>set m. end_ts r \<le> b"
  shows "separated (foldl fold_range m cs) \<and> (\<forall>r\<in>set (foldl fold_range m cs). end_ts r \<le> b) \<and>
    (\<forall>t. covered (foldl fold_range m cs) t \<longleftrightarrow> covered m t \<or> covered cs t)"
proof -
  have "separated (foldl fold_range m cs) \<and> (\<forall>r\<in>set (foldl fold_range m cs). end_ts r \<le> b) \<and>
      (\<forall>t. covered (foldl fold_range m cs) t \<longleftrightarrow> covered m t \<or> covered cs t)"
    if "m \<noteq> [] \<Longrightarrow> \<forall>c\<in>set cs. start_ts (last m) \<le> start_ts c"
    using assms(1,3-5) that
  proof (induction cs arbitrary: m)
    case (Cons c cs)
    have "nonempty c" "end_ts c \<le> b" and sub: "inside a b cs" using Cons.prems(2) by simp_all
    moreover have "m \<noteq> [] \<Longrightarrow> start_ts (last m) \<le> start_ts c" using Cons.prems(5) by simp
    ultimately have step: "separated (fold_range m c)" "fold_range m c \<noteq> []"
      "start_ts (last (fold_range m c)) \<le> start_ts c" "\<forall>r\<in>set (fold_range m c). end_ts r \<le> b"
      "\<And>t. covered (fold_range m c) t \<longleftrightarrow> covered m t \<or> within c t"
      using fold_range_ok [OF Cons.prems(1)] Cons.prems(4) by blast+
    have later: "\<forall>d\<in>set cs. start_ts (last (fold_range m c)) \<le> start_ts d"
      using Cons.prems(3) step(3) by (auto intro: order_trans)
    have "separated (foldl fold_range (fold_range m c) cs) \<and>
        (\<forall>r\<in>set (foldl fold_range (fold_range m c) cs). end_ts r \<le> b) \<and>
        (\<forall>t. covered (foldl fold_range (fold_range m c) cs) t \<longleftrightarrow> covered (fold_range m c) t \<or> covered cs t)"
      by (rule Cons.IH [OF step(1) sub _ step(4) later]) (use Cons.prems(3) in simp)
    then show ?case by (simp add: step(5))
  qed simp
  moreover have "\<forall>c\<in>set cs. start_ts (last m) \<le> start_ts c" if "m \<noteq> []"
  proof
    fix c assume "c \<in> set cs"
    then have "a \<le> start_ts c" using assms(3) by (simp add: inside_def)
    moreover have "start_ts (last m) \<le> a" using that assms(2) by simp
    ultimately show "start_ts (last m) \<le> start_ts c" by simp
  qed
  ultimately show ?thesis by blast
qed

section \<open>Blackouts\<close>

definition blackout :: "AvailabilityException \<Rightarrow> nat \<Rightarrow> bool" where
  "blackout b t \<longleftrightarrow> from_ts b \<le> t \<and> t < until_ts b"

lemma cut_loop_ok:
  assumes "from_ts b < until_ts b" "separated rs" "inside lo hi rs"
  shows "separated (cut_loop b rs) \<and> inside lo hi (cut_loop b rs) \<and>
    (\<forall>t. covered (cut_loop b rs) t \<longleftrightarrow> covered rs t \<and> \<not> blackout b t)"
  using assms(2,3)
proof (induction rs arbitrary: lo)
  case (Cons r rs)
  have "inside (Suc (end_ts r)) hi rs" using Cons.prems by (auto simp: inside_def)
  with Cons.IH [of "Suc (end_ts r)"] Cons.prems(1)
  have IH: "separated (cut_loop b rs)" "inside (Suc (end_ts r)) hi (cut_loop b rs)"
    "\<And>t. covered (cut_loop b rs) t \<longleftrightarrow> covered rs t \<and> \<not> blackout b t"
    by auto
  then have gap: "\<forall>r'\<in>set (cut_loop b rs). end_ts r < start_ts r'" by (auto simp: inside_def)
  have low: "inside lo hi (cut_loop b rs)" using IH(2) Cons.prems by (auto simp: inside_def nonempty_def)
  show ?case
    using Cons.prems assms(1) IH(1,3) gap low by (auto simp: nonempty_def within_def blackout_def)
qed simp

lemma cut_all_ok:
  assumes "\<forall>b\<in>set bs. from_ts b < until_ts b" "separated rs" "inside lo hi rs"
  shows "separated (foldl (\<lambda>segments b. cut_loop b segments) rs bs) \<and>
    inside lo hi (foldl (\<lambda>segments b. cut_loop b segments) rs bs) \<and>
    (\<forall>t. covered (foldl (\<lambda>segments b. cut_loop b segments) rs bs) t \<longleftrightarrow>
       covered rs t \<and> \<not> (\<exists>b\<in>set bs. blackout b t))"
  using assms
proof (induction bs arbitrary: rs)
  case (Cons b bs)
  then have "separated (cut_loop b rs)" "inside lo hi (cut_loop b rs)"
    "\<And>t. covered (cut_loop b rs) t \<longleftrightarrow> covered rs t \<and> \<not> blackout b t"
    using cut_loop_ok [of b rs lo hi] by auto
  with Cons.IH [of "cut_loop b rs"] Cons.prems(1) show ?case by auto
qed simp

lemma subtract_loop_ok:
  assumes "\<forall>b\<in>set bs. from_ts b < until_ts b" "separated rs"
  shows "separated (subtract_loop bs rs) \<and> (\<forall>lo. (\<forall>r\<in>set rs. lo \<le> start_ts r) \<longrightarrow> (\<forall>r\<in>set (subtract_loop bs rs). lo \<le> start_ts r)) \<and>
    (\<forall>t. covered (subtract_loop bs rs) t \<longleftrightarrow> covered rs t \<and> \<not> (\<exists>b\<in>set bs. blackout b t))"
  using assms(2)
proof (induction rs)
  case (Cons r rs)
  let ?cut = "foldl (\<lambda>segments b. cut_loop b segments) [r] bs"
  have cut: "separated ?cut" "inside (start_ts r) (end_ts r) ?cut"
    "\<And>t. covered ?cut t \<longleftrightarrow> within r t \<and> \<not> (\<exists>b\<in>set bs. blackout b t)"
    using cut_all_ok [OF assms(1), of "[r]" "start_ts r" "end_ts r"] Cons.prems by simp_all
  have "\<forall>r'\<in>set rs. Suc (end_ts r) \<le> start_ts r'" using Cons.prems by (simp add: Suc_le_eq)
  then have IH: "separated (subtract_loop bs rs)" "\<forall>r'\<in>set (subtract_loop bs rs). Suc (end_ts r) \<le> start_ts r'"
    "\<And>lo. \<forall>r\<in>set rs. lo \<le> start_ts r \<Longrightarrow> \<forall>r\<in>set (subtract_loop bs rs). lo \<le> start_ts r"
    "\<And>t. covered (subtract_loop bs rs) t \<longleftrightarrow> covered rs t \<and> \<not> (\<exists>b\<in>set bs. blackout b t)"
    using Cons.IH Cons.prems by simp_all
  then show ?case using cut by (fastforce simp: inside_def)
qed simp

section \<open>Candidates of one day\<close>

text \<open>Instant \<open>t\<close> lies in the day bucket and in the query.\<close>

definition in_box :: "nat \<Rightarrow> nat \<Rightarrow> nat \<Rightarrow> nat \<Rightarrow> nat \<Rightarrow> bool" where
  "in_box ds de a b t \<longleftrightarrow> ds \<le> t \<and> t < de \<and> a \<le> t \<and> t < b"

lemma clip_Some:
  "clip x y lo hi = Some r \<longleftrightarrow> max x lo < min y hi \<and> r = \<lparr>start_ts = max x lo, end_ts = min y hi\<rparr>"
  by (auto simp: clip_def Let_def max_def min_def)

lemma clip_None: "clip x y lo hi = None \<longleftrightarrow> min y hi \<le> max x lo"
  by (auto simp: clip_def Let_def max_def min_def)

lemma push_clipped_ok:
  "(covered (push_clipped x y ds de a b cs) t \<longleftrightarrow> covered cs t \<or> in_box ds de a b t \<and> x \<le> t \<and> t < y) \<and>
   (inside ds de cs \<longrightarrow> inside ds de (push_clipped x y ds de a b cs))"
proof (cases "clip x y ds de")
  case None
  then have "push_clipped x y ds de a b cs = cs" by (simp add: push_clipped_def)
  moreover have "min y de \<le> max x ds" using None by (simp only: clip_None)
  ultimately show ?thesis by (auto simp: in_box_def)
next
  case r: (Some r)
  have box: "max x ds < min y de" "r = \<lparr>start_ts = max x ds, end_ts = min y de\<rparr>"
    using r by (simp_all only: clip_Some)
  show ?thesis
  proof (cases "clip (start_ts r) (end_ts r) a b")
    case None
    then have "push_clipped x y ds de a b cs = cs" using r by (simp add: push_clipped_def)
    moreover have "min (end_ts r) b \<le> max (start_ts r) a" using None by (simp only: clip_None)
    ultimately show ?thesis using box by (auto simp: in_box_def)
  next
    case (Some r')
    then have "push_clipped x y ds de a b cs = cs @ [r']" using r by (simp add: push_clipped_def)
    moreover have "max (start_ts r) a < min (end_ts r) b"
      "r' = \<lparr>start_ts = max (start_ts r) a, end_ts = min (end_ts r) b\<rparr>"
      using Some by (simp_all only: clip_Some)
    ultimately show ?thesis using box by (auto simp: in_box_def within_def nonempty_def)
  qed
qed

text \<open>A window opens the instant \<open>t\<close> on the local day that starts at local second \<open>ld\<close>.\<close>

definition opens :: "AvailabilitySchedule \<Rightarrow> WeeklyWindow \<Rightarrow> int \<Rightarrow> nat \<Rightarrow> bool" where
  "opens sch w ld t \<longleftrightarrow>
     (\<exists>a b. local_to_utc sch (ld + int (start_minute w) * 60) = Ok (Some a) \<and>
        local_to_utc sch (ld + int (end_minute w) * 60) = Ok (Some b) \<and> a \<le> t \<and> t < b)"

definition schedule_ok :: "AvailabilitySchedule \<Rightarrow> bool" where
  "schedule_ok sch \<longleftrightarrow> (\<forall>c\<in>set (known_offsets sch). offset_ok c) \<and> canonical (weekly sch)"

lemma local_to_utc_total:
  assumes "schedule_ok sch" "l < 2 ^ 62"
  obtains r where "local_to_utc sch l = Ok r"
  using assms local_to_utc_least [of sch l] local_to_utc_negative [of l sch]
  unfolding schedule_ok_def by fastforce

lemma window_loop_ok:
  assumes "schedule_ok sch" "- (2 ^ 62) \<le> ld" "ld + 86400 < 2 ^ 62" "\<forall>w\<in>set ws. window_ok w" "inside ds de cs"
  shows "\<exists>cs'. window_loop sch ld wd ds de a b ws cs = Ok cs' \<and> inside ds de cs' \<and>
    (\<forall>t. covered cs' t \<longleftrightarrow> covered cs t \<or>
       in_box ds de a b t \<and> (\<exists>w\<in>set ws. weekday w = wd \<and> opens sch w ld t))"
  using assms(4,5)
proof (induction ws arbitrary: cs)
  case (Cons w ws)
  let ?l = "ld + int (start_minute w) * 60" and ?m = "ld + int (end_minute w) * 60"
  have bounds: "?l < 2 ^ 62" "?m < 2 ^ 62" "fits_i64 ?l" "fits_i64 ?m"
    using Cons.prems(1) assms(2,3) by (auto simp: window_ok_def time_consts range_defs)
  obtain r r' where r: "local_to_utc sch ?l = Ok r" "local_to_utc sch ?m = Ok r'"
    using local_to_utc_total [OF assms(1)] bounds(1,2) by metis
  have skip: ?case if "window_loop sch ld wd ds de a b (w # ws) cs = window_loop sch ld wd ds de a b ws cs"
    "\<And>t. \<not> (weekday w = wd \<and> opens sch w ld t)"
    using that Cons.IH [of cs] Cons.prems by auto
  show ?case
  proof (cases "weekday w = wd \<and> r \<noteq> None \<and> r' \<noteq> None")
    case True
    then obtain x y where xy: "r = Some x" "r' = Some y" by auto
    let ?cs = "push_clipped x y ds de a b cs"
    have opens: "opens sch w ld t \<longleftrightarrow> x \<le> t \<and> t < y" for t using r xy by (simp add: opens_def)
    have "window_loop sch ld wd ds de a b (w # ws) cs = window_loop sch ld wd ds de a b ws ?cs"
      using True bounds r xy by (simp add: time_consts)
    moreover have "inside ds de ?cs" using push_clipped_ok Cons.prems(2) by blast
    ultimately show ?thesis
      using Cons.IH [of ?cs] Cons.prems(1) True push_clipped_ok [of x y ds de a b cs] by (auto simp: opens)
  next
    case False
    show ?thesis
    proof (rule skip)
      show "window_loop sch ld wd ds de a b (w # ws) cs = window_loop sch ld wd ds de a b ws cs"
        using False bounds r by (auto simp: time_consts split: option.splits)
    qed (use False r in \<open>auto simp: opens_def\<close>)
  qed
qed simp

text \<open>The loop over local days; \<open>k\<close> counts days since the epoch.\<close>

definition day_opens :: "AvailabilitySchedule \<Rightarrow> int \<Rightarrow> nat \<Rightarrow> bool" where
  "day_opens sch j t \<longleftrightarrow>
     (\<exists>w\<in>set (weekly sch). weekday w = weekday_of (j * 86400) \<and> opens sch w (j * 86400) t)"

lemma ex_from: "(\<exists>j::int. k \<le> j \<and> P j) \<longleftrightarrow> P k \<or> (\<exists>j. k + 1 \<le> j \<and> P j)"
proof
  assume "\<exists>j. k \<le> j \<and> P j"
  then obtain j where "k \<le> j" "P j" by blast
  then show "P k \<or> (\<exists>j. k + 1 \<le> j \<and> P j)" by (cases "j = k") auto
next
  assume "P k \<or> (\<exists>j. k + 1 \<le> j \<and> P j)"
  then show "\<exists>j. k \<le> j \<and> P j"
  proof (elim disjE exE conjE)
    fix j assume "k + 1 \<le> j" "P j"
    then have "k \<le> j" "P j" by simp_all
    then show ?thesis by blast
  qed blast
qed

lemma local_day_loop_ok:
  assumes "schedule_ok sch" "- (2 ^ 62) \<le> k * 86400" "ll + 86400 < 2 ^ 62" "inside ds de cs"
  shows "\<exists>cs'. local_day_loop sch (k * 86400) ll ds de a b cs = Ok cs' \<and> inside ds de cs' \<and>
    (\<forall>t. covered cs' t \<longleftrightarrow> covered cs t \<or> in_box ds de a b t \<and>
       (\<exists>j. k \<le> j \<and> j * 86400 \<le> ll \<and> day_opens sch j t))"
  using assms(2,4)
proof (induction "nat (ll + 1 - k * 86400)" arbitrary: k cs rule: less_induct)
  case less
  show ?case
  proof (cases "k * 86400 \<le> ll")
    case False
    then have none: "k \<le> j \<Longrightarrow> \<not> j * 86400 \<le> ll" for j by simp
    have "local_day_loop sch (k * 86400) ll ds de a b cs = Ok cs"
      using False by (simp add: local_day_loop.simps)
    then show ?thesis using less.prems(2) none by blast
  next
    case True
    have win: "\<forall>w\<in>set (weekly sch). window_ok w" using assms(1) by (simp add: schedule_ok_def canonical_def)
    have "k * 86400 + 86400 < 2 ^ 62" using True assms(3) by simp
    from window_loop_ok [OF assms(1) less.prems(1) this win less.prems(2)]
    obtain cs1 where cs1: "window_loop sch (k * 86400) (weekday_of (k * 86400)) ds de a b (weekly sch) cs = Ok cs1"
      "inside ds de cs1"
      "\<And>t. covered cs1 t \<longleftrightarrow> covered cs t \<or> in_box ds de a b t \<and>
         day_opens sch k t"
      unfolding day_opens_def by blast
    have "nat (ll + 1 - (k + 1) * 86400) < nat (ll + 1 - k * 86400)" using True by simp
    moreover have "- (2 ^ 62) \<le> (k + 1) * 86400" using less.prems(1) by simp
    ultimately obtain cs' where cs': "local_day_loop sch ((k + 1) * 86400) ll ds de a b cs1 = Ok cs'"
      "inside ds de cs'"
      "\<And>t. covered cs' t \<longleftrightarrow> covered cs1 t \<or> in_box ds de a b t \<and>
         (\<exists>j. k + 1 \<le> j \<and> j * 86400 \<le> ll \<and> day_opens sch j t)"
      using less.hyps [of "k + 1" cs1] cs1(2) by blast
    have "fits_i64 (k * 86400 + 86400)" using True assms(3) less.prems(1) by (simp add: range_defs)
    then have "local_day_loop sch (k * 86400) ll ds de a b cs = Ok cs'"
      using True cs1(1) cs'(1) by (subst local_day_loop.simps) (simp add: time_consts algebra_simps)
    moreover have "covered cs' t \<longleftrightarrow> covered cs t \<or> in_box ds de a b t \<and>
       (\<exists>j. k \<le> j \<and> j * 86400 \<le> ll \<and> day_opens sch j t)" for t
      using True unfolding cs'(3) cs1(3) ex_from [of k] by blast
    ultimately show ?thesis using cs'(2) by blast
  qed
qed

lemma extra_loop_ok:
  assumes "inside ds de cs"
  shows "inside ds de (extra_loop ds de a b xs cs) \<and>
    (\<forall>t. covered (extra_loop ds de a b xs cs) t \<longleftrightarrow> covered cs t \<or>
       in_box ds de a b t \<and> (\<exists>x\<in>set xs. exc_kind x = Available \<and> from_ts x \<le> t \<and> t < until_ts x))"
  using assms
proof (induction xs arbitrary: cs)
  case (Cons x xs)
  let ?cs = "push_clipped (from_ts x) (until_ts x) ds de a b cs"
  have "inside ds de ?cs" using push_clipped_ok Cons.prems by blast
  with Cons.IH [of ?cs] Cons.IH [OF Cons.prems] push_clipped_ok [of "from_ts x" "until_ts x" ds de a b cs]
  show ?case by auto
qed simp

section \<open>What the schedule says\<close>

text \<open>
  The weekly schedule opens instant \<open>t\<close> if a window on some local day does; day \<open>j\<close> since the epoch has
  weekday \<open>(j + 4) mod 7\<close>, counted from Sunday.
\<close>

definition weekly_open :: "AvailabilitySchedule \<Rightarrow> nat \<Rightarrow> bool" where
  "weekly_open sch t \<longleftrightarrow>
     (\<exists>j. \<exists>w\<in>set (weekly sch). weekday w = (j + 4) mod 7 \<and> opens sch w (int j * 86400) t)"

definition extra_open :: "AvailabilityException list \<Rightarrow> nat \<Rightarrow> bool" where
  "extra_open xs t \<longleftrightarrow> (\<exists>x\<in>set xs. exc_kind x = Available \<and> from_ts x \<le> t \<and> t < until_ts x)"

definition blocked :: "AvailabilityException list \<Rightarrow> nat \<Rightarrow> bool" where
  "blocked xs t \<longleftrightarrow> (\<exists>x\<in>set xs. exc_kind x = Unavailable \<and> from_ts x \<le> t \<and> t < until_ts x)"

lemma weekday_of_day: "weekday_of (int j * 86400) = (j + 4) mod 7"
proof -
  have "int ((j + 4) mod 7) < 2 ^ 32" by (simp add: order.strict_trans1 [of _ "7::int"])
  then have "(int j + 4) mod 7 mod 2 ^ 32 = int ((j + 4) mod 7)" by (simp add: zmod_int)
  then show ?thesis by (simp add: weekday_of_def rem_trunc_nonneg time_consts)
qed

lemma local_loop_sound: "local_loop sch l cs best = Ok (Some u) \<Longrightarrow> best = Some u \<or> reading sch u = l"
proof (induction cs arbitrary: best)
  case (Cons c cs)
  then show ?case
    by (fastforce simp: outcome_iff reading_def Let_def split: if_splits option.splits)
qed simp

lemma local_to_utc_sound: "local_to_utc sch l = Ok (Some u) \<Longrightarrow> 0 \<le> l \<and> reading sch u = l"
  by (auto simp: local_to_utc_def simp del: local_loop.simps dest: local_loop_sound split: if_splits)

text \<open>The local days that \<open>compute_ranges\<close> tries for a UTC day are all that can matter for it.\<close>

lemma opens_bounds:
  assumes "schedule_ok sch" "window_ok w" "opens sch w (j * 86400) t"
  shows "0 \<le> j" "j * 86400 \<le> int t + 50400" "int t - 43200 < j * 86400 + 86400"
proof -
  obtain a b where ab: "reading sch a = j * 86400 + int (start_minute w) * 60"
    "reading sch b = j * 86400 + int (end_minute w) * 60" "a \<le> t" "t < b"
    "0 \<le> j * 86400 + int (start_minute w) * 60"
    using assms(3) local_to_utc_sound unfolding opens_def by meson
  have off: "- 43200 \<le> offset_at sch u \<and> offset_at sch u \<le> 50400" for u
    using assms(1) offset_at_known [of sch u] by (auto simp: schedule_ok_def offset_ok_def time_consts)
  have w: "start_minute w < 1440" "end_minute w \<le> 1440" using assms(2) by (auto simp: window_ok_def time_consts)
  show "0 \<le> j" using ab(5) w(1) by linarith
  show "j * 86400 \<le> int t + 50400" using ab(1,3) off [of a] by (simp add: reading_def)
  show "int t - 43200 < j * 86400 + 86400" using ab(2,4) off [of b] w(2) by (simp add: reading_def)
qed

lemma local_day_bounds:
  "(int d * 86400 - 43200) div 86400 = int d - 1"
  "(int d * 86400 + 86400 + 50400 - 1) div 86400 = int d + 1"
proof -
  have "int d * 86400 - 43200 = 43200 + (int d - 1) * 86400"
    "int d * 86400 + 86400 + 50400 - 1 = 50399 + (int d + 1) * 86400" by simp_all
  then show "(int d * 86400 - 43200) div 86400 = int d - 1"
    "(int d * 86400 + 86400 + 50400 - 1) div 86400 = int d + 1"
    by (simp_all only: div_mult_self1)
qed

lemma day_opens_weekly:
  assumes "schedule_ok sch" "int d * 86400 \<le> int t" "int t < int d * 86400 + 86400"
  shows "(\<exists>j. (int d * 86400 - 43200) div 86400 \<le> j \<and>
      j * 86400 \<le> (int d * 86400 + 86400 + 50400 - 1) div 86400 * 86400 \<and> day_opens sch j t) \<longleftrightarrow> weekly_open sch t"
    (is "(\<exists>j. ?lo \<le> j \<and> j * 86400 \<le> ?hi \<and> _) \<longleftrightarrow> _")
proof -
  have win: "window_ok w" if "w \<in> set (weekly sch)" for w
    using that assms(1) by (simp add: schedule_ok_def canonical_def)
  note lo = local_day_bounds(1) [of d] and hi = local_day_bounds(2) [of d]
  show ?thesis
  proof
    assume "\<exists>j. ?lo \<le> j \<and> j * 86400 \<le> ?hi \<and> day_opens sch j t"
    then obtain j w where w: "w \<in> set (weekly sch)" "weekday w = weekday_of (j * 86400)" "opens sch w (j * 86400) t"
      by (auto simp: day_opens_def)
    then have "0 \<le> j" using opens_bounds(1) assms(1) win by blast
    then obtain n where "j = int n" by (metis nonneg_int_cases)
    with w show "weekly_open sch t" unfolding weekly_open_def by (auto simp: weekday_of_day)
  next
    assume "weekly_open sch t"
    then obtain j w where w: "w \<in> set (weekly sch)" "weekday w = (j + 4) mod 7" "opens sch w (int j * 86400) t"
      by (auto simp: weekly_open_def)
    note bounds = opens_bounds [OF assms(1) win [OF w(1)] w(3)]
    have "int j \<le> int d + 1"
    proof (rule ccontr)
      assume "\<not> int j \<le> int d + 1"
      then have "int d + 2 \<le> int j" by simp
      with bounds(2) assms(3) show False by linarith
    qed
    then have "int j * 86400 \<le> ?hi" unfolding hi by simp
    moreover have "?lo \<le> int j" unfolding lo using bounds(3) assms(2) by linarith
    moreover note w
    ultimately show "\<exists>j. ?lo \<le> j \<and> j * 86400 \<le> ?hi \<and> day_opens sch j t"
      unfolding day_opens_def by (intro exI [of _ "int j"]) (auto simp: weekday_of_day)
  qed
qed

section \<open>The walk over the days\<close>

lemma day_candidates_ok:
  assumes "schedule_ok sch" "int d * 86400 + 86400 * 4 < 2 ^ 62"
  shows "\<exists>cs. local_day_loop sch ((int d * 86400 - 43200) div 86400 * 86400)
        ((int d * 86400 + 86400 + 50400 - 1) div 86400 * 86400) (d * 86400) (d * 86400 + 86400) a b [] = Ok cs \<and>
      inside (d * 86400) (d * 86400 + 86400) (extra_loop (d * 86400) (d * 86400 + 86400) a b xs cs) \<and>
      (\<forall>t. covered (extra_loop (d * 86400) (d * 86400 + 86400) a b xs cs) t \<longleftrightarrow>
        in_box (d * 86400) (d * 86400 + 86400) a b t \<and> (weekly_open sch t \<or> extra_open xs t))"
proof -
  let ?k = "(int d * 86400 - 43200) div 86400" and ?ll = "(int d * 86400 + 86400 + 50400 - 1) div 86400 * 86400"
  let ?ds = "d * 86400" and ?de = "d * 86400 + 86400"
  note k = local_day_bounds(1) [of d] and ll = local_day_bounds(2) [of d]
  have "- (2 ^ 62) \<le> ?k * 86400" "?ll + 86400 < 2 ^ 62" using assms(2) by (simp_all add: k ll)
  from local_day_loop_ok [OF assms(1) this, of ?ds ?de "[]" a b]
  obtain cs where cs: "local_day_loop sch (?k * 86400) ?ll ?ds ?de a b [] = Ok cs" "inside ?ds ?de cs"
    "\<And>t. covered cs t \<longleftrightarrow> in_box ?ds ?de a b t \<and> (\<exists>j. ?k \<le> j \<and> j * 86400 \<le> ?ll \<and> day_opens sch j t)"
    by auto
  have "covered cs t \<longleftrightarrow> in_box ?ds ?de a b t \<and> weekly_open sch t" for t
  proof (cases "in_box ?ds ?de a b t")
    case True
    then have "int d * 86400 \<le> int t" "int t < int d * 86400 + 86400" by (auto simp: in_box_def)
    from day_opens_weekly [OF assms(1) this] show ?thesis unfolding cs(3) by blast
  qed (simp add: cs(3))
  then show ?thesis
    using cs(1,2) extra_loop_ok [OF cs(2), of a b xs] unfolding extra_open_def by auto
qed

text \<open>Within the range of realistic times no step of the walk overflows.\<close>

lemma day_steps:
  assumes "int d * 86400 + 86400 * 4 < 2 ^ 62"
  shows "u64_op (d * SECONDS_PER_DAY) = Ok (d * 86400)"
    "u64_op (d * 86400 + SECONDS_PER_DAY) = Ok (d * 86400 + 86400)"
    "i64_op (as_i64 (d * 86400) + MIN_UTC_OFFSET_SECONDS) = Ok (int d * 86400 - 43200)"
    "i64_op (as_i64 (d * 86400 + 86400) + MAX_UTC_OFFSET_SECONDS) = Ok (int d * 86400 + 86400 + 50400)"
    "i64_op ((int d * 86400 - 43200) div int SECONDS_PER_DAY * int SECONDS_PER_DAY) =
       Ok ((int d * 86400 - 43200) div 86400 * 86400)"
    "i64_op ((int d * 86400 + 86400 + 50400 - 1) div int SECONDS_PER_DAY * int SECONDS_PER_DAY) =
       Ok ((int d * 86400 + 86400 + 50400 - 1) div 86400 * 86400)"
proof -
  have "int (d * 86400 + 86400 * 4) < int (2 ^ 62)" using assms by simp
  then have d: "d * 86400 + 86400 * 4 < 2 ^ 62" by (simp only: of_nat_less_iff)
  show "u64_op (d * SECONDS_PER_DAY) = Ok (d * 86400)"
    "u64_op (d * 86400 + SECONDS_PER_DAY) = Ok (d * 86400 + 86400)"
    using d by (simp_all add: outcome_iff time_consts range_defs)
  have "as_i64 (d * 86400) = int d * 86400" "as_i64 (d * 86400 + 86400) = int d * 86400 + 86400"
    using d by (simp_all add: as_i64_def)
  then show "i64_op (as_i64 (d * 86400) + MIN_UTC_OFFSET_SECONDS) = Ok (int d * 86400 - 43200)"
    "i64_op (as_i64 (d * 86400 + 86400) + MAX_UTC_OFFSET_SECONDS) = Ok (int d * 86400 + 86400 + 50400)"
    using assms by (simp_all add: outcome_iff time_consts range_defs)
  have days: "int SECONDS_PER_DAY = 86400" by (simp add: time_consts)
  show "i64_op ((int d * 86400 - 43200) div int SECONDS_PER_DAY * int SECONDS_PER_DAY) =
       Ok ((int d * 86400 - 43200) div 86400 * 86400)"
    "i64_op ((int d * 86400 + 86400 + 50400 - 1) div int SECONDS_PER_DAY * int SECONDS_PER_DAY) =
       Ok ((int d * 86400 + 86400 + 50400 - 1) div 86400 * 86400)"
    using assms unfolding days local_day_bounds by (simp_all add: outcome_iff range_defs)
qed

lemma ex_between:
  assumes "d \<le> (ll::nat)"
  shows "(\<exists>e. d \<le> e \<and> e \<le> ll \<and> P e) \<longleftrightarrow> P d \<or> (\<exists>e. d + 1 \<le> e \<and> e \<le> ll \<and> P e)"
proof
  assume "\<exists>e. d \<le> e \<and> e \<le> ll \<and> P e"
  then obtain e where e: "d \<le> e" "e \<le> ll" "P e" by blast
  show "P d \<or> (\<exists>e. d + 1 \<le> e \<and> e \<le> ll \<and> P e)"
  proof (cases "e = d")
    case False
    with e have "d + 1 \<le> e" by simp
    with e show ?thesis by blast
  qed (use e in simp)
next
  assume "P d \<or> (\<exists>e. d + 1 \<le> e \<and> e \<le> ll \<and> P e)"
  then show "\<exists>e. d \<le> e \<and> e \<le> ll \<and> P e"
    using assms by (elim disjE exE conjE) (blast, meson add_leD1)
qed

lemma day_loop_ok:
  assumes "schedule_ok sch" "int ll * 86400 + 86400 * 4 < 2 ^ 62"
    and "separated m" "\<forall>r\<in>set m. end_ts r \<le> d * 86400"
  shows "\<exists>m'. day_loop sch xs d ll a b m = Ok m' \<and> separated m' \<and>
    (\<forall>t. covered m' t \<longleftrightarrow> covered m t \<or>
       (\<exists>e. d \<le> e \<and> e \<le> ll \<and> in_box (e * 86400) (e * 86400 + 86400) a b t) \<and>
       (weekly_open sch t \<or> extra_open xs t))"
  using assms(3,4)
proof (induction "ll + 1 - d" arbitrary: d m)
  case 0
  then have "\<not> d \<le> ll" by simp
  then have "day_loop sch xs d ll a b m = Ok m" "\<And>e. d \<le> e \<Longrightarrow> \<not> e \<le> ll"
    by (simp_all add: day_loop.simps)
  with 0 show ?case by blast
next
  case (Suc n)
  let ?ds = "d * 86400" and ?de = "d * 86400 + 86400"
  have d: "d \<le> ll" using Suc.hyps(2) by simp
  then have bound: "int d * 86400 + 86400 * 4 < 2 ^ 62" using assms(2) by linarith
  obtain cs where cs: "local_day_loop sch ((int d * 86400 - 43200) div 86400 * 86400)
        ((int d * 86400 + 86400 + 50400 - 1) div 86400 * 86400) ?ds ?de a b [] = Ok cs"
    "inside ?ds ?de (extra_loop ?ds ?de a b xs cs)"
    "\<And>t. covered (extra_loop ?ds ?de a b xs cs) t \<longleftrightarrow> in_box ?ds ?de a b t \<and> (weekly_open sch t \<or> extra_open xs t)"
    using day_candidates_ok [OF assms(1) bound] by blast
  let ?cs = "selection_sort (extra_loop ?ds ?de a b xs cs)"
  let ?m = "foldl fold_range m ?cs"
  have "inside ?ds ?de ?cs" using cs(2) by (simp add: inside_def selection_sort_set)
  moreover have "\<forall>r\<in>set m. start_ts r \<le> ?ds" "\<forall>r\<in>set m. end_ts r \<le> ?de"
    using Suc.prems by (fastforce simp: separated_def nonempty_def)+
  ultimately have m: "separated ?m" "\<forall>r\<in>set ?m. end_ts r \<le> ?de"
    "\<And>t. covered ?m t \<longleftrightarrow> covered m t \<or> covered ?cs t"
    using fold_ranges_ok [OF Suc.prems(1)] selection_sort_correct by blast+
  have "n = ll + 1 - (d + 1)" "\<forall>r\<in>set ?m. end_ts r \<le> (d + 1) * 86400" using Suc.hyps(2) m(2) by (simp_all add: add.commute)
  from Suc.hyps(1) [OF this(1) m(1) this(2)] obtain m' where m': "day_loop sch xs (d + 1) ll a b ?m = Ok m'"
    "separated m'"
    "\<And>t. covered m' t \<longleftrightarrow> covered ?m t \<or>
       (\<exists>e. d + 1 \<le> e \<and> e \<le> ll \<and> in_box (e * 86400) (e * 86400 + 86400) a b t) \<and>
       (weekly_open sch t \<or> extra_open xs t)"
    by blast
  have "day_loop sch xs d ll a b m = day_loop sch xs (d + 1) ll a b ?m"
    using d bound cs(1) by (subst day_loop.simps) (simp only: day_steps [OF bound] and_then.simps Let_def if_True)
  moreover have "covered ?cs t \<longleftrightarrow> in_box ?ds ?de a b t \<and> (weekly_open sch t \<or> extra_open xs t)" for t
    using cs(3) by (simp add: covered_def selection_sort_set)
  moreover have "(\<exists>e. d \<le> e \<and> e \<le> ll \<and> P e) \<longleftrightarrow> P d \<or> (\<exists>e. d + 1 \<le> e \<and> e \<le> ll \<and> P e)" for P
    by (rule ex_between [OF d])
  ultimately show ?case using m' m(3) by auto
qed

end
