(* ===== verification/Mentorship_Calendar.thy ===== *)
theory Mentorship_Calendar
  imports Transition_Systems
begin

text \<open>
  \<open>contracts/mentorship-calendar/src/lib.rs\<close>: participants connect external calendars and import free/busy time.
  A connection stores a commitment to its token and the bookkeeping of its synchronisation; an accepted
  synchronisation replaces the busy windows of the connection by a canonical list.
\<close>

unbundle bit_operations_syntax

section \<open>State\<close>

datatype ContractError =
    ConnectionNotFound | ConnectionAlreadyExists | TooManyConnections | InvalidScope | ScopeNotAllowed
  | InvalidTokenCommitment | InvalidExpiry | ConnectionNotActive | ConnectionExpired | StaleSyncEpoch
  | TooManyBusyWindows | InvalidBusyWindow | BusyWindowSpanTooLarge | InvalidSyncRange | InvalidPage
  | InvalidQueryRange | QuerySpanTooLarge | ConnectionNotExpired

definition CONTRACT_VERSION :: nat where
  "CONTRACT_VERSION = 1"

definition SECONDS_PER_DAY :: nat where
  "SECONDS_PER_DAY = 86400"

text \<open>Scopes are bit masks of 32 bits.\<close>

definition SCOPE_FREE_BUSY :: "32 word" where
  "SCOPE_FREE_BUSY = 1"

definition SCOPE_TIMEZONE :: "32 word" where
  "SCOPE_TIMEZONE = 2"

definition ALLOWED_SCOPES :: "32 word" where
  "ALLOWED_SCOPES = SCOPE_FREE_BUSY OR SCOPE_TIMEZONE"

definition FORBIDDEN_CONTENT_SCOPE :: "32 word" where
  "FORBIDDEN_CONTENT_SCOPE = 8"

definition MAX_CONNECTIONS_PER_OWNER :: nat where
  "MAX_CONNECTIONS_PER_OWNER = 8"

definition MAX_BUSY_WINDOWS :: nat where
  "MAX_BUSY_WINDOWS = 128"

definition MAX_WINDOW_SPAN_SECONDS :: nat where
  "MAX_WINDOW_SPAN_SECONDS = 7 * SECONDS_PER_DAY"

definition MAX_SYNC_HORIZON_DAYS :: nat where
  "MAX_SYNC_HORIZON_DAYS = 60"

definition MAX_QUERY_SPAN_SECONDS :: nat where
  "MAX_QUERY_SPAN_SECONDS = 90 * SECONDS_PER_DAY"

definition MAX_PAGE_SIZE :: nat where
  "MAX_PAGE_SIZE = 64"

definition MAX_PAGE :: nat where
  "MAX_PAGE = 4096"

datatype Provider = Google | Outlook | Calendly | Apple

datatype ConnectionStatus = Active | Revoked | Expired

record ConnectionInput =
  new_id :: hash32
  new_provider :: Provider
  new_scopes :: "32 word"
  new_token_commitment :: hash32
  new_token_ref :: hash32
  new_expires_at :: nat

record CalendarConnection =
  connection_id :: hash32
  owner :: address
  provider :: Provider
  scopes :: "32 word"
  token_commitment :: hash32
  token_ref :: hash32
  status :: ConnectionStatus
  connected_at :: nat
  last_synced_at :: nat
  sync_epoch :: nat
  payload_hash :: hash32
  expires_at :: nat
  degraded :: bool
  last_error_code :: "string option"
  revoked_at :: nat

record BusyWindow =
  start_ts :: nat
  end_ts :: nat

record calendar_state =
  Connections :: "address \<rightharpoonup> hash32 list"
  Connection :: "address \<times> hash32 \<rightharpoonup> CalendarConnection"
  Busy :: "address \<times> hash32 \<rightharpoonup> BusyWindow list"

definition calendar_init :: calendar_state where
  "calendar_init = \<lparr>Connections = Map.empty, Connection = Map.empty, Busy = Map.empty\<rparr>"

section \<open>Helpers\<close>

definition zero_hash :: hash32 where
  "zero_hash = replicate 32 0"

definition load_ids :: "calendar_state \<Rightarrow> address \<Rightarrow> hash32 list" where
  "load_ids s a = unwrap_or (Connections s a) []"

definition put_ids :: "address \<Rightarrow> hash32 list \<Rightarrow> calendar_state \<Rightarrow> calendar_state" where
  "put_ids a ids s = s\<lparr>Connections := (Connections s)(a \<mapsto> ids)\<rparr>"

definition load_connection :: "calendar_state \<Rightarrow> address \<Rightarrow> hash32 \<Rightarrow> (ContractError, CalendarConnection) outcome" where
  "load_connection s a i = ok_or (Connection s (a, i)) ConnectionNotFound"

definition put_connection :: "CalendarConnection \<Rightarrow> calendar_state \<Rightarrow> calendar_state" where
  "put_connection c s = s\<lparr>Connection := (Connection s)((owner c, connection_id c) \<mapsto> c)\<rparr>"

definition load_busy :: "calendar_state \<Rightarrow> address \<Rightarrow> hash32 \<Rightarrow> BusyWindow list" where
  "load_busy s a i = unwrap_or (Busy s (a, i)) []"

definition put_busy :: "address \<Rightarrow> hash32 \<Rightarrow> BusyWindow list \<Rightarrow> calendar_state \<Rightarrow> calendar_state" where
  "put_busy a i windows s =
     (if windows = [] then s\<lparr>Busy := (Busy s)((a, i) := None)\<rparr>
      else s\<lparr>Busy := (Busy s)((a, i) \<mapsto> windows)\<rparr>)"

definition require_scope :: "32 word \<Rightarrow> (ContractError, unit) outcome" where
  "require_scope sc =
     (if sc AND FORBIDDEN_CONTENT_SCOPE \<noteq> 0 \<or> sc AND NOT ALLOWED_SCOPES \<noteq> 0 then Err ScopeNotAllowed
      else if sc AND SCOPE_FREE_BUSY = 0 then Err InvalidScope
      else Ok ())"

text \<open>The inner loop of the selection sort: the index and the value of the least window found so far.\<close>

fun least_loop :: "BusyWindow list \<Rightarrow> nat list \<Rightarrow> nat \<Rightarrow> BusyWindow \<Rightarrow> nat" where
  "least_loop ws [] min_index min_value = min_index"
| "least_loop ws (j # js) min_index min_value =
     (case vec_get ws j of
        Some v \<Rightarrow> if start_ts v < start_ts min_value then least_loop ws js j v
                 else least_loop ws js min_index min_value
      | None \<Rightarrow> least_loop ws js min_index min_value)"

definition sort_step :: "nat \<Rightarrow> BusyWindow list \<Rightarrow> BusyWindow list" where
  "sort_step i ws =
     (case vec_get ws i of
        None \<Rightarrow> ws
      | Some min_value \<Rightarrow>
          let min_index = least_loop ws [i + 1..<length ws] i min_value
          in if min_index \<noteq> i
             then case vec_get ws i of
                    Some left \<Rightarrow> (case vec_get ws min_index of
                                   Some right \<Rightarrow> ws[i := right, min_index := left]
                                 | None \<Rightarrow> ws)
                  | None \<Rightarrow> ws
             else ws)"

fun sort_windows :: "nat list \<Rightarrow> BusyWindow list \<Rightarrow> BusyWindow list" where
  "sort_windows [] ws = ws"
| "sort_windows (i # is) ws = sort_windows is (sort_step i ws)"

definition merge_busy :: "BusyWindow list \<Rightarrow> BusyWindow \<Rightarrow> BusyWindow list" where
  "merge_busy merged window =
     (if merged \<noteq> [] \<and> start_ts window \<le> end_ts (last merged)
      then if end_ts window > end_ts (last merged)
           then butlast merged @ [\<lparr>start_ts = start_ts (last merged), end_ts = end_ts window\<rparr>]
           else merged
      else merged @ [window])"

definition normalize :: "BusyWindow list \<Rightarrow> BusyWindow list" where
  "normalize windows = foldl merge_busy [] (sort_windows [0..<length windows] windows)"

fun clip_windows :: "BusyWindow list \<Rightarrow> nat \<Rightarrow> nat \<Rightarrow> BusyWindow list" where
  "clip_windows [] from until = []"
| "clip_windows (window # rest) from until =
     (let start = (if start_ts window > from then start_ts window else from);
          end_at = (if end_ts window < until then end_ts window else until)
      in if end_at > start then \<lparr>start_ts = start, end_ts = end_at\<rparr> # clip_windows rest from until
         else clip_windows rest from until)"

section \<open>Connections\<close>

definition connect :: "env \<Rightarrow> address \<Rightarrow> ConnectionInput \<Rightarrow> calendar_state \<Rightarrow> (ContractError, calendar_state) outcome" where
  "connect env a input s =
     and_then (require_auth env a) (\<lambda>_.
     if new_token_commitment input = zero_hash then Err InvalidTokenCommitment
     else and_then (require_scope (new_scopes input)) (\<lambda>_.
     if new_expires_at input \<le> timestamp env then Err InvalidExpiry
     else if Connection s (a, new_id input) \<noteq> None then Err ConnectionAlreadyExists
     else
       let ids = load_ids s a in
       if length ids \<ge> MAX_CONNECTIONS_PER_OWNER then Err TooManyConnections
       else
         let now = timestamp env;
             connection = \<lparr>connection_id = new_id input, owner = a, provider = new_provider input,
               scopes = new_scopes input, token_commitment = new_token_commitment input,
               token_ref = new_token_ref input, status = Active, connected_at = now, last_synced_at = 0,
               sync_epoch = 0, payload_hash = zero_hash, expires_at = new_expires_at input, degraded = False,
               last_error_code = None, revoked_at = 0\<rparr>;
             s = put_connection connection s
         in Ok (put_ids a (ids @ [new_id input]) s)))"

text \<open>The loop of \<open>record_busy\<close> over the windows that are left.\<close>

fun check_windows :: "nat \<Rightarrow> BusyWindow list \<Rightarrow> (ContractError, unit) outcome" where
  "check_windows horizon_end [] = Ok ()"
| "check_windows horizon_end (window # rest) =
     (if start_ts window = 0 \<or> start_ts window \<ge> end_ts window then Err InvalidBusyWindow
      else if end_ts window - start_ts window > MAX_WINDOW_SPAN_SECONDS then Err BusyWindowSpanTooLarge
      else if end_ts window > horizon_end then Err InvalidSyncRange
      else check_windows horizon_end rest)"

definition record_busy ::
  "env \<Rightarrow> address \<Rightarrow> hash32 \<Rightarrow> nat \<Rightarrow> hash32 \<Rightarrow> BusyWindow list \<Rightarrow> calendar_state \<Rightarrow>
   (ContractError, calendar_state) outcome" where
  "record_busy env a i epoch payload windows s =
     and_then (require_auth env a) (\<lambda>_.
     and_then (load_connection s a i) (\<lambda>connection.
     if status connection \<noteq> Active then Err ConnectionNotActive
     else
       let now = timestamp env in
       if expires_at connection \<le> now then Err ConnectionExpired
       else if epoch = sync_epoch connection \<and> payload = payload_hash connection then Ok s
       else if epoch \<le> sync_epoch connection then Err StaleSyncEpoch
       else if length windows > MAX_BUSY_WINDOWS then Err TooManyBusyWindows
       else
         let horizon_end = unwrap_or (u64_checked (now + MAX_SYNC_HORIZON_DAYS * SECONDS_PER_DAY)) (2 ^ 64 - 1) in
         and_then (check_windows horizon_end windows) (\<lambda>_.
         let normalized = normalize windows in
         if length normalized > MAX_BUSY_WINDOWS then Err TooManyBusyWindows
         else
           let s = put_busy a i normalized s;
               connection = connection\<lparr>sync_epoch := epoch, payload_hash := payload, last_synced_at := now,
                 degraded := False, last_error_code := None\<rparr>
           in Ok (put_connection connection s))))"

definition mark_sync_failed ::
  "env \<Rightarrow> address \<Rightarrow> hash32 \<Rightarrow> string \<Rightarrow> calendar_state \<Rightarrow> (ContractError, calendar_state) outcome" where
  "mark_sync_failed env a i error_code s =
     and_then (require_auth env a) (\<lambda>_.
     and_then (load_connection s a i) (\<lambda>connection.
     if status connection \<noteq> Active then Err ConnectionNotActive
     else Ok (put_connection (connection\<lparr>degraded := True, last_error_code := Some error_code\<rparr>) s)))"

definition expire_connection :: "env \<Rightarrow> address \<Rightarrow> hash32 \<Rightarrow> calendar_state \<Rightarrow> (ContractError, calendar_state) outcome" where
  "expire_connection env a i s =
     and_then (require_auth env a) (\<lambda>_.
     and_then (load_connection s a i) (\<lambda>connection.
     if status connection \<noteq> Active then Err ConnectionNotActive
     else if expires_at connection > timestamp env then Err ConnectionNotExpired
     else
       let s = put_connection (connection\<lparr>status := Expired, degraded := False, last_error_code := None\<rparr>) s
       in Ok (put_busy a i [] s)))"

definition disconnect :: "env \<Rightarrow> address \<Rightarrow> hash32 \<Rightarrow> calendar_state \<Rightarrow> (ContractError, calendar_state) outcome" where
  "disconnect env a i s =
     and_then (require_auth env a) (\<lambda>_.
     and_then (load_connection s a i) (\<lambda>connection.
     if status connection = Revoked then Err ConnectionNotActive
     else
       let s = put_connection (connection\<lparr>status := Revoked, revoked_at := timestamp env, degraded := False,
             last_error_code := None\<rparr>) s
       in Ok (put_busy a i [] s)))"

section \<open>Views\<close>

definition get_connection :: "calendar_state \<Rightarrow> address \<Rightarrow> hash32 \<Rightarrow> (ContractError, CalendarConnection) outcome" where
  "get_connection s a i = load_connection s a i"

definition connection_ids :: "calendar_state \<Rightarrow> address \<Rightarrow> hash32 list" where
  "connection_ids s a = load_ids s a"

text \<open>The paging loop of \<open>busy_windows\<close>: the index of the next window, the windows left, the page so far.\<close>

fun page_loop :: "nat \<Rightarrow> nat \<Rightarrow> nat \<Rightarrow> BusyWindow list \<Rightarrow> BusyWindow list \<Rightarrow> BusyWindow list" where
  "page_loop index skip limit [] out = out"
| "page_loop index skip limit (window # rest) out =
     (if index < skip then page_loop (index + 1) skip limit rest out
      else if length out \<ge> limit then out
      else page_loop (index + 1) skip limit rest (out @ [window]))"

definition busy_windows ::
  "calendar_state \<Rightarrow> address \<Rightarrow> hash32 \<Rightarrow> nat \<Rightarrow> nat \<Rightarrow> nat \<Rightarrow> nat \<Rightarrow> (ContractError, BusyWindow list) outcome" where
  "busy_windows s a i from until page limit =
     (if from \<ge> until then Err InvalidQueryRange
      else if until - from > MAX_QUERY_SPAN_SECONDS then Err QuerySpanTooLarge
      else if limit = 0 \<or> limit > MAX_PAGE_SIZE \<or> page > MAX_PAGE then Err InvalidPage
      else and_then (load_connection s a i) (\<lambda>connection.
      if status connection \<noteq> Active then Ok []
      else
        let windows = load_busy s a i; clipped = clip_windows windows from until; skip = page * limit
        in Ok (page_loop 0 skip limit clipped [])))"

definition connection_healthy :: "env \<Rightarrow> calendar_state \<Rightarrow> address \<Rightarrow> hash32 \<Rightarrow> bool" where
  "connection_healthy env s a i =
     (case load_connection s a i of
        Ok connection \<Rightarrow> status connection = Active \<and> \<not> degraded connection \<and> expires_at connection > timestamp env
      | _ \<Rightarrow> False)"

definition contract_version :: nat where
  "contract_version = CONTRACT_VERSION"

section \<open>Calls and steps\<close>

datatype calendar_call =
    Connect address ConnectionInput | RecordBusy address hash32 nat hash32 "BusyWindow list"
  | MarkSyncFailed address hash32 string | ExpireConnection address hash32 | Disconnect address hash32

fun calendar_exec :: "env \<Rightarrow> calendar_call \<Rightarrow> calendar_state \<Rightarrow> (ContractError, calendar_state) outcome" where
  "calendar_exec env (Connect a c) s = connect env a c s"
| "calendar_exec env (RecordBusy a i e h ws) s = record_busy env a i e h ws s"
| "calendar_exec env (MarkSyncFailed a i e) s = mark_sync_failed env a i e s"
| "calendar_exec env (ExpireConnection a i) s = expire_connection env a i s"
| "calendar_exec env (Disconnect a i) s = disconnect env a i s"

inductive calendar_step :: "calendar_state \<Rightarrow> calendar_state \<Rightarrow> bool" where
  call: "calendar_exec env c s = Ok t \<Longrightarrow> calendar_step s t"

inductive_cases calendar_stepE: "calendar_step s t"

end
