(* ===== verification/Calendar_Windows.thy ===== *)
theory Calendar_Windows
  imports Availability_Ranges Mentorship_Calendar
begin

text \<open>
  The busy windows of a synchronisation are normalised exactly like the ranges of the availability contract: the
  two sort-and-merge routines compute the same list, so that what is proved of one holds of the other.
\<close>

section \<open>Windows and ranges\<close>

definition range_of :: "BusyWindow \<Rightarrow> AvailableRange" where
  "range_of w = \<lparr>AvailableRange.start_ts = start_ts w, AvailableRange.end_ts = end_ts w\<rparr>"

lemma range_of_simps [simp]:
  "AvailableRange.start_ts (range_of w) = start_ts w" "AvailableRange.end_ts (range_of w) = end_ts w"
  by (simp_all add: range_of_def)

lemma range_of_inject [simp]: "range_of v = range_of w \<longleftrightarrow> v = w"
  by (cases v; cases w) (auto simp: range_of_def)

lemma least_loop_index:
  "m < length ws \<Longrightarrow> \<forall>j\<in>set js. j < length ws \<Longrightarrow> least_loop ws js m (ws ! m) = min_index (map range_of ws) js m"
  by (induction js arbitrary: m) auto

lemma sort_step_range: "i < length ws \<Longrightarrow> map range_of (sort_step i ws) = select_swap i (map range_of ws)"
proof -
  assume i: "i < length ws"
  let ?m = "min_index (map range_of ws) [Suc i..<length ws] i"
  have least: "least_loop ws [Suc i..<length ws] i (ws ! i) = ?m" using i by (intro least_loop_index) auto
  have "?m < length ws" using min_index_least [of "map range_of ws" "[Suc i..<length ws]" i] i by auto
  then show ?thesis using i least by (simp add: sort_step_def select_swap_def Let_def map_update)
qed

lemma sort_windows_range:
  "\<forall>i\<in>set is. i < length ws \<Longrightarrow> map range_of (sort_windows is ws) = sort_loop is (map range_of ws)"
proof (induction "is" arbitrary: ws)
  case (Cons i js)
  have "length (sort_step i ws) = length ws"
    using arg_cong [OF sort_step_range [of i ws], of length] Cons.prems by (simp add: select_swap_def Let_def)
  with Cons show ?case by (simp add: sort_step_range)
qed simp

lemma merge_busy_range: "map range_of (merge_busy m w) = fold_range (map range_of m) (range_of w)"
  by (auto simp: merge_busy_def fold_range_def last_map map_butlast range_of_def)

lemma merge_all_range: "map range_of (foldl merge_busy m ws) = foldl fold_range (map range_of m) (map range_of ws)"
  by (induction ws arbitrary: m) (simp_all add: merge_busy_range)

text \<open>The two routines agree.\<close>

lemma normalize_range: "map range_of (normalize ws) = foldl fold_range [] (selection_sort (map range_of ws))"
  by (simp add: normalize_def merge_all_range sort_windows_range selection_sort_def)

section \<open>Canonical lists\<close>

definition busy_at :: "BusyWindow list \<Rightarrow> nat \<Rightarrow> bool" where
  "busy_at ws t \<longleftrightarrow> (\<exists>w\<in>set ws. start_ts w \<le> t \<and> t < end_ts w)"

text \<open>Sorted, non-empty, and no two windows overlap or touch.\<close>

definition canonical_windows :: "BusyWindow list \<Rightarrow> bool" where
  "canonical_windows ws \<longleftrightarrow> sorted_wrt (\<lambda>v w. end_ts v < start_ts w) ws \<and> (\<forall>w\<in>set ws. start_ts w < end_ts w)"

lemma busy_at_range: "busy_at ws t \<longleftrightarrow> covered (map range_of ws) t"
  by (auto simp: busy_at_def covered_def within_def)

lemma canonical_range: "canonical_windows ws \<longleftrightarrow> separated (map range_of ws)"
  by (auto simp: canonical_windows_def separated_def sorted_wrt_map nonempty_def)

lemma busy_at_simps [simp]: "\<not> busy_at [] t" "busy_at (w # ws) t \<longleftrightarrow> (start_ts w \<le> t \<and> t < end_ts w) \<or> busy_at ws t"
  by (auto simp: busy_at_def)

lemma canonical_windows_simps [simp]:
  "canonical_windows []"
  "canonical_windows (w # ws) \<longleftrightarrow> start_ts w < end_ts w \<and> (\<forall>v\<in>set ws. end_ts w < start_ts v) \<and> canonical_windows ws"
  by (auto simp: canonical_windows_def)

lemma normalize_ok:
  assumes "\<forall>w\<in>set ws. start_ts w < end_ts w \<and> end_ts w \<le> b"
  shows "canonical_windows (normalize ws)" "busy_at (normalize ws) t \<longleftrightarrow> busy_at ws t"
    "\<forall>w\<in>set (normalize ws). end_ts w \<le> b"
proof -
  let ?cs = "selection_sort (map range_of ws)"
  have "inside 0 b ?cs"
    using assms selection_sort_set [of "map range_of ws"] by (auto simp: inside_def nonempty_def)
  then have *: "separated (foldl fold_range [] ?cs) \<and> (\<forall>r\<in>set (foldl fold_range [] ?cs). AvailableRange.end_ts r \<le> b) \<and>
      (\<forall>t. covered (foldl fold_range [] ?cs) t \<longleftrightarrow> covered [] t \<or> covered ?cs t)"
    using selection_sort_correct [of "map range_of ws"] by (intro fold_ranges_ok) simp_all
  then show "canonical_windows (normalize ws)" by (simp add: canonical_range normalize_range)
  have "covered ?cs t \<longleftrightarrow> covered (map range_of ws) t" by (simp add: covered_def selection_sort_set)
  with * show "busy_at (normalize ws) t \<longleftrightarrow> busy_at ws t" by (simp add: busy_at_range normalize_range)
  show "\<forall>w\<in>set (normalize ws). end_ts w \<le> b"
  proof
    fix w
    assume "w \<in> set (normalize ws)"
    then have "range_of w \<in> set (map range_of (normalize ws))" by simp
    with * show "end_ts w \<le> b" unfolding normalize_range by fastforce
  qed
qed

lemma merge_busy_length: "length (merge_busy m w) \<le> length m + 1"
  by (simp add: merge_busy_def)

lemma normalize_length: "length (normalize ws) \<le> length ws"
proof -
  have merge: "length (foldl merge_busy m vs) \<le> length m + length vs" for m vs
  proof (induction vs arbitrary: m)
    case (Cons v vs)
    from Cons.IH [of "merge_busy m v"] merge_busy_length [of m v] show ?case by simp
  qed simp
  have "length (sort_windows [0..<length ws] ws) = length ws"
    using arg_cong [OF sort_windows_range [of "[0..<length ws]" ws], of length]
      selection_sort_correct [of "map range_of ws"]
    by (simp add: selection_sort_def mset_eq_length flip: size_mset)
  with merge [of "[]" "sort_windows [0..<length ws] ws"] show ?thesis by (simp add: normalize_def)
qed

text \<open>Clipping keeps lists canonical and restricts them to the query.\<close>

lemma clip_windows_ok:
  assumes "canonical_windows ws" "from < until"
  shows "canonical_windows (clip_windows ws from until) \<and>
    (\<forall>t. busy_at (clip_windows ws from until) t \<longleftrightarrow> busy_at ws t \<and> from \<le> t \<and> t < until) \<and>
    (\<forall>v\<in>set (clip_windows ws from until). \<exists>w\<in>set ws. start_ts w \<le> start_ts v \<and> end_ts v \<le> end_ts w)"
  using assms(1)
proof (induction ws)
  case (Cons w ws)
  then have IH: "canonical_windows (clip_windows ws from until)"
    "\<And>t. busy_at (clip_windows ws from until) t \<longleftrightarrow> busy_at ws t \<and> from \<le> t \<and> t < until"
    "\<forall>v\<in>set (clip_windows ws from until). \<exists>w\<in>set ws. start_ts w \<le> start_ts v \<and> end_ts v \<le> end_ts w" by auto
  have late: "\<forall>v\<in>set (clip_windows ws from until). end_ts w < start_ts v" using IH(3) Cons.prems by fastforce
  show ?case
    using Cons.prems assms(2) IH late by (auto simp: Let_def)
qed simp

lemma calendar_page_slice:
  "length out \<le> limit \<Longrightarrow>
   page_loop i skip limit ws out = out @ take (limit - length out) (drop (skip - i) ws)"
proof (induction i skip limit ws out rule: page_loop.induct)
  case (2 i skip limit w ws out)
  show ?case
  proof (cases "i < skip")
    case True
    then have "skip - i = Suc (skip - Suc i)" by simp
    with True 2 show ?thesis by simp
  next
    case False
    show ?thesis
    proof (cases "limit - length out")
      case (Suc n)
      then have "limit - Suc (length out) = n" by simp
      with False Suc 2 show ?thesis by simp
    qed (use False 2 in simp)
  qed
qed simp

end
