(* ===== verification/Calendar_Sync.thy ===== *)
theory Calendar_Sync
  imports Calendar_Windows
begin

text \<open>
  What the calendar contract guarantees: connections are well-typed and free of content scopes, an accepted
  synchronisation replaces the windows by a canonical list of the same instants and cannot be replayed, queries
  are exact, and an ended connection exposes nothing again. Two findings: windows are exposed after the token
  has expired, and ended connections use up the limit of an owner.
\<close>

section \<open>Scopes\<close>

lemma scope_cases:
  fixes sc :: "32 word"
  assumes "sc AND NOT 3 = 0" "sc AND 1 \<noteq> 0"
  shows "sc = 1 \<or> sc = 3"
proof -
  have "sc = (sc AND 3) OR (sc AND NOT 3)" by (simp flip: bit.conj_disj_distrib)
  then have sc: "sc = sc AND 3" using assms(1) by simp
  have "(3 :: 32 word) = mask 2" by (simp add: mask_eq_exp_minus_1)
  then have "sc AND 3 = take_bit 2 sc" by (simp add: take_bit_eq_mask)
  with sc have "unat sc = take_bit 2 (unat sc)" by (metis unsigned_take_bit_eq)
  moreover have "take_bit 2 (unat sc) < 2 ^ 2" by (rule take_bit_nat_less_exp)
  ultimately have "unat sc < 4" by simp
  then have "unat sc = 0 \<or> unat sc = 1 \<or> unat sc = 2 \<or> unat sc = 3" by linarith
  then have "sc = 0 \<or> sc = 1 \<or> sc = 2 \<or> sc = 3" by (simp add: word_unat_eq_iff)
  with assms(2) show ?thesis by auto
qed

lemma require_scope_Ok [outcome_iff]: "require_scope sc = Ok u \<longleftrightarrow> sc = 1 \<or> sc = 3"
proof -
  have allowed: "ALLOWED_SCOPES = 3" by (simp add: ALLOWED_SCOPES_def SCOPE_FREE_BUSY_def SCOPE_TIMEZONE_def)
  show ?thesis
  proof
    assume "require_scope sc = Ok u"
    then have "sc AND NOT 3 = 0" "sc AND 1 \<noteq> 0"
      by (auto simp: require_scope_def allowed SCOPE_FREE_BUSY_def split: if_splits)
    then show "sc = 1 \<or> sc = 3" by (rule scope_cases)
  next
    assume "sc = 1 \<or> sc = 3"
    then show "require_scope sc = Ok u"
      by (auto simp: require_scope_def allowed SCOPE_FREE_BUSY_def FORBIDDEN_CONTENT_SCOPE_def)
  qed
qed

section \<open>Well-formed states\<close>

definition connection_ok :: "calendar_state \<Rightarrow> address \<Rightarrow> hash32 \<Rightarrow> CalendarConnection \<Rightarrow> bool" where
  "connection_ok s a i c \<longleftrightarrow> connection_id c = i \<and> owner c = a \<and> (scopes c = 1 \<or> scopes c = 3) \<and>
     token_commitment c \<noteq> zero_hash \<and> i \<in> set (load_ids s a)"

definition stored_windows_ok :: "BusyWindow list \<Rightarrow> bool" where
  "stored_windows_ok ws \<longleftrightarrow> canonical_windows ws \<and> length ws \<le> MAX_BUSY_WINDOWS"

definition connections_wf :: "calendar_state \<Rightarrow> bool" where
  "connections_wf s \<longleftrightarrow> (\<forall>a i c. Connection s (a, i) = Some c \<longrightarrow> connection_ok s a i c) \<and>
     (\<forall>a. length (load_ids s a) \<le> MAX_CONNECTIONS_PER_OWNER) \<and>
     (\<forall>a i. stored_windows_ok (load_busy s a i)) \<and>
     (\<forall>a i. load_busy s a i \<noteq> [] \<longrightarrow> (\<exists>c. Connection s (a, i) = Some c \<and> status c = Active))"

lemma connections_wfD:
  assumes "connections_wf s"
  shows "Connection s (a, i) = Some c \<Longrightarrow> connection_ok s a i c" "length (load_ids s a) \<le> MAX_CONNECTIONS_PER_OWNER"
    "stored_windows_ok (load_busy s a i)"
    "load_busy s a i \<noteq> [] \<Longrightarrow> \<exists>c. Connection s (a, i) = Some c \<and> status c = Active"
  using assms unfolding connections_wf_def by blast+

lemma connections_init_wf: "connections_wf calendar_init"
  by (simp add: connections_wf_def calendar_init_def load_ids_def load_busy_def stored_windows_ok_def)

text \<open>How a stored connection changes: its identity and token stay, epochs grow, and an end is final.\<close>

definition connection_evolves :: "CalendarConnection \<Rightarrow> CalendarConnection \<Rightarrow> bool" where
  "connection_evolves c d \<longleftrightarrow> connection_id d = connection_id c \<and> owner d = owner c \<and> provider d = provider c \<and>
     scopes d = scopes c \<and> token_commitment d = token_commitment c \<and> token_ref d = token_ref c \<and>
     connected_at d = connected_at c \<and> expires_at d = expires_at c \<and> sync_epoch c \<le> sync_epoch d \<and>
     (sync_epoch d = sync_epoch c \<longrightarrow> payload_hash d = payload_hash c) \<and>
     (status c \<noteq> Active \<longrightarrow> status d \<noteq> Active \<and> sync_epoch d = sync_epoch c)"

definition connections_evolve :: "calendar_state \<Rightarrow> calendar_state \<Rightarrow> bool" where
  "connections_evolve s t \<longleftrightarrow> kept connection_evolves (Connection s) (Connection t) \<and>
     (\<forall>a. \<exists>ids. load_ids t a = load_ids s a @ ids)"

lemma connection_evolves_refl [simp]: "connection_evolves c c"
  by (simp add: connection_evolves_def)

lemma connection_evolves_trans: "connection_evolves c d \<Longrightarrow> connection_evolves d e \<Longrightarrow> connection_evolves c e"
  by (auto simp: connection_evolves_def)

text \<open>Every call but \<open>connect\<close> replaces one stored connection and the windows of that connection.\<close>

inductive calendar_move :: "calendar_state \<Rightarrow> calendar_state \<Rightarrow> bool" where
  connected: "calendar_move s (put_ids a (load_ids s a @ [i]) (put_connection c s))"
    if "Connection s (a, i) = None" "length (load_ids s a) < MAX_CONNECTIONS_PER_OWNER" "connection_id c = i" "owner c = a"
      "scopes c = 1 \<or> scopes c = 3" "token_commitment c \<noteq> zero_hash" "status c = Active"
| changed: "calendar_move s (s\<lparr>Connection := (Connection s)((a, i) \<mapsto> d), Busy := (Busy s)((a, i) := b)\<rparr>)"
    if "Connection s (a, i) = Some c" "connection_evolves c d" "stored_windows_ok (unwrap_or b [])"
      "unwrap_or b [] \<noteq> [] \<Longrightarrow> status d = Active"

lemma check_windows_Ok [outcome_iff]:
  "check_windows b ws = Ok u \<longleftrightarrow> (\<forall>w\<in>set ws. 0 < start_ts w \<and> start_ts w < end_ts w \<and>
     end_ts w - start_ts w \<le> MAX_WINDOW_SPAN_SECONDS \<and> end_ts w \<le> b)"
  by (induction ws) auto

lemma loaded_ok: "connections_wf s \<Longrightarrow> Connection s (a, i) = Some c \<Longrightarrow> owner c = a \<and> connection_id c = i"
  using connections_wfD(1) by (auto simp: connection_ok_def)

lemma record_busy_Ok:
  assumes "record_busy env a i e h ws s = Ok t" "connections_wf s"
  obtains (replay) c where "Connection s (a, i) = Some c" "e = sync_epoch c" "h = payload_hash c" "t = s"
  | (sync) c d where "Connection s (a, i) = Some c" "status c = Active" "timestamp env < expires_at c" "sync_epoch c < e"
      "\<forall>w\<in>set ws. start_ts w < end_ts w" "length (normalize ws) \<le> MAX_BUSY_WINDOWS" "auth env a"
      "d = c\<lparr>sync_epoch := e, payload_hash := h, last_synced_at := timestamp env, degraded := False, last_error_code := None\<rparr>"
      "t = s\<lparr>Connection := (Connection s)((a, i) \<mapsto> d),
         Busy := (Busy s)((a, i) := if normalize ws = [] then None else Some (normalize ws))\<rparr>"
proof -
  from assms(1) obtain c where c: "Connection s (a, i) = Some c" "auth env a" "status c = Active" "timestamp env < expires_at c"
    by (auto simp: record_busy_def load_connection_def outcome_iff Let_def not_le split: if_splits)
  note key = loaded_ok [OF assms(2) c(1)]
  show thesis
  proof (cases "e = sync_epoch c \<and> h = payload_hash c")
    case True
    with assms(1) c have "t = s" by (simp add: record_busy_def load_connection_def)
    with True c show thesis by (intro replay) auto
  next
    case False
    let ?d = "c\<lparr>sync_epoch := e, payload_hash := h, last_synced_at := timestamp env, degraded := False, last_error_code := None\<rparr>"
    from False assms(1) c have new: "sync_epoch c < e" "\<forall>w\<in>set ws. start_ts w < end_ts w"
      "length (normalize ws) \<le> MAX_BUSY_WINDOWS" "t = put_connection ?d (put_busy a i (normalize ws) s)"
      by (auto simp: record_busy_def load_connection_def outcome_iff Let_def not_le split: if_splits)
    show thesis
      by (rule sync [OF c(1,3,4) new(1-3) c(2) refl]) (use key in \<open>simp add: new(4) put_connection_def put_busy_def\<close>)
  qed
qed

lemma stored_normalized:
  assumes "\<forall>w\<in>set ws. start_ts w < end_ts w" "length (normalize ws) \<le> MAX_BUSY_WINDOWS"
  shows "stored_windows_ok (normalize ws)" "busy_at (normalize ws) t \<longleftrightarrow> busy_at ws t"
proof -
  obtain b where b: "\<forall>w\<in>set ws. end_ts w \<le> b"
    using finite_nat_set_iff_bounded_le [of "end_ts ` set ws"] by auto
  with assms(1) have *: "\<forall>w\<in>set ws. start_ts w < end_ts w \<and> end_ts w \<le> b" by blast
  show "stored_windows_ok (normalize ws)" using normalize_ok(1) [OF *] assms(2) by (simp add: stored_windows_ok_def)
  show "busy_at (normalize ws) t \<longleftrightarrow> busy_at ws t" by (rule normalize_ok(2) [OF *])
qed

lemma calendar_exec_moves:
  assumes "calendar_exec env c s = Ok t" "connections_wf s"
  shows "t = s \<or> calendar_move s t"
proof (cases c)
  case (Connect a x)
  with assms(1) have ok: "Connection s (a, new_id x) = None" "length (load_ids s a) < MAX_CONNECTIONS_PER_OWNER"
    "new_scopes x = 1 \<or> new_scopes x = 3" "new_token_commitment x \<noteq> zero_hash"
    by (auto simp: connect_def outcome_iff Let_def split: if_splits)
  obtain k where k: "connection_id k = new_id x" "owner k = a" "scopes k = new_scopes x"
    "token_commitment k = new_token_commitment x" "status k = Active"
    "t = put_ids a (load_ids s a @ [new_id x]) (put_connection k s)"
    by (rule that [of "\<lparr>connection_id = new_id x, owner = a, provider = new_provider x,
               scopes = new_scopes x, token_commitment = new_token_commitment x,
               token_ref = new_token_ref x, status = Active, connected_at = timestamp env, last_synced_at = 0,
               sync_epoch = 0, payload_hash = zero_hash, expires_at = new_expires_at x, degraded = False,
               last_error_code = None, revoked_at = 0\<rparr>"])
      (use assms(1) Connect in \<open>auto simp: connect_def outcome_iff Let_def split: if_splits\<close>)
  show ?thesis unfolding k(6) by (rule disjI2, rule calendar_move.connected) (use ok k in simp_all)
next
  case (RecordBusy a i e h ws)
  with assms(1) have "record_busy env a i e h ws s = Ok t" by simp
  from this assms(2) show ?thesis
  proof (cases rule: record_busy_Ok)
    case (sync k d)
    show ?thesis unfolding sync(9)
      by (rule disjI2, rule calendar_move.changed [OF sync(1)])
        (use sync stored_normalized [OF sync(5,6)] in \<open>auto simp: connection_evolves_def\<close>)
  qed simp
next
  case (MarkSyncFailed a i x)
  with assms(1) obtain k where k: "Connection s (a, i) = Some k" "status k = Active"
    "t = put_connection (k\<lparr>degraded := True, last_error_code := Some x\<rparr>) s"
    by (auto simp: mark_sync_failed_def load_connection_def outcome_iff)
  have "t = s\<lparr>Connection := (Connection s)((a, i) \<mapsto> k\<lparr>degraded := True, last_error_code := Some x\<rparr>),
      Busy := (Busy s)((a, i) := Busy s (a, i))\<rparr>"
    using loaded_ok [OF assms(2) k(1)] by (simp add: k(3) put_connection_def)
  moreover have "stored_windows_ok (unwrap_or (Busy s (a, i)) [])"
    using connections_wfD(3) [OF assms(2), of a i] by (simp add: load_busy_def)
  ultimately show ?thesis
    using k(2) by (simp only:) (rule disjI2, rule calendar_move.changed [OF k(1)], simp_all add: connection_evolves_def)
next
  case (ExpireConnection a i)
  with assms(1) obtain k where k: "Connection s (a, i) = Some k" "status k = Active"
    "t = put_busy a i [] (put_connection (k\<lparr>status := Expired, degraded := False, last_error_code := None\<rparr>) s)"
    by (auto simp: expire_connection_def load_connection_def outcome_iff Let_def)
  have "t = s\<lparr>Connection := (Connection s)((a, i) \<mapsto> k\<lparr>status := Expired, degraded := False, last_error_code := None\<rparr>),
      Busy := (Busy s)((a, i) := None)\<rparr>"
    using loaded_ok [OF assms(2) k(1)] by (simp add: k(3) put_connection_def put_busy_def)
  then show ?thesis
    using k(2) by (simp only:) (rule disjI2, rule calendar_move.changed [OF k(1)],
      simp_all add: connection_evolves_def stored_windows_ok_def)
next
  case (Disconnect a i)
  with assms(1) obtain k where k: "Connection s (a, i) = Some k"
    "t = put_busy a i [] (put_connection (k\<lparr>status := Revoked, revoked_at := timestamp env, degraded := False,
      last_error_code := None\<rparr>) s)"
    by (auto simp: disconnect_def load_connection_def outcome_iff Let_def)
  have "t = s\<lparr>Connection := (Connection s)((a, i) \<mapsto> k\<lparr>status := Revoked, revoked_at := timestamp env, degraded := False,
      last_error_code := None\<rparr>), Busy := (Busy s)((a, i) := None)\<rparr>"
    using loaded_ok [OF assms(2) k(1)] by (simp add: k(2) put_connection_def put_busy_def)
  then show ?thesis
    by (simp only:) (rule disjI2, rule calendar_move.changed [OF k(1)],
      simp_all add: connection_evolves_def stored_windows_ok_def)
qed

lemma move_wf:
  assumes "calendar_move s t" "connections_wf s"
  shows "connections_wf t"
  using assms(1)
proof (cases rule: calendar_move.cases)
  case (connected a i c)
  note wf = connections_wfD [OF assms(2)]
  have ids: "load_ids t b = (if b = a then load_ids s a @ [i] else load_ids s b)" for b
    by (simp add: connected(1) load_ids_def put_ids_def put_connection_def)
  have con: "Connection t = (Connection s)((a, i) \<mapsto> c)" "load_busy t = load_busy s"
    using connected(4,5) by (simp_all add: connected(1) put_ids_def put_connection_def load_busy_def fun_eq_iff)
  have "connection_ok t b j d" if "Connection t (b, j) = Some d" for b j d
  proof (cases "(b, j) = (a, i)")
    case True
    with that connected(4-7) ids con show ?thesis by (auto simp: connection_ok_def)
  next
    case False
    with that con(1) have "Connection s (b, j) = Some d" by auto
    from wf(1) [OF this] ids show ?thesis by (auto simp: connection_ok_def)
  qed
  moreover have "length (load_ids t b) \<le> MAX_CONNECTIONS_PER_OWNER" for b
    using wf(2) [of b] connected(3) by (simp add: ids)
  moreover have "\<exists>d. Connection t (b, j) = Some d \<and> status d = Active" if "load_busy t b j \<noteq> []" for b j
    using wf(4) [of b j] that connected(2) con by auto
  ultimately show ?thesis using wf(3) unfolding connections_wf_def con(2) by blast
next
  case (changed a i c d b)
  note wf = connections_wfD [OF assms(2)]
  have ids: "load_ids t = load_ids s" by (auto simp: changed(1) load_ids_def)
  have busy: "load_busy t x j = (if (x, j) = (a, i) then unwrap_or b [] else load_busy s x j)" for x j
    by (simp add: changed(1) load_busy_def)
  have con: "Connection t = (Connection s)((a, i) \<mapsto> d)" by (simp add: changed(1))
  have "connection_ok t x j k" if "Connection t (x, j) = Some k" for x j k
    using that wf(1) [OF changed(2)] wf(1) [of x j k] changed(3)
    by (auto simp: con connection_ok_def ids connection_evolves_def split: if_splits)
  moreover have "stored_windows_ok (load_busy t x j)" for x j using wf(3) [of x j] changed(4) by (simp add: busy)
  moreover have "\<exists>k. Connection t (x, j) = Some k \<and> status k = Active" if "load_busy t x j \<noteq> []" for x j
    using that wf(4) [of x j] changed(5) by (auto simp: busy con split: if_splits)
  ultimately show ?thesis using wf(2) unfolding connections_wf_def ids by blast
qed

lemma move_keeps_connections:
  assumes "calendar_move s t"
  shows "connections_evolve s t"
  using assms
proof (cases rule: calendar_move.cases)
  case (connected a i c)
  then have "kept connection_evolves (Connection s) (Connection t)" by (auto simp: kept_def put_ids_def put_connection_def)
  then show ?thesis by (simp add: connections_evolve_def connected(1) load_ids_def put_ids_def put_connection_def)
next
  case (changed a i c d b)
  then have "kept connection_evolves (Connection s) (Connection t)" by (auto simp: kept_def)
  then show ?thesis by (simp add: connections_evolve_def changed(1) load_ids_def)
qed

lemma connections_evolve_trans: "connections_evolve s t \<Longrightarrow> connections_evolve t u \<Longrightarrow> connections_evolve s u"
proof -
  assume *: "connections_evolve s t" "connections_evolve t u"
  have "\<exists>ids. load_ids u a = load_ids s a @ ids" for a
    using * unfolding connections_evolve_def by (metis append.assoc)
  moreover have "kept connection_evolves (Connection s) (Connection u)"
    by (rule kept_trans [OF connection_evolves_trans]) (use * in \<open>auto simp: connections_evolve_def\<close>)
  ultimately show ?thesis by (simp add: connections_evolve_def)
qed

lemma connections_evolve_refl: "connections_evolve s s"
  by (simp add: connections_evolve_def kept_refl)

interpretation connections: evolving calendar_step connections_wf connections_evolve
proof unfold_locales
  show "connections_wf t" if "calendar_step s t" "connections_wf s" for s t
    using that by (elim calendar_stepE) (blast dest: calendar_exec_moves intro: move_wf)
  show "connections_evolve s t" if "calendar_step s t" "connections_wf s" for s t
    using that by (elim calendar_stepE) (blast dest: calendar_exec_moves intro: move_keeps_connections connections_evolve_refl)
qed (auto intro: connections_evolve_trans connections_evolve_refl)

lemmas connections_run_wf = connections.run [OF _ connections_init_wf]

end
