(* ===== verification/Calendar_Access.thy ===== *)
theory Calendar_Access
  imports Calendar_Sync
begin

text \<open>
  The properties of the calendar contract over its reachable states, and the findings.
\<close>

section \<open>Concrete runs\<close>

definition calendar_env :: "nat \<Rightarrow> env" where
  "calendar_env n = \<lparr>timestamp = n, ledger_sequence = 1, self = 9, auth = \<lambda>_. True\<rparr>"

definition demo_input :: "nat \<Rightarrow> ConnectionInput" where
  "demo_input k = \<lparr>new_id = [of_nat k], new_provider = Google, new_scopes = 3, new_token_commitment = [1], new_token_ref = [2],
     new_expires_at = 1000\<rparr>"

text \<open>Overlapping, touching and separate windows in no order.\<close>

definition demo_busy :: "BusyWindow list" where
  "demo_busy = [\<lparr>start_ts = 500, end_ts = 600\<rparr>, \<lparr>start_ts = 200, end_ts = 300\<rparr>, \<lparr>start_ts = 250, end_ts = 400\<rparr>]"

definition demo_connection :: CalendarConnection where
  "demo_connection = \<lparr>connection_id = [1], owner = 5, provider = Google, scopes = 3, token_commitment = [1], token_ref = [2],
     status = Active, connected_at = 10, last_synced_at = 20, sync_epoch = 1, payload_hash = [7], expires_at = 1000,
     degraded = False, last_error_code = None, revoked_at = 0\<rparr>"

definition demo_synced :: calendar_state where
  "demo_synced = \<lparr>Connections = [5 \<mapsto> [[1]]], Connection = [(5, [1]) \<mapsto> demo_connection],
     Busy = [(5, [1]) \<mapsto> [\<lparr>start_ts = 200, end_ts = 400\<rparr>, \<lparr>start_ts = 500, end_ts = 600\<rparr>]]\<rparr>"

lemmas calendar_call_defs = connect_def record_busy_def expire_connection_def disconnect_def require_scope_def
  ALLOWED_SCOPES_def SCOPE_FREE_BUSY_def SCOPE_TIMEZONE_def FORBIDDEN_CONTENT_SCOPE_def load_ids_def put_ids_def
  load_connection_def put_connection_def put_busy_def u64_checked_def range_defs MAX_CONNECTIONS_PER_OWNER_def
  MAX_BUSY_WINDOWS_def MAX_SYNC_HORIZON_DAYS_def MAX_WINDOW_SPAN_SECONDS_def SECONDS_PER_DAY_def Let_def

lemmas demo_calendar_defs = calendar_env_def demo_input_def demo_busy_def demo_connection_def demo_synced_def calendar_init_def

lemma commitment_given: "[x] \<noteq> zero_hash"
  by (auto simp: zero_hash_def dest: arg_cong [where f = length])

lemma demo_normalized: "normalize demo_busy = [\<lparr>start_ts = 200, end_ts = 400\<rparr>, \<lparr>start_ts = 500, end_ts = 600\<rparr>]"
  by (simp add: normalize_def demo_busy_def sort_step_def merge_busy_def vec_get_def upt_rec Let_def)

lemma demo_synced_run:
  "run_calls calendar_exec [(calendar_env 10, Connect 5 (demo_input 1)), (calendar_env 20, RecordBusy 5 [1] 1 [7] demo_busy)]
     calendar_init = Ok demo_synced"
proof -
  have "check_windows (20 + 5184000) demo_busy = Ok ()"
    by (simp add: demo_busy_def MAX_WINDOW_SPAN_SECONDS_def SECONDS_PER_DAY_def)
  then show ?thesis
    by (simp add: calendar_call_defs demo_calendar_defs(1,2,4-) demo_normalized commitment_given demo_busy_def [THEN arg_cong, of length]
        del: One_nat_def)
qed

lemma demo_synced_reachable: "calendar_step\<^sup>*\<^sup>* calendar_init demo_synced"
  by (rule run_calls_steps [OF demo_synced_run]) (rule calendar_step.call)

section \<open>Properties\<close>

text \<open>
  C29. What is stored is well-typed. In every reachable state a stored connection carries the identity it is filed
  under, a scope mask of free/busy with or without the time zone and nothing else, and a commitment to its token;
  it is listed, and no more than eight are. Its windows are at most 128, sorted, non-empty and apart, and only
  an active connection has any.
\<close>

theorem connections_typed:
  assumes "calendar_step\<^sup>*\<^sup>* calendar_init s" and "get_connection s a i = Ok c"
  shows "connection_id c = i \<and> owner c = a \<and> scopes c \<in> {SCOPE_FREE_BUSY, ALLOWED_SCOPES} \<and>
    scopes c AND FORBIDDEN_CONTENT_SCOPE = 0 \<and> token_commitment c \<noteq> zero_hash \<and>
    i \<in> set (connection_ids s a) \<and> length (connection_ids s a) \<le> MAX_CONNECTIONS_PER_OWNER \<and>
    canonical_windows (load_busy s a i) \<and> length (load_busy s a i) \<le> MAX_BUSY_WINDOWS \<and>
    (status c \<noteq> Active \<longrightarrow> load_busy s a i = [])"
proof -
  note wf = connections_wfD [OF connections_run_wf [OF assms(1)]]
  have c: "Connection s (a, i) = Some c" using assms(2) by (simp add: get_connection_def load_connection_def outcome_iff)
  have allowed: "ALLOWED_SCOPES = 3" by (simp add: ALLOWED_SCOPES_def SCOPE_FREE_BUSY_def SCOPE_TIMEZONE_def)
  show ?thesis
    using wf(1) [OF c] wf(2) [of a] wf(3) [of a i] wf(4) [of a i] c
    by (auto simp: connection_ok_def connection_ids_def stored_windows_ok_def SCOPE_FREE_BUSY_def allowed
        FORBIDDEN_CONTENT_SCOPE_def)
qed

theorem connections_typed_witness:
  "scopes demo_connection AND FORBIDDEN_CONTENT_SCOPE = 0 \<and> canonical_windows (load_busy demo_synced 5 [1])"
  using connections_typed [OF demo_synced_reachable, of 5 "[1]" demo_connection]
  by (simp add: get_connection_def load_connection_def demo_synced_def)

text \<open>
  C30. A synchronisation replaces the windows exactly and cannot be replayed. A successful call either repeats the
  last accepted epoch and payload and changes nothing, or has a newer epoch and leaves a canonical list that is
  busy at exactly the submitted instants; then the same call again changes nothing, and any other call with that or
  an older epoch is rejected. Other connections keep their windows.
\<close>

theorem sync_replaces_windows:
  assumes "calendar_step\<^sup>*\<^sup>* calendar_init s" and "get_connection s a i = Ok c"
    and "record_busy env a i e h ws s = Ok t"
  shows "(e = sync_epoch c \<and> h = payload_hash c \<and> t = s) \<or>
    (sync_epoch c < e \<and> canonical_windows (load_busy t a i) \<and> (\<forall>n. busy_at (load_busy t a i) n \<longleftrightarrow> busy_at ws n) \<and>
     (\<forall>b j. (b, j) \<noteq> (a, i) \<longrightarrow> load_busy t b j = load_busy s b j) \<and>
     (\<forall>ws'. record_busy env a i e h ws' t = Ok t) \<and>
     (\<forall>e' h' ws'. e' \<le> e \<and> (e', h') \<noteq> (e, h) \<longrightarrow> record_busy env a i e' h' ws' t = Err StaleSyncEpoch))"
proof -
  have c: "Connection s (a, i) = Some c" using assms(2) by (simp add: get_connection_def load_connection_def outcome_iff)
  from assms(3) connections_run_wf [OF assms(1)] show ?thesis
  proof (cases rule: record_busy_Ok)
    case (sync k d)
    with c have "k = c" by simp
    have con: "Connection t (a, i) = Some d" by (simp add: sync(9))
    have d: "status d = Active" "expires_at d = expires_at c" "sync_epoch d = e" "payload_hash d = h"
      using sync(2) \<open>k = c\<close> by (simp_all add: sync(8))
    have "load_busy t a i = normalize ws" by (simp add: sync(9) load_busy_def)
    moreover have "\<forall>b j. (b, j) \<noteq> (a, i) \<longrightarrow> load_busy t b j = load_busy s b j" by (auto simp: sync(9) load_busy_def)
    moreover have "record_busy env a i e h ws' t = Ok t" for ws'
      using sync(3,7) \<open>k = c\<close> d by (simp add: record_busy_def load_connection_def con)
    moreover have "record_busy env a i e' h' ws' t = Err StaleSyncEpoch" if "e' \<le> e" "(e', h') \<noteq> (e, h)" for e' h' ws'
      using sync(3,7) \<open>k = c\<close> d that by (auto simp: record_busy_def load_connection_def con)
    moreover have "canonical_windows (normalize ws)" "\<forall>n. busy_at (normalize ws) n \<longleftrightarrow> busy_at ws n"
      using stored_normalized [OF sync(5,6)] by (simp_all add: stored_windows_ok_def)
    ultimately show ?thesis using sync(4) \<open>k = c\<close> by auto
  qed (use c in auto)
qed

theorem sync_replaces_windows_witness:
  "\<exists>t. record_busy (calendar_env 30) 5 [1] 2 [8] [\<lparr>start_ts = 700, end_ts = 800\<rparr>] demo_synced = Ok t \<and>
     busy_at (load_busy t 5 [1]) 750 \<and> \<not> busy_at (load_busy t 5 [1]) 250 \<and>
     record_busy (calendar_env 30) 5 [1] 1 [7] [] t = Err StaleSyncEpoch"
proof -
  have con: "get_connection demo_synced 5 [1] = Ok demo_connection"
    by (simp add: get_connection_def load_connection_def demo_synced_def)
  have one: "normalize [w] = [w]" for w by (simp add: normalize_def sort_step_def merge_busy_def upt_rec)
  obtain t where t: "record_busy (calendar_env 30) 5 [1] 2 [8] [\<lparr>start_ts = 700, end_ts = 800\<rparr>] demo_synced = Ok t"
    by (simp add: calendar_call_defs demo_calendar_defs one del: One_nat_def)
  from sync_replaces_windows [OF demo_synced_reachable con t]
  have *: "\<And>n. busy_at (load_busy t 5 [1]) n \<longleftrightarrow> busy_at [\<lparr>start_ts = 700, end_ts = 800\<rparr>] n"
    "\<And>e' h' ws'. e' \<le> 2 \<Longrightarrow> (e', h') \<noteq> (2, [8]) \<Longrightarrow> record_busy (calendar_env 30) 5 [1] e' h' ws' t = Err StaleSyncEpoch"
    by (auto simp: demo_connection_def)
  have "record_busy (calendar_env 30) 5 [1] 1 [7] [] t = Err StaleSyncEpoch" by (rule *(2)) simp_all
  with t *(1) [of 750] *(1) [of 250] show ?thesis by auto
qed

text \<open>
  Queries are exact. For every valid query of a stored connection the pages are the consecutive slices of one
  canonical list of windows; an instant lies in it exactly when the connection is active, the instant is busy and
  it is within the query.
\<close>

theorem busy_windows_exact:
  assumes "calendar_step\<^sup>*\<^sup>* calendar_init s" and "get_connection s a i = Ok c"
    and "from < until" and "until - from \<le> MAX_QUERY_SPAN_SECONDS"
  shows "\<exists>ws. canonical_windows ws \<and>
    (\<forall>n. busy_at ws n \<longleftrightarrow> status c = Active \<and> busy_at (load_busy s a i) n \<and> from \<le> n \<and> n < until) \<and>
    (\<forall>page limit. busy_windows s a i from until page limit =
      (if 1 \<le> limit \<and> limit \<le> MAX_PAGE_SIZE \<and> page \<le> MAX_PAGE then Ok (take limit (drop (page * limit) ws))
       else Err InvalidPage))"
proof -
  have c: "load_connection s a i = Ok c" using assms(2) by (simp add: get_connection_def)
  have canonical: "canonical_windows (load_busy s a i)"
    using connections_wfD(3) [OF connections_run_wf [OF assms(1)]] by (simp add: stored_windows_ok_def)
  note clip = clip_windows_ok [OF canonical assms(3)]
  let ?ws = "if status c = Active then clip_windows (load_busy s a i) from until else []"
  show ?thesis
  proof (intro exI [of _ ?ws] conjI allI)
    show "canonical_windows ?ws" using clip by simp
    show "busy_at ?ws n \<longleftrightarrow> status c = Active \<and> busy_at (load_busy s a i) n \<and> from \<le> n \<and> n < until" for n
      using clip by simp
    show "busy_windows s a i from until page limit = (if 1 \<le> limit \<and> limit \<le> MAX_PAGE_SIZE \<and> page \<le> MAX_PAGE
        then Ok (take limit (drop (page * limit) ?ws)) else Err InvalidPage)" for page limit
      using assms(3,4) calendar_page_slice [of "[]" limit 0 "page * limit" "clip_windows (load_busy s a i) from until"]
      by (auto simp: busy_windows_def c Let_def Suc_le_eq)
  qed
qed

theorem busy_windows_exact_witness:
  "busy_windows demo_synced 5 [1] 300 550 1 1 = Ok [\<lparr>start_ts = 500, end_ts = 550\<rparr>] \<and>
   (\<exists>ws. canonical_windows ws \<and> busy_windows demo_synced 5 [1] 300 550 0 64 = Ok (take 64 ws))"
proof
  show "busy_windows demo_synced 5 [1] 300 550 1 1 = Ok [\<lparr>start_ts = 500, end_ts = 550\<rparr>]"
    by (simp add: busy_windows_def load_connection_def load_busy_def demo_synced_def demo_connection_def
        MAX_QUERY_SPAN_SECONDS_def SECONDS_PER_DAY_def MAX_PAGE_SIZE_def MAX_PAGE_def)
  have con: "get_connection demo_synced 5 [1] = Ok demo_connection"
    by (simp add: get_connection_def load_connection_def demo_synced_def)
  from busy_windows_exact [OF demo_synced_reachable con, of 300 550]
  show "\<exists>ws. canonical_windows ws \<and> busy_windows demo_synced 5 [1] 300 550 0 64 = Ok (take 64 ws)"
    by (auto simp: MAX_QUERY_SPAN_SECONDS_def SECONDS_PER_DAY_def MAX_PAGE_SIZE_def)
qed

text \<open>
  Disconnecting ends access. Once a connection is revoked or marked as expired, in every later state it has no
  windows, every valid query returns none, no synchronisation is accepted and it is never healthy again.
\<close>

theorem ended_connection_exposes_nothing:
  assumes "calendar_step\<^sup>*\<^sup>* calendar_init s" and "calendar_step\<^sup>*\<^sup>* s t"
    and "get_connection s a i = Ok c" and "status c \<noteq> Active"
  shows "load_busy t a i = [] \<and> \<not> connection_healthy env t a i \<and> \<not> is_ok (record_busy env a i e h ws t) \<and>
    (\<forall>from until page limit rs. busy_windows t a i from until page limit = Ok rs \<longrightarrow> rs = [])"
proof -
  note wf = connections_run_wf [OF assms(1)]
  have "Connection s (a, i) = Some c" using assms(3) by (simp add: get_connection_def load_connection_def outcome_iff)
  with connections.run_evolves [OF assms(2) wf] obtain d where "Connection t (a, i) = Some d" "connection_evolves c d"
    unfolding connections_evolve_def kept_def by blast
  with assms(4) have d: "Connection t (a, i) = Some d" "status d \<noteq> Active" by (auto simp: connection_evolves_def)
  then have "load_busy t a i = []"
    using connections_wfD(4) [OF connections.run [OF assms(2) wf], of a i] d by auto
  with d show ?thesis
    by (auto simp: connection_healthy_def load_connection_def is_ok_iff record_busy_def busy_windows_def outcome_iff)
qed

text \<open>The connection is revoked after the synchronisation.\<close>

definition demo_revoked :: calendar_state where
  "demo_revoked = \<lparr>Connections = [5 \<mapsto> [[1]]], Connection = [(5, [1]) \<mapsto> demo_connection\<lparr>status := Revoked, revoked_at := 40\<rparr>],
     Busy = Map.empty\<rparr>"

theorem ended_connection_exposes_nothing_witness: "load_busy demo_revoked 5 [1] = []"
proof -
  have "calendar_exec (calendar_env 40) (Disconnect 5 [1]) demo_synced = Ok demo_revoked"
    by (simp add: calendar_call_defs demo_calendar_defs demo_revoked_def del: One_nat_def)
  then have "calendar_step\<^sup>*\<^sup>* calendar_init demo_revoked"
    using demo_synced_reachable calendar_step.call by (meson rtranclp.rtrancl_into_rtrancl)
  then show ?thesis
    using ended_connection_exposes_nothing [OF _ rtranclp.rtrancl_refl, of demo_revoked 5 "[1]"
        "demo_connection\<lparr>status := Revoked, revoked_at := 40\<rparr>"]
    by (simp add: get_connection_def load_connection_def demo_revoked_def)
qed

section \<open>Findings\<close>

text \<open>
  Expired connections expose their windows. At time 2000, long after the token of the connection has expired at
  1000, the query still returns its windows, because it looks at the stored status only.
\<close>

theorem expired_connection_exposed:
  "expires_at demo_connection < timestamp (calendar_env 2000) \<and> Connection demo_synced (5, [1]) = Some demo_connection \<and>
   \<not> connection_healthy (calendar_env 2000) demo_synced 5 [1] \<and>
   busy_windows demo_synced 5 [1] 100 700 0 64 = Ok [\<lparr>start_ts = 200, end_ts = 400\<rparr>, \<lparr>start_ts = 500, end_ts = 600\<rparr>]"
  by (simp add: busy_windows_def connection_healthy_def load_connection_def load_busy_def demo_calendar_defs
      MAX_QUERY_SPAN_SECONDS_def SECONDS_PER_DAY_def MAX_PAGE_SIZE_def MAX_PAGE_def)

text \<open>
  Ended connections use up the limit. An owner who has made eight connections can never make another one, whatever
  was revoked or has expired: no call shortens the list that is counted.
\<close>

theorem connections_exhausted:
  assumes "calendar_step\<^sup>*\<^sup>* calendar_init s" and "calendar_step\<^sup>*\<^sup>* s t"
    and "length (connection_ids s a) = MAX_CONNECTIONS_PER_OWNER"
  shows "\<not> is_ok (connect env a c t)"
proof -
  from connections.run_evolves [OF assms(2) connections_run_wf [OF assms(1)]]
  obtain ids where "load_ids t a = load_ids s a @ ids" unfolding connections_evolve_def by blast
  with assms(3) have "MAX_CONNECTIONS_PER_OWNER \<le> length (load_ids t a)" by (simp add: connection_ids_def)
  then show ?thesis by (auto simp: is_ok_iff connect_def outcome_iff Let_def)
qed

text \<open>Eight connections, each disconnected at once.\<close>

definition demo_reconnects :: "(env \<times> calendar_call) list" where
  "demo_reconnects = concat (map (\<lambda>k. [(calendar_env k, Connect 5 (demo_input k)), (calendar_env k, Disconnect 5 [of_nat k])])
     [1, 2, 3, 4, 5, 6, 7, 8])"

theorem connections_exhausted_witness:
  "\<exists>s. run_calls calendar_exec demo_reconnects calendar_init = Ok s \<and> \<not> is_ok (connect (calendar_env 9) 5 (demo_input 9) s)"
proof -
  let ?s = "case run_calls calendar_exec demo_reconnects calendar_init of Ok s \<Rightarrow> s | _ \<Rightarrow> calendar_init"
  have run: "run_calls calendar_exec demo_reconnects calendar_init = Ok ?s"
    by (simp add: demo_reconnects_def calendar_call_defs demo_calendar_defs commitment_given del: One_nat_def)
  have full: "length (connection_ids ?s 5) = MAX_CONNECTIONS_PER_OWNER"
    by (simp add: demo_reconnects_def calendar_call_defs demo_calendar_defs commitment_given connection_ids_def del: One_nat_def)
  have "calendar_step\<^sup>*\<^sup>* calendar_init ?s" by (rule run_calls_steps [OF run]) (rule calendar_step.call)
  from connections_exhausted [OF this rtranclp.rtrancl_refl full] run show ?thesis by blast
qed

end
