(* ===== verification/Mentorship_Rematch.thy ===== *)
theory Mentorship_Rematch
  imports Transition_Systems
begin

text \<open>
  \<open>contracts/mentorship-rematch/src/lib.rs\<close>: a participant of an active match requests a rematch, a coordinator
  reviews it and may propose a successor mentor, the mentee approves the successor, and the match is closed or
  superseded by a new one. Records are never deleted, and open cases block the closure.
\<close>

section \<open>State\<close>

datatype ContractError =
    NotInitialized | AlreadyInitialized | NotAdmin | NotCoordinator | NotRegistrar | NotAuthorized | MatchNotFound
  | MatchAlreadyRegistered | MatchNotActive | RematchRequestNotFound | RematchAlreadyOpen | RequestLimitReached
  | InvalidRequestState | InvalidSuccessor | ProposalExpired | UnsafeClosureBlocked | ClosurePlanMissing | InvalidConfig
  | RequestAlreadyExists | IdempotencyConflict | CoordinatorLimitReached | CoordinatorNotFound

definition CONTRACT_VERSION :: nat where
  "CONTRACT_VERSION = 1"

definition MAX_REQUESTS_PER_MATCH :: nat where
  "MAX_REQUESTS_PER_MATCH = 8"

definition MAX_COORDINATORS :: nat where
  "MAX_COORDINATORS = 16"

definition MIN_PROPOSAL_WINDOW_SECONDS :: nat where
  "MIN_PROPOSAL_WINDOW_SECONDS = 60"

definition MAX_PROPOSAL_WINDOW_SECONDS :: nat where
  "MAX_PROPOSAL_WINDOW_SECONDS = 2592000"

datatype MatchStatus = Active | Closed | Superseded

record MatchRecord =
  match_id :: hash32
  agreement_id :: hash32
  mentor :: address
  mentee :: address
  status :: MatchStatus
  successor_match_id :: "hash32 option"
  superseded_match_id :: "hash32 option"
  created_at :: nat
  closed_at :: nat

datatype RematchReason = Incompatibility | AvailabilityChange | ConflictOfInterest | SafetyConcern | Other

datatype RequestStatus =
  Open | InReview | SuccessorProposed | ApprovedForClosure | Rejected | Closed | Superseded

record RematchRequest =
  request_id :: hash32
  request_match :: hash32
  requested_by :: address
  reason :: RematchReason
  reason_hash :: hash32
  closure_plan_hash :: hash32
  requested_at :: nat
  review_started_at :: nat
  request_status :: RequestStatus
  successor :: "address option"
  proposal_hash :: hash32
  proposed_at :: nat
  proposal_expires_at :: nat
  successor_approved_at :: nat
  request_closed_at :: nat

record CaseFlags =
  financial_open :: bool
  safety_open :: bool

record RematchStats =
  total_matches :: nat
  open_requests :: nat
  closed_requests :: nat
  superseded_matches :: nat

record rematch_state =
  Admin :: "address option"
  Registrar :: "address option"
  Coordinators :: "address list option"
  ProposalWindow :: "nat option"
  Stats :: "RematchStats option"
  MatchAt :: "hash32 \<rightharpoonup> MatchRecord"
  RequestAt :: "hash32 \<rightharpoonup> RematchRequest"
  MatchRequests :: "hash32 \<rightharpoonup> hash32 list"
  CaseFlagsAt :: "hash32 \<rightharpoonup> CaseFlags"

definition rematch_init :: rematch_state where
  "rematch_init = \<lparr>Admin = None, Registrar = None, Coordinators = None, ProposalWindow = None, Stats = None,
     MatchAt = Map.empty, RequestAt = Map.empty, MatchRequests = Map.empty, CaseFlagsAt = Map.empty\<rparr>"

section \<open>Internals\<close>

definition zero_hash :: hash32 where
  "zero_hash = replicate 32 0"

definition require_admin :: "env \<Rightarrow> rematch_state \<Rightarrow> address \<Rightarrow> (ContractError, unit) outcome" where
  "require_admin env s caller =
     and_then (ok_or (Admin s) NotInitialized) (\<lambda>admin.
     if caller \<noteq> admin then Err NotAdmin else require_auth env caller)"

text \<open>The loop of \<open>is_coordinator\<close> and of \<open>register_coordinator\<close> over the stored set.\<close>

fun coordinator_loop :: "address \<Rightarrow> address list \<Rightarrow> bool" where
  "coordinator_loop a [] = False"
| "coordinator_loop a (c # cs) = (if c = a then True else coordinator_loop a cs)"

definition is_coordinator :: "rematch_state \<Rightarrow> address \<Rightarrow> bool" where
  "is_coordinator s a = (let coordinators = unwrap_or (Coordinators s) [] in coordinator_loop a coordinators)"

definition require_coordinator :: "env \<Rightarrow> rematch_state \<Rightarrow> address \<Rightarrow> (ContractError, unit) outcome" where
  "require_coordinator env s caller =
     (if \<not> is_coordinator s caller then Err NotCoordinator else require_auth env caller)"

definition require_registrar :: "env \<Rightarrow> rematch_state \<Rightarrow> address \<Rightarrow> (ContractError, unit) outcome" where
  "require_registrar env s caller =
     and_then (ok_or (Registrar s) NotInitialized) (\<lambda>registrar.
     if caller \<noteq> registrar then Err NotRegistrar else require_auth env caller)"

definition validate_window :: "nat \<Rightarrow> (ContractError, unit) outcome" where
  "validate_window seconds =
     (if \<not> (MIN_PROPOSAL_WINDOW_SECONDS \<le> seconds \<and> seconds \<le> MAX_PROPOSAL_WINDOW_SECONDS) then Err InvalidConfig
      else Ok ())"

definition no_cases :: CaseFlags where
  "no_cases = \<lparr>financial_open = False, safety_open = False\<rparr>"

definition require_no_open_cases :: "rematch_state \<Rightarrow> hash32 \<Rightarrow> (ContractError, unit) outcome" where
  "require_no_open_cases s m =
     (let flags = unwrap_or (CaseFlagsAt s m) no_cases in
      if financial_open flags \<or> safety_open flags then Err UnsafeClosureBlocked else Ok ())"

definition load_match :: "rematch_state \<Rightarrow> hash32 \<Rightarrow> (ContractError, MatchRecord) outcome" where
  "load_match s m = ok_or (MatchAt s m) MatchNotFound"

definition put_match :: "MatchRecord \<Rightarrow> rematch_state \<Rightarrow> rematch_state" where
  "put_match record s = s\<lparr>MatchAt := (MatchAt s)(match_id record \<mapsto> record)\<rparr>"

definition load_request :: "rematch_state \<Rightarrow> hash32 \<Rightarrow> (ContractError, RematchRequest) outcome" where
  "load_request s r = ok_or (RequestAt s r) RematchRequestNotFound"

definition put_request :: "RematchRequest \<Rightarrow> rematch_state \<Rightarrow> rematch_state" where
  "put_request request s = s\<lparr>RequestAt := (RequestAt s)(request_id request \<mapsto> request)\<rparr>"

definition no_stats :: RematchStats where
  "no_stats = \<lparr>total_matches = 0, open_requests = 0, closed_requests = 0, superseded_matches = 0\<rparr>"

definition bump_stats :: "(RematchStats \<Rightarrow> RematchStats) \<Rightarrow> rematch_state \<Rightarrow> rematch_state" where
  "bump_stats f s = s\<lparr>Stats := Some (f (unwrap_or (Stats s) no_stats))\<rparr>"

section \<open>Roles and configuration\<close>

definition initialize :: "env \<Rightarrow> address \<Rightarrow> nat \<Rightarrow> rematch_state \<Rightarrow> (ContractError, rematch_state) outcome" where
  "initialize env admin_addr seconds s =
     (if Admin s \<noteq> None then Err AlreadyInitialized
      else and_then (require_auth env admin_addr) (\<lambda>_.
      and_then (validate_window seconds) (\<lambda>_.
      Ok (s\<lparr>Admin := Some admin_addr, Registrar := Some admin_addr, ProposalWindow := Some seconds,
            Coordinators := Some ([] @ [admin_addr]), Stats := Some no_stats\<rparr>))))"

definition admin :: "rematch_state \<Rightarrow> (ContractError, address) outcome" where
  "admin s = ok_or (Admin s) NotInitialized"

definition registrar :: "rematch_state \<Rightarrow> (ContractError, address) outcome" where
  "registrar s = ok_or (Registrar s) NotInitialized"

definition proposal_window_seconds :: "rematch_state \<Rightarrow> (ContractError, nat) outcome" where
  "proposal_window_seconds s = ok_or (ProposalWindow s) NotInitialized"

definition contract_version :: nat where
  "contract_version = CONTRACT_VERSION"

definition coordinators :: "rematch_state \<Rightarrow> address list" where
  "coordinators s = unwrap_or (Coordinators s) []"

definition register_coordinator ::
  "env \<Rightarrow> address \<Rightarrow> address \<Rightarrow> rematch_state \<Rightarrow> (ContractError, rematch_state) outcome" where
  "register_coordinator env adm coordinator s =
     and_then (require_admin env s adm) (\<lambda>_.
     let coords = unwrap_or (Coordinators s) [] in
     if coordinator_loop coordinator coords then Ok s
     else if length coords \<ge> MAX_COORDINATORS then Err CoordinatorLimitReached
     else Ok (s\<lparr>Coordinators := Some (coords @ [coordinator])\<rparr>))"

text \<open>The loop of \<open>revoke_coordinator\<close>: the ones kept so far, whether the address was found, the ones left.\<close>

fun revoke_loop :: "address \<Rightarrow> address list \<Rightarrow> bool \<Rightarrow> address list \<Rightarrow> address list \<times> bool" where
  "revoke_loop a keep found [] = (keep, found)"
| "revoke_loop a keep found (c # cs) =
     (if c = a then revoke_loop a keep True cs else revoke_loop a (keep @ [c]) found cs)"

definition revoke_coordinator ::
  "env \<Rightarrow> address \<Rightarrow> address \<Rightarrow> rematch_state \<Rightarrow> (ContractError, rematch_state) outcome" where
  "revoke_coordinator env adm coordinator s =
     and_then (require_admin env s adm) (\<lambda>_.
     let coords = unwrap_or (Coordinators s) []; (keep, found) = revoke_loop coordinator [] False coords in
     if \<not> found then Err CoordinatorNotFound else Ok (s\<lparr>Coordinators := Some keep\<rparr>))"

definition set_registrar :: "env \<Rightarrow> address \<Rightarrow> address \<Rightarrow> rematch_state \<Rightarrow> (ContractError, rematch_state) outcome" where
  "set_registrar env adm reg s = and_then (require_admin env s adm) (\<lambda>_. Ok (s\<lparr>Registrar := Some reg\<rparr>))"

definition set_proposal_window :: "env \<Rightarrow> address \<Rightarrow> nat \<Rightarrow> rematch_state \<Rightarrow> (ContractError, rematch_state) outcome" where
  "set_proposal_window env adm seconds s =
     and_then (require_admin env s adm) (\<lambda>_.
     and_then (validate_window seconds) (\<lambda>_. Ok (s\<lparr>ProposalWindow := Some seconds\<rparr>)))"

section \<open>Matches and requests\<close>

definition register_match ::
  "env \<Rightarrow> address \<Rightarrow> hash32 \<Rightarrow> hash32 \<Rightarrow> address \<Rightarrow> address \<Rightarrow> rematch_state \<Rightarrow> (ContractError, rematch_state) outcome" where
  "register_match env caller m agreement mr me s =
     and_then (require_registrar env s caller) (\<lambda>_.
     if MatchAt s m \<noteq> None then Err MatchAlreadyRegistered
     else if mr = me then Err NotAuthorized
     else
       let record = \<lparr>match_id = m, agreement_id = agreement, mentor = mr, mentee = me, status = Active,
             successor_match_id = None, superseded_match_id = None, created_at = timestamp env, closed_at = 0\<rparr>;
           s = put_match record s
       in Ok (bump_stats (\<lambda>st. st\<lparr>total_matches := u32_saturating_add (total_matches st) 1\<rparr>) s))"

text \<open>The loop of \<open>request_rematch\<close> over the earlier requests of the match.\<close>

fun open_loop :: "rematch_state \<Rightarrow> hash32 list \<Rightarrow> (ContractError, unit) outcome" where
  "open_loop s [] = Ok ()"
| "open_loop s (i # ids) =
     and_then (ok_or (RequestAt s i) RematchRequestNotFound) (\<lambda>other.
     if request_status other = Open \<or> request_status other = InReview \<or> request_status other = SuccessorProposed \<or>
        request_status other = ApprovedForClosure
     then Err RematchAlreadyOpen else open_loop s ids)"

definition request_rematch ::
  "env \<Rightarrow> address \<Rightarrow> hash32 \<Rightarrow> hash32 \<Rightarrow> RematchReason \<Rightarrow> hash32 \<Rightarrow> hash32 \<Rightarrow> rematch_state \<Rightarrow>
   (ContractError, rematch_state) outcome" where
  "request_rematch env caller m r why why_hash plan_hash s =
     and_then (load_match s m) (\<lambda>record.
     if status record \<noteq> Active then Err MatchNotActive
     else if caller \<noteq> mentor record \<and> caller \<noteq> mentee record then Err NotAuthorized
     else and_then (require_auth env caller) (\<lambda>_.
     if plan_hash = zero_hash then Err ClosurePlanMissing
     else case RequestAt s r of
       Some existing \<Rightarrow>
         let same_payload = request_match existing = m \<and> requested_by existing = caller \<and> reason existing = why \<and>
               reason_hash existing = why_hash \<and> closure_plan_hash existing = plan_hash
         in if \<not> same_payload then Err IdempotencyConflict else Ok s
     | None \<Rightarrow>
         let ids = unwrap_or (MatchRequests s m) [] in
         if length ids \<ge> MAX_REQUESTS_PER_MATCH then Err RequestLimitReached
         else and_then (open_loop s ids) (\<lambda>_.
         let request = \<lparr>request_id = r, request_match = m, requested_by = caller, reason = why, reason_hash = why_hash,
               closure_plan_hash = plan_hash, requested_at = timestamp env, review_started_at = 0, request_status = Open,
               successor = None, proposal_hash = zero_hash, proposed_at = 0, proposal_expires_at = 0,
               successor_approved_at = 0, request_closed_at = 0\<rparr>;
             s = s\<lparr>RequestAt := (RequestAt s)(r \<mapsto> request)\<rparr>;
             s = s\<lparr>MatchRequests := (MatchRequests s)(m \<mapsto> ids @ [r])\<rparr>
         in Ok (bump_stats (\<lambda>st. st\<lparr>open_requests := u32_saturating_add (open_requests st) 1\<rparr>) s))))"

definition get_request ::
  "env \<Rightarrow> address \<Rightarrow> hash32 \<Rightarrow> rematch_state \<Rightarrow> (ContractError, RematchRequest) outcome" where
  "get_request env caller r s =
     and_then (ok_or (RequestAt s r) RematchRequestNotFound) (\<lambda>request.
     and_then (load_match s (request_match request)) (\<lambda>record.
     let participant = (caller = mentor record \<or> caller = mentee record) in
     if \<not> participant \<and> \<not> is_coordinator s caller then Err NotAuthorized
     else and_then (require_auth env caller) (\<lambda>_. Ok request)))"

definition start_review :: "env \<Rightarrow> address \<Rightarrow> hash32 \<Rightarrow> rematch_state \<Rightarrow> (ContractError, rematch_state) outcome" where
  "start_review env caller r s =
     and_then (require_coordinator env s caller) (\<lambda>_.
     and_then (load_request s r) (\<lambda>request.
     if request_status request \<noteq> Open then Err InvalidRequestState
     else Ok (put_request (request\<lparr>request_status := InReview, review_started_at := timestamp env\<rparr>) s)))"

text \<open>The counters after a request has ended.\<close>

definition count_closed :: "RematchStats \<Rightarrow> RematchStats" where
  "count_closed st = st\<lparr>open_requests := open_requests st - 1, closed_requests := u32_saturating_add (closed_requests st) 1\<rparr>"

definition reject_request :: "env \<Rightarrow> address \<Rightarrow> hash32 \<Rightarrow> rematch_state \<Rightarrow> (ContractError, rematch_state) outcome" where
  "reject_request env caller r s =
     and_then (require_coordinator env s caller) (\<lambda>_.
     and_then (load_request s r) (\<lambda>request.
     if request_status request \<noteq> Open \<and> request_status request \<noteq> InReview then Err InvalidRequestState
     else Ok (bump_stats count_closed (put_request (request\<lparr>request_status := Rejected\<rparr>) s))))"

definition set_case_flags ::
  "env \<Rightarrow> address \<Rightarrow> hash32 \<Rightarrow> bool \<Rightarrow> bool \<Rightarrow> rematch_state \<Rightarrow> (ContractError, rematch_state) outcome" where
  "set_case_flags env caller m fin saf s =
     and_then (require_coordinator env s caller) (\<lambda>_.
     and_then (load_match s m) (\<lambda>_.
     Ok (s\<lparr>CaseFlagsAt := (CaseFlagsAt s)(m \<mapsto> \<lparr>financial_open = fin, safety_open = saf\<rparr>)\<rparr>)))"

definition propose_successor ::
  "env \<Rightarrow> address \<Rightarrow> hash32 \<Rightarrow> address \<Rightarrow> hash32 \<Rightarrow> rematch_state \<Rightarrow> (ContractError, rematch_state) outcome" where
  "propose_successor env caller r succ_mentor p_hash s =
     and_then (require_coordinator env s caller) (\<lambda>_.
     and_then (load_request s r) (\<lambda>request.
     if request_status request \<noteq> InReview \<and> request_status request \<noteq> SuccessorProposed then Err InvalidRequestState
     else and_then (load_match s (request_match request)) (\<lambda>record.
     if succ_mentor = mentor record \<or> succ_mentor = mentee record then Err InvalidSuccessor
     else and_then (ok_or (ProposalWindow s) NotInitialized) (\<lambda>window.
     and_then (ok_or (u64_checked (timestamp env + window)) InvalidConfig) (\<lambda>expires_at.
     Ok (put_request (request\<lparr>successor := Some succ_mentor, proposal_hash := p_hash, proposed_at := timestamp env,
           proposal_expires_at := expires_at, request_status := SuccessorProposed\<rparr>) s))))))"

definition approve_successor ::
  "env \<Rightarrow> address \<Rightarrow> hash32 \<Rightarrow> rematch_state \<Rightarrow> (ContractError, rematch_state) outcome" where
  "approve_successor env caller r s =
     and_then (load_request s r) (\<lambda>request.
     and_then (load_match s (request_match request)) (\<lambda>record.
     if caller \<noteq> mentee record then Err NotAuthorized
     else and_then (require_auth env caller) (\<lambda>_.
     if request_status request = ApprovedForClosure then Ok s
     else if request_status request \<noteq> SuccessorProposed then Err InvalidRequestState
     else
       let now = timestamp env in
       if now > proposal_expires_at request then Err ProposalExpired
       else Ok (put_request (request\<lparr>successor_approved_at := now, request_status := ApprovedForClosure\<rparr>) s))))"

definition close_engagement ::
  "env \<Rightarrow> address \<Rightarrow> hash32 \<Rightarrow> rematch_state \<Rightarrow> (ContractError, rematch_state) outcome" where
  "close_engagement env caller r s =
     and_then (require_coordinator env s caller) (\<lambda>_.
     and_then (load_request s r) (\<lambda>request.
     if request_status request \<noteq> InReview \<and> request_status request \<noteq> SuccessorProposed \<and>
        request_status request \<noteq> ApprovedForClosure then Err InvalidRequestState
     else and_then (load_match s (request_match request)) (\<lambda>record.
     and_then (require_no_open_cases s (match_id record)) (\<lambda>_.
     let now = timestamp env;
         s = put_match (record\<lparr>status := MatchStatus.Closed, closed_at := now\<rparr>) s;
         s = put_request (request\<lparr>request_status := Closed, request_closed_at := now\<rparr>) s
     in Ok (bump_stats count_closed s)))))"

definition apply_successor ::
  "env \<Rightarrow> address \<Rightarrow> hash32 \<Rightarrow> hash32 \<Rightarrow> rematch_state \<Rightarrow> (ContractError, rematch_state) outcome" where
  "apply_successor env caller r m' s =
     and_then (require_coordinator env s caller) (\<lambda>_.
     and_then (load_request s r) (\<lambda>request.
     if request_status request \<noteq> ApprovedForClosure then Err InvalidRequestState
     else and_then (load_match s (request_match request)) (\<lambda>record.
     and_then (require_no_open_cases s (match_id record)) (\<lambda>_.
     and_then (ok_or (successor request) InvalidRequestState) (\<lambda>succ_mentor.
     if MatchAt s m' \<noteq> None then Err MatchAlreadyRegistered
     else
       let now = timestamp env;
           new_record = \<lparr>match_id = m', agreement_id = agreement_id record, mentor = succ_mentor,
             mentee = mentee record, status = Active, successor_match_id = None,
             superseded_match_id = Some (match_id record), created_at = now, closed_at = 0\<rparr>;
           s = put_match new_record s;
           s = put_match (record\<lparr>status := MatchStatus.Superseded, successor_match_id := Some m', closed_at := now\<rparr>) s;
           s = put_request (request\<lparr>request_status := Superseded, request_closed_at := now\<rparr>) s
       in Ok (bump_stats (\<lambda>st. (count_closed (st\<lparr>total_matches := u32_saturating_add (total_matches st) 1\<rparr>))
            \<lparr>superseded_matches := u32_saturating_add (superseded_matches st) 1\<rparr>) s))))))"

section \<open>Views\<close>

definition get_match :: "rematch_state \<Rightarrow> hash32 \<Rightarrow> (ContractError, MatchRecord) outcome" where
  "get_match s m = load_match s m"

definition match_requests :: "rematch_state \<Rightarrow> hash32 \<Rightarrow> (ContractError, hash32 list) outcome" where
  "match_requests s m = (let ids = unwrap_or (MatchRequests s m) [] in Ok ids)"

definition get_case_flags :: "rematch_state \<Rightarrow> hash32 \<Rightarrow> (ContractError, CaseFlags) outcome" where
  "get_case_flags s m = and_then (load_match s m) (\<lambda>_. Ok (unwrap_or (CaseFlagsAt s m) no_cases))"

definition stats :: "rematch_state \<Rightarrow> (ContractError, RematchStats) outcome" where
  "stats s = ok_or (Stats s) NotInitialized"

section \<open>Calls and steps\<close>

datatype rematch_call =
    Initialize address nat | RegisterCoordinator address address | RevokeCoordinator address address
  | SetRegistrar address address | SetProposalWindow address nat
  | RegisterMatch address hash32 hash32 address address
  | RequestRematch address hash32 hash32 RematchReason hash32 hash32
  | StartReview address hash32 | RejectRequest address hash32 | SetCaseFlags address hash32 bool bool
  | ProposeSuccessor address hash32 address hash32 | ApproveSuccessor address hash32
  | CloseEngagement address hash32 | ApplySuccessor address hash32 hash32

fun rematch_exec :: "env \<Rightarrow> rematch_call \<Rightarrow> rematch_state \<Rightarrow> (ContractError, rematch_state) outcome" where
  "rematch_exec env (Initialize a w) s = initialize env a w s"
| "rematch_exec env (RegisterCoordinator a c) s = register_coordinator env a c s"
| "rematch_exec env (RevokeCoordinator a c) s = revoke_coordinator env a c s"
| "rematch_exec env (SetRegistrar a r) s = set_registrar env a r s"
| "rematch_exec env (SetProposalWindow a w) s = set_proposal_window env a w s"
| "rematch_exec env (RegisterMatch c m g mr me) s = register_match env c m g mr me s"
| "rematch_exec env (RequestRematch c m r why h plan) s = request_rematch env c m r why h plan s"
| "rematch_exec env (StartReview c r) s = start_review env c r s"
| "rematch_exec env (RejectRequest c r) s = reject_request env c r s"
| "rematch_exec env (SetCaseFlags c m f b) s = set_case_flags env c m f b s"
| "rematch_exec env (ProposeSuccessor c r a h) s = propose_successor env c r a h s"
| "rematch_exec env (ApproveSuccessor c r) s = approve_successor env c r s"
| "rematch_exec env (CloseEngagement c r) s = close_engagement env c r s"
| "rematch_exec env (ApplySuccessor c r m) s = apply_successor env c r m s"

inductive rematch_step :: "rematch_state \<Rightarrow> rematch_state \<Rightarrow> bool" where
  call: "rematch_exec env c s = Ok t \<Longrightarrow> rematch_step s t"

inductive_cases rematch_stepE: "rematch_step s t"

end
