(* ===== verification/Rematch_Records.thy ===== *)
theory Rematch_Records
  imports Mentorship_Rematch
begin

text \<open>
  The rematch contract as an abstract machine over its records: matches, requests, the request history of a
  match and the counters. Every call either leaves the records alone or is one move of the machine
  (\<open>exec_refines\<close>), so that invariants are proved once for each move.
\<close>

section \<open>The abstract machine\<close>

record records =
  matches :: "hash32 \<rightharpoonup> MatchRecord"
  requests :: "hash32 \<rightharpoonup> RematchRequest"
  history :: "hash32 \<Rightarrow> hash32 list"
  counters :: RematchStats

definition records_of :: "rematch_state \<Rightarrow> records" where
  "records_of s = \<lparr>matches = MatchAt s, requests = RequestAt s, history = (\<lambda>m. unwrap_or (MatchRequests s m) []),
     counters = unwrap_or (Stats s) no_stats\<rparr>"

lemma records_of_simps [simp]:
  "matches (records_of s) = MatchAt s" "requests (records_of s) = RequestAt s"
  "history (records_of s) m = unwrap_or (MatchRequests s m) []" "counters (records_of s) = unwrap_or (Stats s) no_stats"
  by (simp_all add: records_of_def)

definition pending :: "RequestStatus \<Rightarrow> bool" where
  "pending st \<longleftrightarrow> st = Open \<or> st = InReview \<or> st = SuccessorProposed \<or> st = ApprovedForClosure"

lemma pending_simps [simp]:
  "pending Open" "pending InReview" "pending SuccessorProposed" "pending ApprovedForClosure"
  "\<not> pending Rejected" "\<not> pending RequestStatus.Closed" "\<not> pending RequestStatus.Superseded"
  by (simp_all add: pending_def)

definition count_match :: "RematchStats \<Rightarrow> RematchStats" where
  "count_match st = st\<lparr>total_matches := u32_saturating_add (total_matches st) 1\<rparr>"

definition count_open :: "RematchStats \<Rightarrow> RematchStats" where
  "count_open st = st\<lparr>open_requests := u32_saturating_add (open_requests st) 1\<rparr>"

definition count_superseded :: "RematchStats \<Rightarrow> RematchStats" where
  "count_superseded st = (count_closed (count_match st))\<lparr>superseded_matches := u32_saturating_add (superseded_matches st) 1\<rparr>"

inductive records_move :: "records \<Rightarrow> records \<Rightarrow> bool" where
  anchored: "records_move c (c\<lparr>matches := (matches c)(m \<mapsto> x), counters := count_match (counters c)\<rparr>)"
    if "matches c m = None" "match_id x = m" "mentor x \<noteq> mentee x" "status x = Active" "successor_match_id x = None"
      "superseded_match_id x = None"
| filed: "records_move c (c\<lparr>requests := (requests c)(r \<mapsto> q), history := (history c)(m := history c m @ [r]),
      counters := count_open (counters c)\<rparr>)"
    if "matches c m = Some x" "status x = Active" "requests c r = None" "request_id q = r" "request_match q = m"
      "request_status q = Open" "successor q = None" "length (history c m) < MAX_REQUESTS_PER_MATCH"
      "\<forall>i\<in>set (history c m). \<exists>p. requests c i = Some p \<and> \<not> pending (request_status p)"
| reviewed: "records_move c (c\<lparr>requests := (requests c)(r \<mapsto> q\<lparr>request_status := InReview, review_started_at := n\<rparr>)\<rparr>)"
    if "requests c r = Some q" "request_status q = Open"
| rejected: "records_move c (c\<lparr>requests := (requests c)(r \<mapsto> q\<lparr>request_status := Rejected\<rparr>),
      counters := count_closed (counters c)\<rparr>)"
    if "requests c r = Some q" "request_status q = Open \<or> request_status q = InReview"
| proposed: "records_move c (c\<lparr>requests := (requests c)(r \<mapsto> q\<lparr>successor := Some a, proposal_hash := h, proposed_at := n,
      proposal_expires_at := e, request_status := SuccessorProposed\<rparr>)\<rparr>)"
    if "requests c r = Some q" "request_status q = InReview \<or> request_status q = SuccessorProposed"
      "matches c (request_match q) = Some x" "a \<noteq> mentor x" "a \<noteq> mentee x"
| approved: "records_move c (c\<lparr>requests := (requests c)(r \<mapsto> q\<lparr>successor_approved_at := n,
      request_status := ApprovedForClosure\<rparr>)\<rparr>)"
    if "requests c r = Some q" "request_status q = SuccessorProposed" "n \<le> proposal_expires_at q"
| closed: "records_move c (c\<lparr>matches := (matches c)(m \<mapsto> x\<lparr>status := MatchStatus.Closed, closed_at := n\<rparr>),
      requests := (requests c)(r \<mapsto> q\<lparr>request_status := Closed, request_closed_at := n\<rparr>), counters := count_closed (counters c)\<rparr>)"
    if "requests c r = Some q" "request_match q = m" "matches c m = Some x"
      "request_status q = InReview \<or> request_status q = SuccessorProposed \<or> request_status q = ApprovedForClosure"
| superseded: "records_move c (c\<lparr>matches := (matches c)(m' \<mapsto> y,
        m \<mapsto> x\<lparr>status := MatchStatus.Superseded, successor_match_id := Some m', closed_at := n\<rparr>),
      requests := (requests c)(r \<mapsto> q\<lparr>request_status := Superseded, request_closed_at := n\<rparr>),
      counters := count_superseded (counters c)\<rparr>)"
    if "requests c r = Some q" "request_match q = m" "matches c m = Some x" "request_status q = ApprovedForClosure"
      "successor q = Some a" "matches c m' = None" "match_id y = m'" "agreement_id y = agreement_id x" "mentor y = a"
      "mentee y = mentee x" "status y = Active" "successor_match_id y = None" "superseded_match_id y = Some m"

lemma coordinator_loop_iff [simp]: "coordinator_loop a cs \<longleftrightarrow> a \<in> set cs"
  by (induction cs) auto

lemma revoke_loop_eq: "revoke_loop a keep found cs = (keep @ filter (\<lambda>c. c \<noteq> a) cs, found \<or> a \<in> set cs)"
  by (induction cs arbitrary: keep found) auto

lemma open_loop_Ok [outcome_iff]:
  "open_loop s ids = Ok u \<longleftrightarrow> (\<forall>i\<in>set ids. \<exists>p. RequestAt s i = Some p \<and> \<not> pending (request_status p))"
  by (induction ids) (auto simp: outcome_iff pending_def)

lemma rematch_guards_Ok [outcome_iff]:
  "require_admin env s a = Ok u \<longleftrightarrow> Admin s = Some a \<and> auth env a"
  "require_coordinator env s a = Ok u \<longleftrightarrow> a \<in> set (coordinators s) \<and> auth env a"
  "require_registrar env s a = Ok u \<longleftrightarrow> Registrar s = Some a \<and> auth env a"
  "validate_window w = Ok u \<longleftrightarrow> MIN_PROPOSAL_WINDOW_SECONDS \<le> w \<and> w \<le> MAX_PROPOSAL_WINDOW_SECONDS"
  "load_match s m = Ok x \<longleftrightarrow> MatchAt s m = Some x"
  "load_request s r = Ok q \<longleftrightarrow> RequestAt s r = Some q"
  "require_no_open_cases s m = Ok u \<longleftrightarrow>
     \<not> financial_open (unwrap_or (CaseFlagsAt s m) no_cases) \<and> \<not> safety_open (unwrap_or (CaseFlagsAt s m) no_cases)"
  by (auto simp: require_admin_def require_coordinator_def require_registrar_def validate_window_def load_match_def
      load_request_def require_no_open_cases_def is_coordinator_def coordinators_def outcome_iff Let_def)

lemma records_of_updates:
  "records_of (bump_stats f s) = (records_of s)\<lparr>counters := f (counters (records_of s))\<rparr>"
  "records_of (put_request q s) = (records_of s)\<lparr>requests := (RequestAt s)(request_id q \<mapsto> q)\<rparr>"
  "records_of (put_match x s) = (records_of s)\<lparr>matches := (MatchAt s)(match_id x \<mapsto> x)\<rparr>"
  "records_of (s\<lparr>MatchAt := M\<rparr>) = (records_of s)\<lparr>matches := M\<rparr>"
  "records_of (s\<lparr>RequestAt := R\<rparr>) = (records_of s)\<lparr>requests := R\<rparr>"
  "records_of (s\<lparr>MatchRequests := (MatchRequests s)(m \<mapsto> ids)\<rparr>) = (records_of s)\<lparr>history := (history (records_of s))(m := ids)\<rparr>"
  by (auto simp: records_of_def bump_stats_def put_request_def put_match_def)

section \<open>Every call refines the machine\<close>

definition keyed :: "rematch_state \<Rightarrow> bool" where
  "keyed s \<longleftrightarrow> (\<forall>m x. MatchAt s m = Some x \<longrightarrow> match_id x = m) \<and> (\<forall>r q. RequestAt s r = Some q \<longrightarrow> request_id q = r) \<and>
     (Admin s = None \<longrightarrow> Registrar s = None \<and> Stats s = None)"

lemma keyedD:
  assumes "keyed s"
  shows "MatchAt s m = Some x \<Longrightarrow> match_id x = m" "RequestAt s r = Some q \<Longrightarrow> request_id q = r"
    "Admin s = None \<Longrightarrow> Registrar s = None \<and> Stats s = None"
  using assms unfolding keyed_def by blast+

lemma register_match_refines:
  assumes "register_match env c m g mr me s = Ok t"
  shows "records_move (records_of s) (records_of t)"
proof -
  let ?x = "\<lparr>match_id = m, agreement_id = g, mentor = mr, mentee = me, status = Active, successor_match_id = None,
    superseded_match_id = None, created_at = timestamp env, closed_at = 0\<rparr>"
  from assms have *: "MatchAt s m = None" "mr \<noteq> me" and t: "t = bump_stats count_match (put_match ?x s)"
    by (auto simp: register_match_def outcome_iff Let_def count_match_def [abs_def])
  have "records_of t = (records_of s)\<lparr>matches := (matches (records_of s))(m \<mapsto> ?x), counters := count_match (counters (records_of s))\<rparr>"
    unfolding t by (simp add: records_of_updates)
  then show ?thesis using * by (simp only:) (rule records_move.anchored, simp_all)
qed

lemma request_rematch_refines:
  assumes "request_rematch env c m r why h plan s = Ok t"
  shows "t = s \<or> records_move (records_of s) (records_of t)"
proof (cases "RequestAt s r")
  case None
  let ?q = "\<lparr>request_id = r, request_match = m, requested_by = c, reason = why, reason_hash = h, closure_plan_hash = plan,
    requested_at = timestamp env, review_started_at = 0, request_status = Open, successor = None,
    proposal_hash = zero_hash, proposed_at = 0, proposal_expires_at = 0, successor_approved_at = 0, request_closed_at = 0\<rparr>"
  let ?ids = "unwrap_or (MatchRequests s m) []"
  from assms None obtain x where x: "MatchAt s m = Some x" "status x = Active" "length ?ids < MAX_REQUESTS_PER_MATCH"
    "\<forall>i\<in>set ?ids. \<exists>p. RequestAt s i = Some p \<and> \<not> pending (request_status p)"
    and t: "t = bump_stats count_open (s\<lparr>RequestAt := (RequestAt s)(r \<mapsto> ?q), MatchRequests := (MatchRequests s)(m \<mapsto> ?ids @ [r])\<rparr>)"
    by (auto simp: request_rematch_def outcome_iff Let_def count_open_def [abs_def])
  have "records_of t = (records_of s)\<lparr>requests := (requests (records_of s))(r \<mapsto> ?q),
      history := (history (records_of s))(m := history (records_of s) m @ [r]), counters := count_open (counters (records_of s))\<rparr>"
    unfolding t by (simp add: records_of_def bump_stats_def) auto
  then show ?thesis using None x by (simp only:) (intro disjI2 records_move.filed, simp_all)
next
  case (Some q)
  with assms show ?thesis by (auto simp: request_rematch_def outcome_iff Let_def)
qed

lemma request_only:
  "records_of (put_request q s) = (records_of s)\<lparr>requests := (requests (records_of s))(request_id q \<mapsto> q)\<rparr>"
  by (simp add: records_of_updates)

lemma start_review_refines:
  assumes "start_review env c r s = Ok t" "keyed s"
  shows "records_move (records_of s) (records_of t)"
proof -
  from assms(1) obtain q where q: "RequestAt s r = Some q" "request_status q = Open"
    and t: "t = put_request (q\<lparr>request_status := InReview, review_started_at := timestamp env\<rparr>) s"
    by (auto simp: start_review_def outcome_iff)
  show ?thesis unfolding t request_only
    using keyedD(2) [OF assms(2) q(1)] records_move.reviewed [of "records_of s" r q] q by simp
qed

lemma propose_successor_refines:
  assumes "propose_successor env c r a h s = Ok t" "keyed s"
  shows "records_move (records_of s) (records_of t)"
proof -
  from assms(1) obtain q x e where q: "RequestAt s r = Some q"
    "request_status q = InReview \<or> request_status q = SuccessorProposed"
    "MatchAt s (request_match q) = Some x" "a \<noteq> mentor x" "a \<noteq> mentee x"
    and t: "t = put_request (q\<lparr>successor := Some a, proposal_hash := h, proposed_at := timestamp env,
           proposal_expires_at := e, request_status := SuccessorProposed\<rparr>) s"
    by (auto simp: propose_successor_def outcome_iff)
  show ?thesis unfolding t request_only
    using keyedD(2) [OF assms(2) q(1)] records_move.proposed [of "records_of s" r q x a e "timestamp env" h] q by simp
qed

lemma approve_successor_refines:
  assumes "approve_successor env c r s = Ok t" "keyed s"
  shows "t = s \<or> records_move (records_of s) (records_of t)"
proof -
  from assms(1) obtain q where q: "RequestAt s r = Some q" by (auto simp: approve_successor_def outcome_iff)
  show ?thesis
  proof (cases "request_status q = ApprovedForClosure")
    case True
    with assms(1) q show ?thesis by (auto simp: approve_successor_def outcome_iff)
  next
    case False
    with assms(1) q have *: "request_status q = SuccessorProposed" "timestamp env \<le> proposal_expires_at q"
      and t: "t = put_request (q\<lparr>successor_approved_at := timestamp env, request_status := ApprovedForClosure\<rparr>) s"
      by (auto simp: approve_successor_def outcome_iff Let_def)
    show ?thesis unfolding t request_only
      using keyedD(2) [OF assms(2) q] records_move.approved [of "records_of s" r q "timestamp env"] q * by simp
  qed
qed

lemma reject_request_refines:
  assumes "reject_request env c r s = Ok t" "keyed s"
  shows "records_move (records_of s) (records_of t)"
proof -
  from assms(1) obtain q where q: "RequestAt s r = Some q" "request_status q = Open \<or> request_status q = InReview"
    and t: "t = bump_stats count_closed (put_request (q\<lparr>request_status := Rejected\<rparr>) s)"
    by (auto simp: reject_request_def outcome_iff)
  have "records_of t = (records_of s)\<lparr>requests := (requests (records_of s))(r \<mapsto> q\<lparr>request_status := Rejected\<rparr>),
      counters := count_closed (counters (records_of s))\<rparr>"
    unfolding t using keyedD(2) [OF assms(2) q(1)] by (simp add: records_of_updates)
  then show ?thesis using q by (simp only:) (rule records_move.rejected, simp_all)
qed

lemma close_engagement_refines:
  assumes "close_engagement env c r s = Ok t" "keyed s"
  shows "records_move (records_of s) (records_of t)"
proof -
  from assms(1) obtain q x where q: "RequestAt s r = Some q" "MatchAt s (request_match q) = Some x"
    "request_status q = InReview \<or> request_status q = SuccessorProposed \<or> request_status q = ApprovedForClosure"
    and t: "t = bump_stats count_closed (put_request (q\<lparr>request_status := Closed, request_closed_at := timestamp env\<rparr>)
      (put_match (x\<lparr>status := MatchStatus.Closed, closed_at := timestamp env\<rparr>) s))"
    by (auto simp: close_engagement_def outcome_iff Let_def)
  have "records_of t = (records_of s)\<lparr>
      matches := (matches (records_of s))(request_match q \<mapsto> x\<lparr>status := MatchStatus.Closed, closed_at := timestamp env\<rparr>),
      requests := (requests (records_of s))(r \<mapsto> q\<lparr>request_status := Closed, request_closed_at := timestamp env\<rparr>),
      counters := count_closed (counters (records_of s))\<rparr>"
    unfolding t using keyedD(2) [OF assms(2) q(1)] keyedD(1) [OF assms(2) q(2)] by (simp add: records_of_updates put_match_def)
  then show ?thesis using q by (simp only:) (rule records_move.closed, simp_all)
qed

lemma apply_successor_refines:
  assumes "apply_successor env c r m' s = Ok t" "keyed s"
  shows "records_move (records_of s) (records_of t)"
proof -
  from assms(1) obtain q x a where q: "RequestAt s r = Some q" "MatchAt s (request_match q) = Some x"
    "request_status q = ApprovedForClosure" "successor q = Some a" "MatchAt s m' = None"
    by (auto simp: apply_successor_def outcome_iff Let_def)
  note keys = keyedD(2) [OF assms(2) q(1)] keyedD(1) [OF assms(2) q(2)]
  let ?y = "\<lparr>match_id = m', agreement_id = agreement_id x, mentor = a, mentee = mentee x, status = Active,
    successor_match_id = None, superseded_match_id = Some (request_match q), created_at = timestamp env, closed_at = 0\<rparr>"
  have "t = bump_stats count_superseded (put_request (q\<lparr>request_status := Superseded, request_closed_at := timestamp env\<rparr>)
      (put_match (x\<lparr>status := MatchStatus.Superseded, successor_match_id := Some m', closed_at := timestamp env\<rparr>) (put_match ?y s)))"
    using assms(1) q keys
    by (auto simp: apply_successor_def outcome_iff Let_def count_superseded_def [abs_def] count_match_def [abs_def])
  then have "records_of t = (records_of s)\<lparr>
      matches := (matches (records_of s))(m' \<mapsto> ?y, request_match q \<mapsto>
        x\<lparr>status := MatchStatus.Superseded, successor_match_id := Some m', closed_at := timestamp env\<rparr>),
      requests := (requests (records_of s))(r \<mapsto> q\<lparr>request_status := Superseded, request_closed_at := timestamp env\<rparr>),
      counters := count_superseded (counters (records_of s))\<rparr>"
    using keys by (simp add: records_of_updates put_match_def)
  then show ?thesis using q by (simp only:) (rule records_move.superseded, simp_all)
qed

lemma exec_refines:
  assumes "rematch_exec env c s = Ok t" "keyed s"
  shows "records_of t = records_of s \<or> records_move (records_of s) (records_of t)"
proof (cases c)
  case (Initialize a w)
  with assms show ?thesis using keyedD(3) [OF assms(2)] by (auto simp: initialize_def outcome_iff records_of_def)
next
  case (RegisterMatch)
  with assms show ?thesis by (auto intro: register_match_refines)
next
  case (RequestRematch)
  with assms show ?thesis using request_rematch_refines by fastforce
next
  case (StartReview)
  with assms show ?thesis by (auto intro: start_review_refines)
next
  case (RejectRequest)
  with assms show ?thesis by (auto intro: reject_request_refines)
next
  case (ProposeSuccessor)
  with assms show ?thesis by (auto intro: propose_successor_refines)
next
  case (ApproveSuccessor)
  with assms show ?thesis using approve_successor_refines by fastforce
next
  case (CloseEngagement)
  with assms show ?thesis by (auto intro: close_engagement_refines)
next
  case (ApplySuccessor)
  with assms show ?thesis by (auto intro: apply_successor_refines)
qed (use assms in \<open>auto simp: register_coordinator_def revoke_coordinator_def set_registrar_def set_proposal_window_def
    set_case_flags_def outcome_iff records_of_def Let_def split: prod.splits if_splits\<close>)

end
