(* ===== verification/Rematch_Invariants.thy ===== *)
theory Rematch_Invariants
  imports Rematch_Records
begin

text \<open>
  The invariants of the rematch records, each preserved by every move of the machine: keys and participants,
  requests and their history, the links between a superseded match and its successor, and the counters.
\<close>

section \<open>Counting\<close>

definition count :: "('v \<Rightarrow> bool) \<Rightarrow> ('k \<rightharpoonup> 'v) \<Rightarrow> nat" where
  "count P m = card {k. \<exists>v. m k = Some v \<and> P v}"

lemma count_msum: "finite (dom m) \<Longrightarrow> int (count P m) = msum (\<lambda>v. of_bool (P v)) m"
  by (simp add: count_def msum_count)

lemma count_insert: "finite (dom m) \<Longrightarrow> m k = None \<Longrightarrow> count P (m(k \<mapsto> v)) = count P m + of_bool (P v)"
  using msum_insert [of m k "\<lambda>v. of_bool (P v)" v] by (cases "P v") (simp_all flip: count_msum)

lemma count_replace:
  "finite (dom m) \<Longrightarrow> m k = Some u \<Longrightarrow> count P (m(k \<mapsto> v)) + of_bool (P u) = count P m + of_bool (P v)"
  using msum_replace [of m k u "\<lambda>v. of_bool (P v)" v] by (cases "P u"; cases "P v") (simp_all flip: count_msum)

lemma count_le: "finite (dom m) \<Longrightarrow> count P m \<le> card (dom m)"
  unfolding count_def by (intro card_mono) auto

section \<open>The invariants\<close>

definition keys_ok :: "records \<Rightarrow> bool" where
  "keys_ok c \<longleftrightarrow> finite (dom (matches c)) \<and> finite (dom (requests c)) \<and>
     (\<forall>m x. matches c m = Some x \<longrightarrow> match_id x = m \<and> mentor x \<noteq> mentee x) \<and>
     (\<forall>r q. requests c r = Some q \<longrightarrow> request_id q = r)"

lemma keys_okD:
  assumes "keys_ok c"
  shows "finite (dom (matches c))" "finite (dom (requests c))"
    "matches c m = Some x \<Longrightarrow> match_id x = m" "matches c m = Some x \<Longrightarrow> mentor x \<noteq> mentee x"
    "requests c r = Some q \<Longrightarrow> request_id q = r"
  using assms unfolding keys_ok_def by blast+

text \<open>A request belongs to a match, which is active while the request is pending; its successor is a third person.\<close>

definition request_ok :: "records \<Rightarrow> hash32 \<Rightarrow> RematchRequest \<Rightarrow> bool" where
  "request_ok c r q \<longleftrightarrow> r \<in> set (history c (request_match q)) \<and>
     (\<exists>x. matches c (request_match q) = Some x \<and> (pending (request_status q) \<longrightarrow> status x = Active) \<and>
        (\<forall>a. successor q = Some a \<longrightarrow> a \<noteq> mentor x \<and> a \<noteq> mentee x)) \<and>
     (request_status q = SuccessorProposed \<or> request_status q = ApprovedForClosure \<longrightarrow> successor q \<noteq> None) \<and>
     (request_status q = ApprovedForClosure \<longrightarrow> successor_approved_at q \<le> proposal_expires_at q)"

definition requests_ok :: "records \<Rightarrow> bool" where
  "requests_ok c \<longleftrightarrow> (\<forall>r q. requests c r = Some q \<longrightarrow> request_ok c r q)"

text \<open>The history of a match: distinct requests of the match, at most eight, at most one of them pending.\<close>

definition history_ok :: "records \<Rightarrow> bool" where
  "history_ok c \<longleftrightarrow> (\<forall>m. distinct (history c m) \<and> length (history c m) \<le> MAX_REQUESTS_PER_MATCH \<and>
     (\<forall>i\<in>set (history c m). \<exists>q. requests c i = Some q \<and> request_match q = m)) \<and>
     (\<forall>r r' q q'. requests c r = Some q \<longrightarrow> requests c r' = Some q' \<longrightarrow> request_match q = request_match q' \<longrightarrow>
        pending (request_status q) \<longrightarrow> pending (request_status q') \<longrightarrow> r = r')"

lemma history_okD:
  assumes "history_ok c"
  shows "distinct (history c m)" "length (history c m) \<le> MAX_REQUESTS_PER_MATCH"
    "i \<in> set (history c m) \<Longrightarrow> \<exists>q. requests c i = Some q \<and> request_match q = m"
    "requests c r = Some q \<Longrightarrow> requests c r' = Some q' \<Longrightarrow> request_match q = request_match q' \<Longrightarrow>
     pending (request_status q) \<Longrightarrow> pending (request_status q') \<Longrightarrow> r = r'"
  using assms unfolding history_ok_def by blast+

text \<open>A match and the match that superseded it, with the request that the mentee approved.\<close>

definition succeeds :: "records \<Rightarrow> hash32 \<Rightarrow> MatchRecord \<Rightarrow> MatchRecord \<Rightarrow> bool" where
  "succeeds c m x y \<longleftrightarrow> superseded_match_id y = Some m \<and> mentee y = mentee x \<and> agreement_id y = agreement_id x \<and>
     mentor y \<noteq> mentor x \<and>
     (\<exists>r q. requests c r = Some q \<and> request_match q = m \<and> request_status q = Superseded \<and>
        successor q = Some (mentor y) \<and> successor_approved_at q \<le> proposal_expires_at q)"

definition edges :: "(hash32 \<rightharpoonup> MatchRecord) \<Rightarrow> (hash32 \<times> hash32) set" where
  "edges M = {(m, m'). \<exists>x. M m = Some x \<and> successor_match_id x = Some m'}"

definition links_ok :: "records \<Rightarrow> bool" where
  "links_ok c \<longleftrightarrow> acyclic (edges (matches c)) \<and>
     (\<forall>m x. matches c m = Some x \<longrightarrow> (status x = MatchStatus.Superseded \<longleftrightarrow> successor_match_id x \<noteq> None)) \<and>
     (\<forall>m x m'. matches c m = Some x \<longrightarrow> successor_match_id x = Some m' \<longrightarrow>
        (\<exists>y. matches c m' = Some y \<and> succeeds c m x y)) \<and>
     (\<forall>m' y m. matches c m' = Some y \<longrightarrow> superseded_match_id y = Some m \<longrightarrow>
        (\<exists>x. matches c m = Some x \<and> successor_match_id x = Some m'))"

definition u32_max :: nat where
  "u32_max = 2 ^ 32 - 1"

definition counters_ok :: "records \<Rightarrow> bool" where
  "counters_ok c \<longleftrightarrow>
     total_matches (counters c) = min (card (dom (matches c))) u32_max \<and>
     superseded_matches (counters c) = min (count (\<lambda>x. status x = MatchStatus.Superseded) (matches c)) u32_max \<and>
     closed_requests (counters c) = min (count (\<lambda>q. \<not> pending (request_status q)) (requests c)) u32_max \<and>
     (card (dom (requests c)) \<le> u32_max \<longrightarrow>
        open_requests (counters c) = count (\<lambda>q. pending (request_status q)) (requests c))"

section \<open>Preservation\<close>

lemma move_keys:
  assumes "records_move c d" "keys_ok c" "requests_ok c"
  shows "keys_ok d"
  using assms(1)
proof (cases rule: records_move.cases)
  case (superseded r q m x a m' y n)
  from assms(3) superseded(2,3) have "request_ok c r q" unfolding requests_ok_def by blast
  with superseded have "a \<noteq> mentee x" by (auto simp: request_ok_def)
  with superseded assms(2) show ?thesis by (auto simp: keys_ok_def)
qed (use assms(2) in \<open>auto simp: keys_ok_def split: if_splits\<close>)

lemma request_ok_mono:
  assumes "request_ok c r q" "r \<in> set (history c (request_match q)) \<Longrightarrow> r \<in> set (history d (request_match q))"
    "\<And>x. matches c (request_match q) = Some x \<Longrightarrow> \<exists>y. matches d (request_match q) = Some y \<and> mentor y = mentor x \<and>
       mentee y = mentee x \<and> (pending (request_status q) \<longrightarrow> status x = Active \<longrightarrow> status y = Active)"
  shows "request_ok d r q"
proof -
  from assms(1) obtain x where x: "matches c (request_match q) = Some x" "pending (request_status q) \<longrightarrow> status x = Active"
    "\<forall>a. successor q = Some a \<longrightarrow> a \<noteq> mentor x \<and> a \<noteq> mentee x" unfolding request_ok_def by blast
  from assms(3) [OF x(1)] obtain y where "matches d (request_match q) = Some y" "mentor y = mentor x" "mentee y = mentee x"
    "pending (request_status q) \<longrightarrow> status y = Active" using x(2) by blast
  with x(3) assms(1,2) show ?thesis unfolding request_ok_def by simp
qed

text \<open>A request ends together with its match: the other requests of the match are not pending.\<close>

lemma ended_requests:
  assumes "requests_ok c" "history_ok c" "requests c r = Some q" "request_match q = m" "pending (request_status q)"
    "matches c m = Some x" "history d = history c" "requests d = (requests c)(r \<mapsto> p)" "request_match p = m"
    "\<not> pending (request_status p)" "successor p = successor q"
    "matches d m = Some x'" "mentor x' = mentor x" "mentee x' = mentee x"
    "\<And>k z. k \<noteq> m \<Longrightarrow> matches c k = Some z \<Longrightarrow> matches d k = Some z"
  shows "requests_ok d"
  unfolding requests_ok_def
proof (intro allI impI)
  fix r' q'
  assume *: "requests d r' = Some q'"
  have q: "request_ok c r q" using assms(1,3) unfolding requests_ok_def by blast
  show "request_ok d r' q'"
  proof (cases "r' = r")
    case True
    with * assms(8) have "q' = p" by simp
    with True q assms(4,6,7,9-14) show ?thesis by (auto simp: request_ok_def)
  next
    case False
    with * assms(8) have old: "requests c r' = Some q'" by simp
    have "\<not> pending (request_status q')" if "request_match q' = m"
      using history_okD(4) [OF assms(2,3) old] that assms(4,5) False by auto
    moreover have "request_ok c r' q'" using assms(1) old unfolding requests_ok_def by blast
    ultimately show ?thesis
      using assms(6,7,12-15) by (cases "request_match q' = m") (auto elim!: request_ok_mono)
  qed
qed

lemma moved_request:
  assumes "requests_ok c" "requests c r = Some q" "requests d = (requests c)(r \<mapsto> p)" "matches d = matches c"
    "history d = history c" "request_ok c r q \<Longrightarrow> request_ok c r p"
  shows "requests_ok d"
proof -
  have same: "request_ok d r' q' = request_ok c r' q'" for r' q' by (simp add: request_ok_def assms(4,5))
  have "request_ok c r p" using assms(1,2,6) unfolding requests_ok_def by blast
  then show ?thesis using assms(1) unfolding requests_ok_def same by (simp add: assms(3))
qed

lemma move_requests:
  assumes "records_move c d" "requests_ok c" "history_ok c"
  shows "requests_ok d"
  using assms(1)
proof (cases rule: records_move.cases)
  case (anchored m x)
  show ?thesis unfolding requests_ok_def
  proof (intro allI impI)
    fix r q
    assume "requests d r = Some q"
    with anchored(1) assms(2) have "request_ok c r q" by (simp add: requests_ok_def)
    then show "request_ok d r q" by (rule request_ok_mono) (use anchored in auto)
  qed
next
  case (filed m x r q)
  show ?thesis unfolding requests_ok_def
  proof (intro allI impI)
    fix r' q'
    assume new: "requests d r' = Some q'"
    show "request_ok d r' q'"
    proof (cases "r' = r")
      case True
      with new filed show ?thesis by (auto simp: request_ok_def)
    next
      case False
      with new filed(1) assms(2) have "request_ok c r' q'" by (simp add: requests_ok_def)
      then show ?thesis by (rule request_ok_mono) (use filed(1) in auto)
    qed
  qed
next
  case (closed r q m x n)
  show ?thesis
    by (rule ended_requests [OF assms(2,3) closed(2,3) _ closed(4),
          where p = "q\<lparr>request_status := Closed, request_closed_at := n\<rparr>" and
            x' = "x\<lparr>status := MatchStatus.Closed, closed_at := n\<rparr>"])
      (use closed in \<open>auto simp: pending_def\<close>)
next
  case (superseded r q m x a m' y n)
  show ?thesis
    by (rule ended_requests [OF assms(2,3) superseded(2,3) _ superseded(4),
          where p = "q\<lparr>request_status := Superseded, request_closed_at := n\<rparr>" and
            x' = "x\<lparr>status := MatchStatus.Superseded, successor_match_id := Some m', closed_at := n\<rparr>"])
      (use superseded in auto)
next
  case (reviewed r q n)
  show ?thesis
    by (rule moved_request [OF assms(2) reviewed(2)], (simp add: reviewed(1))+) (auto simp: request_ok_def reviewed(3))
next
  case (rejected r q)
  show ?thesis
    by (rule moved_request [OF assms(2) rejected(2)], (simp add: rejected(1))+) (auto simp: request_ok_def)
next
  case (proposed r q x a e n h)
  show ?thesis
    by (rule moved_request [OF assms(2) proposed(2)], (simp add: proposed(1))+)
      (use proposed(3-) in \<open>auto simp: request_ok_def\<close>)
next
  case (approved r q n)
  show ?thesis
    by (rule moved_request [OF assms(2) approved(2)], (simp add: approved(1))+)
      (use approved(3-) in \<open>auto simp: request_ok_def\<close>)
qed

lemma history_moved:
  assumes "history_ok c" "requests c r = Some q" "requests d = (requests c)(r \<mapsto> p)" "history d = history c"
    "request_match p = request_match q" "pending (request_status p) \<Longrightarrow> pending (request_status q)"
  shows "history_ok d"
proof -
  have old: "\<exists>w. requests c i = Some w \<and> request_match w = request_match v \<and>
      (pending (request_status v) \<longrightarrow> pending (request_status w))" if "requests d i = Some v" for i v
    using that assms(2,3,5,6) by (auto split: if_splits)
  have "\<exists>v. requests d i = Some v \<and> request_match v = m" if "i \<in> set (history d m)" for i m
    using history_okD(3) [OF assms(1), of i m] that assms(2,3,4,5) by auto
  moreover have "i = j" if "requests d i = Some v" "requests d j = Some w" "request_match v = request_match w"
    "pending (request_status v)" "pending (request_status w)" for i j v w
    using old [OF that(1)] old [OF that(2)] that(3-5) history_okD(4) [OF assms(1)] by metis
  ultimately show ?thesis using history_okD(1,2) [OF assms(1)] unfolding history_ok_def by (simp add: assms(4))
qed

lemma history_filed:
  assumes "history_ok c" "requests_ok c" "requests c r = None" "request_match q = m"
    "length (history c m) < MAX_REQUESTS_PER_MATCH"
    "\<forall>i\<in>set (history c m). \<exists>p. requests c i = Some p \<and> \<not> pending (request_status p)"
    "requests d = (requests c)(r \<mapsto> q)" "history d = (history c)(m := history c m @ [r])"
  shows "history_ok d"
proof -
  note h = history_okD [OF assms(1)]
  have new: "r \<notin> set (history c k)" for k using h(3) [of r k] assms(3) by auto
  have idle: "\<not> pending (request_status w)" if "requests c i = Some w" "request_match w = m" for i w
  proof -
    have "request_ok c i w" using assms(2) that(1) unfolding requests_ok_def by blast
    with that assms(6) show ?thesis by (auto simp: request_ok_def)
  qed
  have "\<exists>v. requests d i = Some v \<and> request_match v = k" if "i \<in> set (history d k)" for i k
    using that h(3) [of i k] new [of k] assms(4) by (auto simp: assms(7,8) split: if_splits)
  moreover have "i = j" if "requests d i = Some v" "requests d j = Some w" "request_match v = request_match w"
    "pending (request_status v)" "pending (request_status w)" for i j v w
    using that idle [of i v] idle [of j w] h(4) [of i v j w] assms(4) by (auto simp: assms(7) split: if_splits)
  moreover have "distinct (history d k) \<and> length (history d k) \<le> MAX_REQUESTS_PER_MATCH" for k
    using h(1,2) [of k] new [of k] assms(5) by (auto simp: assms(8))
  ultimately show ?thesis unfolding history_ok_def by blast
qed

lemma move_history:
  assumes "records_move c d" "history_ok c" "requests_ok c"
  shows "history_ok d"
  using assms(1)
proof (cases rule: records_move.cases)
  case (anchored m x)
  with assms(2) show ?thesis by (simp add: history_ok_def)
next
  case (filed m x r q)
  show ?thesis
    by (rule history_filed [OF assms(2,3) filed(4,6,9,10)]) (simp_all add: filed(1))
next
  case (reviewed r q n)
  show ?thesis by (rule history_moved [OF assms(2) reviewed(2), where p = "q\<lparr>request_status := InReview, review_started_at := n\<rparr>"])
      (simp_all add: reviewed(1,3))
next
  case (rejected r q)
  show ?thesis by (rule history_moved [OF assms(2) rejected(2), where p = "q\<lparr>request_status := Rejected\<rparr>"])
      (simp_all add: rejected(1))
next
  case (proposed r q x a e n h)
  show ?thesis by (rule history_moved [OF assms(2) proposed(2), where p = "q\<lparr>successor := Some a, proposal_hash := h, proposed_at := n,
          proposal_expires_at := e, request_status := SuccessorProposed\<rparr>"])
      (use proposed(3) in \<open>auto simp: proposed(1)\<close>)
next
  case (approved r q n)
  show ?thesis by (rule history_moved [OF assms(2) approved(2), where p = "q\<lparr>successor_approved_at := n, request_status := ApprovedForClosure\<rparr>"])
      (simp_all add: approved(1,3))
next
  case (closed r q m x n)
  show ?thesis by (rule history_moved [OF assms(2) closed(2), where p = "q\<lparr>request_status := Closed, request_closed_at := n\<rparr>"])
      (simp_all add: closed(1))
next
  case (superseded r q m x a m' y n)
  show ?thesis by (rule history_moved [OF assms(2) superseded(2), where p = "q\<lparr>request_status := Superseded, request_closed_at := n\<rparr>"])
      (simp_all add: superseded(1))
qed

section \<open>Links\<close>

lemma edges_fresh: "M m = None \<Longrightarrow> successor_match_id x = None \<Longrightarrow> edges (M(m \<mapsto> x)) = edges M"
  by (auto simp: edges_def split: if_splits)

lemma edges_same: "M m = Some x \<Longrightarrow> successor_match_id y = successor_match_id x \<Longrightarrow> edges (M(m \<mapsto> y)) = edges M"
  by (auto simp: edges_def split: if_splits)

lemma edges_linked:
  assumes "M m = Some x" "successor_match_id x = None" "M m' = None" "successor_match_id y = None" "m \<noteq> m'"
    "successor_match_id x' = Some m'"
  shows "edges (M(m' \<mapsto> y, m \<mapsto> x')) = insert (m, m') (edges M)"
  using assms by (auto simp: edges_def split: if_splits)

lemma acyclic_linked:
  assumes "acyclic (edges M)" "M m' = None" "m \<noteq> m'"
  shows "acyclic (insert (m, m') (edges M))"
proof -
  have "(m', m) \<notin> (edges M)\<^sup>*"
  proof
    assume "(m', m) \<in> (edges M)\<^sup>*"
    then show False by (cases rule: converse_rtranclE) (use assms(2,3) in \<open>auto simp: edges_def\<close>)
  qed
  with assms(1) show ?thesis by (simp add: acyclic_insert)
qed

text \<open>Requests that have ended stay, so the evidence for a successor does.\<close>

lemma succeeds_kept:
  assumes "succeeds c m x y" "mentor x' = mentor x" "mentee x' = mentee x" "agreement_id x' = agreement_id x"
    "superseded_match_id y' = superseded_match_id y" "mentor y' = mentor y" "mentee y' = mentee y" "agreement_id y' = agreement_id y"
    "\<And>r q. requests c r = Some q \<Longrightarrow> request_status q = Superseded \<Longrightarrow> requests d r = Some q"
  shows "succeeds d m x' y'"
proof -
  from assms(1) obtain r q where "requests c r = Some q" "request_match q = m" "request_status q = Superseded"
    "successor q = Some (mentor y)" "successor_approved_at q \<le> proposal_expires_at q" unfolding succeeds_def by blast
  with assms(9) [OF this(1,3)] assms(1-8) show ?thesis unfolding succeeds_def by auto
qed

lemma links_okD:
  assumes "links_ok c"
  shows "acyclic (edges (matches c))" "matches c m = Some x \<Longrightarrow> status x = MatchStatus.Superseded \<longleftrightarrow> successor_match_id x \<noteq> None"
    "matches c m = Some x \<Longrightarrow> successor_match_id x = Some m' \<Longrightarrow> \<exists>y. matches c m' = Some y \<and> succeeds c m x y"
    "matches c m' = Some y \<Longrightarrow> superseded_match_id y = Some m \<Longrightarrow> \<exists>x. matches c m = Some x \<and> successor_match_id x = Some m'"
  using assms unfolding links_ok_def by blast+

text \<open>A move that keeps the links: matches keep their participants and pointers, ended requests stay.\<close>

lemma links_kept:
  assumes "links_ok c" "edges (matches d) = edges (matches c)"
    "\<And>m x. matches c m = Some x \<Longrightarrow> \<exists>y. matches d m = Some y \<and> mentor y = mentor x \<and> mentee y = mentee x \<and>
       agreement_id y = agreement_id x \<and> successor_match_id y = successor_match_id x \<and>
       superseded_match_id y = superseded_match_id x"
    "\<And>m y. matches d m = Some y \<Longrightarrow> (status y = MatchStatus.Superseded \<longleftrightarrow> successor_match_id y \<noteq> None) \<and>
       (matches c m \<noteq> None \<or> successor_match_id y = None \<and> superseded_match_id y = None)"
    "\<And>r q. requests c r = Some q \<Longrightarrow> request_status q = Superseded \<Longrightarrow> requests d r = Some q"
  shows "links_ok d"
proof -
  note l = links_okD [OF assms(1)]
  have old: "\<exists>x. matches c m = Some x \<and> mentor y = mentor x \<and> mentee y = mentee x \<and>
      agreement_id y = agreement_id x \<and> successor_match_id y = successor_match_id x \<and>
      superseded_match_id y = superseded_match_id x"
    if "matches d m = Some y" "successor_match_id y \<noteq> None \<or> superseded_match_id y \<noteq> None" for m y
  proof -
    from assms(4) [OF that(1)] that(2) obtain x where "matches c m = Some x" by auto
    with assms(3) [OF this] that(1) show ?thesis by auto
  qed
  have "\<exists>y. matches d m' = Some y \<and> succeeds d m x y" if xd: "matches d m = Some x" "successor_match_id x = Some m'" for m x m'
  proof -
    from old [OF xd(1)] xd(2) obtain x0 where x0: "matches c m = Some x0" "mentor x = mentor x0" "mentee x = mentee x0"
      "agreement_id x = agreement_id x0" "successor_match_id x = successor_match_id x0" by auto
    with l(3) xd(2) obtain y0 where y0: "matches c m' = Some y0" "succeeds c m x0 y0" by metis
    from assms(3) [OF y0(1)] obtain y where y: "matches d m' = Some y" "mentor y = mentor y0" "mentee y = mentee y0"
      "agreement_id y = agreement_id y0" "superseded_match_id y = superseded_match_id y0" by blast
    have "succeeds d m x y" by (rule succeeds_kept [OF y0(2)]) (simp_all add: x0 y assms(5))
    with y(1) show ?thesis by blast
  qed
  moreover have "\<exists>x. matches d m = Some x \<and> successor_match_id x = Some m'"
    if yd: "matches d m' = Some y" "superseded_match_id y = Some m" for m' y m
  proof -
    from old [OF yd(1)] yd(2) obtain y0 where "matches c m' = Some y0" "superseded_match_id y0 = Some m" by auto
    from l(4) [OF this] obtain x0 where "matches c m = Some x0" "successor_match_id x0 = Some m'" by blast
    with assms(3) [OF this(1)] show ?thesis by auto
  qed
  ultimately show ?thesis using l(1) assms(2,4) unfolding links_ok_def by simp
qed

lemma links_superseded:
  assumes links: "links_ok c" and reqs: "requests_ok c"
    and q: "requests c r = Some q" "request_match q = m" "matches c m = Some x" "request_status q = ApprovedForClosure"
      "successor q = Some a"
    and y: "matches c m' = None" "agreement_id y = agreement_id x" "mentor y = a" "mentee y = mentee x" "status y = Active"
      "successor_match_id y = None" "superseded_match_id y = Some m"
    and x': "status x' = MatchStatus.Superseded" "successor_match_id x' = Some m'" "mentor x' = mentor x"
      "mentee x' = mentee x" "agreement_id x' = agreement_id x" "superseded_match_id x' = superseded_match_id x"
    and q': "request_match q' = m" "request_status q' = Superseded" "successor q' = Some a"
      "successor_approved_at q' = successor_approved_at q" "proposal_expires_at q' = proposal_expires_at q"
    and d: "matches d = (matches c)(m' \<mapsto> y, m \<mapsto> x')" "requests d = (requests c)(r \<mapsto> q')"
  shows "links_ok d"
proof -
  note l = links_okD [OF links]
  from reqs q(1) have "request_ok c r q" unfolding requests_ok_def by blast
  with q have active: "status x = Active" "a \<noteq> mentor x" "successor_approved_at q \<le> proposal_expires_at q"
    by (auto simp: request_ok_def)
  with l(2) [OF q(3)] have none: "successor_match_id x = None" by auto
  have neq: "m \<noteq> m'" using q(3) y(1) by auto
  have ended: "requests d i = Some v" if "requests c i = Some v" "request_status v = Superseded" for i v
    using that q(1,4) by (auto simp: d(2))
  have frame: "matches d k = matches c k" if "k \<noteq> m" "k \<noteq> m'" for k using that by (simp add: d(1))
  have here: "matches d m = Some x'" "matches d m' = Some y" using neq by (simp_all add: d(1))
  have acyc: "acyclic (edges (matches d))"
    unfolding d(1) edges_linked [OF q(3) none y(1) y(6) neq x'(2)] by (rule acyclic_linked [OF l(1) y(1) neq])
  have stat: "status z = MatchStatus.Superseded \<longleftrightarrow> successor_match_id z \<noteq> None" if "matches d k = Some z" for k z
  proof (cases "k = m \<or> k = m'")
    case True
    with that here x'(1,2) y(5,6) show ?thesis by auto
  next
    case False
    with that frame [of k] l(2) [of k z] show ?thesis by simp
  qed
  have forth: "\<exists>w. matches d k' = Some w \<and> succeeds d k z w" if zd: "matches d k = Some z" "successor_match_id z = Some k'" for k z k'
  proof -
    consider "k = m" | "k = m'" | "k \<noteq> m" "k \<noteq> m'" by blast
    then show ?thesis
    proof cases
      case 1
      with zd here x'(2) have "z = x'" "k' = m'" by auto
      moreover have "requests d r = Some q'" by (simp add: d(2))
      with q' active(3) y(3) have "\<exists>r q. requests d r = Some q \<and> request_match q = m \<and> request_status q = Superseded \<and>
          successor q = Some (mentor y) \<and> successor_approved_at q \<le> proposal_expires_at q"
        by (intro exI [of _ r] exI [of _ q']) simp
      with active(2) y x' have "succeeds d m x' y" unfolding succeeds_def by simp
      ultimately show ?thesis using here 1 by blast
    next
      case 2
      with zd here y(6) show ?thesis by simp
    next
      case 3
      with zd frame have "matches c k = Some z" by simp
      from l(3) [OF this zd(2)] obtain w where w: "matches c k' = Some w" "succeeds c k z w" by blast
      show ?thesis
      proof (cases "k' = m")
        case True
        with w(1) q(3) have "w = x" by simp
        with w(2) have "succeeds d k z x'" by (intro succeeds_kept [OF _ refl refl refl _ _ _ _ ended]) (simp_all add: x')
        with here True show ?thesis by blast
      next
        case False
        moreover have "k' \<noteq> m'" using w(1) y(1) by auto
        ultimately have "matches d k' = Some w" using frame w(1) by simp
        moreover have "succeeds d k z w" by (rule succeeds_kept [OF w(2) refl refl refl refl refl refl refl ended])
        ultimately show ?thesis by blast
      qed
    qed
  qed
  have backwards: "\<exists>w. matches d k = Some w \<and> successor_match_id w = Some k'"
    if zd: "matches d k' = Some z" "superseded_match_id z = Some k" for k' z k
  proof (cases "k' = m'")
    case True
    with zd here y(7) x'(2) show ?thesis by auto
  next
    case False
    from zd(1) False have "\<exists>z0. matches c k' = Some z0 \<and> superseded_match_id z0 = superseded_match_id z"
      by (cases "k' = m") (use here frame q(3) x'(6) in auto)
    with zd(2) l(4) obtain w where w: "matches c k = Some w" "successor_match_id w = Some k'" by metis
    with none q(3) y(1) have "k \<noteq> m" "k \<noteq> m'" by auto
    with frame w show ?thesis by simp
  qed
  from acyc stat forth backwards show ?thesis unfolding links_ok_def by blast
qed

lemma move_links:
  assumes "records_move c d" "links_ok c" "requests_ok c"
  shows "links_ok d"
  using assms(1)
proof (cases rule: records_move.cases)
  case (anchored m x)
  show ?thesis
    by (rule links_kept [OF assms(2)])
      (use anchored links_okD(2) [OF assms(2)] in \<open>auto simp: edges_fresh split: if_splits\<close>)
next
  case (closed r q m x n)
  from assms(3) closed(2) have "request_ok c r q" unfolding requests_ok_def by blast
  with closed(3-5) have active: "status x = Active" by (auto simp: request_ok_def)
  with links_okD(2) [OF assms(2) closed(4)] have "successor_match_id x = None" by auto
  with closed(2-5) active show ?thesis
    by (intro links_kept [OF assms(2)])
      (use links_okD(2) [OF assms(2)] in \<open>auto simp: closed(1) edges_same split: if_splits\<close>)
next
  case (superseded r q m x a m' y n)
  show ?thesis
    by (rule links_superseded [OF assms(2,3) superseded(2-7) superseded(9-14),
          where q' = "q\<lparr>request_status := Superseded, request_closed_at := n\<rparr>" and
            x' = "x\<lparr>status := MatchStatus.Superseded, successor_match_id := Some m', closed_at := n\<rparr>"])
      (simp_all add: superseded(1,3,6))
qed (rule links_kept [OF assms(2)], use links_okD(2) [OF assms(2)] in \<open>auto split: if_splits\<close>)+

end
