(* ===== verification/Rematch_Continuity.thy ===== *)
theory Rematch_Continuity
  imports Rematch_Invariants
begin

text \<open>
  The counters of the rematch contract, the combined invariant and what changes over time, interpreted as a
  transition system.
\<close>

section \<open>Counters\<close>

lemma saturating_count: "u32_saturating_add (min k u32_max) (Suc 0) = min (Suc k) u32_max"
  by (simp add: u32_saturating_add_def u32_max_def)

lemma counters_filed:
  assumes "counters_ok c" "keys_ok c" "requests c r = None" "pending (request_status q)" "matches d = matches c"
    "requests d = (requests c)(r \<mapsto> q)" "counters d = count_open (counters c)"
  shows "counters_ok d"
proof -
  note fin = keys_okD(2) [OF assms(2)]
  have card: "card (dom (requests d)) = card (dom (requests c)) + 1"
    using fin assms(3) by (simp add: assms(6) domIff)
  have "count (\<lambda>q. \<not> pending (request_status q)) (requests d) = count (\<lambda>q. \<not> pending (request_status q)) (requests c)"
    "count (\<lambda>q. pending (request_status q)) (requests d) = count (\<lambda>q. pending (request_status q)) (requests c) + 1"
    using assms(4) by (simp_all add: assms(6) count_insert [OF fin assms(3)])
  moreover have "u32_saturating_add (count (\<lambda>q. pending (request_status q)) (requests c)) 1 =
      count (\<lambda>q. pending (request_status q)) (requests c) + 1" if "card (dom (requests d)) \<le> u32_max"
    using that card count_le [OF fin, of "\<lambda>q. pending (request_status q)"] by (simp add: u32_saturating_add_def u32_max_def)
  ultimately show ?thesis using assms(1) card unfolding counters_ok_def assms(5,7) count_open_def by simp
qed

lemma counters_moved:
  assumes "counters_ok c" "keys_ok c" "requests c r = Some q" "pending (request_status q)" "pending (request_status p)"
    "matches d = matches c" "requests d = (requests c)(r \<mapsto> p)" "counters d = counters c"
  shows "counters_ok d"
proof -
  note rep = count_replace [OF keys_okD(2) [OF assms(2)] assms(3)]
  have "count (\<lambda>q. \<not> pending (request_status q)) (requests d) = count (\<lambda>q. \<not> pending (request_status q)) (requests c)"
    "count (\<lambda>q. pending (request_status q)) (requests d) = count (\<lambda>q. pending (request_status q)) (requests c)"
    using rep [of "\<lambda>q. \<not> pending (request_status q)" p] rep [of "\<lambda>q. pending (request_status q)" p] assms(4,5)
    by (simp_all add: assms(7))
  moreover have "card (dom (requests d)) = card (dom (requests c))"
    using assms(3) by (simp add: assms(7) insert_absorb domIff)
  ultimately show ?thesis using assms(1) unfolding counters_ok_def assms(6,8) by simp
qed

lemma counters_ended:
  assumes "counters_ok c" "keys_ok c" "requests c r = Some q" "pending (request_status q)" "\<not> pending (request_status p)"
    "requests d = (requests c)(r \<mapsto> p)"
    "closed_requests (counters d) = u32_saturating_add (closed_requests (counters c)) 1"
    "open_requests (counters d) = open_requests (counters c) - 1"
    "total_matches (counters d) = min (card (dom (matches d))) u32_max"
    "superseded_matches (counters d) = min (count (\<lambda>x. status x = MatchStatus.Superseded) (matches d)) u32_max"
  shows "counters_ok d"
proof -
  note rep = count_replace [OF keys_okD(2) [OF assms(2)] assms(3)]
  have "count (\<lambda>q. \<not> pending (request_status q)) (requests d) = count (\<lambda>q. \<not> pending (request_status q)) (requests c) + 1"
    using rep [of "\<lambda>q. \<not> pending (request_status q)" p] assms(4,5) by (simp add: assms(6))
  moreover have "count (\<lambda>q. pending (request_status q)) (requests d) = count (\<lambda>q. pending (request_status q)) (requests c) - 1"
    using rep [of "\<lambda>q. pending (request_status q)" p] assms(4,5) by (simp add: assms(6))
  moreover have "card (dom (requests d)) = card (dom (requests c))"
    using assms(3) by (simp add: assms(6) insert_absorb domIff)
  ultimately show ?thesis
    using assms(1,9,10) unfolding counters_ok_def assms(7,8) by (simp add: saturating_count)
qed

lemma move_counters:
  assumes "records_move c d" "counters_ok c" "keys_ok c" "requests_ok c"
  shows "counters_ok d"
  using assms(1)
proof (cases rule: records_move.cases)
  case (anchored m x)
  have "card (dom (matches d)) = card (dom (matches c)) + 1"
    using keys_okD(1) [OF assms(3)] anchored(2) by (simp add: anchored(1) domIff)
  moreover have "count (\<lambda>x. status x = MatchStatus.Superseded) (matches d) = count (\<lambda>x. status x = MatchStatus.Superseded) (matches c)"
    using anchored(5) by (simp add: anchored(1) count_insert [OF keys_okD(1) [OF assms(3)] anchored(2)])
  moreover have "requests d = requests c" "counters d = count_match (counters c)" by (simp_all add: anchored(1))
  ultimately show ?thesis
    using assms(2) saturating_count [of "card (dom (matches c))"] unfolding counters_ok_def count_match_def by simp
next
  case (filed m x r q)
  show ?thesis by (rule counters_filed [OF assms(2,3) filed(4), of q]) (simp_all add: filed(1,7))
next
  case (reviewed r q n)
  show ?thesis
    by (rule counters_moved [OF assms(2,3) reviewed(2), of "q\<lparr>request_status := InReview, review_started_at := n\<rparr>"])
      (simp_all add: reviewed(1,3))
next
  case (proposed r q x a e n h)
  show ?thesis
    by (rule counters_moved [OF assms(2,3) proposed(2), of "q\<lparr>successor := Some a, proposal_hash := h, proposed_at := n,
        proposal_expires_at := e, request_status := SuccessorProposed\<rparr>"])
      (use proposed(3) in \<open>auto simp: proposed(1)\<close>)
next
  case (approved r q n)
  show ?thesis
    by (rule counters_moved [OF assms(2,3) approved(2), of "q\<lparr>successor_approved_at := n, request_status := ApprovedForClosure\<rparr>"])
      (simp_all add: approved(1,3))
next
  case (rejected r q)
  show ?thesis
    by (rule counters_ended [OF assms(2,3) rejected(2), of "q\<lparr>request_status := Rejected\<rparr>"])
      (use rejected(3) assms(2) in \<open>auto simp: rejected(1) count_closed_def counters_ok_def\<close>)
next
  case (closed r q m x n)
  have "request_ok c r q" using assms(4) closed(2) unfolding requests_ok_def by blast
  with closed(3-5) have "status x = Active" by (auto simp: request_ok_def)
  then have "count (\<lambda>x. status x = MatchStatus.Superseded) (matches d) = count (\<lambda>x. status x = MatchStatus.Superseded) (matches c)"
    using count_replace [OF keys_okD(1) [OF assms(3)] closed(4), of "\<lambda>x. status x = MatchStatus.Superseded"] by (simp add: closed(1))
  moreover have "dom (matches d) = dom (matches c)" using closed(4) by (auto simp: closed(1))
  ultimately show ?thesis
    using closed(5) assms(2)
    by (intro counters_ended [OF assms(2,3) closed(2), of "q\<lparr>request_status := Closed, request_closed_at := n\<rparr>"])
      (auto simp: closed(1) count_closed_def counters_ok_def)
next
  case (superseded r q m x a m' y n)
  let ?x = "x\<lparr>status := MatchStatus.Superseded, successor_match_id := Some m', closed_at := n\<rparr>"
  have "request_ok c r q" using assms(4) superseded(2) unfolding requests_ok_def by blast
  with superseded(3-5) have active: "status x = Active" by (auto simp: request_ok_def)
  note fin = keys_okD(1) [OF assms(3)]
  have new: "((matches c)(m' \<mapsto> y)) m = Some x" using superseded(4,7) by auto
  have "count (\<lambda>x. status x = MatchStatus.Superseded) (matches d) = count (\<lambda>x. status x = MatchStatus.Superseded) (matches c) + 1"
    using count_replace [where m = "(matches c)(m' \<mapsto> y)", OF _ new, of "\<lambda>x. status x = MatchStatus.Superseded" ?x] fin active superseded(12)
      count_insert [OF fin superseded(7), of "\<lambda>x. status x = MatchStatus.Superseded" y]
    by (simp add: superseded(1))
  moreover have "dom (matches d) = insert m' (dom (matches c))" using superseded(4) by (auto simp: superseded(1))
  then have "card (dom (matches d)) = card (dom (matches c)) + 1" using fin superseded(7) by (simp add: domIff)
  moreover have "counters d = count_superseded (counters c)" by (simp add: superseded(1))
  moreover have "requests d = (requests c)(r \<mapsto> q\<lparr>request_status := Superseded, request_closed_at := n\<rparr>)"
    by (simp add: superseded(1))
  ultimately show ?thesis
    using superseded(5) assms(2) saturating_count
    by (intro counters_ended [OF assms(2,3) superseded(2), of "q\<lparr>request_status := Superseded, request_closed_at := n\<rparr>"])
      (auto simp: count_superseded_def count_match_def count_closed_def counters_ok_def)
qed

section \<open>What may still change\<close>

text \<open>Matches keep their terms, and stay as they are once they have ended; so do requests. Histories are extended.\<close>

definition match_evolves :: "MatchRecord \<Rightarrow> MatchRecord \<Rightarrow> bool" where
  "match_evolves x y \<longleftrightarrow> match_id y = match_id x \<and> agreement_id y = agreement_id x \<and> mentor y = mentor x \<and>
     mentee y = mentee x \<and> superseded_match_id y = superseded_match_id x \<and> created_at y = created_at x \<and>
     (status x \<noteq> Active \<longrightarrow> y = x)"

definition request_evolves :: "RematchRequest \<Rightarrow> RematchRequest \<Rightarrow> bool" where
  "request_evolves p q \<longleftrightarrow> request_id q = request_id p \<and> request_match q = request_match p \<and>
     requested_by q = requested_by p \<and> reason q = reason p \<and> reason_hash q = reason_hash p \<and>
     closure_plan_hash q = closure_plan_hash p \<and> requested_at q = requested_at p \<and>
     (\<not> pending (request_status p) \<longrightarrow> q = p)"

definition records_evolve :: "records \<Rightarrow> records \<Rightarrow> bool" where
  "records_evolve c d \<longleftrightarrow> kept match_evolves (matches c) (matches d) \<and> kept request_evolves (requests c) (requests d) \<and>
     (\<forall>m. \<exists>ids. history d m = history c m @ ids)"

lemma evolves_refl_simps [simp]: "match_evolves x x" "request_evolves q q"
  by (simp_all add: match_evolves_def request_evolves_def)

lemma match_evolves_trans: "match_evolves x y \<Longrightarrow> match_evolves y z \<Longrightarrow> match_evolves x z"
  by (cases "status x = Active") (simp_all add: match_evolves_def)

lemma request_evolves_trans: "request_evolves x y \<Longrightarrow> request_evolves y z \<Longrightarrow> request_evolves x z"
  by (cases "pending (request_status x)") (simp_all add: request_evolves_def)

lemma records_evolve_refl: "records_evolve c c"
  by (simp add: records_evolve_def kept_refl)

lemma records_evolve_trans: "records_evolve c d \<Longrightarrow> records_evolve d e \<Longrightarrow> records_evolve c e"
proof -
  assume *: "records_evolve c d" "records_evolve d e"
  have "\<exists>ids. history e m = history c m @ ids" for m
    using * unfolding records_evolve_def by (metis append.assoc)
  moreover have "kept match_evolves (matches c) (matches e)"
    by (rule kept_trans [OF match_evolves_trans]) (use * in \<open>auto simp: records_evolve_def\<close>)
  moreover have "kept request_evolves (requests c) (requests e)"
    by (rule kept_trans [OF request_evolves_trans]) (use * in \<open>auto simp: records_evolve_def\<close>)
  ultimately show ?thesis unfolding records_evolve_def by blast
qed

lemma evolves_stored:
  assumes "requests c r = Some q" "request_evolves q p" "matches d = matches c" "history d = history c"
    "requests d = (requests c)(r \<mapsto> p)"
  shows "records_evolve c d"
proof -
  have "kept request_evolves (requests c) (requests d)"
    unfolding assms(5) using assms(1,2) by (intro kept_update) auto
  then show ?thesis using kept_refl [of match_evolves] by (simp add: records_evolve_def assms(3,4))
qed

lemma move_keeps_records:
  assumes "records_move c d" "requests_ok c"
  shows "records_evolve c d"
  using assms(1)
proof (cases rule: records_move.cases)
  case (anchored m x)
  have "kept match_evolves (matches c) (matches d)"
    unfolding anchored(1) using anchored(2) by (simp add: kept_def)
  then show ?thesis using kept_refl [of request_evolves "requests c"] by (simp add: records_evolve_def anchored(1))
next
  case (filed m x r q)
  have "kept request_evolves (requests c) (requests d)"
    unfolding filed(1) using filed(4) by (simp add: kept_def)
  then show ?thesis using kept_refl [of match_evolves "matches c"] by (simp add: records_evolve_def filed(1))
next
  case (reviewed r q n)
  then show ?thesis by (intro evolves_stored [OF reviewed(2)]) (simp_all add: request_evolves_def)
next
  case (rejected r q)
  show ?thesis
    by (rule evolves_stored [OF rejected(2), of "q\<lparr>request_status := Rejected\<rparr>"])
      (use rejected(3) in \<open>auto simp: rejected(1) request_evolves_def\<close>)
next
  case (proposed r q x a e n h)
  show ?thesis
    by (rule evolves_stored [OF proposed(2), of "q\<lparr>successor := Some a, proposal_hash := h, proposed_at := n,
        proposal_expires_at := e, request_status := SuccessorProposed\<rparr>"])
      (use proposed(3) in \<open>auto simp: proposed(1) request_evolves_def\<close>)
next
  case (approved r q n)
  show ?thesis
    by (rule evolves_stored [OF approved(2), of "q\<lparr>successor_approved_at := n, request_status := ApprovedForClosure\<rparr>"])
      (use approved(3) in \<open>auto simp: approved(1) request_evolves_def\<close>)
next
  case (closed r q m x n)
  have "request_ok c r q" using assms(2) closed(2) unfolding requests_ok_def by blast
  with closed(3-5) have "status x = Active" by (auto simp: request_ok_def)
  then have "kept match_evolves (matches c) (matches d)"
    using closed(4) by (simp add: closed(1) kept_def match_evolves_def)
  moreover have "kept request_evolves (requests c) (requests d)"
    using closed(2,5) by (auto simp: closed(1) kept_def request_evolves_def)
  ultimately show ?thesis by (simp add: records_evolve_def closed(1))
next
  case (superseded r q m x a m' y n)
  have "request_ok c r q" using assms(2) superseded(2) unfolding requests_ok_def by blast
  with superseded(3-5) have "status x = Active" by (auto simp: request_ok_def)
  with superseded have "kept match_evolves (matches c) (matches d)"
    by (auto simp: kept_def match_evolves_def)
  moreover have "kept request_evolves (requests c) (requests d)"
    using superseded(2,5) by (auto simp: superseded(1) kept_def request_evolves_def)
  ultimately show ?thesis by (simp add: records_evolve_def superseded(1))
qed

section \<open>The contract as a transition system\<close>

definition configured :: "rematch_state \<Rightarrow> bool" where
  "configured s \<longleftrightarrow> (Admin s = None \<longrightarrow> Registrar s = None \<and> Stats s = None \<and> Coordinators s = None \<and> MatchAt s = Map.empty)"

lemma admin_kept:
  "register_coordinator env a c s = Ok t \<Longrightarrow> Admin t = Admin s"
  "revoke_coordinator env a c s = Ok t \<Longrightarrow> Admin t = Admin s"
  "set_registrar env a r s = Ok t \<Longrightarrow> Admin t = Admin s"
  "set_proposal_window env a w s = Ok t \<Longrightarrow> Admin t = Admin s"
  "register_match env a m g mr me s = Ok t \<Longrightarrow> Admin t = Admin s"
  "start_review env a k s = Ok t \<Longrightarrow> Admin t = Admin s"
  "reject_request env a k s = Ok t \<Longrightarrow> Admin t = Admin s"
  "set_case_flags env a m f b s = Ok t \<Longrightarrow> Admin t = Admin s"
  "propose_successor env a k u h s = Ok t \<Longrightarrow> Admin t = Admin s"
  "close_engagement env a k s = Ok t \<Longrightarrow> Admin t = Admin s"
  "apply_successor env a k m s = Ok t \<Longrightarrow> Admin t = Admin s"
  by (auto simp: register_coordinator_def revoke_coordinator_def set_registrar_def set_proposal_window_def
      register_match_def start_review_def reject_request_def set_case_flags_def propose_successor_def
      close_engagement_def apply_successor_def outcome_iff Let_def put_match_def put_request_def bump_stats_def
      split: prod.splits if_splits)

lemma admin_kept_by_mentee: "approve_successor env a k s = Ok t \<Longrightarrow> Admin t = Admin s"
  by (cases "RequestAt s k")
    (auto simp: approve_successor_def load_request_def outcome_iff Let_def put_request_def split: if_splits)

lemma admin_kept_by_request: "request_rematch env a m k why h plan s = Ok t \<Longrightarrow> Admin t = Admin s"
  by (cases "RequestAt s k") (auto simp: request_rematch_def outcome_iff Let_def bump_stats_def)

lemma exec_configured:
  assumes "rematch_exec env c s = Ok t" "configured s"
  shows "Admin t \<noteq> None"
proof (cases "Admin s")
  case None
  with assms(2) have "Registrar s = None" "Coordinators s = None" "MatchAt s = Map.empty" by (simp_all add: configured_def)
  with None assms(1) show ?thesis
    by (cases c) (auto simp: initialize_def register_coordinator_def revoke_coordinator_def set_registrar_def
      set_proposal_window_def register_match_def request_rematch_def start_review_def reject_request_def
      set_case_flags_def propose_successor_def approve_successor_def close_engagement_def apply_successor_def
      outcome_iff coordinators_def)
next
  case (Some a)
  with assms(1) have "Admin t = Admin s"
    by (cases c) (simp_all add: admin_kept admin_kept_by_mentee admin_kept_by_request initialize_def)
  with Some show ?thesis by simp
qed

definition rematch_wf :: "rematch_state \<Rightarrow> bool" where
  "rematch_wf s \<longleftrightarrow> configured s \<and> keys_ok (records_of s) \<and> requests_ok (records_of s) \<and> history_ok (records_of s) \<and>
     links_ok (records_of s) \<and> counters_ok (records_of s)"

lemma rematch_wfD:
  assumes "rematch_wf s"
  shows "configured s" "keys_ok (records_of s)" "requests_ok (records_of s)" "history_ok (records_of s)"
    "links_ok (records_of s)" "counters_ok (records_of s)"
  using assms by (simp_all add: rematch_wf_def)

lemma rematch_wf_keyed: "rematch_wf s \<Longrightarrow> keyed s"
  by (auto simp: rematch_wf_def keyed_def configured_def keys_ok_def)

lemma rematch_init_wf: "rematch_wf rematch_init"
  by (simp add: rematch_wf_def rematch_init_def configured_def keys_ok_def requests_ok_def history_ok_def links_ok_def
      counters_ok_def edges_def count_def no_stats_def acyclic_def)

lemma rematch_exec_wf:
  assumes "rematch_exec env c s = Ok t" "rematch_wf s"
  shows "rematch_wf t"
proof -
  note wf = rematch_wfD [OF assms(2)]
  have "configured t" using exec_configured [OF assms(1) wf(1)] unfolding configured_def by blast
  moreover from exec_refines [OF assms(1) rematch_wf_keyed [OF assms(2)]]
  have "keys_ok (records_of t) \<and> requests_ok (records_of t) \<and> history_ok (records_of t) \<and> links_ok (records_of t) \<and>
      counters_ok (records_of t)"
  proof
    assume "records_move (records_of s) (records_of t)"
    with wf show ?thesis by (blast intro: move_keys move_requests move_history move_links move_counters)
  qed (use wf in simp)
  ultimately show ?thesis by (simp add: rematch_wf_def)
qed

lemma rematch_exec_evolves:
  assumes "rematch_exec env c s = Ok t" "rematch_wf s"
  shows "records_evolve (records_of s) (records_of t)"
  using exec_refines [OF assms(1) rematch_wf_keyed [OF assms(2)]] rematch_wfD(3) [OF assms(2)]
  by (auto intro: records_evolve_refl move_keeps_records)

interpretation rematch: evolving rematch_step rematch_wf "\<lambda>s t. records_evolve (records_of s) (records_of t)"
  by unfold_locales
    (auto intro: rematch_exec_wf rematch_exec_evolves records_evolve_refl records_evolve_trans elim!: rematch_stepE)

lemmas rematch_run_wf = rematch.run [OF _ rematch_init_wf]

end
