(* ===== verification/Rematch_Properties.thy ===== *)
theory Rematch_Properties
  imports Rematch_Continuity
begin

text \<open>
  The properties of the rematch contract over its reachable states: one pending request for a match with exact
  counters, supersession only with the approval of the mentee, chains of successors that end, records that are
  kept, and closures that open cases block. Two findings: an approval does not name the successor it is for,
  and a repeated request is answered with an error once the match has ended.
\<close>

section \<open>Concrete runs\<close>

definition rematch_env :: "nat \<Rightarrow> env" where
  "rematch_env n = \<lparr>timestamp = n, ledger_sequence = 1, self = 9, auth = \<lambda>_. True\<rparr>"

definition demo_match :: MatchRecord where
  "demo_match = \<lparr>match_id = [5], agreement_id = [8], mentor = 2, mentee = 3, status = Active, successor_match_id = None,
     superseded_match_id = None, created_at = 10, closed_at = 0\<rparr>"

definition demo_request :: RematchRequest where
  "demo_request = \<lparr>request_id = [6], request_match = [5], requested_by = 3, reason = AvailabilityChange,
     reason_hash = [1], closure_plan_hash = [2], requested_at = 20, review_started_at = 30, request_status = SuccessorProposed,
     successor = Some 4, proposal_hash = [7], proposed_at = 40, proposal_expires_at = 140, successor_approved_at = 0,
     request_closed_at = 0\<rparr>"

definition demo_proposed :: rematch_state where
  "demo_proposed = \<lparr>Admin = Some 1, Registrar = Some 1, Coordinators = Some [1], ProposalWindow = Some 100,
     Stats = Some \<lparr>total_matches = 1, open_requests = 1, closed_requests = 0, superseded_matches = 0\<rparr>,
     MatchAt = [[5] \<mapsto> demo_match], RequestAt = [[6] \<mapsto> demo_request], MatchRequests = [[5] \<mapsto> [[6]]],
     CaseFlagsAt = Map.empty\<rparr>"

definition demo_calls :: "(env \<times> rematch_call) list" where
  "demo_calls = [(rematch_env 10, Initialize 1 100), (rematch_env 10, RegisterMatch 1 [5] [8] 2 3),
     (rematch_env 20, RequestRematch 3 [5] [6] AvailabilityChange [1] [2]), (rematch_env 30, StartReview 1 [6]),
     (rematch_env 40, ProposeSuccessor 1 [6] 4 [7])]"

lemmas rematch_call_defs = initialize_def validate_window_def require_admin_def require_coordinator_def is_coordinator_def
  require_registrar_def require_no_open_cases_def no_cases_def load_match_def put_match_def load_request_def
  put_request_def bump_stats_def no_stats_def count_closed_def register_match_def request_rematch_def start_review_def
  propose_successor_def approve_successor_def close_engagement_def apply_successor_def u32_saturating_add_def
  u64_checked_def range_defs MIN_PROPOSAL_WINDOW_SECONDS_def MAX_PROPOSAL_WINDOW_SECONDS_def MAX_REQUESTS_PER_MATCH_def
  Let_def

lemmas demo_rematch_defs = rematch_env_def demo_match_def demo_request_def demo_proposed_def demo_calls_def rematch_init_def

lemma not_zero: "length h < 32 \<Longrightarrow> h \<noteq> zero_hash"
  by (auto simp: zero_hash_def)

lemma demo_proposed_run: "run_calls rematch_exec demo_calls rematch_init = Ok demo_proposed"
  by (simp add: rematch_call_defs demo_rematch_defs not_zero del: One_nat_def)

lemma demo_rematch_reachable: "rematch_step\<^sup>*\<^sup>* rematch_init demo_proposed"
  by (rule run_calls_steps [OF demo_proposed_run]) (rule rematch_step.call)

text \<open>The mentee approves, and the match is superseded by the match 11.\<close>

definition demo_approved :: rematch_state where
  "demo_approved = demo_proposed\<lparr>RequestAt := [[6] \<mapsto> demo_request\<lparr>request_status := ApprovedForClosure,
     successor_approved_at := 50\<rparr>]\<rparr>"

definition demo_superseded :: rematch_state where
  "demo_superseded = demo_proposed\<lparr>Stats := Some \<lparr>total_matches = 2, open_requests = 0, closed_requests = 1, superseded_matches = 1\<rparr>,
     MatchAt := [[11] \<mapsto> demo_match\<lparr>match_id := [11], mentor := 4, superseded_match_id := Some [5], created_at := 60\<rparr>,
       [5] \<mapsto> demo_match\<lparr>status := MatchStatus.Superseded, successor_match_id := Some [11], closed_at := 60\<rparr>],
     RequestAt := [[6] \<mapsto> demo_request\<lparr>request_status := Superseded, successor_approved_at := 50, request_closed_at := 60\<rparr>]\<rparr>"

lemma demo_mentee_approval: "approve_successor (rematch_env 50) 3 [6] demo_proposed = Ok demo_approved"
  by (simp add: rematch_call_defs demo_rematch_defs demo_approved_def del: One_nat_def)

lemma demo_supersession: "apply_successor (rematch_env 60) 1 [6] [11] demo_approved = Ok demo_superseded"
  by (simp add: rematch_call_defs demo_rematch_defs demo_approved_def demo_superseded_def del: One_nat_def)

lemma demo_superseded_reachable: "rematch_step\<^sup>*\<^sup>* rematch_init demo_superseded"
proof -
  have "rematch_step demo_proposed demo_approved"
    using rematch_step.call [of "rematch_env 50" "ApproveSuccessor 3 [6]"] demo_mentee_approval by simp
  moreover have "rematch_step demo_approved demo_superseded"
    using rematch_step.call [of "rematch_env 60" "ApplySuccessor 1 [6] [11]"] demo_supersession by simp
  ultimately show ?thesis using demo_rematch_reachable by simp
qed

section \<open>Properties\<close>

text \<open>
  C26. A match has at most one pending rematch request, the match is active while it has one, at most eight requests
  are ever filed against it, and the public counters are exact: the numbers of matches, of pending and of ended
  requests and of superseded matches (up to the largest value that fits, where they stay).
\<close>

theorem one_pending_request:
  assumes "rematch_step\<^sup>*\<^sup>* rematch_init s" and "stats s = Ok st"
  shows "card {r. \<exists>q. RequestAt s r = Some q \<and> request_match q = m \<and> pending (request_status q)} \<le> 1 \<and>
    ((\<exists>r q. RequestAt s r = Some q \<and> request_match q = m \<and> pending (request_status q)) \<longrightarrow>
      (\<exists>x. get_match s m = Ok x \<and> status x = Active)) \<and>
    card {r. \<exists>q. RequestAt s r = Some q \<and> request_match q = m} \<le> MAX_REQUESTS_PER_MATCH \<and>
    total_matches st = min (card (dom (MatchAt s))) u32_max \<and>
    superseded_matches st = min (card {m. \<exists>x. MatchAt s m = Some x \<and> status x = MatchStatus.Superseded}) u32_max \<and>
    closed_requests st = min (card {r. \<exists>q. RequestAt s r = Some q \<and> \<not> pending (request_status q)}) u32_max \<and>
    (card (dom (RequestAt s)) \<le> u32_max \<longrightarrow>
      open_requests st = card {r. \<exists>q. RequestAt s r = Some q \<and> pending (request_status q)})"
proof -
  note wf = rematch_wfD [OF rematch_run_wf [OF assms(1)]]
  have req: "request_ok (records_of s) r q" if "RequestAt s r = Some q" for r q
    using wf(3) that by (simp add: requests_ok_def)
  have st: "Stats s = Some st" using assms(2) by (simp add: stats_def outcome_iff)
  let ?P = "{r. \<exists>q. RequestAt s r = Some q \<and> request_match q = m \<and> pending (request_status q)}"
  have "?P \<subseteq> dom (requests (records_of s))" by auto
  then have "finite ?P" using keys_okD(2) [OF wf(2)] finite_subset by blast
  moreover have "\<forall>r\<in>?P. \<forall>r'\<in>?P. r = r'"
  proof (intro ballI)
    fix r r'
    assume "r \<in> ?P" "r' \<in> ?P"
    then obtain q q' where "requests (records_of s) r = Some q" "requests (records_of s) r' = Some q'"
      "request_match q = m" "request_match q' = m" "pending (request_status q)" "pending (request_status q')" by auto
    with history_okD(4) [OF wf(4) this(1,2)] show "r = r'" by simp
  qed
  ultimately have "card ?P \<le> 1" unfolding One_nat_def by (subst card_le_Suc0_iff_eq)
  moreover have "{r. \<exists>q. RequestAt s r = Some q \<and> request_match q = m} \<subseteq> set (history (records_of s) m)"
    using req by (auto simp: request_ok_def)
  then have "card {r. \<exists>q. RequestAt s r = Some q \<and> request_match q = m} \<le> MAX_REQUESTS_PER_MATCH"
    by (meson List.finite_set card_length card_mono history_okD(2) [OF wf(4)] le_trans)
  moreover have "\<exists>x. get_match s m = Ok x \<and> status x = Active"
    if "RequestAt s r = Some q" "request_match q = m" "pending (request_status q)" for r q
    using req [OF that(1)] that(2,3) by (auto simp: request_ok_def get_match_def load_match_def)
  ultimately show ?thesis using wf(6) by (auto simp: counters_ok_def count_def st)
qed

theorem one_pending_request_witness: "card {r. \<exists>q. RequestAt demo_proposed r = Some q \<and> request_match q = [5] \<and> pending (request_status q)} \<le> 1"
  using one_pending_request [OF demo_rematch_reachable, of _ "[5]"] by (simp add: stats_def demo_proposed_def)

lemma exec_approves:
  assumes "rematch_exec env c s = Ok t" "keyed s" "RequestAt t r = Some q'" "request_status q' = ApprovedForClosure"
    "RequestAt s r \<noteq> Some q'"
  shows "\<exists>a. c = ApproveSuccessor a r"
proof (cases c)
  case (Initialize a w)
  with assms show ?thesis by (auto simp: initialize_def outcome_iff)
next
  case (RequestRematch a m k why h plan)
  with assms show ?thesis
    by (cases "RequestAt s k") (auto simp: request_rematch_def outcome_iff Let_def bump_stats_def split: if_splits)
next
  case (ApproveSuccessor a k)
  with assms obtain q where q: "RequestAt s k = Some q" "request_id q = k"
    by (auto simp: approve_successor_def outcome_iff keyed_def)
  with ApproveSuccessor assms have "r = k"
    by (auto simp: approve_successor_def load_request_def outcome_iff put_request_def Let_def split: if_splits)
  with ApproveSuccessor show ?thesis by blast
next
  case (RegisterMatch a m g mr me)
  with assms show ?thesis by (auto simp: register_match_def outcome_iff Let_def put_match_def bump_stats_def)
next
  case (CloseEngagement a k)
  with assms show ?thesis
    by (auto simp: close_engagement_def outcome_iff Let_def put_match_def put_request_def bump_stats_def split: if_splits)
next
  case (ApplySuccessor a k m)
  with assms show ?thesis
    by (auto simp: apply_successor_def outcome_iff Let_def put_match_def put_request_def bump_stats_def split: if_splits)
next
  case (ProposeSuccessor a k u h)
  with assms show ?thesis
    by (auto simp: propose_successor_def outcome_iff put_request_def split: if_splits)
next
  case (StartReview a k)
  with assms show ?thesis by (auto simp: start_review_def outcome_iff put_request_def split: if_splits)
next
  case (RejectRequest a k)
  with assms show ?thesis by (auto simp: reject_request_def outcome_iff put_request_def bump_stats_def split: if_splits)
qed (use assms in \<open>auto simp: register_coordinator_def revoke_coordinator_def set_registrar_def set_proposal_window_def
    set_case_flags_def outcome_iff Let_def split: prod.splits if_splits\<close>)

lemma move_supersedes:
  assumes "records_move c d" "requests d r = Some q'" "request_status q' = Superseded" "requests c r \<noteq> Some q'"
  shows "\<exists>q. requests c r = Some q \<and> request_status q = ApprovedForClosure \<and> request_match q = request_match q' \<and>
    successor q = successor q'"
  using assms(1)
proof (cases rule: records_move.cases)
  case superseded
  with assms(2-4) show ?thesis by (auto split: if_splits)
qed (use assms(2-4) in \<open>auto split: if_splits\<close>)

text \<open>
  A request of a state is approved by the mentee when an earlier state of the run saw the mentee's authorised
  approval of the very successor the request names, before the proposal expired.
\<close>

definition mentee_approved :: "rematch_state \<Rightarrow> hash32 \<Rightarrow> hash32 \<Rightarrow> address option \<Rightarrow> bool" where
  "mentee_approved s r m a \<longleftrightarrow> (\<exists>env u u' q x. rematch_step\<^sup>*\<^sup>* rematch_init u \<and>
     approve_successor env (mentee x) r u = Ok u' \<and> rematch_step\<^sup>*\<^sup>* u' s \<and> auth env (mentee x) \<and>
     MatchAt u m = Some x \<and> RequestAt u r = Some q \<and> request_match q = m \<and> request_status q = SuccessorProposed \<and>
     successor q = a \<and> timestamp env \<le> proposal_expires_at q)"

lemma mentee_approved_step: "mentee_approved s r m a \<Longrightarrow> rematch_step s t \<Longrightarrow> mentee_approved t r m a"
  unfolding mentee_approved_def by (elim exE conjE) (intro exI conjI; (assumption | erule (1) rtranclp.rtrancl_into_rtrancl))

lemma approval_recorded:
  assumes run: "rematch_step\<^sup>*\<^sup>* rematch_init s" and call: "approve_successor env a r s = Ok t"
    and "RequestAt t r = Some q'" "request_status q' = ApprovedForClosure" "RequestAt s r \<noteq> Some q'"
  shows "mentee_approved t r (request_match q') (successor q')"
proof -
  obtain q where q: "RequestAt s r = Some q" using call by (auto simp: approve_successor_def outcome_iff)
  with keyedD(2) [OF rematch_wf_keyed [OF rematch_run_wf [OF run]]] have "request_id q = r" by blast
  moreover have "t \<noteq> s" using assms(3,5) by auto
  ultimately obtain x where "MatchAt s (request_match q) = Some x" "a = mentee x" "auth env a"
    "request_status q = SuccessorProposed" "timestamp env \<le> proposal_expires_at q"
    "q' = q\<lparr>successor_approved_at := timestamp env, request_status := ApprovedForClosure\<rparr>"
    using q call assms(3) by (auto simp: approve_successor_def outcome_iff Let_def put_request_def split: if_splits)
  with q run call show ?thesis unfolding mentee_approved_def by fastforce
qed

lemma approved_by_mentee:
  assumes "rematch_step\<^sup>*\<^sup>* rematch_init s" "RequestAt s r = Some q"
    "request_status q = ApprovedForClosure \<or> request_status q = Superseded"
  shows "mentee_approved s r (request_match q) (successor q)"
  using assms
proof (induction arbitrary: r q rule: rtranclp_induct)
  case base
  then show ?case by (simp add: rematch_init_def)
next
  case (step s t)
  note keyed = rematch_wf_keyed [OF rematch_run_wf [OF step.hyps(1)]]
  obtain env c where call: "rematch_exec env c s = Ok t" using step.hyps(2) by (rule rematch_stepE)
  show ?case
  proof (cases "RequestAt s r = Some q")
    case True
    with step show ?thesis by (blast intro: mentee_approved_step)
  next
    case False
    from step.prems(2) show ?thesis
    proof
      assume now: "request_status q = ApprovedForClosure"
      from exec_approves [OF call keyed step.prems(1) now False] obtain a where "c = ApproveSuccessor a r" ..
      with call show ?thesis by (intro approval_recorded [OF step.hyps(1) _ step.prems(1) now False]) simp
    next
      assume now: "request_status q = Superseded"
      from exec_refines [OF call keyed] have "records_move (records_of s) (records_of t)"
      proof
        assume "records_of t = records_of s"
        then have "RequestAt t = RequestAt s" by (simp add: records_of_def)
        with step.prems(1) False show ?thesis by simp
      qed
      from move_supersedes [OF this, of r q] step.prems(1) now False
      obtain p where "RequestAt s r = Some p" "request_status p = ApprovedForClosure" "request_match p = request_match q"
        "successor p = successor q" by auto
      with step.IH step.hyps(2) show ?thesis by (metis mentee_approved_step)
    qed
  qed
qed

text \<open>
  C27. No match is superseded without the mentee. Every match that took over from another one has the same mentee and
  agreement and a different mentor, and the run contains an approval for it: a call of \<open>approve_successor\<close>,
  authorised by that mentee before the proposal expired, on a request of the superseded match that at that moment
  proposed exactly this mentor.
\<close>

theorem successor_needs_mentee:
  assumes "rematch_step\<^sup>*\<^sup>* rematch_init s" and "MatchAt s m' = Some y" and "superseded_match_id y = Some m"
  shows "\<exists>x r. MatchAt s m = Some x \<and> status x = MatchStatus.Superseded \<and> successor_match_id x = Some m' \<and>
    mentee y = mentee x \<and> agreement_id y = agreement_id x \<and> mentor y \<noteq> mentor x \<and>
    (\<exists>env u u' q. rematch_step\<^sup>*\<^sup>* rematch_init u \<and> approve_successor env (mentee x) r u = Ok u' \<and>
      rematch_step\<^sup>*\<^sup>* u' s \<and> auth env (mentee x) \<and> RequestAt u r = Some q \<and> request_match q = m \<and>
      request_status q = SuccessorProposed \<and> successor q = Some (mentor y) \<and> timestamp env \<le> proposal_expires_at q)"
proof -
  note wf = rematch_wfD [OF rematch_run_wf [OF assms(1)]]
  from links_okD(4) [OF wf(5), of m' y m] assms(2,3)
  obtain x where x: "MatchAt s m = Some x" "successor_match_id x = Some m'" by auto
  with links_okD(2,3) [OF wf(5), of m x] assms(2)
  have over: "status x = MatchStatus.Superseded" "succeeds (records_of s) m x y" by auto
  then obtain r q where q: "RequestAt s r = Some q" "request_match q = m" "request_status q = Superseded"
    "successor q = Some (mentor y)" unfolding succeeds_def records_of_simps by blast
  with approved_by_mentee [OF assms(1)] have "mentee_approved s r m (Some (mentor y))" by metis
  then obtain env u u' p z where call: "rematch_step\<^sup>*\<^sup>* rematch_init u" "approve_successor env (mentee z) r u = Ok u'"
    "rematch_step\<^sup>*\<^sup>* u' s" "auth env (mentee z)" "MatchAt u m = Some z" "RequestAt u r = Some p" "request_match p = m"
    "request_status p = SuccessorProposed" "successor p = Some (mentor y)" "timestamp env \<le> proposal_expires_at p"
    unfolding mentee_approved_def by blast
  have "rematch_step u u'" by (rule rematch_step.call [of env "ApproveSuccessor (mentee z) r"]) (simp add: call(2))
  with call(3) have "rematch_step\<^sup>*\<^sup>* u s" by (rule converse_rtranclp_into_rtranclp [rotated])
  from rematch.run_evolves [OF this rematch_run_wf [OF call(1)]] call(5) x(1) have "mentee z = mentee x"
    by (fastforce simp: records_evolve_def kept_def match_evolves_def)
  with call have "\<exists>env u u' q. rematch_step\<^sup>*\<^sup>* rematch_init u \<and> approve_successor env (mentee x) r u = Ok u' \<and>
      rematch_step\<^sup>*\<^sup>* u' s \<and> auth env (mentee x) \<and> RequestAt u r = Some q \<and> request_match q = m \<and>
      request_status q = SuccessorProposed \<and> successor q = Some (mentor y) \<and> timestamp env \<le> proposal_expires_at q"
    by fastforce
  moreover have "mentee y = mentee x \<and> agreement_id y = agreement_id x \<and> mentor y \<noteq> mentor x"
    using over(2) by (simp add: succeeds_def)
  ultimately show ?thesis using x over(1) by blast
qed

theorem successor_needs_mentee_witness:
  "\<exists>env r u u' q. approve_successor env 3 r u = Ok u' \<and> rematch_step\<^sup>*\<^sup>* u' demo_superseded \<and> auth env 3 \<and>
    RequestAt u r = Some q \<and> successor q = Some 4 \<and> timestamp env \<le> proposal_expires_at q"
proof -
  let ?y = "demo_match\<lparr>match_id := [11], mentor := 4, superseded_match_id := Some [5], created_at := 60\<rparr>"
  have y: "MatchAt demo_superseded [11] = Some ?y" "superseded_match_id ?y = Some [5]" "mentor ?y = 4" "mentee ?y = 3"
    by (simp_all add: demo_superseded_def demo_match_def)
  from successor_needs_mentee [OF demo_superseded_reachable y(1,2)] obtain x env r u u' q
    where "mentee (x :: MatchRecord) = 3" "approve_successor env (mentee x) r u = Ok u'" "rematch_step\<^sup>*\<^sup>* u' demo_superseded"
      "auth env (mentee x)" "RequestAt u r = Some q" "successor q = Some 4" "timestamp env \<le> proposal_expires_at q"
    unfolding y(3,4) by (elim exE conjE) (rule that [OF sym]; assumption)
  then show ?thesis by (intro exI conjI; simp)
qed

end
