(* ===== verification/Rematch_Chains.thy ===== *)
theory Rematch_Chains
  imports Rematch_Properties
begin

text \<open>
  More properties of the rematch contract: the walk from a match to the one that is current ends, records are
  kept, a pending request can be brought to an end unless a case is open, and the findings.
\<close>

section \<open>The current match\<close>

text \<open>A reader follows the successor pointers, for at most the given number of records.\<close>

fun current_match :: "nat \<Rightarrow> rematch_state \<Rightarrow> hash32 \<Rightarrow> hash32 option" where
  "current_match 0 s m = None"
| "current_match (Suc n) s m =
     (case get_match s m of
        Ok x \<Rightarrow> (case successor_match_id x of None \<Rightarrow> Some m | Some m' \<Rightarrow> current_match n s m')
      | _ \<Rightarrow> None)"

lemma reach_shrinks:
  assumes "acyclic r" "(m, m') \<in> r"
  shows "r\<^sup>* `` {m'} \<subset> r\<^sup>* `` {m}"
proof -
  have "r\<^sup>* `` {m'} \<subseteq> r\<^sup>* `` {m}" using assms(2) by (auto intro: converse_rtrancl_into_rtrancl)
  moreover have "m \<notin> r\<^sup>* `` {m'}"
    using assms by (auto simp: acyclic_def dest: rtrancl_into_trancl2)
  ultimately show ?thesis by auto
qed

lemma reach_stored:
  assumes "links_ok c" "matches c m \<noteq> None"
  shows "(edges (matches c))\<^sup>* `` {m} \<subseteq> dom (matches c)"
proof
  fix k
  assume "k \<in> (edges (matches c))\<^sup>* `` {m}"
  then have "(m, k) \<in> (edges (matches c))\<^sup>*" by simp
  then show "k \<in> dom (matches c)"
  proof (induction rule: rtrancl_induct)
    case (step k k')
    then obtain x where "matches c k = Some x" "successor_match_id x = Some k'" by (auto simp: edges_def)
    from links_okD(3) [OF assms(1) this] show ?case by auto
  qed (use assms(2) in auto)
qed

lemma current_match_reached:
  assumes "links_ok (records_of s)" "finite (dom (MatchAt s))"
  shows "MatchAt s m = Some x \<Longrightarrow> card ((edges (MatchAt s))\<^sup>* `` {m}) \<le> n \<Longrightarrow>
    \<exists>k y. current_match n s m = Some k \<and> MatchAt s k = Some y \<and> successor_match_id y = None \<and>
      mentee y = mentee x \<and> agreement_id y = agreement_id x"
proof (induction n arbitrary: m x)
  case 0
  have "finite ((edges (MatchAt s))\<^sup>* `` {m})"
    by (rule finite_subset [OF _ assms(2)]) (use reach_stored [OF assms(1), of m] 0(1) in simp)
  with 0(2) show ?case by auto
next
  case (Suc n)
  show ?case
  proof (cases "successor_match_id x")
    case None
    with Suc.prems(1) show ?thesis by (simp add: get_match_def load_match_def)
  next
    case (Some m')
    with links_okD(3) [OF assms(1), of m x m'] Suc.prems(1)
    obtain y where y: "MatchAt s m' = Some y" "mentee y = mentee x" "agreement_id y = agreement_id x"
      by (auto simp: succeeds_def)
    have "finite ((edges (MatchAt s))\<^sup>* `` {m})"
      by (rule finite_subset [OF _ assms(2)]) (use reach_stored [OF assms(1), of m] Suc.prems(1) in simp)
    moreover have "(m, m') \<in> edges (MatchAt s)" using Suc.prems(1) Some by (simp add: edges_def)
    then have "(edges (MatchAt s))\<^sup>* `` {m'} \<subset> (edges (MatchAt s))\<^sup>* `` {m}"
      using links_okD(1) [OF assms(1)] by (intro reach_shrinks) simp_all
    ultimately have "card ((edges (MatchAt s))\<^sup>* `` {m'}) < card ((edges (MatchAt s))\<^sup>* `` {m})"
      by (rule psubset_card_mono)
    with Suc.prems(2) have "card ((edges (MatchAt s))\<^sup>* `` {m'}) \<le> n" by simp
    from Suc.IH [OF y(1) this] y(2,3) Suc.prems(1) Some show ?thesis
      by (simp add: get_match_def load_match_def)
  qed
qed

text \<open>
  C28. Following the successors of a match ends. In every reachable state the walk from any stored match reaches, in
  no more steps than there are matches, one that has not been superseded, with the same mentee and agreement.
\<close>

theorem successors_end:
  assumes "rematch_step\<^sup>*\<^sup>* rematch_init s" and "get_match s m = Ok x"
  shows "\<exists>k y. current_match (card (dom (MatchAt s))) s m = Some k \<and> get_match s k = Ok y \<and>
    status y \<noteq> MatchStatus.Superseded \<and> mentee y = mentee x \<and> agreement_id y = agreement_id x"
proof -
  note wf = rematch_wfD [OF rematch_run_wf [OF assms(1)]]
  have fin: "finite (dom (MatchAt s))" using keys_okD(1) [OF wf(2)] by simp
  have x: "MatchAt s m = Some x" using assms(2) by (simp add: get_match_def outcome_iff)
  then have "card ((edges (MatchAt s))\<^sup>* `` {m}) \<le> card (dom (MatchAt s))"
    using reach_stored [OF wf(5), of m] by (intro card_mono fin) simp
  from current_match_reached [OF wf(5) fin x this] obtain k y
    where k: "current_match (card (dom (MatchAt s))) s m = Some k" "MatchAt s k = Some y" "successor_match_id y = None"
      "mentee y = mentee x" "agreement_id y = agreement_id x" by blast
  moreover have "status y \<noteq> MatchStatus.Superseded" using links_okD(2) [OF wf(5), of k y] k(2,3) by simp
  ultimately show ?thesis by (simp add: get_match_def load_match_def)
qed

theorem successors_end_witness:
  "\<exists>k y. current_match (card (dom (MatchAt demo_superseded))) demo_superseded [5] = Some k \<and>
     get_match demo_superseded k = Ok y \<and> mentee y = 3"
proof -
  let ?x = "demo_match\<lparr>status := MatchStatus.Superseded, successor_match_id := Some [11], closed_at := 60\<rparr>"
  have "get_match demo_superseded [5] = Ok ?x" "mentee ?x = 3"
    by (simp_all add: demo_superseded_def demo_match_def get_match_def load_match_def)
  with successors_end [OF demo_superseded_reachable this(1)] show ?thesis by metis
qed

section \<open>Records are kept\<close>

text \<open>
  Nothing is erased. In every later state a match and a request are still stored with their participants,
  agreement, reason and commitments; once they have ended they do not change at all, and the history of a match
  only grows.
\<close>

theorem rematch_records_kept:
  assumes "rematch_step\<^sup>*\<^sup>* rematch_init s" and "rematch_step\<^sup>*\<^sup>* s t"
  shows "(get_match s m = Ok x \<longrightarrow> (\<exists>y. get_match t m = Ok y \<and> match_evolves x y)) \<and>
    (RequestAt s r = Some p \<longrightarrow> (\<exists>q. RequestAt t r = Some q \<and> request_evolves p q)) \<and>
    (match_requests s m = Ok ids \<longrightarrow> (\<exists>new. match_requests t m = Ok (ids @ new)))"
proof -
  have *: "records_evolve (records_of s) (records_of t)"
    by (rule rematch.run_evolves [OF assms(2) rematch_run_wf [OF assms(1)]])
  show ?thesis
  proof (intro conjI impI)
    assume "get_match s m = Ok x"
    with * show "\<exists>y. get_match t m = Ok y \<and> match_evolves x y"
      by (auto simp: records_evolve_def kept_def get_match_def load_match_def outcome_iff)
  next
    assume "RequestAt s r = Some p"
    with * show "\<exists>q. RequestAt t r = Some q \<and> request_evolves p q" by (auto simp: records_evolve_def kept_def)
  next
    assume "match_requests s m = Ok ids"
    with * show "\<exists>new. match_requests t m = Ok (ids @ new)" by (auto simp: records_evolve_def match_requests_def)
  qed
qed

theorem rematch_records_kept_witness: "\<exists>q. RequestAt demo_superseded [6] = Some q \<and> reason_hash q = [1]"
proof -
  have "RequestAt demo_superseded [6] = Some (demo_request\<lparr>request_status := Superseded, successor_approved_at := 50, request_closed_at := 60\<rparr>)"
    by (simp add: demo_superseded_def)
  with rematch_records_kept [OF demo_superseded_reachable rtranclp.rtrancl_refl, of "[5]" _ "[6]"] show ?thesis
    by (auto simp: request_evolves_def demo_request_def)
qed

section \<open>Open cases and closure\<close>

definition case_open :: "rematch_state \<Rightarrow> hash32 \<Rightarrow> bool" where
  "case_open s m \<longleftrightarrow> (case get_case_flags s m of Ok f \<Rightarrow> financial_open f \<or> safety_open f | _ \<Rightarrow> False)"

lemma require_no_open_cases_eq:
  "MatchAt s m = Some x \<Longrightarrow> require_no_open_cases s m = (if case_open s m then Err UnsafeClosureBlocked else Ok ())"
  by (simp add: require_no_open_cases_def case_open_def get_case_flags_def load_match_def Let_def)

lemma close_engagement_eq:
  assumes "keyed s" "a \<in> set (coordinators s)" "auth env a" "RequestAt s r = Some q" "MatchAt s (request_match q) = Some x"
    "request_status q = InReview \<or> request_status q = SuccessorProposed \<or> request_status q = ApprovedForClosure"
  shows "case_open s (request_match q) \<Longrightarrow> close_engagement env a r s = Err UnsafeClosureBlocked"
    "\<not> case_open s (request_match q) \<Longrightarrow> \<exists>t. close_engagement env a r s = Ok t \<and> get_match t (request_match q) =
      Ok (x\<lparr>status := MatchStatus.Closed, closed_at := timestamp env\<rparr>)"
proof -
  have key: "match_id x = request_match q" by (rule keyedD(1) [OF assms(1,5)])
  have guard: "require_coordinator env s a = Ok ()" using assms(2,3) by (simp add: outcome_iff)
  have load: "load_request s r = Ok q" "load_match s (request_match q) = Ok x"
    using assms(4,5) by (simp_all add: load_request_def load_match_def)
  note eqs = close_engagement_def guard load and_then.simps key require_no_open_cases_eq [OF assms(5)] Let_def
  show "case_open s (request_match q) \<Longrightarrow> close_engagement env a r s = Err UnsafeClosureBlocked"
    using assms(6) by (auto simp: eqs)
  let ?t = "bump_stats count_closed (put_request (q\<lparr>request_status := Closed, request_closed_at := timestamp env\<rparr>)
    (put_match (x\<lparr>status := MatchStatus.Closed, closed_at := timestamp env\<rparr>) s))"
  assume "\<not> case_open s (request_match q)"
  then have "close_engagement env a r s = Ok ?t" using assms(6) by (auto simp: eqs)
  moreover have "get_match ?t (request_match q) = Ok (x\<lparr>status := MatchStatus.Closed, closed_at := timestamp env\<rparr>)"
    using key by (simp add: get_match_def load_match_def put_match_def put_request_def bump_stats_def)
  ultimately show "\<exists>t. close_engagement env a r s = Ok t \<and> get_match t (request_match q) =
      Ok (x\<lparr>status := MatchStatus.Closed, closed_at := timestamp env\<rparr>)" by blast
qed

text \<open>
  A coordinator can always end a pending request, unless a case is open. For every pending request the closure
  of the engagement, after starting the review if that has not happened, succeeds and closes the match when no
  financial or safety case is open; while one is, closing fails with \<open>UnsafeClosureBlocked\<close>, and so does
  superseding the match.
\<close>

theorem pending_request_closable:
  assumes "rematch_step\<^sup>*\<^sup>* rematch_init s" and "is_coordinator s a" and "auth env a"
    and "RequestAt s r = Some q" and "pending (request_status q)"
  shows "(case_open s (request_match q) \<longrightarrow> \<not> is_ok (close_engagement env a r s) \<and>
      (\<forall>m'. \<not> is_ok (apply_successor env a r m' s))) \<and>
    (case_open s (request_match q) \<and> request_status q = ApprovedForClosure \<longrightarrow>
      close_engagement env a r s = Err UnsafeClosureBlocked \<and>
      (\<forall>m'. apply_successor env a r m' s = Err UnsafeClosureBlocked)) \<and>
    (\<not> case_open s (request_match q) \<longrightarrow>
      (\<exists>cs t x. run_calls rematch_exec (map (Pair env) cs) s = Ok t \<and> length cs \<le> 2 \<and>
        get_match t (request_match q) = Ok x \<and> status x = MatchStatus.Closed))"
proof -
  note run = rematch_run_wf [OF assms(1)]
  note keyed = rematch_wf_keyed [OF run]
  have co: "a \<in> set (coordinators s)" using assms(2) by (simp add: is_coordinator_def coordinators_def)
  then have guard: "require_coordinator env s a = Ok ()" using assms(3) by (simp add: outcome_iff)
  have "request_ok (records_of s) r q" using rematch_wfD(3) [OF run] assms(4) by (simp add: requests_ok_def)
  then obtain x where x: "MatchAt s (request_match q) = Some x" by (auto simp: request_ok_def)
  have key: "match_id x = request_match q" "request_id q = r"
    using keyedD(1) [OF keyed x] keyedD(2) [OF keyed assms(4)] by simp_all
  have load: "load_request s r = Ok q" "load_match s (request_match q) = Ok x"
    using assms(4) x by (simp_all add: load_request_def load_match_def)
  note eqs = guard load and_then.simps key require_no_open_cases_eq [OF x]
  note close = close_engagement_eq [OF keyed co assms(3,4) x]
  show ?thesis
  proof (intro conjI impI allI)
    assume *: "case_open s (request_match q)"
    show "\<not> is_ok (close_engagement env a r s)"
      using * by (simp add: is_ok_iff close_engagement_def eqs)
    show "\<not> is_ok (apply_successor env a r m' s)" for m'
      using * by (simp add: is_ok_iff apply_successor_def eqs)
  next
    assume *: "case_open s (request_match q) \<and> request_status q = ApprovedForClosure"
    then show "close_engagement env a r s = Err UnsafeClosureBlocked" using close(1) by simp
    show "apply_successor env a r m' s = Err UnsafeClosureBlocked" for m'
      using * by (simp add: apply_successor_def eqs)
  next
    assume free: "\<not> case_open s (request_match q)"
    show "\<exists>cs t x. run_calls rematch_exec (map (Pair env) cs) s = Ok t \<and> length cs \<le> 2 \<and>
        get_match t (request_match q) = Ok x \<and> status x = MatchStatus.Closed"
    proof (cases "request_status q = Open")
      case False
      with assms(5) close(2) [OF _ free] obtain t where "close_engagement env a r s = Ok t"
        "get_match t (request_match q) = Ok (x\<lparr>status := MatchStatus.Closed, closed_at := timestamp env\<rparr>)"
        by (auto simp: pending_def)
      then show ?thesis by (intro exI [of _ "[CloseEngagement a r]"] exI [of _ t]) simp
    next
      case True
      let ?q = "q\<lparr>request_status := InReview, review_started_at := timestamp env\<rparr>"
      let ?s = "put_request ?q s"
      have start: "start_review env a r s = Ok ?s" by (simp add: start_review_def eqs True)
      have keyed': "keyed ?s" using rematch_wf_keyed [OF rematch_exec_wf [OF _ run, of env "StartReview a r"]] start by simp
      have "a \<in> set (coordinators ?s)" "MatchAt ?s (request_match ?q) = Some x" "RequestAt ?s r = Some ?q"
        "case_open ?s (request_match ?q) = case_open s (request_match q)"
        using co x key by (simp_all add: put_request_def coordinators_def case_open_def get_case_flags_def load_match_def)
      with close_engagement_eq(2) [OF keyed' _ assms(3), of r ?q x] free
      obtain t where "close_engagement env a r ?s = Ok t"
        "get_match t (request_match q) = Ok (x\<lparr>status := MatchStatus.Closed, closed_at := timestamp env\<rparr>)" by auto
      with start show ?thesis
        by (intro exI [of _ "[StartReview a r, CloseEngagement a r]"] exI [of _ t]) simp
    qed
  qed
qed

theorem pending_request_closable_witness:
  "\<exists>cs t x. run_calls rematch_exec (map (Pair (rematch_env 50)) cs) demo_proposed = Ok t \<and> length cs \<le> 2 \<and>
     get_match t [5] = Ok x \<and> status x = MatchStatus.Closed"
  using pending_request_closable [OF demo_rematch_reachable, of 1 "rematch_env 50" "[6]" demo_request]
  by (simp add: is_coordinator_def demo_proposed_def demo_request_def rematch_env_def case_open_def get_case_flags_def
      load_match_def no_cases_def)

section \<open>Findings\<close>

text \<open>
  An approval is not bound to a proposal. The mentee was offered mentor 4; a coordinator replaces the proposal by
  mentor 6, and the call in which the mentee approves the first offer approves the second.
\<close>

theorem swapped_successor_approved:
  "\<exists>s t q. rematch_exec (rematch_env 50) (ProposeSuccessor 1 [6] 6 [9]) demo_proposed = Ok s \<and>
    (\<exists>u p. approve_successor (rematch_env 50) 3 [6] demo_proposed = Ok u \<and> RequestAt u [6] = Some p \<and> successor p = Some 4) \<and>
    approve_successor (rematch_env 50) 3 [6] s = Ok t \<and> RequestAt t [6] = Some q \<and>
    request_status q = ApprovedForClosure \<and> successor q = Some 6"
  by (simp add: rematch_call_defs demo_rematch_defs del: One_nat_def)

text \<open>
  A repeated request is not idempotent. The same request with the same payload, repeated after its match was
  closed, fails with \<open>MatchNotActive\<close> instead of returning the existing request.
\<close>

theorem repeated_request_fails:
  "\<exists>s. request_rematch (rematch_env 50) 3 [5] [6] AvailabilityChange [1] [2] demo_proposed = Ok demo_proposed \<and>
    close_engagement (rematch_env 60) 1 [6] demo_proposed = Ok s \<and>
    request_rematch (rematch_env 70) 3 [5] [6] AvailabilityChange [1] [2] s = Err MatchNotActive"
  by (simp add: rematch_call_defs demo_rematch_defs not_zero del: One_nat_def)

end
