(* ===== verification/Mentorship_Conduct.thy ===== *)
theory Mentorship_Conduct
  imports Transition_Systems
begin

text \<open>
  \<open>contracts/mentorship-conduct/src/lib.rs\<close>: versioned codes of conduct. The admin publishes policy versions for
  mentors, mentees or both; participants accept versions in a role; an engagement becomes active only if
  both parties are current; breaches are recorded against a policy version.
\<close>

section \<open>State\<close>

datatype ContractError =
    NotInitialized | AlreadyInitialized | NotAdmin | NotAuthorized | PolicyNotFound | PolicyVersionOutOfSequence
  | PolicyRetired | PolicyNotApplicable | InvalidPolicyHash | PolicyAlreadyRetired | PolicyVersionCapReached
  | AcceptanceRequired | AcceptanceNotFound | EngagementNotFound | EngagementAlreadyExists
  | EngagementNotPending | EngagementNotActive | EngagementNotSuspended | InvalidParties | InvalidEngagementId
  | BreachAlreadyRecorded | BreachNotFound | BreachAlreadyResolved | VersionOverflow | InvalidEffectiveTime
  | InvalidEvidenceHash

definition CONTRACT_VERSION :: nat where
  "CONTRACT_VERSION = 1"

definition MAX_POLICY_VERSION :: nat where
  "MAX_POLICY_VERSION = 1000"

datatype Role = Mentor | Mentee

datatype Audience = ForMentor | ForMentee | Both

definition applies_to :: "Audience \<Rightarrow> Role \<Rightarrow> bool" where
  "applies_to audience role =
     (case (audience, role) of (Both, _) \<Rightarrow> True | (ForMentor, Mentor) \<Rightarrow> True | (ForMentee, Mentee) \<Rightarrow> True | _ \<Rightarrow> False)"

record Policy =
  version :: nat
  audience :: Audience
  policy_hash :: hash32
  effective_at :: nat
  mandatory :: bool
  published_at :: nat
  retired :: bool

record Acceptance =
  actor :: address
  role :: Role
  accepted_version :: nat
  accepted_hash :: hash32
  accepted_at :: nat

datatype EngagementState = Pending | Active | Suspended | Ended

record Engagement =
  engagement_id :: hash32
  mentor :: address
  mentee :: address
  state :: EngagementState
  mentor_policy_version :: nat
  mentee_policy_version :: nat
  created_at :: nat
  activated_at :: nat
  updated_at :: nat

datatype BreachSeverity = Low | Medium | High | Critical

record BreachRecord =
  case_ref :: hash32
  subject :: address
  breached_version :: nat
  severity :: BreachSeverity
  evidence_hash :: hash32
  recorded_at :: nat
  resolved :: bool
  resolved_at :: nat

record conduct_state =
  Admin :: "address option"
  PolicyVersion :: "nat option"
  LatestPolicy :: "Role \<rightharpoonup> nat"
  PolicyAt :: "nat \<rightharpoonup> Policy"
  AcceptanceAt :: "address \<times> nat \<times> Role \<rightharpoonup> Acceptance"
  EngagementAt :: "hash32 \<rightharpoonup> Engagement"
  BreachAt :: "hash32 \<rightharpoonup> BreachRecord"

definition conduct_init :: conduct_state where
  "conduct_init = \<lparr>Admin = None, PolicyVersion = None, LatestPolicy = Map.empty, PolicyAt = Map.empty,
     AcceptanceAt = Map.empty, EngagementAt = Map.empty, BreachAt = Map.empty\<rparr>"

text \<open>The commitment of 32 zero bytes, which no record may carry.\<close>

definition zero_hash :: hash32 where
  "zero_hash = replicate 32 0"

section \<open>Policies\<close>

definition initialize :: "env \<Rightarrow> address \<Rightarrow> conduct_state \<Rightarrow> (ContractError, conduct_state) outcome" where
  "initialize env a s =
     (if Admin s \<noteq> None then Err AlreadyInitialized
      else and_then (require_auth env a) (\<lambda>_. Ok (s\<lparr>Admin := Some a\<rparr>)))"

definition require_admin :: "env \<Rightarrow> conduct_state \<Rightarrow> address \<Rightarrow> (ContractError, unit) outcome" where
  "require_admin env s caller =
     and_then (ok_or (Admin s) NotInitialized) (\<lambda>admin.
     if caller \<noteq> admin then Err NotAdmin else require_auth env caller)"

definition load_policy :: "conduct_state \<Rightarrow> nat \<Rightarrow> (ContractError, Policy) outcome" where
  "load_policy s v = ok_or (PolicyAt s v) PolicyNotFound"

definition latest_policy_for_role :: "conduct_state \<Rightarrow> Role \<Rightarrow> (ContractError, Policy) outcome" where
  "latest_policy_for_role s r = and_then (ok_or (LatestPolicy s r) PolicyNotFound) (load_policy s)"

definition record_latest :: "Policy \<Rightarrow> conduct_state \<Rightarrow> conduct_state" where
  "record_latest policy s =
     (let s = (if applies_to (audience policy) Mentor
               then s\<lparr>LatestPolicy := (LatestPolicy s)(Mentor \<mapsto> version policy)\<rparr> else s)
      in if applies_to (audience policy) Mentee
         then s\<lparr>LatestPolicy := (LatestPolicy s)(Mentee \<mapsto> version policy)\<rparr> else s)"

definition publish_policy ::
  "env \<Rightarrow> address \<Rightarrow> Audience \<Rightarrow> hash32 \<Rightarrow> nat \<Rightarrow> bool \<Rightarrow> conduct_state \<Rightarrow>
   (ContractError, nat \<times> conduct_state) outcome" where
  "publish_policy env admin aud h eff mand s =
     and_then (require_admin env s admin) (\<lambda>_.
     if h = zero_hash then Err InvalidPolicyHash
     else if eff = 0 then Err InvalidEffectiveTime
     else
       let current = unwrap_or (PolicyVersion s) 0 in
       and_then (ok_or (u32_checked (current + 1)) VersionOverflow) (\<lambda>v.
       if v > MAX_POLICY_VERSION then Err PolicyVersionCapReached
       else
         let policy = \<lparr>version = v, audience = aud, policy_hash = h, effective_at = eff, mandatory = mand,
               published_at = timestamp env, retired = False\<rparr>;
             s = s\<lparr>PolicyAt := (PolicyAt s)(v \<mapsto> policy)\<rparr>;
             s = s\<lparr>PolicyVersion := Some v\<rparr>
         in Ok (v, record_latest policy s)))"

definition retire_policy :: "env \<Rightarrow> address \<Rightarrow> nat \<Rightarrow> conduct_state \<Rightarrow> (ContractError, conduct_state) outcome" where
  "retire_policy env admin v s =
     and_then (require_admin env s admin) (\<lambda>_.
     and_then (load_policy s v) (\<lambda>policy.
     if retired policy then Err PolicyAlreadyRetired
     else Ok (s\<lparr>PolicyAt := (PolicyAt s)(v \<mapsto> policy\<lparr>retired := True\<rparr>)\<rparr>)))"

definition get_policy :: "conduct_state \<Rightarrow> nat \<Rightarrow> (ContractError, Policy) outcome" where
  "get_policy s v = load_policy s v"

definition latest_policy :: "conduct_state \<Rightarrow> Role \<Rightarrow> (ContractError, Policy) outcome" where
  "latest_policy s r = latest_policy_for_role s r"

section \<open>Acceptance\<close>

definition has_accepted :: "conduct_state \<Rightarrow> address \<Rightarrow> nat \<Rightarrow> Role \<Rightarrow> bool" where
  "has_accepted s a v r = (AcceptanceAt s (a, v, r) \<noteq> None)"

definition accept_policy ::
  "env \<Rightarrow> address \<Rightarrow> nat \<Rightarrow> Role \<Rightarrow> conduct_state \<Rightarrow> (ContractError, conduct_state) outcome" where
  "accept_policy env a v r s =
     and_then (require_auth env a) (\<lambda>_.
     if has_accepted s a v r then Ok s
     else and_then (load_policy s v) (\<lambda>policy.
     if retired policy then Err PolicyRetired
     else if \<not> applies_to (audience policy) r then Err PolicyNotApplicable
     else
       let acceptance = \<lparr>actor = a, role = r, accepted_version = v, accepted_hash = policy_hash policy,
             accepted_at = timestamp env\<rparr>
       in Ok (s\<lparr>AcceptanceAt := (AcceptanceAt s)((a, v, r) \<mapsto> acceptance)\<rparr>)))"

definition get_acceptance ::
  "conduct_state \<Rightarrow> address \<Rightarrow> nat \<Rightarrow> Role \<Rightarrow> (ContractError, Acceptance) outcome" where
  "get_acceptance s a v r = ok_or (AcceptanceAt s (a, v, r)) AcceptanceNotFound"

definition verify_acceptance :: "conduct_state \<Rightarrow> address \<Rightarrow> nat \<Rightarrow> Role \<Rightarrow> hash32 \<Rightarrow> bool" where
  "verify_acceptance s a v r h =
     (case AcceptanceAt s (a, v, r) of Some acceptance \<Rightarrow> accepted_hash acceptance = h | None \<Rightarrow> False)"

definition requires_acknowledgement :: "conduct_state \<Rightarrow> address \<Rightarrow> Role \<Rightarrow> bool" where
  "requires_acknowledgement s a r =
     (case latest_policy_for_role s r of
        Ok policy \<Rightarrow> mandatory policy \<and> \<not> retired policy \<and> \<not> has_accepted s a (version policy) r
      | _ \<Rightarrow> False)"

definition require_current_acceptance :: "conduct_state \<Rightarrow> address \<Rightarrow> Role \<Rightarrow> (ContractError, nat) outcome" where
  "require_current_acceptance s a r =
     and_then (latest_policy_for_role s r) (\<lambda>policy.
     if retired policy then Err PolicyRetired
     else if \<not> mandatory policy then Ok (version policy)
     else if \<not> has_accepted s a (version policy) r then Err AcceptanceRequired
     else Ok (version policy))"

section \<open>Engagements\<close>

definition create_engagement ::
  "env \<Rightarrow> address \<Rightarrow> hash32 \<Rightarrow> address \<Rightarrow> address \<Rightarrow> conduct_state \<Rightarrow> (ContractError, conduct_state) outcome" where
  "create_engagement env caller i x y s =
     (if caller \<noteq> x \<and> caller \<noteq> y then Err NotAuthorized
      else if x = y then Err InvalidParties
      else if i = zero_hash then Err InvalidEngagementId
      else if EngagementAt s i \<noteq> None then Err EngagementAlreadyExists
      else and_then (require_auth env x) (\<lambda>_. and_then (require_auth env y) (\<lambda>_.
        let now = timestamp env;
            engagement = \<lparr>engagement_id = i, mentor = x, mentee = y, state = Pending, mentor_policy_version = 0,
              mentee_policy_version = 0, created_at = now, activated_at = 0, updated_at = now\<rparr>
        in Ok (s\<lparr>EngagementAt := (EngagementAt s)(i \<mapsto> engagement)\<rparr>))))"

definition load_engagement :: "conduct_state \<Rightarrow> hash32 \<Rightarrow> (ContractError, Engagement) outcome" where
  "load_engagement s i = ok_or (EngagementAt s i) EngagementNotFound"

definition activate_engagement ::
  "env \<Rightarrow> address \<Rightarrow> hash32 \<Rightarrow> conduct_state \<Rightarrow> (ContractError, conduct_state) outcome" where
  "activate_engagement env caller i s =
     and_then (require_auth env caller) (\<lambda>_.
     and_then (load_engagement s i) (\<lambda>engagement.
     if caller \<noteq> mentor engagement \<and> caller \<noteq> mentee engagement then Err NotAuthorized
     else if state engagement \<noteq> Pending then Err EngagementNotPending
     else
       and_then (require_current_acceptance s (mentor engagement) Mentor) (\<lambda>mentor_version.
       and_then (require_current_acceptance s (mentee engagement) Mentee) (\<lambda>mentee_version.
       let now = timestamp env;
           engagement = engagement\<lparr>state := Active, mentor_policy_version := mentor_version,
             mentee_policy_version := mentee_version, activated_at := now, updated_at := now\<rparr>
       in Ok (s\<lparr>EngagementAt := (EngagementAt s)(i \<mapsto> engagement)\<rparr>)))))"

text \<open>The loop of \<open>engagement_compliant\<close> over the parties.\<close>

fun parties_loop :: "conduct_state \<Rightarrow> (address \<times> Role) list \<Rightarrow> bool" where
  "parties_loop s [] = True"
| "parties_loop s ((a, r) # rest) =
     (case latest_policy_for_role s r of
        Ok policy \<Rightarrow>
          if retired policy then False
          else if mandatory policy \<and> \<not> has_accepted s a (version policy) r then False
          else parties_loop s rest
      | _ \<Rightarrow> False)"

definition engagement_compliant :: "conduct_state \<Rightarrow> hash32 \<Rightarrow> bool" where
  "engagement_compliant s i =
     (case load_engagement s i of
        Ok engagement \<Rightarrow>
          if state engagement \<noteq> Active then False
          else parties_loop s [(mentor engagement, Mentor), (mentee engagement, Mentee)]
      | _ \<Rightarrow> False)"

definition get_engagement :: "conduct_state \<Rightarrow> hash32 \<Rightarrow> (ContractError, Engagement) outcome" where
  "get_engagement s i = load_engagement s i"

definition suspend_engagement ::
  "env \<Rightarrow> address \<Rightarrow> hash32 \<Rightarrow> conduct_state \<Rightarrow> (ContractError, conduct_state) outcome" where
  "suspend_engagement env admin i s =
     and_then (require_admin env s admin) (\<lambda>_.
     and_then (load_engagement s i) (\<lambda>engagement.
     if state engagement \<noteq> Active then Err EngagementNotActive
     else
       let engagement = engagement\<lparr>state := Suspended, updated_at := timestamp env\<rparr>
       in Ok (s\<lparr>EngagementAt := (EngagementAt s)(i \<mapsto> engagement)\<rparr>)))"

definition resume_engagement ::
  "env \<Rightarrow> address \<Rightarrow> hash32 \<Rightarrow> conduct_state \<Rightarrow> (ContractError, conduct_state) outcome" where
  "resume_engagement env caller i s =
     and_then (require_auth env caller) (\<lambda>_.
     and_then (load_engagement s i) (\<lambda>engagement.
     if caller \<noteq> mentor engagement \<and> caller \<noteq> mentee engagement then Err NotAuthorized
     else if state engagement \<noteq> Suspended then Err EngagementNotSuspended
     else
       and_then (require_current_acceptance s (mentor engagement) Mentor) (\<lambda>mentor_version.
       and_then (require_current_acceptance s (mentee engagement) Mentee) (\<lambda>mentee_version.
       let engagement = engagement\<lparr>mentor_policy_version := mentor_version,
             mentee_policy_version := mentee_version, state := Active, updated_at := timestamp env\<rparr>
       in Ok (s\<lparr>EngagementAt := (EngagementAt s)(i \<mapsto> engagement)\<rparr>)))))"

definition end_engagement ::
  "env \<Rightarrow> address \<Rightarrow> hash32 \<Rightarrow> conduct_state \<Rightarrow> (ContractError, conduct_state) outcome" where
  "end_engagement env caller i s =
     and_then (require_auth env caller) (\<lambda>_.
     and_then (load_engagement s i) (\<lambda>engagement.
     if caller \<noteq> mentor engagement \<and> caller \<noteq> mentee engagement then Err NotAuthorized
     else if state engagement = Ended then Err EngagementNotActive
     else
       let engagement = engagement\<lparr>state := Ended, updated_at := timestamp env\<rparr>
       in Ok (s\<lparr>EngagementAt := (EngagementAt s)(i \<mapsto> engagement)\<rparr>)))"

section \<open>Breaches\<close>

definition record_breach ::
  "env \<Rightarrow> address \<Rightarrow> hash32 \<Rightarrow> address \<Rightarrow> nat \<Rightarrow> BreachSeverity \<Rightarrow> hash32 \<Rightarrow> conduct_state \<Rightarrow>
   (ContractError, conduct_state) outcome" where
  "record_breach env admin ref sub v sev eh s =
     and_then (require_admin env s admin) (\<lambda>_.
     if eh = zero_hash then Err InvalidEvidenceHash
     else and_then (load_policy s v) (\<lambda>_.
     if BreachAt s ref \<noteq> None then Err BreachAlreadyRecorded
     else
       let record = \<lparr>case_ref = ref, subject = sub, breached_version = v, severity = sev, evidence_hash = eh,
             recorded_at = timestamp env, resolved = False, resolved_at = 0\<rparr>
       in Ok (s\<lparr>BreachAt := (BreachAt s)(ref \<mapsto> record)\<rparr>)))"

definition resolve_breach :: "env \<Rightarrow> address \<Rightarrow> hash32 \<Rightarrow> conduct_state \<Rightarrow> (ContractError, conduct_state) outcome" where
  "resolve_breach env admin ref s =
     and_then (require_admin env s admin) (\<lambda>_.
     and_then (ok_or (BreachAt s ref) BreachNotFound) (\<lambda>record.
     if resolved record then Err BreachAlreadyResolved
     else
       let record = record\<lparr>resolved := True, resolved_at := timestamp env\<rparr>
       in Ok (s\<lparr>BreachAt := (BreachAt s)(ref \<mapsto> record)\<rparr>)))"

definition get_breach :: "conduct_state \<Rightarrow> hash32 \<Rightarrow> (ContractError, BreachRecord) outcome" where
  "get_breach s ref = ok_or (BreachAt s ref) BreachNotFound"

fun accepted_loop :: "conduct_state \<Rightarrow> address \<Rightarrow> Role \<Rightarrow> nat list \<Rightarrow> nat list \<Rightarrow> nat list" where
  "accepted_loop s a r [] accepted = accepted"
| "accepted_loop s a r (v # rest) accepted =
     accepted_loop s a r rest (if has_accepted s a v r then accepted @ [v] else accepted)"

definition accepted_versions :: "conduct_state \<Rightarrow> address \<Rightarrow> Role \<Rightarrow> nat list \<Rightarrow> nat list" where
  "accepted_versions s a r vs = accepted_loop s a r vs []"

definition contract_version :: nat where
  "contract_version = CONTRACT_VERSION"

section \<open>Calls and steps\<close>

datatype conduct_call =
    Initialize address | PublishPolicy address Audience hash32 nat bool | RetirePolicy address nat
  | AcceptPolicy address nat Role | CreateEngagement address hash32 address address
  | ActivateEngagement address hash32 | SuspendEngagement address hash32 | ResumeEngagement address hash32
  | EndEngagement address hash32 | RecordBreach address hash32 address nat BreachSeverity hash32
  | ResolveBreach address hash32

fun conduct_exec :: "env \<Rightarrow> conduct_call \<Rightarrow> conduct_state \<Rightarrow> (ContractError, conduct_state) outcome" where
  "conduct_exec env (Initialize a) s = initialize env a s"
| "conduct_exec env (PublishPolicy a u h e m) s = state_of (publish_policy env a u h e m s)"
| "conduct_exec env (RetirePolicy a v) s = retire_policy env a v s"
| "conduct_exec env (AcceptPolicy a v r) s = accept_policy env a v r s"
| "conduct_exec env (CreateEngagement c i x y) s = create_engagement env c i x y s"
| "conduct_exec env (ActivateEngagement c i) s = activate_engagement env c i s"
| "conduct_exec env (SuspendEngagement a i) s = suspend_engagement env a i s"
| "conduct_exec env (ResumeEngagement c i) s = resume_engagement env c i s"
| "conduct_exec env (EndEngagement c i) s = end_engagement env c i s"
| "conduct_exec env (RecordBreach a f u v g h) s = record_breach env a f u v g h s"
| "conduct_exec env (ResolveBreach a f) s = resolve_breach env a f s"

inductive conduct_step :: "conduct_state \<Rightarrow> conduct_state \<Rightarrow> bool" where
  call: "conduct_exec env c s = Ok t \<Longrightarrow> conduct_step s t"

inductive_cases conduct_stepE: "conduct_step s t"

end
