(* ===== verification/Conduct_Engagements.thy ===== *)
theory Conduct_Engagements
  imports Mentorship_Conduct
begin

text \<open>
  What the conduct contract guarantees: the registry finds the newest policy of a role, proofs of acceptance pin
  the policy text and are permanent, and running engagements rest on recorded consent.
\<close>

section \<open>Successful calls\<close>

lemma conduct_admin_Ok [outcome_iff]: "require_admin env s c = Ok u \<longleftrightarrow> Admin s = Some c \<and> auth env c"
  by (auto simp: require_admin_def outcome_iff)

lemma applies_to_simps [simp]:
  "applies_to Both r" "applies_to ForMentor r \<longleftrightarrow> r = Mentor" "applies_to ForMentee r \<longleftrightarrow> r = Mentee"
  by (cases r; simp add: applies_to_def)+

lemma publish_policy_Ok:
  assumes "publish_policy env adm aud h e m s = Ok (v, t)"
  obtains pol where "Admin s = Some adm" "auth env adm" "version pol = v" "audience pol = aud" "policy_hash pol = h"
    "h \<noteq> zero_hash" "mandatory pol = m" "\<not> retired pol" "v = unwrap_or (PolicyVersion s) 0 + 1" "v \<le> MAX_POLICY_VERSION"
    "t = s\<lparr>PolicyAt := (PolicyAt s)(v \<mapsto> pol), PolicyVersion := Some v,
       LatestPolicy := (\<lambda>r. if applies_to aud r then Some v else LatestPolicy s r)\<rparr>"
proof -
  define pol where "pol = \<lparr>version = v, audience = aud, policy_hash = h, effective_at = e, mandatory = m,
               published_at = timestamp env, retired = False\<rparr>"
  let ?s = "s\<lparr>PolicyAt := (PolicyAt s)(v \<mapsto> pol), PolicyVersion := Some v\<rparr>"
  from assms have *: "Admin s = Some adm" "auth env adm" "h \<noteq> zero_hash" "v = unwrap_or (PolicyVersion s) 0 + 1"
    "v \<le> MAX_POLICY_VERSION" "t = record_latest pol ?s"
    by (auto simp: publish_policy_def outcome_iff Let_def pol_def not_less)
  have "record_latest pol ?s = ?s\<lparr>LatestPolicy := (\<lambda>r. if applies_to aud r then Some v else LatestPolicy s r)\<rparr>"
    by (rule conduct_state.equality; cases aud)
      (auto simp: record_latest_def pol_def fun_eq_iff, (metis (full_types) Role.exhaust)+)
  with * show thesis by (intro that [of pol]) (simp_all add: pol_def)
qed

lemma retire_policy_Ok:
  assumes "retire_policy env adm v s = Ok t"
  obtains pol where "PolicyAt s v = Some pol" "\<not> retired pol"
    "t = s\<lparr>PolicyAt := (PolicyAt s)(v \<mapsto> pol\<lparr>retired := True\<rparr>)\<rparr>"
  using assms by (auto simp: retire_policy_def load_policy_def outcome_iff)

lemma accept_policy_Ok:
  assumes "accept_policy env a v r s = Ok t"
  obtains (again) "has_accepted s a v r" "t = s"
    | (first) pol where "auth env a" "\<not> has_accepted s a v r" "PolicyAt s v = Some pol" "\<not> retired pol"
      "applies_to (audience pol) r"
      "t = s\<lparr>AcceptanceAt := (AcceptanceAt s)((a, v, r) \<mapsto> \<lparr>actor = a, role = r, accepted_version = v,
         accepted_hash = policy_hash pol, accepted_at = timestamp env\<rparr>)\<rparr>"
  using assms by (auto simp: accept_policy_def load_policy_def outcome_iff Let_def split: if_splits)

text \<open>A participant is current: the newest policy of the role is in force and accepted if it is mandatory.\<close>

definition current :: "conduct_state \<Rightarrow> address \<Rightarrow> Role \<Rightarrow> nat \<Rightarrow> bool" where
  "current s a r v \<longleftrightarrow> LatestPolicy s r = Some v \<and>
     (\<exists>pol. PolicyAt s v = Some pol \<and> \<not> retired pol \<and> (mandatory pol \<longrightarrow> has_accepted s a (version pol) r) \<and>
        version pol = v)"

text \<open>The engagement after it was activated or resumed.\<close>

definition running :: "env \<Rightarrow> nat \<Rightarrow> nat \<Rightarrow> Engagement \<Rightarrow> Engagement" where
  "running env v w e = (if state e = Pending then e\<lparr>activated_at := timestamp env\<rparr> else e)
     \<lparr>state := Active, mentor_policy_version := v, mentee_policy_version := w, updated_at := timestamp env\<rparr>"

section \<open>The invariant\<close>

definition registry_ok :: "conduct_state \<Rightarrow> bool" where
  "registry_ok s \<longleftrightarrow> unwrap_or (PolicyVersion s) 0 \<le> MAX_POLICY_VERSION \<and>
     (\<forall>v. PolicyAt s v \<noteq> None \<longleftrightarrow> 1 \<le> v \<and> v \<le> unwrap_or (PolicyVersion s) 0) \<and>
     (\<forall>v pol. PolicyAt s v = Some pol \<longrightarrow> version pol = v \<and> policy_hash pol \<noteq> zero_hash)"

definition newest :: "conduct_state \<Rightarrow> Role \<Rightarrow> nat option \<Rightarrow> bool" where
  "newest s r m \<longleftrightarrow>
     (case m of
        None \<Rightarrow> \<forall>v pol. PolicyAt s v = Some pol \<longrightarrow> \<not> applies_to (audience pol) r
      | Some v \<Rightarrow> (\<exists>pol. PolicyAt s v = Some pol \<and> applies_to (audience pol) r) \<and>
          (\<forall>w pol. PolicyAt s w = Some pol \<longrightarrow> v < w \<longrightarrow> \<not> applies_to (audience pol) r))"

definition acceptance_ok :: "conduct_state \<Rightarrow> address \<Rightarrow> nat \<Rightarrow> Role \<Rightarrow> Acceptance \<Rightarrow> bool" where
  "acceptance_ok s a v r x \<longleftrightarrow> actor x = a \<and> role x = r \<and> accepted_version x = v \<and>
     (\<exists>pol. PolicyAt s v = Some pol \<and> applies_to (audience pol) r \<and> accepted_hash x = policy_hash pol)"

definition consented :: "conduct_state \<Rightarrow> address \<Rightarrow> Role \<Rightarrow> nat \<Rightarrow> bool" where
  "consented s a r v \<longleftrightarrow> (\<exists>pol. PolicyAt s v = Some pol \<and> applies_to (audience pol) r \<and>
     (mandatory pol \<longrightarrow> has_accepted s a v r))"

definition engagement_ok :: "conduct_state \<Rightarrow> hash32 \<Rightarrow> Engagement \<Rightarrow> bool" where
  "engagement_ok s i e \<longleftrightarrow> engagement_id e = i \<and> mentor e \<noteq> mentee e \<and>
     (state e \<in> {Active, Suspended} \<longrightarrow> consented s (mentor e) Mentor (mentor_policy_version e) \<and>
        consented s (mentee e) Mentee (mentee_policy_version e))"

definition conduct_wf :: "conduct_state \<Rightarrow> bool" where
  "conduct_wf s \<longleftrightarrow> registry_ok s \<and> (\<forall>r. newest s r (LatestPolicy s r)) \<and>
     (\<forall>a v r x. AcceptanceAt s (a, v, r) = Some x \<longrightarrow> acceptance_ok s a v r x) \<and>
     (\<forall>i e. EngagementAt s i = Some e \<longrightarrow> engagement_ok s i e) \<and>
     (\<forall>f b. BreachAt s f = Some b \<longrightarrow> case_ref b = f \<and> PolicyAt s (breached_version b) \<noteq> None)"

lemma conduct_wfD:
  assumes "conduct_wf s"
  shows "registry_ok s" "newest s r (LatestPolicy s r)"
    "AcceptanceAt s (a, v, r) = Some x \<Longrightarrow> acceptance_ok s a v r x"
    "EngagementAt s i = Some e \<Longrightarrow> engagement_ok s i e"
    "BreachAt s f = Some b \<Longrightarrow> case_ref b = f \<and> PolicyAt s (breached_version b) \<noteq> None"
  using assms unfolding conduct_wf_def by blast+

lemma conduct_init_wf: "conduct_wf conduct_init"
  by (simp add: conduct_wf_def registry_ok_def newest_def conduct_init_def)

lemma registry_bound:
  "registry_ok s \<Longrightarrow> PolicyAt s v = None \<longleftrightarrow> v = 0 \<or> unwrap_or (PolicyVersion s) 0 < v"
  unfolding registry_ok_def by (metis less_one linorder_not_less)

lemma stored_version: "conduct_wf s \<Longrightarrow> PolicyAt s v = Some pol \<Longrightarrow> version pol = v"
  using conduct_wfD(1) by (simp add: registry_ok_def)

lemma latest_stored:
  assumes "conduct_wf s" "LatestPolicy s r = Some v"
  obtains pol where "PolicyAt s v = Some pol" "applies_to (audience pol) r" "version pol = v"
  using conduct_wfD(2) [OF assms(1), of r] assms(2) stored_version [OF assms(1)] by (auto simp: newest_def)

lemma current_iff:
  assumes "conduct_wf s"
  shows "require_current_acceptance s a r = Ok v \<longleftrightarrow> current s a r v"
proof (cases "LatestPolicy s r")
  case (Some l)
  then obtain pol where "PolicyAt s l = Some pol" "version pol = l" by (rule latest_stored [OF assms])
  with Some show ?thesis
    by (auto simp: require_current_acceptance_def latest_policy_for_role_def load_policy_def current_def)
qed (simp add: require_current_acceptance_def latest_policy_for_role_def current_def)

lemma current_consented:
  assumes "conduct_wf s" "current s a r v"
  shows "consented s a r v"
proof -
  from assms(2) have "LatestPolicy s r = Some v" by (simp add: current_def)
  then obtain pol where "PolicyAt s v = Some pol" "applies_to (audience pol) r" by (rule latest_stored [OF assms(1)])
  with assms(2) show ?thesis by (auto simp: current_def consented_def)
qed

lemma activate_Ok:
  assumes "activate_engagement env c i s = Ok t \<or> resume_engagement env c i s = Ok t" "conduct_wf s"
  obtains e v w where "auth env c" "EngagementAt s i = Some e" "c = mentor e \<or> c = mentee e"
    "state e = Pending \<or> state e = Suspended" "current s (mentor e) Mentor v" "current s (mentee e) Mentee w"
    "t = s\<lparr>EngagementAt := (EngagementAt s)(i \<mapsto> running env v w e)\<rparr>"
  using assms(1)
proof
  assume "activate_engagement env c i s = Ok t"
  then obtain e v w where "auth env c" "EngagementAt s i = Some e" "c = mentor e \<or> c = mentee e"
    "state e = Pending" "current s (mentor e) Mentor v" "current s (mentee e) Mentee w"
    "t = s\<lparr>EngagementAt := (EngagementAt s)(i \<mapsto> e\<lparr>state := Active, mentor_policy_version := v,
      mentee_policy_version := w, activated_at := timestamp env, updated_at := timestamp env\<rparr>)\<rparr>"
    by (auto simp: activate_engagement_def load_engagement_def outcome_iff Let_def current_iff [OF assms(2)])
  then show thesis by (intro that [of e v w]; cases e) (simp_all add: running_def)
next
  assume "resume_engagement env c i s = Ok t"
  then obtain e v w where "auth env c" "EngagementAt s i = Some e" "c = mentor e \<or> c = mentee e"
    "state e = Suspended" "current s (mentor e) Mentor v" "current s (mentee e) Mentee w"
    "t = s\<lparr>EngagementAt := (EngagementAt s)(i \<mapsto> e\<lparr>mentor_policy_version := v,
      mentee_policy_version := w, state := Active, updated_at := timestamp env\<rparr>)\<rparr>"
    by (auto simp: resume_engagement_def load_engagement_def outcome_iff Let_def current_iff [OF assms(2)])
  then show thesis by (intro that [of e v w]; cases e) (simp_all add: running_def)
qed

section \<open>Preservation\<close>

lemma conduct_frame_wf:
  assumes "conduct_wf s" "PolicyVersion t = PolicyVersion s" "LatestPolicy t = LatestPolicy s" "PolicyAt t = PolicyAt s"
    and "\<And>a v r x. AcceptanceAt t (a, v, r) = Some x \<Longrightarrow> acceptance_ok s a v r x"
    and "\<And>k. AcceptanceAt s k \<noteq> None \<Longrightarrow> AcceptanceAt t k \<noteq> None"
    and "\<And>i e. EngagementAt t i = Some e \<Longrightarrow> engagement_ok s i e"
    and "\<And>f b. BreachAt t f = Some b \<Longrightarrow> case_ref b = f \<and> PolicyAt s (breached_version b) \<noteq> None"
  shows "conduct_wf t"
proof -
  have "registry_ok t" using conduct_wfD(1) [OF assms(1)] unfolding registry_ok_def assms(2,4) .
  moreover have "newest t r (LatestPolicy t r)" for r
    using conduct_wfD(2) [OF assms(1), of r] unfolding newest_def assms(3,4) .
  moreover have "acceptance_ok t a v r x" if "AcceptanceAt t (a, v, r) = Some x" for a v r x
    using assms(5) [OF that] by (simp add: acceptance_ok_def assms(4))
  moreover have "engagement_ok t i e" if "EngagementAt t i = Some e" for i e
    using assms(7) [OF that] assms(6)
    by (auto simp: engagement_ok_def consented_def assms(4) has_accepted_def simp del: not_None_eq)
  ultimately show ?thesis using assms(8) unfolding conduct_wf_def assms(4) by blast
qed

lemma engagement_write_wf:
  assumes "conduct_wf s" "engagement_ok s i e" "t = s\<lparr>EngagementAt := (EngagementAt s)(i \<mapsto> e)\<rparr>"
  shows "conduct_wf t"
  by (rule conduct_frame_wf [OF assms(1)])
    (use conduct_wfD(3-5) [OF assms(1)] assms(2) in \<open>auto simp: assms(3) split: if_splits\<close>)

lemma activate_wf:
  assumes "activate_engagement env c i s = Ok t \<or> resume_engagement env c i s = Ok t" "conduct_wf s"
  shows "conduct_wf t"
  using assms
proof (cases rule: activate_Ok)
  case (1 e v w)
  have "engagement_ok s i (running env v w e)"
    using conduct_wfD(4) [OF assms(2) 1(2)] current_consented [OF assms(2) 1(5)] current_consented [OF assms(2) 1(6)]
    by (simp add: engagement_ok_def running_def)
  then show ?thesis using engagement_write_wf [OF assms(2)] 1(7) by blast
qed

lemma stop_Ok:
  assumes "suspend_engagement env c i s = Ok t \<or> end_engagement env c i s = Ok t"
  obtains e st where "EngagementAt s i = Some e" "st = Suspended \<and> state e = Active \<or> st = Ended \<and> state e \<noteq> Ended"
    "t = s\<lparr>EngagementAt := (EngagementAt s)(i \<mapsto> e\<lparr>state := st, updated_at := timestamp env\<rparr>)\<rparr>"
  using assms
proof
  assume "suspend_engagement env c i s = Ok t"
  then obtain e where "EngagementAt s i = Some e" "state e = Active"
    "t = s\<lparr>EngagementAt := (EngagementAt s)(i \<mapsto> e\<lparr>state := Suspended, updated_at := timestamp env\<rparr>)\<rparr>"
    by (auto simp: suspend_engagement_def load_engagement_def outcome_iff Let_def)
  then show thesis using that [of e Suspended] by simp
next
  assume "end_engagement env c i s = Ok t"
  then obtain e where "EngagementAt s i = Some e" "state e \<noteq> Ended"
    "t = s\<lparr>EngagementAt := (EngagementAt s)(i \<mapsto> e\<lparr>state := Ended, updated_at := timestamp env\<rparr>)\<rparr>"
    by (auto simp: end_engagement_def load_engagement_def outcome_iff Let_def)
  then show thesis using that [of e Ended] by simp
qed

lemma stop_wf:
  assumes "suspend_engagement env c i s = Ok t \<or> end_engagement env c i s = Ok t" "conduct_wf s"
  shows "conduct_wf t"
  using assms(1)
proof (cases rule: stop_Ok)
  case (1 e st)
  then have "engagement_ok s i (e\<lparr>state := st, updated_at := timestamp env\<rparr>)"
    using conduct_wfD(4) [OF assms(2) 1(1)] by (auto simp: engagement_ok_def)
  then show ?thesis using engagement_write_wf [OF assms(2)] 1(3) by blast
qed

lemma accept_wf:
  assumes "accept_policy env a v r s = Ok t" "conduct_wf s"
  shows "conduct_wf t"
  using assms(1)
proof (cases rule: accept_policy_Ok)
  case (first pol)
  show ?thesis
    by (rule conduct_frame_wf [OF assms(2)])
      (use conduct_wfD(3-5) [OF assms(2)] first in \<open>auto simp: acceptance_ok_def split: if_splits\<close>)
qed (simp add: assms(2))

lemma breach_Ok:
  assumes "record_breach env adm f u v g h s = Ok t \<or> resolve_breach env adm f s = Ok t"
  obtains (new) b where "BreachAt s f = None" "PolicyAt s v \<noteq> None" "case_ref b = f" "breached_version b = v"
      "t = s\<lparr>BreachAt := (BreachAt s)(f \<mapsto> b)\<rparr>"
    | (closed) b where "BreachAt s f = Some b" "\<not> resolved b"
      "t = s\<lparr>BreachAt := (BreachAt s)(f \<mapsto> b\<lparr>resolved := True, resolved_at := timestamp env\<rparr>)\<rparr>"
  using assms
proof
  assume "record_breach env adm f u v g h s = Ok t"
  then have "BreachAt s f = None" "PolicyAt s v \<noteq> None" "t = s\<lparr>BreachAt := (BreachAt s)(f \<mapsto> \<lparr>case_ref = f,
      subject = u, breached_version = v, severity = g, evidence_hash = h, recorded_at = timestamp env,
      resolved = False, resolved_at = 0\<rparr>)\<rparr>"
    by (auto simp: record_breach_def load_policy_def outcome_iff Let_def)
  then show thesis by (intro new) simp_all
next
  assume "resolve_breach env adm f s = Ok t"
  then show thesis using closed by (auto simp: resolve_breach_def outcome_iff Let_def)
qed

lemma breach_write_wf:
  assumes "conduct_wf s" "case_ref b = f" "PolicyAt s (breached_version b) \<noteq> None"
    "t = s\<lparr>BreachAt := (BreachAt s)(f \<mapsto> b)\<rparr>"
  shows "conduct_wf t"
  by (rule conduct_frame_wf [OF assms(1)])
    (use conduct_wfD(3-5) [OF assms(1)] assms(2,3) in \<open>auto simp: assms(4) split: if_splits\<close>)

lemma breach_wf:
  assumes "record_breach env adm f u v g h s = Ok t \<or> resolve_breach env adm f s = Ok t" "conduct_wf s"
  shows "conduct_wf t"
  using assms(1)
proof (cases rule: breach_Ok)
  case (closed b)
  then show ?thesis using conduct_wfD(5) [OF assms(2) closed(1)] by (intro breach_write_wf [OF assms(2)]) auto
qed (auto intro: breach_write_wf [OF assms(2)])

text \<open>Publishing and retiring change the registry, and keep what rests on it.\<close>

lemma create_wf:
  assumes "create_engagement env c i x y s = Ok t" "conduct_wf s"
  shows "conduct_wf t"
proof -
  from assms(1) have "x \<noteq> y" "t = s\<lparr>EngagementAt := (EngagementAt s)(i \<mapsto> \<lparr>engagement_id = i, mentor = x,
      mentee = y, state = Pending, mentor_policy_version = 0, mentee_policy_version = 0,
      created_at = timestamp env, activated_at = 0, updated_at = timestamp env\<rparr>)\<rparr>"
    by (auto simp: create_engagement_def outcome_iff Let_def)
  then show ?thesis by (intro engagement_write_wf [OF assms(2)]) (simp_all add: engagement_ok_def)
qed

lemma registry_change_wf:
  assumes "conduct_wf s" "registry_ok t" "\<And>r. newest t r (LatestPolicy t r)"
    and "AcceptanceAt t = AcceptanceAt s" "EngagementAt t = EngagementAt s" "BreachAt t = BreachAt s"
    and keep: "\<And>v pol. PolicyAt s v = Some pol \<Longrightarrow> \<exists>pol'. PolicyAt t v = Some pol' \<and> audience pol' = audience pol \<and>
      policy_hash pol' = policy_hash pol \<and> mandatory pol' = mandatory pol"
  shows "conduct_wf t"
proof -
  have "acceptance_ok t a v r x" if "AcceptanceAt s (a, v, r) = Some x" for a v r x
    using conduct_wfD(3) [OF assms(1) that] keep [of v] by (fastforce simp: acceptance_ok_def)
  moreover have consent: "consented t a r v" if "consented s a r v" for a r v
    using that keep [of v] by (fastforce simp: consented_def has_accepted_def assms(4))
  have "engagement_ok t i e" if "EngagementAt s i = Some e" for i e
    using conduct_wfD(4) [OF assms(1) that] consent by (auto simp: engagement_ok_def)
  moreover have "case_ref b = f \<and> PolicyAt t (breached_version b) \<noteq> None" if "BreachAt s f = Some b" for f b
    using conduct_wfD(5) [OF assms(1) that] keep [of "breached_version b"] by auto
  ultimately show ?thesis using assms(2,3) unfolding conduct_wf_def assms(4-6) by blast
qed

lemma publish_policy_wf:
  assumes "publish_policy env adm aud h e m s = Ok (v, t)" "conduct_wf s"
  shows "conduct_wf t"
  using assms(1)
proof (cases rule: publish_policy_Ok)
  case (1 pol)
  note reg = conduct_wfD(1) [OF assms(2)]
  have new: "PolicyAt s w = Some q \<Longrightarrow> w < v" for w q
    using reg 1(9) unfolding registry_ok_def by (metis less_add_one option.distinct(1) le_less_trans)
  have "registry_ok t"
    using reg 1(3,5,6,9,10) by (auto simp: registry_ok_def 1(11) split: if_splits)
  moreover have "newest t r (LatestPolicy t r)" for r
    using conduct_wfD(2) [OF assms(2), of r] 1(4) new
    by (auto simp: newest_def 1(11) split: option.splits if_splits dest: less_trans less_not_sym)
  moreover have "v \<noteq> w" if "PolicyAt s w = Some q" for w q using new [OF that] by simp
  ultimately show ?thesis
    by (intro registry_change_wf [OF assms(2)]) (auto simp: 1(11))
qed

lemma retire_wf:
  assumes "retire_policy env adm v s = Ok t" "conduct_wf s"
  shows "conduct_wf t"
  using assms(1)
proof (cases rule: retire_policy_Ok)
  case (1 pol)
  have "registry_ok t"
    using conduct_wfD(1) [OF assms(2)] 1(1) by (auto simp: registry_ok_def 1(3))
  moreover have "newest t r (LatestPolicy t r)" for r
    using conduct_wfD(2) [OF assms(2), of r] 1(1)
    by (auto simp: newest_def 1(3) split: option.splits if_splits)
  ultimately show ?thesis
    by (intro registry_change_wf [OF assms(2)]) (use 1(1) in \<open>auto simp: 1(3)\<close>)
qed

lemma conduct_exec_wf:
  assumes "conduct_exec env c s = Ok t" "conduct_wf s"
  shows "conduct_wf t"
proof (cases c)
  case (Initialize a)
  with assms show ?thesis
    by (auto simp: initialize_def outcome_iff intro!: conduct_frame_wf [OF assms(2)] dest: conduct_wfD)
next
  case (PublishPolicy a u h e m)
  with assms show ?thesis by (auto simp: outcome_iff intro: publish_policy_wf)
qed (use assms in \<open>auto intro: retire_wf accept_wf create_wf activate_wf stop_wf breach_wf\<close>)

section \<open>What may still change\<close>

definition policy_evolves :: "Policy \<Rightarrow> Policy \<Rightarrow> bool" where
  "policy_evolves p p' \<longleftrightarrow> p' = p \<or> p' = p\<lparr>retired := True\<rparr>"

definition engagement_evolves :: "Engagement \<Rightarrow> Engagement \<Rightarrow> bool" where
  "engagement_evolves e e' \<longleftrightarrow> engagement_id e' = engagement_id e \<and> mentor e' = mentor e \<and> mentee e' = mentee e \<and>
     created_at e' = created_at e \<and> (state e = Ended \<longrightarrow> e' = e) \<and>
     (state e \<noteq> Pending \<longrightarrow> state e' \<noteq> Pending \<and> activated_at e' = activated_at e)"

definition breach_evolves :: "BreachRecord \<Rightarrow> BreachRecord \<Rightarrow> bool" where
  "breach_evolves b b' \<longleftrightarrow> case_ref b' = case_ref b \<and> subject b' = subject b \<and>
     breached_version b' = breached_version b \<and> severity b' = severity b \<and> evidence_hash b' = evidence_hash b \<and>
     recorded_at b' = recorded_at b \<and> (resolved b \<longrightarrow> b' = b)"

definition conduct_evolves :: "conduct_state \<Rightarrow> conduct_state \<Rightarrow> bool" where
  "conduct_evolves s t \<longleftrightarrow> kept policy_evolves (PolicyAt s) (PolicyAt t) \<and>
     kept (=) (AcceptanceAt s) (AcceptanceAt t) \<and> kept engagement_evolves (EngagementAt s) (EngagementAt t) \<and>
     kept breach_evolves (BreachAt s) (BreachAt t)"

lemma conduct_record_refl [simp]:
  "policy_evolves p p" "engagement_evolves e e" "breach_evolves b b"
  by (simp_all add: policy_evolves_def engagement_evolves_def breach_evolves_def)

lemma conduct_record_trans:
  "policy_evolves p p' \<Longrightarrow> policy_evolves p' p'' \<Longrightarrow> policy_evolves p p''"
  "engagement_evolves e e' \<Longrightarrow> engagement_evolves e' e'' \<Longrightarrow> engagement_evolves e e''"
  "breach_evolves b b' \<Longrightarrow> breach_evolves b' b'' \<Longrightarrow> breach_evolves b b''"
  by (auto simp: policy_evolves_def engagement_evolves_def breach_evolves_def)

lemma conduct_evolves_refl: "conduct_evolves s s"
  by (simp add: conduct_evolves_def kept_refl)

lemma conduct_evolves_trans: "conduct_evolves s t \<Longrightarrow> conduct_evolves t u \<Longrightarrow> conduct_evolves s u"
  unfolding conduct_evolves_def
  by (auto intro: kept_trans [OF conduct_record_trans(1)] kept_trans [OF conduct_record_trans(2)]
      kept_trans [OF conduct_record_trans(3)] kept_trans [OF trans])

lemma engagement_write_evolves:
  "(\<And>e0. EngagementAt s i = Some e0 \<Longrightarrow> engagement_evolves e0 e) \<Longrightarrow>
   conduct_evolves s (s\<lparr>EngagementAt := (EngagementAt s)(i \<mapsto> e)\<rparr>)"
  by (auto simp: conduct_evolves_def intro!: kept_refl kept_update)

lemma publish_evolves:
  assumes "publish_policy env adm aud h e m s = Ok (v, t)" "conduct_wf s"
  shows "conduct_evolves s t"
  using assms(1)
proof (cases rule: publish_policy_Ok)
  case (1 pol)
  have "PolicyAt s v = None"
    using registry_bound [OF conduct_wfD(1) [OF assms(2)], of v] 1(9) by auto
  then show ?thesis by (auto simp: 1(11) conduct_evolves_def intro!: kept_refl kept_update)
qed

lemma conduct_exec_evolves:
  assumes "conduct_exec env c s = Ok t" "conduct_wf s"
  shows "conduct_evolves s t"
proof (cases c)
  case (PublishPolicy a u h e m)
  with assms show ?thesis by (auto simp: outcome_iff intro: publish_evolves)
next
  case (RetirePolicy a v)
  with assms(1) have "retire_policy env a v s = Ok t" by simp
  then show ?thesis
    by (rule retire_policy_Ok) (auto simp: conduct_evolves_def policy_evolves_def intro!: kept_refl kept_update)
next
  case (AcceptPolicy a v r)
  with assms(1) have "accept_policy env a v r s = Ok t" by simp
  then show ?thesis
  proof (cases rule: accept_policy_Ok)
    case (first pol)
    then show ?thesis by (auto simp: conduct_evolves_def has_accepted_def intro!: kept_refl kept_update)
  qed (simp add: conduct_evolves_refl)
next
  case (CreateEngagement b i x y)
  with assms(1) have "create_engagement env b i x y s = Ok t" by simp
  then show ?thesis by (auto simp: create_engagement_def outcome_iff Let_def intro!: engagement_write_evolves)
next
  case (ActivateEngagement b i)
  with assms(1) have "activate_engagement env b i s = Ok t \<or> resume_engagement env b i s = Ok t" by simp
  from this assms(2) show ?thesis
    by (rule activate_Ok) (auto simp: engagement_evolves_def running_def intro!: engagement_write_evolves)
next
  case (ResumeEngagement b i)
  with assms(1) have "activate_engagement env b i s = Ok t \<or> resume_engagement env b i s = Ok t" by simp
  from this assms(2) show ?thesis
    by (rule activate_Ok) (auto simp: engagement_evolves_def running_def intro!: engagement_write_evolves)
next
  case (SuspendEngagement b i)
  with assms(1) have "suspend_engagement env b i s = Ok t \<or> end_engagement env b i s = Ok t" by simp
  then show ?thesis by (rule stop_Ok) (auto simp: engagement_evolves_def intro!: engagement_write_evolves)
next
  case (EndEngagement b i)
  with assms(1) have "suspend_engagement env b i s = Ok t \<or> end_engagement env b i s = Ok t" by simp
  then show ?thesis by (rule stop_Ok) (auto simp: engagement_evolves_def intro!: engagement_write_evolves)
next
  case (RecordBreach a f u v g h)
  with assms(1) have "record_breach env a f u v g h s = Ok t \<or> resolve_breach env a f s = Ok t" by simp
  then show ?thesis
    by (rule breach_Ok) (auto simp: conduct_evolves_def breach_evolves_def intro!: kept_refl kept_update)
next
  case (ResolveBreach a f)
  with assms(1) have "record_breach env a f 0 0 Low [] s = Ok t \<or> resolve_breach env a f s = Ok t" by simp
  then show ?thesis
    by (rule breach_Ok) (auto simp: conduct_evolves_def breach_evolves_def intro!: kept_refl kept_update)
qed (use assms in \<open>auto simp: initialize_def outcome_iff conduct_evolves_def intro!: kept_refl\<close>)

interpretation conduct: evolving conduct_step conduct_wf conduct_evolves
  by unfold_locales
    (auto intro: conduct_exec_wf conduct_exec_evolves conduct_evolves_trans conduct_evolves_refl elim!: conduct_stepE)

lemmas conduct_run_wf = conduct.run [OF _ conduct_init_wf]

section \<open>Properties\<close>

abbreviation conduct_env :: env where
  "conduct_env \<equiv> \<lparr>timestamp = 10, ledger_sequence = 7, self = 99, auth = (\<lambda>_. True)\<rparr>"

definition demo_policy :: "nat \<Rightarrow> bool \<Rightarrow> nat \<Rightarrow> Policy" where
  "demo_policy v m e = \<lparr>version = v, audience = Both, policy_hash = [8], effective_at = e, mandatory = m,
     published_at = 10, retired = False\<rparr>"

definition demo_engagement :: Engagement where
  "demo_engagement = \<lparr>engagement_id = [6], mentor = 2, mentee = 3, state = Active, mentor_policy_version = 1,
     mentee_policy_version = 1, created_at = 10, activated_at = 10, updated_at = 10\<rparr>"

definition demo_acceptance :: "address \<Rightarrow> Role \<Rightarrow> Acceptance" where
  "demo_acceptance a r = \<lparr>actor = a, role = r, accepted_version = 1, accepted_hash = [8], accepted_at = 10\<rparr>"

definition demo_running :: conduct_state where
  "demo_running = \<lparr>Admin = Some 1, PolicyVersion = Some 1, LatestPolicy = [Mentor \<mapsto> 1, Mentee \<mapsto> 1],
     PolicyAt = [1 \<mapsto> demo_policy 1 True 5],
     AcceptanceAt = [(2, 1, Mentor) \<mapsto> demo_acceptance 2 Mentor, (3, 1, Mentee) \<mapsto> demo_acceptance 3 Mentee],
     EngagementAt = [[6] \<mapsto> demo_engagement], BreachAt = Map.empty\<rparr>"

lemma short_not_zero: "length h < 32 \<Longrightarrow> h \<noteq> zero_hash"
  by (auto simp: zero_hash_def)

lemmas conduct_ops = initialize_def require_admin_def publish_policy_def record_latest_def accept_policy_def
  create_engagement_def activate_engagement_def require_current_acceptance_def latest_policy_for_role_def
  load_policy_def load_engagement_def has_accepted_def short_not_zero state_of_def Let_def MAX_POLICY_VERSION_def
  u32_checked_def range_defs

lemma demo_running_run:
  "run_calls conduct_exec
     [(conduct_env, Initialize 1), (conduct_env, PublishPolicy 1 Both [8] 5 True),
      (conduct_env, AcceptPolicy 2 1 Mentor), (conduct_env, AcceptPolicy 3 1 Mentee),
      (conduct_env, CreateEngagement 2 [6] 2 3), (conduct_env, ActivateEngagement 3 [6])] conduct_init = Ok demo_running"
  by (simp add: conduct_ops conduct_init_def demo_running_def demo_policy_def demo_engagement_def demo_acceptance_def
      del: One_nat_def)

lemma conduct_run_steps: "run_calls conduct_exec cs s = Ok t \<Longrightarrow> conduct_step\<^sup>*\<^sup>* s t"
  by (rule run_calls_steps) (auto intro: conduct_step.call)

lemma demo_running_reachable: "conduct_step\<^sup>*\<^sup>* conduct_init demo_running"
  using conduct_run_steps [OF demo_running_run] .

text \<open>
  The registry finds the newest policy. In every reachable state the published versions are exactly
  \<open>1\<close> to the version counter, at most a thousand, each stored under its own number, and \<open>latest_policy\<close> of a role
  answers the highest version whose audience contains the role, or \<open>PolicyNotFound\<close> if there is none.
\<close>

theorem registry_exact:
  assumes "conduct_step\<^sup>*\<^sup>* conduct_init s"
  shows "unwrap_or (PolicyVersion s) 0 \<le> MAX_POLICY_VERSION \<and>
    (\<forall>v. is_ok (get_policy s v) \<longleftrightarrow> 1 \<le> v \<and> v \<le> unwrap_or (PolicyVersion s) 0) \<and>
    (case latest_policy s r of
       Ok pol \<Rightarrow> get_policy s (version pol) = Ok pol \<and> applies_to (audience pol) r \<and>
         (\<forall>q. get_policy s (version q) = Ok q \<longrightarrow> applies_to (audience q) r \<longrightarrow> version q \<le> version pol)
     | Err e \<Rightarrow> e = PolicyNotFound \<and> (\<forall>v q. get_policy s v = Ok q \<longrightarrow> \<not> applies_to (audience q) r)
     | Panic \<Rightarrow> False)"
proof (intro conjI allI)
  note wf = conduct_run_wf [OF assms]
  show "unwrap_or (PolicyVersion s) 0 \<le> MAX_POLICY_VERSION" using conduct_wfD(1) [OF wf] by (simp add: registry_ok_def)
  show "is_ok (get_policy s v) \<longleftrightarrow> 1 \<le> v \<and> v \<le> unwrap_or (PolicyVersion s) 0" for v
    using registry_bound [OF conduct_wfD(1) [OF wf], of v]
    by (cases "PolicyAt s v") (auto simp: get_policy_def load_policy_def)
  note newest = conduct_wfD(2) [OF wf, of r]
  show "case latest_policy s r of
       Ok pol \<Rightarrow> get_policy s (version pol) = Ok pol \<and> applies_to (audience pol) r \<and>
         (\<forall>q. get_policy s (version q) = Ok q \<longrightarrow> applies_to (audience q) r \<longrightarrow> version q \<le> version pol)
     | Err e \<Rightarrow> e = PolicyNotFound \<and> (\<forall>v q. get_policy s v = Ok q \<longrightarrow> \<not> applies_to (audience q) r)
     | Panic \<Rightarrow> False"
  proof (cases "LatestPolicy s r")
    case None
    with newest show ?thesis
      by (simp add: newest_def latest_policy_def latest_policy_for_role_def get_policy_def load_policy_def outcome_iff)
  next
    case (Some v)
    then obtain pol where pol: "PolicyAt s v = Some pol" "applies_to (audience pol) r" "version pol = v"
      by (rule latest_stored [OF wf])
    have "version q \<le> v" if "PolicyAt s (version q) = Some q" "applies_to (audience q) r" for q
      using newest that Some by (auto simp: newest_def not_less [symmetric])
    with pol Some show ?thesis
      by (simp add: latest_policy_def latest_policy_for_role_def get_policy_def load_policy_def outcome_iff)
  qed
qed

theorem registry_exact_witness: "is_ok (get_policy demo_running 1) \<and> \<not> is_ok (get_policy demo_running 2)"
  using registry_exact [OF demo_running_reachable, of Mentor] by (simp add: demo_running_def del: One_nat_def)

text \<open>
  C21. Running engagements rest on recorded consent. In every reachable state the parties of an active or
  suspended engagement are different, and for the policy version recorded for each of them, which applies to
  the role: if the version is mandatory, there is a proof of acceptance by that party in that role, and
  \<open>verify_acceptance\<close> confirms it for the hash of exactly that policy text.
\<close>

theorem engagement_consent:
  assumes "conduct_step\<^sup>*\<^sup>* conduct_init s" and "EngagementAt s i = Some e" and "state e \<in> {Active, Suspended}"
    and "(a, r, v) \<in> {(mentor e, Mentor, mentor_policy_version e), (mentee e, Mentee, mentee_policy_version e)}"
  shows "mentor e \<noteq> mentee e \<and> (\<exists>pol. PolicyAt s v = Some pol \<and> version pol = v \<and> applies_to (audience pol) r \<and>
    (mandatory pol \<longrightarrow> verify_acceptance s a v r (policy_hash pol)))"
proof -
  note wf = conduct_run_wf [OF assms(1)]
  have "consented s a r v" "mentor e \<noteq> mentee e"
    using conduct_wfD(4) [OF wf assms(2)] assms(3,4) by (auto simp: engagement_ok_def)
  then obtain pol where pol: "PolicyAt s v = Some pol" "applies_to (audience pol) r"
    "mandatory pol \<Longrightarrow> has_accepted s a v r"
    by (auto simp: consented_def)
  have "verify_acceptance s a v r (policy_hash pol)" if m: "mandatory pol"
  proof -
    from pol(3) [OF m] obtain x where x: "AcceptanceAt s (a, v, r) = Some x" by (auto simp: has_accepted_def)
    with conduct_wfD(3) [OF wf x] pol(1) show ?thesis by (simp add: acceptance_ok_def verify_acceptance_def)
  qed
  with pol(1,2) stored_version [OF wf pol(1)] \<open>mentor e \<noteq> mentee e\<close> show ?thesis by blast
qed

theorem engagement_consent_witness: "verify_acceptance demo_running 2 1 Mentor [8]"
proof -
  have "EngagementAt demo_running [6] = Some demo_engagement" by (simp add: demo_running_def)
  from engagement_consent [OF demo_running_reachable this, of 2 Mentor 1] show ?thesis
    by (simp add: demo_engagement_def demo_running_def demo_policy_def del: One_nat_def)
qed

text \<open>
  The compliance view is the gate. \<open>engagement_compliant\<close> is true exactly for an active engagement whose
  two parties pass the check that activation and resumption make, and a party can activate a pending
  engagement, or resume a suspended one, exactly when both pass it.
\<close>

theorem compliance_is_gate:
  assumes "EngagementAt s i = Some e" and "auth env c" and "c = mentor e \<or> c = mentee e"
  shows "(engagement_compliant s i \<longleftrightarrow> state e = Active \<and>
      is_ok (require_current_acceptance s (mentor e) Mentor) \<and> is_ok (require_current_acceptance s (mentee e) Mentee)) \<and>
    (is_ok (activate_engagement env c i s) \<longleftrightarrow> state e = Pending \<and>
      is_ok (require_current_acceptance s (mentor e) Mentor) \<and> is_ok (require_current_acceptance s (mentee e) Mentee)) \<and>
    (is_ok (resume_engagement env c i s) \<longleftrightarrow> state e = Suspended \<and>
      is_ok (require_current_acceptance s (mentor e) Mentor) \<and> is_ok (require_current_acceptance s (mentee e) Mentee))"
proof -
  have party: "parties_loop s ((a, r) # rest) \<longleftrightarrow> is_ok (require_current_acceptance s a r) \<and> parties_loop s rest" for a r rest
    by (cases "latest_policy_for_role s r") (simp_all add: require_current_acceptance_def)
  show ?thesis
    using assms
    by (cases "require_current_acceptance s (mentor e) Mentor"; cases "require_current_acceptance s (mentee e) Mentee")
      (auto simp: engagement_compliant_def activate_engagement_def resume_engagement_def load_engagement_def party
        Let_def simp del: parties_loop.simps(2))
qed

theorem compliance_is_gate_witness: "engagement_compliant demo_running [6]"
proof -
  have "EngagementAt demo_running [6] = Some demo_engagement" by (simp add: demo_running_def)
  from compliance_is_gate [OF this, of conduct_env 2] show ?thesis
    by (simp add: demo_engagement_def demo_running_def demo_policy_def conduct_ops del: One_nat_def)
qed

text \<open>
  Policies and proofs are permanent. From any reachable state on, a published policy only ever becomes
  retired, a proof of acceptance never changes, an engagement keeps its parties, is never pending again after
  its activation and never changes after its end, and a breach keeps its facts and stays resolved.
\<close>

theorem conduct_records_permanent:
  assumes "conduct_step\<^sup>*\<^sup>* conduct_init s" and "conduct_step\<^sup>*\<^sup>* s t"
  shows "(PolicyAt s v = Some pol \<longrightarrow> (\<exists>pol'. PolicyAt t v = Some pol' \<and> policy_evolves pol pol')) \<and>
    (AcceptanceAt s k = Some x \<longrightarrow> AcceptanceAt t k = Some x) \<and>
    (EngagementAt s i = Some e \<longrightarrow> (\<exists>e'. EngagementAt t i = Some e' \<and> engagement_evolves e e')) \<and>
    (BreachAt s f = Some b \<longrightarrow> (\<exists>b'. BreachAt t f = Some b' \<and> breach_evolves b b'))"
  using conduct.run_evolves [OF assms(2) conduct_run_wf [OF assms(1)]]
  unfolding conduct_evolves_def kept_def by blast

theorem conduct_records_permanent_witness:
  "AcceptanceAt demo_running (2, 1, Mentor) = Some (demo_acceptance 2 Mentor)"
  using conduct_records_permanent [OF demo_running_reachable rtranclp.rtrancl_refl, of 0 _ "(2, 1, Mentor)" "demo_acceptance 2 Mentor"]
  by (simp add: demo_running_def del: One_nat_def)

text \<open>
  An optional policy lifts the gate. A mandatory policy in force is followed by an optional one; from then
  on two participants who accepted nothing activate an engagement, and it counts as compliant. The optional
  policy is not even in force yet: its effective time is far in the future, and no function reads it.
\<close>

theorem optional_policy_lifts_gate:
  "\<exists>s. run_calls conduct_exec
     [(conduct_env, Initialize 1), (conduct_env, PublishPolicy 1 Both [8] 5 True),
      (conduct_env, PublishPolicy 1 Both [9] 1000000 False),
      (conduct_env, CreateEngagement 2 [6] 2 3), (conduct_env, ActivateEngagement 3 [6])] conduct_init = Ok s \<and>
     engagement_compliant s [6] \<and> \<not> requires_acknowledgement s 2 Mentor \<and>
     (\<exists>pol. PolicyAt s 1 = Some pol \<and> mandatory pol \<and> \<not> retired pol) \<and> AcceptanceAt s = Map.empty"
  by (simp add: conduct_ops conduct_init_def engagement_compliant_def requires_acknowledgement_def del: One_nat_def)

text \<open>
  Retiring a policy closes the gate. After the newest policy of a role is retired no engagement can be
  activated or resumed, not even under the version before it, which is still in force and accepted.
\<close>

theorem retired_policy_blocks:
  "\<exists>s. run_calls conduct_exec
     [(conduct_env, SuspendEngagement 1 [6]), (conduct_env, PublishPolicy 1 Both [9] 5 True),
      (conduct_env, RetirePolicy 1 2)] demo_running = Ok s \<and>
     resume_engagement conduct_env 2 [6] s = Err PolicyRetired \<and>
     verify_acceptance s 2 1 Mentor [8] \<and> verify_acceptance s 3 1 Mentee [8] \<and>
     PolicyAt s 1 = Some (demo_policy 1 True 5)"
  by (simp add: conduct_ops suspend_engagement_def retire_policy_def resume_engagement_def verify_acceptance_def
      demo_running_def demo_policy_def demo_engagement_def demo_acceptance_def del: One_nat_def)

end
