(* ===== verification/Counter_Ids.thy ===== *)
theory Counter_Ids
  imports Transition_Systems
begin

text \<open>
  Identifiers derived from a storage counter: several contracts hash the eight big-endian bytes of a
  counter that grows with every creation, followed by more data. The hash \<open>sha\<close> belongs to the host;
  what the contracts rely on is that it has no collisions, \<open>inj sha\<close>. Then an identifier made from a
  counter value that was never used is new.
\<close>

definition counter_id :: "(bytes \<Rightarrow> hash32) \<Rightarrow> nat \<Rightarrow> bytes \<Rightarrow> hash32" where
  "counter_id sha n rest = sha (be_bytes 8 n @ rest)"

text \<open>Every identifier in \<open>I\<close> was made from a counter value of at most \<open>c\<close>.\<close>

definition issued :: "(bytes \<Rightarrow> hash32) \<Rightarrow> nat \<Rightarrow> hash32 set \<Rightarrow> bool" where
  "issued sha c I \<longleftrightarrow> (\<forall>x\<in>I. \<exists>n rest. n \<le> c \<and> fits_u64 n \<and> x = counter_id sha n rest)"

lemma issued_empty [simp]: "issued sha c {}"
  by (simp add: issued_def)

lemma issued_insert:
  "issued sha c I \<Longrightarrow> fits_u64 (c + 1) \<Longrightarrow> issued sha (c + 1) (insert (counter_id sha (c + 1) rest) I)"
  unfolding issued_def by (meson insert_iff le_add1 le_refl order_trans)

lemma counter_id_inject:
  assumes "inj sha" "counter_id sha n r = counter_id sha m r'" "fits_u64 n" "fits_u64 m"
  shows "n = m"
proof -
  have "be_bytes 8 n @ r = be_bytes 8 m @ r'"
    using assms(1,2) unfolding counter_id_def by (rule injD)
  then have "be_bytes 8 n = be_bytes 8 m" by simp
  then show ?thesis
    using assms(3,4) by (intro be_bytes_inject) (simp_all add: fits_u64_def)
qed

lemma counter_id_fresh:
  assumes "inj sha" "issued sha c I" "fits_u64 (c + 1)"
  shows "counter_id sha (c + 1) rest \<notin> I"
proof
  assume "counter_id sha (c + 1) rest \<in> I"
  with assms(2) obtain n r where "n \<le> c" "fits_u64 n" "counter_id sha (c + 1) rest = counter_id sha n r"
    by (auto simp: issued_def)
  with counter_id_inject [OF assms(1) _ assms(3)] show False by fastforce
qed

end
