(* ===== verification/Mentorship_Matching.thy ===== *)
theory Mentorship_Matching
  imports Counter_Ids
begin

text \<open>
  \<open>contracts/mentorship-matching/src/lib.rs\<close>: match proposals between a mentor and a mentee. A mentor or a
  coordinator proposes, both participants approve the exact version they were shown, coordinators may adjust
  an open proposal, and every coordinator action is logged with a commitment to its reason.
\<close>

section \<open>State\<close>

datatype MatchingError =
    NotInitialized | AlreadyInitialized | Unauthorized | ParticipantNotFound | ParticipantInactive | RoleMismatch
  | SelfMatch | Blocked | InvalidTerms | InvalidExpiry | ProposalNotFound | DuplicateActiveProposal | ProposalExpired
  | InvalidTransition | NotParticipant | AlreadyApproved | StaleProposalVersion | ReasonRequired | InvalidReasonCode
  | ProgramCapacityReached | ActionLogFull | CounterOverflow | ParticipantExists | InvalidProgram | ReasonNotFound
  | ActionNotFound

definition MAX_PENDING_PROPOSALS_PER_PROGRAM :: nat where
  "MAX_PENDING_PROPOSALS_PER_PROGRAM = 128"

definition MAX_PROPOSAL_LIFETIME :: nat where
  "MAX_PROPOSAL_LIFETIME = 90 * 24 * 60 * 60"

definition MAX_COORDINATOR_ACTIONS :: nat where
  "MAX_COORDINATOR_ACTIONS = 1024"

definition ZERO_HASH :: hash32 where
  "ZERO_HASH = replicate 32 0"

datatype ProposalOrigin = Mentor | Coordinator

datatype ParticipantRole = Mentor | Mentee

datatype ParticipantStatus = Active | Inactive | Suspended

record Participant =
  role :: ParticipantRole
  participant_status :: ParticipantStatus
  participant_updated_at :: nat

datatype CoordinatorActionKind = Proposed | Adjusted

datatype ProposalStatus = Proposed | Active | Declined | Expired

definition is_open :: "ProposalStatus \<Rightarrow> bool" where
  "is_open st = (st = Proposed \<or> st = Active)"

record ProposalTerms =
  offered_hash :: hash32
  offered_fee :: int
  offered_expiry :: nat

record Proposal =
  proposal_id :: hash32
  program_id :: hash32
  mentor :: address
  mentee :: address
  terms_hash :: hash32
  proposed_fee :: int
  expires_at :: nat
  created_by :: address
  origin :: ProposalOrigin
  last_adjusted_by :: "address option"
  status :: ProposalStatus
  version :: nat
  mentor_approved :: bool
  mentee_approved :: bool
  created_at :: nat
  updated_at :: nat

record CoordinatorAction =
  coordinator :: address
  action_proposal :: hash32
  action_kind :: CoordinatorActionKind
  action_reason :: hash32
  action_version :: nat
  action_at :: nat

record matching_state =
  Admin :: "address option"
  Coordinators :: "address \<rightharpoonup> bool"
  ParticipantAt :: "address \<rightharpoonup> Participant"
  BlockedAt :: "address \<times> address \<rightharpoonup> bool"
  ProposalCount :: "nat option"
  ProposalAt :: "hash32 \<rightharpoonup> Proposal"
  PairIndex :: "hash32 \<times> address \<times> address \<rightharpoonup> hash32"
  PendingCount :: "hash32 \<rightharpoonup> nat"
  ProposalReason :: "hash32 \<rightharpoonup> hash32"
  CoordActionCount :: "address \<rightharpoonup> nat"
  CoordAction :: "address \<times> nat \<rightharpoonup> CoordinatorAction"

definition matching_init :: matching_state where
  "matching_init = \<lparr>Admin = None, Coordinators = Map.empty, ParticipantAt = Map.empty, BlockedAt = Map.empty,
     ProposalCount = None, ProposalAt = Map.empty, PairIndex = Map.empty, PendingCount = Map.empty,
     ProposalReason = Map.empty, CoordActionCount = Map.empty, CoordAction = Map.empty\<rparr>"

section \<open>Helpers\<close>

definition admin :: "matching_state \<Rightarrow> (MatchingError, address) outcome" where
  "admin s = ok_or (Admin s) NotInitialized"

definition require_admin :: "env \<Rightarrow> matching_state \<Rightarrow> address \<Rightarrow> (MatchingError, unit) outcome" where
  "require_admin env s caller =
     and_then (admin s) (\<lambda>a. if caller \<noteq> a then Err Unauthorized else require_auth env caller)"

definition require_coordinator :: "env \<Rightarrow> matching_state \<Rightarrow> address \<Rightarrow> (MatchingError, unit) outcome" where
  "require_coordinator env s caller =
     and_then (admin s) (\<lambda>a.
     let registered = unwrap_or (Coordinators s caller) False in
     if caller \<noteq> a \<and> \<not> registered then Err Unauthorized else require_auth env caller)"

definition derive_id ::
  "(bytes \<Rightarrow> hash32) \<Rightarrow> env \<Rightarrow> bytes \<Rightarrow> matching_state \<Rightarrow> (MatchingError, hash32 \<times> matching_state) outcome" where
  "derive_id sha env salt s =
     (let nonce = unwrap_or (ProposalCount s) 0 in
      and_then (ok_or (u64_checked (nonce + 1)) CounterOverflow) (\<lambda>n.
      Ok (sha (be_bytes 8 n @ be_bytes 8 (timestamp env) @ salt), s\<lparr>ProposalCount := Some n\<rparr>)))"

definition load_participant :: "matching_state \<Rightarrow> address \<Rightarrow> (MatchingError, Participant) outcome" where
  "load_participant s who = ok_or (ParticipantAt s who) ParticipantNotFound"

definition load_proposal :: "matching_state \<Rightarrow> hash32 \<Rightarrow> (MatchingError, Proposal) outcome" where
  "load_proposal s i = ok_or (ProposalAt s i) ProposalNotFound"

definition store_proposal :: "Proposal \<Rightarrow> matching_state \<Rightarrow> matching_state" where
  "store_proposal proposal s = s\<lparr>ProposalAt := (ProposalAt s)(proposal_id proposal \<mapsto> proposal)\<rparr>"

definition blocked :: "matching_state \<Rightarrow> address \<Rightarrow> address \<Rightarrow> bool" where
  "blocked s a b =
     (let forward = unwrap_or (BlockedAt s (a, b)) False; reverse = unwrap_or (BlockedAt s (b, a)) False
      in forward \<or> reverse)"

definition require_eligible :: "matching_state \<Rightarrow> address \<Rightarrow> address \<Rightarrow> (MatchingError, unit) outcome" where
  "require_eligible s x y =
     and_then (load_participant s x) (\<lambda>mentor_profile.
     and_then (load_participant s y) (\<lambda>mentee_profile.
     if role mentor_profile \<noteq> Mentor \<or> role mentee_profile \<noteq> Mentee then Err RoleMismatch
     else if participant_status mentor_profile \<noteq> ParticipantStatus.Active \<or>
       participant_status mentee_profile \<noteq> ParticipantStatus.Active then Err ParticipantInactive
     else if blocked s x y then Err MatchingError.Blocked
     else Ok ()))"

definition valid_terms :: "env \<Rightarrow> ProposalTerms \<Rightarrow> (MatchingError, unit) outcome" where
  "valid_terms env terms =
     (if offered_hash terms = ZERO_HASH \<or> offered_fee terms < 0 then Err InvalidTerms
      else
        let now = timestamp env in
        if offered_expiry terms \<le> now then Err InvalidExpiry
        else and_then (ok_or (u64_checked (now + MAX_PROPOSAL_LIFETIME)) InvalidExpiry) (\<lambda>latest.
        if offered_expiry terms > latest then Err InvalidExpiry else Ok ()))"

definition pending_count :: "matching_state \<Rightarrow> hash32 \<Rightarrow> nat" where
  "pending_count s p = unwrap_or (PendingCount s p) 0"

definition set_pending_count :: "hash32 \<Rightarrow> nat \<Rightarrow> matching_state \<Rightarrow> matching_state" where
  "set_pending_count p n s = s\<lparr>PendingCount := (PendingCount s)(p \<mapsto> n)\<rparr>"

definition increase_pending :: "hash32 \<Rightarrow> matching_state \<Rightarrow> (MatchingError, matching_state) outcome" where
  "increase_pending p s =
     (let count = pending_count s p in
      if count \<ge> MAX_PENDING_PROPOSALS_PER_PROGRAM then Err ProgramCapacityReached
      else and_then (u32_op (count + 1)) (\<lambda>n. Ok (set_pending_count p n s)))"

definition decrease_pending :: "hash32 \<Rightarrow> matching_state \<Rightarrow> matching_state" where
  "decrease_pending p s =
     (let count = pending_count s p in if count > 0 then set_pending_count p (count - 1) s else s)"

definition expire_proposal :: "env \<Rightarrow> Proposal \<Rightarrow> matching_state \<Rightarrow> matching_state" where
  "expire_proposal env proposal s =
     (let s = (if status proposal = Proposed then decrease_pending (program_id proposal) s else s)
      in store_proposal (proposal\<lparr>status := Expired, updated_at := timestamp env\<rparr>) s)"

definition record_coordinator_action ::
  "env \<Rightarrow> address \<Rightarrow> hash32 \<Rightarrow> CoordinatorActionKind \<Rightarrow> hash32 \<Rightarrow> nat \<Rightarrow> matching_state \<Rightarrow>
   (MatchingError, nat \<times> matching_state) outcome" where
  "record_coordinator_action env c i k reason v s =
     (let count = unwrap_or (CoordActionCount s c) 0 in
      if count \<ge> MAX_COORDINATOR_ACTIONS then Err ActionLogFull
      else and_then (ok_or (u32_checked (count + 1)) CounterOverflow) (\<lambda>q.
        let act = \<lparr>coordinator = c, action_proposal = i, action_kind = k, action_reason = reason,
              action_version = v, action_at = timestamp env\<rparr>;
            s = s\<lparr>CoordAction := (CoordAction s)((c, q) \<mapsto> act)\<rparr>
        in Ok (q, s\<lparr>CoordActionCount := (CoordActionCount s)(c \<mapsto> q)\<rparr>)))"

record CreationOptions =
  opt_created_by :: address
  opt_origin :: ProposalOrigin
  opt_reason_hash :: "hash32 option"

text \<open>
  The middle part of \<open>create\<close>: a proposal found through the pair index blocks a new one while it is open and
  not past its expiry; past its expiry it is finalized.
\<close>

definition clear_pair ::
  "env \<Rightarrow> hash32 \<times> address \<times> address \<Rightarrow> matching_state \<Rightarrow> (MatchingError, matching_state) outcome" where
  "clear_pair env key s =
     (case PairIndex s key of
        None \<Rightarrow> Ok s
      | Some existing_id \<Rightarrow>
          and_then (load_proposal s existing_id) (\<lambda>existing.
          if is_open (status existing) then
            if timestamp env < expires_at existing then Err DuplicateActiveProposal
            else Ok (expire_proposal env existing s)
          else Ok s))"

definition create ::
  "(bytes \<Rightarrow> hash32) \<Rightarrow> (address \<Rightarrow> bytes) \<Rightarrow> env \<Rightarrow> hash32 \<Rightarrow> address \<Rightarrow> address \<Rightarrow> ProposalTerms \<Rightarrow>
   CreationOptions \<Rightarrow> matching_state \<Rightarrow> (MatchingError, hash32 \<times> matching_state) outcome" where
  "create sha xdr env p x y terms opts s =
     (if p = ZERO_HASH then Err InvalidProgram
      else if x = y then Err SelfMatch
      else and_then (valid_terms env terms) (\<lambda>_. and_then (require_eligible s x y) (\<lambda>_.
      and_then (clear_pair env (p, x, y) s) (\<lambda>s.
      let now = timestamp env; salt = p @ xdr x @ xdr y in
      and_then (derive_id sha env salt s) (\<lambda>(i, s).
      and_then (increase_pending p s) (\<lambda>s.
      let proposal = \<lparr>proposal_id = i, program_id = p, mentor = x, mentee = y, terms_hash = offered_hash terms,
            proposed_fee = offered_fee terms, expires_at = offered_expiry terms, created_by = opt_created_by opts,
            origin = opt_origin opts, last_adjusted_by = None, status = Proposed, version = 1,
            mentor_approved = False, mentee_approved = False, created_at = now, updated_at = now\<rparr>;
          s = store_proposal proposal s;
          s = s\<lparr>PairIndex := (PairIndex s)((p, x, y) \<mapsto> i)\<rparr>
      in case opt_reason_hash opts of
           None \<Rightarrow> Ok (i, s)
         | Some reason \<Rightarrow>
             let s = s\<lparr>ProposalReason := (ProposalReason s)(i \<mapsto> reason)\<rparr> in
             and_then (record_coordinator_action env (opt_created_by opts) i CoordinatorActionKind.Proposed reason 1 s)
               (\<lambda>(_, s). Ok (i, s))))))))"

section \<open>Entry points\<close>

definition initialize :: "env \<Rightarrow> address \<Rightarrow> matching_state \<Rightarrow> (MatchingError, matching_state) outcome" where
  "initialize env a s =
     (if Admin s \<noteq> None then Err AlreadyInitialized
      else and_then (require_auth env a) (\<lambda>_. Ok (s\<lparr>Admin := Some a\<rparr>)))"

text \<open>\<open>upgrade\<close> hands the code hash to the host.\<close>

definition upgrade :: "env \<Rightarrow> address \<Rightarrow> hash32 \<Rightarrow> matching_state \<Rightarrow> (MatchingError, matching_state) outcome" where
  "upgrade env caller wasm s = and_then (require_admin env s caller) (\<lambda>_. Ok s)"

definition set_coordinator ::
  "env \<Rightarrow> address \<Rightarrow> address \<Rightarrow> bool \<Rightarrow> matching_state \<Rightarrow> (MatchingError, matching_state) outcome" where
  "set_coordinator env caller c allowed s =
     and_then (require_admin env s caller) (\<lambda>_.
     Ok (if allowed then s\<lparr>Coordinators := (Coordinators s)(c \<mapsto> True)\<rparr>
         else s\<lparr>Coordinators := (Coordinators s)(c := None)\<rparr>))"

definition is_coordinator :: "matching_state \<Rightarrow> address \<Rightarrow> bool" where
  "is_coordinator s who = unwrap_or (Coordinators s who) False"

definition register_participant ::
  "env \<Rightarrow> address \<Rightarrow> address \<Rightarrow> ParticipantRole \<Rightarrow> matching_state \<Rightarrow> (MatchingError, matching_state) outcome" where
  "register_participant env caller a r s =
     and_then (require_admin env s caller) (\<lambda>_.
     if ParticipantAt s a \<noteq> None then Err ParticipantExists
     else
       let profile = \<lparr>role = r, participant_status = ParticipantStatus.Active,
             participant_updated_at = timestamp env\<rparr>
       in Ok (s\<lparr>ParticipantAt := (ParticipantAt s)(a \<mapsto> profile)\<rparr>))"

definition set_participant_status ::
  "env \<Rightarrow> address \<Rightarrow> address \<Rightarrow> ParticipantStatus \<Rightarrow> matching_state \<Rightarrow> (MatchingError, matching_state) outcome" where
  "set_participant_status env caller a st s =
     and_then (require_admin env s caller) (\<lambda>_.
     and_then (load_participant s a) (\<lambda>profile.
     let profile = profile\<lparr>participant_status := st, participant_updated_at := timestamp env\<rparr>
     in Ok (s\<lparr>ParticipantAt := (ParticipantAt s)(a \<mapsto> profile)\<rparr>)))"

definition get_participant :: "matching_state \<Rightarrow> address \<Rightarrow> (MatchingError, Participant) outcome" where
  "get_participant s a = load_participant s a"

definition set_block ::
  "env \<Rightarrow> address \<Rightarrow> address \<Rightarrow> bool \<Rightarrow> matching_state \<Rightarrow> (MatchingError, matching_state) outcome" where
  "set_block env a b flag s =
     (if a = b then Err SelfMatch
      else and_then (require_auth env a) (\<lambda>_.
        Ok (if flag then s\<lparr>BlockedAt := (BlockedAt s)((a, b) \<mapsto> True)\<rparr>
            else s\<lparr>BlockedAt := (BlockedAt s)((a, b) := None)\<rparr>)))"

definition is_blocked :: "matching_state \<Rightarrow> address \<Rightarrow> address \<Rightarrow> bool" where
  "is_blocked s a b = blocked s a b"

definition create_proposal ::
  "(bytes \<Rightarrow> hash32) \<Rightarrow> (address \<Rightarrow> bytes) \<Rightarrow> env \<Rightarrow> address \<Rightarrow> hash32 \<Rightarrow> address \<Rightarrow> ProposalTerms \<Rightarrow>
   matching_state \<Rightarrow> (MatchingError, hash32 \<times> matching_state) outcome" where
  "create_proposal sha xdr env x p y terms s =
     and_then (require_auth env x) (\<lambda>_.
     create sha xdr env p x y terms
       \<lparr>opt_created_by = x, opt_origin = ProposalOrigin.Mentor, opt_reason_hash = None\<rparr> s)"

definition propose_as_coordinator ::
  "(bytes \<Rightarrow> hash32) \<Rightarrow> (address \<Rightarrow> bytes) \<Rightarrow> env \<Rightarrow> address \<Rightarrow> hash32 \<Rightarrow> address \<Rightarrow> address \<Rightarrow> ProposalTerms \<Rightarrow>
   hash32 \<Rightarrow> matching_state \<Rightarrow> (MatchingError, hash32 \<times> matching_state) outcome" where
  "propose_as_coordinator sha xdr env c p x y terms reason s =
     and_then (require_coordinator env s c) (\<lambda>_.
     if reason = ZERO_HASH then Err ReasonRequired
     else create sha xdr env p x y terms
       \<lparr>opt_created_by = c, opt_origin = Coordinator, opt_reason_hash = Some reason\<rparr> s)"

definition approve_proposal ::
  "env \<Rightarrow> address \<Rightarrow> hash32 \<Rightarrow> nat \<Rightarrow> matching_state \<Rightarrow> (MatchingError, matching_state) outcome" where
  "approve_proposal env a i expected s =
     and_then (load_proposal s i) (\<lambda>proposal.
     let is_mentor = (a = mentor proposal); is_mentee = (a = mentee proposal) in
     if \<not> is_mentor \<and> \<not> is_mentee then Err NotParticipant
     else and_then (require_auth env a) (\<lambda>_.
     if version proposal \<noteq> expected then Err StaleProposalVersion
     else if (is_mentor \<and> mentor_approved proposal) \<or> (is_mentee \<and> mentee_approved proposal) then Err AlreadyApproved
     else if status proposal \<noteq> Proposed then Err InvalidTransition
     else if timestamp env \<ge> expires_at proposal then Err ProposalExpired
     else and_then (require_eligible s (mentor proposal) (mentee proposal)) (\<lambda>_.
     let proposal = (if is_mentor then proposal\<lparr>mentor_approved := True\<rparr> else proposal\<lparr>mentee_approved := True\<rparr>);
         proposal = proposal\<lparr>updated_at := timestamp env\<rparr>;
         both_approved = (mentor_approved proposal \<and> mentee_approved proposal)
     in if both_approved
        then Ok (store_proposal (proposal\<lparr>status := Active\<rparr>) (decrease_pending (program_id proposal) s))
        else Ok (store_proposal proposal s))))"

definition decline_proposal ::
  "env \<Rightarrow> address \<Rightarrow> hash32 \<Rightarrow> nat \<Rightarrow> matching_state \<Rightarrow> (MatchingError, matching_state) outcome" where
  "decline_proposal env a i reason_code s =
     (if reason_code = 0 then Err InvalidReasonCode
      else and_then (load_proposal s i) (\<lambda>proposal.
      if a \<noteq> mentor proposal \<and> a \<noteq> mentee proposal then Err NotParticipant
      else and_then (require_auth env a) (\<lambda>_.
      if status proposal = Declined then Ok s
      else if status proposal \<noteq> Proposed then Err InvalidTransition
      else
        let proposal = proposal\<lparr>status := Declined, updated_at := timestamp env\<rparr>
        in Ok (store_proposal proposal (decrease_pending (program_id proposal) s)))))"

definition adjust_proposal ::
  "env \<Rightarrow> address \<Rightarrow> hash32 \<Rightarrow> ProposalTerms \<Rightarrow> hash32 \<Rightarrow> matching_state \<Rightarrow>
   (MatchingError, hash32 \<times> matching_state) outcome" where
  "adjust_proposal env c i terms reason s =
     and_then (require_coordinator env s c) (\<lambda>_.
     if reason = ZERO_HASH then Err ReasonRequired
     else and_then (valid_terms env terms) (\<lambda>_.
     and_then (load_proposal s i) (\<lambda>proposal.
     if \<not> is_open (status proposal) then Err InvalidTransition
     else if timestamp env \<ge> expires_at proposal then Err ProposalExpired
     else and_then (require_eligible s (mentor proposal) (mentee proposal)) (\<lambda>_.
     and_then (if status proposal = Active then increase_pending (program_id proposal) s else Ok s) (\<lambda>s.
     and_then (ok_or (u32_checked (version proposal + 1)) CounterOverflow) (\<lambda>v.
     let proposal = proposal\<lparr>terms_hash := offered_hash terms, proposed_fee := offered_fee terms,
           expires_at := offered_expiry terms, status := Proposed, version := v, mentor_approved := False,
           mentee_approved := False, last_adjusted_by := Some c, updated_at := timestamp env\<rparr>;
         s = store_proposal proposal s;
         s = s\<lparr>ProposalReason := (ProposalReason s)(i \<mapsto> reason)\<rparr>
     in and_then (record_coordinator_action env c i Adjusted reason (version proposal) s) (\<lambda>(_, s).
     Ok (i, s))))))))"

definition get_proposal :: "matching_state \<Rightarrow> hash32 \<Rightarrow> (MatchingError, Proposal) outcome" where
  "get_proposal s i = load_proposal s i"

definition is_proposal_open :: "env \<Rightarrow> matching_state \<Rightarrow> hash32 \<Rightarrow> (MatchingError, bool) outcome" where
  "is_proposal_open env s i =
     and_then (load_proposal s i) (\<lambda>proposal.
     Ok (is_open (status proposal) \<and> timestamp env < expires_at proposal))"

definition open_proposal_for :: "env \<Rightarrow> matching_state \<Rightarrow> hash32 \<Rightarrow> address \<Rightarrow> address \<Rightarrow> hash32 option" where
  "open_proposal_for env s p x y =
     (case PairIndex s (p, x, y) of
        None \<Rightarrow> None
      | Some i \<Rightarrow>
          (case load_proposal s i of
             Ok proposal \<Rightarrow>
               if is_open (status proposal) \<and> timestamp env < expires_at proposal then Some i else None
           | _ \<Rightarrow> None))"

definition pending_proposal_count :: "matching_state \<Rightarrow> hash32 \<Rightarrow> nat" where
  "pending_proposal_count s p = pending_count s p"

definition proposal_reason :: "matching_state \<Rightarrow> hash32 \<Rightarrow> (MatchingError, hash32) outcome" where
  "proposal_reason s i = ok_or (ProposalReason s i) ReasonNotFound"

definition coordinator_action_count :: "matching_state \<Rightarrow> address \<Rightarrow> nat" where
  "coordinator_action_count s c = unwrap_or (CoordActionCount s c) 0"

definition coordinator_action :: "matching_state \<Rightarrow> address \<Rightarrow> nat \<Rightarrow> (MatchingError, CoordinatorAction) outcome" where
  "coordinator_action s c q = ok_or (CoordAction s (c, q)) ActionNotFound"

section \<open>Calls and steps\<close>

datatype matching_call =
    Initialize address | Upgrade address hash32 | SetCoordinator address address bool
  | RegisterParticipant address address ParticipantRole | SetParticipantStatus address address ParticipantStatus
  | SetBlock address address bool | CreateProposal address hash32 address ProposalTerms
  | ProposeAsCoordinator address hash32 address address ProposalTerms hash32
  | ApproveProposal address hash32 nat | DeclineProposal address hash32 nat
  | AdjustProposal address hash32 ProposalTerms hash32

fun matching_exec ::
  "(bytes \<Rightarrow> hash32) \<Rightarrow> (address \<Rightarrow> bytes) \<Rightarrow> env \<Rightarrow> matching_call \<Rightarrow> matching_state \<Rightarrow>
   (MatchingError, matching_state) outcome" where
  "matching_exec sha xdr env (Initialize a) s = initialize env a s"
| "matching_exec sha xdr env (Upgrade a h) s = upgrade env a h s"
| "matching_exec sha xdr env (SetCoordinator a c b) s = set_coordinator env a c b s"
| "matching_exec sha xdr env (RegisterParticipant a x r) s = register_participant env a x r s"
| "matching_exec sha xdr env (SetParticipantStatus a x st) s = set_participant_status env a x st s"
| "matching_exec sha xdr env (SetBlock a b v) s = set_block env a b v s"
| "matching_exec sha xdr env (CreateProposal x p y ts) s = state_of (create_proposal sha xdr env x p y ts s)"
| "matching_exec sha xdr env (ProposeAsCoordinator c p x y ts h) s =
     state_of (propose_as_coordinator sha xdr env c p x y ts h s)"
| "matching_exec sha xdr env (ApproveProposal a i v) s = approve_proposal env a i v s"
| "matching_exec sha xdr env (DeclineProposal a i c) s = decline_proposal env a i c s"
| "matching_exec sha xdr env (AdjustProposal c i ts h) s = state_of (adjust_proposal env c i ts h s)"

inductive matching_step :: "(bytes \<Rightarrow> hash32) \<Rightarrow> (address \<Rightarrow> bytes) \<Rightarrow> matching_state \<Rightarrow> matching_state \<Rightarrow> bool"
  for sha xdr where
  call: "matching_exec sha xdr env c s = Ok t \<Longrightarrow> matching_step sha xdr s t"

inductive_cases matching_stepE: "matching_step sha xdr s t"

end
