(* ===== verification/Matching_Proposals.thy ===== *)
theory Matching_Proposals
  imports Mentorship_Matching
begin

text \<open>
  What each successful call of the matching contract does to a proposal, and the invariant of the proposal
  store: identifiers are fresh, the pair index finds the one open proposal of a pair, and the pending counter
  of a program is the number of its proposals that wait for approval.
\<close>

section \<open>What a successful call did\<close>

lemma matching_admin_Ok [outcome_iff]:
  "require_admin env s a = Ok u \<longleftrightarrow> Admin s = Some a \<and> auth env a"
  by (auto simp: require_admin_def admin_def outcome_iff)

lemma require_coordinator_Ok [outcome_iff]:
  "require_coordinator env s c = Ok u \<longleftrightarrow> auth env c \<and> Admin s \<noteq> None \<and> (Admin s = Some c \<or> is_coordinator s c)"
  by (auto simp: require_coordinator_def admin_def is_coordinator_def outcome_iff Let_def)

definition may_match :: "matching_state \<Rightarrow> address \<Rightarrow> address \<Rightarrow> bool" where
  "may_match s x y \<longleftrightarrow> x \<noteq> y \<and> \<not> is_blocked s x y \<and>
     (\<exists>a b. ParticipantAt s x = Some a \<and> ParticipantAt s y = Some b \<and> role a = Mentor \<and> role b = Mentee \<and>
        participant_status a = ParticipantStatus.Active \<and> participant_status b = ParticipantStatus.Active)"

lemma require_eligible_Ok [outcome_iff]: "require_eligible s x y = Ok u \<longleftrightarrow> may_match s x y"
  by (auto simp: require_eligible_def load_participant_def may_match_def is_blocked_def outcome_iff)

text \<open>The log after a coordinator's action.\<close>

definition with_action ::
  "env \<Rightarrow> address \<Rightarrow> hash32 \<Rightarrow> CoordinatorActionKind \<Rightarrow> hash32 \<Rightarrow> nat \<Rightarrow> matching_state \<Rightarrow> matching_state" where
  "with_action env c i k r v s =
     (let q = Suc (coordinator_action_count s c) in
      s\<lparr>CoordAction := (CoordAction s)((c, q) \<mapsto> \<lparr>coordinator = c, action_proposal = i, action_kind = k,
          action_reason = r, action_version = v, action_at = timestamp env\<rparr>),
        CoordActionCount := (CoordActionCount s)(c \<mapsto> q)\<rparr>)"

lemma record_action_Ok [outcome_iff]:
  "record_coordinator_action env c i k r v s = Ok z \<longleftrightarrow> coordinator_action_count s c < MAX_COORDINATOR_ACTIONS \<and>
     z = (Suc (coordinator_action_count s c), with_action env c i k r v s)"
  by (auto simp: record_coordinator_action_def with_action_def coordinator_action_count_def outcome_iff Let_def
      MAX_COORDINATOR_ACTIONS_def range_defs)

lemma increase_pending_Ok [outcome_iff]:
  "increase_pending p s = Ok t \<longleftrightarrow> pending_count s p < MAX_PENDING_PROPOSALS_PER_PROGRAM \<and>
     t = set_pending_count p (pending_count s p + 1) s"
  by (auto simp: increase_pending_def outcome_iff Let_def MAX_PENDING_PROPOSALS_PER_PROGRAM_def range_defs)

lemma derive_id_Ok [outcome_iff]:
  "derive_id sha env salt s = Ok z \<longleftrightarrow> fits_u64 (unwrap_or (ProposalCount s) 0 + 1) \<and>
     z = (counter_id sha (unwrap_or (ProposalCount s) 0 + 1) (be_bytes 8 (timestamp env) @ salt),
          s\<lparr>ProposalCount := Some (unwrap_or (ProposalCount s) 0 + 1)\<rparr>)"
  by (auto simp: derive_id_def counter_id_def outcome_iff Let_def)

definition new_proposal ::
  "env \<Rightarrow> hash32 \<Rightarrow> hash32 \<Rightarrow> address \<Rightarrow> address \<Rightarrow> ProposalTerms \<Rightarrow> CreationOptions \<Rightarrow> Proposal" where
  "new_proposal env i p x y terms opts = \<lparr>proposal_id = i, program_id = p, mentor = x, mentee = y,
     terms_hash = offered_hash terms, proposed_fee = offered_fee terms, expires_at = offered_expiry terms,
     created_by = opt_created_by opts, origin = opt_origin opts, last_adjusted_by = None, status = Proposed,
     version = 1, mentor_approved = False, mentee_approved = False, created_at = timestamp env,
     updated_at = timestamp env\<rparr>"

text \<open>The store with a proposal added.\<close>

definition added :: "nat \<Rightarrow> Proposal \<Rightarrow> matching_state \<Rightarrow> matching_state" where
  "added n q s = s\<lparr>ProposalCount := Some n,
     PendingCount := (PendingCount s)(program_id q \<mapsto> pending_count s (program_id q) + 1),
     ProposalAt := (ProposalAt s)(proposal_id q \<mapsto> q),
     PairIndex := (PairIndex s)((program_id q, mentor q, mentee q) \<mapsto> proposal_id q)\<rparr>"

definition with_reason ::
  "env \<Rightarrow> CreationOptions \<Rightarrow> hash32 \<Rightarrow> matching_state \<Rightarrow> matching_state" where
  "with_reason env opts i s =
     (case opt_reason_hash opts of
        None \<Rightarrow> s
      | Some r \<Rightarrow> with_action env (opt_created_by opts) i CoordinatorActionKind.Proposed r 1
          (s\<lparr>ProposalReason := (ProposalReason s)(i \<mapsto> r)\<rparr>))"

lemma clear_pair_Ok:
  assumes "clear_pair env key s = Ok t"
  obtains (same) "t = s" "\<And>j q. PairIndex s key = Some j \<Longrightarrow> ProposalAt s j = Some q \<Longrightarrow> \<not> is_open (status q)"
    | (expired) j q where "PairIndex s key = Some j" "ProposalAt s j = Some q" "is_open (status q)"
        "expires_at q \<le> timestamp env" "t = expire_proposal env q s"
proof (cases "PairIndex s key")
  case None
  with assms show thesis by (intro same) (auto simp: clear_pair_def)
next
  case (Some j)
  with assms obtain q where q: "ProposalAt s j = Some q" by (auto simp: clear_pair_def load_proposal_def outcome_iff)
  show thesis
  proof (cases "is_open (status q)")
    case True
    with assms Some q show thesis
      by (intro expired) (auto simp: clear_pair_def load_proposal_def outcome_iff split: if_splits)
  next
    case False
    with assms Some q show thesis by (intro same) (auto simp: clear_pair_def load_proposal_def)
  qed
qed

lemma create_proposal_Ok:
  assumes "create sha xdr env p x y terms opts s = Ok (i, t)"
  obtains s1 n where "valid_terms env terms = Ok ()" "may_match s x y" "clear_pair env (p, x, y) s = Ok s1"
    "n = unwrap_or (ProposalCount s1) 0 + 1" "fits_u64 n"
    "i = counter_id sha n (be_bytes 8 (timestamp env) @ p @ xdr x @ xdr y)"
    "pending_count s1 p < MAX_PENDING_PROPOSALS_PER_PROGRAM"
    "\<And>r. opt_reason_hash opts = Some r \<Longrightarrow> coordinator_action_count s (opt_created_by opts) < MAX_COORDINATOR_ACTIONS"
    "t = with_reason env opts i (added n (new_proposal env i p x y terms opts) s1)"
proof -
  from assms obtain s1 where s1: "valid_terms env terms = Ok ()" "may_match s x y" "clear_pair env (p, x, y) s = Ok s1"
    by (auto simp: create_def outcome_iff Let_def)
  have count: "CoordActionCount s1 = CoordActionCount s"
    using s1(3) by (rule clear_pair_Ok) (simp_all add: expire_proposal_def store_proposal_def decrease_pending_def
        set_pending_count_def Let_def)
  show thesis
    using assms s1 count
    by (intro that [of s1 "unwrap_or (ProposalCount s1) 0 + 1"])
      (auto simp: create_def outcome_iff Let_def added_def with_reason_def new_proposal_def store_proposal_def
        set_pending_count_def pending_count_def coordinator_action_count_def with_action_def split: option.splits)
qed

lemma approve_proposal_Ok:
  assumes "approve_proposal env a i v s = Ok t"
  obtains q r where "ProposalAt s i = Some q" "a \<in> {mentor q, mentee q}" "auth env a" "version q = v"
    "status q = Proposed" "timestamp env < expires_at q" "may_match s (mentor q) (mentee q)"
    "\<not> (if a = mentor q then mentor_approved q else mentee_approved q)"
    "r = (if a = mentor q then q\<lparr>mentor_approved := True, updated_at := timestamp env\<rparr>
          else q\<lparr>mentee_approved := True, updated_at := timestamp env\<rparr>)"
    "t = (if mentor_approved r \<and> mentee_approved r
          then store_proposal (r\<lparr>status := Active\<rparr>) (decrease_pending (program_id q) s) else store_proposal r s)"
proof -
  from assms obtain q where q: "ProposalAt s i = Some q" by (auto simp: approve_proposal_def load_proposal_def outcome_iff)
  show thesis
    by (rule that [OF q _ _ _ _ _ _ _ refl])
      (use assms q in \<open>auto simp: approve_proposal_def load_proposal_def outcome_iff Let_def split: if_splits\<close>)
qed

lemma decline_proposal_Ok:
  assumes "decline_proposal env a i n s = Ok t"
  obtains (again) "t = s"
    | (declined) q where "ProposalAt s i = Some q" "a \<in> {mentor q, mentee q}" "auth env a" "status q = Proposed"
        "t = store_proposal (q\<lparr>status := Declined, updated_at := timestamp env\<rparr>) (decrease_pending (program_id q) s)"
  using assms by (auto simp: decline_proposal_def load_proposal_def outcome_iff Let_def split: if_splits)

definition adjusted :: "env \<Rightarrow> address \<Rightarrow> ProposalTerms \<Rightarrow> Proposal \<Rightarrow> Proposal" where
  "adjusted env c terms q = q\<lparr>terms_hash := offered_hash terms, proposed_fee := offered_fee terms,
     expires_at := offered_expiry terms, status := Proposed, version := version q + 1, mentor_approved := False,
     mentee_approved := False, last_adjusted_by := Some c, updated_at := timestamp env\<rparr>"

lemma adjust_Ok:
  assumes "adjust_proposal env c i terms r s = Ok (j, t)"
  obtains q s1 where "ProposalAt s i = Some q" "auth env c" "Admin s = Some c \<or> is_coordinator s c"
    "valid_terms env terms = Ok ()" "is_open (status q)" "timestamp env < expires_at q"
    "may_match s (mentor q) (mentee q)" "status q = Active \<Longrightarrow> pending_count s (program_id q) < MAX_PENDING_PROPOSALS_PER_PROGRAM"
    "s1 = (if status q = Active then set_pending_count (program_id q) (pending_count s (program_id q) + 1) s else s)"
    "fits_u32 (version q + 1)" "coordinator_action_count s c < MAX_COORDINATOR_ACTIONS"
    "t = with_action env c i Adjusted r (version q + 1) ((store_proposal (adjusted env c terms q) s1)
       \<lparr>ProposalReason := (ProposalReason s)(i \<mapsto> r)\<rparr>)"
proof -
  from assms obtain q where q: "ProposalAt s i = Some q" by (auto simp: adjust_proposal_def load_proposal_def outcome_iff)
  show thesis
    by (rule that [OF q _ _ _ _ _ _ _ refl])
      (use assms q in \<open>auto simp: adjust_proposal_def load_proposal_def outcome_iff Let_def adjusted_def store_proposal_def
        set_pending_count_def coordinator_action_count_def with_action_def split: if_splits\<close>)
qed

text \<open>The life of one proposal: what a call may do to the stored value, and under which conditions.\<close>

definition approved :: "env \<Rightarrow> address \<Rightarrow> Proposal \<Rightarrow> Proposal" where
  "approved env a q =
     (let r = (if a = mentor q then q\<lparr>mentor_approved := True, updated_at := timestamp env\<rparr>
               else q\<lparr>mentee_approved := True, updated_at := timestamp env\<rparr>)
      in if mentor_approved r \<and> mentee_approved r then r\<lparr>status := Active\<rparr> else r)"

inductive proposal_move ::
  "env \<Rightarrow> matching_call \<Rightarrow> matching_state \<Rightarrow> hash32 \<Rightarrow> Proposal option \<Rightarrow> Proposal \<Rightarrow> bool"
  for env c s i where
  created: "may_match s x y \<Longrightarrow> valid_terms env terms = Ok () \<Longrightarrow>
    (\<exists>p. c = CreateProposal x p y terms \<and> auth env x \<and> opt_origin opts = ProposalOrigin.Mentor \<and> opt_created_by opts = x) \<or>
    (\<exists>d p r. c = ProposeAsCoordinator d p x y terms r \<and> auth env d \<and> (Admin s = Some d \<or> is_coordinator s d) \<and>
       opt_origin opts = Coordinator \<and> opt_created_by opts = d) \<Longrightarrow>
    proposal_move env c s i None (new_proposal env i p x y terms opts)"
| outdated: "is_open (status q) \<Longrightarrow> expires_at q \<le> timestamp env \<Longrightarrow>
    proposal_move env c s i (Some q) (q\<lparr>status := Expired, updated_at := timestamp env\<rparr>)"
| approval: "c = ApproveProposal a i (version q) \<Longrightarrow> auth env a \<Longrightarrow> a \<in> {mentor q, mentee q} \<Longrightarrow> status q = Proposed \<Longrightarrow>
    timestamp env < expires_at q \<Longrightarrow> may_match s (mentor q) (mentee q) \<Longrightarrow>
    proposal_move env c s i (Some q) (approved env a q)"
| refusal: "c = DeclineProposal a i n \<Longrightarrow> auth env a \<Longrightarrow> a \<in> {mentor q, mentee q} \<Longrightarrow> status q = Proposed \<Longrightarrow>
    proposal_move env c s i (Some q) (q\<lparr>status := Declined, updated_at := timestamp env\<rparr>)"
| adjustment: "c = AdjustProposal d i terms r \<Longrightarrow> auth env d \<Longrightarrow> Admin s = Some d \<or> is_coordinator s d \<Longrightarrow>
    is_open (status q) \<Longrightarrow> timestamp env < expires_at q \<Longrightarrow> may_match s (mentor q) (mentee q) \<Longrightarrow>
    valid_terms env terms = Ok () \<Longrightarrow> proposal_move env c s i (Some q) (adjusted env d terms q)"

section \<open>The proposal store\<close>

definition triple :: "Proposal \<Rightarrow> hash32 \<times> address \<times> address" where
  "triple q = (program_id q, mentor q, mentee q)"

definition waits :: "hash32 \<Rightarrow> Proposal \<Rightarrow> bool" where
  "waits p q \<longleftrightarrow> status q = Proposed \<and> program_id q = p"

definition proposal_ok :: "hash32 \<Rightarrow> Proposal \<Rightarrow> bool" where
  "proposal_ok i q \<longleftrightarrow> proposal_id q = i \<and> mentor q \<noteq> mentee q \<and> 0 < version q \<and> 0 \<le> proposed_fee q \<and>
     (status q = Active \<longrightarrow> mentor_approved q \<and> mentee_approved q) \<and>
     (status q = Proposed \<longrightarrow> \<not> (mentor_approved q \<and> mentee_approved q))"

definition store_wf :: "(bytes \<Rightarrow> hash32) \<Rightarrow> matching_state \<Rightarrow> bool" where
  "store_wf sha s \<longleftrightarrow> inj sha \<and> finite (dom (ProposalAt s)) \<and>
     issued sha (unwrap_or (ProposalCount s) 0) (dom (ProposalAt s)) \<and>
     (\<forall>i q. ProposalAt s i = Some q \<longrightarrow> proposal_ok i q) \<and>
     (\<forall>p. int (pending_count s p) = msum (\<lambda>q. of_bool (waits p q)) (ProposalAt s)) \<and>
     (\<forall>p. pending_count s p \<le> MAX_PENDING_PROPOSALS_PER_PROGRAM) \<and>
     (\<forall>k i. PairIndex s k = Some i \<longrightarrow> (\<exists>q. ProposalAt s i = Some q \<and> triple q = k)) \<and>
     (\<forall>i q. ProposalAt s i = Some q \<longrightarrow> is_open (status q) \<longrightarrow> PairIndex s (triple q) = Some i)"

lemma store_wfD:
  assumes "store_wf sha s"
  shows "inj sha" "finite (dom (ProposalAt s))" "issued sha (unwrap_or (ProposalCount s) 0) (dom (ProposalAt s))"
    "ProposalAt s i = Some q \<Longrightarrow> proposal_ok i q"
    "int (pending_count s p) = msum (\<lambda>q. of_bool (waits p q)) (ProposalAt s)"
    "pending_count s p \<le> MAX_PENDING_PROPOSALS_PER_PROGRAM"
    "PairIndex s k = Some i \<Longrightarrow> \<exists>q. ProposalAt s i = Some q \<and> triple q = k"
    "ProposalAt s i = Some q \<Longrightarrow> is_open (status q) \<Longrightarrow> PairIndex s (triple q) = Some i"
  using assms unfolding store_wf_def by blast+

lemma store_same_wf:
  "ProposalAt t = ProposalAt s \<Longrightarrow> PairIndex t = PairIndex s \<Longrightarrow> PendingCount t = PendingCount s \<Longrightarrow>
   ProposalCount t = ProposalCount s \<Longrightarrow> store_wf sha s \<Longrightarrow> store_wf sha t"
  by (simp add: store_wf_def pending_count_def)

lemma store_init_wf: "inj sha \<Longrightarrow> store_wf sha matching_init"
  by (simp add: store_wf_def matching_init_def pending_count_def)

lemma waiting_counted:
  assumes "store_wf sha s" "ProposalAt s i = Some q" "waits p q"
  shows "0 < pending_count s p"
proof -
  have "1 \<le> msum (\<lambda>q. of_bool (waits p q)) (ProposalAt s)"
    using msum_mem_le [OF store_wfD(2) [OF assms(1)] assms(2), of "\<lambda>q. of_bool (waits p q)"] assms(3) by simp
  then show ?thesis using store_wfD(5) [OF assms(1), of p] by simp
qed

text \<open>A proposal is written back: it may close but not reopen, and the counter follows.\<close>

lemma store_write_wf:
  assumes "store_wf sha s" "ProposalAt s i = Some q" "proposal_ok i r" "triple r = triple q"
    "is_open (status r) \<Longrightarrow> is_open (status q)" "ProposalAt t = (ProposalAt s)(i \<mapsto> r)" "PairIndex t = PairIndex s"
    "ProposalCount t = ProposalCount s"
    "\<And>p. pending_count t p + of_bool (waits p q) = pending_count s p + of_bool (waits p r)"
    "\<And>p. pending_count t p \<le> MAX_PENDING_PROPOSALS_PER_PROGRAM"
  shows "store_wf sha t"
proof -
  note wf = store_wfD [OF assms(1)]
  have "int (pending_count t p) = msum (\<lambda>q. of_bool (waits p q)) (ProposalAt t)" for p
    using msum_replace [OF wf(2) assms(2), of "\<lambda>q. of_bool (waits p q)" r] wf(5) [of p] assms(9) [of p]
    by (auto simp: assms(6) of_bool_def split: if_splits)
  moreover have "finite (dom (ProposalAt t))" "dom (ProposalAt t) = dom (ProposalAt s)"
    using wf(2) assms(2,6) by auto
  moreover have "\<exists>x. ProposalAt t j = Some x \<and> triple x = k" if "PairIndex t k = Some j" for k j
    using wf(7) [of k j] that assms(2,4,6,7) by auto
  moreover have "PairIndex t (triple x) = Some j" if "ProposalAt t j = Some x" "is_open (status x)" for j x
    using wf(8) [of j x] wf(8) [OF assms(2)] that assms(4-7) by (auto split: if_splits)
  moreover have "proposal_ok j x" if "ProposalAt t j = Some x" for j x
    using wf(4) [of j x] that assms(3,6) by (auto split: if_splits)
  ultimately show ?thesis using wf(1,3) assms(8,10) unfolding store_wf_def by simp
qed

lemma pending_count_simps:
  "pending_count (set_pending_count p n s) p' = (if p' = p then n else pending_count s p')"
  "pending_count (decrease_pending p s) p' = (if p' = p then pending_count s p - 1 else pending_count s p')"
  "pending_count (store_proposal q s) p' = pending_count s p'"
  by (simp_all add: pending_count_def set_pending_count_def decrease_pending_def store_proposal_def Let_def)

lemma pending_frame [simp]:
  "ProposalAt (decrease_pending p s) = ProposalAt s" "PairIndex (decrease_pending p s) = PairIndex s"
  "ProposalCount (decrease_pending p s) = ProposalCount s" "ProposalAt (set_pending_count p n s) = ProposalAt s"
  "PairIndex (set_pending_count p n s) = PairIndex s" "ProposalCount (set_pending_count p n s) = ProposalCount s"
  "CoordAction (decrease_pending p s) = CoordAction s" "CoordAction (set_pending_count p n s) = CoordAction s"
  "CoordActionCount (decrease_pending p s) = CoordActionCount s"
  "CoordActionCount (set_pending_count p n s) = CoordActionCount s"
  "ProposalReason (decrease_pending p s) = ProposalReason s" "ProposalReason (set_pending_count p n s) = ProposalReason s"
  "ParticipantAt (decrease_pending p s) = ParticipantAt s" "ParticipantAt (set_pending_count p n s) = ParticipantAt s"
  by (simp_all add: decrease_pending_def set_pending_count_def Let_def)

lemma store_proposal_simps [simp]:
  "ProposalAt (store_proposal q s) = (ProposalAt s)(proposal_id q \<mapsto> q)" "PairIndex (store_proposal q s) = PairIndex s"
  "ProposalCount (store_proposal q s) = ProposalCount s" "CoordAction (store_proposal q s) = CoordAction s"
  "CoordActionCount (store_proposal q s) = CoordActionCount s" "ProposalReason (store_proposal q s) = ProposalReason s"
  "ParticipantAt (store_proposal q s) = ParticipantAt s"
  by (simp_all add: store_proposal_def)

lemma expire_frame [simp]:
  "ProposalAt (expire_proposal env q s) = (ProposalAt s)(proposal_id q \<mapsto> q\<lparr>status := Expired, updated_at := timestamp env\<rparr>)"
  "PairIndex (expire_proposal env q s) = PairIndex s" "ProposalCount (expire_proposal env q s) = ProposalCount s"
  "CoordAction (expire_proposal env q s) = CoordAction s" "CoordActionCount (expire_proposal env q s) = CoordActionCount s"
  "ProposalReason (expire_proposal env q s) = ProposalReason s" "ParticipantAt (expire_proposal env q s) = ParticipantAt s"
  by (simp_all add: expire_proposal_def Let_def)

lemma expire_wf:
  assumes "store_wf sha s" "ProposalAt s i = Some q" "is_open (status q)"
  shows "store_wf sha (expire_proposal env q s)"
proof (rule store_write_wf [OF assms(1,2)])
  note ok = store_wfD(4) [OF assms(1,2)]
  show "proposal_ok i (q\<lparr>status := Expired, updated_at := timestamp env\<rparr>)" using ok by (simp add: proposal_ok_def)
  show "ProposalAt (expire_proposal env q s) = (ProposalAt s)(i \<mapsto> q\<lparr>status := Expired, updated_at := timestamp env\<rparr>)"
    using ok by (simp add: proposal_ok_def)
  show "pending_count (expire_proposal env q s) p + of_bool (waits p q) =
      pending_count s p + of_bool (waits p (q\<lparr>status := Expired, updated_at := timestamp env\<rparr>))" for p
    using waiting_counted [OF assms(1,2), of p]
    by (auto simp: expire_proposal_def pending_count_simps waits_def)
  show "pending_count (expire_proposal env q s) p \<le> MAX_PENDING_PROPOSALS_PER_PROGRAM" for p
    using store_wfD(6) [OF assms(1), of p] store_wfD(6) [OF assms(1), of "program_id q"]
    by (auto simp: expire_proposal_def pending_count_simps)
qed (simp_all add: assms(3) triple_def)

lemma clear_pair_wf:
  assumes "clear_pair env k s = Ok t" "store_wf sha s"
  shows "store_wf sha t" "ProposalAt t j = Some q \<Longrightarrow> triple q = k \<Longrightarrow> \<not> is_open (status q)"
proof -
  have closed: "\<not> is_open (status q)"
    if wf: "store_wf sha t" and none: "\<And>j q. PairIndex t k = Some j \<Longrightarrow> ProposalAt t j = Some q \<Longrightarrow> \<not> is_open (status q)"
      and q: "ProposalAt t j = Some q" "triple q = k" for t j q
    using store_wfD(8) [OF wf q(1)] none [OF _ q(1)] q(2) by auto
  show "store_wf sha t" using assms expire_wf by (auto elim: clear_pair_Ok)
  moreover have "\<not> is_open (status r)" if "PairIndex t k = Some i" "ProposalAt t i = Some r" for i r
    using assms(1)
  proof (rule clear_pair_Ok)
    show "\<not> is_open (status r)" if "t = s" "\<And>j q. PairIndex s k = Some j \<Longrightarrow> ProposalAt s j = Some q \<Longrightarrow> \<not> is_open (status q)"
      using that \<open>PairIndex t k = Some i\<close> \<open>ProposalAt t i = Some r\<close> by simp
    fix j q
    assume "PairIndex s k = Some j" "ProposalAt s j = Some q" "t = expire_proposal env q s"
    with store_wfD(4) [OF assms(2) this(2)] \<open>PairIndex t k = Some i\<close> \<open>ProposalAt t i = Some r\<close>
    show "\<not> is_open (status r)" by (auto simp: proposal_ok_def is_open_def)
  qed
  ultimately show "ProposalAt t j = Some q \<Longrightarrow> triple q = k \<Longrightarrow> \<not> is_open (status q)" using closed by blast
qed

lemma added_wf:
  assumes "store_wf sha s" "n = unwrap_or (ProposalCount s) 0 + 1" "fits_u64 n" "proposal_id q = counter_id sha n rest"
    "proposal_ok (proposal_id q) q" "status q = Proposed" "pending_count s (program_id q) < MAX_PENDING_PROPOSALS_PER_PROGRAM"
    "\<And>j x. ProposalAt s j = Some x \<Longrightarrow> triple x = triple q \<Longrightarrow> \<not> is_open (status x)"
  shows "store_wf sha (added n q s)"
proof -
  note wf = store_wfD [OF assms(1)]
  let ?i = "proposal_id q" let ?t = "added n q s"
  have new: "ProposalAt s ?i = None"
    using counter_id_fresh [OF wf(1,3)] assms(2-4) by (auto simp: domIff)
  have issued: "issued sha (unwrap_or (ProposalCount ?t) 0) (dom (ProposalAt ?t))"
    using issued_insert [OF wf(3)] assms(2-4) by (simp add: added_def)
  have count: "int (pending_count ?t p) = msum (\<lambda>q. of_bool (waits p q)) (ProposalAt ?t)" for p
    using msum_insert [OF wf(2) new, of "\<lambda>q. of_bool (waits p q)" q] wf(5) [of p] assms(6)
    by (cases "program_id q = p") (auto simp: added_def pending_count_def waits_def)
  have index: "\<exists>x. ProposalAt ?t j = Some x \<and> triple x = k" if "PairIndex ?t k = Some j" for k j
    using wf(7) [of k j] that new by (auto simp: added_def triple_def split: if_splits)
  have "PairIndex ?t (triple x) = Some j" if "ProposalAt ?t j = Some x" "is_open (status x)" for j x
    using wf(8) [of j x] assms(8) [of j x] that by (auto simp: added_def triple_def split: if_splits)
  moreover have "pending_count ?t p \<le> MAX_PENDING_PROPOSALS_PER_PROGRAM" for p
    using wf(6) [of p] assms(7) by (simp add: added_def pending_count_def)
  moreover have "proposal_ok j x" if "ProposalAt ?t j = Some x" for j x
    using wf(4) [of j x] assms(5) that by (auto simp: added_def split: if_splits)
  ultimately show ?thesis using wf(1,2) issued count index unfolding store_wf_def by (simp add: added_def)
qed

section \<open>Every call\<close>

lemma valid_terms_fee: "valid_terms env terms = Ok u \<Longrightarrow> 0 \<le> offered_fee terms"
  by (auto simp: valid_terms_def outcome_iff Let_def)

lemma new_proposal_simps [simp]:
  "proposal_id (new_proposal env i p x y terms opts) = i" "status (new_proposal env i p x y terms opts) = Proposed"
  "program_id (new_proposal env i p x y terms opts) = p" "triple (new_proposal env i p x y terms opts) = (p, x, y)"
  "version (new_proposal env i p x y terms opts) = 1" "origin (new_proposal env i p x y terms opts) = opt_origin opts"
  "created_by (new_proposal env i p x y terms opts) = opt_created_by opts"
  "last_adjusted_by (new_proposal env i p x y terms opts) = None"
  by (simp_all add: new_proposal_def triple_def)

lemma with_reason_frame [simp]:
  "ProposalAt (with_reason env opts i s) = ProposalAt s" "PairIndex (with_reason env opts i s) = PairIndex s"
  "PendingCount (with_reason env opts i s) = PendingCount s" "ProposalCount (with_reason env opts i s) = ProposalCount s"
  "ParticipantAt (with_reason env opts i s) = ParticipantAt s"
  by (simp_all add: with_reason_def with_action_def Let_def split: option.split)

lemma with_action_frame [simp]:
  "ProposalAt (with_action env c i k r v s) = ProposalAt s" "PairIndex (with_action env c i k r v s) = PairIndex s"
  "PendingCount (with_action env c i k r v s) = PendingCount s"
  "ProposalCount (with_action env c i k r v s) = ProposalCount s"
  "ProposalReason (with_action env c i k r v s) = ProposalReason s"
  "ParticipantAt (with_action env c i k r v s) = ParticipantAt s"
  by (simp_all add: with_action_def Let_def)

lemma create_proposal_wf:
  assumes "create sha xdr env p x y terms opts s = Ok (i, t)" "store_wf sha s"
  shows "store_wf sha t"
  using assms(1)
proof (rule create_proposal_Ok)
  fix s1 n
  let ?q = "new_proposal env i p x y terms opts"
  assume *: "valid_terms env terms = Ok ()" "may_match s x y" "clear_pair env (p, x, y) s = Ok s1"
    "n = unwrap_or (ProposalCount s1) 0 + 1" "fits_u64 n"
    "i = counter_id sha n (be_bytes 8 (timestamp env) @ p @ xdr x @ xdr y)"
    "pending_count s1 p < MAX_PENDING_PROPOSALS_PER_PROGRAM" "t = with_reason env opts i (added n ?q s1)"
  note s1 = clear_pair_wf [OF *(3) assms(2)]
  have "proposal_ok i ?q"
    using *(2) valid_terms_fee [OF *(1)] by (auto simp: proposal_ok_def new_proposal_def may_match_def)
  then have "store_wf sha (added n ?q s1)"
    using * s1(2) by (intro added_wf [OF s1(1)]) simp_all
  then show ?thesis
    unfolding *(8) by (rule store_same_wf [rotated 4]) simp_all
qed

lemma approved_simps:
  "proposal_id (approved env a q) = proposal_id q" "triple (approved env a q) = triple q" "version (approved env a q) = version q"
  "proposed_fee (approved env a q) = proposed_fee q" "terms_hash (approved env a q) = terms_hash q"
  "expires_at (approved env a q) = expires_at q" "program_id (approved env a q) = program_id q"
  "mentor (approved env a q) = mentor q" "mentee (approved env a q) = mentee q"
  "mentor_approved (approved env a q) = (mentor_approved q \<or> a = mentor q)"
  "mentee_approved (approved env a q) = (mentee_approved q \<or> a \<noteq> mentor q)"
  "status (approved env a q) =
    (if (mentor_approved q \<or> a = mentor q) \<and> (mentee_approved q \<or> a \<noteq> mentor q) then Active else status q)"
  by (auto simp: approved_def triple_def Let_def)

lemma approve_eq:
  assumes "approve_proposal env a i v s = Ok t"
  obtains q where "ProposalAt s i = Some q" "a \<in> {mentor q, mentee q}" "auth env a" "version q = v"
    "status q = Proposed" "timestamp env < expires_at q" "may_match s (mentor q) (mentee q)"
    "t = store_proposal (approved env a q)
      (if status (approved env a q) = Active then decrease_pending (program_id q) s else s)"
  using assms
proof (rule approve_proposal_Ok)
  fix q r
  assume *: "ProposalAt s i = Some q" "a \<in> {mentor q, mentee q}" "auth env a" "version q = v" "status q = Proposed"
    "timestamp env < expires_at q" "may_match s (mentor q) (mentee q)"
    "r = (if a = mentor q then q\<lparr>mentor_approved := True, updated_at := timestamp env\<rparr>
          else q\<lparr>mentee_approved := True, updated_at := timestamp env\<rparr>)"
    "t = (if mentor_approved r \<and> mentee_approved r
          then store_proposal (r\<lparr>status := Active\<rparr>) (decrease_pending (program_id q) s) else store_proposal r s)"
  have "t = store_proposal (approved env a q)
      (if status (approved env a q) = Active then decrease_pending (program_id q) s else s)"
    using *(5) unfolding *(8,9) approved_def by (simp add: Let_def)
  with * show thesis by (intro that [of q]) simp_all
qed

lemma approve_proposal_wf:
  assumes "approve_proposal env a i v s = Ok t" "store_wf sha s"
  shows "store_wf sha t"
  using assms(1)
proof (rule approve_eq)
  fix q :: Proposal
  let ?r = "approved env a q"
  assume *: "ProposalAt s i = Some q" "status q = Proposed"
    "t = store_proposal ?r (if status ?r = Active then decrease_pending (program_id q) s else s)"
  note ok = store_wfD(4) [OF assms(2) *(1)]
  show ?thesis
  proof (rule store_write_wf [OF assms(2) *(1)])
    show "proposal_ok i ?r" using ok *(2) by (auto simp: proposal_ok_def approved_simps)
    show "triple ?r = triple q" by (rule approved_simps)
    show "ProposalAt t = (ProposalAt s)(i \<mapsto> ?r)" using ok *(3) by (simp add: approved_simps proposal_ok_def)
    show "pending_count t p + of_bool (waits p q) = pending_count s p + of_bool (waits p ?r)" for p
      using waiting_counted [OF assms(2) *(1), of p] *(2)
      by (auto simp: *(3) pending_count_simps waits_def approved_simps)
    show "pending_count t p \<le> MAX_PENDING_PROPOSALS_PER_PROGRAM" for p
      using store_wfD(6) [OF assms(2), of p] by (auto simp: *(3) pending_count_simps intro: le_trans [OF diff_le_self])
  qed (use * in \<open>simp_all add: is_open_def\<close>)
qed

lemma decline_proposal_wf:
  assumes "decline_proposal env a i n s = Ok t" "store_wf sha s"
  shows "store_wf sha t"
  using assms(1)
proof (rule decline_proposal_Ok)
  show ?thesis if "t = s" using that assms(2) by simp
  fix q :: Proposal
  let ?r = "q\<lparr>status := Declined, updated_at := timestamp env\<rparr>"
  assume *: "ProposalAt s i = Some q" "status q = Proposed" "t = store_proposal ?r (decrease_pending (program_id q) s)"
  note ok = store_wfD(4) [OF assms(2) *(1)]
  show ?thesis
  proof (rule store_write_wf [OF assms(2) *(1)])
    show "proposal_ok i ?r" using ok by (simp add: proposal_ok_def)
    show "ProposalAt t = (ProposalAt s)(i \<mapsto> ?r)" using ok *(3) by (simp add: proposal_ok_def)
    show "pending_count t p + of_bool (waits p q) = pending_count s p + of_bool (waits p ?r)" for p
      using waiting_counted [OF assms(2) *(1), of p] *(2) by (auto simp: *(3) pending_count_simps waits_def)
    show "pending_count t p \<le> MAX_PENDING_PROPOSALS_PER_PROGRAM" for p
      using store_wfD(6) [OF assms(2), of p] by (auto simp: *(3) pending_count_simps intro: le_trans [OF diff_le_self])
  qed (use * in \<open>simp_all add: is_open_def triple_def\<close>)
qed

lemma adjust_wf:
  assumes "adjust_proposal env c i terms r s = Ok (j, t)" "store_wf sha s"
  shows "store_wf sha t"
  using assms(1)
proof (rule adjust_Ok)
  fix q :: Proposal and s1
  let ?r = "adjusted env c terms q"
  assume *: "ProposalAt s i = Some q" "valid_terms env terms = Ok ()" "is_open (status q)"
    "status q = Active \<Longrightarrow> pending_count s (program_id q) < MAX_PENDING_PROPOSALS_PER_PROGRAM"
    "s1 = (if status q = Active then set_pending_count (program_id q) (pending_count s (program_id q) + 1) s else s)"
    "t = with_action env c i Adjusted r (version q + 1) ((store_proposal ?r s1)\<lparr>ProposalReason := (ProposalReason s)(i \<mapsto> r)\<rparr>)"
  note ok = store_wfD(4) [OF assms(2) *(1)]
  have "store_wf sha (store_proposal ?r s1)"
  proof (rule store_write_wf [OF assms(2) *(1)])
    show "proposal_ok i ?r" using ok valid_terms_fee [OF *(2)] by (simp add: proposal_ok_def adjusted_def)
    show "ProposalAt (store_proposal ?r s1) = (ProposalAt s)(i \<mapsto> ?r)"
      using ok *(5) by (simp add: proposal_ok_def adjusted_def)
    show "pending_count (store_proposal ?r s1) p + of_bool (waits p q) = pending_count s p + of_bool (waits p ?r)" for p
      using *(3) by (auto simp: *(5) pending_count_simps waits_def adjusted_def is_open_def)
    show "pending_count (store_proposal ?r s1) p \<le> MAX_PENDING_PROPOSALS_PER_PROGRAM" for p
      using store_wfD(6) [OF assms(2), of p] *(4) by (auto simp: *(5) pending_count_simps)
  qed (use * in \<open>simp_all add: adjusted_def triple_def\<close>)
  then show ?thesis
    unfolding *(6) by (rule store_same_wf [rotated 4]) simp_all
qed

text \<open>The other calls do not touch the proposal store.\<close>

lemma other_calls_frame:
  assumes "matching_exec sha xdr env c s = Ok t"
    "case c of CreateProposal _ _ _ _ \<Rightarrow> False | ProposeAsCoordinator _ _ _ _ _ _ \<Rightarrow> False | ApproveProposal _ _ _ \<Rightarrow> False
     | DeclineProposal _ _ _ \<Rightarrow> False | AdjustProposal _ _ _ _ \<Rightarrow> False | _ \<Rightarrow> True"
  shows "ProposalAt t = ProposalAt s \<and> PairIndex t = PairIndex s \<and> PendingCount t = PendingCount s \<and>
    ProposalCount t = ProposalCount s \<and> CoordAction t = CoordAction s \<and> CoordActionCount t = CoordActionCount s \<and>
    ProposalReason t = ProposalReason s"
  using assms
  by (cases c) (auto simp: initialize_def upgrade_def set_coordinator_def register_participant_def
      set_participant_status_def set_block_def outcome_iff Let_def)

lemma matching_exec_store_wf:
  assumes "matching_exec sha xdr env c s = Ok t" "store_wf sha s"
  shows "store_wf sha t"
proof -
  have same: ?thesis if "case c of CreateProposal _ _ _ _ \<Rightarrow> False | ProposeAsCoordinator _ _ _ _ _ _ \<Rightarrow> False
     | ApproveProposal _ _ _ \<Rightarrow> False | DeclineProposal _ _ _ \<Rightarrow> False | AdjustProposal _ _ _ _ \<Rightarrow> False | _ \<Rightarrow> True"
    using other_calls_frame [OF assms(1) that] assms(2) store_same_wf by blast
  show ?thesis
  proof (cases c)
    case (CreateProposal x p y ts)
    with assms show ?thesis by (auto simp: create_proposal_def outcome_iff intro: create_proposal_wf)
  next
    case (ProposeAsCoordinator d p x y ts h)
    with assms show ?thesis by (auto simp: propose_as_coordinator_def outcome_iff intro: create_proposal_wf)
  next
    case (ApproveProposal a i v)
    with assms show ?thesis by (auto intro: approve_proposal_wf)
  next
    case (DeclineProposal a i n)
    with assms show ?thesis by (auto intro: decline_proposal_wf)
  next
    case (AdjustProposal d i ts h)
    with assms show ?thesis by (auto simp: outcome_iff intro: adjust_wf)
  qed (rule same; simp)+
qed

end
