(* ===== verification/Matching_Records.thy ===== *)
theory Matching_Records
  imports Matching_Proposals
begin

text \<open>
  Every change of a proposal by a call is one of its moves, and every coordinator action is on the record: the
  log of a coordinator is gapless and append-only, and it has an entry for each version that a coordinator made.
\<close>

section \<open>Every change of a proposal is a move\<close>

lemma clear_pair_proposals:
  assumes "clear_pair env k s = Ok t" "store_wf sha s" "ProposalAt t i \<noteq> ProposalAt s i"
  obtains q where "ProposalAt s i = Some q" "is_open (status q)" "expires_at q \<le> timestamp env" "triple q = k"
    "ProposalAt t i = Some (q\<lparr>status := Expired, updated_at := timestamp env\<rparr>)"
  using assms(1)
proof (rule clear_pair_Ok)
  show thesis if "t = s" using that assms(3) by simp
  fix j q
  assume *: "PairIndex s k = Some j" "ProposalAt s j = Some q" "is_open (status q)" "expires_at q \<le> timestamp env"
    "t = expire_proposal env q s"
  have j: "proposal_id q = j" using store_wfD(4) [OF assms(2) *(2)] by (simp add: proposal_ok_def)
  with assms(3) *(5) have "i = j" by (auto split: if_splits)
  moreover have "triple q = k" using store_wfD(7) [OF assms(2) *(1)] *(2) by auto
  ultimately show thesis using that * j by simp
qed

lemma create_moves:
  assumes "create sha xdr env p x y terms opts s = Ok (j, t)" "store_wf sha s"
    "(\<exists>p. c = CreateProposal x p y terms \<and> auth env x \<and> opt_origin opts = ProposalOrigin.Mentor \<and> opt_created_by opts = x) \<or>
     (\<exists>d p r. c = ProposeAsCoordinator d p x y terms r \<and> auth env d \<and> (Admin s = Some d \<or> is_coordinator s d) \<and>
        opt_origin opts = Coordinator \<and> opt_created_by opts = d)"
  shows "ProposalAt t i = ProposalAt s i \<or> (\<exists>y. ProposalAt t i = Some y \<and> proposal_move env c s i (ProposalAt s i) y)"
  using assms(1)
proof (rule create_proposal_Ok)
  fix s1 n
  let ?q = "new_proposal env j p x y terms opts"
  assume *: "valid_terms env terms = Ok ()" "may_match s x y" "clear_pair env (p, x, y) s = Ok s1"
    "n = unwrap_or (ProposalCount s1) 0 + 1" "fits_u64 n"
    "j = counter_id sha n (be_bytes 8 (timestamp env) @ p @ xdr x @ xdr y)"
    "t = with_reason env opts j (added n ?q s1)"
  note s1 = clear_pair_wf [OF *(3) assms(2)]
  have new: "ProposalAt s1 j = None"
    using counter_id_fresh [OF store_wfD(1,3) [OF s1(1)]] *(4-6) by (auto simp: domIff)
  have t: "ProposalAt t i = ((ProposalAt s1)(j \<mapsto> ?q)) i" using *(7) by (simp add: added_def)
  show ?thesis
  proof (cases "ProposalAt s1 i = ProposalAt s i")
    case True
    have "proposal_move env c s j None ?q" by (rule proposal_move.created [OF *(2,1) assms(3)])
    with True t new show ?thesis by (cases "i = j") auto
  next
    case False
    with *(3) assms(2) obtain q where q: "ProposalAt s i = Some q" "is_open (status q)" "expires_at q \<le> timestamp env"
      "ProposalAt s1 i = Some (q\<lparr>status := Expired, updated_at := timestamp env\<rparr>)"
      by (rule clear_pair_proposals)
    then have "i \<noteq> j" using new by auto
    with t q proposal_move.outdated [OF q(2,3), of c s i] show ?thesis by simp
  qed
qed

lemma exec_moves:
  assumes "matching_exec sha xdr env c s = Ok t" "store_wf sha s"
  shows "ProposalAt t i = ProposalAt s i \<or> (\<exists>y. ProposalAt t i = Some y \<and> proposal_move env c s i (ProposalAt s i) y)"
proof -
  have same: ?thesis if "case c of CreateProposal _ _ _ _ \<Rightarrow> False | ProposeAsCoordinator _ _ _ _ _ _ \<Rightarrow> False
     | ApproveProposal _ _ _ \<Rightarrow> False | DeclineProposal _ _ _ \<Rightarrow> False | AdjustProposal _ _ _ _ \<Rightarrow> False | _ \<Rightarrow> True"
    using other_calls_frame [OF assms(1) that] by simp
  have key: "proposal_id q = j" if "ProposalAt s j = Some q" for j q
    using store_wfD(4) [OF assms(2) that] by (simp add: proposal_ok_def)
  show ?thesis
  proof (cases c)
    case (CreateProposal x p y ts)
    with assms(1) obtain j where "create sha xdr env p x y ts
        \<lparr>opt_created_by = x, opt_origin = ProposalOrigin.Mentor, opt_reason_hash = None\<rparr> s = Ok (j, t)" "auth env x"
      by (auto simp: create_proposal_def outcome_iff)
    with CreateProposal show ?thesis by (intro create_moves [OF _ assms(2)]) auto
  next
    case (ProposeAsCoordinator d p x y ts h)
    with assms(1) obtain j where "create sha xdr env p x y ts
        \<lparr>opt_created_by = d, opt_origin = Coordinator, opt_reason_hash = Some h\<rparr> s = Ok (j, t)" "auth env d"
      "Admin s = Some d \<or> is_coordinator s d"
      by (auto simp: propose_as_coordinator_def outcome_iff)
    with ProposeAsCoordinator show ?thesis by (intro create_moves [OF _ assms(2)]) auto
  next
    case (ApproveProposal a j v)
    with assms(1) have "approve_proposal env a j v s = Ok t" by simp
    then show ?thesis
    proof (rule approve_eq)
      fix q
      assume *: "ProposalAt s j = Some q" "a \<in> {mentor q, mentee q}" "auth env a" "version q = v" "status q = Proposed"
        "timestamp env < expires_at q" "may_match s (mentor q) (mentee q)"
        "t = store_proposal (approved env a q)
          (if status (approved env a q) = Active then decrease_pending (program_id q) s else s)"
      have "proposal_move env c s j (Some q) (approved env a q)"
        using * ApproveProposal by (intro proposal_move.approval) auto
      with *(1,8) key [OF *(1)] show ?thesis by (auto simp: approved_simps)
    qed
  next
    case (DeclineProposal a j n)
    with assms(1) have "decline_proposal env a j n s = Ok t" by simp
    then show ?thesis
    proof (rule decline_proposal_Ok)
      fix q :: Proposal
      assume *: "ProposalAt s j = Some q" "a \<in> {mentor q, mentee q}" "auth env a" "status q = Proposed"
        "t = store_proposal (q\<lparr>status := Declined, updated_at := timestamp env\<rparr>) (decrease_pending (program_id q) s)"
      have "proposal_move env c s j (Some q) (q\<lparr>status := Declined, updated_at := timestamp env\<rparr>)"
        using * DeclineProposal by (intro proposal_move.refusal) auto
      with *(1,5) key [OF *(1)] show ?thesis by auto
    qed simp
  next
    case (AdjustProposal d j ts h)
    with assms(1) obtain k where "adjust_proposal env d j ts h s = Ok (k, t)" by (auto simp: outcome_iff)
    then show ?thesis
    proof (rule adjust_Ok)
      fix q :: Proposal and s1
      assume *: "ProposalAt s j = Some q" "auth env d" "Admin s = Some d \<or> is_coordinator s d"
        "valid_terms env ts = Ok ()" "is_open (status q)" "timestamp env < expires_at q" "may_match s (mentor q) (mentee q)"
        "s1 = (if status q = Active then set_pending_count (program_id q) (pending_count s (program_id q) + 1) s else s)"
        "t = with_action env d j Adjusted h (version q + 1) ((store_proposal (adjusted env d ts q) s1)
           \<lparr>ProposalReason := (ProposalReason s)(j \<mapsto> h)\<rparr>)"
      have "proposal_move env c s j (Some q) (adjusted env d ts q)"
        by (rule proposal_move.adjustment [OF AdjustProposal *(2,3,5,6,7,4)])
      with *(1,8,9) key [OF *(1)] show ?thesis by (auto simp: adjusted_def)
    qed
  qed (rule same; simp)+
qed

section \<open>What may still change\<close>

definition proposal_evolves :: "Proposal \<Rightarrow> Proposal \<Rightarrow> bool" where
  "proposal_evolves x y \<longleftrightarrow> triple y = triple x \<and> created_by y = created_by x \<and> origin y = origin x \<and>
     created_at y = created_at x \<and> version x \<le> version y \<and>
     (version y = version x \<longrightarrow> terms_hash y = terms_hash x \<and> proposed_fee y = proposed_fee x \<and>
        expires_at y = expires_at x \<and> last_adjusted_by y = last_adjusted_by x \<and>
        (mentor_approved x \<longrightarrow> mentor_approved y) \<and> (mentee_approved x \<longrightarrow> mentee_approved y) \<and>
        (status x = Active \<longrightarrow> status y = Active \<or> status y = Expired)) \<and>
     (\<not> is_open (status x) \<longrightarrow> y = x)"

lemma proposal_evolves_refl: "proposal_evolves x x"
  by (simp add: proposal_evolves_def)

lemma proposal_evolves_trans: "proposal_evolves x y \<Longrightarrow> proposal_evolves y z \<Longrightarrow> proposal_evolves x z"
  unfolding proposal_evolves_def is_open_def by auto

lemma move_evolves: "proposal_move env c s i m y \<Longrightarrow> m = Some x \<Longrightarrow> proposal_evolves x y"
  by (induction rule: proposal_move.induct)
    (auto simp: proposal_evolves_def approved_def adjusted_def is_open_def triple_def Let_def)

definition matching_evolves :: "matching_state \<Rightarrow> matching_state \<Rightarrow> bool" where
  "matching_evolves s t \<longleftrightarrow> kept proposal_evolves (ProposalAt s) (ProposalAt t) \<and> kept (=) (CoordAction s) (CoordAction t)"

section \<open>The coordinators' record\<close>

definition logged :: "matching_state \<Rightarrow> address \<Rightarrow> CoordinatorActionKind \<Rightarrow> hash32 \<Rightarrow> nat \<Rightarrow> hash32 \<Rightarrow> bool" where
  "logged s c k i v r \<longleftrightarrow> (\<exists>q a. coordinator_action s c q = Ok a \<and> coordinator a = c \<and> action_kind a = k \<and>
     action_proposal a = i \<and> action_version a = v \<and> action_reason a = r)"

text \<open>
  Every version of a proposal that a coordinator made is logged, and the current reason is that of the last
  coordinator action.
\<close>

definition reported :: "matching_state \<Rightarrow> hash32 \<Rightarrow> Proposal \<Rightarrow> bool" where
  "reported s i x \<longleftrightarrow>
     (origin x = Coordinator \<longrightarrow> (\<exists>r. logged s (created_by x) CoordinatorActionKind.Proposed i 1 r)) \<and>
     (\<forall>v. 1 < v \<longrightarrow> v \<le> version x \<longrightarrow> (\<exists>c r. logged s c Adjusted i v r)) \<and>
     (case last_adjusted_by x of
        Some c \<Rightarrow> 1 < version x \<and> (\<exists>r. ProposalReason s i = Some r \<and> logged s c Adjusted i (version x) r)
      | None \<Rightarrow> version x = 1 \<and>
          (if origin x = Coordinator
           then \<exists>r. ProposalReason s i = Some r \<and> logged s (created_by x) CoordinatorActionKind.Proposed i 1 r
           else ProposalReason s i = None))"

definition log_ok :: "matching_state \<Rightarrow> bool" where
  "log_ok s \<longleftrightarrow> (\<forall>c q. CoordAction s (c, q) \<noteq> None \<longleftrightarrow> 1 \<le> q \<and> q \<le> coordinator_action_count s c) \<and>
     (\<forall>c. coordinator_action_count s c \<le> MAX_COORDINATOR_ACTIONS) \<and>
     (\<forall>c q a. CoordAction s (c, q) = Some a \<longrightarrow> coordinator a = c \<and> action_reason a \<noteq> ZERO_HASH \<and>
        (\<exists>x. ProposalAt s (action_proposal a) = Some x \<and> action_version a \<le> version x)) \<and>
     dom (ProposalReason s) \<subseteq> dom (ProposalAt s)"

definition log_wf :: "matching_state \<Rightarrow> bool" where
  "log_wf s \<longleftrightarrow> log_ok s \<and> (\<forall>i x. ProposalAt s i = Some x \<longrightarrow> reported s i x)"

lemma log_okD:
  assumes "log_ok s"
  shows "CoordAction s (c, q) \<noteq> None \<longleftrightarrow> 1 \<le> q \<and> q \<le> coordinator_action_count s c"
    "coordinator_action_count s c \<le> MAX_COORDINATOR_ACTIONS"
    "CoordAction s (c, q) = Some a \<Longrightarrow> coordinator a = c \<and> action_reason a \<noteq> ZERO_HASH \<and>
        (\<exists>x. ProposalAt s (action_proposal a) = Some x \<and> action_version a \<le> version x)"
    "dom (ProposalReason s) \<subseteq> dom (ProposalAt s)"
  using assms unfolding log_ok_def by blast+

lemma log_same_ok:
  assumes "log_ok s" "CoordAction t = CoordAction s" "CoordActionCount t = CoordActionCount s"
    "ProposalReason t = ProposalReason s"
    "\<And>i x. ProposalAt s i = Some x \<Longrightarrow> \<exists>y. ProposalAt t i = Some y \<and> version x \<le> version y"
  shows "log_ok t"
proof -
  note ok = log_okD [OF assms(1)]
  have count: "coordinator_action_count t = coordinator_action_count s"
    by (simp add: fun_eq_iff coordinator_action_count_def assms(3))
  have "\<exists>x. ProposalAt t (action_proposal a) = Some x \<and> action_version a \<le> version x"
    if "CoordAction s (c, q) = Some a" for c q a
    using ok(3) [OF that] assms(5) by (meson le_trans)
  moreover have "dom (ProposalReason t) \<subseteq> dom (ProposalAt t)" using ok(4) assms(4,5) by fastforce
  ultimately show ?thesis using ok(1-3) unfolding log_ok_def count assms(2) by blast
qed

lemma reported_cong:
  assumes "reported s i x" "CoordAction t = CoordAction s" "ProposalReason t i = ProposalReason s i"
    "origin y = origin x" "created_by y = created_by x" "version y = version x" "last_adjusted_by y = last_adjusted_by x"
  shows "reported t i y"
proof -
  have "logged t = logged s" by (simp add: fun_eq_iff logged_def coordinator_action_def assms(2))
  with assms show ?thesis by (cases "last_adjusted_by x") (simp_all add: reported_def del: One_nat_def)
qed

lemma count_with_action:
  "coordinator_action_count (with_action env c i k r v s) d =
     (if d = c then Suc (coordinator_action_count s c) else coordinator_action_count s d)"
  by (simp add: coordinator_action_count_def with_action_def Let_def)

lemma append_ok:
  assumes "log_ok s" "ProposalAt s i = Some x" "v \<le> version x" "r \<noteq> ZERO_HASH"
    "coordinator_action_count s c < MAX_COORDINATOR_ACTIONS"
  shows "log_ok (with_action env c i k r v (s\<lparr>ProposalReason := (ProposalReason s)(i \<mapsto> r)\<rparr>))"
proof -
  let ?s = "s\<lparr>ProposalReason := (ProposalReason s)(i \<mapsto> r)\<rparr>" let ?t = "with_action env c i k r v ?s"
  let ?q = "Suc (coordinator_action_count s c)"
  note ok = log_okD [OF assms(1)]
  have count: "coordinator_action_count ?s = coordinator_action_count s"
    by (simp add: fun_eq_iff coordinator_action_count_def)
  have act: "CoordAction ?t = (CoordAction s)((c, ?q) \<mapsto> \<lparr>coordinator = c, action_proposal = i, action_kind = k,
      action_reason = r, action_version = v, action_at = timestamp env\<rparr>)"
    by (simp add: with_action_def count)
  have "CoordAction ?t (d, q) \<noteq> None \<longleftrightarrow> 1 \<le> q \<and> q \<le> coordinator_action_count ?t d" for d q
    using ok(1) [of d q] by (auto simp: act count_with_action count)
  moreover have "coordinator_action_count ?t d \<le> MAX_COORDINATOR_ACTIONS" for d
    using ok(2) [of d] assms(5) by (auto simp: count_with_action count)
  moreover have "coordinator a = d \<and> action_reason a \<noteq> ZERO_HASH \<and>
      (\<exists>x. ProposalAt ?t (action_proposal a) = Some x \<and> action_version a \<le> version x)"
    if "CoordAction ?t (d, q) = Some a" for d q a
    using that ok(3) [of d q a] assms(2-4) by (auto simp: act split: if_splits)
  ultimately show ?thesis using ok(4) assms(2) unfolding log_ok_def by (auto simp: domIff)
qed

lemma append_logged:
  assumes "log_ok s"
  shows "logged (with_action env c i k r v (s\<lparr>ProposalReason := (ProposalReason s)(i \<mapsto> r)\<rparr>)) c k i v r"
    "logged s d k' j v' r' \<Longrightarrow> logged (with_action env c i k r v (s\<lparr>ProposalReason := (ProposalReason s)(i \<mapsto> r)\<rparr>)) d k' j v' r'"
proof -
  let ?s = "s\<lparr>ProposalReason := (ProposalReason s)(i \<mapsto> r)\<rparr>" let ?t = "with_action env c i k r v ?s"
  let ?q = "Suc (coordinator_action_count s c)"
  have count: "coordinator_action_count ?s c = coordinator_action_count s c"
    by (simp add: coordinator_action_count_def)
  have act: "CoordAction ?t = (CoordAction s)((c, ?q) \<mapsto> \<lparr>coordinator = c, action_proposal = i, action_kind = k,
      action_reason = r, action_version = v, action_at = timestamp env\<rparr>)"
    by (simp add: with_action_def count)
  show "logged ?t c k i v r"
    unfolding logged_def coordinator_action_def act by (rule exI [of _ ?q]) simp
  have "CoordAction s (c, ?q) = None" using log_okD(1) [OF assms, of c ?q] by auto
  then have "CoordAction ?t (e, q) = Some a" if "CoordAction s (e, q) = Some a" for e q a
    using that unfolding act by auto
  then show "logged ?t d k' j v' r'" if "logged s d k' j v' r'"
    using that unfolding logged_def coordinator_action_def ok_or_Ok by blast
qed

lemma append_reported:
  assumes "log_ok s" "reported s j x" "j \<noteq> i"
  shows "reported (with_action env c i k r v (s\<lparr>ProposalReason := (ProposalReason s)(i \<mapsto> r)\<rparr>)) j x"
proof -
  note more = append_logged(2) [OF assms(1), of _ _ _ _ _ env c i k r v]
  show ?thesis
    using assms(2,3) more unfolding reported_def
    by (cases "last_adjusted_by x") (auto simp del: One_nat_def split: if_splits; blast)+
qed

text \<open>A call that leaves the log alone.\<close>

lemma log_keep_wf:
  assumes "log_wf s" "CoordAction t = CoordAction s" "CoordActionCount t = CoordActionCount s"
    "ProposalReason t = ProposalReason s"
    "\<And>i x. ProposalAt s i = Some x \<Longrightarrow> \<exists>y. ProposalAt t i = Some y \<and> version x \<le> version y"
    "\<And>i y. ProposalAt t i = Some y \<Longrightarrow> (\<exists>x. ProposalAt s i = Some x \<and> origin y = origin x \<and>
       created_by y = created_by x \<and> version y = version x \<and> last_adjusted_by y = last_adjusted_by x) \<or>
       ProposalAt s i = None \<and> origin y = ProposalOrigin.Mentor \<and> version y = 1 \<and> last_adjusted_by y = None"
  shows "log_wf t"
proof -
  have ok: "log_ok s" using assms(1) by (simp add: log_wf_def)
  have "reported t i y" if "ProposalAt t i = Some y" for i y
    using assms(6) [OF that]
  proof (elim disjE exE conjE)
    fix x
    assume x: "ProposalAt s i = Some x" "origin y = origin x" "created_by y = created_by x" "version y = version x"
      "last_adjusted_by y = last_adjusted_by x"
    then have "reported s i x" using assms(1) by (simp add: log_wf_def)
    then show ?thesis by (rule reported_cong) (use assms(2,4) x in simp_all)
  next
    assume new: "ProposalAt s i = None" "origin y = ProposalOrigin.Mentor" "version y = 1" "last_adjusted_by y = None"
    then have "ProposalReason t i = None" using log_okD(4) [OF ok] assms(4) by (auto simp: domIff)
    with new show ?thesis by (simp add: reported_def)
  qed
  moreover have "log_ok t" by (rule log_same_ok [OF ok assms(2-5)])
  ultimately show ?thesis by (simp add: log_wf_def)
qed

lemma clear_pair_log_wf:
  assumes "clear_pair env k s = Ok t" "store_wf sha s" "log_wf s"
  shows "log_wf t"
  using assms(1)
proof (rule clear_pair_Ok)
  show ?thesis if "t = s" using that assms(3) by simp
  fix j q
  assume *: "ProposalAt s j = Some q" "t = expire_proposal env q s"
  have "proposal_id q = j" using store_wfD(4) [OF assms(2) *(1)] by (simp add: proposal_ok_def)
  with * show ?thesis by (intro log_keep_wf [OF assms(3)]) (auto split: if_splits)
qed

lemma create_log_wf:
  assumes "create sha xdr env p x y terms opts s = Ok (i, t)" "store_wf sha s" "log_wf s"
    "case opt_reason_hash opts of None \<Rightarrow> opt_origin opts = ProposalOrigin.Mentor
     | Some r \<Rightarrow> opt_origin opts = Coordinator \<and> r \<noteq> ZERO_HASH"
  shows "log_wf t"
  using assms(1)
proof (rule create_proposal_Ok)
  fix s1 n
  let ?q = "new_proposal env i p x y terms opts" let ?s = "added n ?q s1"
  assume *: "clear_pair env (p, x, y) s = Ok s1" "n = unwrap_or (ProposalCount s1) 0 + 1" "fits_u64 n"
    "i = counter_id sha n (be_bytes 8 (timestamp env) @ p @ xdr x @ xdr y)"
    "\<And>r. opt_reason_hash opts = Some r \<Longrightarrow> coordinator_action_count s (opt_created_by opts) < MAX_COORDINATOR_ACTIONS"
    "t = with_reason env opts i ?s"
  note s1 = clear_pair_wf [OF *(1) assms(2)] and log = clear_pair_log_wf [OF *(1) assms(2,3)]
  have new: "ProposalAt s1 i = None"
    using counter_id_fresh [OF store_wfD(1,3) [OF s1(1)]] *(2-4) by (auto simp: domIff)
  have frame: "CoordAction ?s = CoordAction s1" "CoordActionCount ?s = CoordActionCount s1"
    "ProposalReason ?s = ProposalReason s1" "ProposalAt ?s = (ProposalAt s1)(i \<mapsto> ?q)"
    by (simp_all add: added_def)
  have ok: "log_ok ?s"
    using log new by (intro log_same_ok [OF _ frame(1-3)]) (auto simp: frame(4) log_wf_def)
  show ?thesis
  proof (cases "opt_reason_hash opts")
    case None
    with assms(4) new have "log_wf ?s"
      by (intro log_keep_wf [OF log frame(1-3)]) (auto simp: frame(4) split: if_splits)
    with None *(6) show ?thesis by (simp add: with_reason_def)
  next
    case (Some r)
    let ?c = "opt_created_by opts" let ?k = CoordinatorActionKind.Proposed
    let ?t = "with_action env ?c i ?k r 1 (?s\<lparr>ProposalReason := (ProposalReason ?s)(i \<mapsto> r)\<rparr>)"
    have "CoordActionCount s1 = CoordActionCount s" using *(1) by (rule clear_pair_Ok) simp_all
    then have "coordinator_action_count ?s ?c = coordinator_action_count s ?c"
      by (simp add: coordinator_action_count_def frame(2))
    then have "log_ok ?t" using assms(4) Some *(5) by (intro append_ok [OF ok, of i ?q]) (simp_all add: frame(4))
    moreover have "reported ?t j z" if "ProposalAt s1 j = Some z" for j z
    proof -
      have "reported s1 j z" using that log by (simp add: log_wf_def)
      then have "reported ?s j z" by (rule reported_cong) (simp_all add: frame)
      moreover have "j \<noteq> i" using that new by auto
      ultimately show ?thesis by (rule append_reported [OF ok])
    qed
    moreover have "reported ?t i ?q"
      using append_logged(1) [OF ok, of env ?c i ?k r 1] assms(4) Some
      by (auto simp: reported_def simp del: One_nat_def)
    ultimately have "log_wf ?t" by (simp add: log_wf_def frame(4))
    with Some *(6) show ?thesis by (simp add: with_reason_def frame(3))
  qed
qed

lemma adjust_log_wf:
  assumes "adjust_proposal env c i terms r s = Ok (j, t)" "store_wf sha s" "log_wf s" "r \<noteq> ZERO_HASH"
  shows "log_wf t"
  using assms(1)
proof (rule adjust_Ok)
  fix q :: Proposal and s1
  let ?q = "adjusted env c terms q" let ?s = "store_proposal ?q s1"
  assume *: "ProposalAt s i = Some q" "coordinator_action_count s c < MAX_COORDINATOR_ACTIONS"
    "s1 = (if status q = Active then set_pending_count (program_id q) (pending_count s (program_id q) + 1) s else s)"
    "t = with_action env c i Adjusted r (version q + 1) (?s\<lparr>ProposalReason := (ProposalReason s)(i \<mapsto> r)\<rparr>)"
  have key: "proposal_id q = i" using store_wfD(4) [OF assms(2) *(1)] by (simp add: proposal_ok_def)
  have frame: "CoordAction ?s = CoordAction s" "CoordActionCount ?s = CoordActionCount s"
    "ProposalReason ?s = ProposalReason s" "ProposalAt ?s = (ProposalAt s)(i \<mapsto> ?q)"
    using key by (simp_all add: *(3) adjusted_def)
  have "\<exists>y. ProposalAt ?s k = Some y \<and> version x \<le> version y" if "ProposalAt s k = Some x" for k x
    using that *(1) unfolding frame(4) by (cases "k = i") (simp_all add: adjusted_def)
  then have ok: "log_ok ?s"
    using assms(3) by (intro log_same_ok [OF _ frame(1-3)]) (simp_all add: log_wf_def del: store_proposal_simps)
  have at: "ProposalAt ?s i = Some ?q" unfolding frame(4) by simp
  have ver: "version q + 1 \<le> version ?q" by (simp add: adjusted_def)
  let ?t = "with_action env c i Adjusted r (version q + 1) (?s\<lparr>ProposalReason := (ProposalReason ?s)(i \<mapsto> r)\<rparr>)"
  have "coordinator_action_count ?s c < MAX_COORDINATOR_ACTIONS"
    using *(2) unfolding coordinator_action_count_def frame(2) .
  then have "log_ok ?t" using assms(4) by (intro append_ok [OF ok at ver]) simp_all
  moreover have "reported ?t k z" if "ProposalAt s k = Some z" "k \<noteq> i" for k z
  proof -
    have "reported s k z" using that(1) assms(3) by (simp add: log_wf_def)
    then have "reported ?s k z" by (rule reported_cong) (simp_all add: frame del: store_proposal_simps)
    then show ?thesis using that(2) by (rule append_reported [OF ok])
  qed
  moreover have "reported ?t i ?q"
  proof -
    have same: "logged ?s = logged s"
      by (simp add: fun_eq_iff logged_def coordinator_action_def frame(1) del: store_proposal_simps)
    have old: "reported s i q" using assms(3) *(1) by (simp add: log_wf_def)
    note more = append_logged(2) [OF ok, unfolded same, of _ _ _ _ _ env c i Adjusted r "version q + 1"]
    have "\<exists>c' r'. logged ?t c' Adjusted i v r'" if "1 < v" "v \<le> version q + 1" for v
    proof (cases "v = version q + 1")
      case True
      then show ?thesis using append_logged(1) [OF ok] by blast
    next
      case False
      with that have "v \<le> version q" by simp
      with old that(1) obtain c' r' where "logged s c' Adjusted i v r'" unfolding reported_def by blast
      from more [OF this] show ?thesis by blast
    qed
    moreover have "\<exists>r'. logged ?t (created_by q) CoordinatorActionKind.Proposed i 1 r'" if "origin q = Coordinator"
      using old that more unfolding reported_def by blast
    moreover have "logged ?t c Adjusted i (version q + 1) r" by (rule append_logged(1) [OF ok])
    moreover have "0 < version q" using store_wfD(4) [OF assms(2) *(1)] by (simp add: proposal_ok_def)
    ultimately show ?thesis by (simp add: reported_def adjusted_def del: One_nat_def)
  qed
  ultimately have "log_wf ?t"
    unfolding log_wf_def with_action_frame by (auto simp: frame(4) simp del: store_proposal_simps split: if_splits)
  then show ?thesis unfolding *(4) frame(3) .
qed

section \<open>Every call, every run\<close>

lemma matching_exec_log_wf:
  assumes "matching_exec sha xdr env c s = Ok t" "store_wf sha s" "log_wf s"
  shows "log_wf t"
proof -
  have same: ?thesis if "case c of CreateProposal _ _ _ _ \<Rightarrow> False | ProposeAsCoordinator _ _ _ _ _ _ \<Rightarrow> False
     | ApproveProposal _ _ _ \<Rightarrow> False | DeclineProposal _ _ _ \<Rightarrow> False | AdjustProposal _ _ _ _ \<Rightarrow> False | _ \<Rightarrow> True"
  proof -
    note frame = other_calls_frame [OF assms(1) that]
    show ?thesis by (rule log_keep_wf [OF assms(3)]) (simp_all add: frame)
  qed
  have key: "proposal_id q = j" if "ProposalAt s j = Some q" for j q
    using store_wfD(4) [OF assms(2) that] by (simp add: proposal_ok_def)
  show ?thesis
  proof (cases c)
    case (CreateProposal x p y ts)
    with assms(1) obtain j where "create sha xdr env p x y ts
        \<lparr>opt_created_by = x, opt_origin = ProposalOrigin.Mentor, opt_reason_hash = None\<rparr> s = Ok (j, t)"
      by (auto simp: create_proposal_def outcome_iff)
    from create_log_wf [OF this assms(2,3)] show ?thesis by simp
  next
    case (ProposeAsCoordinator d p x y ts h)
    with assms(1) obtain j where "create sha xdr env p x y ts
        \<lparr>opt_created_by = d, opt_origin = Coordinator, opt_reason_hash = Some h\<rparr> s = Ok (j, t)" "h \<noteq> ZERO_HASH"
      by (auto simp: propose_as_coordinator_def outcome_iff)
    from create_log_wf [OF this(1) assms(2,3)] this(2) show ?thesis by simp
  next
    case (ApproveProposal a j v)
    with assms(1) have "approve_proposal env a j v s = Ok t" by simp
    then show ?thesis
    proof (rule approve_eq)
      fix q
      assume *: "ProposalAt s j = Some q" "t = store_proposal (approved env a q)
          (if status (approved env a q) = Active then decrease_pending (program_id q) s else s)"
      have "origin (approved env a q) = origin q" "created_by (approved env a q) = created_by q"
        "last_adjusted_by (approved env a q) = last_adjusted_by q"
        by (simp_all add: approved_def Let_def)
      with * key [OF *(1)] show ?thesis
        by (intro log_keep_wf [OF assms(3)]) (auto simp: approved_simps split: if_splits)
    qed
  next
    case (DeclineProposal a j n)
    with assms(1) have "decline_proposal env a j n s = Ok t" by simp
    then show ?thesis
    proof (rule decline_proposal_Ok)
      fix q :: Proposal
      assume *: "ProposalAt s j = Some q"
        "t = store_proposal (q\<lparr>status := Declined, updated_at := timestamp env\<rparr>) (decrease_pending (program_id q) s)"
      with key [OF *(1)] show ?thesis by (intro log_keep_wf [OF assms(3)]) (auto split: if_splits)
    qed (simp add: assms(3))
  next
    case (AdjustProposal d j ts h)
    with assms have "h \<noteq> ZERO_HASH" by (auto simp: adjust_proposal_def outcome_iff)
    with AdjustProposal assms show ?thesis by (auto simp: outcome_iff intro: adjust_log_wf)
  qed (rule same; simp)+
qed

definition matching_wf :: "(bytes \<Rightarrow> hash32) \<Rightarrow> matching_state \<Rightarrow> bool" where
  "matching_wf sha s \<longleftrightarrow> store_wf sha s \<and> log_wf s"

lemma matching_init_wf: "inj sha \<Longrightarrow> matching_wf sha matching_init"
  by (simp add: matching_wf_def store_init_wf)
    (simp add: log_wf_def log_ok_def matching_init_def coordinator_action_count_def)

text \<open>The stored actions stay.\<close>

lemma log_append_kept:
  assumes "log_ok s"
  shows "kept (=) (CoordAction s) (CoordAction (with_action env c i k r v s))"
proof -
  have "CoordAction s (c, Suc (coordinator_action_count s c)) = None"
    using log_okD(1) [OF assms, of c "Suc (coordinator_action_count s c)"] by auto
  then show ?thesis by (auto simp: kept_def with_action_def Let_def)
qed

lemma matching_exec_log_kept:
  assumes "matching_exec sha xdr env c s = Ok t" "log_ok s"
  shows "kept (=) (CoordAction s) (CoordAction t)"
proof -
  have same: ?thesis if "case c of CreateProposal _ _ _ _ \<Rightarrow> False | ProposeAsCoordinator _ _ _ _ _ _ \<Rightarrow> False
     | ApproveProposal _ _ _ \<Rightarrow> False | DeclineProposal _ _ _ \<Rightarrow> False | AdjustProposal _ _ _ _ \<Rightarrow> False | _ \<Rightarrow> True"
    using other_calls_frame [OF assms(1) that] by (simp add: kept_refl)
  have append: "kept (=) (CoordAction s) (CoordAction (with_action env d i k r v u))"
    if "CoordAction u = CoordAction s" "CoordActionCount u = CoordActionCount s" for d i k r v u
  proof -
    have "CoordAction (with_action env d i k r v u) = CoordAction (with_action env d i k r v s)"
      using that by (simp add: with_action_def coordinator_action_count_def Let_def)
    then show ?thesis using log_append_kept [OF assms(2)] by simp
  qed
  have created: ?thesis if "create sha xdr env p x y ts opts s = Ok (i, t)" for p x y ts opts i
    using that
  proof (rule create_proposal_Ok)
    fix s1 n
    assume *: "clear_pair env (p, x, y) s = Ok s1" "t = with_reason env opts i (added n (new_proposal env i p x y ts opts) s1)"
    have "CoordAction s1 = CoordAction s \<and> CoordActionCount s1 = CoordActionCount s"
      using *(1) by (rule clear_pair_Ok) simp_all
    then show ?thesis
      unfolding *(2) with_reason_def
      by (cases "opt_reason_hash opts") (simp_all add: append added_def kept_refl)
  qed
  show ?thesis
  proof (cases c)
    case (CreateProposal x p y ts)
    with assms(1) show ?thesis by (auto simp: create_proposal_def outcome_iff intro: created)
  next
    case (ProposeAsCoordinator d p x y ts h)
    with assms(1) show ?thesis by (auto simp: propose_as_coordinator_def outcome_iff intro: created)
  next
    case (ApproveProposal a j v)
    with assms(1) have "approve_proposal env a j v s = Ok t" by simp
    then show ?thesis by (rule approve_eq) (simp add: kept_refl)
  next
    case (DeclineProposal a j n)
    with assms(1) have "decline_proposal env a j n s = Ok t" by simp
    then show ?thesis by (rule decline_proposal_Ok) (simp_all add: kept_refl)
  next
    case (AdjustProposal d j ts h)
    with assms(1) obtain k where "adjust_proposal env d j ts h s = Ok (k, t)" by (auto simp: outcome_iff)
    then show ?thesis by (rule adjust_Ok) (simp add: append)
  qed (rule same; simp)+
qed

lemma matching_step_wf: "matching_step sha xdr s t \<Longrightarrow> matching_wf sha s \<Longrightarrow> matching_wf sha t"
  by (auto simp: matching_wf_def elim!: matching_stepE intro: matching_exec_store_wf matching_exec_log_wf)

lemma matching_step_evolves:
  assumes "matching_step sha xdr s t" "matching_wf sha s"
  shows "matching_evolves s t"
  using assms(1)
proof (rule matching_stepE)
  fix env c
  assume call: "matching_exec sha xdr env c s = Ok t"
  have wf: "store_wf sha s" "log_ok s" using assms(2) by (simp_all add: matching_wf_def log_wf_def)
  have "\<exists>y. ProposalAt t i = Some y \<and> proposal_evolves x y" if "ProposalAt s i = Some x" for i x
    using exec_moves [OF call wf(1), of i] that move_evolves [of env c s i "Some x" _ x] proposal_evolves_refl by auto
  then show ?thesis using matching_exec_log_kept [OF call wf(2)] by (simp add: matching_evolves_def kept_def)
qed

interpretation matching: evolving "matching_step sha xdr" "matching_wf sha" matching_evolves for sha xdr
proof unfold_locales
  show "matching_evolves s s" for s by (simp add: matching_evolves_def kept_refl proposal_evolves_refl)
  show "matching_evolves s u" if "matching_evolves s t" "matching_evolves t u" for s t u
  proof -
    have "kept proposal_evolves (ProposalAt s) (ProposalAt u)"
      using that kept_trans [where R = proposal_evolves] proposal_evolves_trans unfolding matching_evolves_def by blast
    moreover have "kept (=) (CoordAction s) (CoordAction u)"
      using that unfolding matching_evolves_def kept_def by blast
    ultimately show ?thesis by (simp add: matching_evolves_def)
  qed
qed (auto intro: matching_step_wf matching_step_evolves)

lemma matching_run_wf:
  "(matching_step sha xdr)\<^sup>*\<^sup>* matching_init s \<Longrightarrow> inj sha \<Longrightarrow> store_wf sha s \<and> log_wf s"
  using matching.run matching_init_wf unfolding matching_wf_def by blast

end
