(* ===== verification/Matching_Consent.thy ===== *)
theory Matching_Consent
  imports Matching_Records
begin

text \<open>
  What the matching contract guarantees: matches rest on the consent of both participants to the exact terms,
  ineligible pairs are frozen, at most one proposal of a pair is open, the pending counter is exact, and
  overrides are reported. Two findings: an agreed match can expire and be replaced, and an expired proposal
  occupies its place in the program until the same pair is proposed again.
\<close>

section \<open>A small history\<close>

abbreviation matching_env :: "nat \<Rightarrow> env" where
  "matching_env t \<equiv> \<lparr>timestamp = t, ledger_sequence = 7, self = 99, auth = (\<lambda>_. True)\<rparr>"

definition demo_terms :: "nat \<Rightarrow> ProposalTerms" where
  "demo_terms e = \<lparr>offered_hash = [8], offered_fee = 30, offered_expiry = e\<rparr>"

definition demo_id :: "nat \<Rightarrow> nat \<Rightarrow> hash32" where
  "demo_id n t = be_bytes 8 n @ be_bytes 8 t @ [5]"

definition demo_proposal :: "bool \<Rightarrow> bool \<Rightarrow> Proposal" where
  "demo_proposal a b = \<lparr>proposal_id = demo_id 1 10, program_id = [5], mentor = 2, mentee = 3, terms_hash = [8],
     proposed_fee = 30, expires_at = 100, created_by = 7, origin = Coordinator, last_adjusted_by = None,
     status = (if a \<and> b then Active else Proposed), version = 1, mentor_approved = a, mentee_approved = b,
     created_at = 10, updated_at = 10\<rparr>"

definition demo_matching :: "bool \<Rightarrow> bool \<Rightarrow> matching_state" where
  "demo_matching a b = \<lparr>Admin = Some 1, Coordinators = [7 \<mapsto> True],
     ParticipantAt = [2 \<mapsto> \<lparr>role = Mentor, participant_status = ParticipantStatus.Active, participant_updated_at = 10\<rparr>,
       3 \<mapsto> \<lparr>role = Mentee, participant_status = ParticipantStatus.Active, participant_updated_at = 10\<rparr>],
     BlockedAt = Map.empty, ProposalCount = Some 1, ProposalAt = [demo_id 1 10 \<mapsto> demo_proposal a b],
     PairIndex = [([5], 2, 3) \<mapsto> demo_id 1 10], PendingCount = [[5] \<mapsto> if a \<and> b then 0 else 1],
     ProposalReason = [demo_id 1 10 \<mapsto> [9]], CoordActionCount = [7 \<mapsto> 1],
     CoordAction = [(7, 1) \<mapsto> \<lparr>coordinator = 7, action_proposal = demo_id 1 10,
       action_kind = CoordinatorActionKind.Proposed, action_reason = [9], action_version = 1, action_at = 10\<rparr>]\<rparr>"

lemma short_not_ZERO: "length h < 32 \<Longrightarrow> h \<noteq> ZERO_HASH"
  by (auto simp: ZERO_HASH_def)

lemmas matching_call_defs = initialize_def require_admin_def require_coordinator_def admin_def set_coordinator_def
  register_participant_def create_proposal_def propose_as_coordinator_def approve_proposal_def create_def
  valid_terms_def require_eligible_def load_participant_def blocked_def clear_pair_def derive_id_def
  increase_pending_def decrease_pending_def set_pending_count_def pending_count_def store_proposal_def
  record_coordinator_action_def load_proposal_def short_not_ZERO MAX_PROPOSAL_LIFETIME_def
  MAX_PENDING_PROPOSALS_PER_PROGRAM_def MAX_COORDINATOR_ACTIONS_def Let_def u64_checked_def u32_checked_def range_defs
  state_of_def

lemmas demo_matching_defs = matching_init_def demo_terms_def demo_id_def demo_proposal_def demo_matching_def

lemma demo_matching_run:
  "run_calls (matching_exec id (\<lambda>_. []))
     [(matching_env 10, Initialize 1), (matching_env 10, SetCoordinator 1 7 True),
      (matching_env 10, RegisterParticipant 1 2 Mentor), (matching_env 10, RegisterParticipant 1 3 Mentee),
      (matching_env 10, ProposeAsCoordinator 7 [5] 2 3 (demo_terms 100) [9])] matching_init = Ok (demo_matching False False)"
  by (simp add: matching_call_defs demo_matching_defs del: One_nat_def be_bytes.simps)

lemma demo_approval:
  "approve_proposal (matching_env 10) 2 (demo_id 1 10) 1 (demo_matching False False) = Ok (demo_matching True False)"
  "approve_proposal (matching_env 10) 3 (demo_id 1 10) 1 (demo_matching True False) = Ok (demo_matching True True)"
  by (simp_all add: matching_call_defs demo_matching_defs del: One_nat_def be_bytes.simps)

lemma matching_run_steps: "run_calls (matching_exec sha xdr) cs s = Ok t \<Longrightarrow> (matching_step sha xdr)\<^sup>*\<^sup>* s t"
  by (rule run_calls_steps) (auto intro: matching_step.call)

lemma demo_matching_reachable:
  "(matching_step id (\<lambda>_. []))\<^sup>*\<^sup>* matching_init (demo_matching False False)"
  "(matching_step id (\<lambda>_. []))\<^sup>*\<^sup>* matching_init (demo_matching True False)"
  "(matching_step id (\<lambda>_. []))\<^sup>*\<^sup>* matching_init (demo_matching True True)"
proof -
  have steps: "matching_step id (\<lambda>_. []) (demo_matching False False) (demo_matching True False)"
    "matching_step id (\<lambda>_. []) (demo_matching True False) (demo_matching True True)"
    using demo_approval matching_step.call [of id "\<lambda>_. []" "matching_env 10" "ApproveProposal 2 (demo_id 1 10) 1"]
      matching_step.call [of id "\<lambda>_. []" "matching_env 10" "ApproveProposal 3 (demo_id 1 10) 1"] by simp_all
  show first: "(matching_step id (\<lambda>_. []))\<^sup>*\<^sup>* matching_init (demo_matching False False)"
    using matching_run_steps [OF demo_matching_run] .
  show second: "(matching_step id (\<lambda>_. []))\<^sup>*\<^sup>* matching_init (demo_matching True False)"
    using first steps(1) by (rule rtranclp.rtrancl_into_rtrancl)
  show "(matching_step id (\<lambda>_. []))\<^sup>*\<^sup>* matching_init (demo_matching True True)"
    using second steps(2) by (rule rtranclp.rtrancl_into_rtrancl)
qed

lemma demo_matching_stored: "ProposalAt (demo_matching a b) (demo_id 1 10) = Some (demo_proposal a b)"
  by (simp add: demo_matching_def)

section \<open>Properties\<close>

text \<open>
  C24. A match needs the consent of both participants to its exact terms. Whatever call leads from a reachable
  state to the next: a proposal that carries the approval of a participant carried it before under the same
  version, terms, fee and expiry, or the call is the approval of exactly this version by that
  participant, authorised by them, before the expiry. An active proposal carries both approvals, and it became
  active in a state where both participants were eligible.
\<close>

theorem match_needs_consent:
  assumes "inj sha" and "(matching_step sha xdr)\<^sup>*\<^sup>* matching_init s" and "matching_exec sha xdr env c s = Ok t"
    and "ProposalAt t i = Some y"
  shows "(mentor_approved y \<longrightarrow> (\<exists>x. ProposalAt s i = Some x \<and> version x = version y \<and> terms_hash x = terms_hash y \<and>
        proposed_fee x = proposed_fee y \<and> expires_at x = expires_at y \<and> (mentor_approved x \<or>
          c = ApproveProposal (mentor y) i (version y) \<and> auth env (mentor y) \<and> timestamp env < expires_at y))) \<and>
    (mentee_approved y \<longrightarrow> (\<exists>x. ProposalAt s i = Some x \<and> version x = version y \<and> terms_hash x = terms_hash y \<and>
        proposed_fee x = proposed_fee y \<and> expires_at x = expires_at y \<and> (mentee_approved x \<or>
          c = ApproveProposal (mentee y) i (version y) \<and> auth env (mentee y) \<and> timestamp env < expires_at y))) \<and>
    (status y = Active \<longrightarrow> mentor_approved y \<and> mentee_approved y \<and>
      (ProposalAt s i = Some y \<or> is_ok (require_eligible s (mentor y) (mentee y))))"
proof -
  have wf: "store_wf sha s" using matching_run_wf [OF assms(2,1)] by simp
  have both: "status y = Active \<longrightarrow> mentor_approved y \<and> mentee_approved y"
    using store_wfD(4) [OF matching_exec_store_wf [OF assms(3) wf] assms(4)] by (simp add: proposal_ok_def)
  from exec_moves [OF assms(3) wf, of i] assms(4)
  consider "ProposalAt s i = Some y" | "proposal_move env c s i (ProposalAt s i) y" by auto
  then show ?thesis
  proof cases
    case 1
    with both show ?thesis by simp
  next
    case 2
    then show ?thesis
    proof cases
      case (approval a q)
      then show ?thesis
        using both by (auto simp: approved_simps is_ok_iff outcome_iff)
    next
      case (outdated q)
      then show ?thesis by simp
    next
      case (refusal a n q)
      then show ?thesis by simp
    qed (simp_all add: new_proposal_def adjusted_def)
  qed
qed

theorem match_needs_consent_witness:
  "\<exists>x. ProposalAt (demo_matching True False) (demo_id 1 10) = Some x \<and> version x = 1 \<and> terms_hash x = [8]"
proof -
  have call: "matching_exec id (\<lambda>_. []) (matching_env 10) (ApproveProposal 3 (demo_id 1 10) 1) (demo_matching True False) =
      Ok (demo_matching True True)"
    using demo_approval(2) by simp
  from match_needs_consent [OF _ demo_matching_reachable(2) call demo_matching_stored, THEN conjunct1]
  show ?thesis by (auto simp: demo_proposal_def)
qed

text \<open>
  Nobody can match an ineligible pair. While one of two participants is unknown, in the wrong role, not
  active, or has blocked the other, whoever calls: no proposal between them is created, and a stored one stays
  as it is or is closed by a refusal or by its expiry.
\<close>

theorem ineligible_pair_frozen:
  assumes "inj sha" and "(matching_step sha xdr)\<^sup>*\<^sup>* matching_init s" and "matching_exec sha xdr env c s = Ok t"
    and "ProposalAt t i = Some y" and "\<not> is_ok (require_eligible s (mentor y) (mentee y))"
  shows "\<exists>x. ProposalAt s i = Some x \<and> (y = x \<or> is_open (status x) \<and>
    (\<exists>st \<in> {Declined, Expired}. y = x\<lparr>status := st, updated_at := timestamp env\<rparr>))"
proof -
  have wf: "store_wf sha s" using matching_run_wf [OF assms(2,1)] by simp
  have not_ok: "\<not> may_match s (mentor y) (mentee y)" using assms(5) by (simp add: is_ok_iff outcome_iff)
  from exec_moves [OF assms(3) wf, of i] assms(4)
  consider "ProposalAt s i = Some y" | "proposal_move env c s i (ProposalAt s i) y" by auto
  then show ?thesis
  proof cases
    case 2
    then show ?thesis
      by cases (use not_ok in \<open>auto simp: new_proposal_def adjusted_def approved_simps is_open_def\<close>)
  qed simp
qed

definition demo_barred :: matching_state where
  "demo_barred = (demo_matching True False)\<lparr>BlockedAt := [(3, 2) \<mapsto> True]\<rparr>"

theorem ineligible_pair_frozen_witness:
  "\<exists>x. ProposalAt demo_barred (demo_id 1 10) = Some x \<and> \<not> mentee_approved x"
proof -
  have set: "matching_exec id (\<lambda>_. []) (matching_env 10) (SetBlock 3 2 True) (demo_matching True False) = Ok demo_barred"
    by (simp add: set_block_def demo_barred_def demo_matching_def)
  have run: "(matching_step id (\<lambda>_. []))\<^sup>*\<^sup>* matching_init demo_barred"
    using demo_matching_reachable(2) matching_step.call [OF set] by (rule rtranclp.rtrancl_into_rtrancl)
  have again: "matching_exec id (\<lambda>_. []) (matching_env 10) (SetBlock 3 2 True) demo_barred = Ok demo_barred"
    by (simp add: set_block_def demo_barred_def)
  have stored: "ProposalAt demo_barred (demo_id 1 10) = Some (demo_proposal True False)"
    by (simp add: demo_barred_def demo_matching_def)
  have "\<not> is_ok (require_eligible demo_barred 2 3)"
    by (simp add: require_eligible_def load_participant_def blocked_def demo_barred_def demo_matching_def)
  with ineligible_pair_frozen [OF _ run again stored] stored show ?thesis by (simp add: demo_proposal_def)
qed

text \<open>
  At most one proposal of a pair is open. In every reachable state \<open>open_proposal_for\<close> answers exactly the
  proposal of the program, mentor and mentee that \<open>is_proposal_open\<close> confirms, and no two open proposals belong to
  the same program, mentor and mentee.
\<close>

theorem open_proposal_unique:
  assumes "inj sha" and "(matching_step sha xdr)\<^sup>*\<^sup>* matching_init s"
  shows "(open_proposal_for env s p x y = Some i \<longleftrightarrow> (\<exists>q. get_proposal s i = Ok q \<and> program_id q = p \<and> mentor q = x \<and>
      mentee q = y \<and> is_proposal_open env s i = Ok True)) \<and>
    (get_proposal s i = Ok q \<longrightarrow> get_proposal s j = Ok r \<longrightarrow> is_open (status q) \<longrightarrow> is_open (status r) \<longrightarrow>
      program_id q = program_id r \<longrightarrow> mentor q = mentor r \<longrightarrow> mentee q = mentee r \<longrightarrow> i = j)"
proof -
  have wf: "store_wf sha s" using matching_run_wf [OF assms(2,1)] by simp
  have found: "PairIndex s (program_id q, mentor q, mentee q) = Some i"
    if "ProposalAt s i = Some q" "is_open (status q)" for i q
    using store_wfD(8) [OF wf that] by (simp add: triple_def)
  have stored: "\<exists>q. ProposalAt s i = Some q \<and> program_id q = p \<and> mentor q = x \<and> mentee q = y"
    if "PairIndex s (p, x, y) = Some i" for i
    using store_wfD(7) [OF wf that] by (auto simp: triple_def)
  show ?thesis
  proof (intro conjI impI)
    show "open_proposal_for env s p x y = Some i \<longleftrightarrow> (\<exists>q. get_proposal s i = Ok q \<and> program_id q = p \<and> mentor q = x \<and>
      mentee q = y \<and> is_proposal_open env s i = Ok True)" (is "?l \<longleftrightarrow> ?r")
    proof
      assume l: ?l
      then obtain q where "PairIndex s (p, x, y) = Some i" "ProposalAt s i = Some q" "is_open (status q)"
        "timestamp env < expires_at q"
        by (auto simp: open_proposal_for_def load_proposal_def ok_or_def split: option.splits if_splits)
      with stored [of i] show ?r by (auto simp: get_proposal_def is_proposal_open_def load_proposal_def)
    next
      assume r: ?r
      then obtain q where "ProposalAt s i = Some q" "program_id q = p" "mentor q = x" "mentee q = y" "is_open (status q)"
        "timestamp env < expires_at q"
        by (auto simp: get_proposal_def is_proposal_open_def load_proposal_def outcome_iff)
      with found [of i q] show ?l by (simp add: open_proposal_for_def load_proposal_def)
    qed
    assume "get_proposal s i = Ok q" "get_proposal s j = Ok r" "is_open (status q)" "is_open (status r)"
      "program_id q = program_id r" "mentor q = mentor r" "mentee q = mentee r"
    with found [of i q] found [of j r] show "i = j" by (simp add: get_proposal_def load_proposal_def outcome_iff)
  qed
qed

theorem open_proposal_unique_witness:
  "open_proposal_for (matching_env 50) (demo_matching True True) [5] 2 3 = Some (demo_id 1 10)"
  using open_proposal_unique [OF _ demo_matching_reachable(3), of "matching_env 50" "[5]" 2 3 "demo_id 1 10", THEN conjunct1]
  by (simp add: get_proposal_def is_proposal_open_def load_proposal_def demo_matching_stored del: One_nat_def)
    (simp add: demo_proposal_def is_open_def)

text \<open>
  The pending counter is exact. In every reachable state the pending count of a program is the number of
  its stored proposals that wait for approval, at most 128.
\<close>

theorem pending_counter_exact:
  assumes "inj sha" and "(matching_step sha xdr)\<^sup>*\<^sup>* matching_init s"
  shows "pending_proposal_count s p = card {i. \<exists>q. ProposalAt s i = Some q \<and> status q = Proposed \<and> program_id q = p} \<and>
    pending_proposal_count s p \<le> 128"
proof -
  have wf: "store_wf sha s" using matching_run_wf [OF assms(2,1)] by simp
  from store_wfD(5) [OF wf, of p] msum_count [OF store_wfD(2) [OF wf], of "waits p"] store_wfD(6) [OF wf, of p]
  show ?thesis by (simp add: pending_proposal_count_def waits_def MAX_PENDING_PROPOSALS_PER_PROGRAM_def)
qed

theorem pending_counter_exact_witness:
  "card {i. \<exists>q. ProposalAt (demo_matching True False) i = Some q \<and> status q = Proposed \<and> program_id q = [5]} = 1"
  using pending_counter_exact [OF _ demo_matching_reachable(2), of "[5]"]
  by (simp add: pending_proposal_count_def pending_count_def) (simp add: demo_matching_def)

text \<open>
  Overrides are reported. In every reachable state the actions of a coordinator are numbered from 1 without
  gaps, at most 1024, each with a reason that is not zero and a stored proposal. A proposal that a coordinator
  made, and every later version, which only a coordinator can make, has its entry in the log of the coordinator
  responsible, and \<open>proposal_reason\<close> answers the reason of the last action.
\<close>

theorem overrides_reported:
  assumes "inj sha" and "(matching_step sha xdr)\<^sup>*\<^sup>* matching_init s" and "ProposalAt s i = Some x"
  shows "(is_ok (coordinator_action s d k) \<longleftrightarrow> 1 \<le> k \<and> k \<le> coordinator_action_count s d) \<and>
    coordinator_action_count s d \<le> 1024 \<and>
    (\<forall>v. (v = 1 \<longrightarrow> origin x = Coordinator) \<longrightarrow> 1 \<le> v \<longrightarrow> v \<le> version x \<longrightarrow>
       (\<exists>e n a. coordinator_action s e n = Ok a \<and> coordinator a = e \<and> action_proposal a = i \<and> action_version a = v \<and>
          action_reason a \<noteq> ZERO_HASH \<and>
          (v = 1 \<longrightarrow> e = created_by x \<and> action_kind a = CoordinatorActionKind.Proposed) \<and>
          (1 < v \<longrightarrow> action_kind a = Adjusted) \<and>
          (v = version x \<longrightarrow> proposal_reason s i = Ok (action_reason a) \<and> (1 < v \<longrightarrow> last_adjusted_by x = Some e))))"
proof (intro conjI allI impI)
  have log: "log_ok s" and reported: "reported s i x" and wf: "store_wf sha s"
    using matching_run_wf [OF assms(2,1)] assms(3) by (auto simp: log_wf_def)
  show "is_ok (coordinator_action s d k) \<longleftrightarrow> 1 \<le> k \<and> k \<le> coordinator_action_count s d"
    using log_okD(1) [OF log, of d k] by (cases "CoordAction s (d, k)") (auto simp: coordinator_action_def)
  show "coordinator_action_count s d \<le> 1024" using log_okD(2) [OF log] by (simp add: MAX_COORDINATOR_ACTIONS_def)
  fix v
  assume v: "v = 1 \<longrightarrow> origin x = Coordinator" "1 \<le> v" "v \<le> version x"
  let ?k = "if v = 1 then CoordinatorActionKind.Proposed else Adjusted"
  have entry: "\<exists>e r. logged s e ?k i v r \<and> (v = 1 \<longrightarrow> e = created_by x) \<and>
      (v = version x \<longrightarrow> ProposalReason s i = Some r \<and> (1 < v \<longrightarrow> last_adjusted_by x = Some e))"
  proof (cases "v = version x")
    case True
    with v reported show ?thesis
      by (cases "last_adjusted_by x") (auto simp: reported_def simp del: One_nat_def)
  next
    case False
    with v reported show ?thesis
      by (cases "v = 1") (auto simp: reported_def simp del: One_nat_def)
  qed
  then obtain e r where e: "logged s e ?k i v r" "v = 1 \<longrightarrow> e = created_by x"
    "v = version x \<longrightarrow> ProposalReason s i = Some r \<and> (1 < v \<longrightarrow> last_adjusted_by x = Some e)" by blast
  then obtain n a where a: "coordinator_action s e n = Ok a" "coordinator a = e" "action_kind a = ?k"
    "action_proposal a = i" "action_version a = v" "action_reason a = r"
    unfolding logged_def by blast
  then have "r \<noteq> ZERO_HASH" using log_okD(3) [OF log, of e n a] by (auto simp: coordinator_action_def outcome_iff)
  with a e(2,3) show "\<exists>e n a. coordinator_action s e n = Ok a \<and> coordinator a = e \<and> action_proposal a = i \<and>
      action_version a = v \<and> action_reason a \<noteq> ZERO_HASH \<and>
      (v = 1 \<longrightarrow> e = created_by x \<and> action_kind a = CoordinatorActionKind.Proposed) \<and>
      (1 < v \<longrightarrow> action_kind a = Adjusted) \<and>
      (v = version x \<longrightarrow> proposal_reason s i = Ok (action_reason a) \<and> (1 < v \<longrightarrow> last_adjusted_by x = Some e))"
    by (intro exI [of _ e] exI [of _ n] exI [of _ a]) (auto simp: proposal_reason_def)
qed

theorem overrides_reported_witness:
  "\<exists>n a. coordinator_action (demo_matching True True) 7 n = Ok a \<and> action_proposal a = demo_id 1 10"
proof -
  note all = overrides_reported [OF _ demo_matching_reachable(3) demo_matching_stored, THEN conjunct2, THEN conjunct2]
  from all [THEN spec, of 1] show ?thesis
    by (force simp: demo_proposal_def simp del: One_nat_def)
qed

text \<open>
  A proposal keeps its identity. From any reachable state on a stored proposal keeps its program, its
  participants and its origin; its version never falls; within a version the terms, the fee and the expiry are
  fixed, approvals stay, and an agreed match stays agreed or expires; a declined or expired proposal never
  changes again.
\<close>

theorem proposal_life:
  assumes "inj sha" and "(matching_step sha xdr)\<^sup>*\<^sup>* matching_init s" and "(matching_step sha xdr)\<^sup>*\<^sup>* s t"
    and "ProposalAt s i = Some x"
  shows "\<exists>y. ProposalAt t i = Some y \<and> program_id y = program_id x \<and> mentor y = mentor x \<and> mentee y = mentee x \<and>
    origin y = origin x \<and> version x \<le> version y \<and>
    (version y = version x \<longrightarrow> terms_hash y = terms_hash x \<and> proposed_fee y = proposed_fee x \<and>
      expires_at y = expires_at x \<and> (mentor_approved x \<longrightarrow> mentor_approved y) \<and>
      (mentee_approved x \<longrightarrow> mentee_approved y) \<and> (status x = Active \<longrightarrow> status y \<in> {Active, Expired})) \<and>
    (status x \<in> {Declined, Expired} \<longrightarrow> y = x)"
proof -
  have "matching_wf sha s" using matching_run_wf [OF assms(2,1)] by (simp add: matching_wf_def)
  from matching.run_evolves [OF assms(3) this] assms(4) obtain y where "ProposalAt t i = Some y" "proposal_evolves x y"
    unfolding matching_evolves_def kept_def by blast
  then show ?thesis by (auto simp: proposal_evolves_def triple_def is_open_def)
qed

theorem proposal_life_witness:
  "\<exists>y. ProposalAt (demo_matching True True) (demo_id 1 10) = Some y \<and> program_id y = [5] \<and> 1 \<le> version y"
  using proposal_life [OF _ demo_matching_reachable(3) rtranclp.rtrancl_refl demo_matching_stored]
  by (auto simp: demo_proposal_def)

section \<open>Two findings\<close>

text \<open>
  An agreed match can be replaced. Both participants approved, the match is active; after the expiry of the
  proposal the mentor alone proposes again, and the agreed match becomes expired, although the status is
  documented for proposals whose expiry passed before mutual approval.
\<close>

theorem agreed_match_replaced:
  "\<exists>t i. create_proposal id (\<lambda>_. []) (matching_env 100) 2 [5] 3 (demo_terms 200) (demo_matching True True) = Ok (i, t) \<and>
     (\<exists>x y. ProposalAt (demo_matching True True) (demo_id 1 10) = Some x \<and> status x = Active \<and>
        ProposalAt t (demo_id 1 10) = Some y \<and> status y = Expired \<and> mentor_approved y \<and> mentee_approved y)"
proof -
  have "be_bytes 8 2 \<noteq> be_bytes 8 1" using be_bytes_inject [of 2 8 1] by auto
  then have other: "be_bytes 8 2 @ xs \<noteq> demo_id 1 10" for xs unfolding demo_id_def by (simp add: append_eq_append_conv)
  show ?thesis
    by (simp add: matching_call_defs expire_proposal_def other other [symmetric] demo_matching_def demo_proposal_def
        demo_terms_def is_open_def del: One_nat_def be_bytes.simps)
qed

text \<open>
  An expired proposal still counts. Long after its expiry the proposal is not open, and yet it occupies a
  place among the pending proposals of its program.
\<close>

theorem expired_proposal_counts:
  "is_proposal_open (matching_env 1000000) (demo_matching True False) (demo_id 1 10) = Ok False \<and>
     open_proposal_for (matching_env 1000000) (demo_matching True False) [5] 2 3 = None \<and>
     pending_proposal_count (demo_matching True False) [5] = 1"
  by (simp add: is_proposal_open_def open_proposal_for_def load_proposal_def pending_proposal_count_def pending_count_def
      demo_matching_def demo_proposal_def)

end
