(* ===== verification/Scholarship_Milestones.thy ===== *)
theory Scholarship_Milestones
  imports Transition_Systems
begin

text \<open>
  \<open>contracts/scholarship-milestones/src/lib.rs\<close>: an award is split into milestones by percentages, each
  milestone is verified and then released, in order; a schedule is amended only before its first release.
\<close>

section \<open>State\<close>

datatype ContractError =
    NotInitialized | AlreadyInitialized | NotAdmin | ScheduleNotFound | ScheduleAlreadyExists
  | InvalidMilestoneCount | PercentagesDoNotSumTo100 | DatesNotOrdered | InvalidAmount | ScheduleInactive
  | ScheduleAlreadyActive | MilestoneIndexOutOfRange | MilestoneNotVerified | MilestoneAlreadyVerified
  | MilestoneAlreadyReleased | OutOfOrderRelease | ScheduleLockedAfterDisbursement | VersionOverflow

definition CONTRACT_VERSION :: nat where
  "CONTRACT_VERSION = 1"

definition MAX_MILESTONES :: nat where
  "MAX_MILESTONES = 16"

definition BPS_DENOM_U32 :: nat where
  "BPS_DENOM_U32 = 10000"

definition BPS_DENOM_I128 :: int where
  "BPS_DENOM_I128 = 10000"

datatype MilestoneKind = Enrollment | Attendance | Coursework | Completion | Custom

record MilestoneInput =
  in_kind :: MilestoneKind
  in_label_hash :: hash32
  in_percentage_bps :: nat
  in_due_at :: nat

record Milestone =
  milestone_index :: nat
  kind :: MilestoneKind
  label_hash :: hash32
  percentage_bps :: nat
  amount :: int
  due_at :: nat
  verified :: bool
  released :: bool

record MilestoneSchedule =
  award_id :: hash32
  total_amount :: int
  currency :: string
  version :: nat
  active :: bool
  created_at :: nat
  activated_at :: nat
  amended_at :: nat
  milestones :: "Milestone list"

record milestones_state =
  Admin :: "address option"
  Schedule :: "hash32 \<rightharpoonup> MilestoneSchedule"

definition milestones_init :: milestones_state where
  "milestones_init = \<lparr>Admin = None, Schedule = Map.empty\<rparr>"

section \<open>Building a schedule\<close>

definition initialize :: "env \<Rightarrow> address \<Rightarrow> milestones_state \<Rightarrow> (ContractError, milestones_state) outcome" where
  "initialize env admin s =
     (if Admin s \<noteq> None then Err AlreadyInitialized
      else and_then (require_auth env admin) (\<lambda>_. Ok (s\<lparr>Admin := Some admin\<rparr>)))"

definition require_admin :: "env \<Rightarrow> milestones_state \<Rightarrow> address \<Rightarrow> (ContractError, unit) outcome" where
  "require_admin env s caller =
     and_then (ok_or (Admin s) NotInitialized) (\<lambda>admin.
     if caller \<noteq> admin then Err NotAdmin else require_auth env caller)"

definition put_schedule :: "MilestoneSchedule \<Rightarrow> milestones_state \<Rightarrow> milestones_state" where
  "put_schedule schedule s = s\<lparr>Schedule := (Schedule s)(award_id schedule \<mapsto> schedule)\<rparr>"

definition load_schedule :: "milestones_state \<Rightarrow> hash32 \<Rightarrow> (ContractError, MilestoneSchedule) outcome" where
  "load_schedule s i = ok_or (Schedule s i) ScheduleNotFound"

text \<open>The two loops of \<open>build_milestones\<close>, over the inputs that are left; \<open>i\<close> is the index of the next one.\<close>

fun check_loop :: "nat \<Rightarrow> nat \<Rightarrow> nat \<Rightarrow> MilestoneInput list \<Rightarrow> (ContractError, nat) outcome" where
  "check_loop i bps_sum prev_due [] = Ok bps_sum"
| "check_loop i bps_sum prev_due (input # rest) =
     and_then (ok_or (u32_checked (bps_sum + in_percentage_bps input)) PercentagesDoNotSumTo100) (\<lambda>bps_sum.
     if i > 0 \<and> in_due_at input \<le> prev_due then Err DatesNotOrdered
     else check_loop (i + 1) bps_sum (in_due_at input) rest)"

fun amounts_loop ::
  "int \<Rightarrow> nat \<Rightarrow> nat \<Rightarrow> int \<Rightarrow> MilestoneInput list \<Rightarrow> Milestone list \<Rightarrow> (ContractError, Milestone list) outcome" where
  "amounts_loop tot count i allocated [] ms = Ok ms"
| "amounts_loop tot count i allocated (input # rest) ms =
     and_then
       (if i = count - 1 then ok_or (i128_checked (tot - allocated)) InvalidAmount
        else and_then (ok_or (i128_checked (tot * int (in_percentage_bps input))) InvalidAmount)
          (\<lambda>x. Ok (div_trunc x BPS_DENOM_I128)))
       (\<lambda>n.
     and_then (ok_or (i128_checked (allocated + n)) InvalidAmount) (\<lambda>allocated.
     amounts_loop tot count (i + 1) allocated rest
       (ms @ [\<lparr>milestone_index = i, kind = in_kind input, label_hash = in_label_hash input,
          percentage_bps = in_percentage_bps input, amount = n, due_at = in_due_at input, verified = False,
          released = False\<rparr>])))"

definition build_milestones :: "int \<Rightarrow> MilestoneInput list \<Rightarrow> (ContractError, Milestone list) outcome" where
  "build_milestones tot inputs =
     (let count = length inputs in
      if count = 0 \<or> count > MAX_MILESTONES then Err InvalidMilestoneCount
      else if tot \<le> 0 then Err InvalidAmount
      else and_then (check_loop 0 0 0 inputs) (\<lambda>bps_sum.
      if bps_sum \<noteq> BPS_DENOM_U32 then Err PercentagesDoNotSumTo100
      else amounts_loop tot count 0 0 inputs []))"

definition define_schedule ::
  "env \<Rightarrow> address \<Rightarrow> hash32 \<Rightarrow> int \<Rightarrow> string \<Rightarrow> MilestoneInput list \<Rightarrow> milestones_state \<Rightarrow>
   (ContractError, milestones_state) outcome" where
  "define_schedule env admin i tot cur inputs s =
     and_then (require_admin env s admin) (\<lambda>_.
     if Schedule s i \<noteq> None then Err ScheduleAlreadyExists
     else and_then (build_milestones tot inputs) (\<lambda>ms.
     let schedule = \<lparr>award_id = i, total_amount = tot, currency = cur, version = 1, active = False,
           created_at = timestamp env, activated_at = 0, amended_at = 0, milestones = ms\<rparr>
     in Ok (put_schedule schedule s)))"

definition activate_schedule ::
  "env \<Rightarrow> address \<Rightarrow> hash32 \<Rightarrow> milestones_state \<Rightarrow> (ContractError, milestones_state) outcome" where
  "activate_schedule env admin i s =
     and_then (require_admin env s admin) (\<lambda>_.
     and_then (load_schedule s i) (\<lambda>schedule.
     if active schedule then Err ScheduleAlreadyActive
     else Ok (put_schedule (schedule\<lparr>active := True, activated_at := timestamp env\<rparr>) s)))"

text \<open>The loop of \<open>amend_schedule\<close> that looks for a released milestone.\<close>

fun unreleased_loop :: "Milestone list \<Rightarrow> (ContractError, unit) outcome" where
  "unreleased_loop [] = Ok ()"
| "unreleased_loop (m # rest) = (if released m then Err ScheduleLockedAfterDisbursement else unreleased_loop rest)"

definition amend_schedule ::
  "env \<Rightarrow> address \<Rightarrow> hash32 \<Rightarrow> int \<Rightarrow> string \<Rightarrow> MilestoneInput list \<Rightarrow> milestones_state \<Rightarrow>
   (ContractError, milestones_state) outcome" where
  "amend_schedule env admin i tot cur inputs s =
     and_then (require_admin env s admin) (\<lambda>_.
     and_then (load_schedule s i) (\<lambda>schedule.
     if \<not> active schedule then Err ScheduleInactive
     else
       and_then (unreleased_loop (milestones schedule)) (\<lambda>_.
       and_then (build_milestones tot inputs) (\<lambda>ms.
       let schedule = schedule\<lparr>total_amount := tot, currency := cur, milestones := ms\<rparr> in
       and_then (ok_or (u32_checked (version schedule + 1)) VersionOverflow) (\<lambda>v.
       Ok (put_schedule (schedule\<lparr>version := v, amended_at := timestamp env\<rparr>) s))))))"

definition get_schedule :: "milestones_state \<Rightarrow> hash32 \<Rightarrow> (ContractError, MilestoneSchedule) outcome" where
  "get_schedule s i = ok_or (Schedule s i) ScheduleNotFound"

definition get_milestone :: "milestones_state \<Rightarrow> hash32 \<Rightarrow> nat \<Rightarrow> (ContractError, Milestone) outcome" where
  "get_milestone s i k =
     and_then (get_schedule s i) (\<lambda>schedule. ok_or (vec_get (milestones schedule) k) MilestoneIndexOutOfRange)"

section \<open>Verification and release\<close>

definition verify_milestone ::
  "env \<Rightarrow> address \<Rightarrow> hash32 \<Rightarrow> nat \<Rightarrow> milestones_state \<Rightarrow> (ContractError, milestones_state) outcome" where
  "verify_milestone env admin i k s =
     and_then (require_admin env s admin) (\<lambda>_.
     and_then (load_schedule s i) (\<lambda>schedule.
     if \<not> active schedule then Err ScheduleInactive
     else and_then (ok_or (vec_get (milestones schedule) k) MilestoneIndexOutOfRange) (\<lambda>milestone.
     if verified milestone then Err MilestoneAlreadyVerified
     else Ok (put_schedule
       (schedule\<lparr>milestones := (milestones schedule)[k := milestone\<lparr>verified := True\<rparr>]\<rparr>) s))))"

text \<open>The loop of \<open>release_milestone\<close> over the earlier milestones \<open>j\<close>, \<open>j + 1\<close>, \<open>\<dots>\<close> below \<open>k\<close>.\<close>

function earlier_loop :: "Milestone list \<Rightarrow> nat \<Rightarrow> nat \<Rightarrow> (ContractError, unit) outcome" where
  "earlier_loop ms k j =
     (if k \<le> j then Ok ()
      else and_then (ok_or (vec_get ms j) MilestoneIndexOutOfRange) (\<lambda>earlier.
        if \<not> released earlier then Err OutOfOrderRelease else earlier_loop ms k (j + 1)))"
  by pat_completeness auto

termination
  by (relation "measure (\<lambda>(ms, k, j). k - j)") auto

declare earlier_loop.simps [simp del]

definition release_milestone ::
  "env \<Rightarrow> address \<Rightarrow> hash32 \<Rightarrow> nat \<Rightarrow> milestones_state \<Rightarrow> (ContractError, milestones_state) outcome" where
  "release_milestone env admin i k s =
     and_then (require_admin env s admin) (\<lambda>_.
     and_then (load_schedule s i) (\<lambda>schedule.
     if \<not> active schedule then Err ScheduleInactive
     else and_then (ok_or (vec_get (milestones schedule) k) MilestoneIndexOutOfRange) (\<lambda>milestone.
     if released milestone then Err MilestoneAlreadyReleased
     else if \<not> verified milestone then Err MilestoneNotVerified
     else and_then (earlier_loop (milestones schedule) k 0) (\<lambda>_.
     Ok (put_schedule
       (schedule\<lparr>milestones := (milestones schedule)[k := milestone\<lparr>released := True\<rparr>]\<rparr>) s)))))"

fun total_loop :: "int \<Rightarrow> Milestone list \<Rightarrow> (ContractError, int) outcome" where
  "total_loop tot [] = Ok tot"
| "total_loop tot (m # rest) =
     (if released m
      then and_then (ok_or (i128_checked (tot + amount m)) InvalidAmount) (\<lambda>tot. total_loop tot rest)
      else total_loop tot rest)"

definition released_total :: "milestones_state \<Rightarrow> hash32 \<Rightarrow> (ContractError, int) outcome" where
  "released_total s i = and_then (get_schedule s i) (\<lambda>schedule. total_loop 0 (milestones schedule))"

definition remaining_amount :: "milestones_state \<Rightarrow> hash32 \<Rightarrow> (ContractError, int) outcome" where
  "remaining_amount s i =
     and_then (get_schedule s i) (\<lambda>schedule.
     and_then (released_total s (award_id schedule)) (\<lambda>released.
     ok_or (i128_checked (total_amount schedule - released)) InvalidAmount))"

definition contract_version :: nat where
  "contract_version = CONTRACT_VERSION"

section \<open>Calls and steps\<close>

datatype milestones_call =
    Initialize address | DefineSchedule address hash32 int string "MilestoneInput list"
  | ActivateSchedule address hash32 | AmendSchedule address hash32 int string "MilestoneInput list"
  | VerifyMilestone address hash32 nat | ReleaseMilestone address hash32 nat

text \<open>The award amount arrives as an \<open>i128\<close>.\<close>

fun milestones_exec :: "env \<Rightarrow> milestones_call \<Rightarrow> milestones_state \<Rightarrow> (ContractError, milestones_state) outcome" where
  "milestones_exec env (Initialize a) s = initialize env a s"
| "milestones_exec env (DefineSchedule a i t c xs) s = define_schedule env a i t c xs s"
| "milestones_exec env (ActivateSchedule a i) s = activate_schedule env a i s"
| "milestones_exec env (AmendSchedule a i t c xs) s = amend_schedule env a i t c xs s"
| "milestones_exec env (VerifyMilestone a i k) s = verify_milestone env a i k s"
| "milestones_exec env (ReleaseMilestone a i k) s = release_milestone env a i k s"

inductive milestones_step :: "milestones_state \<Rightarrow> milestones_state \<Rightarrow> bool" where
  call: "milestones_exec env c s = Ok t \<Longrightarrow> milestones_step s t"

inductive_cases milestones_stepE: "milestones_step s t"

end
