(* ===== verification/Milestone_Releases.thy ===== *)
theory Milestone_Releases
  imports Scholarship_Milestones
begin

text \<open>
  What the milestone contract guarantees: the amounts of a schedule reconcile to the award, releases form a
  prefix of the schedule, the released and remaining totals are exact, and released history is never rewritten.
\<close>

section \<open>The derived amounts\<close>

definition share :: "int \<Rightarrow> nat \<Rightarrow> int" where
  "share t p = t * int p div BPS_DENOM_I128"

definition fresh_milestone :: "nat \<Rightarrow> MilestoneInput \<Rightarrow> int \<Rightarrow> Milestone" where
  "fresh_milestone i x n = \<lparr>milestone_index = i, kind = in_kind x, label_hash = in_label_hash x,
     percentage_bps = in_percentage_bps x, amount = n, due_at = in_due_at x, verified = False, released = False\<rparr>"

fun built :: "int \<Rightarrow> nat \<Rightarrow> int \<Rightarrow> MilestoneInput list \<Rightarrow> Milestone list" where
  "built t i al [] = []"
| "built t i al (x # xs) =
     (let n = (if xs = [] then t - al else share t (in_percentage_bps x))
      in fresh_milestone i x n # built t (i + 1) (al + n) xs)"

abbreviation bps_sum :: "MilestoneInput list \<Rightarrow> nat" where
  "bps_sum xs \<equiv> sum_list (map in_percentage_bps xs)"

lemma fresh_milestone_simps [simp]:
  "milestone_index (fresh_milestone i x n) = i" "amount (fresh_milestone i x n) = n"
  "percentage_bps (fresh_milestone i x n) = in_percentage_bps x" "due_at (fresh_milestone i x n) = in_due_at x"
  "\<not> verified (fresh_milestone i x n)" "\<not> released (fresh_milestone i x n)"
  "kind (fresh_milestone i x n) = in_kind x" "label_hash (fresh_milestone i x n) = in_label_hash x"
  by (simp_all add: fresh_milestone_def)

lemma built_map [simp]:
  "length (built t i al xs) = length xs" "map percentage_bps (built t i al xs) = map in_percentage_bps xs"
  "map due_at (built t i al xs) = map in_due_at xs" "map milestone_index (built t i al xs) = [i..<i + length xs]"
  by (induction xs arbitrary: i al) (simp_all add: Let_def upt_rec)

lemma built_fresh: "m \<in> set (built t i al xs) \<Longrightarrow> \<not> verified m \<and> \<not> released m"
  by (induction xs arbitrary: i al) (auto simp: Let_def)

lemma built_sum: "xs \<noteq> [] \<Longrightarrow> sum_list (map amount (built t i al xs)) = t - al"
  by (induction xs arbitrary: i al) (auto simp: Let_def)

text \<open>
  \<open>used\<close> percent points were handed out for \<open>al\<close>, which lost less than one unit for each milestone so far.
\<close>

lemma milestone_share_bounds:
  assumes "10000 * al \<le> t * int used" "t * int used < 10000 * (al + int k) \<or> k = 0 \<and> al = 0 \<and> used = 0"
    "n = share t p"
  shows "10000 * (al + n) \<le> t * int (used + p)" "t * int (used + p) < 10000 * (al + n + int (Suc k))"
proof -
  have n: "10000 * n \<le> t * int p" "t * int p < 10000 * n + 10000"
    using assms(3) by (simp_all add: share_def BPS_DENOM_I128_def)
  have split: "t * int (used + p) = t * int used + t * int p" by (simp add: distrib_left)
  show "10000 * (al + n) \<le> t * int (used + p)" unfolding split using n(1) assms(1) by simp
  show "t * int (used + p) < 10000 * (al + n + int (Suc k))" unfolding split using n(2) assms(2) by auto
qed

lemma built_amounts:
  assumes "used + bps_sum xs = 10000" "10000 * al \<le> t * int used"
    "t * int used < 10000 * (al + int i) \<or> i = 0 \<and> al = 0 \<and> used = 0" "m \<in> set (built t i al xs)"
  shows "share t (percentage_bps m) \<le> amount m \<and> amount m < share t (percentage_bps m) + int (i + length xs)"
  using assms
proof (induction xs arbitrary: i al used)
  case (Cons x xs)
  let ?p = "in_percentage_bps x"
  have p: "10000 * share t ?p \<le> t * int ?p" "t * int ?p < 10000 * share t ?p + 10000"
    by (simp_all add: share_def BPS_DENOM_I128_def)
  show ?case
  proof (cases "xs = []")
    case True
    with Cons.prems(1) have "t * int used + t * int ?p = 10000 * t"
      by (simp flip: distrib_left of_nat_add)
    with True p Cons.prems show ?thesis by auto
  next
    case False
    note bounds = milestone_share_bounds [OF Cons.prems(2,3) refl, of ?p]
    show ?thesis
    proof (cases "m = fresh_milestone i x (share t ?p)")
      case True
      then show ?thesis by simp
    next
      case other: False
      with Cons.prems(4) False have "m \<in> set (built t (Suc i) (al + share t ?p) xs)" by (simp add: Let_def)
      from Cons.IH [OF _ _ _ this, of "used + ?p"] bounds Cons.prems(1) show ?thesis by simp
    qed
  qed
qed simp

lemma milestone_share_nonneg: "0 \<le> t \<Longrightarrow> 0 \<le> share t p"
  by (simp add: share_def BPS_DENOM_I128_def pos_imp_zdiv_nonneg_iff)

lemma share_trunc: "0 \<le> t \<Longrightarrow> div_trunc (t * int p) BPS_DENOM_I128 = share t p"
  by (simp add: share_def div_trunc_nonneg BPS_DENOM_I128_def)

lemma amounts_loop_eq:
  assumes "used + bps_sum xs = 10000" "10000 * al \<le> t * int used" "0 < t" "fits_i128 t" "0 \<le> al" "xs \<noteq> []"
  shows "amounts_loop t (i + length xs) i al xs ms =
    (if \<forall>x\<in>set (butlast xs). fits_i128 (t * int (in_percentage_bps x)) then Ok (ms @ built t i al xs)
     else Err InvalidAmount)"
  using assms
proof (induction xs arbitrary: i al used ms)
  case (Cons x xs)
  let ?p = "in_percentage_bps x" let ?n = "share t ?p"
  have al: "al \<le> t"
  proof -
    have "t * int used \<le> t * 10000" using Cons.prems(1,3) by (intro mult_left_mono) auto
    with Cons.prems(2) show ?thesis by simp
  qed
  show ?case
  proof (cases "xs = []")
    case True
    have "fits_i128 (t - al)" using al Cons.prems(3-5) by (simp add: range_defs)
    with True Cons.prems(4) show ?thesis by (simp add: fresh_milestone_def i128_checked_def)
  next
    case False
    have next_al: "10000 * (al + ?n) \<le> t * int (used + ?p)"
      using Cons.prems(2) by (simp add: distrib_left share_def BPS_DENOM_I128_def)
    also have "\<dots> \<le> t * 10000" using Cons.prems(1,3) by (intro mult_left_mono) auto
    finally have "al + ?n \<le> t" by simp
    then have fits: "fits_i128 (al + ?n)"
      using Cons.prems(3-5) milestone_share_nonneg [of t ?p] by (simp add: range_defs)
    have IH: "amounts_loop t (Suc i + length xs) (Suc i) (al + ?n) xs ms' =
      (if \<forall>x\<in>set (butlast xs). fits_i128 (t * int (in_percentage_bps x)) then Ok (ms' @ built t (Suc i) (al + ?n) xs)
       else Err InvalidAmount)" for ms'
      using Cons.prems milestone_share_nonneg [of t ?p] next_al False by (intro Cons.IH [of "used + ?p"]) simp_all
    show ?thesis
      using False IH fits Cons.prems(3)
      by (cases "fits_i128 (t * int ?p)") (simp_all add: share_trunc Let_def fresh_milestone_def i128_checked_def)
  qed
qed simp

lemma check_loop_Ok:
  assumes "fits_u32 b"
  shows "check_loop i b p xs = Ok r \<longleftrightarrow> r = b + bps_sum xs \<and> fits_u32 (b + bps_sum xs) \<and>
    sorted_wrt (<) ((if i = 0 then [] else [p]) @ map in_due_at xs)"
  using assms
proof (induction xs arbitrary: i b p)
  case (Cons x xs)
  show ?case
  proof (cases "fits_u32 (b + in_percentage_bps x)")
    case True
    have "sorted_wrt (<) (in_due_at x # map in_due_at xs) \<longrightarrow>
      sorted_wrt (<) (p # in_due_at x # map in_due_at xs) = (p < in_due_at x)"
      by (auto simp: less_trans)
    with Cons.IH [OF True] True show ?thesis
      by (cases "i = 0") (auto simp: outcome_iff ac_simps simp del: sorted_wrt.simps(2) dest: sorted_wrt.simps(2) [THEN iffD1])
  next
    case False
    then have "\<not> fits_u32 (b + bps_sum (x # xs))" by (simp add: range_defs)
    with False show ?thesis by (simp add: u32_checked_def)
  qed
qed (auto split: if_splits)

text \<open>What \<open>build_milestones\<close> accepts.\<close>

definition acceptable :: "int \<Rightarrow> MilestoneInput list \<Rightarrow> bool" where
  "acceptable t xs \<longleftrightarrow> 1 \<le> length xs \<and> length xs \<le> MAX_MILESTONES \<and> 0 < t \<and> bps_sum xs = 10000 \<and>
     sorted_wrt (<) (map in_due_at xs) \<and> (\<forall>x\<in>set (butlast xs). fits_i128 (t * int (in_percentage_bps x)))"

lemma build_milestones_Ok:
  assumes "fits_i128 t"
  shows "build_milestones t xs = Ok ms \<longleftrightarrow> acceptable t xs \<and> ms = built t 0 0 xs"
proof (cases "xs = [] \<or> t \<le> 0 \<or> bps_sum xs \<noteq> 10000")
  case True
  then show ?thesis by (auto simp: build_milestones_def acceptable_def outcome_iff check_loop_Ok range_defs BPS_DENOM_U32_def Let_def)
next
  case False
  then have "amounts_loop t (length xs) 0 0 xs [] =
      (if \<forall>x\<in>set (butlast xs). fits_i128 (t * int (in_percentage_bps x)) then Ok (built t 0 0 xs) else Err InvalidAmount)"
    using amounts_loop_eq [of 0 xs 0 t 0 "[]"] assms by simp
  moreover have "length xs \<noteq> 0" using False by simp
  ultimately show ?thesis
    using False
    by (auto simp: build_milestones_def acceptable_def outcome_iff check_loop_Ok range_defs BPS_DENOM_U32_def Let_def Suc_le_eq)
qed

lemma amounts_loop_fits:
  "amounts_loop t n i al xs ms = Ok r \<Longrightarrow> n = i + length xs \<Longrightarrow> xs \<noteq> [] \<Longrightarrow> fits_i128 t"
  by (induction xs arbitrary: i al ms) (auto simp: outcome_iff split: if_splits)

lemma build_fits: "build_milestones t xs = Ok ms \<Longrightarrow> fits_i128 t"
  by (auto simp: build_milestones_def outcome_iff Let_def dest: amounts_loop_fits)

lemma build_Ok [outcome_iff]:
  "build_milestones t xs = Ok ms \<longleftrightarrow> fits_i128 t \<and> acceptable t xs \<and> ms = built t 0 0 xs"
  using build_fits build_milestones_Ok by blast

section \<open>One schedule, one call\<close>

lemma milestones_admin_Ok [outcome_iff]:
  "require_admin env s a = Ok u \<longleftrightarrow> Admin s = Some a \<and> auth env a"
  by (auto simp: require_admin_def outcome_iff)

lemma unreleased_loop_Ok [outcome_iff]: "unreleased_loop ms = Ok u \<longleftrightarrow> (\<forall>m\<in>set ms. \<not> released m)"
  by (induction ms) simp_all

lemma earlier_loop_Ok: "k \<le> length ms \<Longrightarrow> earlier_loop ms k j = Ok u \<longleftrightarrow> (\<forall>i. j \<le> i \<longrightarrow> i < k \<longrightarrow> released (ms ! i))"
proof (induction ms k j rule: earlier_loop.induct)
  case (1 ms k j)
  show ?case
  proof (cases "k \<le> j")
    case False
    have "(\<forall>i. j \<le> i \<longrightarrow> i < k \<longrightarrow> released (ms ! i)) \<longleftrightarrow>
      released (ms ! j) \<and> (\<forall>i. j + 1 \<le> i \<longrightarrow> i < k \<longrightarrow> released (ms ! i))"
      using False by (metis Suc_eq_plus1 Suc_leD Suc_leI le_eq_less_or_eq not_le)
    moreover have "vec_get ms j = Some (ms ! j)" using False "1.prems" by simp
    ultimately show ?thesis
      using False "1.IH" [OF False] "1.prems" by (subst earlier_loop.simps) simp
  qed (simp add: earlier_loop.simps)
qed

text \<open>The life of the schedule of one award: what a call may do to the stored value.\<close>

inductive schedule_move :: "hash32 \<Rightarrow> MilestoneSchedule option \<Rightarrow> MilestoneSchedule \<Rightarrow> bool" where
  defined: "fits_i128 t \<Longrightarrow> acceptable t xs \<Longrightarrow> schedule_move i None \<lparr>award_id = i, total_amount = t,
    currency = c, version = 1, active = False, created_at = now, activated_at = 0, amended_at = 0,
    milestones = built t 0 0 xs\<rparr>"
| activated: "\<not> active a \<Longrightarrow> schedule_move i (Some a) (a\<lparr>active := True, activated_at := now\<rparr>)"
| amended: "active a \<Longrightarrow> \<forall>m\<in>set (milestones a). \<not> released m \<Longrightarrow> fits_i128 t \<Longrightarrow> acceptable t xs \<Longrightarrow>
    schedule_move i (Some a) (a\<lparr>total_amount := t, currency := c, milestones := built t 0 0 xs,
      version := version a + 1, amended_at := now\<rparr>)"
| checked: "active a \<Longrightarrow> k < length (milestones a) \<Longrightarrow> \<not> verified (milestones a ! k) \<Longrightarrow>
    schedule_move i (Some a) (a\<lparr>milestones := (milestones a)[k := (milestones a ! k)\<lparr>verified := True\<rparr>]\<rparr>)"
| paid: "active a \<Longrightarrow> k < length (milestones a) \<Longrightarrow> \<not> released (milestones a ! k) \<Longrightarrow> verified (milestones a ! k) \<Longrightarrow>
    \<forall>j<k. released (milestones a ! j) \<Longrightarrow>
    schedule_move i (Some a) (a\<lparr>milestones := (milestones a)[k := (milestones a ! k)\<lparr>released := True\<rparr>]\<rparr>)"

lemmas schedule_ops = load_schedule_def get_schedule_def put_schedule_def outcome_iff Let_def

lemma move_exec:
  assumes "milestones_exec env c s = Ok t" "\<And>i a. Schedule s i = Some a \<Longrightarrow> award_id a = i"
  obtains (same) "Schedule t = Schedule s"
    | (moved) i b where "Schedule t = (Schedule s)(i \<mapsto> b)" "schedule_move i (Schedule s i) b" "Admin t = Admin s"
proof (cases c)
  case (Initialize a)
  with assms(1) show thesis by (intro same) (auto simp: initialize_def outcome_iff)
next
  case (DefineSchedule ad i n cur xs)
  with assms(1) obtain ms where "Schedule s i = None" "fits_i128 n" "acceptable n xs" "ms = built n 0 0 xs"
    "t = put_schedule \<lparr>award_id = i, total_amount = n, currency = cur, version = 1, active = False,
       created_at = timestamp env, activated_at = 0, amended_at = 0, milestones = ms\<rparr> s"
    by (auto simp: define_schedule_def outcome_iff Let_def)
  then show thesis
    using schedule_move.defined [of n xs i cur "timestamp env"]
    by (intro moved [of i]) (simp_all add: put_schedule_def)
next
  case (ActivateSchedule ad i)
  with assms(1) obtain a where a: "Schedule s i = Some a" "\<not> active a"
    "t = put_schedule (a\<lparr>active := True, activated_at := timestamp env\<rparr>) s"
    by (auto simp: activate_schedule_def load_schedule_def outcome_iff)
  with assms(2) [OF a(1)] show thesis
    by (intro moved [of i]) (auto simp: put_schedule_def intro: schedule_move.activated)
next
  case (AmendSchedule ad i n cur xs)
  with assms(1) obtain a where a: "Schedule s i = Some a" "active a" "\<forall>m\<in>set (milestones a). \<not> released m"
    "fits_i128 n" "acceptable n xs"
    "t = put_schedule (a\<lparr>total_amount := n, currency := cur, milestones := built n 0 0 xs,
      version := version a + 1, amended_at := timestamp env\<rparr>) s"
    by (auto simp: amend_schedule_def load_schedule_def outcome_iff Let_def)
  with assms(2) [OF a(1)] show thesis
    using schedule_move.amended [of a n xs i "timestamp env" cur]
    by (intro moved [of i]) (simp_all add: put_schedule_def)
next
  case (VerifyMilestone ad i k)
  with assms(1) obtain a where a: "Schedule s i = Some a" "active a" "k < length (milestones a)"
    "\<not> verified (milestones a ! k)"
    "t = put_schedule (a\<lparr>milestones := (milestones a)[k := (milestones a ! k)\<lparr>verified := True\<rparr>]\<rparr>) s"
    by (auto simp: verify_milestone_def load_schedule_def outcome_iff)
  with assms(2) [OF a(1)] show thesis
    by (intro moved [of i]) (auto simp: put_schedule_def intro: schedule_move.checked)
next
  case (ReleaseMilestone ad i k)
  with assms(1) obtain a where a: "Schedule s i = Some a" "active a" "k < length (milestones a)"
    "\<not> released (milestones a ! k)" "verified (milestones a ! k)" "\<forall>j<k. released (milestones a ! j)"
    "t = put_schedule (a\<lparr>milestones := (milestones a)[k := (milestones a ! k)\<lparr>released := True\<rparr>]\<rparr>) s"
    by (auto simp: release_milestone_def load_schedule_def outcome_iff earlier_loop_Ok)
  with assms(2) [OF a(1)] show thesis
    by (intro moved [of i]) (auto simp: put_schedule_def intro: schedule_move.paid)
qed

section \<open>Well-formed schedules\<close>

text \<open>The released milestones are the first \<open>k\<close>.\<close>

definition paid_up_to :: "nat \<Rightarrow> Milestone list \<Rightarrow> bool" where
  "paid_up_to k ms \<longleftrightarrow> k \<le> length ms \<and> (\<forall>j<length ms. released (ms ! j) \<longleftrightarrow> j < k)"

definition plan_ok :: "int \<Rightarrow> Milestone list \<Rightarrow> bool" where
  "plan_ok t ms \<longleftrightarrow> ms \<noteq> [] \<and> length ms \<le> MAX_MILESTONES \<and> sum_list (map amount ms) = t \<and>
     (\<forall>m\<in>set ms. 0 \<le> amount m \<and> (released m \<longrightarrow> verified m)) \<and> sum_list (map percentage_bps ms) = 10000 \<and>
     sorted_wrt (<) (map due_at ms) \<and> map milestone_index ms = [0..<length ms] \<and> (\<exists>k. paid_up_to k ms)"

definition schedule_ok :: "hash32 \<Rightarrow> MilestoneSchedule \<Rightarrow> bool" where
  "schedule_ok i a \<longleftrightarrow> award_id a = i \<and> 0 < total_amount a \<and> fits_i128 (total_amount a) \<and>
     plan_ok (total_amount a) (milestones a) \<and> (\<not> active a \<longrightarrow> (\<forall>m\<in>set (milestones a). \<not> verified m))"

definition milestones_wf :: "milestones_state \<Rightarrow> bool" where
  "milestones_wf s \<longleftrightarrow> (\<forall>i a. Schedule s i = Some a \<longrightarrow> schedule_ok i a)"

lemma milestones_wfD: "milestones_wf s \<Longrightarrow> Schedule s i = Some a \<Longrightarrow> schedule_ok i a"
  by (simp add: milestones_wf_def)

lemma built_plan_ok:
  assumes "acceptable t xs"
  shows "plan_ok t (built t 0 0 xs)"
proof -
  have amounts: "0 \<le> amount m" if "m \<in> set (built t 0 0 xs)" for m
    using built_amounts [of 0 xs 0 t 0 m] that assms milestone_share_nonneg [of t "percentage_bps m"]
    by (simp add: acceptable_def)
  have "paid_up_to 0 (built t 0 0 xs)"
    using built_fresh [OF nth_mem, of _ t 0 0 xs] by (auto simp: paid_up_to_def)
  moreover have "xs \<noteq> []" using assms by (auto simp: acceptable_def)
  moreover from this have "built t 0 0 xs \<noteq> []" by (cases xs) (simp_all add: Let_def)
  ultimately show ?thesis
    using amounts assms built_fresh [of _ t 0 0 xs] built_sum [of xs t 0 0]
    by (auto simp: plan_ok_def acceptable_def)
qed

lemma map_update_same: "f x = f (xs ! k) \<Longrightarrow> map f (xs[k := x]) = map f xs"
  by (metis list_update_id map_update)

lemma flag_plan_ok:
  assumes "plan_ok t ms" "k < length ms" "amount m = amount (ms ! k)" "percentage_bps m = percentage_bps (ms ! k)"
    "due_at m = due_at (ms ! k)" "milestone_index m = milestone_index (ms ! k)" "released m \<longrightarrow> verified m"
    "\<exists>j. paid_up_to j (ms[k := m])"
  shows "plan_ok t (ms[k := m])"
proof -
  have "0 \<le> amount m" using assms(1-3) by (simp add: plan_ok_def)
  then have "\<forall>x\<in>set (ms[k := m]). 0 \<le> amount x \<and> (released x \<longrightarrow> verified x)"
    using assms(1,7) set_update_subset_insert [of ms k m] unfolding plan_ok_def by blast
  with assms show ?thesis by (simp add: plan_ok_def map_update_same)
qed

lemma schedule_move_ok:
  assumes "schedule_move i a b" "\<And>x. a = Some x \<Longrightarrow> schedule_ok i x"
  shows "schedule_ok i b"
  using assms(1)
proof cases
  case (defined t xs c now)
  then show ?thesis
    using built_plan_ok built_fresh by (auto simp: schedule_ok_def acceptable_def)
next
  case (activated a now)
  then show ?thesis using assms(2) by (simp add: schedule_ok_def)
next
  case (amended a t xs c now)
  then show ?thesis using assms(2) [of a] built_plan_ok by (auto simp: schedule_ok_def acceptable_def)
next
  case (checked a k)
  note ok = assms(2) [OF checked(1)]
  then obtain j where "paid_up_to j (milestones a)" by (auto simp: schedule_ok_def plan_ok_def)
  with checked(4) have "paid_up_to j ((milestones a)[k := (milestones a ! k)\<lparr>verified := True\<rparr>])"
    by (auto simp: paid_up_to_def nth_list_update)
  then have "plan_ok (total_amount a) ((milestones a)[k := (milestones a ! k)\<lparr>verified := True\<rparr>])"
    using checked(4) ok [unfolded schedule_ok_def, THEN conjunct2, THEN conjunct2, THEN conjunct2, THEN conjunct1]
    by (intro flag_plan_ok exI [of _ j]) simp_all
  with ok checked(2,3) show ?thesis by (simp add: schedule_ok_def)
next
  case (paid a k)
  note ok = assms(2) [OF paid(1)]
  then obtain j where j: "paid_up_to j (milestones a)" by (auto simp: schedule_ok_def plan_ok_def)
  have "released (milestones a ! x) \<longleftrightarrow> x < j" if "x \<le> k" for x
    using j paid(4) that by (simp add: paid_up_to_def)
  from this [of k] this [of j] paid(5,7) have "j = k" by (cases "j < k") auto
  with j paid(4) have "paid_up_to (Suc k) ((milestones a)[k := (milestones a ! k)\<lparr>released := True\<rparr>])"
    by (auto simp: paid_up_to_def nth_list_update less_Suc_eq)
  then have "plan_ok (total_amount a) ((milestones a)[k := (milestones a ! k)\<lparr>released := True\<rparr>])"
    using paid(4,6) ok [unfolded schedule_ok_def, THEN conjunct2, THEN conjunct2, THEN conjunct2, THEN conjunct1]
    by (intro flag_plan_ok exI [of _ "Suc k"]) simp_all
  with ok paid(2,3) show ?thesis by (simp add: schedule_ok_def)
qed

lemma milestones_init_wf: "milestones_wf milestones_init"
  by (simp add: milestones_wf_def milestones_init_def)

lemma milestones_step_wf:
  assumes "milestones_step s t" "milestones_wf s"
  shows "milestones_wf t"
  using assms(1)
proof (rule milestones_stepE)
  fix env c
  assume call: "milestones_exec env c s = Ok t"
  have keyed: "award_id a = i" if "Schedule s i = Some a" for i a
    using milestones_wfD [OF assms(2) that] by (simp add: schedule_ok_def)
  from call keyed show ?thesis
  proof (rule move_exec)
    assume "Schedule t = Schedule s"
    with assms(2) show ?thesis by (simp add: milestones_wf_def)
  next
    fix i b
    assume t: "Schedule t = (Schedule s)(i \<mapsto> b)" and move: "schedule_move i (Schedule s i) b"
    have "schedule_ok i b" using schedule_move_ok [OF move] assms(2) by (simp add: milestones_wf_def)
    with t assms(2) show ?thesis by (simp add: milestones_wf_def)
  qed
qed

section \<open>What may still change\<close>

text \<open>A milestone keeps its terms; its flags only rise.\<close>

definition milestone_evolves :: "Milestone \<Rightarrow> Milestone \<Rightarrow> bool" where
  "milestone_evolves m m' \<longleftrightarrow> m'\<lparr>verified := verified m, released := released m\<rparr> = m \<and>
     (verified m \<longrightarrow> verified m') \<and> (released m \<longrightarrow> released m')"

text \<open>
  The version counts the amendments. Between two amendments the plan is the same; once a milestone is released
  there are none.
\<close>

definition schedule_evolves :: "MilestoneSchedule \<Rightarrow> MilestoneSchedule \<Rightarrow> bool" where
  "schedule_evolves a b \<longleftrightarrow> award_id b = award_id a \<and> created_at b = created_at a \<and>
     (active a \<longrightarrow> active b \<and> activated_at b = activated_at a) \<and> version a \<le> version b \<and>
     (version b = version a \<longrightarrow> total_amount b = total_amount a \<and> currency b = currency a \<and>
        list_all2 milestone_evolves (milestones a) (milestones b)) \<and>
     ((\<exists>m\<in>set (milestones a). released m) \<longrightarrow> version b = version a)"

lemma milestone_evolves_refl [simp]: "milestone_evolves m m"
  by (simp add: milestone_evolves_def)

lemma milestone_evolves_trans: "milestone_evolves m m' \<Longrightarrow> milestone_evolves m' m'' \<Longrightarrow> milestone_evolves m m''"
  by (cases m; cases m'; cases m'') (auto simp: milestone_evolves_def)

lemma schedule_evolves_refl: "schedule_evolves a a"
  by (simp add: schedule_evolves_def list_all2_refl)

lemma list_all2_released:
  "list_all2 milestone_evolves xs ys \<Longrightarrow> \<exists>m\<in>set xs. released m \<Longrightarrow> \<exists>m\<in>set ys. released m"
  by (induction rule: list_all2_induct) (auto simp: milestone_evolves_def)

lemma schedule_evolves_trans:
  assumes "schedule_evolves a b" "schedule_evolves b c"
  shows "schedule_evolves a c"
proof -
  note ab = assms(1) [unfolded schedule_evolves_def] and bc = assms(2) [unfolded schedule_evolves_def]
  have same: "version b = version a \<and> version c = version b" if "version c = version a"
    using that ab bc by auto
  have "list_all2 milestone_evolves (milestones a) (milestones c)" if "version c = version a"
    by (rule list_all2_trans [OF milestone_evolves_trans]) (use same [OF that] ab bc in auto)
  moreover have "version c = version a" if "\<exists>m\<in>set (milestones a). released m"
  proof -
    have "version b = version a" "list_all2 milestone_evolves (milestones a) (milestones b)" using that ab by auto
    with list_all2_released [OF this(2) that] bc show ?thesis by simp
  qed
  ultimately show ?thesis
    unfolding schedule_evolves_def using same ab bc by auto
qed

lemma flag_evolves: "milestone_evolves (ms ! k) m \<Longrightarrow> list_all2 milestone_evolves ms (ms[k := m])"
  by (cases "k < length ms") (auto simp: list_all2_conv_all_nth nth_list_update)

lemma schedule_move_evolves: "schedule_move i a b \<Longrightarrow> a = Some x \<Longrightarrow> schedule_evolves x b"
  by (induction rule: schedule_move.induct)
    (auto simp: schedule_evolves_def list_all2_refl milestone_evolves_def intro!: flag_evolves)

definition milestones_evolves :: "milestones_state \<Rightarrow> milestones_state \<Rightarrow> bool" where
  "milestones_evolves s t \<longleftrightarrow> kept schedule_evolves (Schedule s) (Schedule t)"

lemma milestones_step_evolves:
  assumes "milestones_step s t" "milestones_wf s"
  shows "milestones_evolves s t"
  using assms(1)
proof (rule milestones_stepE)
  fix env c
  assume call: "milestones_exec env c s = Ok t"
  have keyed: "award_id a = i" if "Schedule s i = Some a" for i a
    using milestones_wfD [OF assms(2) that] by (simp add: schedule_ok_def)
  from call keyed show ?thesis
    by (rule move_exec)
      (auto simp: milestones_evolves_def intro: kept_refl kept_update schedule_evolves_refl schedule_move_evolves)
qed

interpretation milestones: evolving milestones_step milestones_wf milestones_evolves
proof unfold_locales
  show "milestones_evolves s s" for s
    by (simp add: milestones_evolves_def kept_refl schedule_evolves_refl)
  show "milestones_evolves s u" if "milestones_evolves s t" "milestones_evolves t u" for s t u
    using that unfolding milestones_evolves_def
    using kept_trans [where R = schedule_evolves] schedule_evolves_trans by blast
qed (auto intro: milestones_step_wf milestones_step_evolves)

lemmas milestones_run_wf = milestones.run [OF _ milestones_init_wf]

section \<open>Totals\<close>

lemma total_loop_eq:
  assumes "\<forall>m\<in>set ms. 0 \<le> amount m" "0 \<le> n" "fits_i128 (n + sum_list (map amount ms))"
  shows "total_loop n ms = Ok (n + sum_list (map amount (filter released ms)))"
  using assms
proof (induction ms arbitrary: n)
  case (Cons m ms)
  then have rest: "0 \<le> sum_list (map amount ms)" by (intro sum_list_nonneg) auto
  have fits: "fits_i128 (n + amount m)" "fits_i128 (n + sum_list (map amount ms))"
    using Cons.prems rest by (auto simp: range_defs)
  show ?case
    using Cons.IH [of n] Cons.IH [of "n + amount m"] Cons.prems fits
    by (cases "released m") (auto simp: i128_checked_def ac_simps)
qed simp

lemma filter_paid: "paid_up_to k ms \<Longrightarrow> filter released ms = take k ms"
proof -
  assume k: "paid_up_to k ms"
  have "filter released (take k ms) = take k ms" "filter released (drop k ms) = []"
    using k by (auto simp: paid_up_to_def filter_id_conv filter_empty_conv in_set_conv_nth)
  then show ?thesis by (metis append.right_neutral append_take_drop_id filter_append)
qed

text \<open>The two totals of a stored schedule.\<close>

lemma totals_of_schedule:
  assumes "schedule_ok i a" "Schedule s i = Some a" "paid_up_to k (milestones a)"
  shows "released_total s i = Ok (sum_list (map amount (take k (milestones a))))"
    "remaining_amount s i = Ok (sum_list (map amount (drop k (milestones a))))"
proof -
  let ?r = "sum_list (map amount (take k (milestones a)))" let ?u = "sum_list (map amount (drop k (milestones a)))"
  have all: "sum_list (map amount (milestones a)) = total_amount a" "\<forall>m\<in>set (milestones a). 0 \<le> amount m"
    "fits_i128 (total_amount a)" "award_id a = i"
    using assms(1) by (auto simp: schedule_ok_def plan_ok_def)
  have "sum_list (map amount (take k (milestones a) @ drop k (milestones a))) = ?r + ?u"
    by (simp only: map_append sum_list_append)
  then have split: "total_amount a = ?r + ?u" using all(1) by simp
  have "0 \<le> ?r" "0 \<le> ?u"
    using all(2) set_take_subset [of k "milestones a"] set_drop_subset [of k "milestones a"]
    by (intro sum_list_nonneg; fastforce)+
  then have fits: "fits_i128 ?u" using split all(3) by (simp add: range_defs)
  show released: "released_total s i = Ok ?r"
    using total_loop_eq [of "milestones a" 0] all filter_paid [OF assms(3)] assms(2)
    by (simp add: released_total_def get_schedule_def)
  show "remaining_amount s i = Ok ?u"
    using released fits split all(4) assms(2) by (simp add: remaining_amount_def get_schedule_def i128_checked_def)
qed

section \<open>Paying a schedule out\<close>

lemma verify_call:
  assumes "Admin s = Some ad" "auth env ad" "Schedule s i = Some a" "schedule_ok i a" "active a"
    "k < length (milestones a)" "\<not> verified (milestones a ! k)"
  shows "verify_milestone env ad i k s =
    Ok (s\<lparr>Schedule := (Schedule s)(i \<mapsto> a\<lparr>milestones := (milestones a)[k := (milestones a ! k)\<lparr>verified := True\<rparr>]\<rparr>)\<rparr>)"
  using assms by (simp add: verify_milestone_def require_admin_def load_schedule_def put_schedule_def schedule_ok_def)

lemma release_call:
  assumes "Admin s = Some ad" "auth env ad" "Schedule s i = Some a" "schedule_ok i a" "active a"
    "k < length (milestones a)" "paid_up_to k (milestones a)" "verified (milestones a ! k)"
  shows "release_milestone env ad i k s =
    Ok (s\<lparr>Schedule := (Schedule s)(i \<mapsto> a\<lparr>milestones := (milestones a)[k := (milestones a ! k)\<lparr>released := True\<rparr>]\<rparr>)\<rparr>)"
proof -
  have "earlier_loop (milestones a) k 0 = Ok ()"
    using assms(6,7) by (subst earlier_loop_Ok) (auto simp: paid_up_to_def)
  moreover have "\<not> released (milestones a ! k)" using assms(6,7) by (simp add: paid_up_to_def)
  ultimately show ?thesis
    using assms by (simp add: release_milestone_def require_admin_def load_schedule_def put_schedule_def schedule_ok_def)
qed

lemma paid_step:
  "paid_up_to k ms \<Longrightarrow> k < length ms \<Longrightarrow> paid_up_to (Suc k) (ms[k := (ms ! k)\<lparr>released := True\<rparr>])"
  "paid_up_to k ms \<Longrightarrow> k < length ms \<Longrightarrow> paid_up_to k (ms[k := (ms ! k)\<lparr>verified := True\<rparr>])"
  by (auto simp: paid_up_to_def nth_list_update less_Suc_eq)

lemma run_calls_append: "run_calls exec (xs @ ys) s = and_then (run_calls exec xs s) (run_calls exec ys)"
proof (induction xs arbitrary: s)
  case (Cons x xs)
  then show ?case by (cases x; cases "exec (fst x) (snd x) s") simp_all
qed simp

text \<open>The next milestone can be paid with at most two calls.\<close>

lemma pay_next:
  assumes "milestones_wf s" "Admin s = Some ad" "auth env ad" "Schedule s i = Some a" "active a"
    "paid_up_to k (milestones a)" "k < length (milestones a)"
  obtains cs t b where "run_calls milestones_exec (map (Pair env) cs) s = Ok t" "length cs \<le> 2" "Admin t = Some ad"
    "Schedule t i = Some b" "active b" "length (milestones b) = length (milestones a)" "paid_up_to (Suc k) (milestones b)"
proof (cases "verified (milestones a ! k)")
  case True
  note ok = milestones_wfD [OF assms(1,4)]
  let ?b = "a\<lparr>milestones := (milestones a)[k := (milestones a ! k)\<lparr>released := True\<rparr>]\<rparr>"
  show thesis
    using release_call [OF assms(2-4) ok assms(5,7,6) True] assms paid_step(1) [OF assms(6,7)]
    by (intro that [of "[ReleaseMilestone ad i k]" "s\<lparr>Schedule := (Schedule s)(i \<mapsto> ?b)\<rparr>" ?b]) simp_all
next
  case False
  note ok = milestones_wfD [OF assms(1,4)]
  let ?b = "a\<lparr>milestones := (milestones a)[k := (milestones a ! k)\<lparr>verified := True\<rparr>]\<rparr>"
  let ?s = "s\<lparr>Schedule := (Schedule s)(i \<mapsto> ?b)\<rparr>"
  note call = verify_call [OF assms(2-4) ok assms(5,7) False]
  then have "milestones_step s ?s" by (intro milestones_step.call [of env "VerifyMilestone ad i k"]) simp
  then have "milestones_wf ?s" using assms(1) by (rule milestones_step_wf)
  then have okb: "schedule_ok i ?b" by (simp add: milestones_wf_def)
  note paid = paid_step(2) [OF assms(6,7)]
  let ?c = "?b\<lparr>milestones := (milestones ?b)[k := (milestones ?b ! k)\<lparr>released := True\<rparr>]\<rparr>"
  have "release_milestone env ad i k ?s = Ok (?s\<lparr>Schedule := (Schedule ?s)(i \<mapsto> ?c)\<rparr>)"
    using assms okb paid by (intro release_call) simp_all
  with call show thesis
    using assms paid_step(1) [OF paid]
    by (intro that [of "[VerifyMilestone ad i k, ReleaseMilestone ad i k]" "?s\<lparr>Schedule := (Schedule ?s)(i \<mapsto> ?c)\<rparr>" ?c])
      simp_all
qed

lemma pay_out:
  assumes "milestones_wf s" "Admin s = Some ad" "auth env ad" "Schedule s i = Some a" "active a"
    "paid_up_to k (milestones a)"
  shows "\<exists>cs t. run_calls milestones_exec (map (Pair env) cs) s = Ok t \<and>
    length cs \<le> 2 * (length (milestones a) - k) \<and> remaining_amount t i = Ok 0"
  using assms
proof (induction "length (milestones a) - k" arbitrary: s a k)
  case 0
  then have "k = length (milestones a)" by (simp add: paid_up_to_def)
  with 0 totals_of_schedule(2) [OF milestones_wfD [OF 0(2,5)] 0(5,7)] show ?case
    by (intro exI [of _ "[]"] exI [of _ s]) simp
next
  case (Suc n)
  from Suc.hyps(2) have "k < length (milestones a)" by simp
  with Suc.prems obtain cs t b where next_paid: "run_calls milestones_exec (map (Pair env) cs) s = Ok t" "length cs \<le> 2"
    "Admin t = Some ad" "Schedule t i = Some b" "active b" "length (milestones b) = length (milestones a)"
    "paid_up_to (Suc k) (milestones b)"
    by (rule pay_next)
  have "milestones_wf t"
    by (rule milestones.run [OF run_calls_steps [OF next_paid(1)] Suc.prems(1)]) (auto intro: milestones_step.call)
  with Suc.hyps Suc.prems(3) next_paid obtain ds u where "run_calls milestones_exec (map (Pair env) ds) t = Ok u"
    "length ds \<le> 2 * (length (milestones b) - Suc k)" "remaining_amount u i = Ok 0"
    by (metis Suc_diff_Suc Suc_inject \<open>k < length (milestones a)\<close>)
  with next_paid Suc.hyps(2) show ?case
    by (intro exI [of _ "cs @ ds"] exI [of _ u]) (simp add: run_calls_append)
qed

section \<open>Properties\<close>

abbreviation milestones_env :: env where
  "milestones_env \<equiv> \<lparr>timestamp = 10, ledger_sequence = 7, self = 99, auth = (\<lambda>_. True)\<rparr>"

definition demo_inputs :: "MilestoneInput list" where
  "demo_inputs = [\<lparr>in_kind = Enrollment, in_label_hash = [1], in_percentage_bps = 3333, in_due_at = 1000\<rparr>,
     \<lparr>in_kind = Completion, in_label_hash = [2], in_percentage_bps = 6667, in_due_at = 2000\<rparr>]"

definition demo_plan :: "bool \<Rightarrow> bool \<Rightarrow> Milestone list" where
  "demo_plan v r = [\<lparr>milestone_index = 0, kind = Enrollment, label_hash = [1], percentage_bps = 3333, amount = 33,
       due_at = 1000, verified = v, released = r\<rparr>,
     \<lparr>milestone_index = 1, kind = Completion, label_hash = [2], percentage_bps = 6667, amount = 67, due_at = 2000,
       verified = False, released = False\<rparr>]"

definition demo_schedule :: "bool \<Rightarrow> bool \<Rightarrow> MilestoneSchedule" where
  "demo_schedule v r = \<lparr>award_id = [5], total_amount = 100, currency = ''USD'', version = 1, active = True,
     created_at = 10, activated_at = 10, amended_at = 0, milestones = demo_plan v r\<rparr>"

definition demo_milestones :: "bool \<Rightarrow> bool \<Rightarrow> milestones_state" where
  "demo_milestones v r = \<lparr>Admin = Some 1, Schedule = [[5] \<mapsto> demo_schedule v r]\<rparr>"

lemmas milestone_call_defs = initialize_def define_schedule_def activate_schedule_def verify_milestone_def
  release_milestone_def require_admin_def load_schedule_def put_schedule_def build_milestones_def MAX_MILESTONES_def
  BPS_DENOM_U32_def BPS_DENOM_I128_def u32_checked_def i128_checked_def div_trunc_def range_defs Let_def vec_get_def
  earlier_loop.simps

lemmas demo_milestones_defs = milestones_init_def demo_inputs_def demo_plan_def demo_schedule_def demo_milestones_def

lemma demo_milestones_run:
  "run_calls milestones_exec
     [(milestones_env, Initialize 1), (milestones_env, DefineSchedule 1 [5] 100 ''USD'' demo_inputs),
      (milestones_env, ActivateSchedule 1 [5])] milestones_init = Ok (demo_milestones False False)"
  by (simp add: milestone_call_defs demo_milestones_defs)

lemma demo_milestones_pay:
  "run_calls milestones_exec [(milestones_env, VerifyMilestone 1 [5] 0)] (demo_milestones False False) =
     Ok (demo_milestones True False)"
  "run_calls milestones_exec [(milestones_env, ReleaseMilestone 1 [5] 0)] (demo_milestones True False) =
     Ok (demo_milestones True True)"
  by (simp_all add: milestone_call_defs demo_milestones_defs)

lemma milestones_run_steps: "run_calls milestones_exec cs s = Ok t \<Longrightarrow> milestones_step\<^sup>*\<^sup>* s t"
  by (rule run_calls_steps) (auto intro: milestones_step.call)

lemma demo_milestones_reachable: "milestones_step\<^sup>*\<^sup>* milestones_init (demo_milestones True False)"
  using milestones_run_steps [OF demo_milestones_run] milestones_run_steps [OF demo_milestones_pay(1)] by simp

lemma demo_milestones_later: "milestones_step\<^sup>*\<^sup>* (demo_milestones True False) (demo_milestones True True)"
  using milestones_run_steps [OF demo_milestones_pay(2)] .

lemma demo_milestones_stored: "Schedule (demo_milestones v r) [5] = Some (demo_schedule v r)"
  by (simp add: demo_milestones_def)

text \<open>
  Milestone amounts reconcile to the award. \<open>build_milestones\<close> succeeds exactly for 1 to 16 milestones with
  strictly increasing dates whose percentages make 100 percent, a positive amount, and products of amount and
  percentage (of all but the last milestone) in the range of \<open>i128\<close>. The amounts of the milestones then add up to the
  award to the unit, and each is its percentage rounded down, or at most the number of milestones minus one more.
\<close>

theorem milestones_reconcile:
  assumes "fits_i128 t"
  shows "(is_ok (build_milestones t xs) \<longleftrightarrow> 1 \<le> length xs \<and> length xs \<le> 16 \<and> 0 < t \<and>
      sum_list (map in_percentage_bps xs) = 10000 \<and> sorted_wrt (<) (map in_due_at xs) \<and>
      (\<forall>x\<in>set (butlast xs). fits_i128 (t * int (in_percentage_bps x)))) \<and>
    (\<forall>ms. build_milestones t xs = Ok ms \<longrightarrow> sum_list (map amount ms) = t \<and>
      map percentage_bps ms = map in_percentage_bps xs \<and> map due_at ms = map in_due_at xs \<and>
      (\<forall>m\<in>set ms. t * int (percentage_bps m) div 10000 \<le> amount m \<and>
         amount m < t * int (percentage_bps m) div 10000 + int (length xs) \<and> \<not> verified m \<and> \<not> released m))"
proof (intro conjI allI impI)
  show "is_ok (build_milestones t xs) \<longleftrightarrow> 1 \<le> length xs \<and> length xs \<le> 16 \<and> 0 < t \<and>
      sum_list (map in_percentage_bps xs) = 10000 \<and> sorted_wrt (<) (map in_due_at xs) \<and>
      (\<forall>x\<in>set (butlast xs). fits_i128 (t * int (in_percentage_bps x)))"
    using assms by (simp add: is_ok_iff outcome_iff acceptable_def MAX_MILESTONES_def)
  fix ms
  assume "build_milestones t xs = Ok ms"
  then have ms: "ms = built t 0 0 xs" and ok: "acceptable t xs" by (auto simp: outcome_iff)
  then show "sum_list (map amount ms) = t" using built_plan_ok by (simp add: plan_ok_def)
  show "map percentage_bps ms = map in_percentage_bps xs" "map due_at ms = map in_due_at xs" using ms by simp_all
  have "share t (percentage_bps m) \<le> amount m \<and> amount m < share t (percentage_bps m) + int (length xs)"
    if "m \<in> set ms" for m
    using built_amounts [of 0 xs 0 t 0 m] that ms ok by (simp add: acceptable_def)
  with built_fresh [of _ t 0 0 xs] show "\<forall>m\<in>set ms. t * int (percentage_bps m) div 10000 \<le> amount m \<and>
      amount m < t * int (percentage_bps m) div 10000 + int (length xs) \<and> \<not> verified m \<and> \<not> released m"
    unfolding ms by (auto simp: share_def BPS_DENOM_I128_def)
qed

theorem milestones_reconcile_witness: "is_ok (build_milestones 100 demo_inputs)"
  using milestones_reconcile [of 100 demo_inputs] by (simp add: demo_inputs_def range_defs)

text \<open>
  C22. The milestone books are exact. In every reachable state the released milestones of a schedule are its first
  \<open>k\<close>, all of them verified, \<open>released_total\<close> answers the sum of their amounts, \<open>remaining_amount\<close> the sum of the others,
  neither call fails, and the two sums make the award.
\<close>

theorem milestone_books_exact:
  assumes "milestones_step\<^sup>*\<^sup>* milestones_init s" and "Schedule s i = Some a"
  shows "\<exists>k r u. k \<le> length (milestones a) \<and> (\<forall>j<length (milestones a). released (milestones a ! j) \<longleftrightarrow> j < k) \<and>
    (\<forall>m\<in>set (milestones a). released m \<longrightarrow> verified m) \<and>
    released_total s i = Ok r \<and> r = sum_list (map amount (take k (milestones a))) \<and>
    remaining_amount s i = Ok u \<and> u = sum_list (map amount (drop k (milestones a))) \<and>
    0 \<le> r \<and> 0 \<le> u \<and> r + u = total_amount a"
proof -
  note ok = milestones_wfD [OF milestones_run_wf [OF assms(1)] assms(2)]
  then have plan: "sum_list (map amount (milestones a)) = total_amount a" "\<forall>m\<in>set (milestones a). 0 \<le> amount m"
    "\<forall>m\<in>set (milestones a). released m \<longrightarrow> verified m" "\<exists>k. paid_up_to k (milestones a)"
    by (auto simp: schedule_ok_def plan_ok_def)
  then obtain k where k: "paid_up_to k (milestones a)" by blast
  let ?r = "sum_list (map amount (take k (milestones a)))" let ?u = "sum_list (map amount (drop k (milestones a)))"
  have "sum_list (map amount (take k (milestones a) @ drop k (milestones a))) = ?r + ?u"
    by (simp only: map_append sum_list_append)
  then have split: "total_amount a - ?r = ?u" using plan(1) by simp
  have "0 \<le> ?r" "0 \<le> ?u"
    using plan(2) set_take_subset [of k "milestones a"] set_drop_subset [of k "milestones a"]
    by (intro sum_list_nonneg; fastforce)+
  with totals_of_schedule [OF ok assms(2) k] split k plan(3) show ?thesis
    by (intro exI [of _ k] exI [of _ ?r] exI [of _ ?u]) (simp add: paid_up_to_def)
qed

theorem milestone_books_exact_witness: "\<exists>r. released_total (demo_milestones True True) [5] = Ok r"
  using milestone_books_exact
    [OF rtranclp_trans [OF demo_milestones_reachable demo_milestones_later] demo_milestones_stored]
  by blast

text \<open>
  Releases happen in order. In every reachable state a release by the admin succeeds exactly when the schedule
  is active, the milestone is verified, and the released milestones are exactly those before it; it then moves
  exactly the amount of that milestone from the remaining to the released total.
\<close>

theorem release_in_order:
  assumes "milestones_step\<^sup>*\<^sup>* milestones_init s" and "Schedule s i = Some a" and "Admin s = Some ad" and "auth env ad"
  shows "(is_ok (release_milestone env ad i k s) \<longleftrightarrow> active a \<and> k < length (milestones a) \<and>
      verified (milestones a ! k) \<and> (\<forall>j<length (milestones a). released (milestones a ! j) \<longleftrightarrow> j < k)) \<and>
    (\<forall>t. release_milestone env ad i k s = Ok t \<longrightarrow>
      (\<exists>r u. released_total s i = Ok r \<and> released_total t i = Ok (r + amount (milestones a ! k)) \<and>
        remaining_amount t i = Ok u \<and> remaining_amount s i = Ok (u + amount (milestones a ! k))))"
proof -
  note wf = milestones_run_wf [OF assms(1)]
  note ok = milestones_wfD [OF wf assms(2)]
  have order: "active a \<and> k < length (milestones a) \<and> verified (milestones a ! k) \<and> paid_up_to k (milestones a)"
    if "is_ok (release_milestone env ad i k s)"
  proof -
    from that assms(2) have now: "active a" "k < length (milestones a)" "verified (milestones a ! k)"
      "\<not> released (milestones a ! k)" "\<forall>j<k. released (milestones a ! j)"
      by (auto simp: is_ok_iff release_milestone_def load_schedule_def outcome_iff earlier_loop_Ok)
    obtain n where n: "paid_up_to n (milestones a)" using ok by (auto simp: schedule_ok_def plan_ok_def)
    have "released (milestones a ! x) \<longleftrightarrow> x < n" if "x \<le> k" for x using n now(2) that by (simp add: paid_up_to_def)
    from this [of k] this [of n] now(4,5) have "n = k" by (cases "n < k") auto
    with n now show ?thesis by simp
  qed
  show ?thesis
  proof (intro conjI allI impI)
    show "is_ok (release_milestone env ad i k s) \<longleftrightarrow> active a \<and> k < length (milestones a) \<and>
      verified (milestones a ! k) \<and> (\<forall>j<length (milestones a). released (milestones a ! j) \<longleftrightarrow> j < k)"
      using order release_call [OF assms(3,4,2) ok] by (auto simp: paid_up_to_def)
    fix t
    assume call: "release_milestone env ad i k s = Ok t"
    with order have now: "active a" "k < length (milestones a)" "verified (milestones a ! k)" "paid_up_to k (milestones a)"
      by simp_all
    let ?b = "a\<lparr>milestones := (milestones a)[k := (milestones a ! k)\<lparr>released := True\<rparr>]\<rparr>"
    have t: "Schedule t i = Some ?b" using call release_call [OF assms(3,4,2) ok now(1,2,4,3)] by auto
    have "milestones_wf t"
      using call by (intro milestones_step_wf [OF milestones_step.call wf, of env "ReleaseMilestone ad i k"]) simp
    note okb = milestones_wfD [OF this t]
    have "drop k (milestones a) = milestones a ! k # drop (Suc k) (milestones a)"
      using now(2) by (rule Cons_nth_drop_Suc [symmetric])
    with totals_of_schedule [OF ok assms(2) now(4)] totals_of_schedule [OF okb t, of "Suc k"] paid_step(1) [OF now(4,2)] now(2)
    show "\<exists>r u. released_total s i = Ok r \<and> released_total t i = Ok (r + amount (milestones a ! k)) \<and>
        remaining_amount t i = Ok u \<and> remaining_amount s i = Ok (u + amount (milestones a ! k))"
      by (simp add: take_Suc_conv_app_nth ac_simps)
  qed
qed

theorem release_in_order_witness: "is_ok (release_milestone milestones_env 1 [5] 0 (demo_milestones True False))"
  using release_in_order [OF demo_milestones_reachable demo_milestones_stored, of 1 milestones_env 0]
  by (auto simp: demo_milestones_defs less_Suc_eq)

text \<open>
  Released history is final. Once a milestone of a schedule has been released in a reachable state, no later
  call changes the award amount, the currency, the version or the terms of any milestone; milestones stay
  verified and released.
\<close>

theorem released_history_final:
  assumes "milestones_step\<^sup>*\<^sup>* milestones_init s" and "milestones_step\<^sup>*\<^sup>* s t"
    and "Schedule s i = Some a" and "m \<in> set (milestones a)" and "released m"
  shows "\<exists>b. Schedule t i = Some b \<and> total_amount b = total_amount a \<and> currency b = currency a \<and>
    version b = version a \<and> active b = active a \<and> list_all2 milestone_evolves (milestones a) (milestones b)"
proof -
  note wf = milestones_run_wf [OF assms(1)]
  from milestones.run_evolves [OF assms(2) wf] assms(3) obtain b where "Schedule t i = Some b" "schedule_evolves a b"
    by (auto simp: milestones_evolves_def kept_def)
  moreover have "active a"
    using milestones_wfD [OF wf assms(3)] assms(4,5) by (auto simp: schedule_ok_def plan_ok_def)
  ultimately show ?thesis using assms(4,5) unfolding schedule_evolves_def by auto
qed

theorem released_history_final_witness: "\<exists>b. Schedule (demo_milestones True True) [5] = Some b \<and> total_amount b = 100"
proof -
  have "milestones_step\<^sup>*\<^sup>* milestones_init (demo_milestones True True)"
    using demo_milestones_reachable demo_milestones_later by (rule rtranclp_trans)
  from released_history_final [OF this rtranclp.rtrancl_refl demo_milestones_stored, of "hd (demo_plan True True)"]
  show ?thesis by (auto simp: demo_schedule_def demo_plan_def)
qed

text \<open>
  C23. An active schedule can be paid out. Once all its milestones are due, the admin can bring the remaining amount
  of an active schedule to zero from every reachable state, with at most two calls for each milestone: nothing
  gets stuck, whatever was verified, released or amended before.
\<close>

theorem active_schedule_payable:
  assumes "milestones_step\<^sup>*\<^sup>* milestones_init s" and "Schedule s i = Some a" and "active a"
    and "\<forall>m\<in>set (milestones a). due_at m \<le> timestamp env" and "Admin s = Some ad" and "auth env ad"
  shows "\<exists>cs t. run_calls milestones_exec (map (Pair env) cs) s = Ok t \<and>
    length cs \<le> 2 * length (milestones a) \<and> remaining_amount t i = Ok 0"
proof -
  note wf = milestones_run_wf [OF assms(1)]
  obtain k where "paid_up_to k (milestones a)"
    using milestones_wfD [OF wf assms(2)] by (auto simp: schedule_ok_def plan_ok_def)
  from pay_out [OF wf assms(5,6,2,3) this] show ?thesis by (meson diff_le_self le_trans mult_le_mono2)
qed

theorem active_schedule_payable_witness:
  "\<exists>cs t. run_calls milestones_exec (map (Pair (milestones_env\<lparr>timestamp := 2000\<rparr>)) cs) (demo_milestones True False) = Ok t \<and>
     length cs \<le> 4 \<and> remaining_amount t [5] = Ok 0"
  using active_schedule_payable [OF demo_milestones_reachable demo_milestones_stored,
      of "milestones_env\<lparr>timestamp := 2000\<rparr>" 1]
  by (simp add: demo_schedule_def demo_plan_def demo_milestones_def)

text \<open>
  Dates do not hold back a payment. A milestone due at time 1000 is released at time 10: no function compares
  \<open>due_at\<close> with the clock.
\<close>

theorem released_before_due:
  "\<exists>t m. release_milestone milestones_env 1 [5] 0 (demo_milestones True False) = Ok t \<and> get_milestone t [5] 0 = Ok m \<and>
     released m \<and> timestamp milestones_env < due_at m"
  by (simp add: milestone_call_defs demo_milestones_defs get_milestone_def get_schedule_def)

end
