(* ===== verification/Availability_Queries.thy ===== *)
theory Availability_Queries
  imports Availability_Ranges
begin

text \<open>
  The availability contract as a whole: what is stored stays well-formed, every schedule change raises the
  version, and the two queries answer exactly for the instants that are open and bookable.
\<close>

section \<open>Exactness of the materialisation\<close>

lemma some_day:
  assumes "a < b"
  shows "(\<exists>e. a div 86400 \<le> e \<and> e \<le> (b - 1) div 86400 \<and> in_box (e * 86400) (e * 86400 + 86400) a b t) \<longleftrightarrow>
    a \<le> t \<and> t < b"
proof
  assume t: "a \<le> t \<and> t < b"
  have "t div 86400 * 86400 \<le> t" "t < t div 86400 * 86400 + 86400" by auto
  moreover have "a div 86400 \<le> t div 86400" "t div 86400 \<le> (b - 1) div 86400"
    using t by (auto intro: div_le_mono)
  ultimately show "\<exists>e. a div 86400 \<le> e \<and> e \<le> (b - 1) div 86400 \<and> in_box (e * 86400) (e * 86400 + 86400) a b t"
    using t by (intro exI [of _ "t div 86400"]) (simp add: in_box_def)
qed (auto simp: in_box_def)

lemma compute_ranges_ok:
  assumes "schedule_ok sch" "\<forall>x\<in>set xs. from_ts x < until_ts x" "a < b" "int b + 86400 * 4 < 2 ^ 62"
  shows "\<exists>rs. compute_ranges sch xs a b = Ok rs \<and> separated rs \<and>
    (\<forall>t. covered rs t \<longleftrightarrow> a \<le> t \<and> t < b \<and> (weekly_open sch t \<or> extra_open xs t) \<and> \<not> blocked xs t)"
proof -
  let ?l = "(b - 1) div 86400"
  have "?l * 86400 \<le> b" by (metis diff_le_self div_times_less_eq_dividend le_trans)
  then have "int ?l * 86400 \<le> int b" by (metis of_nat_le_iff of_nat_mult of_nat_numeral)
  then have "int ?l * 86400 + 86400 * 4 < 2 ^ 62" using assms(4) by linarith
  from day_loop_ok [OF assms(1) this, of "[]" "a div 86400" xs a b]
  obtain m where m: "day_loop sch xs (a div 86400) ?l a b [] = Ok m" "separated m"
    "\<And>t. covered m t \<longleftrightarrow> a \<le> t \<and> t < b \<and> (weekly_open sch t \<or> extra_open xs t)"
    unfolding some_day [OF assms(3)] by auto
  let ?bs = "filter (\<lambda>x. exc_kind x = Unavailable) xs"
  have compute: "compute_ranges sch xs a b = Ok (if ?bs = [] then m else subtract_loop ?bs m)"
    using assms(3) m(1) by (simp add: compute_ranges_def time_consts Let_def)
  have block: "blocked xs t \<longleftrightarrow> (\<exists>b\<in>set ?bs. blackout b t)" for t by (auto simp: blocked_def blackout_def)
  show ?thesis
  proof (cases "?bs = []")
    case True
    then have "\<not> blocked xs t" for t unfolding block by simp
    with m compute True show ?thesis by auto
  next
    case False
    have "\<forall>b\<in>set ?bs. from_ts b < until_ts b" using assms(2) by simp
    from subtract_loop_ok [OF this m(2)] compute False m(3) show ?thesis unfolding block by auto
  qed
qed


section \<open>The bookable window\<close>

definition bookable :: "env \<Rightarrow> AvailabilitySchedule \<Rightarrow> nat \<Rightarrow> bool" where
  "bookable env sch t \<longleftrightarrow> enabled sch \<and> effective_from sch \<le> t \<and>
     (effective_until sch = 0 \<or> t < effective_until sch) \<and>
     timestamp env + lead_time_seconds sch \<le> t \<and> t < timestamp env + booking_horizon_days sch * 86400"

definition limits_ok :: "AvailabilitySchedule \<Rightarrow> bool" where
  "limits_ok sch \<longleftrightarrow> lead_time_seconds sch \<le> MAX_LEAD_TIME_SECONDS \<and>
     0 < booking_horizon_days sch \<and> booking_horizon_days sch \<le> MAX_BOOKING_HORIZON_DAYS \<and>
     buffer_before_seconds sch \<le> MAX_BUFFER_SECONDS \<and> buffer_after_seconds sch \<le> MAX_BUFFER_SECONDS \<and>
     0 < effective_from sch \<and> (effective_until sch = 0 \<or> effective_from sch < effective_until sch)"

lemma bookable_window_ok:
  assumes "limits_ok sch" "timestamp env < 2 ^ 61"
  shows "case bookable_window env sch a b of
      None \<Rightarrow> \<forall>t. a \<le> t \<and> t < b \<longrightarrow> \<not> bookable env sch t
    | Some (x, y) \<Rightarrow> x < y \<and> y \<le> timestamp env + booking_horizon_days sch * 86400 \<and>
        (\<forall>t. x \<le> t \<and> t < y \<longleftrightarrow> a \<le> t \<and> t < b \<and> bookable env sch t)"
proof -
  have lead: "u64_checked (timestamp env + lead_time_seconds sch) = Some (timestamp env + lead_time_seconds sch)"
    and days: "u64_checked (booking_horizon_days sch * SECONDS_PER_DAY) = Some (booking_horizon_days sch * 86400)"
    and horizon: "u64_checked (timestamp env + booking_horizon_days sch * 86400) =
      Some (timestamp env + booking_horizon_days sch * 86400)"
    using assms by (simp_all add: limits_ok_def limit_consts time_consts range_defs)
  define x where "x = max (max a (effective_from sch)) (timestamp env + lead_time_seconds sch)"
  define h where "h = min b (timestamp env + booking_horizon_days sch * 86400)"
  define y where "y = (if effective_until sch = 0 then h else min h (effective_until sch))"
  have window: "bookable_window env sch a b = (if \<not> enabled sch \<or> y \<le> x then None else Some (x, y))"
    unfolding bookable_window_def Let_def lead days unwrap_or_simps horizon x_def y_def h_def
    by (simp add: max_def min_def)
  have inst: "x \<le> t \<and> t < y \<and> enabled sch \<longleftrightarrow> a \<le> t \<and> t < b \<and> bookable env sch t" for t
    unfolding bookable_def x_def y_def h_def by auto
  show ?thesis
  proof (cases "\<not> enabled sch \<or> y \<le> x")
    case True
    then have "\<not> (x \<le> t \<and> t < y \<and> enabled sch)" for t by auto
    with True show ?thesis unfolding window inst by auto
  next
    case False
    moreover have "y \<le> timestamp env + booking_horizon_days sch * 86400" by (auto simp: y_def h_def min_def)
    ultimately show ?thesis using inst unfolding window by auto
  qed
qed

section \<open>The invariant\<close>

definition exception_ok :: "hash32 \<Rightarrow> AvailabilityException \<Rightarrow> bool" where
  "exception_ok i x \<longleftrightarrow> exc_id x = i \<and> 0 < from_ts x \<and> from_ts x < until_ts x \<and>
     until_ts x - from_ts x \<le> MAX_EXCEPTION_SPAN_SECONDS"

definition avail_wf :: "avail_state \<Rightarrow> bool" where
  "avail_wf s \<longleftrightarrow>
     (\<forall>p sch. Schedule s p = Some sch \<longrightarrow> participant sch = p \<and> schedule_ok sch \<and> limits_ok sch \<and>
        weekly sch \<noteq> [] \<and> sorted_wrt (<) (map change_from (offset_changes sch))) \<and>
     (\<forall>p i x. Exception s (p, i) = Some x \<longrightarrow> exception_ok i x) \<and>
     (\<forall>p. distinct (load_exception_ids s p) \<and> length (load_exception_ids s p) \<le> MAX_EXCEPTIONS \<and>
        set (load_exception_ids s p) = {i. Exception s (p, i) \<noteq> None})"

lemma avail_init_wf: "avail_wf avail_init"
  by (simp add: avail_wf_def avail_init_def load_exception_ids_def)

lemma avail_wfD:
  assumes "avail_wf s"
  shows "Schedule s p = Some sch \<Longrightarrow> participant sch = p \<and> schedule_ok sch \<and> limits_ok sch \<and>
      weekly sch \<noteq> [] \<and> sorted_wrt (<) (map change_from (offset_changes sch))"
    "Exception s (p, i) = Some x \<Longrightarrow> exception_ok i x"
    "distinct (load_exception_ids s p)" "length (load_exception_ids s p) \<le> MAX_EXCEPTIONS"
    "set (load_exception_ids s p) = {i. Exception s (p, i) \<noteq> None}"
  using assms unfolding avail_wf_def by blast+

lemma validate_offset_Ok [outcome_iff]: "validate_offset c = Ok u \<longleftrightarrow> offset_ok c"
  by (auto simp: validate_offset_def offset_ok_def)

lemma changes_loop_Ok:
  "changes_loop f c cs = Ok u \<Longrightarrow>
   (\<forall>x\<in>set cs. offset_ok (change_offset x) \<and> f < change_from x) \<and> sorted_wrt (<) (map change_from cs)"
proof (induction f c cs rule: changes_loop.induct)
  case (2 f c x cs)
  then show ?case by (fastforce simp: outcome_iff split: if_splits)
qed simp

lemma normalize_windows_Ok:
  assumes "normalize_windows ws = Ok ns"
  shows "canonical ns \<and> ns \<noteq> [] \<and> length ns \<le> length ws \<and>
    (open_minute ns d m \<longleftrightarrow> open_minute ws d m)"
  using assms normalize_loop_Ok [of None "[]" ws ns d m]
  by (auto simp: normalize_windows_def split: if_splits)

lemma set_schedule_Ok:
  assumes "set_schedule env p inp s = Ok (sch, t)"
  obtains "auth env p" "t = s\<lparr>Schedule := (Schedule s)(p \<mapsto> sch)\<rparr>" "participant sch = p" "schedule_ok sch"
    "limits_ok sch" "weekly sch \<noteq> []" "sorted_wrt (<) (map change_from (offset_changes sch))"
    "enabled sch" "\<And>old. Schedule s p = Some old \<Longrightarrow> version sch = version old + 1"
proof -
  from assms have norm: "normalize_windows (in_weekly inp) = Ok (weekly sch)"
    by (auto simp: set_schedule_def outcome_iff Let_def)
  from assms have changes: "changes_loop 0 (in_utc_offset_seconds inp) (in_offset_changes inp) = Ok ()"
    "offset_ok (in_utc_offset_seconds inp)" "offset_changes sch = in_offset_changes inp"
    "utc_offset_seconds sch = in_utc_offset_seconds inp"
    by (auto simp: set_schedule_def outcome_iff Let_def)
  have "schedule_ok sch"
    using normalize_windows_Ok [OF norm] changes_loop_Ok [OF changes(1)] changes(2)
    by (auto simp: schedule_ok_def known_offsets_def changes(3,4))
  moreover have "limits_ok sch" "participant sch = p" "enabled sch" "auth env p"
    "t = s\<lparr>Schedule := (Schedule s)(p \<mapsto> sch)\<rparr>"
    using assms by (auto simp: set_schedule_def limits_ok_def put_schedule_def outcome_iff Let_def)
  moreover have "version sch = version old + 1" if "Schedule s p = Some old" for old
    using assms that by (auto simp: set_schedule_def outcome_iff Let_def)
  ultimately show thesis
    using that normalize_windows_Ok [OF norm] changes_loop_Ok [OF changes(1)] changes(3) by simp
qed

lemma set_enabled_Ok:
  assumes "set_enabled env p b s = Ok t"
  obtains (same) "t = s"
    | (switched) sch where "auth env p" "Schedule s p = Some sch" "enabled sch \<noteq> b"
      "t = put_schedule (sch\<lparr>enabled := b, version := version sch + 1, updated_at := timestamp env\<rparr>) s"
  using assms by (auto simp: set_enabled_def load_schedule_def outcome_iff split: if_splits)

lemma add_exception_Ok:
  assumes "add_exception env p inp s = Ok t"
  obtains x where "auth env p" "exception_ok (inx_id inp) x" "exc_kind x = inx_kind inp"
    "Exception s (p, inx_id inp) = None" "length (load_exception_ids s p) < MAX_EXCEPTIONS"
    "t = s\<lparr>Exception := (Exception s)((p, inx_id inp) \<mapsto> x),
       Exceptions := (Exceptions s)(p \<mapsto> load_exception_ids s p @ [inx_id inp])\<rparr>"
  using assms
  by (intro that [of "\<lparr>exc_id = inx_id inp, exc_kind = inx_kind inp, from_ts = inx_from_ts inp,
        until_ts = inx_until_ts inp, reference_hash = inx_reference_hash inp, created_at = timestamp env\<rparr>"])
    (auto simp: add_exception_def exception_ok_def put_exception_ids_def load_exception_ids_def outcome_iff
      Let_def not_le not_less)

lemma remove_exception_Ok:
  assumes "remove_exception env p i s = Ok t"
  obtains "auth env p" "Exception s (p, i) \<noteq> None"
    "t = s\<lparr>Exception := (Exception s)((p, i) := None),
       Exceptions := (Exceptions s)(p \<mapsto> filter (\<lambda>j. j \<noteq> i) (load_exception_ids s p))\<rparr>"
  using assms by (auto simp: remove_exception_def put_exception_ids_def load_exception_ids_def outcome_iff Let_def)

lemma schedule_write_wf:
  assumes "avail_wf s" "schedule_ok sch" "limits_ok sch" "weekly sch \<noteq> []" "participant sch = p"
    "sorted_wrt (<) (map change_from (offset_changes sch))"
  shows "avail_wf (s\<lparr>Schedule := (Schedule s)(p \<mapsto> sch)\<rparr>)"
  using assms by (simp add: avail_wf_def load_exception_ids_def)

lemma exceptions_write_wf:
  assumes "avail_wf s" "t = s\<lparr>Exception := E, Exceptions := (Exceptions s)(p \<mapsto> ids)\<rparr>"
    and "\<And>q i. q \<noteq> p \<Longrightarrow> E (q, i) = Exception s (q, i)" "\<And>i x. E (p, i) = Some x \<Longrightarrow> exception_ok i x"
    and "distinct ids" "length ids \<le> MAX_EXCEPTIONS" "set ids = {i. E (p, i) \<noteq> None}"
  shows "avail_wf t"
proof -
  have "load_exception_ids t q = (if q = p then ids else load_exception_ids s q)" for q
    by (simp add: assms(2) load_exception_ids_def)
  moreover have "exception_ok i x" if "E (q, i) = Some x" for q i x
    using that assms(3,4) avail_wfD(2) [OF assms(1)] by (cases "q = p") simp_all
  ultimately show ?thesis
    using avail_wfD(1,3-5) [OF assms(1)] assms(3,5-7) unfolding avail_wf_def by (simp add: assms(2))
qed

lemma avail_exec_wf:
  assumes "avail_exec env c s = Ok t" "avail_wf s"
  shows "avail_wf t"
proof (cases c)
  case (SetSchedule p inp)
  with assms obtain sch where "set_schedule env p inp s = Ok (sch, t)" by (auto simp: state_of_Ok)
  then show ?thesis
    by (rule set_schedule_Ok) (use schedule_write_wf [OF assms(2)] in simp)
next
  case (SetEnabled p b)
  with assms(1) have "set_enabled env p b s = Ok t" by simp
  then show ?thesis
  proof (cases rule: set_enabled_Ok)
    case (switched sch)
    let ?sch = "sch\<lparr>enabled := b, version := version sch + 1, updated_at := timestamp env\<rparr>"
    note sch = avail_wfD(1) [OF assms(2) switched(2)]
    then have "schedule_ok ?sch" "limits_ok ?sch" by (simp_all add: schedule_ok_def limits_ok_def known_offsets_def)
    with sch switched(4) show ?thesis using schedule_write_wf [OF assms(2), of ?sch p] by (simp add: put_schedule_def)
  qed (simp add: assms)
next
  case (AddException p inp)
  with assms(1) have "add_exception env p inp s = Ok t" by simp
  then show ?thesis
  proof (cases rule: add_exception_Ok)
    case (1 x)
    have "inx_id inp \<notin> set (load_exception_ids s p)" using 1(4) avail_wfD(5) [OF assms(2)] by simp
    with 1 avail_wfD [OF assms(2)] show ?thesis
      by (intro exceptions_write_wf [OF assms(2) 1(6)]) (auto split: if_splits)
  qed
next
  case (RemoveException p i)
  with assms(1) have "remove_exception env p i s = Ok t" by simp
  then show ?thesis
  proof (cases rule: remove_exception_Ok)
    case 1
    have "length (filter (\<lambda>j. j \<noteq> i) (load_exception_ids s p)) \<le> MAX_EXCEPTIONS"
      by (rule le_trans [OF length_filter_le avail_wfD(4) [OF assms(2)]])
    with avail_wfD [OF assms(2)] show ?thesis
      by (intro exceptions_write_wf [OF assms(2) 1(3)]) (auto split: if_splits)
  qed
qed

text \<open>A schedule is never removed, and it only changes together with its version.\<close>

definition avail_evolves :: "avail_state \<Rightarrow> avail_state \<Rightarrow> bool" where
  "avail_evolves s t \<longleftrightarrow>
     (\<forall>p sch. Schedule s p = Some sch \<longrightarrow>
        (\<exists>sch'. Schedule t p = Some sch' \<and> version sch \<le> version sch' \<and>
           (version sch' = version sch \<longrightarrow> sch' = sch)))"

lemma avail_evolves_trans: "avail_evolves s t \<Longrightarrow> avail_evolves t u \<Longrightarrow> avail_evolves s u"
  unfolding avail_evolves_def
proof (intro allI impI)
  fix p sch
  assume st: "\<forall>p sch. Schedule s p = Some sch \<longrightarrow> (\<exists>sch'. Schedule t p = Some sch' \<and> version sch \<le> version sch' \<and>
      (version sch' = version sch \<longrightarrow> sch' = sch))"
    and tu: "\<forall>p sch. Schedule t p = Some sch \<longrightarrow> (\<exists>sch'. Schedule u p = Some sch' \<and> version sch \<le> version sch' \<and>
      (version sch' = version sch \<longrightarrow> sch' = sch))"
    and "Schedule s p = Some sch"
  then obtain x where x: "Schedule t p = Some x" "version sch \<le> version x" "version x = version sch \<longrightarrow> x = sch"
    by blast
  with tu obtain y where "Schedule u p = Some y" "version x \<le> version y" "version y = version x \<longrightarrow> y = x"
    by blast
  with x show "\<exists>sch'. Schedule u p = Some sch' \<and> version sch \<le> version sch' \<and>
      (version sch' = version sch \<longrightarrow> sch' = sch)"
    by auto
qed

lemma avail_exec_evolves:
  assumes "avail_exec env c s = Ok t" "avail_wf s"
  shows "avail_evolves s t"
proof (cases c)
  case (SetSchedule p inp)
  with assms obtain sch where "set_schedule env p inp s = Ok (sch, t)" by (auto simp: state_of_Ok)
  then show ?thesis by (rule set_schedule_Ok) (auto simp: avail_evolves_def)
next
  case (SetEnabled p b)
  with assms(1) have "set_enabled env p b s = Ok t" by simp
  then show ?thesis
  proof (cases rule: set_enabled_Ok)
    case (switched sch)
    with avail_wfD(1) [OF assms(2) switched(2)] show ?thesis by (auto simp: avail_evolves_def put_schedule_def)
  qed (simp add: avail_evolves_def)
qed (use assms in \<open>auto simp: avail_evolves_def elim!: add_exception_Ok remove_exception_Ok\<close>)

interpretation availability: evolving avail_step avail_wf avail_evolves
  by unfold_locales
    (auto intro: avail_exec_wf avail_exec_evolves avail_evolves_trans simp: avail_evolves_def [of s s for s]
      elim!: avail_stepE)

lemmas avail_run_wf = availability.run [OF _ avail_init_wf]

section \<open>What the queries answer\<close>

text \<open>Instant \<open>t\<close> is open: a weekly window or an extra exception contains it and no blackout does.\<close>

definition open_at :: "avail_state \<Rightarrow> address \<Rightarrow> AvailabilitySchedule \<Rightarrow> nat \<Rightarrow> bool" where
  "open_at s p sch t \<longleftrightarrow>
     (weekly_open sch t \<or>
      (\<exists>i x. Exception s (p, i) = Some x \<and> exc_kind x = Available \<and> from_ts x \<le> t \<and> t < until_ts x)) \<and>
     \<not> (\<exists>i x. Exception s (p, i) = Some x \<and> exc_kind x = Unavailable \<and> from_ts x \<le> t \<and> t < until_ts x)"

lemma exceptions_loop_set: "set (exceptions_loop s p ids) = {x. \<exists>i\<in>set ids. Exception s (p, i) = Some x}"
  by (induction s p ids rule: exceptions_loop.induct) (auto split: option.splits)

lemma load_exceptions_set:
  assumes "avail_wf s"
  shows "set (load_exceptions s p) = {x. \<exists>i. Exception s (p, i) = Some x}"
  unfolding load_exceptions_def exceptions_loop_set avail_wfD(5) [OF assms] by auto

lemma open_at_exceptions:
  assumes "avail_wf s"
  shows "open_at s p sch t \<longleftrightarrow>
    (weekly_open sch t \<or> extra_open (load_exceptions s p) t) \<and> \<not> blocked (load_exceptions s p) t"
  unfolding open_at_def extra_open_def blocked_def load_exceptions_set [OF assms] by blast

lemma query_ranges:
  assumes "avail_wf s" "Schedule s p = Some sch" "timestamp env < 2 ^ 61"
    and "bookable_window env sch a b = Some (x, y)"
  shows "x < y \<and> (\<exists>rs. compute_ranges sch (load_exceptions s p) x y = Ok rs \<and> separated rs \<and>
    (\<forall>t. covered rs t \<longleftrightarrow> a \<le> t \<and> t < b \<and> bookable env sch t \<and> open_at s p sch t)) \<and>
    (\<forall>t. x \<le> t \<and> t < y \<longleftrightarrow> a \<le> t \<and> t < b \<and> bookable env sch t)"
proof -
  note sch = avail_wfD(1) [OF assms(1,2)]
  then have lim: "limits_ok sch" by simp
  from bookable_window_ok [OF lim assms(3), of a b] assms(4)
  have xy: "x < y" "y \<le> timestamp env + booking_horizon_days sch * 86400"
    "\<And>t. x \<le> t \<and> t < y \<longleftrightarrow> a \<le> t \<and> t < b \<and> bookable env sch t"
    by auto
  have "booking_horizon_days sch * 86400 \<le> 365 * 86400" using lim by (simp add: limits_ok_def limit_consts)
  with xy(2) assms(3) have "int y + 86400 * 4 < 2 ^ 62" by simp
  moreover have "\<forall>x\<in>set (load_exceptions s p). from_ts x < until_ts x"
    using avail_wfD(2) [OF assms(1)] by (auto simp: load_exceptions_set [OF assms(1)] exception_ok_def)
  ultimately obtain rs where "compute_ranges sch (load_exceptions s p) x y = Ok rs" "separated rs"
    "\<And>t. covered rs t \<longleftrightarrow> x \<le> t \<and> t < y \<and> open_at s p sch t"
    using compute_ranges_ok [of sch "load_exceptions s p" x y] sch xy(1)
    by (auto simp: open_at_exceptions [OF assms(1)])
  then show ?thesis using xy by auto
qed

lemma is_available_eq:
  assumes "avail_wf s" "Schedule s p = Some sch" "timestamp env < 2 ^ 61" "a < b" "b - a \<le> MAX_QUERY_SPAN_SECONDS"
  shows "is_available env s p a b = Ok (\<forall>t. a \<le> t \<and> t < b \<longrightarrow> bookable env sch t \<and> open_at s p sch t)"
proof (cases "bookable_window env sch a b")
  case None
  have "limits_ok sch" using avail_wfD(1) [OF assms(1,2)] by simp
  with bookable_window_ok [of sch env a b] None assms(3) have "\<not> bookable env sch a" using assms(4) by simp
  then show ?thesis using None assms(2,4,5) by (auto simp: is_available_def load_schedule_def)
next
  case (Some xy)
  obtain x y where xy: "xy = (x, y)" by fastforce
  from query_ranges [OF assms(1-3) Some [unfolded xy]] obtain rs where
    rs: "compute_ranges sch (load_exceptions s p) x y = Ok rs" "separated rs" "x < y"
      "\<And>t. covered rs t \<longleftrightarrow> a \<le> t \<and> t < b \<and> bookable env sch t \<and> open_at s p sch t"
      "\<And>t. x \<le> t \<and> t < y \<longleftrightarrow> a \<le> t \<and> t < b \<and> bookable env sch t"
    by blast
  have "a \<le> x" "y \<le> b" using rs(3) rs(5) [of x] rs(5) [of "y - 1"] by auto
  have result: "is_available env s p a b =
      (if x > a \<or> y < b then Ok False else Ok (\<exists>r\<in>set rs. start_ts r \<le> x \<and> y \<le> end_ts r))"
    using assms(2,4,5) Some rs(1) by (simp add: is_available_def load_schedule_def xy list_ex_iff)
  show ?thesis
  proof (cases "x > a \<or> y < b")
    case True
    then have "\<not> bookable env sch a \<or> \<not> bookable env sch (b - 1)"
      using rs(5) [of a] rs(5) [of "b - 1"] assms(4) by auto
    moreover have "a \<le> b - 1" "b - 1 < b" using assms(4) by auto
    ultimately have "\<not> (\<forall>t. a \<le> t \<and> t < b \<longrightarrow> bookable env sch t \<and> open_at s p sch t)" using assms(4) by blast
    with True show ?thesis unfolding result by auto
  next
    case False
    with \<open>a \<le> x\<close> \<open>y \<le> b\<close> have "x = a" "y = b" by auto
    with separated_interval [OF rs(2,3)] rs(4) show ?thesis unfolding result by auto
  qed
qed

section \<open>Properties\<close>

text \<open>
  The schedule of the witnesses: participant 2 is available on Fridays from 02:30 to 06:00 local time, at
  offset +1 hour until 01:00 UTC of day 8 and +2 hours after it; day 1 and day 8 are Fridays.
\<close>

abbreviation avail_env :: env where
  "avail_env \<equiv> \<lparr>timestamp = 10, ledger_sequence = 7, self = 99, auth = (\<lambda>_. True)\<rparr>"

definition demo_input :: ScheduleInput where
  "demo_input = \<lparr>in_timezone_hash = [1], in_utc_offset_seconds = 3600,
     in_offset_changes = [\<lparr>change_from = 694800, change_offset = 7200\<rparr>],
     in_weekly = [\<lparr>weekday = 5, start_minute = 150, end_minute = 300\<rparr>,
       \<lparr>weekday = 5, start_minute = 300, end_minute = 360\<rparr>],
     in_lead_time_seconds = 0, in_buffer_before_seconds = 0, in_buffer_after_seconds = 0,
     in_booking_horizon_days = 365, in_effective_from = 1, in_effective_until = 0\<rparr>"

definition demo_schedule :: AvailabilitySchedule where
  "demo_schedule = \<lparr>participant = 2, timezone_hash = [1], utc_offset_seconds = 3600,
     offset_changes = [\<lparr>change_from = 694800, change_offset = 7200\<rparr>],
     weekly = [\<lparr>weekday = 5, start_minute = 150, end_minute = 360\<rparr>],
     lead_time_seconds = 0, buffer_before_seconds = 0, buffer_after_seconds = 0,
     booking_horizon_days = 365, effective_from = 1, effective_until = 0, enabled = True, version = 1,
     updated_at = 10\<rparr>"

definition demo_avail :: avail_state where
  "demo_avail = avail_init\<lparr>Schedule := [2 \<mapsto> demo_schedule]\<rparr>"

definition demo_blackout :: AvailabilityException where
  "demo_blackout = \<lparr>exc_id = [3], exc_kind = Unavailable, from_ts = 95400, until_ts = 99000,
     reference_hash = [4], created_at = 10\<rparr>"

definition demo_blocked :: avail_state where
  "demo_blocked = demo_avail\<lparr>Exceptions := [2 \<mapsto> [[3]]], Exception := [(2, [3]) \<mapsto> demo_blackout]\<rparr>"

lemma demo_windows:
  "normalize_windows [\<lparr>weekday = 5, start_minute = 150, end_minute = 300\<rparr>,
     \<lparr>weekday = 5, start_minute = 300, end_minute = 360\<rparr>] =
   Ok [\<lparr>weekday = 5, start_minute = 150, end_minute = 360\<rparr>]"
  by (simp add: normalize_windows_def merge_window_def limit_consts time_consts)

lemma demo_commitment: "[1] \<noteq> (replicate 32 0 :: bytes)"
proof
  assume "[1] = (replicate 32 0 :: bytes)"
  then have "length [1 :: byte] = length (replicate 32 0 :: bytes)" by (rule arg_cong)
  then show False by simp
qed

lemma demo_set:
  "avail_exec avail_env (SetSchedule 2 demo_input) avail_init = Ok demo_avail"
  by (simp add: state_of_def set_schedule_def demo_input_def demo_windows demo_commitment
      validate_offset_def limit_consts
      time_consts put_schedule_def demo_avail_def demo_schedule_def avail_init_def Let_def)

lemma demo_block:
  "avail_exec avail_env (AddException 2 \<lparr>inx_id = [3], inx_kind = Unavailable, inx_from_ts = 95400,
     inx_until_ts = 99000, inx_reference_hash = [4]\<rparr>) demo_avail = Ok demo_blocked"
  by (simp add: add_exception_def demo_avail_def demo_blocked_def demo_blackout_def avail_init_def
      load_exception_ids_def put_exception_ids_def limit_consts time_consts Let_def)

lemma demo_avail_reachable: "avail_step\<^sup>*\<^sup>* avail_init demo_avail"
  using avail_step.call [OF demo_set] by (rule r_into_rtranclp)

lemma demo_blocked_later: "avail_step\<^sup>*\<^sup>* demo_avail demo_blocked"
  using avail_step.call [OF demo_block] by (rule r_into_rtranclp)

lemma demo_blocked_reachable: "avail_step\<^sup>*\<^sup>* avail_init demo_blocked"
  using demo_avail_reachable demo_blocked_later by (rule rtranclp_trans)

lemma demo_schedule_stored: "Schedule demo_avail 2 = Some demo_schedule" "Schedule demo_blocked 2 = Some demo_schedule"
  by (simp_all add: demo_blocked_def demo_avail_def)

lemma demo_clock:
  "local_to_utc demo_schedule 95400 = Ok (Some 91800)" "local_to_utc demo_schedule 108000 = Ok (Some 104400)"
  "local_to_utc demo_schedule 700200 = Ok None" "local_to_utc demo_schedule 712800 = Ok (Some 705600)"
  by (simp_all add: local_to_utc_def demo_schedule_def offset_at_def i64_op_def i64_checked_def range_defs Let_def)

lemma demo_weekly: "weekly demo_schedule = [\<lparr>weekday = 5, start_minute = 150, end_minute = 360\<rparr>]"
  by (simp add: demo_schedule_def)

lemma demo_open_hours: "91800 \<le> t \<Longrightarrow> t < 104400 \<Longrightarrow> weekly_open demo_schedule t"
  unfolding weekly_open_def opens_def
  by (rule exI [of _ 1]) (simp add: demo_weekly demo_clock)



text \<open>
  \<open>is_available\<close> is exact: in every reachable state it answers true for a span exactly when every
  instant of the span is bookable and open.
\<close>

theorem is_available_exact:
  assumes "avail_step\<^sup>*\<^sup>* avail_init s" and "Schedule s p = Some sch" and "timestamp env < 2 ^ 61"
    and "a < b" and "b - a \<le> MAX_QUERY_SPAN_SECONDS"
  shows "is_available env s p a b = Ok (\<forall>t. a \<le> t \<and> t < b \<longrightarrow> bookable env sch t \<and> open_at s p sch t)"
  using is_available_eq [OF avail_run_wf [OF assms(1)]] assms(2-5) by blast

lemma demo_query:
  "timestamp avail_env < 2 ^ 61" "(91800 :: nat) < 104400" "(104400 :: nat) - 91800 \<le> MAX_QUERY_SPAN_SECONDS"
  by (simp_all add: limit_consts time_consts)

lemma demo_bookable: "91800 \<le> t \<Longrightarrow> t < 104400 \<Longrightarrow> bookable avail_env demo_schedule t"
  by (simp add: bookable_def demo_schedule_def)

lemma demo_open_at: "open_at demo_avail 2 demo_schedule t \<longleftrightarrow> weekly_open demo_schedule t"
  by (simp add: open_at_def demo_avail_def avail_init_def)

theorem is_available_exact_witness:
  "is_available avail_env demo_avail 2 91800 104400 = Ok True"
  using is_available_exact [OF demo_avail_reachable demo_schedule_stored(1) demo_query]
  by (simp add: demo_open_at demo_open_hours demo_bookable)


text \<open>
  Weekly windows are stored in a canonical form. \<open>normalize_windows\<close> accepts exactly the non-empty lists
  within the cap whose windows are valid and given in order; the result is valid, sorted and leaves a gap
  between any two windows of a day, is open in the same minutes as the input, is the only canonical list
  that is, and is its own normal form.
\<close>

theorem windows_canonical:
  "(is_ok (normalize_windows ws) \<longleftrightarrow> ws \<noteq> [] \<and> length ws \<le> MAX_WEEKLY_WINDOWS \<and>
      (\<forall>w\<in>set ws. window_ok w) \<and> sorted_wrt not_before ws) \<and>
   (\<forall>ns. normalize_windows ws = Ok ns \<longrightarrow> canonical ns \<and> (\<forall>d m. open_minute ns d m \<longleftrightarrow> open_minute ws d m) \<and>
      normalize_windows ns = Ok ns \<and>
      (\<forall>vs. canonical vs \<longrightarrow> (\<forall>d m. open_minute vs d m \<longleftrightarrow> open_minute ws d m) \<longrightarrow> vs = ns))"
proof (intro conjI allI impI)
  show "is_ok (normalize_windows ws) \<longleftrightarrow> ws \<noteq> [] \<and> length ws \<le> MAX_WEEKLY_WINDOWS \<and>
      (\<forall>w\<in>set ws. window_ok w) \<and> sorted_wrt not_before ws"
    by (auto simp: normalize_windows_def normalize_loop_is_ok)
  fix ns
  assume norm: "normalize_windows ws = Ok ns"
  note ns = normalize_windows_Ok [OF norm]
  show "canonical ns" using ns by blast
  show minutes: "open_minute ns d m \<longleftrightarrow> open_minute ws d m" for d m using ns by blast
  have "length ws \<le> MAX_WEEKLY_WINDOWS" using norm by (auto simp: normalize_windows_def split: if_splits)
  then show "normalize_windows ns = Ok ns"
    using ns normalize_loop_canonical [of "[]" ns None] by (auto simp: normalize_windows_def)
  show "vs = ns" if "canonical vs" "\<forall>d m. open_minute vs d m \<longleftrightarrow> open_minute ws d m" for vs
    using canonical_unique [OF that(1), of ns] that(2) ns minutes by blast
qed

theorem windows_canonical_witness:
  "normalize_windows [\<lparr>weekday = 5, start_minute = 150, end_minute = 360\<rparr>] =
     Ok [\<lparr>weekday = 5, start_minute = 150, end_minute = 360\<rparr>]"
  using windows_canonical demo_windows by blast

lemma avail_reachable_offsets:
  assumes "avail_step\<^sup>*\<^sup>* avail_init s" "Schedule s p = Some sch" "c \<in> set (known_offsets sch)"
  shows "offset_ok c"
  using avail_wfD(1) [OF avail_run_wf [OF assms(1)] assms(2)] assms(3) by (simp add: schedule_ok_def)

text \<open>
  Local times resolve to the earliest instant. For every stored schedule \<open>local_to_utc\<close> answers the
  least instant at which the participant's clock shows the given local time, and nothing for a time that the
  clock skips. So converting an instant to local time and back gives that instant, or an earlier one with
  the same reading where the clock is set back.
\<close>

theorem local_clock_roundtrip:
  assumes "avail_step\<^sup>*\<^sup>* avail_init s" and "Schedule s p = Some sch"
  shows "(0 \<le> l \<and> l < 2 ^ 62 \<longrightarrow> (\<exists>r. local_to_utc sch l = Ok r \<and> is_least r {u. reading sch u = l})) \<and>
    (0 \<le> reading sch u \<and> reading sch u < 2 ^ 62 \<longrightarrow>
      (\<exists>v\<le>u. local_to_utc sch (reading sch u) = Ok (Some v) \<and> reading sch v = reading sch u \<and>
         ((\<forall>x<u. reading sch x \<noteq> reading sch u) \<longrightarrow> v = u)))"
proof (intro conjI impI)
  note least = local_to_utc_least [OF avail_reachable_offsets [OF assms]]
  show "\<exists>r. local_to_utc sch l = Ok r \<and> is_least r {u. reading sch u = l}" if "0 \<le> l \<and> l < 2 ^ 62"
    using least that by blast
  assume "0 \<le> reading sch u \<and> reading sch u < 2 ^ 62"
  with least obtain r where r: "local_to_utc sch (reading sch u) = Ok r"
    "is_least r {x. reading sch x = reading sch u}" by blast
  then obtain v where "r = Some v" "reading sch v = reading sch u" "v \<le> u"
    by (cases r) (auto simp: is_least_def)
  moreover from this have "(\<forall>x<u. reading sch x \<noteq> reading sch u) \<longrightarrow> v = u" by (metis le_neq_implies_less)
  ultimately show "\<exists>v\<le>u. local_to_utc sch (reading sch u) = Ok (Some v) \<and> reading sch v = reading sch u \<and>
         ((\<forall>x<u. reading sch x \<noteq> reading sch u) \<longrightarrow> v = u)"
    using r(1) by blast
qed

lemma demo_reading: "reading demo_schedule 91800 = 95400"
  by (simp add: reading_def demo_schedule_def offset_at_def)

theorem local_clock_roundtrip_witness:
  "\<exists>v\<le>91800. local_to_utc demo_schedule 95400 = Ok (Some v) \<and> reading demo_schedule v = 95400"
  using local_clock_roundtrip [OF demo_avail_reachable demo_schedule_stored(1), of 0 91800]
  by (auto simp: demo_reading)

text \<open>
  The version covers the schedule. From a reachable state on, a schedule is never removed, its version
  never falls, and an unchanged version means an unchanged schedule.
\<close>

theorem version_covers_schedule:
  assumes "avail_step\<^sup>*\<^sup>* avail_init s" and "avail_step\<^sup>*\<^sup>* s t" and "Schedule s p = Some sch"
  shows "\<exists>sch'. Schedule t p = Some sch' \<and> version sch \<le> version sch' \<and> (version sch' = version sch \<longrightarrow> sch' = sch)"
  using availability.run_evolves [OF assms(2) avail_run_wf [OF assms(1)]] assms(3)
  unfolding avail_evolves_def by blast

theorem version_covers_schedule_witness:
  "\<exists>sch'. Schedule demo_blocked 2 = Some sch' \<and> version demo_schedule \<le> version sch'"
  using version_covers_schedule [OF demo_avail_reachable demo_blocked_later demo_schedule_stored(1)] by blast

lemma demo_blocked_instant: "\<not> open_at demo_blocked 2 sch 95400"
  by (simp add: open_at_def demo_blocked_def demo_blackout_def)

text \<open>
  The version does not cover exceptions. In a state reachable from deployment a blackout makes an
  available span unavailable while the schedule, and with it the version that clients compare, stays the same.
\<close>

theorem exceptions_keep_version:
  "avail_step\<^sup>*\<^sup>* avail_init demo_avail \<and>
   avail_exec avail_env (AddException 2 \<lparr>inx_id = [3], inx_kind = Unavailable, inx_from_ts = 95400,
     inx_until_ts = 99000, inx_reference_hash = [4]\<rparr>) demo_avail = Ok demo_blocked \<and>
   Schedule demo_blocked 2 = Schedule demo_avail 2 \<and>
   is_available avail_env demo_avail 2 91800 104400 = Ok True \<and>
   is_available avail_env demo_blocked 2 91800 104400 = Ok False"
proof (intro conjI)
  show "is_available avail_env demo_avail 2 91800 104400 = Ok True"
    using is_available_eq [OF avail_run_wf [OF demo_avail_reachable] demo_schedule_stored(1) demo_query]
    by (simp add: demo_open_at demo_open_hours demo_bookable)
  have "\<not> (\<forall>t. 91800 \<le> t \<and> t < 104400 \<longrightarrow> bookable avail_env demo_schedule t \<and> open_at demo_blocked 2 demo_schedule t)"
    using demo_blocked_instant [of demo_schedule] by (intro notI) (drule spec [of _ 95400], simp)
  then show "is_available avail_env demo_blocked 2 91800 104400 = Ok False"
    using is_available_eq [OF avail_run_wf [OF demo_blocked_reachable] demo_schedule_stored(2) demo_query] by simp
qed (use demo_avail_reachable demo_block in \<open>simp_all add: demo_schedule_stored\<close>)

lemma demo_clock_bound: "local_to_utc demo_schedule l = Ok (Some a) \<Longrightarrow> l - 7200 \<le> int a"
  by (auto simp: local_to_utc_def demo_schedule_def outcome_iff Let_def split: if_splits option.splits)

lemma demo_gap:
  assumes "694800 \<le> t" "t < 705600"
  shows "\<not> weekly_open demo_schedule t"
proof
  assume "weekly_open demo_schedule t"
  then obtain j a b where j: "(j + 4) mod 7 = (5 :: nat)"
    "local_to_utc demo_schedule (int j * 86400 + 9000) = Ok (Some a)"
    "local_to_utc demo_schedule (int j * 86400 + 21600) = Ok (Some b)" "a \<le> t" "t < b"
    by (auto simp: weekly_open_def opens_def demo_weekly)
  have "j \<noteq> 8" using j(2) demo_clock(3) by auto
  moreover have "j \<noteq> 1" using j(3,5) demo_clock(2) assms(1) by auto
  ultimately have "15 \<le> j" using j(1) by presburger
  then show False using demo_clock_bound [OF j(2)] j(4) assms(2) by linarith
qed

text \<open>
  A window that starts in the spring-forward gap is lost as a whole. The participant of the example is
  available on Fridays from 02:30 to 06:00; on day 8, a Friday, the clock goes from 02:00 to 03:00. Every instant
  from 03:00 to 06:00 local time of that day is bookable and its local time lies in the window, yet no span
  within it is available; on day 1, a Friday without a change of offset, the window is available.
\<close>

theorem gap_window_lost:
  "avail_step\<^sup>*\<^sup>* avail_init demo_avail \<and>
   weekly demo_schedule = [\<lparr>weekday = 5, start_minute = 150, end_minute = 360\<rparr>] \<and>
   weekday_of (1 * 86400) = 5 \<and> weekday_of (8 * 86400) = 5 \<and>
   is_available avail_env demo_avail 2 91800 104400 = Ok True \<and>
   (\<forall>t. 694800 \<le> t \<and> t < 705600 \<longrightarrow> bookable avail_env demo_schedule t \<and>
      8 * 86400 + 150 * 60 \<le> reading demo_schedule t \<and> reading demo_schedule t < 8 * 86400 + 360 * 60) \<and>
   (\<forall>a b. 694800 \<le> a \<and> a < b \<and> b \<le> 705600 \<longrightarrow> is_available avail_env demo_avail 2 a b = Ok False)"
proof (intro conjI allI impI)
  show "is_available avail_env demo_avail 2 91800 104400 = Ok True"
    using is_available_eq [OF avail_run_wf [OF demo_avail_reachable] demo_schedule_stored(1) demo_query]
    by (simp add: demo_open_at demo_open_hours demo_bookable)
  fix a b :: nat
  assume ab: "694800 \<le> a \<and> a < b \<and> b \<le> 705600"
  then have "\<not> open_at demo_avail 2 demo_schedule a" using demo_gap [of a] by (simp add: demo_open_at)
  then have "\<not> (\<forall>t. a \<le> t \<and> t < b \<longrightarrow> bookable avail_env demo_schedule t \<and> open_at demo_avail 2 demo_schedule t)"
    using ab by blast
  moreover have "b - a \<le> MAX_QUERY_SPAN_SECONDS" using ab by (auto simp: limit_consts time_consts)
  ultimately show "is_available avail_env demo_avail 2 a b = Ok False"
    using is_available_eq [OF avail_run_wf [OF demo_avail_reachable] demo_schedule_stored(1) demo_query(1)] ab by simp
qed (auto simp: demo_avail_reachable demo_weekly weekday_of_def time_consts rem_trunc_nonneg bookable_def reading_def
  demo_schedule_def offset_at_def)

end
