(* ===== verification/Award_Decisions.thy ===== *)
theory Award_Decisions
  imports Transition_Systems
begin

text \<open>
  \<open>contracts/scholarship-decisions/src/lib.rs\<close>: a committee decides on applications. A chair opens a decision,
  members vote or recuse themselves, and with a quorum of cast votes the decision is finalized; an award holds
  budget for the applicant until it is accepted, released or expired; a rejected or waitlisted applicant may
  appeal once to members who took no part in the decision.
\<close>

section \<open>State\<close>

datatype ContractError =
    NotInitialized | AlreadyInitialized | NotAdmin | NotChair | NotCommitteeMember | CommitteeFull
  | InvalidQuorum | InvalidProgramConfig | ProgramNotFound | ProgramAlreadyExists | ProgramInactive
  | BudgetExceeded | ArithmeticOverflow | DecisionNotFound | DecisionAlreadyExists | DecisionAlreadyFinalized
  | DecisionNotFinalized | DecisionNotAppealable | AlreadyVoted | QuorumNotMet | ReservationNotFound
  | ReservationNotActive | ReservationExpired | ReservationNotExpired | AppealNotFound | AppealAlreadyExists
  | AppealWindowClosed | AppealNotOpen | AppealReviewerIneligible | InvalidEvidence | NotAuthorized

definition CONTRACT_VERSION :: nat where
  "CONTRACT_VERSION = 1"

definition MAX_MEMBERS :: nat where
  "MAX_MEMBERS = 32"

datatype CommitteeRole = Reviewer | Chair

datatype DecisionStatus = Open | Finalized

datatype DecisionOutcome = Pending | Awarded | Waitlisted | Rejected

datatype VoteChoice = Award | Waitlist | Reject | Recuse

datatype ReservationStatus = Reserved | Claimed | Released | Expired

datatype AppealStatus = AppealOpen | AppealResolved

record DecisionProgramConfig =
  active :: bool
  total_budget :: int
  per_award_amount :: int
  reserved_amount :: int
  awarded_amount :: int
  reservation_ttl :: nat
  appeal_window :: nat

record Vote =
  voter :: address
  choice :: VoteChoice
  cast_at :: nat

record Decision =
  decision_program :: hash32
  decision_applicant :: address
  decision_status :: DecisionStatus
  decision_outcome :: DecisionOutcome
  outcome_version :: nat
  evidence_version :: nat
  evidence_hash :: hash32
  opened_at :: nat
  finalized_at :: nat
  decision_votes :: "Vote list"

record Reservation =
  reserved_program :: hash32
  reserved_applicant :: address
  amount :: int
  created_at :: nat
  expires_at :: nat
  reservation_status :: ReservationStatus

record Appeal =
  appeal_program :: hash32
  appeal_applicant :: address
  original_outcome :: DecisionOutcome
  appeal_status :: AppealStatus
  appeal_outcome :: DecisionOutcome
  grounds_hash :: hash32
  appeal_evidence :: hash32
  filed_at :: nat
  resolved_at :: nat
  appeal_votes :: "Vote list"

record decisions_state =
  Admin :: "address option"
  Quorum :: "nat option"
  Member :: "address \<rightharpoonup> bool"
  MemberRole :: "address \<rightharpoonup> CommitteeRole"
  MemberList :: "address list option"
  ProgramConfig :: "hash32 \<rightharpoonup> DecisionProgramConfig"
  DecisionAt :: "hash32 \<times> address \<rightharpoonup> Decision"
  ReservationAt :: "hash32 \<times> address \<rightharpoonup> Reservation"
  AppealAt :: "hash32 \<times> address \<rightharpoonup> Appeal"

definition decisions_init :: decisions_state where
  "decisions_init = \<lparr>Admin = None, Quorum = None, Member = Map.empty, MemberRole = Map.empty, MemberList = None,
     ProgramConfig = Map.empty, DecisionAt = Map.empty, ReservationAt = Map.empty, AppealAt = Map.empty\<rparr>"

section \<open>Roles\<close>

definition initialize :: "env \<Rightarrow> address \<Rightarrow> decisions_state \<Rightarrow> (ContractError, decisions_state) outcome" where
  "initialize env a s =
     (if Admin s \<noteq> None then Err AlreadyInitialized
      else and_then (require_auth env a) (\<lambda>_. Ok (s\<lparr>Admin := Some a\<rparr>)))"

definition require_admin :: "env \<Rightarrow> decisions_state \<Rightarrow> address \<Rightarrow> (ContractError, unit) outcome" where
  "require_admin env s caller =
     and_then (ok_or (Admin s) NotInitialized) (\<lambda>admin.
     if caller \<noteq> admin then Err NotAdmin else require_auth env caller)"

definition is_active_member :: "decisions_state \<Rightarrow> address \<Rightarrow> bool" where
  "is_active_member s m = unwrap_or (Member s m) False"

definition require_member :: "env \<Rightarrow> decisions_state \<Rightarrow> address \<Rightarrow> (ContractError, unit) outcome" where
  "require_member env s caller =
     (if \<not> is_active_member s caller then Err NotCommitteeMember else require_auth env caller)"

definition require_chair :: "env \<Rightarrow> decisions_state \<Rightarrow> address \<Rightarrow> (ContractError, unit) outcome" where
  "require_chair env s caller =
     (let role = MemberRole s caller in
      if \<not> is_active_member s caller \<or> role \<noteq> Some Chair then Err NotChair else require_auth env caller)"

definition require_chair_or_admin :: "env \<Rightarrow> decisions_state \<Rightarrow> address \<Rightarrow> (ContractError, unit) outcome" where
  "require_chair_or_admin env s caller =
     (let role = MemberRole s caller in
      if is_active_member s caller \<and> role = Some Chair then require_auth env caller
      else if Admin s = None then Err NotInitialized
      else and_then (ok_or (Admin s) NotInitialized) (\<lambda>admin.
        if caller = admin then require_auth env caller else Err NotAuthorized))"

fun list_contains :: "address list \<Rightarrow> address \<Rightarrow> bool" where
  "list_contains [] needle = False"
| "list_contains (item # rest) needle = (if item = needle then True else list_contains rest needle)"

fun has_voted :: "Vote list \<Rightarrow> address \<Rightarrow> bool" where
  "has_voted [] m = False"
| "has_voted (v # rest) m = (if voter v = m then True else has_voted rest m)"

section \<open>Counting votes\<close>

fun tally_loop ::
  "nat \<Rightarrow> nat \<Rightarrow> nat \<Rightarrow> Vote list \<Rightarrow> (ContractError, nat \<times> nat \<times> nat) outcome" where
  "tally_loop award waitlist reject [] = Ok (award, waitlist, reject)"
| "tally_loop award waitlist reject (v # rest) =
     (case choice v of
        Award \<Rightarrow> and_then (u32_op (award + 1)) (\<lambda>award. tally_loop award waitlist reject rest)
      | Waitlist \<Rightarrow> and_then (u32_op (waitlist + 1)) (\<lambda>waitlist. tally_loop award waitlist reject rest)
      | Reject \<Rightarrow> and_then (u32_op (reject + 1)) (\<lambda>reject. tally_loop award waitlist reject rest)
      | Recuse \<Rightarrow> tally_loop award waitlist reject rest)"

definition tally :: "Vote list \<Rightarrow> (ContractError, nat \<times> nat \<times> nat) outcome" where
  "tally votes = tally_loop 0 0 0 votes"

definition decide_outcome :: "nat \<Rightarrow> nat \<Rightarrow> nat \<Rightarrow> DecisionOutcome" where
  "decide_outcome award waitlist reject =
     (let outcome = Awarded; best = award;
          (best, outcome) = (if waitlist \<ge> best then (waitlist, Waitlisted) else (best, outcome))
      in if reject \<ge> best then Rejected else outcome)"

text \<open>The count of cast votes and its comparison with the quorum, in both finalize functions.\<close>

definition meets_quorum :: "decisions_state \<Rightarrow> nat \<Rightarrow> nat \<Rightarrow> nat \<Rightarrow> (ContractError, unit) outcome" where
  "meets_quorum s award waitlist reject =
     and_then (ok_or (Option.bind (u32_checked (award + waitlist)) (\<lambda>v. u32_checked (v + reject)))
                ArithmeticOverflow) (\<lambda>cast.
     let quorum = unwrap_or (Quorum s) 0 in
     if quorum = 0 \<or> cast < quorum then Err QuorumNotMet else Ok ())"

section \<open>Committee\<close>

definition add_member ::
  "env \<Rightarrow> address \<Rightarrow> address \<Rightarrow> CommitteeRole \<Rightarrow> decisions_state \<Rightarrow> (ContractError, decisions_state) outcome" where
  "add_member env admin m role s =
     and_then (require_admin env s admin) (\<lambda>_.
     let list = unwrap_or (MemberList s) [] in
     and_then
       (if \<not> list_contains list m
        then if length list \<ge> MAX_MEMBERS then Err CommitteeFull
             else Ok (s\<lparr>MemberList := Some (list @ [m])\<rparr>)
        else Ok s) (\<lambda>s.
     let s = s\<lparr>Member := (Member s)(m \<mapsto> True)\<rparr> in
     Ok (s\<lparr>MemberRole := (MemberRole s)(m \<mapsto> role)\<rparr>)))"

definition remove_member ::
  "env \<Rightarrow> address \<Rightarrow> address \<Rightarrow> decisions_state \<Rightarrow> (ContractError, decisions_state) outcome" where
  "remove_member env admin m s =
     and_then (require_admin env s admin) (\<lambda>_. Ok (s\<lparr>Member := (Member s)(m \<mapsto> False)\<rparr>))"

definition set_quorum :: "env \<Rightarrow> address \<Rightarrow> nat \<Rightarrow> decisions_state \<Rightarrow> (ContractError, decisions_state) outcome" where
  "set_quorum env admin q s =
     and_then (require_admin env s admin) (\<lambda>_.
     if q = 0 \<or> q > MAX_MEMBERS then Err InvalidQuorum else Ok (s\<lparr>Quorum := Some q\<rparr>))"

definition get_quorum :: "decisions_state \<Rightarrow> nat" where
  "get_quorum s = unwrap_or (Quorum s) 0"

definition is_member :: "decisions_state \<Rightarrow> address \<Rightarrow> bool" where
  "is_member s m = is_active_member s m"

definition get_member_role :: "decisions_state \<Rightarrow> address \<Rightarrow> (ContractError, CommitteeRole) outcome" where
  "get_member_role s m = ok_or (MemberRole s m) NotCommitteeMember"

fun count_loop :: "decisions_state \<Rightarrow> nat \<Rightarrow> address list \<Rightarrow> (ContractError, nat) outcome" where
  "count_loop s count [] = Ok count"
| "count_loop s count (m # rest) =
     (if is_active_member s m then and_then (u32_op (count + 1)) (\<lambda>count. count_loop s count rest)
      else count_loop s count rest)"

definition get_active_member_count :: "decisions_state \<Rightarrow> (ContractError, nat) outcome" where
  "get_active_member_count s = count_loop s 0 (unwrap_or (MemberList s) [])"

section \<open>Programs\<close>

definition register_program ::
  "env \<Rightarrow> address \<Rightarrow> hash32 \<Rightarrow> int \<Rightarrow> int \<Rightarrow> nat \<Rightarrow> nat \<Rightarrow> decisions_state \<Rightarrow>
   (ContractError, decisions_state) outcome" where
  "register_program env admin p budget per_award ttl window s =
     and_then (require_admin env s admin) (\<lambda>_.
     if budget \<le> 0 \<or> per_award \<le> 0 \<or> per_award > budget \<or> ttl = 0 \<or> window = 0 then Err InvalidProgramConfig
     else if ProgramConfig s p \<noteq> None then Err ProgramAlreadyExists
     else
       let config = \<lparr>active = True, total_budget = budget, per_award_amount = per_award, reserved_amount = 0,
                     awarded_amount = 0, reservation_ttl = ttl, appeal_window = window\<rparr>
       in Ok (s\<lparr>ProgramConfig := (ProgramConfig s)(p \<mapsto> config)\<rparr>))"

definition set_program_active ::
  "env \<Rightarrow> address \<Rightarrow> hash32 \<Rightarrow> bool \<Rightarrow> decisions_state \<Rightarrow> (ContractError, decisions_state) outcome" where
  "set_program_active env admin p b s =
     and_then (require_admin env s admin) (\<lambda>_.
     and_then (ok_or (ProgramConfig s p) ProgramNotFound) (\<lambda>config.
     Ok (s\<lparr>ProgramConfig := (ProgramConfig s)(p \<mapsto> config\<lparr>active := b\<rparr>)\<rparr>)))"

definition get_program_config :: "decisions_state \<Rightarrow> hash32 \<Rightarrow> (ContractError, DecisionProgramConfig) outcome" where
  "get_program_config s p = ok_or (ProgramConfig s p) ProgramNotFound"

section \<open>Budget\<close>

definition reserve_budget ::
  "env \<Rightarrow> hash32 \<Rightarrow> address \<Rightarrow> int \<Rightarrow> decisions_state \<Rightarrow> (ContractError, decisions_state) outcome" where
  "reserve_budget env p a n s =
     and_then (ok_or (ProgramConfig s p) ProgramNotFound) (\<lambda>config.
     and_then (ok_or (i128_checked (reserved_amount config + awarded_amount config)) ArithmeticOverflow) (\<lambda>committed.
     and_then (ok_or (i128_checked (committed + n)) ArithmeticOverflow) (\<lambda>after.
     if after > total_budget config then Err BudgetExceeded
     else
       and_then (ok_or (i128_checked (reserved_amount config + n)) ArithmeticOverflow) (\<lambda>held.
       let config = config\<lparr>reserved_amount := held\<rparr>; now = timestamp env in
       and_then (ok_or (u64_checked (now + reservation_ttl config)) ArithmeticOverflow) (\<lambda>deadline.
       let s = s\<lparr>ProgramConfig := (ProgramConfig s)(p \<mapsto> config)\<rparr>;
           reservation = \<lparr>reserved_program = p, reserved_applicant = a, amount = n, created_at = now,
             expires_at = deadline, reservation_status = Reserved\<rparr>
       in Ok (s\<lparr>ReservationAt := (ReservationAt s)((p, a) \<mapsto> reservation)\<rparr>))))))"

definition release_capacity ::
  "hash32 \<Rightarrow> int \<Rightarrow> decisions_state \<Rightarrow> (ContractError, decisions_state) outcome" where
  "release_capacity p n s =
     and_then (ok_or (ProgramConfig s p) ProgramNotFound) (\<lambda>config.
     and_then (ok_or (i128_checked (reserved_amount config - n)) ArithmeticOverflow) (\<lambda>left.
     Ok (s\<lparr>ProgramConfig := (ProgramConfig s)(p \<mapsto> config\<lparr>reserved_amount := left\<rparr>)\<rparr>)))"

definition accept_award ::
  "env \<Rightarrow> address \<Rightarrow> hash32 \<Rightarrow> decisions_state \<Rightarrow> (ContractError, decisions_state) outcome" where
  "accept_award env a p s =
     and_then (require_auth env a) (\<lambda>_.
     and_then (ok_or (ReservationAt s (p, a)) ReservationNotFound) (\<lambda>reservation.
     if reservation_status reservation \<noteq> Reserved then Err ReservationNotActive
     else if timestamp env > expires_at reservation then Err ReservationExpired
     else and_then (ok_or (ProgramConfig s p) ProgramNotFound) (\<lambda>config.
     and_then (ok_or (i128_checked (reserved_amount config - amount reservation)) ArithmeticOverflow) (\<lambda>left.
     and_then (ok_or (i128_checked (awarded_amount config + amount reservation)) ArithmeticOverflow) (\<lambda>given.
     let config = config\<lparr>reserved_amount := left, awarded_amount := given\<rparr>;
         s = s\<lparr>ProgramConfig := (ProgramConfig s)(p \<mapsto> config)\<rparr>;
         reservation = reservation\<lparr>reservation_status := Claimed\<rparr>
     in Ok (s\<lparr>ReservationAt := (ReservationAt s)((p, a) \<mapsto> reservation)\<rparr>))))))"

definition release_reservation ::
  "env \<Rightarrow> address \<Rightarrow> hash32 \<Rightarrow> address \<Rightarrow> decisions_state \<Rightarrow> (ContractError, decisions_state) outcome" where
  "release_reservation env caller p a s =
     and_then (require_chair_or_admin env s caller) (\<lambda>_.
     and_then (ok_or (ReservationAt s (p, a)) ReservationNotFound) (\<lambda>reservation.
     if reservation_status reservation \<noteq> Reserved then Err ReservationNotActive
     else and_then (release_capacity p (amount reservation) s) (\<lambda>s.
     let reservation = reservation\<lparr>reservation_status := Released\<rparr> in
     Ok (s\<lparr>ReservationAt := (ReservationAt s)((p, a) \<mapsto> reservation)\<rparr>))))"

definition expire_reservation ::
  "env \<Rightarrow> address \<Rightarrow> hash32 \<Rightarrow> address \<Rightarrow> decisions_state \<Rightarrow> (ContractError, decisions_state) outcome" where
  "expire_reservation env caller p a s =
     and_then (require_auth env caller) (\<lambda>_.
     and_then (ok_or (ReservationAt s (p, a)) ReservationNotFound) (\<lambda>reservation.
     if reservation_status reservation \<noteq> Reserved then Err ReservationNotActive
     else if timestamp env \<le> expires_at reservation then Err ReservationNotExpired
     else and_then (release_capacity p (amount reservation) s) (\<lambda>s.
     let reservation = reservation\<lparr>reservation_status := Expired\<rparr> in
     Ok (s\<lparr>ReservationAt := (ReservationAt s)((p, a) \<mapsto> reservation)\<rparr>))))"

definition get_reservation ::
  "decisions_state \<Rightarrow> hash32 \<Rightarrow> address \<Rightarrow> (ContractError, Reservation) outcome" where
  "get_reservation s p a = ok_or (ReservationAt s (p, a)) ReservationNotFound"

section \<open>Decisions\<close>

definition open_decision ::
  "env \<Rightarrow> address \<Rightarrow> hash32 \<Rightarrow> address \<Rightarrow> nat \<Rightarrow> hash32 \<Rightarrow> decisions_state \<Rightarrow>
   (ContractError, decisions_state) outcome" where
  "open_decision env chair p a ev eh s =
     and_then (require_chair env s chair) (\<lambda>_.
     and_then (ok_or (ProgramConfig s p) ProgramNotFound) (\<lambda>config.
     if \<not> active config then Err ProgramInactive
     else if ev = 0 then Err InvalidEvidence
     else if DecisionAt s (p, a) \<noteq> None then Err DecisionAlreadyExists
     else
       let decision = \<lparr>decision_program = p, decision_applicant = a, decision_status = Open,
             decision_outcome = Pending, outcome_version = 0, evidence_version = ev, evidence_hash = eh,
             opened_at = timestamp env, finalized_at = 0, decision_votes = []\<rparr>
       in Ok (s\<lparr>DecisionAt := (DecisionAt s)((p, a) \<mapsto> decision)\<rparr>)))"

definition vote ::
  "env \<Rightarrow> address \<Rightarrow> hash32 \<Rightarrow> address \<Rightarrow> VoteChoice \<Rightarrow> decisions_state \<Rightarrow>
   (ContractError, decisions_state) outcome" where
  "vote env m p a c s =
     and_then (require_member env s m) (\<lambda>_.
     and_then (ok_or (DecisionAt s (p, a)) DecisionNotFound) (\<lambda>decision.
     if decision_status decision \<noteq> Open then Err DecisionAlreadyFinalized
     else if has_voted (decision_votes decision) m then Err AlreadyVoted
     else
       let decision = decision\<lparr>decision_votes := decision_votes decision @
             [\<lparr>voter = m, choice = c, cast_at = timestamp env\<rparr>]\<rparr>
       in Ok (s\<lparr>DecisionAt := (DecisionAt s)((p, a) \<mapsto> decision)\<rparr>)))"

definition recuse ::
  "env \<Rightarrow> address \<Rightarrow> hash32 \<Rightarrow> address \<Rightarrow> decisions_state \<Rightarrow> (ContractError, decisions_state) outcome" where
  "recuse env m p a s = vote env m p a Recuse s"

definition finalize_decision ::
  "env \<Rightarrow> address \<Rightarrow> hash32 \<Rightarrow> address \<Rightarrow> decisions_state \<Rightarrow> (ContractError, decisions_state) outcome" where
  "finalize_decision env caller p a s =
     and_then (require_chair_or_admin env s caller) (\<lambda>_.
     and_then (ok_or (DecisionAt s (p, a)) DecisionNotFound) (\<lambda>decision.
     if decision_status decision \<noteq> Open then Err DecisionAlreadyFinalized
     else
       and_then (tally (decision_votes decision)) (\<lambda>(award, waitlist, reject).
       and_then (meets_quorum s award waitlist reject) (\<lambda>_.
       let outcome = decide_outcome award waitlist reject in
       and_then
         (if outcome = Awarded
          then and_then (ok_or (ProgramConfig s p) ProgramNotFound) (\<lambda>config.
                 reserve_budget env p a (per_award_amount config) s)
          else Ok s) (\<lambda>s.
       let decision = decision\<lparr>decision_outcome := outcome, decision_status := Finalized,
             finalized_at := timestamp env, outcome_version := 1\<rparr>
       in Ok (s\<lparr>DecisionAt := (DecisionAt s)((p, a) \<mapsto> decision)\<rparr>))))))"

definition get_decision :: "decisions_state \<Rightarrow> hash32 \<Rightarrow> address \<Rightarrow> (ContractError, Decision) outcome" where
  "get_decision s p a = ok_or (DecisionAt s (p, a)) DecisionNotFound"

section \<open>Appeals\<close>

definition file_appeal ::
  "env \<Rightarrow> address \<Rightarrow> hash32 \<Rightarrow> hash32 \<Rightarrow> hash32 \<Rightarrow> decisions_state \<Rightarrow>
   (ContractError, decisions_state) outcome" where
  "file_appeal env a p gh eh s =
     and_then (require_auth env a) (\<lambda>_.
     and_then (ok_or (ProgramConfig s p) ProgramNotFound) (\<lambda>config.
     if \<not> active config then Err ProgramInactive
     else and_then (ok_or (DecisionAt s (p, a)) DecisionNotFound) (\<lambda>decision.
     if decision_status decision \<noteq> Finalized then Err DecisionNotFinalized
     else if decision_outcome decision \<noteq> Rejected \<and> decision_outcome decision \<noteq> Waitlisted
     then Err DecisionNotAppealable
     else if AppealAt s (p, a) \<noteq> None then Err AppealAlreadyExists
     else
       and_then (ok_or (u64_checked (finalized_at decision + appeal_window config)) ArithmeticOverflow) (\<lambda>deadline.
       let now = timestamp env in
       if now > deadline then Err AppealWindowClosed
       else
         let appeal = \<lparr>appeal_program = p, appeal_applicant = a, original_outcome = decision_outcome decision,
               appeal_status = AppealOpen, appeal_outcome = Pending, grounds_hash = gh, appeal_evidence = eh,
               filed_at = now, resolved_at = 0, appeal_votes = []\<rparr>
         in Ok (s\<lparr>AppealAt := (AppealAt s)((p, a) \<mapsto> appeal)\<rparr>)))))"

definition vote_appeal ::
  "env \<Rightarrow> address \<Rightarrow> hash32 \<Rightarrow> address \<Rightarrow> VoteChoice \<Rightarrow> decisions_state \<Rightarrow>
   (ContractError, decisions_state) outcome" where
  "vote_appeal env m p a c s =
     and_then (require_member env s m) (\<lambda>_.
     and_then (ok_or (AppealAt s (p, a)) AppealNotFound) (\<lambda>appeal.
     if appeal_status appeal \<noteq> AppealOpen then Err AppealNotOpen
     else and_then (ok_or (DecisionAt s (p, a)) DecisionNotFound) (\<lambda>decision.
     if has_voted (decision_votes decision) m then Err AppealReviewerIneligible
     else if has_voted (appeal_votes appeal) m then Err AlreadyVoted
     else
       let appeal = appeal\<lparr>appeal_votes := appeal_votes appeal @
             [\<lparr>voter = m, choice = c, cast_at = timestamp env\<rparr>]\<rparr>
       in Ok (s\<lparr>AppealAt := (AppealAt s)((p, a) \<mapsto> appeal)\<rparr>))))"

definition finalize_appeal ::
  "env \<Rightarrow> address \<Rightarrow> hash32 \<Rightarrow> address \<Rightarrow> decisions_state \<Rightarrow> (ContractError, decisions_state) outcome" where
  "finalize_appeal env caller p a s =
     and_then (require_chair_or_admin env s caller) (\<lambda>_.
     and_then (ok_or (AppealAt s (p, a)) AppealNotFound) (\<lambda>appeal.
     if appeal_status appeal \<noteq> AppealOpen then Err AppealNotOpen
     else
       and_then (tally (appeal_votes appeal)) (\<lambda>(award, waitlist, reject).
       and_then (meets_quorum s award waitlist reject) (\<lambda>_.
       let outcome = decide_outcome award waitlist reject in
       and_then
         (if outcome = Awarded
          then if ReservationAt s (p, a) = None
               then and_then (ok_or (ProgramConfig s p) ProgramNotFound) (\<lambda>config.
                      reserve_budget env p a (per_award_amount config) s)
               else Ok s
          else Ok s) (\<lambda>s.
       and_then (ok_or (DecisionAt s (p, a)) DecisionNotFound) (\<lambda>decision.
       and_then (ok_or (u32_checked (outcome_version decision + 1)) ArithmeticOverflow) (\<lambda>v.
       let decision = decision\<lparr>decision_outcome := outcome, outcome_version := v\<rparr>;
           s = s\<lparr>DecisionAt := (DecisionAt s)((p, a) \<mapsto> decision)\<rparr>;
           appeal = appeal\<lparr>appeal_status := AppealResolved, appeal_outcome := outcome,
             resolved_at := timestamp env\<rparr>
       in Ok (s\<lparr>AppealAt := (AppealAt s)((p, a) \<mapsto> appeal)\<rparr>))))))))"

definition get_appeal :: "decisions_state \<Rightarrow> hash32 \<Rightarrow> address \<Rightarrow> (ContractError, Appeal) outcome" where
  "get_appeal s p a = ok_or (AppealAt s (p, a)) AppealNotFound"

definition version :: nat where
  "version = CONTRACT_VERSION"

section \<open>Calls and steps\<close>

datatype decisions_call =
    Initialize address | AddMember address address CommitteeRole | RemoveMember address address
  | SetQuorum address nat | RegisterProgram address hash32 int int nat nat
  | SetProgramActive address hash32 bool | OpenDecision address hash32 address nat hash32
  | CastVote address hash32 address VoteChoice | RecuseFrom address hash32 address
  | FinalizeDecision address hash32 address | AcceptAward address hash32
  | ReleaseReservation address hash32 address | ExpireReservation address hash32 address
  | FileAppeal address hash32 hash32 hash32 | VoteAppeal address hash32 address VoteChoice
  | FinalizeAppeal address hash32 address

fun decisions_exec ::
  "env \<Rightarrow> decisions_call \<Rightarrow> decisions_state \<Rightarrow> (ContractError, decisions_state) outcome" where
  "decisions_exec env (Initialize a) s = initialize env a s"
| "decisions_exec env (AddMember a m r) s = add_member env a m r s"
| "decisions_exec env (RemoveMember a m) s = remove_member env a m s"
| "decisions_exec env (SetQuorum a q) s = set_quorum env a q s"
| "decisions_exec env (RegisterProgram a p t n l w) s = register_program env a p t n l w s"
| "decisions_exec env (SetProgramActive a p b) s = set_program_active env a p b s"
| "decisions_exec env (OpenDecision c p a v h) s = open_decision env c p a v h s"
| "decisions_exec env (CastVote m p a c) s = vote env m p a c s"
| "decisions_exec env (RecuseFrom m p a) s = recuse env m p a s"
| "decisions_exec env (FinalizeDecision c p a) s = finalize_decision env c p a s"
| "decisions_exec env (AcceptAward a p) s = accept_award env a p s"
| "decisions_exec env (ReleaseReservation c p a) s = release_reservation env c p a s"
| "decisions_exec env (ExpireReservation c p a) s = expire_reservation env c p a s"
| "decisions_exec env (FileAppeal a p g e) s = file_appeal env a p g e s"
| "decisions_exec env (VoteAppeal m p a c) s = vote_appeal env m p a c s"
| "decisions_exec env (FinalizeAppeal c p a) s = finalize_appeal env c p a s"

inductive decisions_step :: "decisions_state \<Rightarrow> decisions_state \<Rightarrow> bool" where
  call: "decisions_exec env c s = Ok t \<Longrightarrow> decisions_step s t"

inductive_cases decisions_stepE: "decisions_step s t"

end
