(* ===== verification/Decision_Budget.thy ===== *)
theory Decision_Budget
  imports Award_Decisions
begin

text \<open>
  The budget of the award decisions: what a program holds and has awarded is the sum of its reservations, stays
  within the total, and a reservation leaves the held state once.
\<close>

section \<open>What a successful call does to the budget\<close>

lemma role_Ok [outcome_iff]:
  "require_admin env s c = Ok u \<longleftrightarrow> Admin s = Some c \<and> auth env c"
  "require_member env s c = Ok u \<longleftrightarrow> is_active_member s c \<and> auth env c"
  "require_chair env s c = Ok u \<longleftrightarrow> is_active_member s c \<and> MemberRole s c = Some Chair \<and> auth env c"
  "require_chair_or_admin env s c = Ok u \<longleftrightarrow>
     (is_active_member s c \<and> MemberRole s c = Some Chair \<or> Admin s = Some c) \<and> auth env c"
  by (auto simp: require_admin_def require_member_def require_chair_def require_chair_or_admin_def Let_def
      outcome_iff split: option.splits)

text \<open>The state after holding \<open>n\<close> units for an applicant, and after a reservation got another status.\<close>

definition held_for :: "env \<Rightarrow> hash32 \<Rightarrow> address \<Rightarrow> int \<Rightarrow> DecisionProgramConfig \<Rightarrow> decisions_state \<Rightarrow> decisions_state" where
  "held_for env p a n cfg s = s\<lparr>
     ProgramConfig := (ProgramConfig s)(p \<mapsto> cfg\<lparr>reserved_amount := reserved_amount cfg + n\<rparr>),
     ReservationAt := (ReservationAt s)((p, a) \<mapsto> \<lparr>reserved_program = p, reserved_applicant = a, amount = n,
       created_at = timestamp env, expires_at = timestamp env + reservation_ttl cfg,
       reservation_status = Reserved\<rparr>)\<rparr>"

definition settled :: "hash32 \<Rightarrow> address \<Rightarrow> ReservationStatus \<Rightarrow> DecisionProgramConfig \<Rightarrow> Reservation \<Rightarrow>
    decisions_state \<Rightarrow> decisions_state" where
  "settled p a st cfg r s = s\<lparr>
     ProgramConfig := (ProgramConfig s)(p \<mapsto> cfg\<lparr>reserved_amount := reserved_amount cfg - amount r,
       awarded_amount := awarded_amount cfg + (if st = Claimed then amount r else 0)\<rparr>),
     ReservationAt := (ReservationAt s)((p, a) \<mapsto> r\<lparr>reservation_status := st\<rparr>)\<rparr>"

lemma reserve_Ok:
  "reserve_budget env p a n s = Ok t \<longleftrightarrow> (\<exists>cfg. ProgramConfig s p = Some cfg \<and>
     fits_i128 (reserved_amount cfg + awarded_amount cfg) \<and> fits_i128 (reserved_amount cfg + awarded_amount cfg + n) \<and>
     reserved_amount cfg + awarded_amount cfg + n \<le> total_budget cfg \<and> fits_i128 (reserved_amount cfg + n) \<and>
     fits_u64 (timestamp env + reservation_ttl cfg) \<and> t = held_for env p a n cfg s)"
  by (auto simp: reserve_budget_def held_for_def outcome_iff Let_def not_less)

lemma accept_award_Ok:
  assumes "accept_award env a p s = Ok t"
  obtains cfg r where "auth env a" "ReservationAt s (p, a) = Some r" "reservation_status r = Reserved"
    "timestamp env \<le> expires_at r" "ProgramConfig s p = Some cfg" "t = settled p a Claimed cfg r s"
  using assms by (auto simp: accept_award_def settled_def outcome_iff Let_def)

lemma release_capacity_Ok:
  "release_capacity p n s = Ok t \<longleftrightarrow> (\<exists>cfg. ProgramConfig s p = Some cfg \<and> fits_i128 (reserved_amount cfg - n) \<and>
     t = s\<lparr>ProgramConfig := (ProgramConfig s)(p \<mapsto> cfg\<lparr>reserved_amount := reserved_amount cfg - n\<rparr>)\<rparr>)"
  by (auto simp: release_capacity_def outcome_iff)

lemma give_back_Ok:
  assumes "release_reservation env c p a s = Ok t \<or> expire_reservation env c p a s = Ok t"
  obtains cfg r st where "ReservationAt s (p, a) = Some r" "reservation_status r = Reserved"
    "ProgramConfig s p = Some cfg" "st = Released \<or> st = Expired" "t = settled p a st cfg r s"
  using assms
proof
  assume "release_reservation env c p a s = Ok t"
  then obtain r cfg where "ReservationAt s (p, a) = Some r" "reservation_status r = Reserved"
    "ProgramConfig s p = Some cfg" "t = settled p a Released cfg r s"
    by (auto simp: release_reservation_def release_capacity_Ok settled_def outcome_iff Let_def)
  then show thesis using that by blast
next
  assume "expire_reservation env c p a s = Ok t"
  then obtain r cfg where "ReservationAt s (p, a) = Some r" "reservation_status r = Reserved"
    "ProgramConfig s p = Some cfg" "t = settled p a Expired cfg r s"
    by (auto simp: expire_reservation_def release_capacity_Ok settled_def outcome_iff Let_def)
  then show thesis using that by blast
qed

section \<open>The budget invariant\<close>

definition held :: "hash32 \<Rightarrow> ReservationStatus \<Rightarrow> Reservation \<Rightarrow> int" where
  "held p st r = (if reserved_program r = p \<and> reservation_status r = st then amount r else 0)"

definition budget_ok :: "(hash32 \<times> address \<rightharpoonup> Reservation) \<Rightarrow> hash32 \<Rightarrow> DecisionProgramConfig \<Rightarrow> bool" where
  "budget_ok R p cfg \<longleftrightarrow> reserved_amount cfg = msum (held p Reserved) R \<and> awarded_amount cfg = msum (held p Claimed) R \<and>
     reserved_amount cfg + awarded_amount cfg \<le> total_budget cfg \<and>
     fits_i128 (msum (held p Reserved) R + msum (held p Claimed) R) \<and> 0 < per_award_amount cfg"

definition budget_wf :: "decisions_state \<Rightarrow> bool" where
  "budget_wf s \<longleftrightarrow> finite (dom (ReservationAt s)) \<and>
     (\<forall>p a r. ReservationAt s (p, a) = Some r \<longrightarrow> reserved_program r = p \<and> reserved_applicant r = a \<and> 0 < amount r \<and>
        ProgramConfig s p \<noteq> None) \<and>
     (\<forall>p cfg. ProgramConfig s p = Some cfg \<longrightarrow> budget_ok (ReservationAt s) p cfg)"

lemma budget_wfD:
  assumes "budget_wf s"
  shows "finite (dom (ReservationAt s))"
    "ReservationAt s (p, a) = Some r \<Longrightarrow> reserved_program r = p \<and> reserved_applicant r = a \<and> 0 < amount r \<and>
       ProgramConfig s p \<noteq> None"
    "ProgramConfig s p = Some cfg \<Longrightarrow> budget_ok (ReservationAt s) p cfg"
  using assms unfolding budget_wf_def by blast+

lemma budget_init_wf: "budget_wf decisions_init"
  by (simp add: budget_wf_def decisions_init_def)

lemma held_nonneg: "budget_wf s \<Longrightarrow> ReservationAt s k = Some r \<Longrightarrow> 0 \<le> held p st r"
  using budget_wfD(2) [of s "fst k" "snd k" r] by (simp add: held_def)

lemma held_sums:
  assumes "budget_wf s" "ProgramConfig s p = Some cfg"
  shows "0 \<le> reserved_amount cfg" "0 \<le> awarded_amount cfg"
    "ReservationAt s (p, a) = Some r \<Longrightarrow> reservation_status r = Reserved \<Longrightarrow> amount r \<le> reserved_amount cfg"
proof -
  note ok = budget_wfD(3) [OF assms, unfolded budget_ok_def]
  show "0 \<le> reserved_amount cfg" "0 \<le> awarded_amount cfg"
    using ok held_nonneg [OF assms(1)] by (auto intro: msum_nonneg)
  assume r: "ReservationAt s (p, a) = Some r" "reservation_status r = Reserved"
  have "held p Reserved r \<le> msum (held p Reserved) (ReservationAt s)"
    using msum_mem_le [OF budget_wfD(1) [OF assms(1)] r(1)] held_nonneg [OF assms(1)] by blast
  with ok r budget_wfD(2) [OF assms(1) r(1)] show "amount r \<le> reserved_amount cfg" by (simp add: held_def)
qed

text \<open>One reservation is written: every program but its own keeps its sums.\<close>

lemma reservation_write_wf:
  assumes wf: "budget_wf s" and cfg: "budget_ok ((ReservationAt s)((p, a) \<mapsto> r)) p cfg"
    and r: "reserved_program r = p" "reserved_applicant r = a" "0 < amount r"
    and t: "ProgramConfig t = (ProgramConfig s)(p \<mapsto> cfg)" "ReservationAt t = (ReservationAt s)((p, a) \<mapsto> r)"
  shows "budget_wf t"
proof -
  have other: "msum (held q st) ((ReservationAt s)((p, a) \<mapsto> r)) = msum (held q st) (ReservationAt s)" if "q \<noteq> p" for q st
    using that r(1) budget_wfD(2) [OF wf, of p a]
    by (simp add: msum_update [OF budget_wfD(1) [OF wf]] held_def split: option.split)
  have "budget_ok ((ReservationAt s)((p, a) \<mapsto> r)) q c" if "((ProgramConfig s)(p \<mapsto> cfg)) q = Some c" for q c
    using that cfg other [of q] budget_wfD(3) [OF wf, of q c] by (cases "q = p") (simp_all add: budget_ok_def)
  then show ?thesis
    using r budget_wfD(1,2) [OF wf] unfolding budget_wf_def t by (auto split: if_splits)
qed

lemma held_for_wf:
  assumes "budget_wf s" "reserve_budget env p a n s = Ok t" "ReservationAt s (p, a) = None" "0 < n"
  shows "budget_wf t"
proof -
  from assms(2) obtain cfg where cfg: "ProgramConfig s p = Some cfg"
    "fits_i128 (reserved_amount cfg + awarded_amount cfg + n)"
    "reserved_amount cfg + awarded_amount cfg + n \<le> total_budget cfg" and t: "t = held_for env p a n cfg s"
    by (auto simp: reserve_Ok)
  note ok = budget_wfD(3) [OF assms(1) cfg(1), unfolded budget_ok_def]
  show ?thesis
    by (rule reservation_write_wf [OF assms(1), of p a _ "cfg\<lparr>reserved_amount := reserved_amount cfg + n\<rparr>"])
      (use assms(3,4) ok cfg in \<open>auto simp: t held_for_def budget_ok_def held_def
        msum_insert [OF budget_wfD(1) [OF assms(1)]] algebra_simps\<close>)
qed

lemma settled_wf:
  assumes "budget_wf s" "ReservationAt s (p, a) = Some r" "reservation_status r = Reserved"
    "ProgramConfig s p = Some cfg" "st \<noteq> Reserved"
  shows "budget_wf (settled p a st cfg r s)"
proof -
  note ok = budget_wfD(3) [OF assms(1,4), unfolded budget_ok_def] and r = budget_wfD(2) [OF assms(1,2)]
  have "amount r \<le> reserved_amount cfg" "0 \<le> awarded_amount cfg" using held_sums [OF assms(1,4)] assms(2,3) by auto
  then have "fits_i128 (reserved_amount cfg + awarded_amount cfg - amount r)"
    using ok r by (simp add: range_defs)
  with r ok assms(3,5) show ?thesis
    by (intro reservation_write_wf [OF assms(1), of p a "r\<lparr>reservation_status := st\<rparr>"
          "cfg\<lparr>reserved_amount := reserved_amount cfg - amount r,
            awarded_amount := awarded_amount cfg + (if st = Claimed then amount r else 0)\<rparr>"])
      (auto simp: settled_def budget_ok_def held_def msum_replace [OF budget_wfD(1) [OF assms(1)] assms(2)]
        algebra_simps)
qed

lemma same_budget_wf:
  "budget_wf s \<Longrightarrow> ProgramConfig t = ProgramConfig s \<Longrightarrow> ReservationAt t = ReservationAt s \<Longrightarrow> budget_wf t"
  by (simp add: budget_wf_def)

lemma config_write_wf:
  assumes "budget_wf s" "budget_ok (ReservationAt s) p cfg"
    and "ProgramConfig t = (ProgramConfig s)(p \<mapsto> cfg)" "ReservationAt t = ReservationAt s"
  shows "budget_wf t"
proof -
  have "budget_ok (ReservationAt s) q c" if "((ProgramConfig s)(p \<mapsto> cfg)) q = Some c" for q c
    using that assms(2) budget_wfD(3) [OF assms(1), of q c] by (cases "q = p") simp_all
  then show ?thesis
    using budget_wfD(1,2) [OF assms(1)] unfolding budget_wf_def assms(3,4) by (auto split: if_splits)
qed

lemma register_budget_wf:
  assumes "budget_wf s" "register_program env adm p b n l w s = Ok t"
  shows "budget_wf t"
proof -
  let ?cfg = "\<lparr>active = True, total_budget = b, per_award_amount = n, reserved_amount = 0, awarded_amount = 0,
      reservation_ttl = l, appeal_window = w\<rparr>"
  from assms(2) have new: "ProgramConfig s p = None" "0 < n" "n \<le> b"
    and t: "t = s\<lparr>ProgramConfig := (ProgramConfig s)(p \<mapsto> ?cfg)\<rparr>"
    by (auto simp: register_program_def outcome_iff Let_def)
  have "held p st r = 0" if "ReservationAt s k = Some r" for k r st
    using budget_wfD(2) [OF assms(1), of "fst k" "snd k" r] that new(1) by (auto simp: held_def)
  then have "msum (held p st) (ReservationAt s) = 0" for st by (rule msum_zero)
  with new have "budget_ok (ReservationAt s) p ?cfg" by (simp add: budget_ok_def range_defs)
  then show ?thesis by (rule config_write_wf [OF assms(1)]) (simp_all add: t)
qed

lemma activate_budget_wf:
  assumes "budget_wf s" "set_program_active env adm p b s = Ok t"
  shows "budget_wf t"
proof -
  from assms(2) obtain cfg where cfg: "ProgramConfig s p = Some cfg"
    and t: "t = s\<lparr>ProgramConfig := (ProgramConfig s)(p \<mapsto> cfg\<lparr>active := b\<rparr>)\<rparr>"
    by (auto simp: set_program_active_def outcome_iff)
  have "budget_ok (ReservationAt s) p (cfg\<lparr>active := b\<rparr>)"
    using budget_wfD(3) [OF assms(1) cfg] by (simp add: budget_ok_def)
  then show ?thesis by (rule config_write_wf [OF assms(1)]) (simp_all add: t)
qed

end
