(* ===== verification/Decision_Panels.thy ===== *)
theory Decision_Panels
  imports Decision_Budget
begin

text \<open>
  The committee at work: votes are cast by distinct members, an outcome is the verdict of the recorded votes,
  appeals are judged by members who took no part in the decision, and budget is held exactly for awards.
\<close>

section \<open>Votes and verdicts\<close>

definition votes_for :: "VoteChoice \<Rightarrow> Vote list \<Rightarrow> nat" where
  "votes_for c vs = length (filter (\<lambda>v. choice v = c) vs)"

definition cast_votes :: "Vote list \<Rightarrow> nat" where
  "cast_votes vs = length (filter (\<lambda>v. choice v \<noteq> Recuse) vs)"

definition verdict :: "Vote list \<Rightarrow> DecisionOutcome" where
  "verdict vs = decide_outcome (votes_for Award vs) (votes_for Waitlist vs) (votes_for Reject vs)"

lemma cast_votes_sum: "cast_votes vs = votes_for Award vs + votes_for Waitlist vs + votes_for Reject vs"
proof (induction vs)
  case (Cons v vs)
  then show ?case by (cases "choice v") (simp_all add: cast_votes_def votes_for_def)
qed (simp add: cast_votes_def votes_for_def)

lemma list_contains_iff [simp]: "list_contains xs x \<longleftrightarrow> x \<in> set xs"
  by (induction xs x rule: list_contains.induct) auto

lemma has_voted_iff [simp]: "has_voted vs m \<longleftrightarrow> m \<in> voter ` set vs"
  by (induction vs m rule: has_voted.induct) auto

lemma tally_loop_Ok:
  "tally_loop a w r vs = Ok (x, y, z) \<Longrightarrow>
   x = a + votes_for Award vs \<and> y = w + votes_for Waitlist vs \<and> z = r + votes_for Reject vs"
proof (induction vs arbitrary: a w r)
  case (Cons v vs)
  then show ?case by (cases "choice v") (auto simp: outcome_iff votes_for_def dest!: Cons.IH)
qed (simp add: votes_for_def)

lemma tally_loop_total:
  "a + length vs < 2 ^ 32 \<Longrightarrow> w + length vs < 2 ^ 32 \<Longrightarrow> r + length vs < 2 ^ 32 \<Longrightarrow>
   is_ok (tally_loop a w r vs)"
proof (induction vs arbitrary: a w r)
  case (Cons v vs)
  then show ?case by (cases "choice v") (simp_all add: range_defs)
qed simp

lemma tally_eq:
  "tally vs = Ok c \<Longrightarrow> c = (votes_for Award vs, votes_for Waitlist vs, votes_for Reject vs)"
  unfolding tally_def using tally_loop_Ok [of 0 0 0 vs] by (cases c) simp

lemma tally_small: "length vs < 2 ^ 32 \<Longrightarrow>
    tally vs = Ok (votes_for Award vs, votes_for Waitlist vs, votes_for Reject vs)"
  using tally_loop_total [of 0 vs 0 0] tally_eq [of vs] by (auto simp: tally_def is_ok_iff)

lemma meets_quorum_Ok:
  "meets_quorum s x y z = Ok u \<longleftrightarrow> fits_u32 (x + y) \<and> fits_u32 (x + y + z) \<and> 0 < get_quorum s \<and> get_quorum s \<le> x + y + z"
  by (auto simp: meets_quorum_def get_quorum_def outcome_iff Let_def not_less bind_eq_Some_conv)

text \<open>A verdict has the most votes, and more than every more conservative one.\<close>

fun support :: "Vote list \<Rightarrow> DecisionOutcome \<Rightarrow> nat" where
  "support vs Awarded = votes_for Award vs"
| "support vs Waitlisted = votes_for Waitlist vs"
| "support vs Rejected = votes_for Reject vs"
| "support vs Pending = 0"

fun severity :: "DecisionOutcome \<Rightarrow> nat" where
  "severity Pending = 0"
| "severity Awarded = 1"
| "severity Waitlisted = 2"
| "severity Rejected = 3"

lemma verdict_wins:
  "verdict vs \<noteq> Pending \<and> (\<forall>out. support vs out \<le> support vs (verdict vs)) \<and>
   (\<forall>out. severity (verdict vs) < severity out \<longrightarrow> support vs out < support vs (verdict vs))"
proof (intro conjI allI impI)
  show "verdict vs \<noteq> Pending" by (simp add: verdict_def decide_outcome_def Let_def)
  show "support vs out \<le> support vs (verdict vs)" for out
    by (cases out) (auto simp: verdict_def decide_outcome_def Let_def)
  show "severity (verdict vs) < severity out \<Longrightarrow> support vs out < support vs (verdict vs)" for out
    by (cases out) (auto simp: verdict_def decide_outcome_def Let_def split: if_splits)
qed

section \<open>Panels\<close>

text \<open>
  What decisions and appeals share: a list of votes that a call extends at its end. A fair panel has one vote
  per member, all of members of the committee.
\<close>

definition fair :: "address list \<Rightarrow> Vote list \<Rightarrow> bool" where
  "fair members vs \<longleftrightarrow> distinct (map voter vs) \<and> voter ` set vs \<subseteq> set members"

lemma fair_bound: "fair members vs \<Longrightarrow> length vs \<le> length members"
proof -
  assume "fair members vs"
  then have "distinct (map voter vs)" "set (map voter vs) \<subseteq> set members" by (simp_all add: fair_def)
  then have "card (set (map voter vs)) = length vs" "set (map voter vs) \<subseteq> set members"
    using distinct_card [of "map voter vs"] by simp_all
  then show ?thesis by (metis List.finite_set card_length card_mono le_trans)
qed

lemma fair_mono: "fair members vs \<Longrightarrow> set members \<subseteq> set members' \<Longrightarrow> fair members' vs"
  by (auto simp: fair_def)

locale panel =
  fixes ballot :: "'r \<Rightarrow> Vote list" and record_vote :: "Vote \<Rightarrow> 'r \<Rightarrow> 'r"
  assumes ballot_record: "ballot (record_vote v r) = ballot r @ [v]"
begin

lemma record_fair:
  "fair members (ballot r) \<Longrightarrow> voter v \<in> set members \<Longrightarrow> \<not> has_voted (ballot r) (voter v) \<Longrightarrow>
   fair members (ballot (record_vote v r))"
  by (auto simp: fair_def ballot_record)

lemma record_voters: "voter ` set (ballot (record_vote v r)) = insert (voter v) (voter ` set (ballot r))"
  by (simp add: ballot_record)

lemma count_total:
  "fair members (ballot r) \<Longrightarrow> length members \<le> MAX_MEMBERS \<Longrightarrow>
   tally (ballot r) = Ok (votes_for Award (ballot r), votes_for Waitlist (ballot r), votes_for Reject (ballot r))"
  using fair_bound [of members "ballot r"] by (intro tally_small) (simp add: MAX_MEMBERS_def)

end

interpretation decision_panel: panel decision_votes "\<lambda>v d. d\<lparr>decision_votes := decision_votes d @ [v]\<rparr>"
  by unfold_locales simp

interpretation appeal_panel: panel appeal_votes "\<lambda>v x. x\<lparr>appeal_votes := appeal_votes x @ [v]\<rparr>"
  by unfold_locales simp

section \<open>What a successful call does to the records\<close>

lemma cast_vote_Ok:
  assumes "vote env m p a c s = Ok t"
  obtains d where "is_active_member s m" "auth env m" "DecisionAt s (p, a) = Some d" "decision_status d = Open"
    "\<not> has_voted (decision_votes d) m"
    "t = s\<lparr>DecisionAt := (DecisionAt s)((p, a) \<mapsto> d\<lparr>decision_votes := decision_votes d @
       [\<lparr>voter = m, choice = c, cast_at = timestamp env\<rparr>]\<rparr>)\<rparr>"
  using assms by (auto simp: vote_def outcome_iff Let_def simp del: has_voted_iff)

lemma vote_appeal_Ok:
  assumes "vote_appeal env m p a c s = Ok t"
  obtains x d where "is_active_member s m" "auth env m" "AppealAt s (p, a) = Some x" "appeal_status x = AppealOpen"
    "DecisionAt s (p, a) = Some d" "\<not> has_voted (decision_votes d) m" "\<not> has_voted (appeal_votes x) m"
    "t = s\<lparr>AppealAt := (AppealAt s)((p, a) \<mapsto> x\<lparr>appeal_votes := appeal_votes x @
       [\<lparr>voter = m, choice = c, cast_at = timestamp env\<rparr>]\<rparr>)\<rparr>"
  using assms by (auto simp: vote_appeal_def outcome_iff Let_def simp del: has_voted_iff)

lemma open_decision_Ok:
  assumes "open_decision env c p a v h s = Ok t"
  obtains cfg d where "ProgramConfig s p = Some cfg" "active cfg" "DecisionAt s (p, a) = None"
    "decision_status d = Open" "decision_outcome d = Pending" "outcome_version d = 0" "decision_votes d = []"
    "t = s\<lparr>DecisionAt := (DecisionAt s)((p, a) \<mapsto> d)\<rparr>"
proof -
  from assms obtain cfg where "ProgramConfig s p = Some cfg" "active cfg" "DecisionAt s (p, a) = None"
    "t = s\<lparr>DecisionAt := (DecisionAt s)((p, a) \<mapsto> \<lparr>decision_program = p, decision_applicant = a,
       decision_status = Open, decision_outcome = Pending, outcome_version = 0, evidence_version = v,
       evidence_hash = h, opened_at = timestamp env, finalized_at = 0, decision_votes = []\<rparr>)\<rparr>"
    by (auto simp: open_decision_def outcome_iff Let_def)
  then show thesis by (intro that) simp_all
qed

lemma finalize_decision_Ok:
  assumes "finalize_decision env c p a s = Ok t"
  obtains d s1 where "DecisionAt s (p, a) = Some d" "decision_status d = Open"
    "0 < get_quorum s" "get_quorum s \<le> cast_votes (decision_votes d)"
    "if verdict (decision_votes d) = Awarded
     then \<exists>cfg. ProgramConfig s p = Some cfg \<and> reserve_budget env p a (per_award_amount cfg) s = Ok s1 else s1 = s"
    "t = s1\<lparr>DecisionAt := (DecisionAt s1)((p, a) \<mapsto> d\<lparr>decision_outcome := verdict (decision_votes d),
       decision_status := Finalized, finalized_at := timestamp env, outcome_version := 1\<rparr>)\<rparr>"
proof -
  from assms obtain d x y z s1 where *: "DecisionAt s (p, a) = Some d" "decision_status d = Open"
    "tally (decision_votes d) = Ok (x, y, z)" "meets_quorum s x y z = Ok ()"
    "(if decide_outcome x y z = Awarded
      then and_then (ok_or (ProgramConfig s p) ProgramNotFound) (\<lambda>config. reserve_budget env p a (per_award_amount config) s)
      else Ok s) = Ok s1"
    "t = s1\<lparr>DecisionAt := (DecisionAt s1)((p, a) \<mapsto> d\<lparr>decision_outcome := decide_outcome x y z,
       decision_status := Finalized, finalized_at := timestamp env, outcome_version := 1\<rparr>)\<rparr>"
    by (auto simp: finalize_decision_def outcome_iff Let_def)
  from tally_eq [OF *(3)] have "decide_outcome x y z = verdict (decision_votes d)"
    "x + y + z = cast_votes (decision_votes d)"
    by (simp_all add: verdict_def cast_votes_sum)
  with * show thesis
    by (intro that [of d s1]) (auto simp: meets_quorum_Ok outcome_iff split: if_splits)
qed

lemma file_appeal_Ok:
  assumes "file_appeal env a p g e s = Ok t"
  obtains cfg d x where "auth env a" "ProgramConfig s p = Some cfg" "active cfg" "DecisionAt s (p, a) = Some d"
    "decision_status d = Finalized" "decision_outcome d \<in> {Rejected, Waitlisted}" "AppealAt s (p, a) = None"
    "timestamp env \<le> finalized_at d + appeal_window cfg"
    "original_outcome x = decision_outcome d" "appeal_status x = AppealOpen" "appeal_outcome x = Pending"
    "appeal_votes x = []" "t = s\<lparr>AppealAt := (AppealAt s)((p, a) \<mapsto> x)\<rparr>"
proof -
  from assms obtain cfg d where "auth env a" "ProgramConfig s p = Some cfg" "active cfg"
    "DecisionAt s (p, a) = Some d" "decision_status d = Finalized" "decision_outcome d \<in> {Rejected, Waitlisted}"
    "AppealAt s (p, a) = None" "timestamp env \<le> finalized_at d + appeal_window cfg"
    "t = s\<lparr>AppealAt := (AppealAt s)((p, a) \<mapsto> \<lparr>appeal_program = p, appeal_applicant = a,
       original_outcome = decision_outcome d, appeal_status = AppealOpen, appeal_outcome = Pending,
       grounds_hash = g, appeal_evidence = e, filed_at = timestamp env, resolved_at = 0, appeal_votes = []\<rparr>)\<rparr>"
    by (auto simp: file_appeal_def outcome_iff Let_def not_less)
  then show thesis by (intro that) simp_all
qed

lemma finalize_appeal_Ok:
  assumes "finalize_appeal env c p a s = Ok t"
  obtains x s1 d where "AppealAt s (p, a) = Some x" "appeal_status x = AppealOpen"
    "0 < get_quorum s" "get_quorum s \<le> cast_votes (appeal_votes x)"
    "if verdict (appeal_votes x) = Awarded \<and> ReservationAt s (p, a) = None
     then \<exists>cfg. ProgramConfig s p = Some cfg \<and> reserve_budget env p a (per_award_amount cfg) s = Ok s1 else s1 = s"
    "DecisionAt s1 (p, a) = Some d"
    "t = s1\<lparr>DecisionAt := (DecisionAt s1)((p, a) \<mapsto> d\<lparr>decision_outcome := verdict (appeal_votes x),
         outcome_version := outcome_version d + 1\<rparr>),
       AppealAt := (AppealAt s1)((p, a) \<mapsto> x\<lparr>appeal_status := AppealResolved,
         appeal_outcome := verdict (appeal_votes x), resolved_at := timestamp env\<rparr>)\<rparr>"
proof -
  from assms obtain d x xa y z s1 where *: "AppealAt s (p, a) = Some x" "appeal_status x = AppealOpen"
    "tally (appeal_votes x) = Ok (xa, y, z)" "meets_quorum s xa y z = Ok ()"
    "(if decide_outcome xa y z = Awarded
      then if ReservationAt s (p, a) = None
        then and_then (ok_or (ProgramConfig s p) ProgramNotFound) (\<lambda>config. reserve_budget env p a (per_award_amount config) s)
        else Ok s
      else Ok s) = Ok s1"
    "DecisionAt s1 (p, a) = Some d"
    "t = s1\<lparr>DecisionAt := (DecisionAt s1)((p, a) \<mapsto> d\<lparr>decision_outcome := decide_outcome xa y z,
         outcome_version := outcome_version d + 1\<rparr>),
       AppealAt := (AppealAt s1)((p, a) \<mapsto> x\<lparr>appeal_status := AppealResolved,
         appeal_outcome := decide_outcome xa y z, resolved_at := timestamp env\<rparr>)\<rparr>"
    by (auto simp: finalize_appeal_def outcome_iff Let_def)
  from tally_eq [OF *(3)] have "decide_outcome xa y z = verdict (appeal_votes x)"
    "xa + y + z = cast_votes (appeal_votes x)"
    by (simp_all add: verdict_def cast_votes_sum)
  with * show thesis
    by (intro that [of x s1 d]) (auto simp: meets_quorum_Ok outcome_iff split: if_splits)
qed

end
