(* ===== verification/Decision_Outcomes.thy ===== *)
theory Decision_Outcomes
  imports Decision_Panels "HOL-Library.Sublist"
begin

text \<open>
  The invariant of the decisions contract, what a record may still change, and the properties: exact budgets,
  outcomes that are verdicts of fair panels, and appeals that are final.
\<close>

section \<open>The invariant\<close>

definition committee :: "decisions_state \<Rightarrow> address list" where
  "committee s = unwrap_or (MemberList s) []"

definition committee_ok :: "decisions_state \<Rightarrow> bool" where
  "committee_ok s \<longleftrightarrow> distinct (committee s) \<and> length (committee s) \<le> MAX_MEMBERS \<and>
     (\<forall>m. is_active_member s m \<longrightarrow> m \<in> set (committee s))"

definition appeal_ok :: "address list \<Rightarrow> Decision \<Rightarrow> Appeal \<Rightarrow> bool" where
  "appeal_ok ms d x \<longleftrightarrow> original_outcome x = verdict (decision_votes d) \<and> original_outcome x \<in> {Rejected, Waitlisted} \<and>
     fair ms (appeal_votes x) \<and> voter ` set (appeal_votes x) \<inter> voter ` set (decision_votes d) = {} \<and>
     (case appeal_status x of
        AppealOpen \<Rightarrow> appeal_outcome x = Pending \<and> decision_outcome d = original_outcome x \<and> outcome_version d = 1
      | AppealResolved \<Rightarrow> appeal_outcome x = verdict (appeal_votes x) \<and> decision_outcome d = appeal_outcome x \<and>
          outcome_version d = 2)"

text \<open>One application: its decision, its appeal, and whether there is a reservation.\<close>

fun case_ok :: "address list \<Rightarrow> Decision option \<Rightarrow> Appeal option \<Rightarrow> bool \<Rightarrow> bool" where
  "case_ok ms None x res \<longleftrightarrow> x = None \<and> \<not> res"
| "case_ok ms (Some d) x res \<longleftrightarrow> fair ms (decision_votes d) \<and>
     (case decision_status d of
        Open \<Rightarrow> decision_outcome d = Pending \<and> outcome_version d = 0 \<and> x = None \<and> \<not> res
      | Finalized \<Rightarrow> (res \<longleftrightarrow> decision_outcome d = Awarded) \<and>
          (case x of None \<Rightarrow> decision_outcome d = verdict (decision_votes d) \<and> outcome_version d = 1
           | Some x \<Rightarrow> appeal_ok ms d x))"

definition outcomes_wf :: "decisions_state \<Rightarrow> bool" where
  "outcomes_wf s \<longleftrightarrow> committee_ok s \<and>
     (\<forall>k. case_ok (committee s) (DecisionAt s k) (AppealAt s k) (ReservationAt s k \<noteq> None))"

definition decisions_wf :: "decisions_state \<Rightarrow> bool" where
  "decisions_wf s \<longleftrightarrow> budget_wf s \<and> outcomes_wf s"

lemma decisions_init_wf: "decisions_wf decisions_init"
  by (simp add: decisions_wf_def budget_init_wf)
    (simp add: outcomes_wf_def committee_ok_def committee_def is_active_member_def decisions_init_def)

lemma decisions_wfD:
  assumes "decisions_wf s"
  shows "budget_wf s" "committee_ok s"
    "case_ok (committee s) (DecisionAt s k) (AppealAt s k) (ReservationAt s k \<noteq> None)"
  using assms unfolding decisions_wf_def outcomes_wf_def by blast+

lemma case_ok_mono: "case_ok ms d x res \<Longrightarrow> set ms \<subseteq> set ms' \<Longrightarrow> case_ok ms' d x res"
  by (cases d; cases x)
    (auto simp: appeal_ok_def intro: fair_mono split: DecisionStatus.splits AppealStatus.splits)

text \<open>A call that writes one application leaves the others and the committee as they were.\<close>

lemma case_write_wf:
  assumes "decisions_wf s" "budget_wf t" "Member t = Member s" "MemberList t = MemberList s"
    and "\<And>j. j \<noteq> k \<Longrightarrow> DecisionAt t j = DecisionAt s j \<and> AppealAt t j = AppealAt s j \<and>
      (ReservationAt t j = None \<longleftrightarrow> ReservationAt s j = None)"
    and "case_ok (committee s) (DecisionAt t k) (AppealAt t k) (ReservationAt t k \<noteq> None)"
  shows "decisions_wf t"
proof -
  have same: "committee t = committee s" "committee_ok t = committee_ok s"
    by (simp_all add: committee_def committee_ok_def is_active_member_def assms(3,4))
  have "case_ok (committee s) (DecisionAt t j) (AppealAt t j) (ReservationAt t j \<noteq> None)" for j
    using assms(5) [of j] assms(6) decisions_wfD(3) [OF assms(1), of j] by (cases "j = k") simp_all
  with assms(2) decisions_wfD(2) [OF assms(1)] same show ?thesis
    by (simp add: decisions_wf_def outcomes_wf_def)
qed

lemma committee_write_wf:
  assumes "decisions_wf s" "committee_ok t" "set (committee s) \<subseteq> set (committee t)"
    and "ProgramConfig t = ProgramConfig s" "ReservationAt t = ReservationAt s"
    and "DecisionAt t = DecisionAt s" "AppealAt t = AppealAt s"
  shows "decisions_wf t"
proof -
  have "case_ok (committee t) (DecisionAt s k) (AppealAt s k) (ReservationAt s k \<noteq> None)" for k
    using case_ok_mono [OF decisions_wfD(3) [OF assms(1)] assms(3)] by blast
  with same_budget_wf [OF decisions_wfD(1) [OF assms(1)] assms(4,5)] assms(2) show ?thesis
    by (simp add: decisions_wf_def outcomes_wf_def assms(5-7))
qed

lemma active_in_committee: "decisions_wf s \<Longrightarrow> is_active_member s m \<Longrightarrow> m \<in> set (committee s)"
  using decisions_wfD(2) by (simp add: committee_ok_def)

section \<open>Preservation\<close>

lemma settled_case_wf:
  assumes "decisions_wf s" "budget_wf (settled p a st cfg r s)" "ReservationAt s (p, a) = Some r"
  shows "decisions_wf (settled p a st cfg r s)"
  using decisions_wfD(3) [OF assms(1), of "(p, a)"] assms(3)
  by (intro case_write_wf [OF assms(1,2), of "(p, a)"]) (auto simp: settled_def)

lemma vote_wf:
  assumes "vote env m p a c s = Ok t" "decisions_wf s"
  shows "decisions_wf t"
  using assms(1)
proof (cases rule: cast_vote_Ok)
  case (1 d)
  note ok = decisions_wfD(3) [OF assms(2), of "(p, a)", unfolded 1(3)]
  have "fair (committee s) (decision_votes d @ [\<lparr>voter = m, choice = c, cast_at = timestamp env\<rparr>])"
    using decision_panel.record_fair [of "committee s" d "\<lparr>voter = m, choice = c, cast_at = timestamp env\<rparr>"]
      ok 1(5) active_in_committee [OF assms(2) 1(1)] by simp
  with ok 1(4) show ?thesis
    by (intro case_write_wf [OF assms(2), of _ "(p, a)"] same_budget_wf [OF decisions_wfD(1) [OF assms(2)]])
      (auto simp: 1(6))
qed

lemma open_wf:
  assumes "open_decision env c p a v h s = Ok t" "decisions_wf s"
  shows "decisions_wf t"
  using assms(1)
proof (cases rule: open_decision_Ok)
  case (1 cfg d)
  then show ?thesis
    using decisions_wfD(3) [OF assms(2), of "(p, a)"]
    by (intro case_write_wf [OF assms(2), of _ "(p, a)"] same_budget_wf [OF decisions_wfD(1) [OF assms(2)]])
      (auto simp: fair_def)
qed

lemma reserved_frame:
  assumes "reserve_budget env p a n s = Ok t"
  shows "DecisionAt t = DecisionAt s" "AppealAt t = AppealAt s" "Member t = Member s" "MemberList t = MemberList s"
    "MemberRole t = MemberRole s" "Quorum t = Quorum s" "Admin t = Admin s" "ReservationAt t (p, a) \<noteq> None"
    "k \<noteq> (p, a) \<Longrightarrow> ReservationAt t k = ReservationAt s k"
  using assms by (auto simp: reserve_Ok held_for_def)

lemma award_amount_pos: "budget_wf s \<Longrightarrow> ProgramConfig s p = Some cfg \<Longrightarrow> 0 < per_award_amount cfg"
  using budget_wfD(3) by (simp add: budget_ok_def)

text \<open>The budget part of both finalize functions.\<close>

lemma award_reserves:
  assumes "decisions_wf s" "ReservationAt s (p, a) = None"
    and "if b then \<exists>cfg. ProgramConfig s p = Some cfg \<and> reserve_budget env p a (per_award_amount cfg) s = Ok t else t = s"
  shows "budget_wf t \<and> DecisionAt t = DecisionAt s \<and> AppealAt t = AppealAt s \<and> Member t = Member s \<and>
    MemberList t = MemberList s \<and> (ReservationAt t (p, a) \<noteq> None \<longleftrightarrow> b) \<and>
    (\<forall>k. k \<noteq> (p, a) \<longrightarrow> ReservationAt t k = ReservationAt s k)"
proof (cases b)
  case True
  with assms(3) obtain cfg where cfg: "ProgramConfig s p = Some cfg"
    "reserve_budget env p a (per_award_amount cfg) s = Ok t" by auto
  note wf = decisions_wfD(1) [OF assms(1)]
  show ?thesis
    using held_for_wf [OF wf cfg(2) assms(2) award_amount_pos [OF wf cfg(1)]] reserved_frame [OF cfg(2)] True
    by blast
qed (use assms decisions_wfD(1) [OF assms(1)] in auto)

lemma finalize_wf:
  assumes "finalize_decision env c p a s = Ok t" "decisions_wf s"
  shows "decisions_wf t"
  using assms(1)
proof (cases rule: finalize_decision_Ok)
  case (1 d s1)
  note ok = decisions_wfD(3) [OF assms(2), of "(p, a)", unfolded 1(1)]
  with 1(2) have none: "AppealAt s (p, a) = None" "ReservationAt s (p, a) = None" by auto
  note s1 = award_reserves [OF assms(2) none(2) 1(5)]
  then have "budget_wf t" by (auto simp: 1(6) intro: same_budget_wf)
  with s1 ok none show ?thesis
    by (intro case_write_wf [OF assms(2), of _ "(p, a)"]) (auto simp: 1(6))
qed

lemma file_wf:
  assumes "file_appeal env a p g e s = Ok t" "decisions_wf s"
  shows "decisions_wf t"
  using assms(1)
proof (cases rule: file_appeal_Ok)
  case (1 cfg d x)
  then show ?thesis
    using decisions_wfD(3) [OF assms(2), of "(p, a)"]
    by (intro case_write_wf [OF assms(2), of _ "(p, a)"] same_budget_wf [OF decisions_wfD(1) [OF assms(2)]])
      (auto simp: appeal_ok_def fair_def)
qed

lemma appeal_case:
  assumes "decisions_wf s" "AppealAt s k = Some x" "DecisionAt s k = Some d"
  shows "decision_status d = Finalized" "fair (committee s) (decision_votes d)" "appeal_ok (committee s) d x"
    "ReservationAt s k \<noteq> None \<longleftrightarrow> decision_outcome d = Awarded"
  using decisions_wfD(3) [OF assms(1), of k] assms(2,3) by (auto split: DecisionStatus.splits)

lemma vote_appeal_wf:
  assumes "vote_appeal env m p a c s = Ok t" "decisions_wf s"
  shows "decisions_wf t"
  using assms(1)
proof (cases rule: vote_appeal_Ok)
  case (1 x d)
  note ok = appeal_case [OF assms(2) 1(3,5)]
  have "fair (committee s) (appeal_votes x @ [\<lparr>voter = m, choice = c, cast_at = timestamp env\<rparr>])"
    using appeal_panel.record_fair [of "committee s" x "\<lparr>voter = m, choice = c, cast_at = timestamp env\<rparr>"]
      ok(3) 1(7) active_in_committee [OF assms(2) 1(1)] by (simp add: appeal_ok_def)
  with ok 1(3-7) show ?thesis
    by (intro case_write_wf [OF assms(2), of _ "(p, a)"] same_budget_wf [OF decisions_wfD(1) [OF assms(2)]])
      (auto simp: 1(8) appeal_ok_def)
qed

lemma finalize_appeal_wf:
  assumes "finalize_appeal env c p a s = Ok t" "decisions_wf s"
  shows "decisions_wf t"
  using assms(1)
proof (cases rule: finalize_appeal_Ok)
  case (1 x s1 d)
  from decisions_wfD(3) [OF assms(2), of "(p, a)"] 1(1) obtain d0 where d0: "DecisionAt s (p, a) = Some d0"
    by (cases "DecisionAt s (p, a)") auto
  note ok = appeal_case [OF assms(2) 1(1) d0]
  with 1(2) have "decision_outcome d0 \<noteq> Awarded" "outcome_version d0 = 1" by (auto simp: appeal_ok_def)
  with ok(4) have none: "ReservationAt s (p, a) = None" by simp
  with 1(5) have "if verdict (appeal_votes x) = Awarded
      then \<exists>cfg. ProgramConfig s p = Some cfg \<and> reserve_budget env p a (per_award_amount cfg) s = Ok s1 else s1 = s"
    by simp
  note s1 = award_reserves [OF assms(2) none this]
  with 1(6) d0 have d: "d = d0" by simp
  have "budget_wf t" using s1 by (auto simp: 1(7) intro: same_budget_wf)
  with s1 ok 1(2) \<open>outcome_version d0 = 1\<close> show ?thesis
    by (intro case_write_wf [OF assms(2), of _ "(p, a)"]) (auto simp: 1(7) d appeal_ok_def)
qed

lemma add_member_wf:
  assumes "add_member env adm m r s = Ok t" "decisions_wf s"
  shows "decisions_wf t"
proof -
  from assms(1) have t: "ProgramConfig t = ProgramConfig s" "ReservationAt t = ReservationAt s"
    "DecisionAt t = DecisionAt s" "AppealAt t = AppealAt s" "Member t = (Member s)(m \<mapsto> True)"
    "m \<in> set (committee s) \<and> committee t = committee s \<or>
     m \<notin> set (committee s) \<and> length (committee s) < MAX_MEMBERS \<and> committee t = committee s @ [m]"
    by (auto simp: add_member_def committee_def outcome_iff Let_def split: if_splits)
  have "committee_ok t"
    using decisions_wfD(2) [OF assms(2)] t(6) by (auto simp: committee_ok_def is_active_member_def t(5) split: if_splits)
  moreover have "set (committee s) \<subseteq> set (committee t)" using t(6) by auto
  ultimately show ?thesis by (rule committee_write_wf [OF assms(2) _ _ t(1-4)])
qed

lemma remove_member_wf:
  assumes "remove_member env adm m s = Ok t" "decisions_wf s"
  shows "decisions_wf t"
proof -
  from assms(1) have t: "t = s\<lparr>Member := (Member s)(m \<mapsto> False)\<rparr>" by (auto simp: remove_member_def outcome_iff)
  have "committee_ok t"
    using decisions_wfD(2) [OF assms(2)] by (auto simp: committee_ok_def is_active_member_def committee_def t split: if_splits)
  then show ?thesis by (rule committee_write_wf [OF assms(2)]) (simp_all add: t committee_def)
qed

lemma decisions_exec_wf:
  assumes "decisions_exec env c s = Ok t" "decisions_wf s"
  shows "decisions_wf t"
proof (cases c)
  case (Initialize a)
  with assms show ?thesis
    by (auto simp: initialize_def outcome_iff committee_def committee_ok_def is_active_member_def decisions_wf_def
        outcomes_wf_def budget_wf_def)
next
  case (SetQuorum a q)
  with assms show ?thesis
    by (auto simp: set_quorum_def outcome_iff committee_def committee_ok_def is_active_member_def decisions_wf_def
        outcomes_wf_def budget_wf_def)
next
  case (RegisterProgram a p b n l w)
  with assms have reg: "register_program env a p b n l w s = Ok t" by simp
  then show ?thesis
    using register_budget_wf [OF decisions_wfD(1) [OF assms(2)] reg] assms(2)
    by (auto simp: register_program_def outcome_iff Let_def committee_def committee_ok_def is_active_member_def
        decisions_wf_def outcomes_wf_def)
next
  case (SetProgramActive a p b)
  with assms have act: "set_program_active env a p b s = Ok t" by simp
  then show ?thesis
    using activate_budget_wf [OF decisions_wfD(1) [OF assms(2)] act] assms(2)
    by (auto simp: set_program_active_def outcome_iff Let_def committee_def committee_ok_def is_active_member_def
        decisions_wf_def outcomes_wf_def)
next
  case (AcceptAward a p)
  with assms have "accept_award env a p s = Ok t" by simp
  then show ?thesis
    by (rule accept_award_Ok)
      (use assms(2) decisions_wfD(1) [OF assms(2)] in \<open>simp add: settled_case_wf settled_wf\<close>)
next
  case (ReleaseReservation b p a)
  with assms have "release_reservation env b p a s = Ok t \<or> expire_reservation env b p a s = Ok t" by simp
  then show ?thesis
    by (rule give_back_Ok)
      (use assms(2) decisions_wfD(1) [OF assms(2)] in \<open>auto intro!: settled_case_wf settled_wf\<close>)
next
  case (ExpireReservation b p a)
  with assms have "release_reservation env b p a s = Ok t \<or> expire_reservation env b p a s = Ok t" by simp
  then show ?thesis
    by (rule give_back_Ok)
      (use assms(2) decisions_wfD(1) [OF assms(2)] in \<open>auto intro!: settled_case_wf settled_wf\<close>)
qed (use assms in \<open>auto simp: recuse_def intro: add_member_wf remove_member_wf open_wf vote_wf finalize_wf file_wf
  vote_appeal_wf finalize_appeal_wf\<close>)

section \<open>What may still change\<close>

definition reservation_evolves :: "Reservation \<Rightarrow> Reservation \<Rightarrow> bool" where
  "reservation_evolves r r' \<longleftrightarrow> r' = r \<or> reservation_status r = Reserved \<and>
     (\<exists>st\<in>{Claimed, Released, Expired}. r' = r\<lparr>reservation_status := st\<rparr>)"

definition decision_evolves :: "Decision \<Rightarrow> Decision \<Rightarrow> bool" where
  "decision_evolves d d' \<longleftrightarrow> evidence_version d' = evidence_version d \<and> evidence_hash d' = evidence_hash d \<and>
     opened_at d' = opened_at d \<and> prefix (decision_votes d) (decision_votes d') \<and>
     (decision_status d = Finalized \<longrightarrow> decision_status d' = Finalized \<and> decision_votes d' = decision_votes d \<and>
        finalized_at d' = finalized_at d)"

definition appeal_evolves :: "Appeal \<Rightarrow> Appeal \<Rightarrow> bool" where
  "appeal_evolves x x' \<longleftrightarrow> original_outcome x' = original_outcome x \<and> grounds_hash x' = grounds_hash x \<and>
     appeal_evidence x' = appeal_evidence x \<and> filed_at x' = filed_at x \<and>
     prefix (appeal_votes x) (appeal_votes x') \<and> (appeal_status x = AppealResolved \<longrightarrow> x' = x)"

definition terms_kept :: "DecisionProgramConfig \<Rightarrow> DecisionProgramConfig \<Rightarrow> bool" where
  "terms_kept c c' \<longleftrightarrow> total_budget c' = total_budget c \<and> per_award_amount c' = per_award_amount c \<and>
     reservation_ttl c' = reservation_ttl c \<and> appeal_window c' = appeal_window c \<and>
     awarded_amount c \<le> awarded_amount c'"

definition decisions_evolve :: "decisions_state \<Rightarrow> decisions_state \<Rightarrow> bool" where
  "decisions_evolve s t \<longleftrightarrow> kept reservation_evolves (ReservationAt s) (ReservationAt t) \<and>
     kept decision_evolves (DecisionAt s) (DecisionAt t) \<and> kept appeal_evolves (AppealAt s) (AppealAt t) \<and>
     kept terms_kept (ProgramConfig s) (ProgramConfig t)"

lemma evolves_refl [simp]:
  "reservation_evolves r r" "decision_evolves d d" "appeal_evolves x x" "terms_kept c c"
  by (simp_all add: reservation_evolves_def decision_evolves_def appeal_evolves_def terms_kept_def)

lemma decisions_evolve_refl: "decisions_evolve s s"
  by (simp add: decisions_evolve_def kept_refl)

lemma evolves_trans:
  "reservation_evolves r r' \<Longrightarrow> reservation_evolves r' r'' \<Longrightarrow> reservation_evolves r r''"
  "decision_evolves d d' \<Longrightarrow> decision_evolves d' d'' \<Longrightarrow> decision_evolves d d''"
  "appeal_evolves x x' \<Longrightarrow> appeal_evolves x' x'' \<Longrightarrow> appeal_evolves x x''"
  "terms_kept c c' \<Longrightarrow> terms_kept c' c'' \<Longrightarrow> terms_kept c c''"
  by (auto simp: reservation_evolves_def decision_evolves_def appeal_evolves_def terms_kept_def
      intro: prefix_order.trans)

lemma decisions_evolve_trans: "decisions_evolve s t \<Longrightarrow> decisions_evolve t u \<Longrightarrow> decisions_evolve s u"
  unfolding decisions_evolve_def using evolves_trans by (meson kept_trans)

lemma settled_evolve:
  assumes "decisions_wf s" "ReservationAt s (p, a) = Some r" "reservation_status r = Reserved"
    "ProgramConfig s p = Some cfg" "st \<in> {Claimed, Released, Expired}"
  shows "decisions_evolve s (settled p a st cfg r s)"
proof -
  have "0 < amount r" using budget_wfD(2) [OF decisions_wfD(1) [OF assms(1)] assms(2)] by simp
  then have "terms_kept cfg (cfg\<lparr>reserved_amount := n, awarded_amount := awarded_amount cfg + (if st = Claimed then amount r else 0)\<rparr>)"
    for n by (simp add: terms_kept_def)
  moreover have "reservation_evolves r (r\<lparr>reservation_status := st\<rparr>)"
    using assms(3,5) by (auto simp: reservation_evolves_def)
  ultimately show ?thesis
    using assms(2,4) by (auto simp: decisions_evolve_def settled_def intro!: kept_refl kept_update)
qed

lemma reserve_evolve:
  assumes "reserve_budget env p a n s = Ok t" "ReservationAt s (p, a) = None"
  shows "decisions_evolve s t"
proof -
  have "terms_kept cfg (cfg\<lparr>reserved_amount := m\<rparr>)" for cfg m by (simp add: terms_kept_def)
  with assms show ?thesis
    by (auto simp: reserve_Ok held_for_def decisions_evolve_def intro!: kept_refl kept_update)
qed

lemma case_write_evolve:
  assumes "decisions_evolve s s1"
    and "\<And>d0. DecisionAt s1 k = Some d0 \<Longrightarrow> decision_evolves d0 d"
  shows "decisions_evolve s (s1\<lparr>DecisionAt := (DecisionAt s1)(k \<mapsto> d)\<rparr>)"
proof -
  have "decisions_evolve s1 (s1\<lparr>DecisionAt := (DecisionAt s1)(k \<mapsto> d)\<rparr>)"
    using assms(2) by (auto simp: decisions_evolve_def intro!: kept_refl kept_update)
  with assms(1) show ?thesis by (rule decisions_evolve_trans)
qed

lemma appeal_write_evolve:
  assumes "decisions_evolve s s1"
    and "\<And>x0. AppealAt s1 k = Some x0 \<Longrightarrow> appeal_evolves x0 x"
  shows "decisions_evolve s (s1\<lparr>AppealAt := (AppealAt s1)(k \<mapsto> x)\<rparr>)"
proof -
  have "decisions_evolve s1 (s1\<lparr>AppealAt := (AppealAt s1)(k \<mapsto> x)\<rparr>)"
    using assms(2) by (auto simp: decisions_evolve_def intro!: kept_refl kept_update)
  with assms(1) show ?thesis by (rule decisions_evolve_trans)
qed

lemma finalize_evolve:
  assumes "finalize_decision env c p a s = Ok t" "decisions_wf s"
  shows "decisions_evolve s t"
  using assms(1)
proof (cases rule: finalize_decision_Ok)
  case (1 d s1)
  have none: "ReservationAt s (p, a) = None"
    using decisions_wfD(3) [OF assms(2), of "(p, a)", unfolded 1(1)] 1(2) by auto
  have "decisions_evolve s s1"
    using 1(5) reserve_evolve [OF _ none] by (auto simp: decisions_evolve_refl split: if_splits)
  moreover have "DecisionAt s1 (p, a) = Some d" using award_reserves [OF assms(2) none 1(5)] 1(1) by simp
  ultimately show ?thesis
    unfolding 1(6) using 1(2) by (intro case_write_evolve) (simp_all add: decision_evolves_def)
qed

lemma finalize_appeal_evolve:
  assumes "finalize_appeal env c p a s = Ok t" "decisions_wf s"
  shows "decisions_evolve s t"
  using assms(1)
proof (cases rule: finalize_appeal_Ok)
  case (1 x s1 d)
  have s1: "decisions_evolve s s1 \<and> AppealAt s1 = AppealAt s"
    using 1(5) reserve_evolve [of env p a _ s s1] reserved_frame(2) [of env p a _ s s1]
    by (auto simp: decisions_evolve_refl split: if_splits)
  let ?s2 = "s1\<lparr>DecisionAt := (DecisionAt s1)((p, a) \<mapsto> d\<lparr>decision_outcome := verdict (appeal_votes x),
         outcome_version := outcome_version d + 1\<rparr>)\<rparr>"
  have "decisions_evolve s ?s2"
    using s1 1(6) by (intro case_write_evolve) (auto simp: decision_evolves_def)
  from appeal_write_evolve [OF this, of "(p, a)" "x\<lparr>appeal_status := AppealResolved,
         appeal_outcome := verdict (appeal_votes x), resolved_at := timestamp env\<rparr>"] s1 1(1,2)
  show ?thesis unfolding 1(7) by (simp add: appeal_evolves_def)
qed

lemma decisions_exec_evolve:
  assumes "decisions_exec env c s = Ok t" "decisions_wf s"
  shows "decisions_evolve s t"
proof (cases c)
  case (RegisterProgram a p b n l w)
  with assms(1) have "register_program env a p b n l w s = Ok t" by simp
  then show ?thesis
    by (auto simp: register_program_def outcome_iff Let_def decisions_evolve_def intro!: kept_refl kept_update)
next
  case (SetProgramActive a p b)
  have "terms_kept cfg (cfg\<lparr>active := b\<rparr>)" for cfg by (simp add: terms_kept_def)
  moreover from SetProgramActive assms(1) have "set_program_active env a p b s = Ok t" by simp
  ultimately show ?thesis
    by (auto simp: set_program_active_def outcome_iff Let_def decisions_evolve_def intro!: kept_refl kept_update)
next
  case (OpenDecision b p a v h)
  with assms(1) have "open_decision env b p a v h s = Ok t" by simp
  then show ?thesis
    by (rule open_decision_Ok) (auto intro!: case_write_evolve decisions_evolve_refl)
next
  case (CastVote m p a v)
  with assms(1) have "vote env m p a v s = Ok t" by simp
  then show ?thesis
    by (rule cast_vote_Ok)
      (auto intro!: case_write_evolve decisions_evolve_refl simp: decision_evolves_def simp del: has_voted_iff)
next
  case (RecuseFrom m p a)
  with assms(1) have "vote env m p a Recuse s = Ok t" by (simp add: recuse_def)
  then show ?thesis
    by (rule cast_vote_Ok)
      (auto intro!: case_write_evolve decisions_evolve_refl simp: decision_evolves_def simp del: has_voted_iff)
next
  case (AcceptAward a p)
  with assms(1) have "accept_award env a p s = Ok t" by simp
  then show ?thesis by (rule accept_award_Ok) (use assms(2) in \<open>simp add: settled_evolve\<close>)
next
  case (ReleaseReservation b p a)
  with assms have "release_reservation env b p a s = Ok t \<or> expire_reservation env b p a s = Ok t" by simp
  then show ?thesis by (rule give_back_Ok) (use assms(2) in \<open>auto intro!: settled_evolve\<close>)
next
  case (ExpireReservation b p a)
  with assms have "release_reservation env b p a s = Ok t \<or> expire_reservation env b p a s = Ok t" by simp
  then show ?thesis by (rule give_back_Ok) (use assms(2) in \<open>auto intro!: settled_evolve\<close>)
next
  case (FileAppeal a p g e)
  with assms(1) have "file_appeal env a p g e s = Ok t" by simp
  then show ?thesis by (rule file_appeal_Ok) (auto intro!: appeal_write_evolve decisions_evolve_refl)
next
  case (VoteAppeal m p a v)
  with assms(1) have "vote_appeal env m p a v s = Ok t" by simp
  then show ?thesis
    by (rule vote_appeal_Ok)
      (auto intro!: appeal_write_evolve decisions_evolve_refl simp: appeal_evolves_def simp del: has_voted_iff)
next
  case (FinalizeDecision b p a)
  with assms show ?thesis by (simp add: finalize_evolve)
next
  case (FinalizeAppeal b p a)
  with assms show ?thesis by (simp add: finalize_appeal_evolve)
qed (use assms in \<open>auto simp: initialize_def add_member_def remove_member_def set_quorum_def outcome_iff Let_def
  decisions_evolve_def intro!: kept_refl split: if_splits\<close>)

interpretation decisions: evolving decisions_step decisions_wf decisions_evolve
  by unfold_locales
    (auto intro: decisions_exec_wf decisions_exec_evolve decisions_evolve_trans decisions_evolve_refl
      elim!: decisions_stepE)

lemmas decisions_run_wf = decisions.run [OF _ decisions_init_wf]

section \<open>Properties\<close>

abbreviation board_env :: "nat \<Rightarrow> env" where
  "board_env n \<equiv> \<lparr>timestamp = n, ledger_sequence = 7, self = 99, auth = (\<lambda>_. True)\<rparr>"

definition demo_config :: DecisionProgramConfig where
  "demo_config = \<lparr>active = True, total_budget = 1000, per_award_amount = 400, reserved_amount = 0,
     awarded_amount = 0, reservation_ttl = 100, appeal_window = 50\<rparr>"

text \<open>A committee of the chair 2 and the reviewer 3 with quorum 1, and an open decision on applicant 9.\<close>

definition demo_decision :: Decision where
  "demo_decision = \<lparr>decision_program = [7], decision_applicant = 9, decision_status = Open,
     decision_outcome = Pending, outcome_version = 0, evidence_version = 1, evidence_hash = [5],
     opened_at = 10, finalized_at = 0, decision_votes = []\<rparr>"

definition demo_board :: decisions_state where
  "demo_board = \<lparr>Admin = Some 1, Quorum = Some 1, Member = [2 \<mapsto> True, 3 \<mapsto> True],
     MemberRole = [2 \<mapsto> Chair, 3 \<mapsto> Reviewer], MemberList = Some [2, 3],
     ProgramConfig = [[7] \<mapsto> demo_config], DecisionAt = [([7], 9) \<mapsto> demo_decision],
     ReservationAt = Map.empty, AppealAt = Map.empty\<rparr>"

definition demo_vote :: "address \<Rightarrow> VoteChoice \<Rightarrow> Vote" where
  "demo_vote m c = \<lparr>voter = m, choice = c, cast_at = 20\<rparr>"

definition demo_reservation :: Reservation where
  "demo_reservation = \<lparr>reserved_program = [7], reserved_applicant = 9, amount = 400, created_at = 20,
     expires_at = 120, reservation_status = Reserved\<rparr>"

definition demo_awarded :: decisions_state where
  "demo_awarded = demo_board\<lparr>
     ProgramConfig := [[7] \<mapsto> demo_config\<lparr>reserved_amount := 400\<rparr>],
     DecisionAt := [([7], 9) \<mapsto> demo_decision\<lparr>decision_status := Finalized, decision_outcome := Awarded,
       outcome_version := 1, finalized_at := 20, decision_votes := [demo_vote 3 Award]\<rparr>],
     ReservationAt := [([7], 9) \<mapsto> demo_reservation]\<rparr>"

lemmas demo_decisions = demo_config_def demo_decision_def demo_board_def demo_vote_def demo_reservation_def
  demo_awarded_def

lemmas decisions_ops = initialize_def add_member_def remove_member_def set_quorum_def register_program_def
  open_decision_def vote_def finalize_decision_def accept_award_def file_appeal_def vote_appeal_def
  finalize_appeal_def reserve_budget_def require_admin_def require_member_def require_chair_def
  require_chair_or_admin_def is_active_member_def tally_def meets_quorum_def decide_outcome_def Let_def

lemma demo_board_run:
  "run_calls decisions_exec
     [(board_env 10, Initialize 1), (board_env 10, AddMember 1 2 Chair), (board_env 10, AddMember 1 3 Reviewer),
      (board_env 10, SetQuorum 1 1), (board_env 10, RegisterProgram 1 [7] 1000 400 100 50),
      (board_env 10, OpenDecision 2 [7] 9 1 [5])] decisions_init = Ok demo_board"
  by (simp add: decisions_ops demo_config_def demo_decision_def demo_board_def decisions_init_def MAX_MEMBERS_def
      u32_op_def range_defs)

definition demo_voted :: decisions_state where
  "demo_voted = demo_board\<lparr>DecisionAt := [([7], 9) \<mapsto> demo_decision\<lparr>decision_votes := [demo_vote 3 Award]\<rparr>]\<rparr>"

lemma demo_vote_exec: "decisions_exec (board_env 20) (CastVote 3 [7] 9 Award) demo_board = Ok demo_voted"
  by (simp add: decisions_ops demo_voted_def demo_decisions)

lemma demo_finalize: "decisions_exec (board_env 20) (FinalizeDecision 2 [7] 9) demo_voted = Ok demo_awarded"
  by (simp add: decisions_ops demo_voted_def demo_decisions range_defs i128_checked_def u64_checked_def u32_checked_def)

lemma decisions_run_steps: "run_calls decisions_exec cs s = Ok t \<Longrightarrow> decisions_step\<^sup>*\<^sup>* s t"
  by (rule run_calls_steps) (auto intro: decisions_step.call)

lemma demo_board_reachable: "decisions_step\<^sup>*\<^sup>* decisions_init demo_board"
  using decisions_run_steps [OF demo_board_run] .

lemma demo_voted_reachable: "decisions_step\<^sup>*\<^sup>* decisions_init demo_voted"
  using demo_board_reachable decisions_step.call [OF demo_vote_exec] by (rule rtranclp.rtrancl_into_rtrancl)

lemma demo_awarded_later: "decisions_step\<^sup>*\<^sup>* demo_voted demo_awarded"
  using decisions_step.call [OF demo_finalize] by (rule r_into_rtranclp)

lemma demo_awarded_reachable: "decisions_step\<^sup>*\<^sup>* decisions_init demo_awarded"
  using demo_voted_reachable demo_awarded_later by (rule rtranclp_trans)

lemma demo_awarded_stored:
  "ProgramConfig demo_awarded [7] = Some (demo_config\<lparr>reserved_amount := 400\<rparr>)"
  "ReservationAt demo_awarded ([7], 9) = Some demo_reservation"
  "DecisionAt demo_awarded ([7], 9) = Some (demo_decision\<lparr>decision_status := Finalized, decision_outcome := Awarded,
     outcome_version := 1, finalized_at := 20, decision_votes := [demo_vote 3 Award]\<rparr>)"
  by (simp_all add: demo_awarded_def)

text \<open>
  C16. Program budgets are exact and never exceeded. In every reachable state the amount a program holds is
  the sum of its reservations waiting for acceptance, the amount it has awarded is the sum of its accepted ones,
  and together they stay within the total budget.
\<close>

theorem program_budget_exact:
  assumes "decisions_step\<^sup>*\<^sup>* decisions_init s" and "ProgramConfig s p = Some cfg"
  shows "reserved_amount cfg = msum (held p Reserved) (ReservationAt s) \<and>
    awarded_amount cfg = msum (held p Claimed) (ReservationAt s) \<and>
    0 \<le> reserved_amount cfg \<and> 0 \<le> awarded_amount cfg \<and> reserved_amount cfg + awarded_amount cfg \<le> total_budget cfg"
  using held_sums(1,2) [OF decisions_wfD(1) [OF decisions_run_wf [OF assms(1)]] assms(2)]
    budget_wfD(3) [OF decisions_wfD(1) [OF decisions_run_wf [OF assms(1)]] assms(2)]
  by (simp add: budget_ok_def)

theorem program_budget_exact_witness:
  "msum (held [7] Reserved) (ReservationAt demo_awarded) = 400"
  using program_budget_exact [OF demo_awarded_reachable demo_awarded_stored(1)] by (simp add: demo_config_def)

text \<open>
  A held award can always be settled. In every reachable state the applicant of a held reservation can
  accept it until it expires, which moves its amount from held to awarded, and afterwards anybody can expire it,
  which gives the amount back; neither call can fail on the arithmetic of the budget.
\<close>

theorem held_award_settles:
  assumes "decisions_step\<^sup>*\<^sup>* decisions_init s" and "ReservationAt s (p, a) = Some r"
    and "reservation_status r = Reserved" and "ProgramConfig s p = Some cfg" and "auth env c"
  shows "(c = a \<and> timestamp env \<le> expires_at r \<longrightarrow> accept_award env c p s = Ok (settled p a Claimed cfg r s)) \<and>
    (expires_at r < timestamp env \<longrightarrow> expire_reservation env c p a s = Ok (settled p a Expired cfg r s))"
proof -
  note wf = decisions_wfD(1) [OF decisions_run_wf [OF assms(1)]]
  have "amount r \<le> reserved_amount cfg" "0 \<le> awarded_amount cfg" "0 < amount r"
    using held_sums [OF wf assms(4)] assms(2,3) budget_wfD(2) [OF wf assms(2)] by auto
  moreover have "fits_i128 (reserved_amount cfg + awarded_amount cfg)"
    using budget_wfD(3) [OF wf assms(4)] by (simp add: budget_ok_def)
  ultimately have "fits_i128 (reserved_amount cfg - amount r)" "fits_i128 (awarded_amount cfg + amount r)"
    by (simp_all add: range_defs)
  with assms show ?thesis
    by (auto simp: accept_award_def expire_reservation_def release_capacity_def settled_def i128_checked_def Let_def)
qed

theorem held_award_settles_witness:
  "accept_award (board_env 120) 9 [7] demo_awarded =
     Ok (settled [7] 9 Claimed (demo_config\<lparr>reserved_amount := 400\<rparr>) demo_reservation demo_awarded)"
  using held_award_settles [OF demo_awarded_reachable demo_awarded_stored(2) _ demo_awarded_stored(1), of "board_env 120" 9]
  by (simp add: demo_reservation_def)

text \<open>
  C17. Outcomes are verdicts of fair, separate panels. In every reachable state the outcome of a finalized
  decision is the verdict of its recorded votes, or of the votes on its resolved appeal; a verdict has at least as
  many votes as any outcome and more than any harsher one; nobody votes twice on a decision or on an appeal, or on
  both; and a reservation exists exactly if the outcome is an award.
\<close>

theorem outcomes_are_verdicts:
  assumes "decisions_step\<^sup>*\<^sup>* decisions_init s" and "DecisionAt s k = Some d" and "decision_status d = Finalized"
  shows "\<exists>vs. (vs = (case AppealAt s k of
        Some x \<Rightarrow> if appeal_status x = AppealResolved then appeal_votes x else decision_votes d
      | None \<Rightarrow> decision_votes d)) \<and>
    decision_outcome d = verdict vs \<and> (\<forall>out. support vs out \<le> support vs (decision_outcome d)) \<and>
    (\<forall>out. severity (decision_outcome d) < severity out \<longrightarrow> support vs out < support vs (decision_outcome d)) \<and>
    distinct (map voter (decision_votes d)) \<and>
    (\<forall>x. AppealAt s k = Some x \<longrightarrow> distinct (map voter (decision_votes d @ appeal_votes x))) \<and>
    (decision_outcome d = Awarded \<longleftrightarrow> ReservationAt s k \<noteq> None)"
proof -
  note ok = decisions_wfD(3) [OF decisions_run_wf [OF assms(1)], of k, unfolded assms(2)]
  let ?vs = "case AppealAt s k of
        Some x \<Rightarrow> if appeal_status x = AppealResolved then appeal_votes x else decision_votes d
      | None \<Rightarrow> decision_votes d"
  have "decision_outcome d = verdict ?vs"
    using ok assms(3) by (auto simp: appeal_ok_def split: option.splits AppealStatus.splits)
  moreover have "distinct (map voter (decision_votes d))" using ok by (simp add: fair_def)
  moreover have "distinct (map voter (decision_votes d @ appeal_votes x))" if "AppealAt s k = Some x" for x
    using ok assms(3) that by (auto simp: appeal_ok_def fair_def)
  moreover have "decision_outcome d = Awarded \<longleftrightarrow> ReservationAt s k \<noteq> None" using ok assms(3) by simp
  ultimately show ?thesis using verdict_wins [of ?vs] by (intro exI [of _ ?vs]) simp
qed

theorem outcomes_are_verdicts_witness:
  "verdict [demo_vote 3 Award] = Awarded \<and> (\<forall>out. support [demo_vote 3 Award] out \<le> support [demo_vote 3 Award] Awarded)"
  using outcomes_are_verdicts [OF demo_awarded_reachable demo_awarded_stored(3)]
  by (simp add: demo_awarded_def demo_board_def)

lemma finalize_role:
  "finalize_decision env b p a s = Ok t \<Longrightarrow>
     auth env b \<and> (Admin s = Some b \<or> is_active_member s b \<and> MemberRole s b = Some Chair)"
  "finalize_appeal env b p a s = Ok t \<Longrightarrow>
     auth env b \<and> (Admin s = Some b \<or> is_active_member s b \<and> MemberRole s b = Some Chair)"
  by (auto simp: finalize_decision_def finalize_appeal_def outcome_iff)

lemma keeps_outcome:
  assumes "decisions_exec env c s = Ok t" "\<nexists>b p a. c = FinalizeDecision b p a \<or> c = FinalizeAppeal b p a"
    and "DecisionAt s k = Some d" "DecisionAt t k = Some d'"
  shows "decision_outcome d' = decision_outcome d"
proof (cases c)
  case (OpenDecision b p a v h)
  with assms(1) have "open_decision env b p a v h s = Ok t" by simp
  then show ?thesis by (rule open_decision_Ok) (use assms(3,4) in \<open>auto split: if_splits\<close>)
next
  case (CastVote m p a v)
  with assms(1) have "vote env m p a v s = Ok t" by simp
  then show ?thesis by (rule cast_vote_Ok) (use assms(3,4) in \<open>auto split: if_splits\<close>)
next
  case (RecuseFrom m p a)
  with assms(1) have "vote env m p a Recuse s = Ok t" by (simp add: recuse_def)
  then show ?thesis by (rule cast_vote_Ok) (use assms(3,4) in \<open>auto split: if_splits\<close>)
next
  case (AcceptAward a p)
  with assms(1) have "accept_award env a p s = Ok t" by simp
  then show ?thesis by (rule accept_award_Ok) (use assms(3,4) in \<open>simp add: settled_def\<close>)
next
  case (ReleaseReservation b p a)
  with assms(1) have "release_reservation env b p a s = Ok t \<or> expire_reservation env b p a s = Ok t" by simp
  then show ?thesis by (rule give_back_Ok) (use assms(3,4) in \<open>simp add: settled_def\<close>)
next
  case (ExpireReservation b p a)
  with assms(1) have "release_reservation env b p a s = Ok t \<or> expire_reservation env b p a s = Ok t" by simp
  then show ?thesis by (rule give_back_Ok) (use assms(3,4) in \<open>simp add: settled_def\<close>)
next
  case (FileAppeal a p g e)
  with assms(1) have "file_appeal env a p g e s = Ok t" by simp
  then show ?thesis by (rule file_appeal_Ok) (use assms(3,4) in simp)
next
  case (VoteAppeal m p a v)
  with assms(1) have "vote_appeal env m p a v s = Ok t" by simp
  then show ?thesis by (rule vote_appeal_Ok) (use assms(3,4) in simp)
qed (use assms in \<open>auto simp: initialize_def add_member_def remove_member_def set_quorum_def register_program_def
  set_program_active_def outcome_iff Let_def split: if_splits\<close>)

text \<open>
  An outcome needs a quorum. If a call made in a reachable state changes the outcome of a decision, it
  finalizes the decision or its appeal, was authorised by the admin or an active chair, and the votes cast on
  that panel, recusals not counted, reach a quorum of at least one.
\<close>

theorem outcome_needs_quorum:
  assumes "decisions_step\<^sup>*\<^sup>* decisions_init s" and "decisions_exec env c s = Ok t"
    and "DecisionAt s (p, a) = Some d" and "DecisionAt t (p, a) = Some d'"
    and "decision_outcome d' \<noteq> decision_outcome d"
  shows "\<exists>b vs. (c = FinalizeDecision b p a \<and> vs = decision_votes d \<or>
      (\<exists>x. c = FinalizeAppeal b p a \<and> AppealAt s (p, a) = Some x \<and> vs = appeal_votes x)) \<and>
    auth env b \<and> (Admin s = Some b \<or> is_active_member s b \<and> MemberRole s b = Some Chair) \<and>
    0 < get_quorum s \<and> get_quorum s \<le> cast_votes vs \<and> decision_outcome d' = verdict vs"
  using assms(2)
proof (cases c)
  case (FinalizeDecision b q e)
  with assms(2) have call: "finalize_decision env b q e s = Ok t" by simp
  then show ?thesis
  proof (cases rule: finalize_decision_Ok)
    case (1 d0 s1)
    have "ReservationAt s (q, e) = None"
      using decisions_wfD(3) [OF decisions_run_wf [OF assms(1)], of "(q, e)", unfolded 1(1)] 1(2) by auto
    from award_reserves [OF decisions_run_wf [OF assms(1)] this 1(5)] have "DecisionAt s1 = DecisionAt s" by blast
    with 1(6) assms(3-5) have "q = p" "e = a" by (auto split: if_splits)
    with 1 assms(3,4) FinalizeDecision finalize_role(1) [OF call] show ?thesis by (intro exI) auto
  qed
next
  case (FinalizeAppeal b q e)
  with assms(2) have call: "finalize_appeal env b q e s = Ok t" by simp
  then show ?thesis
  proof (cases rule: finalize_appeal_Ok)
    case (1 x s1 d0)
    have "DecisionAt s1 = DecisionAt s"
      using 1(5) reserved_frame(1) [of env q e _ s s1] by (auto split: if_splits)
    with 1(7) assms(3-5) have "q = p" "e = a" by (auto split: if_splits)
    with 1 assms(3,4) FinalizeAppeal finalize_role(2) [OF call] show ?thesis by (intro exI) auto
  qed
qed (use assms(3-5) keeps_outcome [OF assms(2)] in auto)

lemma demo_voted_stored:
  "DecisionAt demo_voted ([7], 9) = Some (demo_decision\<lparr>decision_votes := [demo_vote 3 Award]\<rparr>)"
  by (simp add: demo_voted_def)

theorem outcome_needs_quorum_witness:
  "0 < get_quorum demo_voted \<and> verdict [demo_vote 3 Award] = Awarded"
  using outcome_needs_quorum [OF demo_voted_reachable demo_finalize demo_voted_stored demo_awarded_stored(3)]
  by (auto simp: demo_decision_def)

text \<open>
  Records only move forward. From any reachable state on, a decision keeps its evidence and its votes, and
  once finalized takes no more votes; a resolved appeal never changes; a reservation leaves the held state once,
  to claimed, released or expired, and then never changes; a program keeps its terms and its awarded amount
  never falls.
\<close>

theorem decision_records_final:
  assumes "decisions_step\<^sup>*\<^sup>* decisions_init s" and "decisions_step\<^sup>*\<^sup>* s t"
  shows "(ReservationAt s k = Some r \<longrightarrow> (\<exists>r'. ReservationAt t k = Some r' \<and> reservation_evolves r r')) \<and>
    (DecisionAt s k = Some d \<longrightarrow> (\<exists>d'. DecisionAt t k = Some d' \<and> decision_evolves d d')) \<and>
    (AppealAt s k = Some x \<longrightarrow> (\<exists>x'. AppealAt t k = Some x' \<and> appeal_evolves x x')) \<and>
    (ProgramConfig s p = Some cfg \<longrightarrow> (\<exists>cfg'. ProgramConfig t p = Some cfg' \<and> terms_kept cfg cfg'))"
  using decisions.run_evolves [OF assms(2) decisions_run_wf [OF assms(1)]]
  unfolding decisions_evolve_def kept_def by blast

theorem decision_records_final_witness:
  "\<exists>d'. DecisionAt demo_awarded ([7], 9) = Some d' \<and>
     decision_evolves (demo_decision\<lparr>decision_votes := [demo_vote 3 Award]\<rparr>) d'"
  using decision_records_final [OF demo_voted_reachable demo_awarded_later] demo_voted_stored by blast

text \<open>
  An appeal may have no judges. If every active member voted on a decision, or recused themselves from
  it, then in a reachable state no member's vote on an appeal against it is accepted; and while the appeal has no
  votes it cannot be finalized by anybody, whatever the quorum.
\<close>

theorem appeal_without_judges:
  assumes "decisions_step\<^sup>*\<^sup>* decisions_init s" and "AppealAt s (p, a) = Some x" and "DecisionAt s (p, a) = Some d"
    and "\<And>m. is_active_member s m \<Longrightarrow> has_voted (decision_votes d) m"
  shows "\<not> is_ok (vote_appeal env m p a c s) \<and>
    (appeal_votes x = [] \<longrightarrow> \<not> is_ok (finalize_appeal env b p a s))"
proof (intro conjI impI notI)
  assume "is_ok (vote_appeal env m p a c s)"
  then obtain t where "vote_appeal env m p a c s = Ok t" by (auto simp: is_ok_iff)
  then show False by (rule vote_appeal_Ok) (use assms(3,4) in simp)
next
  assume none: "appeal_votes x = []" and "is_ok (finalize_appeal env b p a s)"
  then obtain t where "finalize_appeal env b p a s = Ok t" by (auto simp: is_ok_iff)
  then show False by (rule finalize_appeal_Ok) (use assms(2) none in \<open>simp add: cast_votes_def\<close>)
qed

definition demo_rejected :: Decision where
  "demo_rejected = demo_decision\<lparr>decision_status := Finalized, decision_outcome := Rejected, outcome_version := 1,
     finalized_at := 20, decision_votes := [demo_vote 3 Reject, demo_vote 2 Reject]\<rparr>"

definition demo_appeal :: Appeal where
  "demo_appeal = \<lparr>appeal_program = [7], appeal_applicant = 9, original_outcome = Rejected,
     appeal_status = AppealOpen, appeal_outcome = Pending, grounds_hash = [1], appeal_evidence = [2], filed_at = 30,
     resolved_at = 0, appeal_votes = []\<rparr>"

definition demo_appealed :: decisions_state where
  "demo_appealed = demo_board\<lparr>DecisionAt := [([7], 9) \<mapsto> demo_rejected], AppealAt := [([7], 9) \<mapsto> demo_appeal]\<rparr>"

lemma demo_appeal_run:
  "run_calls decisions_exec
     [(board_env 20, CastVote 3 [7] 9 Reject), (board_env 20, CastVote 2 [7] 9 Reject),
      (board_env 20, FinalizeDecision 2 [7] 9), (board_env 30, FileAppeal 9 [7] [1] [2])] demo_board = Ok demo_appealed"
  by (simp add: decisions_ops demo_decisions demo_appealed_def demo_rejected_def demo_appeal_def range_defs
      u32_op_def u64_checked_def u32_checked_def)

theorem appeal_without_judges_witness:
  "\<not> is_ok (vote_appeal (board_env 40) 2 [7] 9 Award demo_appealed) \<and>
   \<not> is_ok (finalize_appeal (board_env 40) 2 [7] 9 demo_appealed)"
proof -
  have run: "decisions_step\<^sup>*\<^sup>* decisions_init demo_appealed"
    using demo_board_reachable decisions_run_steps [OF demo_appeal_run] by (rule rtranclp_trans)
  have "has_voted (decision_votes demo_rejected) m" if "is_active_member demo_appealed m" for m
    using that by (auto simp: demo_appealed_def demo_board_def is_active_member_def demo_rejected_def demo_vote_def
        split: if_splits)
  from appeal_without_judges [OF run _ _ this, of "[7]" 9 demo_appeal] show ?thesis
    by (simp add: demo_appealed_def demo_appeal_def)
qed

text \<open>
  The votes of removed members decide. Reviewer 3 votes for the award and is removed from the committee,
  then the program is deactivated; the chair, who has not voted, still finalizes the award with the quorum of
  one, and the budget of the inactive program is held for it.
\<close>

theorem removed_member_decides:
  "\<exists>s. run_calls decisions_exec
     [(board_env 20, RemoveMember 1 3), (board_env 20, SetProgramActive 1 [7] False),
      (board_env 20, FinalizeDecision 2 [7] 9)] demo_voted = Ok s \<and>
     \<not> is_member s 3 \<and> get_quorum s = 1 \<and> ReservationAt s ([7], 9) = Some demo_reservation \<and>
     ProgramConfig s [7] = Some (demo_config\<lparr>active := False, reserved_amount := 400\<rparr>)"
  by (simp add: decisions_ops demo_decisions demo_voted_def range_defs i128_checked_def u64_checked_def
      u32_checked_def set_program_active_def is_member_def get_quorum_def)

end
