(* ===== verification/Mentorship_Scheduling.thy ===== *)
theory Mentorship_Scheduling
  imports Transition_Systems
begin

text \<open>
  \<open>contracts/mentorship-scheduling/src/lib.rs\<close>: mentorship sessions booked under a registered agreement,
  confirmed by both participants, and moved to another slot when one participant proposes it and the
  other approves. This theory holds the state and the operations; what they guarantee is in
  \<open>Scheduling_Calendar\<close> and \<open>Scheduling_Proposals\<close>.

  Events and the extension of storage lifetimes leave no trace that a later call reads, and are left
  out; so is \<open>upgrade\<close>, which replaces the code.
\<close>

section \<open>Data\<close>

datatype ContractError =
    NotInitialized | AlreadyInitialized | NotAdmin | NotRegistrar | NotAuthorized | AgreementNotFound
  | AgreementAlreadyRegistered | AgreementNotActive | SessionAlreadyExists | SessionNotFound
  | ErrScheduleConflict | LeadTimeNotMet | StartTimeInPast | InvalidDuration | InvalidTimezoneOffset
  | SessionLimitReached | IdempotencyConflict | InvalidLeadTime | RescheduleNotFound
  | RescheduleAlreadyPending | RescheduleNoticeNotMet | RescheduleExpired | StaleRescheduleApproval
  | InvalidReschedule | RescheduleLimitReached | RescheduleNotOpen | InvalidReschedulePolicy

definition CONTRACT_VERSION :: nat where
  "CONTRACT_VERSION = 1"

definition MAX_SESSIONS_PER_PARTICIPANT :: nat where
  "MAX_SESSIONS_PER_PARTICIPANT = 64"

definition MIN_DURATION_MINUTES :: nat where
  "MIN_DURATION_MINUTES = 15"

definition MAX_DURATION_MINUTES :: nat where
  "MAX_DURATION_MINUTES = 480"

definition MIN_OFFSET_MINUTES :: int where
  "MIN_OFFSET_MINUTES = - 720"

definition MAX_OFFSET_MINUTES :: int where
  "MAX_OFFSET_MINUTES = 840"

definition MAX_LEAD_TIME_SECONDS :: nat where
  "MAX_LEAD_TIME_SECONDS = 2592000"

definition MAX_RESCHEDULES_PER_SESSION :: nat where
  "MAX_RESCHEDULES_PER_SESSION = 16"

definition MIN_APPROVAL_WINDOW_SECONDS :: nat where
  "MIN_APPROVAL_WINDOW_SECONDS = 60"

definition MAX_APPROVAL_WINDOW_SECONDS :: nat where
  "MAX_APPROVAL_WINDOW_SECONDS = 2592000"

definition DEFAULT_RESCHEDULE_NOTICE_SECONDS :: nat where
  "DEFAULT_RESCHEDULE_NOTICE_SECONDS = 86400"

definition DEFAULT_APPROVAL_WINDOW_SECONDS :: nat where
  "DEFAULT_APPROVAL_WINDOW_SECONDS = 259200"

lemmas schedule_consts = MAX_SESSIONS_PER_PARTICIPANT_def MIN_DURATION_MINUTES_def
  MAX_DURATION_MINUTES_def MIN_OFFSET_MINUTES_def MAX_OFFSET_MINUTES_def MAX_LEAD_TIME_SECONDS_def
  MAX_RESCHEDULES_PER_SESSION_def MIN_APPROVAL_WINDOW_SECONDS_def MAX_APPROVAL_WINDOW_SECONDS_def
  DEFAULT_RESCHEDULE_NOTICE_SECONDS_def DEFAULT_APPROVAL_WINDOW_SECONDS_def

record BookingIdemKey =
  key_agreement :: hash32
  key_caller :: address
  idempotency_key :: hash32

datatype SessionMode = Video | Audio | InPerson | Chat

datatype SessionStatus = Booked | Confirmed

record AgreementAnchor =
  anchor_id :: hash32
  anchor_mentor :: address
  anchor_mentee :: address
  active :: bool
  registered_at :: nat

record ScheduleChange =
  change_proposal :: hash32
  previous_start_utc :: nat
  previous_duration_minutes :: nat
  previous_local_offset_minutes :: int
  changed_start_utc :: nat
  changed_duration_minutes :: nat
  changed_local_offset_minutes :: int
  changed_at :: nat

record Session =
  session_id :: hash32
  agreement_id :: hash32
  mentor :: address
  mentee :: address
  start_utc :: nat
  local_offset_minutes :: int
  duration_minutes :: nat
  mode :: SessionMode
  location_ref :: hash32
  agenda_hash :: hash32
  status :: SessionStatus
  mentor_confirmed_at :: nat
  mentee_confirmed_at :: nat
  booked_at :: nat
  revision :: nat
  reschedule_history :: "ScheduleChange list"

datatype RescheduleReason = AvailabilityChange | ScheduleConflict | TimezoneChange | Personal | Other

record PaymentImpact =
  current_minutes :: nat
  proposed_minutes :: nat
  delta_minutes :: int
  settlement_adjustment_required :: bool

datatype RescheduleStatus = Proposed | Applied | Declined

record RescheduleProposal =
  proposal_id :: hash32
  proposal_session :: hash32
  proposed_by :: address
  reason :: RescheduleReason
  reason_hash :: hash32
  new_start_utc :: nat
  new_local_offset_minutes :: int
  new_duration_minutes :: nat
  impact :: PaymentImpact
  created_at :: nat
  expires_at :: nat
  session_revision :: nat
  proposal_status :: RescheduleStatus
  responded_by :: "address option"
  responded_at :: nat
  applied_at :: nat

record SessionTimes =
  times_start_utc :: nat
  times_end_utc :: nat
  times_offset_minutes :: int
  start_local :: nat
  end_local :: nat

record sched_state =
  Admin :: "address option"
  Registrar :: "address option"
  MinLeadTime :: "nat option"
  Agreement :: "hash32 \<rightharpoonup> AgreementAnchor"
  SessionAt :: "hash32 \<rightharpoonup> Session"
  ParticipantSessions :: "address \<rightharpoonup> hash32 list"
  BookingIdem :: "BookingIdemKey \<rightharpoonup> hash32"
  Reschedule :: "hash32 \<rightharpoonup> RescheduleProposal"
  OpenReschedule :: "hash32 \<rightharpoonup> hash32"
  RescheduleNotice :: "nat option"
  ApprovalWindow :: "nat option"

definition sched_init :: sched_state where
  "sched_init = \<lparr>Admin = None, Registrar = None, MinLeadTime = None, Agreement = Map.empty,
     SessionAt = Map.empty, ParticipantSessions = Map.empty, BookingIdem = Map.empty,
     Reschedule = Map.empty, OpenReschedule = Map.empty, RescheduleNotice = None, ApprovalWindow = None\<rparr>"

section \<open>Internals\<close>

definition require_admin :: "env \<Rightarrow> sched_state \<Rightarrow> address \<Rightarrow> (ContractError, unit) outcome" where
  "require_admin env s caller =
     and_then (ok_or (Admin s) NotInitialized) (\<lambda>admin.
     if caller \<noteq> admin then Err NotAdmin
     else require_auth env caller)"

definition require_registrar :: "env \<Rightarrow> sched_state \<Rightarrow> address \<Rightarrow> (ContractError, unit) outcome" where
  "require_registrar env s caller =
     and_then (ok_or (Registrar s) NotInitialized) (\<lambda>registrar.
     if caller \<noteq> registrar then Err NotRegistrar
     else require_auth env caller)"

definition validate_reschedule_policy :: "nat \<Rightarrow> nat \<Rightarrow> (ContractError, unit) outcome" where
  "validate_reschedule_policy notice window =
     (if notice > MAX_LEAD_TIME_SECONDS \<or>
         \<not> (MIN_APPROVAL_WINDOW_SECONDS \<le> window \<and> window \<le> MAX_APPROVAL_WINDOW_SECONDS)
      then Err InvalidReschedulePolicy else Ok ())"

text \<open>The end of a slot; the multiplication by 60 is on \<open>u64\<close>, the type of the start.\<close>

definition session_end :: "nat \<Rightarrow> nat \<Rightarrow> (ContractError, nat) outcome" where
  "session_end start duration =
     and_then (ok_or (u64_checked (duration * 60)) InvalidDuration) (\<lambda>seconds.
     ok_or (u64_checked (start + seconds)) InvalidDuration)"

definition load_agreement :: "sched_state \<Rightarrow> hash32 \<Rightarrow> (ContractError, AgreementAnchor) outcome" where
  "load_agreement s aid = ok_or (Agreement s aid) AgreementNotFound"

definition load_session :: "sched_state \<Rightarrow> hash32 \<Rightarrow> (ContractError, Session) outcome" where
  "load_session s sid = ok_or (SessionAt s sid) SessionNotFound"

definition load_participant_sessions :: "sched_state \<Rightarrow> address \<Rightarrow> hash32 list" where
  "load_participant_sessions s p = unwrap_or (ParticipantSessions s p) []"

definition load_reschedule :: "sched_state \<Rightarrow> hash32 \<Rightarrow> (ContractError, RescheduleProposal) outcome" where
  "load_reschedule s pid = ok_or (Reschedule s pid) RescheduleNotFound"

definition put_reschedule :: "RescheduleProposal \<Rightarrow> sched_state \<Rightarrow> sched_state" where
  "put_reschedule p s = s\<lparr>Reschedule := (Reschedule s)(proposal_id p \<mapsto> p)\<rparr>"

definition put_session :: "Session \<Rightarrow> sched_state \<Rightarrow> sched_state" where
  "put_session x s = s\<lparr>SessionAt := (SessionAt s)(session_id x \<mapsto> x)\<rparr>"

definition index_session :: "address \<Rightarrow> hash32 list \<Rightarrow> hash32 \<Rightarrow> sched_state \<Rightarrow> sched_state" where
  "index_session p ids sid s = s\<lparr>ParticipantSessions := (ParticipantSessions s)(p \<mapsto> ids @ [sid])\<rparr>"

text \<open>
  The scan of \<open>conflicts_with\<close>: entries that are excluded, missing or without an end are skipped.
\<close>

fun conflicts_scan :: "sched_state \<Rightarrow> nat \<Rightarrow> nat \<Rightarrow> hash32 option \<Rightarrow> hash32 list \<Rightarrow> bool" where
  "conflicts_scan s start end_utc exclude [] = False"
| "conflicts_scan s start end_utc exclude (i # ids) =
     (if exclude = Some i then conflicts_scan s start end_utc exclude ids
      else case SessionAt s i of
        None \<Rightarrow> conflicts_scan s start end_utc exclude ids
      | Some other \<Rightarrow>
          (case session_end (start_utc other) (duration_minutes other) of
             Ok other_end \<Rightarrow>
               if start < other_end \<and> start_utc other < end_utc then True
               else conflicts_scan s start end_utc exclude ids
           | _ \<Rightarrow> conflicts_scan s start end_utc exclude ids))"

definition conflicts_with :: "sched_state \<Rightarrow> address \<Rightarrow> nat \<Rightarrow> nat \<Rightarrow> hash32 option \<Rightarrow> bool" where
  "conflicts_with s participant start end_utc exclude =
     conflicts_scan s start end_utc exclude (load_participant_sessions s participant)"

text \<open>
  Both operands of the subtraction are \<open>u32\<close>, so it is exact on \<open>i64\<close>; the cast to \<open>i32\<close> keeps the
  low 32 bits.
\<close>

definition payment_impact :: "nat \<Rightarrow> nat \<Rightarrow> PaymentImpact" where
  "payment_impact current proposed =
     (let delta = int proposed - int current in
      \<lparr>current_minutes = current, proposed_minutes = proposed, delta_minutes = signed_take_bit 31 delta,
       settlement_adjustment_required = (proposed \<noteq> current)\<rparr>)"

definition validate_lead_time :: "nat \<Rightarrow> (ContractError, unit) outcome" where
  "validate_lead_time seconds = (if seconds > MAX_LEAD_TIME_SECONDS then Err InvalidLeadTime else Ok ())"

definition validate_slot ::
  "env \<Rightarrow> sched_state \<Rightarrow> nat \<Rightarrow> int \<Rightarrow> nat \<Rightarrow> (ContractError, unit) outcome" where
  "validate_slot env s start offset duration =
     (if \<not> (MIN_DURATION_MINUTES \<le> duration \<and> duration \<le> MAX_DURATION_MINUTES) then Err InvalidDuration
      else if \<not> (MIN_OFFSET_MINUTES \<le> offset \<and> offset \<le> MAX_OFFSET_MINUTES) then Err InvalidTimezoneOffset
      else
        let now = timestamp env in
        if start \<le> now then Err StartTimeInPast
        else and_then (ok_or (MinLeadTime s) NotInitialized) (\<lambda>lead.
        and_then (ok_or (u64_checked (now + lead)) StartTimeInPast) (\<lambda>earliest.
        if start < earliest then Err LeadTimeNotMet else Ok ())))"

text \<open>\<open>i64::try_from\<close>, the checked addition on \<open>i64\<close>, and \<open>u64::try_from\<close>.\<close>

definition shift_by_offset :: "nat \<Rightarrow> int \<Rightarrow> (ContractError, nat) outcome" where
  "shift_by_offset ts offset =
     and_then
       (ok_or (Option.bind (i64_checked (int ts)) (\<lambda>t. i64_checked (t + offset))) InvalidTimezoneOffset)
       (\<lambda>shifted. if shifted < 0 then Err InvalidTimezoneOffset else Ok (nat shifted))"

section \<open>Administration and agreements\<close>

definition initialize :: "env \<Rightarrow> address \<Rightarrow> nat \<Rightarrow> sched_state \<Rightarrow> (ContractError, sched_state) outcome" where
  "initialize env admin lead s =
     (if Admin s \<noteq> None then Err AlreadyInitialized
      else and_then (require_auth env admin) (\<lambda>_.
      and_then (validate_lead_time lead) (\<lambda>_.
      Ok (s\<lparr>Admin := Some admin, Registrar := Some admin, MinLeadTime := Some lead,
            RescheduleNotice := Some DEFAULT_RESCHEDULE_NOTICE_SECONDS,
            ApprovalWindow := Some DEFAULT_APPROVAL_WINDOW_SECONDS\<rparr>))))"

definition admin_of :: "sched_state \<Rightarrow> (ContractError, address) outcome" where
  "admin_of s = ok_or (Admin s) NotInitialized"

definition registrar_of :: "sched_state \<Rightarrow> (ContractError, address) outcome" where
  "registrar_of s = ok_or (Registrar s) NotInitialized"

definition min_lead_time_seconds :: "sched_state \<Rightarrow> (ContractError, nat) outcome" where
  "min_lead_time_seconds s = ok_or (MinLeadTime s) NotInitialized"

definition version :: nat where
  "version = CONTRACT_VERSION"

definition reschedule_notice_seconds :: "sched_state \<Rightarrow> (ContractError, nat) outcome" where
  "reschedule_notice_seconds s = ok_or (RescheduleNotice s) NotInitialized"

definition approval_window_seconds :: "sched_state \<Rightarrow> (ContractError, nat) outcome" where
  "approval_window_seconds s = ok_or (ApprovalWindow s) NotInitialized"

definition set_registrar ::
  "env \<Rightarrow> address \<Rightarrow> address \<Rightarrow> sched_state \<Rightarrow> (ContractError, sched_state) outcome" where
  "set_registrar env admin registrar s =
     and_then (require_admin env s admin) (\<lambda>_. Ok (s\<lparr>Registrar := Some registrar\<rparr>))"

definition set_min_lead_time ::
  "env \<Rightarrow> address \<Rightarrow> nat \<Rightarrow> sched_state \<Rightarrow> (ContractError, sched_state) outcome" where
  "set_min_lead_time env admin lead s =
     and_then (require_admin env s admin) (\<lambda>_.
     and_then (validate_lead_time lead) (\<lambda>_. Ok (s\<lparr>MinLeadTime := Some lead\<rparr>)))"

definition set_reschedule_policy ::
  "env \<Rightarrow> address \<Rightarrow> nat \<Rightarrow> nat \<Rightarrow> sched_state \<Rightarrow> (ContractError, sched_state) outcome" where
  "set_reschedule_policy env admin notice window s =
     and_then (require_admin env s admin) (\<lambda>_.
     and_then (validate_reschedule_policy notice window) (\<lambda>_.
     Ok (s\<lparr>RescheduleNotice := Some notice, ApprovalWindow := Some window\<rparr>)))"

definition register_agreement ::
  "env \<Rightarrow> address \<Rightarrow> hash32 \<Rightarrow> address \<Rightarrow> address \<Rightarrow> sched_state \<Rightarrow>
   (ContractError, sched_state) outcome" where
  "register_agreement env caller aid m e s =
     and_then (require_registrar env s caller) (\<lambda>_.
     if Agreement s aid \<noteq> None then Err AgreementAlreadyRegistered
     else if m = e then Err NotAuthorized
     else
       let anchor = \<lparr>anchor_id = aid, anchor_mentor = m, anchor_mentee = e, active = True,
                     registered_at = timestamp env\<rparr>
       in Ok (s\<lparr>Agreement := (Agreement s)(aid \<mapsto> anchor)\<rparr>))"

definition set_agreement_active ::
  "env \<Rightarrow> address \<Rightarrow> hash32 \<Rightarrow> bool \<Rightarrow> sched_state \<Rightarrow> (ContractError, sched_state) outcome" where
  "set_agreement_active env caller aid b s =
     and_then (require_registrar env s caller) (\<lambda>_.
     and_then (ok_or (Agreement s aid) AgreementNotFound) (\<lambda>anchor.
     Ok (s\<lparr>Agreement := (Agreement s)(aid \<mapsto> anchor\<lparr>active := b\<rparr>)\<rparr>)))"

section \<open>Booking\<close>

text \<open>The loop of \<open>book_session\<close> over the sessions of one participant.\<close>

fun overlap_loop :: "sched_state \<Rightarrow> nat \<Rightarrow> nat \<Rightarrow> hash32 list \<Rightarrow> (ContractError, unit) outcome" where
  "overlap_loop s start end_utc [] = Ok ()"
| "overlap_loop s start end_utc (i # ids) =
     and_then (load_session s i) (\<lambda>other.
     and_then (session_end (start_utc other) (duration_minutes other)) (\<lambda>other_end.
     if start < other_end \<and> start_utc other < end_utc then Err ErrScheduleConflict
     else overlap_loop s start end_utc ids))"

definition book_session ::
  "env \<Rightarrow> address \<Rightarrow> hash32 \<Rightarrow> hash32 \<Rightarrow> hash32 \<Rightarrow> nat \<Rightarrow> int \<Rightarrow> nat \<Rightarrow> SessionMode \<Rightarrow> hash32 \<Rightarrow>
   hash32 \<Rightarrow> sched_state \<Rightarrow> (ContractError, hash32 \<times> sched_state) outcome" where
  "book_session env caller aid sid ikey start offset duration md loc agenda s =
     and_then (load_agreement s aid) (\<lambda>anchor.
     if \<not> active anchor then Err AgreementNotActive
     else if caller \<noteq> anchor_mentor anchor \<and> caller \<noteq> anchor_mentee anchor then Err NotAuthorized
     else and_then (require_auth env caller) (\<lambda>_.
     let idem_key = \<lparr>key_agreement = aid, key_caller = caller, idempotency_key = ikey\<rparr> in
     case BookingIdem s idem_key of
       Some existing_id \<Rightarrow>
         and_then (load_session s existing_id) (\<lambda>existing.
         let same_payload = start_utc existing = start \<and> local_offset_minutes existing = offset \<and>
               duration_minutes existing = duration \<and> mode existing = md \<and>
               location_ref existing = loc \<and> agenda_hash existing = agenda
         in if \<not> same_payload then Err IdempotencyConflict else Ok (existing_id, s))
     | None \<Rightarrow>
         and_then (validate_slot env s start offset duration) (\<lambda>_.
         if SessionAt s sid \<noteq> None then Err SessionAlreadyExists
         else
           let mentor_sessions = load_participant_sessions s (anchor_mentor anchor);
               mentee_sessions = load_participant_sessions s (anchor_mentee anchor)
           in if length mentor_sessions \<ge> MAX_SESSIONS_PER_PARTICIPANT \<or>
                 length mentee_sessions \<ge> MAX_SESSIONS_PER_PARTICIPANT then Err SessionLimitReached
           else and_then (session_end start duration) (\<lambda>end_utc.
           and_then (overlap_loop s start end_utc mentor_sessions) (\<lambda>_.
           and_then (overlap_loop s start end_utc mentee_sessions) (\<lambda>_.
           let now = timestamp env;
               session = \<lparr>session_id = sid, agreement_id = aid, mentor = anchor_mentor anchor,
                 mentee = anchor_mentee anchor, start_utc = start, local_offset_minutes = offset,
                 duration_minutes = duration, mode = md, location_ref = loc, agenda_hash = agenda,
                 status = Booked, mentor_confirmed_at = 0, mentee_confirmed_at = 0, booked_at = now,
                 revision = 0, reschedule_history = []\<rparr>;
               s = put_session session s;
               s = index_session (anchor_mentor anchor) mentor_sessions sid s;
               s = index_session (anchor_mentee anchor) mentee_sessions sid s
           in Ok (sid, s\<lparr>BookingIdem := (BookingIdem s)(idem_key \<mapsto> sid)\<rparr>)))))))"

definition confirm_session ::
  "env \<Rightarrow> address \<Rightarrow> hash32 \<Rightarrow> sched_state \<Rightarrow> (ContractError, bool \<times> sched_state) outcome" where
  "confirm_session env caller sid s =
     and_then (load_session s sid) (\<lambda>session.
     if caller \<noteq> mentor session \<and> caller \<noteq> mentee session then Err NotAuthorized
     else and_then (require_auth env caller) (\<lambda>_.
     let now = timestamp env in
     if status session = Confirmed then Ok (True, s)
     else if caller = mentor session \<and> mentor_confirmed_at session \<noteq> 0 then Ok (False, s)
     else if caller \<noteq> mentor session \<and> mentee_confirmed_at session \<noteq> 0 then Ok (False, s)
     else
       let session = (if caller = mentor session then session\<lparr>mentor_confirmed_at := now\<rparr>
                      else session\<lparr>mentee_confirmed_at := now\<rparr>);
           session = (if mentor_confirmed_at session \<noteq> 0 \<and> mentee_confirmed_at session \<noteq> 0
                      then session\<lparr>status := Confirmed\<rparr> else session);
           both_confirmed = (status session = Confirmed)
       in Ok (both_confirmed, put_session session s)))"

section \<open>Rescheduling\<close>

definition propose_reschedule ::
  "env \<Rightarrow> address \<Rightarrow> hash32 \<Rightarrow> hash32 \<Rightarrow> RescheduleReason \<Rightarrow> hash32 \<Rightarrow> nat \<Rightarrow> int \<Rightarrow> nat \<Rightarrow>
   sched_state \<Rightarrow> (ContractError, RescheduleProposal \<times> sched_state) outcome" where
  "propose_reschedule env caller sid pid rsn rhash start offset duration s =
     and_then (load_session s sid) (\<lambda>session.
     if caller \<noteq> mentor session \<and> caller \<noteq> mentee session then Err NotAuthorized
     else and_then (require_auth env caller) (\<lambda>_.
     case Reschedule s pid of
       Some existing \<Rightarrow>
         let same_payload = proposal_session existing = sid \<and> proposed_by existing = caller \<and>
               reason existing = rsn \<and> reason_hash existing = rhash \<and> new_start_utc existing = start \<and>
               new_local_offset_minutes existing = offset \<and> new_duration_minutes existing = duration
         in if \<not> same_payload then Err IdempotencyConflict else Ok (existing, s)
     | None \<Rightarrow>
         if length (reschedule_history session) \<ge> MAX_RESCHEDULES_PER_SESSION then Err RescheduleLimitReached
         else
           let now = timestamp env in
           and_then (ok_or (RescheduleNotice s) NotInitialized) (\<lambda>notice.
           and_then (ok_or (u64_checked (now + notice)) RescheduleNoticeNotMet) (\<lambda>earliest.
           if earliest > start_utc session then Err RescheduleNoticeNotMet
           else and_then (validate_slot env s start offset duration) (\<lambda>_.
           if start = start_utc session \<and> duration = duration_minutes session \<and>
              offset = local_offset_minutes session then Err InvalidReschedule
           else and_then
             (case OpenReschedule s sid of
                None \<Rightarrow> Ok s
              | Some open_id \<Rightarrow>
                  and_then (load_reschedule s open_id) (\<lambda>open_p.
                  if proposal_status open_p = Proposed \<and> now \<le> expires_at open_p
                  then Err RescheduleAlreadyPending
                  else Ok (s\<lparr>OpenReschedule := (OpenReschedule s)(sid := None),
                             Reschedule := (Reschedule s)(open_id := None)\<rparr>))) (\<lambda>s.
           and_then (session_end start duration) (\<lambda>end_utc.
           if conflicts_with s (mentor session) start end_utc (Some sid) \<or>
              conflicts_with s (mentee session) start end_utc (Some sid) then Err ErrScheduleConflict
           else and_then (ok_or (ApprovalWindow s) NotInitialized) (\<lambda>window.
           and_then (ok_or (u64_checked (now + window)) RescheduleExpired) (\<lambda>expires.
           let expires = (if expires > start_utc session then start_utc session else expires);
               proposal = \<lparr>proposal_id = pid, proposal_session = sid, proposed_by = caller, reason = rsn,
                 reason_hash = rhash, new_start_utc = start, new_local_offset_minutes = offset,
                 new_duration_minutes = duration,
                 impact = payment_impact (duration_minutes session) duration, created_at = now,
                 expires_at = expires, session_revision = revision session, proposal_status = Proposed,
                 responded_by = None, responded_at = 0, applied_at = 0\<rparr>;
               s = put_reschedule proposal s
           in Ok (proposal, s\<lparr>OpenReschedule := (OpenReschedule s)(sid \<mapsto> pid)\<rparr>))))))))))"

definition approve_reschedule ::
  "env \<Rightarrow> address \<Rightarrow> hash32 \<Rightarrow> sched_state \<Rightarrow> (ContractError, Session \<times> sched_state) outcome" where
  "approve_reschedule env caller pid s =
     and_then (load_reschedule s pid) (\<lambda>proposal.
     and_then (load_session s (proposal_session proposal)) (\<lambda>session.
     if caller \<noteq> mentor session \<and> caller \<noteq> mentee session then Err NotAuthorized
     else if caller = proposed_by proposal then Err NotAuthorized
     else and_then (require_auth env caller) (\<lambda>_.
     if proposal_status proposal = Applied then Ok (session, s)
     else if proposal_status proposal \<noteq> Proposed then Err RescheduleNotOpen
     else
       let now = timestamp env in
       if now > expires_at proposal then Err RescheduleExpired
       else if revision session \<noteq> session_revision proposal then Err StaleRescheduleApproval
       else if length (reschedule_history session) \<ge> MAX_RESCHEDULES_PER_SESSION then Err RescheduleLimitReached
       else and_then (session_end (new_start_utc proposal) (new_duration_minutes proposal)) (\<lambda>end_utc.
       if conflicts_with s (mentor session) (new_start_utc proposal) end_utc (Some (session_id session)) \<or>
          conflicts_with s (mentee session) (new_start_utc proposal) end_utc (Some (session_id session))
       then Err ErrScheduleConflict
       else
         let change = \<lparr>change_proposal = pid, previous_start_utc = start_utc session,
               previous_duration_minutes = duration_minutes session,
               previous_local_offset_minutes = local_offset_minutes session,
               changed_start_utc = new_start_utc proposal,
               changed_duration_minutes = new_duration_minutes proposal,
               changed_local_offset_minutes = new_local_offset_minutes proposal, changed_at = now\<rparr>;
             session = session\<lparr>reschedule_history := reschedule_history session @ [change],
               start_utc := new_start_utc proposal, duration_minutes := new_duration_minutes proposal,
               local_offset_minutes := new_local_offset_minutes proposal,
               revision := u32_saturating_add (revision session) 1, status := Booked,
               mentor_confirmed_at := 0, mentee_confirmed_at := 0\<rparr>;
             s = put_session session s;
             proposal = proposal\<lparr>proposal_status := Applied, responded_by := Some caller,
               responded_at := now, applied_at := now\<rparr>;
             s = put_reschedule proposal s
         in Ok (session, s\<lparr>OpenReschedule := (OpenReschedule s)(session_id session := None)\<rparr>)))))"

definition decline_reschedule ::
  "env \<Rightarrow> address \<Rightarrow> hash32 \<Rightarrow> sched_state \<Rightarrow> (ContractError, sched_state) outcome" where
  "decline_reschedule env caller pid s =
     and_then (load_reschedule s pid) (\<lambda>proposal.
     and_then (load_session s (proposal_session proposal)) (\<lambda>session.
     if caller \<noteq> mentor session \<and> caller \<noteq> mentee session then Err NotAuthorized
     else if caller = proposed_by proposal then Err NotAuthorized
     else and_then (require_auth env caller) (\<lambda>_.
     if proposal_status proposal = Declined then Ok s
     else if proposal_status proposal \<noteq> Proposed then Err RescheduleNotOpen
     else
       let now = timestamp env;
           proposal = proposal\<lparr>proposal_status := Declined, responded_by := Some caller, responded_at := now\<rparr>;
           s = put_reschedule proposal s
       in Ok (s\<lparr>OpenReschedule := (OpenReschedule s)(session_id session := None)\<rparr>))))"

section \<open>Views\<close>

definition get_agreement :: "sched_state \<Rightarrow> hash32 \<Rightarrow> (ContractError, AgreementAnchor) outcome" where
  "get_agreement s aid = load_agreement s aid"

definition get_session :: "sched_state \<Rightarrow> hash32 \<Rightarrow> (ContractError, Session) outcome" where
  "get_session s sid = load_session s sid"

definition participant_sessions :: "sched_state \<Rightarrow> address \<Rightarrow> (ContractError, hash32 list) outcome" where
  "participant_sessions s p = Ok (load_participant_sessions s p)"

fun has_conflict_loop :: "sched_state \<Rightarrow> nat \<Rightarrow> nat \<Rightarrow> hash32 list \<Rightarrow> (ContractError, bool) outcome" where
  "has_conflict_loop s start end_utc [] = Ok False"
| "has_conflict_loop s start end_utc (i # ids) =
     and_then (load_session s i) (\<lambda>session.
     and_then (session_end (start_utc session) (duration_minutes session)) (\<lambda>session_end.
     if start < session_end \<and> start_utc session < end_utc then Ok True
     else has_conflict_loop s start end_utc ids))"

definition has_conflict :: "sched_state \<Rightarrow> address \<Rightarrow> nat \<Rightarrow> nat \<Rightarrow> (ContractError, bool) outcome" where
  "has_conflict s participant start duration =
     and_then (session_end start duration) (\<lambda>end_utc.
     has_conflict_loop s start end_utc (load_participant_sessions s participant))"

definition session_times :: "sched_state \<Rightarrow> hash32 \<Rightarrow> (ContractError, SessionTimes) outcome" where
  "session_times s sid =
     and_then (load_session s sid) (\<lambda>session.
     and_then (session_end (start_utc session) (duration_minutes session)) (\<lambda>end_utc.
     and_then (ok_or (i64_checked (local_offset_minutes session * 60)) InvalidTimezoneOffset) (\<lambda>offset.
     and_then (shift_by_offset (start_utc session) offset) (\<lambda>sl.
     and_then (shift_by_offset end_utc offset) (\<lambda>el.
     Ok \<lparr>times_start_utc = start_utc session, times_end_utc = end_utc,
         times_offset_minutes = local_offset_minutes session, start_local = sl, end_local = el\<rparr>)))))"

definition get_reschedule :: "sched_state \<Rightarrow> hash32 \<Rightarrow> (ContractError, RescheduleProposal) outcome" where
  "get_reschedule s pid = load_reschedule s pid"

definition session_reschedules :: "sched_state \<Rightarrow> hash32 \<Rightarrow> (ContractError, ScheduleChange list) outcome" where
  "session_reschedules s sid = and_then (load_session s sid) (\<lambda>session. Ok (reschedule_history session))"

definition reschedule_payment_impact :: "sched_state \<Rightarrow> hash32 \<Rightarrow> nat \<Rightarrow> (ContractError, PaymentImpact) outcome" where
  "reschedule_payment_impact s sid duration =
     and_then (load_session s sid) (\<lambda>session.
     if \<not> (MIN_DURATION_MINUTES \<le> duration \<and> duration \<le> MAX_DURATION_MINUTES) then Err InvalidDuration
     else Ok (payment_impact (duration_minutes session) duration))"

section \<open>Calls and steps\<close>

datatype sched_call =
    Initialize address nat | SetRegistrar address address | SetMinLeadTime address nat
  | SetReschedulePolicy address nat nat | RegisterAgreement address hash32 address address
  | SetAgreementActive address hash32 bool
  | BookSession address hash32 hash32 hash32 nat int nat SessionMode hash32 hash32
  | ConfirmSession address hash32
  | ProposeReschedule address hash32 hash32 RescheduleReason hash32 nat int nat
  | ApproveReschedule address hash32 | DeclineReschedule address hash32

fun sched_exec :: "env \<Rightarrow> sched_call \<Rightarrow> sched_state \<Rightarrow> (ContractError, sched_state) outcome" where
  "sched_exec env (Initialize a n) s = initialize env a n s"
| "sched_exec env (SetRegistrar a r) s = set_registrar env a r s"
| "sched_exec env (SetMinLeadTime a n) s = set_min_lead_time env a n s"
| "sched_exec env (SetReschedulePolicy a n w) s = set_reschedule_policy env a n w s"
| "sched_exec env (RegisterAgreement a aid m e) s = register_agreement env a aid m e s"
| "sched_exec env (SetAgreementActive a aid b) s = set_agreement_active env a aid b s"
| "sched_exec env (BookSession a aid sid k st off d md loc ag) s =
     state_of (book_session env a aid sid k st off d md loc ag s)"
| "sched_exec env (ConfirmSession a sid) s = state_of (confirm_session env a sid s)"
| "sched_exec env (ProposeReschedule a sid pid r h st off d) s =
     state_of (propose_reschedule env a sid pid r h st off d s)"
| "sched_exec env (ApproveReschedule a pid) s = state_of (approve_reschedule env a pid s)"
| "sched_exec env (DeclineReschedule a pid) s = decline_reschedule env a pid s"

inductive sched_step :: "sched_state \<Rightarrow> sched_state \<Rightarrow> bool" where
  call: "sched_exec env c s = Ok t \<Longrightarrow> sched_step s t"

inductive_cases sched_stepE: "sched_step s t"

end
