(* ===== verification/Scheduling_Calendar.thy ===== *)
theory Scheduling_Calendar
  imports Mentorship_Scheduling "HOL-Library.Sublist"
begin

text \<open>
  The calendar of the scheduling contract: which sessions exist, where they are indexed, and that no
  participant is ever booked twice at the same time. The contract looks for overlaps in three different
  ways (while booking, while rescheduling, and for the public view); the locale \<open>free_slot_check\<close> states
  what each of them has to decide, and its client lemma is the one argument for every write to the
  calendar.
\<close>

section \<open>Slots\<close>

definition slot_end :: "Session \<Rightarrow> nat" where
  "slot_end x = start_utc x + duration_minutes x * 60"

definition attends :: "address \<Rightarrow> Session \<Rightarrow> bool" where
  "attends p x \<longleftrightarrow> p = mentor x \<or> p = mentee x"

text \<open>Two half-open slots overlap; back-to-back slots do not.\<close>

definition clash :: "Session \<Rightarrow> Session \<Rightarrow> bool" where
  "clash x y \<longleftrightarrow> start_utc x < slot_end y \<and> start_utc y < slot_end x"

definition disjoint_calendar :: "(hash32 \<rightharpoonup> Session) \<Rightarrow> bool" where
  "disjoint_calendar m \<longleftrightarrow>
     (\<forall>i j x y p. m i = Some x \<longrightarrow> m j = Some y \<longrightarrow> i \<noteq> j \<longrightarrow> attends p x \<longrightarrow> attends p y \<longrightarrow> \<not> clash x y)"

text \<open>Participant \<open>p\<close> has a session other than \<open>ex\<close> that overlaps the slot from \<open>a\<close> to \<open>b\<close>.\<close>

definition busy :: "sched_state \<Rightarrow> hash32 option \<Rightarrow> address \<Rightarrow> nat \<Rightarrow> nat \<Rightarrow> bool" where
  "busy s ex p a b \<longleftrightarrow>
     (\<exists>i x. SessionAt s i = Some x \<and> ex \<noteq> Some i \<and> attends p x \<and> a < slot_end x \<and> start_utc x < b)"

text \<open>The index of every participant lists exactly their sessions, and every stored end is a \<open>u64\<close>.\<close>

definition indexed :: "sched_state \<Rightarrow> bool" where
  "indexed s \<longleftrightarrow>
     (\<forall>p i. i \<in> set (load_participant_sessions s p) \<longleftrightarrow> (\<exists>x. SessionAt s i = Some x \<and> attends p x)) \<and>
     (\<forall>i x. SessionAt s i = Some x \<longrightarrow> fits_u64 (slot_end x))"

lemma clash_sym: "clash x y \<longleftrightarrow> clash y x"
  by (auto simp: clash_def)

lemma indexedD:
  assumes "indexed s" "i \<in> set (load_participant_sessions s p)"
  obtains x where "SessionAt s i = Some x" "attends p x" "fits_u64 (slot_end x)"
  using assms by (auto simp: indexed_def)

definition hits :: "sched_state \<Rightarrow> nat \<Rightarrow> nat \<Rightarrow> hash32 \<Rightarrow> bool" where
  "hits s a b i \<longleftrightarrow> (\<exists>x. SessionAt s i = Some x \<and> a < slot_end x \<and> start_utc x < b)"

lemma hits_Some: "SessionAt s i = Some x \<Longrightarrow> hits s a b i \<longleftrightarrow> a < slot_end x \<and> start_utc x < b"
  by (simp add: hits_def)

lemma busy_index:
  assumes "indexed s"
  shows "busy s ex p a b \<longleftrightarrow> (\<exists>i \<in> set (load_participant_sessions s p). ex \<noteq> Some i \<and> hits s a b i)"
proof -
  have index: "i \<in> set (load_participant_sessions s p) \<longleftrightarrow> (\<exists>x. SessionAt s i = Some x \<and> attends p x)" for i
    using assms by (simp add: indexed_def)
  show ?thesis unfolding busy_def Bex_def index hits_def by fastforce
qed

lemma session_end_Ok [outcome_iff]:
  "session_end a d = Ok b \<longleftrightarrow> b = a + d * 60 \<and> fits_u64 b"
  by (auto simp: session_end_def outcome_iff fits_u64_def)

lemma session_end_slot: "fits_u64 (slot_end x) \<Longrightarrow> session_end (start_utc x) (duration_minutes x) = Ok (slot_end x)"
  by (simp add: outcome_iff slot_end_def)

section \<open>The interface of an overlap check\<close>

locale free_slot_check =
  fixes ex :: "hash32 option" and free :: "sched_state \<Rightarrow> address \<Rightarrow> nat \<Rightarrow> nat \<Rightarrow> bool"
  assumes free_iff: "indexed s \<Longrightarrow> free s p a b \<longleftrightarrow> \<not> busy s ex p a b"
begin

lemma write_disjoint:
  assumes "indexed s" "disjoint_calendar (SessionAt s)"
    and "\<And>p. attends p x \<Longrightarrow> free s p (start_utc x) (slot_end x)"
    and "ex = Some k \<or> ex = None"
  shows "disjoint_calendar ((SessionAt s)(k \<mapsto> x))"
proof -
  have new: "\<not> clash x y" if y: "SessionAt s j = Some y" "j \<noteq> k" "attends p x" "attends p y" for j y p
  proof -
    have "\<not> busy s ex p (start_utc x) (slot_end x)"
      using assms(1,3) free_iff y(3) by blast
    moreover have "ex \<noteq> Some j" using y(1,2) assms(4) by auto
    ultimately show ?thesis using y(1,4) unfolding busy_def clash_def by blast
  qed
  show ?thesis
    unfolding disjoint_calendar_def
  proof (intro allI impI)
    fix i j y z p
    assume *: "((SessionAt s)(k \<mapsto> x)) i = Some y" "((SessionAt s)(k \<mapsto> x)) j = Some z" "i \<noteq> j"
      "attends p y" "attends p z"
    consider "i = k" "y = x" | "j = k" "z = x" | "i \<noteq> k" "j \<noteq> k" using *(1,2) by fastforce
    then show "\<not> clash y z"
    proof cases
      case 1
      with * new [of j z p] show ?thesis by auto
    next
      case 2
      with * new [of i y p] show ?thesis by (auto simp: clash_sym)
    next
      case 3
      with * assms(2) show ?thesis unfolding disjoint_calendar_def by auto
    qed
  qed
qed

end

text \<open>The loop of \<open>book_session\<close> and that of \<open>has_conflict\<close> look at every session of the participant.\<close>

lemma overlap_loop_iff:
  assumes "\<And>i. i \<in> set ids \<Longrightarrow> \<exists>x. SessionAt s i = Some x \<and> fits_u64 (slot_end x)"
  shows "overlap_loop s a b ids = (if \<exists>i \<in> set ids. hits s a b i then Err ErrScheduleConflict else Ok ())"
  using assms
proof (induction ids)
  case (Cons i ids)
  then obtain x where x: "SessionAt s i = Some x" "fits_u64 (slot_end x)" by auto
  moreover have "overlap_loop s a b ids = (if \<exists>i \<in> set ids. hits s a b i then Err ErrScheduleConflict else Ok ())"
    using Cons by simp
  ultimately show ?case by (simp add: load_session_def session_end_slot hits_Some)
qed simp

lemma has_conflict_loop_iff:
  assumes "\<And>i. i \<in> set ids \<Longrightarrow> \<exists>x. SessionAt s i = Some x \<and> fits_u64 (slot_end x)"
  shows "has_conflict_loop s a b ids = Ok (\<exists>i \<in> set ids. hits s a b i)"
  using assms
proof (induction ids)
  case (Cons i ids)
  then obtain x where x: "SessionAt s i = Some x" "fits_u64 (slot_end x)" by auto
  moreover have "has_conflict_loop s a b ids = Ok (\<exists>i \<in> set ids. hits s a b i)"
    using Cons by simp
  ultimately show ?case by (auto simp: load_session_def session_end_slot hits_Some)
qed simp

text \<open>The scan of \<open>conflicts_with\<close> does the same, except for the session being moved.\<close>

lemma conflicts_scan_iff:
  assumes "\<And>i. i \<in> set ids \<Longrightarrow> \<exists>x. SessionAt s i = Some x \<and> fits_u64 (slot_end x)"
  shows "conflicts_scan s a b ex ids \<longleftrightarrow> (\<exists>i \<in> set ids. ex \<noteq> Some i \<and> hits s a b i)"
  using assms
proof (induction ids)
  case (Cons i ids)
  then obtain x where x: "SessionAt s i = Some x" "fits_u64 (slot_end x)" by auto
  moreover have "conflicts_scan s a b ex ids \<longleftrightarrow> (\<exists>i \<in> set ids. ex \<noteq> Some i \<and> hits s a b i)"
    using Cons by simp
  ultimately show ?case by (auto simp: session_end_slot hits_Some)
qed simp

lemma index_known:
  "indexed s \<Longrightarrow> i \<in> set (load_participant_sessions s p) \<Longrightarrow>
     \<exists>x. SessionAt s i = Some x \<and> fits_u64 (slot_end x)"
  by (meson indexedD)

interpretation book: free_slot_check None
  "\<lambda>s p a b. overlap_loop s a b (load_participant_sessions s p) = Ok ()"
  by unfold_locales (simp add: overlap_loop_iff index_known busy_index)

interpretation view: free_slot_check None
  "\<lambda>s p a b. has_conflict_loop s a b (load_participant_sessions s p) = Ok False"
  by unfold_locales (simp add: has_conflict_loop_iff index_known busy_index)

interpretation move: free_slot_check "Some sid" "\<lambda>s p a b. \<not> conflicts_with s p a b (Some sid)" for sid
  by unfold_locales (simp add: conflicts_with_def conflicts_scan_iff index_known busy_index)

section \<open>What a successful call did\<close>

lemma validate_slot_Ok [outcome_iff]:
  "validate_slot env s a off d = Ok u \<longleftrightarrow>
     MIN_DURATION_MINUTES \<le> d \<and> d \<le> MAX_DURATION_MINUTES \<and> MIN_OFFSET_MINUTES \<le> off \<and>
     off \<le> MAX_OFFSET_MINUTES \<and> timestamp env < a \<and>
     (\<exists>lead. MinLeadTime s = Some lead \<and> fits_u64 (timestamp env + lead) \<and> timestamp env + lead \<le> a)"
  by (auto simp: validate_slot_def outcome_iff Let_def not_less not_le)

definition new_session ::
  "env \<Rightarrow> AgreementAnchor \<Rightarrow> hash32 \<Rightarrow> hash32 \<Rightarrow> nat \<Rightarrow> int \<Rightarrow> nat \<Rightarrow> SessionMode \<Rightarrow> hash32 \<Rightarrow> hash32 \<Rightarrow> Session" where
  "new_session env anchor aid sid a off d md loc ag =
     \<lparr>session_id = sid, agreement_id = aid, mentor = anchor_mentor anchor,
      mentee = anchor_mentee anchor, start_utc = a, local_offset_minutes = off,
      duration_minutes = d, mode = md, location_ref = loc, agenda_hash = ag, status = Booked,
      mentor_confirmed_at = 0, mentee_confirmed_at = 0, booked_at = timestamp env, revision = 0,
      reschedule_history = []\<rparr>"

lemma book_Ok:
  assumes "book_session env c aid sid ik a off d md loc ag s = Ok (r, t)"
  obtains (replay) x where "BookingIdem s \<lparr>key_agreement = aid, key_caller = c, idempotency_key = ik\<rparr> = Some r"
      "SessionAt s r = Some x" "start_utc x = a" "local_offset_minutes x = off" "duration_minutes x = d" "t = s"
    | (fresh) anchor where "r = sid"
      "Agreement s aid = Some anchor" "active anchor" "c = anchor_mentor anchor \<or> c = anchor_mentee anchor"
      "auth env c" "BookingIdem s \<lparr>key_agreement = aid, key_caller = c, idempotency_key = ik\<rparr> = None"
      "validate_slot env s a off d = Ok ()" "SessionAt s sid = None"
      "length (load_participant_sessions s (anchor_mentor anchor)) < MAX_SESSIONS_PER_PARTICIPANT"
      "length (load_participant_sessions s (anchor_mentee anchor)) < MAX_SESSIONS_PER_PARTICIPANT"
      "fits_u64 (a + d * 60)"
      "overlap_loop s a (a + d * 60) (load_participant_sessions s (anchor_mentor anchor)) = Ok ()"
      "overlap_loop s a (a + d * 60) (load_participant_sessions s (anchor_mentee anchor)) = Ok ()"
      "t = s\<lparr>SessionAt := (SessionAt s)(sid \<mapsto> new_session env anchor aid sid a off d md loc ag),
             ParticipantSessions := (ParticipantSessions s)
               (anchor_mentor anchor \<mapsto> load_participant_sessions s (anchor_mentor anchor) @ [sid],
                anchor_mentee anchor \<mapsto> load_participant_sessions s (anchor_mentee anchor) @ [sid]),
             BookingIdem := (BookingIdem s)(\<lparr>key_agreement = aid, key_caller = c, idempotency_key = ik\<rparr> \<mapsto> sid)\<rparr>"
proof -
  let ?k = "\<lparr>key_agreement = aid, key_caller = c, idempotency_key = ik\<rparr>"
  show thesis
  proof (cases "BookingIdem s ?k")
    case (Some e)
    with assms obtain x where "e = r" "t = s" "SessionAt s r = Some x" "start_utc x = a"
      "local_offset_minutes x = off" "duration_minutes x = d"
      by (auto simp: book_session_def load_session_def outcome_iff Let_def)
    with Some show thesis by (intro replay) simp_all
  next
    case None
    from assms obtain anchor where anchor: "Agreement s aid = Some anchor"
      by (auto simp: book_session_def load_agreement_def outcome_iff)
    show thesis
      using assms None anchor
      by (intro fresh [OF _ anchor])
        (auto simp: book_session_def load_agreement_def new_session_def put_session_def index_session_def
          outcome_iff Let_def not_le)
  qed
qed

lemma session_confirm_Ok:
  assumes "confirm_session env c sid s = Ok (r, t)"
  obtains (replay) "t = s"
    | (confirmed) x m e where "SessionAt s sid = Some x" "attends c x" "auth env c" "status x = Booked"
      "c = mentor x \<and> mentor_confirmed_at x = 0 \<and> m = timestamp env \<and> e = mentee_confirmed_at x \<or>
       c \<noteq> mentor x \<and> mentee_confirmed_at x = 0 \<and> m = mentor_confirmed_at x \<and> e = timestamp env"
      "r = (m \<noteq> 0 \<and> e \<noteq> 0)"
      "t = s\<lparr>SessionAt := (SessionAt s)(session_id x \<mapsto> x\<lparr>mentor_confirmed_at := m, mentee_confirmed_at := e,
             status := (if m \<noteq> 0 \<and> e \<noteq> 0 then Confirmed else Booked)\<rparr>)\<rparr>"
proof -
  from assms obtain x where x: "SessionAt s sid = Some x" "attends c x" "auth env c"
    by (auto simp: confirm_session_def load_session_def outcome_iff attends_def)
  have same_status: "z\<lparr>status := Booked\<rparr> = z" if "status z = Booked" for z :: Session
    using that by (cases z) simp
  note defs = confirm_session_def load_session_def put_session_def same_status
  show thesis
  proof (cases "status x = Confirmed \<or> c = mentor x \<and> mentor_confirmed_at x \<noteq> 0 \<or>
      c \<noteq> mentor x \<and> mentee_confirmed_at x \<noteq> 0")
    case True
    then have "t = s" using assms x by (auto simp: defs outcome_iff Let_def split: if_splits)
    then show thesis by (rule replay)
  next
    case False
    then have st: "status x = Booked" by (cases "status x") auto
    show thesis
    proof (cases "c = mentor x")
      case True
      with False assms x st show thesis
        by (intro confirmed [OF x st, of "timestamp env" "mentee_confirmed_at x"])
          (auto simp: defs outcome_iff Let_def split: if_splits)
    next
      case mentee: False
      with False assms x st show thesis
        by (intro confirmed [OF x st, of "mentor_confirmed_at x" "timestamp env"])
          (auto simp: defs attends_def outcome_iff Let_def split: if_splits)
    qed
  qed
qed

text \<open>The session after an approved move, and the trace entry the move leaves.\<close>

definition move_entry :: "env \<Rightarrow> RescheduleProposal \<Rightarrow> hash32 \<Rightarrow> Session \<Rightarrow> ScheduleChange" where
  "move_entry env p pid x =
     \<lparr>change_proposal = pid, previous_start_utc = start_utc x,
      previous_duration_minutes = duration_minutes x,
      previous_local_offset_minutes = local_offset_minutes x,
      changed_start_utc = new_start_utc p, changed_duration_minutes = new_duration_minutes p,
      changed_local_offset_minutes = new_local_offset_minutes p, changed_at = timestamp env\<rparr>"

definition moved :: "env \<Rightarrow> RescheduleProposal \<Rightarrow> hash32 \<Rightarrow> Session \<Rightarrow> Session" where
  "moved env p pid x = x\<lparr>reschedule_history := reschedule_history x @ [move_entry env p pid x],
     start_utc := new_start_utc p, duration_minutes := new_duration_minutes p,
     local_offset_minutes := new_local_offset_minutes p, revision := u32_saturating_add (revision x) 1,
     status := Booked, mentor_confirmed_at := 0, mentee_confirmed_at := 0\<rparr>"

lemma session_approve_Ok:
  assumes "approve_reschedule env c pid s = Ok (r, t)"
  obtains (replay) p where "Reschedule s pid = Some p" "SessionAt s (proposal_session p) = Some r"
      "proposal_status p = Applied" "t = s"
    | (applied) p x where "Reschedule s pid = Some p" "SessionAt s (proposal_session p) = Some x"
      "attends c x" "c \<noteq> proposed_by p" "auth env c" "proposal_status p = Proposed"
      "timestamp env \<le> expires_at p" "revision x = session_revision p"
      "length (reschedule_history x) < MAX_RESCHEDULES_PER_SESSION"
      "fits_u64 (new_start_utc p + new_duration_minutes p * 60)"
      "\<And>q. attends q x \<Longrightarrow> \<not> conflicts_with s q (new_start_utc p)
         (new_start_utc p + new_duration_minutes p * 60) (Some (session_id x))"
      "r = moved env p pid x"
      "t = s\<lparr>SessionAt := (SessionAt s)(session_id x \<mapsto> moved env p pid x),
             Reschedule := (Reschedule s)(proposal_id p \<mapsto> p\<lparr>proposal_status := Applied,
               responded_by := Some c, responded_at := timestamp env, applied_at := timestamp env\<rparr>),
             OpenReschedule := (OpenReschedule s)(session_id x := None)\<rparr>"
proof -
  from assms obtain p x where p: "Reschedule s pid = Some p" "SessionAt s (proposal_session p) = Some x"
    "attends c x" "c \<noteq> proposed_by p" "auth env c"
    by (auto simp: approve_reschedule_def load_session_def load_reschedule_def attends_def outcome_iff)
  note defs = approve_reschedule_def load_session_def load_reschedule_def put_session_def put_reschedule_def
    attends_def moved_def move_entry_def
  show thesis
  proof (cases "proposal_status p = Applied")
    case True
    with assms p have "t = s" "r = x" by (auto simp: defs outcome_iff)
    with p True show thesis by (intro replay) simp_all
  next
    case False
    with assms p show thesis
      by (intro applied [OF p]) (auto simp: defs outcome_iff Let_def not_le not_less)
  qed
qed

lemma session_decline_Ok:
  assumes "decline_reschedule env c pid s = Ok t"
  obtains (replay) p where "Reschedule s pid = Some p" "proposal_status p = Declined" "t = s"
    | (declined) p x where "Reschedule s pid = Some p" "SessionAt s (proposal_session p) = Some x"
      "attends c x" "c \<noteq> proposed_by p" "auth env c" "proposal_status p = Proposed"
      "t = s\<lparr>Reschedule := (Reschedule s)(proposal_id p \<mapsto> p\<lparr>proposal_status := Declined,
               responded_by := Some c, responded_at := timestamp env\<rparr>),
             OpenReschedule := (OpenReschedule s)(session_id x := None)\<rparr>"
proof -
  from assms obtain p x where p: "Reschedule s pid = Some p" "SessionAt s (proposal_session p) = Some x"
    "attends c x" "c \<noteq> proposed_by p" "auth env c"
    by (auto simp: decline_reschedule_def load_session_def load_reschedule_def attends_def outcome_iff)
  note defs = decline_reschedule_def load_session_def load_reschedule_def put_reschedule_def attends_def
  show thesis
  proof (cases "proposal_status p = Declined")
    case True
    with assms p have "t = s" by (auto simp: defs outcome_iff)
    with p True show thesis by (intro replay) simp_all
  next
    case False
    with assms p show thesis
      by (intro declined [OF p]) (auto simp: defs outcome_iff Let_def)
  qed
qed

text \<open>
  Opening a proposal first drops the session's previous proposal, which must be closed or expired.
\<close>

definition dropped :: "env \<Rightarrow> hash32 \<Rightarrow> sched_state \<Rightarrow> sched_state \<Rightarrow> bool" where
  "dropped env sid s u \<longleftrightarrow> OpenReschedule s sid = None \<and> u = s \<or>
     (\<exists>oid q. OpenReschedule s sid = Some oid \<and> Reschedule s oid = Some q \<and>
        (proposal_status q = Proposed \<longrightarrow> expires_at q < timestamp env) \<and>
        u = s\<lparr>OpenReschedule := (OpenReschedule s)(sid := None), Reschedule := (Reschedule s)(oid := None)\<rparr>)"

lemma propose_Ok:
  assumes "propose_reschedule env c sid pid rs rh a off d s = Ok (r, t)"
  obtains (replay) "Reschedule s pid = Some r" "proposal_session r = sid" "proposed_by r = c"
      "new_start_utc r = a" "new_local_offset_minutes r = off" "new_duration_minutes r = d" "t = s"
    | (opened) x u where "SessionAt s sid = Some x" "attends c x" "auth env c" "Reschedule s pid = None"
      "length (reschedule_history x) < MAX_RESCHEDULES_PER_SESSION"
      "\<exists>n. RescheduleNotice s = Some n \<and> timestamp env + n \<le> start_utc x"
      "validate_slot env s a off d = Ok ()"
      "a \<noteq> start_utc x \<or> d \<noteq> duration_minutes x \<or> off \<noteq> local_offset_minutes x"
      "dropped env sid s u" "fits_u64 (a + d * 60)"
      "proposal_id r = pid" "proposal_session r = sid" "proposed_by r = c" "new_start_utc r = a"
      "new_local_offset_minutes r = off" "new_duration_minutes r = d" "created_at r = timestamp env"
      "expires_at r \<le> start_utc x" "session_revision r = revision x" "proposal_status r = Proposed"
      "impact r = payment_impact (duration_minutes x) d" "responded_by r = None"
      "t = u\<lparr>Reschedule := (Reschedule u)(pid \<mapsto> r), OpenReschedule := (OpenReschedule u)(sid \<mapsto> pid)\<rparr>"
proof (cases "Reschedule s pid")
  case (Some e)
  with assms show thesis
    by (intro replay) (auto simp: propose_reschedule_def outcome_iff Let_def)
next
  case None
  from assms obtain x where x: "SessionAt s sid = Some x" "attends c x" "auth env c"
    by (auto simp: propose_reschedule_def load_session_def attends_def outcome_iff)
  with assms None obtain n w u where
    guards: "length (reschedule_history x) < MAX_RESCHEDULES_PER_SESSION" "RescheduleNotice s = Some n"
      "timestamp env + n \<le> start_utc x" "validate_slot env s a off d = Ok ()"
      "a \<noteq> start_utc x \<or> d \<noteq> duration_minutes x \<or> off \<noteq> local_offset_minutes x"
      "fits_u64 (a + d * 60)"
    and u: "(case OpenReschedule s sid of None \<Rightarrow> Ok s
        | Some oid \<Rightarrow> and_then (load_reschedule s oid) (\<lambda>q.
            if proposal_status q = Proposed \<and> timestamp env \<le> expires_at q then Err RescheduleAlreadyPending
            else Ok (s\<lparr>OpenReschedule := (OpenReschedule s)(sid := None),
                       Reschedule := (Reschedule s)(oid := None)\<rparr>))) = Ok u"
    and r: "r = \<lparr>proposal_id = pid, proposal_session = sid, proposed_by = c, reason = rs,
        reason_hash = rh, new_start_utc = a, new_local_offset_minutes = off, new_duration_minutes = d,
        impact = payment_impact (duration_minutes x) d, created_at = timestamp env,
        expires_at = (if timestamp env + w > start_utc x then start_utc x else timestamp env + w),
        session_revision = revision x, proposal_status = Proposed, responded_by = None,
        responded_at = 0, applied_at = 0\<rparr>"
    and t: "t = u\<lparr>Reschedule := (Reschedule u)(pid \<mapsto> r), OpenReschedule := (OpenReschedule u)(sid \<mapsto> pid)\<rparr>"
    by (auto simp: propose_reschedule_def load_session_def put_reschedule_def outcome_iff Let_def not_le not_less)
  from u have "dropped env sid s u"
    by (cases "OpenReschedule s sid")
      (auto simp: dropped_def load_reschedule_def outcome_iff not_le)
  then show thesis
    using guards r t by (intro opened [OF x None]) simp_all
qed

section \<open>The invariant\<close>

text \<open>Slots as values, and a trace of changes that leads from one slot to another.\<close>

type_synonym slot = "nat \<times> nat \<times> int"

definition slot_of :: "Session \<Rightarrow> slot" where
  "slot_of x = (start_utc x, duration_minutes x, local_offset_minutes x)"

definition slot_before :: "ScheduleChange \<Rightarrow> slot" where
  "slot_before c = (previous_start_utc c, previous_duration_minutes c, previous_local_offset_minutes c)"

definition slot_after :: "ScheduleChange \<Rightarrow> slot" where
  "slot_after c = (changed_start_utc c, changed_duration_minutes c, changed_local_offset_minutes c)"

fun linked :: "slot \<Rightarrow> ScheduleChange list \<Rightarrow> slot \<Rightarrow> bool" where
  "linked a [] b \<longleftrightarrow> a = b"
| "linked a (c # cs) b \<longleftrightarrow> slot_before c = a \<and> linked (slot_after c) cs b"

lemma linked_snoc: "linked a cs b \<Longrightarrow> slot_before c = b \<Longrightarrow> linked a (cs @ [c]) (slot_after c)"
  by (induction a cs b rule: linked.induct) auto

text \<open>The slot a session was booked for.\<close>

definition booked_slot :: "Session \<Rightarrow> slot" where
  "booked_slot x = (case reschedule_history x of [] \<Rightarrow> slot_of x | c # _ \<Rightarrow> slot_before c)"

definition slot_ok :: "nat \<Rightarrow> nat \<Rightarrow> int \<Rightarrow> bool" where
  "slot_ok a d off \<longleftrightarrow> MIN_DURATION_MINUTES \<le> d \<and> d \<le> MAX_DURATION_MINUTES \<and>
     MIN_OFFSET_MINUTES \<le> off \<and> off \<le> MAX_OFFSET_MINUTES \<and> fits_u64 (a + d * 60)"

definition session_ok :: "hash32 \<Rightarrow> Session \<Rightarrow> bool" where
  "session_ok k x \<longleftrightarrow> session_id x = k \<and> mentor x \<noteq> mentee x \<and>
     slot_ok (start_utc x) (duration_minutes x) (local_offset_minutes x) \<and>
     (status x = Confirmed \<longleftrightarrow> mentor_confirmed_at x \<noteq> 0 \<and> mentee_confirmed_at x \<noteq> 0) \<and>
     revision x = length (reschedule_history x) \<and>
     length (reschedule_history x) \<le> MAX_RESCHEDULES_PER_SESSION \<and>
     linked (booked_slot x) (reschedule_history x) (slot_of x)"

definition calendar_wf :: "sched_state \<Rightarrow> bool" where
  "calendar_wf s \<longleftrightarrow> indexed s \<and> disjoint_calendar (SessionAt s) \<and>
     (\<forall>k x. SessionAt s k = Some x \<longrightarrow> session_ok k x) \<and>
     (\<forall>p. distinct (load_participant_sessions s p) \<and>
          length (load_participant_sessions s p) \<le> MAX_SESSIONS_PER_PARTICIPANT) \<and>
     (\<forall>k a. Agreement s k = Some a \<longrightarrow> anchor_mentor a \<noteq> anchor_mentee a) \<and>
     (\<forall>k i. BookingIdem s k = Some i \<longrightarrow>
        (\<exists>x. SessionAt s i = Some x \<and> agreement_id x = key_agreement k \<and> attends (key_caller k) x)) \<and>
     (\<forall>k p. Reschedule s k = Some p \<longrightarrow> proposal_id p = k \<and>
        slot_ok (new_start_utc p) (new_duration_minutes p) (new_local_offset_minutes p))"

lemma calendar_init_wf: "calendar_wf sched_init"
  by (simp add: calendar_wf_def sched_init_def indexed_def disjoint_calendar_def load_participant_sessions_def)

lemma calendar_wfD:
  assumes "calendar_wf s"
  shows "indexed s" "disjoint_calendar (SessionAt s)"
    "SessionAt s k = Some x \<Longrightarrow> session_ok k x"
    "distinct (load_participant_sessions s p)"
    "length (load_participant_sessions s p) \<le> MAX_SESSIONS_PER_PARTICIPANT"
    "Agreement s aid = Some a \<Longrightarrow> anchor_mentor a \<noteq> anchor_mentee a"
    "BookingIdem s ik = Some k \<Longrightarrow>
       \<exists>x. SessionAt s k = Some x \<and> agreement_id x = key_agreement ik \<and> attends (key_caller ik) x"
    "Reschedule s pid = Some q \<Longrightarrow> proposal_id q = pid"
    "Reschedule s pid = Some q \<Longrightarrow> slot_ok (new_start_utc q) (new_duration_minutes q) (new_local_offset_minutes q)"
  using assms by (simp_all add: calendar_wf_def)

text \<open>A state with the same calendar; agreements and proposals may differ.\<close>

lemma same_calendar_wf:
  assumes "calendar_wf s" "SessionAt t = SessionAt s" "ParticipantSessions t = ParticipantSessions s"
    "BookingIdem t = BookingIdem s"
    "\<And>k a. Agreement t k = Some a \<Longrightarrow> anchor_mentor a \<noteq> anchor_mentee a"
    "\<And>k p. Reschedule t k = Some p \<Longrightarrow> proposal_id p = k \<and>
        slot_ok (new_start_utc p) (new_duration_minutes p) (new_local_offset_minutes p)"
  shows "calendar_wf t"
  using assms by (simp add: calendar_wf_def indexed_def load_participant_sessions_def)

text \<open>One session is replaced by another of the same participants.\<close>

lemma session_write_wf:
  assumes wf: "calendar_wf s" and x: "SessionAt s k = Some x"
    and y: "session_ok k y" "mentor y = mentor x" "mentee y = mentee x" "agreement_id y = agreement_id x"
    and disj: "disjoint_calendar ((SessionAt s)(k \<mapsto> y))"
    and t: "SessionAt t = (SessionAt s)(k \<mapsto> y)" "ParticipantSessions t = ParticipantSessions s"
      "BookingIdem t = BookingIdem s" "Agreement t = Agreement s"
    and props: "\<And>k p. Reschedule t k = Some p \<Longrightarrow> proposal_id p = k \<and>
        slot_ok (new_start_utc p) (new_duration_minutes p) (new_local_offset_minutes p)"
  shows "calendar_wf t"
proof -
  have att: "attends p y \<longleftrightarrow> attends p x" for p using y by (simp add: attends_def)
  have lps: "load_participant_sessions t p = load_participant_sessions s p" for p
    by (simp add: load_participant_sessions_def t)
  have "fits_u64 (slot_end y)" using y(1) by (simp add: session_ok_def slot_ok_def slot_end_def)
  then have "indexed t"
    using calendar_wfD(1) [OF wf] x unfolding indexed_def lps t by (auto simp: att)
  moreover have "session_ok j z" if "SessionAt t j = Some z" for j z
    using that y(1) calendar_wfD(3) [OF wf] by (auto simp: t split: if_splits)
  moreover have "\<exists>z. SessionAt t i = Some z \<and> agreement_id z = key_agreement ik \<and> attends (key_caller ik) z"
    if "BookingIdem t ik = Some i" for ik i
    using calendar_wfD(7) [OF wf, of ik i] that x y(4) by (auto simp: t att)
  ultimately show ?thesis
    using calendar_wfD [OF wf] disj props unfolding calendar_wf_def by (simp add: t lps)
qed

lemma disjoint_same_slot:
  assumes "disjoint_calendar m" "m k = Some x" "start_utc y = start_utc x" "slot_end y = slot_end x"
    "mentor y = mentor x" "mentee y = mentee x"
  shows "disjoint_calendar (m(k \<mapsto> y))"
  unfolding disjoint_calendar_def
proof (intro allI impI)
  fix i j u v p
  assume *: "(m(k \<mapsto> y)) i = Some u" "(m(k \<mapsto> y)) j = Some v" "i \<noteq> j" "attends p u" "attends p v"
  define prior where "prior i u = (if i = k then x else u)" for i u
  have "m i = Some (prior i u)" "m j = Some (prior j v)"
    using *(1,2) assms(2) by (auto simp: prior_def)
  moreover have "attends p (prior i u)" "attends p (prior j v)"
    using * assms(5,6) by (auto simp: prior_def attends_def split: if_splits)
  ultimately have "\<not> clash (prior i u) (prior j v)"
    using assms(1) *(3) unfolding disjoint_calendar_def by blast
  then show "\<not> clash u v"
    using *(1,2) assms(3,4) by (auto simp: prior_def clash_def split: if_splits)
qed

lemma confirm_wf:
  assumes "confirm_session env c sid s = Ok (r, t)" "calendar_wf s"
  shows "calendar_wf t"
  using assms(1)
proof (cases rule: session_confirm_Ok)
  case (confirmed x m e)
  let ?y = "x\<lparr>mentor_confirmed_at := m, mentee_confirmed_at := e,
      status := (if m \<noteq> 0 \<and> e \<noteq> 0 then Confirmed else Booked)\<rparr>"
  have ok: "session_ok sid x" by (rule calendar_wfD(3) [OF assms(2) confirmed(1)])
  have "disjoint_calendar ((SessionAt s)(sid \<mapsto> ?y))"
    using calendar_wfD(2) [OF assms(2)] confirmed(1)
    by (rule disjoint_same_slot) (simp_all add: slot_end_def)
  moreover have "session_ok sid ?y"
    using ok by (simp add: session_ok_def booked_slot_def slot_of_def split: list.splits)
  ultimately show ?thesis
    using confirmed(7) ok calendar_wfD [OF assms(2)]
    by (intro session_write_wf [OF assms(2) confirmed(1)]) (simp_all add: session_ok_def)
qed (simp add: assms)

lemma moved_ok:
  assumes "session_ok k x" "length (reschedule_history x) < MAX_RESCHEDULES_PER_SESSION"
    "slot_ok (new_start_utc p) (new_duration_minutes p) (new_local_offset_minutes p)"
  shows "session_ok k (moved env p pid x)"
proof -
  let ?c = "move_entry env p pid x"
  have "slot_before ?c = slot_of x" "slot_after ?c = slot_of (moved env p pid x)"
    by (simp_all add: slot_before_def slot_after_def move_entry_def slot_of_def moved_def)
  then have "linked (booked_slot x) (reschedule_history x @ [?c]) (slot_of (moved env p pid x))"
    using assms(1) linked_snoc [of "booked_slot x" "reschedule_history x" "slot_of x" ?c] by (simp add: session_ok_def)
  moreover have "booked_slot (moved env p pid x) = booked_slot x"
    using \<open>slot_before ?c = slot_of x\<close>
    by (cases "reschedule_history x") (simp_all add: booked_slot_def moved_def)
  ultimately show ?thesis
    using assms by (simp add: session_ok_def moved_def u32_saturating_add_def schedule_consts)
qed

lemma session_approve_wf:
  assumes "approve_reschedule env c pid s = Ok (r, t)" "calendar_wf s"
  shows "calendar_wf t"
  using assms(1)
proof (cases rule: session_approve_Ok)
  case (applied p x)
  let ?k = "proposal_session p" and ?y = "moved env p pid x"
  have ok: "session_ok ?k x" by (rule calendar_wfD(3) [OF assms(2) applied(2)])
  then have k: "session_id x = ?k" by (simp add: session_ok_def)
  have new: "session_ok ?k ?y"
    using ok applied(9) calendar_wfD(9) [OF assms(2) applied(1)] by (rule moved_ok)
  have "disjoint_calendar ((SessionAt s)(?k \<mapsto> ?y))"
  proof (rule move.write_disjoint [OF calendar_wfD(1,2) [OF assms(2)]])
    fix q assume "attends q ?y"
    then have "attends q x" by (simp add: attends_def moved_def)
    with applied(11) show "\<not> conflicts_with s q (start_utc ?y) (slot_end ?y) (Some ?k)"
      by (simp add: moved_def slot_end_def k)
  qed simp
  moreover have "mentor ?y = mentor x" "mentee ?y = mentee x" "agreement_id ?y = agreement_id x"
    by (simp_all add: moved_def)
  ultimately show ?thesis
    using applied(1,13) new k calendar_wfD(8,9) [OF assms(2)]
    by (intro session_write_wf [OF assms(2) applied(2)]) (auto split: if_splits)
qed (simp add: assms)

lemma book_wf:
  assumes "book_session env c aid sid ik a off d md loc ag s = Ok (r, t)" "calendar_wf s"
  shows "calendar_wf t"
  using assms(1)
proof (cases rule: book_Ok)
  case (fresh an)
  let ?x = "new_session env an aid sid a off d md loc ag"
  let ?m = "anchor_mentor an" and ?e = "anchor_mentee an"
  note wf = calendar_wfD [OF assms(2)]
  have diff: "?m \<noteq> ?e" by (rule wf(6) [OF fresh(2)])
  have x: "attends p ?x \<longleftrightarrow> p = ?m \<or> p = ?e" "start_utc ?x = a" "slot_end ?x = a + d * 60" for p
    by (simp_all add: new_session_def attends_def slot_end_def)
  have ok: "session_ok sid ?x"
    using fresh(7,11) diff
    by (simp add: session_ok_def new_session_def slot_ok_def booked_slot_def slot_of_def outcome_iff)
  have old: "sid \<notin> set (load_participant_sessions s p)" for p
    using wf(1) fresh(8) by (auto simp: indexed_def)
  have lps: "load_participant_sessions t p = load_participant_sessions s p @ (if attends p ?x then [sid] else [])" for p
    using diff by (auto simp: fresh(14) load_participant_sessions_def x)
  have "disjoint_calendar (SessionAt t)"
  proof -
    have "disjoint_calendar ((SessionAt s)(sid \<mapsto> ?x))"
      by (rule book.write_disjoint [OF wf(1,2)]) (use fresh(12,13) in \<open>auto simp: x\<close>)
    then show ?thesis by (simp add: fresh(14))
  qed
  moreover have "indexed t"
  proof -
    have "fits_u64 (slot_end ?x)" using fresh(11) by (simp add: x)
    moreover have "i \<in> set (load_participant_sessions t p) \<longleftrightarrow> (\<exists>z. SessionAt t i = Some z \<and> attends p z)" for i p
      using wf(1) fresh(8) unfolding indexed_def lps by (auto simp: fresh(14))
    ultimately show ?thesis
      using wf(1) unfolding indexed_def by (auto simp: fresh(14) split: if_splits)
  qed
  moreover have "session_ok k z" if "SessionAt t k = Some z" for k z
    using that ok wf(3) by (auto simp: fresh(14) split: if_splits)
  moreover have "\<exists>z. SessionAt t i = Some z \<and> agreement_id z = key_agreement k \<and> attends (key_caller k) z"
    if "BookingIdem t k = Some i" for k i
    using that fresh(4,8) wf(7) [of k i] by (auto simp: fresh(14) attends_def new_session_def split: if_splits)
  moreover have "distinct (load_participant_sessions t p) \<and>
      length (load_participant_sessions t p) \<le> MAX_SESSIONS_PER_PARTICIPANT" for p
    using wf(4,5) [of p] old [of p] fresh(9,10) by (auto simp: lps x)
  ultimately show ?thesis
    using wf(6,8,9) by (simp add: calendar_wf_def fresh(14))
qed (simp add: assms)

lemma propose_wf:
  assumes "propose_reschedule env c sid pid rs rh a off d s = Ok (r, t)" "calendar_wf s"
  shows "calendar_wf t"
  using assms(1)
proof (cases rule: propose_Ok)
  case (opened x u)
  have "slot_ok (new_start_utc r) (new_duration_minutes r) (new_local_offset_minutes r)"
    using opened(7,10,14-16) by (simp add: slot_ok_def outcome_iff)
  with opened(9,11,23) calendar_wfD [OF assms(2)] show ?thesis
    by (intro same_calendar_wf [OF assms(2)]) (auto simp: dropped_def split: if_splits)
qed (simp add: assms)

lemma decline_wf:
  assumes "decline_reschedule env c pid s = Ok t" "calendar_wf s"
  shows "calendar_wf t"
  using assms(1)
proof (cases rule: session_decline_Ok)
  case (declined p x)
  with calendar_wfD [OF assms(2)] show ?thesis
    by (intro same_calendar_wf [OF assms(2)]) (auto split: if_splits)
qed (simp add: assms)

text \<open>The administrative calls leave sessions, indices and proposals alone.\<close>

definition admin_effect :: "sched_state \<Rightarrow> sched_state \<Rightarrow> bool" where
  "admin_effect s t \<longleftrightarrow> SessionAt t = SessionAt s \<and> ParticipantSessions t = ParticipantSessions s \<and>
     BookingIdem t = BookingIdem s \<and> Reschedule t = Reschedule s \<and> OpenReschedule t = OpenReschedule s \<and>
     (\<forall>k a. Agreement t k = Some a \<longrightarrow> anchor_mentor a \<noteq> anchor_mentee a \<or>
        (\<exists>b. Agreement s k = Some b \<and> anchor_mentor a = anchor_mentor b \<and> anchor_mentee a = anchor_mentee b))"

lemma admin_effects:
  "initialize env c n s = Ok t \<Longrightarrow> admin_effect s t"
  "set_registrar env c n' s = Ok t \<Longrightarrow> admin_effect s t"
  "set_min_lead_time env c n s = Ok t \<Longrightarrow> admin_effect s t"
  "set_reschedule_policy env c n w s = Ok t \<Longrightarrow> admin_effect s t"
  "register_agreement env c aid m e s = Ok t \<Longrightarrow> admin_effect s t"
  "set_agreement_active env c aid b s = Ok t \<Longrightarrow> admin_effect s t"
  by (auto simp: initialize_def set_registrar_def set_min_lead_time_def set_reschedule_policy_def
      register_agreement_def set_agreement_active_def admin_effect_def outcome_iff Let_def split: if_splits)

lemma session_admin_wf:
  assumes "admin_effect s t" "calendar_wf s"
  shows "calendar_wf t"
proof (rule same_calendar_wf [OF assms(2)])
  fix k a assume "Agreement t k = Some a"
  with assms(1) consider "anchor_mentor a \<noteq> anchor_mentee a"
    | b where "Agreement s k = Some b" "anchor_mentor a = anchor_mentor b" "anchor_mentee a = anchor_mentee b"
    unfolding admin_effect_def by blast
  then show "anchor_mentor a \<noteq> anchor_mentee a"
    by cases (use calendar_wfD(6) [OF assms(2)] in auto)
qed (use assms in \<open>simp_all add: admin_effect_def calendar_wfD\<close>)

lemma sched_exec_wf: "sched_exec env c s = Ok t \<Longrightarrow> calendar_wf s \<Longrightarrow> calendar_wf t"
  by (cases c)
    (auto simp: state_of_Ok intro: book_wf confirm_wf propose_wf session_approve_wf decline_wf
      dest!: admin_effects intro: session_admin_wf)

section \<open>What may still change\<close>

text \<open>
  A session keeps its parties and its commitments; its trace only grows, and while it does not grow the
  slot stays and a confirmation is not lost.
\<close>

definition session_evolves :: "Session \<Rightarrow> Session \<Rightarrow> bool" where
  "session_evolves x y \<longleftrightarrow> session_id y = session_id x \<and> agreement_id y = agreement_id x \<and>
     mentor y = mentor x \<and> mentee y = mentee x \<and> mode y = mode x \<and> location_ref y = location_ref x \<and>
     agenda_hash y = agenda_hash x \<and> booked_at y = booked_at x \<and> booked_slot y = booked_slot x \<and>
     prefix (reschedule_history x) (reschedule_history y) \<and>
     (reschedule_history y = reschedule_history x \<longrightarrow> slot_of y = slot_of x \<and>
        (status x = Confirmed \<longrightarrow> status y = Confirmed))"

lemma session_evolves_refl [simp]: "session_evolves x x"
  by (simp add: session_evolves_def)

lemma session_evolves_trans:
  assumes "session_evolves x y" "session_evolves y z"
  shows "session_evolves x z"
proof -
  have "prefix (reschedule_history x) (reschedule_history z)"
    using assms by (auto simp: session_evolves_def intro: prefix_order.trans)
  moreover have "reschedule_history y = reschedule_history x" if "reschedule_history z = reschedule_history x"
    using assms that by (auto simp: session_evolves_def intro: prefix_order.antisym)
  ultimately show ?thesis using assms by (simp add: session_evolves_def)
qed

definition calendar_evolves :: "sched_state \<Rightarrow> sched_state \<Rightarrow> bool" where
  "calendar_evolves s t \<longleftrightarrow>
     (\<forall>k x. SessionAt s k = Some x \<longrightarrow> (\<exists>y. SessionAt t k = Some y \<and> session_evolves x y)) \<and>
     (\<forall>p. prefix (load_participant_sessions s p) (load_participant_sessions t p)) \<and>
     BookingIdem s \<subseteq>\<^sub>m BookingIdem t"

lemma calendar_evolves_refl [simp]: "calendar_evolves s s"
  by (simp add: calendar_evolves_def)

lemma calendar_evolves_trans: "calendar_evolves s t \<Longrightarrow> calendar_evolves t u \<Longrightarrow> calendar_evolves s u"
  unfolding calendar_evolves_def
  by (meson map_le_trans prefix_order.trans session_evolves_trans)

text \<open>A call writes at most one session, and only \<open>book_session\<close> touches the indices.\<close>

lemma write_evolves:
  assumes "SessionAt s k = Some x" "session_evolves x y" "SessionAt t = (SessionAt s)(k \<mapsto> y)"
    "ParticipantSessions t = ParticipantSessions s" "BookingIdem t = BookingIdem s"
  shows "calendar_evolves s t"
  using assms by (auto simp: calendar_evolves_def load_participant_sessions_def)

lemma same_calendar_evolves:
  "SessionAt t = SessionAt s \<Longrightarrow> ParticipantSessions t = ParticipantSessions s \<Longrightarrow>
     BookingIdem t = BookingIdem s \<Longrightarrow> calendar_evolves s t"
  by (simp add: calendar_evolves_def load_participant_sessions_def)

lemma moved_evolves: "session_evolves x (moved env p pid x)"
  by (cases "reschedule_history x")
    (simp_all add: session_evolves_def moved_def booked_slot_def slot_of_def slot_before_def move_entry_def)

lemma session_key: "calendar_wf s \<Longrightarrow> SessionAt s k = Some x \<Longrightarrow> session_id x = k"
  using calendar_wfD(3) [of s k x] by (simp add: session_ok_def)

lemma book_evolves:
  assumes "book_session env a aid k ik st off d md loc ag s = Ok (r, t)"
  shows "calendar_evolves s t"
  using assms
proof (cases rule: book_Ok)
  case (fresh an)
  then show ?thesis
    by (auto simp: calendar_evolves_def load_participant_sessions_def map_le_def)
qed simp

lemma confirm_evolves:
  assumes "confirm_session env a k s = Ok (r, t)" "calendar_wf s"
  shows "calendar_evolves s t"
  using assms(1)
proof (cases rule: session_confirm_Ok)
  case (confirmed x m e)
  show ?thesis
    by (rule write_evolves [OF confirmed(1)])
      (use confirmed session_key [OF assms(2)] in
        \<open>auto simp: session_evolves_def booked_slot_def slot_of_def split: list.splits\<close>)
qed simp

lemma approve_evolves:
  assumes "approve_reschedule env a pid s = Ok (r, t)" "calendar_wf s"
  shows "calendar_evolves s t"
  using assms(1)
proof (cases rule: session_approve_Ok)
  case (applied p x)
  show ?thesis
    by (rule write_evolves [OF applied(2) moved_evolves])
      (simp_all add: applied(13) session_key [OF assms(2) applied(2)])
qed simp

lemma same_evolves:
  "propose_reschedule env a k pid rs rh st off d s = Ok (r, t) \<Longrightarrow> calendar_evolves s t"
  "decline_reschedule env a pid s = Ok t \<Longrightarrow> calendar_evolves s t"
  "admin_effect s t \<Longrightarrow> calendar_evolves s t"
  by (auto simp: dropped_def admin_effect_def elim!: propose_Ok session_decline_Ok intro!: same_calendar_evolves)

lemma sched_exec_evolves: "sched_exec env c s = Ok t \<Longrightarrow> calendar_wf s \<Longrightarrow> calendar_evolves s t"
  by (cases c)
    (auto simp: state_of_Ok intro: book_evolves confirm_evolves approve_evolves same_evolves dest!: admin_effects)

interpretation calendar: evolving sched_step calendar_wf calendar_evolves
  by unfold_locales
    (auto intro: sched_exec_wf sched_exec_evolves calendar_evolves_trans elim!: sched_stepE)

lemmas sched_run_wf = calendar.run [OF _ calendar_init_wf]

section \<open>Properties\<close>

text \<open>
  A run used by the witnesses: admin 1 registers agreement \<open>[1]\<close> between mentor 2 and mentee 3, the mentor
  books two sessions back to back, and the mentee proposes to move the first one to an earlier time.
\<close>

abbreviation at_time :: "nat \<Rightarrow> env" where
  "at_time n \<equiv> \<lparr>timestamp = n, ledger_sequence = 7, self = 99, auth = (\<lambda>_. True)\<rparr>"

definition demo_anchor :: AgreementAnchor where
  "demo_anchor = \<lparr>anchor_id = [1], anchor_mentor = 2, anchor_mentee = 3, active = True, registered_at = 5\<rparr>"

definition demo_ready :: sched_state where
  "demo_ready = sched_init\<lparr>Admin := Some 1, Registrar := Some 1, MinLeadTime := Some 0,
     Agreement := [[1] \<mapsto> demo_anchor], RescheduleNotice := Some 86400, ApprovalWindow := Some 259200\<rparr>"

definition demo_session :: Session where
  "demo_session = new_session (at_time 10) demo_anchor [1] [5] 1000000 0 60 Video [7] [8]"

definition demo_session' :: Session where
  "demo_session' = new_session (at_time 11) demo_anchor [1] [6] 1003600 0 60 Video [7] [8]"

definition demo_one :: sched_state where
  "demo_one = demo_ready\<lparr>SessionAt := [[5] \<mapsto> demo_session], ParticipantSessions := [2 \<mapsto> [[5]], 3 \<mapsto> [[5]]],
     BookingIdem := [\<lparr>key_agreement = [1], key_caller = 2, idempotency_key = [9]\<rparr> \<mapsto> [5]]\<rparr>"

definition demo_two :: sched_state where
  "demo_two = demo_one\<lparr>SessionAt := [[5] \<mapsto> demo_session, [6] \<mapsto> demo_session'],
     ParticipantSessions := [2 \<mapsto> [[5], [6]], 3 \<mapsto> [[5], [6]]],
     BookingIdem := [\<lparr>key_agreement = [1], key_caller = 2, idempotency_key = [9]\<rparr> \<mapsto> [5],
       \<lparr>key_agreement = [1], key_caller = 2, idempotency_key = [10]\<rparr> \<mapsto> [6]]\<rparr>"

lemmas sched_demo_defs = demo_anchor_def demo_ready_def demo_session_def demo_session'_def demo_one_def
  demo_two_def sched_init_def new_session_def

lemmas sched_ops = initialize_def register_agreement_def require_registrar_def validate_lead_time_def
  book_session_def load_agreement_def load_participant_sessions_def load_session_def validate_slot_def
  put_session_def index_session_def session_end_def u64_checked_def range_defs schedule_consts

lemma demo_ready_run:
  "run_calls sched_exec [(at_time 1, Initialize 1 0), (at_time 5, RegisterAgreement 1 [1] 2 3)] sched_init =
     Ok demo_ready"
  by (simp add: sched_demo_defs sched_ops)

lemma demo_first_booking:
  "sched_exec (at_time 10) (BookSession 2 [1] [5] [9] 1000000 0 60 Video [7] [8]) demo_ready = Ok demo_one"
  by (simp add: sched_demo_defs sched_ops state_of_def Let_def)

lemma demo_second_booking:
  "sched_exec (at_time 11) (BookSession 2 [1] [6] [10] 1003600 0 60 Video [7] [8]) demo_one = Ok demo_two"
  by (simp add: sched_demo_defs sched_ops state_of_def Let_def)

lemma sched_run_steps: "run_calls sched_exec cs s = Ok t \<Longrightarrow> sched_step\<^sup>*\<^sup>* s t"
  by (rule run_calls_steps) (auto intro: sched_step.call)

lemma demo_ready_reachable: "sched_step\<^sup>*\<^sup>* sched_init demo_ready"
  by (rule sched_run_steps [OF demo_ready_run])

lemma demo_one_reachable: "sched_step\<^sup>*\<^sup>* sched_init demo_one"
  using demo_ready_reachable sched_step.call [OF demo_first_booking] by (rule rtranclp.rtrancl_into_rtrancl)

lemma demo_two_step: "sched_step demo_one demo_two"
  by (rule sched_step.call [OF demo_second_booking])

lemma demo_two_later: "sched_step\<^sup>*\<^sup>* demo_one demo_two"
  using demo_two_step by (rule r_into_rtranclp)

lemma demo_two_reachable: "sched_step\<^sup>*\<^sup>* sched_init demo_two"
  using demo_one_reachable demo_two_step by (rule rtranclp.rtrancl_into_rtrancl)

text \<open>
  C18. No double booking. In every state the contract can reach by any sequence of calls, two different
  sessions that share a participant, mentor or mentee on either side, never overlap in time: one ends
  before or when the other starts.
\<close>

theorem no_double_booking:
  assumes "sched_step\<^sup>*\<^sup>* sched_init s" and "SessionAt s i = Some x" and "SessionAt s j = Some y"
    and "i \<noteq> j" and "attends p x" and "attends p y"
  shows "start_utc x + duration_minutes x * 60 \<le> start_utc y \<or> start_utc y + duration_minutes y * 60 \<le> start_utc x"
  using calendar_wfD(2) [OF sched_run_wf [OF assms(1)]] assms(2-6)
  unfolding disjoint_calendar_def clash_def slot_end_def by (metis not_le)

theorem no_double_booking_witness:
  "start_utc demo_session + duration_minutes demo_session * 60 \<le> start_utc demo_session'"
  using no_double_booking [OF demo_two_reachable, of "[5]" demo_session "[6]" demo_session' 2]
  by (simp add: sched_demo_defs attends_def)

text \<open>
  The overlap checks are exact. In every reachable state the loop of \<open>book_session\<close>, the view
  \<open>has_conflict\<close> and the scan of \<open>conflicts_with\<close> agree with one specification: the participant has a stored
  session, other than the excluded one, that overlaps the slot. None of them misses a session or fails on
  a missing entry.
\<close>

theorem conflict_checks_exact:
  assumes "sched_step\<^sup>*\<^sup>* sched_init s" and "fits_u64 (a + d * 60)"
  shows "has_conflict s p a d = Ok (busy s None p a (a + d * 60)) \<and>
    overlap_loop s a (a + d * 60) (load_participant_sessions s p) =
      (if busy s None p a (a + d * 60) then Err ErrScheduleConflict else Ok ()) \<and>
    conflicts_with s p a (a + d * 60) ex = busy s ex p a (a + d * 60)"
proof -
  have "indexed s" by (rule calendar_wfD(1) [OF sched_run_wf [OF assms(1)]])
  moreover from this have "\<And>i. i \<in> set (load_participant_sessions s p) \<Longrightarrow>
      \<exists>x. SessionAt s i = Some x \<and> fits_u64 (slot_end x)"
    by (rule index_known)
  moreover have "session_end a d = Ok (a + d * 60)" using assms(2) by (simp add: outcome_iff)
  ultimately show ?thesis
    by (simp add: has_conflict_def has_conflict_loop_iff overlap_loop_iff conflicts_with_def
        conflicts_scan_iff busy_index)
qed

theorem conflict_checks_exact_witness:
  "has_conflict demo_one 3 1003599 15 = Ok True"
proof -
  have "busy demo_one None 3 1003599 (1003599 + 15 * 60)"
    unfolding busy_def
    by (rule exI [of _ "[5]"], rule exI [of _ demo_session]) (simp add: sched_demo_defs attends_def slot_end_def)
  then show ?thesis
    using conflict_checks_exact [OF demo_one_reachable, of 1003599 15 3 None] by (simp add: fits_u64_def)
qed

text \<open>
  C19. When a booking succeeds. In every reachable state an authorised participant of an active agreement
  who uses a new idempotency key gets the session exactly when duration and offset are within bounds, the
  start is in the future and at least the lead time away, the session id is unused, both participants are
  below the session cap, the end is a \<open>u64\<close>, and neither participant is busy in that slot.
\<close>

theorem booking_succeeds_iff:
  assumes "sched_step\<^sup>*\<^sup>* sched_init s" and "Agreement s aid = Some an" and "active an"
    and "c = anchor_mentor an \<or> c = anchor_mentee an" and "auth env c"
    and "BookingIdem s \<lparr>key_agreement = aid, key_caller = c, idempotency_key = ik\<rparr> = None"
  shows "is_ok (book_session env c aid sid ik a off d md loc ag s) \<longleftrightarrow>
    MIN_DURATION_MINUTES \<le> d \<and> d \<le> MAX_DURATION_MINUTES \<and> MIN_OFFSET_MINUTES \<le> off \<and>
    off \<le> MAX_OFFSET_MINUTES \<and> timestamp env < a \<and>
    (\<exists>lead. MinLeadTime s = Some lead \<and> fits_u64 (timestamp env + lead) \<and> timestamp env + lead \<le> a) \<and>
    SessionAt s sid = None \<and>
    (\<forall>p. p = anchor_mentor an \<or> p = anchor_mentee an \<longrightarrow>
       length (load_participant_sessions s p) < MAX_SESSIONS_PER_PARTICIPANT) \<and>
    fits_u64 (a + d * 60) \<and>
    (\<forall>p. p = anchor_mentor an \<or> p = anchor_mentee an \<longrightarrow> \<not> busy s None p a (a + d * 60))"
proof -
  have free: "overlap_loop s a (a + d * 60) (load_participant_sessions s p) = Ok () \<longleftrightarrow>
      \<not> busy s None p a (a + d * 60)" for p
    by (rule book.free_iff [OF calendar_wfD(1) [OF sched_run_wf [OF assms(1)]]])
  have "is_ok (book_session env c aid sid ik a off d md loc ag s) \<longleftrightarrow>
      validate_slot env s a off d = Ok () \<and> SessionAt s sid = None \<and>
      length (load_participant_sessions s (anchor_mentor an)) < MAX_SESSIONS_PER_PARTICIPANT \<and>
      length (load_participant_sessions s (anchor_mentee an)) < MAX_SESSIONS_PER_PARTICIPANT \<and>
      fits_u64 (a + d * 60) \<and>
      overlap_loop s a (a + d * 60) (load_participant_sessions s (anchor_mentor an)) = Ok () \<and>
      overlap_loop s a (a + d * 60) (load_participant_sessions s (anchor_mentee an)) = Ok ()"
    using assms(2-6)
    by (auto simp: is_ok_iff book_session_def load_agreement_def Let_def outcome_iff not_le)
  then show ?thesis unfolding free validate_slot_Ok by auto
qed

theorem booking_succeeds_iff_witness:
  "is_ok (book_session (at_time 11) 2 [1] [6] [10] 1003600 0 60 Video [7] [8] demo_one) \<and>
   \<not> is_ok (book_session (at_time 11) 2 [1] [6] [10] 1003599 0 60 Video [7] [8] demo_one)"
proof -
  have pre: "Agreement demo_one [1] = Some demo_anchor" "active demo_anchor" "2 = anchor_mentor demo_anchor"
    "auth (at_time 11) 2" "BookingIdem demo_one \<lparr>key_agreement = [1], key_caller = 2, idempotency_key = [10]\<rparr> = None"
    by (simp_all add: sched_demo_defs)
  have "busy demo_one None 2 1003599 (1003599 + 60 * 60)"
    unfolding busy_def
    by (rule exI [of _ "[5]"], rule exI [of _ demo_session]) (simp add: sched_demo_defs attends_def slot_end_def)
  then have late: "\<not> is_ok (book_session (at_time 11) 2 [1] [6] [10] 1003599 0 60 Video [7] [8] demo_one)"
    using booking_succeeds_iff [OF demo_one_reachable pre(1,2) disjI1 [OF pre(3)] pre(4,5)] pre(3) by blast
  have "is_ok (book_session (at_time 11) 2 [1] [6] [10] 1003600 0 60 Video [7] [8] demo_one)"
    using demo_second_booking by (auto simp: is_ok_iff state_of_Ok)
  with late show ?thesis by simp
qed

text \<open>
  Every session stays traceable. From any reachable state on, a session is never removed and keeps
  its parties, mode, commitments and booking time; its trace only grows, links the slot it was booked for
  to the slot it has now, has one entry per revision and at most sixteen entries; and as long as the trace
  does not grow the slot stays and a confirmed session stays confirmed.
\<close>

theorem session_traceable:
  assumes "sched_step\<^sup>*\<^sup>* sched_init s" and "sched_step\<^sup>*\<^sup>* s t" and "SessionAt s k = Some x"
  shows "\<exists>y. SessionAt t k = Some y \<and> session_evolves x y \<and>
    linked (booked_slot x) (reschedule_history y) (slot_of y) \<and>
    revision y = length (reschedule_history y) \<and> revision y \<le> MAX_RESCHEDULES_PER_SESSION"
proof -
  have "calendar_wf s" by (rule sched_run_wf [OF assms(1)])
  with calendar.run_evolves [OF assms(2)] calendar.run [OF assms(2)]
  have "calendar_evolves s t" "calendar_wf t" by auto
  then obtain y where "SessionAt t k = Some y" "session_evolves x y" "session_ok k y"
    using assms(3) calendar_wfD(3) unfolding calendar_evolves_def by blast
  then show ?thesis by (auto simp: session_ok_def session_evolves_def)
qed

theorem session_traceable_witness:
  "\<exists>y. SessionAt demo_two [5] = Some y \<and> session_evolves demo_session y \<and>
     linked (booked_slot demo_session) (reschedule_history y) (slot_of y)"
  using session_traceable [OF demo_one_reachable demo_two_later, of "[5]" demo_session]
  by (auto simp: demo_one_def)

text \<open>
  The session cap is a lifetime cap. Sessions never leave a participant's index, so a booking under a
  new idempotency key succeeds only if both participants had fewer than sixty-four sessions in every
  earlier state: once a participant reached the cap, with sessions held or long past, no later call
  sequence lets them book again.
\<close>

theorem session_cap_is_permanent:
  assumes "sched_step\<^sup>*\<^sup>* sched_init s" and "sched_step\<^sup>*\<^sup>* s t"
    and "Agreement t aid = Some an" and "p = anchor_mentor an \<or> p = anchor_mentee an"
    and "BookingIdem t \<lparr>key_agreement = aid, key_caller = c, idempotency_key = ik\<rparr> = None"
    and "is_ok (book_session env c aid sid ik a off d md loc ag t)"
  shows "length (load_participant_sessions s p) \<le> length (load_participant_sessions t p) \<and>
    length (load_participant_sessions s p) < MAX_SESSIONS_PER_PARTICIPANT"
proof -
  from assms(6) obtain r u where "book_session env c aid sid ik a off d md loc ag t = Ok (r, u)"
    by (auto simp: is_ok_iff)
  then have "length (load_participant_sessions t p) < MAX_SESSIONS_PER_PARTICIPANT"
    using assms(3-5) by (cases rule: book_Ok) auto
  moreover have "prefix (load_participant_sessions s p) (load_participant_sessions t p)"
    using calendar.run_evolves [OF assms(2) sched_run_wf [OF assms(1)]] by (simp add: calendar_evolves_def)
  ultimately show ?thesis using prefix_length_le by fastforce
qed

theorem session_cap_is_permanent_witness:
  "length (load_participant_sessions demo_ready 3) < MAX_SESSIONS_PER_PARTICIPANT"
proof -
  have "is_ok (book_session (at_time 11) 2 [1] [6] [10] 1003600 0 60 Video [7] [8] demo_one)"
    using demo_second_booking by (auto simp: is_ok_iff state_of_Ok)
  moreover have "sched_step\<^sup>*\<^sup>* demo_ready demo_one"
    using sched_step.call [OF demo_first_booking] by (rule r_into_rtranclp)
  moreover have "Agreement demo_one [1] = Some demo_anchor" "3 = anchor_mentee demo_anchor"
    "BookingIdem demo_one \<lparr>key_agreement = [1], key_caller = 2, idempotency_key = [10]\<rparr> = None"
    by (simp_all add: sched_demo_defs)
  ultimately show ?thesis
    using session_cap_is_permanent [OF demo_ready_reachable] by blast
qed

end
