(* ===== verification/Scheduling_Proposals.thy ===== *)
theory Scheduling_Proposals
  imports Scheduling_Calendar
begin

text \<open>
  Rescheduling in the scheduling contract: at most one open proposal per session, always made against the
  session's current revision, answered only by the other participant. The last two properties record
  where moving a session weakens what booking promises.
\<close>

section \<open>The invariant of proposals\<close>

definition proposed_slot :: "RescheduleProposal \<Rightarrow> slot" where
  "proposed_slot p = (new_start_utc p, new_duration_minutes p, new_local_offset_minutes p)"

text \<open>
  \<open>op\<close> is the open proposal of the session \<open>x\<close>. An open proposal is that one, was made against the current
  revision, asks for another slot, previews the right payment impact and expires before the session
  starts. A closed one was answered by the other participant.
\<close>

definition proposal_ok :: "hash32 option \<Rightarrow> Session \<Rightarrow> hash32 \<Rightarrow> RescheduleProposal \<Rightarrow> bool" where
  "proposal_ok op x pid p \<longleftrightarrow> attends (proposed_by p) x \<and>
     (if proposal_status p = Proposed then
        op = Some pid \<and> responded_by p = None \<and> session_revision p = revision x \<and>
        proposed_slot p \<noteq> slot_of x \<and> expires_at p \<le> start_utc x \<and>
        impact p = payment_impact (duration_minutes x) (new_duration_minutes p)
      else \<exists>q. responded_by p = Some q \<and> q \<noteq> proposed_by p \<and> attends q x)"

definition proposals_wf :: "sched_state \<Rightarrow> bool" where
  "proposals_wf s \<longleftrightarrow>
     (\<forall>pid p. Reschedule s pid = Some p \<longrightarrow>
        (\<exists>x. SessionAt s (proposal_session p) = Some x \<and>
           proposal_ok (OpenReschedule s (proposal_session p)) x pid p)) \<and>
     (\<forall>sid pid. OpenReschedule s sid = Some pid \<longrightarrow>
        (\<exists>p. Reschedule s pid = Some p \<and> proposal_session p = sid \<and> proposal_status p = Proposed))"

lemma proposals_init_wf: "proposals_wf sched_init"
  by (simp add: proposals_wf_def sched_init_def)

lemma proposal_wfD:
  assumes "proposals_wf s" "Reschedule s pid = Some p"
  obtains x where "SessionAt s (proposal_session p) = Some x"
    "proposal_ok (OpenReschedule s (proposal_session p)) x pid p"
  using assms unfolding proposals_wf_def by blast

lemma open_wfD:
  assumes "proposals_wf s" "OpenReschedule s sid = Some pid"
  obtains p where "Reschedule s pid = Some p" "proposal_session p = sid" "proposal_status p = Proposed"
  using assms unfolding proposals_wf_def by blast

text \<open>Sessions may be added or confirmed without touching any proposal.\<close>

lemma same_proposals_wf:
  assumes "proposals_wf s" "Reschedule t = Reschedule s" "OpenReschedule t = OpenReschedule s"
    and "\<And>k x. SessionAt s k = Some x \<Longrightarrow> \<exists>y. SessionAt t k = Some y \<and> mentor y = mentor x \<and>
      mentee y = mentee x \<and> revision y = revision x \<and> slot_of y = slot_of x"
  shows "proposals_wf t"
proof -
  have "\<exists>y. SessionAt t (proposal_session p) = Some y \<and>
      proposal_ok (OpenReschedule s (proposal_session p)) y pid p"
    if p: "Reschedule s pid = Some p" for pid p
  proof -
    obtain x where x: "SessionAt s (proposal_session p) = Some x"
      "proposal_ok (OpenReschedule s (proposal_session p)) x pid p"
      using assms(1) p by (rule proposal_wfD)
    with assms(4) obtain y where "SessionAt t (proposal_session p) = Some y" "mentor y = mentor x"
      "mentee y = mentee x" "revision y = revision x" "slot_of y = slot_of x"
      by blast
    with x(2) show ?thesis by (auto simp: proposal_ok_def attends_def slot_of_def)
  qed
  with assms(1-3) show ?thesis unfolding proposals_wf_def by auto
qed

text \<open>
  A participant answers the open proposal \<open>p\<close> of a session. Another proposal of the same session is
  closed, so it survives a change of the session as long as the parties stay.
\<close>

lemma answered_wf:
  assumes wf: "proposals_wf s" and p: "Reschedule s pid = Some p" "proposal_status p = Proposed"
      "proposal_session p = k"
    and x: "SessionAt s k = Some x" "attends c x" "c \<noteq> proposed_by p"
    and y: "mentor y = mentor x" "mentee y = mentee x"
    and p': "proposal_session p' = k" "proposed_by p' = proposed_by p" "proposal_status p' \<noteq> Proposed"
      "responded_by p' = Some c"
    and t: "SessionAt t = (SessionAt s)(k \<mapsto> y)" "Reschedule t = (Reschedule s)(pid \<mapsto> p')"
      "OpenReschedule t = (OpenReschedule s)(k := None)"
  shows "proposals_wf t"
proof -
  have att: "attends q y \<longleftrightarrow> attends q x" for q using y by (simp add: attends_def)
  have "\<exists>z. SessionAt t (proposal_session q) = Some z \<and>
      proposal_ok (OpenReschedule t (proposal_session q)) z i q" if "Reschedule t i = Some q" for i q
  proof (cases "i = pid")
    case True
    have "attends (proposed_by p) x"
      using wf p(1,3) x(1) by (auto simp: proposal_ok_def elim: proposal_wfD)
    with True that p' x y show ?thesis by (auto simp: t att proposal_ok_def)
  next
    case other: False
    with that have q: "Reschedule s i = Some q" by (simp add: t)
    with wf obtain z where z: "SessionAt s (proposal_session q) = Some z"
      "proposal_ok (OpenReschedule s (proposal_session q)) z i q" by (rule proposal_wfD)
    show ?thesis
    proof (cases "proposal_session q = k")
      case True
      have "OpenReschedule s k = Some pid"
        using wf p by (auto simp: proposal_ok_def elim: proposal_wfD)
      with z True other x(1) show ?thesis by (auto simp: t proposal_ok_def att split: if_splits)
    next
      case False
      with z show ?thesis by (simp add: t)
    qed
  qed
  moreover have "\<exists>q. Reschedule t i = Some q \<and> proposal_session q = sid \<and> proposal_status q = Proposed"
    if "OpenReschedule t sid = Some i" for sid i
  proof -
    have sid: "sid \<noteq> k" "OpenReschedule s sid = Some i" using that by (auto simp: t split: if_splits)
    with wf obtain q where "Reschedule s i = Some q" "proposal_session q = sid" "proposal_status q = Proposed"
      by (elim open_wfD)
    with sid p(1,3) show ?thesis by (auto simp: t)
  qed
  ultimately show ?thesis unfolding proposals_wf_def by blast
qed

lemma approve_proposals_wf:
  assumes "approve_reschedule env c pid s = Ok (r, t)" "calendar_wf s" "proposals_wf s"
  shows "proposals_wf t"
  using assms(1)
proof (cases rule: session_approve_Ok)
  case (applied p x)
  have id: "session_id x = proposal_session p" "proposal_id p = pid"
    using session_key [OF assms(2) applied(2)] calendar_wfD(8) [OF assms(2) applied(1)] by simp_all
  show ?thesis
    by (rule answered_wf [OF assms(3) applied(1,6) refl applied(2,3,4), where y = "moved env p pid x"])
      (simp_all add: applied(13) id, simp_all add: moved_def)
qed (simp add: assms)

lemma decline_proposals_wf:
  assumes "decline_reschedule env c pid s = Ok t" "calendar_wf s" "proposals_wf s"
  shows "proposals_wf t"
  using assms(1)
proof (cases rule: session_decline_Ok)
  case (declined p x)
  have id: "session_id x = proposal_session p" "proposal_id p = pid"
    using session_key [OF assms(2) declined(2)] calendar_wfD(8) [OF assms(2) declined(1)] by simp_all
  have same: "(SessionAt s)(proposal_session p \<mapsto> x) = SessionAt s" using declined(2) by (simp add: fun_upd_idem)
  show ?thesis
    by (rule answered_wf [OF assms(3) declined(1,6) refl declined(2,3,4), where y = x])
      (simp_all add: declined(7) id same)
qed (simp add: assms)

lemma dropped_wf:
  assumes "dropped env sid s u" "proposals_wf s"
  shows "proposals_wf u" "OpenReschedule u sid = None" "SessionAt u = SessionAt s"
proof -
  show rest: "OpenReschedule u sid = None" "SessionAt u = SessionAt s" using assms(1) by (auto simp: dropped_def)
  show "proposals_wf u"
    using assms(1) unfolding dropped_def
  proof (elim disjE exE conjE)
    fix oid q
    assume *: "OpenReschedule s sid = Some oid" "Reschedule s oid = Some q"
      "u = s\<lparr>OpenReschedule := (OpenReschedule s)(sid := None), Reschedule := (Reschedule s)(oid := None)\<rparr>"
    have q: "proposal_session q = sid" using assms(2) *(1,2) by (auto elim: open_wfD)
    show ?thesis
      unfolding proposals_wf_def
    proof (intro conjI allI impI)
      fix i p assume "Reschedule u i = Some p"
      then have p: "Reschedule s i = Some p" "i \<noteq> oid" by (auto simp: *(3) split: if_splits)
      with assms(2) obtain x where x: "SessionAt s (proposal_session p) = Some x"
        "proposal_ok (OpenReschedule s (proposal_session p)) x i p" by (elim proposal_wfD)
      with p(2) *(1) show "\<exists>x. SessionAt u (proposal_session p) = Some x \<and>
          proposal_ok (OpenReschedule u (proposal_session p)) x i p"
        by (auto simp: *(3) proposal_ok_def split: if_splits)
    next
      fix k i assume "OpenReschedule u k = Some i"
      then have k: "OpenReschedule s k = Some i" "k \<noteq> sid" by (auto simp: *(3) split: if_splits)
      with assms(2) obtain p where "Reschedule s i = Some p" "proposal_session p = k" "proposal_status p = Proposed"
        by (elim open_wfD)
      with k(2) q *(2) show "\<exists>p. Reschedule u i = Some p \<and> proposal_session p = k \<and> proposal_status p = Proposed"
        by (auto simp: *(3))
    qed
  qed (simp add: assms)
qed

lemma propose_proposals_wf:
  assumes "propose_reschedule env c sid pid rs rh a off d s = Ok (r, t)" "proposals_wf s"
  shows "proposals_wf t"
  using assms(1)
proof (cases rule: propose_Ok)
  case (opened x u)
  note u = dropped_wf [OF opened(9) assms(2)]
  have fresh: "Reschedule u pid = None" using opened(4,9) by (auto simp: dropped_def)
  have ok: "proposal_ok (Some pid) x pid r"
    using opened(2,8,11-22) by (auto simp: proposal_ok_def proposed_slot_def slot_of_def)
  show ?thesis
    unfolding proposals_wf_def
  proof (intro conjI allI impI)
    fix i p assume "Reschedule t i = Some p"
    then consider "i = pid" "p = r" | "i \<noteq> pid" "Reschedule u i = Some p"
      by (auto simp: opened(23) split: if_splits)
    then show "\<exists>x. SessionAt t (proposal_session p) = Some x \<and>
        proposal_ok (OpenReschedule t (proposal_session p)) x i p"
    proof cases
      case 1
      with opened(1,12,23) ok u(3) show ?thesis by simp
    next
      case 2
      with u(1) obtain y where "SessionAt u (proposal_session p) = Some y"
        "proposal_ok (OpenReschedule u (proposal_session p)) y i p" by (elim proposal_wfD)
      with u(2) show ?thesis by (auto simp: opened(23) proposal_ok_def)
    qed
  next
    fix k i assume "OpenReschedule t k = Some i"
    then consider "k = sid" "i = pid" | "k \<noteq> sid" "OpenReschedule u k = Some i"
      by (auto simp: opened(23) split: if_splits)
    then show "\<exists>p. Reschedule t i = Some p \<and> proposal_session p = k \<and> proposal_status p = Proposed"
    proof cases
      case 1
      with opened(12,20,23) show ?thesis by simp
    next
      case 2
      with u(1) obtain p where "Reschedule u i = Some p" "proposal_session p = k" "proposal_status p = Proposed"
        by (elim open_wfD)
      with fresh show ?thesis by (auto simp: opened(23))
    qed
  qed
qed (simp add: assms)

lemma confirm_proposals_wf:
  assumes "confirm_session env c sid s = Ok (r, t)" "calendar_wf s" "proposals_wf s"
  shows "proposals_wf t"
  using assms(1)
proof (cases rule: session_confirm_Ok)
  case (confirmed x m e)
  show ?thesis
    by (rule same_proposals_wf [OF assms(3)])
      (use confirmed session_key [OF assms(2)] in \<open>auto simp: slot_of_def\<close>)
qed (simp add: assms)

lemma book_proposals_wf:
  assumes "book_session env c aid sid ik a off d md loc ag s = Ok (r, t)" "proposals_wf s"
  shows "proposals_wf t"
  using assms(1)
proof (cases rule: book_Ok)
  case (fresh an)
  show ?thesis
    by (rule same_proposals_wf [OF assms(2)]) (use fresh in auto)
qed (simp add: assms)

lemma admin_proposals_wf: "admin_effect s t \<Longrightarrow> proposals_wf s \<Longrightarrow> proposals_wf t"
  by (auto simp: admin_effect_def intro: same_proposals_wf)

lemma sched_exec_proposals_wf:
  "sched_exec env c s = Ok t \<Longrightarrow> calendar_wf s \<Longrightarrow> proposals_wf s \<Longrightarrow> proposals_wf t"
  by (cases c)
    (auto simp: state_of_Ok intro: book_proposals_wf confirm_proposals_wf propose_proposals_wf
      approve_proposals_wf decline_proposals_wf admin_proposals_wf dest!: admin_effects)

interpretation proposals: preserved sched_step "\<lambda>s. calendar_wf s \<and> proposals_wf s"
  by unfold_locales (auto intro: sched_exec_wf sched_exec_proposals_wf elim!: sched_stepE)

lemma proposals_run_wf: "sched_step\<^sup>*\<^sup>* sched_init s \<Longrightarrow> proposals_wf s"
  using proposals.run [of sched_init s] calendar_init_wf proposals_init_wf by simp

text \<open>Only an approval changes the slot of a session.\<close>

lemma exec_keeps_slot:
  assumes "sched_exec env c s = Ok t" "calendar_wf s" "SessionAt s k = Some x" "SessionAt t k = Some y"
    "slot_of y \<noteq> slot_of x"
  obtains a pid r where "c = ApproveReschedule a pid" "approve_reschedule env a pid s = Ok (r, t)"
proof -
  have same: "slot_of y = slot_of x" if "SessionAt t = SessionAt s" using that assms(3,4) by simp
  have book: False if "book_session env a aid sid ik st off d md loc ag s = Ok (r, t)"
    for a aid sid ik st off d md loc ag r
    using that by (cases rule: book_Ok) (use assms(3-5) in \<open>auto split: if_splits\<close>)
  have confirm: False if "confirm_session env a sid s = Ok (r, t)" for a sid r
    using that by (cases rule: session_confirm_Ok)
      (use assms(3-5) session_key [OF assms(2)] in \<open>auto simp: slot_of_def split: if_splits\<close>)
  have propose: False if "propose_reschedule env a sid pid rs rh st off d s = Ok (r, t)" for a sid pid rs rh st off d r
    using that by (cases rule: propose_Ok) (use same assms(5) in \<open>auto simp: dropped_def\<close>)
  have decline: False if "decline_reschedule env a pid s = Ok t" for a pid
    using that by (cases rule: session_decline_Ok) (use same assms(5) in auto)
  have admin: False if "admin_effect s t" using that same assms(5) by (simp add: admin_effect_def)
  show thesis
    using assms(1)
    by (cases c) (auto simp: state_of_Ok intro: that dest: book confirm propose decline dest!: admin_effects admin)
qed

lemma approve_stale:
  assumes "approve_reschedule env a i s = Err StaleRescheduleApproval"
  obtains q x where "Reschedule s i = Some q" "proposal_status q = Proposed"
    "SessionAt s (proposal_session q) = Some x" "revision x \<noteq> session_revision q"
proof -
  have "session_end st d \<noteq> Err StaleRescheduleApproval" "ok_or m RescheduleNotFound \<noteq> Err StaleRescheduleApproval"
    "ok_or m' SessionNotFound \<noteq> Err StaleRescheduleApproval" for st d and m :: "RescheduleProposal option" and m' :: "Session option"
    by (cases m; cases m'; auto simp: session_end_def ok_or_def and_then_Err split: option.splits)+
  with assms have "\<exists>q x. Reschedule s i = Some q \<and> proposal_status q = Proposed \<and>
      SessionAt s (proposal_session q) = Some x \<and> revision x \<noteq> session_revision q"
    by (auto simp: approve_reschedule_def load_reschedule_def load_session_def and_then_Err outcome_iff Let_def
        require_auth_def split: if_splits)
  with that show thesis by blast
qed

section \<open>Properties\<close>

text \<open>
  The example run goes on from \<open>demo_one\<close>: at time 20 the mentor proposes to move the session from
  1000000 to 50000, which is allowed as the meeting is still far away; the mentee approves at 200000.
\<close>

definition demo_proposal :: RescheduleProposal where
  "demo_proposal = \<lparr>proposal_id = [4], proposal_session = [5], proposed_by = 2, reason = Personal,
     reason_hash = [3], new_start_utc = 50000, new_local_offset_minutes = 0, new_duration_minutes = 60,
     impact = payment_impact 60 60, created_at = 20, expires_at = 259220, session_revision = 0,
     proposal_status = Proposed, responded_by = None, responded_at = 0, applied_at = 0\<rparr>"

definition demo_proposed :: sched_state where
  "demo_proposed = demo_one\<lparr>Reschedule := [[4] \<mapsto> demo_proposal], OpenReschedule := [[5] \<mapsto> [4]]\<rparr>"

definition demo_moved_session :: Session where
  "demo_moved_session = moved (at_time 200000) demo_proposal [4] demo_session"

definition demo_moved :: sched_state where
  "demo_moved = demo_proposed\<lparr>SessionAt := [[5] \<mapsto> demo_moved_session],
     Reschedule := [[4] \<mapsto> demo_proposal\<lparr>proposal_status := Applied, responded_by := Some 3,
       responded_at := 200000, applied_at := 200000\<rparr>], OpenReschedule := Map.empty\<rparr>"

lemma demo_propose:
  "sched_exec (at_time 20) (ProposeReschedule 2 [5] [4] Personal [3] 50000 0 60) demo_one = Ok demo_proposed"
  by (simp add: demo_proposed_def demo_proposal_def sched_demo_defs sched_ops state_of_def Let_def
      propose_reschedule_def conflicts_with_def put_reschedule_def)

lemma demo_approve:
  "approve_reschedule (at_time 200000) 3 [4] demo_proposed = Ok (demo_moved_session, demo_moved)"
  by (simp add: demo_proposed_def demo_proposal_def demo_moved_def demo_moved_session_def moved_def
      move_entry_def sched_demo_defs sched_ops Let_def approve_reschedule_def load_reschedule_def
      conflicts_with_def put_reschedule_def)

lemma demo_proposed_reachable: "sched_step\<^sup>*\<^sup>* sched_init demo_proposed"
  using demo_one_reachable sched_step.call [OF demo_propose] by (rule rtranclp.rtrancl_into_rtrancl)

lemma demo_approve_exec: "sched_exec (at_time 200000) (ApproveReschedule 3 [4]) demo_proposed = Ok demo_moved"
  by (simp add: demo_approve state_of_Ok)

lemma demo_moved_reachable: "sched_step\<^sup>*\<^sup>* sched_init demo_moved"
  using demo_proposed_reachable sched_step.call [OF demo_approve_exec] by (rule rtranclp.rtrancl_into_rtrancl)

text \<open>
  A meeting is only moved with the consent of both participants. If a call made in a reachable state
  changes a session's start, duration or offset, it is an approval, authorised by one participant, of an
  open proposal made by the other for exactly the new slot; the proposal has not expired and expires before
  the old start; and both participants have to confirm again.
\<close>

theorem move_needs_both:
  assumes "sched_step\<^sup>*\<^sup>* sched_init s" and "sched_exec env c s = Ok t"
    and "SessionAt s k = Some x" and "SessionAt t k = Some y" and "slot_of y \<noteq> slot_of x"
  shows "\<exists>a pid p. c = ApproveReschedule a pid \<and> auth env a \<and> Reschedule s pid = Some p \<and>
    proposal_session p = k \<and> proposal_status p = Proposed \<and>
    {a, proposed_by p} = {mentor x, mentee x} \<and> timestamp env \<le> expires_at p \<and>
    expires_at p \<le> start_utc x \<and> slot_of y = proposed_slot p \<and>
    status y = Booked \<and> mentor_confirmed_at y = 0 \<and> mentee_confirmed_at y = 0"
proof -
  have wf: "calendar_wf s" "proposals_wf s" using assms(1) by (auto intro: sched_run_wf proposals_run_wf)
  obtain a pid r where approve: "c = ApproveReschedule a pid" "approve_reschedule env a pid s = Ok (r, t)"
    using assms(2) wf(1) assms(3-5) by (rule exec_keeps_slot)
  from approve(2) show ?thesis
  proof (cases rule: session_approve_Ok)
    case (replay p)
    with assms(3-5) show ?thesis by simp
  next
    case (applied p x')
    have key: "session_id x' = proposal_session p" by (rule session_key [OF wf(1) applied(2)])
    with applied assms(3-5) have k: "proposal_session p = k" by (auto split: if_splits)
    with applied(2) assms(3) have x: "x' = x" by simp
    obtain z where "SessionAt s (proposal_session p) = Some z"
      "proposal_ok (OpenReschedule s (proposal_session p)) z pid p"
      using wf(2) applied(1) by (rule proposal_wfD)
    then have "attends (proposed_by p) x" "expires_at p \<le> start_utc x"
      using assms(3) applied(6) by (simp_all add: k proposal_ok_def)
    moreover have "y = moved env p pid x" using applied(13) assms(4) key by (simp add: k x)
    moreover have "{a, proposed_by p} = {mentor x, mentee x}"
      using applied(3,4) calculation(1) calendar_wfD(3) [OF wf(1) assms(3)]
      by (auto simp: attends_def x session_ok_def)
    ultimately show ?thesis
      using applied approve(1) k by (auto simp: moved_def slot_of_def proposed_slot_def x)
  qed
qed

theorem move_needs_both_witness:
  "{3, proposed_by demo_proposal} = {mentor demo_session, mentee demo_session}"
proof -
  have "slot_of demo_moved_session \<noteq> slot_of demo_session"
    by (simp add: demo_moved_session_def moved_def slot_of_def demo_proposal_def sched_demo_defs)
  moreover have "SessionAt demo_proposed [5] = Some demo_session" "SessionAt demo_moved [5] = Some demo_moved_session"
    by (simp_all add: demo_proposed_def demo_moved_def demo_one_def)
  ultimately show ?thesis
    using move_needs_both [OF demo_proposed_reachable demo_approve_exec]
    by (auto simp: demo_proposed_def)
qed

text \<open>
  An open proposal is never stale. In every reachable state a session has at most one open proposal,
  made against the session's current revision, with the payment impact of the move from the current
  duration; so the guard that answers \<open>StaleRescheduleApproval\<close> never fires.
\<close>

theorem open_proposal_current:
  assumes "sched_step\<^sup>*\<^sup>* sched_init s"
  shows "approve_reschedule env a i s \<noteq> Err StaleRescheduleApproval \<and>
    (Reschedule s i = Some p \<and> proposal_status p = Proposed \<longrightarrow>
      (\<exists>x. SessionAt s (proposal_session p) = Some x \<and> session_revision p = revision x \<and>
        impact p = payment_impact (duration_minutes x) (new_duration_minutes p)) \<and>
      (\<forall>j q. Reschedule s j = Some q \<and> proposal_status q = Proposed \<and> proposal_session q = proposal_session p \<longrightarrow>
        j = i))"
proof -
  have wf: "proposals_wf s" by (rule proposals_run_wf [OF assms])
  have ok: "\<exists>x. SessionAt s (proposal_session q) = Some x \<and> OpenReschedule s (proposal_session q) = Some j \<and>
      session_revision q = revision x \<and> impact q = payment_impact (duration_minutes x) (new_duration_minutes q)"
    if "Reschedule s j = Some q" "proposal_status q = Proposed" for j q
    using wf that by (auto simp: proposal_ok_def elim: proposal_wfD)
  moreover have "approve_reschedule env a i s \<noteq> Err StaleRescheduleApproval"
  proof
    assume "approve_reschedule env a i s = Err StaleRescheduleApproval"
    then obtain q x where "Reschedule s i = Some q" "proposal_status q = Proposed"
      "SessionAt s (proposal_session q) = Some x" "revision x \<noteq> session_revision q"
      by (rule approve_stale)
    with ok show False by fastforce
  qed
  moreover have "j = i" if "Reschedule s i = Some p" "proposal_status p = Proposed"
      "Reschedule s j = Some q" "proposal_status q = Proposed" "proposal_session q = proposal_session p" for j q
    using ok [OF that(1,2)] ok [OF that(3,4)] that(5) by auto
  ultimately show ?thesis by (intro conjI impI) blast+
qed

theorem open_proposal_current_witness:
  "approve_reschedule (at_time 200000) 3 [4] demo_proposed \<noteq> Err StaleRescheduleApproval \<and>
   impact demo_proposal = payment_impact 60 60"
  using open_proposal_current [OF demo_proposed_reachable, of "at_time 200000" 3 "[4]" demo_proposal]
  by (simp add: demo_proposed_def demo_proposal_def)

text \<open>
  An approval can move a meeting into the past. Booking and proposing require a start in the future
  that is at least the lead time away, but \<open>approve_reschedule\<close> does not look at the new start again, and the
  approval window may end long after it. In a state reachable from deployment the mentee approves a move at
  a time when the new slot is already over, and the contract applies it.
\<close>

theorem approval_into_the_past:
  "sched_step\<^sup>*\<^sup>* sched_init demo_proposed \<and>
   approve_reschedule (at_time 200000) 3 [4] demo_proposed = Ok (demo_moved_session, demo_moved) \<and>
   start_utc demo_session > 200000 \<and>
   start_utc demo_moved_session + duration_minutes demo_moved_session * 60 < 200000"
  using demo_proposed_reachable demo_approve
  by (simp add: demo_moved_session_def moved_def demo_proposal_def sched_demo_defs)

text \<open>
  Retrying a booking stops being safe once the session was moved. In every reachable state a retry of
  a booking with its own key answers the original session if the payload equals the session's current slot
  and commitments, and \<open>IdempotencyConflict\<close> otherwise; so after an approved move the original payload is
  refused.
\<close>

theorem booking_retry:
  assumes "sched_step\<^sup>*\<^sup>* sched_init s"
    and "Agreement s aid = Some an" and "active an" and "c = anchor_mentor an \<or> c = anchor_mentee an"
    and "auth env c"
    and "BookingIdem s \<lparr>key_agreement = aid, key_caller = c, idempotency_key = ik\<rparr> = Some k"
  shows "\<exists>x. SessionAt s k = Some x \<and> agreement_id x = aid \<and> attends c x \<and>
    book_session env c aid sid ik a off d md loc ag s =
      (if slot_of x = (a, d, off) \<and> mode x = md \<and> location_ref x = loc \<and> agenda_hash x = ag
       then Ok (k, s) else Err IdempotencyConflict)"
proof -
  obtain x where "SessionAt s k = Some x" "agreement_id x = aid" "attends c x"
    using calendar_wfD(7) [OF sched_run_wf [OF assms(1)] assms(6)] by auto
  then show ?thesis
    using assms(2-6)
    by (intro exI [of _ x]) (auto simp: book_session_def load_agreement_def load_session_def slot_of_def Let_def)
qed

theorem booking_retry_witness:
  "book_session (at_time 12) 2 [1] [5] [9] 1000000 0 60 Video [7] [8] demo_one = Ok ([5], demo_one) \<and>
   book_session (at_time 200001) 2 [1] [5] [9] 1000000 0 60 Video [7] [8] demo_moved = Err IdempotencyConflict"
proof -
  have pre: "Agreement demo_one [1] = Some demo_anchor" "Agreement demo_moved [1] = Some demo_anchor"
    "active demo_anchor" "2 = anchor_mentor demo_anchor" "auth (at_time n) 2"
    "BookingIdem demo_one \<lparr>key_agreement = [1], key_caller = 2, idempotency_key = [9]\<rparr> = Some [5]"
    "BookingIdem demo_moved \<lparr>key_agreement = [1], key_caller = 2, idempotency_key = [9]\<rparr> = Some [5]" for n
    by (simp_all add: demo_moved_def demo_proposed_def sched_demo_defs)
  have "slot_of demo_session = (1000000, 60, 0)" "slot_of demo_moved_session = (50000, 60, 0)"
    "mode demo_session = Video" "location_ref demo_session = [7]" "agenda_hash demo_session = [8]"
    "SessionAt demo_one [5] = Some demo_session" "SessionAt demo_moved [5] = Some demo_moved_session"
    by (simp_all add: demo_moved_def demo_moved_session_def moved_def slot_of_def demo_proposal_def sched_demo_defs)
  then show ?thesis
    using booking_retry [OF demo_one_reachable pre(1,3) disjI1 [OF pre(4)] pre(5,6)]
      booking_retry [OF demo_moved_reachable pre(2,3) disjI1 [OF pre(4)] pre(5,7)]
    by fastforce
qed

end
