(* ===== verification/Shared_Math.thy ===== *)
theory Shared_Math
  imports Prelude
begin

text \<open>
  \<open>contracts/shared/src/math.rs\<close>: checked arithmetic with typed errors, the multiply-then-divide
  primitive with an explicit rounding mode, and the \<open>DebtAccount\<close> state machine of a patron's
  deposit and debt.
\<close>

section \<open>Definitions\<close>

datatype MathError = Overflow | Underflow | DivideByZero | NegativeResult | NegativeAmount

datatype Rounding = Down | Up

definition add_u32 :: "nat \<Rightarrow> nat \<Rightarrow> (MathError, nat) outcome" where
  "add_u32 a b = ok_or (u32_checked (a + b)) Overflow"

definition sub_u32 :: "nat \<Rightarrow> nat \<Rightarrow> (MathError, nat) outcome" where
  "sub_u32 a b = (if b \<le> a then Ok (a - b) else Err Underflow)"

definition add_u64 :: "nat \<Rightarrow> nat \<Rightarrow> (MathError, nat) outcome" where
  "add_u64 a b = ok_or (u64_checked (a + b)) Overflow"

definition sub_u64 :: "nat \<Rightarrow> nat \<Rightarrow> (MathError, nat) outcome" where
  "sub_u64 a b = (if b \<le> a then Ok (a - b) else Err Underflow)"

definition add_i128 :: "int \<Rightarrow> int \<Rightarrow> (MathError, int) outcome" where
  "add_i128 a b = ok_or (i128_checked (a + b)) Overflow"

definition sub_i128 :: "int \<Rightarrow> int \<Rightarrow> (MathError, int) outcome" where
  "sub_i128 a b = ok_or (i128_checked (a - b)) Underflow"

definition mul_i128 :: "int \<Rightarrow> int \<Rightarrow> (MathError, int) outcome" where
  "mul_i128 a b = ok_or (i128_checked (a * b)) Overflow"

definition div_i128 :: "int \<Rightarrow> int \<Rightarrow> (MathError, int) outcome" where
  "div_i128 a b =
     (if b = 0 then Err DivideByZero
      else ok_or (i128_checked (div_trunc a b)) Overflow)"

definition require_non_negative :: "int \<Rightarrow> (MathError, int) outcome" where
  "require_non_negative amount = (if amount < 0 then Err NegativeAmount else Ok amount)"

definition mul_div :: "int \<Rightarrow> int \<Rightarrow> int \<Rightarrow> Rounding \<Rightarrow> (MathError, int) outcome" where
  "mul_div a b denominator rounding =
     and_then (require_non_negative a) (\<lambda>_.
     and_then (require_non_negative b) (\<lambda>_.
     if denominator \<le> 0
     then Err (if denominator = 0 then DivideByZero else NegativeAmount)
     else
       and_then (mul_i128 a b) (\<lambda>product.
       let quotient = div_trunc product denominator in
       case rounding of
         Down \<Rightarrow> Ok quotient
       | Up \<Rightarrow> (if rem_trunc product denominator = 0 then Ok quotient
               else add_i128 quotient 1))))"

definition basis_points :: "int \<Rightarrow> int \<Rightarrow> Rounding \<Rightarrow> (MathError, int) outcome" where
  "basis_points amount bps rounding = mul_div amount bps 10000 rounding"

record DebtAccount =
  deposit_of :: int
  outstanding_of :: int

definition new_account :: DebtAccount where
  "new_account = \<lparr>deposit_of = 0, outstanding_of = 0\<rparr>"

definition deposit :: "int \<Rightarrow> DebtAccount \<Rightarrow> (MathError, DebtAccount) outcome" where
  "deposit amount a =
     and_then (require_non_negative amount) (\<lambda>_.
     and_then (add_i128 (deposit_of a) amount) (\<lambda>d.
     Ok (a\<lparr>deposit_of := d\<rparr>)))"

definition charge :: "int \<Rightarrow> DebtAccount \<Rightarrow> (MathError, DebtAccount) outcome" where
  "charge amount a =
     and_then (require_non_negative amount) (\<lambda>_.
     and_then (add_i128 (outstanding_of a) amount) (\<lambda>d.
     Ok (a\<lparr>outstanding_of := d\<rparr>)))"

definition pay :: "int \<Rightarrow> DebtAccount \<Rightarrow> (MathError, DebtAccount) outcome" where
  "pay amount a =
     and_then (require_non_negative amount) (\<lambda>_.
     if amount > outstanding_of a then Err NegativeResult
     else and_then (sub_i128 (outstanding_of a) amount) (\<lambda>d.
     Ok (a\<lparr>outstanding_of := d\<rparr>)))"

definition waive :: "int \<Rightarrow> DebtAccount \<Rightarrow> (MathError, DebtAccount) outcome" where
  "waive amount a =
     and_then (require_non_negative amount) (\<lambda>_.
     if amount > outstanding_of a then Err NegativeResult
     else and_then (sub_i128 (outstanding_of a) amount) (\<lambda>d.
     Ok (a\<lparr>outstanding_of := d\<rparr>)))"

definition pay_from_deposit :: "int \<Rightarrow> DebtAccount \<Rightarrow> (MathError, int \<times> DebtAccount) outcome" where
  "pay_from_deposit amount a =
     and_then (require_non_negative amount) (\<lambda>_.
     if amount > outstanding_of a \<or> amount > deposit_of a then Err NegativeResult
     else and_then (sub_i128 (deposit_of a) amount) (\<lambda>d.
     and_then (sub_i128 (outstanding_of a) amount) (\<lambda>d'.
     Ok (amount, a\<lparr>deposit_of := d, outstanding_of := d'\<rparr>))))"

definition withdraw :: "int \<Rightarrow> DebtAccount \<Rightarrow> (MathError, DebtAccount) outcome" where
  "withdraw amount a =
     and_then (require_non_negative amount) (\<lambda>_.
     if outstanding_of a > 0 then Err NegativeResult
     else if amount > deposit_of a then Err NegativeResult
     else and_then (sub_i128 (deposit_of a) amount) (\<lambda>d.
     Ok (a\<lparr>deposit_of := d\<rparr>)))"

definition is_well_formed :: "DebtAccount \<Rightarrow> bool" where
  "is_well_formed a \<longleftrightarrow> deposit_of a \<ge> 0 \<and> outstanding_of a \<ge> 0"

text \<open>The operations as one alphabet; an operation that fails leaves the account as it was.\<close>

datatype debt_op = Deposit int | Charge int | Pay int | Waive int | PayFromDeposit int | Withdraw int

fun apply_op :: "debt_op \<Rightarrow> DebtAccount \<Rightarrow> (MathError, DebtAccount) outcome" where
  "apply_op (Deposit n) a = deposit n a"
| "apply_op (Charge n) a = charge n a"
| "apply_op (Pay n) a = pay n a"
| "apply_op (Waive n) a = waive n a"
| "apply_op (PayFromDeposit n) a = and_then (pay_from_deposit n a) (\<lambda>r. Ok (snd r))"
| "apply_op (Withdraw n) a = withdraw n a"

text \<open>A run keeps the totals of the amounts that were applied, one per operation.\<close>

record totals =
  deposited :: int
  charged :: int
  paid :: int
  waived :: int
  paid_from_deposit :: int
  withdrawn :: int

definition zero_totals :: totals where
  "zero_totals = \<lparr>deposited = 0, charged = 0, paid = 0, waived = 0, paid_from_deposit = 0, withdrawn = 0\<rparr>"

fun note_op :: "debt_op \<Rightarrow> totals \<Rightarrow> totals" where
  "note_op (Deposit n) t = t\<lparr>deposited := deposited t + n\<rparr>"
| "note_op (Charge n) t = t\<lparr>charged := charged t + n\<rparr>"
| "note_op (Pay n) t = t\<lparr>paid := paid t + n\<rparr>"
| "note_op (Waive n) t = t\<lparr>waived := waived t + n\<rparr>"
| "note_op (PayFromDeposit n) t = t\<lparr>paid_from_deposit := paid_from_deposit t + n\<rparr>"
| "note_op (Withdraw n) t = t\<lparr>withdrawn := withdrawn t + n\<rparr>"

fun run_ops :: "debt_op list \<Rightarrow> DebtAccount \<times> totals \<Rightarrow> DebtAccount \<times> totals" where
  "run_ops [] at = at"
| "run_ops (x # xs) (a, t) =
     (case apply_op x a of
        Ok a' \<Rightarrow> run_ops xs (a', note_op x t)
      | _ \<Rightarrow> run_ops xs (a, t))"

section \<open>Arithmetic\<close>

lemma math_Ok [outcome_iff]:
  "add_u32 m n = Ok r \<longleftrightarrow> r = m + n \<and> fits_u32 (m + n)"
  "sub_u32 m n = Ok r \<longleftrightarrow> r = m - n \<and> n \<le> m"
  "add_u64 m n = Ok r \<longleftrightarrow> r = m + n \<and> fits_u64 (m + n)"
  "sub_u64 m n = Ok r \<longleftrightarrow> r = m - n \<and> n \<le> m"
  "add_i128 a b = Ok c \<longleftrightarrow> c = a + b \<and> fits_i128 (a + b)"
  "sub_i128 a b = Ok c \<longleftrightarrow> c = a - b \<and> fits_i128 (a - b)"
  "mul_i128 a b = Ok c \<longleftrightarrow> c = a * b \<and> fits_i128 (a * b)"
  "require_non_negative a = Ok c \<longleftrightarrow> c = a \<and> 0 \<le> a"
  by (auto simp: add_u32_def sub_u32_def add_u64_def sub_u64_def add_i128_def sub_i128_def
      mul_i128_def require_non_negative_def outcome_iff)

lemma mul_div_Ok:
  "mul_div a b d m = Ok r \<longleftrightarrow>
     0 \<le> a \<and> 0 \<le> b \<and> 0 < d \<and> fits_i128 (a * b) \<and>
     (case m of Down \<Rightarrow> r = a * b div d
      | Up \<Rightarrow> r = a * b div d + (if a * b mod d = 0 then 0 else 1) \<and>
             (a * b mod d = 0 \<or> fits_i128 r))"
  by (cases m)
    (auto simp: mul_div_def outcome_iff Let_def div_trunc_nonneg rem_trunc_nonneg split: if_splits)


text \<open>Rounding as bounds on the exact quotient, without \<open>div\<close> and \<open>mod\<close>.\<close>

lemma quotient_down:
  assumes "0 < (d::int)"
  shows "r = p div d \<longleftrightarrow> r * d \<le> p \<and> p < (r + 1) * d"
proof
  assume "r = p div d"
  then have "p = r * d + p mod d" by simp
  with pos_mod_bound [OF assms, of p] pos_mod_sign [OF assms, of p]
  show "r * d \<le> p \<and> p < (r + 1) * d" by (simp add: distrib_right)
next
  assume "r * d \<le> p \<and> p < (r + 1) * d"
  then have "p div d = r"
    by (intro int_div_pos_eq [where r = "p - d * r"]) (simp_all add: algebra_simps)
  then show "r = p div d" by simp
qed

lemma quotient_up:
  assumes "0 < (d::int)"
  shows "r = p div d + (if p mod d = 0 then 0 else 1) \<longleftrightarrow> (r - 1) * d < p \<and> p \<le> r * d"
proof (cases "p mod d = 0")
  case True
  then obtain k where "p = k * d" by (metis mod_eq_0_iff_dvd dvdE mult.commute)
  moreover have "(r - 1) * d < k * d \<longleftrightarrow> r - 1 < k" "k * d \<le> r * d \<longleftrightarrow> k \<le> r"
    using assms by (simp_all only: mult_less_cancel_right_pos mult_le_cancel_right_pos)
  ultimately show ?thesis using assms by auto
next
  case False
  have "p \<noteq> (r - 1) * d" "p \<noteq> r * d" using False by auto
  with False quotient_down [OF assms, of "r - 1" p] show ?thesis by auto
qed

lemma round_up_fits:
  assumes "0 \<le> p" "0 < d" "p mod d \<noteq> 0" "fits_i128 p"
  shows "fits_i128 (p div d + 1)"
proof -
  have "2 \<le> d" using assms(2,3) by (cases "d = 1") auto
  then have "p div d \<le> p div 2" using assms(1) by (intro zdiv_mono2) auto
  with assms show ?thesis by (simp add: fits_i128_def pos_imp_zdiv_nonneg_iff)
qed

section \<open>Properties\<close>

text \<open>
  C1. \<open>mul_div\<close> succeeds exactly when both factors are non-negative, the denominator is positive
  and the intermediate product fits an \<open>i128\<close>; the result is then the exact quotient rounded in
  the stated direction. In particular the \<open>+ 1\<close> of \<open>Rounding::Up\<close> never overflows.
\<close>

theorem mul_div_spec:
  "mul_div a b d m = Ok r \<longleftrightarrow>
     0 \<le> a \<and> 0 \<le> b \<and> 0 < d \<and> fits_i128 (a * b) \<and>
     (case m of Down \<Rightarrow> r * d \<le> a * b \<and> a * b < (r + 1) * d
      | Up \<Rightarrow> (r - 1) * d < a * b \<and> a * b \<le> r * d)"
proof (cases "0 \<le> a \<and> 0 \<le> b \<and> 0 < d \<and> fits_i128 (a * b)")
  case True
  then have "mul_div a b d Up = Ok r \<longleftrightarrow> r = a * b div d + (if a * b mod d = 0 then 0 else 1)"
    using round_up_fits [of "a * b" d] by (auto simp: mul_div_Ok split: if_splits)
  with True show ?thesis
    using quotient_down [of d r "a * b"] quotient_up [of d r "a * b"]
    by (cases m) (simp_all add: mul_div_Ok)
next
  case False
  then show ?thesis by (auto simp: mul_div_Ok)
qed

lemma apply_op_step:
  assumes "apply_op x a = Ok a'"
    and "is_well_formed a"
    and "outstanding_of a = charged t - paid t - waived t - paid_from_deposit t"
    and "deposit_of a = deposited t - withdrawn t - paid_from_deposit t"
    and "t' = note_op x t"
  shows "is_well_formed a'"
    and "outstanding_of a' = charged t' - paid t' - waived t' - paid_from_deposit t'"
    and "deposit_of a' = deposited t' - withdrawn t' - paid_from_deposit t'"
  using assms
  by (cases x; auto simp: is_well_formed_def deposit_def charge_def pay_def waive_def
      pay_from_deposit_def withdraw_def outcome_iff)+

text \<open>
  Conservation of a \<open>DebtAccount\<close>. After any sequence of operations on a new account, where a
  failing operation leaves the account untouched, the debt is what was charged less what was paid,
  waived or settled from the deposit; the deposit is what was placed less what was withdrawn or
  used; and neither is negative.
\<close>

theorem debt_account_conservation:
  "case run_ops xs (new_account, zero_totals) of (a, t) \<Rightarrow>
     outstanding_of a = charged t - paid t - waived t - paid_from_deposit t \<and>
     deposit_of a = deposited t - withdrawn t - paid_from_deposit t \<and>
     is_well_formed a"
proof -
  have "case run_ops xs (a, t) of (a, t) \<Rightarrow>
     outstanding_of a = charged t - paid t - waived t - paid_from_deposit t \<and>
     deposit_of a = deposited t - withdrawn t - paid_from_deposit t \<and> is_well_formed a"
    if "is_well_formed a"
      and "outstanding_of a = charged t - paid t - waived t - paid_from_deposit t"
      and "deposit_of a = deposited t - withdrawn t - paid_from_deposit t" for a t
    using that
  proof (induction xs arbitrary: a t)
    case Nil
    then show ?case by simp
  next
    case (Cons x xs)
    show ?case
    proof (cases "apply_op x a")
      case (Ok a')
      have "is_well_formed a'"
        and "outstanding_of a' = charged (note_op x t) - paid (note_op x t) - waived (note_op x t)
              - paid_from_deposit (note_op x t)"
        and "deposit_of a' = deposited (note_op x t) - withdrawn (note_op x t)
              - paid_from_deposit (note_op x t)"
        using apply_op_step [OF Ok Cons.prems refl] by blast+
      then show ?thesis using Ok Cons.IH by simp
    qed (use Cons in simp_all)
  qed
  then show ?thesis
    by (simp add: new_account_def zero_totals_def is_well_formed_def)
qed

end
