(* ===== verification/Royalty_Splits.thy ===== *)
theory Royalty_Splits
  imports Transition_Systems
begin

text \<open>
  \<open>contracts/royalty-splits/src/lib.rs\<close>: immutable revenue-split manifests, the distribution of an
  amount over a manifest with deterministic rounding, and the withdrawal of credited balances. The
  contract keeps books only; it moves no tokens.
\<close>

section \<open>State and operations\<close>

datatype ContractError =
    NotInitialized | AlreadyInitialized | NotAdmin | ManifestAlreadyExists | ManifestNotFound
  | EmptyManifest | TooManyRecipients | MismatchedLengths | InvalidBps | InvalidAmount
  | NothingToWithdraw | Overflow

definition TOTAL_BPS :: nat where "TOTAL_BPS = 10000"
definition MAX_RECIPIENTS :: nat where "MAX_RECIPIENTS = 20"

record SplitManifest =
  recipients :: "address list"
  bps :: "nat list"
  created_at :: nat

record AssetLedger =
  total_distributed :: int
  total_withdrawn :: int

record splits_state =
  Admin :: "address option"
  Manifest :: "hash32 \<rightharpoonup> SplitManifest"
  Balance :: "address \<times> string \<rightharpoonup> int"
  AssetLedgers :: "string \<rightharpoonup> AssetLedger"

definition splits_init :: splits_state where
  "splits_init = \<lparr>Admin = None, Manifest = Map.empty, Balance = Map.empty, AssetLedgers = Map.empty\<rparr>"

definition initialize :: "env \<Rightarrow> address \<Rightarrow> splits_state \<Rightarrow> (ContractError, splits_state) outcome" where
  "initialize env admin s =
     (if Admin s \<noteq> None then Err AlreadyInitialized
      else and_then (require_auth env admin) (\<lambda>_. Ok (s\<lparr>Admin := Some admin\<rparr>)))"

definition require_admin :: "env \<Rightarrow> splits_state \<Rightarrow> address \<Rightarrow> (ContractError, unit) outcome" where
  "require_admin env s caller =
     and_then (ok_or (Admin s) NotInitialized) (\<lambda>admin.
     if caller \<noteq> admin then Err NotAdmin
     else and_then (require_auth env caller) (\<lambda>_. Ok ()))"

text \<open>The loop over \<open>bps\<close> in \<open>create_manifest\<close>: shares are positive, their sum is a checked \<open>u32\<close>.\<close>

fun sum_shares :: "nat list \<Rightarrow> nat \<Rightarrow> (ContractError, nat) outcome" where
  "sum_shares [] acc = Ok acc"
| "sum_shares (share # rest) acc =
     (if share = 0 then Err InvalidBps
      else and_then (ok_or (u32_checked (acc + share)) Overflow) (sum_shares rest))"

definition create_manifest ::
  "env \<Rightarrow> address \<Rightarrow> hash32 \<Rightarrow> address list \<Rightarrow> nat list \<Rightarrow> splits_state \<Rightarrow>
   (ContractError, splits_state) outcome" where
  "create_manifest env admin mid rs bs s =
     and_then (require_admin env s admin) (\<lambda>_.
     if Manifest s mid \<noteq> None then Err ManifestAlreadyExists
     else if rs = [] then Err EmptyManifest
     else if length rs > MAX_RECIPIENTS then Err TooManyRecipients
     else if length rs \<noteq> length bs then Err MismatchedLengths
     else and_then (sum_shares bs 0) (\<lambda>total.
     if total \<noteq> TOTAL_BPS then Err InvalidBps
     else Ok (s\<lparr>Manifest := (Manifest s)
       (mid \<mapsto> \<lparr>recipients = rs, bps = bs, created_at = timestamp env\<rparr>)\<rparr>)))"

definition get_manifest :: "splits_state \<Rightarrow> hash32 \<Rightarrow> (ContractError, SplitManifest) outcome" where
  "get_manifest s mid = ok_or (Manifest s mid) ManifestNotFound"

text \<open>The loop of \<open>distribute\<close> over the remaining indices, with \<open>distributed_so_far\<close> and the balances.\<close>

fun distribute_loop ::
  "SplitManifest \<Rightarrow> string \<Rightarrow> int \<Rightarrow> nat list \<Rightarrow> int \<times> (address \<times> string \<rightharpoonup> int) \<Rightarrow>
   (ContractError, int \<times> (address \<times> string \<rightharpoonup> int)) outcome" where
  "distribute_loop m asset n [] acc = Ok acc"
| "distribute_loop m asset n (i # is) (d, B) =
     and_then (ok_or (vec_get (recipients m) i) ManifestNotFound) (\<lambda>recipient.
     and_then
       (if i = length (recipients m) - 1
        then ok_or (i128_checked (n - d)) Overflow
        else and_then (ok_or (vec_get (bps m) i) ManifestNotFound) (\<lambda>share_bps.
             and_then (ok_or (i128_checked (n * int share_bps)) Overflow) (\<lambda>raw.
             Ok (div_trunc raw (int TOTAL_BPS))))) (\<lambda>share.
     and_then (ok_or (i128_checked (d + share)) Overflow) (\<lambda>d.
     and_then (ok_or (i128_checked (unwrap_or (B (recipient, asset)) 0 + share)) Overflow) (\<lambda>b.
     distribute_loop m asset n is (d, B((recipient, asset) \<mapsto> b))))))"

definition zero_ledger :: AssetLedger where
  "zero_ledger = \<lparr>total_distributed = 0, total_withdrawn = 0\<rparr>"

definition distribute ::
  "env \<Rightarrow> address \<Rightarrow> hash32 \<Rightarrow> string \<Rightarrow> int \<Rightarrow> splits_state \<Rightarrow>
   (ContractError, splits_state) outcome" where
  "distribute env admin mid asset n s =
     and_then (require_admin env s admin) (\<lambda>_.
     if n \<le> 0 then Err InvalidAmount
     else and_then (get_manifest s mid) (\<lambda>m.
     and_then (distribute_loop m asset n [0..<length (recipients m)] (0, Balance s)) (\<lambda>(d, B).
     let ledger = unwrap_or (AssetLedgers s asset) zero_ledger in
     and_then (ok_or (i128_checked (total_distributed ledger + n)) Overflow) (\<lambda>td.
     Ok (s\<lparr>Balance := B,
           AssetLedgers := (AssetLedgers s)(asset \<mapsto> ledger\<lparr>total_distributed := td\<rparr>)\<rparr>)))))"

definition withdraw ::
  "env \<Rightarrow> address \<Rightarrow> string \<Rightarrow> splits_state \<Rightarrow> (ContractError, int \<times> splits_state) outcome" where
  "withdraw env recipient asset s =
     and_then (require_auth env recipient) (\<lambda>_.
     let balance = unwrap_or (Balance s (recipient, asset)) 0 in
     if balance \<le> 0 then Err NothingToWithdraw
     else
       let s = s\<lparr>Balance := (Balance s)((recipient, asset) \<mapsto> 0)\<rparr> in
       and_then (ok_or (AssetLedgers s asset) NothingToWithdraw) (\<lambda>ledger.
       and_then (ok_or (i128_checked (total_withdrawn ledger + balance)) Overflow) (\<lambda>tw.
       Ok (balance, s\<lparr>AssetLedgers := (AssetLedgers s)
         (asset \<mapsto> ledger\<lparr>total_withdrawn := tw\<rparr>)\<rparr>))))"

definition get_balance :: "splits_state \<Rightarrow> address \<Rightarrow> string \<Rightarrow> int" where
  "get_balance s recipient asset = unwrap_or (Balance s (recipient, asset)) 0"

definition get_asset_ledger :: "splits_state \<Rightarrow> string \<Rightarrow> AssetLedger" where
  "get_asset_ledger s asset = unwrap_or (AssetLedgers s asset) zero_ledger"

definition get_outstanding_liability :: "splits_state \<Rightarrow> string \<Rightarrow> (ContractError, int) outcome" where
  "get_outstanding_liability s asset =
     (let ledger = get_asset_ledger s asset
      in i128_op (total_distributed ledger - total_withdrawn ledger))"

datatype splits_call =
    Initialize address | CreateManifest address hash32 "address list" "nat list"
  | Distribute address hash32 string int | Withdraw address string

fun splits_exec :: "env \<Rightarrow> splits_call \<Rightarrow> splits_state \<Rightarrow> (ContractError, splits_state) outcome" where
  "splits_exec env (Initialize a) s = initialize env a s"
| "splits_exec env (CreateManifest a mid rs bs) s = create_manifest env a mid rs bs s"
| "splits_exec env (Distribute a mid asset n) s = distribute env a mid asset n s"
| "splits_exec env (Withdraw r asset) s = and_then (withdraw env r asset s) (\<lambda>(_, s). Ok s)"

inductive splits_step :: "splits_state \<Rightarrow> splits_state \<Rightarrow> bool" where
  call: "splits_exec env c s = Ok s' \<Longrightarrow> splits_step s s'"

inductive_cases splits_stepE: "splits_step s s'"

section \<open>Manifests\<close>

definition manifest_ok :: "SplitManifest \<Rightarrow> bool" where
  "manifest_ok m \<longleftrightarrow> recipients m \<noteq> [] \<and> length (recipients m) \<le> MAX_RECIPIENTS \<and>
     length (bps m) = length (recipients m) \<and> (\<forall>b\<in>set (bps m). 0 < b) \<and> sum_list (bps m) = TOTAL_BPS"

lemma sum_shares_Ok:
  "sum_shares bs t = Ok r \<longleftrightarrow>
     r = t + sum_list bs \<and> (\<forall>b\<in>set bs. 0 < b) \<and> (bs = [] \<or> fits_u32 (t + sum_list bs))"
proof (induction bs arbitrary: t)
  case (Cons b bs)
  then show ?case by (cases bs) (auto simp: outcome_iff fits_u32_def add.assoc)
qed auto

lemma royalty_require_admin_Ok [outcome_iff]:
  "require_admin env s a = Ok u \<longleftrightarrow> Admin s = Some a \<and> auth env a"
  by (auto simp: require_admin_def outcome_iff)

lemma create_manifest_Ok:
  "create_manifest env a mid rs bs s = Ok s' \<longleftrightarrow>
     Admin s = Some a \<and> auth env a \<and> Manifest s mid = None \<and>
     manifest_ok \<lparr>recipients = rs, bps = bs, created_at = timestamp env\<rparr> \<and>
     s' = s\<lparr>Manifest := (Manifest s)(mid \<mapsto> \<lparr>recipients = rs, bps = bs, created_at = timestamp env\<rparr>)\<rparr>"
  by (auto simp: create_manifest_def outcome_iff sum_shares_Ok manifest_ok_def TOTAL_BPS_def
      fits_u32_def)

section \<open>The distribution loop\<close>

text \<open>The share of index \<open>i\<close>: rounded down, and the last recipient takes what is left.\<close>

definition floor_share :: "SplitManifest \<Rightarrow> int \<Rightarrow> nat \<Rightarrow> int" where
  "floor_share m n i = n * int (bps m ! i) div int TOTAL_BPS"

definition share_of :: "SplitManifest \<Rightarrow> int \<Rightarrow> nat \<Rightarrow> int" where
  "share_of m n i =
     (if i = length (recipients m) - 1
      then n - (\<Sum>j<length (recipients m) - 1. floor_share m n j)
      else floor_share m n i)"

text \<open>What a recipient gets in total, if listed more than once.\<close>

definition credit :: "SplitManifest \<Rightarrow> int \<Rightarrow> nat set \<Rightarrow> address \<Rightarrow> int" where
  "credit m n I r = (\<Sum>i\<in>I. if recipients m ! i = r then share_of m n i else 0)"

definition asset_total :: "(address \<times> string \<rightharpoonup> int) \<Rightarrow> string \<Rightarrow> int" where
  "asset_total B a = msum id (\<lambda>r. B (r, a))"

lemma finite_section: "finite (dom B) \<Longrightarrow> finite (dom (\<lambda>r. B (r, a)))"
proof -
  assume "finite (dom B)"
  moreover have "dom (\<lambda>r. B (r, a)) \<subseteq> fst ` dom B" by force
  ultimately show ?thesis by (meson finite_imageI finite_subset)
qed

lemma asset_total_update:
  assumes "finite (dom B)"
  shows "asset_total (B((r, a) \<mapsto> v)) b =
    asset_total B b + (if b = a then v - unwrap_or (B (r, a)) 0 else 0)"
proof (cases "b = a")
  case True
  have "(\<lambda>x. (B((r, a) \<mapsto> v)) (x, a)) = (\<lambda>x. B (x, a))(r \<mapsto> v)" by auto
  then show ?thesis
    using True finite_section [OF assms, of a]
    by (cases "B (r, a)") (simp_all add: asset_total_def msum_update)
qed (simp add: asset_total_def)

lemma last_share:
  "k = length (recipients m) - 1 \<Longrightarrow> share_of m n k = n - (\<Sum>j<k. share_of m n j)"
  by (simp add: share_of_def)

lemma share_step:
  assumes "(if k = length (recipients m) - 1 then ok_or (i128_checked (n - d)) Overflow
        else and_then (ok_or (vec_get (bps m) k) ManifestNotFound) (\<lambda>share_bps.
             and_then (ok_or (i128_checked (n * int share_bps)) Overflow) (\<lambda>raw.
             Ok (div_trunc raw (int TOTAL_BPS))))) = Ok share"
    and "0 \<le> n" "d = (\<Sum>j<k. share_of m n j)"
  shows "share = share_of m n k"
proof (cases "k = length (recipients m) - 1")
  case True
  then show ?thesis using assms(1,3) last_share [OF True] by (simp add: outcome_iff)
next
  case False
  then show ?thesis
    using assms(1,2)
    by (auto simp: outcome_iff share_of_def floor_share_def div_trunc_nonneg TOTAL_BPS_def)
qed

lemma credit_step:
  "k < N \<Longrightarrow> credit m n {k..<N} r =
     (if recipients m ! k = r then share_of m n k else 0) + credit m n {Suc k..<N} r"
  by (simp add: credit_def sum.atLeast_Suc_lessThan)

lemma distribute_loop_Ok:
  assumes "distribute_loop m a n [k..<N] (d, B) = Ok (d', B')" "k \<le> N" "0 \<le> n"
    "d = (\<Sum>j<k. share_of m n j)" "finite (dom B)"
  shows "d' = (\<Sum>j<N. share_of m n j) \<and> finite (dom B') \<and>
    (\<forall>r b. unwrap_or (B' (r, b)) 0 = unwrap_or (B (r, b)) 0 + (if b = a then credit m n {k..<N} r else 0)) \<and>
    (\<forall>b. asset_total B' b = asset_total B b + (if b = a then d' - d else 0))"
  using assms
proof (induction "N - k" arbitrary: k d B)
  case 0
  then show ?case by (simp add: credit_def)
next
  case (Suc x)
  then have k: "k < N" by simp
  then have upt: "[k..<N] = k # [Suc k..<N]" by (simp add: upt_rec)
  let ?sh = "share_of m n k" and ?r = "recipients m ! k"
  let ?b = "unwrap_or (B (?r, a)) 0 + ?sh"
  have loop: "distribute_loop m a n [Suc k..<N] (d + ?sh, B((?r, a) \<mapsto> ?b)) = Ok (d', B')"
    using Suc.prems(1) unfolding upt
    by (simp only: distribute_loop.simps and_then_Ok)
      (auto simp: outcome_iff dest!: share_step [OF _ Suc.prems(3,4), unfolded One_nat_def])
  have "d' = (\<Sum>j<N. share_of m n j) \<and> finite (dom B') \<and>
    (\<forall>r b. unwrap_or (B' (r, b)) 0 = unwrap_or ((B((?r, a) \<mapsto> ?b)) (r, b)) 0
       + (if b = a then credit m n {Suc k..<N} r else 0)) \<and>
    (\<forall>b. asset_total B' b = asset_total (B((?r, a) \<mapsto> ?b)) b + (if b = a then d' - (d + ?sh) else 0))"
    by (rule Suc.hyps(1) [OF _ loop]) (use Suc k in auto)
  then show ?case
    using Suc.prems(5) by (auto simp: credit_step [OF k] asset_total_update)
qed

section \<open>Arithmetic of the shares\<close>

lemma manifest_total:
  assumes "manifest_ok m"
  shows "(\<Sum>j<length (recipients m) - 1. bps m ! j) + bps m ! (length (recipients m) - 1) = TOTAL_BPS"
proof -
  obtain N where N: "length (recipients m) = Suc N" "length (bps m) = Suc N"
    using assms by (cases "recipients m") (auto simp: manifest_ok_def)
  have "sum_list (bps m) = (\<Sum>j<Suc N. bps m ! j)"
    by (simp add: sum_list_sum_nth N atLeast0LessThan)
  then show ?thesis using assms N by (simp add: manifest_ok_def)
qed

lemma shares_sum: "recipients m \<noteq> [] \<Longrightarrow> (\<Sum>i<length (recipients m). share_of m n i) = n"
  by (cases "length (recipients m)") (simp_all add: last_share)

lemma floor_share_bounds:
  "floor_share m n i * 10000 \<le> n * int (bps m ! i)"
  "n * int (bps m ! i) < floor_share m n i * 10000 + 10000"
  unfolding floor_share_def TOTAL_BPS_def by simp_all

lemma floors_bounds:
  "(\<Sum>j<k. floor_share m n j) * 10000 \<le> n * int (\<Sum>j<k. bps m ! j)"
  "n * int (\<Sum>j<k. bps m ! j) \<le> (\<Sum>j<k. floor_share m n j) * 10000 + 10000 * int k"
proof (induction k)
  case (Suc k)
  note floor_share_bounds [where m = m and n = n and i = k]
  with Suc show "(\<Sum>j<Suc k. floor_share m n j) * 10000 \<le> n * int (\<Sum>j<Suc k. bps m ! j)"
    and "n * int (\<Sum>j<Suc k. bps m ! j) \<le> (\<Sum>j<Suc k. floor_share m n j) * 10000 + 10000 * int (Suc k)"
    by (simp_all add: distrib_left distrib_right)
qed simp_all

text \<open>Nobody gets less than the rounded-down share, and rounding gives the last one at most \<open>N - 1\<close> more.\<close>

lemma share_bounds:
  assumes "manifest_ok m" "i < length (recipients m)"
  shows "n * int (bps m ! i) - 10000 < share_of m n i * 10000"
    and "share_of m n i * 10000 < n * int (bps m ! i) + 10000 * int (length (recipients m))"
proof -
  define N where "N = length (recipients m) - 1"
  define F where "F = (\<Sum>j<N. floor_share m n j)"
  define b where "b = int (\<Sum>j<N. bps m ! j)"
  have len: "length (recipients m) = Suc N" using assms(2) by (simp add: N_def)
  have "(\<Sum>j<N. bps m ! j) + bps m ! N = 10000"
    using manifest_total [OF assms(1)] by (simp add: N_def TOTAL_BPS_def)
  then have "b + int (bps m ! N) = 10000" unfolding b_def by linarith
  then have "n * b + n * int (bps m ! N) = n * 10000" by (metis distrib_left)
  moreover have "F * 10000 \<le> n * b" "n * b \<le> F * 10000 + 10000 * int N"
    using floors_bounds [where m = m and n = n and k = N] unfolding F_def b_def by simp_all
  moreover have "share_of m n N = n - F" by (simp add: share_of_def len F_def)
  ultimately have last: "n * int (bps m ! N) \<le> share_of m n N * 10000"
    "share_of m n N * 10000 \<le> n * int (bps m ! N) + 10000 * int N"
    by (simp_all add: left_diff_distrib)
  show "n * int (bps m ! i) - 10000 < share_of m n i * 10000"
    and "share_of m n i * 10000 < n * int (bps m ! i) + 10000 * int (length (recipients m))"
    using last floor_share_bounds [where m = m and n = n and i = i] assms(2)
    by (cases "i = N"; simp add: share_of_def len)+
qed

lemma share_nonneg:
  assumes "manifest_ok m" "i < length (recipients m)" "0 \<le> n"
  shows "0 \<le> share_of m n i"
proof -
  have "0 \<le> n * int (bps m ! i)" using assms(3) by simp
  with share_bounds(1) [OF assms(1,2), of n] show ?thesis by linarith
qed

lemma credit_nonneg: "manifest_ok m \<Longrightarrow> 0 \<le> n \<Longrightarrow> I \<subseteq> {..<length (recipients m)} \<Longrightarrow> 0 \<le> credit m n I r"
  unfolding credit_def by (intro sum_nonneg) (auto intro: share_nonneg)

section \<open>Invariant\<close>

definition splits_inv :: "splits_state \<Rightarrow> bool" where
  "splits_inv s \<longleftrightarrow> finite (dom (Balance s)) \<and>
     (\<forall>k b. Balance s k = Some b \<longrightarrow> 0 \<le> b) \<and>
     (\<forall>mid m. Manifest s mid = Some m \<longrightarrow> manifest_ok m) \<and>
     (\<forall>a. let l = get_asset_ledger s a in
        asset_total (Balance s) a = total_distributed l - total_withdrawn l \<and> 0 \<le> total_withdrawn l \<and>
        fits_i128 (total_distributed l))"

lemma distribute_Ok:
  assumes "distribute env admin mid a n s = Ok s'" "splits_inv s"
  obtains m where "Admin s = Some admin" "auth env admin" "0 < n" "Manifest s mid = Some m" "manifest_ok m"
    "\<And>r b. get_balance s' r b = get_balance s r b +
       (if b = a then credit m n {0..<length (recipients m)} r else 0)"
    "finite (dom (Balance s'))"
    "\<And>b. asset_total (Balance s') b = asset_total (Balance s) b + (if b = a then n else 0)"
    "AssetLedgers s' = (AssetLedgers s)(a \<mapsto> (get_asset_ledger s a)
       \<lparr>total_distributed := total_distributed (get_asset_ledger s a) + n\<rparr>)"
    "fits_i128 (total_distributed (get_asset_ledger s a) + n)"
    "Manifest s' = Manifest s" "Admin s' = Admin s"
proof -
  from assms(1) obtain m d B where
    ok: "Admin s = Some admin" "auth env admin" "0 < n" "Manifest s mid = Some m"
    and loop: "distribute_loop m a n [0..<length (recipients m)] (0, Balance s) = Ok (d, B)"
    and s': "s' = s\<lparr>Balance := B, AssetLedgers := (AssetLedgers s)(a \<mapsto> (get_asset_ledger s a)
       \<lparr>total_distributed := total_distributed (get_asset_ledger s a) + n\<rparr>)\<rparr>"
    and fit: "fits_i128 (total_distributed (get_asset_ledger s a) + n)"
    by (auto simp: distribute_def get_manifest_def get_asset_ledger_def outcome_iff Let_def)
  have m: "manifest_ok m" "finite (dom (Balance s))" using assms(2) ok by (auto simp: splits_inv_def)
  then have "recipients m \<noteq> []" by (simp add: manifest_ok_def)
  then have d: "d = n" and fin: "finite (dom B)"
    and bal: "\<And>r b. unwrap_or (B (r, b)) 0 = unwrap_or (Balance s (r, b)) 0
      + (if b = a then credit m n {0..<length (recipients m)} r else 0)"
    and tot: "\<And>b. asset_total B b = asset_total (Balance s) b + (if b = a then d else 0)"
    using distribute_loop_Ok [OF loop] ok(3) m(2) shares_sum [of m n] by auto
  show thesis
    by (rule that [OF ok m(1)]) (use bal fin tot d s' fit in \<open>simp_all add: get_balance_def\<close>)
qed

lemma royalty_withdraw_Ok:
  assumes "withdraw env r a s = Ok (n, s')"
  obtains l where "auth env r" "n = get_balance s r a" "0 < n" "AssetLedgers s a = Some l"
    "s' = s\<lparr>Balance := (Balance s)((r, a) \<mapsto> 0),
       AssetLedgers := (AssetLedgers s)(a \<mapsto> l\<lparr>total_withdrawn := total_withdrawn l + n\<rparr>)\<rparr>"
  using assms by (auto simp: withdraw_def get_balance_def outcome_iff Let_def)

lemma royalty_balance_nonneg: "splits_inv s \<Longrightarrow> 0 \<le> get_balance s r a"
  by (cases "Balance s (r, a)") (auto simp: splits_inv_def get_balance_def)

lemma inv_ledger:
  assumes "splits_inv s"
  shows "asset_total (Balance s) a =
      total_distributed (get_asset_ledger s a) - total_withdrawn (get_asset_ledger s a)"
    and "0 \<le> total_withdrawn (get_asset_ledger s a)"
    and "fits_i128 (total_distributed (get_asset_ledger s a))"
  using assms by (simp_all add: splits_inv_def Let_def)

lemma distribute_inv:
  assumes "distribute env admin mid a n s = Ok s'" "splits_inv s"
  shows "splits_inv s'"
  using assms
proof (rule distribute_Ok)
  fix m
  assume *: "0 < n" "manifest_ok m"
    "\<And>r b. get_balance s' r b = get_balance s r b +
       (if b = a then credit m n {0..<length (recipients m)} r else 0)"
    "finite (dom (Balance s'))"
    "\<And>b. asset_total (Balance s') b = asset_total (Balance s) b + (if b = a then n else 0)"
    "AssetLedgers s' = (AssetLedgers s)(a \<mapsto> (get_asset_ledger s a)
       \<lparr>total_distributed := total_distributed (get_asset_ledger s a) + n\<rparr>)"
    "Manifest s' = Manifest s"
    "fits_i128 (total_distributed (get_asset_ledger s a) + n)"
  have "0 \<le> get_balance s' r b" for r b
    using *(1-3) royalty_balance_nonneg [OF assms(2), of r b]
      credit_nonneg [of m n "{0..<length (recipients m)}" r] by (simp add: atLeast0LessThan)
  then have "\<forall>k b. Balance s' k = Some b \<longrightarrow> 0 \<le> b"
    by (metis get_balance_def unwrap_or_simps(2) prod.collapse)
  then show ?thesis
    using * assms(2) by (auto simp: splits_inv_def get_asset_ledger_def Let_def split: if_splits)
qed

lemma withdraw_inv:
  assumes "withdraw env r a s = Ok (n, s')" "splits_inv s"
  shows "splits_inv s'"
  using assms(1)
proof (rule royalty_withdraw_Ok)
  fix l
  assume *: "n = get_balance s r a" "0 < n" "AssetLedgers s a = Some l"
    "s' = s\<lparr>Balance := (Balance s)((r, a) \<mapsto> 0),
       AssetLedgers := (AssetLedgers s)(a \<mapsto> l\<lparr>total_withdrawn := total_withdrawn l + n\<rparr>)\<rparr>"
  have fin: "finite (dom (Balance s))" using assms(2) by (simp add: splits_inv_def)
  have "0 \<le> total_withdrawn l + get_balance s r a" "fits_i128 (total_distributed l)"
    using inv_ledger(2,3) [OF assms(2), of a] * by (simp_all add: get_asset_ledger_def)
  then show ?thesis
    using * assms(2)
    by (auto simp: splits_inv_def get_asset_ledger_def asset_total_update [OF fin] get_balance_def
        Let_def split: if_splits)
qed

lemma setup_inv:
  "initialize env a s = Ok s' \<Longrightarrow> splits_inv s \<Longrightarrow> splits_inv s'"
  "create_manifest env a mid rs bs s = Ok s' \<Longrightarrow> splits_inv s \<Longrightarrow> splits_inv s'"
  by (auto simp: outcome_iff initialize_def create_manifest_Ok splits_inv_def get_asset_ledger_def)

lemma splits_exec_inv: "splits_exec env c s = Ok s' \<Longrightarrow> splits_inv s \<Longrightarrow> splits_inv s'"
  by (cases c)
    (auto simp: outcome_iff intro: setup_inv distribute_inv withdraw_inv)

lemma splits_init_inv: "splits_inv splits_init"
  by (simp add: splits_inv_def splits_init_def get_asset_ledger_def zero_ledger_def asset_total_def
      fits_i128_def)

interpretation splits_runs: preserved splits_step splits_inv
  by unfold_locales (auto intro: splits_exec_inv elim: splits_stepE)

lemma splits_reachable_inv: "splits_step\<^sup>*\<^sup>* splits_init s \<Longrightarrow> splits_inv s"
  by (rule splits_runs.run [OF _ splits_init_inv])

section \<open>Distribution never gets stuck\<close>

lemma balance_le_total:
  assumes "finite (dom B)" "\<forall>k b. B k = Some b \<longrightarrow> 0 \<le> b"
  shows "unwrap_or (B (r, a)) 0 \<le> asset_total B a" and "0 \<le> asset_total B a"
proof -
  show nonneg: "0 \<le> asset_total B a"
    unfolding asset_total_def using assms(2) by (intro msum_nonneg) simp
  show "unwrap_or (B (r, a)) 0 \<le> asset_total B a"
  proof (cases "B (r, a)")
    case (Some x)
    then have "id x \<le> msum id (\<lambda>r. B (r, a))"
      using assms by (intro msum_mem_le finite_section) auto
    with Some show ?thesis by (simp add: asset_total_def)
  qed (use nonneg in simp)
qed

lemma distribute_loop_succeeds:
  assumes "manifest_ok m" "0 < n" "fits_i128 (n * 10000)" "k \<le> length (recipients m)"
    "d = (\<Sum>j<k. share_of m n j)" "finite (dom B)" "\<forall>k b. B k = Some b \<longrightarrow> 0 \<le> b"
    "asset_total B a + (n - d) < 2 ^ 127"
  shows "is_ok (distribute_loop m a n [k..<length (recipients m)] (d, B))"
  using assms(4-)
proof (induction "length (recipients m) - k" arbitrary: k d B)
  case 0
  then show ?case by simp
next
  case (Suc x)
  let ?N = "length (recipients m)"
  have k: "k < ?N" using Suc.hyps(2) by simp
  then have upt: "[k..<?N] = k # [Suc k..<?N]" by (simp add: upt_rec)
  let ?sh = "share_of m n k" and ?r = "recipients m ! k"
  let ?b = "unwrap_or (B (?r, a)) 0 + ?sh"
  have sh: "0 \<le> ?sh" using share_nonneg assms(1,2) k by simp
  have d: "0 \<le> d" using assms(1,2) k Suc.prems(2) by (auto intro!: sum_nonneg share_nonneg)
  have "(\<Sum>j<Suc k. share_of m n j) \<le> (\<Sum>j<?N. share_of m n j)"
    using share_nonneg assms(1,2) k by (intro sum_mono2) auto
  moreover have "recipients m \<noteq> []" using assms(1) by (simp add: manifest_ok_def)
  ultimately have le: "d + ?sh \<le> n" using Suc.prems(2) shares_sum [of m n] by simp
  have n: "n < 2 ^ 127" using assms(2,3) by (simp add: fits_i128_def)
  note tot = balance_le_total(1) [OF Suc.prems(3,4), of ?r a] balance_le_total(2) [OF Suc.prems(3,4), of a]
  have b0: "0 \<le> unwrap_or (B (?r, a)) 0"
    using Suc.prems(4) by (cases "B (?r, a)") auto
  have bk: "bps m ! k \<le> 10000" "k < length (bps m)"
    using assms(1) k member_le_sum_list [of "bps m ! k" "bps m"]
    by (auto simp: manifest_ok_def TOTAL_BPS_def)
  then have "n * int (bps m ! k) \<le> n * 10000" using assms(2) by (intro mult_left_mono) auto
  moreover have "0 \<le> n * int (bps m ! k)" using assms(2) by simp
  ultimately have raw: "fits_i128 (n * int (bps m ! k))"
    using assms(3) unfolding fits_i128_def by linarith
  have fits: "fits_i128 (n - d)" "fits_i128 (d + ?sh)" "fits_i128 ?b"
    using le sh d n tot Suc.prems(5) b0 by (auto simp: fits_i128_def)
  have share: "(if k = ?N - 1 then ok_or (i128_checked (n - d)) Overflow
        else and_then (ok_or (vec_get (bps m) k) ManifestNotFound) (\<lambda>share_bps.
             and_then (ok_or (i128_checked (n * int share_bps)) Overflow) (\<lambda>raw.
             Ok (div_trunc raw (int TOTAL_BPS))))) = Ok ?sh"
    using last_share [of k m n] Suc.prems(2) fits(1) raw bk assms(2)
    by (auto simp: i128_checked_def div_trunc_nonneg share_of_def floor_share_def TOTAL_BPS_def)
  have "is_ok (distribute_loop m a n [Suc k..<?N] (d + ?sh, B((?r, a) \<mapsto> ?b)))"
  proof (rule Suc.hyps(1))
    show "asset_total (B((?r, a) \<mapsto> ?b)) a + (n - (d + ?sh)) < 2 ^ 127"
      using Suc.prems(5) by (simp add: asset_total_update [OF Suc.prems(3)])
  qed (use Suc.hyps(2) Suc.prems k sh b0 in auto)
  then show ?case
    unfolding upt by (simp add: share [simplified] fits i128_checked_def k del: upt_Suc)
qed

section \<open>Properties\<close>

text \<open>
  A run used by the witnesses: admin 1 creates a three-way manifest (33.33, 33.33 and 33.34 percent
  for accounts 2, 3 and 4) and distributes 100 units of an asset.
\<close>

abbreviation splits_env :: env where
  "splits_env \<equiv> \<lparr>timestamp = 10, ledger_sequence = 7, self = 99, auth = (\<lambda>_. True)\<rparr>"

definition demo_manifest :: SplitManifest where
  "demo_manifest = \<lparr>recipients = [2, 3, 4], bps = [3333, 3333, 3334], created_at = 10\<rparr>"

definition demo_splits :: splits_state where
  "demo_splits = splits_init\<lparr>Admin := Some 1, Manifest := [[7] \<mapsto> demo_manifest]\<rparr>"

definition demo_paid :: splits_state where
  "demo_paid = demo_splits\<lparr>
     Balance := [(2, ''USD'') \<mapsto> 33, (3, ''USD'') \<mapsto> 33, (4, ''USD'') \<mapsto> 34],
     AssetLedgers := [''USD'' \<mapsto> \<lparr>total_distributed = 100, total_withdrawn = 0\<rparr>]\<rparr>"

lemmas demo_splits_defs = demo_paid_def demo_splits_def demo_manifest_def splits_init_def

lemma demo_splits_steps:
  "splits_exec splits_env (Initialize 1) splits_init = Ok (splits_init\<lparr>Admin := Some 1\<rparr>)"
  "splits_exec splits_env (CreateManifest 1 [7] [2, 3, 4] [3333, 3333, 3334])
     (splits_init\<lparr>Admin := Some 1\<rparr>) = Ok demo_splits"
  "splits_exec splits_env (Distribute 1 [7] ''USD'' 100) demo_splits = Ok demo_paid"
  by (simp_all add: demo_splits_defs initialize_def create_manifest_def require_admin_def range_defs
      TOTAL_BPS_def MAX_RECIPIENTS_def distribute_def get_manifest_def zero_ledger_def Let_def
      i128_checked_def u32_checked_def div_trunc_def vec_get_def upt_rec [of _ 3])

lemma demo_splits_reachable: "splits_step\<^sup>*\<^sup>* splits_init demo_splits" "splits_step\<^sup>*\<^sup>* splits_init demo_paid"
  using demo_splits_steps [THEN splits_step.call]
  by (meson rtranclp.rtrancl_into_rtrancl rtranclp.rtrancl_refl)+

text \<open>
  C7. Distribution is exact. A successful distribution of \<open>n\<close> credits every recipient with its share
  of the manifest, counted once per listing, and nothing else changes in any asset. The shares are
  not negative, add up to \<open>n\<close> with no dust, and each deviates from the exact proportion by less than
  one unit per recipient of the manifest.
\<close>

theorem distribute_exact:
  assumes "splits_step\<^sup>*\<^sup>* splits_init s" and "distribute env admin mid a n s = Ok s'"
  shows "\<exists>m. Manifest s mid = Some m \<and> (\<Sum>i<length (recipients m). share_of m n i) = n \<and>
    (\<forall>i<length (recipients m). 0 \<le> share_of m n i \<and>
       \<bar>share_of m n i * 10000 - n * int (bps m ! i)\<bar> < 10000 * int (length (recipients m))) \<and>
    (\<forall>r b. get_balance s' r b = get_balance s r b +
       (if b = a then credit m n {0..<length (recipients m)} r else 0))"
  using assms(2) splits_reachable_inv [OF assms(1)]
proof (rule distribute_Ok)
  fix m
  assume *: "0 < n" "Manifest s mid = Some m" "manifest_ok m"
    "\<And>r b. get_balance s' r b = get_balance s r b +
       (if b = a then credit m n {0..<length (recipients m)} r else 0)"
  have ne: "recipients m \<noteq> []" using *(3) by (simp add: manifest_ok_def)
  have "\<bar>share_of m n i * 10000 - n * int (bps m ! i)\<bar> < 10000 * int (length (recipients m))"
    if "i < length (recipients m)" for i
    using share_bounds [OF *(3) that, of n] that by linarith
  with * shares_sum [OF ne] share_nonneg [OF *(3)] show ?thesis
    by (intro exI [of _ m]) auto
qed

theorem distribute_exact_witness:
  "distribute splits_env 1 [7] ''USD'' 100 demo_splits = Ok demo_paid \<and>
   (\<exists>m. Manifest demo_splits [7] = Some m \<and> (\<Sum>i<length (recipients m). share_of m 100 i) = 100)"
  using distribute_exact [OF demo_splits_reachable(1), of splits_env 1 "[7]" "''USD''" 100 demo_paid]
    demo_splits_steps(3) by auto

text \<open>
  C8. The books reconcile. In every reachable state and for every asset the outstanding liability,
  total distributed less total withdrawn, is computed without overflow and equals the sum of all
  recipients' balances, none of which is negative.
\<close>

theorem royalty_books_reconcile:
  assumes "splits_step\<^sup>*\<^sup>* splits_init s"
  shows "get_outstanding_liability s a = Ok (\<Sum>r\<in>{r. Balance s (r, a) \<noteq> None}. get_balance s r a) \<and>
    0 \<le> get_balance s r a"
proof -
  have inv: "splits_inv s" by (rule splits_reachable_inv [OF assms])
  have "asset_total (Balance s) a = (\<Sum>r\<in>{r. Balance s (r, a) \<noteq> None}. get_balance s r a)"
    unfolding asset_total_def msum_def dom_def get_balance_def by (intro sum.cong) auto
  moreover have "0 \<le> asset_total (Balance s) a"
    using inv by (intro balance_le_total(2)) (auto simp: splits_inv_def)
  ultimately show ?thesis
    using inv_ledger [OF inv, of a] royalty_balance_nonneg [OF inv]
    by (simp add: get_outstanding_liability_def Let_def fits_i128_def)
qed

theorem royalty_books_reconcile_witness:
  "get_outstanding_liability demo_paid ''USD'' =
     Ok (\<Sum>r\<in>{r. Balance demo_paid (r, ''USD'') \<noteq> None}. get_balance demo_paid r ''USD'') \<and>
   get_outstanding_liability demo_paid ''USD'' = Ok 100"
proof
  show "get_outstanding_liability demo_paid ''USD'' =
     Ok (\<Sum>r\<in>{r. Balance demo_paid (r, ''USD'') \<noteq> None}. get_balance demo_paid r ''USD'')"
    using royalty_books_reconcile [OF demo_splits_reachable(2), of "''USD''"] by blast
  show "get_outstanding_liability demo_paid ''USD'' = Ok 100"
    by (simp add: demo_splits_defs get_outstanding_liability_def get_asset_ledger_def range_defs)
qed

text \<open>
  Distribution never gets stuck half-way. In every reachable state, the admin's distribution of
  a positive amount over an existing manifest succeeds whenever the amount times 10000 and the new
  total fit an \<open>i128\<close>: no balance, share or running sum can overflow before those do.
\<close>

theorem distribute_succeeds:
  assumes "splits_step\<^sup>*\<^sup>* splits_init s" and "Admin s = Some admin" and "auth env admin"
    and "Manifest s mid = Some m" and "0 < n" and "fits_i128 (n * 10000)"
    and "fits_i128 (total_distributed (get_asset_ledger s a) + n)"
  shows "is_ok (distribute env admin mid a n s)"
proof -
  have inv: "splits_inv s" by (rule splits_reachable_inv [OF assms(1)])
  have "asset_total (Balance s) a + (n - 0) < 2 ^ 127"
    using inv_ledger [OF inv, of a] assms(7) by (simp add: fits_i128_def)
  then have "is_ok (distribute_loop m a n [0..<length (recipients m)] (0, Balance s))"
    using inv assms(4-6) by (intro distribute_loop_succeeds) (auto simp: splits_inv_def)
  then obtain d B where "distribute_loop m a n [0..<length (recipients m)] (0, Balance s) = Ok (d, B)"
    by (auto simp: is_ok_iff)
  then show ?thesis
    using assms(2-5,7)
    by (simp add: distribute_def require_admin_def get_manifest_def get_asset_ledger_def
        i128_checked_def Let_def)
qed

theorem distribute_succeeds_witness:
  "is_ok (distribute splits_env 1 [7] ''EUR'' 5 demo_paid)"
  using distribute_succeeds [OF demo_splits_reachable(2), of 1 splits_env "[7]" demo_manifest 5 "''EUR''"]
  by (simp add: demo_paid_def demo_splits_def fits_i128_def get_asset_ledger_def zero_ledger_def)

text \<open>
  Manifests are immutable and balances are their owners'. No call changes or removes a stored
  manifest, and a call that lowers a recipient's balance is that recipient's own withdrawal, which
  takes the whole balance.
\<close>

theorem manifests_immutable_balances_owned:
  assumes "splits_step\<^sup>*\<^sup>* splits_init s" and "splits_exec env c s = Ok s'"
  shows "Manifest s \<subseteq>\<^sub>m Manifest s' \<and>
    (get_balance s' r a < get_balance s r a \<longrightarrow>
       c = Withdraw r a \<and> auth env r \<and> get_balance s' r a = 0)"
proof (cases c)
  case (Distribute admin mid b n)
  with assms(2) have "distribute env admin mid b n s = Ok s'" by simp
  then show ?thesis
    using splits_reachable_inv [OF assms(1)]
  proof (rule distribute_Ok)
    fix m
    assume *: "0 < n" "manifest_ok m" "Manifest s' = Manifest s"
      "\<And>r a. get_balance s' r a = get_balance s r a +
         (if a = b then credit m n {0..<length (recipients m)} r else 0)"
    have "0 \<le> credit m n {0..<length (recipients m)} r"
      using *(1,2) by (intro credit_nonneg) auto
    with * show ?thesis by simp
  qed
qed (use assms(2) in \<open>auto simp: initialize_def create_manifest_Ok outcome_iff map_le_def
  get_balance_def elim!: royalty_withdraw_Ok split: if_splits\<close>)

theorem manifests_immutable_balances_owned_witness:
  "\<exists>s'. splits_exec splits_env (Withdraw 3 ''USD'') demo_paid = Ok s' \<and>
     Manifest demo_paid \<subseteq>\<^sub>m Manifest s' \<and> get_balance s' 3 ''USD'' = 0"
proof -
  obtain s' where call: "splits_exec splits_env (Withdraw 3 ''USD'') demo_paid = Ok s'"
    and zero: "get_balance s' 3 ''USD'' = 0"
    by (simp add: demo_splits_defs withdraw_def get_balance_def range_defs i128_checked_def Let_def)
  with manifests_immutable_balances_owned [OF demo_splits_reachable(2) call] show ?thesis by blast
qed

end
