(* ===== verification/Fine_Assessments.thy ===== *)
theory Fine_Assessments
  imports Counter_Ids
begin

text \<open>
  \<open>contracts/library-fines/src/lib.rs\<close>, first part (the contract \<open>LibraryFines\<close>): fines signed off
  chain by the institution, with caps, grace periods and waivers. The ed25519 library is not part of
  the repository: \<open>parse_key\<close> stands for \<open>VerifyingKey::from_bytes\<close> and \<open>verify\<close> for
  \<open>verify_strict\<close>; \<open>sha\<close> is the host's hash.
\<close>

section \<open>State and operations\<close>

datatype FineError =
    NotInitialized | AlreadyInitialized | Unauthorized | NotFound | InvalidSignature
  | NonceAlreadyUsed | AssessmentExpired | CapExceeded | CumulativeCapExceeded | GracePeriodActive
  | WaiverExceedsDebt | InvalidAmount | Overflow | PolicyNotFound

datatype FineStatus = Active | Waived | Settled

record FinePolicy =
  per_assessment_cap :: int
  cumulative_cap :: int
  grace_period :: nat

record FineRecord =
  loan_id :: hash32
  policy_id :: hash32
  rule_version :: nat
  amount :: int
  accrued_at :: nat
  status :: FineStatus

record fines_state =
  Admin :: "address option"
  InstitutionPubkey :: "bytes option"
  FineCount :: "nat option"
  Policy :: "hash32 \<rightharpoonup> FinePolicy"
  Fine :: "hash32 \<rightharpoonup> FineRecord"
  NonceUsed :: "hash32 \<rightharpoonup> bool"
  LoanDebt :: "hash32 \<rightharpoonup> int"

definition fines_init :: fines_state where
  "fines_init = \<lparr>Admin = None, InstitutionPubkey = None, FineCount = None, Policy = Map.empty,
     Fine = Map.empty, NonceUsed = Map.empty, LoanDebt = Map.empty\<rparr>"

definition require_admin :: "env \<Rightarrow> fines_state \<Rightarrow> address \<Rightarrow> (FineError, unit) outcome" where
  "require_admin env s caller =
     and_then (ok_or (Admin s) NotInitialized) (\<lambda>admin.
     if caller \<noteq> admin then Err Unauthorized
     else and_then (require_auth env caller) (\<lambda>_. Ok ()))"

text \<open>The sixteen bytes of the domain separator \<open>CHAINVERSE_FINE:\<close>.\<close>

definition fine_prefix :: bytes where
  "fine_prefix = map (\<lambda>c. of_nat (of_char c)) ''CHAINVERSE_FINE:''"

definition build_fine_payload ::
  "hash32 \<Rightarrow> hash32 \<Rightarrow> nat \<Rightarrow> int \<Rightarrow> nat \<Rightarrow> hash32 \<Rightarrow> nat \<Rightarrow> bytes" where
  "build_fine_payload lid pid version n loan_start nonce expiry =
     fine_prefix @ lid @ pid @ be_bytes 4 version @ be_bytes_i128 n @ be_bytes 8 loan_start
       @ nonce @ be_bytes 8 expiry"

definition next_fine_id ::
  "(bytes \<Rightarrow> hash32) \<Rightarrow> env \<Rightarrow> hash32 \<Rightarrow> hash32 \<Rightarrow> fines_state \<Rightarrow>
   (FineError, hash32 \<times> fines_state) outcome" where
  "next_fine_id sha env lid nonce s =
     (let n = unwrap_or (FineCount s) 0 in
      and_then (ok_or (u64_checked (n + 1)) Overflow) (\<lambda>nxt.
      Ok (sha (be_bytes 8 nxt @ be_bytes 8 (timestamp env) @ lid @ nonce),
          s\<lparr>FineCount := Some nxt\<rparr>)))"

definition save_fine :: "hash32 \<Rightarrow> FineRecord \<Rightarrow> fines_state \<Rightarrow> fines_state" where
  "save_fine fid r s = s\<lparr>Fine := (Fine s)(fid \<mapsto> r)\<rparr>"

definition loan_debt :: "fines_state \<Rightarrow> hash32 \<Rightarrow> int" where
  "loan_debt s lid = unwrap_or (LoanDebt s lid) 0"

definition set_loan_debt :: "hash32 \<Rightarrow> int \<Rightarrow> fines_state \<Rightarrow> fines_state" where
  "set_loan_debt lid debt s = s\<lparr>LoanDebt := (LoanDebt s)(lid \<mapsto> debt)\<rparr>"

definition initialize ::
  "env \<Rightarrow> address \<Rightarrow> bytes \<Rightarrow> fines_state \<Rightarrow> (FineError, fines_state) outcome" where
  "initialize env admin pubkey s =
     (if Admin s \<noteq> None then Err AlreadyInitialized
      else and_then (require_auth env admin) (\<lambda>_.
      Ok (s\<lparr>Admin := Some admin, InstitutionPubkey := Some pubkey\<rparr>)))"

definition rotate_institution_key ::
  "env \<Rightarrow> address \<Rightarrow> bytes \<Rightarrow> fines_state \<Rightarrow> (FineError, fines_state) outcome" where
  "rotate_institution_key env caller new_pubkey s =
     and_then (require_admin env s caller) (\<lambda>_. Ok (s\<lparr>InstitutionPubkey := Some new_pubkey\<rparr>))"

definition set_policy ::
  "env \<Rightarrow> address \<Rightarrow> hash32 \<Rightarrow> int \<Rightarrow> int \<Rightarrow> nat \<Rightarrow> fines_state \<Rightarrow> (FineError, fines_state) outcome" where
  "set_policy env caller pid cap total_cap grace s =
     and_then (require_admin env s caller) (\<lambda>_.
     if cap \<le> 0 \<or> total_cap \<le> 0 then Err InvalidAmount
     else Ok (s\<lparr>Policy := (Policy s)(pid \<mapsto> \<lparr>per_assessment_cap = cap, cumulative_cap = total_cap,
       grace_period = grace\<rparr>)\<rparr>))"

definition assess_fine ::
  "(bytes \<Rightarrow> 'k option) \<Rightarrow> ('k \<Rightarrow> bytes \<Rightarrow> bytes \<Rightarrow> bool) \<Rightarrow> (bytes \<Rightarrow> hash32) \<Rightarrow> env \<Rightarrow>
   hash32 \<Rightarrow> hash32 \<Rightarrow> nat \<Rightarrow> int \<Rightarrow> nat \<Rightarrow> hash32 \<Rightarrow> nat \<Rightarrow> bytes \<Rightarrow> fines_state \<Rightarrow>
   (FineError, hash32 \<times> fines_state) outcome" where
  "assess_fine parse_key verify sha env lid pid version n loan_start nonce expiry sig s =
     (if n \<le> 0 then Err InvalidAmount
      else and_then (ok_or (InstitutionPubkey s) NotInitialized) (\<lambda>pubkey.
      let payload = build_fine_payload lid pid version n loan_start nonce expiry in
      and_then (ok_or (parse_key pubkey) InvalidSignature) (\<lambda>vk.
      if length payload \<noteq> 148 then Panic
      else if \<not> verify vk payload sig then Err InvalidSignature
      else
        let now = timestamp env in
        if now \<ge> expiry then Err AssessmentExpired
        else if unwrap_or (NonceUsed s nonce) False then Err NonceAlreadyUsed
        else
          let s = s\<lparr>NonceUsed := (NonceUsed s)(nonce \<mapsto> True)\<rparr> in
          and_then (ok_or (Policy s pid) PolicyNotFound) (\<lambda>policy.
          and_then (ok_or (u64_checked (loan_start + grace_period policy)) Overflow) (\<lambda>grace_end.
          if now < grace_end then Err GracePeriodActive
          else if n > per_assessment_cap policy then Err CapExceeded
          else
            let current_debt = loan_debt s lid in
            and_then (ok_or (i128_checked (current_debt + n)) Overflow) (\<lambda>new_debt.
            if new_debt > cumulative_cap policy then Err CumulativeCapExceeded
            else and_then (next_fine_id sha env lid nonce s) (\<lambda>(fid, s).
            let r = \<lparr>loan_id = lid, policy_id = pid, rule_version = version, amount = n,
                     accrued_at = now, status = Active\<rparr>;
                s = save_fine fid r s;
                s = set_loan_debt lid new_debt s
            in Ok (fid, s))))))))"

definition waive_fine ::
  "env \<Rightarrow> address \<Rightarrow> hash32 \<Rightarrow> int \<Rightarrow> fines_state \<Rightarrow> (FineError, fines_state) outcome" where
  "waive_fine env caller fid n s =
     and_then (require_admin env s caller) (\<lambda>_.
     if n \<le> 0 then Err InvalidAmount
     else and_then (ok_or (Fine s fid) NotFound) (\<lambda>r.
     if n > amount r then Err WaiverExceedsDebt
     else and_then (ok_or (i128_checked (amount r - n)) Overflow) (\<lambda>new_amount.
     let current_debt = loan_debt s (loan_id r) in
     and_then (ok_or (i128_checked (current_debt - n)) Overflow) (\<lambda>new_debt.
     let r = r\<lparr>amount := new_amount\<rparr>;
         r = (if new_amount = 0 then r\<lparr>status := Waived\<rparr> else r);
         s = save_fine fid r s
     in Ok (set_loan_debt (loan_id r) new_debt s)))))"

definition get_fine :: "fines_state \<Rightarrow> hash32 \<Rightarrow> (FineError, FineRecord) outcome" where
  "get_fine s fid = ok_or (Fine s fid) NotFound"

definition cumulative_debt :: "fines_state \<Rightarrow> hash32 \<Rightarrow> int" where
  "cumulative_debt s lid = loan_debt s lid"

datatype fines_call =
    Initialize address bytes | RotateKey address bytes | SetPolicy address hash32 int int nat
  | AssessFine hash32 hash32 nat int nat hash32 nat bytes | WaiveFine address hash32 int

fun fines_exec ::
  "(bytes \<Rightarrow> 'k option) \<Rightarrow> ('k \<Rightarrow> bytes \<Rightarrow> bytes \<Rightarrow> bool) \<Rightarrow> (bytes \<Rightarrow> hash32) \<Rightarrow> env \<Rightarrow>
   fines_call \<Rightarrow> fines_state \<Rightarrow> (FineError, fines_state) outcome" where
  "fines_exec parse_key verify sha env (Initialize a k) s = initialize env a k s"
| "fines_exec parse_key verify sha env (RotateKey a k) s = rotate_institution_key env a k s"
| "fines_exec parse_key verify sha env (SetPolicy a pid c t g) s = set_policy env a pid c t g s"
| "fines_exec parse_key verify sha env (AssessFine lid pid v n st nonce e sig) s =
     and_then (assess_fine parse_key verify sha env lid pid v n st nonce e sig s) (\<lambda>(_, s). Ok s)"
| "fines_exec parse_key verify sha env (WaiveFine a fid n) s = waive_fine env a fid n s"

inductive fines_step ::
  "(bytes \<Rightarrow> 'k option) \<Rightarrow> ('k \<Rightarrow> bytes \<Rightarrow> bytes \<Rightarrow> bool) \<Rightarrow> (bytes \<Rightarrow> hash32) \<Rightarrow>
   fines_state \<Rightarrow> fines_state \<Rightarrow> bool"
  for parse_key verify sha where
  call: "fines_exec parse_key verify sha env c s = Ok s' \<Longrightarrow> fines_step parse_key verify sha s s'"

inductive_cases fines_stepE: "fines_step parse_key verify sha s s'"

section \<open>What a successful call did\<close>

lemmas fine_storage = save_fine_def set_loan_debt_def

lemma fine_require_admin_Ok [outcome_iff]:
  "require_admin env s a = Ok u \<longleftrightarrow> Admin s = Some a \<and> auth env a"
  by (auto simp: require_admin_def outcome_iff)

lemma fine_assess_Ok:
  assumes "assess_fine parse_key verify sha env lid pid v n st nonce e sig s = Ok (fid, s')"
  obtains pubkey vk p k where "0 < n" "InstitutionPubkey s = Some pubkey" "parse_key pubkey = Some vk"
    "verify vk (build_fine_payload lid pid v n st nonce e) sig" "timestamp env < e"
    "\<not> unwrap_or (NonceUsed s nonce) False" "Policy s pid = Some p"
    "st + grace_period p \<le> timestamp env" "n \<le> per_assessment_cap p"
    "loan_debt s lid + n \<le> cumulative_cap p"
    "k = unwrap_or (FineCount s) 0" "fits_u64 (k + 1)"
    "fid = counter_id sha (k + 1) (be_bytes 8 (timestamp env) @ lid @ nonce)"
    "s' = s\<lparr>FineCount := Some (k + 1), NonceUsed := (NonceUsed s)(nonce \<mapsto> True),
       Fine := (Fine s)(fid \<mapsto> \<lparr>loan_id = lid, policy_id = pid, rule_version = v, amount = n,
         accrued_at = timestamp env, status = Active\<rparr>),
       LoanDebt := (LoanDebt s)(lid \<mapsto> loan_debt s lid + n)\<rparr>"
  using assms
  by (auto simp: assess_fine_def next_fine_id_def counter_id_def fine_storage outcome_iff Let_def
      loan_debt_def)

lemma fine_waive_Ok:
  assumes "waive_fine env a fid n s = Ok s'"
  obtains r r' where "Admin s = Some a" "auth env a" "0 < n" "Fine s fid = Some r" "n \<le> amount r"
    "amount r' = amount r - n" "loan_id r' = loan_id r" "policy_id r' = policy_id r"
    "rule_version r' = rule_version r" "accrued_at r' = accrued_at r"
    "status r' = (if amount r = n then Waived else status r)"
    "s' = s\<lparr>Fine := (Fine s)(fid \<mapsto> r'),
       LoanDebt := (LoanDebt s)(loan_id r \<mapsto> loan_debt s (loan_id r) - n)\<rparr>"
proof -
  from assms obtain r where *: "Admin s = Some a" "auth env a" "0 < n" "Fine s fid = Some r"
    "n \<le> amount r"
    and s': "s' = set_loan_debt (loan_id r) (loan_debt s (loan_id r) - n) (save_fine fid
      (if amount r - n = 0 then r\<lparr>amount := amount r - n, status := Waived\<rparr>
       else r\<lparr>amount := amount r - n\<rparr>) s)"
    by (simp add: waive_fine_def outcome_iff Let_def not_le not_less cong: if_cong)
      (elim exE conjE, hypsubst, simp cong: if_cong)
  show thesis
    by (rule that [OF * _ _ _ _ _ _ s' [unfolded fine_storage, simplified]]) auto
qed

section \<open>Debt is the sum of the fines\<close>

definition fine_of :: "hash32 \<Rightarrow> FineRecord \<Rightarrow> int" where
  "fine_of lid r = (if loan_id r = lid then amount r else 0)"

definition fines_wf :: "(bytes \<Rightarrow> hash32) \<Rightarrow> fines_state \<Rightarrow> bool" where
  "fines_wf sha s \<longleftrightarrow> inj sha \<and> finite (dom (Fine s)) \<and>
     issued sha (unwrap_or (FineCount s) 0) (dom (Fine s)) \<and>
     (\<forall>fid r. Fine s fid = Some r \<longrightarrow> 0 \<le> amount r \<and> (status r = Waived \<longleftrightarrow> amount r = 0)) \<and>
     (\<forall>lid. loan_debt s lid = msum (fine_of lid) (Fine s))"

lemma fines_init_wf: "inj sha \<Longrightarrow> fines_wf sha fines_init"
  by (simp add: fines_wf_def fines_init_def loan_debt_def)

lemma assess_wf:
  assumes "assess_fine parse_key verify sha env lid pid v n st nonce e sig s = Ok (fid, s')"
    "fines_wf sha s"
  shows "fines_wf sha s'"
  using assms(1)
proof (rule fine_assess_Ok)
  fix k
  assume *: "0 < n" "k = unwrap_or (FineCount s) 0" "fits_u64 (k + 1)"
    "fid = counter_id sha (k + 1) (be_bytes 8 (timestamp env) @ lid @ nonce)"
    "s' = s\<lparr>FineCount := Some (k + 1), NonceUsed := (NonceUsed s)(nonce \<mapsto> True),
       Fine := (Fine s)(fid \<mapsto> \<lparr>loan_id = lid, policy_id = pid, rule_version = v, amount = n,
         accrued_at = timestamp env, status = Active\<rparr>),
       LoanDebt := (LoanDebt s)(lid \<mapsto> loan_debt s lid + n)\<rparr>"
  have wf: "inj sha" "finite (dom (Fine s))" "issued sha k (dom (Fine s))"
    and debt: "\<And>l. loan_debt s l = msum (fine_of l) (Fine s)"
    using assms(2) *(2) by (simp_all add: fines_wf_def)
  have "fid \<notin> dom (Fine s)" using counter_id_fresh wf * by simp
  then have "Fine s fid = None" by blast
  then have "loan_debt s' l = msum (fine_of l) (Fine s')" for l
    using wf(2) debt [of l] by (auto simp: *(5) msum_insert fine_of_def loan_debt_def)
  moreover have "issued sha (unwrap_or (FineCount s') 0) (dom (Fine s'))"
    using issued_insert [OF wf(3) *(3)] by (simp add: *(4,5))
  ultimately show ?thesis
    using assms(2) *(1) by (auto simp: fines_wf_def *(5))
qed

lemma waive_wf:
  assumes "waive_fine env a fid n s = Ok s'" "fines_wf sha s"
  shows "fines_wf sha s'"
  using assms(1)
proof (rule fine_waive_Ok)
  fix r r'
  assume *: "0 < n" "Fine s fid = Some r" "n \<le> amount r" "amount r' = amount r - n"
    "loan_id r' = loan_id r" "status r' = (if amount r = n then Waived else status r)"
    "s' = s\<lparr>Fine := (Fine s)(fid \<mapsto> r'),
       LoanDebt := (LoanDebt s)(loan_id r \<mapsto> loan_debt s (loan_id r) - n)\<rparr>"
  have fin: "finite (dom (Fine s))" and debt: "\<And>l. loan_debt s l = msum (fine_of l) (Fine s)"
    using assms(2) by (simp_all add: fines_wf_def)
  have r: "0 \<le> amount r" "status r = Waived \<longleftrightarrow> amount r = 0"
    using assms(2) *(2) by (auto simp: fines_wf_def)
  have "loan_debt s' l = msum (fine_of l) (Fine s')" for l
    using debt [of l] *(2,4,5) fin by (auto simp: *(7) msum_replace fine_of_def loan_debt_def)
  moreover have "insert fid (dom (Fine s)) = dom (Fine s)" using *(2) by blast
  moreover have "0 \<le> amount r' \<and> (status r' = Waived \<longleftrightarrow> amount r' = 0)"
    using *(1,3,4,6) r by auto
  ultimately show ?thesis
    using assms(2) by (auto simp: fines_wf_def *(7))
qed

lemma setup_wf:
  "initialize env a k s = Ok s' \<Longrightarrow> fines_wf sha s \<Longrightarrow> fines_wf sha s'"
  "rotate_institution_key env a k s = Ok s' \<Longrightarrow> fines_wf sha s \<Longrightarrow> fines_wf sha s'"
  "set_policy env a pid c t g s = Ok s' \<Longrightarrow> fines_wf sha s \<Longrightarrow> fines_wf sha s'"
  by (auto simp: initialize_def rotate_institution_key_def set_policy_def outcome_iff fines_wf_def
      loan_debt_def)

lemma fines_exec_wf:
  "fines_exec parse_key verify sha env c s = Ok s' \<Longrightarrow> fines_wf sha s \<Longrightarrow> fines_wf sha s'"
  by (cases c) (auto simp: outcome_iff intro: setup_wf assess_wf waive_wf)

interpretation fines_runs: preserved "fines_step parse_key verify sha" "fines_wf sha" for parse_key verify sha
  by unfold_locales (auto intro: fines_exec_wf elim: fines_stepE)

lemma fines_reachable_wf:
  assumes "inj sha" "(fines_step parse_key verify sha)\<^sup>*\<^sup>* fines_init s"
  shows "fines_wf sha s"
  using assms(2) by (rule fines_runs.run [OF _ fines_init_wf [OF assms(1)]])

section \<open>Nonces\<close>

lemma fines_exec_nonce:
  "fines_exec parse_key verify sha env c s = Ok s' \<Longrightarrow> NonceUsed s nonce = Some True \<Longrightarrow>
   NonceUsed s' nonce = Some True"
  by (cases c)
    (auto simp: outcome_iff initialize_def rotate_institution_key_def set_policy_def
      elim!: fine_assess_Ok fine_waive_Ok)

interpretation fines_nonces: preserved "fines_step parse_key verify sha" "\<lambda>s. NonceUsed s nonce = Some True"
  for parse_key verify sha nonce
  by unfold_locales (auto intro: fines_exec_nonce elim: fines_stepE)

section \<open>Properties\<close>

text \<open>
  A run used by the witnesses: admin 1 registers a key and a policy with a cap of 50 per fine and 80
  per loan; a fine of 30 is assessed. The signature scheme accepts a signature that repeats the
  payload.
\<close>

abbreviation fines_env :: env where
  "fines_env \<equiv> \<lparr>timestamp = 100, ledger_sequence = 7, self = 99, auth = (\<lambda>_. True)\<rparr>"

abbreviation echo_verify :: "bytes \<Rightarrow> bytes \<Rightarrow> bytes \<Rightarrow> bool" where
  "echo_verify vk payload sig \<equiv> sig = payload"

abbreviation bytes32 :: "byte \<Rightarrow> hash32" where
  "bytes32 b \<equiv> replicate 32 b"

definition demo_sig :: bytes where
  "demo_sig = build_fine_payload (bytes32 1) (bytes32 2) 1 30 5 (bytes32 3) 200"

definition demo_ready :: fines_state where
  "demo_ready = fines_init\<lparr>Admin := Some 1, InstitutionPubkey := Some [],
     Policy := [bytes32 2 \<mapsto> \<lparr>per_assessment_cap = 50, cumulative_cap = 80, grace_period = 60\<rparr>]\<rparr>"

definition demo_fid :: hash32 where
  "demo_fid = be_bytes 8 1 @ be_bytes 8 100 @ bytes32 1 @ bytes32 3"

definition demo_fined :: fines_state where
  "demo_fined = demo_ready\<lparr>FineCount := Some 1, NonceUsed := [bytes32 3 \<mapsto> True],
     Fine := [demo_fid \<mapsto> \<lparr>loan_id = bytes32 1, policy_id = bytes32 2, rule_version = 1, amount = 30,
       accrued_at = 100, status = Active\<rparr>],
     LoanDebt := [bytes32 1 \<mapsto> 30]\<rparr>"

lemma length_fine_prefix: "length fine_prefix = 16"
  by (simp add: fine_prefix_def)

lemma length_demo_sig: "length demo_sig = 148"
  by (simp add: demo_sig_def build_fine_payload_def length_fine_prefix)

lemma demo_fine_steps:
  "fines_exec Some echo_verify id fines_env (Initialize 1 []) fines_init =
     Ok (fines_init\<lparr>Admin := Some 1, InstitutionPubkey := Some []\<rparr>)"
  "fines_exec Some echo_verify id fines_env (SetPolicy 1 (bytes32 2) 50 80 60)
     (fines_init\<lparr>Admin := Some 1, InstitutionPubkey := Some []\<rparr>) = Ok demo_ready"
  by (simp_all add: initialize_def set_policy_def require_admin_def demo_ready_def fines_init_def
     )

lemma demo_assess:
  "assess_fine Some echo_verify id fines_env (bytes32 1) (bytes32 2) 1 30 5 (bytes32 3) 200 demo_sig
     demo_ready = Ok (demo_fid, demo_fined)"
  using length_demo_sig
  by (simp add: assess_fine_def demo_sig_def demo_ready_def fines_init_def loan_debt_def
      next_fine_id_def fine_storage demo_fined_def demo_fid_def range_defs i128_checked_def
      u64_checked_def Let_def)

lemma demo_fines_reachable:
  "(fines_step Some echo_verify id)\<^sup>*\<^sup>* fines_init demo_ready"
  "(fines_step Some echo_verify id)\<^sup>*\<^sup>* fines_init demo_fined"
proof -
  have "fines_exec Some echo_verify id fines_env
      (AssessFine (bytes32 1) (bytes32 2) 1 30 5 (bytes32 3) 200 demo_sig) demo_ready = Ok demo_fined"
    using demo_assess by simp
  with demo_fine_steps show "(fines_step Some echo_verify id)\<^sup>*\<^sup>* fines_init demo_ready"
    "(fines_step Some echo_verify id)\<^sup>*\<^sup>* fines_init demo_fined"
    by (meson fines_step.call rtranclp.rtrancl_into_rtrancl rtranclp.rtrancl_refl)+
qed

text \<open>
  A signature commits to every field. For field values in their machine ranges the payload is
  exactly the 148 bytes the verifier's buffer expects, and two payloads are equal only if the loan,
  policy, rule version, amount, loan start, nonce and expiry are all equal.
\<close>

theorem payload_commits:
  assumes "length lid = 32" "length pid = 32" "length nonce = 32"
    and "length lid' = 32" "length pid' = 32" "length nonce' = 32"
    and "fits_u32 v" "fits_u32 v'" "fits_i128 n" "fits_i128 n'"
    and "fits_u64 st" "fits_u64 st'" "fits_u64 e" "fits_u64 e'"
  shows "length (build_fine_payload lid pid v n st nonce e) = 148 \<and>
    (build_fine_payload lid pid v n st nonce e = build_fine_payload lid' pid' v' n' st' nonce' e' \<longleftrightarrow>
     (lid, pid, v, n, st, nonce, e) = (lid', pid', v', n', st', nonce', e'))"
proof -
  have u64: "x < 256 ^ 8" if "fits_u64 x" for x using that by (simp add: fits_u64_def)
  have u32: "x < 256 ^ 4" if "fits_u32 x" for x using that by (simp add: fits_u32_def)
  have "be_bytes 4 v = be_bytes 4 v' \<longleftrightarrow> v = v'" "be_bytes 8 st = be_bytes 8 st' \<longleftrightarrow> st = st'"
    "be_bytes 8 e = be_bytes 8 e' \<longleftrightarrow> e = e'" "be_bytes_i128 n = be_bytes_i128 n' \<longleftrightarrow> n = n'"
    using be_bytes_inject [of v 4 v'] be_bytes_inject [of st 8 st'] be_bytes_inject [of e 8 e']
      be_bytes_i128_inject [of n n'] assms(7-) u64 u32 by blast+
  then show ?thesis
    using assms(1-6) by (simp add: build_fine_payload_def length_fine_prefix)
qed

theorem payload_commits_witness:
  "length (build_fine_payload (bytes32 1) (bytes32 2) 1 30 5 (bytes32 3) 200) = 148 \<and>
   build_fine_payload (bytes32 1) (bytes32 2) 1 30 5 (bytes32 3) 200 \<noteq>
     build_fine_payload (bytes32 1) (bytes32 2) 1 31 5 (bytes32 3) 200"
  using payload_commits [of "bytes32 1" "bytes32 2" "bytes32 3" "bytes32 1" "bytes32 2" "bytes32 3"
      1 1 30 31 5 5 200 200]
  by (simp add: range_defs)

text \<open>
  An assessment is applied at most once. After an assessment with a nonce has been accepted, no
  later state of the contract accepts an assessment with the same nonce, whatever its other fields,
  signature and time.
\<close>

theorem nonce_single_use:
  assumes "assess_fine parse_key verify sha env lid pid v n st nonce e sig s = Ok (fid, s1)"
    and "(fines_step parse_key verify sha)\<^sup>*\<^sup>* s1 s2"
  shows "\<not> is_ok (assess_fine parse_key verify sha env' lid' pid' v' n' st' nonce e' sig' s2)"
proof
  assume "is_ok (assess_fine parse_key verify sha env' lid' pid' v' n' st' nonce e' sig' s2)"
  then have "\<not> unwrap_or (NonceUsed s2 nonce) False"
    by (auto simp: is_ok_iff elim!: fine_assess_Ok)
  moreover have "NonceUsed s1 nonce = Some True" using assms(1) by (auto elim!: fine_assess_Ok)
  ultimately show False using fines_nonces.run [OF assms(2)] by simp
qed

theorem nonce_single_use_witness:
  "\<not> is_ok (assess_fine Some echo_verify id fines_env (bytes32 1) (bytes32 2) 1 30 5 (bytes32 3) 200
     demo_sig demo_fined)"
  using nonce_single_use [OF demo_assess rtranclp.rtrancl_refl] by simp

text \<open>
  A loan's debt is the sum of its fines. In every reachable state, without hash collisions, the
  recorded cumulative debt of each loan equals the sum of the current amounts of its fines, is not
  negative, and a fine is marked waived exactly when nothing of it is left.
\<close>

theorem debt_is_sum_of_fines:
  assumes "inj sha" and "(fines_step parse_key verify sha)\<^sup>*\<^sup>* fines_init s"
  shows "cumulative_debt s lid = (\<Sum>fid\<in>{fid. \<exists>r. Fine s fid = Some r \<and> loan_id r = lid}. amount (the (Fine s fid))) \<and>
    0 \<le> cumulative_debt s lid \<and>
    (Fine s fid = Some r \<longrightarrow> 0 \<le> amount r \<and> (status r = Waived \<longleftrightarrow> amount r = 0))"
proof -
  have wf: "fines_wf sha s" by (rule fines_reachable_wf [OF assms])
  have sub: "{fid. \<exists>r. Fine s fid = Some r \<and> loan_id r = lid} \<subseteq> dom (Fine s)" by auto
  have "msum (fine_of lid) (Fine s) =
      (\<Sum>fid\<in>{fid. \<exists>r. Fine s fid = Some r \<and> loan_id r = lid}. amount (the (Fine s fid)))"
    unfolding msum_def
    by (rule sum.mono_neutral_cong_right [OF _ sub]) (use wf in \<open>auto simp: fines_wf_def fine_of_def\<close>)
  moreover have "0 \<le> msum (fine_of lid) (Fine s)"
    using wf by (intro msum_nonneg) (auto simp: fines_wf_def fine_of_def)
  ultimately show ?thesis using wf by (auto simp: fines_wf_def cumulative_debt_def)
qed

theorem debt_is_sum_of_fines_witness:
  "cumulative_debt demo_fined (bytes32 1) = 30 \<and> 0 \<le> cumulative_debt demo_fined (bytes32 1)"
  using debt_is_sum_of_fines [OF _ demo_fines_reachable(2), of "bytes32 1"]
  by (simp add: cumulative_debt_def loan_debt_def demo_fined_def)

text \<open>
  Only authentic fines within policy are accepted. An accepted assessment carries a signature
  that the registered key verifies over exactly its fields, has not expired, falls after the grace
  period, respects the per-assessment cap, and raises the loan's debt by exactly its amount to at
  most the cumulative cap; no other loan's debt changes.
\<close>

theorem assessment_within_policy:
  assumes "assess_fine parse_key verify sha env lid pid v n st nonce e sig s = Ok (fid, s')"
  shows "\<exists>pubkey vk p. InstitutionPubkey s = Some pubkey \<and> parse_key pubkey = Some vk \<and>
    verify vk (build_fine_payload lid pid v n st nonce e) sig \<and>
    timestamp env < e \<and> Policy s pid = Some p \<and> st + grace_period p \<le> timestamp env \<and>
    0 < n \<and> n \<le> per_assessment_cap p \<and>
    cumulative_debt s' lid = cumulative_debt s lid + n \<and> cumulative_debt s' lid \<le> cumulative_cap p \<and>
    (\<forall>l. l \<noteq> lid \<longrightarrow> cumulative_debt s' l = cumulative_debt s l)"
  using assms by (rule fine_assess_Ok) (auto simp: cumulative_debt_def loan_debt_def)

theorem assessment_within_policy_witness:
  "cumulative_debt demo_fined (bytes32 1) = cumulative_debt demo_ready (bytes32 1) + 30"
  using assessment_within_policy [OF demo_assess] by blast

end
