(* ===== verification/Fine_Ledger.thy ===== *)
theory Fine_Ledger
  imports Transition_Systems
begin

text \<open>
  \<open>contracts/library-fines/src/lib.rs\<close>, second part (the contract \<open>LibraryFinesContract\<close>) with
  \<open>errors.rs\<close>, \<open>keys.rs\<close> and \<open>types.rs\<close>: an append-only ledger of charges per patron, waivers, and the
  settlement state machine of payments. The stored balance is the running sum of the ledger.
\<close>

section \<open>State and operations\<close>

datatype ContractError =
    AlreadyInitialized | NotInitialized | Unauthorized | DuplicateReference | EntryNotFound
  | SettlementNotFound | InvalidAmount | WaiverExceedsBalance | UnsupportedAsset
  | DuplicateSettlement | InvalidStateTransition | PaymentExceedsBalance

definition MAX_PAGE_SIZE :: nat where "MAX_PAGE_SIZE = 50"

datatype EntryKind = Assessment | Waiver | Payment | Refund | Reversal

record LedgerEntry =
  patron_ref :: hash32
  ref_id :: hash32
  kind :: EntryKind
  delta :: int
  entry_asset :: "address option"
  recorded_at :: nat
  meta_hash :: hash32

datatype SettlementState = Pending | Confirmed | Failed | Refunded | Reversed

record Settlement =
  payee :: hash32
  payer :: address
  asset :: address
  amount :: int
  state :: SettlementState
  initiated_at :: nat

record ledger_state =
  Admin :: "address option"
  Librarian :: "address option"
  SupportedAsset :: "address \<rightharpoonup> bool"
  EntryCount :: "hash32 \<rightharpoonup> nat"
  Entry :: "hash32 \<times> nat \<rightharpoonup> LedgerEntry"
  RefExists :: "hash32 \<rightharpoonup> bool"
  Balance :: "hash32 \<rightharpoonup> int"
  Settlements :: "hash32 \<rightharpoonup> Settlement"

definition ledger_init :: ledger_state where
  "ledger_init = \<lparr>Admin = None, Librarian = None, SupportedAsset = Map.empty, EntryCount = Map.empty,
     Entry = Map.empty, RefExists = Map.empty, Balance = Map.empty, Settlements = Map.empty\<rparr>"

definition initialize ::
  "env \<Rightarrow> address \<Rightarrow> address \<Rightarrow> ledger_state \<Rightarrow> (ContractError, ledger_state) outcome" where
  "initialize env admin librarian s =
     (if Admin s \<noteq> None then Err AlreadyInitialized
      else and_then (require_auth env admin) (\<lambda>_.
      Ok (s\<lparr>Admin := Some admin, Librarian := Some librarian\<rparr>)))"

definition read_admin :: "ledger_state \<Rightarrow> (ContractError, address) outcome" where
  "read_admin s = ok_or (Admin s) NotInitialized"

definition read_librarian :: "ledger_state \<Rightarrow> (ContractError, address) outcome" where
  "read_librarian s = ok_or (Librarian s) NotInitialized"

definition require_admin :: "env \<Rightarrow> ledger_state \<Rightarrow> address \<Rightarrow> (ContractError, unit) outcome" where
  "require_admin env s caller =
     and_then (read_admin s) (\<lambda>admin.
     if caller \<noteq> admin then Err Unauthorized
     else and_then (require_auth env caller) (\<lambda>_. Ok ()))"

definition require_librarian_or_admin ::
  "env \<Rightarrow> ledger_state \<Rightarrow> address \<Rightarrow> (ContractError, unit) outcome" where
  "require_librarian_or_admin env s caller =
     and_then (read_admin s) (\<lambda>admin.
     and_then (read_librarian s) (\<lambda>librarian.
     if caller \<noteq> admin \<and> caller \<noteq> librarian then Err Unauthorized
     else and_then (require_auth env caller) (\<lambda>_. Ok ())))"

definition read_balance :: "ledger_state \<Rightarrow> hash32 \<Rightarrow> int" where
  "read_balance s p = unwrap_or (Balance s p) 0"

definition write_balance :: "hash32 \<Rightarrow> int \<Rightarrow> ledger_state \<Rightarrow> ledger_state" where
  "write_balance p b s = s\<lparr>Balance := (Balance s)(p \<mapsto> b)\<rparr>"

definition entry_count :: "ledger_state \<Rightarrow> hash32 \<Rightarrow> nat" where
  "entry_count s p = unwrap_or (EntryCount s p) 0"

definition append_entry :: "LedgerEntry \<Rightarrow> ledger_state \<Rightarrow> (ContractError, ledger_state) outcome" where
  "append_entry e s =
     (let p = patron_ref e;
          seq = unwrap_or (EntryCount s p) 0;
          s = s\<lparr>Entry := (Entry s)((p, seq) \<mapsto> e)\<rparr> in
      and_then (u32_op (seq + 1)) (\<lambda>nxt.
      Ok (s\<lparr>EntryCount := (EntryCount s)(p \<mapsto> nxt), RefExists := (RefExists s)(ref_id e \<mapsto> True)\<rparr>)))"

definition add_supported_asset ::
  "env \<Rightarrow> address \<Rightarrow> address \<Rightarrow> ledger_state \<Rightarrow> (ContractError, ledger_state) outcome" where
  "add_supported_asset env caller a s =
     and_then (require_admin env s caller) (\<lambda>_.
     Ok (s\<lparr>SupportedAsset := (SupportedAsset s)(a \<mapsto> True)\<rparr>))"

definition assess ::
  "env \<Rightarrow> address \<Rightarrow> hash32 \<Rightarrow> hash32 \<Rightarrow> int \<Rightarrow> hash32 \<Rightarrow> ledger_state \<Rightarrow>
   (ContractError, ledger_state) outcome" where
  "assess env caller p ref n meta s =
     and_then (require_librarian_or_admin env s caller) (\<lambda>_.
     if n \<le> 0 then Err InvalidAmount
     else if RefExists s ref \<noteq> None then Err DuplicateReference
     else
       let balance = read_balance s p in
       and_then (i128_op (balance + n)) (\<lambda>new_balance.
       and_then (append_entry \<lparr>patron_ref = p, ref_id = ref, kind = Assessment, delta = n,
         entry_asset = None, recorded_at = timestamp env, meta_hash = meta\<rparr> s) (\<lambda>s.
       Ok (write_balance p new_balance s))))"

definition waive ::
  "env \<Rightarrow> address \<Rightarrow> hash32 \<Rightarrow> hash32 \<Rightarrow> int \<Rightarrow> hash32 \<Rightarrow> ledger_state \<Rightarrow>
   (ContractError, ledger_state) outcome" where
  "waive env caller p ref n reason_hash s =
     and_then (require_librarian_or_admin env s caller) (\<lambda>_.
     if n \<le> 0 then Err InvalidAmount
     else if RefExists s ref \<noteq> None then Err DuplicateReference
     else
       let balance = read_balance s p in
       if n > balance then Err WaiverExceedsBalance
       else and_then (i128_op (balance - n)) (\<lambda>new_balance.
       and_then (append_entry \<lparr>patron_ref = p, ref_id = ref, kind = Waiver, delta = - n,
         entry_asset = None, recorded_at = timestamp env, meta_hash = reason_hash\<rparr> s) (\<lambda>s.
       Ok (write_balance p new_balance s))))"

definition initiate_payment ::
  "env \<Rightarrow> address \<Rightarrow> hash32 \<Rightarrow> hash32 \<Rightarrow> address \<Rightarrow> int \<Rightarrow> ledger_state \<Rightarrow>
   (ContractError, ledger_state) outcome" where
  "initiate_payment env caller p sid a n s =
     and_then (require_auth env caller) (\<lambda>_.
     and_then (read_admin s) (\<lambda>_.
     if n \<le> 0 then Err InvalidAmount
     else if SupportedAsset s a = None then Err UnsupportedAsset
     else if Settlements s sid \<noteq> None then Err DuplicateSettlement
     else Ok (s\<lparr>Settlements := (Settlements s)(sid \<mapsto> \<lparr>payee = p, payer = caller, asset = a,
       amount = n, state = Pending, initiated_at = timestamp env\<rparr>)\<rparr>)))"

definition confirm_payment ::
  "env \<Rightarrow> address \<Rightarrow> hash32 \<Rightarrow> hash32 \<Rightarrow> hash32 \<Rightarrow> ledger_state \<Rightarrow>
   (ContractError, ledger_state) outcome" where
  "confirm_payment env caller sid ref meta s =
     and_then (require_admin env s caller) (\<lambda>_.
     and_then (ok_or (Settlements s sid) SettlementNotFound) (\<lambda>x.
     if state x \<noteq> Pending then Err InvalidStateTransition
     else if RefExists s ref \<noteq> None then Err DuplicateReference
     else
       let balance = read_balance s (payee x) in
       if amount x > balance then Err PaymentExceedsBalance
       else and_then (i128_op (balance - amount x)) (\<lambda>new_balance.
       and_then (append_entry \<lparr>patron_ref = payee x, ref_id = ref, kind = Payment,
         delta = - amount x, entry_asset = Some (asset x), recorded_at = timestamp env,
         meta_hash = meta\<rparr> s) (\<lambda>s.
       let s = write_balance (payee x) new_balance s
       in Ok (s\<lparr>Settlements := (Settlements s)(sid \<mapsto> x\<lparr>state := Confirmed\<rparr>)\<rparr>)))))"

definition fail_payment ::
  "env \<Rightarrow> address \<Rightarrow> hash32 \<Rightarrow> ledger_state \<Rightarrow> (ContractError, ledger_state) outcome" where
  "fail_payment env caller sid s =
     and_then (require_admin env s caller) (\<lambda>_.
     and_then (ok_or (Settlements s sid) SettlementNotFound) (\<lambda>x.
     if state x \<noteq> Pending then Err InvalidStateTransition
     else Ok (s\<lparr>Settlements := (Settlements s)(sid \<mapsto> x\<lparr>state := Failed\<rparr>)\<rparr>)))"

definition refund_payment ::
  "env \<Rightarrow> address \<Rightarrow> hash32 \<Rightarrow> hash32 \<Rightarrow> hash32 \<Rightarrow> ledger_state \<Rightarrow>
   (ContractError, ledger_state) outcome" where
  "refund_payment env caller sid ref meta s =
     and_then (require_admin env s caller) (\<lambda>_.
     and_then (ok_or (Settlements s sid) SettlementNotFound) (\<lambda>x.
     if state x \<noteq> Confirmed then Err InvalidStateTransition
     else if RefExists s ref \<noteq> None then Err DuplicateReference
     else
       let balance = read_balance s (payee x) in
       and_then (i128_op (balance + amount x)) (\<lambda>new_balance.
       and_then (append_entry \<lparr>patron_ref = payee x, ref_id = ref, kind = Refund,
         delta = amount x, entry_asset = Some (asset x), recorded_at = timestamp env,
         meta_hash = meta\<rparr> s) (\<lambda>s.
       let s = write_balance (payee x) new_balance s
       in Ok (s\<lparr>Settlements := (Settlements s)(sid \<mapsto> x\<lparr>state := Refunded\<rparr>)\<rparr>)))))"

definition reverse_payment ::
  "env \<Rightarrow> address \<Rightarrow> hash32 \<Rightarrow> hash32 \<Rightarrow> hash32 \<Rightarrow> ledger_state \<Rightarrow>
   (ContractError, ledger_state) outcome" where
  "reverse_payment env caller sid ref meta s =
     and_then (require_admin env s caller) (\<lambda>_.
     and_then (ok_or (Settlements s sid) SettlementNotFound) (\<lambda>x.
     if state x \<noteq> Confirmed then Err InvalidStateTransition
     else if RefExists s ref \<noteq> None then Err DuplicateReference
     else
       let balance = read_balance s (payee x) in
       and_then (i128_op (balance + amount x)) (\<lambda>new_balance.
       and_then (append_entry \<lparr>patron_ref = payee x, ref_id = ref, kind = Reversal,
         delta = amount x, entry_asset = Some (asset x), recorded_at = timestamp env,
         meta_hash = meta\<rparr> s) (\<lambda>s.
       let s = write_balance (payee x) new_balance s
       in Ok (s\<lparr>Settlements := (Settlements s)(sid \<mapsto> x\<lparr>state := Reversed\<rparr>)\<rparr>)))))"

definition get_balance :: "ledger_state \<Rightarrow> hash32 \<Rightarrow> int" where
  "get_balance s p = read_balance s p"

definition get_entry :: "ledger_state \<Rightarrow> hash32 \<Rightarrow> nat \<Rightarrow> (ContractError, LedgerEntry) outcome" where
  "get_entry s p seq = ok_or (Entry s (p, seq)) EntryNotFound"

text \<open>
  The \<open>while\<close> loop of \<open>get_entries\<close>. The increment of \<open>seq\<close> stays below \<open>count\<close>, a \<open>u32\<close>, and cannot
  overflow.
\<close>

function entries_loop ::
  "ledger_state \<Rightarrow> hash32 \<Rightarrow> nat \<Rightarrow> nat \<Rightarrow> nat \<Rightarrow> LedgerEntry list \<Rightarrow> LedgerEntry list" where
  "entries_loop s p count stop seq result =
     (if seq < count \<and> seq < stop then
        (case Entry s (p, seq) of
           Some e \<Rightarrow> entries_loop s p count stop (seq + 1) (result @ [e])
         | None \<Rightarrow> entries_loop s p count stop (seq + 1) result)
      else result)"
  by pat_completeness auto

termination
  by (relation "measure (\<lambda>(s, p, count, stop, seq, result). count - seq)") auto

declare entries_loop.simps [simp del]

definition get_entries :: "ledger_state \<Rightarrow> hash32 \<Rightarrow> nat \<Rightarrow> nat \<Rightarrow> LedgerEntry list" where
  "get_entries s p cursor limit =
     (let count = entry_count s p;
          page_limit = (if limit > MAX_PAGE_SIZE then MAX_PAGE_SIZE else limit);
          stop = min (cursor + page_limit) (2 ^ 32 - 1)
      in entries_loop s p count stop cursor [])"

definition get_settlement :: "ledger_state \<Rightarrow> hash32 \<Rightarrow> (ContractError, Settlement) outcome" where
  "get_settlement s sid = ok_or (Settlements s sid) SettlementNotFound"

datatype ledger_call =
    Initialize address address | AddAsset address address
  | Assess address hash32 hash32 int hash32 | Waive address hash32 hash32 int hash32
  | InitiatePayment address hash32 hash32 address int
  | ConfirmPayment address hash32 hash32 hash32 | FailPayment address hash32
  | RefundPayment address hash32 hash32 hash32 | ReversePayment address hash32 hash32 hash32

fun ledger_exec :: "env \<Rightarrow> ledger_call \<Rightarrow> ledger_state \<Rightarrow> (ContractError, ledger_state) outcome" where
  "ledger_exec env (Initialize a l) s = initialize env a l s"
| "ledger_exec env (AddAsset a t) s = add_supported_asset env a t s"
| "ledger_exec env (Assess a p r n m) s = assess env a p r n m s"
| "ledger_exec env (Waive a p r n m) s = waive env a p r n m s"
| "ledger_exec env (InitiatePayment a p i t n) s = initiate_payment env a p i t n s"
| "ledger_exec env (ConfirmPayment a i r m) s = confirm_payment env a i r m s"
| "ledger_exec env (FailPayment a i) s = fail_payment env a i s"
| "ledger_exec env (RefundPayment a i r m) s = refund_payment env a i r m s"
| "ledger_exec env (ReversePayment a i r m) s = reverse_payment env a i r m s"

inductive ledger_step :: "ledger_state \<Rightarrow> ledger_state \<Rightarrow> bool" where
  call: "ledger_exec env c s = Ok s' \<Longrightarrow> ledger_step s s'"

inductive_cases ledger_stepE: "ledger_step s s'"

section \<open>The abstract ledger\<close>

text \<open>The entries of a patron in order: what the storage keys \<open>EntryCount\<close> and \<open>Entry\<close> represent.\<close>

definition ledger :: "ledger_state \<Rightarrow> hash32 \<Rightarrow> LedgerEntry list" where
  "ledger s p = map (\<lambda>i. the (Entry s (p, i))) [0..<entry_count s p]"

text \<open>Payments and their corrections, against the settlements that are confirmed now.\<close>

definition settles :: "EntryKind \<Rightarrow> bool" where
  "settles k \<longleftrightarrow> k \<in> {Payment, Refund, Reversal}"

definition confirmed :: "hash32 \<Rightarrow> Settlement \<Rightarrow> int" where
  "confirmed p x = (if payee x = p \<and> state x = Confirmed then amount x else 0)"

definition settled_sum :: "LedgerEntry list \<Rightarrow> int" where
  "settled_sum es = sum_list (map delta (filter (\<lambda>e. settles (kind e)) es))"

definition ledger_wf :: "ledger_state \<Rightarrow> bool" where
  "ledger_wf s \<longleftrightarrow>
     (\<forall>p i. Entry s (p, i) \<noteq> None \<longleftrightarrow> i < entry_count s p) \<and>
     (\<forall>p i e. Entry s (p, i) = Some e \<longrightarrow> patron_ref e = p \<and> RefExists s (ref_id e) \<noteq> None) \<and>
     (\<forall>k e k' e'. Entry s k = Some e \<longrightarrow> Entry s k' = Some e' \<longrightarrow> ref_id e = ref_id e' \<longrightarrow> k = k') \<and>
     (\<forall>p. read_balance s p = sum_list (map delta (ledger s p)) \<and> 0 \<le> read_balance s p \<and>
        settled_sum (ledger s p) = - msum (confirmed p) (Settlements s) \<and> fits_u32 (entry_count s p)) \<and>
     finite (dom (Settlements s)) \<and> (\<forall>i x. Settlements s i = Some x \<longrightarrow> 0 < amount x)"

lemma ledger_wfD:
  assumes "ledger_wf s"
  shows "Entry s (p, i) \<noteq> None \<longleftrightarrow> i < entry_count s p"
    and "Entry s (p, i) = Some e \<Longrightarrow> patron_ref e = p \<and> RefExists s (ref_id e) \<noteq> None"
    and "Entry s k = Some e \<Longrightarrow> Entry s k' = Some e' \<Longrightarrow> ref_id e = ref_id e' \<Longrightarrow> k = k'"
    and "read_balance s p = sum_list (map delta (ledger s p))" and "0 \<le> read_balance s p"
    and "settled_sum (ledger s p) = - msum (confirmed p) (Settlements s)"
    and "fits_u32 (entry_count s p)"
    and "finite (dom (Settlements s))" and "Settlements s j = Some x \<Longrightarrow> 0 < amount x"
  using assms unfolding ledger_wf_def by blast+

lemma ledger_wfI:
  assumes "\<And>p i. Entry s (p, i) \<noteq> None \<longleftrightarrow> i < entry_count s p"
    and "\<And>p i e. Entry s (p, i) = Some e \<Longrightarrow> patron_ref e = p \<and> RefExists s (ref_id e) \<noteq> None"
    and "\<And>k e k' e'. Entry s k = Some e \<Longrightarrow> Entry s k' = Some e' \<Longrightarrow> ref_id e = ref_id e' \<Longrightarrow> k = k'"
    and "\<And>p. read_balance s p = sum_list (map delta (ledger s p))" and "\<And>p. 0 \<le> read_balance s p"
    and "\<And>p. settled_sum (ledger s p) = - msum (confirmed p) (Settlements s)"
    and "\<And>p. fits_u32 (entry_count s p)"
    and "finite (dom (Settlements s))" and "\<And>i x. Settlements s i = Some x \<Longrightarrow> 0 < amount x"
  shows "ledger_wf s"
  unfolding ledger_wf_def using assms by blast

lemma ledger_init_wf: "ledger_wf ledger_init"
  by (simp add: ledger_wf_def ledger_init_def entry_count_def ledger_def read_balance_def
      settled_sum_def fits_u32_def)

section \<open>Posting an entry\<close>

text \<open>Every operation that charges or credits a patron does the same: append, and add the delta.\<close>

definition post :: "LedgerEntry \<Rightarrow> ledger_state \<Rightarrow> ledger_state" where
  "post e s = s\<lparr>Entry := (Entry s)((patron_ref e, entry_count s (patron_ref e)) \<mapsto> e),
     EntryCount := (EntryCount s)(patron_ref e \<mapsto> entry_count s (patron_ref e) + 1),
     RefExists := (RefExists s)(ref_id e \<mapsto> True),
     Balance := (Balance s)(patron_ref e \<mapsto> read_balance s (patron_ref e) + delta e)\<rparr>"

definition postable :: "LedgerEntry \<Rightarrow> ledger_state \<Rightarrow> bool" where
  "postable e s \<longleftrightarrow> RefExists s (ref_id e) = None \<and> fits_u32 (entry_count s (patron_ref e) + 1) \<and>
     0 \<le> read_balance s (patron_ref e) + delta e"

lemma append_Ok [outcome_iff]:
  "append_entry e s = Ok s' \<longleftrightarrow> fits_u32 (entry_count s (patron_ref e) + 1) \<and>
     s' = s\<lparr>Entry := (Entry s)((patron_ref e, entry_count s (patron_ref e)) \<mapsto> e),
       EntryCount := (EntryCount s)(patron_ref e \<mapsto> entry_count s (patron_ref e) + 1),
       RefExists := (RefExists s)(ref_id e \<mapsto> True)\<rparr>"
  by (auto simp: append_entry_def entry_count_def outcome_iff Let_def)

lemma roles_Ok [outcome_iff]:
  "require_admin env s a = Ok u \<longleftrightarrow> Admin s = Some a \<and> auth env a"
  "require_librarian_or_admin env s a = Ok u \<longleftrightarrow>
     (\<exists>ad l. Admin s = Some ad \<and> Librarian s = Some l \<and> a \<in> {ad, l} \<and> auth env a)"
  by (auto simp: require_admin_def require_librarian_or_admin_def read_admin_def read_librarian_def
      outcome_iff)

lemma ledger_assess_Ok:
  assumes "assess env a p ref n meta s = Ok s'" "0 \<le> read_balance s p"
  obtains e where "patron_ref e = p" "delta e = n" "kind e = Assessment" "ref_id e = ref" "0 < n"
    "postable e s" "s' = post e s"
proof (rule that)
  let ?e = "\<lparr>patron_ref = p, ref_id = ref, kind = Assessment, delta = n, entry_asset = None,
    recorded_at = timestamp env, meta_hash = meta\<rparr>"
  show "postable ?e s" "s' = post ?e s" "0 < n"
    using assms by (auto simp: assess_def outcome_iff Let_def postable_def post_def write_balance_def)
qed auto

lemma ledger_waive_Ok:
  assumes "waive env a p ref n meta s = Ok s'"
  obtains e where "patron_ref e = p" "delta e = - n" "kind e = Waiver" "ref_id e = ref" "0 < n"
    "postable e s" "s' = post e s"
proof (rule that)
  let ?e = "\<lparr>patron_ref = p, ref_id = ref, kind = Waiver, delta = - n, entry_asset = None,
    recorded_at = timestamp env, meta_hash = meta\<rparr>"
  show "postable ?e s" "s' = post ?e s" "0 < n"
    using assms by (auto simp: waive_def outcome_iff Let_def postable_def post_def write_balance_def)
qed auto

lemma confirm_Ok:
  assumes "confirm_payment env a sid ref meta s = Ok s'"
  obtains e x where "Admin s = Some a" "auth env a" "Settlements s sid = Some x" "state x = Pending"
    "patron_ref e = payee x" "delta e = - amount x" "kind e = Payment" "ref_id e = ref"
    "postable e s" "s' = (post e s)\<lparr>Settlements := (Settlements s)(sid \<mapsto> x\<lparr>state := Confirmed\<rparr>)\<rparr>"
proof -
  from assms obtain x where x: "Admin s = Some a" "auth env a" "Settlements s sid = Some x" "state x = Pending"
    by (auto simp: confirm_payment_def outcome_iff)
  let ?e = "\<lparr>patron_ref = payee x, ref_id = ref, kind = Payment, delta = - amount x,
    entry_asset = Some (asset x), recorded_at = timestamp env, meta_hash = meta\<rparr>"
  show thesis
    by (rule that [OF x, of ?e]) (use x assms in \<open>auto simp: confirm_payment_def outcome_iff
      Let_def postable_def post_def write_balance_def\<close>)
qed

lemma undo_Ok:
  assumes "refund_payment env a sid ref meta s = Ok s' \<and> k = Refund \<and> st = Refunded \<or>
      reverse_payment env a sid ref meta s = Ok s' \<and> k = Reversal \<and> st = Reversed"
    and "ledger_wf s"
  obtains e x where "Admin s = Some a" "auth env a" "Settlements s sid = Some x" "state x = Confirmed"
    "patron_ref e = payee x" "delta e = amount x" "kind e = k" "ref_id e = ref" "postable e s"
    "s' = (post e s)\<lparr>Settlements := (Settlements s)(sid \<mapsto> x\<lparr>state := st\<rparr>)\<rparr>"
proof -
  from assms(1) obtain x where x: "Admin s = Some a" "auth env a" "Settlements s sid = Some x"
    "state x = Confirmed"
    by (auto simp: refund_payment_def reverse_payment_def outcome_iff)
  let ?e = "\<lparr>patron_ref = payee x, ref_id = ref, kind = k, delta = amount x,
    entry_asset = Some (asset x), recorded_at = timestamp env, meta_hash = meta\<rparr>"
  have "0 < amount x" "0 \<le> read_balance s (payee x)"
    using ledger_wfD [OF assms(2)] x(3) by blast+
  then have "postable ?e s \<and>
      s' = (post ?e s)\<lparr>Settlements := (Settlements s)(sid \<mapsto> x\<lparr>state := st\<rparr>)\<rparr>"
    using x assms(1)
    by (auto simp: refund_payment_def reverse_payment_def outcome_iff Let_def postable_def post_def
        write_balance_def)
  then show thesis by (intro that [OF x, of ?e]) auto
qed

lemmas undo_refund = undo_Ok [OF disjI1, OF conjI, OF _ conjI, OF _ refl refl]
lemmas undo_reverse = undo_Ok [OF disjI2, OF conjI, OF _ conjI, OF _ refl refl]

lemma initiate_Ok:
  assumes "initiate_payment env a p sid t n s = Ok s'"
  obtains "auth env a" "0 < n" "SupportedAsset s t \<noteq> None" "Settlements s sid = None"
    "s' = s\<lparr>Settlements := (Settlements s)(sid \<mapsto> \<lparr>payee = p, payer = a, asset = t,
       amount = n, state = Pending, initiated_at = timestamp env\<rparr>)\<rparr>"
  using assms by (auto simp: initiate_payment_def outcome_iff)

lemma fail_Ok:
  assumes "fail_payment env a sid s = Ok s'"
  obtains x where "Admin s = Some a" "auth env a" "Settlements s sid = Some x" "state x = Pending"
    "s' = s\<lparr>Settlements := (Settlements s)(sid \<mapsto> x\<lparr>state := Failed\<rparr>)\<rparr>"
  using assms by (auto simp: fail_payment_def outcome_iff)

lemma post_count: "entry_count (post e s) p = entry_count s p + (if p = patron_ref e then 1 else 0)"
  by (simp add: post_def entry_count_def)

text \<open>Refinement: posting an entry appends it to the abstract ledger of its patron.\<close>

lemma post_ledger: "ledger (post e s) p = ledger s p @ (if p = patron_ref e then [e] else [])"
proof (cases "p = patron_ref e")
  case True
  then show ?thesis by (simp add: ledger_def post_count) (simp add: post_def entry_count_def)
next
  case False
  then show ?thesis by (simp add: ledger_def post_count) (simp add: post_def)
qed

lemma post_balance: "read_balance (post e s) p = read_balance s p + (if p = patron_ref e then delta e else 0)"
  by (simp add: post_def read_balance_def)

lemma post_Entry:
  "Entry (post e s) = (Entry s)((patron_ref e, entry_count s (patron_ref e)) \<mapsto> e)"
  "RefExists (post e s) = (RefExists s)(ref_id e \<mapsto> True)"
  "Settlements (post e s) = Settlements s"
  by (simp_all add: post_def)

lemma ledger_frame:
  "Entry s' = Entry s \<Longrightarrow> EntryCount s' = EntryCount s \<Longrightarrow> ledger s' = ledger s \<and> entry_count s' = entry_count s"
  by (simp add: ledger_def entry_count_def fun_eq_iff)

lemma post_wf:
  assumes wf: "ledger_wf s" and e: "postable e s"
    and S: "finite (dom S)" "\<And>i x. S i = Some x \<Longrightarrow> 0 < amount x"
      "\<And>p. msum (confirmed p) S = msum (confirmed p) (Settlements s) -
        (if p = patron_ref e \<and> settles (kind e) then delta e else 0)"
  shows "ledger_wf ((post e s)\<lparr>Settlements := S\<rparr>)" (is "ledger_wf ?s")
proof (rule ledger_wfI)
  have views: "ledger ?s = ledger (post e s)" "entry_count ?s = entry_count (post e s)"
    "read_balance ?s = read_balance (post e s)"
    using ledger_frame [of ?s "post e s"] by (simp_all add: read_balance_def fun_eq_iff)
  note old = ledger_wfD [OF wf]
  have new: "RefExists s (ref_id e) = None" using e by (simp add: postable_def)
  show "Entry ?s (p, i) \<noteq> None \<longleftrightarrow> i < entry_count ?s p" for p i
    using old(1) [of p i] by (auto simp: views post_Entry post_count)
  show "patron_ref x = p \<and> RefExists ?s (ref_id x) \<noteq> None" if "Entry ?s (p, i) = Some x" for p i x
    using that old(2) [of p i x] by (auto simp: post_Entry split: if_splits)
  show "k = k'" if "Entry ?s k = Some x" "Entry ?s k' = Some y" "ref_id x = ref_id y" for k x k' y
  proof -
    let ?K = "(patron_ref e, entry_count s (patron_ref e))"
    have keep: "j = ?K \<and> z = e \<or> Entry s j = Some z \<and> ref_id z \<noteq> ref_id e"
      if "Entry ?s j = Some z" for j z
      using that old(2) [of "fst j" "snd j" z] new by (cases "j = ?K") (auto simp: post_Entry)
    from keep [OF that(1)] keep [OF that(2)] that(3) old(3) [of k x k' y] show ?thesis by metis
  qed
  show "read_balance ?s p = sum_list (map delta (ledger ?s p))" "0 \<le> read_balance ?s p"
    "settled_sum (ledger ?s p) = - msum (confirmed p) (Settlements ?s)" "fits_u32 (entry_count ?s p)" for p
    using old(4-7) [of p] e S(3) [of p]
    by (auto simp: views post_ledger post_balance post_count postable_def settled_sum_def)
qed (use S in auto)

lemma charge_wf:
  assumes "ledger_wf s" "postable e s" "\<not> settles (kind e)"
  shows "ledger_wf (post e s)"
proof -
  have "ledger_wf ((post e s)\<lparr>Settlements := Settlements s\<rparr>)"
    using assms ledger_wfD(8,9) [OF assms(1)] by (intro post_wf) auto
  moreover have "(post e s)\<lparr>Settlements := Settlements s\<rparr> = post e s" by (simp add: post_def)
  ultimately show ?thesis by simp
qed

lemma settle_wf:
  assumes "ledger_wf s" "postable e s" "settles (kind e)" "Settlements s sid = Some x"
    and "patron_ref e = payee x"
    and "delta e = (if state x = Confirmed then amount x else 0) - (if st = Confirmed then amount x else 0)"
  shows "ledger_wf ((post e s)\<lparr>Settlements := (Settlements s)(sid \<mapsto> x\<lparr>state := st\<rparr>)\<rparr>)"
proof (rule post_wf [OF assms(1,2)])
  note old = ledger_wfD(8,9) [OF assms(1)]
  show "0 < amount y" if "((Settlements s)(sid \<mapsto> x\<lparr>state := st\<rparr>)) i = Some y" for i y
    using that old(2) assms(4) by (auto split: if_splits)
  show "msum (confirmed p) ((Settlements s)(sid \<mapsto> x\<lparr>state := st\<rparr>)) = msum (confirmed p) (Settlements s) -
      (if p = patron_ref e \<and> settles (kind e) then delta e else 0)" for p
    using assms(3,5,6) by (simp add: msum_replace [OF old(1) assms(4)] confirmed_def)
qed (use ledger_wfD(8) [OF assms(1)] in simp)

lemma frame_wf:
  assumes "ledger_wf s" "Entry s' = Entry s" "EntryCount s' = EntryCount s" "RefExists s' = RefExists s"
    "Balance s' = Balance s" "finite (dom (Settlements s'))"
    "\<And>i x. Settlements s' i = Some x \<Longrightarrow> 0 < amount x"
    "\<And>p. msum (confirmed p) (Settlements s') = msum (confirmed p) (Settlements s)"
  shows "ledger_wf s'"
proof (rule ledger_wfI)
  note old = ledger_wfD [OF assms(1)]
  have views: "ledger s' = ledger s" "entry_count s' = entry_count s" "read_balance s' = read_balance s"
    using ledger_frame [OF assms(2,3)] assms(5) by (simp_all add: read_balance_def fun_eq_iff)
  show "Entry s' (p, i) \<noteq> None \<longleftrightarrow> i < entry_count s' p" for p i
    using old(1) by (simp add: views assms(2))
  show "patron_ref x = p \<and> RefExists s' (ref_id x) \<noteq> None" if "Entry s' (p, i) = Some x" for p i x
    using that old(2) unfolding assms(2,4) by blast
  show "k = k'" if "Entry s' k = Some x" "Entry s' k' = Some y" "ref_id x = ref_id y" for k x k' y
    using that old(3) unfolding assms(2) by blast
  show "read_balance s' p = sum_list (map delta (ledger s' p))" "0 \<le> read_balance s' p"
    "settled_sum (ledger s' p) = - msum (confirmed p) (Settlements s')" "fits_u32 (entry_count s' p)" for p
    using old(4-7) [of p] by (simp_all add: views assms(8))
qed (use assms in auto)

lemma ledger_exec_wf:
  assumes "ledger_exec env c s = Ok s'" "ledger_wf s"
  shows "ledger_wf s'"
proof (cases c)
  case (Assess a p r n m)
  with assms(1) have "assess env a p r n m s = Ok s'" by simp
  then show ?thesis
    using ledger_wfD(5) [OF assms(2)] assms(2)
    by (elim ledger_assess_Ok) (auto intro!: charge_wf simp: settles_def)
next
  case (Waive a p r n m)
  with assms(1) have "waive env a p r n m s = Ok s'" by simp
  then show ?thesis using assms(2) by (elim ledger_waive_Ok) (auto intro!: charge_wf simp: settles_def)
next
  case (InitiatePayment a p i t n)
  with assms(1) have "initiate_payment env a p i t n s = Ok s'" by simp
  then show ?thesis
    using ledger_wfD(8,9) [OF assms(2)]
    by (elim initiate_Ok, intro frame_wf [OF assms(2)])
      (auto simp: msum_insert confirmed_def split: if_splits)
next
  case (ConfirmPayment a i r m)
  with assms(1) have "confirm_payment env a i r m s = Ok s'" by simp
  then show ?thesis
    using assms(2) by (elim confirm_Ok) (auto intro!: settle_wf simp: settles_def)
next
  case (FailPayment a i)
  with assms(1) have "fail_payment env a i s = Ok s'" by simp
  then show ?thesis
    using ledger_wfD(8,9) [OF assms(2)]
    by (elim fail_Ok, intro frame_wf [OF assms(2)])
      (auto simp: msum_replace confirmed_def split: if_splits)
next
  case (RefundPayment a i r m)
  with assms(1) have "refund_payment env a i r m s = Ok s'" by simp
  then show ?thesis
    using assms(2) by (elim undo_refund) (auto intro!: settle_wf simp: settles_def)
next
  case (ReversePayment a i r m)
  with assms(1) have "reverse_payment env a i r m s = Ok s'" by simp
  then show ?thesis
    using assms(2) by (elim undo_reverse) (auto intro!: settle_wf simp: settles_def)
qed (use assms ledger_wfD(8,9) [OF assms(2)] in \<open>auto simp: initialize_def add_supported_asset_def
  outcome_iff intro!: frame_wf [OF assms(2)]\<close>)

interpretation ledger_runs: preserved ledger_step ledger_wf
  by unfold_locales (auto intro: ledger_exec_wf elim: ledger_stepE)

lemma ledger_reachable_wf: "ledger_step\<^sup>*\<^sup>* ledger_init s \<Longrightarrow> ledger_wf s"
  by (rule ledger_runs.run [OF _ ledger_init_wf])

text \<open>What a call can do to the ledger and to the settlements.\<close>

definition settlement_move :: "SettlementState \<Rightarrow> SettlementState \<Rightarrow> bool" where
  "settlement_move a b \<longleftrightarrow> a = Pending \<and> b \<in> {Confirmed, Failed} \<or>
     a = Confirmed \<and> b \<in> {Refunded, Reversed}"

lemma ledger_exec_effect:
  assumes "ledger_exec env c s = Ok s'" "ledger_wf s"
  obtains (config) "Entry s' = Entry s" "EntryCount s' = EntryCount s" "Settlements s' = Settlements s"
    | (charge) e where "s' = post e s"
    | (initiate) i x where "Settlements s i = None" "s' = s\<lparr>Settlements := (Settlements s)(i \<mapsto> x)\<rparr>"
    | (move) i x st where "Settlements s i = Some x" "settlement_move (state x) st"
        "s' = s\<lparr>Settlements := (Settlements s)(i \<mapsto> x\<lparr>state := st\<rparr>)\<rparr>"
    | (settle) e i x st where "Settlements s i = Some x" "settlement_move (state x) st"
        "s' = (post e s)\<lparr>Settlements := (Settlements s)(i \<mapsto> x\<lparr>state := st\<rparr>)\<rparr>"
proof (cases c)
  case (Assess a p r n m)
  with assms(1) have "assess env a p r n m s = Ok s'" by simp
  then show thesis using ledger_wfD(5) [OF assms(2)] by (rule ledger_assess_Ok) (rule charge)
next
  case (Waive a p r n m)
  with assms(1) have "waive env a p r n m s = Ok s'" by simp
  then show thesis by (rule ledger_waive_Ok) (rule charge)
next
  case (InitiatePayment a p i t n)
  with assms(1) have "initiate_payment env a p i t n s = Ok s'" by simp
  then show thesis by (rule initiate_Ok) (rule initiate)
next
  case (ConfirmPayment a i r m)
  with assms(1) have "confirm_payment env a i r m s = Ok s'" by simp
  then show thesis by (rule confirm_Ok) (rule settle, simp_all add: settlement_move_def)
next
  case (FailPayment a i)
  with assms(1) have "fail_payment env a i s = Ok s'" by simp
  then show thesis by (rule fail_Ok) (rule move, simp_all add: settlement_move_def)
next
  case (RefundPayment a i r m)
  with assms(1) have "refund_payment env a i r m s = Ok s'" by simp
  then show thesis using assms(2) by (rule undo_refund) (rule settle, simp_all add: settlement_move_def)
next
  case (ReversePayment a i r m)
  with assms(1) have "reverse_payment env a i r m s = Ok s'" by simp
  then show thesis using assms(2) by (rule undo_reverse) (rule settle, simp_all add: settlement_move_def)
qed (use assms(1) config in \<open>auto simp: initialize_def add_supported_asset_def outcome_iff\<close>)

section \<open>Pages\<close>

lemma entries_loop_eq:
  assumes "\<And>i. Entry s (p, i) \<noteq> None \<longleftrightarrow> i < count"
  shows "entries_loop s p count stop seq res =
    res @ map (\<lambda>i. the (Entry s (p, i))) [seq..<min count stop]"
proof (induction "count - seq" arbitrary: seq res)
  case 0
  then show ?case by (subst entries_loop.simps) simp
next
  case (Suc n)
  show ?case
  proof (cases "seq < stop")
    case True
    with Suc.hyps(2) have lt: "seq < count" "seq < min count stop" by auto
    then obtain e where "Entry s (p, seq) = Some e" using assms by blast
    with True lt Suc.hyps(1) [of "Suc seq"] Suc.hyps(2) show ?thesis
      by (subst entries_loop.simps) (simp add: upt_conv_Cons del: upt.simps)
  next
    case False
    then show ?thesis by (subst entries_loop.simps) simp
  qed
qed

lemma map_upt_slice: "map f [c..<min n (c + l)] = take l (drop c (map f [0..<n]))"
  by (auto simp: drop_map take_map min_def take_upt)

section \<open>Properties\<close>

text \<open>
  A run used by the witnesses: admin 1 and librarian 2; a fine of 80 and a waiver of 20 on patron
  \<open>[5]\<close>; a payment of 30 initiated and confirmed.
\<close>

abbreviation ledger_env :: env where
  "ledger_env \<equiv> \<lparr>timestamp = 10, ledger_sequence = 7, self = 99, auth = (\<lambda>_. True)\<rparr>"

abbreviation demo_entry :: "hash32 \<Rightarrow> EntryKind \<Rightarrow> int \<Rightarrow> address option \<Rightarrow> LedgerEntry" where
  "demo_entry r k d a \<equiv> \<lparr>patron_ref = [5], ref_id = r, kind = k, delta = d, entry_asset = a,
     recorded_at = 10, meta_hash = []\<rparr>"

abbreviation demo_settlement :: "SettlementState \<Rightarrow> Settlement" where
  "demo_settlement st \<equiv> \<lparr>payee = [5], payer = 3, asset = 50, amount = 30, state = st, initiated_at = 10\<rparr>"

definition demo_initiated :: ledger_state where
  "demo_initiated = ledger_init\<lparr>Admin := Some 1, Librarian := Some 2, SupportedAsset := [50 \<mapsto> True],
     Balance := [[5] \<mapsto> 60], EntryCount := [[5] \<mapsto> 2], RefExists := [[1] \<mapsto> True, [2] \<mapsto> True],
     Entry := [([5], 0) \<mapsto> demo_entry [1] Assessment 80 None, ([5], 1) \<mapsto> demo_entry [2] Waiver (- 20) None],
     Settlements := [[9] \<mapsto> demo_settlement Pending]\<rparr>"

definition demo_confirmed :: ledger_state where
  "demo_confirmed = demo_initiated\<lparr>Balance := [[5] \<mapsto> 30], EntryCount := [[5] \<mapsto> 3],
     RefExists := [[1] \<mapsto> True, [2] \<mapsto> True, [3] \<mapsto> True],
     Entry := (Entry demo_initiated)(([5], 2) \<mapsto> demo_entry [3] Payment (- 30) (Some 50)),
     Settlements := [[9] \<mapsto> demo_settlement Confirmed]\<rparr>"

lemmas ledger_ops = initialize_def add_supported_asset_def assess_def waive_def initiate_payment_def
  confirm_payment_def refund_payment_def append_entry_def write_balance_def read_balance_def read_admin_def
  read_librarian_def require_admin_def require_librarian_or_admin_def ledger_init_def

lemma demo_initiate_run:
  "run_calls ledger_exec
     [(ledger_env, Initialize 1 2), (ledger_env, AddAsset 1 50),
      (ledger_env, Assess 2 [5] [1] 80 []), (ledger_env, Waive 2 [5] [2] 20 []),
      (ledger_env, InitiatePayment 3 [5] [9] 50 30)] ledger_init = Ok demo_initiated"
  by (simp add: ledger_ops range_defs Let_def demo_initiated_def numeral_2_eq_2 [symmetric])

lemma demo_confirm:
  "ledger_exec ledger_env (ConfirmPayment 1 [9] [3] []) demo_initiated = Ok demo_confirmed"
  by (simp add: ledger_ops range_defs Let_def demo_initiated_def demo_confirmed_def)

lemma demo_ledger_reachable: "ledger_step\<^sup>*\<^sup>* ledger_init demo_initiated" "ledger_step\<^sup>*\<^sup>* ledger_init demo_confirmed"
proof -
  show *: "ledger_step\<^sup>*\<^sup>* ledger_init demo_initiated"
    by (rule run_calls_steps [OF demo_initiate_run]) (rule ledger_step.call)
  show "ledger_step\<^sup>*\<^sup>* ledger_init demo_confirmed"
    using * demo_confirm ledger_step.call by (metis rtranclp.rtrancl_into_rtrancl)
qed

text \<open>
  C10. The balance is derivable from the ledger, and each payment counts once. In every reachable
  state a patron's balance is the sum of the deltas in the patron's ledger and is not negative, and
  the payment, refund and reversal entries add up to minus the total of the settlements that are
  confirmed at that moment: a settlement credits its amount exactly once, and a refund or reversal
  takes it back exactly once.
\<close>

theorem balance_is_ledger_sum:
  assumes "ledger_step\<^sup>*\<^sup>* ledger_init s"
  shows "get_balance s p = sum_list (map delta (ledger s p)) \<and> 0 \<le> get_balance s p \<and>
    sum_list (map delta (filter (\<lambda>e. kind e \<in> {Payment, Refund, Reversal}) (ledger s p))) =
      - (\<Sum>i\<in>{i. \<exists>x. Settlements s i = Some x \<and> payee x = p \<and> state x = Confirmed}.
           amount (the (Settlements s i)))"
proof -
  have wf: "ledger_wf s" by (rule ledger_reachable_wf [OF assms])
  have sub: "{i. \<exists>x. Settlements s i = Some x \<and> payee x = p \<and> state x = Confirmed} \<subseteq> dom (Settlements s)"
    by auto
  have "msum (confirmed p) (Settlements s) =
      (\<Sum>i\<in>{i. \<exists>x. Settlements s i = Some x \<and> payee x = p \<and> state x = Confirmed}.
           amount (the (Settlements s i)))"
    unfolding msum_def
    by (rule sum.mono_neutral_cong_right [OF _ sub]) (use ledger_wfD(8) [OF wf] in \<open>auto simp: confirmed_def\<close>)
  then show ?thesis
    using ledger_wfD(4-6) [OF wf, of p] by (simp add: get_balance_def settled_sum_def settles_def)
qed

theorem balance_is_ledger_sum_witness:
  "get_balance demo_confirmed [5] = 30 \<and>
   sum_list (map delta (ledger demo_confirmed [5])) = 30"
  using balance_is_ledger_sum [OF demo_ledger_reachable(2), of "[5]"]
  by (simp add: get_balance_def read_balance_def demo_confirmed_def)

text \<open>
  The ledger is append-only and references are unique. A call extends each patron's ledger by at
  most one entry and never changes an earlier one, and in every reachable state an external
  reference occurs on at most one entry of the whole contract.
\<close>

theorem ledger_append_only:
  assumes "ledger_step\<^sup>*\<^sup>* ledger_init s" and "ledger_step s s'"
  shows "(\<exists>es. ledger s' p = ledger s p @ es \<and> length es \<le> 1) \<and>
    (Entry s k = Some e \<longrightarrow> Entry s k' = Some e' \<longrightarrow> ref_id e = ref_id e' \<longrightarrow> k = k')"
proof -
  have wf: "ledger_wf s" by (rule ledger_reachable_wf [OF assms(1)])
  obtain env c where call: "ledger_exec env c s = Ok s'" using assms(2) by (rule ledger_stepE)
  from call wf have "\<exists>es. ledger s' p = ledger s p @ es \<and> length es \<le> 1"
  proof (cases rule: ledger_exec_effect)
    case (settle x i y st)
    then show ?thesis using ledger_frame [of s' "post x s"] by (simp add: post_ledger)
  qed (use ledger_frame [of s' s] in \<open>auto simp: post_ledger\<close>)
  with ledger_wfD(3) [OF wf] show ?thesis by blast
qed

theorem ledger_append_only_witness:
  "\<exists>es. ledger demo_confirmed [5] = ledger demo_initiated [5] @ es \<and> length es \<le> 1"
  using ledger_append_only [OF demo_ledger_reachable(1) ledger_step.call [OF demo_confirm]] by blast

text \<open>
  Settlements follow a monotone state machine. A call keeps every settlement with its patron,
  payer, asset, amount and time, and changes its state only from pending to confirmed or failed, or
  from confirmed to refunded or reversed; those three final states are permanent.
\<close>

theorem settlement_monotone:
  assumes "ledger_step\<^sup>*\<^sup>* ledger_init s" and "ledger_step s s'" and "Settlements s i = Some x"
  shows "\<exists>st. Settlements s' i = Some (x\<lparr>state := st\<rparr>) \<and>
    (st = state x \<or> state x = Pending \<and> st \<in> {Confirmed, Failed} \<or>
     state x = Confirmed \<and> st \<in> {Refunded, Reversed})"
  (is "\<exists>st. ?moved st")
proof -
  have wf: "ledger_wf s" by (rule ledger_reachable_wf [OF assms(1)])
  obtain env c where call: "ledger_exec env c s = Ok s'" using assms(2) by (rule ledger_stepE)
  have keep: "\<exists>st. ?moved st" if "Settlements s' i = Settlements s i"
    using that assms(3) by (intro exI [of _ "state x"]) simp
  have update: "\<exists>st. ?moved st"
    if "Settlements s j = Some y" "settlement_move (state y) st'"
      "Settlements s' = (Settlements s)(j \<mapsto> y\<lparr>state := st'\<rparr>)" for j y st'
  proof (cases "j = i")
    case True
    with that assms(3) show ?thesis by (intro exI [of _ st']) (auto simp: settlement_move_def)
  qed (use that keep in simp)
  from call wf show ?thesis
  proof (cases rule: ledger_exec_effect)
    case (initiate j y)
    then show ?thesis using assms(3) by (intro keep) auto
  qed (use keep update in \<open>auto simp: post_Entry\<close>)
qed

theorem settlement_monotone_witness:
  "\<exists>st. Settlements demo_confirmed [9] = Some ((demo_settlement Pending)\<lparr>state := st\<rparr>) \<and>
     (st = Pending \<or> Pending = Pending \<and> st \<in> {Confirmed, Failed} \<or> Pending = Confirmed \<and> st \<in> {Refunded, Reversed})"
  using settlement_monotone [OF demo_ledger_reachable(1) ledger_step.call [OF demo_confirm],
      of "[9]" "demo_settlement Pending"]
  by (simp add: demo_initiated_def)

text \<open>
  Pages are slices. In every reachable state, for a cursor and a limit in range of \<open>u32\<close>, a page
  query returns exactly the entries from the cursor on, at most the limit and at most 50 of them,
  with nothing skipped or repeated.
\<close>

theorem pages_are_slices:
  assumes "ledger_step\<^sup>*\<^sup>* ledger_init s"
  shows "get_entries s p cursor limit = take (min limit MAX_PAGE_SIZE) (drop cursor (ledger s p))"
proof -
  have wf: "ledger_wf s" by (rule ledger_reachable_wf [OF assms])
  let ?n = "entry_count s p" and ?l = "min limit MAX_PAGE_SIZE"
  have "?n \<le> 2 ^ 32 - 1" using ledger_wfD(7) [OF wf, of p] by (simp add: fits_u32_def)
  then have "min ?n (min (cursor + ?l) (2 ^ 32 - 1)) = min ?n (cursor + ?l)" by simp
  moreover have "(if limit > MAX_PAGE_SIZE then MAX_PAGE_SIZE else limit) = ?l" by simp
  ultimately have "get_entries s p cursor limit =
      map (\<lambda>i. the (Entry s (p, i))) [cursor..<min ?n (cursor + ?l)]"
    using entries_loop_eq [of s p ?n] ledger_wfD(1) [OF wf]
    unfolding get_entries_def Let_def by simp
  then show ?thesis by (simp only: map_upt_slice ledger_def)
qed

theorem pages_are_slices_witness:
  "get_entries demo_confirmed [5] 1 100 = take (min 100 MAX_PAGE_SIZE) (drop 1 (ledger demo_confirmed [5]))"
  by (rule pages_are_slices [OF demo_ledger_reachable(2)])

end
