(* ===== verification/Scholarship_Awards.thy ===== *)
theory Scholarship_Awards
  imports Transition_Systems
begin

text \<open>
  \<open>contracts/scholarship-awards/src/lib.rs\<close>: the life of a scholarship award from offer to
  acceptance, decline, expiry, cancellation or termination, with optimistic versions, budget
  reservations per program, one active award per recipient and program, and recorded disbursements.
\<close>

section \<open>State and operations\<close>

datatype ContractError =
    NotInitialized | AlreadyInitialized | NotAdmin | AwardNotFound | AwardAlreadyExists | InvalidAmount
  | InvalidDeadline | ConflictingAward | NotRecipient | OfferNotActive | OfferExpired
  | InvalidTransition | PaymentAlreadyMade | NoPaymentMade | RecoveryExceedsPaid
  | DisbursementExceedsAward | NoReservation | AwardNotDisburseable | OfferNotExpired
  | AcceptanceNotFound | VersionConflict | VersionOverflow

datatype AwardStatus = Offered | Accepted | Declined | Expired | Cancelled | Terminated

record Award =
  version :: nat
  award_key :: hash32
  program_id :: hash32
  recipient :: address
  amount :: int
  currency :: string
  terms_version :: nat
  terms_hash :: hash32
  milestone_schedule_id :: "hash32 option"
  offered_at :: nat
  acceptance_deadline :: nat
  status :: AwardStatus
  reserved :: bool
  paid_amount :: int
  decided_at :: nat
  reason_code :: nat

record AgreementAcceptance =
  acc_award :: hash32
  acc_terms_version :: nat
  acc_terms_hash :: hash32
  signer :: address
  accepted_at :: nat
  declarations_hash :: hash32

record awards_state =
  Admin :: "address option"
  Awards :: "hash32 \<rightharpoonup> Award"
  ActiveAward :: "address \<times> hash32 \<rightharpoonup> hash32"
  Acceptance :: "hash32 \<rightharpoonup> AgreementAcceptance"
  Recovery :: "hash32 \<rightharpoonup> int"
  Reservation :: "hash32 \<rightharpoonup> nat"

definition awards_init :: awards_state where
  "awards_init = \<lparr>Admin = None, Awards = Map.empty, ActiveAward = Map.empty, Acceptance = Map.empty,
     Recovery = Map.empty, Reservation = Map.empty\<rparr>"

definition initialize :: "env \<Rightarrow> address \<Rightarrow> awards_state \<Rightarrow> (ContractError, awards_state) outcome" where
  "initialize env admin s =
     (if Admin s \<noteq> None then Err AlreadyInitialized
      else and_then (require_auth env admin) (\<lambda>_. Ok (s\<lparr>Admin := Some admin\<rparr>)))"

definition require_admin :: "env \<Rightarrow> awards_state \<Rightarrow> address \<Rightarrow> (ContractError, unit) outcome" where
  "require_admin env s caller =
     and_then (ok_or (Admin s) NotInitialized) (\<lambda>admin.
     if caller \<noteq> admin then Err NotAdmin
     else and_then (require_auth env caller) (\<lambda>_. Ok ()))"

fun is_legal_transition :: "AwardStatus \<Rightarrow> AwardStatus \<Rightarrow> bool" where
  "is_legal_transition Offered Accepted = True"
| "is_legal_transition Offered Declined = True"
| "is_legal_transition Offered Expired = True"
| "is_legal_transition Offered Cancelled = True"
| "is_legal_transition Accepted Cancelled = True"
| "is_legal_transition Accepted Terminated = True"
| "is_legal_transition _ _ = False"

definition put_award :: "Award \<Rightarrow> awards_state \<Rightarrow> awards_state" where
  "put_award a s = s\<lparr>Awards := (Awards s)(award_key a \<mapsto> a)\<rparr>"

definition load_award :: "awards_state \<Rightarrow> hash32 \<Rightarrow> (ContractError, Award) outcome" where
  "load_award s i = ok_or (Awards s i) AwardNotFound"

definition advance_award_version :: "Award \<Rightarrow> nat \<Rightarrow> (ContractError, Award) outcome" where
  "advance_award_version a expected_version =
     (if version a \<noteq> expected_version then Err VersionConflict
      else and_then (ok_or (u32_checked (version a + 1)) VersionOverflow) (\<lambda>v.
      Ok (a\<lparr>version := v\<rparr>)))"

definition reserve :: "hash32 \<Rightarrow> awards_state \<Rightarrow> (ContractError, awards_state) outcome" where
  "reserve p s =
     and_then (ok_or (u32_checked (unwrap_or (Reservation s p) 0 + 1)) NoReservation) (\<lambda>n.
     Ok (s\<lparr>Reservation := (Reservation s)(p \<mapsto> n)\<rparr>))"

definition release :: "hash32 \<Rightarrow> awards_state \<Rightarrow> (ContractError, awards_state) outcome" where
  "release p s =
     (let current = unwrap_or (Reservation s p) 0 in
      if current = 0 then Err NoReservation
      else Ok (s\<lparr>Reservation := (Reservation s)(p \<mapsto> current - 1)\<rparr>))"

definition clear_active_award :: "address \<Rightarrow> hash32 \<Rightarrow> awards_state \<Rightarrow> awards_state" where
  "clear_active_award r p s = s\<lparr>ActiveAward := (ActiveAward s)((r, p) := None)\<rparr>"

definition create_award ::
  "env \<Rightarrow> address \<Rightarrow> hash32 \<Rightarrow> hash32 \<Rightarrow> address \<Rightarrow> int \<Rightarrow> string \<Rightarrow> nat \<Rightarrow> hash32 \<Rightarrow> nat \<Rightarrow>
   hash32 option \<Rightarrow> awards_state \<Rightarrow> (ContractError, awards_state) outcome" where
  "create_award env admin i p r n cur tv th deadline ms s =
     and_then (require_admin env s admin) (\<lambda>_.
     if n \<le> 0 then Err InvalidAmount
     else
       let now = timestamp env in
       if deadline \<le> now then Err InvalidDeadline
       else if Awards s i \<noteq> None then Err AwardAlreadyExists
       else if ActiveAward s (r, p) \<noteq> None then Err ConflictingAward
       else
         let a = \<lparr>version = 1, award_key = i, program_id = p, recipient = r, amount = n,
               currency = cur, terms_version = tv, terms_hash = th, milestone_schedule_id = ms,
               offered_at = now, acceptance_deadline = deadline, status = Offered, reserved = True,
               paid_amount = 0, decided_at = 0, reason_code = 0\<rparr>;
             s = put_award a s;
             s = s\<lparr>ActiveAward := (ActiveAward s)((r, p) \<mapsto> i)\<rparr>
         in reserve p s)"

definition get_award :: "awards_state \<Rightarrow> hash32 \<Rightarrow> (ContractError, Award) outcome" where
  "get_award s i = ok_or (Awards s i) AwardNotFound"

definition has_active_award :: "awards_state \<Rightarrow> address \<Rightarrow> hash32 \<Rightarrow> bool" where
  "has_active_award s r p \<longleftrightarrow> ActiveAward s (r, p) \<noteq> None"

definition get_reservation :: "awards_state \<Rightarrow> hash32 \<Rightarrow> nat" where
  "get_reservation s p = unwrap_or (Reservation s p) 0"

definition is_acceptance_expired ::
  "env \<Rightarrow> awards_state \<Rightarrow> hash32 \<Rightarrow> (ContractError, bool) outcome" where
  "is_acceptance_expired env s i =
     and_then (load_award s i) (\<lambda>a.
     Ok (status a = Offered \<and> timestamp env > acceptance_deadline a))"

definition accept_award ::
  "env \<Rightarrow> address \<Rightarrow> hash32 \<Rightarrow> nat \<Rightarrow> hash32 \<Rightarrow> awards_state \<Rightarrow>
   (ContractError, awards_state) outcome" where
  "accept_award env r i expected dh s =
     and_then (require_auth env r) (\<lambda>_.
     and_then (load_award s i) (\<lambda>a.
     if recipient a \<noteq> r then Err NotRecipient
     else and_then (advance_award_version a expected) (\<lambda>a.
     if status a \<noteq> Offered then Err OfferNotActive
     else
       let now = timestamp env in
       if now > acceptance_deadline a then Err OfferExpired
       else if \<not> is_legal_transition (status a) Accepted then Err InvalidTransition
       else
         let c = \<lparr>acc_award = i, acc_terms_version = terms_version a, acc_terms_hash = terms_hash a,
               signer = r, accepted_at = now, declarations_hash = dh\<rparr>;
             s = s\<lparr>Acceptance := (Acceptance s)(i \<mapsto> c)\<rparr>
         in Ok (put_award (a\<lparr>status := Accepted, decided_at := now\<rparr>) s))))"

definition get_acceptance ::
  "awards_state \<Rightarrow> hash32 \<Rightarrow> (ContractError, AgreementAcceptance) outcome" where
  "get_acceptance s i = ok_or (Acceptance s i) AcceptanceNotFound"

definition can_disburse :: "awards_state \<Rightarrow> hash32 \<Rightarrow> (ContractError, bool) outcome" where
  "can_disburse s i =
     and_then (load_award s i) (\<lambda>a. Ok (status a = Accepted \<and> paid_amount a < amount a))"

definition decline_award ::
  "env \<Rightarrow> address \<Rightarrow> hash32 \<Rightarrow> nat \<Rightarrow> awards_state \<Rightarrow> (ContractError, awards_state) outcome" where
  "decline_award env r i expected s =
     and_then (require_auth env r) (\<lambda>_.
     and_then (load_award s i) (\<lambda>a.
     if recipient a \<noteq> r then Err NotRecipient
     else and_then (advance_award_version a expected) (\<lambda>a.
     if \<not> is_legal_transition (status a) Declined then Err InvalidTransition
     else
       let a = a\<lparr>status := Declined, decided_at := timestamp env, reserved := False\<rparr> in
       and_then (release (program_id a) (put_award a s)) (\<lambda>s.
       Ok (clear_active_award (recipient a) (program_id a) s)))))"

definition expire_award ::
  "env \<Rightarrow> hash32 \<Rightarrow> nat \<Rightarrow> awards_state \<Rightarrow> (ContractError, awards_state) outcome" where
  "expire_award env i expected s =
     and_then (load_award s i) (\<lambda>a.
     and_then (advance_award_version a expected) (\<lambda>a.
     if status a \<noteq> Offered then Err InvalidTransition
     else if timestamp env \<le> acceptance_deadline a then Err OfferNotExpired
     else
       let a = a\<lparr>status := Expired, decided_at := timestamp env, reserved := False\<rparr> in
       and_then (release (program_id a) (put_award a s)) (\<lambda>s.
       Ok (clear_active_award (recipient a) (program_id a) s))))"

definition cancel_award ::
  "env \<Rightarrow> address \<Rightarrow> hash32 \<Rightarrow> nat \<Rightarrow> nat \<Rightarrow> awards_state \<Rightarrow>
   (ContractError, awards_state) outcome" where
  "cancel_award env admin i expected reason s =
     and_then (require_admin env s admin) (\<lambda>_.
     and_then (load_award s i) (\<lambda>a.
     and_then (advance_award_version a expected) (\<lambda>a.
     if paid_amount a > 0 then Err PaymentAlreadyMade
     else if \<not> is_legal_transition (status a) Cancelled then Err InvalidTransition
     else
       let a = a\<lparr>status := Cancelled, decided_at := timestamp env, reason_code := reason,
                 reserved := False\<rparr> in
       and_then (release (program_id a) (put_award a s)) (\<lambda>s.
       Ok (clear_active_award (recipient a) (program_id a) s)))))"

definition terminate_award ::
  "env \<Rightarrow> address \<Rightarrow> hash32 \<Rightarrow> nat \<Rightarrow> nat \<Rightarrow> int \<Rightarrow> awards_state \<Rightarrow>
   (ContractError, awards_state) outcome" where
  "terminate_award env admin i expected reason recovery_amount s =
     and_then (require_admin env s admin) (\<lambda>_.
     and_then (load_award s i) (\<lambda>a.
     and_then (advance_award_version a expected) (\<lambda>a.
     if paid_amount a = 0 then Err NoPaymentMade
     else if recovery_amount < 0 \<or> recovery_amount > paid_amount a then Err RecoveryExceedsPaid
     else if \<not> is_legal_transition (status a) Terminated then Err InvalidTransition
     else
       let a = a\<lparr>status := Terminated, decided_at := timestamp env, reason_code := reason,
                 reserved := False\<rparr>;
           s = put_award a s;
           s = s\<lparr>Recovery := (Recovery s)(i \<mapsto> recovery_amount)\<rparr> in
       and_then (release (program_id a) s) (\<lambda>s.
       Ok (clear_active_award (recipient a) (program_id a) s)))))"

definition get_recovery :: "awards_state \<Rightarrow> hash32 \<Rightarrow> int" where
  "get_recovery s i = unwrap_or (Recovery s i) 0"

definition record_disbursement ::
  "env \<Rightarrow> address \<Rightarrow> hash32 \<Rightarrow> nat \<Rightarrow> int \<Rightarrow> awards_state \<Rightarrow>
   (ContractError, awards_state) outcome" where
  "record_disbursement env admin i expected n s =
     and_then (require_admin env s admin) (\<lambda>_.
     if n \<le> 0 then Err InvalidAmount
     else and_then (load_award s i) (\<lambda>a.
     and_then (advance_award_version a expected) (\<lambda>a.
     if status a \<noteq> Accepted then Err AwardNotDisburseable
     else and_then (ok_or (i128_checked (paid_amount a + n)) DisbursementExceedsAward) (\<lambda>new_paid.
     if new_paid > amount a then Err DisbursementExceedsAward
     else Ok (put_award (a\<lparr>paid_amount := new_paid\<rparr>) s)))))"

datatype awards_call =
    Initialize address
  | CreateAward address hash32 hash32 address int string nat hash32 nat "hash32 option"
  | AcceptAward address hash32 nat hash32 | DeclineAward address hash32 nat | ExpireAward hash32 nat
  | CancelAward address hash32 nat nat | TerminateAward address hash32 nat nat int
  | RecordDisbursement address hash32 nat int

fun awards_exec :: "env \<Rightarrow> awards_call \<Rightarrow> awards_state \<Rightarrow> (ContractError, awards_state) outcome" where
  "awards_exec env (Initialize a) s = initialize env a s"
| "awards_exec env (CreateAward a i p r n c tv th d ms) s = create_award env a i p r n c tv th d ms s"
| "awards_exec env (AcceptAward r i v h) s = accept_award env r i v h s"
| "awards_exec env (DeclineAward r i v) s = decline_award env r i v s"
| "awards_exec env (ExpireAward i v) s = expire_award env i v s"
| "awards_exec env (CancelAward a i v c) s = cancel_award env a i v c s"
| "awards_exec env (TerminateAward a i v c n) s = terminate_award env a i v c n s"
| "awards_exec env (RecordDisbursement a i v n) s = record_disbursement env a i v n s"

inductive awards_step :: "awards_state \<Rightarrow> awards_state \<Rightarrow> bool" where
  call: "awards_exec env c s = Ok s' \<Longrightarrow> awards_step s s'"

inductive_cases awards_stepE: "awards_step s s'"

section \<open>What a successful call did\<close>

definition same_terms :: "Award \<Rightarrow> Award \<Rightarrow> bool" where
  "same_terms a b \<longleftrightarrow> award_key b = award_key a \<and> program_id b = program_id a \<and>
     recipient b = recipient a \<and> amount b = amount a \<and> currency b = currency a \<and>
     terms_version b = terms_version a \<and> terms_hash b = terms_hash a \<and>
     milestone_schedule_id b = milestone_schedule_id a \<and> offered_at b = offered_at a \<and>
     acceptance_deadline b = acceptance_deadline a"

text \<open>An award that still holds its reservation.\<close>

definition live :: "Award \<Rightarrow> bool" where
  "live a \<longleftrightarrow> status a \<in> {Offered, Accepted}"

lemma legal_iff:
  "is_legal_transition x y \<longleftrightarrow> x = Offered \<and> y \<in> {Accepted, Declined, Expired, Cancelled} \<or>
     x = Accepted \<and> y \<in> {Cancelled, Terminated}"
  by (cases x; cases y) simp_all

lemma award_require_admin_Ok [outcome_iff]:
  "require_admin env s a = Ok u \<longleftrightarrow> Admin s = Some a \<and> auth env a"
  by (auto simp: require_admin_def outcome_iff)

lemma advance_Ok [outcome_iff]:
  "advance_award_version a v = Ok b \<longleftrightarrow> version a = v \<and> fits_u32 (v + 1) \<and> b = a\<lparr>version := v + 1\<rparr>"
  by (auto simp: advance_award_version_def outcome_iff)

lemma reservation_Ok [outcome_iff]:
  "reserve p s = Ok s' \<longleftrightarrow> fits_u32 (get_reservation s p + 1) \<and>
     s' = s\<lparr>Reservation := (Reservation s)(p \<mapsto> get_reservation s p + 1)\<rparr>"
  "release p s = Ok s' \<longleftrightarrow> 0 < get_reservation s p \<and>
     s' = s\<lparr>Reservation := (Reservation s)(p \<mapsto> get_reservation s p - 1)\<rparr>"
  by (auto simp: reserve_def release_def get_reservation_def outcome_iff Let_def)

lemmas award_storage = put_award_def load_award_def clear_active_award_def

lemma award_create_Ok:
  assumes "create_award env ad i p r n c tv th d ms s = Ok s'"
  obtains a where "Admin s = Some ad" "auth env ad" "Awards s i = None" "ActiveAward s (r, p) = None"
    "award_key a = i" "program_id a = p" "recipient a = r" "amount a = n" "0 < n" "version a = 1"
    "status a = Offered" "reserved a" "paid_amount a = 0" "timestamp env < acceptance_deadline a"
    "s' = s\<lparr>Awards := (Awards s)(i \<mapsto> a), ActiveAward := (ActiveAward s)((r, p) \<mapsto> i),
       Reservation := (Reservation s)(p \<mapsto> get_reservation s p + 1)\<rparr>"
proof (rule that)
  let ?a = "\<lparr>version = 1, award_key = i, program_id = p, recipient = r, amount = n,
    currency = c, terms_version = tv, terms_hash = th, milestone_schedule_id = ms,
    offered_at = timestamp env, acceptance_deadline = d, status = Offered, reserved = True,
    paid_amount = 0, decided_at = 0, reason_code = 0\<rparr>"
  show "s' = s\<lparr>Awards := (Awards s)(i \<mapsto> ?a), ActiveAward := (ActiveAward s)((r, p) \<mapsto> i),
       Reservation := (Reservation s)(p \<mapsto> get_reservation s p + 1)\<rparr>"
    "Admin s = Some ad" "auth env ad" "Awards s i = None" "ActiveAward s (r, p) = None" "0 < n"
    "timestamp env < acceptance_deadline ?a"
    using assms
    by (auto simp: create_award_def award_storage outcome_iff Let_def get_reservation_def)
qed auto

lemma accept_Ok:
  assumes "accept_award env r i v h s = Ok s'"
  obtains a b where "auth env r" "Awards s i = Some a" "recipient a = r" "version a = v"
    "status a = Offered" "timestamp env \<le> acceptance_deadline a" "same_terms a b"
    "version b = version a + 1" "status b = Accepted" "reserved b = reserved a"
    "paid_amount b = paid_amount a"
    "s' = s\<lparr>Acceptance := (Acceptance s)(i \<mapsto> \<lparr>acc_award = i, acc_terms_version = terms_version a,
       acc_terms_hash = terms_hash a, signer = r, accepted_at = timestamp env, declarations_hash = h\<rparr>),
       Awards := (Awards s)(award_key a \<mapsto> b)\<rparr>"
proof -
  from assms obtain a where a: "Awards s i = Some a" by (auto simp: accept_award_def award_storage outcome_iff)
  show thesis
    by (rule that [of a "a\<lparr>version := version a + 1, status := Accepted, decided_at := timestamp env\<rparr>"])
      (use a assms in \<open>auto simp: accept_award_def award_storage outcome_iff Let_def same_terms_def\<close>)
qed

lemma disburse_Ok:
  assumes "record_disbursement env ad i v n s = Ok s'"
  obtains a b where "Admin s = Some ad" "auth env ad" "0 < n" "Awards s i = Some a" "version a = v"
    "status a = Accepted" "paid_amount a + n \<le> amount a" "same_terms a b"
    "version b = version a + 1" "status b = Accepted" "reserved b = reserved a"
    "paid_amount b = paid_amount a + n"
    "s' = s\<lparr>Awards := (Awards s)(award_key a \<mapsto> b)\<rparr>"
proof -
  from assms obtain a where a: "Awards s i = Some a"
    by (auto simp: record_disbursement_def award_storage outcome_iff)
  show thesis
    by (rule that [of a "a\<lparr>version := version a + 1, paid_amount := paid_amount a + n\<rparr>"])
      (use a assms in \<open>auto simp: record_disbursement_def award_storage outcome_iff Let_def same_terms_def\<close>)
qed

text \<open>The four ways to close an award share one effect.\<close>

definition closed :: "Award \<Rightarrow> awards_state \<Rightarrow> awards_state" where
  "closed b s = s\<lparr>Awards := (Awards s)(award_key b \<mapsto> b),
     Reservation := (Reservation s)(program_id b \<mapsto> get_reservation s (program_id b) - 1),
     ActiveAward := (ActiveAward s)((recipient b, program_id b) := None)\<rparr>"

definition closes :: "Award \<Rightarrow> Award \<Rightarrow> AwardStatus \<Rightarrow> bool" where
  "closes a b st \<longleftrightarrow> same_terms a b \<and> version b = version a + 1 \<and> status b = st \<and> \<not> reserved b \<and>
     paid_amount b = paid_amount a \<and> is_legal_transition (status a) st"

lemmas close_defs = award_storage outcome_iff Let_def closes_def closed_def same_terms_def
  get_reservation_def

lemma decline_Ok:
  assumes "decline_award env r i v s = Ok s'"
  obtains a b where "auth env r" "Awards s i = Some a" "recipient a = r" "version a = v"
    "closes a b Declined" "0 < get_reservation s (program_id a)" "s' = closed b s"
proof -
  from assms obtain a where a: "Awards s i = Some a" by (auto simp: decline_award_def close_defs)
  show thesis
    by (rule that [of a "a\<lparr>version := version a + 1, status := Declined, decided_at := timestamp env, reserved := False\<rparr>"])
      (use a assms in \<open>auto simp: decline_award_def close_defs legal_iff\<close>)
qed

lemma expire_Ok:
  assumes "expire_award env i v s = Ok s'"
  obtains a b where "Awards s i = Some a" "version a = v" "acceptance_deadline a < timestamp env"
    "closes a b Expired" "0 < get_reservation s (program_id a)" "s' = closed b s"
proof -
  from assms obtain a where a: "Awards s i = Some a" by (auto simp: expire_award_def close_defs)
  show thesis
    by (rule that [of a "a\<lparr>version := version a + 1, status := Expired, decided_at := timestamp env, reserved := False\<rparr>"])
      (use a assms in \<open>auto simp: expire_award_def close_defs legal_iff\<close>)
qed

lemma award_cancel_Ok:
  assumes "cancel_award env ad i v c s = Ok s'"
  obtains a b where "Admin s = Some ad" "auth env ad" "Awards s i = Some a" "version a = v"
    "paid_amount a \<le> 0" "closes a b Cancelled" "0 < get_reservation s (program_id a)" "s' = closed b s"
proof -
  from assms obtain a where a: "Awards s i = Some a" by (auto simp: cancel_award_def close_defs)
  show thesis
    by (rule that [of a "a\<lparr>version := version a + 1, status := Cancelled, decided_at := timestamp env, reason_code := c, reserved := False\<rparr>"])
      (use a assms in \<open>auto simp: cancel_award_def close_defs legal_iff\<close>)
qed

lemma terminate_Ok:
  assumes "terminate_award env ad i v c n s = Ok s'"
  obtains a b where "Admin s = Some ad" "auth env ad" "Awards s i = Some a" "version a = v"
    "paid_amount a \<noteq> 0" "0 \<le> n" "n \<le> paid_amount a" "closes a b Terminated"
    "0 < get_reservation s (program_id a)" "s' = (closed b s)\<lparr>Recovery := (Recovery s)(i \<mapsto> n)\<rparr>"
proof -
  from assms obtain a where a: "Awards s i = Some a" by (auto simp: terminate_award_def close_defs)
  show thesis
    by (rule that [of a "a\<lparr>version := version a + 1, status := Terminated, decided_at := timestamp env, reason_code := c, reserved := False\<rparr>"])
      (use a assms in \<open>auto simp: terminate_award_def close_defs legal_iff\<close>)
qed

section \<open>Well-formed states\<close>

text \<open>An award together with the acceptance and the recovery stored under its key.\<close>

definition binds :: "AgreementAcceptance \<Rightarrow> Award \<Rightarrow> bool" where
  "binds c a \<longleftrightarrow> acc_award c = award_key a \<and> acc_terms_version c = terms_version a \<and>
     acc_terms_hash c = terms_hash a \<and> signer c = recipient a \<and> accepted_at c \<le> acceptance_deadline a"

definition award_ok :: "Award \<Rightarrow> AgreementAcceptance option \<Rightarrow> int option \<Rightarrow> bool" where
  "award_ok a acc rec \<longleftrightarrow>
     0 \<le> paid_amount a \<and> paid_amount a \<le> amount a \<and> (reserved a \<longleftrightarrow> live a) \<and>
     (0 < paid_amount a \<longrightarrow> status a \<in> {Accepted, Terminated}) \<and>
     (case acc of None \<Rightarrow> status a \<notin> {Accepted, Terminated}
      | Some c \<Rightarrow> status a \<in> {Accepted, Cancelled, Terminated} \<and> binds c a) \<and>
     (case rec of None \<Rightarrow> status a \<noteq> Terminated
      | Some r \<Rightarrow> status a = Terminated \<and> 0 \<le> r \<and> r \<le> paid_amount a)"

definition holds :: "hash32 \<Rightarrow> Award \<Rightarrow> int" where
  "holds p a = (if program_id a = p \<and> live a then 1 else 0)"

definition awards_wf :: "awards_state \<Rightarrow> bool" where
  "awards_wf s \<longleftrightarrow>
     finite (dom (Awards s)) \<and>
     (\<forall>i a. Awards s i = Some a \<longrightarrow> award_key a = i \<and> award_ok a (Acceptance s i) (Recovery s i)) \<and>
     (\<forall>i. Awards s i = None \<longrightarrow> Acceptance s i = None \<and> Recovery s i = None) \<and>
     (\<forall>i a. Awards s i = Some a \<longrightarrow> live a \<longrightarrow> ActiveAward s (recipient a, program_id a) = Some i) \<and>
     (\<forall>k i. ActiveAward s k = Some i \<longrightarrow>
        (\<exists>a. Awards s i = Some a \<and> live a \<and> k = (recipient a, program_id a))) \<and>
     (\<forall>p. int (get_reservation s p) = msum (holds p) (Awards s))"

lemma awards_wfD:
  assumes "awards_wf s"
  shows "finite (dom (Awards s))"
    and "Awards s i = Some a \<Longrightarrow> award_key a = i" and "Awards s i = Some a \<Longrightarrow> award_ok a (Acceptance s i) (Recovery s i)"
    and "Awards s i = None \<Longrightarrow> Acceptance s i = None \<and> Recovery s i = None"
    and "Awards s i = Some a \<Longrightarrow> live a \<Longrightarrow> ActiveAward s (recipient a, program_id a) = Some i"
    and "ActiveAward s k = Some i \<Longrightarrow> \<exists>a. Awards s i = Some a \<and> live a \<and> k = (recipient a, program_id a)"
    and "int (get_reservation s p) = msum (holds p) (Awards s)"
  using assms unfolding awards_wf_def by blast+

lemma awards_init_wf: "awards_wf awards_init"
  by (simp add: awards_wf_def awards_init_def get_reservation_def)

lemma award_create_wf:
  assumes "create_award env ad i p r n c tv th d ms s = Ok s'" "awards_wf s"
  shows "awards_wf s'"
  using assms(1)
proof (rule award_create_Ok)
  fix a
  assume *: "Awards s i = None" "ActiveAward s (r, p) = None"
    "award_key a = i" "program_id a = p" "recipient a = r" "amount a = n" "0 < n"
    "status a = Offered" "reserved a" "paid_amount a = 0"
    "s' = s\<lparr>Awards := (Awards s)(i \<mapsto> a), ActiveAward := (ActiveAward s)((r, p) \<mapsto> i),
       Reservation := (Reservation s)(p \<mapsto> get_reservation s p + 1)\<rparr>"
  note old = awards_wfD [OF assms(2)]
  have "int (get_reservation s' q) = msum (holds q) (Awards s')" for q
    using old(7) [of q] old(1) *
    by (auto simp: msum_insert holds_def live_def get_reservation_def)
  moreover have "award_ok a (Acceptance s i) (Recovery s i)"
    using old(4) [OF *(1)] * by (simp add: award_ok_def live_def)
  moreover have "ActiveAward s' (recipient b, program_id b) = Some j" if "Awards s' j = Some b" "live b" for j b
    using that old(5) [of j b] * by (auto split: if_splits)
  moreover have "\<exists>b. Awards s' j = Some b \<and> live b \<and> k = (recipient b, program_id b)"
    if "ActiveAward s' k = Some j" for k j
    using that old(6) [of k j] * by (auto simp: live_def split: if_splits)
  ultimately show ?thesis
    using old(1-4) * unfolding awards_wf_def by (auto split: if_splits)
qed

text \<open>Replacing a live award by a live one: acceptance and disbursement.\<close>

lemma update_wf:
  assumes wf: "awards_wf s" and a: "Awards s i = Some a" "live a"
    and b: "same_terms a b" "live b" "award_ok b (Acceptance s' i) (Recovery s i)"
    and s': "Awards s' = (Awards s)(i \<mapsto> b)" "ActiveAward s' = ActiveAward s"
      "Reservation s' = Reservation s" "Recovery s' = Recovery s"
      "\<And>j. j \<noteq> i \<Longrightarrow> Acceptance s' j = Acceptance s j"
  shows "awards_wf s'"
proof -
  note old = awards_wfD [OF wf]
  have t: "award_key b = i" "recipient b = recipient a" "program_id b = program_id a"
    using b(1) old(2) [OF a(1)] by (auto simp: same_terms_def)
  have "int (get_reservation s' q) = msum (holds q) (Awards s')" for q
    using old(7) [of q] a b(2) t
    by (simp add: s' msum_replace [OF old(1) a(1)] holds_def get_reservation_def)
  moreover have "ActiveAward s' (recipient x, program_id x) = Some j" if "Awards s' j = Some x" "live x" for j x
    using that old(5) [of j x] old(5) [OF a] t by (auto simp: s' split: if_splits)
  moreover have "\<exists>x. Awards s' j = Some x \<and> live x \<and> k = (recipient x, program_id x)"
    if "ActiveAward s' k = Some j" for k j
    using that old(6) [of k j] a b(2) t by (auto simp: s')
  ultimately show ?thesis
    using old(1-4) t(1) b(3) s' unfolding awards_wf_def by (auto split: if_splits)
qed

text \<open>Replacing a live award by a closed one.\<close>

lemma closed_wf:
  assumes wf: "awards_wf s" and a: "Awards s i = Some a" and b: "closes a b st" "\<not> live b"
    and ok: "award_ok b (Acceptance s i) (R i)" and R: "\<And>j. j \<noteq> i \<Longrightarrow> R j = Recovery s j"
  shows "awards_wf ((closed b s)\<lparr>Recovery := R\<rparr>)" (is "awards_wf ?s")
proof -
  note old = awards_wfD [OF wf]
  have live: "live a" using b(1) by (auto simp: closes_def legal_iff live_def)
  have t: "award_key b = i" "recipient b = recipient a" "program_id b = program_id a"
    using b(1) old(2) [OF a] by (auto simp: same_terms_def closes_def)
  note act = old(5) [OF a live]
  have s': "Awards ?s = (Awards s)(i \<mapsto> b)" "Acceptance ?s = Acceptance s" "Recovery ?s = R"
    "ActiveAward ?s = (ActiveAward s)((recipient a, program_id a) := None)"
    "Reservation ?s = (Reservation s)(program_id a \<mapsto> get_reservation s (program_id a) - 1)"
    by (simp_all add: closed_def t)
  have "holds (program_id a) a \<le> msum (holds (program_id a)) (Awards s)"
    by (rule msum_mem_le [OF old(1) a]) (simp add: holds_def)
  then have pos: "0 < get_reservation s (program_id a)"
    using old(7) [of "program_id a"] live by (simp add: holds_def)
  have "int (get_reservation ?s q) = msum (holds q) (Awards ?s)" for q
    using old(7) [of q] b(2) live t pos
    by (cases "q = program_id a")
      (auto simp: s' msum_replace [OF old(1) a] holds_def get_reservation_def of_nat_diff)
  moreover have "ActiveAward ?s (recipient x, program_id x) = Some j" if "Awards ?s j = Some x" "live x" for j x
    using that old(5) [of j x] act b(2) by (auto simp: s' split: if_splits)
  moreover have "\<exists>x. Awards ?s j = Some x \<and> live x \<and> k = (recipient x, program_id x)"
    if "ActiveAward ?s k = Some j" for k j
    using that old(6) [of k j] a by (auto simp: s' split: if_splits)
  ultimately show ?thesis
    using old(1-4) t(1) ok R a unfolding awards_wf_def s' by (auto split: if_splits)
qed

text \<open>What closing keeps of the record, for every target status.\<close>

lemma closes_ok:
  assumes "closes a b st" "award_ok a acc rec"
  shows "0 \<le> paid_amount b" "paid_amount b \<le> amount b" "\<not> reserved b" "rec = None"
    and "acc = None \<Longrightarrow> status a = Offered" and "acc = Some c \<Longrightarrow> status a = Accepted \<and> binds c b"
    and "0 < paid_amount b \<Longrightarrow> status a = Accepted"
  using assms
  by (auto simp: closes_def same_terms_def award_ok_def legal_iff live_def binds_def split: option.splits)

lemma close_unpaid_wf:
  assumes wf: "awards_wf s" and a: "Awards s i = Some a" and b: "closes a b st"
    and st: "st \<in> {Declined, Expired} \<or> st = Cancelled \<and> paid_amount a \<le> 0"
  shows "awards_wf (closed b s)"
proof -
  have ok: "award_ok a (Acceptance s i) (Recovery s i)" by (rule awards_wfD(3) [OF wf a])
  note k = closes_ok [OF b ok]
  have stb: "status b = st" "paid_amount b = paid_amount a" using b by (simp_all add: closes_def)
  have "st = Cancelled" if "status a = Accepted" using b st that by (auto simp: closes_def legal_iff)
  then have acc: "status b \<notin> {Accepted, Terminated}" "\<not> 0 < paid_amount b"
    "Acceptance s i = Some c \<Longrightarrow> status b = Cancelled \<and> binds c b" for c
    using st stb k(6,7) by auto
  have nlive: "\<not> live b" using stb st by (auto simp: live_def)
  have "award_ok b (Acceptance s i) (Recovery s i)"
    using k(1-4) acc nlive by (auto simp: award_ok_def split: option.split)
  with nlive have "awards_wf ((closed b s)\<lparr>Recovery := Recovery s\<rparr>)"
    using closed_wf [OF wf a b, of "Recovery s"] by simp
  moreover have "(closed b s)\<lparr>Recovery := Recovery s\<rparr> = closed b s" by (simp add: closed_def)
  ultimately show ?thesis by simp
qed

lemma awards_exec_wf:
  assumes "awards_exec env c s = Ok s'" "awards_wf s"
  shows "awards_wf s'"
proof (cases c)
  case (Initialize a)
  with assms show ?thesis
    by (auto simp: initialize_def outcome_iff awards_wf_def get_reservation_def)
next
  case (CreateAward ad i p r n c tv th d ms)
  with assms show ?thesis by (auto intro: award_create_wf)
next
  case (AcceptAward r i v h)
  with assms(1) have "accept_award env r i v h s = Ok s'" by simp
  then show ?thesis
  proof (rule accept_Ok)
    fix a b
    assume *: "Awards s i = Some a" "recipient a = r" "status a = Offered"
      "timestamp env \<le> acceptance_deadline a" "same_terms a b" "status b = Accepted"
      "reserved b = reserved a" "paid_amount b = paid_amount a"
      "s' = s\<lparr>Acceptance := (Acceptance s)(i \<mapsto> \<lparr>acc_award = i, acc_terms_version = terms_version a,
         acc_terms_hash = terms_hash a, signer = r, accepted_at = timestamp env, declarations_hash = h\<rparr>),
         Awards := (Awards s)(award_key a \<mapsto> b)\<rparr>"
    note ok = awards_wfD(2,3) [OF assms(2) *(1)]
    show ?thesis
      using * ok
      by (intro update_wf [OF assms(2) *(1) _ *(5)])
        (auto simp: live_def award_ok_def binds_def same_terms_def split: option.splits)
  qed
next
  case (DeclineAward r i v)
  with assms(1) have "decline_award env r i v s = Ok s'" by simp
  then show ?thesis by (rule decline_Ok) (auto intro: close_unpaid_wf [OF assms(2)])
next
  case (ExpireAward i v)
  with assms(1) have "expire_award env i v s = Ok s'" by simp
  then show ?thesis by (rule expire_Ok) (auto intro: close_unpaid_wf [OF assms(2)])
next
  case (CancelAward ad i v c)
  with assms(1) have "cancel_award env ad i v c s = Ok s'" by simp
  then show ?thesis by (rule award_cancel_Ok) (auto intro: close_unpaid_wf [OF assms(2)])
next
  case (TerminateAward ad i v c n)
  with assms(1) have "terminate_award env ad i v c n s = Ok s'" by simp
  then show ?thesis
  proof (rule terminate_Ok)
    fix a b
    assume *: "Awards s i = Some a" "0 \<le> n" "n \<le> paid_amount a" "closes a b Terminated"
      "s' = (closed b s)\<lparr>Recovery := (Recovery s)(i \<mapsto> n)\<rparr>"
    note ok = awards_wfD(3) [OF assms(2) *(1)]
    have "award_ok b (Acceptance s i) (((Recovery s)(i \<mapsto> n)) i)"
      using ok * by (auto simp: award_ok_def closes_def legal_iff live_def binds_def same_terms_def
          split: option.splits)
    then show ?thesis
      unfolding *(5) using *(4) by (intro closed_wf [OF assms(2) *(1,4)]) (auto simp: closes_def live_def)
  qed
next
  case (RecordDisbursement ad i v n)
  with assms(1) have "record_disbursement env ad i v n s = Ok s'" by simp
  then show ?thesis
  proof (rule disburse_Ok)
    fix a b
    assume *: "0 < n" "Awards s i = Some a" "status a = Accepted" "paid_amount a + n \<le> amount a"
      "same_terms a b" "status b = Accepted" "reserved b = reserved a" "paid_amount b = paid_amount a + n"
      "s' = s\<lparr>Awards := (Awards s)(award_key a \<mapsto> b)\<rparr>"
    note ok = awards_wfD(2,3) [OF assms(2) *(2)]
    show ?thesis
      using * ok
      by (intro update_wf [OF assms(2) *(2) _ *(5)])
        (auto simp: live_def award_ok_def binds_def same_terms_def split: option.splits)
  qed
qed

interpretation awards_runs: preserved awards_step awards_wf
  by unfold_locales (auto intro: awards_exec_wf elim: awards_stepE)

lemma awards_reachable_wf: "awards_step\<^sup>*\<^sup>* awards_init s \<Longrightarrow> awards_wf s"
  by (rule awards_runs.run [OF _ awards_init_wf])

section \<open>Progress of one award\<close>

definition award_progress :: "Award \<Rightarrow> Award \<Rightarrow> bool" where
  "award_progress a b \<longleftrightarrow> b = a \<or>
     same_terms a b \<and> version b = version a + 1 \<and> paid_amount a \<le> paid_amount b \<and>
     (is_legal_transition (status a) (status b) \<and> paid_amount b = paid_amount a \<or>
      status a = Accepted \<and> status b = Accepted)"

lemma award_update_progress:
  assumes "Awards s' = (Awards s)(i \<mapsto> b)" "Awards s i = Some a" "award_progress a b" "Awards s j = Some x"
  shows "\<exists>y. Awards s' j = Some y \<and> award_progress x y"
  using assms by (cases "i = j") (simp_all add: award_progress_def)

lemma closed_progress:
  assumes "awards_wf s" "Awards s i = Some a" "closes a b st" "Awards s' = Awards (closed b s)" "Awards s j = Some x"
  shows "\<exists>y. Awards s' j = Some y \<and> award_progress x y"
proof (rule award_update_progress [OF _ assms(2) _ assms(5)])
  show "Awards s' = (Awards s)(i \<mapsto> b)"
    using assms(3,4) awards_wfD(2) [OF assms(1,2)] by (simp add: closed_def closes_def same_terms_def)
  show "award_progress a b" using assms(3) by (auto simp: award_progress_def closes_def)
qed

lemma awards_exec_progress:
  assumes "awards_exec env c s = Ok s'" "awards_wf s" "Awards s j = Some x"
  shows "\<exists>y. Awards s' j = Some y \<and> award_progress x y"
proof (cases c)
  case (Initialize a)
  with assms(1,3) show ?thesis by (auto simp: initialize_def outcome_iff award_progress_def)
next
  case (CreateAward ad i p r n c tv th d ms)
  with assms(1) have "create_award env ad i p r n c tv th d ms s = Ok s'" by simp
  then show ?thesis using assms(3) by (elim award_create_Ok) (auto simp: award_progress_def)
next
  case (AcceptAward r i v h)
  with assms(1) have "accept_award env r i v h s = Ok s'" by simp
  then show ?thesis
    using awards_wfD(2) [OF assms(2)]
    by (elim accept_Ok, intro award_update_progress [OF _ _ _ assms(3)]) (auto simp: award_progress_def)
next
  case (DeclineAward r i v)
  with assms(1) have "decline_award env r i v s = Ok s'" by simp
  then show ?thesis by (rule decline_Ok) (auto intro: closed_progress [OF assms(2) _ _ _ assms(3)])
next
  case (ExpireAward i v)
  with assms(1) have "expire_award env i v s = Ok s'" by simp
  then show ?thesis by (rule expire_Ok) (auto intro: closed_progress [OF assms(2) _ _ _ assms(3)])
next
  case (CancelAward ad i v c)
  with assms(1) have "cancel_award env ad i v c s = Ok s'" by simp
  then show ?thesis by (rule award_cancel_Ok) (auto intro: closed_progress [OF assms(2) _ _ _ assms(3)])
next
  case (TerminateAward ad i v c n)
  with assms(1) have "terminate_award env ad i v c n s = Ok s'" by simp
  then show ?thesis by (rule terminate_Ok) (auto intro: closed_progress [OF assms(2) _ _ _ assms(3)])
next
  case (RecordDisbursement ad i v n)
  with assms(1) have "record_disbursement env ad i v n s = Ok s'" by simp
  then show ?thesis
    using awards_wfD(2) [OF assms(2)]
    by (elim disburse_Ok, intro award_update_progress [OF _ _ _ assms(3)]) (auto simp: award_progress_def)
qed

section \<open>Properties\<close>

text \<open>
  A run used by the witnesses: admin 1 offers recipient 2 an award of 100; it is accepted, 40 are
  disbursed, and it is terminated with a recovery of 15.
\<close>

abbreviation awards_env :: env where
  "awards_env \<equiv> \<lparr>timestamp = 10, ledger_sequence = 7, self = 99, auth = (\<lambda>_. True)\<rparr>"

definition demo_award :: Award where
  "demo_award = \<lparr>version = 3, award_key = [7], program_id = [8], recipient = 2, amount = 100,
     currency = ''USD'', terms_version = 1, terms_hash = [9], milestone_schedule_id = None,
     offered_at = 10, acceptance_deadline = 50, status = Accepted, reserved = True,
     paid_amount = 40, decided_at = 10, reason_code = 0\<rparr>"

definition demo_awards :: awards_state where
  "demo_awards = awards_init\<lparr>Admin := Some 1, Awards := [[7] \<mapsto> demo_award],
     ActiveAward := [(2, [8]) \<mapsto> [7]], Reservation := [[8] \<mapsto> 1],
     Acceptance := [[7] \<mapsto> \<lparr>acc_award = [7], acc_terms_version = 1, acc_terms_hash = [9], signer = 2,
       accepted_at = 10, declarations_hash = [5]\<rparr>]\<rparr>"

definition demo_terminated :: awards_state where
  "demo_terminated = demo_awards\<lparr>Awards := [[7] \<mapsto> demo_award\<lparr>version := 4, status := Terminated,
       reserved := False, reason_code := 6\<rparr>],
     ActiveAward := Map.empty, Reservation := [[8] \<mapsto> 0], Recovery := [[7] \<mapsto> 15]\<rparr>"

lemmas award_ops = initialize_def create_award_def accept_award_def record_disbursement_def
  terminate_award_def require_admin_def advance_award_version_def reserve_def release_def award_storage
  awards_init_def demo_awards_def demo_award_def

lemma demo_awards_run:
  "run_calls awards_exec
     [(awards_env, Initialize 1), (awards_env, CreateAward 1 [7] [8] 2 100 ''USD'' 1 [9] 50 None),
      (awards_env, AcceptAward 2 [7] 1 [5]), (awards_env, RecordDisbursement 1 [7] 2 40)]
     awards_init = Ok demo_awards"
  by (simp add: award_ops range_defs Let_def u32_checked_def i128_checked_def
      numeral_2_eq_2 [symmetric])

lemma demo_terminate:
  "awards_exec awards_env (TerminateAward 1 [7] 3 6 15) demo_awards = Ok demo_terminated"
  by (simp add: award_ops range_defs Let_def u32_checked_def demo_terminated_def)

lemma demo_awards_reachable: "awards_step\<^sup>*\<^sup>* awards_init demo_awards"
  by (rule run_calls_steps [OF demo_awards_run]) (rule awards_step.call)

text \<open>
  C11. Reservations match live awards. In every reachable state the reservation of a program is the
  number of its awards that are offered or accepted, an award is marked reserved exactly then, and a
  recipient holds at most one of them per program, the one the active-award pointer names.
\<close>

theorem reservations_match_live_awards:
  assumes "awards_step\<^sup>*\<^sup>* awards_init s"
  shows "get_reservation s p = card {i. \<exists>a. Awards s i = Some a \<and> program_id a = p \<and> live a} \<and>
    (Awards s i = Some a \<longrightarrow> (reserved a \<longleftrightarrow> live a) \<and>
       (live a \<longleftrightarrow> ActiveAward s (recipient a, program_id a) = Some i)) \<and>
    (Awards s i = Some a \<and> live a \<and> Awards s j = Some b \<and> live b \<and>
       recipient a = recipient b \<and> program_id a = program_id b \<longrightarrow> i = j)"
proof -
  have wf: "awards_wf s" by (rule awards_reachable_wf [OF assms])
  note w = awards_wfD [OF wf]
  have sub: "{i. \<exists>a. Awards s i = Some a \<and> program_id a = p \<and> live a} \<subseteq> dom (Awards s)" by auto
  have "msum (holds p) (Awards s) = (\<Sum>i\<in>{i. \<exists>a. Awards s i = Some a \<and> program_id a = p \<and> live a}. 1)"
    unfolding msum_def
    by (rule sum.mono_neutral_cong_right [OF w(1) sub]) (auto simp: holds_def)
  then have "get_reservation s p = card {i. \<exists>a. Awards s i = Some a \<and> program_id a = p \<and> live a}"
    using w(7) [of p] by simp
  moreover have "(reserved a \<longleftrightarrow> live a) \<and> (live a \<longleftrightarrow> ActiveAward s (recipient a, program_id a) = Some i)"
    if "Awards s i = Some a"
    using w(3) [OF that] w(5) [OF that] w(6) [of "(recipient a, program_id a)" i] that
    by (auto simp: award_ok_def)
  moreover have "i = j" if "Awards s i = Some a" "live a" "Awards s j = Some b" "live b"
    "recipient a = recipient b" "program_id a = program_id b"
    using w(5) [OF that(1,2)] w(5) [OF that(3,4)] that(5,6) by simp
  ultimately show ?thesis by blast
qed

theorem reservations_match_live_awards_witness:
  "get_reservation demo_awards [8] = 1 \<and>
   get_reservation demo_awards [8] = card {i. \<exists>a. Awards demo_awards i = Some a \<and> program_id a = [8] \<and> live a}"
proof
  show "get_reservation demo_awards [8] = 1" by (simp add: get_reservation_def demo_awards_def)
  show "get_reservation demo_awards [8] = card {i. \<exists>a. Awards demo_awards i = Some a \<and> program_id a = [8] \<and> live a}"
    using reservations_match_live_awards [OF demo_awards_reachable, of "[8]"] by blast
qed

text \<open>
  Every change of an award is versioned and legal. A call leaves each award as it is, or raises
  its version by exactly one, keeps its terms, never lowers what was paid, and moves its status along
  the transition table or records a disbursement on an accepted award.
\<close>

theorem award_changes_versioned:
  assumes "awards_step\<^sup>*\<^sup>* awards_init s" and "awards_step s s'" and "Awards s i = Some a"
  shows "\<exists>b. Awards s' i = Some b \<and> award_progress a b"
  using assms(2) awards_exec_progress [OF _ awards_reachable_wf [OF assms(1)] assms(3)]
  by (auto elim: awards_stepE)

theorem award_changes_versioned_witness:
  "\<exists>b. Awards demo_terminated [7] = Some b \<and> award_progress demo_award b \<and> version b = 4"
  using award_changes_versioned [OF demo_awards_reachable awards_step.call [OF demo_terminate],
      of "[7]" demo_award]
  by (simp add: demo_awards_def demo_terminated_def)

text \<open>
  Payments stay within an accepted award. In every reachable state what was paid lies between
  zero and the award amount; anything paid was paid on an award accepted by its own recipient,
  within the deadline, over exactly the terms on record; a recovery is recorded exactly for
  terminated awards and lies between zero and what was paid.
\<close>

theorem payments_within_accepted_award:
  assumes "awards_step\<^sup>*\<^sup>* awards_init s" and "Awards s i = Some a"
  shows "0 \<le> paid_amount a \<and> paid_amount a \<le> amount a \<and>
    (0 < paid_amount a \<longrightarrow> status a \<in> {Accepted, Terminated} \<and>
       (\<exists>c. get_acceptance s i = Ok c \<and> binds c a)) \<and>
    (Recovery s i \<noteq> None \<longleftrightarrow> status a = Terminated) \<and>
    0 \<le> get_recovery s i \<and> get_recovery s i \<le> paid_amount a"
proof -
  have "award_ok a (Acceptance s i) (Recovery s i)"
    using awards_wfD(3) [OF awards_reachable_wf [OF assms(1)] assms(2)] .
  then show ?thesis
    by (cases "Acceptance s i"; cases "Recovery s i")
      (auto simp: award_ok_def get_acceptance_def get_recovery_def)
qed

theorem payments_within_accepted_award_witness:
  "paid_amount demo_award = 40 \<and> (\<exists>c. get_acceptance demo_awards [7] = Ok c \<and> binds c demo_award)"
  using payments_within_accepted_award [OF demo_awards_reachable, of "[7]" demo_award]
  by (simp add: demo_awards_def) (simp add: demo_award_def)

end
