(* ===== verification/Signing_Envelope.thy ===== *)
theory Signing_Envelope
  imports Prelude
begin

text \<open>
  \<open>contracts/shared/src/signing.rs\<close>: the domain-separated envelope that every off-chain signature is
  taken over. \<open>sha\<close> is the host's SHA-256, \<open>xdr\<close> its encoding of an address and \<open>sym_xdr\<close> its encoding
  of a symbol. The main theorem is that a payload commits to its whole domain and to the body.
\<close>

section \<open>The envelope\<close>

datatype SigningError = UnsupportedVersion | DomainMismatch

datatype MessageType =
    IssuerOffer | MembershipClaim | FineAssessment | DelegatedSession | DebtSettlement
  | PayoutWalletProof

record SigningDomain =
  version :: nat
  network_id :: hash32
  contract :: address
  message_type :: MessageType

definition DOMAIN_TAG :: bytes where
  "DOMAIN_TAG = ascii ''ChainVerse.Library''"

definition ENVELOPE_VERSION :: nat where
  "ENVELOPE_VERSION = 1"

definition PREIMAGE_LEN :: nat where
  "PREIMAGE_LEN = 18 + 4 + 32 + 32 + 32 + 32"

fun tag :: "MessageType \<Rightarrow> string" where
  "tag IssuerOffer = ''issuer_offer''"
| "tag MembershipClaim = ''membership_claim''"
| "tag FineAssessment = ''fine_assessment''"
| "tag DelegatedSession = ''delegated_session''"
| "tag DebtSettlement = ''debt_settlement''"
| "tag PayoutWalletProof = ''payout_wallet_proof''"

definition network_id_of :: "(bytes \<Rightarrow> hash32) \<Rightarrow> bytes \<Rightarrow> hash32" where
  "network_id_of sha passphrase = sha passphrase"

definition check_version :: "SigningDomain \<Rightarrow> (SigningError, unit) outcome" where
  "check_version d = (if version d \<noteq> ENVELOPE_VERSION then Err UnsupportedVersion else Ok ())"

definition canonical_preimage ::
  "(bytes \<Rightarrow> hash32) \<Rightarrow> (address \<Rightarrow> bytes) \<Rightarrow> (string \<Rightarrow> bytes) \<Rightarrow> SigningDomain \<Rightarrow> hash32 \<Rightarrow>
   (SigningError, bytes) outcome" where
  "canonical_preimage sha xdr sym_xdr d body_hash =
     and_then (check_version d) (\<lambda>_.
     let contract_hash = sha (xdr (contract d));
         message_type_hash = sha (sym_xdr (tag (message_type d)))
     in Ok (DOMAIN_TAG @ be_bytes 4 (version d) @ network_id d @ contract_hash
              @ message_type_hash @ body_hash))"

definition signing_payload ::
  "(bytes \<Rightarrow> hash32) \<Rightarrow> (address \<Rightarrow> bytes) \<Rightarrow> (string \<Rightarrow> bytes) \<Rightarrow> SigningDomain \<Rightarrow> hash32 \<Rightarrow>
   (SigningError, hash32) outcome" where
  "signing_payload sha xdr sym_xdr d body_hash =
     and_then (canonical_preimage sha xdr sym_xdr d body_hash) (\<lambda>preimage. Ok (sha preimage))"

definition assert_payload ::
  "(bytes \<Rightarrow> hash32) \<Rightarrow> (address \<Rightarrow> bytes) \<Rightarrow> (string \<Rightarrow> bytes) \<Rightarrow> SigningDomain \<Rightarrow> hash32 \<Rightarrow>
   hash32 \<Rightarrow> (SigningError, unit) outcome" where
  "assert_payload sha xdr sym_xdr d body_hash presented =
     and_then (signing_payload sha xdr sym_xdr d body_hash) (\<lambda>p.
     if p \<noteq> presented then Err DomainMismatch else Ok ())"

section \<open>What a payload commits to\<close>

lemma length_domain_tag [simp]: "length DOMAIN_TAG = 18"
  by (simp add: DOMAIN_TAG_def ascii_def)

lemma check_version_Ok [outcome_iff]: "check_version d = Ok u \<longleftrightarrow> version d = ENVELOPE_VERSION"
  by (simp add: check_version_def)

lemma tag_inject: "tag m = tag m' \<Longrightarrow> m = m'"
  by (cases m; cases m') simp_all

lemma preimage_Ok [outcome_iff]:
  "canonical_preimage sha xdr sym_xdr d b = Ok p \<longleftrightarrow> version d = ENVELOPE_VERSION \<and>
     p = DOMAIN_TAG @ be_bytes 4 (version d) @ network_id d @ sha (xdr (contract d))
       @ sha (sym_xdr (tag (message_type d))) @ b"
  by (auto simp: canonical_preimage_def outcome_iff)

text \<open>
  What the envelope relies on of the host, for the inputs \<open>I\<close> that are ever hashed: digests of 32 bytes,
  no collision among them, and encodings that tell addresses and symbols apart.
\<close>

definition host_encodings ::
  "(bytes \<Rightarrow> hash32) \<Rightarrow> (address \<Rightarrow> bytes) \<Rightarrow> (string \<Rightarrow> bytes) \<Rightarrow> bytes set \<Rightarrow> bool" where
  "host_encodings sha xdr sym_xdr I \<longleftrightarrow>
     (\<forall>x. length (sha x) = 32) \<and> inj_on sha I \<and> inj xdr \<and> inj sym_xdr"

text \<open>A domain and a body whose three hashed inputs lie in \<open>I\<close>.\<close>

definition hashed_in ::
  "(bytes \<Rightarrow> hash32) \<Rightarrow> (address \<Rightarrow> bytes) \<Rightarrow> (string \<Rightarrow> bytes) \<Rightarrow> bytes set \<Rightarrow>
   SigningDomain \<Rightarrow> hash32 \<Rightarrow> bool" where
  "hashed_in sha xdr sym_xdr I d b \<longleftrightarrow>
     length (network_id d) = 32 \<and> length b = 32 \<and>
     xdr (contract d) \<in> I \<and> sym_xdr (tag (message_type d)) \<in> I \<and>
     (case canonical_preimage sha xdr sym_xdr d b of Ok p \<Rightarrow> p \<in> I | _ \<Rightarrow> True)"

lemma preimage_length:
  assumes "host_encodings sha xdr sym_xdr I" "hashed_in sha xdr sym_xdr J d b"
    "canonical_preimage sha xdr sym_xdr d b = Ok p"
  shows "length p = PREIMAGE_LEN"
  using assms by (auto simp: outcome_iff host_encodings_def hashed_in_def PREIMAGE_LEN_def)

lemma preimage_inject:
  assumes host: "host_encodings sha xdr sym_xdr I"
    and d: "hashed_in sha xdr sym_xdr I d b" and d': "hashed_in sha xdr sym_xdr I d' b'"
    and eq: "canonical_preimage sha xdr sym_xdr d b = Ok p" "canonical_preimage sha xdr sym_xdr d' b' = Ok p"
  shows "d = d' \<and> b = b'"
proof -
  have ver: "version d = version d'" using eq by (simp add: outcome_iff)
  have parts: "network_id d = network_id d'" "sha (xdr (contract d)) = sha (xdr (contract d'))"
    "sha (sym_xdr (tag (message_type d))) = sha (sym_xdr (tag (message_type d')))" "b = b'"
    using eq host d d' by (auto simp: outcome_iff host_encodings_def hashed_in_def)
  have "contract d = contract d'"
    using parts(2) host d d' by (auto simp: host_encodings_def hashed_in_def dest: inj_onD injD)
  moreover have "tag (message_type d) = tag (message_type d')"
    using parts(3) host d d' by (auto simp: host_encodings_def hashed_in_def dest: inj_onD injD)
  then have "message_type d = message_type d'" by (rule tag_inject)
  ultimately show ?thesis
    using ver parts by (cases d; cases d') simp
qed

section \<open>Properties\<close>

text \<open>
  C13. A signing payload means one thing. Two envelopes of the supported version have the same payload
  only if they have the same network, contract, message type and body: a signature for one of them
  is a signature for no other. The preimage has its documented fixed length.
\<close>

theorem signing_payload_commits:
  assumes "host_encodings sha xdr sym_xdr I"
    and "hashed_in sha xdr sym_xdr I d b" "hashed_in sha xdr sym_xdr I d' b'"
    and "version d = ENVELOPE_VERSION"
  shows "(\<exists>p. canonical_preimage sha xdr sym_xdr d b = Ok p \<and> length p = PREIMAGE_LEN) \<and>
    (signing_payload sha xdr sym_xdr d b = signing_payload sha xdr sym_xdr d' b' \<longleftrightarrow> d = d' \<and> b = b')"
proof -
  obtain p where p: "canonical_preimage sha xdr sym_xdr d b = Ok p"
    using assms(4) by (simp add: outcome_iff)
  have "d = d' \<and> b = b'" if "signing_payload sha xdr sym_xdr d b = signing_payload sha xdr sym_xdr d' b'"
  proof -
    from that p obtain q where q: "canonical_preimage sha xdr sym_xdr d' b' = Ok q" "sha p = sha q"
      by (auto simp: signing_payload_def outcome_iff dest!: sym [of "Ok _"])
    with p assms(1-3) have "p = q"
      by (auto simp: host_encodings_def hashed_in_def dest: inj_onD)
    with q show ?thesis using preimage_inject [OF assms(1-3) p] by simp
  qed
  with p preimage_length [OF assms(1,2) p] show ?thesis by auto
qed

text \<open>A stand-in for the hash, collision-free on the inputs of the example: the last 32 bytes.\<close>

definition demo_sha :: "bytes \<Rightarrow> hash32" where
  "demo_sha x = take 32 (rev x @ replicate 32 0)"

definition demo_address_xdr :: "address \<Rightarrow> bytes" where
  "demo_address_xdr a = replicate a 1"

definition demo_domain :: SigningDomain where
  "demo_domain = \<lparr>version = 1, network_id = replicate 32 9, contract = 0, message_type = PayoutWalletProof\<rparr>"

definition demo_domain' :: SigningDomain where
  "demo_domain' = demo_domain\<lparr>contract := 1, message_type := FineAssessment\<rparr>"

definition demo_preimage :: "SigningDomain \<Rightarrow> byte \<Rightarrow> bytes" where
  "demo_preimage d x = DOMAIN_TAG @ be_bytes 4 1 @ replicate 32 9 @ demo_sha (demo_address_xdr (contract d))
     @ demo_sha (ascii (tag (message_type d))) @ replicate 32 x"

definition demo_inputs :: "bytes set" where
  "demo_inputs = {[], [1], ascii ''payout_wallet_proof'', ascii ''fine_assessment'',
     demo_preimage demo_domain 5, demo_preimage demo_domain' 6}"

lemma hd_demo_sha: "hd (demo_sha x) = (if x = [] then 0 else last x)"
  by (cases x rule: rev_cases) (simp_all add: demo_sha_def numeral_eq_Suc)

lemma demo_preimage_last:
  "demo_preimage d x \<noteq> []" "last (demo_preimage d x) = x"
  by (simp_all add: demo_preimage_def)

lemma demo_host: "host_encodings demo_sha demo_address_xdr ascii demo_inputs"
proof -
  have "inj_on (hd \<circ> demo_sha) demo_inputs"
    unfolding demo_inputs_def
    by (simp add: inj_on_def hd_demo_sha demo_preimage_last) (simp add: ascii_def)
  then have "inj_on demo_sha demo_inputs"
    by (rule inj_on_imageI2)
  moreover have "length (demo_sha x) = 32" for x
    by (simp add: demo_sha_def)
  moreover have "inj demo_address_xdr"
    by (rule injI) (simp add: demo_address_xdr_def replicate_eq_replicate)
  ultimately show ?thesis
    using ascii_inj by (simp add: host_encodings_def)
qed

lemma demo_hashed:
  "hashed_in demo_sha demo_address_xdr ascii demo_inputs demo_domain (replicate 32 5)"
  "hashed_in demo_sha demo_address_xdr ascii demo_inputs demo_domain' (replicate 32 6)"
  by (simp_all add: hashed_in_def canonical_preimage_def check_version_def ENVELOPE_VERSION_def
      demo_inputs_def demo_preimage_def demo_domain_def demo_domain'_def demo_address_xdr_def)

theorem signing_payload_commits_witness:
  "signing_payload demo_sha demo_address_xdr ascii demo_domain (replicate 32 5) \<noteq>
   signing_payload demo_sha demo_address_xdr ascii demo_domain' (replicate 32 6)"
  using signing_payload_commits [OF demo_host demo_hashed]
  by (simp add: demo_domain_def demo_domain'_def ENVELOPE_VERSION_def)

end
