(* ===== verification/Scholarship_Disbursements.thy ===== *)
theory Scholarship_Disbursements
  imports Transition_Systems Signing_Envelope
begin

text \<open>
  \<open>contracts/scholarship-disbursements/src/lib.rs\<close>: payout wallets proven by a signed challenge, and
  one payment intent per award installment. \<open>sha\<close>, \<open>xdr\<close> and \<open>sym_xdr\<close> are the host's hash and
  encodings, as in \<open>Signing_Envelope\<close>; \<open>parse_key\<close> and \<open>verify\<close> stand for \<open>VerifyingKey::from_bytes\<close>
  and \<open>verify_strict\<close> of the ed25519 library.
\<close>

section \<open>State and operations\<close>

datatype ContractError =
    NotInitialized | AlreadyInitialized | NotAdmin | NotAuthorizedCreator | InvalidAmount
  | WalletNotFound | WalletKeyNotFound | ChallengeNotFound | ChallengeExpired | ChallengeAlreadyUsed
  | ChallengeWalletMismatch | InvalidSignature | IntentNotFound | IntentConflict | AlreadyExecuted
  | IntentOnHold | WalletMismatch | WalletKeyMismatch | InvalidChallengeTtl | Overflow
  | AlreadyCancelled

record PayoutWallet =
  bound_wallet :: address
  verified :: bool
  epoch :: nat
  updated_at :: nat

record WalletChallenge =
  chal_id :: nat
  chal_recipient :: address
  chal_wallet :: address
  expires_at :: nat
  used :: bool
  chal_created_at :: nat

datatype IntentStatus = Pending | Executed | Cancelled

record DisbursementIntent =
  intent_id :: hash32
  program_id :: hash32
  recipient :: address
  wallet :: address
  amount :: int
  installment :: nat
  wallet_epoch :: nat
  created_at :: nat
  created_by :: address
  status :: IntentStatus
  executed_at :: nat

record disb_state =
  Admin :: "address option"
  NetworkId :: "hash32 option"
  Creator :: "address \<rightharpoonup> bool"
  WalletKey :: "address \<rightharpoonup> bytes"
  WalletBinding :: "address \<rightharpoonup> PayoutWallet"
  ChallengeCounter :: "nat option"
  Challenge :: "nat \<rightharpoonup> WalletChallenge"
  Intent :: "hash32 \<rightharpoonup> DisbursementIntent"

definition disb_init :: disb_state where
  "disb_init = \<lparr>Admin = None, NetworkId = None, Creator = Map.empty, WalletKey = Map.empty,
     WalletBinding = Map.empty, ChallengeCounter = None, Challenge = Map.empty, Intent = Map.empty\<rparr>"

definition MAX_CHALLENGE_TTL_SECONDS :: nat where
  "MAX_CHALLENGE_TTL_SECONDS = 86400"

definition INTENT_DOMAIN_TAG :: bytes where
  "INTENT_DOMAIN_TAG = ascii ''ChainVerse.Scholarship.DisbursementIntent''"

definition WALLET_PROOF_DOMAIN_TAG :: bytes where
  "WALLET_PROOF_DOMAIN_TAG = ascii ''ChainVerse.Scholarship.PayoutWallet''"

definition initialize ::
  "env \<Rightarrow> address \<Rightarrow> hash32 \<Rightarrow> disb_state \<Rightarrow> (ContractError, disb_state) outcome" where
  "initialize env admin nid s =
     (if Admin s \<noteq> None then Err AlreadyInitialized
      else and_then (require_auth env admin) (\<lambda>_.
      Ok (s\<lparr>Admin := Some admin, NetworkId := Some nid\<rparr>)))"

definition require_admin :: "env \<Rightarrow> disb_state \<Rightarrow> address \<Rightarrow> (ContractError, unit) outcome" where
  "require_admin env s caller =
     and_then (ok_or (Admin s) NotInitialized) (\<lambda>admin.
     if caller \<noteq> admin then Err NotAdmin
     else and_then (require_auth env caller) (\<lambda>_. Ok ()))"

definition is_authorized_creator :: "disb_state \<Rightarrow> address \<Rightarrow> bool" where
  "is_authorized_creator s creator = unwrap_or (Creator s creator) False"

definition require_creator_or_admin ::
  "env \<Rightarrow> disb_state \<Rightarrow> address \<Rightarrow> (ContractError, unit) outcome" where
  "require_creator_or_admin env s caller =
     and_then (ok_or (Admin s) NotInitialized) (\<lambda>admin.
     if caller = admin \<or> is_authorized_creator s caller
     then and_then (require_auth env caller) (\<lambda>_. Ok ())
     else Err NotAuthorizedCreator)"

definition load_binding :: "disb_state \<Rightarrow> address \<Rightarrow> (ContractError, PayoutWallet) outcome" where
  "load_binding s r = ok_or (WalletBinding s r) WalletNotFound"

definition save_binding :: "address \<Rightarrow> PayoutWallet \<Rightarrow> disb_state \<Rightarrow> disb_state" where
  "save_binding r b s = s\<lparr>WalletBinding := (WalletBinding s)(r \<mapsto> b)\<rparr>"

definition add_creator ::
  "env \<Rightarrow> address \<Rightarrow> address \<Rightarrow> disb_state \<Rightarrow> (ContractError, disb_state) outcome" where
  "add_creator env admin creator s =
     and_then (require_admin env s admin) (\<lambda>_.
     Ok (s\<lparr>Creator := (Creator s)(creator \<mapsto> True)\<rparr>))"

definition remove_creator ::
  "env \<Rightarrow> address \<Rightarrow> address \<Rightarrow> disb_state \<Rightarrow> (ContractError, disb_state) outcome" where
  "remove_creator env admin creator s =
     and_then (require_admin env s admin) (\<lambda>_.
     Ok (s\<lparr>Creator := (Creator s)(creator \<mapsto> False)\<rparr>))"

definition register_wallet_key ::
  "env \<Rightarrow> address \<Rightarrow> bytes \<Rightarrow> disb_state \<Rightarrow> (ContractError, disb_state) outcome" where
  "register_wallet_key env wal pubkey s =
     and_then (require_auth env wal) (\<lambda>_.
     Ok (s\<lparr>WalletKey := (WalletKey s)(wal \<mapsto> pubkey)\<rparr>))"

definition get_wallet_key :: "disb_state \<Rightarrow> address \<Rightarrow> (ContractError, bytes) outcome" where
  "get_wallet_key s wal = ok_or (WalletKey s wal) WalletKeyNotFound"

definition set_payout_wallet ::
  "env \<Rightarrow> address \<Rightarrow> address \<Rightarrow> disb_state \<Rightarrow> (ContractError, disb_state) outcome" where
  "set_payout_wallet env r wal s =
     and_then (require_auth env r) (\<lambda>_.
     let old = WalletBinding s r in
     and_then (ok_or (u32_checked (unwrap_or (map_option epoch old) 0 + 1)) Overflow) (\<lambda>ep.
     let b = \<lparr>bound_wallet = wal, verified = False, epoch = ep, updated_at = timestamp env\<rparr>
     in Ok (save_binding r b s)))"

definition get_payout_wallet :: "disb_state \<Rightarrow> address \<Rightarrow> (ContractError, PayoutWallet) outcome" where
  "get_payout_wallet s r = load_binding s r"

definition is_wallet_verified :: "disb_state \<Rightarrow> address \<Rightarrow> bool" where
  "is_wallet_verified s r = (case load_binding s r of Ok b \<Rightarrow> verified b | _ \<Rightarrow> False)"

definition wallet_proof_domain :: "env \<Rightarrow> disb_state \<Rightarrow> (ContractError, SigningDomain) outcome" where
  "wallet_proof_domain env s =
     and_then (ok_or (NetworkId s) NotInitialized) (\<lambda>nid.
     Ok \<lparr>version = ENVELOPE_VERSION, network_id = nid, contract = self env,
         message_type = PayoutWalletProof\<rparr>)"

definition load_challenge :: "disb_state \<Rightarrow> nat \<Rightarrow> (ContractError, WalletChallenge) outcome" where
  "load_challenge s cid = ok_or (Challenge s cid) ChallengeNotFound"

definition challenge_body_hash ::
  "(bytes \<Rightarrow> hash32) \<Rightarrow> (address \<Rightarrow> bytes) \<Rightarrow> WalletChallenge \<Rightarrow> hash32" where
  "challenge_body_hash sha xdr ch =
     sha (WALLET_PROOF_DOMAIN_TAG @ be_bytes 8 (chal_id ch) @ xdr (chal_recipient ch)
       @ xdr (chal_wallet ch) @ be_bytes 8 (expires_at ch))"

definition wallet_challenge_payload ::
  "(bytes \<Rightarrow> hash32) \<Rightarrow> (address \<Rightarrow> bytes) \<Rightarrow> (string \<Rightarrow> bytes) \<Rightarrow> env \<Rightarrow> disb_state \<Rightarrow> nat \<Rightarrow>
   (ContractError, hash32) outcome" where
  "wallet_challenge_payload sha xdr sym_xdr env s cid =
     and_then (load_challenge s cid) (\<lambda>ch.
     and_then (wallet_proof_domain env s) (\<lambda>domain.
     map_err (\<lambda>_. InvalidSignature)
       (signing_payload sha xdr sym_xdr domain (challenge_body_hash sha xdr ch))))"

definition open_wallet_challenge ::
  "env \<Rightarrow> address \<Rightarrow> address \<Rightarrow> nat \<Rightarrow> disb_state \<Rightarrow> (ContractError, nat \<times> disb_state) outcome" where
  "open_wallet_challenge env r wal ttl_seconds s =
     and_then (require_auth env r) (\<lambda>_.
     if ttl_seconds = 0 \<or> ttl_seconds > MAX_CHALLENGE_TTL_SECONDS then Err InvalidChallengeTtl
     else and_then (load_binding s r) (\<lambda>b.
     if bound_wallet b \<noteq> wal then Err WalletMismatch
     else
       let now = timestamp env in
       and_then (ok_or (u64_checked (now + ttl_seconds)) Overflow) (\<lambda>expires.
       let i = unwrap_or (ChallengeCounter s) 0 in
       and_then (ok_or (u64_checked (i + 1)) Overflow) (\<lambda>nxt.
       let s = s\<lparr>ChallengeCounter := Some nxt\<rparr>;
           ch = \<lparr>chal_id = i, chal_recipient = r, chal_wallet = wal, expires_at = expires,
                 used = False, chal_created_at = now\<rparr>
       in Ok (i, s\<lparr>Challenge := (Challenge s)(i \<mapsto> ch)\<rparr>)))))"

definition get_wallet_challenge :: "disb_state \<Rightarrow> nat \<Rightarrow> (ContractError, WalletChallenge) outcome" where
  "get_wallet_challenge s cid = load_challenge s cid"

definition verify_ed25519 ::
  "(bytes \<Rightarrow> 'k option) \<Rightarrow> ('k \<Rightarrow> bytes \<Rightarrow> bytes \<Rightarrow> bool) \<Rightarrow> bytes \<Rightarrow> hash32 \<Rightarrow> bytes \<Rightarrow>
   (ContractError, unit) outcome" where
  "verify_ed25519 parse_key verify pubkey payload signature =
     and_then (ok_or (parse_key pubkey) InvalidSignature) (\<lambda>vk.
     if verify vk payload signature then Ok () else Err InvalidSignature)"

definition confirm_wallet_challenge ::
  "(bytes \<Rightarrow> 'k option) \<Rightarrow> ('k \<Rightarrow> bytes \<Rightarrow> bytes \<Rightarrow> bool) \<Rightarrow> (bytes \<Rightarrow> hash32) \<Rightarrow>
   (address \<Rightarrow> bytes) \<Rightarrow> (string \<Rightarrow> bytes) \<Rightarrow> env \<Rightarrow> nat \<Rightarrow> bytes \<Rightarrow> bytes \<Rightarrow> disb_state \<Rightarrow>
   (ContractError, disb_state) outcome" where
  "confirm_wallet_challenge parse_key verify sha xdr sym_xdr env cid pubkey signature s =
     and_then (load_challenge s cid) (\<lambda>ch.
     if used ch then Err ChallengeAlreadyUsed
     else if timestamp env \<ge> expires_at ch then Err ChallengeExpired
     else and_then (load_binding s (chal_recipient ch)) (\<lambda>b.
     if bound_wallet b \<noteq> chal_wallet ch then Err ChallengeWalletMismatch
     else and_then (ok_or (WalletKey s (chal_wallet ch)) WalletKeyNotFound) (\<lambda>registered.
     if registered \<noteq> pubkey then Err WalletKeyMismatch
     else and_then (wallet_proof_domain env s) (\<lambda>domain.
     let body_hash = challenge_body_hash sha xdr ch in
     and_then (map_err (\<lambda>_. InvalidSignature) (signing_payload sha xdr sym_xdr domain body_hash)) (\<lambda>payload.
     and_then (verify_ed25519 parse_key verify pubkey payload signature) (\<lambda>_.
     let s = s\<lparr>Challenge := (Challenge s)(cid \<mapsto> ch\<lparr>used := True\<rparr>)\<rparr>;
         b = b\<lparr>verified := True, updated_at := timestamp env\<rparr>
     in Ok (save_binding (chal_recipient ch) b s)))))))"

definition derive_intent_id ::
  "(bytes \<Rightarrow> hash32) \<Rightarrow> (address \<Rightarrow> bytes) \<Rightarrow> hash32 \<Rightarrow> address \<Rightarrow> nat \<Rightarrow> hash32" where
  "derive_intent_id sha xdr pid r k =
     sha (INTENT_DOMAIN_TAG @ pid @ xdr r @ be_bytes 4 k)"

definition create_intent ::
  "(bytes \<Rightarrow> hash32) \<Rightarrow> (address \<Rightarrow> bytes) \<Rightarrow> env \<Rightarrow> address \<Rightarrow> hash32 \<Rightarrow> address \<Rightarrow> int \<Rightarrow> nat \<Rightarrow>
   disb_state \<Rightarrow> (ContractError, hash32 \<times> disb_state) outcome" where
  "create_intent sha xdr env creator pid r n k s =
     and_then (require_creator_or_admin env s creator) (\<lambda>_.
     if n \<le> 0 then Err InvalidAmount
     else and_then (load_binding s r) (\<lambda>b.
     let iid = derive_intent_id sha xdr pid r k in
     case Intent s iid of
       Some existing \<Rightarrow>
         (if program_id existing = pid \<and> recipient existing = r \<and> wallet existing = bound_wallet b
             \<and> amount existing = n \<and> installment existing = k
          then Ok (iid, s) else Err IntentConflict)
     | None \<Rightarrow>
         (let i = \<lparr>intent_id = iid, program_id = pid, recipient = r, wallet = bound_wallet b,
                   amount = n, installment = k, wallet_epoch = epoch b,
                   created_at = timestamp env, created_by = creator, status = Pending,
                   executed_at = 0\<rparr>
          in Ok (iid, s\<lparr>Intent := (Intent s)(iid \<mapsto> i)\<rparr>))))"

definition is_intent_executable :: "disb_state \<Rightarrow> hash32 \<Rightarrow> bool" where
  "is_intent_executable s iid =
     (case Intent s iid of
        Some i \<Rightarrow>
          (if status i = Pending then
             (case load_binding s (recipient i) of
                Ok b \<Rightarrow> verified b \<and> epoch b = wallet_epoch i \<and> bound_wallet b = wallet i
              | _ \<Rightarrow> False)
           else False)
      | None \<Rightarrow> False)"

definition require_pending :: "DisbursementIntent \<Rightarrow> (ContractError, unit) outcome" where
  "require_pending i =
     (case status i of Executed \<Rightarrow> Err AlreadyExecuted | Cancelled \<Rightarrow> Err AlreadyCancelled
      | Pending \<Rightarrow> Ok ())"

definition record_execution ::
  "env \<Rightarrow> address \<Rightarrow> hash32 \<Rightarrow> disb_state \<Rightarrow> (ContractError, disb_state) outcome" where
  "record_execution env executor iid s =
     and_then (require_creator_or_admin env s executor) (\<lambda>_.
     and_then (ok_or (Intent s iid) IntentNotFound) (\<lambda>i.
     and_then (require_pending i) (\<lambda>_.
     if \<not> is_intent_executable s iid then Err IntentOnHold
     else Ok (s\<lparr>Intent := (Intent s)(iid \<mapsto>
            i\<lparr>status := Executed, executed_at := timestamp env\<rparr>)\<rparr>))))"

definition cancel_intent ::
  "env \<Rightarrow> address \<Rightarrow> hash32 \<Rightarrow> disb_state \<Rightarrow> (ContractError, disb_state) outcome" where
  "cancel_intent env caller iid s =
     and_then (require_creator_or_admin env s caller) (\<lambda>_.
     and_then (ok_or (Intent s iid) IntentNotFound) (\<lambda>i.
     and_then (require_pending i) (\<lambda>_.
     Ok (s\<lparr>Intent := (Intent s)(iid \<mapsto> i\<lparr>status := Cancelled\<rparr>)\<rparr>))))"

definition get_intent :: "disb_state \<Rightarrow> hash32 \<Rightarrow> (ContractError, DisbursementIntent) outcome" where
  "get_intent s iid = ok_or (Intent s iid) IntentNotFound"

datatype disb_call =
    Initialize address hash32 | AddCreator address address | RemoveCreator address address
  | RegisterWalletKey address bytes | SetPayoutWallet address address
  | OpenWalletChallenge address address nat | ConfirmWalletChallenge nat bytes bytes
  | CreateIntent address hash32 address int nat | RecordExecution address hash32
  | CancelIntent address hash32

fun disb_exec ::
  "(bytes \<Rightarrow> 'k option) \<Rightarrow> ('k \<Rightarrow> bytes \<Rightarrow> bytes \<Rightarrow> bool) \<Rightarrow> (bytes \<Rightarrow> hash32) \<Rightarrow>
   (address \<Rightarrow> bytes) \<Rightarrow> (string \<Rightarrow> bytes) \<Rightarrow> env \<Rightarrow> disb_call \<Rightarrow> disb_state \<Rightarrow>
   (ContractError, disb_state) outcome" where
  "disb_exec pk vf sha xdr sx env (Initialize a n) s = initialize env a n s"
| "disb_exec pk vf sha xdr sx env (AddCreator a c) s = add_creator env a c s"
| "disb_exec pk vf sha xdr sx env (RemoveCreator a c) s = remove_creator env a c s"
| "disb_exec pk vf sha xdr sx env (RegisterWalletKey w k) s = register_wallet_key env w k s"
| "disb_exec pk vf sha xdr sx env (SetPayoutWallet r w) s = set_payout_wallet env r w s"
| "disb_exec pk vf sha xdr sx env (OpenWalletChallenge r w t) s =
     and_then (open_wallet_challenge env r w t s) (\<lambda>(_, s). Ok s)"
| "disb_exec pk vf sha xdr sx env (ConfirmWalletChallenge i k sg) s =
     confirm_wallet_challenge pk vf sha xdr sx env i k sg s"
| "disb_exec pk vf sha xdr sx env (CreateIntent c p r n k) s =
     and_then (create_intent sha xdr env c p r n k s) (\<lambda>(_, s). Ok s)"
| "disb_exec pk vf sha xdr sx env (RecordExecution e i) s = record_execution env e i s"
| "disb_exec pk vf sha xdr sx env (CancelIntent c i) s = cancel_intent env c i s"

inductive disb_step ::
  "(bytes \<Rightarrow> 'k option) \<Rightarrow> ('k \<Rightarrow> bytes \<Rightarrow> bytes \<Rightarrow> bool) \<Rightarrow> (bytes \<Rightarrow> hash32) \<Rightarrow>
   (address \<Rightarrow> bytes) \<Rightarrow> (string \<Rightarrow> bytes) \<Rightarrow> disb_state \<Rightarrow> disb_state \<Rightarrow> bool"
  for pk vf sha xdr sx where
  call: "disb_exec pk vf sha xdr sx env c s = Ok s' \<Longrightarrow> disb_step pk vf sha xdr sx s s'"

inductive_cases disb_stepE: "disb_step pk vf sha xdr sx s s'"

section \<open>What a successful call did\<close>

lemma disb_require_admin_Ok [outcome_iff]:
  "require_admin env s a = Ok u \<longleftrightarrow> Admin s = Some a \<and> auth env a"
  by (auto simp: require_admin_def outcome_iff)

lemma require_creator_Ok [outcome_iff]:
  "require_creator_or_admin env s c = Ok u \<longleftrightarrow>
     (\<exists>a. Admin s = Some a \<and> (c = a \<or> is_authorized_creator s c)) \<and> auth env c"
  by (auto simp: require_creator_or_admin_def outcome_iff)

lemma load_Ok [outcome_iff]:
  "load_binding s r = Ok b \<longleftrightarrow> WalletBinding s r = Some b"
  "load_challenge s i = Ok ch \<longleftrightarrow> Challenge s i = Some ch"
  by (simp_all add: load_binding_def load_challenge_def outcome_iff)

lemma require_pending_Ok [outcome_iff]: "require_pending i = Ok u \<longleftrightarrow> status i = Pending"
  by (simp add: require_pending_def split: IntentStatus.splits)

lemma verify_Ok [outcome_iff]:
  "verify_ed25519 pk vf k p sg = Ok u \<longleftrightarrow> (\<exists>vk. pk k = Some vk \<and> vf vk p sg)"
  by (auto simp: verify_ed25519_def outcome_iff)

lemma executable_iff:
  "is_intent_executable s k \<longleftrightarrow> (\<exists>i b. Intent s k = Some i \<and> status i = Pending \<and>
     WalletBinding s (recipient i) = Some b \<and> verified b \<and> epoch b = wallet_epoch i \<and>
     bound_wallet b = wallet i)"
  by (auto simp: is_intent_executable_def load_binding_def ok_or_def split: option.splits)

lemma set_wallet_Ok:
  assumes "set_payout_wallet env r w s = Ok s'"
  obtains b where "auth env r" "\<not> verified b" "bound_wallet b = w"
    "epoch b = unwrap_or (map_option epoch (WalletBinding s r)) 0 + 1"
    "s' = s\<lparr>WalletBinding := (WalletBinding s)(r \<mapsto> b)\<rparr>"
  by (rule that [of "\<lparr>bound_wallet = w, verified = False,
        epoch = unwrap_or (map_option epoch (WalletBinding s r)) 0 + 1, updated_at = timestamp env\<rparr>"])
    (use assms in \<open>auto simp: set_payout_wallet_def save_binding_def outcome_iff Let_def\<close>)

lemma open_Ok:
  assumes "open_wallet_challenge env r w ttl s = Ok (i, s')"
  obtains b ch where "auth env r" "WalletBinding s r = Some b" "bound_wallet b = w"
    "i = unwrap_or (ChallengeCounter s) 0" "chal_id ch = i" "chal_recipient ch = r" "chal_wallet ch = w"
    "\<not> used ch" "timestamp env < expires_at ch"
    "s' = s\<lparr>ChallengeCounter := Some (i + 1), Challenge := (Challenge s)(i \<mapsto> ch)\<rparr>"
proof -
  from assms obtain b where b: "WalletBinding s r = Some b"
    by (auto simp: open_wallet_challenge_def outcome_iff)
  show thesis
    by (rule that [of b "\<lparr>chal_id = i, chal_recipient = r, chal_wallet = w,
          expires_at = timestamp env + ttl, used = False, chal_created_at = timestamp env\<rparr>"])
      (use b assms in \<open>auto simp: open_wallet_challenge_def outcome_iff Let_def\<close>)
qed

text \<open>The payload a challenge asks the wallet to sign.\<close>

definition proof_payload ::
  "(bytes \<Rightarrow> hash32) \<Rightarrow> (address \<Rightarrow> bytes) \<Rightarrow> (string \<Rightarrow> bytes) \<Rightarrow> hash32 \<Rightarrow> address \<Rightarrow>
   WalletChallenge \<Rightarrow> (SigningError, hash32) outcome" where
  "proof_payload sha xdr sx nid me ch =
     signing_payload sha xdr sx \<lparr>version = ENVELOPE_VERSION, network_id = nid, contract = me,
       message_type = PayoutWalletProof\<rparr> (challenge_body_hash sha xdr ch)"

lemma wallet_confirm_Ok:
  assumes "confirm_wallet_challenge pk vf sha xdr sx env i k sg s = Ok s'"
  obtains ch b nid p vk where "Challenge s i = Some ch" "\<not> used ch" "timestamp env < expires_at ch"
    "WalletBinding s (chal_recipient ch) = Some b" "bound_wallet b = chal_wallet ch"
    "WalletKey s (chal_wallet ch) = Some k" "NetworkId s = Some nid"
    "proof_payload sha xdr sx nid (self env) ch = Ok p" "pk k = Some vk" "vf vk p sg"
    "s' = s\<lparr>Challenge := (Challenge s)(i \<mapsto> ch\<lparr>used := True\<rparr>),
       WalletBinding := (WalletBinding s)(chal_recipient ch \<mapsto>
         b\<lparr>verified := True, updated_at := timestamp env\<rparr>)\<rparr>"
  using assms
  by (auto simp: confirm_wallet_challenge_def wallet_proof_domain_def save_binding_def
      proof_payload_def outcome_iff Let_def)

lemma create_intent_Ok:
  assumes "create_intent sha xdr env c p r n k s = Ok (iid, s')"
  obtains (old) b i where "0 < n" "WalletBinding s r = Some b" "iid = derive_intent_id sha xdr p r k"
      "Intent s iid = Some i" "program_id i = p" "recipient i = r" "wallet i = bound_wallet b"
      "amount i = n" "installment i = k" "s' = s"
    | (fresh) b i where "0 < n" "WalletBinding s r = Some b" "iid = derive_intent_id sha xdr p r k"
      "Intent s iid = None" "intent_id i = iid" "program_id i = p" "recipient i = r"
      "wallet i = bound_wallet b" "amount i = n" "installment i = k" "wallet_epoch i = epoch b"
      "status i = Pending" "s' = s\<lparr>Intent := (Intent s)(iid \<mapsto> i)\<rparr>"
proof (cases "Intent s (derive_intent_id sha xdr p r k)")
  case None
  from assms obtain b where b: "WalletBinding s r = Some b"
    by (auto simp: create_intent_def outcome_iff)
  show thesis
    by (rule fresh [of b "\<lparr>intent_id = iid, program_id = p, recipient = r, wallet = bound_wallet b,
          amount = n, installment = k, wallet_epoch = epoch b, created_at = timestamp env,
          created_by = c, status = Pending, executed_at = 0\<rparr>"])
      (use assms None b in \<open>auto simp: create_intent_def outcome_iff Let_def\<close>)
next
  case (Some i)
  with assms show thesis
    by (auto simp: create_intent_def outcome_iff Let_def intro: old split: if_splits)
qed

lemma execute_Ok:
  assumes "record_execution env c k s = Ok s'"
  obtains i b where "Intent s k = Some i" "status i = Pending"
    "WalletBinding s (recipient i) = Some b" "verified b" "epoch b = wallet_epoch i"
    "bound_wallet b = wallet i" "\<exists>a. Admin s = Some a \<and> (c = a \<or> is_authorized_creator s c)" "auth env c"
    "s' = s\<lparr>Intent := (Intent s)(k \<mapsto> i\<lparr>status := Executed, executed_at := timestamp env\<rparr>)\<rparr>"
  using assms by (auto simp: record_execution_def outcome_iff executable_iff)

lemma cancel_intent_Ok:
  assumes "cancel_intent env c k s = Ok s'"
  obtains i where "Intent s k = Some i" "status i = Pending"
    "s' = s\<lparr>Intent := (Intent s)(k \<mapsto> i\<lparr>status := Cancelled\<rparr>)\<rparr>"
  using assms by (auto simp: cancel_intent_def outcome_iff)

text \<open>The calls that touch neither wallets, challenges nor intents.\<close>

lemma setup_frame:
  "initialize env a n s = Ok s' \<Longrightarrow> s' = s\<lparr>Admin := Some a, NetworkId := Some n\<rparr>"
  "add_creator env a c s = Ok s' \<Longrightarrow> s' = s\<lparr>Creator := (Creator s)(c \<mapsto> True)\<rparr>"
  "remove_creator env a c s = Ok s' \<Longrightarrow> s' = s\<lparr>Creator := (Creator s)(c \<mapsto> False)\<rparr>"
  "register_wallet_key env w k s = Ok s' \<Longrightarrow> s' = s\<lparr>WalletKey := (WalletKey s)(w \<mapsto> k)\<rparr>"
  by (auto simp: initialize_def add_creator_def remove_creator_def register_wallet_key_def outcome_iff)

section \<open>Well-formed states and what may change\<close>

definition disb_wf :: "(bytes \<Rightarrow> hash32) \<Rightarrow> (address \<Rightarrow> bytes) \<Rightarrow> disb_state \<Rightarrow> bool" where
  "disb_wf sha xdr s \<longleftrightarrow>
     (\<forall>k i. Intent s k = Some i \<longrightarrow>
        intent_id i = k \<and> k = derive_intent_id sha xdr (program_id i) (recipient i) (installment i) \<and>
        0 < amount i \<and> (\<exists>b. WalletBinding s (recipient i) = Some b \<and> wallet_epoch i \<le> epoch b)) \<and>
     (\<forall>c ch. Challenge s c = Some ch \<longrightarrow> c < unwrap_or (ChallengeCounter s) 0 \<and> chal_id ch = c)"

text \<open>
  How a stored intent may change from state \<open>s\<close> on: a pending one may be cancelled, or executed as long
  as the recipient has not moved past the wallet generation it targets.
\<close>

definition intent_evolves :: "disb_state \<Rightarrow> DisbursementIntent \<Rightarrow> DisbursementIntent \<Rightarrow> bool" where
  "intent_evolves s i j \<longleftrightarrow> j = i \<or>
     status i = Pending \<and> (j = i\<lparr>status := Cancelled\<rparr> \<or>
       (\<exists>ts. j = i\<lparr>status := Executed, executed_at := ts\<rparr>) \<and>
       (\<forall>b. WalletBinding s (recipient i) = Some b \<longrightarrow> epoch b \<le> wallet_epoch i))"

definition disb_evolves :: "disb_state \<Rightarrow> disb_state \<Rightarrow> bool" where
  "disb_evolves s t \<longleftrightarrow>
     (\<forall>k i. Intent s k = Some i \<longrightarrow> (\<exists>j. Intent t k = Some j \<and> intent_evolves s i j)) \<and>
     (\<forall>r b. WalletBinding s r = Some b \<longrightarrow> (\<exists>b'. WalletBinding t r = Some b' \<and> epoch b \<le> epoch b')) \<and>
     (\<forall>c ch. Challenge s c = Some ch \<longrightarrow>
        (\<exists>ch'. Challenge t c = Some ch' \<and> (ch' = ch \<or> ch' = ch\<lparr>used := True\<rparr>)))"

lemma disb_evolvesD:
  assumes "disb_evolves s t"
  shows "Intent s k = Some i \<Longrightarrow> \<exists>j. Intent t k = Some j \<and> intent_evolves s i j"
    and "WalletBinding s r = Some b \<Longrightarrow> \<exists>b'. WalletBinding t r = Some b' \<and> epoch b \<le> epoch b'"
    and "Challenge s c = Some ch \<Longrightarrow> \<exists>ch'. Challenge t c = Some ch' \<and> (ch' = ch \<or> ch' = ch\<lparr>used := True\<rparr>)"
  using assms unfolding disb_evolves_def by blast+

lemma disb_init_wf: "disb_wf sha xdr disb_init"
  by (simp add: disb_wf_def disb_init_def)

lemma intent_evolves_refl [simp]: "intent_evolves s i i"
  by (simp add: intent_evolves_def)

text \<open>A state that differs only in configuration.\<close>

lemma config_same:
  assumes "Intent s' = Intent s" "WalletBinding s' = WalletBinding s" "Challenge s' = Challenge s"
    "ChallengeCounter s' = ChallengeCounter s"
  shows "disb_wf sha xdr s \<Longrightarrow> disb_wf sha xdr s'" and "disb_evolves s s'"
  using assms by (simp_all add: disb_wf_def disb_evolves_def)

lemma binding_change:
  assumes "disb_wf sha xdr s"
    and "\<And>b. WalletBinding s r = Some b \<Longrightarrow> epoch b \<le> epoch b'"
  shows "disb_wf sha xdr (s\<lparr>WalletBinding := (WalletBinding s)(r \<mapsto> b')\<rparr>)"
    and "disb_evolves s (s\<lparr>WalletBinding := (WalletBinding s)(r \<mapsto> b')\<rparr>)"
  using assms unfolding disb_wf_def disb_evolves_def by (fastforce, fastforce)

lemma challenge_change:
  assumes "disb_wf sha xdr s" "Challenge s c = Some ch"
  shows "disb_wf sha xdr (s\<lparr>Challenge := (Challenge s)(c \<mapsto> ch\<lparr>used := True\<rparr>)\<rparr>)"
    and "disb_evolves s (s\<lparr>Challenge := (Challenge s)(c \<mapsto> ch\<lparr>used := True\<rparr>)\<rparr>)"
  using assms by (simp_all add: disb_wf_def disb_evolves_def)

lemma challenge_new:
  assumes "disb_wf sha xdr s" "c = unwrap_or (ChallengeCounter s) 0" "chal_id ch = c"
  defines "t \<equiv> s\<lparr>ChallengeCounter := Some (c + 1), Challenge := (Challenge s)(c \<mapsto> ch)\<rparr>"
  shows "disb_wf sha xdr t" and "disb_evolves s t"
proof -
  have "Challenge s c = None"
    using assms(1,2) by (cases "Challenge s c") (auto simp: disb_wf_def)
  with assms show "disb_wf sha xdr t" "disb_evolves s t"
    by (auto simp: disb_wf_def disb_evolves_def less_Suc_eq)
qed

lemma intent_change:
  assumes "disb_wf sha xdr s" "Intent s k = Some i" "intent_evolves s i j"
  shows "disb_wf sha xdr (s\<lparr>Intent := (Intent s)(k \<mapsto> j)\<rparr>)"
    and "disb_evolves s (s\<lparr>Intent := (Intent s)(k \<mapsto> j)\<rparr>)"
proof -
  have "intent_id j = intent_id i" "program_id j = program_id i" "recipient j = recipient i"
    "installment j = installment i" "amount j = amount i" "wallet_epoch j = wallet_epoch i"
    using assms(3) by (auto simp: intent_evolves_def)
  with assms show "disb_wf sha xdr (s\<lparr>Intent := (Intent s)(k \<mapsto> j)\<rparr>)"
    "disb_evolves s (s\<lparr>Intent := (Intent s)(k \<mapsto> j)\<rparr>)"
    by (simp_all add: disb_wf_def disb_evolves_def)
qed

lemma disb_evolves_trans:
  assumes st: "disb_evolves s t" and tu: "disb_evolves t u"
  shows "disb_evolves s u"
proof -
  have epochs: "epoch b \<le> n"
    if "WalletBinding s r = Some b" "\<forall>b. WalletBinding t r = Some b \<longrightarrow> epoch b \<le> n" for r b n
    using that disb_evolvesD(2) [OF st that(1)] by force
  have "\<exists>j. Intent u k = Some j \<and> intent_evolves s i j" if i: "Intent s k = Some i" for k i
  proof -
    obtain j where j: "Intent t k = Some j" "intent_evolves s i j"
      using disb_evolvesD(1) [OF st i] by blast
    obtain l where l: "Intent u k = Some l" "intent_evolves t j l"
      using disb_evolvesD(1) [OF tu j(1)] by blast
    have "intent_evolves s i l"
      using j(2) l(2) epochs unfolding intent_evolves_def by (elim disjE conjE exE) auto
    with l(1) show ?thesis by blast
  qed
  moreover have "\<exists>b'. WalletBinding u r = Some b' \<and> epoch b \<le> epoch b'" if "WalletBinding s r = Some b" for r b
    using disb_evolvesD(2) [OF st that] disb_evolvesD(2) [OF tu] order_trans by blast
  moreover have "\<exists>ch'. Challenge u c = Some ch' \<and> (ch' = ch \<or> ch' = ch\<lparr>used := True\<rparr>)"
    if "Challenge s c = Some ch" for c ch
    using disb_evolvesD(3) [OF st that] disb_evolvesD(3) [OF tu] by fastforce
  ultimately show ?thesis
    by (simp add: disb_evolves_def)
qed

lemma disb_exec_evolves:
  assumes "disb_exec pk vf sha xdr sx env c s = Ok s'" "disb_wf sha xdr s"
  shows "disb_wf sha xdr s' \<and> disb_evolves s s'"
proof (cases c)
  case (SetPayoutWallet r w)
  with assms(1) have "set_payout_wallet env r w s = Ok s'" by simp
  then show ?thesis
    by (rule set_wallet_Ok) (auto intro!: binding_change [OF assms(2)])
next
  case (OpenWalletChallenge r w ttl)
  with assms(1) obtain i where "open_wallet_challenge env r w ttl s = Ok (i, s')"
    by (auto simp: outcome_iff)
  then show ?thesis
    by (rule open_Ok) (auto intro: challenge_new [OF assms(2), simplified])
next
  case (ConfirmWalletChallenge i k sg)
  with assms(1) have "confirm_wallet_challenge pk vf sha xdr sx env i k sg s = Ok s'" by simp
  then obtain ch b where "Challenge s i = Some ch" and b: "WalletBinding s (chal_recipient ch) = Some b"
    and s': "s' = s\<lparr>Challenge := (Challenge s)(i \<mapsto> ch\<lparr>used := True\<rparr>),
       WalletBinding := (WalletBinding s)(chal_recipient ch \<mapsto>
         b\<lparr>verified := True, updated_at := timestamp env\<rparr>)\<rparr>"
    by (rule wallet_confirm_Ok) blast
  define t where "t = s\<lparr>Challenge := (Challenge s)(i \<mapsto> ch\<lparr>used := True\<rparr>)\<rparr>"
  have t: "disb_wf sha xdr t" "disb_evolves s t"
    unfolding t_def using assms(2) \<open>Challenge s i = Some ch\<close> by (rule challenge_change)+
  have "s' = t\<lparr>WalletBinding := (WalletBinding t)(chal_recipient ch \<mapsto>
      b\<lparr>verified := True, updated_at := timestamp env\<rparr>)\<rparr>"
    using s' by (simp add: t_def)
  then show ?thesis
    using t b binding_change [OF t(1), of "chal_recipient ch" "b\<lparr>verified := True, updated_at := timestamp env\<rparr>"]
    by (auto simp: t_def intro: disb_evolves_trans)
next
  case (CreateIntent a p r n k)
  with assms(1) obtain iid where "create_intent sha xdr env a p r n k s = Ok (iid, s')"
    by (auto simp: outcome_iff)
  then show ?thesis
  proof (cases rule: create_intent_Ok)
    case old
    then show ?thesis using assms(2) by (auto simp: disb_evolves_def)
  next
    case (fresh b i)
    then show ?thesis using assms(2) by (auto simp: disb_wf_def disb_evolves_def)
  qed
next
  case (RecordExecution a k)
  with assms(1) have "record_execution env a k s = Ok s'" by simp
  then obtain i where "Intent s k = Some i" "intent_evolves s i (i\<lparr>status := Executed, executed_at := timestamp env\<rparr>)"
    "s' = s\<lparr>Intent := (Intent s)(k \<mapsto> i\<lparr>status := Executed, executed_at := timestamp env\<rparr>)\<rparr>"
    by (rule execute_Ok) (auto simp: intent_evolves_def)
  then show ?thesis using intent_change [OF assms(2)] by simp
next
  case (CancelIntent a k)
  with assms(1) have "cancel_intent env a k s = Ok s'" by simp
  then obtain i where "Intent s k = Some i" "intent_evolves s i (i\<lparr>status := Cancelled\<rparr>)"
    "s' = s\<lparr>Intent := (Intent s)(k \<mapsto> i\<lparr>status := Cancelled\<rparr>)\<rparr>"
    by (rule cancel_intent_Ok) (auto simp: intent_evolves_def)
  then show ?thesis using intent_change [OF assms(2)] by simp
qed (use assms in \<open>auto dest!: setup_frame intro: config_same\<close>)

interpretation disb_runs: evolving "disb_step pk vf sha xdr sx" "disb_wf sha xdr" disb_evolves
  for pk vf sha xdr sx
proof unfold_locales
  show "disb_evolves s s" for s by (simp add: disb_evolves_def)
qed (auto intro: disb_evolves_trans dest: disb_exec_evolves elim!: disb_stepE)

lemmas disb_reachable_wf = disb_runs.run [OF _ disb_init_wf]

section \<open>Properties\<close>

text \<open>
  C12. An installment is paid once, to a proven wallet. When an execution is recorded, the intent was
  pending for a positive amount under the key derived from its program, recipient and installment,
  and its wallet was the recipient's current one, verified and of the generation the intent targets.
  From then on the intent never changes, so no later call can record an execution of it again.
\<close>

theorem installment_paid_once:
  assumes run: "(disb_step pk vf sha xdr sx)\<^sup>*\<^sup>* disb_init s"
    and exec: "record_execution env c k s = Ok s'"
    and later: "(disb_step pk vf sha xdr sx)\<^sup>*\<^sup>* s' t"
  shows "\<exists>i b. Intent s k = Some i \<and> status i = Pending \<and> 0 < amount i \<and>
    k = derive_intent_id sha xdr (program_id i) (recipient i) (installment i) \<and>
    WalletBinding s (recipient i) = Some b \<and> verified b \<and> bound_wallet b = wallet i \<and>
    epoch b = wallet_epoch i \<and>
    Intent t k = Some (i\<lparr>status := Executed, executed_at := timestamp env\<rparr>) \<and>
    \<not> is_ok (record_execution env' c' k t)"
proof -
  have wf: "disb_wf sha xdr s" by (rule disb_reachable_wf [OF run])
  have "disb_exec pk vf sha xdr sx env (RecordExecution c k) s = Ok s'" using exec by simp
  then have "disb_evolves s' t"
    using disb_exec_evolves wf disb_runs.run_evolves [OF later] by blast
  from exec show ?thesis
  proof (rule execute_Ok)
    fix i b
    assume i: "Intent s k = Some i" "status i = Pending"
      and b: "WalletBinding s (recipient i) = Some b" "verified b" "epoch b = wallet_epoch i"
        "bound_wallet b = wallet i"
      and s': "s' = s\<lparr>Intent := (Intent s)(k \<mapsto> i\<lparr>status := Executed, executed_at := timestamp env\<rparr>)\<rparr>"
    have "Intent t k = Some (i\<lparr>status := Executed, executed_at := timestamp env\<rparr>)"
      using disb_evolvesD(1) [OF \<open>disb_evolves s' t\<close>, of k] by (simp add: s' intent_evolves_def)
    moreover from this have "\<not> is_ok (record_execution env' c' k t)"
      by (auto simp: is_ok_iff elim!: execute_Ok)
    moreover have "0 < amount i" "k = derive_intent_id sha xdr (program_id i) (recipient i) (installment i)"
      using wf i(1) unfolding disb_wf_def by blast+
    ultimately show ?thesis using i b by blast
  qed
qed

text \<open>
  A wallet is only ever verified by a proof. If a call leaves a recipient with a verified binding that
  was not there before, the call confirmed an unused, unexpired challenge of that recipient for the bound
  wallet, with a signature valid under the wallet's registered key over the payload of exactly that
  challenge, this network and this contract. The challenge is consumed: no later call can confirm it.
\<close>

theorem wallet_verified_by_proof:
  assumes run: "(disb_step pk vf sha xdr sx)\<^sup>*\<^sup>* disb_init s"
    and exec: "disb_exec pk vf sha xdr sx env c s = Ok s'"
    and new: "WalletBinding s' r = Some b'" "verified b'" "WalletBinding s r \<noteq> Some b'"
    and later: "(disb_step pk vf sha xdr sx)\<^sup>*\<^sup>* s' t"
  shows "\<exists>cid k sg ch nid p vk. c = ConfirmWalletChallenge cid k sg \<and> Challenge s cid = Some ch \<and>
    \<not> used ch \<and> timestamp env < expires_at ch \<and> chal_id ch = cid \<and> chal_recipient ch = r \<and>
    chal_wallet ch = bound_wallet b' \<and> WalletKey s (bound_wallet b') = Some k \<and> pk k = Some vk \<and>
    NetworkId s = Some nid \<and> proof_payload sha xdr sx nid (self env) ch = Ok p \<and> vf vk p sg \<and>
    \<not> is_ok (confirm_wallet_challenge pk vf sha xdr sx env' cid k' sg' t)"
proof (cases c)
  case (ConfirmWalletChallenge cid k sg)
  have wf: "disb_wf sha xdr s" by (rule disb_reachable_wf [OF run])
  have ev: "disb_evolves s' t"
    using disb_exec_evolves [OF exec wf] disb_runs.run_evolves [OF later] by blast
  from exec ConfirmWalletChallenge have "confirm_wallet_challenge pk vf sha xdr sx env cid k sg s = Ok s'"
    by simp
  then show ?thesis
  proof (rule wallet_confirm_Ok)
    fix ch b nid p vk
    assume ch: "Challenge s cid = Some ch" "\<not> used ch" "timestamp env < expires_at ch"
      and b: "bound_wallet b = chal_wallet ch" "WalletKey s (chal_wallet ch) = Some k" "NetworkId s = Some nid"
        "proof_payload sha xdr sx nid (self env) ch = Ok p" "pk k = Some vk" "vf vk p sg"
      and s': "s' = s\<lparr>Challenge := (Challenge s)(cid \<mapsto> ch\<lparr>used := True\<rparr>),
       WalletBinding := (WalletBinding s)(chal_recipient ch \<mapsto>
         b\<lparr>verified := True, updated_at := timestamp env\<rparr>)\<rparr>"
    have "Challenge t cid = Some (ch\<lparr>used := True\<rparr>)"
      using disb_evolvesD(3) [OF ev, of cid] by (simp add: s')
    then have "\<not> is_ok (confirm_wallet_challenge pk vf sha xdr sx env' cid k' sg' t)"
      by (auto simp: is_ok_iff elim!: wallet_confirm_Ok)
    moreover have "chal_recipient ch = r" "chal_wallet ch = bound_wallet b'"
      using new b(1) by (auto simp: s' split: if_splits)
    moreover have "chal_id ch = cid" using wf ch(1) by (simp add: disb_wf_def)
    ultimately show ?thesis using ConfirmWalletChallenge ch b by auto
  qed
qed (use exec new in \<open>auto simp: outcome_iff dest!: setup_frame
  elim!: set_wallet_Ok open_Ok create_intent_Ok execute_Ok cancel_intent_Ok split: if_splits\<close>)

text \<open>
  An installment whose recipient has changed wallets can never be paid. Once the wallet generation
  has moved past that of an unexecuted intent, the intent is never executable again, in any later
  state, and no call can make another intent for the same program, recipient and installment: a
  retry that succeeds returns the old intent and changes nothing.
\<close>

theorem rewalleted_installment_blocked:
  assumes run: "(disb_step pk vf sha xdr sx)\<^sup>*\<^sup>* disb_init s"
    and i: "Intent s k = Some i" "status i \<noteq> Executed"
    and moved: "WalletBinding s (recipient i) = Some b" "epoch b \<noteq> wallet_epoch i"
    and later: "(disb_step pk vf sha xdr sx)\<^sup>*\<^sup>* s t"
  shows "\<not> is_intent_executable t k \<and>
    (Intent t k = Some i \<or> Intent t k = Some (i\<lparr>status := Cancelled\<rparr>)) \<and>
    (case create_intent sha xdr env c (program_id i) (recipient i) n (installment i) t of
       Ok (k', t') \<Rightarrow> k' = k \<and> t' = t | _ \<Rightarrow> True)"
proof -
  have wf: "disb_wf sha xdr s" by (rule disb_reachable_wf [OF run])
  have ev: "disb_evolves s t" by (rule disb_runs.run_evolves [OF later wf])
  have past: "wallet_epoch i < epoch b"
    using wf i(1) moved by (fastforce simp: disb_wf_def)
  have key: "k = derive_intent_id sha xdr (program_id i) (recipient i) (installment i)"
    using wf i(1) by (simp add: disb_wf_def)
  obtain j where j: "Intent t k = Some j" "j = i \<or> j = i\<lparr>status := Cancelled\<rparr>"
    using disb_evolvesD(1) [OF ev i(1)] past moved(1) by (auto simp: intent_evolves_def)
  obtain b' where b': "WalletBinding t (recipient i) = Some b'" "epoch b \<le> epoch b'"
    using disb_evolvesD(2) [OF ev moved(1)] by blast
  have "\<not> is_intent_executable t k"
    using j b' past by (auto simp: executable_iff)
  moreover have "case create_intent sha xdr env c (program_id i) (recipient i) n (installment i) t of
       Ok (k', t') \<Rightarrow> k' = k \<and> t' = t | _ \<Rightarrow> True"
  proof (cases "create_intent sha xdr env c (program_id i) (recipient i) n (installment i) t")
    case (Ok kt)
    obtain k' t' where kt: "kt = (k', t')" by fastforce
    have "k' = k \<and> t' = t"
      using Ok [unfolded kt] j(1) key by (cases rule: create_intent_Ok) auto
    then show ?thesis by (simp add: Ok kt)
  qed simp_all
  ultimately show ?thesis using j by blast
qed

section \<open>An example run\<close>

text \<open>
  Recipient 5 binds wallet 6, proves it, and gets an intent for installment 0 of a program; the
  administrator 1 records the payment. In the example ed25519 scheme a signature is the key followed by
  the message.
\<close>

definition demo_env :: "nat \<Rightarrow> env" where
  "demo_env t = \<lparr>timestamp = t, ledger_sequence = 0, self = 99, auth = (\<lambda>a. a \<noteq> 99)\<rparr>"

definition demo_verify :: "bytes \<Rightarrow> bytes \<Rightarrow> bytes \<Rightarrow> bool" where
  "demo_verify vk m sg \<longleftrightarrow> sg = vk @ m"

abbreviation demo_exec :: "env \<Rightarrow> disb_call \<Rightarrow> disb_state \<Rightarrow> (ContractError, disb_state) outcome" where
  "demo_exec \<equiv> disb_exec Some demo_verify demo_sha demo_address_xdr ascii"

abbreviation demo_step :: "disb_state \<Rightarrow> disb_state \<Rightarrow> bool" where
  "demo_step \<equiv> disb_step Some demo_verify demo_sha demo_address_xdr ascii"

definition demo_challenge :: WalletChallenge where
  "demo_challenge = \<lparr>chal_id = 0, chal_recipient = 5, chal_wallet = 6, expires_at = 110, used = False,
     chal_created_at = 10\<rparr>"

definition demo_signature :: bytes where
  "demo_signature = (case proof_payload demo_sha demo_address_xdr ascii (replicate 32 9) 99 demo_challenge of
     Ok p \<Rightarrow> [7] @ p | _ \<Rightarrow> [])"

definition demo_opened :: disb_state where
  "demo_opened = \<lparr>Admin = Some 1, NetworkId = Some (replicate 32 9), Creator = Map.empty,
     WalletKey = [6 \<mapsto> [7]],
     WalletBinding = [5 \<mapsto> \<lparr>bound_wallet = 6, verified = False, epoch = 1, updated_at = 10\<rparr>],
     ChallengeCounter = Some 1, Challenge = [0 \<mapsto> demo_challenge], Intent = Map.empty\<rparr>"

definition demo_bound :: PayoutWallet where
  "demo_bound = \<lparr>bound_wallet = 6, verified = True, epoch = 1, updated_at = 20\<rparr>"

definition demo_verified :: disb_state where
  "demo_verified = demo_opened\<lparr>WalletBinding := [5 \<mapsto> demo_bound],
     Challenge := [0 \<mapsto> demo_challenge\<lparr>used := True\<rparr>]\<rparr>"

definition demo_key :: hash32 where
  "demo_key = derive_intent_id demo_sha demo_address_xdr [3] 5 0"

definition demo_intent :: DisbursementIntent where
  "demo_intent = \<lparr>intent_id = demo_key, program_id = [3], recipient = 5, wallet = 6, amount = 50,
     installment = 0, wallet_epoch = 1, created_at = 30, created_by = 1, status = Pending, executed_at = 0\<rparr>"

definition demo_planned :: disb_state where
  "demo_planned = demo_verified\<lparr>Intent := [demo_key \<mapsto> demo_intent]\<rparr>"

definition demo_paid :: disb_state where
  "demo_paid = demo_planned\<lparr>Intent := [demo_key \<mapsto>
     demo_intent\<lparr>status := Executed, executed_at := 40\<rparr>]\<rparr>"

definition demo_moved :: disb_state where
  "demo_moved = demo_planned\<lparr>WalletBinding := [5 \<mapsto>
     \<lparr>bound_wallet = 8, verified = False, epoch = 2, updated_at = 40\<rparr>]\<rparr>"

lemmas demo_states = demo_opened_def demo_challenge_def demo_bound_def demo_verified_def
  demo_planned_def demo_paid_def demo_moved_def demo_intent_def demo_env_def disb_init_def

lemma demo_open_run:
  "run_calls demo_exec [(demo_env 10, Initialize 1 (replicate 32 9)), (demo_env 10, RegisterWalletKey 6 [7]),
     (demo_env 10, SetPayoutWallet 5 6), (demo_env 10, OpenWalletChallenge 5 6 100)] disb_init = Ok demo_opened"
  by (simp add: demo_states initialize_def register_wallet_key_def set_payout_wallet_def
      open_wallet_challenge_def load_binding_def save_binding_def MAX_CHALLENGE_TTL_SECONDS_def
      u32_checked_def u64_checked_def range_defs Let_def)

lemma demo_wallet_confirm:
  "demo_exec (demo_env 20) (ConfirmWalletChallenge 0 [7] demo_signature) demo_opened = Ok demo_verified"
proof -
  obtain p where p: "proof_payload demo_sha demo_address_xdr ascii (replicate 32 9) 99 demo_challenge = Ok p"
    by (simp add: proof_payload_def signing_payload_def canonical_preimage_def check_version_def Let_def)
  then have "demo_signature = [7] @ p" by (simp add: demo_signature_def)
  with p show ?thesis
    by (simp add: demo_states confirm_wallet_challenge_def load_challenge_def load_binding_def
        wallet_proof_domain_def proof_payload_def verify_ed25519_def demo_verify_def save_binding_def
        Let_def)
qed

lemma demo_plan: "demo_exec (demo_env 30) (CreateIntent 1 [3] 5 50 0) demo_verified = Ok demo_planned"
  by (simp add: demo_states create_intent_def require_creator_or_admin_def load_binding_def
      demo_key_def [symmetric] Let_def)

lemma demo_pay: "record_execution (demo_env 40) 1 demo_key demo_planned = Ok demo_paid"
  by (simp add: demo_states record_execution_def require_creator_or_admin_def require_pending_def
      is_intent_executable_def load_binding_def)

lemma demo_move: "demo_exec (demo_env 40) (SetPayoutWallet 5 8) demo_planned = Ok demo_moved"
  by (simp add: demo_states set_payout_wallet_def save_binding_def u32_checked_def range_defs Let_def
      numeral_2_eq_2 [symmetric])

lemma demo_disb_reachable:
  "demo_step\<^sup>*\<^sup>* disb_init demo_opened" "demo_step\<^sup>*\<^sup>* disb_init demo_planned" "demo_step\<^sup>*\<^sup>* disb_init demo_moved"
proof -
  show opened: "demo_step\<^sup>*\<^sup>* disb_init demo_opened"
    using demo_open_run by (rule run_calls_steps) (rule disb_step.call)
  have "demo_step demo_opened demo_verified" "demo_step demo_verified demo_planned"
    "demo_step demo_planned demo_moved"
    by (rule disb_step.call, rule demo_wallet_confirm demo_plan demo_move)+
  with opened show "demo_step\<^sup>*\<^sup>* disb_init demo_planned" "demo_step\<^sup>*\<^sup>* disb_init demo_moved"
    by (meson rtranclp.rtrancl_into_rtrancl)+
qed

theorem installment_paid_once_witness:
  "Intent demo_paid demo_key = Some (demo_intent\<lparr>status := Executed, executed_at := 40\<rparr>) \<and>
   \<not> is_ok (record_execution (demo_env 50) 1 demo_key demo_paid)"
  using installment_paid_once [OF demo_disb_reachable(2) demo_pay rtranclp.rtrancl_refl,
      of "demo_env 50" 1] by (auto simp: demo_paid_def demo_planned_def)

theorem wallet_verified_by_proof_witness:
  "\<not> is_ok (confirm_wallet_challenge Some demo_verify demo_sha demo_address_xdr ascii (demo_env 30) 0 [7]
     demo_signature demo_verified)"
  using wallet_verified_by_proof [OF demo_disb_reachable(1) demo_wallet_confirm _ _ _ rtranclp.rtrancl_refl,
      of 5 demo_bound "demo_env 30" "[7]" demo_signature]
  by (auto simp: demo_states)

theorem rewalleted_installment_blocked_witness:
  "\<not> is_intent_executable demo_moved demo_key \<and>
   create_intent demo_sha demo_address_xdr (demo_env 50) 1 [3] 5 50 0 demo_moved = Err IntentConflict"
proof -
  have "\<not> is_intent_executable demo_moved demo_key"
    using rewalleted_installment_blocked [OF demo_disb_reachable(3) _ _ _ _ rtranclp.rtrancl_refl,
        of demo_key demo_intent "\<lparr>bound_wallet = 8, verified = False, epoch = 2, updated_at = 40\<rparr>"
          "demo_env 50" 1 50]
    by (simp add: demo_states)
  then show ?thesis
    by (simp add: demo_states create_intent_def require_creator_or_admin_def load_binding_def
        demo_key_def [symmetric] Let_def)
qed

text \<open>
  A challenge survives a change of wallet and back: it only has to name the wallet that is bound when it
  is confirmed, not one that has stayed bound since it was opened.
\<close>

lemma stale_challenge_accepted:
  "is_ok (run_calls demo_exec [(demo_env 11, SetPayoutWallet 5 8), (demo_env 12, SetPayoutWallet 5 6),
     (demo_env 20, ConfirmWalletChallenge 0 [7] demo_signature)] demo_opened)"
proof -
  obtain p where p: "proof_payload demo_sha demo_address_xdr ascii (replicate 32 9) 99 demo_challenge = Ok p"
    by (simp add: proof_payload_def signing_payload_def canonical_preimage_def check_version_def Let_def)
  then have "demo_signature = [7] @ p" by (simp add: demo_signature_def)
  with p show ?thesis
    by (simp add: demo_states confirm_wallet_challenge_def load_challenge_def load_binding_def
        wallet_proof_domain_def proof_payload_def verify_ed25519_def demo_verify_def save_binding_def
        set_payout_wallet_def u32_checked_def range_defs Let_def)
qed

end
