(* ===== verification/Webhook_Signing.thy ===== *)
theory Webhook_Signing
  imports Prelude
begin

text \<open>
  \<open>contracts/scholarship-outbox/src/webhook_signing.rs\<close>: the envelope a sponsor webhook delivery is
  signed over. Every field has a fixed width, so the preimage determines all of them.
\<close>

definition DOMAIN_TAG :: bytes where
  "DOMAIN_TAG = ascii ''ChainVerse.ScholarWebhook''"

definition ENVELOPE_VERSION :: nat where
  "ENVELOPE_VERSION = 1"

definition PREIMAGE_LEN :: nat where
  "PREIMAGE_LEN = length DOMAIN_TAG + 4 + 32 + 32 + 8 + 4 + 8 + 8 + 8 + 32"

record WebhookEnvelope =
  version :: nat
  network_id :: hash32
  contract :: address
  endpoint_id :: nat
  secret_epoch :: nat
  event_id :: nat
  sequence :: nat
  expires_at :: nat

definition canonical_preimage ::
  "(bytes \<Rightarrow> hash32) \<Rightarrow> (address \<Rightarrow> bytes) \<Rightarrow> WebhookEnvelope \<Rightarrow> hash32 \<Rightarrow> bytes" where
  "canonical_preimage sha xdr e payload_hash =
     (let contract_hash = sha (xdr (contract e)) in
      DOMAIN_TAG @ be_bytes 4 (version e) @ network_id e @ contract_hash @ be_bytes 8 (endpoint_id e)
        @ be_bytes 4 (secret_epoch e) @ be_bytes 8 (event_id e) @ be_bytes 8 (sequence e)
        @ be_bytes 8 (expires_at e) @ payload_hash)"

definition signing_payload ::
  "(bytes \<Rightarrow> hash32) \<Rightarrow> (address \<Rightarrow> bytes) \<Rightarrow> WebhookEnvelope \<Rightarrow> hash32 \<Rightarrow> hash32" where
  "signing_payload sha xdr e payload_hash = sha (canonical_preimage sha xdr e payload_hash)"

text \<open>An envelope whose fields have the widths of their types.\<close>

definition envelope_typed :: "WebhookEnvelope \<Rightarrow> bool" where
  "envelope_typed e \<longleftrightarrow> fits_u32 (version e) \<and> length (network_id e) = 32 \<and> fits_u64 (endpoint_id e) \<and>
     fits_u32 (secret_epoch e) \<and> fits_u64 (event_id e) \<and> fits_u64 (sequence e) \<and> fits_u64 (expires_at e)"

lemma length_webhook_tag [simp]: "length DOMAIN_TAG = 25"
  by (simp add: DOMAIN_TAG_def ascii_def)

lemma webhook_preimage_length:
  assumes "\<And>x. length (sha x) = 32" "envelope_typed e" "length b = 32"
  shows "length (canonical_preimage sha xdr e b) = PREIMAGE_LEN"
  using assms by (simp add: canonical_preimage_def PREIMAGE_LEN_def envelope_typed_def)

lemma webhook_preimage_inject:
  assumes sha: "\<And>x. length (sha x) = 32" and typed: "envelope_typed e" "envelope_typed e'"
    and eq: "canonical_preimage sha xdr e b = canonical_preimage sha xdr e' b'"
    and con: "sha (xdr (contract e)) = sha (xdr (contract e')) \<Longrightarrow> contract e = contract e'"
  shows "e = e' \<and> b = b'"
proof -
  have parts: "be_bytes 4 (version e) = be_bytes 4 (version e')" "network_id e = network_id e'"
    "sha (xdr (contract e)) = sha (xdr (contract e'))"
    "be_bytes 8 (endpoint_id e) = be_bytes 8 (endpoint_id e')"
    "be_bytes 4 (secret_epoch e) = be_bytes 4 (secret_epoch e')"
    "be_bytes 8 (event_id e) = be_bytes 8 (event_id e')"
    "be_bytes 8 (sequence e) = be_bytes 8 (sequence e')"
    "be_bytes 8 (expires_at e) = be_bytes 8 (expires_at e')" "b = b'"
    using eq sha typed by (simp_all add: canonical_preimage_def envelope_typed_def)
  have "version e = version e'" "endpoint_id e = endpoint_id e'" "secret_epoch e = secret_epoch e'"
    "event_id e = event_id e'" "sequence e = sequence e'" "expires_at e = expires_at e'"
    using typed by (auto intro!: be_bytes_inject [OF _ _ parts(1)] be_bytes_inject [OF _ _ parts(4)]
        be_bytes_inject [OF _ _ parts(5)] be_bytes_inject [OF _ _ parts(6)]
        be_bytes_inject [OF _ _ parts(7)] be_bytes_inject [OF _ _ parts(8)]
        simp: envelope_typed_def range_defs)
  with parts con show ?thesis by (cases e; cases e') simp
qed

end
