(* ===== verification/Scholarship_Outbox.thy ===== *)
theory Scholarship_Outbox
  imports Transition_Systems Webhook_Signing
begin

text \<open>
  \<open>contracts/scholarship-outbox/src/lib.rs\<close>: the durable event outbox, sponsor webhooks and settlement
  reconciliation, which share one contract state. This theory holds the state and every entry point;
  \<open>Outbox_Events\<close>, \<open>Outbox_Webhooks\<close> and \<open>Outbox_Settlements\<close> hold what is proved of the three parts.
  A \<open>Symbol\<close> is a string. \<open>delivery_payload\<close> takes the network id that the host reports.
\<close>

section \<open>State\<close>

datatype ContractError =
    NotInitialized | AlreadyInitialized | NotAdmin | IdOverflow | EventNotFound | AlreadyPublished
  | NotPublished | BacklogFull | CursorRegression | CursorTooHigh | InvalidSchemaVersion
  | InvalidRetentionHorizon | InvalidPruneLimit | EmptyCommitment | NoTopics | TooManyTopics
  | EndpointNotFound | SequenceRegression | TooManyEndpoints | InvalidExpiry | EndpointInactive
  | NotSubscribed | ExpiredDelivery | DeliveryNotFound | ReplayDetected | NotEndpointOwner
  | IntentNotFound | IntentExists | TooManyIntents | InvalidFinality | InvalidAmount | NotFinal
  | AlreadyObserved | InvalidState

record OutboxEvent =
  ev_id :: nat
  topic :: string
  schema_version :: nat
  correlation_id :: hash32
  payload_hash :: hash32
  source :: address
  created_at :: nat
  published_at :: nat

record WebhookEndpoint =
  ep_id :: nat
  owner :: address
  url_hash :: hash32
  secret_hash :: hash32
  topics :: "string list"
  active :: bool
  ep_secret_epoch :: nat
  last_sequence :: nat
  ep_created_at :: nat
  updated_at :: nat

datatype DeliveryOutcome = Delivered | Failed | Skipped

record DeliveryRecord =
  dlv_endpoint :: nat
  dlv_event :: nat
  dlv_sequence :: nat
  dlv_epoch :: nat
  dlv_expires_at :: nat
  attempt :: nat
  recorded_at :: nat
  outcome_of :: DeliveryOutcome
  acked_at :: nat

datatype SettlementState = Pending | Reconciled | Mismatched | Expired

definition is_alerting :: "SettlementState \<Rightarrow> bool" where
  "is_alerting x \<longleftrightarrow> x \<in> {Mismatched, Expired}"

record SettlementIntent =
  intent_id :: hash32
  int_source :: address
  int_correlation :: hash32
  expected_amount :: int
  state :: SettlementState
  opened_at :: nat
  required_finality :: nat
  observed_tx_hash :: hash32
  observed_ledger :: nat
  observed_amount :: int
  attempts :: nat
  reconciled_at :: nat
  resolution_hash :: hash32

record SettlementView =
  view_intent :: hash32
  view_state :: SettlementState
  view_settled_amount :: int
  view_observed_amount :: int
  view_reconciled_at :: nat
  view_attempts :: nat

record outbox_state =
  Admin :: "address option"
  NextEventId :: "nat option"
  PendingCount :: "nat option"
  PruneFloor :: "nat option"
  Event :: "nat \<rightharpoonup> OutboxEvent"
  Dedup :: "hash32 \<rightharpoonup> nat"
  Cursor :: "address \<rightharpoonup> nat"
  NextEndpointId :: "nat option"
  EnrolledEndpoints :: "nat option"
  Endpoint :: "nat \<rightharpoonup> WebhookEndpoint"
  Delivery :: "nat \<times> nat \<rightharpoonup> DeliveryRecord"
  DeliveryFloor :: "nat \<rightharpoonup> nat"
  DeliveryCount :: "nat \<rightharpoonup> nat"
  Attempts :: "nat \<times> nat \<rightharpoonup> nat"
  EndpointAck :: "nat \<rightharpoonup> nat"
  TrackedIntents :: "nat option"
  Intent :: "hash32 \<rightharpoonup> SettlementIntent"
  AlertedIntents :: "nat option"

definition outbox_init :: outbox_state where
  "outbox_init = \<lparr>Admin = None, NextEventId = None, PendingCount = None, PruneFloor = None,
     Event = Map.empty, Dedup = Map.empty, Cursor = Map.empty, NextEndpointId = None,
     EnrolledEndpoints = None, Endpoint = Map.empty, Delivery = Map.empty, DeliveryFloor = Map.empty,
     DeliveryCount = Map.empty, Attempts = Map.empty, EndpointAck = Map.empty, TrackedIntents = None,
     Intent = Map.empty, AlertedIntents = None\<rparr>"

definition MAX_PENDING_EVENTS :: nat where "MAX_PENDING_EVENTS = 10000"

definition MAX_PRUNE_PER_CALL :: nat where "MAX_PRUNE_PER_CALL = 200"

definition MAX_ENDPOINTS :: nat where "MAX_ENDPOINTS = 100"

definition MAX_ENDPOINT_TOPICS :: nat where "MAX_ENDPOINT_TOPICS = 16"

definition MAX_DELIVERY_HISTORY :: nat where "MAX_DELIVERY_HISTORY = 256"

definition MAX_SIGNATURE_TTL :: nat where "MAX_SIGNATURE_TTL = 86400"

definition MAX_TRACKED_INTENTS :: nat where "MAX_TRACKED_INTENTS = 5000"

definition MAX_FINALITY :: nat where "MAX_FINALITY = 100"

section \<open>Helpers\<close>

definition zero32 :: hash32 where "zero32 = replicate 32 0"

definition require_admin :: "outbox_state \<Rightarrow> address \<Rightarrow> (ContractError, unit) outcome" where
  "require_admin s account =
     (case Admin s of
        Some a \<Rightarrow> if a = account then Ok () else Err NotAdmin
      | None \<Rightarrow> Err NotAdmin)"

text \<open>What every operator entry point starts with: \<open>operator.require_auth()\<close>, then \<open>require_admin\<close>.\<close>

definition operator_auth :: "env \<Rightarrow> outbox_state \<Rightarrow> address \<Rightarrow> (ContractError, unit) outcome" where
  "operator_auth env s op = and_then (require_auth env op) (\<lambda>_. require_admin s op)"

definition load_endpoint :: "outbox_state \<Rightarrow> nat \<Rightarrow> (ContractError, WebhookEndpoint) outcome" where
  "load_endpoint s i = ok_or (Endpoint s i) EndpointNotFound"

definition save_endpoint :: "WebhookEndpoint \<Rightarrow> outbox_state \<Rightarrow> outbox_state" where
  "save_endpoint ep s = s\<lparr>Endpoint := (Endpoint s)(ep_id ep \<mapsto> ep)\<rparr>"

definition require_commitment :: "hash32 \<Rightarrow> (ContractError, unit) outcome" where
  "require_commitment c = (if c = zero32 then Err EmptyCommitment else Ok ())"

definition next_sequence :: "WebhookEndpoint \<Rightarrow> (ContractError, nat) outcome" where
  "next_sequence ep = ok_or (u64_checked (last_sequence ep + 1)) IdOverflow"

definition load_intent :: "outbox_state \<Rightarrow> hash32 \<Rightarrow> (ContractError, SettlementIntent) outcome" where
  "load_intent s i = ok_or (Intent s i) IntentNotFound"

definition save_intent :: "SettlementIntent \<Rightarrow> outbox_state \<Rightarrow> outbox_state" where
  "save_intent x s = s\<lparr>Intent := (Intent s)(intent_id x \<mapsto> x)\<rparr>"

definition raise_alert :: "outbox_state \<Rightarrow> (ContractError, outbox_state) outcome" where
  "raise_alert s =
     (let alerts = unwrap_or (AlertedIntents s) 0 in
      and_then (ok_or (u64_checked (alerts + 1)) IdOverflow) (\<lambda>n. Ok (s\<lparr>AlertedIntents := Some n\<rparr>)))"

definition check_expiry :: "nat \<Rightarrow> nat \<Rightarrow> (ContractError, unit) outcome" where
  "check_expiry now expires =
     (if expires < now then Err InvalidExpiry
      else let ttl = expires - now in if ttl > MAX_SIGNATURE_TTL then Err InvalidExpiry else Ok ())"

section \<open>Events\<close>

definition initialize :: "env \<Rightarrow> address \<Rightarrow> outbox_state \<Rightarrow> (ContractError, outbox_state) outcome" where
  "initialize env admin s =
     (if Admin s \<noteq> None then Err AlreadyInitialized
      else and_then (require_auth env admin) (\<lambda>_.
      Ok (s\<lparr>Admin := Some admin, NextEventId := Some 1, PendingCount := Some 0, PruneFloor := Some 1,
            NextEndpointId := Some 1, EnrolledEndpoints := Some 0\<rparr>)))"

definition enqueue ::
  "env \<Rightarrow> address \<Rightarrow> address \<Rightarrow> string \<Rightarrow> nat \<Rightarrow> hash32 \<Rightarrow> hash32 \<Rightarrow> hash32 \<Rightarrow> outbox_state \<Rightarrow>
   (ContractError, nat \<times> outbox_state) outcome" where
  "enqueue env op src tp schema corr dedup_key payload s =
     and_then (operator_auth env s op) (\<lambda>_.
     if schema = 0 then Err InvalidSchemaVersion
     else case Dedup s dedup_key of
       Some existing \<Rightarrow> Ok (existing, s)
     | None \<Rightarrow>
         let pending = unwrap_or (PendingCount s) 0 in
         if pending \<ge> MAX_PENDING_EVENTS then Err BacklogFull
         else and_then (ok_or (NextEventId s) IdOverflow) (\<lambda>i.
         and_then (ok_or (u64_checked (i + 1)) IdOverflow) (\<lambda>nxt.
         let ev = \<lparr>ev_id = i, topic = tp, schema_version = schema, correlation_id = corr,
                   payload_hash = payload, source = src, created_at = timestamp env, published_at = 0\<rparr>
         in and_then (ok_or (u64_checked (pending + 1)) IdOverflow) (\<lambda>p.
            Ok (i, s\<lparr>Event := (Event s)(i \<mapsto> ev), Dedup := (Dedup s)(dedup_key \<mapsto> i),
                     NextEventId := Some nxt, PendingCount := Some p\<rparr>)))))"

definition mark_published ::
  "env \<Rightarrow> address \<Rightarrow> nat \<Rightarrow> outbox_state \<Rightarrow> (ContractError, outbox_state) outcome" where
  "mark_published env relay i s =
     and_then (operator_auth env s relay) (\<lambda>_.
     and_then (ok_or (Event s i) EventNotFound) (\<lambda>ev.
     if published_at ev \<noteq> 0 then Err AlreadyPublished
     else
       let pending = unwrap_or (PendingCount s) 0 in
       Ok (s\<lparr>Event := (Event s)(i \<mapsto> ev\<lparr>published_at := timestamp env\<rparr>),
             PendingCount := Some (pending - 1)\<rparr>)))"

definition acknowledge ::
  "env \<Rightarrow> address \<Rightarrow> nat \<Rightarrow> outbox_state \<Rightarrow> (ContractError, nat \<times> outbox_state) outcome" where
  "acknowledge env consumer i s =
     and_then (require_auth env consumer) (\<lambda>_.
     if Event s i = None then Err EventNotFound
     else
       let current = unwrap_or (Cursor s consumer) 0 in
       if i < current then Err CursorRegression
       else if i = current \<and> current \<noteq> 0 then Ok (current, s)
       else Ok (i, s\<lparr>Cursor := (Cursor s)(consumer \<mapsto> i)\<rparr>))"

text \<open>The test and the loop of \<open>prune\<close>: the floor rises over removable entries, at most \<open>limit\<close> of them.\<close>

definition removable :: "nat \<Rightarrow> OutboxEvent option \<Rightarrow> bool" where
  "removable horizon e =
     (case e of None \<Rightarrow> True
      | Some ev \<Rightarrow> if published_at ev = 0 then False else published_at ev < horizon)"

function prune_loop ::
  "nat \<Rightarrow> nat \<Rightarrow> nat \<Rightarrow> nat \<Rightarrow> nat \<Rightarrow> (nat \<rightharpoonup> OutboxEvent) \<Rightarrow>
   (ContractError, nat \<times> nat \<times> (nat \<rightharpoonup> OutboxEvent)) outcome" where
  "prune_loop horizon nxt limit flr pruned E =
     (if flr < nxt \<and> pruned < limit then
        (if removable horizon (E flr) then
           and_then (ok_or (u64_checked (flr + 1)) IdOverflow) (\<lambda>flr'.
           and_then (ok_or (u32_checked (pruned + 1)) IdOverflow) (\<lambda>pruned'.
           prune_loop horizon nxt limit flr' pruned' (E(flr := None))))
         else Ok (flr, pruned, E))
      else Ok (flr, pruned, E))"
  by pat_completeness auto

termination
  by (relation "measure (\<lambda>(horizon, nxt, limit, flr, pruned, E). nxt - flr)") (auto simp: outcome_iff)

declare prune_loop.simps [simp del]

definition prune ::
  "env \<Rightarrow> address \<Rightarrow> nat \<Rightarrow> nat \<Rightarrow> outbox_state \<Rightarrow> (ContractError, nat \<times> outbox_state) outcome" where
  "prune env admin horizon limit s =
     and_then (require_admin s admin) (\<lambda>_.
     if horizon > timestamp env then Err InvalidRetentionHorizon
     else if limit = 0 \<or> limit > MAX_PRUNE_PER_CALL then Err InvalidPruneLimit
     else
       let nxt = unwrap_or (NextEventId s) 1;
           flr = unwrap_or (PruneFloor s) 1
       in and_then (prune_loop horizon nxt limit flr 0 (Event s)) (\<lambda>(flr, pruned, E).
          Ok (pruned, s\<lparr>Event := E, PruneFloor := Some flr\<rparr>)))"

definition get_event :: "outbox_state \<Rightarrow> nat \<Rightarrow> (ContractError, OutboxEvent) outcome" where
  "get_event s i = ok_or (Event s i) EventNotFound"

definition get_by_dedup :: "outbox_state \<Rightarrow> hash32 \<Rightarrow> (ContractError, nat) outcome" where
  "get_by_dedup s k = ok_or (Dedup s k) EventNotFound"

definition get_cursor :: "outbox_state \<Rightarrow> address \<Rightarrow> nat" where
  "get_cursor s c = unwrap_or (Cursor s c) 0"

definition pending_count :: "outbox_state \<Rightarrow> nat" where
  "pending_count s = unwrap_or (PendingCount s) 0"

section \<open>Webhooks\<close>

definition register_endpoint ::
  "env \<Rightarrow> address \<Rightarrow> address \<Rightarrow> hash32 \<Rightarrow> hash32 \<Rightarrow> string list \<Rightarrow> outbox_state \<Rightarrow>
   (ContractError, nat \<times> outbox_state) outcome" where
  "register_endpoint env op own url secret tps s =
     and_then (require_auth env op) (\<lambda>_.
     and_then (require_auth env own) (\<lambda>_.
     and_then (require_admin s op) (\<lambda>_.
     and_then (require_commitment url) (\<lambda>_.
     and_then (require_commitment secret) (\<lambda>_.
     if tps = [] then Err NoTopics
     else if length tps > MAX_ENDPOINT_TOPICS then Err TooManyTopics
     else
       let enrolled = unwrap_or (EnrolledEndpoints s) 0 in
       if enrolled \<ge> MAX_ENDPOINTS then Err TooManyEndpoints
       else and_then (ok_or (NextEndpointId s) NotInitialized) (\<lambda>i.
       let now = timestamp env;
           ep = \<lparr>ep_id = i, owner = own, url_hash = url, secret_hash = secret, topics = tps,
                 active = True, ep_secret_epoch = 1, last_sequence = 0, ep_created_at = now,
                 updated_at = now\<rparr>;
           s = save_endpoint ep s
       in and_then (ok_or (u64_checked (i + 1)) IdOverflow) (\<lambda>nxt.
          and_then (ok_or (u64_checked (enrolled + 1)) IdOverflow) (\<lambda>n.
          Ok (i, s\<lparr>NextEndpointId := Some nxt, EnrolledEndpoints := Some n\<rparr>)))))))))"

definition rotate_secret ::
  "env \<Rightarrow> address \<Rightarrow> nat \<Rightarrow> hash32 \<Rightarrow> outbox_state \<Rightarrow> (ContractError, nat \<times> outbox_state) outcome" where
  "rotate_secret env op i new_secret s =
     and_then (operator_auth env s op) (\<lambda>_.
     and_then (require_commitment new_secret) (\<lambda>_.
     and_then (load_endpoint s i) (\<lambda>ep.
     and_then (ok_or (u32_checked (ep_secret_epoch ep + 1)) IdOverflow) (\<lambda>epoch.
     Ok (epoch, save_endpoint (ep\<lparr>secret_hash := new_secret, ep_secret_epoch := epoch,
       updated_at := timestamp env\<rparr>) s)))))"

definition set_endpoint_active ::
  "env \<Rightarrow> address \<Rightarrow> nat \<Rightarrow> bool \<Rightarrow> outbox_state \<Rightarrow> (ContractError, outbox_state) outcome" where
  "set_endpoint_active env op i on s =
     and_then (operator_auth env s op) (\<lambda>_.
     and_then (load_endpoint s i) (\<lambda>ep.
     Ok (save_endpoint (ep\<lparr>active := on, updated_at := timestamp env\<rparr>) s)))"

definition delivery_payload ::
  "(bytes \<Rightarrow> hash32) \<Rightarrow> (address \<Rightarrow> bytes) \<Rightarrow> hash32 \<Rightarrow> env \<Rightarrow> nat \<Rightarrow> nat \<Rightarrow> nat \<Rightarrow> nat \<Rightarrow> outbox_state \<Rightarrow>
   (ContractError, hash32) outcome" where
  "delivery_payload sha xdr nid env i e sq expires s =
     and_then (load_endpoint s i) (\<lambda>ep.
     if \<not> active ep then Err EndpointInactive
     else and_then (next_sequence ep) (\<lambda>nxt.
     if sq \<noteq> nxt then Err SequenceRegression
     else and_then (check_expiry (timestamp env) expires) (\<lambda>_.
     and_then (ok_or (Event s e) EventNotFound) (\<lambda>ev.
     Ok (signing_payload sha xdr \<lparr>version = ENVELOPE_VERSION, network_id = nid, contract = self env,
       endpoint_id = i, secret_epoch = ep_secret_epoch ep, event_id = e, sequence = sq,
       expires_at = expires\<rparr> (payload_hash ev))))))"

definition deliverable :: "outbox_state \<Rightarrow> nat \<Rightarrow> nat \<Rightarrow> (ContractError, bool) outcome" where
  "deliverable s i e =
     and_then (load_endpoint s i) (\<lambda>ep.
     if \<not> active ep then Ok False
     else and_then (ok_or (Event s e) EventNotFound) (\<lambda>ev. Ok (topic ev \<in> set (topics ep))))"

text \<open>The last part of \<open>record_delivery\<close>: keep the newest records, evicting the oldest.\<close>

definition retain_delivery :: "nat \<Rightarrow> nat \<Rightarrow> outbox_state \<Rightarrow> (ContractError, outbox_state) outcome" where
  "retain_delivery i sq s =
     (let count = unwrap_or (DeliveryCount s i) 0 in
      if count \<ge> MAX_DELIVERY_HISTORY then
        (let flr = unwrap_or (DeliveryFloor s i) 1;
             s = s\<lparr>Delivery := (Delivery s)((i, flr) := None)\<rparr>
         in and_then (ok_or (u64_checked (flr + 1)) IdOverflow) (\<lambda>f.
            Ok (s\<lparr>DeliveryFloor := (DeliveryFloor s)(i \<mapsto> f)\<rparr>)))
      else
        (let s = (if count = 0 then s\<lparr>DeliveryFloor := (DeliveryFloor s)(i \<mapsto> sq)\<rparr> else s)
         in and_then (ok_or (u32_checked (count + 1)) IdOverflow) (\<lambda>c.
            Ok (s\<lparr>DeliveryCount := (DeliveryCount s)(i \<mapsto> c)\<rparr>))))"

definition record_delivery ::
  "env \<Rightarrow> address \<Rightarrow> nat \<Rightarrow> nat \<Rightarrow> nat \<Rightarrow> nat \<Rightarrow> DeliveryOutcome \<Rightarrow> outbox_state \<Rightarrow>
   (ContractError, nat \<times> outbox_state) outcome" where
  "record_delivery env op i e sq expires res s =
     and_then (operator_auth env s op) (\<lambda>_.
     and_then (load_endpoint s i) (\<lambda>ep.
     if \<not> active ep then Err EndpointInactive
     else and_then (next_sequence ep) (\<lambda>nxt.
     if sq \<noteq> nxt then Err SequenceRegression
     else
       let now = timestamp env in
       if expires \<le> now then Err ExpiredDelivery
       else and_then (ok_or (Event s e) EventNotFound) (\<lambda>ev.
       if res \<noteq> Skipped \<and> topic ev \<notin> set (topics ep) then Err NotSubscribed
       else and_then (ok_or (u32_checked (unwrap_or (Attempts s (i, e)) 0 + 1)) IdOverflow) (\<lambda>att.
       let s = s\<lparr>Attempts := (Attempts s)((i, e) \<mapsto> att)\<rparr>;
           r = \<lparr>dlv_endpoint = i, dlv_event = e, dlv_sequence = sq, dlv_epoch = ep_secret_epoch ep,
                dlv_expires_at = expires, attempt = att, recorded_at = now, outcome_of = res,
                acked_at = 0\<rparr>;
           s = s\<lparr>Delivery := (Delivery s)((i, sq) \<mapsto> r)\<rparr>
       in and_then (retain_delivery i sq s) (\<lambda>s.
          Ok (att, save_endpoint (ep\<lparr>last_sequence := sq, updated_at := now\<rparr>) s)))))))"

definition acknowledge_delivery ::
  "env \<Rightarrow> address \<Rightarrow> nat \<Rightarrow> nat \<Rightarrow> outbox_state \<Rightarrow> (ContractError, outbox_state) outcome" where
  "acknowledge_delivery env own i sq s =
     and_then (require_auth env own) (\<lambda>_.
     and_then (load_endpoint s i) (\<lambda>ep.
     if owner ep \<noteq> own then Err NotEndpointOwner
     else if sq = 0 \<or> sq > last_sequence ep then Err DeliveryNotFound
     else
       let acked = unwrap_or (EndpointAck s i) 0 in
       if sq \<le> acked then Err ReplayDetected
       else and_then (ok_or (Delivery s (i, sq)) DeliveryNotFound) (\<lambda>r.
       let now = timestamp env in
       Ok (s\<lparr>Delivery := (Delivery s)((i, sq) \<mapsto> r\<lparr>acked_at := now\<rparr>),
             EndpointAck := (EndpointAck s)(i \<mapsto> sq)\<rparr>))))"

section \<open>Settlements\<close>

definition open_settlement ::
  "env \<Rightarrow> address \<Rightarrow> hash32 \<Rightarrow> address \<Rightarrow> hash32 \<Rightarrow> int \<Rightarrow> nat \<Rightarrow> outbox_state \<Rightarrow>
   (ContractError, outbox_state) outcome" where
  "open_settlement env op i src corr expected finality s =
     and_then (operator_auth env s op) (\<lambda>_.
     if finality = 0 \<or> finality > MAX_FINALITY then Err InvalidFinality
     else if expected \<le> 0 then Err InvalidAmount
     else if Intent s i \<noteq> None then Err IntentExists
     else
       let tracked = unwrap_or (TrackedIntents s) 0 in
       if tracked \<ge> MAX_TRACKED_INTENTS then Err TooManyIntents
       else
         let x = \<lparr>intent_id = i, int_source = src, int_correlation = corr, expected_amount = expected,
                  state = Pending, opened_at = timestamp env, required_finality = finality,
                  observed_tx_hash = zero32, observed_ledger = 0, observed_amount = 0, attempts = 0,
                  reconciled_at = 0, resolution_hash = zero32\<rparr>;
             s = save_intent x s
         in and_then (ok_or (u64_checked (tracked + 1)) IdOverflow) (\<lambda>n.
            Ok (s\<lparr>TrackedIntents := Some n\<rparr>)))"

definition observe_settlement ::
  "env \<Rightarrow> address \<Rightarrow> hash32 \<Rightarrow> hash32 \<Rightarrow> nat \<Rightarrow> outbox_state \<Rightarrow> (ContractError, outbox_state) outcome" where
  "observe_settlement env op i tx tx_ledger s =
     and_then (operator_auth env s op) (\<lambda>_.
     and_then (load_intent s i) (\<lambda>x.
     if state x \<noteq> Pending then Err InvalidState
     else if observed_ledger x \<noteq> 0 then
       (if observed_tx_hash x = tx \<and> observed_ledger x = tx_ledger then Ok s else Err AlreadyObserved)
     else if tx_ledger = 0 \<or> tx_ledger > ledger_sequence env then Err NotFinal
     else Ok (save_intent (x\<lparr>observed_tx_hash := tx, observed_ledger := tx_ledger\<rparr>) s)))"

definition reconcile_settlement ::
  "env \<Rightarrow> address \<Rightarrow> hash32 \<Rightarrow> int \<Rightarrow> outbox_state \<Rightarrow>
   (ContractError, SettlementState \<times> outbox_state) outcome" where
  "reconcile_settlement env op i observed s =
     and_then (operator_auth env s op) (\<lambda>_.
     and_then (load_intent s i) (\<lambda>x.
     let now = timestamp env in
     if state x \<noteq> Pending then Ok (state x, s)
     else if observed_ledger x = 0 then Err NotFinal
     else if ledger_sequence env < observed_ledger x then Err NotFinal
     else
       let passed = ledger_sequence env - observed_ledger x in
       if passed < required_finality x then Err NotFinal
       else and_then (ok_or (u32_checked (attempts x + 1)) IdOverflow) (\<lambda>n.
       let x = x\<lparr>attempts := n, observed_amount := observed, reconciled_at := now\<rparr> in
       if observed = expected_amount x then
         (let x = x\<lparr>state := Reconciled\<rparr> in Ok (state x, save_intent x s))
       else
         (let x = x\<lparr>state := Mismatched\<rparr> in
          and_then (raise_alert s) (\<lambda>s. Ok (state x, save_intent x s))))))"

definition expire_settlement ::
  "env \<Rightarrow> address \<Rightarrow> hash32 \<Rightarrow> outbox_state \<Rightarrow> (ContractError, outbox_state) outcome" where
  "expire_settlement env op i s =
     and_then (operator_auth env s op) (\<lambda>_.
     and_then (load_intent s i) (\<lambda>x.
     if state x \<noteq> Pending then Err InvalidState
     else
       let s = save_intent (x\<lparr>state := Expired, reconciled_at := timestamp env\<rparr>) s
       in raise_alert s))"

definition resolve_settlement ::
  "env \<Rightarrow> address \<Rightarrow> hash32 \<Rightarrow> hash32 \<Rightarrow> outbox_state \<Rightarrow> (ContractError, outbox_state) outcome" where
  "resolve_settlement env op i resolution s =
     and_then (operator_auth env s op) (\<lambda>_.
     and_then (require_commitment resolution) (\<lambda>_.
     and_then (load_intent s i) (\<lambda>x.
     if \<not> is_alerting (state x) then Err InvalidState
     else Ok (save_intent (x\<lparr>state := Reconciled, reconciled_at := timestamp env,
            resolution_hash := resolution\<rparr>) s))))"

definition archive_settlement ::
  "env \<Rightarrow> address \<Rightarrow> hash32 \<Rightarrow> outbox_state \<Rightarrow> (ContractError, outbox_state) outcome" where
  "archive_settlement env op i s =
     and_then (operator_auth env s op) (\<lambda>_.
     and_then (load_intent s i) (\<lambda>x.
     if state x \<noteq> Reconciled then Err InvalidState
     else
       let tracked = unwrap_or (TrackedIntents s) 0 in
       Ok (s\<lparr>Intent := (Intent s)(i := None), TrackedIntents := Some (tracked - 1)\<rparr>)))"

definition settlement_status :: "outbox_state \<Rightarrow> hash32 \<Rightarrow> (ContractError, SettlementView) outcome" where
  "settlement_status s i =
     and_then (load_intent s i) (\<lambda>x.
     let settled = (if state x = Reconciled then observed_amount x else 0) in
     Ok \<lparr>view_intent = intent_id x, view_state = state x, view_settled_amount = settled,
         view_observed_amount = observed_amount x, view_reconciled_at = reconciled_at x,
         view_attempts = attempts x\<rparr>)"

definition settled_amount :: "outbox_state \<Rightarrow> hash32 \<Rightarrow> (ContractError, int) outcome" where
  "settled_amount s i =
     and_then (load_intent s i) (\<lambda>x.
     case state x of Reconciled \<Rightarrow> Ok (observed_amount x) | _ \<Rightarrow> Err InvalidState)"

definition get_intent :: "outbox_state \<Rightarrow> hash32 \<Rightarrow> (ContractError, SettlementIntent) outcome" where
  "get_intent s i = load_intent s i"

definition alert_count :: "outbox_state \<Rightarrow> nat" where
  "alert_count s = unwrap_or (AlertedIntents s) 0"

definition tracked_intents :: "outbox_state \<Rightarrow> nat" where
  "tracked_intents s = unwrap_or (TrackedIntents s) 0"

definition get_endpoint :: "outbox_state \<Rightarrow> nat \<Rightarrow> (ContractError, WebhookEndpoint) outcome" where
  "get_endpoint s i = load_endpoint s i"

definition get_delivery :: "outbox_state \<Rightarrow> nat \<Rightarrow> nat \<Rightarrow> (ContractError, DeliveryRecord) outcome" where
  "get_delivery s i sq = ok_or (Delivery s (i, sq)) DeliveryNotFound"

definition get_attempts :: "outbox_state \<Rightarrow> nat \<Rightarrow> nat \<Rightarrow> nat" where
  "get_attempts s i e = unwrap_or (Attempts s (i, e)) 0"

definition get_acked_sequence :: "outbox_state \<Rightarrow> nat \<Rightarrow> nat" where
  "get_acked_sequence s i = unwrap_or (EndpointAck s i) 0"

definition delivery_history_count :: "outbox_state \<Rightarrow> nat \<Rightarrow> nat" where
  "delivery_history_count s i = unwrap_or (DeliveryCount s i) 0"

definition delivery_history_floor :: "outbox_state \<Rightarrow> nat \<Rightarrow> nat" where
  "delivery_history_floor s i = unwrap_or (DeliveryFloor s i) 0"

section \<open>Calls\<close>

datatype outbox_call =
    Initialize address
  | Enqueue address address string nat hash32 hash32 hash32
  | MarkPublished address nat | Acknowledge address nat | Prune address nat nat
  | RegisterEndpoint address address hash32 hash32 "string list" | RotateSecret address nat hash32
  | SetEndpointActive address nat bool
  | RecordDelivery address nat nat nat nat DeliveryOutcome | AcknowledgeDelivery address nat nat
  | OpenSettlement address hash32 address hash32 int nat
  | ObserveSettlement address hash32 hash32 nat | ReconcileSettlement address hash32 int
  | ExpireSettlement address hash32 | ResolveSettlement address hash32 hash32
  | ArchiveSettlement address hash32

fun outbox_exec ::
  "env \<Rightarrow> outbox_call \<Rightarrow> outbox_state \<Rightarrow> (ContractError, outbox_state) outcome" where
  "outbox_exec env (Initialize a) s = initialize env a s"
| "outbox_exec env (Enqueue a src t v c k p) s = state_of (enqueue env a src t v c k p s)"
| "outbox_exec env (MarkPublished a i) s = mark_published env a i s"
| "outbox_exec env (Acknowledge c i) s = state_of (acknowledge env c i s)"
| "outbox_exec env (Prune a h l) s = state_of (prune env a h l s)"
| "outbox_exec env (RegisterEndpoint a ow u k ts) s = state_of (register_endpoint env a ow u k ts s)"
| "outbox_exec env (RotateSecret a i k) s = state_of (rotate_secret env a i k s)"
| "outbox_exec env (SetEndpointActive a i b) s = set_endpoint_active env a i b s"
| "outbox_exec env (RecordDelivery a i e q x r) s = state_of (record_delivery env a i e q x r s)"
| "outbox_exec env (AcknowledgeDelivery ow i q) s = acknowledge_delivery env ow i q s"
| "outbox_exec env (OpenSettlement a i src c n f) s = open_settlement env a i src c n f s"
| "outbox_exec env (ObserveSettlement a i tx l) s = observe_settlement env a i tx l s"
| "outbox_exec env (ReconcileSettlement a i n) s = state_of (reconcile_settlement env a i n s)"
| "outbox_exec env (ExpireSettlement a i) s = expire_settlement env a i s"
| "outbox_exec env (ResolveSettlement a i h) s = resolve_settlement env a i h s"
| "outbox_exec env (ArchiveSettlement a i) s = archive_settlement env a i s"

text \<open>One successful call; a ledger's close time is a Unix time, which is not zero.\<close>

inductive outbox_step :: "outbox_state \<Rightarrow> outbox_state \<Rightarrow> bool" where
  call: "outbox_exec env c s = Ok s' \<Longrightarrow> 0 < timestamp env \<Longrightarrow> outbox_step s s'"

inductive_cases outbox_stepE: "outbox_step s s'"

end
