(* ===== verification/Outbox_Events.thy ===== *)
theory Outbox_Events
  imports Scholarship_Outbox
begin

text \<open>
  The event part of the scholarship outbox: the backlog counter, deduplication and pruning. The first
  section inverts the entry points of the whole contract; the other two parts use it as well.
\<close>

section \<open>What a successful call did\<close>

lemma outbox_admin_Ok [outcome_iff]: "require_admin s a = Ok u \<longleftrightarrow> Admin s = Some a"
  by (simp add: require_admin_def split: option.splits)

lemma operator_auth_Ok [outcome_iff]: "operator_auth env s a = Ok u \<longleftrightarrow> auth env a \<and> Admin s = Some a"
  by (simp add: operator_auth_def outcome_iff)

lemma outbox_load_Ok [outcome_iff]:
  "load_endpoint s i = Ok ep \<longleftrightarrow> Endpoint s i = Some ep"
  "load_intent s k = Ok x \<longleftrightarrow> Intent s k = Some x"
  "require_commitment c = Ok u \<longleftrightarrow> c \<noteq> zero32"
  "next_sequence ep = Ok q \<longleftrightarrow> q = last_sequence ep + 1 \<and> fits_u64 q"
  by (auto simp: load_endpoint_def load_intent_def require_commitment_def next_sequence_def outcome_iff)

lemma raise_alert_Ok [outcome_iff]:
  "raise_alert s = Ok s' \<longleftrightarrow> fits_u64 (alert_count s + 1) \<and> s' = s\<lparr>AlertedIntents := Some (alert_count s + 1)\<rparr>"
  by (auto simp: raise_alert_def alert_count_def outcome_iff Let_def)

lemma outbox_initialize_Ok [outcome_iff]:
  "initialize env a s = Ok s' \<longleftrightarrow> Admin s = None \<and> auth env a \<and>
     s' = s\<lparr>Admin := Some a, NextEventId := Some 1, PendingCount := Some 0, PruneFloor := Some 1,
       NextEndpointId := Some 1, EnrolledEndpoints := Some 0\<rparr>"
  by (auto simp: initialize_def outcome_iff)

lemma enqueue_Ok:
  assumes "enqueue env a src tp v c k p s = Ok (i, s')"
  obtains (again) "Admin s = Some a" "Dedup s k = Some i" "s' = s"
    | (fresh) ev where "Admin s = Some a" "Dedup s k = None" "pending_count s < MAX_PENDING_EVENTS"
      "NextEventId s = Some i" "fits_u64 (i + 1)" "ev_id ev = i" "topic ev = tp" "payload_hash ev = p"
      "published_at ev = 0"
      "s' = s\<lparr>Event := (Event s)(i \<mapsto> ev), Dedup := (Dedup s)(k \<mapsto> i), NextEventId := Some (i + 1),
         PendingCount := Some (pending_count s + 1)\<rparr>"
proof (cases "Dedup s k")
  case None
  show thesis
    by (rule fresh [of "\<lparr>ev_id = i, topic = tp, schema_version = v, correlation_id = c,
          payload_hash = p, source = src, created_at = timestamp env, published_at = 0\<rparr>"])
      (use assms None in \<open>auto simp: enqueue_def pending_count_def outcome_iff Let_def\<close>)
next
  case (Some j)
  with assms show thesis by (auto simp: enqueue_def outcome_iff intro: again)
qed

lemma publish_Ok:
  assumes "mark_published env a i s = Ok s'"
  obtains ev where "Admin s = Some a" "auth env a" "Event s i = Some ev" "published_at ev = 0"
    "s' = s\<lparr>Event := (Event s)(i \<mapsto> ev\<lparr>published_at := timestamp env\<rparr>),
       PendingCount := Some (pending_count s - 1)\<rparr>"
  using assms by (auto simp: mark_published_def pending_count_def outcome_iff Let_def)

lemma acknowledge_Ok:
  assumes "acknowledge env c i s = Ok (j, s')"
  shows "j = i \<and> auth env c \<and> Event s i \<noteq> None \<and> get_cursor s c \<le> i \<and>
    (s' = s \<or> s' = s\<lparr>Cursor := (Cursor s)(c \<mapsto> i)\<rparr>)"
  using assms
  by (auto simp: acknowledge_def get_cursor_def [symmetric] Let_def outcome_iff split: if_splits)

text \<open>Calls of one part leave the storage of the others alone.\<close>

definition same_events :: "outbox_state \<Rightarrow> outbox_state \<Rightarrow> bool" where
  "same_events s t \<longleftrightarrow> Admin t = Admin s \<and> Event t = Event s \<and> Dedup t = Dedup s \<and> Cursor t = Cursor s \<and>
     NextEventId t = NextEventId s \<and> PendingCount t = PendingCount s \<and> PruneFloor t = PruneFloor s"

lemma same_events_refl [simp]: "same_events s s"
  by (simp add: same_events_def)

lemma retain_same_events: "retain_delivery i q s = Ok s' \<Longrightarrow> same_events s s'"
  by (auto simp: retain_delivery_def same_events_def outcome_iff Let_def split: if_splits)

lemma webhook_same_events:
  "register_endpoint env a ow u k ts s = Ok (n, s') \<Longrightarrow> same_events s s'"
  "rotate_secret env a i k s = Ok (n, s') \<Longrightarrow> same_events s s'"
  "set_endpoint_active env a i b s = Ok s' \<Longrightarrow> same_events s s'"
  "acknowledge_delivery env ow i q s = Ok s' \<Longrightarrow> same_events s s'"
  by (auto simp: register_endpoint_def rotate_secret_def set_endpoint_active_def acknowledge_delivery_def
      save_endpoint_def same_events_def outcome_iff Let_def)

lemma record_same_events: "record_delivery env a i e q x r s = Ok (n, s') \<Longrightarrow> same_events s s'"
  by (auto simp: record_delivery_def save_endpoint_def outcome_iff Let_def same_events_def
      dest!: retain_same_events)

lemma settlement_same_events:
  "open_settlement env a k src c n f s = Ok s' \<Longrightarrow> same_events s s'"
  "observe_settlement env a k tx l s = Ok s' \<Longrightarrow> same_events s s'"
  "reconcile_settlement env a k n s = Ok (st, s') \<Longrightarrow> same_events s s'"
  "expire_settlement env a k s = Ok s' \<Longrightarrow> same_events s s'"
  "resolve_settlement env a k h s = Ok s' \<Longrightarrow> same_events s s'"
  "archive_settlement env a k s = Ok s' \<Longrightarrow> same_events s s'"
  by (auto simp: open_settlement_def observe_settlement_def reconcile_settlement_def
      expire_settlement_def resolve_settlement_def archive_settlement_def save_intent_def
      same_events_def outcome_iff Let_def split: if_splits)

lemmas other_same_events = webhook_same_events record_same_events settlement_same_events

section \<open>Pruning\<close>

text \<open>Reference: the identifiers one call sweeps, a bounded longest prefix of removable entries.\<close>

definition swept :: "nat \<Rightarrow> nat \<Rightarrow> nat \<Rightarrow> nat \<Rightarrow> (nat \<rightharpoonup> OutboxEvent) \<Rightarrow> nat list" where
  "swept horizon nxt limit flr E = take limit (takeWhile (\<lambda>i. removable horizon (E i)) [flr..<nxt])"

lemma takeWhile_from_cong:
  "(\<And>i. flr \<le> i \<Longrightarrow> P i = Q i) \<Longrightarrow> takeWhile P [flr..<nxt] = takeWhile Q [flr..<nxt]"
  by (rule takeWhile_cong) auto

lemma swept_step:
  assumes "flr < nxt" "removable h (E flr)"
  shows "swept h nxt (Suc l) flr E = flr # swept h nxt l (flr + 1) (E(flr := None))"
proof -
  have "takeWhile (\<lambda>i. removable h ((E(flr := None)) i)) [flr + 1..<nxt] =
      takeWhile (\<lambda>i. removable h (E i)) [flr + 1..<nxt]"
    by (rule takeWhile_from_cong) simp
  with assms show ?thesis
    by (simp add: swept_def upt_conv_Cons)
qed

lemma prune_loop_swept:
  assumes "fits_u64 nxt" "fits_u32 limit" "flr \<le> nxt" "pruned \<le> limit"
  shows "prune_loop h nxt limit flr pruned E =
    Ok (flr + length (swept h nxt (limit - pruned) flr E),
        pruned + length (swept h nxt (limit - pruned) flr E),
        E |` (- set (swept h nxt (limit - pruned) flr E)))"
  using assms
proof (induction h nxt limit flr pruned E rule: prune_loop.induct)
  case (1 h nxt limit flr pruned E)
  show ?case
  proof (cases "flr < nxt \<and> pruned < limit \<and> removable h (E flr)")
    case True
    then obtain l where l: "limit - pruned = Suc l" "limit - (pruned + 1) = l"
      by (metis Suc_diff_Suc Suc_eq_plus1)
    have fits: "u64_checked (flr + 1) = Some (flr + 1)" "u32_checked (pruned + 1) = Some (pruned + 1)"
      using True 1(2,3) by (simp_all add: range_defs)
    define F where "F = E(flr := None)"
    define S where "S = swept h nxt l (flr + 1) F"
    have "prune_loop h nxt limit (flr + 1) (pruned + 1) F =
        Ok (flr + 1 + length S, pruned + 1 + length S, F |` (- set S))"
      unfolding F_def S_def l(2) [symmetric] by (rule 1(1)) (use True fits 1(2-5) in \<open>auto simp: outcome_iff\<close>)
    moreover have "F |` (- set S) = E |` (- insert flr (set S))"
      by (auto simp: restrict_map_def F_def)
    moreover have "swept h nxt (Suc l) flr E = flr # S"
      unfolding S_def F_def using True by (intro swept_step) simp_all
    ultimately show ?thesis
      using True fits l(1) by (subst prune_loop.simps)
        (simp add: u64_checked_def u32_checked_def flip: F_def)
  next
    case False
    then have "swept h nxt (limit - pruned) flr E = []"
      using 1(4,5) by (cases "flr < nxt") (auto simp: swept_def upt_conv_Cons)
    with False show ?thesis by (subst prune_loop.simps) auto
  qed
qed

lemma swept_prefix:
  assumes "flr \<le> nxt"
  obtains m where "flr + m \<le> nxt" "swept h nxt l flr E = [flr..<flr + m]"
proof -
  obtain m where m: "swept h nxt l flr E = take m [flr..<nxt]"
    unfolding swept_def by (metis takeWhile_eq_take take_take)
  show thesis
  proof (cases "flr + m \<le> nxt")
    case True
    with m show thesis by (intro that [of m]) (simp_all add: take_upt)
  next
    case False
    with m assms show thesis by (intro that [of "nxt - flr"]) simp_all
  qed
qed

lemma swept_removable: "i \<in> set (swept h nxt l flr E) \<Longrightarrow> removable h (E i)"
  unfolding swept_def by (meson in_set_takeD set_takeWhileD)

section \<open>The backlog\<close>

abbreviation next_event :: "outbox_state \<Rightarrow> nat" where
  "next_event s \<equiv> unwrap_or (NextEventId s) 1"

abbreviation prune_floor :: "outbox_state \<Rightarrow> nat" where
  "prune_floor s \<equiv> unwrap_or (PruneFloor s) 1"

text \<open>The stored events that still await publication.\<close>

definition backlog :: "(nat \<rightharpoonup> OutboxEvent) \<Rightarrow> nat set" where
  "backlog E = {i. \<exists>e. E i = Some e \<and> published_at e = 0}"

definition events_wf :: "outbox_state \<Rightarrow> bool" where
  "events_wf s \<longleftrightarrow>
     (Admin s = None \<longrightarrow> Event s = Map.empty \<and> Dedup s = Map.empty \<and> Cursor s = Map.empty \<and>
        next_event s = 1 \<and> prune_floor s = 1) \<and>
     1 \<le> prune_floor s \<and> prune_floor s \<le> next_event s \<and> fits_u64 (next_event s) \<and>
     (\<forall>i. Event s i \<noteq> None \<longleftrightarrow> prune_floor s \<le> i \<and> i < next_event s) \<and>
     (\<forall>i e. Event s i = Some e \<longrightarrow> ev_id e = i) \<and>
     pending_count s = card (backlog (Event s)) \<and> pending_count s \<le> MAX_PENDING_EVENTS \<and>
     (\<forall>k i. Dedup s k = Some i \<longrightarrow> 1 \<le> i \<and> i < next_event s) \<and>
     inj_on (Dedup s) (dom (Dedup s)) \<and>
     (\<forall>c. get_cursor s c < next_event s)"

lemma events_wfD:
  assumes "events_wf s"
  shows "Admin s = None \<Longrightarrow> Event s = Map.empty \<and> Dedup s = Map.empty \<and> Cursor s = Map.empty \<and>
      next_event s = 1 \<and> prune_floor s = 1"
    and "1 \<le> prune_floor s" and "prune_floor s \<le> next_event s" and "fits_u64 (next_event s)"
    and "Event s i \<noteq> None \<longleftrightarrow> prune_floor s \<le> i \<and> i < next_event s"
    and "Event s i = Some e \<Longrightarrow> ev_id e = i"
    and "pending_count s = card (backlog (Event s))" and "pending_count s \<le> MAX_PENDING_EVENTS"
    and "Dedup s k = Some i \<Longrightarrow> 1 \<le> i \<and> i < next_event s"
    and "inj_on (Dedup s) (dom (Dedup s))" and "get_cursor s c < next_event s"
  using assms unfolding events_wf_def by blast+

lemma events_init_wf: "events_wf outbox_init"
  by (simp add: events_wf_def outbox_init_def backlog_def pending_count_def get_cursor_def range_defs)

lemma backlog_finite: "events_wf s \<Longrightarrow> finite (backlog (Event s))"
  by (rule finite_subset [of _ "{..<next_event s}"])
    (use events_wfD(5) in \<open>fastforce simp: backlog_def\<close>)+

lemma backlog_update:
  "backlog (E(i \<mapsto> e)) = (if published_at e = 0 then insert i (backlog E) else backlog E - {i})"
  by (auto simp: backlog_def)

lemma backlog_restrict: "backlog (E |` (- A)) = backlog E - A"
  by (auto simp: backlog_def restrict_map_def)

lemma same_events_wf: "same_events s t \<Longrightarrow> events_wf s \<Longrightarrow> events_wf t"
  by (simp add: same_events_def events_wf_def pending_count_def get_cursor_def)

lemma initialize_events_wf: "initialize env a s = Ok t \<Longrightarrow> events_wf s \<Longrightarrow> events_wf t"
  using events_wfD(1) [of s]
  by (simp add: outcome_iff)
    (simp add: events_wf_def backlog_def pending_count_def get_cursor_def range_defs)

lemma enqueue_wf:
  assumes "enqueue env a src tp v c k p s = Ok (i, t)" "events_wf s"
  shows "events_wf t"
  using assms(1)
proof (cases rule: enqueue_Ok)
  case again
  with assms(2) show ?thesis by simp
next
  case (fresh ev)
  note old = events_wfD [OF assms(2)]
  have "i \<notin> backlog (Event s)" using old(5) [of i] fresh(4) by (auto simp: backlog_def)
  then have "pending_count t = card (backlog (Event t))"
    using fresh old(7) backlog_finite [OF assms(2)]
    by (simp add: backlog_update) (simp add: pending_count_def)
  moreover have "Event t j \<noteq> None \<longleftrightarrow> prune_floor t \<le> j \<and> j < next_event t" for j
    using old(3) old(5) [of j] fresh(4,10) by auto
  moreover have "inj_on (Dedup t) (dom (Dedup t))"
    using old(9,10) fresh(2,4,10) by (fastforce simp: inj_on_def dom_def)
  moreover have "1 \<le> j \<and> j < next_event t" if "Dedup t k' = Some j" for k' j
    using that old(2,3) old(9) [of k' j] fresh(4,10) by (auto split: if_splits)
  moreover have "get_cursor t x < next_event t" for x
    using old(11) [of x] fresh(4,10) by (simp add: get_cursor_def)
  ultimately show ?thesis
    using old(2,3,6) fresh unfolding events_wf_def
    by (auto simp: pending_count_def split: if_splits)
qed

lemma publish_wf:
  assumes "mark_published env a i s = Ok t" "events_wf s" "0 < timestamp env"
  shows "events_wf t"
  using assms(1)
proof (rule publish_Ok)
  fix ev
  assume *: "Admin s = Some a" "Event s i = Some ev" "published_at ev = 0"
    "t = s\<lparr>Event := (Event s)(i \<mapsto> ev\<lparr>published_at := timestamp env\<rparr>),
       PendingCount := Some (pending_count s - 1)\<rparr>"
  note old = events_wfD [OF assms(2)]
  have "i \<in> backlog (Event s)" using * by (auto simp: backlog_def)
  then have "pending_count t = card (backlog (Event t))"
    using * old(7) backlog_finite [OF assms(2)] assms(3)
    by (simp add: backlog_update) (simp add: pending_count_def)
  moreover have "Event t j \<noteq> None \<longleftrightarrow> prune_floor t \<le> j \<and> j < next_event t" for j
    using old(5) [of j] * by auto
  moreover have "get_cursor t x < next_event t" for x
    using old(11) [of x] * by (simp add: get_cursor_def)
  ultimately show ?thesis
    using old(2-4,6,8-10) * unfolding events_wf_def
    by (auto simp: pending_count_def split: if_splits)
qed

lemma prune_swept:
  assumes "events_wf s" "Admin s = Some a" "horizon \<le> timestamp env" "0 < limit" "limit \<le> MAX_PRUNE_PER_CALL"
  shows "prune env a horizon limit s =
    (let gone = swept horizon (next_event s) limit (prune_floor s) (Event s) in
     Ok (length gone, s\<lparr>Event := Event s |` (- set gone), PruneFloor := Some (prune_floor s + length gone)\<rparr>))"
proof -
  have "require_admin s a = Ok ()" using assms(2) by (simp add: outcome_iff)
  moreover have "fits_u32 limit" using assms(5) by (simp add: range_defs MAX_PRUNE_PER_CALL_def)
  ultimately show ?thesis
    using assms(3-5) prune_loop_swept [OF events_wfD(4) [OF assms(1)] _ events_wfD(3) [OF assms(1)], of limit 0]
    by (simp add: prune_def Let_def)
qed

lemma prune_Ok:
  assumes "prune env a h l s = Ok (n, t)" "events_wf s"
  obtains gone where "Admin s = Some a" "gone = swept h (next_event s) l (prune_floor s) (Event s)"
    "h \<le> timestamp env" "n = length gone"
    "t = s\<lparr>Event := Event s |` (- set gone), PruneFloor := Some (prune_floor s + length gone)\<rparr>"
proof -
  have "Admin s = Some a" "h \<le> timestamp env" "0 < l" "l \<le> MAX_PRUNE_PER_CALL"
    using assms(1) by (auto simp: prune_def outcome_iff)
  moreover define gone where "gone = swept h (next_event s) l (prune_floor s) (Event s)"
  ultimately show thesis
    using assms prune_swept [of s a h env l] by (intro that [OF _ gone_def]) (auto simp: Let_def)
qed

lemma prune_wf:
  assumes "prune env a h l s = Ok (n, t)" "events_wf s"
  shows "events_wf t"
  using assms
proof (rule prune_Ok)
  fix gone
  assume *: "Admin s = Some a" "gone = swept h (next_event s) l (prune_floor s) (Event s)"
    "t = s\<lparr>Event := Event s |` (- set gone), PruneFloor := Some (prune_floor s + length gone)\<rparr>"
  note old = events_wfD [OF assms(2)]
  obtain m where m: "prune_floor s + m \<le> next_event s" "gone = [prune_floor s..<prune_floor s + m]"
    using swept_prefix [OF old(3)] *(2) by blast
  have "i \<notin> backlog (Event s)" if "i \<in> set gone" for i
    using swept_removable [OF that [unfolded *(2)]] by (auto simp: backlog_def removable_def split: if_splits)
  then have "backlog (Event t) = backlog (Event s)"
    unfolding *(3) by (auto simp: backlog_restrict)
  moreover have "Event t j \<noteq> None \<longleftrightarrow> prune_floor t \<le> j \<and> j < next_event t" for j
    using old(5) [of j] m unfolding *(3) by (auto simp: restrict_map_def)
  moreover have "get_cursor t x < next_event t" "pending_count t = pending_count s" for x
    using old(11) [of x] * by (simp_all add: get_cursor_def pending_count_def)
  ultimately show ?thesis
    using old(2-4,6-10) *(1,3) m unfolding events_wf_def
    by (auto simp: restrict_map_def split: if_splits)
qed

lemma acknowledge_wf:
  assumes "acknowledge env c i s = Ok (j, t)" "events_wf s"
  shows "events_wf t"
proof -
  have stored: "Event s i \<noteq> None" using acknowledge_Ok [OF assms(1)] by blast
  then have "i < next_event s" using events_wfD(5) [OF assms(2), of i] by blast
  moreover have "Admin s \<noteq> None" using stored events_wfD(1) [OF assms(2)] by force
  ultimately show ?thesis
    using acknowledge_Ok [OF assms(1)] assms(2)
    by (auto simp: events_wf_def get_cursor_def pending_count_def split: if_splits)
qed

lemma outbox_exec_events_wf:
  assumes "outbox_exec env c s = Ok t" "events_wf s" "0 < timestamp env"
  shows "events_wf t"
  using assms
  by (cases c)
    (auto simp: state_of_Ok intro: initialize_events_wf enqueue_wf publish_wf prune_wf acknowledge_wf
      same_events_wf dest!: other_same_events)

section \<open>What may still change\<close>

text \<open>
  A key keeps its identifier; a stored event keeps its content, and may be published once and then
  swept; a swept or unissued identifier below the counter stays empty; cursors and counters only grow.
\<close>

definition events_evolve :: "outbox_state \<Rightarrow> outbox_state \<Rightarrow> bool" where
  "events_evolve s t \<longleftrightarrow>
     (\<forall>k i. Dedup s k = Some i \<longrightarrow> Dedup t k = Some i) \<and>
     (\<forall>i e. Event s i = Some e \<longrightarrow> Event t i = None \<or> Event t i = Some e \<or>
        published_at e = 0 \<and> (\<exists>ts. Event t i = Some (e\<lparr>published_at := ts\<rparr>))) \<and>
     (\<forall>i. i < next_event s \<longrightarrow> Event s i = None \<longrightarrow> Event t i = None) \<and>
     (\<forall>c. get_cursor s c \<le> get_cursor t c) \<and> next_event s \<le> next_event t"

lemma events_evolveD:
  assumes "events_evolve s t"
  shows "Dedup s k = Some i \<Longrightarrow> Dedup t k = Some i"
    and "Event s i = Some e \<Longrightarrow> Event t i = None \<or> Event t i = Some e \<or>
        published_at e = 0 \<and> (\<exists>ts. Event t i = Some (e\<lparr>published_at := ts\<rparr>))"
    and "i < next_event s \<Longrightarrow> Event s i = None \<Longrightarrow> Event t i = None"
    and "get_cursor s c \<le> get_cursor t c" and "next_event s \<le> next_event t"
  using assms unfolding events_evolve_def by blast+

lemma events_evolve_refl: "events_evolve s s"
  by (simp add: events_evolve_def)

lemma events_evolve_trans:
  assumes st: "events_evolve s t" and tu: "events_evolve t u" and "events_wf s"
  shows "events_evolve s u"
proof -
  have issued: "i < next_event t" if "Event s i = Some e" for i e
    using events_wfD(5) [OF assms(3), of i] events_evolveD(5) [OF st] that by simp
  have "Event u i = None \<or> Event u i = Some e \<or> published_at e = 0 \<and> (\<exists>ts. Event u i = Some (e\<lparr>published_at := ts\<rparr>))"
    if "Event s i = Some e" for i e
    using events_evolveD(2) [OF st that] events_evolveD(2) [OF tu, of i]
      events_evolveD(3) [OF tu issued [OF that]] by fastforce
  moreover have "Event u i = None" if "i < next_event s" "Event s i = None" for i
    using events_evolveD(3) [OF st that] events_evolveD(3) [OF tu, of i] events_evolveD(5) [OF st] that by simp
  moreover have "get_cursor s c \<le> get_cursor u c" for c
    using events_evolveD(4) [OF st, of c] events_evolveD(4) [OF tu, of c] by simp
  moreover have "Dedup u k = Some i" if "Dedup s k = Some i" for k i
    using events_evolveD(1) [OF tu] events_evolveD(1) [OF st] that by blast
  ultimately show ?thesis
    using events_evolveD(5) [OF st] events_evolveD(5) [OF tu] by (simp add: events_evolve_def)
qed

lemma same_events_evolve: "same_events s t \<Longrightarrow> events_evolve s t"
  by (simp add: same_events_def events_evolve_def get_cursor_def)

lemma enqueue_evolve:
  assumes "enqueue env a src tp v c k p s = Ok (i, t)" "events_wf s"
  shows "events_evolve s t"
  using assms(1)
proof (cases rule: enqueue_Ok)
  case (fresh ev)
  then have "Event s i = None" using events_wfD(5) [OF assms(2), of i] by simp
  with fresh show ?thesis by (auto simp: events_evolve_def get_cursor_def)
qed (simp add: events_evolve_refl)

lemma publish_evolve:
  "mark_published env a i s = Ok t \<Longrightarrow> events_evolve s t"
  by (erule publish_Ok) (auto simp: events_evolve_def get_cursor_def)

lemma prune_evolve: "prune env a h l s = Ok (n, t) \<Longrightarrow> events_wf s \<Longrightarrow> events_evolve s t"
  by (erule prune_Ok) (auto simp: events_evolve_def get_cursor_def restrict_map_def)

lemma acknowledge_evolve: "acknowledge env c i s = Ok (j, t) \<Longrightarrow> events_evolve s t"
  by (drule acknowledge_Ok) (auto simp: events_evolve_def get_cursor_def)

lemma initialize_evolve: "initialize env a s = Ok t \<Longrightarrow> events_wf s \<Longrightarrow> events_evolve s t"
  using events_wfD(1) [of s] by (auto simp: outcome_iff events_evolve_def get_cursor_def)

lemma outbox_exec_events_evolve:
  "outbox_exec env c s = Ok t \<Longrightarrow> events_wf s \<Longrightarrow> events_evolve s t"
  by (cases c)
    (auto simp: state_of_Ok intro: initialize_evolve enqueue_evolve publish_evolve prune_evolve
      acknowledge_evolve same_events_evolve dest!: other_same_events)

interpretation outbox_events: evolving outbox_step events_wf events_evolve
  by unfold_locales
    (auto intro: events_evolve_refl events_evolve_trans outbox_exec_events_evolve outbox_exec_events_wf
      elim!: outbox_stepE)

lemmas outbox_events_wf = outbox_events.run [OF _ events_init_wf]

section \<open>Properties\<close>

text \<open>
  No event is lost. In every reachable state the pending counter is the number of stored events
  that await publication, at most the bound; the stored events are exactly those between the prune
  floor and the next identifier; and a call leaves an unpublished event as it is, unless it is the
  call that publishes it.
\<close>

theorem outbox_backlog_exact:
  assumes "outbox_step\<^sup>*\<^sup>* outbox_init s" "outbox_exec env c s = Ok t"
    and "Event s i = Some e" "published_at e = 0"
  shows "pending_count s = card {j. \<exists>x. Event s j = Some x \<and> published_at x = 0} \<and>
    pending_count s \<le> MAX_PENDING_EVENTS \<and>
    (\<forall>j. Event s j \<noteq> None \<longleftrightarrow> unwrap_or (PruneFloor s) 1 \<le> j \<and> j < unwrap_or (NextEventId s) 1) \<and>
    (Event t i = Some e \<or>
     (\<exists>a. c = MarkPublished a i \<and> Event t i = Some (e\<lparr>published_at := timestamp env\<rparr>)))"
proof -
  have wf: "events_wf s" by (rule outbox_events_wf [OF assms(1)])
  note old = events_wfD [OF wf]
  have "Event t i = Some e \<or>
     (\<exists>a. c = MarkPublished a i \<and> Event t i = Some (e\<lparr>published_at := timestamp env\<rparr>))"
  proof (cases c)
    case (Prune a h l)
    with assms(2) obtain n where "prune env a h l s = Ok (n, t)" by (auto simp: outcome_iff)
    then show ?thesis
    proof (rule prune_Ok [OF _ wf])
      fix gone
      assume *: "gone = swept h (next_event s) l (prune_floor s) (Event s)"
        "t = s\<lparr>Event := Event s |` (- set gone), PruneFloor := Some (prune_floor s + length gone)\<rparr>"
      have "i \<notin> set gone"
        using swept_removable [of i h "next_event s" l "prune_floor s" "Event s"] assms(3,4) *(1)
        by (auto simp: removable_def)
      with *(2) assms(3) show ?thesis by (simp add: restrict_map_def)
    qed
  next
    case (MarkPublished a j)
    with assms(2) have "mark_published env a j s = Ok t" by simp
    then show ?thesis by (rule publish_Ok) (use MarkPublished assms(3) in auto)
  next
    case (Enqueue a src tp v cr k p)
    with assms(2) obtain j where "enqueue env a src tp v cr k p s = Ok (j, t)" by (auto simp: outcome_iff)
    then show ?thesis
      using assms(3) old(5) [of j] by (cases rule: enqueue_Ok) auto
  qed (use assms(2,3) in \<open>auto simp: outcome_iff same_events_def dest!: other_same_events acknowledge_Ok\<close>)
  then show ?thesis
    using old(5,7,8) unfolding backlog_def by blast
qed

text \<open>
  One state change, one event. Once an event is accepted under a key, the key resolves to its
  identifier for ever: a retry with the key, whatever else it carries, returns that identifier and
  changes nothing, even after the event was swept, and no other key ever gets the identifier.
\<close>

theorem enqueue_once:
  assumes "outbox_step\<^sup>*\<^sup>* outbox_init s" "0 < timestamp env"
    and enq: "enqueue env a src tp v c k p s = Ok (i, s')"
    and later: "outbox_step\<^sup>*\<^sup>* s' t"
  shows "get_by_dedup t k = Ok i \<and>
    (case enqueue env1 a1 src1 tp1 v1 c1 k p1 t of Ok (j, t') \<Rightarrow> j = i \<and> t' = t | _ \<Rightarrow> True) \<and>
    (k2 \<noteq> k \<longrightarrow> (case enqueue env1 a1 src1 tp1 v1 c1 k2 p1 t of Ok (j, t') \<Rightarrow> j \<noteq> i | _ \<Rightarrow> True))"
proof -
  have wf: "events_wf s'"
    using enqueue_wf [OF enq] outbox_events_wf [OF assms(1)] by blast
  have wf_t: "events_wf t" using outbox_events.run [OF later wf] .
  have "Dedup s' k = Some i" using enq by (cases rule: enqueue_Ok) auto
  then have k: "Dedup t k = Some i"
    using events_evolveD(1) [OF outbox_events.run_evolves [OF later wf]] by blast
  have "j = i \<and> t' = t" if "enqueue env1 a1 src1 tp1 v1 c1 k p1 t = Ok (j, t')" for j t'
    using that k by (cases rule: enqueue_Ok) auto
  moreover have "j \<noteq> i" if "k2 \<noteq> k" "enqueue env1 a1 src1 tp1 v1 c1 k2 p1 t = Ok (j, t')" for j t'
  proof -
    have "events_wf t'" using enqueue_wf [OF that(2) wf_t] .
    moreover have "Dedup t' k2 = Some j" "Dedup t' k = Some i"
      using that(2,1) k by (cases rule: enqueue_Ok; simp)+
    ultimately show ?thesis
      using that(1) events_wfD(10) [of t'] by (auto simp: inj_on_def dom_def)
  qed
  ultimately show ?thesis
    using k by (auto simp: get_by_dedup_def split: outcome.splits)
qed

text \<open>
  C14. Pruning is a bounded prefix sweep. For the administrator, who has authorised the
  call, a horizon that is not in the future and a limit in range, \<open>prune\<close> succeeds, removes exactly the longest run of removable events
  from the floor, cut at the limit, raises the floor past them and returns their number.
\<close>

theorem prune_is_prefix_sweep:
  assumes "outbox_step\<^sup>*\<^sup>* outbox_init s" "Admin s = Some a" "auth env a" "horizon \<le> timestamp env"
    and "0 < limit" "limit \<le> MAX_PRUNE_PER_CALL"
  shows "prune env a horizon limit s =
    (let flr = unwrap_or (PruneFloor s) 1;
         gone = take limit (takeWhile (\<lambda>i. removable horizon (Event s i)) [flr..<unwrap_or (NextEventId s) 1])
     in Ok (length gone, s\<lparr>Event := Event s |` (- set gone), PruneFloor := Some (flr + length gone)\<rparr>))"
  using prune_swept [OF outbox_events_wf [OF assms(1)] assms(2,4-6)]
  by (simp add: swept_def Let_def)

text \<open>
  The contract checks the administrator's address in \<open>prune\<close> but not the authorisation: a call that
  nobody authorised succeeds as well.
\<close>

lemma prune_ignores_auth: "prune (env\<lparr>auth := (\<lambda>_. False)\<rparr>) a h l s = prune env a h l s"
  by (simp add: prune_def)

section \<open>An example run\<close>

definition demo_env :: "nat \<Rightarrow> env" where
  "demo_env t = \<lparr>timestamp = t, ledger_sequence = t, self = 99, auth = (\<lambda>a. a \<noteq> 99)\<rparr>"

definition demo_event :: "nat \<Rightarrow> OutboxEvent" where
  "demo_event i = \<lparr>ev_id = i, topic = ''award'', schema_version = 1, correlation_id = [], payload_hash = [9],
     source = 3, created_at = 10, published_at = 0\<rparr>"

definition demo_fresh :: outbox_state where
  "demo_fresh = outbox_init\<lparr>Admin := Some 1, NextEventId := Some 1, PendingCount := Some 0,
     PruneFloor := Some 1, NextEndpointId := Some 1, EnrolledEndpoints := Some 0\<rparr>"

definition demo_first :: outbox_state where
  "demo_first = demo_fresh\<lparr>Event := [1 \<mapsto> demo_event 1], Dedup := [[1] \<mapsto> 1], NextEventId := Some 2,
     PendingCount := Some 1\<rparr>"

definition demo_queued :: outbox_state where
  "demo_queued = demo_first\<lparr>Event := [1 \<mapsto> demo_event 1, 2 \<mapsto> demo_event 2], Dedup := [[1] \<mapsto> 1, [2] \<mapsto> 2],
     NextEventId := Some 3, PendingCount := Some 2\<rparr>"

definition demo_published :: outbox_state where
  "demo_published = demo_queued\<lparr>Event := [1 \<mapsto> (demo_event 1)\<lparr>published_at := 20\<rparr>, 2 \<mapsto> demo_event 2],
     PendingCount := Some 1\<rparr>"

lemmas demo_outbox = demo_env_def demo_event_def demo_fresh_def demo_first_def demo_queued_def
  demo_published_def outbox_init_def MAX_PENDING_EVENTS_def MAX_PRUNE_PER_CALL_def

lemma demo_initialize: "outbox_exec (demo_env 5) (Initialize 1) outbox_init = Ok demo_fresh"
  by (simp add: initialize_def demo_outbox)

lemma demo_enqueue1: "enqueue (demo_env 10) 1 3 ''award'' 1 [] [1] [9] demo_fresh = Ok (1, demo_first)"
  by (simp add: enqueue_def operator_auth_def require_admin_def demo_outbox u64_checked_def range_defs
      Let_def numeral_2_eq_2 [symmetric])

lemma demo_enqueue2: "enqueue (demo_env 10) 1 3 ''award'' 1 [] [2] [9] demo_first = Ok (2, demo_queued)"
  by (simp add: enqueue_def operator_auth_def require_admin_def demo_outbox u64_checked_def range_defs
      Let_def numeral_2_eq_2 [symmetric])

lemma demo_publish: "outbox_exec (demo_env 20) (MarkPublished 1 1) demo_queued = Ok demo_published"
  by (simp add: mark_published_def operator_auth_def require_admin_def demo_outbox Let_def fun_upd_twist)

lemma demo_outbox_reachable:
  "outbox_step\<^sup>*\<^sup>* outbox_init demo_fresh" "outbox_step\<^sup>*\<^sup>* demo_first demo_published"
  "outbox_step\<^sup>*\<^sup>* outbox_init demo_queued" "outbox_step\<^sup>*\<^sup>* outbox_init demo_published"
proof -
  have step: "outbox_step outbox_init demo_fresh"
    by (rule outbox_step.call [OF demo_initialize]) (simp add: demo_env_def)
  have first: "outbox_step demo_fresh demo_first"
    by (rule outbox_step.call [of "demo_env 10" "Enqueue 1 3 ''award'' 1 [] [1] [9]"])
      (simp only: outbox_exec.simps state_of_def demo_enqueue1 and_then.simps prod.case, simp add: demo_env_def)
  have queued: "outbox_step demo_first demo_queued"
    by (rule outbox_step.call [of "demo_env 10" "Enqueue 1 3 ''award'' 1 [] [2] [9]"])
      (simp only: outbox_exec.simps state_of_def demo_enqueue2 and_then.simps prod.case, simp add: demo_env_def)
  have published: "outbox_step demo_queued demo_published"
    by (rule outbox_step.call [OF demo_publish]) (simp add: demo_env_def)
  show "outbox_step\<^sup>*\<^sup>* outbox_init demo_fresh" "outbox_step\<^sup>*\<^sup>* demo_first demo_published"
    "outbox_step\<^sup>*\<^sup>* outbox_init demo_queued" "outbox_step\<^sup>*\<^sup>* outbox_init demo_published"
    using step first queued published by (meson converse_rtranclp_into_rtranclp rtranclp.rtrancl_refl)+
qed

theorem outbox_backlog_exact_witness:
  "pending_count demo_queued = card {j. \<exists>x. Event demo_queued j = Some x \<and> published_at x = 0} \<and>
   Event demo_published 2 = Some (demo_event 2)"
  using outbox_backlog_exact [OF demo_outbox_reachable(3) demo_publish, of 2 "demo_event 2"]
  by (simp add: demo_queued_def demo_event_def)

theorem enqueue_once_witness:
  "get_by_dedup demo_published [1] = Ok 1 \<and>
   enqueue (demo_env 30) 1 3 ''award'' 1 [] [1] [9] demo_published = Ok (1, demo_published)"
proof -
  have retry: "is_ok (enqueue (demo_env 30) 1 3 ''award'' 1 [] [1] [9] demo_published)"
    by (simp add: enqueue_def operator_auth_def require_admin_def demo_outbox)
  have "0 < timestamp (demo_env 10)" by (simp add: demo_env_def)
  from enqueue_once [OF demo_outbox_reachable(1) this demo_enqueue1 demo_outbox_reachable(2),
      of "demo_env 30" 1 3 "''award''" 1 "[]" "[9]" "[2]"]
  show ?thesis using retry by (auto simp: is_ok_iff)
qed

theorem prune_is_prefix_sweep_witness:
  "prune (demo_env 40) 1 30 200 demo_published =
     Ok (1, demo_published\<lparr>Event := Event demo_published |` (- {1}), PruneFloor := Some 2\<rparr>)"
proof -
  have now: "Admin demo_published = Some 1" "unwrap_or (PruneFloor demo_published) 1 = 1"
    "unwrap_or (NextEventId demo_published) 1 = 3" "auth (demo_env 40) 1" "30 \<le> timestamp (demo_env 40)" "200 \<le> MAX_PRUNE_PER_CALL"
    by (simp_all add: demo_outbox)
  have "[1..<3] = [1, 2 :: nat]" by (simp add: upt_rec)
  then have gone: "take 200 (takeWhile (\<lambda>i. removable 30 (Event demo_published i)) [1..<3]) = [1]"
    by (simp add: removable_def demo_published_def demo_event_def)
  show ?thesis
    using prune_is_prefix_sweep [OF demo_outbox_reachable(4) now(1,4,5) _ now(6)]
    unfolding now gone Let_def by (simp add: numeral_2_eq_2)
qed

end
