(* ===== verification/Outbox_Webhooks.thy ===== *)
theory Outbox_Webhooks
  imports Outbox_Events
begin

text \<open>
  The webhook part of the scholarship outbox: enrolled endpoints, the bounded history of delivery
  attempts and the sponsors' acknowledgements.
\<close>

section \<open>What a successful call did\<close>

lemma register_Ok:
  assumes "register_endpoint env a own u k ts s = Ok (i, t)"
  obtains ep where "Admin s = Some a" "auth env a" "auth env own" "NextEndpointId s = Some i"
    "unwrap_or (EnrolledEndpoints s) 0 < MAX_ENDPOINTS" "ts \<noteq> []" "length ts \<le> MAX_ENDPOINT_TOPICS"
    "ep_id ep = i" "owner ep = own" "topics ep = ts" "ep_secret_epoch ep = 1" "last_sequence ep = 0"
    "t = s\<lparr>Endpoint := (Endpoint s)(i \<mapsto> ep), NextEndpointId := Some (i + 1),
       EnrolledEndpoints := Some (unwrap_or (EnrolledEndpoints s) 0 + 1)\<rparr>"
  by (rule that [of "\<lparr>ep_id = i, owner = own, url_hash = u, secret_hash = k, topics = ts, active = True,
        ep_secret_epoch = 1, last_sequence = 0, ep_created_at = timestamp env, updated_at = timestamp env\<rparr>"])
    (use assms in \<open>auto simp: register_endpoint_def save_endpoint_def outcome_iff Let_def\<close>)

text \<open>Rotation and activation keep an endpoint's identity, owner, topics and sequence.\<close>

definition same_endpoint :: "WebhookEndpoint \<Rightarrow> WebhookEndpoint \<Rightarrow> bool" where
  "same_endpoint ep ep' \<longleftrightarrow> ep_id ep' = ep_id ep \<and> owner ep' = owner ep \<and> topics ep' = topics ep \<and>
     ep_secret_epoch ep \<le> ep_secret_epoch ep'"

lemma rotate_Ok:
  assumes "rotate_secret env a i k s = Ok (n, t)"
  obtains ep ep' where "Admin s = Some a" "Endpoint s i = Some ep" "same_endpoint ep ep'"
    "last_sequence ep' = last_sequence ep" "ep_secret_epoch ep' = ep_secret_epoch ep + 1"
    "t = s\<lparr>Endpoint := (Endpoint s)(ep_id ep \<mapsto> ep')\<rparr>"
proof -
  from assms obtain ep where ep: "Endpoint s i = Some ep" by (auto simp: rotate_secret_def outcome_iff)
  show thesis
    by (rule that [of ep "ep\<lparr>secret_hash := k, ep_secret_epoch := ep_secret_epoch ep + 1,
          updated_at := timestamp env\<rparr>"])
      (use ep assms in \<open>auto simp: rotate_secret_def save_endpoint_def same_endpoint_def outcome_iff\<close>)
qed

lemma active_Ok:
  assumes "set_endpoint_active env a i b s = Ok t"
  obtains ep ep' where "Admin s = Some a" "Endpoint s i = Some ep" "same_endpoint ep ep'"
    "last_sequence ep' = last_sequence ep" "t = s\<lparr>Endpoint := (Endpoint s)(ep_id ep \<mapsto> ep')\<rparr>"
proof -
  from assms obtain ep where ep: "Endpoint s i = Some ep" by (auto simp: set_endpoint_active_def outcome_iff)
  show thesis
    by (rule that [of ep "ep\<lparr>active := b, updated_at := timestamp env\<rparr>"])
      (use ep assms in \<open>auto simp: set_endpoint_active_def save_endpoint_def same_endpoint_def outcome_iff\<close>)
qed

text \<open>One recorded attempt, before old records are evicted.\<close>

definition attempt_stored ::
  "env \<Rightarrow> nat \<Rightarrow> nat \<Rightarrow> nat \<Rightarrow> nat \<Rightarrow> DeliveryOutcome \<Rightarrow> nat \<Rightarrow> outbox_state \<Rightarrow> outbox_state" where
  "attempt_stored env i e sq expires res epoch s =
     s\<lparr>Attempts := (Attempts s)((i, e) \<mapsto> get_attempts s i e + 1),
       Delivery := (Delivery s)((i, sq) \<mapsto> \<lparr>dlv_endpoint = i, dlv_event = e, dlv_sequence = sq,
         dlv_epoch = epoch, dlv_expires_at = expires, attempt = get_attempts s i e + 1,
         recorded_at = timestamp env, outcome_of = res, acked_at = 0\<rparr>)\<rparr>"

lemma record_Ok:
  assumes "record_delivery env a i e sq expires res s = Ok (n, t)"
  obtains ep ep' ev u where "Admin s = Some a" "auth env a" "Endpoint s i = Some ep" "active ep"
    "sq = last_sequence ep + 1" "fits_u64 sq" "timestamp env < expires" "Event s e = Some ev"
    "res = Skipped \<or> topic ev \<in> set (topics ep)" "n = get_attempts s i e + 1"
    "same_endpoint ep ep'" "last_sequence ep' = sq" "ep_secret_epoch ep' = ep_secret_epoch ep"
    "retain_delivery i sq (attempt_stored env i e sq expires res (ep_secret_epoch ep) s) = Ok u"
    "t = u\<lparr>Endpoint := (Endpoint u)(ep_id ep \<mapsto> ep')\<rparr>"
proof -
  from assms obtain ep where ep: "Endpoint s i = Some ep" by (auto simp: record_delivery_def outcome_iff)
  obtain ev where ev: "Event s e = Some ev"
    using assms ep by (auto simp: record_delivery_def outcome_iff Let_def)
  obtain u where u: "retain_delivery i sq (attempt_stored env i e sq expires res (ep_secret_epoch ep) s) = Ok u"
    "t = u\<lparr>Endpoint := (Endpoint u)(ep_id ep \<mapsto> ep\<lparr>last_sequence := sq, updated_at := timestamp env\<rparr>)\<rparr>"
    using assms ep
    by (auto simp: record_delivery_def save_endpoint_def attempt_stored_def get_attempts_def outcome_iff Let_def)
  show thesis
    by (rule that [OF _ _ ep _ _ _ _ ev _ _ _ _ _ u])
      (use ep ev assms in \<open>auto simp: record_delivery_def get_attempts_def same_endpoint_def outcome_iff Let_def\<close>)
qed

lemma ack_delivery_Ok:
  assumes "acknowledge_delivery env own i sq s = Ok t"
  obtains ep r where "auth env own" "Endpoint s i = Some ep" "owner ep = own" "0 < sq"
    "sq \<le> last_sequence ep" "get_acked_sequence s i < sq" "Delivery s (i, sq) = Some r"
    "t = s\<lparr>Delivery := (Delivery s)((i, sq) \<mapsto> r\<lparr>acked_at := timestamp env\<rparr>),
       EndpointAck := (EndpointAck s)(i \<mapsto> sq)\<rparr>"
  using assms by (auto simp: acknowledge_delivery_def get_acked_sequence_def outcome_iff Let_def)

section \<open>The history of one endpoint\<close>

text \<open>What the contract stores about endpoint \<open>i\<close> beside the endpoint itself.\<close>

record history =
  records :: "nat \<rightharpoonup> DeliveryRecord"
  floor_at :: "nat option"
  kept :: nat
  acked :: nat
  tries :: "nat \<rightharpoonup> nat"

definition history_of :: "outbox_state \<Rightarrow> nat \<Rightarrow> history" where
  "history_of s i = \<lparr>records = (\<lambda>q. Delivery s (i, q)), floor_at = DeliveryFloor s i,
     kept = delivery_history_count s i, acked = get_acked_sequence s i, tries = (\<lambda>e. Attempts s (i, e))\<rparr>"

definition blank :: "history \<Rightarrow> bool" where
  "blank h \<longleftrightarrow> records h = Map.empty \<and> kept h = 0 \<and> acked h = 0 \<and> tries h = Map.empty"

text \<open>The newest attempts, at most 256 of them, are kept; every attempt counts for its event.\<close>

definition history_ok :: "WebhookEndpoint \<Rightarrow> history \<Rightarrow> bool" where
  "history_ok ep h \<longleftrightarrow>
     kept h = min (last_sequence ep) MAX_DELIVERY_HISTORY \<and>
     (0 < kept h \<longrightarrow> floor_at h = Some (last_sequence ep - kept h + 1)) \<and>
     (\<forall>q. records h q \<noteq> None \<longleftrightarrow> last_sequence ep - kept h < q \<and> q \<le> last_sequence ep) \<and>
     (\<forall>q r. records h q = Some r \<longrightarrow> dlv_endpoint r = ep_id ep \<and> dlv_sequence r = q \<and>
        dlv_epoch r \<le> ep_secret_epoch ep \<and> recorded_at r < dlv_expires_at r) \<and>
     acked h \<le> last_sequence ep \<and>
     finite (dom (tries h)) \<and> msum int (tries h) = int (last_sequence ep)"

definition slot_ok :: "nat \<Rightarrow> WebhookEndpoint option \<Rightarrow> history \<Rightarrow> bool" where
  "slot_ok i m h = (case m of None \<Rightarrow> blank h | Some ep \<Rightarrow> ep_id ep = i \<and> topics ep \<noteq> [] \<and> history_ok ep h)"

definition webhooks_wf :: "outbox_state \<Rightarrow> bool" where
  "webhooks_wf s \<longleftrightarrow>
     (Admin s = None \<longrightarrow> Endpoint s = Map.empty) \<and>
     (Admin s \<noteq> None \<longrightarrow> (\<exists>n. NextEndpointId s = Some (n + 1) \<and> EnrolledEndpoints s = Some n \<and>
        n \<le> MAX_ENDPOINTS \<and> dom (Endpoint s) = {1..n})) \<and>
     (\<forall>i. slot_ok i (Endpoint s i) (history_of s i))"

lemma webhooks_wfD:
  assumes "webhooks_wf s" "Endpoint s i = Some ep"
  shows "ep_id ep = i" "history_ok ep (history_of s i)" "topics ep \<noteq> []" "Admin s \<noteq> None"
proof -
  have "slot_ok i (Endpoint s i) (history_of s i)" using assms(1) by (simp add: webhooks_wf_def)
  with assms(2) show "ep_id ep = i" "history_ok ep (history_of s i)" "topics ep \<noteq> []"
    by (simp_all add: slot_ok_def)
  show "Admin s \<noteq> None" using assms by (auto simp: webhooks_wf_def)
qed

text \<open>The record of a new attempt, as it changes the history.\<close>

lemma history_appended:
  assumes h: "history_ok ep h" and sq: "sq = last_sequence ep + 1"
    and ep': "same_endpoint ep ep'" "last_sequence ep' = sq"
    and r: "dlv_endpoint r = ep_id ep" "dlv_sequence r = sq" "dlv_epoch r \<le> ep_secret_epoch ep"
      "recorded_at r < dlv_expires_at r"
    and h': "tries h' = (tries h)(e \<mapsto> unwrap_or (tries h e) 0 + 1)" "acked h' = acked h"
    and window: "if kept h < MAX_DELIVERY_HISTORY
      then records h' = (records h)(sq \<mapsto> r) \<and> kept h' = kept h + 1 \<and>
        floor_at h' = (if kept h = 0 then Some sq else floor_at h)
      else records h' = ((records h)(sq \<mapsto> r))(the (floor_at h) := None) \<and> kept h' = kept h \<and>
        floor_at h' = Some (the (floor_at h) + 1)"
  shows "history_ok ep' h'"
proof -
  have old: "kept h = min (last_sequence ep) MAX_DELIVERY_HISTORY"
    "0 < kept h \<Longrightarrow> floor_at h = Some (last_sequence ep - kept h + 1)"
    "\<And>q. records h q \<noteq> None \<longleftrightarrow> last_sequence ep - kept h < q \<and> q \<le> last_sequence ep"
    using h by (simp_all add: history_ok_def)
  have recs: "dlv_endpoint x = ep_id ep \<and> dlv_sequence x = q \<and> dlv_epoch x \<le> ep_secret_epoch ep \<and>
      recorded_at x < dlv_expires_at x" if "records h' q = Some x" for q x
    using that window h r by (auto simp: history_ok_def split: if_splits)
  have "finite (dom (tries h))" "msum int (tries h) = int (last_sequence ep)"
    using h by (simp_all add: history_ok_def)
  then have sums: "finite (dom (tries h'))" "msum int (tries h') = int sq"
    unfolding h' by (cases "tries h e"; simp add: msum_insert msum_replace sq)+
  have pos: "0 < MAX_DELIVERY_HISTORY" by (simp add: MAX_DELIVERY_HISTORY_def)
  have kept': "kept h' = min sq MAX_DELIVERY_HISTORY"
    using window old(1) sq by (auto split: if_splits)
  have floor': "floor_at h' = Some (sq - kept h' + 1)"
    using window old(1,2) sq pos by (auto simp: min_def split: if_splits)
  have "records h' q \<noteq> None \<longleftrightarrow> sq - kept h' < q \<and> q \<le> sq" for q
    using window old(1,2) old(3) [of q] sq pos by (auto simp: min_def split: if_splits)
  then show ?thesis
    using h ep' recs kept' floor' sums h'(2) sq
    unfolding history_ok_def same_endpoint_def by (auto intro: order_trans)
qed

section \<open>The invariant\<close>

definition same_webhooks :: "outbox_state \<Rightarrow> outbox_state \<Rightarrow> bool" where
  "same_webhooks s t \<longleftrightarrow> Admin t = Admin s \<and> NextEndpointId t = NextEndpointId s \<and>
     EnrolledEndpoints t = EnrolledEndpoints s \<and> Endpoint t = Endpoint s \<and> history_of t = history_of s"

lemma history_of_cong:
  "Delivery t = Delivery s \<Longrightarrow> DeliveryFloor t = DeliveryFloor s \<Longrightarrow> DeliveryCount t = DeliveryCount s \<Longrightarrow>
   EndpointAck t = EndpointAck s \<Longrightarrow> Attempts t = Attempts s \<Longrightarrow> history_of t = history_of s"
  by (auto simp: history_of_def delivery_history_count_def get_acked_sequence_def)

lemma event_same_webhooks:
  "enqueue env a src tp v c k p s = Ok (i, t) \<Longrightarrow> same_webhooks s t"
  "mark_published env a i s = Ok t \<Longrightarrow> same_webhooks s t"
  "acknowledge env x i s = Ok (j, t) \<Longrightarrow> same_webhooks s t"
  "prune env a h l s = Ok (n, t) \<Longrightarrow> same_webhooks s t"
  unfolding same_webhooks_def
  by (auto elim!: enqueue_Ok publish_Ok dest!: acknowledge_Ok intro!: history_of_cong)
    (auto simp: prune_def outcome_iff Let_def intro!: history_of_cong)

lemma settlement_same_webhooks:
  "open_settlement env a k src c n f s = Ok t \<Longrightarrow> same_webhooks s t"
  "observe_settlement env a k tx l s = Ok t \<Longrightarrow> same_webhooks s t"
  "reconcile_settlement env a k n s = Ok (st, t) \<Longrightarrow> same_webhooks s t"
  "expire_settlement env a k s = Ok t \<Longrightarrow> same_webhooks s t"
  "resolve_settlement env a k h s = Ok t \<Longrightarrow> same_webhooks s t"
  "archive_settlement env a k s = Ok t \<Longrightarrow> same_webhooks s t"
  unfolding same_webhooks_def
  by (auto simp: open_settlement_def observe_settlement_def reconcile_settlement_def
      expire_settlement_def resolve_settlement_def archive_settlement_def save_intent_def
      outcome_iff Let_def split: if_splits intro!: history_of_cong)

lemmas other_same_webhooks = event_same_webhooks settlement_same_webhooks

lemma same_webhooks_wf: "same_webhooks s t \<Longrightarrow> webhooks_wf s \<Longrightarrow> webhooks_wf t"
  by (simp add: same_webhooks_def webhooks_wf_def)

lemma blank_init: "blank (history_of outbox_init i)"
  by (simp add: blank_def history_of_def outbox_init_def delivery_history_count_def get_acked_sequence_def)

lemma webhooks_init_wf: "webhooks_wf outbox_init"
  using blank_init by (simp add: webhooks_wf_def slot_ok_def) (simp add: outbox_init_def)

lemma initialize_webhooks_wf:
  assumes "initialize env a s = Ok t" "webhooks_wf s"
  shows "webhooks_wf t"
proof -
  have t: "Admin s = None" "t = s\<lparr>Admin := Some a, NextEventId := Some 1, PendingCount := Some 0,
      PruneFloor := Some 1, NextEndpointId := Some 1, EnrolledEndpoints := Some 0\<rparr>"
    using assms(1) by (simp_all add: outcome_iff)
  moreover have "history_of t = history_of s" unfolding t(2) by (rule history_of_cong) simp_all
  ultimately show ?thesis
    using assms(2) by (auto simp: webhooks_wf_def)
qed

text \<open>A call that changes one enrolled endpoint and its history.\<close>

lemma slot_change:
  assumes "webhooks_wf s" "Endpoint s i = Some ep" "Endpoint t = (Endpoint s)(i \<mapsto> ep')"
    "same_endpoint ep ep'" "history_ok ep' (history_of t i)"
    "\<And>j. j \<noteq> i \<Longrightarrow> history_of t j = history_of s j"
    "Admin t = Admin s" "NextEndpointId t = NextEndpointId s" "EnrolledEndpoints t = EnrolledEndpoints s"
  shows "webhooks_wf t"
proof -
  have "slot_ok j (Endpoint t j) (history_of t j)" for j
  proof (cases "j = i")
    case True
    with assms(3-5) webhooks_wfD(1,3) [OF assms(1,2)] show ?thesis
      by (simp add: slot_ok_def same_endpoint_def)
  next
    case False
    with assms(1,3,6) show ?thesis by (simp add: webhooks_wf_def)
  qed
  moreover have "dom (Endpoint t) = dom (Endpoint s)" using assms(2,3) by auto
  ultimately show ?thesis
    using assms(1,7-9) webhooks_wfD(4) [OF assms(1,2)] by (auto simp: webhooks_wf_def)
qed

lemma history_ok_same:
  "history_ok ep h \<Longrightarrow> same_endpoint ep ep' \<Longrightarrow> last_sequence ep' = last_sequence ep \<Longrightarrow> history_ok ep' h"
  unfolding history_ok_def same_endpoint_def by (auto intro: order_trans)

lemma endpoint_change:
  assumes "webhooks_wf s" "Endpoint s i = Some ep" "same_endpoint ep ep'"
    "last_sequence ep' = last_sequence ep" "t = s\<lparr>Endpoint := (Endpoint s)(ep_id ep \<mapsto> ep')\<rparr>"
  shows "webhooks_wf t"
proof (rule slot_change [OF assms(1,2) _ assms(3)])
  have h: "history_of t = history_of s" unfolding assms(5) by (rule history_of_cong) simp_all
  then show "history_of t j = history_of s j" for j by simp
  show "history_ok ep' (history_of t i)"
    unfolding h using webhooks_wfD(2) [OF assms(1,2)] assms(3,4) by (rule history_ok_same)
qed (use assms(5) webhooks_wfD(1) [OF assms(1,2)] in simp_all)

lemma next_endpoint_free:
  assumes "webhooks_wf s" "Admin s = Some a" "NextEndpointId s = Some i"
  shows "Endpoint s i = None"
proof -
  obtain n where "i = n + 1" "dom (Endpoint s) = {1..n}"
    using assms by (auto simp: webhooks_wf_def)
  then have "i \<notin> dom (Endpoint s)" by simp
  then show ?thesis by (simp add: domIff)
qed

lemma register_wf:
  assumes "register_endpoint env a own u k ts s = Ok (i, t)" "webhooks_wf s"
  shows "webhooks_wf t"
  using assms(1)
proof (rule register_Ok)
  fix ep
  assume *: "Admin s = Some a" "NextEndpointId s = Some i" "unwrap_or (EnrolledEndpoints s) 0 < MAX_ENDPOINTS"
    "ts \<noteq> []" "ep_id ep = i" "topics ep = ts" "last_sequence ep = 0"
    "t = s\<lparr>Endpoint := (Endpoint s)(i \<mapsto> ep), NextEndpointId := Some (i + 1),
       EnrolledEndpoints := Some (unwrap_or (EnrolledEndpoints s) 0 + 1)\<rparr>"
  have h: "history_of t = history_of s" unfolding *(8) by (rule history_of_cong) simp_all
  obtain n where n: "i = n + 1" "EnrolledEndpoints s = Some n" "n < MAX_ENDPOINTS" "dom (Endpoint s) = {1..n}"
    using assms(2) *(1-3) by (auto simp: webhooks_wf_def)
  have "blank (history_of s i)"
    using assms(2) next_endpoint_free [OF assms(2) *(1,2)] by (auto simp: webhooks_wf_def slot_ok_def dest!: spec [of _ i])
  then have "history_ok ep (history_of s i)"
    using *(7) by (auto simp: history_ok_def blank_def)
  then have "slot_ok j (Endpoint t j) (history_of t j)" for j
    using assms(2) * h by (cases "j = i") (simp_all add: webhooks_wf_def slot_ok_def)
  moreover have "dom (Endpoint t) = {1..n + 1}" using n *(8) by auto
  ultimately show ?thesis using n * by (simp add: webhooks_wf_def)
qed

lemma ack_delivery_wf:
  assumes "acknowledge_delivery env own i sq s = Ok t" "webhooks_wf s"
  shows "webhooks_wf t"
  using assms(1)
proof (rule ack_delivery_Ok)
  fix ep r
  assume *: "Endpoint s i = Some ep" "sq \<le> last_sequence ep" "Delivery s (i, sq) = Some r"
    "t = s\<lparr>Delivery := (Delivery s)((i, sq) \<mapsto> r\<lparr>acked_at := timestamp env\<rparr>),
       EndpointAck := (EndpointAck s)(i \<mapsto> sq)\<rparr>"
  have here: "history_of t i = (history_of s i)\<lparr>records := (records (history_of s i))(sq \<mapsto> r\<lparr>acked_at := timestamp env\<rparr>),
      acked := sq\<rparr>"
    unfolding *(4) by (auto simp: history_of_def delivery_history_count_def get_acked_sequence_def)
  have old: "history_ok ep (history_of s i)" "records (history_of s i) sq = Some r"
    using webhooks_wfD(2) [OF assms(2) *(1)] *(3) by (simp_all add: history_of_def)
  have "history_ok ep (history_of t i)"
    unfolding here using old *(2) unfolding history_ok_def by auto
  moreover have "history_of t j = history_of s j" if "j \<noteq> i" for j
    using that unfolding *(4) by (auto simp: history_of_def delivery_history_count_def get_acked_sequence_def)
  moreover have "(Endpoint s)(i \<mapsto> ep) = Endpoint s" using *(1) by (rule map_upd_triv)
  ultimately show ?thesis
    using slot_change [OF assms(2) *(1), of t ep] * by (auto simp: same_endpoint_def)
qed

lemma retain_Ok:
  assumes "retain_delivery i sq s = Ok t"
  shows "if delivery_history_count s i < MAX_DELIVERY_HISTORY
    then t = s\<lparr>DeliveryFloor := (if delivery_history_count s i = 0 then (DeliveryFloor s)(i \<mapsto> sq) else DeliveryFloor s),
       DeliveryCount := (DeliveryCount s)(i \<mapsto> delivery_history_count s i + 1)\<rparr>
    else t = s\<lparr>Delivery := (Delivery s)((i, unwrap_or (DeliveryFloor s i) 1) := None),
       DeliveryFloor := (DeliveryFloor s)(i \<mapsto> unwrap_or (DeliveryFloor s i) 1 + 1)\<rparr>"
  using assms
  by (auto simp: retain_delivery_def delivery_history_count_def outcome_iff Let_def split: if_splits)

lemma retain_frame:
  assumes "retain_delivery i sq s = Ok t"
  shows "Admin t = Admin s" "Endpoint t = Endpoint s" "NextEndpointId t = NextEndpointId s"
    "EnrolledEndpoints t = EnrolledEndpoints s" "Attempts t = Attempts s" "EndpointAck t = EndpointAck s"
    and "j \<noteq> i \<Longrightarrow> history_of t j = history_of s j"
  using retain_Ok [OF assms]
  by (auto simp: history_of_def delivery_history_count_def get_acked_sequence_def split: if_splits)

lemma record_wf:
  assumes "record_delivery env a i e sq expires res s = Ok (n, t)" "webhooks_wf s"
  shows "webhooks_wf t"
  using assms(1)
proof (rule record_Ok)
  fix ep ep' :: WebhookEndpoint and ev u
  let ?v = "attempt_stored env i e sq expires res (ep_secret_epoch ep) s"
  assume *: "Endpoint s i = Some ep" "sq = last_sequence ep + 1" "timestamp env < expires"
    "same_endpoint ep ep'" "last_sequence ep' = sq" "retain_delivery i sq ?v = Ok u"
    "t = u\<lparr>Endpoint := (Endpoint u)(ep_id ep \<mapsto> ep')\<rparr>"
  note ep = webhooks_wfD [OF assms(2) *(1)]
  have h: "history_of t = history_of u" unfolding *(7) by (rule history_of_cong) simp_all
  define r where "r = the (Delivery ?v (i, sq))"
  have stored: "records (history_of ?v i) = (records (history_of s i))(sq \<mapsto> r)"
    "tries (history_of ?v i) = (tries (history_of s i))(e \<mapsto> unwrap_or (tries (history_of s i) e) 0 + 1)"
    "kept (history_of ?v i) = kept (history_of s i)" "acked (history_of ?v i) = acked (history_of s i)"
    "floor_at (history_of ?v i) = floor_at (history_of s i)"
    by (auto simp: r_def attempt_stored_def history_of_def delivery_history_count_def get_acked_sequence_def
        get_attempts_def)
  have "history_ok ep' (history_of u i)"
  proof (rule history_appended [OF ep(2) *(2,4,5), of r _ e])
    show "dlv_endpoint r = ep_id ep" "dlv_sequence r = sq" "dlv_epoch r \<le> ep_secret_epoch ep"
      "recorded_at r < dlv_expires_at r"
      using *(3) ep(1) by (simp_all add: r_def attempt_stored_def)
    show "tries (history_of u i) = (tries (history_of s i))(e \<mapsto> unwrap_or (tries (history_of s i) e) 0 + 1)"
      "acked (history_of u i) = acked (history_of s i)"
      using retain_frame(5,6) [OF *(6)] stored(2,4)
      by (simp_all add: history_of_def get_acked_sequence_def)
    have full: "floor_at (history_of s i) \<noteq> None" if "\<not> kept (history_of s i) < MAX_DELIVERY_HISTORY"
      using that ep(2) by (auto simp: history_ok_def MAX_DELIVERY_HISTORY_def)
    show "if kept (history_of s i) < MAX_DELIVERY_HISTORY
      then records (history_of u i) = (records (history_of s i))(sq \<mapsto> r) \<and>
        kept (history_of u i) = kept (history_of s i) + 1 \<and>
        floor_at (history_of u i) = (if kept (history_of s i) = 0 then Some sq else floor_at (history_of s i))
      else records (history_of u i) = ((records (history_of s i))(sq \<mapsto> r))(the (floor_at (history_of s i)) := None) \<and>
        kept (history_of u i) = kept (history_of s i) \<and>
        floor_at (history_of u i) = Some (the (floor_at (history_of s i)) + 1)"
      using retain_Ok [OF *(6)] stored(1,3,5) full
      by (auto simp: history_of_def delivery_history_count_def fun_eq_iff split: if_splits)
  qed
  then have "history_ok ep' (history_of t i)" by (simp add: h)
  moreover have "history_of t j = history_of s j" if "j \<noteq> i" for j
    unfolding h retain_frame(7) [OF *(6) that] using that
    by (simp add: history_of_def attempt_stored_def delivery_history_count_def get_acked_sequence_def)
  moreover have "Endpoint t = (Endpoint s)(i \<mapsto> ep')" "Admin t = Admin s"
    "NextEndpointId t = NextEndpointId s" "EnrolledEndpoints t = EnrolledEndpoints s"
    using retain_frame(1-4) [OF *(6)] ep(1) unfolding *(7) by (simp_all add: attempt_stored_def)
  ultimately show ?thesis
    using slot_change [OF assms(2) *(1) _ *(4)] by simp
qed

lemma outbox_exec_webhooks_wf:
  assumes "outbox_exec env c s = Ok t" "webhooks_wf s"
  shows "webhooks_wf t"
proof (cases c)
  case (RotateSecret a i k)
  with assms(1) obtain n where "rotate_secret env a i k s = Ok (n, t)" by (auto simp: outcome_iff)
  then show ?thesis by (rule rotate_Ok) (rule endpoint_change [OF assms(2)])
next
  case (SetEndpointActive a i b)
  with assms(1) have "set_endpoint_active env a i b s = Ok t" by simp
  then show ?thesis by (rule active_Ok) (rule endpoint_change [OF assms(2)])
qed (use assms in \<open>auto simp: state_of_Ok intro: initialize_webhooks_wf register_wf record_wf ack_delivery_wf
  same_webhooks_wf dest!: other_same_webhooks\<close>)

section \<open>What may still change\<close>

definition webhooks_evolve :: "outbox_state \<Rightarrow> outbox_state \<Rightarrow> bool" where
  "webhooks_evolve s t \<longleftrightarrow>
     (\<forall>i ep. Endpoint s i = Some ep \<longrightarrow>
        (\<exists>ep'. Endpoint t i = Some ep' \<and> same_endpoint ep ep' \<and> last_sequence ep \<le> last_sequence ep')) \<and>
     (\<forall>i. get_acked_sequence s i \<le> get_acked_sequence t i)"

lemma webhooks_evolveD:
  assumes "webhooks_evolve s t"
  shows "Endpoint s i = Some ep \<Longrightarrow>
      \<exists>ep'. Endpoint t i = Some ep' \<and> same_endpoint ep ep' \<and> last_sequence ep \<le> last_sequence ep'"
    and "get_acked_sequence s i \<le> get_acked_sequence t i"
  using assms unfolding webhooks_evolve_def by blast+

lemma same_endpoint_refl [simp]: "same_endpoint ep ep"
  by (simp add: same_endpoint_def)

lemma webhooks_evolve_refl: "webhooks_evolve s s"
  by (simp add: webhooks_evolve_def)

lemma webhooks_evolve_trans:
  assumes "webhooks_evolve s t" "webhooks_evolve t u"
  shows "webhooks_evolve s u"
  unfolding webhooks_evolve_def
proof (intro conjI allI impI)
  fix i ep
  assume "Endpoint s i = Some ep"
  from webhooks_evolveD(1) [OF assms(1) this] obtain ep1 where
    1: "Endpoint t i = Some ep1" "same_endpoint ep ep1" "last_sequence ep \<le> last_sequence ep1" by blast
  from webhooks_evolveD(1) [OF assms(2) 1(1)] 1(2,3)
  show "\<exists>ep'. Endpoint u i = Some ep' \<and> same_endpoint ep ep' \<and> last_sequence ep \<le> last_sequence ep'"
    by (auto simp: same_endpoint_def)
next
  show "get_acked_sequence s i \<le> get_acked_sequence u i" for i
    using webhooks_evolveD(2) [OF assms(1), of i] webhooks_evolveD(2) [OF assms(2), of i] by simp
qed

lemma same_webhooks_evolve:
  assumes "same_webhooks s t"
  shows "webhooks_evolve s t"
proof -
  have "acked (history_of t i) = acked (history_of s i)" for i
    using assms by (simp add: same_webhooks_def)
  then show ?thesis
    using assms by (simp add: webhooks_evolve_def same_webhooks_def history_of_def)
qed

lemma endpoint_evolve:
  assumes "Endpoint s i = Some ep" "ep_id ep = i" "same_endpoint ep ep'" "last_sequence ep \<le> last_sequence ep'"
    "Endpoint t = (Endpoint s)(ep_id ep \<mapsto> ep')" "EndpointAck t = EndpointAck s"
  shows "webhooks_evolve s t"
  using assms by (simp add: webhooks_evolve_def get_acked_sequence_def)

lemma outbox_exec_webhooks_evolve:
  assumes "outbox_exec env c s = Ok t" "webhooks_wf s"
  shows "webhooks_evolve s t"
proof (cases c)
  case (RegisterEndpoint a own u k ts)
  with assms(1) obtain i where "register_endpoint env a own u k ts s = Ok (i, t)" by (auto simp: outcome_iff)
  then show ?thesis
  proof (rule register_Ok)
    fix ep
    assume *: "Admin s = Some a" "NextEndpointId s = Some i"
      "t = s\<lparr>Endpoint := (Endpoint s)(i \<mapsto> ep), NextEndpointId := Some (i + 1),
         EnrolledEndpoints := Some (unwrap_or (EnrolledEndpoints s) 0 + 1)\<rparr>"
    have "Endpoint s i = None" using assms(2) *(1,2) by (rule next_endpoint_free)
    then show ?thesis using *(3) by (auto simp: webhooks_evolve_def get_acked_sequence_def)
  qed
next
  case (RotateSecret a i k)
  with assms(1) obtain n where "rotate_secret env a i k s = Ok (n, t)" by (auto simp: outcome_iff)
  then show ?thesis
    by (rule rotate_Ok) (auto intro: endpoint_evolve [OF _ webhooks_wfD(1) [OF assms(2)]])
next
  case (SetEndpointActive a i b)
  with assms(1) have "set_endpoint_active env a i b s = Ok t" by simp
  then show ?thesis
    by (rule active_Ok) (auto intro: endpoint_evolve [OF _ webhooks_wfD(1) [OF assms(2)]])
next
  case (RecordDelivery a i e q x r)
  with assms(1) obtain n where "record_delivery env a i e q x r s = Ok (n, t)" by (auto simp: outcome_iff)
  then show ?thesis
  proof (rule record_Ok)
    fix ep ep' :: WebhookEndpoint and ev u
    assume *: "Endpoint s i = Some ep" "q = last_sequence ep + 1" "same_endpoint ep ep'" "last_sequence ep' = q"
      "retain_delivery i q (attempt_stored env i e q x r (ep_secret_epoch ep) s) = Ok u"
      "t = u\<lparr>Endpoint := (Endpoint u)(ep_id ep \<mapsto> ep')\<rparr>"
    then show ?thesis
      using retain_frame(2,6) [OF *(5)]
      by (intro endpoint_evolve [OF *(1) webhooks_wfD(1) [OF assms(2) *(1)] *(3)])
        (simp_all add: attempt_stored_def)
  qed
next
  case (AcknowledgeDelivery own i q)
  with assms(1) have "acknowledge_delivery env own i q s = Ok t" by simp
  then show ?thesis
    by (rule ack_delivery_Ok) (auto simp: webhooks_evolve_def get_acked_sequence_def)
next
  case (Initialize a)
  with assms(1) show ?thesis by (auto simp: outcome_iff webhooks_evolve_def get_acked_sequence_def)
qed (use assms in \<open>auto simp: state_of_Ok intro: same_webhooks_evolve dest!: other_same_webhooks\<close>)

interpretation outbox_webhooks: evolving outbox_step webhooks_wf webhooks_evolve
  by unfold_locales
    (auto intro: webhooks_evolve_refl webhooks_evolve_trans outbox_exec_webhooks_evolve outbox_exec_webhooks_wf
      elim!: outbox_stepE)

lemmas outbox_webhooks_wf = outbox_webhooks.run [OF _ webhooks_init_wf]

section \<open>Properties\<close>

text \<open>
  The visible history of an endpoint is a gap-free window. In every reachable state the retained
  records of an endpoint are exactly those of its newest attempts, 256 at most; the count and the floor
  that the contract reports describe that window; every attempt ever made counts once for its
  event, also after eviction; and a sponsor has never acknowledged more than was attempted.
\<close>

theorem webhook_history_window:
  assumes "outbox_step\<^sup>*\<^sup>* outbox_init s" "Endpoint s i = Some ep"
  shows "(\<forall>q. is_ok (get_delivery s i q) \<longleftrightarrow>
      0 < q \<and> q \<le> last_sequence ep \<and> last_sequence ep < q + MAX_DELIVERY_HISTORY) \<and>
    delivery_history_count s i = min (last_sequence ep) MAX_DELIVERY_HISTORY \<and>
    (0 < last_sequence ep \<longrightarrow>
      delivery_history_floor s i = last_sequence ep - delivery_history_count s i + 1) \<and>
    (\<Sum>e | Attempts s (i, e) \<noteq> None. int (get_attempts s i e)) = int (last_sequence ep) \<and>
    get_acked_sequence s i \<le> last_sequence ep"
proof -
  have ok: "history_ok ep (history_of s i)"
    by (rule webhooks_wfD(2) [OF outbox_webhooks_wf [OF assms(1)] assms(2)])
  have kept: "delivery_history_count s i = min (last_sequence ep) MAX_DELIVERY_HISTORY"
    "0 < delivery_history_count s i \<Longrightarrow> DeliveryFloor s i = Some (last_sequence ep - delivery_history_count s i + 1)"
    "get_acked_sequence s i \<le> last_sequence ep"
    using ok by (simp_all add: history_ok_def history_of_def)
  have recs: "Delivery s (i, q) \<noteq> None \<longleftrightarrow> last_sequence ep - delivery_history_count s i < q \<and> q \<le> last_sequence ep" for q
    using ok by (simp add: history_ok_def history_of_def)
  have pos: "0 < MAX_DELIVERY_HISTORY" by (simp add: MAX_DELIVERY_HISTORY_def)
  have "is_ok (get_delivery s i q) \<longleftrightarrow>
      0 < q \<and> q \<le> last_sequence ep \<and> last_sequence ep < q + MAX_DELIVERY_HISTORY" for q
    using recs [of q] kept(1) pos
    by (auto simp: get_delivery_def is_ok_iff outcome_iff min_def split: if_splits)
  moreover have "delivery_history_floor s i = last_sequence ep - delivery_history_count s i + 1" if "0 < last_sequence ep"
    using that kept(1,2) pos by (simp add: delivery_history_floor_def)
  moreover have "(\<Sum>e | Attempts s (i, e) \<noteq> None. int (get_attempts s i e)) = int (last_sequence ep)"
  proof -
    have "(\<Sum>e | Attempts s (i, e) \<noteq> None. int (get_attempts s i e)) = msum int (tries (history_of s i))"
      unfolding msum_def by (rule sum.cong) (auto simp: history_of_def get_attempts_def dom_def)
    with ok show ?thesis by (simp add: history_ok_def)
  qed
  ultimately show ?thesis using kept(1,3) by blast
qed

text \<open>
  A delivery cannot be replayed. An attempt is only recorded for an active endpoint, with exactly
  the next sequence number, before its signature expires, and for an event the endpoint subscribed to
  unless it is a note that the event was skipped; it raises the event's attempt count by one. No later
  call records the same sequence number for the endpoint again. Once its owner has acknowledged a
  sequence number, no later call acknowledges that or an earlier one.
\<close>

theorem webhook_no_replay:
  assumes run: "outbox_step\<^sup>*\<^sup>* outbox_init s" and now: "0 < timestamp env"
    and rec: "record_delivery env a i e q x r s = Ok (n, t)"
    and later: "outbox_step\<^sup>*\<^sup>* t u"
    and ack: "acknowledge_delivery env1 own i q u = Ok u1" "0 < timestamp env1"
    and latest: "outbox_step\<^sup>*\<^sup>* u1 v" "q' \<le> q"
  shows "(\<exists>ep ev. Endpoint s i = Some ep \<and> active ep \<and> q = last_sequence ep + 1 \<and> timestamp env < x \<and>
      Event s e = Some ev \<and> (r = Skipped \<or> topic ev \<in> set (topics ep)) \<and> n = get_attempts s i e + 1 \<and>
      owner ep = own \<and> auth env1 own) \<and>
    \<not> is_ok (record_delivery env2 a2 i e2 q x2 r2 u) \<and>
    \<not> is_ok (acknowledge_delivery env2 own2 i q' v)"
proof -
  have wf: "webhooks_wf s" by (rule outbox_webhooks_wf [OF run])
  have exec: "outbox_exec env (RecordDelivery a i e q x r) s = Ok t" using rec by (simp add: outcome_iff)
  have wf_t: "webhooks_wf t" by (rule outbox_exec_webhooks_wf [OF exec wf])
  have tu: "webhooks_evolve t u" by (rule outbox_webhooks.run_evolves [OF later wf_t])
  have wf_u: "webhooks_wf u" by (rule outbox_webhooks.run [OF later wf_t])
  have ack': "outbox_exec env1 (AcknowledgeDelivery own i q) u = Ok u1" using ack(1) by simp
  have wf_u1: "webhooks_wf u1" by (rule outbox_exec_webhooks_wf [OF ack' wf_u])
  have u1v: "webhooks_evolve u1 v" by (rule outbox_webhooks.run_evolves [OF latest(1) wf_u1])
  obtain ep ev where ep: "Endpoint s i = Some ep" "active ep" "q = last_sequence ep + 1" "timestamp env < x"
      "Event s e = Some ev" "r = Skipped \<or> topic ev \<in> set (topics ep)" "n = get_attempts s i e + 1"
    using rec by (rule record_Ok) blast
  obtain ep1 where ep1: "Endpoint t i = Some ep1" "same_endpoint ep ep1"
    using webhooks_evolveD(1) [OF outbox_exec_webhooks_evolve [OF exec wf] ep(1)] by blast
  have "last_sequence ep1 = q"
    using rec
  proof (rule record_Ok)
    fix ep0 ep' :: WebhookEndpoint and ev0 w
    assume "Endpoint s i = Some ep0" "last_sequence ep' = q" "t = w\<lparr>Endpoint := (Endpoint w)(ep_id ep0 \<mapsto> ep')\<rparr>"
    then show ?thesis using ep1(1) webhooks_wfD(1) [OF wf] by auto
  qed
  then obtain ep2 where ep2: "Endpoint u i = Some ep2" "same_endpoint ep1 ep2" "q \<le> last_sequence ep2"
    using webhooks_evolveD(1) [OF tu ep1(1)] by blast
  have "\<not> is_ok (record_delivery env2 a2 i e2 q x2 r2 u)"
    using ep2(1,3) by (auto simp: is_ok_iff elim!: record_Ok)
  moreover have "owner ep = own" "auth env1 own"
    using ack(1) ep1(2) ep2(1,2) by (auto simp: same_endpoint_def elim!: ack_delivery_Ok)
  moreover have "get_acked_sequence u1 i = q"
    using ack(1) by (rule ack_delivery_Ok) (simp add: get_acked_sequence_def)
  then have "\<not> is_ok (acknowledge_delivery env2 own2 i q' v)"
    using webhooks_evolveD(2) [OF u1v, of i] latest(2) by (auto simp: is_ok_iff elim!: ack_delivery_Ok)
  ultimately show ?thesis using ep by blast
qed

section \<open>An example run\<close>

definition demo_endpoint :: WebhookEndpoint where
  "demo_endpoint = \<lparr>ep_id = 1, owner = 4, url_hash = [5], secret_hash = [6], topics = [''award''],
     active = True, ep_secret_epoch = 1, last_sequence = 0, ep_created_at = 20, updated_at = 20\<rparr>"

definition demo_record :: DeliveryRecord where
  "demo_record = \<lparr>dlv_endpoint = 1, dlv_event = 1, dlv_sequence = 1, dlv_epoch = 1, dlv_expires_at = 100,
     attempt = 1, recorded_at = 30, outcome_of = Delivered, acked_at = 0\<rparr>"

definition demo_enrolled :: outbox_state where
  "demo_enrolled = demo_queued\<lparr>Endpoint := [1 \<mapsto> demo_endpoint], NextEndpointId := Some 2,
     EnrolledEndpoints := Some 1\<rparr>"

definition demo_sent :: outbox_state where
  "demo_sent = demo_enrolled\<lparr>Endpoint := [1 \<mapsto> demo_endpoint\<lparr>last_sequence := 1, updated_at := 30\<rparr>],
     Attempts := [(1, 1) \<mapsto> 1], Delivery := [(1, 1) \<mapsto> demo_record], DeliveryFloor := [1 \<mapsto> 1],
     DeliveryCount := [1 \<mapsto> 1]\<rparr>"

definition demo_acked :: outbox_state where
  "demo_acked = demo_sent\<lparr>Delivery := [(1, 1) \<mapsto> demo_record\<lparr>acked_at := 40\<rparr>], EndpointAck := [1 \<mapsto> 1]\<rparr>"

lemmas demo_webhook = demo_endpoint_def demo_record_def demo_enrolled_def demo_sent_def demo_acked_def
  MAX_ENDPOINT_TOPICS_def MAX_ENDPOINTS_def MAX_DELIVERY_HISTORY_def

lemma demo_register:
  "outbox_exec (demo_env 20) (RegisterEndpoint 1 4 [5] [6] [''award'']) demo_queued = Ok demo_enrolled"
  by (simp add: register_endpoint_def require_admin_def require_commitment_def zero32_def save_endpoint_def
      state_of_def demo_outbox demo_webhook u64_checked_def range_defs Let_def numeral_2_eq_2 [symmetric]
      Cons_replicate_eq)

lemma demo_record_delivery:
  "record_delivery (demo_env 30) 1 1 1 1 100 Delivered demo_enrolled = Ok (1, demo_sent)"
  by (simp add: record_delivery_def operator_auth_def require_admin_def load_endpoint_def next_sequence_def
      retain_delivery_def save_endpoint_def demo_outbox demo_webhook u64_checked_def u32_checked_def
      range_defs Let_def)

lemma demo_acknowledge: "acknowledge_delivery (demo_env 40) 4 1 1 demo_sent = Ok demo_acked"
  by (simp add: acknowledge_delivery_def load_endpoint_def demo_outbox demo_webhook Let_def)

lemma demo_webhook_reachable:
  "outbox_step\<^sup>*\<^sup>* outbox_init demo_enrolled" "outbox_step\<^sup>*\<^sup>* outbox_init demo_sent"
proof -
  have "outbox_step demo_queued demo_enrolled"
    by (rule outbox_step.call [OF demo_register]) (simp add: demo_env_def)
  then show enrolled: "outbox_step\<^sup>*\<^sup>* outbox_init demo_enrolled"
    using demo_outbox_reachable(3) by (rule rtranclp.rtrancl_into_rtrancl [rotated])
  have "outbox_step demo_enrolled demo_sent"
    by (rule outbox_step.call [of "demo_env 30" "RecordDelivery 1 1 1 1 100 Delivered"])
      (simp only: outbox_exec.simps state_of_def demo_record_delivery and_then.simps prod.case,
        simp add: demo_env_def)
  with enrolled show "outbox_step\<^sup>*\<^sup>* outbox_init demo_sent" by (rule rtranclp.rtrancl_into_rtrancl)
qed

theorem webhook_history_window_witness:
  "is_ok (get_delivery demo_sent 1 1) \<and> \<not> is_ok (get_delivery demo_sent 1 2) \<and>
   delivery_history_floor demo_sent 1 = 1"
  using webhook_history_window [OF demo_webhook_reachable(2), of 1 "demo_endpoint\<lparr>last_sequence := 1, updated_at := 30\<rparr>"]
  by (simp add: demo_webhook)

theorem webhook_no_replay_witness:
  "\<not> is_ok (record_delivery (demo_env 50) 1 1 2 1 100 Failed demo_sent) \<and>
   \<not> is_ok (acknowledge_delivery (demo_env 50) 4 1 1 demo_acked)"
proof -
  have now: "0 < timestamp (demo_env 30)" "0 < timestamp (demo_env 40)" by (simp_all add: demo_env_def)
  show ?thesis
    using webhook_no_replay [OF demo_webhook_reachable(1) now(1) demo_record_delivery rtranclp.rtrancl_refl
        demo_acknowledge now(2) rtranclp.rtrancl_refl order_refl] by blast
qed

end
