(* ===== verification/Outbox_Settlements.thy ===== *)
theory Outbox_Settlements
  imports Outbox_Webhooks
begin

text \<open>
  The settlement part of the scholarship outbox: payment intents are compared with the ledger only after
  their finality window, a verdict is reached once, and alarms are counted.
\<close>

section \<open>How one intent changes\<close>

text \<open>One transition of a tracked intent at ledger time \<open>now\<close> and ledger sequence \<open>sq\<close>.\<close>

inductive intent_step :: "nat \<Rightarrow> nat \<Rightarrow> SettlementIntent \<Rightarrow> SettlementIntent \<Rightarrow> bool"
  for now sq where
  observe: "\<lbrakk>state x = Pending; observed_ledger x = 0; 0 < l; l \<le> sq\<rbrakk> \<Longrightarrow>
    intent_step now sq x (x\<lparr>observed_tx_hash := tx, observed_ledger := l\<rparr>)"
| adjudicate: "\<lbrakk>state x = Pending; 0 < observed_ledger x; observed_ledger x + required_finality x \<le> sq\<rbrakk> \<Longrightarrow>
    intent_step now sq x (x\<lparr>attempts := attempts x + 1, observed_amount := n, reconciled_at := now,
      state := (if n = expected_amount x then Reconciled else Mismatched)\<rparr>)"
| expire: "state x = Pending \<Longrightarrow> intent_step now sq x (x\<lparr>state := Expired, reconciled_at := now\<rparr>)"
| resolve: "\<lbrakk>is_alerting (state x); h \<noteq> zero32\<rbrakk> \<Longrightarrow>
    intent_step now sq x (x\<lparr>state := Reconciled, reconciled_at := now, resolution_hash := h\<rparr>)"

inductive_cases intent_stepE: "intent_step now sq x y"

lemma intent_step_terms:
  "intent_step now sq x y \<Longrightarrow> intent_id y = intent_id x \<and> int_source y = int_source x \<and>
     int_correlation y = int_correlation x \<and> expected_amount y = expected_amount x \<and>
     opened_at y = opened_at x \<and> required_finality y = required_finality x"
  by (erule intent_step.cases) simp_all

text \<open>The number of intents that are in an alarming state.\<close>

definition alarm :: "SettlementIntent \<Rightarrow> int" where
  "alarm x = (if is_alerting (state x) then 1 else 0)"

section \<open>What a successful call did\<close>

text \<open>
  Every settlement call opens an intent, steps one, archives one, or changes nothing; a step that ends in
  an alarming state raises the alarm counter by one.
\<close>

definition settle_effect :: "env \<Rightarrow> outbox_state \<Rightarrow> outbox_state \<Rightarrow> bool" where
  "settle_effect env s t \<longleftrightarrow>
     Intent t = Intent s \<and> alert_count t = alert_count s \<and> tracked_intents t = tracked_intents s \<or>
     (\<exists>k x. Intent s k = None \<and> Intent t = (Intent s)(k \<mapsto> x) \<and> intent_id x = k \<and> state x = Pending \<and>
        0 < expected_amount x \<and> 0 < required_finality x \<and> required_finality x \<le> MAX_FINALITY \<and>
        observed_ledger x = 0 \<and> tracked_intents s < MAX_TRACKED_INTENTS \<and>
        tracked_intents t = tracked_intents s + 1 \<and> alert_count t = alert_count s) \<or>
     (\<exists>k x y. Intent s k = Some x \<and> intent_step (timestamp env) (ledger_sequence env) x y \<and>
        Intent t = (Intent s)(intent_id x \<mapsto> y) \<and> tracked_intents t = tracked_intents s \<and>
        alert_count t = alert_count s + (if is_alerting (state y) then 1 else 0)) \<or>
     (\<exists>k x. Intent s k = Some x \<and> state x = Reconciled \<and> Intent t = (Intent s)(k := None) \<and>
        tracked_intents t = tracked_intents s - 1 \<and> alert_count t = alert_count s)"

lemma open_effect:
  assumes "open_settlement env a k src c n f s = Ok t"
  shows "settle_effect env s t"
proof -
  let ?x = "\<lparr>intent_id = k, int_source = src, int_correlation = c, expected_amount = n, state = Pending,
      opened_at = timestamp env, required_finality = f, observed_tx_hash = zero32, observed_ledger = 0,
      observed_amount = 0, attempts = 0, reconciled_at = 0, resolution_hash = zero32\<rparr>"
  have "Intent s k = None" "Intent t = (Intent s)(k \<mapsto> ?x)" "0 < n" "0 < f" "f \<le> MAX_FINALITY"
    "tracked_intents s < MAX_TRACKED_INTENTS" "tracked_intents t = tracked_intents s + 1"
    "alert_count t = alert_count s"
    using assms
    by (auto simp: open_settlement_def save_intent_def tracked_intents_def alert_count_def outcome_iff Let_def)
  then have "\<exists>x. Intent s k = None \<and> Intent t = (Intent s)(k \<mapsto> x) \<and> intent_id x = k \<and> state x = Pending \<and>
        0 < expected_amount x \<and> 0 < required_finality x \<and> required_finality x \<le> MAX_FINALITY \<and>
        observed_ledger x = 0 \<and> tracked_intents s < MAX_TRACKED_INTENTS \<and>
        tracked_intents t = tracked_intents s + 1 \<and> alert_count t = alert_count s"
    by (intro exI [of _ ?x]) simp
  then show ?thesis unfolding settle_effect_def by blast
qed

lemma step_effect:
  assumes "Intent s k = Some x" "intent_step (timestamp env) (ledger_sequence env) x y"
    "Intent t = (Intent s)(intent_id x \<mapsto> y)" "tracked_intents t = tracked_intents s"
    "alert_count t = alert_count s + (if is_alerting (state y) then 1 else 0)"
  shows "settle_effect env s t"
  using assms unfolding settle_effect_def by blast

lemma observe_effect:
  assumes "observe_settlement env a k tx l s = Ok t"
  shows "settle_effect env s t"
proof -
  from assms obtain x where x: "Intent s k = Some x" "state x = Pending"
    and cases: "observed_ledger x \<noteq> 0 \<and> t = s \<or> observed_ledger x = 0 \<and> 0 < l \<and> l \<le> ledger_sequence env \<and>
      t = save_intent (x\<lparr>observed_tx_hash := tx, observed_ledger := l\<rparr>) s"
    by (auto simp: observe_settlement_def outcome_iff split: if_splits)
  from cases show ?thesis
  proof (elim disjE conjE)
    assume "observed_ledger x = 0" "0 < l" "l \<le> ledger_sequence env"
      and t: "t = save_intent (x\<lparr>observed_tx_hash := tx, observed_ledger := l\<rparr>) s"
    then show ?thesis
      by (intro step_effect [OF x(1) intent_step.observe [where l = l and tx = tx, OF x(2)]])
        (simp_all add: save_intent_def tracked_intents_def alert_count_def x(2) is_alerting_def)
  qed (simp add: settle_effect_def)
qed

lemma reconcile_Ok:
  assumes "reconcile_settlement env a k n s = Ok (st, t)"
  obtains (decided) x where "Intent s k = Some x" "state x \<noteq> Pending" "st = state x" "t = s"
    | (adjudicated) x y where "Intent s k = Some x" "state x = Pending" "0 < observed_ledger x"
      "observed_ledger x + required_finality x \<le> ledger_sequence env"
      "y = x\<lparr>attempts := attempts x + 1, observed_amount := n, reconciled_at := timestamp env,
         state := (if n = expected_amount x then Reconciled else Mismatched)\<rparr>"
      "st = state y" "Intent t = (Intent s)(intent_id x \<mapsto> y)" "tracked_intents t = tracked_intents s"
      "alert_count t = alert_count s + (if is_alerting (state y) then 1 else 0)"
proof -
  from assms obtain x where x: "Intent s k = Some x" by (auto simp: reconcile_settlement_def outcome_iff)
  show thesis
  proof (cases "state x = Pending")
    case False
    with assms x show thesis
      by (intro decided [OF x False]) (auto simp: reconcile_settlement_def outcome_iff Let_def)
  next
    case True
    let ?y = "\<lambda>st. x\<lparr>attempts := attempts x + 1, observed_amount := n, reconciled_at := timestamp env, state := st\<rparr>"
    have final: "0 < observed_ledger x" "observed_ledger x + required_finality x \<le> ledger_sequence env"
      using assms x True by (auto simp: reconcile_settlement_def outcome_iff Let_def)
    show thesis
    proof (cases "n = expected_amount x")
      case match: True
      then have "st = Reconciled" "t = save_intent (?y Reconciled) s"
        using assms x True final by (auto simp: reconcile_settlement_def outcome_iff Let_def)
      then show thesis
        using match
        by (intro adjudicated [OF x True final refl])
          (simp_all add: save_intent_def tracked_intents_def alert_count_def is_alerting_def)
    next
      case differ: False
      then have "st = Mismatched" "t = save_intent (?y Mismatched) (s\<lparr>AlertedIntents := Some (alert_count s + 1)\<rparr>)"
        using assms x True final by (auto simp: reconcile_settlement_def outcome_iff Let_def)
      then show thesis
        using differ
        by (intro adjudicated [OF x True final refl])
          (simp_all add: save_intent_def tracked_intents_def alert_count_def is_alerting_def)
    qed
  qed
qed

lemma reconcile_effect:
  assumes "reconcile_settlement env a k n s = Ok (st, t)"
  shows "settle_effect env s t"
  using assms
proof (cases rule: reconcile_Ok)
  case (adjudicated x y)
  have "intent_step (timestamp env) (ledger_sequence env) x y"
    unfolding adjudicated(5) by (rule intent_step.adjudicate [OF adjudicated(2-4)])
  then show ?thesis by (rule step_effect [OF adjudicated(1) _ adjudicated(7-9)])
qed (simp add: settle_effect_def)

lemma expire_effect:
  assumes "expire_settlement env a k s = Ok t"
  shows "settle_effect env s t"
proof -
  from assms obtain x where x: "Intent s k = Some x" "state x = Pending"
    and t: "raise_alert (save_intent (x\<lparr>state := Expired, reconciled_at := timestamp env\<rparr>) s) = Ok t"
    by (auto simp: expire_settlement_def outcome_iff Let_def)
  from t show ?thesis
    by (intro step_effect [OF x(1) intent_step.expire [OF x(2)]])
      (auto simp: outcome_iff save_intent_def tracked_intents_def alert_count_def is_alerting_def)
qed

lemma resolve_effect:
  assumes "resolve_settlement env a k h s = Ok t"
  shows "settle_effect env s t"
proof -
  from assms obtain x where x: "Intent s k = Some x" "is_alerting (state x)" "h \<noteq> zero32"
    and t: "t = save_intent (x\<lparr>state := Reconciled, reconciled_at := timestamp env, resolution_hash := h\<rparr>) s"
    by (auto simp: resolve_settlement_def outcome_iff)
  from t show ?thesis
    by (intro step_effect [OF x(1) intent_step.resolve [OF x(2,3)]])
      (simp_all add: save_intent_def tracked_intents_def alert_count_def is_alerting_def)
qed

lemma archive_effect:
  assumes "archive_settlement env a k s = Ok t"
  shows "settle_effect env s t"
proof -
  from assms obtain x where "Intent s k = Some x" "state x = Reconciled" "Intent t = (Intent s)(k := None)"
    "tracked_intents t = tracked_intents s - 1" "alert_count t = alert_count s"
    by (auto simp: archive_settlement_def tracked_intents_def alert_count_def outcome_iff Let_def)
  then show ?thesis unfolding settle_effect_def by blast
qed

text \<open>The other parts of the contract do not touch settlements.\<close>

definition same_settlements :: "outbox_state \<Rightarrow> outbox_state \<Rightarrow> bool" where
  "same_settlements s t \<longleftrightarrow> Intent t = Intent s \<and> AlertedIntents t = AlertedIntents s \<and>
     TrackedIntents t = TrackedIntents s"

lemma same_settlements_effect: "same_settlements s t \<Longrightarrow> settle_effect env s t"
  by (simp add: same_settlements_def settle_effect_def alert_count_def tracked_intents_def)

lemma retain_same_settlements: "retain_delivery i q s = Ok t \<Longrightarrow> same_settlements s t"
  by (drule retain_Ok) (auto simp: same_settlements_def split: if_splits)

lemma other_same_settlements:
  "initialize env a s = Ok t \<Longrightarrow> same_settlements s t"
  "enqueue env a src tp v c k p s = Ok (i, t) \<Longrightarrow> same_settlements s t"
  "mark_published env a i s = Ok t \<Longrightarrow> same_settlements s t"
  "acknowledge env x i s = Ok (j, t) \<Longrightarrow> same_settlements s t"
  "register_endpoint env a own u ky ts s = Ok (i, t) \<Longrightarrow> same_settlements s t"
  "rotate_secret env a i ky s = Ok (n, t) \<Longrightarrow> same_settlements s t"
  "set_endpoint_active env a i b s = Ok t \<Longrightarrow> same_settlements s t"
  "acknowledge_delivery env own i q s = Ok t \<Longrightarrow> same_settlements s t"
  unfolding same_settlements_def
  by (auto simp: outcome_iff elim!: enqueue_Ok publish_Ok register_Ok rotate_Ok active_Ok ack_delivery_Ok
      dest!: acknowledge_Ok)

lemma prune_same_settlements: "prune env a h l s = Ok (n, t) \<Longrightarrow> same_settlements s t"
  by (auto simp: prune_def same_settlements_def outcome_iff Let_def)

lemma record_same_settlements: "record_delivery env a i e q x r s = Ok (n, t) \<Longrightarrow> same_settlements s t"
  by (erule record_Ok, drule retain_same_settlements) (simp add: same_settlements_def attempt_stored_def)

lemma outbox_exec_effect: "outbox_exec env c s = Ok t \<Longrightarrow> settle_effect env s t"
  by (cases c)
    (auto simp: state_of_Ok
      intro: open_effect observe_effect reconcile_effect expire_effect resolve_effect archive_effect
        same_settlements_effect
      dest!: other_same_settlements prune_same_settlements record_same_settlements)

section \<open>The invariant\<close>

text \<open>
  A settled intent either matched what the ledger showed after its finality window, or was resolved by an
  operator who committed to a reason; a mismatch is a real disagreement.
\<close>

definition intent_ok :: "hash32 \<Rightarrow> SettlementIntent \<Rightarrow> bool" where
  "intent_ok k x \<longleftrightarrow> intent_id x = k \<and> 0 < expected_amount x \<and> 0 < required_finality x \<and>
     required_finality x \<le> MAX_FINALITY \<and>
     (case state x of
        Pending \<Rightarrow> True
      | Reconciled \<Rightarrow> resolution_hash x \<noteq> zero32 \<or> 0 < observed_ledger x \<and> observed_amount x = expected_amount x
      | Mismatched \<Rightarrow> 0 < observed_ledger x \<and> observed_amount x \<noteq> expected_amount x
      | Expired \<Rightarrow> True)"

definition settlements_wf :: "outbox_state \<Rightarrow> bool" where
  "settlements_wf s \<longleftrightarrow>
     finite (dom (Intent s)) \<and> tracked_intents s = card (dom (Intent s)) \<and>
     tracked_intents s \<le> MAX_TRACKED_INTENTS \<and>
     (\<forall>k x. Intent s k = Some x \<longrightarrow> intent_ok k x) \<and>
     msum alarm (Intent s) \<le> int (alert_count s)"

lemma settlements_init_wf: "settlements_wf outbox_init"
  by (simp add: settlements_wf_def outbox_init_def tracked_intents_def)

lemma intent_step_ok: "intent_step now sq x y \<Longrightarrow> intent_ok k x \<Longrightarrow> intent_ok k y"
  by (erule intent_step.cases) (auto simp: intent_ok_def is_alerting_def)

lemma effect_wf:
  assumes "settle_effect env s t" "settlements_wf s"
  shows "settlements_wf t"
proof -
  have fin: "finite (dom (Intent s))" and count: "tracked_intents s = card (dom (Intent s))"
    and bound: "tracked_intents s \<le> MAX_TRACKED_INTENTS"
    and ok: "\<And>k x. Intent s k = Some x \<Longrightarrow> intent_ok k x" and alarms: "msum alarm (Intent s) \<le> int (alert_count s)"
    using assms(2) by (simp_all add: settlements_wf_def)
  show ?thesis
    using assms(1) unfolding settle_effect_def
  proof (elim disjE exE conjE)
    assume "Intent t = Intent s" "alert_count t = alert_count s" "tracked_intents t = tracked_intents s"
    with assms(2) show ?thesis by (simp add: settlements_wf_def)
  next
    fix k x
    assume *: "Intent s k = None" "Intent t = (Intent s)(k \<mapsto> x)" "intent_id x = k" "state x = Pending"
      "0 < expected_amount x" "0 < required_finality x" "required_finality x \<le> MAX_FINALITY"
      "tracked_intents s < MAX_TRACKED_INTENTS" "tracked_intents t = tracked_intents s + 1"
      "alert_count t = alert_count s"
    have "msum alarm (Intent t) = msum alarm (Intent s)"
      using fin *(1,2,4) by (simp add: msum_insert alarm_def is_alerting_def)
    moreover have "card (dom (Intent t)) = card (dom (Intent s)) + 1"
      using fin *(1,2) by (simp add: domIff)
    ultimately show ?thesis
      using * fin count ok alarms by (auto simp: settlements_wf_def intent_ok_def split: if_splits)
  next
    fix k x y
    assume *: "Intent s k = Some x" "intent_step (timestamp env) (ledger_sequence env) x y"
      "Intent t = (Intent s)(intent_id x \<mapsto> y)" "tracked_intents t = tracked_intents s"
      "alert_count t = alert_count s + (if is_alerting (state y) then 1 else 0)"
    have k: "intent_id x = k" using ok [OF *(1)] by (simp add: intent_ok_def)
    have "msum alarm (Intent t) \<le> int (alert_count t)"
      using fin *(1,3,5) alarms by (simp add: k msum_replace alarm_def)
    moreover have "dom (Intent t) = dom (Intent s)" using *(1,3) k by auto
    moreover have "intent_ok j z" if "Intent t j = Some z" for j z
      using that *(1,3) ok intent_step_ok [OF *(2) ok [OF *(1)]] by (auto simp: k split: if_splits)
    ultimately show ?thesis
      using fin count bound *(4) by (simp add: settlements_wf_def)
  next
    fix k x
    assume *: "Intent s k = Some x" "state x = Reconciled" "Intent t = (Intent s)(k := None)"
      "tracked_intents t = tracked_intents s - 1" "alert_count t = alert_count s"
    have "msum alarm (Intent t) = msum alarm (Intent s)"
      using fin *(1-3) by (simp add: msum_remove alarm_def is_alerting_def)
    moreover have "card (dom (Intent t)) = card (dom (Intent s)) - 1"
      using fin *(1,3) by (simp add: card_Diff_singleton_if domIff)
    ultimately show ?thesis
      using * fin count bound ok alarms by (auto simp: settlements_wf_def split: if_splits)
  qed
qed

interpretation outbox_settlements: preserved outbox_step settlements_wf
  by unfold_locales (auto intro: effect_wf outbox_exec_effect elim!: outbox_stepE)

lemmas outbox_settlements_wf = outbox_settlements.run [OF _ settlements_init_wf]

section \<open>Properties\<close>

text \<open>
  The settlement books are sound. In every reachable state the tracked-intent counter is the number
  of stored intents and within its bound, the alarm counter is at least the number of intents in an
  alarming state, and an amount reported as settled is the expected one, observed on the ledger, unless an
  operator resolved the intent with a committed reason.
\<close>

theorem settlement_books_sound:
  assumes "outbox_step\<^sup>*\<^sup>* outbox_init s"
  shows "tracked_intents s = card (dom (Intent s)) \<and> tracked_intents s \<le> MAX_TRACKED_INTENTS \<and>
    card {k. \<exists>x. Intent s k = Some x \<and> is_alerting (state x)} \<le> alert_count s \<and>
    (\<forall>k n. settled_amount s k = Ok n \<longrightarrow>
       (\<exists>x. Intent s k = Some x \<and> (n = expected_amount x \<and> 0 < observed_ledger x \<or> resolution_hash x \<noteq> zero32)))"
proof -
  have wf: "settlements_wf s" by (rule outbox_settlements_wf [OF assms])
  let ?A = "{k. \<exists>x. Intent s k = Some x \<and> is_alerting (state x)}"
  have "msum alarm (Intent s) = int (card ?A)"
  proof -
    have "msum alarm (Intent s) = (\<Sum>k\<in>dom (Intent s). if k \<in> ?A then 1 else 0)"
      unfolding msum_def by (rule sum.cong) (auto simp: alarm_def)
    also have "\<dots> = int (card (dom (Intent s) \<inter> ?A))"
      using wf by (simp add: sum.If_cases settlements_wf_def)
    also have "dom (Intent s) \<inter> ?A = ?A" by auto
    finally show ?thesis .
  qed
  then have "card ?A \<le> alert_count s" using wf by (simp add: settlements_wf_def)
  moreover have "\<exists>x. Intent s k = Some x \<and> (n = expected_amount x \<and> 0 < observed_ledger x \<or> resolution_hash x \<noteq> zero32)"
    if "settled_amount s k = Ok n" for k n
  proof -
    from that obtain x where "Intent s k = Some x" by (auto simp: settled_amount_def outcome_iff)
    then have x: "Intent s k = Some x" "state x = Reconciled" "n = observed_amount x"
      using that by (cases "state x"; simp add: settled_amount_def load_intent_def)+
    then have "intent_ok k x" using wf by (simp add: settlements_wf_def)
    with x show ?thesis by (auto simp: intent_ok_def)
  qed
  ultimately show ?thesis using wf by (simp add: settlements_wf_def)
qed

text \<open>
  C15. Every call of the contract refines the settlement state machine: it leaves a tracked intent as it
  is, takes one transition of \<open>intent_step\<close> with the call's ledger time and sequence, or archives an intent
  that is settled. So a verdict needs an observed transaction and its full finality window, the observed
  transaction is never replaced, a verdict changes only by an explicit resolution, and the terms never
  change.
\<close>

theorem settlements_refine_machine:
  assumes "outbox_step\<^sup>*\<^sup>* outbox_init s" "outbox_exec env c s = Ok t" "Intent s k = Some x"
  shows "Intent t k = Some x \<or>
    (\<exists>y. Intent t k = Some y \<and> intent_step (timestamp env) (ledger_sequence env) x y) \<or>
    Intent t k = None \<and> state x = Reconciled"
proof -
  have ok: "intent_id z = j" if "Intent s j = Some z" for j z
    using outbox_settlements_wf [OF assms(1)] that by (simp add: settlements_wf_def intent_ok_def)
  from outbox_exec_effect [OF assms(2)] show ?thesis
    unfolding settle_effect_def
  proof (elim disjE exE conjE)
    fix j z y
    assume *: "Intent s j = Some z" "intent_step (timestamp env) (ledger_sequence env) z y"
      "Intent t = (Intent s)(intent_id z \<mapsto> y)"
    then show ?thesis using ok [OF *(1)] assms(3) by (cases "j = k") auto
  qed (use assms(3) in auto)
qed

text \<open>
  The counter of alarms only counts up: a resolved alarm stays counted, although the comment on
  \<open>alert_count\<close> says that the number goes down by resolving alarms.
\<close>

lemma alarms_never_fall:
  assumes "outbox_exec env c s = Ok t"
  shows "alert_count s \<le> alert_count t"
  using outbox_exec_effect [OF assms] unfolding settle_effect_def by auto

section \<open>An example run\<close>

definition demo_claim :: SettlementIntent where
  "demo_claim = \<lparr>intent_id = [7], int_source = 3, int_correlation = [8], expected_amount = 50, state = Pending,
     opened_at = 10, required_finality = 2, observed_tx_hash = zero32, observed_ledger = 0, observed_amount = 0,
     attempts = 0, reconciled_at = 0, resolution_hash = zero32\<rparr>"

definition demo_opened :: outbox_state where
  "demo_opened = demo_fresh\<lparr>Intent := [[7] \<mapsto> demo_claim], TrackedIntents := Some 1\<rparr>"

definition demo_seen :: SettlementIntent where
  "demo_seen = demo_claim\<lparr>observed_tx_hash := [6], observed_ledger := 11\<rparr>"

definition demo_observed :: outbox_state where
  "demo_observed = demo_opened\<lparr>Intent := [[7] \<mapsto> demo_seen]\<rparr>"

definition demo_settled :: outbox_state where
  "demo_settled = demo_observed\<lparr>Intent := [[7] \<mapsto> demo_seen\<lparr>attempts := 1, observed_amount := 50,
     reconciled_at := 14, state := Reconciled\<rparr>]\<rparr>"

lemmas demo_settlement = demo_claim_def demo_opened_def demo_seen_def demo_observed_def demo_settled_def
  MAX_FINALITY_def MAX_TRACKED_INTENTS_def

lemma demo_open: "outbox_exec (demo_env 10) (OpenSettlement 1 [7] 3 [8] 50 2) demo_fresh = Ok demo_opened"
  by (simp add: open_settlement_def operator_auth_def require_admin_def save_intent_def demo_settlement
      demo_outbox u64_checked_def range_defs Let_def)

lemma demo_observe: "outbox_exec (demo_env 12) (ObserveSettlement 1 [7] [6] 11) demo_opened = Ok demo_observed"
  by (simp add: observe_settlement_def operator_auth_def require_admin_def load_intent_def save_intent_def
      demo_settlement demo_outbox)

lemma demo_reconcile: "outbox_exec (demo_env 14) (ReconcileSettlement 1 [7] 50) demo_observed = Ok demo_settled"
  by (simp add: reconcile_settlement_def operator_auth_def require_admin_def load_intent_def save_intent_def
      demo_settlement demo_outbox state_of_def u32_checked_def range_defs Let_def)

lemma demo_settlement_reachable:
  "outbox_step\<^sup>*\<^sup>* outbox_init demo_observed" "outbox_step\<^sup>*\<^sup>* outbox_init demo_settled"
proof -
  have "outbox_step demo_fresh demo_opened" "outbox_step demo_opened demo_observed"
    "outbox_step demo_observed demo_settled"
    by (rule outbox_step.call, rule demo_open demo_observe demo_reconcile, simp add: demo_env_def)+
  then show "outbox_step\<^sup>*\<^sup>* outbox_init demo_observed" "outbox_step\<^sup>*\<^sup>* outbox_init demo_settled"
    using demo_outbox_reachable(1) by (meson rtranclp.rtrancl_into_rtrancl)+
qed

theorem settlement_books_sound_witness:
  "tracked_intents demo_settled = card (dom (Intent demo_settled)) \<and> settled_amount demo_settled [7] = Ok 50"
  using settlement_books_sound [OF demo_settlement_reachable(2)]
  by (simp add: settled_amount_def load_intent_def demo_settled_def)

theorem settlements_refine_machine_witness:
  "\<exists>y. Intent demo_settled [7] = Some y \<and> intent_step 14 14 demo_seen y"
  using settlements_refine_machine [OF demo_settlement_reachable(1) demo_reconcile, of "[7]" demo_seen]
  by (simp add: demo_settlement demo_env_def)

text \<open>
  An archived identifier can be opened again: only the tracked intents are compared, so a settled
  payment that was archived does not stop a second intent under its identifier.
\<close>

lemma archived_intent_reopened:
  "is_ok (run_calls outbox_exec [(demo_env 20, ArchiveSettlement 1 [7]),
     (demo_env 21, OpenSettlement 1 [7] 3 [8] 50 2)] demo_settled)"
  by (simp add: archive_settlement_def open_settlement_def operator_auth_def require_admin_def load_intent_def
      save_intent_def demo_settlement demo_outbox u64_checked_def range_defs Let_def)

text \<open>Expiry does not look for an observed transaction: an intent with one can be expired as well.\<close>

lemma observed_intent_expired:
  "is_ok (outbox_exec (demo_env 13) (ExpireSettlement 1 [7]) demo_observed)"
  by (simp add: expire_settlement_def operator_auth_def require_admin_def load_intent_def save_intent_def
      raise_alert_def demo_settlement demo_outbox u64_checked_def range_defs Let_def)

end
