(* ===== verification/Library_Deposits.thy ===== *)
theory Library_Deposits
  imports CHV_Token Counter_Ids
begin

text \<open>
  \<open>contracts/library-deposits/src/lib.rs\<close>: refundable deposits on physical loans. A patron locks
  tokens; the admin charges part or all of them to the treasury; the patron or the admin releases
  what is left. Identifiers are hashes of a counter and more data, as in the vault.
\<close>

section \<open>State and operations\<close>

datatype DepositError =
    NotInitialized | AlreadyInitialized | Unauthorized | NotFound | InvalidAmount | AlreadyClosed
  | InsufficientBalance | Overflow

datatype DepositStatus = Locked | Released | Charged

record Deposit =
  loan_id :: hash32
  patron :: address
  token :: address
  original_amount :: int
  remaining_amount :: int
  status :: DepositStatus

record deposits_state =
  Admin :: "address option"
  Treasury :: "address option"
  DepositCount :: "nat option"
  Deposits :: "hash32 \<rightharpoonup> Deposit"

definition deposits_init :: deposits_state where
  "deposits_init = \<lparr>Admin = None, Treasury = None, DepositCount = None, Deposits = Map.empty\<rparr>"

definition require_admin :: "env \<Rightarrow> deposits_state \<Rightarrow> address \<Rightarrow> (DepositError, unit) outcome" where
  "require_admin env s caller =
     and_then (ok_or (Admin s) NotInitialized) (\<lambda>admin.
     if caller \<noteq> admin then Err Unauthorized
     else and_then (require_auth env caller) (\<lambda>_. Ok ()))"

definition load_deposit :: "deposits_state \<Rightarrow> hash32 \<Rightarrow> (DepositError, Deposit) outcome" where
  "load_deposit s did = ok_or (Deposits s did) NotFound"

definition save_deposit :: "hash32 \<Rightarrow> Deposit \<Rightarrow> deposits_state \<Rightarrow> deposits_state" where
  "save_deposit did d s = s\<lparr>Deposits := (Deposits s)(did \<mapsto> d)\<rparr>"

definition next_deposit_id ::
  "(bytes \<Rightarrow> hash32) \<Rightarrow> (address \<Rightarrow> bytes) \<Rightarrow> env \<Rightarrow> hash32 \<Rightarrow> address \<Rightarrow> deposits_state \<Rightarrow>
   (DepositError, hash32 \<times> deposits_state) outcome" where
  "next_deposit_id sha xdr env lid p s =
     (let n = unwrap_or (DepositCount s) 0 in
      and_then (ok_or (u64_checked (n + 1)) Overflow) (\<lambda>nxt.
      Ok (sha (be_bytes 8 nxt @ be_bytes 8 (timestamp env) @ lid @ xdr p),
          s\<lparr>DepositCount := Some nxt\<rparr>)))"

definition get_treasury :: "deposits_state \<Rightarrow> (DepositError, address) outcome" where
  "get_treasury s = ok_or (Treasury s) NotInitialized"

definition initialize ::
  "env \<Rightarrow> address \<Rightarrow> address \<Rightarrow> deposits_state \<Rightarrow> (DepositError, deposits_state) outcome" where
  "initialize env admin treasury s =
     (if Admin s \<noteq> None then Err AlreadyInitialized
      else and_then (require_auth env admin) (\<lambda>_.
      Ok (s\<lparr>Admin := Some admin, Treasury := Some treasury\<rparr>)))"

definition lock_deposit ::
  "(bytes \<Rightarrow> hash32) \<Rightarrow> (address \<Rightarrow> bytes) \<Rightarrow> 'w transfer_fn \<Rightarrow> env \<Rightarrow>
   address \<Rightarrow> hash32 \<Rightarrow> address \<Rightarrow> int \<Rightarrow> deposits_state \<times> 'w \<Rightarrow>
   (DepositError, hash32 \<times> deposits_state \<times> 'w) outcome" where
  "lock_deposit sha xdr xfer env p lid t n = (\<lambda>(s, w).
     and_then (ok_or (Admin s) NotInitialized) (\<lambda>_.
     if n \<le> 0 then Err InvalidAmount
     else and_then (require_auth env p) (\<lambda>_.
     and_then (unwrap (xfer w t p (self env) n)) (\<lambda>w.
     and_then (next_deposit_id sha xdr env lid p s) (\<lambda>(did, s).
     let d = \<lparr>loan_id = lid, patron = p, token = t, original_amount = n, remaining_amount = n,
              status = Locked\<rparr>
     in Ok (did, save_deposit did d s, w))))))"

definition release_deposit ::
  "'w transfer_fn \<Rightarrow> env \<Rightarrow> address \<Rightarrow> hash32 \<Rightarrow> deposits_state \<times> 'w \<Rightarrow>
   (DepositError, deposits_state \<times> 'w) outcome" where
  "release_deposit xfer env caller did = (\<lambda>(s, w).
     and_then (load_deposit s did) (\<lambda>d.
     if status d \<noteq> Locked then Err AlreadyClosed
     else and_then (ok_or (Admin s) NotInitialized) (\<lambda>admin.
     if caller \<noteq> admin \<and> caller \<noteq> patron d then Err Unauthorized
     else and_then (require_auth env caller) (\<lambda>_.
     let refund = remaining_amount d in
     and_then (unwrap (xfer w (token d) (self env) (patron d) refund)) (\<lambda>w.
     Ok (save_deposit did (d\<lparr>remaining_amount := 0, status := Released\<rparr>) s, w))))))"

definition partial_charge ::
  "'w transfer_fn \<Rightarrow> env \<Rightarrow> address \<Rightarrow> hash32 \<Rightarrow> int \<Rightarrow> deposits_state \<times> 'w \<Rightarrow>
   (DepositError, deposits_state \<times> 'w) outcome" where
  "partial_charge xfer env caller did charge_amount = (\<lambda>(s, w).
     and_then (require_admin env s caller) (\<lambda>_.
     if charge_amount \<le> 0 then Err InvalidAmount
     else and_then (load_deposit s did) (\<lambda>d.
     if status d \<noteq> Locked then Err AlreadyClosed
     else if charge_amount > remaining_amount d then Err InsufficientBalance
     else and_then (get_treasury s) (\<lambda>treasury.
     and_then (unwrap (xfer w (token d) (self env) treasury charge_amount)) (\<lambda>w.
     and_then (ok_or (i128_checked (remaining_amount d - charge_amount)) Overflow) (\<lambda>left.
     Ok (save_deposit did (d\<lparr>remaining_amount := left\<rparr>) s, w)))))))"

definition full_charge ::
  "'w transfer_fn \<Rightarrow> env \<Rightarrow> address \<Rightarrow> hash32 \<Rightarrow> deposits_state \<times> 'w \<Rightarrow>
   (DepositError, deposits_state \<times> 'w) outcome" where
  "full_charge xfer env caller did = (\<lambda>(s, w).
     and_then (require_admin env s caller) (\<lambda>_.
     and_then (load_deposit s did) (\<lambda>d.
     if status d \<noteq> Locked then Err AlreadyClosed
     else
       let remaining = remaining_amount d in
       if remaining \<le> 0 then Err InvalidAmount
       else and_then (get_treasury s) (\<lambda>treasury.
       and_then (unwrap (xfer w (token d) (self env) treasury remaining)) (\<lambda>w.
       Ok (save_deposit did (d\<lparr>remaining_amount := 0, status := Charged\<rparr>) s, w))))))"

definition get_deposit :: "deposits_state \<Rightarrow> hash32 \<Rightarrow> (DepositError, Deposit) outcome" where
  "get_deposit s did = load_deposit s did"

section \<open>Calls and steps\<close>

datatype deposits_call =
    Initialize address address | LockDeposit address hash32 address int
  | ReleaseDeposit address hash32 | PartialCharge address hash32 int | FullCharge address hash32

fun deposits_exec ::
  "(bytes \<Rightarrow> hash32) \<Rightarrow> (address \<Rightarrow> bytes) \<Rightarrow> 'w transfer_fn \<Rightarrow> env \<Rightarrow> deposits_call \<Rightarrow>
   deposits_state \<times> 'w \<Rightarrow> (DepositError, deposits_state \<times> 'w) outcome" where
  "deposits_exec sha xdr xfer env (Initialize a t) (s, w) =
     and_then (initialize env a t s) (\<lambda>s. Ok (s, w))"
| "deposits_exec sha xdr xfer env (LockDeposit p lid t n) sw =
     and_then (lock_deposit sha xdr xfer env p lid t n sw) (\<lambda>(did, sw). Ok sw)"
| "deposits_exec sha xdr xfer env (ReleaseDeposit a did) sw = release_deposit xfer env a did sw"
| "deposits_exec sha xdr xfer env (PartialCharge a did n) sw = partial_charge xfer env a did n sw"
| "deposits_exec sha xdr xfer env (FullCharge a did) sw = full_charge xfer env a did sw"

inductive deposits_step ::
  "(bytes \<Rightarrow> hash32) \<Rightarrow> (address \<Rightarrow> bytes) \<Rightarrow> 'w transfer_fn \<Rightarrow> address \<Rightarrow>
   deposits_state \<times> 'w \<Rightarrow> deposits_state \<times> 'w \<Rightarrow> bool"
  for sha xdr xfer me where
  call: "self env = me \<Longrightarrow> \<not> auth env me \<Longrightarrow> deposits_exec sha xdr xfer env c sw = Ok sw' \<Longrightarrow>
    deposits_step sha xdr xfer me sw sw'"

inductive_cases deposits_stepE: "deposits_step sha xdr xfer me sw sw'"

section \<open>What a successful call did\<close>

lemmas deposit_storage = load_deposit_def save_deposit_def get_treasury_def

lemma deposit_require_admin_Ok [outcome_iff]:
  "require_admin env s a = Ok u \<longleftrightarrow> Admin s = Some a \<and> auth env a"
  by (auto simp: require_admin_def outcome_iff)

lemma lock_Ok:
  assumes "lock_deposit sha xdr xfer env p lid t n (s, w) = Ok (did, s', w')"
  obtains k where "0 < n" "auth env p" "xfer w t p (self env) n = Some w'"
    "k = unwrap_or (DepositCount s) 0" "fits_u64 (k + 1)"
    "did = counter_id sha (k + 1) (be_bytes 8 (timestamp env) @ lid @ xdr p)"
    "s' = s\<lparr>DepositCount := Some (k + 1), Deposits := (Deposits s)(did \<mapsto> \<lparr>loan_id = lid, patron = p,
      token = t, original_amount = n, remaining_amount = n, status = Locked\<rparr>)\<rparr>"
  using assms
  by (auto simp: lock_deposit_def next_deposit_id_def counter_id_def deposit_storage outcome_iff Let_def)

lemma deposit_release_Ok:
  assumes "release_deposit xfer env a did (s, w) = Ok (s', w')"
  obtains d where "auth env a" "Deposits s did = Some d" "status d = Locked"
    "Admin s = Some a \<or> a = patron d"
    "xfer w (token d) (self env) (patron d) (remaining_amount d) = Some w'"
    "s' = s\<lparr>Deposits := (Deposits s)(did \<mapsto> d\<lparr>remaining_amount := 0, status := Released\<rparr>)\<rparr>"
  using assms by (auto simp: release_deposit_def deposit_storage outcome_iff Let_def)

lemma deposit_partial_Ok:
  assumes "partial_charge xfer env a did n (s, w) = Ok (s', w')"
  obtains d tr where "Admin s = Some a" "auth env a" "0 < n" "Deposits s did = Some d" "status d = Locked"
    "n \<le> remaining_amount d" "Treasury s = Some tr"
    "xfer w (token d) (self env) tr n = Some w'"
    "s' = s\<lparr>Deposits := (Deposits s)(did \<mapsto> d\<lparr>remaining_amount := remaining_amount d - n\<rparr>)\<rparr>"
  using assms by (auto simp: partial_charge_def deposit_storage outcome_iff Let_def)

lemma full_Ok:
  assumes "full_charge xfer env a did (s, w) = Ok (s', w')"
  obtains d tr where "Admin s = Some a" "auth env a" "Deposits s did = Some d" "status d = Locked"
    "0 < remaining_amount d" "Treasury s = Some tr"
    "xfer w (token d) (self env) tr (remaining_amount d) = Some w'"
    "s' = s\<lparr>Deposits := (Deposits s)(did \<mapsto> d\<lparr>remaining_amount := 0, status := Charged\<rparr>)\<rparr>"
  using assms by (auto simp: full_charge_def deposit_storage outcome_iff Let_def)

section \<open>Well-formed states and custody\<close>

definition deposit_ok :: "Deposit \<Rightarrow> bool" where
  "deposit_ok d \<longleftrightarrow> 0 < original_amount d \<and> 0 \<le> remaining_amount d \<and>
     remaining_amount d \<le> original_amount d \<and> (status d \<noteq> Locked \<longrightarrow> remaining_amount d = 0)"

definition deposits_wf :: "(bytes \<Rightarrow> hash32) \<Rightarrow> deposits_state \<Rightarrow> bool" where
  "deposits_wf sha s \<longleftrightarrow> inj sha \<and> finite (dom (Deposits s)) \<and>
     issued sha (unwrap_or (DepositCount s) 0) (dom (Deposits s)) \<and>
     (\<forall>did d. Deposits s did = Some d \<longrightarrow> deposit_ok d)"

definition deposits_liab :: "deposits_state \<Rightarrow> address \<Rightarrow> int" where
  "deposits_liab s t = msum (\<lambda>d. if token d = t then remaining_amount d else 0) (Deposits s)"

lemma deposits_init_wf: "inj sha \<Longrightarrow> deposits_wf sha deposits_init"
  by (simp add: deposits_wf_def deposits_init_def)

lemma wf_deposit: "deposits_wf sha s \<Longrightarrow> Deposits s did = Some d \<Longrightarrow> deposit_ok d"
  by (simp add: deposits_wf_def)

lemma deposit_id_fresh:
  assumes "deposits_wf sha s" "fits_u64 (unwrap_or (DepositCount s) 0 + 1)"
  shows "Deposits s (counter_id sha (unwrap_or (DepositCount s) 0 + 1) rest) = None"
  using assms counter_id_fresh unfolding deposits_wf_def by (meson domIff)

lemma deposit_wf_save:
  assumes "deposits_wf sha s" "Deposits s did = Some d" "deposit_ok d'"
  shows "deposits_wf sha (s\<lparr>Deposits := (Deposits s)(did \<mapsto> d')\<rparr>)"
  using assms unfolding deposits_wf_def by (auto simp: insert_absorb domI)

lemma deposit_liab_save:
  assumes "deposits_wf sha s" "Deposits s did = Some d" "token d' = token d"
  shows "deposits_liab (s\<lparr>Deposits := (Deposits s)(did \<mapsto> d')\<rparr>) t =
    deposits_liab s t - (if t = token d then remaining_amount d - remaining_amount d' else 0)"
  using assms by (simp add: deposits_liab_def msum_replace deposits_wf_def)

lemma lock_wf:
  assumes "lock_deposit sha xdr xfer env p lid t n (s, w) = Ok (did, s', w')" "deposits_wf sha s"
  shows "deposits_wf sha s'"
  using assms(1)
  by (rule lock_Ok)
    (use assms(2) issued_insert [of sha "unwrap_or (DepositCount s) 0" "dom (Deposits s)"]
      in \<open>auto simp: deposits_wf_def deposit_ok_def\<close>)

lemma close_wf:
  "initialize env a tr s = Ok s' \<Longrightarrow> deposits_wf sha s \<Longrightarrow> deposits_wf sha s'"
  "release_deposit xfer env a did (s, w) = Ok (s', w') \<Longrightarrow> deposits_wf sha s \<Longrightarrow> deposits_wf sha s'"
  "partial_charge xfer env a did n (s, w) = Ok (s', w') \<Longrightarrow> deposits_wf sha s \<Longrightarrow> deposits_wf sha s'"
  "full_charge xfer env a did (s, w) = Ok (s', w') \<Longrightarrow> deposits_wf sha s \<Longrightarrow> deposits_wf sha s'"
proof -
  show "initialize env a tr s = Ok s' \<Longrightarrow> deposits_wf sha s \<Longrightarrow> deposits_wf sha s'"
    by (auto simp: initialize_def deposits_wf_def outcome_iff)
  show "release_deposit xfer env a did (s, w) = Ok (s', w') \<Longrightarrow> deposits_wf sha s \<Longrightarrow> deposits_wf sha s'"
    by (erule deposit_release_Ok, frule (1) wf_deposit, hypsubst, rule deposit_wf_save) (auto simp: deposit_ok_def)
  show "partial_charge xfer env a did n (s, w) = Ok (s', w') \<Longrightarrow> deposits_wf sha s \<Longrightarrow> deposits_wf sha s'"
    by (erule deposit_partial_Ok, frule (1) wf_deposit, hypsubst, rule deposit_wf_save) (auto simp: deposit_ok_def)
  show "full_charge xfer env a did (s, w) = Ok (s', w') \<Longrightarrow> deposits_wf sha s \<Longrightarrow> deposits_wf sha s'"
    by (erule full_Ok, frule (1) wf_deposit, hypsubst, rule deposit_wf_save) (auto simp: deposit_ok_def)
qed

lemma deposits_exec_wf:
  "deposits_exec sha xdr xfer env c (s, w) = Ok (s', w') \<Longrightarrow> deposits_wf sha s \<Longrightarrow> deposits_wf sha s'"
  by (cases c) (auto simp: outcome_iff intro: lock_wf close_wf)

lemma lock_custody:
  assumes "lock_deposit sha xdr xfer env p lid t n (s, w) = Ok (did, s', w')" "deposits_wf sha s"
    "\<not> auth env (self env)"
  shows "custody_move xfer (auth env) (self env) (deposits_liab s) w (deposits_liab s') w'"
  using assms(1)
proof (rule lock_Ok)
  fix k
  assume *: "auth env p" "xfer w t p (self env) n = Some w'"
    "k = unwrap_or (DepositCount s) 0" "fits_u64 (k + 1)"
    "did = counter_id sha (k + 1) (be_bytes 8 (timestamp env) @ lid @ xdr p)"
    "s' = s\<lparr>DepositCount := Some (k + 1), Deposits := (Deposits s)(did \<mapsto> \<lparr>loan_id = lid, patron = p,
      token = t, original_amount = n, remaining_amount = n, status = Locked\<rparr>)\<rparr>"
  have new: "Deposits s did = None" using deposit_id_fresh assms(2) * by simp
  show ?thesis
  proof (rule custody_move.pay_in [where xfer = xfer, OF *(2)])
    show "auth env p" "p \<noteq> self env" using *(1) assms(3) by auto
    show "deposits_liab s' u \<le> deposits_liab s u + (if u = t then n else 0)" for u
      using new assms(2) by (simp add: *(6) deposits_liab_def msum_insert deposits_wf_def)
  qed
qed

lemma close_custody:
  "release_deposit xfer env a did (s, w) = Ok (s', w') \<Longrightarrow> deposits_wf sha s \<Longrightarrow>
    custody_move xfer (auth env) (self env) (deposits_liab s) w (deposits_liab s') w'"
  "partial_charge xfer env a did n (s, w) = Ok (s', w') \<Longrightarrow> deposits_wf sha s \<Longrightarrow>
    custody_move xfer (auth env) (self env) (deposits_liab s) w (deposits_liab s') w'"
  "full_charge xfer env a did (s, w) = Ok (s', w') \<Longrightarrow> deposits_wf sha s \<Longrightarrow>
    custody_move xfer (auth env) (self env) (deposits_liab s) w (deposits_liab s') w'"
  by (erule deposit_release_Ok, erule custody_move.pay_out [where xfer = xfer], simp add: deposit_liab_save)
    (erule deposit_partial_Ok, erule custody_move.pay_out [where xfer = xfer], simp add: deposit_liab_save,
     erule full_Ok, erule custody_move.pay_out [where xfer = xfer], simp add: deposit_liab_save)

lemma deposits_exec_custody:
  assumes "deposits_exec sha xdr xfer env c (s, w) = Ok (s', w')" "deposits_wf sha s"
    "\<not> auth env (self env)"
  shows "custody_move xfer (auth env) (self env) (deposits_liab s) w (deposits_liab s') w'"
proof (cases c)
  case (Initialize a tr)
  with assms(1) show ?thesis
    by (auto simp: outcome_iff initialize_def deposits_liab_def intro: custody_move.stay)
qed (use assms in \<open>auto simp: outcome_iff intro: lock_custody close_custody\<close>)

text \<open>The deposit contract is a custodian over any token ledger.\<close>

sublocale token_ledger \<subseteq> dep: custodian bal xfer "deposits_step sha xdr xfer" deposits_liab
    "deposits_wf sha" for sha xdr
  by unfold_locales (auto elim!: deposits_stepE intro: deposits_exec_wf deposits_exec_custody [THEN custody_move_mono])

context token_ledger
begin

lemmas deposits_run_solvent = dep.run_solvent

end

interpretation deposits_runs: preserved "deposits_step sha xdr xfer me" "\<lambda>sw. deposits_wf sha (fst sw)" for sha xdr xfer me
  by unfold_locales (auto elim!: deposits_stepE intro: deposits_exec_wf)

lemma deposits_run_wf:
  assumes "(deposits_step sha xdr xfer me)\<^sup>*\<^sup>* sw (s, w)" and "deposits_wf sha (fst sw)"
  shows "deposits_wf sha s"
  using deposits_runs.run [OF assms] by simp

text \<open>How one call changes one deposit.\<close>

definition deposit_progress :: "Deposit \<Rightarrow> Deposit \<Rightarrow> bool" where
  "deposit_progress d d' \<longleftrightarrow>
     loan_id d' = loan_id d \<and> patron d' = patron d \<and> token d' = token d \<and>
     original_amount d' = original_amount d \<and> remaining_amount d' \<le> remaining_amount d \<and>
     (status d \<noteq> Locked \<longrightarrow> d' = d)"

lemma deposits_exec_progress:
  assumes "deposits_exec sha xdr xfer env c (s, w) = Ok (s', w')" "deposits_wf sha s"
    "Deposits s j = Some d0"
  shows "\<exists>d1. Deposits s' j = Some d1 \<and> deposit_progress d0 d1"
proof (cases c)
  case (LockDeposit p lid t n)
  with assms(1) obtain did where "lock_deposit sha xdr xfer env p lid t n (s, w) = Ok (did, s', w')"
    by (auto simp: outcome_iff)
  then show ?thesis
    using assms(3) deposit_id_fresh [OF assms(2)]
    by (elim lock_Ok) (auto simp: deposit_progress_def)
qed (use assms(1,3) wf_deposit [OF assms(2)] in \<open>auto simp: outcome_iff initialize_def deposit_progress_def
  deposit_ok_def elim!: deposit_release_Ok deposit_partial_Ok full_Ok\<close>)

section \<open>Exact custody\<close>

text \<open>
  Patrons are never the contract itself, because they sign; if the treasury is not the contract
  either, the contract's tokens are exactly what it held before plus what it owes.
\<close>

definition deposits_exact ::
  "('w \<Rightarrow> address \<Rightarrow> address \<Rightarrow> int) \<Rightarrow> address \<Rightarrow> 'w \<Rightarrow> deposits_state \<times> 'w \<Rightarrow> bool" where
  "deposits_exact bal me w0 = (\<lambda>(s, w).
     (\<forall>did d. Deposits s did = Some d \<longrightarrow> patron d \<noteq> me) \<and> (Admin s = None \<longrightarrow> Treasury s = None) \<and>
     (Treasury s = Some me \<or> (\<forall>t. bal w t me = bal w0 t me + deposits_liab s t)))"

context token_ledger
begin

lemma lock_exact:
  assumes "lock_deposit sha xdr xfer env p lid t n (s, w) = Ok (did, s', w')" "deposits_wf sha s"
    "\<not> auth env (self env)" "deposits_exact bal (self env) w0 (s, w)"
  shows "deposits_exact bal (self env) w0 (s', w')"
  using assms(1)
proof (rule lock_Ok)
  fix k
  assume *: "auth env p" "xfer w t p (self env) n = Some w'"
    "k = unwrap_or (DepositCount s) 0" "fits_u64 (k + 1)"
    "did = counter_id sha (k + 1) (be_bytes 8 (timestamp env) @ lid @ xdr p)"
    "s' = s\<lparr>DepositCount := Some (k + 1), Deposits := (Deposits s)(did \<mapsto> \<lparr>loan_id = lid, patron = p,
      token = t, original_amount = n, remaining_amount = n, status = Locked\<rparr>)\<rparr>"
  have "Deposits s did = None" using deposit_id_fresh assms(2) * by simp
  then have "deposits_liab s' u = deposits_liab s u + (if u = t then n else 0)" for u
    using assms(2) by (simp add: *(6) deposits_liab_def msum_insert deposits_wf_def)
  moreover have "p \<noteq> self env" using *(1) assms(3) by auto
  ultimately show ?thesis
    using assms(4) *(6) by (auto simp: deposits_exact_def xfer_effect [OF *(2)])
qed

lemma payout_exact:
  assumes "deposits_exact bal me w0 (s, w)" "deposits_wf sha s" "Deposits s did = Some d"
    and "xfer w (token d) me to (remaining_amount d - remaining_amount d') = Some w'"
    and "to \<noteq> me \<or> Treasury s = Some me" "token d' = token d" "patron d' = patron d"
  shows "deposits_exact bal me w0 (s\<lparr>Deposits := (Deposits s)(did \<mapsto> d')\<rparr>, w')"
  using assms
  by (auto simp: deposits_exact_def deposit_liab_save [OF assms(2,3,6)] xfer_effect [OF assms(4)])

lemma deposits_exec_exact:
  assumes "deposits_exec sha xdr xfer env c (s, w) = Ok (s', w')" "deposits_wf sha s"
    "\<not> auth env (self env)" "deposits_exact bal (self env) w0 (s, w)"
  shows "deposits_exact bal (self env) w0 (s', w')"
proof (cases c)
  case (Initialize a tr)
  have "deposits_liab (s\<lparr>Admin := x, Treasury := y\<rparr>) t = deposits_liab s t" for x y t
    by (simp add: deposits_liab_def)
  with Initialize assms(1,4) show ?thesis
    by (auto simp: outcome_iff initialize_def deposits_exact_def)
next
  case (LockDeposit p lid t n)
  with assms show ?thesis by (auto simp: outcome_iff intro: lock_exact)
next
  case (ReleaseDeposit a did)
  with assms(1) have "release_deposit xfer env a did (s, w) = Ok (s', w')" by simp
  then show ?thesis
    using assms(4)
    by (elim deposit_release_Ok, hypsubst, intro payout_exact [OF assms(4,2)])
      (auto simp: deposits_exact_def)
next
  case (PartialCharge a did n)
  with assms(1) have "partial_charge xfer env a did n (s, w) = Ok (s', w')" by simp
  then show ?thesis
    by (elim deposit_partial_Ok, hypsubst, intro payout_exact [OF assms(4,2)]) auto
next
  case (FullCharge a did)
  with assms(1) have "full_charge xfer env a did (s, w) = Ok (s', w')" by simp
  then show ?thesis
    by (elim full_Ok, hypsubst, intro payout_exact [OF assms(4,2)]) auto
qed

lemma deposits_run_exact:
  assumes "(deposits_step sha xdr xfer me)\<^sup>*\<^sup>* sw sw'" "deposits_wf sha (fst sw)"
    "deposits_exact bal me w0 sw"
  shows "deposits_exact bal me w0 sw'"
  using assms
proof (induction rule: rtranclp_induct)
  case (step y z)
  have "deposits_wf sha (fst y)"
    using step.hyps(1) step.prems(1) by (rule dep.run_wf)
  moreover obtain env c where "self env = me" "\<not> auth env me"
    "deposits_exec sha xdr xfer env c (fst y, snd y) = Ok (fst z, snd z)"
    using step.hyps(2) by (auto elim: deposits_stepE)
  ultimately show ?case
    using deposits_exec_exact [of sha xdr env c "fst y" "snd y" "fst z" "snd z" w0] step by auto
qed simp

end

section \<open>Properties\<close>

text \<open>
  A run used by the witnesses: admin 1 with treasury 8, patron 2 locks 300 units of CHV token 50 at
  contract 99, and the admin charges all 300 through \<open>partial_charge\<close>.
\<close>

abbreviation deposit_env :: env where
  "deposit_env \<equiv> \<lparr>timestamp = 10, ledger_sequence = 7, self = 99, auth = (\<lambda>x. x < 90)\<rparr>"

definition demo_did :: hash32 where
  "demo_did = be_bytes 8 1 @ be_bytes 8 10 @ [7] @ [2]"

definition demo_deposit :: Deposit where
  "demo_deposit = \<lparr>loan_id = [7], patron = 2, token = 50, original_amount = 300,
     remaining_amount = 300, status = Locked\<rparr>"

definition demo_locked :: "deposits_state \<times> chv_world" where
  "demo_locked = (deposits_init\<lparr>Admin := Some 1, Treasury := Some 8, DepositCount := Some 1,
       Deposits := [demo_did \<mapsto> demo_deposit]\<rparr>,
     (\<lambda>_. chv_demo2)(50 := chv_demo2\<lparr>balances := [2 \<mapsto> 200, 99 \<mapsto> 300]\<rparr>))"

lemmas deposit_ops = initialize_def lock_deposit_def next_deposit_id_def partial_charge_def
  full_charge_def release_deposit_def require_admin_def deposit_storage
  chv_xfer_def transfer_def balance_def is_frozen_def

lemmas demo_deposit_defs = demo_locked_def demo_deposit_def deposits_init_def chv_demo_defs

lemma demo_deposit_run:
  "run_calls (deposits_exec id (\<lambda>a. [of_nat a]) chv_xfer)
     [(deposit_env, Initialize 1 8), (deposit_env, LockDeposit 2 [7] 50 300)]
     (deposits_init, \<lambda>_. chv_demo2) = Ok demo_locked"
  by (simp add: demo_deposit_defs deposit_ops demo_did_def range_defs Let_def u64_checked_def)

lemma deposits_run_steps:
  assumes "run_calls (deposits_exec sha xdr xfer) cs sw = Ok sw'"
    and "\<And>env c. (env, c) \<in> set cs \<Longrightarrow> self env = me \<and> \<not> auth env me"
  shows "(deposits_step sha xdr xfer me)\<^sup>*\<^sup>* sw sw'"
  using assms(1) by (rule run_calls_steps) (use assms(2) deposits_step.call in blast)

lemma demo_deposit_reachable:
  "(deposits_step id (\<lambda>a. [of_nat a]) chv_xfer 99)\<^sup>*\<^sup>* (deposits_init, \<lambda>_. chv_demo2)
     (fst demo_locked, snd demo_locked)"
  unfolding prod.collapse by (rule deposits_run_steps [OF demo_deposit_run]) auto

text \<open>
  C9. The deposit contract holds exactly what it owes. After any sequence of calls, if the treasury
  is not the contract itself, the contract's balance in every token is what it was before plus the
  remaining amounts of all deposits: no charge or release pays out more or less than it writes off.
\<close>

theorem deposits_hold_exactly:
  assumes "token_ledger bal xfer" and "inj sha"
    and "(deposits_step sha xdr xfer me)\<^sup>*\<^sup>* (deposits_init, w0) (s, w)" and "Treasury s \<noteq> Some me"
  shows "bal w t me = bal w0 t me +
    msum (\<lambda>d. if token d = t then remaining_amount d else 0) (Deposits s)"
proof -
  have "deposits_exact bal me w0 (deposits_init, w0)"
    by (simp add: deposits_exact_def deposits_init_def deposits_liab_def)
  then have "deposits_exact bal me w0 (s, w)"
    using token_ledger.deposits_run_exact [OF assms(1,3)] deposits_init_wf [OF assms(2)] by simp
  with assms(4) show ?thesis by (simp add: deposits_exact_def deposits_liab_def)
qed

theorem deposits_hold_exactly_witness:
  "chv_bal (snd demo_locked) 50 99 = 0 +
     msum (\<lambda>d. if token d = 50 then remaining_amount d else 0) (Deposits (fst demo_locked))"
  using deposits_hold_exactly [OF chv.token_ledger_axioms _ demo_deposit_reachable, of 50]
  by (simp add: demo_deposit_defs chv_bal_def balance_def)

text \<open>
  A deposit only shrinks and closes once. In every reachable state the remaining amount lies
  between zero and the original amount and is zero once the deposit is closed; a call never replaces
  a deposit, never changes its loan, patron, token or original amount, never raises what remains and
  leaves a closed deposit as it is.
\<close>

theorem deposit_lifecycle:
  assumes "inj sha" and "(deposits_step sha xdr xfer me)\<^sup>*\<^sup>* (deposits_init, w0) (s, w)"
    and "deposits_step sha xdr xfer me (s, w) (s', w')" and "Deposits s did = Some d"
  shows "0 \<le> remaining_amount d \<and> remaining_amount d \<le> original_amount d \<and>
    (status d \<noteq> Locked \<longrightarrow> remaining_amount d = 0) \<and>
    (\<exists>d'. Deposits s' did = Some d' \<and> deposit_progress d d')"
proof -
  have wf: "deposits_wf sha s"
    using deposits_run_wf [OF assms(2)] deposits_init_wf [OF assms(1)] by simp
  then have "\<exists>d'. Deposits s' did = Some d' \<and> deposit_progress d d'"
    using assms(3,4) by (auto elim!: deposits_stepE intro: deposits_exec_progress)
  with wf_deposit [OF wf assms(4)] show ?thesis by (simp add: deposit_ok_def)
qed

definition demo_charged :: deposits_state where
  "demo_charged = (fst demo_locked)\<lparr>Deposits := [demo_did \<mapsto> demo_deposit\<lparr>remaining_amount := 0\<rparr>]\<rparr>"

lemma demo_charge:
  "deposits_exec id (\<lambda>a. [of_nat a]) chv_xfer deposit_env (PartialCharge 1 demo_did 300)
     (fst demo_locked, snd demo_locked) =
   Ok (demo_charged, (snd demo_locked)(50 := chv_demo2\<lparr>balances := [2 \<mapsto> 200, 99 \<mapsto> 0, 8 \<mapsto> 300]\<rparr>))"
  by (simp add: demo_charged_def demo_deposit_defs deposit_ops range_defs Let_def i128_checked_def)

theorem deposit_lifecycle_witness:
  "\<exists>d'. Deposits demo_charged demo_did = Some d' \<and> deposit_progress demo_deposit d'"
proof -
  have step: "deposits_step id (\<lambda>a. [of_nat a]) chv_xfer 99 (fst demo_locked, snd demo_locked)
      (demo_charged, (snd demo_locked)(50 := chv_demo2\<lparr>balances := [2 \<mapsto> 200, 99 \<mapsto> 0, 8 \<mapsto> 300]\<rparr>))"
    by (rule deposits_step.call [OF _ _ demo_charge]) simp_all
  show ?thesis
    using deposit_lifecycle [OF _ demo_deposit_reachable step, of demo_did demo_deposit]
    by (simp add: demo_locked_def)
qed

text \<open>
  A deposit charged to zero by \<open>partial_charge\<close> can no longer be closed when its token is CHV. It
  stays locked: no further charge is accepted, and the release fails because it transfers the
  remaining zero, which the CHV token rejects.
\<close>

theorem exhausted_deposit_stuck:
  assumes "Deposits s did = Some d" and "status d = Locked" and "remaining_amount d = 0"
  shows "\<not> is_ok (release_deposit chv_xfer env a did (s, w)) \<and>
    \<not> is_ok (partial_charge xfer env a did n (s, w')) \<and> \<not> is_ok (full_charge xfer env a did (s, w'))"
  using assms by (auto simp: is_ok_iff chv_xfer_Some elim!: deposit_release_Ok deposit_partial_Ok full_Ok)

theorem exhausted_deposit_stuck_witness:
  "\<not> is_ok (release_deposit chv_xfer deposit_env 2 demo_did (demo_charged, snd demo_locked))"
  using exhausted_deposit_stuck [of demo_charged demo_did "demo_deposit\<lparr>remaining_amount := 0\<rparr>"
      deposit_env 2 "snd demo_locked" chv_xfer 0 "snd demo_locked"]
  by (simp add: demo_charged_def demo_deposit_def)

end
