(* ===== verification/Escrow_Vault.thy ===== *)
theory Escrow_Vault
  imports CHV_Token Counter_Ids
begin

text \<open>
  \<open>contracts/escrow-vault/src/lib.rs\<close>: a vault locks a depositor's tokens until a threshold of
  independent approvers has voted for the release, or the admin cancels it. A vault's identifier is
  a hash of a storage counter, the ledger time and the depositor. The hash function \<open>sha\<close>
  (\<open>env.crypto().sha256\<close>) and the serialisation \<open>xdr\<close> of an address (\<open>to_xdr\<close>) belong to the host and
  are arguments of the model.
\<close>

section \<open>State and operations\<close>

datatype VaultError =
    NotFound | NotPending | Unauthorized | AlreadyVoted | EmptyApprovers | DuplicateApprover
  | InvalidAmount | AlreadyInitialized | NotInitialized | ConflictOfInterest | NotVoted
  | InvalidThreshold | ThresholdExceedsApprovers

datatype VaultStatus = Pending | Released | Cancelled

record Vault =
  depositor :: address
  recipient :: address
  token :: address
  amount :: int
  approvers :: "address list"
  approvals :: nat
  threshold :: nat
  status :: VaultStatus

record vault_state =
  Admin :: "address option"
  VaultCount :: "nat option"
  Vaults :: "hash32 \<rightharpoonup> Vault"
  Voted :: "hash32 \<times> address \<rightharpoonup> bool"
  wasm_hash :: "hash32 option"

definition vault_init :: vault_state where
  "vault_init = \<lparr>Admin = None, VaultCount = None, Vaults = Map.empty, Voted = Map.empty,
     wasm_hash = None\<rparr>"

text \<open>The loop of \<open>deduplicate\<close>, with the map of addresses already seen.\<close>

fun dedup_loop :: "(address \<rightharpoonup> bool) \<Rightarrow> address list \<Rightarrow> address list \<Rightarrow> address list" where
  "dedup_loop seen result [] = result"
| "dedup_loop seen result (a # as) =
     (if seen a = None then dedup_loop (seen(a \<mapsto> True)) (result @ [a]) as
      else dedup_loop seen result as)"

definition deduplicate :: "address list \<Rightarrow> address list" where
  "deduplicate xs = dedup_loop Map.empty [] xs"

text \<open>The two nested index loops of \<open>create_vault\<close>.\<close>

definition has_duplicate :: "address list \<Rightarrow> bool" where
  "has_duplicate xs =
     list_ex (\<lambda>i. list_ex (\<lambda>j. xs ! i = xs ! j) [i + 1..<length xs]) [0..<length xs]"

definition set_admin :: "env \<Rightarrow> address \<Rightarrow> vault_state \<Rightarrow> (VaultError, vault_state) outcome" where
  "set_admin env admin s =
     (if Admin s \<noteq> None then Err AlreadyInitialized
      else and_then (require_auth env admin) (\<lambda>_. Ok (s\<lparr>Admin := Some admin\<rparr>)))"

definition upgrade :: "env \<Rightarrow> hash32 \<Rightarrow> vault_state \<Rightarrow> (VaultError, vault_state) outcome" where
  "upgrade env new_wasm s =
     and_then (ok_or (Admin s) NotInitialized) (\<lambda>admin.
     and_then (require_auth env admin) (\<lambda>_. Ok (s\<lparr>wasm_hash := Some new_wasm\<rparr>)))"

definition next_vault_nonce :: "vault_state \<Rightarrow> (VaultError, nat \<times> vault_state) outcome" where
  "next_vault_nonce s =
     and_then (u64_op (unwrap_or (VaultCount s) 0 + 1)) (\<lambda>n. Ok (n, s\<lparr>VaultCount := Some n\<rparr>))"

definition vault_id ::
  "(bytes \<Rightarrow> hash32) \<Rightarrow> (address \<Rightarrow> bytes) \<Rightarrow> nat \<Rightarrow> nat \<Rightarrow> address \<Rightarrow> hash32" where
  "vault_id sha xdr nonce now d = sha (be_bytes 8 nonce @ be_bytes 8 now @ xdr d)"

definition create_vault ::
  "(bytes \<Rightarrow> hash32) \<Rightarrow> (address \<Rightarrow> bytes) \<Rightarrow> 'w transfer_fn \<Rightarrow> env \<Rightarrow>
   address \<Rightarrow> address \<Rightarrow> address \<Rightarrow> int \<Rightarrow> address list \<Rightarrow> nat \<Rightarrow> vault_state \<times> 'w \<Rightarrow>
   (VaultError, hash32 \<times> vault_state \<times> 'w) outcome" where
  "create_vault sha xdr xfer env d r t n as k = (\<lambda>(s, w).
     if as = [] then Err EmptyApprovers
     else if has_duplicate as then Err DuplicateApprover
     else if d \<in> set as \<or> r \<in> set as then Err ConflictOfInterest
     else
       let unique_approvers = deduplicate as in
       if n \<le> 0 then Err InvalidAmount
       else if k = 0 then Err InvalidThreshold
       else if k > length unique_approvers then Err ThresholdExceedsApprovers
       else and_then (require_auth env d) (\<lambda>_.
       and_then (unwrap (xfer w t d (self env) n)) (\<lambda>w.
       and_then (next_vault_nonce s) (\<lambda>(nonce, s).
       let vid = vault_id sha xdr nonce (timestamp env) d;
           v = \<lparr>depositor = d, recipient = r, token = t, amount = n, approvers = unique_approvers,
                approvals = 0, threshold = k, status = Pending\<rparr>
       in Ok (vid, s\<lparr>Vaults := (Vaults s)(vid \<mapsto> v)\<rparr>, w)))))"

definition approve_vault ::
  "'w transfer_fn \<Rightarrow> env \<Rightarrow> hash32 \<Rightarrow> address \<Rightarrow> vault_state \<times> 'w \<Rightarrow>
   (VaultError, vault_state \<times> 'w) outcome" where
  "approve_vault xfer env vid caller = (\<lambda>(s, w).
     and_then (require_auth env caller) (\<lambda>_.
     and_then (ok_or (Vaults s vid) NotFound) (\<lambda>v.
     if status v \<noteq> Pending then Err NotPending
     else if caller = depositor v \<or> caller = recipient v then Err ConflictOfInterest
     else if caller \<notin> set (approvers v) then Err Unauthorized
     else if Voted s (vid, caller) \<noteq> None then Err AlreadyVoted
     else
       let s = s\<lparr>Voted := (Voted s)((vid, caller) \<mapsto> True)\<rparr> in
       and_then (u32_op (approvals v + 1)) (\<lambda>a.
       let v = v\<lparr>approvals := a\<rparr> in
       if approvals v \<ge> threshold v then
         (let v = v\<lparr>status := Released\<rparr> in
          and_then (unwrap (xfer w (token v) (self env) (recipient v) (amount v))) (\<lambda>w.
          Ok (s\<lparr>Vaults := (Vaults s)(vid \<mapsto> v)\<rparr>, w)))
       else Ok (s\<lparr>Vaults := (Vaults s)(vid \<mapsto> v)\<rparr>, w)))))"

definition revoke_approval ::
  "env \<Rightarrow> hash32 \<Rightarrow> address \<Rightarrow> vault_state \<Rightarrow> (VaultError, vault_state) outcome" where
  "revoke_approval env vid caller s =
     and_then (require_auth env caller) (\<lambda>_.
     and_then (ok_or (Vaults s vid) NotFound) (\<lambda>v.
     if status v \<noteq> Pending then Err NotPending
     else if Voted s (vid, caller) = None then Err NotVoted
     else
       let s = s\<lparr>Voted := (Voted s)((vid, caller) := None)\<rparr>;
           v = v\<lparr>approvals := approvals v - 1\<rparr>
       in Ok (s\<lparr>Vaults := (Vaults s)(vid \<mapsto> v)\<rparr>)))"

definition emergency_cancel ::
  "'w transfer_fn \<Rightarrow> env \<Rightarrow> hash32 \<Rightarrow> string \<Rightarrow> vault_state \<times> 'w \<Rightarrow>
   (VaultError, vault_state \<times> 'w) outcome" where
  "emergency_cancel xfer env vid reason = (\<lambda>(s, w).
     and_then (ok_or (Admin s) NotInitialized) (\<lambda>admin.
     and_then (require_auth env admin) (\<lambda>_.
     and_then (ok_or (Vaults s vid) NotFound) (\<lambda>v.
     if status v \<noteq> Pending then Err NotPending
     else
       let v = v\<lparr>status := Cancelled\<rparr>;
           s = s\<lparr>Vaults := (Vaults s)(vid \<mapsto> v)\<rparr> in
       and_then (unwrap (xfer w (token v) (self env) (depositor v) (amount v))) (\<lambda>w.
       Ok (s, w))))))"

section \<open>Calls and steps\<close>

datatype vault_call =
    SetAdmin address | Upgrade hash32
  | CreateVault address address address int "address list" nat
  | ApproveVault hash32 address | RevokeApproval hash32 address | EmergencyCancel hash32 string

fun vault_exec ::
  "(bytes \<Rightarrow> hash32) \<Rightarrow> (address \<Rightarrow> bytes) \<Rightarrow> 'w transfer_fn \<Rightarrow> env \<Rightarrow> vault_call \<Rightarrow>
   vault_state \<times> 'w \<Rightarrow> (VaultError, vault_state \<times> 'w) outcome" where
  "vault_exec sha xdr xfer env (SetAdmin a) (s, w) = and_then (set_admin env a s) (\<lambda>s. Ok (s, w))"
| "vault_exec sha xdr xfer env (Upgrade h) (s, w) = and_then (upgrade env h s) (\<lambda>s. Ok (s, w))"
| "vault_exec sha xdr xfer env (CreateVault d r t n as k) sw =
     and_then (create_vault sha xdr xfer env d r t n as k sw) (\<lambda>(vid, sw). Ok sw)"
| "vault_exec sha xdr xfer env (ApproveVault vid a) sw = approve_vault xfer env vid a sw"
| "vault_exec sha xdr xfer env (RevokeApproval vid a) (s, w) =
     and_then (revoke_approval env vid a s) (\<lambda>s. Ok (s, w))"
| "vault_exec sha xdr xfer env (EmergencyCancel vid reason) sw =
     emergency_cancel xfer env vid reason sw"

text \<open>A step of the contract deployed at \<open>me\<close>; it never authorises a call to itself.\<close>

inductive vault_step ::
  "(bytes \<Rightarrow> hash32) \<Rightarrow> (address \<Rightarrow> bytes) \<Rightarrow> 'w transfer_fn \<Rightarrow> address \<Rightarrow>
   vault_state \<times> 'w \<Rightarrow> vault_state \<times> 'w \<Rightarrow> bool"
  for sha xdr xfer me where
  call: "self env = me \<Longrightarrow> \<not> auth env me \<Longrightarrow> vault_exec sha xdr xfer env c sw = Ok sw' \<Longrightarrow>
    vault_step sha xdr xfer me sw sw'"

inductive_cases vault_stepE: "vault_step sha xdr xfer me sw sw'"

section \<open>Approver lists\<close>

lemma has_duplicate_iff: "has_duplicate xs \<longleftrightarrow> \<not> distinct xs"
proof -
  have "has_duplicate xs \<longleftrightarrow> (\<exists>i j. i < j \<and> j < length xs \<and> xs ! i = xs ! j)"
  proof
    assume "has_duplicate xs"
    then obtain i j where "j \<in> set [i + 1..<length xs]" "xs ! i = xs ! j"
      unfolding has_duplicate_def list_ex_iff by blast
    moreover have "i < j" "j < length xs" using calculation(1) by simp_all
    ultimately show "\<exists>i j. i < j \<and> j < length xs \<and> xs ! i = xs ! j" by blast
  next
    assume "\<exists>i j. i < j \<and> j < length xs \<and> xs ! i = xs ! j"
    then obtain i j where "i < j" "j < length xs" "xs ! i = xs ! j" by blast
    then have "i \<in> set [0..<length xs]" "j \<in> set [i + 1..<length xs]" "xs ! i = xs ! j"
      by simp_all
    then show "has_duplicate xs" unfolding has_duplicate_def list_ex_iff by blast
  qed
  also have "\<dots> \<longleftrightarrow> \<not> distinct xs"
  proof
    assume "\<exists>i j. i < j \<and> j < length xs \<and> xs ! i = xs ! j"
    then obtain i j where "i < j" "j < length xs" "xs ! i = xs ! j" by blast
    then show "\<not> distinct xs" using nth_eq_iff_index_eq [of xs i j] by auto
  next
    assume "\<not> distinct xs"
    then obtain i j where "i < length xs" "j < length xs" "i \<noteq> j" "xs ! i = xs ! j"
      by (auto simp: distinct_conv_nth)
    then have "min i j < max i j" "max i j < length xs" "xs ! min i j = xs ! max i j"
      by (auto simp: min_def max_def)
    then show "\<exists>i j. i < j \<and> j < length xs \<and> xs ! i = xs ! j" by blast
  qed
  finally show ?thesis .
qed

lemma dedup_loop_distinct:
  "distinct xs \<Longrightarrow> (\<And>a. a \<in> set xs \<Longrightarrow> seen a = None) \<Longrightarrow> dedup_loop seen ys xs = ys @ xs"
proof (induction xs arbitrary: seen ys)
  case (Cons a xs)
  then have "dedup_loop (seen(a \<mapsto> True)) (ys @ [a]) xs = (ys @ [a]) @ xs"
    by (intro Cons.IH) auto
  with Cons.prems show ?case by simp
qed simp

lemma deduplicate_distinct [simp]: "distinct xs \<Longrightarrow> deduplicate xs = xs"
  by (simp add: deduplicate_def dedup_loop_distinct)

section \<open>What a successful call did\<close>

lemma vault_create_Ok:
  assumes "create_vault sha xdr xfer env d r t n as k (s, w) = Ok (vid, s', w')"
  obtains nonce where "distinct as" "d \<notin> set as" "r \<notin> set as" "0 < n" "0 < k" "k \<le> length as"
    "auth env d" "xfer w t d (self env) n = Some w'"
    "nonce = unwrap_or (VaultCount s) 0 + 1" "fits_u64 nonce"
    "vid = vault_id sha xdr nonce (timestamp env) d"
    "s' = s\<lparr>VaultCount := Some nonce, Vaults := (Vaults s)(vid \<mapsto> \<lparr>depositor = d, recipient = r,
      token = t, amount = n, approvers = as, approvals = 0, threshold = k, status = Pending\<rparr>)\<rparr>"
  using assms
  by (auto simp: create_vault_def next_vault_nonce_def has_duplicate_iff outcome_iff Let_def)

lemma keep_pending:
  "status v = Pending \<Longrightarrow> v\<lparr>approvals := n, status := Pending\<rparr> = v\<lparr>approvals := n\<rparr>"
  by (cases v) simp

lemma approve_Ok:
  assumes "approve_vault xfer env vid a (s, w) = Ok (s', w')"
  obtains v where "auth env a" "Vaults s vid = Some v" "status v = Pending" "a \<noteq> depositor v"
    "a \<noteq> recipient v" "a \<in> set (approvers v)" "Voted s (vid, a) = None"
    "if threshold v \<le> approvals v + 1
     then xfer w (token v) (self env) (recipient v) (amount v) = Some w' else w' = w"
    "s' = s\<lparr>Voted := (Voted s)((vid, a) \<mapsto> True), Vaults := (Vaults s)(vid \<mapsto>
       v\<lparr>approvals := approvals v + 1,
         status := if threshold v \<le> approvals v + 1 then Released else Pending\<rparr>)\<rparr>"
proof -
  from assms obtain v where v: "Vaults s vid = Some v"
    by (auto simp: approve_vault_def outcome_iff)
  show thesis
  proof (cases "threshold v \<le> approvals v + 1")
    case True
    show thesis
      by (rule that [OF _ v]) (use True v assms in \<open>auto simp: approve_vault_def outcome_iff Let_def\<close>)
  next
    case False
    show thesis
      by (rule that [OF _ v])
        (use False v assms in \<open>auto simp: approve_vault_def outcome_iff Let_def keep_pending\<close>)
  qed
qed

lemma revoke_Ok:
  assumes "revoke_approval env vid a s = Ok s'"
  obtains v where "auth env a" "Vaults s vid = Some v" "status v = Pending" "Voted s (vid, a) \<noteq> None"
    "s' = s\<lparr>Voted := (Voted s)((vid, a) := None),
            Vaults := (Vaults s)(vid \<mapsto> v\<lparr>approvals := approvals v - 1\<rparr>)\<rparr>"
  using assms by (auto simp: revoke_approval_def outcome_iff Let_def)

lemma vault_cancel_Ok:
  assumes "emergency_cancel xfer env vid reason (s, w) = Ok (s', w')"
  obtains v admin where "Admin s = Some admin" "auth env admin" "Vaults s vid = Some v"
    "status v = Pending" "xfer w (token v) (self env) (depositor v) (amount v) = Some w'"
    "s' = s\<lparr>Vaults := (Vaults s)(vid \<mapsto> v\<lparr>status := Cancelled\<rparr>)\<rparr>"
  using assms by (auto simp: emergency_cancel_def outcome_iff Let_def)

section \<open>Well-formed states\<close>

text \<open>
  The votes on record for a vault. A vault counts exactly its recorded votes, all of them by listed
  approvers that are neither party of the vault, and it is released once the count meets the
  threshold and not before.
\<close>

definition voters :: "vault_state \<Rightarrow> hash32 \<Rightarrow> address set" where
  "voters s vid = {a. Voted s (vid, a) \<noteq> None}"

definition vault_ok :: "address set \<Rightarrow> Vault \<Rightarrow> bool" where
  "vault_ok V v \<longleftrightarrow>
     distinct (approvers v) \<and> depositor v \<notin> set (approvers v) \<and> recipient v \<notin> set (approvers v) \<and>
     0 < amount v \<and> 0 < threshold v \<and> threshold v \<le> length (approvers v) \<and>
     V \<subseteq> set (approvers v) \<and> approvals v = card V \<and> approvals v \<le> threshold v \<and>
     (status v = Released \<longleftrightarrow> approvals v = threshold v)"

text \<open>
  Vault identifiers come from the counter. Without hash collisions (\<open>inj sha\<close>) a new identifier is
  fresh, because its counter value was never used; the invariant includes that hypothesis.
\<close>

definition vault_wf :: "(bytes \<Rightarrow> hash32) \<Rightarrow> vault_state \<Rightarrow> bool" where
  "vault_wf sha s \<longleftrightarrow> inj sha \<and> finite (dom (Vaults s)) \<and>
     issued sha (unwrap_or (VaultCount s) 0) (dom (Vaults s)) \<and>
     (\<forall>vid v. Vaults s vid = Some v \<longrightarrow> vault_ok (voters s vid) v) \<and>
     (\<forall>vid. Vaults s vid = None \<longrightarrow> voters s vid = {})"

lemma vault_init_wf: "inj sha \<Longrightarrow> vault_wf sha vault_init"
  by (simp add: vault_wf_def vault_init_def voters_def)

lemma wf_vault: "vault_wf sha s \<Longrightarrow> Vaults s vid = Some v \<Longrightarrow> vault_ok (voters s vid) v"
  by (simp add: vault_wf_def)

lemma vault_id_counter: "vault_id sha xdr n now d = counter_id sha n (be_bytes 8 now @ xdr d)"
  by (simp add: vault_id_def counter_id_def)

lemma vault_id_fresh:
  assumes "vault_wf sha s" "fits_u64 (unwrap_or (VaultCount s) 0 + 1)"
  shows "Vaults s (vault_id sha xdr (unwrap_or (VaultCount s) 0 + 1) now d) = None"
  using assms counter_id_fresh [of sha "unwrap_or (VaultCount s) 0" "dom (Vaults s)"]
  unfolding vault_id_counter vault_wf_def by (meson domIff)

lemma vault_wf_save:
  assumes "vault_wf sha s" "Vaults s vid = Some v" "vault_ok (voters s' vid) v'"
    and "Vaults s' = (Vaults s)(vid \<mapsto> v')" "VaultCount s' = VaultCount s"
    and "\<And>vid'. vid' \<noteq> vid \<Longrightarrow> voters s' vid' = voters s vid'"
  shows "vault_wf sha s'"
  using assms unfolding vault_wf_def by (auto simp: insert_absorb domI split: if_splits)

lemma voters_simps:
  "voters (s\<lparr>Vaults := m\<rparr>) = voters s"
  "voters (s\<lparr>VaultCount := c\<rparr>) = voters s"
  "voters (s\<lparr>Admin := x\<rparr>) = voters s"
  "voters (s\<lparr>wasm_hash := h\<rparr>) = voters s"
  "voters (s\<lparr>Voted := (Voted s)((vid, a) \<mapsto> b)\<rparr>) vid' = (if vid' = vid then insert a (voters s vid) else voters s vid')"
  "voters (s\<lparr>Voted := (Voted s)((vid, a) := None)\<rparr>) vid' = (if vid' = vid then voters s vid - {a} else voters s vid')"
  by (auto simp: voters_def)

lemma vault_create_wf:
  assumes "create_vault sha xdr xfer env d r t n as k (s, w) = Ok (vid, s', w')" "vault_wf sha s"
  shows "vault_wf sha s'"
  using assms(1)
proof (rule vault_create_Ok)
  fix nonce
  assume *: "distinct as" "d \<notin> set as" "r \<notin> set as" "0 < n" "0 < k" "k \<le> length as"
    "nonce = unwrap_or (VaultCount s) 0 + 1" "fits_u64 nonce"
    "vid = vault_id sha xdr nonce (timestamp env) d"
    "s' = s\<lparr>VaultCount := Some nonce, Vaults := (Vaults s)(vid \<mapsto> \<lparr>depositor = d, recipient = r,
      token = t, amount = n, approvers = as, approvals = 0, threshold = k, status = Pending\<rparr>)\<rparr>"
  have "Vaults s vid = None" using vault_id_fresh assms(2) * by simp
  then have "voters s vid = {}" using assms(2) by (simp add: vault_wf_def)
  then have "vault_ok (voters s' vid) (the (Vaults s' vid))"
    using * by (simp add: voters_simps vault_ok_def)
  moreover have "issued sha (unwrap_or (VaultCount s') 0) (dom (Vaults s'))"
    using assms(2) * issued_insert [of sha "unwrap_or (VaultCount s) 0" "dom (Vaults s)"]
    by (simp add: vault_wf_def vault_id_counter)
  ultimately show ?thesis
    using assms(2) *(10) by (auto simp: vault_wf_def voters_simps)
qed

lemma approve_wf:
  assumes "approve_vault xfer env vid a (s, w) = Ok (s', w')" "vault_wf sha s"
  shows "vault_wf sha s'"
  using assms(1)
proof (rule approve_Ok)
  fix v
  assume *: "Vaults s vid = Some v" "status v = Pending" "a \<in> set (approvers v)" "Voted s (vid, a) = None"
    "s' = s\<lparr>Voted := (Voted s)((vid, a) \<mapsto> True), Vaults := (Vaults s)(vid \<mapsto>
       v\<lparr>approvals := approvals v + 1,
         status := if threshold v \<le> approvals v + 1 then Released else Pending\<rparr>)\<rparr>"
  have ok: "vault_ok (voters s vid) v" using wf_vault assms(2) *(1) by blast
  then have "finite (voters s vid)" by (auto simp: vault_ok_def dest: finite_subset)
  moreover have "a \<notin> voters s vid" using *(4) by (simp add: voters_def)
  ultimately show ?thesis
    using ok * by (intro vault_wf_save [OF assms(2) *(1)]) (auto simp: voters_simps vault_ok_def)
qed

lemma revoke_wf:
  assumes "revoke_approval env vid a s = Ok s'" "vault_wf sha s"
  shows "vault_wf sha s'"
  using assms(1)
proof (rule revoke_Ok)
  fix v
  assume *: "Vaults s vid = Some v" "status v = Pending" "Voted s (vid, a) \<noteq> None"
    "s' = s\<lparr>Voted := (Voted s)((vid, a) := None),
            Vaults := (Vaults s)(vid \<mapsto> v\<lparr>approvals := approvals v - 1\<rparr>)\<rparr>"
  have ok: "vault_ok (voters s vid) v" using wf_vault assms(2) *(1) by blast
  then have fin: "finite (voters s vid)" by (auto simp: vault_ok_def dest: finite_subset)
  moreover have a: "a \<in> voters s vid" using *(3) by (simp add: voters_def)
  ultimately have "0 < card (voters s vid)" by (auto simp: card_gt_0_iff)
  then show ?thesis
    using ok fin a * by (intro vault_wf_save [OF assms(2) *(1)]) (auto simp: voters_simps vault_ok_def)
qed

lemma cancel_wf:
  "emergency_cancel xfer env vid reason (s, w) = Ok (s', w') \<Longrightarrow> vault_wf sha s \<Longrightarrow> vault_wf sha s'"
  by (erule vault_cancel_Ok, frule (1) wf_vault, rule vault_wf_save) (auto simp: voters_simps vault_ok_def)

lemma admin_wf:
  "set_admin env a s = Ok s' \<Longrightarrow> vault_wf sha s \<Longrightarrow> vault_wf sha s'"
  "upgrade env h s = Ok s' \<Longrightarrow> vault_wf sha s \<Longrightarrow> vault_wf sha s'"
  by (auto simp: set_admin_def upgrade_def outcome_iff vault_wf_def voters_simps)

lemma vault_exec_wf:
  "vault_exec sha xdr xfer env c (s, w) = Ok (s', w') \<Longrightarrow> vault_wf sha s \<Longrightarrow> vault_wf sha s'"
  by (cases c) (auto simp: outcome_iff intro: admin_wf vault_create_wf approve_wf revoke_wf cancel_wf)

section \<open>Custody\<close>

definition held :: "address \<Rightarrow> Vault \<Rightarrow> int" where
  "held t v = (if token v = t \<and> status v = Pending then amount v else 0)"

definition vault_liab :: "vault_state \<Rightarrow> address \<Rightarrow> int" where
  "vault_liab s t = msum (held t) (Vaults s)"

lemma vault_liab_save:
  "vault_wf sha s \<Longrightarrow> Vaults s vid = Some v \<Longrightarrow> Vaults s' = (Vaults s)(vid \<mapsto> v') \<Longrightarrow>
   vault_liab s' t = vault_liab s t - held t v + held t v'"
  by (simp add: vault_liab_def msum_replace vault_wf_def)

lemma create_custody:
  assumes "create_vault sha xdr xfer env d r t n as k (s, w) = Ok (vid, s', w')" "vault_wf sha s"
    "\<not> auth env (self env)"
  shows "custody_move xfer (auth env) (self env) (vault_liab s) w (vault_liab s') w'"
  using assms(1)
proof (rule vault_create_Ok)
  fix nonce
  assume *: "auth env d" "xfer w t d (self env) n = Some w'"
    "nonce = unwrap_or (VaultCount s) 0 + 1" "fits_u64 nonce"
    "vid = vault_id sha xdr nonce (timestamp env) d"
    "s' = s\<lparr>VaultCount := Some nonce, Vaults := (Vaults s)(vid \<mapsto> \<lparr>depositor = d, recipient = r,
      token = t, amount = n, approvers = as, approvals = 0, threshold = k, status = Pending\<rparr>)\<rparr>"
  have "Vaults s vid = None" using vault_id_fresh assms(2) * by simp
  then show ?thesis
    using assms(2,3) *
    by (intro custody_move.pay_in [where xfer = xfer, OF *(2)])
      (auto simp: vault_liab_def msum_insert held_def vault_wf_def)
qed

lemma approve_custody:
  assumes "approve_vault xfer env vid a (s, w) = Ok (s', w')" "vault_wf sha s"
  shows "custody_move xfer (auth env) (self env) (vault_liab s) w (vault_liab s') w'"
  using assms(1)
proof (rule approve_Ok)
  fix v
  assume *: "Vaults s vid = Some v" "status v = Pending"
    "if threshold v \<le> approvals v + 1
     then xfer w (token v) (self env) (recipient v) (amount v) = Some w' else w' = w"
    "s' = s\<lparr>Voted := (Voted s)((vid, a) \<mapsto> True), Vaults := (Vaults s)(vid \<mapsto>
       v\<lparr>approvals := approvals v + 1,
         status := if threshold v \<le> approvals v + 1 then Released else Pending\<rparr>)\<rparr>"
  have liab: "vault_liab s' u = vault_liab s u -
      (if u = token v \<and> threshold v \<le> approvals v + 1 then amount v else 0)" for u
    using * by (simp add: vault_liab_save [OF assms(2) *(1)] held_def)
  show ?thesis
  proof (cases "threshold v \<le> approvals v + 1")
    case True
    then have "xfer w (token v) (self env) (recipient v) (amount v) = Some w'" using * by simp
    then show ?thesis by (rule custody_move.pay_out) (use True in \<open>simp add: liab\<close>)
  next
    case False
    then have "w' = w" using * by simp
    then show ?thesis using False by (auto simp: liab intro: custody_move.stay)
  qed
qed

lemma cancel_custody:
  assumes "emergency_cancel xfer env vid reason (s, w) = Ok (s', w')" "vault_wf sha s"
  shows "custody_move xfer (auth env) (self env) (vault_liab s) w (vault_liab s') w'"
  using assms(1)
proof (rule vault_cancel_Ok)
  fix v
  assume *: "Vaults s vid = Some v" "status v = Pending"
    "xfer w (token v) (self env) (depositor v) (amount v) = Some w'"
    "s' = s\<lparr>Vaults := (Vaults s)(vid \<mapsto> v\<lparr>status := Cancelled\<rparr>)\<rparr>"
  show ?thesis
    using * by (intro custody_move.pay_out [where xfer = xfer, OF *(3)])
      (simp add: vault_liab_save [OF assms(2) *(1)] held_def)
qed

lemma revoke_liab:
  "revoke_approval env vid a s = Ok s' \<Longrightarrow> vault_wf sha s \<Longrightarrow> vault_liab s' = vault_liab s"
  by (erule revoke_Ok, rule ext) (simp add: vault_liab_save held_def)

lemma admin_liab:
  "set_admin env a s = Ok s' \<Longrightarrow> vault_liab s' = vault_liab s"
  "upgrade env h s = Ok s' \<Longrightarrow> vault_liab s' = vault_liab s"
  by (auto simp: set_admin_def upgrade_def outcome_iff vault_liab_def fun_eq_iff)

lemma vault_exec_custody:
  assumes "vault_exec sha xdr xfer env c (s, w) = Ok (s', w')" "vault_wf sha s"
    "\<not> auth env (self env)"
  shows "custody_move xfer (auth env) (self env) (vault_liab s) w (vault_liab s') w'"
proof -
  have stay: ?thesis if "w' = w" "vault_liab s' = vault_liab s"
    using that by (simp add: custody_move.stay)
  show ?thesis
    using assms stay
    by (cases c) (auto simp: outcome_iff admin_liab revoke_liab
        intro: create_custody approve_custody cancel_custody)
qed

text \<open>The vault contract is a custodian over any token ledger.\<close>

sublocale token_ledger \<subseteq> vlt: custodian bal xfer "vault_step sha xdr xfer" vault_liab
    "vault_wf sha" for sha xdr
  by unfold_locales (auto elim!: vault_stepE intro: vault_exec_wf vault_exec_custody [THEN custody_move_mono])

context token_ledger
begin

lemmas vault_run_solvent = vlt.run_solvent
lemmas vault_run_world = vlt.run_world

end

interpretation vault_runs: preserved "vault_step sha xdr xfer me" "\<lambda>sw. vault_wf sha (fst sw)" for sha xdr xfer me
  by unfold_locales (auto elim!: vault_stepE intro: vault_exec_wf)

lemma vault_run_wf:
  assumes "(vault_step sha xdr xfer me)\<^sup>*\<^sup>* sw (s, w)" and "vault_wf sha (fst sw)"
  shows "vault_wf sha s"
  using vault_runs.run [OF assms] by simp

section \<open>Progress\<close>

text \<open>How one call changes one vault: terms never change, a settled vault never changes.\<close>

definition vault_progress :: "Vault \<Rightarrow> Vault \<Rightarrow> bool" where
  "vault_progress v v' \<longleftrightarrow>
     depositor v' = depositor v \<and> recipient v' = recipient v \<and> token v' = token v \<and>
     amount v' = amount v \<and> approvers v' = approvers v \<and> threshold v' = threshold v \<and>
     (status v \<noteq> Pending \<longrightarrow> v' = v)"

lemma vault_update_progress:
  assumes "Vaults s' = (Vaults s)(vid \<mapsto> v')" "Vaults s vid = Some v" "vault_progress v v'"
    and "Vaults s j = Some v0"
  shows "\<exists>v1. Vaults s' j = Some v1 \<and> vault_progress v0 v1"
  using assms by (cases "vid = j") (simp_all add: vault_progress_def)

lemma vault_exec_progress:
  assumes "vault_exec sha xdr xfer env c (s, w) = Ok (s', w')" "vault_wf sha s"
    "Vaults s j = Some v0"
  shows "\<exists>v1. Vaults s' j = Some v1 \<and> vault_progress v0 v1"
proof (cases c)
  case (CreateVault d r t n as k)
  with assms(1) obtain vid where "create_vault sha xdr xfer env d r t n as k (s, w) = Ok (vid, s', w')"
    by (auto simp: outcome_iff)
  then show ?thesis
    using assms(3) vault_id_fresh [OF assms(2)]
    by (elim vault_create_Ok) (auto simp: vault_progress_def)
next
  case (ApproveVault vid a)
  with assms(1) have "approve_vault xfer env vid a (s, w) = Ok (s', w')" by simp
  then show ?thesis
    by (elim approve_Ok, intro vault_update_progress [OF _ _ _ assms(3)])
      (auto simp: vault_progress_def)
next
  case (RevokeApproval vid a)
  with assms(1) have "revoke_approval env vid a s = Ok s'" by (auto simp: outcome_iff)
  then show ?thesis
    by (elim revoke_Ok, intro vault_update_progress [OF _ _ _ assms(3)])
      (auto simp: vault_progress_def)
next
  case (EmergencyCancel vid reason)
  with assms(1) have "emergency_cancel xfer env vid reason (s, w) = Ok (s', w')" by simp
  then show ?thesis
    by (elim vault_cancel_Ok, intro vault_update_progress [OF _ _ _ assms(3)])
      (auto simp: vault_progress_def)
qed (use assms in \<open>auto simp: set_admin_def upgrade_def outcome_iff vault_progress_def\<close>)

text \<open>An approver who has not voted yet can always vote.\<close>

lemma approve_step:
  assumes "vault_wf sha s" "Vaults s vid = Some v" "status v = Pending" "fits_u32 (threshold v)"
    and "a \<in> set (approvers v) - voters s vid" "auth env a"
  shows "approve_vault xfer env vid a (s, w) =
    (let s1 = s\<lparr>Voted := (Voted s)((vid, a) \<mapsto> True)\<rparr>; v1 = v\<lparr>approvals := approvals v + 1\<rparr> in
     if threshold v \<le> approvals v + 1
     then and_then (unwrap (xfer w (token v) (self env) (recipient v) (amount v))) (\<lambda>w.
       Ok (s1\<lparr>Vaults := (Vaults s)(vid \<mapsto> v1\<lparr>status := Released\<rparr>)\<rparr>, w))
     else Ok (s1\<lparr>Vaults := (Vaults s)(vid \<mapsto> v1)\<rparr>, w))"
proof -
  have "vault_ok (voters s vid) v" using wf_vault assms(1,2) by blast
  then have "approvals v + 1 \<le> threshold v" "a \<noteq> depositor v" "a \<noteq> recipient v"
    using assms(3,5) by (auto simp: vault_ok_def)
  moreover have "fits_u32 (Suc (approvals v))"
    using assms(4) calculation(1) by (simp add: fits_u32_def)
  ultimately show ?thesis
    using assms by (auto simp: approve_vault_def voters_def Let_def)
qed

lemma unvoted_approver:
  assumes "vault_wf sha s" "Vaults s vid = Some v" "approvals v < threshold v"
  obtains a where "a \<in> set (approvers v) - voters s vid"
proof -
  have "card (voters s vid) < card (set (approvers v))"
    using wf_vault [OF assms(1,2)] assms(3) by (simp add: vault_ok_def distinct_card)
  then have "\<not> set (approvers v) \<subseteq> voters s vid"
    using wf_vault [OF assms(1,2)] by (auto simp: vault_ok_def)
  then show thesis using that by blast
qed

lemma vault_quorum_run:
  assumes "vault_wf sha s" "Vaults s vid = Some v" "status v = Pending" "fits_u32 (threshold v)"
    and "\<And>a. a \<in> set (approvers v) \<Longrightarrow> auth env a"
    and "xfer w (token v) (self env) (recipient v) (amount v) = Some w'"
  shows "\<exists>as s'. set as \<subseteq> set (approvers v) \<and>
    run_calls (vault_exec sha xdr xfer) (map (\<lambda>a. (env, ApproveVault vid a)) as) (s, w) = Ok (s', w') \<and>
    Vaults s' vid = Some (v\<lparr>approvals := threshold v, status := Released\<rparr>)"
  using assms
proof (induction "threshold v - approvals v" arbitrary: s v rule: less_induct)
  case less
  have ok: "vault_ok (voters s vid) v" using wf_vault less.prems(1,2) by blast
  then have lt: "approvals v < threshold v" using less.prems(3) by (auto simp: vault_ok_def)
  then obtain a where a: "a \<in> set (approvers v) - voters s vid"
    using unvoted_approver less.prems(1,2) by metis
  let ?s1 = "s\<lparr>Voted := (Voted s)((vid, a) \<mapsto> True)\<rparr>"
  have call: "approve_vault xfer env vid a (s, w) =
    (let v1 = v\<lparr>approvals := approvals v + 1\<rparr> in
     if threshold v \<le> approvals v + 1
     then Ok (?s1\<lparr>Vaults := (Vaults s)(vid \<mapsto> v1\<lparr>status := Released\<rparr>)\<rparr>, w')
     else Ok (?s1\<lparr>Vaults := (Vaults s)(vid \<mapsto> v1)\<rparr>, w))"
    using approve_step [OF less.prems(1-4) a less.prems(5), of xfer w] a less.prems(6)
    by (simp add: Let_def)
  show ?case
  proof (cases "threshold v \<le> approvals v + 1")
    case True
    with lt have "threshold v = approvals v + 1" by simp
    with a call show ?thesis by (intro exI [of _ "[a]"]) (auto simp: Let_def)
  next
    case False
    let ?s = "?s1\<lparr>Vaults := (Vaults s)(vid \<mapsto> v\<lparr>approvals := approvals v + 1\<rparr>)\<rparr>"
    have app: "approve_vault xfer env vid a (s, w) = Ok (?s, w)" using call False by (simp add: Let_def)
    have "\<exists>as s'. set as \<subseteq> set (approvers v) \<and>
        run_calls (vault_exec sha xdr xfer) (map (\<lambda>a. (env, ApproveVault vid a)) as) (?s, w) = Ok (s', w') \<and>
        Vaults s' vid = Some (v\<lparr>approvals := threshold v, status := Released\<rparr>)"
      using less.hyps [of "v\<lparr>approvals := approvals v + 1\<rparr>" ?s] less.prems(3-6) lt
        approve_wf [OF app less.prems(1)] by simp
    then obtain as s' where "set as \<subseteq> set (approvers v)"
      "run_calls (vault_exec sha xdr xfer) (map (\<lambda>a. (env, ApproveVault vid a)) as) (?s, w) = Ok (s', w')"
      "Vaults s' vid = Some (v\<lparr>approvals := threshold v, status := Released\<rparr>)" by blast
    with a app show ?thesis by (intro exI [of _ "a # as"] exI [of _ s']) auto
  qed
qed

section \<open>Properties\<close>

text \<open>
  A run used by the witnesses. The contract is at address 99 over CHV tokens in which account 2
  holds 500. Depositor 2 locks 300 for recipient 3 behind approvers 4, 5 and 6 with threshold 2;
  approver 4 votes. Hash and serialisation are the identity and a one-byte encoding.
\<close>

abbreviation vault_env :: env where
  "vault_env \<equiv> \<lparr>timestamp = 10, ledger_sequence = 7, self = 99, auth = (\<lambda>x. x < 90)\<rparr>"

abbreviation demo_xdr :: "address \<Rightarrow> bytes" where
  "demo_xdr a \<equiv> [of_nat a]"

definition demo_vid :: hash32 where
  "demo_vid = vault_id id demo_xdr 1 10 2"

definition demo_vault :: Vault where
  "demo_vault = \<lparr>depositor = 2, recipient = 3, token = 50, amount = 300, approvers = [4, 5, 6],
     approvals = 1, threshold = 2, status = Pending\<rparr>"

definition demo_voted :: "vault_state \<times> chv_world" where
  "demo_voted = (vault_init\<lparr>Admin := Some 1, VaultCount := Some 1, Vaults := [demo_vid \<mapsto> demo_vault],
       Voted := [(demo_vid, 4) \<mapsto> True]\<rparr>,
     (\<lambda>_. chv_demo2)(50 := chv_demo2\<lparr>balances := [2 \<mapsto> 200, 99 \<mapsto> 300]\<rparr>))"

lemmas vault_ops = set_admin_def create_vault_def approve_vault_def next_vault_nonce_def
  has_duplicate_def deduplicate_def emergency_cancel_def revoke_approval_def
  chv_xfer_def transfer_def balance_def is_frozen_def

lemmas demo_vault_defs = demo_voted_def demo_vault_def vault_init_def chv_demo_defs

lemma demo_vault_run:
  "run_calls (vault_exec id demo_xdr chv_xfer)
     [(vault_env, SetAdmin 1), (vault_env, CreateVault 2 3 50 300 [4, 5, 6] 2),
      (vault_env, ApproveVault demo_vid 4)] (vault_init, \<lambda>_. chv_demo2) = Ok demo_voted"
  by (simp add: demo_vault_defs vault_ops range_defs Let_def demo_vid_def)

lemma vault_run_steps:
  assumes "run_calls (vault_exec sha xdr xfer) cs sw = Ok sw'"
    and "\<And>env c. (env, c) \<in> set cs \<Longrightarrow> self env = me \<and> \<not> auth env me"
  shows "(vault_step sha xdr xfer me)\<^sup>*\<^sup>* sw sw'"
  using assms(1) by (rule run_calls_steps) (use assms(2) vault_step.call in blast)

lemma demo_vault_reachable:
  "(vault_step id demo_xdr chv_xfer 99)\<^sup>*\<^sup>* (vault_init, \<lambda>_. chv_demo2) (fst demo_voted, snd demo_voted)"
  unfolding prod.collapse by (rule vault_run_steps [OF demo_vault_run]) auto

text \<open>
  C6. A vault pays only on a quorum of independent approvers. In every reachable state a vault's
  approval count is the number of distinct addresses with a recorded vote; every one of them is a
  listed approver and neither the depositor nor the recipient; the threshold is positive and within
  the number of approvers; and the vault is released exactly when the votes meet the threshold.
\<close>

theorem vault_quorum:
  assumes "inj sha" and "(vault_step sha xdr xfer me)\<^sup>*\<^sup>* (vault_init, w0) (s, w)"
    and "Vaults s vid = Some v"
  shows "approvals v = card (voters s vid) \<and>
    voters s vid \<subseteq> set (approvers v) - {depositor v, recipient v} \<and>
    0 < threshold v \<and> threshold v \<le> card (set (approvers v)) \<and>
    (status v = Released \<longleftrightarrow> threshold v \<le> card (voters s vid))"
proof -
  have "vault_wf sha s"
    using vault_run_wf [OF assms(2)] vault_init_wf [OF assms(1)] by simp
  then have "vault_ok (voters s vid) v" using assms(3) by (rule wf_vault)
  then show ?thesis by (auto simp: vault_ok_def distinct_card)
qed

lemma demo_voters: "voters (fst demo_voted) demo_vid = {4}"
  by (auto simp: demo_voted_def voters_def vault_init_def split: if_splits)

lemma demo_lookup: "Vaults (fst demo_voted) demo_vid = Some demo_vault"
  by (simp add: demo_voted_def)

theorem vault_quorum_witness:
  "voters (fst demo_voted) demo_vid = {4} \<and> approvals demo_vault = card (voters (fst demo_voted) demo_vid) \<and>
   status demo_vault \<noteq> Released"
  using vault_quorum [OF _ demo_vault_reachable demo_lookup]
  by (simp add: demo_voters) (simp add: demo_vault_def)

text \<open>
  Solvency of the vault contract. After any sequence of calls, for any token that keeps its
  ledger and assuming no hash collisions, the contract holds at least the sum of all pending vaults
  in every token.
\<close>

theorem vault_solvency:
  assumes "token_ledger bal xfer" and "inj sha"
    and "(vault_step sha xdr xfer me)\<^sup>*\<^sup>* (vault_init, w0) (s, w)"
    and "\<And>u. 0 \<le> bal w0 u me"
  shows "msum (held t) (Vaults s) \<le> bal w t me"
proof -
  have "solvent bal me (vault_liab vault_init) w0"
    using assms(4) by (simp add: solvent_def vault_liab_def vault_init_def)
  then have "solvent bal me (vault_liab s) w"
    using token_ledger.vault_run_solvent [OF assms(1,3)] vault_init_wf [OF assms(2)] by simp
  then show ?thesis by (simp add: solvent_def vault_liab_def)
qed

theorem vault_solvency_witness:
  "msum (held 50) (Vaults (fst demo_voted)) = 300 \<and>
   msum (held 50) (Vaults (fst demo_voted)) \<le> chv_bal (snd demo_voted) 50 99"
  using vault_solvency [OF chv.token_ledger_axioms _ demo_vault_reachable, of 50]
  by (simp add: demo_vault_defs chv_bal_def balance_def held_def msum_insert)

text \<open>
  A vault's terms are fixed and it settles once. A call never replaces an existing vault (a new
  vault gets an unused identifier), never changes its parties, token, amount, approvers or
  threshold, and leaves a released or cancelled vault exactly as it is.
\<close>

theorem vault_settles_once:
  assumes "inj sha" and "(vault_step sha xdr xfer me)\<^sup>*\<^sup>* (vault_init, w0) (s, w)"
    and "vault_step sha xdr xfer me (s, w) (s', w')" and "Vaults s vid = Some v"
  shows "\<exists>v'. Vaults s' vid = Some v' \<and> vault_progress v v'"
proof -
  have "vault_wf sha s"
    using vault_run_wf [OF assms(2)] vault_init_wf [OF assms(1)] by simp
  with assms(3,4) show ?thesis
    by (auto elim!: vault_stepE intro: vault_exec_progress)
qed

lemma demo_vault_release:
  "vault_exec id demo_xdr chv_xfer vault_env (ApproveVault demo_vid 5) demo_voted =
     Ok ((fst demo_voted)\<lparr>Vaults := [demo_vid \<mapsto> demo_vault\<lparr>approvals := 2, status := Released\<rparr>],
           Voted := [(demo_vid, 4) \<mapsto> True, (demo_vid, 5) \<mapsto> True]\<rparr>,
         (snd demo_voted)(50 := chv_demo2\<lparr>balances := [2 \<mapsto> 200, 99 \<mapsto> 0, 3 \<mapsto> 300]\<rparr>))"
  by (simp add: demo_vault_defs vault_ops range_defs Let_def numeral_2_eq_2 [symmetric])

theorem vault_settles_once_witness:
  "\<exists>s' w' v'. vault_step id demo_xdr chv_xfer 99 demo_voted (s', w') \<and> Vaults s' demo_vid = Some v' \<and>
     status v' = Released \<and> vault_progress demo_vault v'"
proof -
  obtain s' w' where call: "vault_exec id demo_xdr chv_xfer vault_env (ApproveVault demo_vid 5)
      (fst demo_voted, snd demo_voted) = Ok (s', w')"
    and s': "Vaults s' demo_vid = Some (demo_vault\<lparr>approvals := 2, status := Released\<rparr>)"
    using demo_vault_release by simp
  have step: "vault_step id demo_xdr chv_xfer 99 (fst demo_voted, snd demo_voted) (s', w')"
    by (rule vault_step.call [OF _ _ call]) simp_all
  from vault_settles_once [OF _ demo_vault_reachable step, of demo_vid demo_vault] step s' show ?thesis
    by (auto simp: demo_voted_def)
qed

text \<open>
  A pending vault can still be released. In every reachable state over CHV tokens, if the
  approvers of a pending vault are willing and the token has frozen neither the contract nor the
  recipient, some sequence of approvals by listed approvers succeeds, releases the vault at exactly
  its threshold and pays the recipient the whole amount.
\<close>

theorem pending_vault_releasable:
  assumes sha: "inj sha"
    and run: "(vault_step sha xdr chv_xfer (self env))\<^sup>*\<^sup>* (vault_init, w0) (s, w)"
    and tokens: "\<And>u. chv_step\<^sup>*\<^sup>* chv_init (w0 u)"
    and v: "Vaults s vid = Some v" "status v = Pending" "fits_u32 (threshold v)"
    and willing: "\<And>a. a \<in> set (approvers v) \<Longrightarrow> auth env a"
    and healthy: "recipient v \<noteq> self env" "\<not> is_frozen (w (token v)) (self env)"
      "\<not> is_frozen (w (token v)) (recipient v)"
  shows "\<exists>as s' w'. set as \<subseteq> set (approvers v) \<and>
    run_calls (vault_exec sha xdr chv_xfer) (map (\<lambda>a. (env, ApproveVault vid a)) as) (s, w) = Ok (s', w') \<and>
    Vaults s' vid = Some (v\<lparr>approvals := threshold v, status := Released\<rparr>) \<and>
    chv_bal w' (token v) (recipient v) = chv_bal w (token v) (recipient v) + amount v"
proof -
  have wf: "vault_wf sha s" using vault_run_wf [OF run] vault_init_wf [OF sha] by simp
  have nonneg: "0 \<le> held t v'" if "Vaults s j = Some v'" for t j v'
    using wf_vault [OF wf that] by (simp add: held_def vault_ok_def)
  have amount: "0 < amount v" using wf_vault [OF wf v(1)] by (simp add: vault_ok_def)
  have inv0: "\<forall>u. chv_inv (w0 u)" using tokens chv_reachable_inv by blast
  have inv: "chv_inv (w (token v))"
    using chv.vault_run_world [OF run, of "\<lambda>w. \<forall>u. chv_inv (w u)"] vault_init_wf [OF sha] inv0
      chv_xfer_inv by simp
  have "solvent chv_bal (self env) (vault_liab vault_init) w0"
    using inv0 by (simp add: solvent_def vault_liab_def vault_init_def chv_bal_def chv_balance_nonneg)
  then have "vault_liab s (token v) \<le> chv_bal w (token v) (self env)"
    using chv.vault_run_solvent [OF run] vault_init_wf [OF sha] by (simp add: solvent_def)
  moreover have "held (token v) v \<le> vault_liab s (token v)"
    unfolding vault_liab_def using wf v(1) nonneg by (intro msum_mem_le) (auto simp: vault_wf_def)
  ultimately have "amount v \<le> chv_bal w (token v) (self env)" using v(2) by (simp add: held_def)
  then obtain w' where "chv_xfer w (token v) (self env) (recipient v) (amount v) = Some w'"
    "chv_bal w' (token v) (recipient v) = chv_bal w (token v) (recipient v) + amount v"
    using chv_xfer_succeeds [of w "token v" "self env" "recipient v" "amount v"] inv amount healthy
    by metis
  then show ?thesis
    using vault_quorum_run [OF wf v willing, of chv_xfer w w'] by blast
qed

theorem pending_vault_releasable_witness:
  "\<exists>as s' w'. set as \<subseteq> {4, 5, 6} \<and>
    run_calls (vault_exec id demo_xdr chv_xfer) (map (\<lambda>a. (vault_env, ApproveVault demo_vid a)) as)
      demo_voted = Ok (s', w') \<and>
    Vaults s' demo_vid = Some (demo_vault\<lparr>approvals := 2, status := Released\<rparr>) \<and>
    chv_bal w' 50 3 = 300"
proof -
  have tokens: "chv_step\<^sup>*\<^sup>* chv_init chv_demo2"
    using chv_demo_steps(1,2) [THEN chv_step.call]
    by (meson rtranclp.rtrancl_into_rtrancl rtranclp.rtrancl_refl)
  have run: "(vault_step id demo_xdr chv_xfer (self vault_env))\<^sup>*\<^sup>* (vault_init, \<lambda>_. chv_demo2)
      (fst demo_voted, snd demo_voted)"
    using demo_vault_reachable by simp
  have world: "\<not> is_frozen (snd demo_voted 50) 99" "\<not> is_frozen (snd demo_voted 50) 3"
    "chv_bal (snd demo_voted) 50 3 = 0"
    by (simp_all add: demo_vault_defs is_frozen_def chv_bal_def balance_def)
  have terms: "status demo_vault = Pending" "fits_u32 (threshold demo_vault)"
    "a \<in> set (approvers demo_vault) \<Longrightarrow> auth vault_env a" "recipient demo_vault \<noteq> self vault_env" for a
    by (auto simp: demo_vault_def fits_u32_def)
  show ?thesis
    using pending_vault_releasable [OF _ run tokens demo_lookup terms] world by (simp add: demo_vault_def)
qed

end
