(* ===== verification/Escrow.thy ===== *)
theory Escrow
  imports CHV_Token
begin

text \<open>
  \<open>contracts/escrow/src\<close>: buyer funds held until delivery or expiry. One definition per function of
  \<open>storage.rs\<close>, \<open>create.rs\<close>, \<open>fund.rs\<close>, \<open>release.rs\<close>, \<open>refund.rs\<close>, \<open>dispute.rs\<close>, \<open>resolve.rs\<close>,
  \<open>escrow_state.rs\<close> and the entry points of \<open>lib.rs\<close>. Operations that call a token take the call
  \<open>xfer\<close> as an argument and thread the token world \<open>w\<close>.
\<close>

section \<open>State\<close>

datatype EscrowError =
    NotFound | NotPending | Expired | Unauthorized | TokenNotAllowed | NotExpired | AlreadyReleased
  | InvalidAmount | InvalidRecipient | InvalidExpiration | AlreadyDisputed
  | DisputeResolutionNotImplemented | NoFeesAvailable | ContractPaused | InvalidEscrowState
  | NoArbiterConfigured | NotDisputed | InvalidAllocation

datatype EscrowStatus = Created | Funded | Completed | Cancelled | Disputed

record Escrow =
  buyer :: address
  seller :: address
  token :: address
  amount :: int
  original_amount :: int
  status :: EscrowStatus
  expiration :: nat

record FeeRecord =
  fee_escrow_id :: nat
  fee_token :: address
  fee_amount :: int
  fee_timestamp :: nat

definition DEFAULT_PROTOCOL_FEE_BPS :: nat where "DEFAULT_PROTOCOL_FEE_BPS = 100"
definition MAX_FEE_BPS :: nat where "MAX_FEE_BPS = 5000"

record escrow_state =
  Admin :: "address option"
  Arbiter :: "address option"
  Escrows :: "nat \<rightharpoonup> Escrow"
  EscrowCount :: "nat option"
  TotalVolume :: "int option"
  WhitelistedToken :: "address \<rightharpoonup> bool"
  ProtocolFees :: "address \<rightharpoonup> int"
  TokenIndex :: "address \<rightharpoonup> nat list"
  BuyerIndex :: "address \<rightharpoonup> nat list"
  SellerIndex :: "address \<rightharpoonup> nat list"
  FeeHistory :: "FeeRecord list option"
  ProtocolFeeBps :: "nat option"
  Paused :: "bool option"
  wasm_hash :: "hash32 option"

definition escrow_init :: escrow_state where
  "escrow_init = \<lparr>Admin = None, Arbiter = None, Escrows = Map.empty, EscrowCount = None,
     TotalVolume = None, WhitelistedToken = Map.empty, ProtocolFees = Map.empty,
     TokenIndex = Map.empty, BuyerIndex = Map.empty, SellerIndex = Map.empty, FeeHistory = None,
     ProtocolFeeBps = None, Paused = None, wasm_hash = None\<rparr>"

section \<open>Storage helpers\<close>

definition get_admin :: "escrow_state \<Rightarrow> address option" where
  "get_admin s = Admin s"

definition get_arbiter :: "escrow_state \<Rightarrow> address option" where
  "get_arbiter s = Arbiter s"

definition set_paused :: "bool \<Rightarrow> escrow_state \<Rightarrow> escrow_state" where
  "set_paused b s = s\<lparr>Paused := Some b\<rparr>"

definition is_paused :: "escrow_state \<Rightarrow> bool" where
  "is_paused s = unwrap_or (Paused s) False"

definition require_admin :: "env \<Rightarrow> escrow_state \<Rightarrow> (EscrowError, address) outcome" where
  "require_admin env s =
     and_then (ok_or (get_admin s) Unauthorized) (\<lambda>admin.
     and_then (require_auth env admin) (\<lambda>_. Ok admin))"

definition require_admin_addr :: "env \<Rightarrow> escrow_state \<Rightarrow> address \<Rightarrow> (EscrowError, unit) outcome" where
  "require_admin_addr env s admin =
     and_then (ok_or (get_admin s) Unauthorized) (\<lambda>current.
     if current \<noteq> admin then Err Unauthorized
     else and_then (require_auth env admin) (\<lambda>_. Ok ()))"

definition save_escrow :: "nat \<Rightarrow> Escrow \<Rightarrow> escrow_state \<Rightarrow> escrow_state" where
  "save_escrow i e s = s\<lparr>Escrows := (Escrows s)(i \<mapsto> e)\<rparr>"

definition load_escrow :: "escrow_state \<Rightarrow> nat \<Rightarrow> Escrow option" where
  "load_escrow s i = Escrows s i"

definition get_escrow_count :: "escrow_state \<Rightarrow> nat" where
  "get_escrow_count s = unwrap_or (EscrowCount s) 0"

definition next_escrow_id :: "escrow_state \<Rightarrow> (EscrowError, nat \<times> escrow_state) outcome" where
  "next_escrow_id s =
     and_then (u64_op (unwrap_or (EscrowCount s) 0 + 1)) (\<lambda>n.
     Ok (n, s\<lparr>EscrowCount := Some n\<rparr>))"

definition is_token_whitelisted :: "escrow_state \<Rightarrow> address \<Rightarrow> bool" where
  "is_token_whitelisted s t = unwrap_or (WhitelistedToken s t) False"

definition add_to_total_volume :: "int \<Rightarrow> escrow_state \<Rightarrow> (EscrowError, escrow_state) outcome" where
  "add_to_total_volume n s =
     and_then (i128_op (unwrap_or (TotalVolume s) 0 + n)) (\<lambda>v.
     Ok (s\<lparr>TotalVolume := Some v\<rparr>))"

definition get_total_volume :: "escrow_state \<Rightarrow> int" where
  "get_total_volume s = unwrap_or (TotalVolume s) 0"

definition get_protocol_fee :: "escrow_state \<Rightarrow> address \<Rightarrow> int" where
  "get_protocol_fee s t = unwrap_or (ProtocolFees s t) 0"

definition accumulate_protocol_fee ::
  "address \<Rightarrow> int \<Rightarrow> escrow_state \<Rightarrow> (EscrowError, escrow_state) outcome" where
  "accumulate_protocol_fee t fee s =
     and_then (i128_op (unwrap_or (ProtocolFees s t) 0 + fee)) (\<lambda>f.
     Ok (s\<lparr>ProtocolFees := (ProtocolFees s)(t \<mapsto> f)\<rparr>))"

definition decrement_protocol_fee ::
  "address \<Rightarrow> int \<Rightarrow> escrow_state \<Rightarrow> (EscrowError, int \<times> escrow_state) outcome" where
  "decrement_protocol_fee t fee s =
     (let current = unwrap_or (ProtocolFees s t) 0 in
      if current < fee then Panic
      else and_then (i128_op (current - fee)) (\<lambda>remaining.
      Ok (remaining, s\<lparr>ProtocolFees := (ProtocolFees s)(t \<mapsto> remaining)\<rparr>)))"

definition clear_protocol_fee :: "address \<Rightarrow> escrow_state \<Rightarrow> escrow_state" where
  "clear_protocol_fee t s = s\<lparr>ProtocolFees := (ProtocolFees s)(t \<mapsto> 0)\<rparr>"

definition append_to_token_index :: "address \<Rightarrow> nat \<Rightarrow> escrow_state \<Rightarrow> escrow_state" where
  "append_to_token_index t i s =
     s\<lparr>TokenIndex := (TokenIndex s)(t \<mapsto> unwrap_or (TokenIndex s t) [] @ [i])\<rparr>"

definition append_to_buyer_index :: "address \<Rightarrow> nat \<Rightarrow> escrow_state \<Rightarrow> escrow_state" where
  "append_to_buyer_index b i s =
     s\<lparr>BuyerIndex := (BuyerIndex s)(b \<mapsto> unwrap_or (BuyerIndex s b) [] @ [i])\<rparr>"

definition append_to_seller_index :: "address \<Rightarrow> nat \<Rightarrow> escrow_state \<Rightarrow> escrow_state" where
  "append_to_seller_index a i s =
     s\<lparr>SellerIndex := (SellerIndex s)(a \<mapsto> unwrap_or (SellerIndex s a) [] @ [i])\<rparr>"

definition get_buyer_index :: "escrow_state \<Rightarrow> address \<Rightarrow> nat list" where
  "get_buyer_index s b = unwrap_or (BuyerIndex s b) []"

definition get_seller_index :: "escrow_state \<Rightarrow> address \<Rightarrow> nat list" where
  "get_seller_index s b = unwrap_or (SellerIndex s b) []"

definition get_token_index :: "escrow_state \<Rightarrow> address \<Rightarrow> nat list" where
  "get_token_index s b = unwrap_or (TokenIndex s b) []"

definition get_protocol_fee_bps :: "escrow_state \<Rightarrow> nat" where
  "get_protocol_fee_bps s = unwrap_or (ProtocolFeeBps s) DEFAULT_PROTOCOL_FEE_BPS"

definition append_fee_record :: "FeeRecord \<Rightarrow> escrow_state \<Rightarrow> escrow_state" where
  "append_fee_record r s = s\<lparr>FeeHistory := Some (unwrap_or (FeeHistory s) [] @ [r])\<rparr>"

definition get_fee_history :: "escrow_state \<Rightarrow> FeeRecord list" where
  "get_fee_history s = unwrap_or (FeeHistory s) []"

section \<open>Lifecycle\<close>

text \<open>\<open>escrow_state.rs\<close>: the table of allowed status changes.\<close>

definition allowed_transitions :: "EscrowStatus \<Rightarrow> EscrowStatus list" where
  "allowed_transitions frm =
     (case frm of
        Created \<Rightarrow> [Funded, Cancelled]
      | Funded \<Rightarrow> [Completed, Cancelled, Disputed]
      | Disputed \<Rightarrow> [Completed, Cancelled]
      | _ \<Rightarrow> [])"

definition assert_transition_allowed ::
  "EscrowStatus \<Rightarrow> EscrowStatus \<Rightarrow> (EscrowError, unit) outcome" where
  "assert_transition_allowed frm to =
     (if to \<in> set (allowed_transitions frm) then Ok () else Err InvalidEscrowState)"

definition set_admin :: "env \<Rightarrow> address \<Rightarrow> escrow_state \<Rightarrow> (EscrowError, escrow_state) outcome" where
  "set_admin env admin s =
     and_then (case get_admin s of
        Some current_admin \<Rightarrow> require_auth env current_admin
      | None \<Rightarrow> require_auth env admin) (\<lambda>_.
     Ok (s\<lparr>Admin := Some admin\<rparr>))"

definition whitelist_token ::
  "env \<Rightarrow> address \<Rightarrow> address \<Rightarrow> escrow_state \<Rightarrow> (EscrowError, escrow_state) outcome" where
  "whitelist_token env admin t s =
     and_then (require_admin_addr env s admin) (\<lambda>_.
     Ok (s\<lparr>WhitelistedToken := (WhitelistedToken s)(t \<mapsto> True)\<rparr>))"

definition set_arbiter ::
  "env \<Rightarrow> address \<Rightarrow> address \<Rightarrow> escrow_state \<Rightarrow> (EscrowError, escrow_state) outcome" where
  "set_arbiter env admin arbiter s =
     and_then (require_admin_addr env s admin) (\<lambda>_.
     Ok (s\<lparr>Arbiter := Some arbiter\<rparr>))"

definition set_protocol_fee_bps ::
  "env \<Rightarrow> address \<Rightarrow> nat \<Rightarrow> escrow_state \<Rightarrow> (EscrowError, escrow_state) outcome" where
  "set_protocol_fee_bps env admin bps s =
     and_then (require_admin_addr env s admin) (\<lambda>_.
     if bps > MAX_FEE_BPS then Err Unauthorized
     else Ok (s\<lparr>ProtocolFeeBps := Some bps\<rparr>))"

definition create_escrow ::
  "env \<Rightarrow> address \<Rightarrow> address \<Rightarrow> address \<Rightarrow> int \<Rightarrow> nat \<Rightarrow> escrow_state \<Rightarrow>
   (EscrowError, nat \<times> escrow_state) outcome" where
  "create_escrow env b a t n expiry s =
     (if n \<le> 0 then Err InvalidAmount
      else if expiry \<le> timestamp env then Err InvalidExpiration
      else if b = a then Err InvalidRecipient
      else and_then (require_auth env b) (\<lambda>_.
      if \<not> is_token_whitelisted s t then Err TokenNotAllowed
      else and_then (next_escrow_id s) (\<lambda>(i, s).
      let e = \<lparr>buyer = b, seller = a, token = t, amount = n, original_amount = n,
               status = Created, expiration = expiry\<rparr>;
          s = save_escrow i e s;
          s = append_to_token_index t i s;
          s = append_to_buyer_index b i s;
          s = append_to_seller_index a i s
      in Ok (i, s))))"

definition fund_escrow ::
  "'w transfer_fn \<Rightarrow> env \<Rightarrow> address \<Rightarrow> nat \<Rightarrow> escrow_state \<times> 'w \<Rightarrow>
   (EscrowError, escrow_state \<times> 'w) outcome" where
  "fund_escrow xfer env caller i = (\<lambda>(s, w).
     and_then (require_auth env caller) (\<lambda>_.
     and_then (ok_or (load_escrow s i) NotFound) (\<lambda>e.
     if caller \<noteq> buyer e then Err Unauthorized
     else if status e \<noteq> Created then Err InvalidEscrowState
     else if timestamp env \<ge> expiration e then Err Expired
     else and_then (unwrap (xfer w (token e) (buyer e) (self env) (amount e))) (\<lambda>w.
     let e = e\<lparr>status := Funded\<rparr>;
         s = save_escrow i e s in
     and_then (add_to_total_volume (amount e) s) (\<lambda>s.
     Ok (s, w))))))"

definition compute_fee_and_payout :: "int \<Rightarrow> nat \<Rightarrow> (EscrowError, int \<times> int) outcome" where
  "compute_fee_and_payout n fee_bps =
     (if n < 0 then Err InvalidAmount
      else
        let prod = n * int fee_bps in
        if \<not> fits_u128 prod then Err InvalidAmount
        else
          let fee = prod div 10000 in
          if n < fee then Err InvalidAmount
          else Ok (fee, n - fee))"

definition authorize_releaser ::
  "env \<Rightarrow> escrow_state \<Rightarrow> address \<Rightarrow> address \<Rightarrow> (EscrowError, unit) outcome" where
  "authorize_releaser env s caller b =
     and_then (require_auth env caller) (\<lambda>_.
     if caller = b then Ok ()
     else if get_admin s = Some caller then Ok ()
     else Err Unauthorized)"

definition release_escrow ::
  "'w transfer_fn \<Rightarrow> env \<Rightarrow> address \<Rightarrow> nat \<Rightarrow> escrow_state \<times> 'w \<Rightarrow>
   (EscrowError, escrow_state \<times> 'w) outcome" where
  "release_escrow xfer env caller i = (\<lambda>(s, w).
     and_then (ok_or (load_escrow s i) NotFound) (\<lambda>e.
     and_then (authorize_releaser env s caller (buyer e)) (\<lambda>_.
     if timestamp env \<ge> expiration e then Err Expired
     else if status e = Completed then Err AlreadyReleased
     else if status e \<noteq> Funded then Err InvalidEscrowState
     else and_then (compute_fee_and_payout (amount e) (get_protocol_fee_bps s)) (\<lambda>(fee, payout).
     and_then (unwrap (xfer w (token e) (self env) (seller e) payout)) (\<lambda>w.
     and_then (accumulate_protocol_fee (token e) fee s) (\<lambda>s.
     let s = append_fee_record \<lparr>fee_escrow_id = i, fee_token = token e, fee_amount = fee,
               fee_timestamp = timestamp env\<rparr> s;
         s = save_escrow i (e\<lparr>status := Completed, amount := 0\<rparr>) s
     in Ok (s, w)))))))"

definition partial_release ::
  "'w transfer_fn \<Rightarrow> env \<Rightarrow> address \<Rightarrow> nat \<Rightarrow> int \<Rightarrow> escrow_state \<times> 'w \<Rightarrow>
   (EscrowError, escrow_state \<times> 'w) outcome" where
  "partial_release xfer env caller i release_amount = (\<lambda>(s, w).
     if release_amount \<le> 0 then Err InvalidAmount
     else and_then (ok_or (load_escrow s i) NotFound) (\<lambda>e.
     if status e = Completed then Err AlreadyReleased
     else if status e \<noteq> Funded then Err InvalidEscrowState
     else and_then (authorize_releaser env s caller (buyer e)) (\<lambda>_.
     if timestamp env \<ge> expiration e then Err Expired
     else if release_amount > amount e then Err InvalidAmount
     else and_then (compute_fee_and_payout release_amount (get_protocol_fee_bps s)) (\<lambda>(fee, payout).
     and_then (unwrap (xfer w (token e) (self env) (seller e) payout)) (\<lambda>w.
     and_then (accumulate_protocol_fee (token e) fee s) (\<lambda>s.
     let s = append_fee_record \<lparr>fee_escrow_id = i, fee_token = token e, fee_amount = fee,
               fee_timestamp = timestamp env\<rparr> s in
     and_then (i128_op (amount e - release_amount)) (\<lambda>left.
     let e = e\<lparr>amount := left\<rparr>;
         e = (if left = 0 then e\<lparr>status := Completed\<rparr> else e);
         s = save_escrow i e s
     in Ok (s, w))))))))"

definition refund_escrow ::
  "'w transfer_fn \<Rightarrow> env \<Rightarrow> address \<Rightarrow> nat \<Rightarrow> escrow_state \<times> 'w \<Rightarrow>
   (EscrowError, escrow_state \<times> 'w) outcome" where
  "refund_escrow xfer env caller i = (\<lambda>(s, w).
     and_then (require_auth env caller) (\<lambda>_.
     and_then (ok_or (load_escrow s i) NotFound) (\<lambda>e.
     if caller \<noteq> buyer e then Err Unauthorized
     else if status e \<noteq> Funded then Err InvalidEscrowState
     else if timestamp env < expiration e then Err NotExpired
     else and_then (unwrap (xfer w (token e) (self env) (buyer e) (amount e))) (\<lambda>w.
     and_then (assert_transition_allowed (status e) Cancelled) (\<lambda>_.
     Ok (save_escrow i (e\<lparr>status := Cancelled, amount := 0\<rparr>) s, w))))))"

text \<open>The two aliases for older call sites: the buyer on record is the caller.\<close>

definition release_funds ::
  "'w transfer_fn \<Rightarrow> env \<Rightarrow> nat \<Rightarrow> escrow_state \<times> 'w \<Rightarrow>
   (EscrowError, escrow_state \<times> 'w) outcome" where
  "release_funds xfer env i = (\<lambda>(s, w).
     and_then (ok_or (load_escrow s i) NotFound) (\<lambda>e.
     release_escrow xfer env (buyer e) i (s, w)))"

definition refund_buyer ::
  "'w transfer_fn \<Rightarrow> env \<Rightarrow> nat \<Rightarrow> escrow_state \<times> 'w \<Rightarrow>
   (EscrowError, escrow_state \<times> 'w) outcome" where
  "refund_buyer xfer env i = (\<lambda>(s, w).
     and_then (ok_or (load_escrow s i) NotFound) (\<lambda>e.
     refund_escrow xfer env (buyer e) i (s, w)))"

definition dispute ::
  "env \<Rightarrow> address \<Rightarrow> nat \<Rightarrow> escrow_state \<Rightarrow> (EscrowError, escrow_state) outcome" where
  "dispute env caller i s =
     and_then (require_auth env caller) (\<lambda>_.
     and_then (ok_or (load_escrow s i) NotFound) (\<lambda>e.
     if caller \<noteq> buyer e then Err Unauthorized
     else if status e = Disputed then Err AlreadyDisputed
     else if status e \<noteq> Funded then Err InvalidEscrowState
     else and_then (assert_transition_allowed (status e) Disputed) (\<lambda>_.
     Ok (save_escrow i (e\<lparr>status := Disputed\<rparr>) s))))"

definition pay_if_positive ::
  "'w transfer_fn \<Rightarrow> address \<Rightarrow> address \<Rightarrow> address \<Rightarrow> int \<Rightarrow> 'w \<Rightarrow> (EscrowError, 'w) outcome" where
  "pay_if_positive xfer t me to n w = (if n > 0 then unwrap (xfer w t me to n) else Ok w)"

definition fee_if_positive ::
  "address \<Rightarrow> int \<Rightarrow> escrow_state \<Rightarrow> (EscrowError, escrow_state) outcome" where
  "fee_if_positive t fee s = (if fee > 0 then accumulate_protocol_fee t fee s else Ok s)"

definition resolve_dispute ::
  "'w transfer_fn \<Rightarrow> env \<Rightarrow> address \<Rightarrow> nat \<Rightarrow> int \<Rightarrow> int \<Rightarrow> int \<Rightarrow> escrow_state \<times> 'w \<Rightarrow>
   (EscrowError, escrow_state \<times> 'w) outcome" where
  "resolve_dispute xfer env arbiter i buyer_amount seller_amount fee = (\<lambda>(s, w).
     and_then (ok_or (get_arbiter s) NoArbiterConfigured) (\<lambda>configured.
     if configured \<noteq> arbiter then Err Unauthorized
     else and_then (require_auth env arbiter) (\<lambda>_.
     and_then (ok_or (load_escrow s i) NotFound) (\<lambda>e.
     if status e \<noteq> Disputed then Err NotDisputed
     else and_then (assert_transition_allowed (status e) Completed) (\<lambda>_.
     if buyer_amount < 0 \<or> seller_amount < 0 \<or> fee < 0 then Err InvalidAllocation
     else and_then (ok_or (i128_checked (buyer_amount + seller_amount)) InvalidAllocation) (\<lambda>v.
     and_then (ok_or (i128_checked (v + fee)) InvalidAllocation) (\<lambda>total.
     if total > amount e then Err InvalidAllocation
     else and_then (pay_if_positive xfer (token e) (self env) (buyer e) buyer_amount w) (\<lambda>w.
     and_then (pay_if_positive xfer (token e) (self env) (seller e) seller_amount w) (\<lambda>w.
     and_then (fee_if_positive (token e) fee s) (\<lambda>s.
     Ok (save_escrow i (e\<lparr>status := Completed, amount := 0\<rparr>) s, w)))))))))))"

definition withdraw_fees ::
  "'w transfer_fn \<Rightarrow> env \<Rightarrow> address \<Rightarrow> address \<Rightarrow> address \<Rightarrow> int \<Rightarrow> escrow_state \<times> 'w \<Rightarrow>
   (EscrowError, escrow_state \<times> 'w) outcome" where
  "withdraw_fees xfer env caller t recipient n = (\<lambda>(s, w).
     and_then (require_admin_addr env s caller) (\<lambda>_.
     if n \<le> 0 then Err InvalidAmount
     else
       let accrued = get_protocol_fee s t in
       if n > accrued then Err NoFeesAvailable
       else and_then (unwrap (xfer w t (self env) recipient n)) (\<lambda>w.
       and_then (decrement_protocol_fee t n s) (\<lambda>(remaining, s).
       Ok (s, w)))))"

definition upgrade :: "env \<Rightarrow> hash32 \<Rightarrow> escrow_state \<Rightarrow> (EscrowError, escrow_state) outcome" where
  "upgrade env new_wasm s =
     and_then (require_admin env s) (\<lambda>_. Ok (s\<lparr>wasm_hash := Some new_wasm\<rparr>))"

section \<open>Calls and steps\<close>

datatype escrow_call =
    SetAdmin address | WhitelistToken address address | SetArbiter address address
  | SetFee address nat | Create address address address int nat | Fund address nat
  | Release address nat | PartialRelease address nat int | Dispute address nat
  | Resolve address nat int int int | Refund address nat
  | WithdrawFees address address address int | Upgrade hash32

fun escrow_exec ::
  "'w transfer_fn \<Rightarrow> env \<Rightarrow> escrow_call \<Rightarrow> escrow_state \<times> 'w \<Rightarrow>
   (EscrowError, escrow_state \<times> 'w) outcome" where
  "escrow_exec xfer env (SetAdmin a) (s, w) = and_then (set_admin env a s) (\<lambda>s. Ok (s, w))"
| "escrow_exec xfer env (WhitelistToken a t) (s, w) =
     and_then (whitelist_token env a t s) (\<lambda>s. Ok (s, w))"
| "escrow_exec xfer env (SetArbiter a b) (s, w) = and_then (set_arbiter env a b s) (\<lambda>s. Ok (s, w))"
| "escrow_exec xfer env (SetFee a n) (s, w) =
     and_then (set_protocol_fee_bps env a n s) (\<lambda>s. Ok (s, w))"
| "escrow_exec xfer env (Create b a t n x) (s, w) =
     and_then (create_escrow env b a t n x s) (\<lambda>(i, s). Ok (s, w))"
| "escrow_exec xfer env (Fund a i) sw = fund_escrow xfer env a i sw"
| "escrow_exec xfer env (Release a i) sw = release_escrow xfer env a i sw"
| "escrow_exec xfer env (PartialRelease a i n) sw = partial_release xfer env a i n sw"
| "escrow_exec xfer env (Dispute a i) (s, w) = and_then (dispute env a i s) (\<lambda>s. Ok (s, w))"
| "escrow_exec xfer env (Resolve a i b c f) sw = resolve_dispute xfer env a i b c f sw"
| "escrow_exec xfer env (Refund a i) sw = refund_escrow xfer env a i sw"
| "escrow_exec xfer env (WithdrawFees a t r n) sw = withdraw_fees xfer env a t r n sw"
| "escrow_exec xfer env (Upgrade h) (s, w) = and_then (upgrade env h s) (\<lambda>s. Ok (s, w))"

text \<open>
  A step of the contract deployed at \<open>me\<close>: a successful call by anybody else. The contract never
  calls its own entry points, so its own address is not among the authorisers of a call.
\<close>

inductive escrow_step ::
  "'w transfer_fn \<Rightarrow> address \<Rightarrow> escrow_state \<times> 'w \<Rightarrow> escrow_state \<times> 'w \<Rightarrow> bool"
  for xfer me where
  call: "self env = me \<Longrightarrow> \<not> auth env me \<Longrightarrow> escrow_exec xfer env c sw = Ok sw' \<Longrightarrow>
    escrow_step xfer me sw sw'"

inductive_cases escrow_stepE: "escrow_step xfer me sw sw'"

section \<open>What a successful call did\<close>

lemmas escrow_storage = load_escrow_def save_escrow_def get_admin_def get_arbiter_def
  append_to_token_index_def append_to_buyer_index_def append_to_seller_index_def
  append_fee_record_def

lemma escrow_access [outcome_iff]:
  "require_admin env s = Ok a \<longleftrightarrow> Admin s = Some a \<and> auth env a"
  "require_admin_addr env s a = Ok u \<longleftrightarrow> Admin s = Some a \<and> auth env a"
  "authorize_releaser env s a b = Ok u \<longleftrightarrow> auth env a \<and> (a = b \<or> Admin s = Some a)"
  by (auto simp: require_admin_def require_admin_addr_def authorize_releaser_def get_admin_def
      outcome_iff split: if_splits)

lemma fee_and_payout_Ok:
  "compute_fee_and_payout n bps = Ok (fee, payout) \<longleftrightarrow>
     0 \<le> n \<and> fits_u128 (n * int bps) \<and> fee = n * int bps div 10000 \<and> fee \<le> n \<and> payout = n - fee"
  by (auto simp: compute_fee_and_payout_def Let_def outcome_iff)

lemma accumulate_Ok:
  "accumulate_protocol_fee t fee s = Ok s' \<longleftrightarrow>
     fits_i128 (get_protocol_fee s t + fee) \<and>
     s' = s\<lparr>ProtocolFees := (ProtocolFees s)(t \<mapsto> get_protocol_fee s t + fee)\<rparr>"
  by (auto simp: accumulate_protocol_fee_def get_protocol_fee_def outcome_iff)

lemma escrow_create_Ok:
  assumes "create_escrow env b a t n x s = Ok (i, s')"
  obtains "0 < n" "timestamp env < x" "b \<noteq> a" "auth env b" "is_token_whitelisted s t"
    "i = get_escrow_count s + 1" "fits_u64 i" "EscrowCount s' = Some i"
    "Escrows s' = (Escrows s)(i \<mapsto> \<lparr>buyer = b, seller = a, token = t, amount = n,
       original_amount = n, status = Created, expiration = x\<rparr>)"
    "ProtocolFees s' = ProtocolFees s" "ProtocolFeeBps s' = ProtocolFeeBps s"
  using assms
  by (auto simp: create_escrow_def next_escrow_id_def get_escrow_count_def escrow_storage
      outcome_iff Let_def)

lemma fund_Ok:
  assumes "fund_escrow xfer env caller i (s, w) = Ok (s', w')"
  obtains e where "auth env caller" "Escrows s i = Some e" "caller = buyer e" "status e = Created"
    "timestamp env < expiration e"
    "xfer w (token e) (buyer e) (self env) (amount e) = Some w'"
    "s' = s\<lparr>Escrows := (Escrows s)(i \<mapsto> e\<lparr>status := Funded\<rparr>),
            TotalVolume := Some (get_total_volume s + amount e)\<rparr>"
  using assms
  by (auto simp: fund_escrow_def add_to_total_volume_def get_total_volume_def escrow_storage
      outcome_iff Let_def)

lemma escrow_release_Ok:
  assumes "release_escrow xfer env caller i (s, w) = Ok (s', w')"
  obtains e fee payout where "auth env caller" "Escrows s i = Some e"
    "caller = buyer e \<or> Admin s = Some caller" "status e = Funded" "timestamp env < expiration e"
    "compute_fee_and_payout (amount e) (get_protocol_fee_bps s) = Ok (fee, payout)"
    "xfer w (token e) (self env) (seller e) payout = Some w'"
    "Escrows s' = (Escrows s)(i \<mapsto> e\<lparr>status := Completed, amount := 0\<rparr>)"
    "ProtocolFees s' = (ProtocolFees s)(token e \<mapsto> get_protocol_fee s (token e) + fee)"
    "EscrowCount s' = EscrowCount s" "ProtocolFeeBps s' = ProtocolFeeBps s"
  using assms
  by (auto simp: release_escrow_def accumulate_Ok escrow_storage outcome_iff Let_def
      split: if_splits)

lemma escrow_partial_Ok:
  assumes "partial_release xfer env caller i n (s, w) = Ok (s', w')"
  obtains e fee payout where "0 < n" "auth env caller" "Escrows s i = Some e"
    "caller = buyer e \<or> Admin s = Some caller" "status e = Funded" "timestamp env < expiration e"
    "n \<le> amount e"
    "compute_fee_and_payout n (get_protocol_fee_bps s) = Ok (fee, payout)"
    "xfer w (token e) (self env) (seller e) payout = Some w'"
    "Escrows s' = (Escrows s)(i \<mapsto> (if amount e = n then e\<lparr>amount := 0, status := Completed\<rparr>
        else e\<lparr>amount := amount e - n\<rparr>))"
    "ProtocolFees s' = (ProtocolFees s)(token e \<mapsto> get_protocol_fee s (token e) + fee)"
    "EscrowCount s' = EscrowCount s" "ProtocolFeeBps s' = ProtocolFeeBps s"
  using assms
  by (simp add: partial_release_def accumulate_Ok escrow_storage outcome_iff Let_def
      not_le not_less case_prod_beta cong: if_cong)
    (elim exE conjE, hypsubst, simp cong: if_cong)

lemma refund_Ok:
  assumes "refund_escrow xfer env caller i (s, w) = Ok (s', w')"
  obtains e where "auth env caller" "Escrows s i = Some e" "caller = buyer e" "status e = Funded"
    "expiration e \<le> timestamp env"
    "xfer w (token e) (self env) (buyer e) (amount e) = Some w'"
    "s' = s\<lparr>Escrows := (Escrows s)(i \<mapsto> e\<lparr>status := Cancelled, amount := 0\<rparr>)\<rparr>"
  using assms
  by (auto simp: refund_escrow_def escrow_storage outcome_iff Let_def)

lemma dispute_Ok:
  assumes "dispute env caller i s = Ok s'"
  obtains e where "auth env caller" "Escrows s i = Some e" "caller = buyer e" "status e = Funded"
    "s' = s\<lparr>Escrows := (Escrows s)(i \<mapsto> e\<lparr>status := Disputed\<rparr>)\<rparr>"
  using assms
  by (auto simp: dispute_def escrow_storage outcome_iff Let_def)

lemma fee_if_positive_Ok:
  assumes "fee_if_positive t fee s = Ok s'" "0 \<le> fee"
  shows "get_protocol_fee s' u = get_protocol_fee s u + (if u = t then fee else 0)"
    "Escrows s' = Escrows s" "EscrowCount s' = EscrowCount s"
    "ProtocolFeeBps s' = ProtocolFeeBps s"
  using assms by (auto simp: fee_if_positive_def accumulate_Ok get_protocol_fee_def split: if_splits)

lemma resolve_Ok:
  assumes "resolve_dispute xfer env arbiter i b c fee (s, w) = Ok (s', w')"
  obtains e w1 where "auth env arbiter" "Arbiter s = Some arbiter" "Escrows s i = Some e"
    "status e = Disputed" "0 \<le> b" "0 \<le> c" "0 \<le> fee" "b + c + fee \<le> amount e"
    "pay_if_positive xfer (token e) (self env) (buyer e) b w = Ok w1"
    "pay_if_positive xfer (token e) (self env) (seller e) c w1 = Ok w'"
    "Escrows s' = (Escrows s)(i \<mapsto> e\<lparr>status := Completed, amount := 0\<rparr>)"
    "\<And>t. get_protocol_fee s' t = get_protocol_fee s t + (if t = token e then fee else 0)"
    "EscrowCount s' = EscrowCount s" "ProtocolFeeBps s' = ProtocolFeeBps s"
proof -
  from assms obtain e w1 s1 where call: "auth env arbiter" "Arbiter s = Some arbiter"
    "Escrows s i = Some e" "status e = Disputed" "0 \<le> b" "0 \<le> c" "0 \<le> fee"
    "b + c + fee \<le> amount e"
    "pay_if_positive xfer (token e) (self env) (buyer e) b w = Ok w1"
    "pay_if_positive xfer (token e) (self env) (seller e) c w1 = Ok w'"
    and fee: "fee_if_positive (token e) fee s = Ok s1"
    and s': "s' = s1\<lparr>Escrows := (Escrows s1)(i \<mapsto> e\<lparr>status := Completed, amount := 0\<rparr>)\<rparr>"
    by (simp add: resolve_dispute_def escrow_storage outcome_iff Let_def not_le not_less) blast
  show thesis
    using fee_if_positive_Ok [OF fee] s' call by (intro that [OF call]) (auto simp: get_protocol_fee_def)
qed

lemma escrow_withdraw_Ok:
  assumes "withdraw_fees xfer env caller t r n (s, w) = Ok (s', w')"
  obtains "auth env caller" "Admin s = Some caller" "0 < n" "n \<le> get_protocol_fee s t"
    "xfer w t (self env) r n = Some w'"
    "s' = s\<lparr>ProtocolFees := (ProtocolFees s)(t \<mapsto> get_protocol_fee s t - n)\<rparr>"
  using assms
  by (auto simp: withdraw_fees_def decrement_protocol_fee_def get_protocol_fee_def escrow_storage
      outcome_iff Let_def split: if_splits)

section \<open>Well-formed states\<close>

text \<open>
  The amount still locked in an escrow, per status: untouched before funding, positive while the
  contract holds the money, zero once settled.
\<close>

definition escrow_ok :: "Escrow \<Rightarrow> bool" where
  "escrow_ok e \<longleftrightarrow> buyer e \<noteq> seller e \<and> amount e \<le> original_amount e \<and>
     (case status e of
        Created \<Rightarrow> 0 < amount e \<and> amount e = original_amount e
      | Funded \<Rightarrow> 0 < amount e
      | Disputed \<Rightarrow> 0 < amount e
      | Completed \<Rightarrow> amount e = 0
      | Cancelled \<Rightarrow> amount e = 0)"

definition escrow_wf :: "escrow_state \<Rightarrow> bool" where
  "escrow_wf s \<longleftrightarrow>
     finite (dom (Escrows s)) \<and>
     (\<forall>i e. Escrows s i = Some e \<longrightarrow> 0 < i \<and> i \<le> get_escrow_count s \<and> escrow_ok e) \<and>
     (\<forall>t. 0 \<le> get_protocol_fee s t) \<and>
     get_protocol_fee_bps s \<le> MAX_FEE_BPS"

lemma wf_lookup: "escrow_wf s \<Longrightarrow> Escrows s i = Some e \<Longrightarrow> escrow_ok e"
  by (simp add: escrow_wf_def)

lemma wf_finite [simp]: "escrow_wf s \<Longrightarrow> finite (dom (Escrows s))"
  by (simp add: escrow_wf_def)

lemma escrow_wf_save:
  assumes "escrow_wf s" "Escrows s i = Some e" "escrow_ok e'"
    "Escrows s' = (Escrows s)(i \<mapsto> e')" "\<And>t. 0 \<le> get_protocol_fee s' t"
    "EscrowCount s' = EscrowCount s" "ProtocolFeeBps s' = ProtocolFeeBps s"
  shows "escrow_wf s'"
  using assms unfolding escrow_wf_def get_escrow_count_def get_protocol_fee_bps_def by auto

lemma fee_nonneg:
  "compute_fee_and_payout n bps = Ok (fee, payout) \<Longrightarrow> 0 \<le> fee \<and> fee + payout = n"
  by (auto simp: fee_and_payout_Ok pos_imp_zdiv_nonneg_iff)

lemma wf_fee [simp]: "escrow_wf s \<Longrightarrow> 0 \<le> get_protocol_fee s t"
  by (simp add: escrow_wf_def)

lemma wf_fresh: "escrow_wf s \<Longrightarrow> Escrows s (get_escrow_count s + 1) = None"
proof (rule ccontr)
  assume wf: "escrow_wf s" and "Escrows s (get_escrow_count s + 1) \<noteq> None"
  then obtain e where "Escrows s (get_escrow_count s + 1) = Some e" by blast
  with wf have "get_escrow_count s + 1 \<le> get_escrow_count s" unfolding escrow_wf_def by blast
  then show False by simp
qed

lemma escrow_create_wf:
  "create_escrow env b a t n x s = Ok (i, s') \<Longrightarrow> escrow_wf s \<Longrightarrow> escrow_wf s'"
  by (erule escrow_create_Ok)
    (fastforce simp: escrow_wf_def escrow_ok_def get_escrow_count_def get_protocol_fee_def
      get_protocol_fee_bps_def)

lemma fund_wf: "fund_escrow xfer env c i (s, w) = Ok (s', w') \<Longrightarrow> escrow_wf s \<Longrightarrow> escrow_wf s'"
  by (erule fund_Ok, rule escrow_wf_save) (auto simp: escrow_ok_def get_protocol_fee_def
      dest: wf_lookup wf_fee)

lemma release_wf:
  assumes "release_escrow xfer env c i (s, w) = Ok (s', w')" "escrow_wf s"
  shows "escrow_wf s'"
  using assms(1)
proof (rule escrow_release_Ok)
  fix e fee payout
  assume *: "Escrows s i = Some e"
    "compute_fee_and_payout (amount e) (get_protocol_fee_bps s) = Ok (fee, payout)"
    "Escrows s' = (Escrows s)(i \<mapsto> e\<lparr>status := Completed, amount := 0\<rparr>)"
    "ProtocolFees s' = (ProtocolFees s)(token e \<mapsto> get_protocol_fee s (token e) + fee)"
    "EscrowCount s' = EscrowCount s" "ProtocolFeeBps s' = ProtocolFeeBps s" "status e = Funded"
  show ?thesis
    using * wf_lookup [OF assms(2) *(1)] fee_nonneg [OF *(2)] wf_fee [OF assms(2)]
    by (intro escrow_wf_save [OF assms(2) *(1) _ *(3)]) (auto simp: escrow_ok_def get_protocol_fee_def)
qed

lemma partial_wf:
  assumes "partial_release xfer env c i n (s, w) = Ok (s', w')" "escrow_wf s"
  shows "escrow_wf s'"
  using assms(1)
proof (rule escrow_partial_Ok)
  fix e fee payout
  assume *: "Escrows s i = Some e"
    "compute_fee_and_payout n (get_protocol_fee_bps s) = Ok (fee, payout)"
    "Escrows s' = (Escrows s)(i \<mapsto> (if amount e = n then e\<lparr>amount := 0, status := Completed\<rparr>
        else e\<lparr>amount := amount e - n\<rparr>))"
    "ProtocolFees s' = (ProtocolFees s)(token e \<mapsto> get_protocol_fee s (token e) + fee)"
    "EscrowCount s' = EscrowCount s" "ProtocolFeeBps s' = ProtocolFeeBps s" "status e = Funded"
    "0 < n" "n \<le> amount e"
  show ?thesis
    using * wf_lookup [OF assms(2) *(1)] fee_nonneg [OF *(2)] wf_fee [OF assms(2)]
    by (intro escrow_wf_save [OF assms(2) *(1) _ *(3)]) (auto simp: escrow_ok_def get_protocol_fee_def)
qed

lemma refund_wf: "refund_escrow xfer env c i (s, w) = Ok (s', w') \<Longrightarrow> escrow_wf s \<Longrightarrow> escrow_wf s'"
  by (erule refund_Ok, rule escrow_wf_save) (auto simp: escrow_ok_def get_protocol_fee_def
      dest: wf_lookup wf_fee)

lemma dispute_wf: "dispute env c i s = Ok s' \<Longrightarrow> escrow_wf s \<Longrightarrow> escrow_wf s'"
  by (erule dispute_Ok, rule escrow_wf_save) (auto simp: escrow_ok_def get_protocol_fee_def
      dest: wf_lookup wf_fee)

lemma resolve_wf:
  "resolve_dispute xfer env a i b c f (s, w) = Ok (s', w') \<Longrightarrow> escrow_wf s \<Longrightarrow> escrow_wf s'"
  by (erule resolve_Ok, rule escrow_wf_save) (auto simp: escrow_ok_def intro: add_nonneg_nonneg dest: wf_lookup)

lemma withdraw_wf:
  "withdraw_fees xfer env c t r n (s, w) = Ok (s', w') \<Longrightarrow> escrow_wf s \<Longrightarrow> escrow_wf s'"
  by (erule escrow_withdraw_Ok)
    (auto simp: escrow_wf_def get_escrow_count_def get_protocol_fee_bps_def get_protocol_fee_def)

lemma config_wf:
  "set_admin env a s = Ok s' \<Longrightarrow> escrow_wf s \<Longrightarrow> escrow_wf s'"
  "whitelist_token env a t s = Ok s' \<Longrightarrow> escrow_wf s \<Longrightarrow> escrow_wf s'"
  "set_arbiter env a t s = Ok s' \<Longrightarrow> escrow_wf s \<Longrightarrow> escrow_wf s'"
  "set_protocol_fee_bps env a n s = Ok s' \<Longrightarrow> escrow_wf s \<Longrightarrow> escrow_wf s'"
  "upgrade env h s = Ok s' \<Longrightarrow> escrow_wf s \<Longrightarrow> escrow_wf s'"
  by (auto simp: set_admin_def whitelist_token_def set_arbiter_def set_protocol_fee_bps_def
      upgrade_def outcome_iff escrow_wf_def get_escrow_count_def get_protocol_fee_def
      get_protocol_fee_bps_def)

lemma escrow_exec_wf:
  "escrow_exec xfer env c (s, w) = Ok (s', w') \<Longrightarrow> escrow_wf s \<Longrightarrow> escrow_wf s'"
  by (cases c)
    (auto simp: outcome_iff intro: config_wf escrow_create_wf fund_wf release_wf partial_wf refund_wf
      dispute_wf resolve_wf withdraw_wf)

interpretation escrow_runs: preserved "escrow_step xfer me" "\<lambda>sw. escrow_wf (fst sw)" for xfer me
  by unfold_locales (auto elim!: escrow_stepE intro: escrow_exec_wf)

lemma escrow_run_wf:
  assumes "(escrow_step xfer me)\<^sup>*\<^sup>* sw (s, w)" and "escrow_wf (fst sw)"
  shows "escrow_wf s"
  using escrow_runs.run [OF assms] by simp

lemma escrow_init_wf: "escrow_wf escrow_init"
  by (simp add: escrow_wf_def escrow_init_def get_protocol_fee_def get_protocol_fee_bps_def
      DEFAULT_PROTOCOL_FEE_BPS_def MAX_FEE_BPS_def)

section \<open>Liabilities and custody\<close>

text \<open>What the contract owes in token \<open>t\<close>: the funded and disputed escrows, and the fee pool.\<close>

definition locked :: "address \<Rightarrow> Escrow \<Rightarrow> int" where
  "locked t e = (if token e = t \<and> (status e = Funded \<or> status e = Disputed) then amount e else 0)"

definition escrow_liab :: "escrow_state \<Rightarrow> address \<Rightarrow> int" where
  "escrow_liab s t = msum (locked t) (Escrows s) + get_protocol_fee s t"

lemma escrow_liab_save:
  assumes "finite (dom (Escrows s))" "Escrows s i = Some e" "Escrows s' = (Escrows s)(i \<mapsto> e')"
  shows "escrow_liab s' t = escrow_liab s t - locked t e + locked t e'
    + (get_protocol_fee s' t - get_protocol_fee s t)"
  using assms by (simp add: escrow_liab_def msum_replace)

lemma config_liab:
  "set_admin env a s = Ok s' \<Longrightarrow> escrow_liab s' = escrow_liab s"
  "whitelist_token env a t s = Ok s' \<Longrightarrow> escrow_liab s' = escrow_liab s"
  "set_arbiter env a t s = Ok s' \<Longrightarrow> escrow_liab s' = escrow_liab s"
  "set_protocol_fee_bps env a n s = Ok s' \<Longrightarrow> escrow_liab s' = escrow_liab s"
  "upgrade env h s = Ok s' \<Longrightarrow> escrow_liab s' = escrow_liab s"
  by (auto simp: set_admin_def whitelist_token_def set_arbiter_def set_protocol_fee_bps_def
      upgrade_def outcome_iff escrow_liab_def get_protocol_fee_def fun_eq_iff)

lemma create_liab:
  assumes "create_escrow env b a t n x s = Ok (i, s')" "escrow_wf s"
  shows "escrow_liab s' = escrow_liab s"
  using assms(1)
proof (rule escrow_create_Ok)
  assume i: "i = get_escrow_count s + 1"
    and E: "Escrows s' = (Escrows s)(i \<mapsto> \<lparr>buyer = b, seller = a, token = t, amount = n,
       original_amount = n, status = Created, expiration = x\<rparr>)"
    and F: "ProtocolFees s' = ProtocolFees s"
  have "Escrows s i = None"
    using wf_fresh [OF assms(2)] i by simp
  then show ?thesis
    using assms(2) E F
    by (intro ext) (simp add: escrow_liab_def msum_insert locked_def get_protocol_fee_def)
qed

lemma dispute_liab:
  "dispute env c i s = Ok s' \<Longrightarrow> escrow_wf s \<Longrightarrow> escrow_liab s' = escrow_liab s"
  by (erule dispute_Ok) (simp add: escrow_liab_def msum_replace locked_def get_protocol_fee_def fun_eq_iff)

lemma fund_custody:
  assumes "fund_escrow xfer env c i (s, w) = Ok (s', w')" "escrow_wf s" "\<not> auth env (self env)"
  shows "custody_move xfer (auth env) (self env) (escrow_liab s) w (escrow_liab s') w'"
  using assms(1)
proof (rule fund_Ok)
  fix e
  assume *: "auth env c" "Escrows s i = Some e" "c = buyer e" "status e = Created"
    "xfer w (token e) (buyer e) (self env) (amount e) = Some w'"
    "s' = s\<lparr>Escrows := (Escrows s)(i \<mapsto> e\<lparr>status := Funded\<rparr>),
            TotalVolume := Some (get_total_volume s + amount e)\<rparr>"
  show ?thesis
  proof (rule custody_move.pay_in [where xfer = xfer, OF *(5)])
    show "auth env (buyer e)" "buyer e \<noteq> self env" using * assms(3) by auto
    show "escrow_liab s' u \<le> escrow_liab s u + (if u = token e then amount e else 0)" for u
      using * assms(2) by (simp add: escrow_liab_def msum_replace locked_def get_protocol_fee_def)
  qed
qed

lemma release_custody:
  assumes "release_escrow xfer env c i (s, w) = Ok (s', w')" "escrow_wf s"
  shows "custody_move xfer (auth env) (self env) (escrow_liab s) w (escrow_liab s') w'"
  using assms(1)
proof (rule escrow_release_Ok)
  fix e fee payout
  assume *: "Escrows s i = Some e" "status e = Funded"
    "compute_fee_and_payout (amount e) (get_protocol_fee_bps s) = Ok (fee, payout)"
    "xfer w (token e) (self env) (seller e) payout = Some w'"
    "Escrows s' = (Escrows s)(i \<mapsto> e\<lparr>status := Completed, amount := 0\<rparr>)"
    "ProtocolFees s' = (ProtocolFees s)(token e \<mapsto> get_protocol_fee s (token e) + fee)"
  show ?thesis
    using * assms(2) fee_nonneg [OF *(3)]
    by (intro custody_move.pay_out [where xfer = xfer, OF *(4)])
      (simp add: escrow_liab_save [of s i e s'] locked_def get_protocol_fee_def)
qed

lemma partial_custody:
  assumes "partial_release xfer env c i n (s, w) = Ok (s', w')" "escrow_wf s"
  shows "custody_move xfer (auth env) (self env) (escrow_liab s) w (escrow_liab s') w'"
  using assms(1)
proof (rule escrow_partial_Ok)
  fix e fee payout
  assume *: "Escrows s i = Some e" "status e = Funded"
    "compute_fee_and_payout n (get_protocol_fee_bps s) = Ok (fee, payout)"
    "xfer w (token e) (self env) (seller e) payout = Some w'"
    "Escrows s' = (Escrows s)(i \<mapsto> (if amount e = n then e\<lparr>amount := 0, status := Completed\<rparr>
        else e\<lparr>amount := amount e - n\<rparr>))"
    "ProtocolFees s' = (ProtocolFees s)(token e \<mapsto> get_protocol_fee s (token e) + fee)"
  show ?thesis
    using * assms(2) fee_nonneg [OF *(3)]
    by (intro custody_move.pay_out [where xfer = xfer, OF *(4)])
      (auto simp add: escrow_liab_save [OF _ *(1) *(5)] locked_def get_protocol_fee_def)
qed

lemma refund_custody:
  assumes "refund_escrow xfer env c i (s, w) = Ok (s', w')" "escrow_wf s"
  shows "custody_move xfer (auth env) (self env) (escrow_liab s) w (escrow_liab s') w'"
  using assms(1)
proof (rule refund_Ok)
  fix e
  assume *: "Escrows s i = Some e" "status e = Funded"
    "xfer w (token e) (self env) (buyer e) (amount e) = Some w'"
    "s' = s\<lparr>Escrows := (Escrows s)(i \<mapsto> e\<lparr>status := Cancelled, amount := 0\<rparr>)\<rparr>"
  show ?thesis
    using * assms(2)
    by (intro custody_move.pay_out [where xfer = xfer, OF *(3)])
      (simp add: escrow_liab_def msum_replace locked_def get_protocol_fee_def)
qed

lemma pay_if_positive_custody:
  assumes "pay_if_positive xfer t me to n w = Ok w'" "0 \<le> n"
    and "\<And>u. l' u \<le> l u - (if u = t then n else 0)"
  shows "custody_move xfer P me l w l' w'"
proof (cases "0 < n")
  case True
  with assms(1) have "xfer w t me to n = Some w'" by (simp add: pay_if_positive_def outcome_iff)
  then show ?thesis using assms(3) by (rule custody_move.pay_out)
next
  case False
  with assms have "w' = w" and "n = 0" by (simp_all add: pay_if_positive_def)
  with assms(3) show ?thesis by (auto intro!: custody_move.stay)
qed

lemma resolve_custody:
  assumes "resolve_dispute xfer env a i b c f (s, w) = Ok (s', w')" "escrow_wf s"
  shows "custody_move xfer (auth env) (self env) (escrow_liab s) w (escrow_liab s') w'"
  using assms(1)
proof (rule resolve_Ok)
  fix e w1
  assume *: "Escrows s i = Some e" "status e = Disputed" "0 \<le> b" "0 \<le> c"
    "b + c + f \<le> amount e"
    "pay_if_positive xfer (token e) (self env) (buyer e) b w = Ok w1"
    "pay_if_positive xfer (token e) (self env) (seller e) c w1 = Ok w'"
    "Escrows s' = (Escrows s)(i \<mapsto> e\<lparr>status := Completed, amount := 0\<rparr>)"
    "\<And>t. get_protocol_fee s' t = get_protocol_fee s t + (if t = token e then f else 0)"
  let ?mid = "\<lambda>u. escrow_liab s u - (if u = token e then b else 0)"
  have "custody_move xfer (auth env) (self env) (escrow_liab s) w ?mid w1"
    by (rule pay_if_positive_custody [OF *(6,3)]) simp
  moreover have "custody_move xfer (auth env) (self env) ?mid w1 (escrow_liab s') w'"
    using * assms(2)
    by (intro pay_if_positive_custody [OF *(7,4)])
      (simp add: escrow_liab_save [OF _ *(1) *(8)] locked_def)
  ultimately show ?thesis by (rule custody_move.seq)
qed

lemma withdraw_custody:
  assumes "withdraw_fees xfer env c t r n (s, w) = Ok (s', w')" "escrow_wf s"
  shows "custody_move xfer (auth env) (self env) (escrow_liab s) w (escrow_liab s') w'"
  using assms(1)
proof (rule escrow_withdraw_Ok)
  assume x: "xfer w t (self env) r n = Some w'"
    and s': "s' = s\<lparr>ProtocolFees := (ProtocolFees s)(t \<mapsto> get_protocol_fee s t - n)\<rparr>"
  show ?thesis
    by (rule custody_move.pay_out [where xfer = xfer, OF x]) (simp add: s' escrow_liab_def get_protocol_fee_def)
qed

lemma escrow_exec_custody:
  assumes "escrow_exec xfer env c (s, w) = Ok (s', w')" "escrow_wf s" "\<not> auth env (self env)"
  shows "custody_move xfer (auth env) (self env) (escrow_liab s) w (escrow_liab s') w'"
proof -
  have stay: ?thesis if "w' = w" "escrow_liab s' = escrow_liab s"
    using that by (simp add: custody_move.stay)
  show ?thesis
  proof (cases c)
    case (Create b a t n x)
    with assms(1) obtain i where "create_escrow env b a t n x s = Ok (i, s')" and "w' = w"
      by (auto simp: outcome_iff)
    then show ?thesis using create_liab assms(2) stay by blast
  qed (use assms stay in \<open>auto simp: outcome_iff config_liab dispute_liab
    intro: fund_custody release_custody partial_custody refund_custody resolve_custody
      withdraw_custody\<close>)
qed

text \<open>The escrow contract is a custodian over any token ledger.\<close>

sublocale token_ledger \<subseteq> esc: custodian bal xfer "escrow_step xfer" escrow_liab escrow_wf
  by unfold_locales (auto elim!: escrow_stepE intro: escrow_exec_wf escrow_exec_custody [THEN custody_move_mono])


section \<open>Effect of each call on the books\<close>

text \<open>The tokens the contract holds beyond what it owes.\<close>

definition surplus :: "('w \<Rightarrow> address \<Rightarrow> address \<Rightarrow> int) \<Rightarrow> address \<Rightarrow> escrow_state \<times> 'w \<Rightarrow> address \<Rightarrow> int" where
  "surplus bal me sw t = bal (snd sw) t me - escrow_liab (fst sw) t"

context token_ledger
begin

lemmas escrow_run_solvent = esc.run_solvent
lemmas escrow_run_world = esc.run_world

lemma pay_if_positive_bal:
  assumes "pay_if_positive xfer t me to n w = Ok w'" "0 \<le> n" "to \<noteq> me"
  shows "bal w' t me = bal w t me - n"
  using assms
  by (cases "0 < n") (auto simp: pay_if_positive_def outcome_iff xfer_out split: if_splits)

lemma resolve_surplus:
  assumes "resolve_dispute xfer env a i b c f (s, w) = Ok (s', w')" "escrow_wf s"
    "Escrows s i = Some e" "buyer e \<noteq> self env" "seller e \<noteq> self env"
  shows "surplus bal (self env) (s', w') (token e) =
    surplus bal (self env) (s, w) (token e) + (amount e - (b + c + f))"
  using assms(1)
proof (rule resolve_Ok)
  fix e' w1
  assume *: "Escrows s i = Some e'" "status e' = Disputed" "0 \<le> b" "0 \<le> c"
    "pay_if_positive xfer (token e') (self env) (buyer e') b w = Ok w1"
    "pay_if_positive xfer (token e') (self env) (seller e') c w1 = Ok w'"
    "Escrows s' = (Escrows s)(i \<mapsto> e'\<lparr>status := Completed, amount := 0\<rparr>)"
    "\<And>t. get_protocol_fee s' t = get_protocol_fee s t + (if t = token e' then f else 0)"
  have e: "e' = e" using * assms(3) by simp
  have "bal w' (token e) (self env) = bal w (token e) (self env) - b - c"
    using * assms(4,5) by (simp add: e pay_if_positive_bal)
  then show ?thesis
    using * assms(2) by (simp add: surplus_def escrow_liab_save [OF _ *(1) *(7)] locked_def e)
qed

lemma release_effect:
  assumes "release_escrow xfer env c i (s, w) = Ok (s', w')" "Escrows s i = Some e"
    "seller e \<noteq> self env"
  shows "\<exists>fee. compute_fee_and_payout (amount e) (get_protocol_fee_bps s) = Ok (fee, amount e - fee) \<and>
    bal w' (token e) (seller e) = bal w (token e) (seller e) + (amount e - fee) \<and>
    get_protocol_fee s' (token e) = get_protocol_fee s (token e) + fee \<and>
    Escrows s' i = Some (e\<lparr>status := Completed, amount := 0\<rparr>)"
  using assms(1)
proof (rule escrow_release_Ok)
  fix e' fee payout
  assume *: "Escrows s i = Some e'"
    "compute_fee_and_payout (amount e') (get_protocol_fee_bps s) = Ok (fee, payout)"
    "xfer w (token e') (self env) (seller e') payout = Some w'"
    "Escrows s' = (Escrows s)(i \<mapsto> e'\<lparr>status := Completed, amount := 0\<rparr>)"
    "ProtocolFees s' = (ProtocolFees s)(token e' \<mapsto> get_protocol_fee s (token e') + fee)"
  have e: "e' = e" using * assms(2) by simp
  have "payout = amount e - fee" using fee_nonneg [OF *(2)] e by simp
  then show ?thesis
    using * assms(3) by (simp add: e xfer_in get_protocol_fee_def)
qed

end

lemma locked_le_liab:
  assumes "escrow_wf s" "Escrows s i = Some e"
  shows "locked t e \<le> escrow_liab s t"
proof -
  have "0 \<le> locked t e'" if "Escrows s j = Some e'" for j e'
    using wf_lookup [OF assms(1) that] by (auto simp: locked_def escrow_ok_def)
  then have "locked t e \<le> msum (locked t) (Escrows s)"
    using assms by (intro msum_mem_le) auto
  then show ?thesis using wf_fee [OF assms(1), of t] by (simp add: escrow_liab_def)
qed

text \<open>How one call changes one escrow: along the transition table, never back.\<close>

definition escrow_progress :: "Escrow \<Rightarrow> Escrow \<Rightarrow> bool" where
  "escrow_progress e e' \<longleftrightarrow>
     buyer e' = buyer e \<and> seller e' = seller e \<and> token e' = token e \<and>
     original_amount e' = original_amount e \<and> expiration e' = expiration e \<and>
     amount e' \<le> amount e \<and>
     (status e' = status e \<or> status e' \<in> set (allowed_transitions (status e))) \<and>
     (status e \<in> {Completed, Cancelled} \<longrightarrow> e' = e)"

lemma escrow_progress_refl: "escrow_progress e e"
  by (simp add: escrow_progress_def)

lemma escrow_update_progress:
  assumes "Escrows s' = (Escrows s)(i \<mapsto> e')" "Escrows s i = Some e" "escrow_progress e e'"
    and "Escrows s j = Some e0"
  shows "\<exists>e1. Escrows s' j = Some e1 \<and> escrow_progress e0 e1"
  using assms by (cases "i = j") (simp_all add: escrow_progress_refl)

lemma escrow_exec_progress:
  assumes "escrow_exec xfer env c (s, w) = Ok (s', w')" "escrow_wf s" "Escrows s j = Some e0"
  shows "\<exists>e1. Escrows s' j = Some e1 \<and> escrow_progress e0 e1"
proof (cases c)
  case (Create b a t n x)
  with assms(1) obtain i where "create_escrow env b a t n x s = Ok (i, s')"
    by (auto simp: outcome_iff)
  then show ?thesis
    using assms(2,3) wf_fresh [OF assms(2)]
    by (elim escrow_create_Ok) (auto simp: escrow_progress_refl)
next
  case (Fund a i)
  with assms(1) have "fund_escrow xfer env a i (s, w) = Ok (s', w')" by simp
  then show ?thesis
    by (elim fund_Ok, intro escrow_update_progress [OF _ _ _ assms(3)])
      (auto simp: escrow_progress_def allowed_transitions_def)
next
  case (Release a i)
  with assms(1) have "release_escrow xfer env a i (s, w) = Ok (s', w')" by simp
  then show ?thesis
    by (elim escrow_release_Ok, intro escrow_update_progress [OF _ _ _ assms(3)])
      (auto simp: escrow_progress_def allowed_transitions_def fee_and_payout_Ok)
next
  case (PartialRelease a i n)
  with assms(1) have "partial_release xfer env a i n (s, w) = Ok (s', w')" by simp
  then show ?thesis
    by (elim escrow_partial_Ok, intro escrow_update_progress [OF _ _ _ assms(3)])
      (auto simp: escrow_progress_def allowed_transitions_def)
next
  case (Dispute a i)
  with assms(1) have "dispute env a i s = Ok s'" by (auto simp: outcome_iff)
  then show ?thesis
    by (elim dispute_Ok, intro escrow_update_progress [OF _ _ _ assms(3)])
      (auto simp: escrow_progress_def allowed_transitions_def)
next
  case (Resolve a i x y f)
  with assms(1) have "resolve_dispute xfer env a i x y f (s, w) = Ok (s', w')" by simp
  then show ?thesis
    by (elim resolve_Ok, intro escrow_update_progress [OF _ _ _ assms(3)])
      (auto simp: escrow_progress_def allowed_transitions_def)
next
  case (Refund a i)
  with assms(1) have "refund_escrow xfer env a i (s, w) = Ok (s', w')" by simp
  then show ?thesis
    by (elim refund_Ok, intro escrow_update_progress [OF _ _ _ assms(3)])
      (auto simp: escrow_progress_def allowed_transitions_def
        dest: wf_lookup [OF assms(2)] simp: escrow_ok_def)
next
  case (WithdrawFees a t r n)
  with assms(1) have "withdraw_fees xfer env a t r n (s, w) = Ok (s', w')" by simp
  then show ?thesis
    using assms(3) by (elim escrow_withdraw_Ok) (simp add: escrow_progress_refl)
qed (use assms in \<open>auto simp: set_admin_def whitelist_token_def set_arbiter_def
  set_protocol_fee_bps_def upgrade_def outcome_iff escrow_progress_refl\<close>)


section \<open>Properties\<close>

text \<open>
  A run used by the witnesses. The contract is at address 99 and every token is a CHV instance in
  which account 2 holds 500. The admin 1 whitelists token 50 and names arbiter 4; buyer 2 opens an
  escrow of 300 for seller 3 and funds it.
\<close>

abbreviation escrow_env :: "nat \<Rightarrow> env" where
  "escrow_env now \<equiv> \<lparr>timestamp = now, ledger_sequence = 7, self = 99, auth = (\<lambda>x. x < 90)\<rparr>"

definition demo_world :: chv_world where
  "demo_world = (\<lambda>_. chv_demo2)"

definition demo_escrow :: Escrow where
  "demo_escrow = \<lparr>buyer = 2, seller = 3, token = 50, amount = 300, original_amount = 300,
     status = Funded, expiration = 1000\<rparr>"

definition demo_funded :: "escrow_state \<times> chv_world" where
  "demo_funded = (escrow_init\<lparr>Admin := Some 1, Arbiter := Some 4, WhitelistedToken := [50 \<mapsto> True],
       Escrows := [1 \<mapsto> demo_escrow], EscrowCount := Some 1, TotalVolume := Some 300,
       TokenIndex := [50 \<mapsto> [1]], BuyerIndex := [2 \<mapsto> [1]], SellerIndex := [3 \<mapsto> [1]]\<rparr>,
     demo_world(50 := chv_demo2\<lparr>balances := [2 \<mapsto> 200, 99 \<mapsto> 300]\<rparr>))"

lemmas demo_defs = demo_funded_def demo_escrow_def demo_world_def escrow_init_def chv_demo_defs

lemmas escrow_ops = set_admin_def whitelist_token_def set_arbiter_def set_protocol_fee_bps_def
  create_escrow_def next_escrow_id_def fund_escrow_def add_to_total_volume_def release_escrow_def
  partial_release_def refund_escrow_def dispute_def resolve_dispute_def withdraw_fees_def
  pay_if_positive_def fee_if_positive_def accumulate_protocol_fee_def decrement_protocol_fee_def
  get_protocol_fee_def get_protocol_fee_bps_def compute_fee_and_payout_def is_token_whitelisted_def
  assert_transition_allowed_def allowed_transitions_def require_admin_def require_admin_addr_def
  authorize_releaser_def escrow_storage

lemmas token_call = chv_xfer_def transfer_def balance_def is_frozen_def

lemma demo_run:
  "run_calls (escrow_exec chv_xfer)
     [(escrow_env 10, SetAdmin 1), (escrow_env 11, WhitelistToken 1 50),
      (escrow_env 12, SetArbiter 1 4), (escrow_env 13, Create 2 3 50 300 1000),
      (escrow_env 14, Fund 2 1)] (escrow_init, demo_world) = Ok demo_funded"
  by (simp add: demo_defs escrow_ops token_call range_defs Let_def)

lemma escrow_run_steps:
  assumes "run_calls (escrow_exec xfer) cs sw = Ok sw'"
    and "\<And>env c. (env, c) \<in> set cs \<Longrightarrow> self env = me \<and> \<not> auth env me"
  shows "(escrow_step xfer me)\<^sup>*\<^sup>* sw sw'"
  using assms(1) by (rule run_calls_steps) (use assms(2) escrow_step.call in blast)

lemma demo_reachable: "(escrow_step chv_xfer 99)\<^sup>*\<^sup>* (escrow_init, demo_world) demo_funded"
  by (rule escrow_run_steps [OF demo_run]) auto


text \<open>
  C4. Solvency of the escrow contract. Whatever sequence of calls anyone makes to a freshly deployed
  contract, and whatever token is used as long as it keeps its ledger, the contract holds at least
  the sum of all funded and disputed escrows plus the accrued protocol fees, in every token.
\<close>

theorem escrow_solvency:
  assumes "token_ledger bal xfer"
    and "(escrow_step xfer me)\<^sup>*\<^sup>* (escrow_init, w0) (s, w)"
    and "\<And>u. 0 \<le> bal w0 u me"
  shows "msum (locked t) (Escrows s) + get_protocol_fee s t \<le> bal w t me"
proof -
  have "solvent bal me (escrow_liab escrow_init) w0"
    using assms(3) by (simp add: solvent_def escrow_liab_def escrow_init_def get_protocol_fee_def)
  then have "solvent bal me (escrow_liab s) w"
    using token_ledger.escrow_run_solvent [OF assms(1,2)] escrow_init_wf by simp
  then show ?thesis by (simp add: solvent_def escrow_liab_def)
qed

theorem escrow_solvency_witness:
  "(escrow_step chv_xfer 99)\<^sup>*\<^sup>* (escrow_init, demo_world) demo_funded \<and>
   msum (locked 50) (Escrows (fst demo_funded)) = 300 \<and> chv_bal (snd demo_funded) 50 99 = 300 \<and>
   msum (locked 50) (Escrows (fst demo_funded)) + get_protocol_fee (fst demo_funded) 50
     \<le> chv_bal (snd demo_funded) 50 99"
  using demo_reachable
    escrow_solvency [of chv_bal chv_xfer 99 demo_world "fst demo_funded" "snd demo_funded" 50]
    chv.token_ledger_axioms
  by (simp add: demo_defs chv_bal_def balance_def locked_def msum_insert)

text \<open>
  The protocol fee. For a fee of at most 100 percent, the split succeeds exactly when the amount
  is non-negative and \<open>amount * bps\<close> fits a \<open>u128\<close>; fee and payout then add up to the amount, neither
  is negative, and the fee is the exact share rounded down.
\<close>

theorem fee_split_exact:
  assumes "bps \<le> 10000"
  shows "compute_fee_and_payout n bps = Ok (fee, payout) \<longleftrightarrow>
    0 \<le> n \<and> n * int bps < 2 ^ 128 \<and> fee + payout = n \<and> 0 \<le> fee \<and> 0 \<le> payout \<and>
    fee * 10000 \<le> n * int bps \<and> n * int bps < (fee + 1) * 10000"
proof (cases "0 \<le> n")
  case True
  have "n * int bps \<le> n * 10000" using assms True by (intro mult_left_mono) auto
  then have "n * int bps div 10000 \<le> n" by linarith
  with True show ?thesis
    by (auto simp: fee_and_payout_Ok fits_u128_def pos_imp_zdiv_nonneg_iff)
qed (simp add: fee_and_payout_Ok)

theorem fee_split_exact_witness:
  "compute_fee_and_payout 301 250 = Ok (7, 294)"
  using fee_split_exact [of 250 301 7 294] by simp

text \<open>
  Every escrow moves along the transition table of \<open>escrow_state.rs\<close> and never back. A call
  leaves each existing escrow in place, keeps its parties, token, original amount and deadline,
  never raises its locked amount, changes its status only as the table allows, and leaves a
  completed or cancelled escrow exactly as it is.
\<close>

theorem escrow_lifecycle_monotone:
  assumes "(escrow_step xfer me)\<^sup>*\<^sup>* (escrow_init, w0) (s, w)"
    and "escrow_step xfer me (s, w) (s', w')"
    and "Escrows s i = Some e"
  shows "\<exists>e'. Escrows s' i = Some e' \<and> escrow_progress e e'"
proof -
  have "escrow_wf s"
    using escrow_run_wf [OF assms(1)] escrow_init_wf by simp
  with assms(2,3) show ?thesis
    by (auto elim!: escrow_stepE intro: escrow_exec_progress)
qed

lemma demo_release:
  "escrow_exec chv_xfer (escrow_env 20) (Release 2 1) demo_funded =
     Ok ((fst demo_funded)\<lparr>Escrows := [1 \<mapsto> demo_escrow\<lparr>status := Completed, amount := 0\<rparr>],
           ProtocolFees := [50 \<mapsto> 3],
           FeeHistory := Some [\<lparr>fee_escrow_id = 1, fee_token = 50, fee_amount = 3, fee_timestamp = 20\<rparr>]\<rparr>,
         (snd demo_funded)(50 := chv_demo2\<lparr>balances := [2 \<mapsto> 200, 99 \<mapsto> 3, 3 \<mapsto> 297]\<rparr>))"
  by (simp add: demo_defs escrow_ops token_call range_defs Let_def DEFAULT_PROTOCOL_FEE_BPS_def)

theorem escrow_lifecycle_monotone_witness:
  "\<exists>s' w' e'. escrow_step chv_xfer 99 demo_funded (s', w') \<and> Escrows s' 1 = Some e' \<and>
     status e' = Completed \<and> escrow_progress demo_escrow e'"
proof -
  have step: "escrow_step chv_xfer 99 (fst demo_funded, snd demo_funded)
    ((fst demo_funded)\<lparr>Escrows := [1 \<mapsto> demo_escrow\<lparr>status := Completed, amount := 0\<rparr>],
           ProtocolFees := [50 \<mapsto> 3],
           FeeHistory := Some [\<lparr>fee_escrow_id = 1, fee_token = 50, fee_amount = 3, fee_timestamp = 20\<rparr>]\<rparr>,
         (snd demo_funded)(50 := chv_demo2\<lparr>balances := [2 \<mapsto> 200, 99 \<mapsto> 3, 3 \<mapsto> 297]\<rparr>))"
    unfolding prod.collapse by (rule escrow_step.call [OF _ _ demo_release]) simp_all
  have "(escrow_step chv_xfer 99)\<^sup>*\<^sup>* (escrow_init, demo_world) (fst demo_funded, snd demo_funded)"
    using demo_reachable by simp
  from escrow_lifecycle_monotone [OF this step, of 1 demo_escrow] step show ?thesis
    by (fastforce simp: demo_funded_def)
qed

text \<open>
  What a release pays. A successful release pays the seller the escrow's remaining amount less
  the protocol fee, credits exactly that fee to the fee pool of the token, and completes the escrow
  with nothing left in it.
\<close>

theorem release_pays_seller:
  assumes "token_ledger bal xfer" and "release_escrow xfer env c i (s, w) = Ok (s', w')"
    and "Escrows s i = Some e" and "seller e \<noteq> self env"
  shows "\<exists>fee. compute_fee_and_payout (amount e) (get_protocol_fee_bps s) = Ok (fee, amount e - fee) \<and>
    bal w' (token e) (seller e) = bal w (token e) (seller e) + (amount e - fee) \<and>
    get_protocol_fee s' (token e) = get_protocol_fee s (token e) + fee \<and>
    Escrows s' i = Some (e\<lparr>status := Completed, amount := 0\<rparr>)"
  using token_ledger.release_effect [OF assms] .

theorem release_pays_seller_witness:
  "\<exists>s' w'. release_escrow chv_xfer (escrow_env 20) 2 1 demo_funded = Ok (s', w') \<and>
     (\<exists>fee. compute_fee_and_payout 300 100 = Ok (fee, 300 - fee) \<and>
       chv_bal w' 50 3 = chv_bal (snd demo_funded) 50 3 + (300 - fee) \<and> get_protocol_fee s' 50 = fee)"
proof -
  obtain s' w' where rel: "release_escrow chv_xfer (escrow_env 20) 2 1 (fst demo_funded, snd demo_funded) =
      Ok (s', w')"
    using demo_release by simp
  have "Escrows (fst demo_funded) 1 = Some demo_escrow" by (simp add: demo_funded_def)
  from release_pays_seller [OF chv.token_ledger_axioms rel this] rel show ?thesis
    by (auto simp: demo_defs get_protocol_fee_def get_protocol_fee_bps_def
        DEFAULT_PROTOCOL_FEE_BPS_def)
qed

text \<open>
  Release and refund never compete. At any one ledger time and for any callers, an escrow that
  can be released or partially released cannot be refunded: the deadline separates them.
\<close>

theorem release_refund_exclusive:
  assumes "timestamp env = timestamp env'"
    and "is_ok (release_escrow xfer env c i (s, w)) \<or> is_ok (partial_release xfer env c i n (s, w))"
  shows "\<not> is_ok (refund_escrow xfer env' c' i (s, w'))"
proof
  assume "is_ok (refund_escrow xfer env' c' i (s, w'))"
  then obtain e where "Escrows s i = Some e" "expiration e \<le> timestamp env'"
    by (auto simp: is_ok_iff elim!: refund_Ok)
  moreover obtain e' where "Escrows s i = Some e'" "timestamp env < expiration e'"
    using assms(2) by (auto simp: is_ok_iff elim!: escrow_release_Ok escrow_partial_Ok)
  ultimately show False using assms(1) by simp
qed

theorem release_refund_exclusive_witness:
  "is_ok (release_escrow chv_xfer (escrow_env 20) 2 1 demo_funded) \<and>
   \<not> is_ok (refund_escrow chv_xfer (escrow_env 20) 2 1 demo_funded)"
  using demo_release
    release_refund_exclusive [of "escrow_env 20" "escrow_env 20" chv_xfer 2 1
      "fst demo_funded" "snd demo_funded" 1 2 "snd demo_funded"]
  by simp

text \<open>
  A dispute may be resolved for less than the escrow holds. The arbiter's split only has to stay
  within the escrow's amount; what it leaves out is neither paid nor booked as a fee, so the
  contract's tokens beyond its debts grow by exactly that remainder.
\<close>

theorem dispute_remainder_stranded:
  assumes "token_ledger bal xfer" and "resolve_dispute xfer env a i b c f (s, w) = Ok (s', w')"
    and "escrow_wf s" and "Escrows s i = Some e"
    and "buyer e \<noteq> self env" and "seller e \<noteq> self env"
  shows "surplus bal (self env) (s', w') (token e) =
      surplus bal (self env) (s, w) (token e) + (amount e - (b + c + f)) \<and>
    0 \<le> amount e - (b + c + f) \<and> Escrows s' i = Some (e\<lparr>status := Completed, amount := 0\<rparr>)"
proof -
  have "surplus bal (self env) (s', w') (token e) =
      surplus bal (self env) (s, w) (token e) + (amount e - (b + c + f))"
    by (rule token_ledger.resolve_surplus [OF assms])
  moreover have "b + c + f \<le> amount e \<and>
      Escrows s' i = Some (e\<lparr>status := Completed, amount := 0\<rparr>)"
    using assms(2,4) by (auto elim: resolve_Ok)
  ultimately show ?thesis by simp
qed

definition demo_disputed :: escrow_state where
  "demo_disputed = (fst demo_funded)\<lparr>Escrows := [1 \<mapsto> demo_escrow\<lparr>status := Disputed\<rparr>]\<rparr>"

lemma demo_resolve:
  "resolve_dispute chv_xfer (escrow_env 20) 4 1 100 50 0 (demo_disputed, snd demo_funded) =
     Ok (demo_disputed\<lparr>Escrows := [1 \<mapsto> demo_escrow\<lparr>status := Completed, amount := 0\<rparr>]\<rparr>,
         (snd demo_funded)(50 := chv_demo2\<lparr>balances := [2 \<mapsto> 300, 99 \<mapsto> 150, 3 \<mapsto> 50]\<rparr>))"
  by (simp add: demo_disputed_def demo_defs escrow_ops token_call range_defs Let_def i128_checked_def
      fun_upd_twist)

lemma demo_disputed_wf: "escrow_wf demo_disputed"
proof -
  have "dispute (escrow_env 15) 2 1 (fst demo_funded) = Ok demo_disputed"
    by (simp add: demo_disputed_def demo_defs escrow_ops)
  moreover have "escrow_wf (fst demo_funded)"
    using escrow_run_wf [of chv_xfer 99 "(escrow_init, demo_world)" "fst demo_funded" "snd demo_funded"]
      demo_reachable escrow_init_wf by simp
  ultimately show ?thesis by (rule dispute_wf)
qed

theorem dispute_remainder_stranded_witness:
  "\<exists>s' w'. resolve_dispute chv_xfer (escrow_env 20) 4 1 100 50 0 (demo_disputed, snd demo_funded) = Ok (s', w') \<and>
     surplus chv_bal 99 (s', w') 50 = surplus chv_bal 99 (demo_disputed, snd demo_funded) 50 + 150"
  using dispute_remainder_stranded [OF chv.token_ledger_axioms demo_resolve demo_disputed_wf,
      of "demo_escrow\<lparr>status := Disputed\<rparr>"] demo_resolve
  by (auto simp: demo_disputed_def demo_escrow_def)

end
