(* ===== verification/Spec2Isabelle.thy ===== *)
theory Spec2Isabelle
  imports Course_Payments Review_Comparison Contract_Properties Certificate_Properties Eligibility_Attestations Calendar_Access Rematch_Chains Conduct_Engagements Matching_Consent Milestone_Releases Availability_Queries Decision_Outcomes Scheduling_Proposals Shared_Math Royalty_Splits Fine_Assessments Fine_Ledger Scholarship_Awards
    Scholarship_Disbursements Outbox_Settlements Library_Deposits Escrow_Vault Escrow
begin

text \<open>
  Verification of the ChainVerse on-chain contracts (Soroban contracts in Rust, \<open>src/contracts\<close>).

  \<^bold>\<open>The program.\<close> The repository holds about seventy contracts of a learning platform. This
  development treats the ones that hold or account for value: the platform token, the custodians
  that lock users' tokens (escrow, multi-signature vault, loan deposits), and the contracts that keep
  books (royalty splits, library fines, fine ledger and settlements, scholarship awards), the contracts
  that decide on awards, turn them into payments and announce them (scholarship decisions, disbursements,
  eligibility, milestones, reviews, outbox), the course payments, the matching and rematching of mentors and mentees,
  their codes of conduct, the seats of mentorship programs, the certificates,
  the availability and external calendars of mentors and the scheduling of sessions, with the shared arithmetic and the shared signing envelope. A contract is a set of entry points over a key-value store; it reads the ledger
  time and which addresses authorised the call, and a custodian calls \<open>transfer\<close> of a token contract.

  \<^bold>\<open>How it is modelled.\<close> Each contract has a state record with one field per storage key (a map for
  a key with arguments), and one definition per function, named as in the source, that returns
  \<open>Ok\<close> with the new state, \<open>Err\<close> with the contract's error, or \<open>Panic\<close> (\<open>unwrap\<close>, failed
  authorisation, arithmetic overflow: the release profile checks overflow). An invocation is atomic
  in Soroban, so a failure carries no state. Amounts are integers with the range test of their type at
  every operation. A datatype of calls and an \<open>_exec\<close> function collect the entry points; an
  inductive \<open>_step\<close> relation is one successful call by anybody at any time, and the theorems about
  reachable states quantify over all finite sequences of such calls. Loops are structural
  recursion over lists, and the paging and pruning loops have a termination measure; no definition that models code
  uses fuel. Two definitions of the specification do, the walk along successors of \<open>Rematch_Chains\<close> and the reading
  of all pages in \<open>Contract_Properties\<close>: the theorems show that the number of matches, and 100 pages, are enough.

  \<^bold>\<open>Theories.\<close>
  \<^item> \<open>Prelude\<close>: outcomes and the \<open>?\<close> operator with inversion rules (\<open>outcome_iff\<close>), the host
    environment, machine ranges, big-endian encodings and their injectivity, sums over maps.
  \<^item> \<open>Transition_Systems\<close>: the locales \<open>preserved\<close> (an invariant of a step relation) and \<open>evolving\<close> (and a
    relation that says what may still change), in which the facts about whole runs are proved once; every
    contract interprets one of them.
  \<^item> \<open>Token_Interface\<close>: the locale \<open>token_ledger\<close> (what callers rely on of a token), custody moves, and
    the locale \<open>custodian\<close>, in which solvency over any run is proved once.
  \<^item> \<open>Counter_Ids\<close>: identifiers hashed from a counter are fresh when the hash has no collisions.
  \<^item> \<open>Shared_Math\<close>: \<open>shared/src/math.rs\<close>. Exact rounding of \<open>mul_div\<close>, conservation of debt accounts.
  \<^item> \<open>CHV_Token\<close>: \<open>chv_token/src/lib.rs\<close>. Supply bounds and changes, freezing, authorisation of every decrease;
    it interprets \<open>token_ledger\<close>. Also proofs that the initial supply is unspendable and that a spender has to
    authorise the call.
  \<^item> \<open>Escrow\<close>: \<open>escrow/src\<close>. Solvency, exact fees, the life cycle, release and refund; a \<open>custodian\<close>.
  \<^item> \<open>Escrow_Vault\<close>: \<open>escrow-vault/src/lib.rs\<close>. Quorum of independent approvers, solvency, settlement
    once, releasability; a \<open>custodian\<close>.
  \<^item> \<open>Library_Deposits\<close>: \<open>library-deposits/src/lib.rs\<close>. Exact custody, life cycle; a \<open>custodian\<close>.
  \<^item> \<open>Royalty_Splits\<close>: \<open>royalty-splits/src/lib.rs\<close>. Exact distribution, reconciled books, no stuck
    distribution, immutable manifests.
  \<^item> \<open>Fine_Assessments\<close> and \<open>Fine_Ledger\<close>: the two contracts in \<open>library-fines/src/lib.rs\<close>. What a
    signature commits to, single-use nonces, debts as sums of fines; the append-only ledger as a
    refinement of entry lists, settlements counted once, paging.
  \<^item> \<open>Scholarship_Awards\<close>: \<open>scholarship-awards/src/lib.rs\<close>. Reservations, versioned legal changes,
    payments within an accepted award.
  \<^item> \<open>Signing_Envelope\<close>: \<open>shared/src/signing.rs\<close>. A payload commits to its domain and body.
  \<^item> \<open>Scholarship_Disbursements\<close>: \<open>scholarship-disbursements/src/lib.rs\<close>. Wallets verified by proof only,
    installments paid once; a proof that a change of wallet blocks an installment for ever.
  \<^item> \<open>Webhook_Signing\<close> and \<open>Scholarship_Outbox\<close>: \<open>scholarship-outbox/src\<close>, the definitions. What is proved
    is in \<open>Outbox_Events\<close> (no event lost, one event per key, pruning equals a prefix sweep),
    \<open>Outbox_Webhooks\<close> (the history window, no replay) and \<open>Outbox_Settlements\<close> (sound books, refinement of
    the abstract settlement machine; also that the alarm counter never falls and that the sweep does not ask for
    the authorisation of the administrator).
  \<^item> \<open>Course_Payments\<close>: \<open>payment/src\<close>. Credits are backed as long as nothing is refunded; a proof that one
    refund leaves a credit without backing.
  \<^item> \<open>Mentorship_Scheduling\<close>: \<open>mentorship-scheduling/src/lib.rs\<close>, the definitions. \<open>Scheduling_Calendar\<close>
    proves in the locale \<open>free_slot_check\<close>, interpreted for booking, view and move, that the three overlap
    checks meet one specification, and from it that no participant is double booked; \<open>Scheduling_Proposals\<close>
    proves that moves need both participants, and shows a move into the past.
  \<^item> \<open>Mentorship_Availability\<close>: \<open>mentorship-availability/src/lib.rs\<close>, the definitions. \<open>Availability_Windows\<close>
    shows that weekly windows are stored in a canonical form and that local times resolve to the earliest
    instant, \<open>Availability_Ranges\<close> that sorting, merging and subtracting ranges means what it should for the
    sets of instants they cover, \<open>Availability_Queries\<close> that the queries answer exactly; it also shows that
    queries ignore the buffers of a schedule (so the property is stated for schedules without buffers), that
    exceptions escape the version and that a window starting in a clock gap is lost.
  \<^item> \<open>Award_Decisions\<close>: \<open>scholarship-decisions/src/lib.rs\<close>, the definitions. \<open>Decision_Budget\<close> proves that
    the program budgets are the sums of their reservations, \<open>Decision_Panels\<close> counts votes in the locale
    \<open>panel\<close>, interpreted for decisions and for appeals, \<open>Decision_Outcomes\<close> proves that outcomes are verdicts of
    fair and separate panels with a quorum.
  \<^item> \<open>Mentorship_Conduct\<close>: \<open>mentorship-conduct/src/lib.rs\<close>, the definitions. \<open>Conduct_Engagements\<close> proves that
    running engagements rest on recorded acceptances and that the compliance view is the activation gate; it
    also shows that an optional policy lifts the gate and that a retired one closes it.
  \<^item> \<open>Scholarship_Milestones\<close>: \<open>scholarship-milestones/src/lib.rs\<close>, the definitions. \<open>Milestone_Releases\<close> proves
    that amounts reconcile to the award, that releases are a prefix with exact totals, and that an active schedule
    can be paid out once its milestones are due; it also shows a release before its date.
  \<^item> \<open>Mentorship_Matching\<close>: \<open>mentorship-matching/src/lib.rs\<close>, the definitions. \<open>Matching_Proposals\<close> proves the
    invariant of the proposal store, \<open>Matching_Records\<close> that every change is a move of the proposal's life cycle and
    that coordinators are on the record, \<open>Matching_Consent\<close> that matches rest on consent; it also shows that an
    agreed match can be replaced and that expired proposals occupy capacity.
  \<^item> \<open>Scholarship_Reviews\<close>: \<open>scholarship-reviews/src/lib.rs\<close>, the definitions. \<open>Review_Ranking\<close> proves the
    invariant of rubrics and reviews and the exact aggregate, \<open>Review_Comparison\<close> that aggregates fail only for
    documented reasons, are reproducible and rank applicants; it also shows that mixed rubric versions block an
    application for ever and that applicants can review themselves.
  \<^item> \<open>Mentorship_Rematch\<close>: \<open>mentorship-rematch/src/lib.rs\<close>, the definitions. \<open>Rematch_Records\<close> shows that every
    call refines an abstract machine over the records, \<open>Rematch_Invariants\<close> and \<open>Rematch_Continuity\<close> prove its
    invariants move by move, \<open>Rematch_Properties\<close> and \<open>Rematch_Chains\<close> that there is one pending request with
    exact counters, that the mentee consents, that chains of successors end and that requests can be closed;
    they also show that an approval can hit another successor and that retries fail after closure.
  \<^item> \<open>Mentorship_Calendar\<close>: \<open>mentorship-calendar/src/lib.rs\<close>, the definitions. \<open>Calendar_Windows\<close> shows that
    busy windows are normalised by the same function as the ranges of the availability contract, \<open>Calendar_Sync\<close>
    proves the invariant of connections, \<open>Calendar_Access\<close> that synchronisation and queries are exact; it also shows
    that expired connections are exposed and that ended ones use up the limit.
  \<^item> \<open>Scholarship_Eligibility\<close>: \<open>scholarship-eligibility/src/lib.rs\<close>, the definitions. \<open>Eligibility_Evaluation\<close>
    proves that rules are numbered, bounded and immutable, \<open>Eligibility_Attestations\<close> that evaluations are exact and
    that validity needs an issuer; it also shows that removed issuers count and that attestations can be taken over.
  \<^item> \<open>Mentorship_Contracts\<close>: \<open>mentorship-contracts/src/lib.rs\<close>, the definitions. \<open>Program_Rosters\<close> is the
    abstract specification of a program (offers, members, queue) with its representation, \<open>Program_Seats\<close> the
    refinement of every call, \<open>Program_Invariants\<close> and \<open>Program_Waitlist\<close> the invariant and the order of the
    waitlist, \<open>Contract_Versions\<close> the histories of agreements and the pages of both listings,
    \<open>Contract_Properties\<close> the properties; it also shows that an extreme offer time locks the seats.
  \<^item> \<open>Certificates\<close>: \<open>certificates/src\<close>, the definitions. \<open>Certificate_Properties\<close> proves that certificates never
    move and never share a number, what a backend proof commits to, that certificates need the backend or the minter
    and that roles are in the hands of the admin; it also shows that proposals expire early.
  \<^item> this theory: properties that need several contracts at once.

  \<^bold>\<open>Parameters and hypotheses.\<close> Code outside the repository is an argument: the token call \<open>xfer\<close> with
  its balance view (hypothesis \<open>token_ledger\<close>: a successful transfer moves exactly the amount, which
  is not negative and covered), the host's \<open>sha256\<close> (hypothesis \<open>inj\<close>: no collisions; for the signing
  envelopes: digests of 32 bytes and no collision on the inputs in question) and \<open>to_xdr\<close>,
  and ed25519 key parsing and verification (no hypothesis). A contract's own address does not
  authorise calls to it, because none of these contracts calls itself or one another.

  \<^bold>\<open>Not modelled.\<close> Events, storage lifetimes and archival, and constant views such as \<open>name\<close> and
  \<open>version\<close>. Contracts whose files do not compile at this commit because of unresolved merges
  (staking, payout automation, library rights and licensing, some scholarship and mentorship crates)
  have no definite meaning and are left out, except that the CHV token's \<open>propose_admin\<close> is taken from
  its complete header and the two contracts of \<open>library-fines\<close> are read separately. The code
  upgrade entry points only hand a hash to the host. Left out as well are the registers of roles, profiles, settings
  and reports around the modelled contracts, which hold no value, the older versions of a record that a modelled
  contract replaces, and the shared modules that no modelled contract calls.
\<close>

section \<open>Properties that span components\<close>

text \<open>
  C5. The buyer can always get the money back after the deadline. In every state reachable by the
  escrow contract over CHV tokens, a funded escrow that has expired is refundable: if the token has
  frozen neither the contract nor the buyer, the buyer's refund call succeeds, cancels the escrow
  and pays the full remaining amount. It rests on the solvency of the contract, which covers the
  amount, and on the supply cap of the token, which rules out an overflowing balance.
\<close>

theorem expired_escrow_refundable:
  assumes run: "(escrow_step chv_xfer (self env))\<^sup>*\<^sup>* (escrow_init, w0) (s, w)"
    and tokens: "\<And>u. chv_step\<^sup>*\<^sup>* chv_init (w0 u)"
    and e: "Escrows s i = Some e" "status e = Funded" "expiration e \<le> timestamp env"
    and caller: "auth env (buyer e)" "buyer e \<noteq> self env"
    and healthy: "\<not> is_frozen (w (token e)) (self env)" "\<not> is_frozen (w (token e)) (buyer e)"
  shows "\<exists>s' w'. refund_escrow chv_xfer env (buyer e) i (s, w) = Ok (s', w') \<and>
    Escrows s' i = Some (e\<lparr>status := Cancelled, amount := 0\<rparr>) \<and>
    chv_bal w' (token e) (buyer e) = chv_bal w (token e) (buyer e) + amount e"
proof -
  have wf: "escrow_wf s" using escrow_run_wf [OF run] escrow_init_wf by simp
  have amount: "0 < amount e" using wf_lookup [OF wf e(1)] e(2) by (simp add: escrow_ok_def)
  have inv0: "\<forall>u. chv_inv (w0 u)" using tokens chv_reachable_inv by blast
  have "\<forall>u. chv_inv (w u)"
    using chv.escrow_run_world [OF run, of "\<lambda>w. \<forall>u. chv_inv (w u)"] escrow_init_wf inv0 chv_xfer_inv
    by simp
  then have inv: "chv_inv (w (token e))" by simp
  have "solvent chv_bal (self env) (escrow_liab escrow_init) w0"
    using inv0 by (simp add: solvent_def escrow_liab_def escrow_init_def get_protocol_fee_def
        chv_bal_def chv_balance_nonneg)
  then have "escrow_liab s (token e) \<le> chv_bal w (token e) (self env)"
    using chv.escrow_run_solvent [OF run] escrow_init_wf by (simp add: solvent_def)
  then have "amount e \<le> chv_bal w (token e) (self env)"
    using locked_le_liab [OF wf e(1), of "token e"] e(2) by (simp add: locked_def)
  then obtain w' where "chv_xfer w (token e) (self env) (buyer e) (amount e) = Some w'"
    "chv_bal w' (token e) (buyer e) = chv_bal w (token e) (buyer e) + amount e"
    using chv_xfer_succeeds [of w "token e" "self env" "buyer e" "amount e"] inv amount healthy caller(2)
    by metis
  then show ?thesis
    using e caller by (simp add: refund_escrow_def escrow_storage assert_transition_allowed_def
        allowed_transitions_def)
qed

theorem expired_escrow_refundable_witness:
  "\<exists>s' w'. refund_escrow chv_xfer (escrow_env 1000) 2 1 demo_funded = Ok (s', w') \<and>
     Escrows s' 1 = Some (demo_escrow\<lparr>status := Cancelled, amount := 0\<rparr>) \<and>
     chv_bal w' 50 2 = 500"
proof -
  have tokens: "chv_step\<^sup>*\<^sup>* chv_init (demo_world u)" for u
    using chv_demo_steps(1,2) [THEN chv_step.call] unfolding demo_world_def
    by (meson rtranclp.rtrancl_into_rtrancl rtranclp.rtrancl_refl)
  have run: "(escrow_step chv_xfer (self (escrow_env 1000)))\<^sup>*\<^sup>* (escrow_init, demo_world)
      (fst demo_funded, snd demo_funded)"
    using demo_reachable by simp
  have e: "Escrows (fst demo_funded) 1 = Some demo_escrow" by (simp add: demo_funded_def)
  show ?thesis
    using expired_escrow_refundable [OF run tokens e]
    by (simp add: demo_defs is_frozen_def chv_bal_def balance_def)
qed

section \<open>Contracts that share one token world\<close>

text \<open>
  The escrow, vault and deposit contracts deployed at \<open>e\<close>, \<open>v\<close> and \<open>d\<close>. Their calls interleave in any
  order over the same tokens; none of the three addresses authorises a call, because none of the
  contracts calls another.
\<close>

type_synonym 'w platform = "(escrow_state \<times> vault_state \<times> deposits_state) \<times> 'w"

definition platform_init :: "escrow_state \<times> vault_state \<times> deposits_state" where
  "platform_init = (escrow_init, vault_init, deposits_init)"

inductive platform_step ::
  "(bytes \<Rightarrow> hash32) \<Rightarrow> (address \<Rightarrow> bytes) \<Rightarrow> 'w transfer_fn \<Rightarrow> address \<Rightarrow> address \<Rightarrow> address \<Rightarrow>
   'w platform \<Rightarrow> 'w platform \<Rightarrow> bool"
  for sha xdr xfer e v d where
  escrow: "self env = e \<Longrightarrow> \<not> auth env e \<and> \<not> auth env v \<and> \<not> auth env d \<Longrightarrow>
    escrow_exec xfer env c (se, w) = Ok (se', w') \<Longrightarrow>
    platform_step sha xdr xfer e v d ((se, sv, sd), w) ((se', sv, sd), w')"
| vault: "self env = v \<Longrightarrow> \<not> auth env e \<and> \<not> auth env v \<and> \<not> auth env d \<Longrightarrow>
    vault_exec sha xdr xfer env cv (sv, w) = Ok (sv', w') \<Longrightarrow>
    platform_step sha xdr xfer e v d ((se, sv, sd), w) ((se, sv', sd), w')"
| deposits: "self env = d \<Longrightarrow> \<not> auth env e \<and> \<not> auth env v \<and> \<not> auth env d \<Longrightarrow>
    deposits_exec sha xdr xfer env cd (sd, w) = Ok (sd', w') \<Longrightarrow>
    platform_step sha xdr xfer e v d ((se, sv, sd), w) ((se, sv, sd'), w')"

definition platform_ok ::
  "('w \<Rightarrow> address \<Rightarrow> address \<Rightarrow> int) \<Rightarrow> (bytes \<Rightarrow> hash32) \<Rightarrow> address \<Rightarrow> address \<Rightarrow> address \<Rightarrow> 'w platform \<Rightarrow> bool" where
  "platform_ok bal sha e v d = (\<lambda>((se, sv, sd), w).
     escrow_wf se \<and> vault_wf sha sv \<and> deposits_wf sha sd \<and> solvent bal e (escrow_liab se) w \<and>
     solvent bal v (vault_liab sv) w \<and> solvent bal d (deposits_liab sd) w)"

lemma init_liab: "escrow_liab escrow_init t = 0" "vault_liab vault_init t = 0" "deposits_liab deposits_init t = 0"
  by (simp_all add: escrow_liab_def escrow_init_def get_protocol_fee_def vault_liab_def vault_init_def
      deposits_liab_def deposits_init_def)

context token_ledger
begin

lemma platform_step_ok:
  assumes "platform_step sha xdr xfer e v d p p'" "platform_ok bal sha e v d p" "distinct [e, v, d]"
  shows "platform_ok bal sha e v d p'"
  using assms(1)
proof cases
  case (escrow env c se w se' w' sv sd)
  have move: "custody_move xfer (auth env) e (escrow_liab se) w (escrow_liab se') w'" "escrow_wf se'"
    using escrow assms(2) escrow_exec_custody [of xfer env c se w se' w'] escrow_exec_wf
    by (auto simp: platform_ok_def)
  then show ?thesis
    using escrow assms(2,3) custody_move_solvent [OF move(1)] custody_move_solvent_frame [OF move(1)]
    by (auto simp: platform_ok_def)
next
  case (vault env cv sv w sv' w' se sd)
  have move: "custody_move xfer (auth env) v (vault_liab sv) w (vault_liab sv') w'" "vault_wf sha sv'"
    using vault assms(2) vault_exec_custody [of sha xdr xfer env cv sv w sv' w'] vault_exec_wf
    by (auto simp: platform_ok_def)
  then show ?thesis
    using vault assms(2,3) custody_move_solvent [OF move(1)] custody_move_solvent_frame [OF move(1)]
    by (auto simp: platform_ok_def)
next
  case (deposits env cd sd w sd' w' se sv)
  have move: "custody_move xfer (auth env) d (deposits_liab sd) w (deposits_liab sd') w'" "deposits_wf sha sd'"
    using deposits assms(2) deposits_exec_custody [of sha xdr xfer env cd sd w sd' w'] deposits_exec_wf
    by (auto simp: platform_ok_def)
  then show ?thesis
    using deposits assms(2,3) custody_move_solvent [OF move(1)] custody_move_solvent_frame [OF move(1)]
    by (auto simp: platform_ok_def)
qed

lemma platform_run_ok:
  "(platform_step sha xdr xfer e v d)\<^sup>*\<^sup>* p p' \<Longrightarrow> platform_ok bal sha e v d p \<Longrightarrow> distinct [e, v, d] \<Longrightarrow>
   platform_ok bal sha e v d p'"
  by (induction rule: rtranclp_induct) (auto intro: platform_step_ok)

end

text \<open>
  C40. All custodians stay solvent together. When the escrow, vault and deposit contracts run over the
  same tokens and their calls interleave in any order, each of them always holds at least what it
  owes, in every token: no contract can pay its debts with another one's money.
\<close>

theorem platform_solvency:
  assumes ledger: "token_ledger bal xfer" and "inj sha" and "distinct [e, v, d]"
    and run: "(platform_step sha xdr xfer e v d)\<^sup>*\<^sup>* (platform_init, w0) ((se, sv, sd), w)"
    and "\<And>u c. c \<in> {e, v, d} \<Longrightarrow> 0 \<le> bal w0 u c"
  shows "escrow_liab se t \<le> bal w t e \<and> vault_liab sv t \<le> bal w t v \<and> deposits_liab sd t \<le> bal w t d"
proof -
  have "platform_ok bal sha e v d (platform_init, w0)"
    using assms(2,5)
    by (simp add: platform_ok_def platform_init_def escrow_init_wf vault_init_wf deposits_init_wf
        solvent_def init_liab)
  then have "platform_ok bal sha e v d ((se, sv, sd), w)"
    using token_ledger.platform_run_ok [OF ledger run] assms(3) by simp
  then show ?thesis by (simp add: platform_ok_def solvent_def)
qed

text \<open>A run of the escrow contract is a run of the platform.\<close>

lemma escrow_run_platform:
  assumes "run_calls (escrow_exec xfer) cs sw = Ok sw'"
    and "\<And>env c. (env, c) \<in> set cs \<Longrightarrow> self env = e \<and> \<not> auth env e \<and> \<not> auth env v \<and> \<not> auth env d"
  shows "(platform_step sha xdr xfer e v d)\<^sup>*\<^sup>* ((fst sw, sv, sd), snd sw) ((fst sw', sv, sd), snd sw')"
  using assms
proof (induction cs arbitrary: sw)
  case (Cons x cs)
  obtain env c where x: "x = (env, c)" by fastforce
  with Cons.prems(1) obtain sw1 where call: "escrow_exec xfer env c (fst sw, snd sw) = Ok (fst sw1, snd sw1)"
    and rest: "run_calls (escrow_exec xfer) cs sw1 = Ok sw'"
    by (auto simp: outcome_iff)
  have "platform_step sha xdr xfer e v d ((fst sw, sv, sd), snd sw) ((fst sw1, sv, sd), snd sw1)"
    by (rule platform_step.escrow [OF _ _ call]) (use Cons.prems(2) [of env c] x in auto)
  moreover have "(platform_step sha xdr xfer e v d)\<^sup>*\<^sup>* ((fst sw1, sv, sd), snd sw1) ((fst sw', sv, sd), snd sw')"
    by (rule Cons.IH [OF rest]) (use Cons.prems(2) in auto)
  ultimately show ?case by (rule converse_rtranclp_into_rtranclp)
qed simp

definition demo_vaulted :: "vault_state \<times> chv_world" where
  "demo_vaulted = (vault_init\<lparr>VaultCount := Some 1, Vaults := [vault_id id demo_xdr 1 20 2 \<mapsto>
       \<lparr>depositor = 2, recipient = 3, token = 50, amount = 150, approvers = [4, 5], approvals = 0,
        threshold = 2, status = VaultStatus.Pending\<rparr>]\<rparr>,
     (snd demo_funded)(50 := chv_demo2\<lparr>balances := [99 \<mapsto> 300, 2 \<mapsto> 50, 98 \<mapsto> 150]\<rparr>))"

lemma demo_platform_vault:
  "vault_exec id demo_xdr chv_xfer ((escrow_env 20)\<lparr>self := 98\<rparr>) (CreateVault 2 3 50 150 [4, 5] 2)
     (vault_init, snd demo_funded) = Ok (fst demo_vaulted, snd demo_vaulted)"
  by (simp add: demo_vaulted_def demo_defs vault_ops vault_init_def range_defs Let_def)

theorem platform_solvency_witness:
  "escrow_liab (fst demo_funded) 50 \<le> chv_bal (snd demo_vaulted) 50 99 \<and>
   vault_liab (fst demo_vaulted) 50 \<le> chv_bal (snd demo_vaulted) 50 98 \<and> vault_liab (fst demo_vaulted) 50 = 150"
proof -
  have "(platform_step id demo_xdr chv_xfer 99 98 97)\<^sup>*\<^sup>* (platform_init, demo_world)
      ((fst demo_funded, vault_init, deposits_init), snd demo_funded)"
    using escrow_run_platform [OF demo_run, of 99 98 97 id demo_xdr vault_init deposits_init]
    by (fastforce simp: platform_init_def)
  moreover have "platform_step id demo_xdr chv_xfer 99 98 97
      ((fst demo_funded, vault_init, deposits_init), snd demo_funded)
      ((fst demo_funded, fst demo_vaulted, deposits_init), snd demo_vaulted)"
    by (rule platform_step.vault [OF _ _ demo_platform_vault]) auto
  ultimately have run: "(platform_step id demo_xdr chv_xfer 99 98 97)\<^sup>*\<^sup>* (platform_init, demo_world)
      ((fst demo_funded, fst demo_vaulted, deposits_init), snd demo_vaulted)"
    by (rule rtranclp.rtrancl_into_rtrancl)
  have liab: "vault_liab (fst demo_vaulted) 50 = 150"
    by (simp add: vault_liab_def demo_vaulted_def vault_init_def msum_insert held_def)
  have "0 \<le> chv_bal demo_world u c" for u c
    by (simp add: demo_defs chv_bal_def balance_def)
  with platform_solvency [OF chv.token_ledger_axioms _ _ run, of 50] liab show ?thesis by simp
qed

section \<open>Signatures of different domains\<close>

lemma delivery_payload_Ok:
  assumes "delivery_payload sha xdr nid env i e q x s = Ok p"
  obtains ep ev where "Endpoint s i = Some ep" "Event s e = Some ev" "active ep"
    "q = last_sequence ep + 1" "x \<le> timestamp env + MAX_SIGNATURE_TTL"
    "p = Webhook_Signing.signing_payload sha xdr \<lparr>version = Webhook_Signing.ENVELOPE_VERSION, network_id = nid,
       contract = self env, endpoint_id = i, secret_epoch = ep_secret_epoch ep, event_id = e, sequence = q,
       expires_at = x\<rparr> (payload_hash ev)"
  using assms by (auto simp: delivery_payload_def check_expiry_def outcome_iff Let_def)

lemma preimages_of_domains_differ:
  assumes "Signing_Envelope.canonical_preimage sha xdr sx d b = Ok p"
  shows "p \<noteq> Webhook_Signing.canonical_preimage sha xdr e h"
proof -
  have "take 18 p = Signing_Envelope.DOMAIN_TAG"
    using assms by (simp add: outcome_iff)
  moreover have "take 18 (Webhook_Signing.canonical_preimage sha xdr e h) = take 18 Webhook_Signing.DOMAIN_TAG"
    by (simp add: Webhook_Signing.canonical_preimage_def)
  moreover have "take 18 Webhook_Signing.DOMAIN_TAG \<noteq> Signing_Envelope.DOMAIN_TAG"
    by (simp add: Webhook_Signing.DOMAIN_TAG_def Signing_Envelope.DOMAIN_TAG_def ascii_def)
  ultimately show ?thesis by metis
qed

text \<open>
  C39. A webhook digest is good for one delivery. The digest that the outbox hands out for a delivery is
  the digest of no other envelope: not of another network, contract, endpoint, secret generation,
  event, sequence number, expiry or body. And it is no digest of the library's signing scheme, so that
  neither kind of signature can be used as the other. The hypotheses are that the hash gives 32 bytes and
  does not collide on the inputs \<open>I\<close> in question, and that addresses have distinct encodings.
\<close>

theorem webhook_digest_commits:
  assumes digest: "delivery_payload sha xdr nid env i e q x s = Ok p"
    and host: "\<forall>y. length (sha y) = 32" "inj_on sha I" "inj xdr"
    and typed: "length nid = 32" "fits_u64 i" "fits_u64 e" "fits_u64 q" "fits_u64 x"
      "\<forall>ep. Endpoint s i = Some ep \<longrightarrow> fits_u32 (ep_secret_epoch ep)" "envelope_typed w"
    and hashed: "xdr (self env) \<in> I" "xdr (WebhookEnvelope.contract w) \<in> I"
      "\<forall>ep ev. Endpoint s i = Some ep \<longrightarrow> Event s e = Some ev \<longrightarrow>
         Webhook_Signing.canonical_preimage sha xdr \<lparr>version = 1, network_id = nid, contract = self env,
           endpoint_id = i, secret_epoch = ep_secret_epoch ep, event_id = e, sequence = q, expires_at = x\<rparr>
           (payload_hash ev) \<in> I"
      "Webhook_Signing.canonical_preimage sha xdr w h \<in> I"
      "\<forall>y. Signing_Envelope.canonical_preimage sha xdr sx d b = Ok y \<longrightarrow> y \<in> I"
  shows "(Webhook_Signing.signing_payload sha xdr w h = p \<longrightarrow>
      (\<exists>ep ev. Endpoint s i = Some ep \<and> Event s e = Some ev \<and>
        w = \<lparr>version = 1, network_id = nid, contract = self env, endpoint_id = i,
             secret_epoch = ep_secret_epoch ep, event_id = e, sequence = q, expires_at = x\<rparr> \<and>
        h = payload_hash ev)) \<and>
    Signing_Envelope.signing_payload sha xdr sx d b \<noteq> Ok p"
  using digest
proof (rule delivery_payload_Ok)
  fix ep :: WebhookEndpoint and ev :: OutboxEvent
  let ?w = "\<lparr>version = 1, network_id = nid, contract = self env, endpoint_id = i,
    secret_epoch = ep_secret_epoch ep, event_id = e, sequence = q, expires_at = x\<rparr> :: WebhookEnvelope"
  assume ep: "Endpoint s i = Some ep" "Event s e = Some ev"
    and p: "p = Webhook_Signing.signing_payload sha xdr \<lparr>version = Webhook_Signing.ENVELOPE_VERSION,
      network_id = nid, contract = self env, endpoint_id = i, secret_epoch = ep_secret_epoch ep,
      event_id = e, sequence = q, expires_at = x\<rparr> (payload_hash ev)"
  have p': "p = sha (Webhook_Signing.canonical_preimage sha xdr ?w (payload_hash ev))"
    using p by (simp add: Webhook_Signing.signing_payload_def Webhook_Signing.ENVELOPE_VERSION_def)
  have I: "Webhook_Signing.canonical_preimage sha xdr ?w (payload_hash ev) \<in> I"
    using hashed(3) ep by blast
  have tw: "envelope_typed ?w" using typed ep by (simp add: envelope_typed_def range_defs)
  have "w = ?w \<and> h = payload_hash ev" if "Webhook_Signing.signing_payload sha xdr w h = p"
  proof (rule webhook_preimage_inject [of sha])
    show "Webhook_Signing.canonical_preimage sha xdr w h = Webhook_Signing.canonical_preimage sha xdr ?w (payload_hash ev)"
      using that p' host(2) hashed(4) I by (auto simp: Webhook_Signing.signing_payload_def dest: inj_onD)
    show "WebhookEnvelope.contract w = WebhookEnvelope.contract ?w"
      if "sha (xdr (WebhookEnvelope.contract w)) = sha (xdr (WebhookEnvelope.contract ?w))"
      using that host(2,3) hashed(1,2) by (auto dest: inj_onD injD)
  qed (use host(1) typed(7) tw in auto)
  moreover have "Signing_Envelope.signing_payload sha xdr sx d b \<noteq> Ok p"
  proof
    assume "Signing_Envelope.signing_payload sha xdr sx d b = Ok p"
    then obtain y where y: "Signing_Envelope.canonical_preimage sha xdr sx d b = Ok y" "sha y = p"
      by (auto simp: Signing_Envelope.signing_payload_def outcome_iff)
    then have "y = Webhook_Signing.canonical_preimage sha xdr ?w (payload_hash ev)"
      using p' host(2) hashed(5) I by (auto dest: inj_onD)
    with preimages_of_domains_differ [OF y(1)] show False by blast
  qed
  ultimately show ?thesis using ep by blast
qed

text \<open>An outbox at address 0, whose digests are told apart by the last byte of their preimage.\<close>

definition demo_relay :: env where
  "demo_relay = (Outbox_Events.demo_env 30)\<lparr>self := 0\<rparr>"

definition demo_hook :: "address \<Rightarrow> WebhookEnvelope" where
  "demo_hook a = \<lparr>version = 1, network_id = replicate 32 2, contract = a, endpoint_id = 1, secret_epoch = 1,
     event_id = 1, sequence = 1, expires_at = 100\<rparr>"

definition demo_digest :: hash32 where
  "demo_digest = Webhook_Signing.signing_payload demo_sha demo_address_xdr (demo_hook 0) [9]"

definition demo_library :: bytes where
  "demo_library = Signing_Envelope.DOMAIN_TAG @ be_bytes 4 1 @ replicate 32 9 @ demo_sha []
     @ demo_sha (ascii ''payout_wallet_proof'') @ [7]"

definition demo_hashed_inputs :: "bytes set" where
  "demo_hashed_inputs = {[], [1], Webhook_Signing.canonical_preimage demo_sha demo_address_xdr (demo_hook 0) [9],
     Webhook_Signing.canonical_preimage demo_sha demo_address_xdr (demo_hook 1) [8], demo_library}"

lemma demo_library_preimage:
  "Signing_Envelope.canonical_preimage demo_sha demo_address_xdr ascii demo_domain [7] = Ok y \<longleftrightarrow> y = demo_library"
  by (simp add: outcome_iff demo_library_def demo_domain_def Signing_Envelope.ENVELOPE_VERSION_def
      demo_address_xdr_def)

lemma demo_digest_given:
  "delivery_payload demo_sha demo_address_xdr (replicate 32 2) demo_relay 1 1 1 100 demo_enrolled = Ok demo_digest"
  by (simp add: delivery_payload_def load_endpoint_def next_sequence_def check_expiry_def MAX_SIGNATURE_TTL_def
      u64_checked_def range_defs demo_digest_def demo_hook_def demo_relay_def Webhook_Signing.ENVELOPE_VERSION_def
      demo_outbox demo_webhook Let_def)

lemma demo_no_collision: "inj_on demo_sha demo_hashed_inputs"
proof -
  have preimage: "Webhook_Signing.canonical_preimage demo_sha demo_address_xdr w [c] \<noteq> [] \<and>
      last (Webhook_Signing.canonical_preimage demo_sha demo_address_xdr w [c]) = c" for w c
    by (simp add: Webhook_Signing.canonical_preimage_def)
  have "inj_on (hd \<circ> demo_sha) demo_hashed_inputs"
    unfolding demo_hashed_inputs_def
    by (simp add: inj_on_def hd_demo_sha preimage) (simp add: demo_library_def)
  then show ?thesis by (rule inj_on_imageI2)
qed

theorem webhook_digest_commits_witness:
  "Webhook_Signing.signing_payload demo_sha demo_address_xdr (demo_hook 1) [8] \<noteq> demo_digest \<and>
   Signing_Envelope.signing_payload demo_sha demo_address_xdr ascii demo_domain [7] \<noteq> Ok demo_digest"
proof -
  have len: "\<forall>y. length (demo_sha y) = 32" and inj: "inj demo_address_xdr"
    using demo_host by (simp_all add: host_encodings_def)
  have ep: "Endpoint demo_enrolled 1 = Some demo_endpoint" "Event demo_enrolled 1 = Some (demo_event 1)"
    by (simp_all add: demo_enrolled_def demo_queued_def)
  have typed: "length (replicate 32 2 :: bytes) = 32" "fits_u64 1" "fits_u64 1" "fits_u64 1" "fits_u64 100"
    "\<forall>e. Endpoint demo_enrolled 1 = Some e \<longrightarrow> fits_u32 (ep_secret_epoch e)" "envelope_typed (demo_hook 1)"
    by (simp_all add: range_defs ep demo_endpoint_def envelope_typed_def demo_hook_def del: One_nat_def)
  have one: "replicate 1 x = [x]" for x :: byte by simp
  have hashed: "demo_address_xdr (self demo_relay) \<in> demo_hashed_inputs"
    "demo_address_xdr (WebhookEnvelope.contract (demo_hook 1)) \<in> demo_hashed_inputs"
    "\<forall>e v. Endpoint demo_enrolled 1 = Some e \<longrightarrow> Event demo_enrolled 1 = Some v \<longrightarrow>
       Webhook_Signing.canonical_preimage demo_sha demo_address_xdr \<lparr>version = 1, network_id = replicate 32 2,
         contract = self demo_relay, endpoint_id = 1, secret_epoch = ep_secret_epoch e, event_id = 1,
         sequence = 1, expires_at = 100\<rparr> (payload_hash v) \<in> demo_hashed_inputs"
    "Webhook_Signing.canonical_preimage demo_sha demo_address_xdr (demo_hook 1) [8] \<in> demo_hashed_inputs"
    "\<forall>y. Signing_Envelope.canonical_preimage demo_sha demo_address_xdr ascii demo_domain [7] = Ok y \<longrightarrow>
       y \<in> demo_hashed_inputs"
    by (simp_all add: demo_hashed_inputs_def demo_library_preimage ep demo_endpoint_def demo_event_def
        demo_relay_def demo_hook_def demo_address_xdr_def one del: One_nat_def)
  show ?thesis
    using webhook_digest_commits [OF demo_digest_given len demo_no_collision inj typed hashed]
    by (auto simp: ep demo_hook_def demo_relay_def simp del: One_nat_def)
qed

end
